(* ===== verification/Prelude.thy ===== *)
theory Prelude
  imports Main "HOL-Library.Word" "HOL-Library.Finite_Map" "HOL-Library.List_Lexorder"
    "HOL-Library.Char_ord" "HOL-Library.Monad_Syntax" "HOL-Library.Sublist"
    "HOL-Library.Multiset"
begin

unbundle bit_operations_syntax

text \<open>
  Prelude of the development: the machine integers of the Rust sources as words, the
  \<open>Result\<close> type as a sum with its \<open>?\<close> operator, fallible loops, checked and saturating
  integer operations, and totals over finite maps (the model of \<open>HashMap\<close>).
  The lemmas every component proof uses are collected in \<open>result_simps\<close> (inversion of
  successful computations) and \<open>unat_simps\<close> (reading checked operations on natural numbers).
\<close>

named_theorems result_simps \<open>inversion of successful fallible computations\<close>
named_theorems unat_simps \<open>checked and saturating word operations read through unat\<close>

type_synonym u8 = "8 word"
type_synonym u16 = "16 word"
type_synonym u32 = "32 word"
type_synonym u64 = "64 word"
type_synonym u128 = "128 word"
type_synonym usize = "64 word"
type_synonym bytes = "char list"

section \<open>Fallible computations\<close>

text \<open>
  \<open>anyhow::Result\<close> is a sum: \<open>Inl\<close> carries the error, \<open>Inr\<close> the value. \<open>rbind e k\<close> is
  the statement sequence \<open>let x = e?; k x\<close>.
\<close>

definition rbind :: "'e + 'a \<Rightarrow> ('a \<Rightarrow> 'e + 'b) \<Rightarrow> 'e + 'b" where
  "rbind m k = (case m of Inl e \<Rightarrow> Inl e | Inr x \<Rightarrow> k x)"

text \<open>\<open>Option::context(e)\<close> and \<open>Result::ok()\<close>.\<close>

definition ok_or :: "'e \<Rightarrow> 'a option \<Rightarrow> 'e + 'a" where
  "ok_or e m = (case m of None \<Rightarrow> Inl e | Some x \<Rightarrow> Inr x)"

definition to_option :: "'e + 'a \<Rightarrow> 'a option" where
  "to_option m = (case m of Inl _ \<Rightarrow> None | Inr x \<Rightarrow> Some x)"

definition is_ok :: "'e + 'a \<Rightarrow> bool" where
  "is_ok m = (case m of Inl _ \<Rightarrow> False | Inr _ \<Rightarrow> True)"

text \<open>\<open>for x in xs { s = f(x, s)?; }\<close>: stops at the first error.\<close>

fun fold_r :: "('a \<Rightarrow> 's \<Rightarrow> 'e + 's) \<Rightarrow> 'a list \<Rightarrow> 's \<Rightarrow> 'e + 's" where
  "fold_r f [] s = Inr s"
| "fold_r f (x # xs) s = rbind (f x s) (fold_r f xs)"

text \<open>\<open>iter().map(f).collect::<Result<Vec<_>>>()\<close>.\<close>

fun map_r :: "('a \<Rightarrow> 'e + 'b) \<Rightarrow> 'a list \<Rightarrow> 'e + 'b list" where
  "map_r f [] = Inr []"
| "map_r f (x # xs) = rbind (f x) (\<lambda>y. rbind (map_r f xs) (\<lambda>ys. Inr (y # ys)))"

lemma rbind_simps [simp]:
  "rbind (Inl e) k = Inl e"
  "rbind (Inr x) k = k x"
  by (simp_all add: rbind_def)

lemma rbind_eq_Inr [result_simps]:
  "rbind m k = Inr y \<longleftrightarrow> (\<exists>x. m = Inr x \<and> k x = Inr y)"
  by (cases m) simp_all

lemma rbind_eq_Inl [result_simps]:
  "rbind m k = Inl e \<longleftrightarrow> m = Inl e \<or> (\<exists>x. m = Inr x \<and> k x = Inl e)"
  by (cases m) simp_all

lemma rbind_assoc: "rbind (rbind m k) h = rbind m (\<lambda>x. rbind (k x) h)"
  by (cases m) simp_all

lemma rbind_cong [fundef_cong]:
  "m = m' \<Longrightarrow> (\<And>x. m' = Inr x \<Longrightarrow> k x = k' x) \<Longrightarrow> rbind m k = rbind m' k'"
  by (cases m') simp_all

lemma ok_or_simps [simp]:
  "ok_or e None = Inl e"
  "ok_or e (Some x) = Inr x"
  by (simp_all add: ok_or_def)

lemma ok_or_eq_Inr [result_simps]: "ok_or e m = Inr x \<longleftrightarrow> m = Some x"
  by (cases m) simp_all

lemma to_option_simps [simp]:
  "to_option (Inl e) = None"
  "to_option (Inr x) = Some x"
  by (simp_all add: to_option_def)

lemma to_option_eq_Some [result_simps]: "to_option m = Some x \<longleftrightarrow> m = Inr x"
  by (cases m) simp_all

lemma is_ok_simps [simp]:
  "\<not> is_ok (Inl e)"
  "is_ok (Inr x)"
  by (simp_all add: is_ok_def)

lemma is_ok_iff: "is_ok m \<longleftrightarrow> (\<exists>x. m = Inr x)"
  by (cases m) simp_all

lemma not_is_ok_iff: "\<not> is_ok m \<longleftrightarrow> (\<exists>e. m = Inl e)"
  by (cases m) simp_all

lemma if_Inl_eq_Inr [result_simps]:
  "(if c then Inl e else m) = Inr y \<longleftrightarrow> \<not> c \<and> m = Inr y"
  by simp

lemma if_else_Inl_eq_Inr [result_simps]:
  "(if c then m else Inl e) = Inr y \<longleftrightarrow> c \<and> m = Inr y"
  by simp

lemma bind_eq_Some [result_simps]:
  "Option.bind m k = Some y \<longleftrightarrow> (\<exists>x. m = Some x \<and> k x = Some y)"
  by (cases m) simp_all

lemma fold_r_append: "fold_r f (xs @ ys) s = rbind (fold_r f xs s) (fold_r f ys)"
proof (induction xs arbitrary: s)
  case (Cons x xs)
  then have "fold_r f (xs @ ys) = (\<lambda>s. rbind (fold_r f xs s) (fold_r f ys))"
    by (rule ext)
  then show ?case by (simp add: rbind_assoc)
qed simp

lemma fold_r_inv:
  assumes "fold_r f xs s = Inr t" and "P s"
    and "\<And>x u v. x \<in> set xs \<Longrightarrow> P u \<Longrightarrow> f x u = Inr v \<Longrightarrow> P v"
  shows "P t"
  using assms by (induction xs arbitrary: s) (auto simp: result_simps)

lemma fold_r_cong [fundef_cong]:
  assumes "xs = ys" and "s = t" and "\<And>x u. x \<in> set ys \<Longrightarrow> f x u = g x u"
  shows "fold_r f xs s = fold_r g ys t"
proof -
  have "\<forall>u. fold_r f ys u = fold_r g ys u"
    using assms(3)
  proof (induction ys)
    case (Cons y ys)
    then have "fold_r f ys = fold_r g ys" by (auto simp: fun_eq_iff)
    with Cons.prems show ?case by simp
  qed simp
  with assms(1,2) show ?thesis by simp
qed

lemma map_r_length: "map_r f xs = Inr ys \<Longrightarrow> length ys = length xs"
  by (induction xs arbitrary: ys) (auto simp: result_simps)

section \<open>Replaying a history\<close>

text \<open>
  Many components derive their state by replaying blocks from a start state with a fallible
  step. The contract is one locale: an invariant of the start state that every step keeps.
\<close>

locale replay =
  fixes step :: "'b \<Rightarrow> 's \<Rightarrow> 'e + 's"
    and init :: 's
    and inv :: "'s \<Rightarrow> bool"
  assumes inv_init: "inv init"
    and inv_step: "inv s \<Longrightarrow> step b s = Inr t \<Longrightarrow> inv t"
begin

lemma replay_keeps: "inv s \<Longrightarrow> fold_r step bs s = Inr t \<Longrightarrow> inv t"
  by (rule fold_r_inv [where P = inv]) (auto intro: inv_step)

lemma replay_inv: "fold_r step bs init = Inr t \<Longrightarrow> inv t"
  using inv_init by (rule replay_keeps)

text \<open>Replaying a longer history goes through the state of every prefix.\<close>

lemma replay_prefix:
  assumes "fold_r step (bs @ cs) init = Inr t"
  obtains s where "fold_r step bs init = Inr s" and "inv s" and "fold_r step cs s = Inr t"
  using assms by (auto simp: fold_r_append result_simps intro: replay_inv)

end

text \<open>A history read step by step that also relates successive states.\<close>

locale replay_monotone = replay +
  fixes le :: "'b \<Rightarrow> 'b \<Rightarrow> bool"
  assumes le_refl: "le s s"
    and le_trans: "le s t \<Longrightarrow> le t u \<Longrightarrow> le s u"
    and le_step: "inv s \<Longrightarrow> step b s = Inr t \<Longrightarrow> le s t"
begin

lemma replay_le: "inv s \<Longrightarrow> fold_r step bs s = Inr t \<Longrightarrow> le s t"
proof (induction bs arbitrary: s)
  case Nil
  then show ?case by (simp add: le_refl)
next
  case (Cons b bs)
  then obtain u where u: "step b s = Inr u" "fold_r step bs u = Inr t"
    by (auto simp: result_simps)
  with Cons.prems(1) have "inv u" by (blast intro: inv_step)
  with Cons.IH u have "le u t" by blast
  with u Cons.prems(1) show ?case by (blast intro: le_trans le_step)
qed

end

text \<open>
  A checking step that accepts an item only in ways a recording step repeats: validating a block
  and replaying it afterwards end in related states.
\<close>

locale checked_replay =
  fixes check :: "'b \<Rightarrow> 's \<Rightarrow> 'e + 's"
    and record_step :: "'b \<Rightarrow> 't \<Rightarrow> 'e + 't"
    and rel :: "'s \<Rightarrow> 't \<Rightarrow> bool"
  assumes check_step: "rel s t \<Longrightarrow> check b s = Inr s' \<Longrightarrow> \<exists>t'. record_step b t = Inr t' \<and> rel s' t'"
begin

lemma checked_then_recorded:
  "rel s t \<Longrightarrow> fold_r check bs s = Inr s' \<Longrightarrow> \<exists>t'. fold_r record_step bs t = Inr t' \<and> rel s' t'"
proof (induction bs arbitrary: s t)
  case (Cons b bs)
  then obtain u where u: "check b s = Inr u" "fold_r check bs u = Inr s'" by (auto simp: result_simps)
  from check_step [OF Cons.prems(1) u(1)] obtain t1 where t1: "record_step b t = Inr t1" "rel u t1" by blast
  with Cons.IH [OF t1(2) u(2)] show ?case by simp
qed simp

end

text \<open>\<open>blocks.iter().enumerate().skip(1)\<close>: every block but the genesis, with its height.\<close>

definition numbered :: "'a list \<Rightarrow> (nat \<times> 'a) list" where
  "numbered bs = drop 1 (enumerate 0 bs)"

lemma enumerate_snoc: "enumerate n (xs @ [x]) = enumerate n xs @ [(n + length xs, x)]"
  by (induction xs arbitrary: n) simp_all

lemma numbered_snoc: "bs \<noteq> [] \<Longrightarrow> numbered (bs @ [b]) = numbered bs @ [(length bs, b)]"
  by (cases bs) (simp_all add: numbered_def enumerate_snoc)

lemma numbered_singleton [simp]: "numbered [b] = []"
  by (simp add: numbered_def)

lemma numbered_Nil [simp]: "numbered [] = []"
  by (simp add: numbered_def)

lemma numbered_append:
  "bs \<noteq> [] \<Longrightarrow> numbered (bs @ cs) = numbered bs @ enumerate (length bs) cs"
  by (cases bs) (simp_all add: numbered_def enumerate_append_eq)

section \<open>Checked and saturating integers\<close>

definition checked_add :: "'w::len word \<Rightarrow> 'w word \<Rightarrow> 'w word option" where
  "checked_add a b = (if unat a + unat b < 2 ^ LENGTH('w) then Some (a + b) else None)"

definition checked_sub :: "'w::len word \<Rightarrow> 'w word \<Rightarrow> 'w word option" where
  "checked_sub a b = (if b \<le> a then Some (a - b) else None)"

definition checked_mul :: "'w::len word \<Rightarrow> 'w word \<Rightarrow> 'w word option" where
  "checked_mul a b = (if unat a * unat b < 2 ^ LENGTH('w) then Some (a * b) else None)"

definition sat_add :: "'w::len word \<Rightarrow> 'w word \<Rightarrow> 'w word" where
  "sat_add a b = (if unat a + unat b < 2 ^ LENGTH('w) then a + b else - 1)"

definition sat_sub :: "'w::len word \<Rightarrow> 'w word \<Rightarrow> 'w word" where
  "sat_sub a b = (if b \<le> a then a - b else 0)"

definition sat_mul :: "'w::len word \<Rightarrow> 'w word \<Rightarrow> 'w word" where
  "sat_mul a b = (if unat a * unat b < 2 ^ LENGTH('w) then a * b else - 1)"

lemma unat_bound: "unat (a :: 'w::len word) < 2 ^ LENGTH('w)"
  by (rule unsigned_less)

lemma checked_add_Some [unat_simps]:
  "checked_add a b = Some c \<longleftrightarrow> unat c = unat a + unat b"
proof
  assume "checked_add a b = Some c"
  then show "unat c = unat a + unat b"
    by (auto simp: checked_add_def unat_word_ariths split: if_splits)
next
  assume *: "unat c = unat a + unat b"
  then have "unat a + unat b < 2 ^ LENGTH('a)" using unat_bound [of c] by simp
  then show "checked_add a b = Some c"
    using * by (auto simp: checked_add_def unat_word_ariths intro: word_unat_eq_iff [THEN iffD2])
qed

lemma checked_sub_Some [unat_simps]:
  "checked_sub a b = Some c \<longleftrightarrow> unat a = unat b + unat c"
proof
  assume "checked_sub a b = Some c"
  then show "unat a = unat b + unat c"
    by (auto simp: checked_sub_def unat_sub word_le_nat_alt split: if_splits)
next
  assume *: "unat a = unat b + unat c"
  then have le: "b \<le> a" by (simp add: word_le_nat_alt)
  with * have "unat (a - b) = unat c" by (simp add: unat_sub)
  with le show "checked_sub a b = Some c"
    by (auto simp: checked_sub_def intro: word_unat_eq_iff [THEN iffD2])
qed

lemma checked_mul_Some [unat_simps]:
  "checked_mul a b = Some c \<longleftrightarrow> unat c = unat a * unat b"
proof
  assume "checked_mul a b = Some c"
  then show "unat c = unat a * unat b"
    by (auto simp: checked_mul_def unat_word_ariths split: if_splits)
next
  assume *: "unat c = unat a * unat b"
  then have "unat a * unat b < 2 ^ LENGTH('a)" using unat_bound [of c] by simp
  then show "checked_mul a b = Some c"
    using * by (auto simp: checked_mul_def unat_word_ariths intro: word_unat_eq_iff [THEN iffD2])
qed

lemma checked_add_None: "checked_add a b = None \<longleftrightarrow> 2 ^ LENGTH('w) \<le> unat a + unat b"
  for a b :: "'w::len word"
  by (auto simp: checked_add_def)

lemma unat_max: "unat (- 1 :: 'w::len word) = 2 ^ LENGTH('w) - 1"
  by (simp add: unsigned_minus_1_eq_mask mask_eq_exp_minus_1)

lemma unat_sat_add: "unat (sat_add a b) = min (unat a + unat b) (2 ^ LENGTH('w) - 1)"
  for a b :: "'w::len word"
  by (auto simp: sat_add_def unat_word_ariths unat_max)

lemma unat_sat_sub [unat_simps]: "unat (sat_sub a b) = unat a - unat b"
  by (auto simp: sat_sub_def unat_sub word_le_nat_alt)

lemma unat_sat_mul: "unat (sat_mul a b) = min (unat a * unat b) (2 ^ LENGTH('w) - 1)"
  for a b :: "'w::len word"
  by (auto simp: sat_mul_def unat_word_ariths unat_max)

lemma unat_of_nat_less: "n < 2 ^ LENGTH('w) \<Longrightarrow> unat (of_nat n :: 'w::len word) = n"
  by (simp add: unat_of_nat take_bit_nat_eq_self)

lemma unat_of_nat_le: "unat (of_nat n :: 'w::len word) \<le> n"
  by (simp add: unat_of_nat)

section \<open>Totals over finite maps\<close>

definition fm_total :: "('v \<Rightarrow> nat) \<Rightarrow> ('k, 'v) fmap \<Rightarrow> nat" where
  "fm_total f m = (\<Sum>k \<in> fmdom' m. f (the (fmlookup m k)))"

lemma fm_total_empty [simp]: "fm_total f fmempty = 0"
  by (simp add: fm_total_def)

lemma fm_total_upd_new:
  assumes "fmlookup m k = None"
  shows "fm_total f (fmupd k v m) = f v + fm_total f m"
proof -
  have k: "k \<notin> fmdom' m" using assms by (simp add: fmdom'_notI)
  have "(\<Sum>j \<in> fmdom' m. f (the (fmlookup (fmupd k v m) j))) =
      (\<Sum>j \<in> fmdom' m. f (the (fmlookup m j)))"
    by (rule sum.cong) (use k in auto)
  with k show ?thesis by (simp add: fm_total_def)
qed

lemma fm_total_drop:
  assumes "fmlookup m k = Some v"
  shows "fm_total f m = f v + fm_total f (fmdrop k m)"
proof -
  have k: "k \<in> fmdom' m" using assms by (rule fmdom'I)
  have "(\<Sum>j \<in> fmdom' m - {k}. f (the (fmlookup (fmdrop k m) j))) =
      (\<Sum>j \<in> fmdom' m - {k}. f (the (fmlookup m j)))"
    by (rule sum.cong) auto
  with k assms show ?thesis
    by (simp add: fm_total_def sum.remove [of _ k])
qed

lemma fmupd_drop: "fmupd k v (fmdrop k m) = fmupd k v m"
  by (rule fmap_ext) simp

lemma fm_total_upd:
  "fm_total f (fmupd k v m) + (case fmlookup m k of None \<Rightarrow> 0 | Some w \<Rightarrow> f w) = f v + fm_total f m"
proof (cases "fmlookup m k")
  case None
  then show ?thesis by (simp add: fm_total_upd_new)
next
  case (Some w)
  have "fm_total f (fmupd k v m) = f v + fm_total f (fmdrop k m)"
    using fm_total_upd_new [of "fmdrop k m" k f v] by (simp add: fmupd_drop)
  with Some show ?thesis by (simp add: fm_total_drop [OF Some])
qed

lemma fm_total_ge: "fmlookup m k = Some v \<Longrightarrow> f v \<le> fm_total f m"
  by (simp add: fm_total_drop)

text \<open>\<open>*map.get(k).unwrap_or(0)\<close>.\<close>

definition get_or0 :: "('k, 'v::zero) fmap \<Rightarrow> 'k \<Rightarrow> 'v" where
  "get_or0 m k = (case fmlookup m k of None \<Rightarrow> 0 | Some v \<Rightarrow> v)"

lemma get_or0_upd [simp]: "get_or0 (fmupd k v m) j = (if k = j then v else get_or0 m j)"
  by (simp add: get_or0_def)

lemma get_or0_empty [simp]: "get_or0 fmempty k = 0"
  by (simp add: get_or0_def)

lemma fm_total_upd0:
  assumes "f 0 = 0"
  shows "fm_total f (fmupd k v m) + f (get_or0 m k) = f v + fm_total f m"
  using fm_total_upd [of f k v m] assms by (simp add: get_or0_def split: option.splits)

lemma fm_total_ge0: "f 0 = 0 \<Longrightarrow> f (get_or0 m k) \<le> fm_total f m"
  by (simp add: get_or0_def fm_total_ge split: option.splits)

lemma fmsubset_refl [simp]: "m \<subseteq>\<^sub>f m"
  by (simp add: fmsubset_alt_def fmpred_iff)

lemma fmsubset_trans: "m \<subseteq>\<^sub>f n \<Longrightarrow> n \<subseteq>\<^sub>f p \<Longrightarrow> m \<subseteq>\<^sub>f p"
  by (auto simp: fmsubset_alt_def fmpred_iff)

lemma fmsubset_upd_new: "fmlookup m k = None \<Longrightarrow> m \<subseteq>\<^sub>f fmupd k v m"
  by (auto simp: fmsubset_alt_def fmpred_iff)

lemma fmsubset_lookup: "m \<subseteq>\<^sub>f n \<Longrightarrow> fmlookup m k = Some v \<Longrightarrow> fmlookup n k = Some v"
  by (auto simp: fmsubset_alt_def fmpred_iff)

section \<open>Lists\<close>

lemma sum_list_unat_le: "x \<in> set xs \<Longrightarrow> f x \<le> sum_list (map f xs)" for f :: "'a \<Rightarrow> nat"
  by (induction xs) auto

text \<open>\<open>HashSet::insert\<close> in a loop that stops at the first repeated element.\<close>

fun all_fresh :: "'a list \<Rightarrow> 'a set \<Rightarrow> bool" where
  "all_fresh [] seen = True"
| "all_fresh (x # xs) seen = (if x \<in> seen then False else all_fresh xs (insert x seen))"

lemma all_fresh_iff: "all_fresh xs seen \<longleftrightarrow> distinct xs \<and> set xs \<inter> seen = {}"
  by (induction xs arbitrary: seen) auto

text \<open>\<open>if let Some(x) = xs.iter_mut().find(p) { f(x) }\<close>.\<close>

fun update_first :: "('a \<Rightarrow> bool) \<Rightarrow> ('a \<Rightarrow> 'a) \<Rightarrow> 'a list \<Rightarrow> 'a list" where
  "update_first p f [] = []"
| "update_first p f (x # xs) = (if p x then f x # xs else x # update_first p f xs)"

lemma map_update_first: "(\<And>x. g (f x) = g x) \<Longrightarrow> map g (update_first p f xs) = map g xs"
  by (induction xs) simp_all

lemma filter_update_first_same:
  "(\<And>x. p (f x) = p x) \<Longrightarrow> filter p (update_first p f xs) =
    (case filter p xs of [] \<Rightarrow> [] | y # ys \<Rightarrow> f y # ys)"
  by (induction xs) auto

lemma filter_update_first_other:
  "(\<And>x. p x \<Longrightarrow> \<not> q x) \<Longrightarrow> (\<And>x. q (f x) = q x) \<Longrightarrow> filter q (update_first p f xs) = filter q xs"
  by (induction xs) auto

lemma set_update_first: "x \<in> set (update_first p f xs) \<Longrightarrow> x \<in> set xs \<or> (\<exists>y \<in> set xs. p y \<and> x = f y)"
  by (induction xs) (auto split: if_splits)

text \<open>\<open>sort_by\<close>: the stable sort by a comparison, given as "not greater".\<close>

fun insert_by :: "('a \<Rightarrow> 'a \<Rightarrow> bool) \<Rightarrow> 'a \<Rightarrow> 'a list \<Rightarrow> 'a list" where
  "insert_by le x [] = [x]"
| "insert_by le x (y # ys) = (if le x y then x # y # ys else y # insert_by le x ys)"

definition sort_by :: "('a \<Rightarrow> 'a \<Rightarrow> bool) \<Rightarrow> 'a list \<Rightarrow> 'a list" where
  "sort_by le xs = foldr (insert_by le) xs []"

lemma mset_insert_by [simp]: "mset (insert_by le x ys) = add_mset x (mset ys)"
  by (induction ys) simp_all

lemma mset_sort_by [simp]: "mset (sort_by le xs) = mset xs"
  by (induction xs) (simp_all add: sort_by_def)

lemma set_sort_by [simp]: "set (sort_by le xs) = set xs"
  using mset_sort_by [of le xs] by (metis set_mset_mset)

lemma length_sort_by [simp]: "length (sort_by le xs) = length xs"
  using mset_sort_by [of le xs] by (metis size_mset)

lemma filter_insert_by:
  "(\<And>y. y \<in> set ys \<Longrightarrow> p x \<Longrightarrow> p y \<Longrightarrow> le x y) \<Longrightarrow>
    filter p (insert_by le x ys) = (if p x then x # filter p ys else filter p ys)"
proof (induction ys)
  case (Cons y ys)
  show ?case using Cons.IH Cons.prems by (cases "le x y") auto
qed simp

lemma filter_sort_by:
  "sorted_wrt (\<lambda>x y. p x \<longrightarrow> p y \<longrightarrow> le x y) xs \<Longrightarrow> filter p (sort_by le xs) = filter p xs"
proof (induction xs)
  case (Cons x xs)
  have "filter p (insert_by le x (sort_by le xs)) = (if p x then x # filter p (sort_by le xs) else filter p (sort_by le xs))"
    using Cons.prems by (intro filter_insert_by) auto
  with Cons show ?case by (simp add: sort_by_def)
qed (simp add: sort_by_def)

end
