(* ===== verification/RustStr.thy ===== *)
theory RustStr
  imports Prelude
begin

text \<open>
  The parts of Rust's standard library for strings and bytes that the sources use. A \<open>String\<close>
  is the list of its UTF-8 bytes (an Isabelle \<open>char\<close> is one byte), so \<open>as_bytes\<close> and
  \<open>into_bytes\<close> are the identity and \<open>len\<close> is \<open>length\<close>.
\<close>

section \<open>Character classes\<close>

definition is_ascii_digit :: "char \<Rightarrow> bool" where
  "is_ascii_digit c = (CHR ''0'' \<le> c \<and> c \<le> CHR ''9'')"

definition is_ascii_lowercase :: "char \<Rightarrow> bool" where
  "is_ascii_lowercase c = (CHR ''a'' \<le> c \<and> c \<le> CHR ''z'')"

definition is_ascii_uppercase :: "char \<Rightarrow> bool" where
  "is_ascii_uppercase c = (CHR ''A'' \<le> c \<and> c \<le> CHR ''Z'')"

definition is_ascii_alphanumeric :: "char \<Rightarrow> bool" where
  "is_ascii_alphanumeric c = (is_ascii_digit c \<or> is_ascii_lowercase c \<or> is_ascii_uppercase c)"

definition is_ascii_hexdigit :: "char \<Rightarrow> bool" where
  "is_ascii_hexdigit c =
     (is_ascii_digit c \<or> (CHR ''a'' \<le> c \<and> c \<le> CHR ''f'') \<or> (CHR ''A'' \<le> c \<and> c \<le> CHR ''F''))"

definition is_ascii_graphic :: "char \<Rightarrow> bool" where
  "is_ascii_graphic c = (CHR ''!'' \<le> c \<and> c \<le> CHR ''~'')"

lemmas char_class_defs =
  is_ascii_digit_def is_ascii_lowercase_def is_ascii_uppercase_def is_ascii_alphanumeric_def
  is_ascii_hexdigit_def is_ascii_graphic_def

lemma digit_graphic: "is_ascii_digit c \<Longrightarrow> is_ascii_graphic c"
  by (auto simp: char_class_defs less_eq_char_def)

lemma lowercase_graphic: "is_ascii_lowercase c \<Longrightarrow> is_ascii_graphic c"
  by (auto simp: char_class_defs less_eq_char_def)

lemma hexdigit_graphic: "is_ascii_hexdigit c \<Longrightarrow> is_ascii_graphic c"
  by (auto simp: char_class_defs less_eq_char_def)

definition ascii_lower :: "char \<Rightarrow> char" where
  "ascii_lower c = (if is_ascii_uppercase c then char_of (of_char c + 32 :: nat) else c)"

definition ascii_upper :: "char \<Rightarrow> char" where
  "ascii_upper c = (if is_ascii_lowercase c then char_of (of_char c - 32 :: nat) else c)"

definition to_ascii_lowercase :: "string \<Rightarrow> string" where
  "to_ascii_lowercase s = map ascii_lower s"

definition to_ascii_uppercase :: "string \<Rightarrow> string" where
  "to_ascii_uppercase s = map ascii_upper s"

section \<open>Prefixes, suffixes and splitting\<close>

definition starts_with :: "'a list \<Rightarrow> 'a list \<Rightarrow> bool" where
  "starts_with s p = (take (length p) s = p)"

definition ends_with :: "'a list \<Rightarrow> 'a list \<Rightarrow> bool" where
  "ends_with s p = starts_with (rev s) (rev p)"

definition strip_prefix :: "'a list \<Rightarrow> 'a list \<Rightarrow> 'a list option" where
  "strip_prefix s p = (if starts_with s p then Some (drop (length p) s) else None)"

definition strip_suffix :: "'a list \<Rightarrow> 'a list \<Rightarrow> 'a list option" where
  "strip_suffix s p = (if ends_with s p then Some (take (length s - length p) s) else None)"

lemma starts_with_append [simp]: "starts_with (p @ s) p"
  by (simp add: starts_with_def)

lemma starts_with_iff: "starts_with s p \<longleftrightarrow> (\<exists>t. s = p @ t)"
  unfolding starts_with_def by (metis append_take_drop_id append_eq_conv_conj)

text \<open>\<open>s.split(c)\<close> collected: always at least one field.\<close>

fun split_on :: "'a \<Rightarrow> 'a list \<Rightarrow> 'a list list" where
  "split_on c [] = [[]]"
| "split_on c (x # xs) =
     (if x = c then [] # split_on c xs
      else (case split_on c xs of [] \<Rightarrow> [[x]] | p # ps \<Rightarrow> (x # p) # ps))"

lemma split_on_nonempty [simp]: "split_on c s \<noteq> []"
  by (cases s) (auto split: list.splits)

lemma split_on_no_sep: "c \<notin> set s \<Longrightarrow> split_on c s = [s]"
  by (induction s) auto

lemma split_on_append: "c \<notin> set a \<Longrightarrow> split_on c (a @ c # b) = a # split_on c b"
  by (induction a) auto

lemma split_on_fields: "p \<in> set (split_on c s) \<Longrightarrow> c \<notin> set p"
  by (induction s arbitrary: p) (auto split: list.splits if_splits)

text \<open>Fields separated by \<open>|\<close>, as the marker scripts of the sources are written.\<close>

fun join_with :: "'a \<Rightarrow> 'a list list \<Rightarrow> 'a list" where
  "join_with c [] = []"
| "join_with c [x] = x"
| "join_with c (x # y # ys) = x @ c # join_with c (y # ys)"

definition pipes :: "string list \<Rightarrow> string" where
  "pipes fs = join_with (CHR ''|'') fs"

lemma split_on_join: "xs \<noteq> [] \<Longrightarrow> (\<forall>x \<in> set xs. c \<notin> set x) \<Longrightarrow> split_on c (join_with c xs) = xs"
  by (induction c xs rule: join_with.induct) (auto simp: split_on_no_sep split_on_append)

lemma split_on_pipes:
  "fs \<noteq> [] \<Longrightarrow> list_all (\<lambda>f. CHR ''|'' \<notin> set f) fs \<Longrightarrow> split_on (CHR ''|'') (pipes fs) = fs"
  by (simp add: pipes_def split_on_join list_all_iff)

lemma list_all_join: "P c \<Longrightarrow> list_all P (join_with c xs) \<longleftrightarrow> list_all (list_all P) xs"
  by (induction c xs rule: join_with.induct) auto

lemma join_split_on: "join_with c (split_on c s) = s"
proof (induction s)
  case (Cons x xs)
  obtain p ps where "split_on c xs = p # ps" by (metis list.exhaust split_on_nonempty)
  with Cons show ?case by (cases ps) auto
qed simp

text \<open>\<open>s.split_once(c)\<close>.\<close>

fun split_once :: "'a \<Rightarrow> 'a list \<Rightarrow> ('a list \<times> 'a list) option" where
  "split_once c [] = None"
| "split_once c (x # xs) =
     (if x = c then Some ([], xs) else map_option (\<lambda>(a, b). (x # a, b)) (split_once c xs))"

lemma split_once_append: "c \<notin> set a \<Longrightarrow> split_once c (a @ c # b) = Some (a, b)"
  by (induction a) auto

lemma split_once_Some: "split_once c s = Some (a, b) \<Longrightarrow> s = a @ c # b \<and> c \<notin> set a"
  by (induction s arbitrary: a) (auto split: if_splits)

lemma split_once_None: "split_once c s = None \<longleftrightarrow> c \<notin> set s"
  by (induction s) auto

text \<open>\<open>s.windows(p.len()).position(|w| w == p)\<close> for a non-empty \<open>p\<close>.\<close>

fun position_of :: "'a list \<Rightarrow> 'a list \<Rightarrow> nat option" where
  "position_of p [] = None"
| "position_of p (x # xs) =
     (if starts_with (x # xs) p then Some 0 else map_option Suc (position_of p xs))"

text \<open>\<open>s.trim_end_matches(c)\<close> for one character, and for a string pattern.\<close>

definition trim_end_char :: "'a \<Rightarrow> 'a list \<Rightarrow> 'a list" where
  "trim_end_char c s = rev (dropWhile (\<lambda>x. x = c) (rev s))"

function strip_all :: "'a list \<Rightarrow> 'a list \<Rightarrow> 'a list" where
  "strip_all p s =
     (if p \<noteq> [] \<and> starts_with s p then strip_all p (drop (length p) s) else s)"
  by pat_completeness auto
termination
proof (relation "measure (\<lambda>(p, s). length s)")
  fix p s :: "'a list"
  assume "p \<noteq> [] \<and> starts_with s p"
  then have "0 < length p" "length p \<le> length s"
    by (auto simp: starts_with_iff)
  then have "length s - length p < length s" by linarith
  then show "((p, drop (length p) s), (p, s)) \<in> measure (\<lambda>(p, s). length s)" by simp
qed simp

declare strip_all.simps [simp del]

definition trim_end_str :: "'a list \<Rightarrow> 'a list \<Rightarrow> 'a list" where
  "trim_end_str p s = rev (strip_all (rev p) (rev s))"

section \<open>Unicode white space and trim\<close>

text \<open>
  \<open>str::trim\<close> removes the characters of Unicode's \<open>White_Space\<close>. Here are their UTF-8
  encodings; on valid UTF-8, matching an encoding at either end is matching a character.
\<close>

definition ws_encodings :: "bytes list" where
  "ws_encodings =
     [[CHR 0x09], [CHR 0x0A], [CHR 0x0B], [CHR 0x0C], [CHR 0x0D], [CHR 0x20],
      [CHR 0xC2, CHR 0x85], [CHR 0xC2, CHR 0xA0], [CHR 0xE1, CHR 0x9A, CHR 0x80],
      [CHR 0xE2, CHR 0x80, CHR 0x80], [CHR 0xE2, CHR 0x80, CHR 0x81], [CHR 0xE2, CHR 0x80, CHR 0x82],
      [CHR 0xE2, CHR 0x80, CHR 0x83], [CHR 0xE2, CHR 0x80, CHR 0x84], [CHR 0xE2, CHR 0x80, CHR 0x85],
      [CHR 0xE2, CHR 0x80, CHR 0x86], [CHR 0xE2, CHR 0x80, CHR 0x87], [CHR 0xE2, CHR 0x80, CHR 0x88],
      [CHR 0xE2, CHR 0x80, CHR 0x89], [CHR 0xE2, CHR 0x80, CHR 0x8A], [CHR 0xE2, CHR 0x80, CHR 0xA8],
      [CHR 0xE2, CHR 0x80, CHR 0xA9], [CHR 0xE2, CHR 0x80, CHR 0xAF], [CHR 0xE2, CHR 0x81, CHR 0x9F],
      [CHR 0xE3, CHR 0x80, CHR 0x80]]"

function trim_encs :: "bytes list \<Rightarrow> bytes \<Rightarrow> bytes" where
  "trim_encs es s =
     (case find (\<lambda>e. e \<noteq> [] \<and> starts_with s e) es of
        None \<Rightarrow> s
      | Some e \<Rightarrow> trim_encs es (drop (length e) s))"
  by pat_completeness auto
termination
proof (relation "measure (\<lambda>(es, s). length s)")
  fix es :: "bytes list" and s e :: bytes
  assume "find (\<lambda>e. e \<noteq> [] \<and> starts_with s e) es = Some e"
  then have "e \<noteq> []" "starts_with s e" by (auto simp: find_Some_iff)
  then have "0 < length e" "length e \<le> length s" by (auto simp: starts_with_iff)
  then have "length s - length e < length s" by linarith
  then show "((es, drop (length e) s), (es, s)) \<in> measure (\<lambda>(es, s). length s)" by simp
qed simp

declare trim_encs.simps [simp del]

definition trim_start :: "string \<Rightarrow> string" where
  "trim_start s = trim_encs ws_encodings s"

definition trim_end :: "string \<Rightarrow> string" where
  "trim_end s = rev (trim_encs (map rev ws_encodings) (rev s))"

definition trim :: "string \<Rightarrow> string" where
  "trim s = trim_end (trim_start s)"

lemma ws_encodings_not_graphic:
  "\<forall>e \<in> set ws_encodings. \<not> is_ascii_graphic (hd e) \<and> \<not> is_ascii_graphic (last e)"
  by (simp add: ws_encodings_def is_ascii_graphic_def)

lemma starts_with_Cons: "e \<noteq> [] \<Longrightarrow> starts_with (c # cs) e \<Longrightarrow> hd e = c"
  by (cases e) (simp_all add: starts_with_def)

lemma starts_with_Cons_rev: "e \<noteq> [] \<Longrightarrow> starts_with (c # cs) (rev e) \<Longrightarrow> last e = c"
  using starts_with_Cons [of "rev e" c cs] by (simp add: hd_rev)

lemma find_ws_None:
  assumes "is_ascii_graphic c"
  shows "find (\<lambda>e. e \<noteq> [] \<and> starts_with (c # cs) e) ws_encodings = None"
    and "find (\<lambda>e. e \<noteq> [] \<and> starts_with (c # cs) e) (map rev ws_encodings) = None"
  using assms ws_encodings_not_graphic
  by (auto simp: find_None_iff dest: starts_with_Cons starts_with_Cons_rev)

lemma trim_encs_graphic:
  assumes "is_ascii_graphic c"
  shows "trim_encs ws_encodings (c # cs) = c # cs"
    and "trim_encs (map rev ws_encodings) (c # cs) = c # cs"
  by (simp_all add: trim_encs.simps [of _ "c # cs"] find_ws_None [OF assms])

lemma trim_Nil [simp]: "trim [] = []"
proof -
  have "find (\<lambda>e. e \<noteq> [] \<and> starts_with [] e) es = None" for es :: "bytes list"
    by (auto simp: find_None_iff starts_with_def)
  then show ?thesis
    by (simp add: trim_def trim_start_def trim_end_def trim_encs.simps)
qed

lemma trim_graphic:
  assumes "s \<noteq> []" and "is_ascii_graphic (hd s)" and "is_ascii_graphic (last s)"
  shows "trim s = s"
proof -
  obtain c cs where s: "s = c # cs" using assms(1) by (cases s) auto
  obtain d ds where r: "rev s = d # ds" using assms(1) by (cases "rev s") auto
  with assms(3) have d: "is_ascii_graphic d" by (metis hd_rev list.sel(1))
  have start: "trim_start s = s"
    using assms(2) by (simp add: s trim_start_def trim_encs_graphic)
  have "trim_end s = rev (d # ds)"
    using d by (simp only: trim_end_def r trim_encs_graphic)
  with start r show ?thesis by (simp add: trim_def r [symmetric])
qed

lemma trim_all_graphic: "(\<And>c. c \<in> set s \<Longrightarrow> is_ascii_graphic c) \<Longrightarrow> trim s = s"
  by (cases "s = []") (auto intro: trim_graphic)

lemma trim_encs_fixed: "find (\<lambda>e. e \<noteq> [] \<and> starts_with (trim_encs es s) e) es = None"
proof (induction es s rule: trim_encs.induct)
  case (1 es s)
  show ?case
  proof (cases "find (\<lambda>e. e \<noteq> [] \<and> starts_with s e) es")
    case None
    then show ?thesis by (simp add: trim_encs.simps [of es s])
  next
    case (Some e)
    with 1 show ?thesis by (simp add: trim_encs.simps [of es s])
  qed
qed

lemma trim_encs_None: "find (\<lambda>e. e \<noteq> [] \<and> starts_with s e) es = None \<Longrightarrow> trim_encs es s = s"
  by (simp add: trim_encs.simps [of es s])

lemma trim_encs_suffix: "\<exists>p. s = p @ trim_encs es s"
proof (induction es s rule: trim_encs.induct)
  case (1 es s)
  show ?case
  proof (cases "find (\<lambda>e. e \<noteq> [] \<and> starts_with s e) es")
    case None
    then show ?thesis by (simp add: trim_encs_None)
  next
    case (Some e)
    with 1 obtain p where "drop (length e) s = p @ trim_encs es (drop (length e) s)" by blast
    then have "s = (take (length e) s @ p) @ trim_encs es (drop (length e) s)" by (metis append_assoc append_take_drop_id)
    then have "\<exists>q. s = q @ trim_encs es (drop (length e) s)" by blast
    with Some show ?thesis by (simp add: trim_encs.simps [of es s])
  qed
qed

text \<open>Trimming twice is trimming once.\<close>

lemma trim_idem [simp]: "trim (trim s) = trim s"
proof -
  let ?t = "trim_start s" and ?u = "trim s"
  obtain p where "rev ?t = p @ rev ?u"
    using trim_encs_suffix [of "rev ?t" "map rev ws_encodings"] by (auto simp: trim_def trim_end_def)
  then have t: "?t = ?u @ rev p" by (metis rev_append rev_rev_ident)
  have "\<not> starts_with ?u e" if "e \<in> set ws_encodings" "e \<noteq> []" for e
    using trim_encs_fixed [of ws_encodings s] that t
    by (auto simp: find_None_iff trim_start_def [symmetric] starts_with_iff)
  then have "find (\<lambda>e. e \<noteq> [] \<and> starts_with ?u e) ws_encodings = None" by (auto simp: find_None_iff)
  then have "trim_start ?u = ?u" unfolding trim_start_def by (rule trim_encs_None)
  moreover have "trim_end ?u = ?u"
    unfolding trim_def trim_end_def
    using trim_encs_None [OF trim_encs_fixed [of "map rev ws_encodings" "rev ?t"]] by simp
  ultimately show ?thesis by (metis trim_def)
qed

section \<open>UTF-8\<close>

text \<open>
  \<open>std::str::from_utf8\<close>: the code points, or \<open>None\<close> for an ill-formed sequence (overlong
  forms, surrogates and values beyond \<open>U+10FFFF\<close> are ill-formed).
\<close>

definition utf8_cont :: "nat \<Rightarrow> bool" where
  "utf8_cont b = (0x80 \<le> b \<and> b \<le> 0xBF)"

fun utf8_decode :: "nat list \<Rightarrow> nat list option" where
  "utf8_decode [] = Some []"
| "utf8_decode (b # r) =
     (if b < 0x80 then map_option (Cons b) (utf8_decode r)
      else if 0xC2 \<le> b \<and> b \<le> 0xDF then
        (case r of
           b1 # r1 \<Rightarrow>
             if utf8_cont b1
             then map_option (Cons ((b - 0xC0) * 0x40 + (b1 - 0x80))) (utf8_decode r1)
             else None
         | _ \<Rightarrow> None)
      else if 0xE0 \<le> b \<and> b \<le> 0xEF then
        (case r of
           b1 # b2 # r2 \<Rightarrow>
             if utf8_cont b1 \<and> utf8_cont b2 \<and> (b = 0xE0 \<longrightarrow> 0xA0 \<le> b1) \<and> (b = 0xED \<longrightarrow> b1 \<le> 0x9F)
             then map_option (Cons ((b - 0xE0) * 0x1000 + (b1 - 0x80) * 0x40 + (b2 - 0x80)))
               (utf8_decode r2)
             else None
         | _ \<Rightarrow> None)
      else if 0xF0 \<le> b \<and> b \<le> 0xF4 then
        (case r of
           b1 # b2 # b3 # r3 \<Rightarrow>
             if utf8_cont b1 \<and> utf8_cont b2 \<and> utf8_cont b3
                \<and> (b = 0xF0 \<longrightarrow> 0x90 \<le> b1) \<and> (b = 0xF4 \<longrightarrow> b1 \<le> 0x8F)
             then map_option (Cons ((b - 0xF0) * 0x40000 + (b1 - 0x80) * 0x1000
                 + (b2 - 0x80) * 0x40 + (b3 - 0x80))) (utf8_decode r3)
             else None
         | _ \<Rightarrow> None)
      else None)"

definition utf8_chars :: "bytes \<Rightarrow> nat list option" where
  "utf8_chars s = utf8_decode (map of_char s)"

definition from_utf8 :: "bytes \<Rightarrow> string option" where
  "from_utf8 s = (if utf8_chars s = None then None else Some s)"

definition is_ascii :: "char \<Rightarrow> bool" where
  "is_ascii c = (of_char c < (0x80 :: nat))"

lemma graphic_ascii: "is_ascii_graphic c \<Longrightarrow> is_ascii c"
  by (simp add: is_ascii_graphic_def is_ascii_def less_eq_char_def)

lemma utf8_decode_ascii: "(\<And>b. b \<in> set bs \<Longrightarrow> b < 0x80) \<Longrightarrow> utf8_decode bs = Some bs"
  by (induction bs) auto

lemma list_all_pipes:
  "list_all is_ascii_graphic (pipes fs) \<longleftrightarrow> list_all (list_all is_ascii_graphic) fs"
  unfolding pipes_def by (rule list_all_join) (simp add: is_ascii_graphic_def)

lemma from_utf8_ascii: "(\<And>c. c \<in> set s \<Longrightarrow> is_ascii c) \<Longrightarrow> from_utf8 s = Some s"
  using utf8_decode_ascii [of "map of_char s"] by (auto simp: from_utf8_def utf8_chars_def is_ascii_def)

lemma from_utf8_graphic: "list_all is_ascii_graphic s \<Longrightarrow> from_utf8 s = Some s"
  by (rule from_utf8_ascii) (auto simp: list_all_iff intro: graphic_ascii)

text \<open>The text of fields of graphic characters without separator is split back into them.\<close>

definition plain_field :: "string \<Rightarrow> bool" where
  "plain_field f \<longleftrightarrow> CHR ''|'' \<notin> set f \<and> list_all is_ascii_graphic f"

lemma pipes_read_back:
  assumes "fs \<noteq> []" and "list_all plain_field fs"
  shows "from_utf8 (pipes fs) = Some (pipes fs)" and "split_on (CHR ''|'') (pipes fs) = fs"
proof -
  have "list_all (list_all is_ascii_graphic) fs" "list_all (\<lambda>f. CHR ''|'' \<notin> set f) fs"
    using assms(2) by (auto simp: plain_field_def list_all_iff)
  then show "from_utf8 (pipes fs) = Some (pipes fs)" "split_on (CHR ''|'') (pipes fs) = fs"
    using assms(1) by (simp_all add: from_utf8_graphic list_all_pipes split_on_pipes)
qed

section \<open>Integers as text\<close>

definition digit_char :: "nat \<Rightarrow> char" where
  "digit_char d = char_of (48 + d)"

fun show_nat :: "nat \<Rightarrow> string" where
  "show_nat n = (if n < 10 then [digit_char n] else show_nat (n div 10) @ [digit_char (n mod 10)])"

declare show_nat.simps [simp del]

definition show_word :: "'w::len word \<Rightarrow> string" where
  "show_word w = show_nat (unat w)"

text \<open>\<open>format!("{n:0w$}")\<close>: decimal, padded with zeros to width \<open>w\<close>.\<close>

definition show_padded :: "nat \<Rightarrow> nat \<Rightarrow> string" where
  "show_padded w n = replicate (w - length (show_nat n)) (CHR ''0'') @ show_nat n"

definition digit_val :: "nat \<Rightarrow> char \<Rightarrow> nat option" where
  "digit_val radix c =
     (let v = (if is_ascii_digit c then Some (of_char c - 48)
               else if is_ascii_lowercase c then Some (of_char c - 87)
               else if is_ascii_uppercase c then Some (of_char c - 55)
               else None)
      in (case v of None \<Rightarrow> None | Some d \<Rightarrow> if d < radix then Some d else None))"

fun parse_digits :: "nat \<Rightarrow> nat \<Rightarrow> string \<Rightarrow> nat option" where
  "parse_digits radix acc [] = Some acc"
| "parse_digits radix acc (c # cs) =
     (case digit_val radix c of
        None \<Rightarrow> None
      | Some d \<Rightarrow> parse_digits radix (acc * radix + d) cs)"

text \<open>
  \<open>u*::from_str_radix\<close> and \<open>str::parse::<u*>\<close>: a single leading \<open>+\<close> is accepted, an empty
  text or a lone sign is not, and a value that does not fit is an error.
\<close>

definition from_str_radix :: "nat \<Rightarrow> string \<Rightarrow> 'w::len word option" where
  "from_str_radix radix s =
     (let body = (case s of c # cs \<Rightarrow> if c = CHR ''+'' \<and> cs \<noteq> [] then cs else s | [] \<Rightarrow> [])
      in if body = [] then None
         else (case parse_digits radix 0 body of
                 None \<Rightarrow> None
               | Some v \<Rightarrow> if v < 2 ^ LENGTH('w) then Some (of_nat v) else None))"

definition parse_uint :: "string \<Rightarrow> 'w::len word option" where
  "parse_uint s = from_str_radix 10 s"

lemma of_char_digit_char: "d < 10 \<Longrightarrow> of_char (digit_char d) = 48 + d"
  by (simp add: digit_char_def)

lemma is_ascii_digit_digit_char: "d < 10 \<Longrightarrow> is_ascii_digit (digit_char d)"
  by (simp add: is_ascii_digit_def less_eq_char_def of_char_digit_char)

lemma digit_val_digit_char: "d < 10 \<Longrightarrow> digit_val 10 (digit_char d) = Some d"
  by (simp add: digit_val_def is_ascii_digit_digit_char of_char_digit_char)

lemma show_nat_nonempty [simp]: "show_nat n \<noteq> []"
  by (subst show_nat.simps) simp

lemma show_nat_digits: "c \<in> set (show_nat n) \<Longrightarrow> is_ascii_digit c"
proof (induction n rule: show_nat.induct)
  case (1 n)
  then show ?case
    by (subst (asm) show_nat.simps) (auto split: if_splits intro: is_ascii_digit_digit_char)
qed

lemma parse_digits_append:
  "parse_digits r a (xs @ ys) = Option.bind (parse_digits r a xs) (\<lambda>b. parse_digits r b ys)"
  by (induction xs arbitrary: a) (auto split: option.splits)

lemma parse_digits_show_nat: "parse_digits 10 0 (show_nat n) = Some n"
proof (induction n rule: show_nat.induct)
  case (1 n)
  show ?case
  proof (cases "n < 10")
    case True
    then show ?thesis by (subst show_nat.simps) (simp add: digit_val_digit_char)
  next
    case False
    with "1.IH" have "parse_digits 10 0 (show_nat (n div 10)) = Some (n div 10)" by simp
    with False show ?thesis
      by (subst show_nat.simps) (simp add: parse_digits_append digit_val_digit_char)
  qed
qed

lemma digit_not_plus: "is_ascii_digit c \<Longrightarrow> c \<noteq> CHR ''+''"
  by (auto simp: is_ascii_digit_def less_eq_char_def)

lemma from_str_radix_digits:
  assumes "s \<noteq> []" and "hd s \<noteq> CHR ''+''"
  shows "(from_str_radix r s :: 'w::len word option) =
    (case parse_digits r 0 s of
       None \<Rightarrow> None
     | Some v \<Rightarrow> if v < 2 ^ LENGTH('w) then Some (of_nat v) else None)"
  using assms by (cases s) (simp_all add: from_str_radix_def)

lemma parse_uint_show_nat:
  "n < 2 ^ LENGTH('w) \<Longrightarrow> (parse_uint (show_nat n) :: 'w::len word option) = Some (of_nat n)"
proof -
  assume n: "n < 2 ^ LENGTH('w)"
  have "hd (show_nat n) \<noteq> CHR ''+''"
    using show_nat_digits [of "hd (show_nat n)" n] by (auto dest: digit_not_plus)
  with n show ?thesis
    by (simp add: parse_uint_def from_str_radix_digits parse_digits_show_nat)
qed

lemma parse_uint_show_word [simp]: "parse_uint (show_word w) = Some w"
  by (simp add: show_word_def parse_uint_show_nat)

lemma show_word_digits: "c \<in> set (show_word w) \<Longrightarrow> is_ascii_digit c"
  by (simp add: show_word_def show_nat_digits)

lemma show_word_nonempty [simp]: "show_word w \<noteq> []"
  by (simp add: show_word_def)

text \<open>Field separators never occur in printed numbers.\<close>

lemma digit_not_pipe: "is_ascii_digit c \<Longrightarrow> c \<noteq> CHR ''|''"
  by (auto simp: is_ascii_digit_def less_eq_char_def)

lemma pipe_notin_show_word [simp]: "CHR ''|'' \<notin> set (show_word w)"
  using show_word_digits digit_not_pipe by blast

lemma plain_show_word [simp]: "plain_field (show_word w)"
  by (auto simp: plain_field_def list_all_iff show_word_digits digit_graphic)

lemma trim_show_word [simp]: "trim (show_word w) = show_word w"
  by (rule trim_all_graphic) (simp add: show_word_digits digit_graphic)

section \<open>Little-endian integers\<close>

fun le_nat :: "nat \<Rightarrow> nat \<Rightarrow> bytes" where
  "le_nat 0 v = []"
| "le_nat (Suc k) v = char_of (v mod 256) # le_nat k (v div 256)"

fun nat_of_le :: "bytes \<Rightarrow> nat" where
  "nat_of_le [] = 0"
| "nat_of_le (b # bs) = of_char b + 256 * nat_of_le bs"

definition u16_le :: "u16 \<Rightarrow> bytes" where "u16_le v = le_nat 2 (unat v)"
definition u32_le :: "u32 \<Rightarrow> bytes" where "u32_le v = le_nat 4 (unat v)"
definition u64_le :: "u64 \<Rightarrow> bytes" where "u64_le v = le_nat 8 (unat v)"

lemma length_le_nat [simp]: "length (le_nat k v) = k"
  by (induction k arbitrary: v) simp_all

lemma nat_of_le_le_nat: "v < 256 ^ k \<Longrightarrow> nat_of_le (le_nat k v) = v"
proof (induction k arbitrary: v)
  case (Suc k)
  then have "v div 256 < 256 ^ k" by (simp add: less_mult_imp_div_less mult.commute)
  with Suc.IH show ?case by simp
qed simp

lemma le_nat_inject: "v < 256 ^ k \<Longrightarrow> w < 256 ^ k \<Longrightarrow> le_nat k v = le_nat k w \<longleftrightarrow> v = w"
  by (metis nat_of_le_le_nat)

lemma length_u_le [simp]:
  "length (u16_le a) = 2" "length (u32_le b) = 4" "length (u64_le c) = 8"
  by (simp_all add: u16_le_def u32_le_def u64_le_def)

lemma u_le_inject [simp]:
  "u16_le a = u16_le a' \<longleftrightarrow> a = a'"
  "u32_le b = u32_le b' \<longleftrightarrow> b = b'"
  "u64_le c = u64_le c' \<longleftrightarrow> c = c'"
  using unat_bound [of a] unat_bound [of a'] unat_bound [of b] unat_bound [of b']
    unat_bound [of c] unat_bound [of c']
  by (simp_all add: u16_le_def u32_le_def u64_le_def le_nat_inject word_unat_eq_iff)

lemma nat_of_le_u16_le [simp]: "nat_of_le (u16_le a) = unat a"
  using unat_bound [of a] by (simp add: u16_le_def nat_of_le_le_nat)

text \<open>Big-endian value of a byte string, \<open>BigUint::from_bytes_be\<close> and byte-wise comparison.\<close>

definition nat_of_be :: "bytes \<Rightarrow> nat" where
  "nat_of_be bs = nat_of_le (rev bs)"

lemma nat_of_le_append: "nat_of_le (xs @ ys) = nat_of_le xs + 256 ^ length xs * nat_of_le ys"
  by (induction xs) (simp_all add: algebra_simps)

lemma nat_of_le_less: "nat_of_le bs < 256 ^ length bs"
proof (induction bs)
  case (Cons b bs)
  have "of_char b < (256 :: nat)" by simp
  with Cons.IH have "of_char b + 256 * nat_of_le bs < 256 * 256 ^ length bs" by linarith
  then show ?case by simp
qed simp

lemma trim_subset: "set (trim s) \<subseteq> set s"
proof -
  have "set (trim_encs es s) \<subseteq> set s" for es s
    using trim_encs_suffix [of s es] by (metis set_append Un_upper2)
  from this [of "map rev ws_encodings" "rev (trim_start s)"] this [of ws_encodings s] show ?thesis
    unfolding trim_def trim_end_def trim_start_def set_rev by (rule subset_trans)
qed

end
