(* ===== verification/Errors.thy ===== *)
theory Errors
  imports Prelude
begin

text \<open>
  Every \<open>bail!\<close>, \<open>context\<close> and \<open>?\<close> on a library error of the modelled sources is a value
  of \<open>err\<close>: one enumeration per component, one constructor per message.
\<close>

datatype (plugins only: code size) std_err = ParseIntError | HexError | Utf8Error | SecpError | TryFromIntError

datatype (plugins only: code size) amount_err =
  AmountExceedsMaxMoney | AmountOverflow | AmountUnderflow | InvalidAmount | InvalidFractionalAmount

datatype (plugins only: code size) key_err =
  ExpectedHash32 | SighashIndexOutOfRange | AddressMissingSeparator | InvalidAddressFormat
| InvalidAddressChecksum | AddressPrefixMismatch | SecretKeyLength | SigScriptTooLarge
| SigScriptTooShort | BadPublicKeyLength | BadSignatureLength

datatype (plugins only: code size) pow_err = InvalidCompactTarget | TargetOverflow | ZeroTarget | ZeroWorkTarget

datatype (plugins only: code size) settings_err =
  InvalidDutyCycle | ZeroHalvingInterval | ZeroDifficultyInterval | DifficultyFactorTooSmall
| P2pMessageBytesTooSmall | P2pBlocksPerMessageZero | QnsLabelCharsRange | QnsMarkerAtomsZero
| QnsProtocolAddressUnset | JinDecimalsNot18 | JinActivationZero | JinMarkerAtomsZero
| JinSupplyMismatch | JinBridgeNameUnset | JinSwapMarkerAtomsZero | JinSwapFeeBps
| JinSwapStartPriceZero | LibraryMarkerAtomsZero | LibraryTitleRange | LibraryCategoryRange
| LibraryPageRange | LibraryPagesRange | LibraryCommentRange | RpcConnectionsRange
| RpcRequestsZero | RpcHeaderRange | RpcBodyRange | RpcTimeoutZero | RpcJobTtlRange
| RpcTemplateBatchRange | RpcCachedJobsRange

datatype (plugins only: code size) pools_settings_err =
  PoolsActivationZero | PoolsNameUnset | PoolsAddressUnset | PoolsNameCharsRange
| PoolsNameBytesRange | PoolsMarkerAtomsZero | PoolsBaseCreateZero | PoolsBaseCapacityZero
| PoolsStepSlotsZero | PoolsStepAtomsZero | PoolsMaxCapacityTooSmall | PoolsMaxActiveZero
| PoolsMaxCommissionRange | PoolsShareWindowZero | PoolsShareStaleZero | PoolsMaxSharesZero
| PoolsNoRoomForCoinbase

datatype (plugins only: code size) tx_err =
  TxNeedsInputsAndOutputs | TooManyOutputs | DuplicateInput | AmountOutOfRange
| OutputTotalExceedsMaxMoney | MissingUtxo | PrematureCoinbaseSpend | UnsupportedScriptPubkey
| PubkeyHashMismatch | SignatureVerificationFailed | InsufficientInputValue
| MissingUtxoDuringConnect | DuplicateCreatedOutpoint

datatype (plugins only: code size) blast_err =
  BlastCodeLength | BlastCodeChars | BlastAsset | BlastCodeHash | BlastPerClaimZero
| BlastRemainingClaimsRange | BlastInactive | BlastManyVaults | BlastEntriesExceed
| BlastPerClaimTooLarge | BlastTotalOverflow | BlastVaultAmount | BlastOneInput
| BlastOutputCount | BlastClaimScript | BlastMissingVault | BlastNotVault | BlastOnlyQub
| BlastInvalidCode | BlastClaimTooLarge | BlastInsufficientValue | BlastClaimantAmount
| BlastClaimantAddress | BlastFullyClaimedRecreates | BlastMustRecreate
| BlastRemainingAmount | BlastRemainingScript

datatype (plugins only: code size) qns_err =
  QnsNameEmpty | QnsLabelTooLong | QnsLabelChars | QnsInvalidLength | QnsPriceOverflow
| QnsMinerFeeOverflow | QnsInactive | QnsCoinbase | QnsExactlyOne | QnsMarkerAmount
| QnsAlreadyRegistered | QnsDuplicateInBlock | QnsUnderpayment

datatype (plugins only: code size) library_err =
  LibFieldTooLong | LibFieldEncoding | LibFieldUtf8 | LibInvalidId | LibTargetKind
| LibPriceOverflow | LibByteFeeOverflow | LibPostFeeOverflow | LibPagesRange
| LibPageIndexRange | LibInactive | LibMarkerAmount | LibFeeOverflow | LibMixedActions
| LibPagesMetadata | LibExactlyOneAction | LibNesting | LibActionCount | LibAuthorNotSpent
| LibTargetPostNotFound | LibParentNotFound | LibParentOtherPost | LibVotePostNotFound
| LibVoteCommentNotFound | LibEditTargetNotFound | LibEditAuthorMismatch | LibPageTotal
| LibDuplicatePage | LibMissingPages | LibCoinbase

datatype (plugins only: code size) jin_err =
  JinInvalidUnits | JinInvalidAmount | JinAmountOverflow | JinInvalidFraction
| JinExceedsSupply | JinNetworkMismatch | JinAmountZero | JinFeeAsset | JinFeeDisabled
| JinConversionWhole | JinMatrixLength | JinMatrixChars | JinBalanceOverflow
| JinInsufficient | JinFeeOverflow | JinConversionFeeOverflow | JinMarkerAmount
| JinConversionMarkerAmount | JinInactive | JinConversionDisabled | JinConversionInactive
| JinUnauthorized | JinConversionUnauthorized | JinBlockFeeOverflow

datatype (plugins only: code size) infusion_err =
  InfBootstrapNotExact | InfLifetimeOverflow | InfActiveOverflow | InfPerAtomOverflow
| InfAmountZero | InfAllMelted | InfNotDivisible | InfBelowOneUnit | MeltAmountZero
| MeltExceedsMax | MeltUnavailable | MeltPayoutOverflow | MeltPayoutZero | MeltSlippage
| MeltExceedsReserve | MeltedOverflow | TrueMaxUnderflow | ActiveUnderflow
| InfAccountingInvariant | InfMarkerAmount | InfInactive | InfExactlyOne | InfCoinbase
| InfStandalone | InfUnauthorized | MeltMustBurn | InfNetworkMismatch | InfExceedsSupply

datatype (plugins only: code size) sale_err =
  SaleDivisionByZero | SaleFeeOverflow | SaleBatchZero | SaleTooManyBatches | SaleInvalidListing
| SalePriceOverflow | SaleBatchOverflow | SaleAmountZero | SaleWholeJin | SalePriceRange
| SaleFeeBps | SaleNetworkMismatch | SalePolicyOnePurchase | SalePolicyMarker
| SalePolicyTooLarge | SalePolicyMinerFee | SaleSoldOverflow | SaleInactive | SaleCoinbase
| SaleOneListing | SaleMarkerAmount | SaleUnauthorized | SaleInsufficientRemaining
| SalePriceMismatch | SaleProtocolFeeMismatch | SalePaymentOverflow | SaleUnderpayment

datatype (plugins only: code size) pool_err =
  PoolNameEmpty | PoolNameBytes | PoolNameChars | PoolNameControl | PoolNameInvisible
| PoolCapacityInvalid | PoolPriceOverflow | PoolTopupInvalid | PoolTopupPriceOverflow
| PoolCommissionMax | PoolInactive | PoolCoinbase | PoolExactlyOneAction | PoolMixedMarkers
| PoolMarkerAmount | PoolMaxActive | PoolUnderpayment | PoolMinerUnderpayment | PoolUnknown
| PoolManagerMismatch | PoolUnauthorized | PoolCapacityOverflow | PoolCapacityExceeds
| PoolPaidOverflow | PoolCommissionIncrease | PoolDisabled | ShareInactive | ShareInvalid
| ShareUnknownPool | ShareParentPredates | ShareParentUnknown | ShareParentHash
| ShareParentNotBefore | ShareStale | ShareTarget | SharePublicKey | ShareSignature
| ShareDuplicate | ShareOtherPool | SharePoolFull | PoolTooManyShares | PoolFeeOverflow
| PoolPayoutMismatch | PoolNoShares | PoolCommissionOverflow | PoolCommissionExceedsTotal
| PoolPayoutOverflow | PoolPayoutUnderflow | PoolRewardOverflow | PoolNoOutputs
| PoolMinerKeyMismatch

datatype (plugins only: code size) gov_err =
  GovInvalidHash | GovTextTooLong | GovTextNotAscii | GovTextPipe | GovTextHex | GovTextUtf8
| GovAvatarMimeWithoutHash | GovAvatarSizeWithoutHash | GovAvatarRefWithoutHash | GovAvatarMime
| GovAvatarSize | GovConviction | GovLockExceedsBalance | GovLockZero | GovLockTooShort
| GovInsufficientJin | GovUnauthorized | GovBondBelowMinimum | GovWalletAlreadyVerified
| GovPoolNotFound | GovPoolOwner | GovPoolAlreadyVerified | GovTooManyReports
| GovModeratorAlready | GovVoteLockZero | GovVoteTarget | GovVoteOverflow | GovDuplicateVote
| GovUnknownModerator | GovModeratorInactive | GovSlashMax | GovUnknownReport
| GovReportDecided | GovDecision | GovInactive | GovCoinbase | GovExactlyOne | GovMarkerAmount

datatype (plugins only: code size) bridge_err =
  BridgeEmpty | BridgeTooLong | BridgeNotAscii | BridgePipe | BridgeGrossZero
| BridgeRecipient | BridgeReleaseZero

datatype (plugins only: code size) block_err =
  EmptyBlock | TooManyBlockTransactions | BadBlockVersion | BadPrevHash | BadBits
| MerkleMismatch | InsufficientPow | FutureTimestamp | MissingCoinbase | ExtraCoinbase
| DuplicateTxid | MeltBurnExceedsDelta | ExtraFeeOverflow | MinerFeeUnderpayment
| CoinbaseOverclaim

datatype (plugins only: code size) chain_err =
  EmptyCandidateChain | GenesisMismatch | NetworkMismatch | DuplicatePersistedUtxo
| UtxoMismatch | EmptyPersistedChain | CheckpointMismatch | RecentLinkMismatch
| MempoolFull | DuplicateMempoolTx | ShareMempoolFull | MempoolDoubleSpend
| FeeBelowMinRelay | RewardOverflow | MaxHashesReached

datatype (plugins only: code size) wallet_err =
  WNetworkMismatch | WPlaintextWalletDisabled | WEmpty | WSelectionOverflow
| WInsufficientOnSourceAddress | WInsufficientSpendable | WNoAddressWithEnough
| WJinSourceWithoutDust | WInsufficientJinOnWallet | WJinBalanceOverflow
| WRecipientNetworkMismatch | WMultiSendEmpty | WMultiSendTooMany | WMultiSendZero
| WMultiSendOverflow | WJinMultiSendEmpty | WJinMultiSendTooMany | WJinMultiSendZero
| WJinMultiSendOverflow | WJinMultiSendFeeOverflow | WJinMarkerAtomsOverflow | WQubFeeOverflow
| WJinFeeAsset | WJinAmountZero | WJinAmountTargetOverflow | WBlastAmountsZero
| WBlastMaxClaimsRange | WBlastAmountOverflow | WBlastTotalMismatch | WBlastTargetOverflow
| WBlastPayloadPrefix | WBlastPayloadNoTxid | WBlastPayloadNoVout | WBlastPayloadNoCode
| WBlastPayloadExtra | WBlastClaimantNetwork | WBlastAmbiguousCode | WBlastNoActiveVault
| WBlastClaimAmountTooLarge | WBlastVaultInsufficient | WSaleBuyTooLarge | WSaleTargetOverflow
| WInfusionAllMelted | WInfusionFeeOverflow | WMeltTargetOverflow | WMeltBelowMinimum
| WConversionDisabled | WConversionFeeAsset | WConversionOverflow | WQnsDisabled
| WQnsNameTaken | WQnsTargetNetwork | WQnsPaymentOverflow | WQnsInsufficient
| WQnsSplitUnderpayment | WPoolsDisabled | WPoolManagerNetwork | WPoolCommissionTooHigh
| WPoolPaymentOverflow | WPoolInsufficient | WPoolUnknownId | WPoolCapacityTooLarge
| WPoolCommissionRaise | WLibraryCharTooLarge | WLibraryTooManyPages | WLibraryMarkerOverflow
| WLibraryTargetOverflow

datatype (plugins only: code size) storage_err =
  SOpen | SJson | SWriteFailed | SBadFileName | SPointerMismatch | SStateChecksum | SStatePointerMismatch
| SMempoolDigest | SJournalShort | SJournalShortened | SEmptyRecord | SParseRecord | SBlockVersion
| SGenesisMismatch | SHashLink | SBlockCount | STipHash | STipHeader | SCheckpoint | SDuplicateUtxo
| SNoBlocks | SParseWork | SBothUnusable | SCurrentUnusable | SStale | SReanchorRejected | SLockActive
| SLockFailed | SStatusNetwork | SExportShort | SExportEnded | SExistingUnusable | SLoadFailed
| SReanchorMainnetOnly | SReanchorNoEngine | SLiveReanchorRejected | SChainNotFound

datatype (plugins only: code size) p2p_err =
  NetIo | NetTimeout | NetClosed | NetTooLarge | NetInvalidJson | NetTooManyErrors | NetProtocol
| NetNetworkMismatch | NetMagicMismatch | NetGenesisMismatch | NetTooManyBlocks
| NetSnapshotNetwork | NetSnapshotEmpty | NetSnapshotGenesis | NetTailNetwork | NetTailEmpty
| NetTailStart | NetNoCommonAncestor | NetTailGap | NetTailHeight | NetTailHash | NetReanchorMainnet
| NetReanchorAhead | NetReanchorAncestor | NetReanchorGap | NetReanchorHeight | NetReanchorHash
| NetPeerBook | NetRelayRecord | NetNodeId

datatype err =
  StdErr std_err | AmountErr amount_err | KeyErr key_err | PowErr pow_err
| SettingsErr settings_err | PoolsSettingsErr pools_settings_err | TxErr tx_err
| BlastErr blast_err | QnsErr qns_err | LibraryErr library_err | JinErr jin_err
| InfusionErr infusion_err | SaleErr sale_err | PoolErr pool_err | GovErr gov_err
| BridgeErr bridge_err | BlockErr block_err | ChainErr chain_err | WalletErr wallet_err
| StorageErr storage_err | P2pErr p2p_err

type_synonym 'a result = "err + 'a"

end
