(* ===== verification/Extern.thy ===== *)
theory Extern
  imports RustStr Errors
begin

text \<open>
  What the sources take from outside the repository: the crates \<open>sha2\<close>, \<open>ripemd\<close>, \<open>hex\<close>
  and \<open>secp256k1\<close>, and the system clock. They are parameters of the model, the fields of
  \<open>extern\<close>. A public key, a signature and a digest are their byte strings: \<open>pk_from_slice\<close> is
  \<open>PublicKey::from_slice\<close> followed by \<open>serialize\<close>, \<open>sig_from_der\<close> and \<open>msg_from_digest\<close> check
  their input, \<open>ecdsa_verify\<close> and \<open>ecdsa_sign\<close> are the signature scheme.
  \<open>extern_ok\<close> states the documented behaviour the proofs use: digest lengths, and that
  hexadecimal text round-trips, is lower case, and is twice as long as its bytes.
\<close>

record extern =
  sha256 :: "bytes \<Rightarrow> bytes"
  ripemd160 :: "bytes \<Rightarrow> bytes"
  hex_encode :: "bytes \<Rightarrow> string"
  hex_decode :: "string \<Rightarrow> bytes option"
  pk_from_slice :: "bytes \<Rightarrow> bytes option"
  sig_from_der :: "bytes \<Rightarrow> bytes option"
  msg_from_digest :: "bytes \<Rightarrow> bytes option"
  ecdsa_verify :: "bytes \<Rightarrow> bytes \<Rightarrow> bytes \<Rightarrow> bool"
  sk_from_slice :: "bytes \<Rightarrow> bytes option"
  ecdsa_sign :: "bytes \<Rightarrow> bytes \<Rightarrow> bytes"
  unix_now :: u32

definition is_lower_hex :: "char \<Rightarrow> bool" where
  "is_lower_hex c = (is_ascii_digit c \<or> (CHR ''a'' \<le> c \<and> c \<le> CHR ''f''))"

definition extern_ok :: "extern \<Rightarrow> bool" where
  "extern_ok X \<longleftrightarrow>
     (\<forall>b. length (sha256 X b) = 32) \<and>
     (\<forall>b. length (ripemd160 X b) = 20) \<and>
     (\<forall>b. hex_decode X (hex_encode X b) = Some b) \<and>
     (\<forall>b. length (hex_encode X b) = 2 * length b) \<and>
     (\<forall>b. list_all is_lower_hex (hex_encode X b)) \<and>
     (\<forall>s b. hex_decode X s = Some b \<longrightarrow> length s = 2 * length b)"

lemma extern_okD:
  assumes "extern_ok X"
  shows sha256_length: "length (sha256 X b) = 32"
    and ripemd160_length: "length (ripemd160 X b) = 20"
    and hex_roundtrip: "hex_decode X (hex_encode X b) = Some b"
    and hex_encode_length: "length (hex_encode X b) = 2 * length b"
    and hex_encode_chars: "c \<in> set (hex_encode X b) \<Longrightarrow> is_lower_hex c"
    and hex_decode_length: "hex_decode X s = Some b \<Longrightarrow> length s = 2 * length b"
  using assms by (auto simp: extern_ok_def list_all_iff)

lemma lower_hex_hexdigit: "is_lower_hex c \<Longrightarrow> is_ascii_hexdigit c"
  by (auto simp: is_lower_hex_def is_ascii_hexdigit_def)

lemma lower_hex_graphic: "is_lower_hex c \<Longrightarrow> is_ascii_graphic c"
  by (blast intro: lower_hex_hexdigit hexdigit_graphic)

lemma lower_hex_not_pipe: "is_lower_hex c \<Longrightarrow> c \<noteq> CHR ''|''"
  by (auto simp: is_lower_hex_def is_ascii_digit_def less_eq_char_def)

lemma lower_hex_lower: "is_lower_hex c \<Longrightarrow> ascii_lower c = c"
  by (auto simp: is_lower_hex_def char_class_defs ascii_lower_def less_eq_char_def)

lemma pipe_notin_hex: "extern_ok X \<Longrightarrow> CHR ''|'' \<notin> set (hex_encode X b)"
  by (auto dest!: hex_encode_chars [rotated] lower_hex_not_pipe)

lemma plain_hex: "extern_ok X \<Longrightarrow> plain_field (hex_encode X b)"
  by (auto simp: plain_field_def list_all_iff pipe_notin_hex dest: hex_encode_chars intro: lower_hex_graphic)

lemma trim_hex: "extern_ok X \<Longrightarrow> trim (hex_encode X b) = hex_encode X b"
  by (rule trim_all_graphic) (auto dest: hex_encode_chars lower_hex_graphic)

text \<open>
  A concrete instance for the examples: hexadecimal text as the \<open>hex\<close> crate documents it, and
  stand-ins for the digests and the signature scheme that satisfy \<open>extern_ok\<close>.
\<close>

definition hex_char :: "nat \<Rightarrow> char" where
  "hex_char d = (if d < 10 then char_of (48 + d) else char_of (87 + d))"

fun ref_hex_encode :: "bytes \<Rightarrow> string" where
  "ref_hex_encode [] = []"
| "ref_hex_encode (c # cs) =
     hex_char (of_char c div 16) # hex_char (of_char c mod 16) # ref_hex_encode cs"

fun ref_hex_decode :: "string \<Rightarrow> bytes option" where
  "ref_hex_decode [] = Some []"
| "ref_hex_decode [c] = None"
| "ref_hex_decode (c # d # cs) =
     (case (digit_val 16 c, digit_val 16 d, ref_hex_decode cs) of
        (Some a, Some b, Some r) \<Rightarrow> Some (char_of (16 * a + b) # r)
      | _ \<Rightarrow> None)"

definition pad_digest :: "nat \<Rightarrow> bytes \<Rightarrow> bytes" where
  "pad_digest n b = take n (rev b @ replicate n (CHR 0x00))"

definition ref_extern :: extern where
  "ref_extern =
     \<lparr>sha256 = pad_digest 32, ripemd160 = pad_digest 20, hex_encode = ref_hex_encode,
      hex_decode = ref_hex_decode, pk_from_slice = Some, sig_from_der = Some,
      msg_from_digest = Some, ecdsa_verify = (\<lambda>m s p. s = m @ p), sk_from_slice = Some,
      ecdsa_sign = (\<lambda>m s. m @ s), unix_now = 1700000000\<rparr>"

lemma of_char_hex_char:
  "d < 16 \<Longrightarrow> of_char (hex_char d) = (if d < 10 then 48 + d else 87 + d)"
  by (simp add: hex_char_def)

lemma is_lower_hex_hex_char: "d < 16 \<Longrightarrow> is_lower_hex (hex_char d)"
  by (auto simp: is_lower_hex_def is_ascii_digit_def less_eq_char_def of_char_hex_char)

lemma digit_val_hex_char: "d < 16 \<Longrightarrow> digit_val 16 (hex_char d) = Some d"
  by (auto simp: digit_val_def char_class_defs less_eq_char_def of_char_hex_char)

lemma ref_hex_roundtrip: "ref_hex_decode (ref_hex_encode b) = Some b"
  by (induction b) (simp_all add: digit_val_hex_char less_mult_imp_div_less)

lemma ref_hex_encode_length: "length (ref_hex_encode b) = 2 * length b"
  by (induction b) simp_all

lemma ref_hex_encode_chars: "list_all is_lower_hex (ref_hex_encode b)"
  by (induction b) (simp_all add: is_lower_hex_hex_char less_mult_imp_div_less)

lemma ref_hex_decode_length: "ref_hex_decode s = Some b \<Longrightarrow> length s = 2 * length b"
  by (induction s arbitrary: b rule: ref_hex_decode.induct) (auto split: option.splits)

lemma ref_extern_ok: "extern_ok ref_extern"
  by (auto simp: extern_ok_def ref_extern_def pad_digest_def ref_hex_roundtrip
      ref_hex_encode_length ref_hex_encode_chars ref_hex_decode_length)

end
