(* ===== verification/Amounts.thy ===== *)
theory Amounts
  imports Extern
begin

text \<open>
  \<open>Amount\<close> (\<open>src/lib.rs\<close>): QUB amounts in atoms, bounded by \<open>MAX_MONEY_ATOMS\<close>, with checked
  arithmetic and decimal text, and the decimal text of JIN amounts (18 decimals). Both texts
  drop trailing zeros of the fraction and pad them back on parsing; \<open>decimal_frac\<close> lemmas are
  shared by the two round trips.
\<close>

section \<open>Constants\<close>

definition ATOMS_PER_QUB :: u64 where [simp]: "ATOMS_PER_QUB = 100000000"
definition MAX_SEND_ENTRIES_PER_TX :: nat where [simp]: "MAX_SEND_ENTRIES_PER_TX = 256"
definition MAX_MONEY_QUB :: u64 where [simp]: "MAX_MONEY_QUB = 21000000"
definition MAX_MONEY_ATOMS :: u64 where "MAX_MONEY_ATOMS = MAX_MONEY_QUB * ATOMS_PER_QUB"
definition JIN_DECIMALS :: nat where [simp]: "JIN_DECIMALS = 18"
definition JIN_UNITS_PER_COIN :: u128 where [simp]: "JIN_UNITS_PER_COIN = 1000000000000000000"
definition JIN_TOTAL_COINS :: u128 where [simp]: "JIN_TOTAL_COINS = 105000000"
definition JIN_TOTAL_SUPPLY_UNITS :: u128 where
  "JIN_TOTAL_SUPPLY_UNITS = JIN_TOTAL_COINS * JIN_UNITS_PER_COIN"

lemma MAX_MONEY_ATOMS_val: "MAX_MONEY_ATOMS = 2100000000000000"
  by (simp add: MAX_MONEY_ATOMS_def)

lemma unat_MAX_MONEY_ATOMS: "unat MAX_MONEY_ATOMS = 2100000000000000"
  by (simp add: MAX_MONEY_ATOMS_val)

lemma JIN_TOTAL_SUPPLY_UNITS_val: "JIN_TOTAL_SUPPLY_UNITS = 105000000000000000000000000"
  by (simp add: JIN_TOTAL_SUPPLY_UNITS_def)

lemma unat_JIN_TOTAL_SUPPLY_UNITS: "unat JIN_TOTAL_SUPPLY_UNITS = 105000000000000000000000000"
  by (simp add: JIN_TOTAL_SUPPLY_UNITS_val)

section \<open>QUB amounts\<close>

type_synonym amount = u64

definition amount_from_atoms :: "u64 \<Rightarrow> amount result" where
  "amount_from_atoms v =
     (if v > MAX_MONEY_ATOMS then Inl (AmountErr AmountExceedsMaxMoney) else Inr v)"

definition amount_checked_add :: "amount \<Rightarrow> amount \<Rightarrow> amount result" where
  "amount_checked_add a b =
     rbind (ok_or (AmountErr AmountOverflow) (checked_add a b)) amount_from_atoms"

definition amount_checked_sub :: "amount \<Rightarrow> amount \<Rightarrow> amount result" where
  "amount_checked_sub a b =
     rbind (ok_or (AmountErr AmountUnderflow) (checked_sub a b)) amount_from_atoms"

definition to_qub_string :: "amount \<Rightarrow> string" where
  "to_qub_string a =
     (let whole = a div ATOMS_PER_QUB; fr = a mod ATOMS_PER_QUB
      in if fr = 0 then show_word whole
         else show_word whole @ ''.'' @ trim_end_char (CHR ''0'') (show_padded 8 (unat fr)))"

text \<open>\<open>while padded.len() < n { padded.push('0') }\<close>.\<close>

definition pad_zeros :: "nat \<Rightarrow> string \<Rightarrow> string" where
  "pad_zeros n s = s @ replicate (n - length s) (CHR ''0'')"

definition amount_from_str :: "string \<Rightarrow> amount result" where
  "amount_from_str raw =
     (let input = trim raw in
      if input = [] \<or> starts_with input ''-'' then Inl (AmountErr InvalidAmount) else
      let parts = split_on (CHR ''.'') input in
      rbind (ok_or (StdErr ParseIntError) (parse_uint (hd parts) :: u64 option)) (\<lambda>whole.
      if length parts > 2 then Inl (AmountErr InvalidAmount) else
      rbind (ok_or (AmountErr AmountOverflow) (checked_mul whole ATOMS_PER_QUB)) (\<lambda>atoms.
      (case tl parts of
         [] \<Rightarrow> amount_from_atoms atoms
       | fr # _ \<Rightarrow>
           if length fr > 8 \<or> \<not> list_all is_ascii_digit fr
           then Inl (AmountErr InvalidFractionalAmount)
           else rbind (ok_or (StdErr ParseIntError) (parse_uint (pad_zeros 8 fr))) (\<lambda>f.
                rbind (ok_or (AmountErr AmountOverflow) (checked_add atoms f))
                  amount_from_atoms)))))"

lemma amount_from_atoms_ok [result_simps]:
  "amount_from_atoms v = Inr a \<longleftrightarrow> a = v \<and> v \<le> MAX_MONEY_ATOMS"
  by (auto simp: amount_from_atoms_def)

section \<open>Decimal fractions\<close>

lemma parse_digits_zeros:
  "parse_digits 10 a (replicate k (CHR ''0'') @ s) = parse_digits 10 (a * 10 ^ k) s"
  by (induction k arbitrary: a) (simp_all add: digit_val_def is_ascii_digit_def mult.assoc)

lemma parse_digits_show_padded: "parse_digits 10 0 (show_padded w n) = Some n"
  by (simp add: show_padded_def parse_digits_zeros parse_digits_show_nat)

lemma length_show_nat_less: "n < 10 ^ k \<Longrightarrow> 0 < k \<Longrightarrow> length (show_nat n) \<le> k"
proof (induction n arbitrary: k rule: show_nat.induct)
  case (1 n)
  show ?case
  proof (cases "n < 10")
    case True
    with "1.prems" show ?thesis by (subst show_nat.simps) simp
  next
    case False
    obtain j where k: "k = Suc j" using "1.prems" by (cases k) auto
    with False "1.prems" have "0 < j" by (cases j) auto
    note j = k this
    have "n div 10 < 10 ^ j" using "1.prems" j by (simp add: less_mult_imp_div_less mult.commute)
    with "1.IH" [of j] False j have "length (show_nat (n div 10)) \<le> j" by simp
    with False j show ?thesis by (subst show_nat.simps) simp
  qed
qed

lemma length_show_padded: "n < 10 ^ w \<Longrightarrow> 0 < w \<Longrightarrow> length (show_padded w n) = w"
  using length_show_nat_less [of n w] by (simp add: show_padded_def)

lemma show_padded_digits: "c \<in> set (show_padded w n) \<Longrightarrow> is_ascii_digit c"
  by (auto simp: show_padded_def is_ascii_digit_def dest: show_nat_digits)

lemma trim_end_char_zeros:
  "trim_end_char c s @ replicate (length s - length (trim_end_char c s)) c = s"
proof -
  let ?r = "rev s"
  let ?t = "takeWhile (\<lambda>x. x = c) ?r" and ?d = "dropWhile (\<lambda>x. x = c) ?r"
  have "?t = replicate (length ?t) c"
    by (rule replicate_length_same [symmetric]) (auto dest: set_takeWhileD)
  moreover have "length ?t = length s - length ?d"
    using arg_cong [OF takeWhile_dropWhile_id [of "\<lambda>x. x = c" ?r], of length]
    by (simp del: takeWhile_dropWhile_id)
  ultimately have "rev (?t @ ?d) = trim_end_char c s @ replicate (length s - length (trim_end_char c s)) c"
    by (metis length_rev rev_append rev_replicate trim_end_char_def)
  then show ?thesis by simp
qed

text \<open>The printed fraction: dropping trailing zeros loses nothing once padded back.\<close>

definition decimal_frac :: "nat \<Rightarrow> nat \<Rightarrow> string" where
  "decimal_frac w n = trim_end_char (CHR ''0'') (show_padded w n)"

lemma decimal_frac_padded:
  "n < 10 ^ w \<Longrightarrow> 0 < w \<Longrightarrow> pad_zeros w (decimal_frac w n) = show_padded w n"
  using trim_end_char_zeros [of "CHR ''0''" "show_padded w n"]
  by (simp add: decimal_frac_def pad_zeros_def length_show_padded)

lemma set_trim_end_char: "set (trim_end_char c s) \<subseteq> set s"
  by (auto simp: trim_end_char_def dest: set_dropWhileD)

lemma length_trim_end_char: "length (trim_end_char c s) \<le> length s"
  by (simp add: trim_end_char_def length_dropWhile_le [THEN le_trans])

lemma decimal_frac_digits: "c \<in> set (decimal_frac w n) \<Longrightarrow> is_ascii_digit c"
  using set_trim_end_char [of "CHR ''0''" "show_padded w n"]
  by (auto simp: decimal_frac_def dest: show_padded_digits)

lemma decimal_frac_length: "n < 10 ^ w \<Longrightarrow> 0 < w \<Longrightarrow> length (decimal_frac w n) \<le> w"
  using length_trim_end_char [of "CHR ''0''" "show_padded w n"]
  by (simp add: decimal_frac_def length_show_padded)

lemma parse_uint_show_padded:
  assumes "n < 2 ^ LENGTH('w)"
  shows "(parse_uint (show_padded w n) :: 'w::len word option) = Some (of_nat n)"
proof -
  have ne: "show_padded w n \<noteq> []" by (simp add: show_padded_def)
  then have "hd (show_padded w n) \<noteq> CHR ''+''"
    by (auto dest!: hd_in_set show_padded_digits digit_not_plus)
  with ne assms show ?thesis
    by (simp add: parse_uint_def from_str_radix_digits parse_digits_show_padded)
qed

lemma digit_not_dot: "is_ascii_digit c \<Longrightarrow> c \<noteq> CHR ''.''"
  by (auto simp: is_ascii_digit_def less_eq_char_def)

lemma digit_not_minus: "is_ascii_digit c \<Longrightarrow> c \<noteq> CHR ''-''"
  by (auto simp: is_ascii_digit_def less_eq_char_def)

lemma dot_graphic [simp]: "is_ascii_graphic (CHR ''.'')"
  by (simp add: is_ascii_graphic_def)

text \<open>The two shapes of decimal text: a whole number, or a whole number, a dot and digits.\<close>

lemma decimal_text_trim:
  assumes "list_all is_ascii_digit f"
  shows "trim (show_word w) = show_word w"
    and "trim (show_word w @ ''.'' @ f) = show_word w @ ''.'' @ f"
  using assms
  by (auto intro!: trim_all_graphic dest!: show_word_digits
      simp: list_all_iff digit_graphic)

lemma decimal_text_not_minus:
  "\<not> starts_with (show_word w @ t) ''-''"
  using show_word_digits [of "hd (show_word w)" w]
  by (cases "show_word w") (auto simp: starts_with_def dest: digit_not_minus)

lemma dot_notin_digits: "list_all is_ascii_digit f \<Longrightarrow> CHR ''.'' \<notin> set f"
  by (auto simp: list_all_iff dest: digit_not_dot)

lemma dot_notin_show_word [simp]: "CHR ''.'' \<notin> set (show_word w)"
  by (auto dest: show_word_digits digit_not_dot)

lemma decimal_text_split:
  "split_on (CHR ''.'') (show_word w) = [show_word w]"
  "list_all is_ascii_digit f \<Longrightarrow> split_on (CHR ''.'') (show_word w @ ''.'' @ f) = [show_word w, f]"
  by (simp_all add: split_on_no_sep split_on_append dot_notin_digits)

lemma list_all_decimal_frac: "list_all is_ascii_digit (decimal_frac w n)"
  by (auto simp: list_all_iff decimal_frac_digits)

lemma unat_div_mod: "unat (a div b) = unat a div unat b" "unat (a mod b) = unat a mod unat b"
  by (simp_all add: unat_div_distrib unat_mod_distrib)

text \<open>Whole part and fraction recombine without overflow below the bound.\<close>

lemma recombine:
  fixes a b :: "'w::len word"
  assumes "b \<noteq> 0"
  shows "checked_mul (a div b) b = Some ((a div b) * b)"
    and "checked_add ((a div b) * b) (a mod b) = Some a"
proof -
  have "unat (a div b) * unat b \<le> unat a" by (simp add: unat_div_mod)
  from this unat_bound [of a] have "unat (a div b) * unat b < 2 ^ LENGTH('w)"
    by (rule le_less_trans)
  then show "checked_mul (a div b) b = Some ((a div b) * b)" by (simp add: checked_mul_def)
  then have "unat ((a div b) * b) = unat (a div b) * unat b" by (simp only: checked_mul_Some)
  then show "checked_add ((a div b) * b) (a mod b) = Some a"
    by (simp add: checked_add_Some unat_div_mod)
qed

section \<open>JIN amounts\<close>

definition parse_jin_units_raw :: "string \<Rightarrow> u128 result" where
  "parse_jin_units_raw input =
     (let s = trim input in
      if s = [] \<or> starts_with s ''-'' then Inl (JinErr JinInvalidUnits)
      else ok_or (StdErr ParseIntError) (parse_uint s))"

definition parse_jin_amount :: "string \<Rightarrow> u128 result" where
  "parse_jin_amount raw =
     (let input = trim raw in
      if input = [] \<or> starts_with input ''-'' then Inl (JinErr JinInvalidAmount) else
      let parts = split_on (CHR ''.'') input in
      rbind (ok_or (StdErr ParseIntError) (parse_uint (hd parts) :: u128 option)) (\<lambda>whole.
      if length parts > 2 then Inl (JinErr JinInvalidAmount) else
      rbind (ok_or (JinErr JinAmountOverflow) (checked_mul whole JIN_UNITS_PER_COIN)) (\<lambda>units0.
      rbind (case tl parts of
         [] \<Rightarrow> Inr units0
       | fr # _ \<Rightarrow>
           if length fr > JIN_DECIMALS \<or> \<not> list_all is_ascii_digit fr
           then Inl (JinErr JinInvalidFraction)
           else rbind (ok_or (StdErr ParseIntError) (parse_uint (pad_zeros JIN_DECIMALS fr))) (\<lambda>f.
                ok_or (JinErr JinAmountOverflow) (checked_add units0 f))) (\<lambda>units.
      if units > JIN_TOTAL_SUPPLY_UNITS then Inl (JinErr JinExceedsSupply) else Inr units))))"

definition format_jin_amount :: "u128 \<Rightarrow> string" where
  "format_jin_amount units =
     (let whole = units div JIN_UNITS_PER_COIN; fr = units mod JIN_UNITS_PER_COIN
      in if fr = 0 then show_word whole
         else show_word whole @ ''.'' @ trim_end_char (CHR ''0'') (show_padded 18 (unat fr)))"

section \<open>Round trips\<close>

text \<open>
  The decimal text of an amount parses back to the same amount of atoms, for every amount the
  type admits (up to \<open>MAX_MONEY_ATOMS\<close>), trailing zeros dropped and padded back.
\<close>

theorem amount_from_str_to_qub_string:
  assumes "a \<le> MAX_MONEY_ATOMS"
  shows "amount_from_str (to_qub_string a) = Inr a"
proof -
  let ?w = "a div ATOMS_PER_QUB" and ?f = "a mod ATOMS_PER_QUB"
  let ?t = "decimal_frac 8 (unat ?f)"
  have f: "unat ?f < 10 ^ 8" by (simp add: unat_div_mod)
  have r: "checked_mul ?w ATOMS_PER_QUB = Some (?w * ATOMS_PER_QUB)"
      "checked_add (?w * ATOMS_PER_QUB) ?f = Some a"
    using recombine [of ATOMS_PER_QUB a] by simp_all
  show ?thesis
  proof (cases "?f = 0")
    case True
    with r(2) have "?w * ATOMS_PER_QUB = a" by (simp add: checked_add_Some word_unat_eq_iff)
    with True r(1) assms decimal_text_not_minus [of ?w "[]"] show ?thesis
      by (simp add: to_qub_string_def amount_from_str_def decimal_text_split Let_def result_simps
          del: ATOMS_PER_QUB_def)
  next
    case False
    have "to_qub_string a = show_word ?w @ ''.'' @ ?t"
      using False by (simp add: to_qub_string_def decimal_frac_def Let_def del: ATOMS_PER_QUB_def)
    then show ?thesis
      using r assms f decimal_text_not_minus [of ?w "''.'' @ ?t"]
      by (simp add: amount_from_str_def decimal_text_trim decimal_text_split list_all_decimal_frac
          decimal_frac_length decimal_frac_padded parse_uint_show_padded Let_def result_simps
          not_less del: ATOMS_PER_QUB_def append.simps)
  qed
qed

lemma amount_from_str_to_qub_string_witness:
  "amount_from_str (to_qub_string 2100000000000000) = Inr 2100000000000000"
  by (rule amount_from_str_to_qub_string) (simp add: MAX_MONEY_ATOMS_val)

text \<open>
  The decimal text of a JIN amount parses back to the same number of units, for every amount
  up to the JIN supply.
\<close>

theorem parse_jin_amount_format:
  assumes "u \<le> JIN_TOTAL_SUPPLY_UNITS"
  shows "parse_jin_amount (format_jin_amount u) = Inr u"
proof -
  let ?w = "u div JIN_UNITS_PER_COIN" and ?f = "u mod JIN_UNITS_PER_COIN"
  let ?t = "decimal_frac 18 (unat ?f)"
  have f: "unat ?f < 10 ^ 18" by (simp add: unat_div_mod)
  have r: "checked_mul ?w JIN_UNITS_PER_COIN = Some (?w * JIN_UNITS_PER_COIN)"
      "checked_add (?w * JIN_UNITS_PER_COIN) ?f = Some u"
    using recombine [of JIN_UNITS_PER_COIN u] by simp_all
  show ?thesis
  proof (cases "?f = 0")
    case True
    with r(2) have "?w * JIN_UNITS_PER_COIN = u" by (simp add: checked_add_Some word_unat_eq_iff)
    with True r(1) assms decimal_text_not_minus [of ?w "[]"] show ?thesis
      by (simp add: format_jin_amount_def parse_jin_amount_def decimal_text_split Let_def
          result_simps not_less del: JIN_UNITS_PER_COIN_def)
  next
    case False
    have "format_jin_amount u = show_word ?w @ ''.'' @ ?t"
      using False by (simp add: format_jin_amount_def decimal_frac_def Let_def
          del: JIN_UNITS_PER_COIN_def)
    then show ?thesis
      using r assms f decimal_text_not_minus [of ?w "''.'' @ ?t"]
      by (simp add: parse_jin_amount_def decimal_text_trim decimal_text_split list_all_decimal_frac
          decimal_frac_length decimal_frac_padded parse_uint_show_padded Let_def result_simps
          not_less del: JIN_UNITS_PER_COIN_def append.simps)
  qed
qed

lemma parse_jin_amount_format_witness:
  "parse_jin_amount (format_jin_amount 1000000000000000001) = Inr 1000000000000000001"
  by (rule parse_jin_amount_format) (simp add: JIN_TOTAL_SUPPLY_UNITS_val)

end
