(* ===== verification/Primitives.thy ===== *)
theory Primitives
  imports Amounts
begin

text \<open>
  Hashes, outpoints, scripts, transactions, block headers and blocks of \<open>src/lib.rs\<close>, with their
  byte serialisation, transaction ids, signature hashes and the Merkle root. Serialisation is
  shown to be a prefix code field by field (locale \<open>prefix_code\<close>), which makes the encoding of a
  transaction and of a header injective; the Merkle root binds a list of given length up to an
  exhibited digest collision.
\<close>

section \<open>Data\<close>

type_synonym hash256 = bytes
type_synonym script = bytes

definition TX_VERSION_POOL_SHARE :: u32 where [simp]: "TX_VERSION_POOL_SHARE = 0x51554253"

definition hash_zero :: hash256 where
  "hash_zero = replicate 32 (CHR 0x00)"

definition double_sha256 :: "extern \<Rightarrow> bytes \<Rightarrow> hash256" where
  "double_sha256 X d = sha256 X (sha256 X d)"

definition hash_from_hex :: "extern \<Rightarrow> string \<Rightarrow> hash256 result" where
  "hash_from_hex X s =
     rbind (ok_or (StdErr HexError) (hex_decode X (trim s))) (\<lambda>b.
     if length b \<noteq> 32 then Inl (KeyErr ExpectedHash32) else Inr b)"

definition hash_to_string :: "extern \<Rightarrow> hash256 \<Rightarrow> string" where
  "hash_to_string X h = hex_encode X h"

datatype outpoint = OutPoint (op_txid: hash256) (op_vout: u32)

definition outpoint_null :: outpoint where
  "outpoint_null = OutPoint hash_zero 0xFFFFFFFF"

definition outpoint_key :: "extern \<Rightarrow> outpoint \<Rightarrow> string" where
  "outpoint_key X op = hash_to_string X (op_txid op) @ '':'' @ show_word (op_vout op)"

record tx_in =
  previous_output :: outpoint
  signature_script :: script
  sequence :: u32

record tx_out =
  out_value :: amount
  script_pubkey :: script

record transaction =
  tx_version :: u32
  tx_inputs :: "tx_in list"
  tx_outputs :: "tx_out list"
  tx_locktime :: u32

record block_header =
  hdr_version :: u32
  hdr_prev_block_hash :: hash256
  hdr_merkle_root :: hash256
  hdr_time :: u32
  hdr_bits :: u32
  hdr_nonce :: u32

record block =
  blk_header :: block_header
  blk_transactions :: "transaction list"

section \<open>Serialisation\<close>

definition write_varint :: "u64 \<Rightarrow> bytes" where
  "write_varint v =
     (let n = unat v in
      if n \<le> 0xfc then [char_of n]
      else if n \<le> 0xffff then CHR 0xFD # le_nat 2 n
      else if n \<le> 0xffffffff then CHR 0xFE # le_nat 4 n
      else CHR 0xFF # le_nat 8 n)"

definition write_varbytes :: "bytes \<Rightarrow> bytes" where
  "write_varbytes b = write_varint (of_nat (length b)) @ b"

definition serialize_input :: "(nat \<times> script) option \<Rightarrow> nat \<Rightarrow> tx_in \<Rightarrow> bytes" where
  "serialize_input override_script i inp =
     op_txid (previous_output inp) @ u32_le (op_vout (previous_output inp)) @
     (case override_script of
        Some (idx, s) \<Rightarrow> if idx = i then write_varbytes s else write_varbytes []
      | None \<Rightarrow> write_varbytes (signature_script inp)) @
     u32_le (sequence inp)"

definition serialize_output :: "tx_out \<Rightarrow> bytes" where
  "serialize_output out = u64_le (out_value out) @ write_varbytes (script_pubkey out)"

definition serialize_tx :: "(nat \<times> script) option \<Rightarrow> transaction \<Rightarrow> bytes" where
  "serialize_tx override_script tx =
     u32_le (tx_version tx) @
     write_varint (of_nat (length (tx_inputs tx))) @
     concat (map (\<lambda>(i, inp). serialize_input override_script i inp) (enumerate 0 (tx_inputs tx))) @
     write_varint (of_nat (length (tx_outputs tx))) @
     concat (map serialize_output (tx_outputs tx)) @
     u32_le (tx_locktime tx)"

definition txid :: "extern \<Rightarrow> transaction \<Rightarrow> hash256" where
  "txid X tx = double_sha256 X (serialize_tx None tx)"

definition sighash_all :: "extern \<Rightarrow> transaction \<Rightarrow> nat \<Rightarrow> script \<Rightarrow> hash256 result" where
  "sighash_all X tx input_index prev_script =
     (if input_index \<ge> length (tx_inputs tx) then Inl (KeyErr SighashIndexOutOfRange)
      else Inr (double_sha256 X (serialize_tx (Some (input_index, prev_script)) tx @ u32_le 1)))"

definition is_coinbase :: "transaction \<Rightarrow> bool" where
  "is_coinbase tx \<longleftrightarrow>
     tx_version tx \<noteq> TX_VERSION_POOL_SHARE \<and> length (tx_inputs tx) = 1 \<and>
     previous_output (tx_inputs tx ! 0) = outpoint_null"

text \<open>\<open>pools.rs\<close>: a zero-fee pool-share transaction.\<close>

definition is_pool_share_transaction :: "transaction \<Rightarrow> bool" where
  "is_pool_share_transaction tx \<longleftrightarrow>
     tx_version tx = TX_VERSION_POOL_SHARE \<and> length (tx_inputs tx) = 1 \<and>
     previous_output (tx_inputs tx ! 0) = outpoint_null \<and> tx_outputs tx = []"

definition serialize_header :: "block_header \<Rightarrow> bytes" where
  "serialize_header h =
     u32_le (hdr_version h) @ hdr_prev_block_hash h @ hdr_merkle_root h @
     u32_le (hdr_time h) @ u32_le (hdr_bits h) @ u32_le (hdr_nonce h)"

definition header_hash :: "extern \<Rightarrow> block_header \<Rightarrow> hash256" where
  "header_hash X h = double_sha256 X (serialize_header h)"

definition block_hash :: "extern \<Rightarrow> block \<Rightarrow> hash256" where
  "block_hash X b = header_hash X (blk_header b)"

section \<open>Merkle root\<close>

text \<open>One level: an odd layer is completed with its last hash, then hashed pair by pair.\<close>

fun merkle_chunks :: "extern \<Rightarrow> hash256 list \<Rightarrow> hash256 list" where
  "merkle_chunks X (a # b # r) = double_sha256 X (a @ b) # merkle_chunks X r"
| "merkle_chunks X _ = []"

definition merkle_step :: "extern \<Rightarrow> hash256 list \<Rightarrow> hash256 list" where
  "merkle_step X layer =
     merkle_chunks X (if odd (length layer) then layer @ [last layer] else layer)"

lemma length_merkle_chunks: "length (merkle_chunks X l) = length l div 2"
  by (induction X l rule: merkle_chunks.induct) simp_all

lemma length_merkle_step: "length (merkle_step X l) = (length l + 1) div 2"
  by (auto simp: merkle_step_def length_merkle_chunks elim: evenE)

function merkle_loop :: "extern \<Rightarrow> hash256 list \<Rightarrow> hash256" where
  "merkle_loop X layer =
     (if length layer > 1 then merkle_loop X (merkle_step X layer) else layer ! 0)"
  by pat_completeness auto
termination
  by (relation "measure (\<lambda>(X, l). length l)") (auto simp: length_merkle_step)

declare merkle_loop.simps [simp del]

definition merkle_root :: "extern \<Rightarrow> hash256 list \<Rightarrow> hash256" where
  "merkle_root X leaves = (if leaves = [] then hash_zero else merkle_loop X leaves)"

definition compute_merkle_root :: "extern \<Rightarrow> block \<Rightarrow> hash256" where
  "compute_merkle_root X b = merkle_root X (map (txid X) (blk_transactions b))"

section \<open>Lengths\<close>

lemma length_hash_zero [simp]: "length hash_zero = 32"
  by (simp add: hash_zero_def)

lemma length_double_sha256: "extern_ok X \<Longrightarrow> length (double_sha256 X d) = 32"
  by (simp add: double_sha256_def sha256_length)

lemma length_txid: "extern_ok X \<Longrightarrow> length (txid X t) = 32"
  by (simp add: txid_def length_double_sha256)

lemma length_block_hash: "extern_ok X \<Longrightarrow> length (block_hash X b) = 32"
  by (simp add: block_hash_def header_hash_def length_double_sha256)

lemma hash_hex_roundtrip:
  "extern_ok X \<Longrightarrow> length h = 32 \<Longrightarrow> hash_from_hex X (hash_to_string X h) = Inr h"
  by (simp add: hash_from_hex_def hash_to_string_def trim_hex hex_roundtrip)

lemma pipe_notin_hash_to_string: "extern_ok X \<Longrightarrow> CHR ''|'' \<notin> set (hash_to_string X h)"
  by (simp add: hash_to_string_def pipe_notin_hex)

lemma plain_hash: "extern_ok X \<Longrightarrow> plain_field (hash_to_string X h)"
  by (simp add: hash_to_string_def plain_hex)

section \<open>Prefix codes\<close>

text \<open>
  An encoding that can be read off the front of any byte string: two encodings followed by
  anything agree only when the values and the rests agree.
\<close>

locale prefix_code =
  fixes enc :: "'a \<Rightarrow> bytes" and wf :: "'a \<Rightarrow> bool"
  assumes enc_split: "wf a \<Longrightarrow> wf b \<Longrightarrow> enc a @ r = enc b @ s \<Longrightarrow> a = b \<and> r = s"
begin

lemma enc_inject: "wf a \<Longrightarrow> wf b \<Longrightarrow> enc a = enc b \<Longrightarrow> a = b"
  using enc_split [of a b "[]" "[]"] by simp

text \<open>A list of known length, item after item, is a prefix code again.\<close>

lemma list_split:
  assumes "length xs = length ys" and "list_all wf xs" and "list_all wf ys"
    and "concat (map enc xs) @ r = concat (map enc ys) @ s"
  shows "xs = ys \<and> r = s"
  using assms
proof (induction xs ys arbitrary: r s rule: list_induct2)
  case Nil
  then show ?case by simp
next
  case (Cons x xs y ys)
  from Cons.prems(3) have "enc x @ (concat (map enc xs) @ r) = enc y @ (concat (map enc ys) @ s)"
    by simp
  moreover have "wf x" "wf y" using Cons.prems(1,2) by simp_all
  ultimately have *: "x = y" "concat (map enc xs) @ r = concat (map enc ys) @ s"
    by (blast dest: enc_split)+
  have "xs = ys \<and> r = s"
    by (rule Cons.IH [OF _ _ *(2)]) (use Cons.prems(1,2) in simp_all)
  with *(1) show ?case by simp
qed

end

lemma fixed_length_split:
  "length (a :: bytes) = length b \<Longrightarrow> a @ r = b @ s \<Longrightarrow> a = b \<and> r = s"
  by (simp add: append_eq_append_conv)

interpretation u32_code: prefix_code u32_le "\<lambda>_. True"
  by unfold_locales (metis fixed_length_split length_u_le(2) u_le_inject(2))

interpretation u64_code: prefix_code u64_le "\<lambda>_. True"
  by unfold_locales (metis fixed_length_split length_u_le(3) u_le_inject(3))

lemma char_of_eq: "m < 256 \<Longrightarrow> n < 256 \<Longrightarrow> char_of (m :: nat) = char_of n \<longleftrightarrow> m = n"
  by (simp add: char_of_eq_iff take_bit_eq_mod)

lemma char_of_lt_marker:
  "n \<le> 0xfc \<Longrightarrow> char_of (n :: nat) \<noteq> CHR 0xFD \<and> char_of n \<noteq> CHR 0xFE \<and> char_of n \<noteq> CHR 0xFF"
  by (simp add: char_of_eq_iff take_bit_eq_mod)

lemma write_varint_split:
  assumes "write_varint a @ r = write_varint b @ s"
  shows "a = b \<and> r = s"
proof -
  have bound: "unat a < 256 ^ 8" "unat b < 256 ^ 8"
    using unat_bound [of a] unat_bound [of b] by simp_all
  have "unat a = unat b \<and> r = s"
    using assms bound char_of_lt_marker [of "unat a"] char_of_lt_marker [of "unat b"]
    by (auto simp: write_varint_def Let_def char_of_eq le_nat_inject split: if_splits)
  then show ?thesis by (simp add: word_unat_eq_iff)
qed

interpretation varint_code: prefix_code write_varint "\<lambda>_. True"
  by unfold_locales (auto dest: write_varint_split)

definition short :: "'a list \<Rightarrow> bool" where
  "short b \<longleftrightarrow> length b < 2 ^ 64"

lemma of_nat_length_eq:
  "short a \<Longrightarrow> short b \<Longrightarrow> (of_nat (length a) :: u64) = of_nat (length b) \<longleftrightarrow> length a = length b"
  by (auto simp: short_def word_unat_eq_iff unat_of_nat_less)

interpretation varbytes_code: prefix_code write_varbytes short
proof unfold_locales
  fix a b r s assume *: "short a" "short b" "write_varbytes a @ r = write_varbytes b @ s"
  then have "(of_nat (length a) :: u64) = of_nat (length b) \<and> a @ r = b @ s"
    by (intro write_varint_split) (simp add: write_varbytes_def)
  moreover from this * have "length a = length b" by (simp add: of_nat_length_eq)
  ultimately show "a = b \<and> r = s" by (blast dest: fixed_length_split)
qed

text \<open>Well-formed parts: 32-byte hashes, and lengths the code can represent.\<close>

definition wf_tx_in :: "tx_in \<Rightarrow> bool" where
  "wf_tx_in i \<longleftrightarrow> length (op_txid (previous_output i)) = 32 \<and> short (signature_script i)"

definition wf_tx_out :: "tx_out \<Rightarrow> bool" where
  "wf_tx_out out \<longleftrightarrow> short (script_pubkey out)"

definition wf_tx :: "transaction \<Rightarrow> bool" where
  "wf_tx tx \<longleftrightarrow> short (tx_inputs tx) \<and> short (tx_outputs tx) \<and>
     list_all wf_tx_in (tx_inputs tx) \<and> list_all wf_tx_out (tx_outputs tx)"

definition wf_header :: "block_header \<Rightarrow> bool" where
  "wf_header h \<longleftrightarrow> length (hdr_prev_block_hash h) = 32 \<and> length (hdr_merkle_root h) = 32"

interpretation tx_in_code: prefix_code "serialize_input None i" wf_tx_in for i
proof unfold_locales
  fix a b r s
  assume wf: "wf_tx_in a" "wf_tx_in b"
    and eq: "serialize_input None i a @ r = serialize_input None i b @ s"
  then have 1: "op_txid (previous_output a) = op_txid (previous_output b)"
    and "u32_le (op_vout (previous_output a)) @ write_varbytes (signature_script a) @
        u32_le (sequence a) @ r =
      u32_le (op_vout (previous_output b)) @ write_varbytes (signature_script b) @
        u32_le (sequence b) @ s"
    by (simp_all add: serialize_input_def wf_tx_in_def)
  then have 2: "op_vout (previous_output a) = op_vout (previous_output b)"
    and "write_varbytes (signature_script a) @ u32_le (sequence a) @ r =
      write_varbytes (signature_script b) @ u32_le (sequence b) @ s"
    using u32_code.enc_split by blast+
  then have "signature_script a = signature_script b" "sequence a = sequence b" "r = s"
    using wf varbytes_code.enc_split u32_code.enc_split unfolding wf_tx_in_def by blast+
  with 1 2 show "a = b \<and> r = s"
    by (cases a, cases b) (simp add: outpoint.expand)
qed

interpretation tx_out_code: prefix_code serialize_output wf_tx_out
proof unfold_locales
  fix a b r s
  assume wf: "wf_tx_out a" "wf_tx_out b"
    and eq: "serialize_output a @ r = serialize_output b @ s"
  then have "out_value a = out_value b" "script_pubkey a = script_pubkey b \<and> r = s"
    using u64_code.enc_split varbytes_code.enc_split
    unfolding serialize_output_def wf_tx_out_def by (metis append.assoc)+
  then show "a = b \<and> r = s" by (cases a, cases b) simp
qed

lemma serialize_inputs_None:
  "concat (map (\<lambda>(i, inp). serialize_input None i inp) (enumerate n xs)) =
    concat (map (serialize_input None 0) xs)"
  by (induction xs arbitrary: n) (simp_all add: serialize_input_def)

lemma serialize_tx_inject:
  assumes "wf_tx a" and "wf_tx b" and "serialize_tx None a = serialize_tx None b"
  shows "a = b"
proof -
  let ?ins = "\<lambda>t. concat (map (serialize_input None 0) (tx_inputs t))"
  let ?outs = "\<lambda>t. concat (map serialize_output (tx_outputs t))"
  let ?tail = "\<lambda>t. write_varint (of_nat (length (tx_outputs t))) @ ?outs t @ u32_le (tx_locktime t)"
  have "u32_le (tx_version a) @ write_varint (of_nat (length (tx_inputs a))) @ ?ins a @ ?tail a =
      u32_le (tx_version b) @ write_varint (of_nat (length (tx_inputs b))) @ ?ins b @ ?tail b"
    using assms(3) by (simp add: serialize_tx_def serialize_inputs_None)
  then have v: "tx_version a = tx_version b"
    and n: "(of_nat (length (tx_inputs a)) :: u64) = of_nat (length (tx_inputs b))"
    and ins: "?ins a @ ?tail a = ?ins b @ ?tail b"
    using u32_code.enc_split varint_code.enc_split by blast+
  from n assms(1,2) have "length (tx_inputs a) = length (tx_inputs b)"
    by (simp add: of_nat_length_eq wf_tx_def)
  with ins assms(1,2) have i: "tx_inputs a = tx_inputs b" and tail: "?tail a = ?tail b"
    using tx_in_code.list_split unfolding wf_tx_def by blast+
  then have m: "(of_nat (length (tx_outputs a)) :: u64) = of_nat (length (tx_outputs b))"
    and outs: "?outs a @ u32_le (tx_locktime a) = ?outs b @ u32_le (tx_locktime b)"
    using varint_code.enc_split by blast+
  from m assms(1,2) have "length (tx_outputs a) = length (tx_outputs b)"
    by (simp add: of_nat_length_eq wf_tx_def)
  with outs assms(1,2) have "tx_outputs a = tx_outputs b \<and> u32_le (tx_locktime a) = u32_le (tx_locktime b)"
    using tx_out_code.list_split unfolding wf_tx_def by blast
  with v i show ?thesis by (cases a, cases b) simp
qed

lemma serialize_header_inject:
  assumes "wf_header a" and "wf_header b" and "serialize_header a = serialize_header b"
  shows "a = b"
  using assms by (cases a, cases b) (simp add: serialize_header_def wf_header_def)

lemma length_serialize_header: "wf_header h \<Longrightarrow> length (serialize_header h) = 80"
  by (simp add: serialize_header_def wf_header_def)

section \<open>The Merkle root binds its leaves\<close>

text \<open>
  The byte strings hashed while the tree is built, and the collisions between the strings of
  two trees: every failure to bind exhibits two different strings of these sets with one digest.
\<close>

fun merkle_pairs :: "hash256 list \<Rightarrow> bytes list" where
  "merkle_pairs (a # b # r) = (a @ b) # merkle_pairs r"
| "merkle_pairs _ = []"

definition merkle_layer :: "hash256 list \<Rightarrow> hash256 list" where
  "merkle_layer layer = (if odd (length layer) then layer @ [last layer] else layer)"

function merkle_hashed :: "extern \<Rightarrow> hash256 list \<Rightarrow> bytes set" where
  "merkle_hashed X layer =
     (if length layer > 1
      then set (merkle_pairs (merkle_layer layer)) \<union> merkle_hashed X (merkle_step X layer)
      else {})"
  by pat_completeness auto
termination
  by (relation "measure (\<lambda>(X, l). length l)") (auto simp: length_merkle_step)

declare merkle_hashed.simps [simp del]

definition collides :: "extern \<Rightarrow> bytes set \<Rightarrow> bytes set \<Rightarrow> bool" where
  "collides X A B \<longleftrightarrow> (\<exists>a \<in> A. \<exists>b \<in> B. a \<noteq> b \<and> double_sha256 X a = double_sha256 X b)"

lemma collides_mono: "collides X A B \<Longrightarrow> A \<subseteq> A' \<Longrightarrow> B \<subseteq> B' \<Longrightarrow> collides X A' B'"
  unfolding collides_def by blast

lemma merkle_chunks_inject:
  assumes "length xs = length ys" and "even (length xs)"
    and "list_all (\<lambda>h. length h = 32) xs" and "list_all (\<lambda>h. length h = 32) ys"
    and "merkle_chunks X xs = merkle_chunks X ys"
  shows "xs = ys \<or> collides X (set (merkle_pairs xs)) (set (merkle_pairs ys))"
  using assms
proof (induction X xs arbitrary: ys rule: merkle_chunks.induct)
  case (1 X a b r)
  then obtain c d q where ys: "ys = c # d # q"
    by (cases ys; cases "tl ys") auto
  with 1 have "double_sha256 X (a @ b) = double_sha256 X (c @ d)"
    and "r = q \<or> collides X (set (merkle_pairs r)) (set (merkle_pairs q))"
    by auto
  moreover have "a @ b = c @ d \<longleftrightarrow> a = c \<and> b = d" using "1.prems" ys by auto
  ultimately show ?case using ys unfolding collides_def by auto
qed auto

lemma merkle_step_inject:
  assumes "length xs = length ys" and "xs \<noteq> []"
    and "list_all (\<lambda>h. length h = 32) xs" and "list_all (\<lambda>h. length h = 32) ys"
    and "merkle_step X xs = merkle_step X ys"
  shows "xs = ys \<or>
    collides X (set (merkle_pairs (merkle_layer xs))) (set (merkle_pairs (merkle_layer ys)))"
proof -
  have "ys \<noteq> []" using assms(1,2) by auto
  then have "list_all (\<lambda>h. length h = 32) (merkle_layer xs)"
    "list_all (\<lambda>h. length h = 32) (merkle_layer ys)"
    using assms(2-4) by (auto simp: list_all_iff merkle_layer_def)
  moreover have "length (merkle_layer xs) = length (merkle_layer ys)" "even (length (merkle_layer xs))"
    using assms(1) by (simp_all add: merkle_layer_def)
  moreover have "merkle_chunks X (merkle_layer xs) = merkle_chunks X (merkle_layer ys)"
    using assms(5) by (simp add: merkle_step_def merkle_layer_def)
  ultimately have "merkle_layer xs = merkle_layer ys \<or>
      collides X (set (merkle_pairs (merkle_layer xs))) (set (merkle_pairs (merkle_layer ys)))"
    by (intro merkle_chunks_inject)
  then show ?thesis using assms(1) by (auto simp: merkle_layer_def split: if_splits)
qed

lemma merkle_chunks_lengths:
  "extern_ok X \<Longrightarrow> list_all (\<lambda>h. length h = 32) (merkle_chunks X l)"
  by (induction X l rule: merkle_chunks.induct) (simp_all add: length_double_sha256)

lemma merkle_loop_inject:
  assumes "extern_ok X" and "length xs = length ys" and "xs \<noteq> []"
    and "list_all (\<lambda>h. length h = 32) xs" and "list_all (\<lambda>h. length h = 32) ys"
    and "merkle_loop X xs = merkle_loop X ys"
  shows "xs = ys \<or> collides X (merkle_hashed X xs) (merkle_hashed X ys)"
  using assms
proof (induction X xs arbitrary: ys rule: merkle_loop.induct)
  case (1 X xs)
  show ?case
  proof (cases "length xs > 1")
    case True
    then have deep: "merkle_hashed X (merkle_step X xs) \<subseteq> merkle_hashed X xs"
      "merkle_hashed X (merkle_step X ys) \<subseteq> merkle_hashed X ys"
      "set (merkle_pairs (merkle_layer xs)) \<subseteq> merkle_hashed X xs"
      "set (merkle_pairs (merkle_layer ys)) \<subseteq> merkle_hashed X ys"
      using "1.prems"(2) by (auto simp: merkle_hashed.simps [of X xs] merkle_hashed.simps [of X ys])
    have "merkle_loop X (merkle_step X xs) = merkle_loop X (merkle_step X ys)"
      using True "1.prems" by (simp add: merkle_loop.simps [of X xs] merkle_loop.simps [of X ys])
    moreover have "length (merkle_step X xs) = length (merkle_step X ys)"
      using "1.prems" by (simp add: length_merkle_step)
    moreover have "merkle_step X xs \<noteq> []"
      using True length_merkle_step [of X xs] by (intro notI) simp
    moreover have "list_all (\<lambda>h. length h = 32) (merkle_step X zs)" for zs
      using "1.prems"(1) by (simp add: merkle_step_def merkle_chunks_lengths)
    ultimately have "merkle_step X xs = merkle_step X ys \<or>
        collides X (merkle_hashed X (merkle_step X xs)) (merkle_hashed X (merkle_step X ys))"
      using "1.IH" [OF True] "1.prems"(1) by blast
    with "1.prems" deep show ?thesis
      using merkle_step_inject [of xs ys X] collides_mono by meson
  next
    case False
    with "1.prems" have "length xs = Suc 0" "length ys = Suc 0" by (cases xs; simp)+
    then obtain x y where "xs = [x]" "ys = [y]" by (auto simp: length_Suc_conv)
    with "1.prems" show ?thesis by (simp add: merkle_loop.simps)
  qed
qed

lemma compute_merkle_root_txids:
  assumes "extern_ok X" and "length (blk_transactions a) = length (blk_transactions b)"
    and "compute_merkle_root X a = compute_merkle_root X b"
  shows "map (txid X) (blk_transactions a) = map (txid X) (blk_transactions b) \<or>
    collides X (merkle_hashed X (map (txid X) (blk_transactions a)))
      (merkle_hashed X (map (txid X) (blk_transactions b)))"
proof (cases "blk_transactions a = []")
  case False
  with assms(2) have "blk_transactions b \<noteq> []" by auto
  moreover have "list_all (\<lambda>h. length h = 32) (map (txid X) ts)" for ts
    by (simp add: list_all_iff length_txid assms(1))
  ultimately show ?thesis using False assms
    merkle_loop_inject [of X "map (txid X) (blk_transactions a)" "map (txid X) (blk_transactions b)"]
    by (auto simp: compute_merkle_root_def merkle_root_def)
qed (use assms in simp)

lemma txids_inject:
  assumes "list_all wf_tx as" and "list_all wf_tx bs" and "map (txid X) as = map (txid X) bs"
  shows "as = bs \<or> collides X (serialize_tx None ` set as) (serialize_tx None ` set bs)"
  using assms
proof (induction as arbitrary: bs)
  case (Cons a as)
  then obtain b bs' where bs: "bs = b # bs'" by (cases bs) auto
  with Cons.prems have "a = b \<or> serialize_tx None a \<noteq> serialize_tx None b"
    by (auto dest: serialize_tx_inject)
  moreover have "double_sha256 X (serialize_tx None a) = double_sha256 X (serialize_tx None b)"
    using Cons.prems bs by (simp add: txid_def)
  moreover have "as = bs' \<or> collides X (serialize_tx None ` set as) (serialize_tx None ` set bs')"
    using Cons bs by simp
  ultimately show ?case unfolding bs collides_def by auto
qed simp

text \<open>
  C23: Two transactions with well-formed fields (32-byte previous transaction ids, lists and
  scripts shorter than 2 to the 64) have the same wire bytes only when they are the same
  transaction; so \<open>txid\<close> and \<open>sighash_all\<close> digest an unambiguous encoding.
\<close>

theorem serialize_tx_unambiguous:
  assumes "wf_tx a" and "wf_tx b"
  shows "serialize_tx None a = serialize_tx None b \<longleftrightarrow> a = b"
  using assms serialize_tx_inject by blast

lemma serialize_tx_unambiguous_witness:
  "(let i = \<lparr>previous_output = outpoint_null, signature_script = ''a'', sequence = 0\<rparr>;
        j = \<lparr>previous_output = outpoint_null, signature_script = ''b'', sequence = 0\<rparr>;
        t = (\<lambda>x. \<lparr>tx_version = 1, tx_inputs = [x], tx_outputs = [], tx_locktime = 0\<rparr>)
    in wf_tx (t i) \<and> wf_tx (t j) \<and> serialize_tx None (t i) \<noteq> serialize_tx None (t j))"
  unfolding Let_def
  by (intro conjI, simp add: wf_tx_def wf_tx_in_def short_def outpoint_null_def,
      simp add: wf_tx_def wf_tx_in_def short_def outpoint_null_def,
      subst serialize_tx_unambiguous)
    (simp_all add: wf_tx_def wf_tx_in_def short_def outpoint_null_def)

text \<open>
  C18: A header commits to its transactions. Two blocks with as many transactions and the same
  computed Merkle root hold the same transactions, unless two different byte strings the code
  hashed for them (serialised transactions or concatenated pairs of tree nodes) have the same
  double SHA-256.
\<close>

theorem merkle_root_binds_transactions:
  assumes "extern_ok X" and "length (blk_transactions a) = length (blk_transactions b)"
    and "list_all wf_tx (blk_transactions a)" and "list_all wf_tx (blk_transactions b)"
    and "compute_merkle_root X a = compute_merkle_root X b"
  shows "blk_transactions a = blk_transactions b \<or>
    collides X (serialize_tx None ` set (blk_transactions a)) (serialize_tx None ` set (blk_transactions b)) \<or>
    collides X (merkle_hashed X (map (txid X) (blk_transactions a)))
      (merkle_hashed X (map (txid X) (blk_transactions b)))"
  using compute_merkle_root_txids [OF assms(1,2,5)] txids_inject [OF assms(3,4)] by blast

definition example_tx :: transaction where
  "example_tx =
     \<lparr>tx_version = 1,
      tx_inputs = [\<lparr>previous_output = OutPoint (replicate 32 (CHR ''t'')) 0, signature_script = ''s'',
        sequence = 0xFFFFFFFF\<rparr>],
      tx_outputs = [\<lparr>out_value = 5, script_pubkey = ''p''\<rparr>], tx_locktime = 0\<rparr>"

definition example_block :: "transaction list \<Rightarrow> block" where
  "example_block ts =
     \<lparr>blk_header = \<lparr>hdr_version = 1, hdr_prev_block_hash = hash_zero, hdr_merkle_root = hash_zero,
        hdr_time = 0, hdr_bits = 0x1d07ffff, hdr_nonce = 0\<rparr>, blk_transactions = ts\<rparr>"

lemma wf_example_tx: "wf_tx example_tx"
  by (simp add: example_tx_def wf_tx_def wf_tx_in_def wf_tx_out_def short_def)

lemma merkle_root_binds_transactions_witness:
  "let bs = (serialize_tx None ` set [example_tx, example_tx]);
       hs = merkle_hashed ref_extern (map (txid ref_extern) [example_tx, example_tx])
   in [example_tx, example_tx] = [example_tx, example_tx] \<or> collides ref_extern bs bs \<or>
      collides ref_extern hs hs"
  using merkle_root_binds_transactions [of ref_extern "example_block [example_tx, example_tx]"
      "example_block [example_tx, example_tx]"]
  by (simp add: ref_extern_ok wf_example_tx example_block_def Let_def)

text \<open>
  Completing an odd layer is ambiguous: appending a copy of the last leaf of an odd list of
  at least three leaves leaves the root unchanged, so the root alone does not fix the number of
  transactions, which is why block validation rejects a repeated transaction id.
\<close>

theorem merkle_root_repeat_last:
  assumes "odd (length xs)" and "length xs > 1"
  shows "merkle_root X (xs @ [last xs]) = merkle_root X xs"
proof -
  have step: "merkle_step X (xs @ [last xs]) = merkle_step X xs"
    using assms(1) by (simp add: merkle_step_def)
  have "merkle_loop X (xs @ [last xs]) = merkle_loop X (merkle_step X (xs @ [last xs]))"
    using assms(2) by (subst merkle_loop.simps) auto
  also have "\<dots> = merkle_loop X xs"
    using assms(2) step by (subst (2) merkle_loop.simps) auto
  finally have "merkle_loop X (xs @ [last xs]) = merkle_loop X xs" .
  moreover have "xs \<noteq> []" using assms(2) by auto
  ultimately show ?thesis by (simp add: merkle_root_def)
qed

lemma merkle_root_repeat_last_witness:
  "merkle_root ref_extern [''a'', ''b'', ''c'', ''c''] = merkle_root ref_extern [''a'', ''b'', ''c'']"
  using merkle_root_repeat_last [of "[''a'', ''b'', ''c'']" ref_extern] by simp

end
