(* ===== verification/Addresses.thy ===== *)
theory Addresses
  imports Primitives
begin

text \<open>
  Addresses, pay-to-public-key-hash scripts, keys and signature scripts of \<open>src/lib.rs\<close>
  (\<open>Address\<close>, \<open>p2pkh_payload\<close>, \<open>secret_key_from_hex\<close>, \<open>sign_hash\<close>, \<open>verify_hash\<close>,
  \<open>encode_sig_script\<close>, \<open>decode_sig_script\<close>). The lemmas show that the address text and the
  signature script are exact inverses of their parsers, and that a script has at most one payload.
\<close>

section \<open>Addresses\<close>

definition P2PKH_PREFIX :: bytes where [simp]: "P2PKH_PREFIX = [CHR 0x76, CHR 0xA9, CHR 0x14]"
definition P2PKH_SUFFIX :: bytes where [simp]: "P2PKH_SUFFIX = [CHR 0x88, CHR 0xAC]"

record address =
  addr_prefix :: string
  addr_payload :: bytes

definition address_new :: "string \<Rightarrow> bytes \<Rightarrow> address" where
  "address_new pre payload = \<lparr>addr_prefix = pre, addr_payload = payload\<rparr>"

definition address_checksum :: "extern \<Rightarrow> string \<Rightarrow> bytes \<Rightarrow> bytes" where
  "address_checksum X pre payload = take 4 (sha256 X (sha256 X (pre @ payload)))"

definition address_to_string :: "extern \<Rightarrow> address \<Rightarrow> string" where
  "address_to_string X a =
     addr_prefix a @ ''1'' @
     hex_encode X (addr_payload a @ address_checksum X (addr_prefix a) (addr_payload a))"

definition address_from_str :: "extern \<Rightarrow> string \<Rightarrow> address result" where
  "address_from_str X s =
     (case split_once (CHR ''1'') (trim s) of
        None \<Rightarrow> Inl (KeyErr AddressMissingSeparator)
      | Some (pre, rest) \<Rightarrow>
          if pre = [] \<or> length rest \<noteq> 48 \<or> \<not> list_all is_ascii_lowercase pre
          then Inl (KeyErr InvalidAddressFormat)
          else rbind (ok_or (StdErr HexError) (hex_decode X rest)) (\<lambda>b.
            let payload = take 20 b in
            if take 4 (drop 20 b) \<noteq> address_checksum X pre payload
            then Inl (KeyErr InvalidAddressChecksum)
            else Inr (address_new pre payload)))"

definition parse_with_prefix :: "extern \<Rightarrow> string \<Rightarrow> string \<Rightarrow> address result" where
  "parse_with_prefix X s pre =
     rbind (address_from_str X s) (\<lambda>a.
     if addr_prefix a \<noteq> pre then Inl (KeyErr AddressPrefixMismatch) else Inr a)"

definition address_script_pubkey :: "address \<Rightarrow> script" where
  "address_script_pubkey a = P2PKH_PREFIX @ addr_payload a @ P2PKH_SUFFIX"

definition p2pkh_payload :: "script \<Rightarrow> bytes option" where
  "p2pkh_payload b =
     (if length b \<noteq> 25 \<or> take 3 b \<noteq> P2PKH_PREFIX \<or> take 2 (drop 23 b) \<noteq> P2PKH_SUFFIX
      then None else Some (take 20 (drop 3 b)))"

definition address_from_script_pubkey :: "string \<Rightarrow> script \<Rightarrow> address option" where
  "address_from_script_pubkey pre s = map_option (address_new pre) (p2pkh_payload s)"

section \<open>Keys and signatures\<close>

definition secret_key_from_hex :: "extern \<Rightarrow> string \<Rightarrow> bytes result" where
  "secret_key_from_hex X s =
     rbind (ok_or (StdErr HexError) (hex_decode X (trim s))) (\<lambda>b.
     if length b \<noteq> 32 then Inl (KeyErr SecretKeyLength)
     else ok_or (StdErr SecpError) (sk_from_slice X b))"

definition public_key_hash :: "extern \<Rightarrow> bytes \<Rightarrow> bytes" where
  "public_key_hash X pk = ripemd160 X (sha256 X pk)"

definition address_from_public_key :: "extern \<Rightarrow> string \<Rightarrow> bytes \<Rightarrow> address" where
  "address_from_public_key X pre pk = address_new pre (public_key_hash X pk)"

definition sign_hash :: "extern \<Rightarrow> bytes \<Rightarrow> hash256 \<Rightarrow> bytes result" where
  "sign_hash X secret h =
     rbind (ok_or (StdErr SecpError) (msg_from_digest X h)) (\<lambda>msg. Inr (ecdsa_sign X msg secret))"

definition verify_hash :: "extern \<Rightarrow> bytes \<Rightarrow> bytes \<Rightarrow> hash256 \<Rightarrow> bool" where
  "verify_hash X pk sig h =
     (case pk_from_slice X pk of
        None \<Rightarrow> False
      | Some pk' \<Rightarrow>
          (case sig_from_der X sig of
             None \<Rightarrow> False
           | Some sig' \<Rightarrow>
               (case msg_from_digest X h of
                  None \<Rightarrow> False
                | Some msg \<Rightarrow> ecdsa_verify X msg sig' pk')))"

definition encode_sig_script :: "bytes \<Rightarrow> bytes \<Rightarrow> script result" where
  "encode_sig_script pk sig =
     (if length pk > 65535 \<or> length sig > 65535 then Inl (KeyErr SigScriptTooLarge)
      else Inr (u16_le (of_nat (length pk)) @ pk @ u16_le (of_nat (length sig)) @ sig))"

definition decode_sig_script :: "script \<Rightarrow> (bytes \<times> bytes) result" where
  "decode_sig_script b =
     (if length b < 4 then Inl (KeyErr SigScriptTooShort) else
      let pk_len = nat_of_le (take 2 b) in
      if length b < 2 + pk_len + 2 then Inl (KeyErr BadPublicKeyLength) else
      let sig_off = 2 + pk_len;
          sig_len = nat_of_le (take 2 (drop sig_off b));
          sig_start = sig_off + 2 in
      if sig_start + sig_len \<noteq> length b then Inl (KeyErr BadSignatureLength)
      else Inr (take pk_len (drop 2 b), drop sig_start b))"

section \<open>Scripts\<close>

lemma p2pkh_payload_iff:
  "p2pkh_payload s = Some p \<longleftrightarrow> length p = 20 \<and> s = P2PKH_PREFIX @ p @ P2PKH_SUFFIX"
proof
  assume "p2pkh_payload s = Some p"
  then have l: "length s = 25" and a: "take 3 s = P2PKH_PREFIX"
    and z: "take 2 (drop 23 s) = P2PKH_SUFFIX" and p: "p = take 20 (drop 3 s)"
    by (auto simp: p2pkh_payload_def split: if_splits)
  have "s = take 3 s @ take 20 (drop 3 s) @ take 2 (drop 23 s)"
    using l by (intro nth_equalityI) (auto simp: nth_append)
  with l a z p show "length p = 20 \<and> s = P2PKH_PREFIX @ p @ P2PKH_SUFFIX" by simp
qed (simp add: p2pkh_payload_def)

lemma p2pkh_payload_script [simp]:
  "length (addr_payload a) = 20 \<Longrightarrow> p2pkh_payload (address_script_pubkey a) = Some (addr_payload a)"
  by (simp add: p2pkh_payload_iff address_script_pubkey_def del: P2PKH_PREFIX_def P2PKH_SUFFIX_def)

lemma address_from_script_pubkey_Some:
  assumes "address_from_script_pubkey pre s = Some a"
  shows "addr_prefix a = pre" and "length (addr_payload a) = 20" and "s = address_script_pubkey a"
  using assms by (auto simp: address_from_script_pubkey_def address_new_def address_script_pubkey_def
      p2pkh_payload_iff simp del: P2PKH_PREFIX_def P2PKH_SUFFIX_def)

section \<open>Address text\<close>

definition wf_address :: "address \<Rightarrow> bool" where
  "wf_address a \<longleftrightarrow>
     addr_prefix a \<noteq> [] \<and> list_all is_ascii_lowercase (addr_prefix a) \<and> length (addr_payload a) = 20"

lemma one_not_lowercase: "is_ascii_lowercase c \<Longrightarrow> c \<noteq> CHR ''1''"
  by (auto simp: is_ascii_lowercase_def less_eq_char_def)

lemma one_graphic [simp]: "is_ascii_graphic (CHR ''1'')"
  by (simp add: is_ascii_graphic_def)

lemma length_address_checksum: "extern_ok X \<Longrightarrow> length (address_checksum X p q) = 4"
  by (simp add: address_checksum_def sha256_length)

lemma address_chars_graphic:
  assumes "extern_ok X" and "wf_address a" and "c \<in> set (address_to_string X a)"
  shows "is_ascii_graphic c"
  using assms by (auto simp: address_to_string_def wf_address_def list_all_iff
      dest: hex_encode_chars [OF assms(1)] intro: lower_hex_graphic lowercase_graphic)

lemma address_text_roundtrip:
  assumes "extern_ok X" and "wf_address a"
  shows "address_from_str X (address_to_string X a) = Inr a"
proof -
  have t: "trim (address_to_string X a) = address_to_string X a"
    by (rule trim_all_graphic) (rule address_chars_graphic [OF assms])
  have "CHR ''1'' \<notin> set (addr_prefix a)"
    using assms(2) by (auto simp: wf_address_def list_all_iff dest: one_not_lowercase)
  then have "split_once (CHR ''1'') (address_to_string X a) =
      Some (addr_prefix a, hex_encode X (addr_payload a @ address_checksum X (addr_prefix a) (addr_payload a)))"
    by (simp add: address_to_string_def split_once_append)
  with t assms show ?thesis
    by (simp add: address_from_str_def wf_address_def hex_encode_length hex_roundtrip
        length_address_checksum address_new_def Let_def)
qed

lemma address_from_str_wf:
  assumes "extern_ok X" and "address_from_str X s = Inr a"
  shows "wf_address a"
proof -
  obtain pre rest b where "length rest = 48" "hex_decode X rest = Some b"
    and p: "pre \<noteq> []" "list_all is_ascii_lowercase pre" "a = address_new pre (take 20 b)"
    using assms(2)
    by (auto simp: address_from_str_def Let_def result_simps split: option.splits if_splits)
  then have "length b = 24" using hex_decode_length [OF assms(1)] by fastforce
  with p show ?thesis by (simp add: wf_address_def address_new_def)
qed

lemma pipe_notin_address:
  "extern_ok X \<Longrightarrow> wf_address a \<Longrightarrow> CHR ''|'' \<notin> set (address_to_string X a)"
  by (auto simp: address_to_string_def wf_address_def list_all_iff is_ascii_lowercase_def
      less_eq_char_def dest: hex_encode_chars lower_hex_not_pipe)

lemma trim_address: "extern_ok X \<Longrightarrow> wf_address a \<Longrightarrow> trim (address_to_string X a) = address_to_string X a"
  by (rule trim_all_graphic) (rule address_chars_graphic)

lemma plain_address: "extern_ok X \<Longrightarrow> wf_address a \<Longrightarrow> plain_field (address_to_string X a)"
  by (auto simp: plain_field_def list_all_iff pipe_notin_address intro: address_chars_graphic)

lemma parse_with_prefix_Inr:
  "parse_with_prefix X s pre = Inr a \<longleftrightarrow> address_from_str X s = Inr a \<and> addr_prefix a = pre"
  by (auto simp: parse_with_prefix_def result_simps)

lemma parse_with_prefix_to_string:
  "extern_ok X \<Longrightarrow> wf_address a \<Longrightarrow> parse_with_prefix X (address_to_string X a) (addr_prefix a) = Inr a"
  by (simp add: parse_with_prefix_Inr address_text_roundtrip)

text \<open>
  Address text is canonical: for a non-empty lower-case prefix and a 20-byte payload the
  printed address parses back to the same address, and every text that parses yields such an
  address, whose P2PKH script gives back the payload.
\<close>

theorem address_roundtrip:
  assumes "extern_ok X"
  shows "(wf_address a \<longrightarrow> address_from_str X (address_to_string X a) = Inr a) \<and>
    (address_from_str X s = Inr a \<longrightarrow>
       wf_address a \<and> address_from_script_pubkey (addr_prefix a) (address_script_pubkey a) = Some a)"
proof (intro conjI impI)
  assume "address_from_str X s = Inr a"
  with assms show "wf_address a" by (rule address_from_str_wf)
  then show "address_from_script_pubkey (addr_prefix a) (address_script_pubkey a) = Some a"
    by (simp add: address_from_script_pubkey_def wf_address_def address_new_def)
qed (rule address_text_roundtrip [OF assms])

lemma address_roundtrip_witness:
  "address_from_str ref_extern (address_to_string ref_extern (address_new ''qub'' (replicate 20 (CHR ''x'')))) =
    Inr (address_new ''qub'' (replicate 20 (CHR ''x'')))"
  using address_roundtrip [OF ref_extern_ok, of "address_new ''qub'' (replicate 20 (CHR ''x''))"]
  by (simp add: wf_address_def address_new_def is_ascii_lowercase_def less_eq_char_def)

section \<open>Signature scripts\<close>

lemma u16_le_nat_of_le:
  assumes "length b = 2"
  shows "u16_le (of_nat (nat_of_le b)) = b"
proof -
  obtain x y where b: "b = [x, y]" using assms by (auto simp: length_Suc_conv numeral_2_eq_2)
  have "nat_of_le b < 2 ^ LENGTH(16)" using nat_of_le_less [of b] assms by simp
  then have "u16_le (of_nat (nat_of_le b)) = le_nat 2 (nat_of_le b)"
    by (simp only: u16_le_def unat_of_nat_less)
  also have "\<dots> = b" by (simp add: b numeral_2_eq_2)
  finally show ?thesis .
qed

lemma decode_encode_sig_script:
  assumes "encode_sig_script pk sig = Inr s"
  shows "decode_sig_script s = Inr (pk, sig)"
proof -
  have l: "length pk < 2 ^ LENGTH(16)" "length sig < 2 ^ LENGTH(16)"
    and s: "s = u16_le (of_nat (length pk)) @ pk @ u16_le (of_nat (length sig)) @ sig"
    using assms by (auto simp: encode_sig_script_def split: if_splits)
  have "nat_of_le (u16_le (of_nat (length pk))) = length pk"
    and "nat_of_le (u16_le (of_nat (length sig))) = length sig"
    using l by (simp_all only: nat_of_le_u16_le unat_of_nat_less)
  then show ?thesis by (simp add: decode_sig_script_def s Let_def)
qed

lemma encode_decode_sig_script:
  assumes "decode_sig_script s = Inr (pk, sig)"
  shows "encode_sig_script pk sig = Inr s"
proof -
  let ?n = "nat_of_le (take 2 s)"
  let ?m = "nat_of_le (take 2 (drop (2 + ?n) s))"
  have l: "4 \<le> length s" "2 + ?n + 2 \<le> length s" "2 + ?n + 2 + ?m = length s"
    and pk: "pk = take ?n (drop 2 s)" and sig: "sig = drop (2 + ?n + 2) s"
    using assms by (auto simp: decode_sig_script_def Let_def not_less split: if_splits)
  have n: "?n < 65536" "?m < 65536"
    using nat_of_le_less [of "take 2 s"] nat_of_le_less [of "take 2 (drop (2 + ?n) s)"] l by simp_all
  have lens: "length pk = ?n" "length sig = ?m" using l by (simp_all add: pk sig)
  have "u16_le (of_nat ?n) = take 2 s" "u16_le (of_nat ?m) = take 2 (drop (2 + ?n) s)"
    using l by (simp_all add: u16_le_nat_of_le)
  moreover have "take 2 s @ pk @ take 2 (drop (2 + ?n) s) @ sig = s"
    unfolding pk sig by (metis append_take_drop_id drop_drop add.commute)
  ultimately show ?thesis using n lens by (simp add: encode_sig_script_def)
qed

text \<open>
  The signature script is a canonical encoding: a script decodes to a public key and a
  signature exactly when it is their encoding, so no two scripts carry the same pair and no
  bytes are left over.
\<close>

theorem sig_script_canonical:
  "decode_sig_script s = Inr (pk, sig) \<longleftrightarrow> encode_sig_script pk sig = Inr s"
  using decode_encode_sig_script encode_decode_sig_script by blast

end
