(* ===== verification/Settings.thy ===== *)
theory Settings
  imports Addresses
begin

text \<open>
  The settings of a node (\<open>src/lib.rs\<close>, \<open>src/pools.rs\<close>): one record per struct, the constants
  and defaults, the per-network overrides, activation heights, block versions and fork-safety
  checkpoints. \<open>usize\<close> fields are 64-bit words. Reading the TOML file is not modelled.
\<close>

section \<open>Records\<close>

record network_settings =
  net_name :: string
  net_magic :: string
  net_default_port :: u16
  net_address_prefix :: string

record node_settings =
  node_data_dir :: string

record p2p_settings =
  p2p_enabled :: bool
  p2p_bind :: string
  p2p_advertise_addr :: string
  p2p_max_inbound_peers :: usize
  p2p_max_outbound_peers :: usize
  p2p_max_message_bytes :: usize
  p2p_max_blocks_per_message :: usize
  p2p_max_peer_errors :: u32
  p2p_connect_interval_secs :: u64
  p2p_peer_file :: string
  p2p_bootnodes :: "string list"

record rpc_settings =
  rpc_enabled :: bool
  rpc_bind :: string
  rpc_auth_token :: string
  rpc_auth_token_file :: string
  rpc_allow_remote :: bool
  rpc_allowed_cidrs :: "string list"
  rpc_max_connections :: usize
  rpc_max_requests_per_minute :: u32
  rpc_max_header_bytes :: usize
  rpc_max_body_bytes :: usize
  rpc_read_timeout_secs :: u64
  rpc_write_timeout_secs :: u64
  rpc_job_ttl_secs :: u64
  rpc_max_cached_jobs :: usize
  rpc_max_template_batch :: usize

record mempool_settings =
  mp_max_transactions :: usize
  mp_min_relay_fee_atoms :: u64

record mining_settings =
  mine_enabled :: bool
  mine_threads :: usize
  mine_duty_cycle_percent :: u8
  mine_miner_address :: string
  mine_auto_mine_mempool :: bool

record wallet_settings =
  wal_plaintext_keys_allowed :: bool

record consensus_settings =
  cons_version :: u32
  cons_max_money_atoms :: u64
  cons_subsidy_halving_interval :: u64
  cons_initial_subsidy_atoms :: u64
  cons_coinbase_maturity :: u32
  cons_target_spacing_secs :: u32
  cons_difficulty_adjustment_interval :: u32
  cons_difficulty_max_adjustment_factor :: u32
  cons_max_future_time_secs :: u32
  cons_max_block_transactions :: usize
  cons_pow_bits :: string
  cons_genesis_time :: u32
  cons_genesis_bits :: string
  cons_genesis_nonce :: u32

record feature_settings =
  feat_pooled_mining_enabled :: bool
  feat_jin_native_coin_enabled :: bool

record qns_settings =
  qns_enabled :: bool
  qns_activation_height :: u32
  qns_miner_split_activation_height :: u32
  qns_max_label_chars :: u8
  qns_marker_output_atoms :: u64
  qns_base_registration_atoms :: u64
  qns_price_coefficient_atoms :: u64
  qns_protocol_address :: string
  qns_protocol_name :: string

record jin_settings =
  jin_enabled :: bool
  jin_activation_height :: u32
  jin_conversion_activation_height :: u32
  jin_decimals :: u8
  jin_total_supply_units :: string
  jin_protocol_address :: string
  jin_marker_output_atoms :: u64
  jin_default_fee_units :: string
  jin_allow_fee_in_jin :: bool
  jin_bridge_name :: string

record jin_swap_settings =
  swap_enabled :: bool
  swap_activation_height :: u32
  swap_marker_output_atoms :: u64
  swap_sale_total_units :: string
  swap_sale_batch_units :: string
  swap_sale_start_price_atoms_per_jin :: u64
  swap_sale_step_price_atoms_per_jin :: u64
  swap_protocol_fee_bps :: u64

record pools_settings =
  ps_enabled :: bool
  ps_activation_height :: u32
  ps_protocol_name :: string
  ps_protocol_address :: string
  ps_max_name_chars :: u8
  ps_max_name_bytes :: usize
  ps_marker_output_atoms :: u64
  ps_base_create_atoms :: u64
  ps_base_capacity_slots :: u32
  ps_capacity_step_atoms :: u64
  ps_capacity_step_slots :: u32
  ps_max_capacity_slots :: u32
  ps_max_active_pools :: u32
  ps_max_commission_bps :: u16
  ps_share_window_blocks :: u32
  ps_share_target_bits :: string
  ps_max_share_txs_per_block :: usize
  ps_share_stale_blocks :: u32

record library_settings =
  lib_enabled :: bool
  lib_activation_height :: u32
  lib_marker_output_atoms :: u64
  lib_base_post_fee_atoms :: u64
  lib_byte_fee_atoms :: u64
  lib_max_title_bytes :: usize
  lib_max_category_bytes :: usize
  lib_max_page_bytes :: usize
  lib_max_pages_per_post :: usize
  lib_max_comment_bytes :: usize
  lib_max_comment_depth :: usize

record verified_governance_settings =
  vg_enabled :: bool
  vg_activation_height :: u32
  vg_marker_output_atoms :: u64
  vg_wallet_bond_units :: string
  vg_pool_bond_units :: string
  vg_moderator_bond_units :: string
  vg_report_bond_units :: string
  vg_appeal_bond_units :: string
  vg_min_lock_blocks :: u32
  vg_max_avatar_bytes :: u32
  vg_max_display_name_bytes :: usize
  vg_max_avatar_ref_bytes :: usize
  vg_max_evidence_ref_bytes :: usize
  vg_max_active_reports :: usize
  vg_appeal_window_blocks :: u32
  vg_max_initial_slash_bps :: u16

record settings =
  network :: network_settings
  node :: node_settings
  p2p :: p2p_settings
  rpc :: rpc_settings
  mempool_cfg :: mempool_settings
  mining :: mining_settings
  wallet_cfg :: wallet_settings
  consensus :: consensus_settings
  features :: feature_settings
  qns :: qns_settings
  jin :: jin_settings
  jin_swap :: jin_swap_settings
  pools :: pools_settings
  library :: library_settings
  verified_governance :: verified_governance_settings

section \<open>Constants\<close>

text \<open>\<open>u32::MAX\<close> as an activation height stands for a feature that never activates.\<close>

definition U32_MAX :: u32 where "U32_MAX = 0xFFFFFFFF"
definition HF115_EFFECTIVE_MEMPOOL_MAX_TRANSACTIONS :: usize where [simp]: "HF115_EFFECTIVE_MEMPOOL_MAX_TRANSACTIONS = 20000"
definition HF115_MAX_TEMPLATE_SCAN_TXS :: usize where [simp]: "HF115_MAX_TEMPLATE_SCAN_TXS = 2048"
definition MAINNET_QNS_ACTIVATION_HEIGHT :: u32 where [simp]: "MAINNET_QNS_ACTIVATION_HEIGHT = 1000"
definition MAINNET_JIN_ACTIVATION_HEIGHT :: u32 where [simp]: "MAINNET_JIN_ACTIVATION_HEIGHT = 5555"
definition MAINNET_QNS_MINER_SPLIT_ACTIVATION_HEIGHT :: u32 where [simp]: "MAINNET_QNS_MINER_SPLIT_ACTIVATION_HEIGHT = 8305"
definition MAINNET_JIN_CONVERSION_ACTIVATION_HEIGHT :: u32 where [simp]: "MAINNET_JIN_CONVERSION_ACTIVATION_HEIGHT = 8305"
definition MAINNET_JIN_CONVERSION_DISABLE_HEIGHT :: u32 where [simp]: "MAINNET_JIN_CONVERSION_DISABLE_HEIGHT = 10720"
definition MAINNET_JIN_SWAP_ACTIVATION_HEIGHT :: u32 where [simp]: "MAINNET_JIN_SWAP_ACTIVATION_HEIGHT = 10720"
definition TESTNET_JIN_SWAP_ACTIVATION_HEIGHT :: u32 where [simp]: "TESTNET_JIN_SWAP_ACTIVATION_HEIGHT = 3520"
definition MAINNET_POOLS_ACTIVATION_HEIGHT :: u32 where [simp]: "MAINNET_POOLS_ACTIVATION_HEIGHT = 9999"
definition MAINNET_FORK_SAFETY_CHECKPOINT_HEIGHT :: u32 where [simp]: "MAINNET_FORK_SAFETY_CHECKPOINT_HEIGHT = 10367"
definition MAINNET_DAA_V2_ACTIVATION_HEIGHT :: u32 where [simp]: "MAINNET_DAA_V2_ACTIVATION_HEIGHT = 10500"
definition TESTNET_DAA_V2_ACTIVATION_HEIGHT :: u32 where [simp]: "TESTNET_DAA_V2_ACTIVATION_HEIGHT = 3330"
definition MAINNET_BLAST_ACTIVATION_HEIGHT :: u32 where [simp]: "MAINNET_BLAST_ACTIVATION_HEIGHT = 10600"
definition TESTNET_BLAST_ACTIVATION_HEIGHT :: u32 where [simp]: "TESTNET_BLAST_ACTIVATION_HEIGHT = 3420"
definition MAINNET_LIBRARY_ACTIVATION_HEIGHT :: u32 where [simp]: "MAINNET_LIBRARY_ACTIVATION_HEIGHT = 10550"
definition TESTNET_LIBRARY_ACTIVATION_HEIGHT :: u32 where [simp]: "TESTNET_LIBRARY_ACTIVATION_HEIGHT = 3440"
definition MAINNET_VERIFIED_GOVERNANCE_ACTIVATION_HEIGHT :: u32 where [simp]: "MAINNET_VERIFIED_GOVERNANCE_ACTIVATION_HEIGHT = 21000"
definition TESTNET_VERIFIED_GOVERNANCE_ACTIVATION_HEIGHT :: u32 where [simp]: "TESTNET_VERIFIED_GOVERNANCE_ACTIVATION_HEIGHT = 5000"
definition MAINNET_PROTOCOL_EPOCH_2_ACTIVATION_HEIGHT :: u32 where [simp]: "MAINNET_PROTOCOL_EPOCH_2_ACTIVATION_HEIGHT = 24000"
definition PROTOCOL_EPOCH_1_BLOCK_VERSION :: u32 where [simp]: "PROTOCOL_EPOCH_1_BLOCK_VERSION = 1"
definition PROTOCOL_EPOCH_2_BLOCK_VERSION :: u32 where [simp]: "PROTOCOL_EPOCH_2_BLOCK_VERSION = 2"
definition MAINNET_QUB_JIN_INFUSION_ACTIVATION_HEIGHT :: u32 where [simp]: "MAINNET_QUB_JIN_INFUSION_ACTIVATION_HEIGHT = 16777"
definition MAINNET_QUB_JIN_SALE_RESERVE_LOCK_HEIGHT :: u32 where [simp]: "MAINNET_QUB_JIN_SALE_RESERVE_LOCK_HEIGHT = 16666"
definition QUB_JIN_RESERVED_SALE_BATCHES :: u32 where [simp]: "QUB_JIN_RESERVED_SALE_BATCHES = 42"
definition QUB_JIN_BOOTSTRAP_INFUSION_JIN_COINS :: u128 where [simp]: "QUB_JIN_BOOTSTRAP_INFUSION_JIN_COINS = 42000000"
definition QUB_JIN_BOOTSTRAP_INFUSION_UNITS :: u128 where
  "QUB_JIN_BOOTSTRAP_INFUSION_UNITS = QUB_JIN_BOOTSTRAP_INFUSION_JIN_COINS * JIN_UNITS_PER_COIN"
definition QUB_JIN_INFUSION_VAULT :: string where "QUB_JIN_INFUSION_VAULT = ''__qub_jin_infusion_vault__''"
definition DAA_V2_WINDOW_BLOCKS :: nat where [simp]: "DAA_V2_WINDOW_BLOCKS = 20"
definition DAA_V2_MAX_ADJUSTMENT_FACTOR :: u64 where [simp]: "DAA_V2_MAX_ADJUSTMENT_FACTOR = 4"
definition MAINNET_POOLS_PROTOCOL_ADDRESS :: string where
  "MAINNET_POOLS_PROTOCOL_ADDRESS = ''qub1b4acf65ce91f786de20baa177cdb643869d1fdd5728eec0e''"
definition MAINNET_FORK_SAFETY_CHECKPOINT_HASH :: string where
  "MAINNET_FORK_SAFETY_CHECKPOINT_HASH =
     ''21dac61d5bd98053420870a68f323da4ba84145263921036504a8a9706000000''"

lemma QUB_JIN_BOOTSTRAP_INFUSION_UNITS_val:
  "QUB_JIN_BOOTSTRAP_INFUSION_UNITS = 42000000000000000000000000"
  by (simp add: QUB_JIN_BOOTSTRAP_INFUSION_UNITS_def)

section \<open>Defaults\<close>

definition jin_coins :: "u128 \<Rightarrow> string" where
  "jin_coins n = show_word (n * JIN_UNITS_PER_COIN)"

definition default_jin_settings :: jin_settings where
  "default_jin_settings =
     \<lparr>jin_enabled = False, jin_activation_height = U32_MAX, jin_conversion_activation_height = U32_MAX,
      jin_decimals = 18, jin_total_supply_units = show_word JIN_TOTAL_SUPPLY_UNITS,
      jin_protocol_address = [], jin_marker_output_atoms = 1,
      jin_default_fee_units = ''1000000000000000'', jin_allow_fee_in_jin = False,
      jin_bridge_name = ''jin.bridge''\<rparr>"

definition default_jin_swap_settings :: jin_swap_settings where
  "default_jin_swap_settings =
     \<lparr>swap_enabled = True, swap_activation_height = U32_MAX, swap_marker_output_atoms = 1,
      swap_sale_total_units = jin_coins 85000000, swap_sale_batch_units = jin_coins 1000000,
      swap_sale_start_price_atoms_per_jin = 1000000, swap_sale_step_price_atoms_per_jin = 100000,
      swap_protocol_fee_bps = 10\<rparr>"

definition default_library_settings :: library_settings where
  "default_library_settings =
     \<lparr>lib_enabled = True, lib_activation_height = U32_MAX, lib_marker_output_atoms = 1,
      lib_base_post_fee_atoms = 10000, lib_byte_fee_atoms = 100, lib_max_title_bytes = 120,
      lib_max_category_bytes = 48, lib_max_page_bytes = 2048, lib_max_pages_per_post = 16,
      lib_max_comment_bytes = 1024, lib_max_comment_depth = 16\<rparr>"

definition default_verified_governance_settings :: verified_governance_settings where
  "default_verified_governance_settings =
     \<lparr>vg_enabled = True, vg_activation_height = U32_MAX, vg_marker_output_atoms = 1,
      vg_wallet_bond_units = jin_coins 10000, vg_pool_bond_units = jin_coins 25000,
      vg_moderator_bond_units = jin_coins 50000, vg_report_bond_units = jin_coins 100,
      vg_appeal_bond_units = jin_coins 250, vg_min_lock_blocks = 7200,
      vg_max_avatar_bytes = 32 * 1024, vg_max_display_name_bytes = 48, vg_max_avatar_ref_bytes = 256,
      vg_max_evidence_ref_bytes = 256, vg_max_active_reports = 4096, vg_appeal_window_blocks = 7200,
      vg_max_initial_slash_bps = 2500\<rparr>"

definition default_pools_settings :: pools_settings where
  "default_pools_settings =
     \<lparr>ps_enabled = False, ps_activation_height = U32_MAX, ps_protocol_name = ''pools.qub'',
      ps_protocol_address = [], ps_max_name_chars = 32, ps_max_name_bytes = 128,
      ps_marker_output_atoms = 1, ps_base_create_atoms = 25 * ATOMS_PER_QUB,
      ps_base_capacity_slots = 8, ps_capacity_step_atoms = 10 * ATOMS_PER_QUB,
      ps_capacity_step_slots = 8, ps_max_capacity_slots = 128, ps_max_active_pools = 1024,
      ps_max_commission_bps = 2000, ps_share_window_blocks = 360, ps_share_target_bits = ''0x1e00ffff'',
      ps_max_share_txs_per_block = 128, ps_share_stale_blocks = 6\<rparr>"

section \<open>Network overrides\<close>

text \<open>
  The consensus fields a configuration file cannot change on mainnet and testnet, struct by
  struct, then \<open>apply_network_consensus_overrides\<close>.
\<close>

definition mainnet_swap :: "jin_swap_settings \<Rightarrow> jin_swap_settings" where
  "mainnet_swap s = s\<lparr>swap_enabled := True, swap_activation_height := MAINNET_JIN_SWAP_ACTIVATION_HEIGHT,
     swap_marker_output_atoms := 1, swap_sale_total_units := jin_coins 85000000,
     swap_sale_batch_units := jin_coins 1000000, swap_sale_start_price_atoms_per_jin := 1000000,
     swap_sale_step_price_atoms_per_jin := 100000, swap_protocol_fee_bps := 10\<rparr>"

definition mainnet_pools :: "pools_settings \<Rightarrow> pools_settings" where
  "mainnet_pools s = s\<lparr>ps_enabled := True, ps_activation_height := MAINNET_POOLS_ACTIVATION_HEIGHT,
     ps_protocol_name := ''pools.qub'', ps_protocol_address := MAINNET_POOLS_PROTOCOL_ADDRESS,
     ps_max_name_chars := 32, ps_max_name_bytes := 128, ps_marker_output_atoms := 1,
     ps_base_create_atoms := 25 * ATOMS_PER_QUB, ps_base_capacity_slots := 8,
     ps_capacity_step_atoms := 10 * ATOMS_PER_QUB, ps_capacity_step_slots := 8,
     ps_max_capacity_slots := 128, ps_max_active_pools := 1024, ps_max_commission_bps := 2000,
     ps_share_window_blocks := 360, ps_share_target_bits := ''0x1e00ffff'',
     ps_max_share_txs_per_block := 128, ps_share_stale_blocks := 6\<rparr>"

definition mainnet_library :: "library_settings \<Rightarrow> library_settings" where
  "mainnet_library s = s\<lparr>lib_enabled := True, lib_activation_height := MAINNET_LIBRARY_ACTIVATION_HEIGHT,
     lib_marker_output_atoms := 1, lib_base_post_fee_atoms := 10000, lib_byte_fee_atoms := 100,
     lib_max_title_bytes := 120, lib_max_category_bytes := 48, lib_max_page_bytes := 2048,
     lib_max_pages_per_post := 16, lib_max_comment_bytes := 1024, lib_max_comment_depth := 16\<rparr>"

definition mainnet_governance :: "verified_governance_settings \<Rightarrow> verified_governance_settings" where
  "mainnet_governance s = s\<lparr>vg_enabled := True,
     vg_activation_height := MAINNET_VERIFIED_GOVERNANCE_ACTIVATION_HEIGHT,
     vg_marker_output_atoms := 1, vg_wallet_bond_units := jin_coins 10000,
     vg_pool_bond_units := jin_coins 25000, vg_moderator_bond_units := jin_coins 50000,
     vg_report_bond_units := jin_coins 100, vg_appeal_bond_units := jin_coins 250,
     vg_max_initial_slash_bps := 2500\<rparr>"

definition apply_network_consensus_overrides :: "settings \<Rightarrow> settings" where
  "apply_network_consensus_overrides S =
     (if net_name (network S) = ''mainnet'' then
        S\<lparr>qns := (qns S)\<lparr>qns_activation_height := MAINNET_QNS_ACTIVATION_HEIGHT,
             qns_miner_split_activation_height := MAINNET_QNS_MINER_SPLIT_ACTIVATION_HEIGHT\<rparr>,
          jin := (jin S)\<lparr>jin_activation_height := MAINNET_JIN_ACTIVATION_HEIGHT,
             jin_conversion_activation_height := MAINNET_JIN_CONVERSION_ACTIVATION_HEIGHT\<rparr>,
          jin_swap := mainnet_swap (jin_swap S),
          features := (features S)\<lparr>feat_pooled_mining_enabled := True\<rparr>,
          pools := mainnet_pools (pools S),
          library := mainnet_library (library S),
          verified_governance := mainnet_governance (verified_governance S)\<rparr>
      else if net_name (network S) = ''testnet'' then
        S\<lparr>library := (library S)\<lparr>lib_enabled := True,
             lib_activation_height := TESTNET_LIBRARY_ACTIVATION_HEIGHT\<rparr>,
          jin_swap := (jin_swap S)\<lparr>swap_enabled := True,
             swap_activation_height := TESTNET_JIN_SWAP_ACTIVATION_HEIGHT\<rparr>,
          verified_governance := (verified_governance S)\<lparr>vg_enabled := True,
             vg_activation_height := TESTNET_VERIFIED_GOVERNANCE_ACTIVATION_HEIGHT\<rparr>\<rparr>
      else S)"

section \<open>Derived limits\<close>

definition effective_mempool_max_transactions :: "settings \<Rightarrow> usize" where
  "effective_mempool_max_transactions S =
     min (max (mp_max_transactions (mempool_cfg S)) 1) HF115_EFFECTIVE_MEMPOOL_MAX_TRANSACTIONS"

definition hf115_template_scan_limit :: "settings \<Rightarrow> usize" where
  "hf115_template_scan_limit S =
     min (max (sat_mul (cons_max_block_transactions (consensus S)) 2) 256) HF115_MAX_TEMPLATE_SCAN_TXS"

definition hf124_pool_share_mempool_limit :: "settings \<Rightarrow> usize" where
  "hf124_pool_share_mempool_limit S =
     min (sat_mul (max (ps_max_share_txs_per_block (pools S)) 1)
           (ucast (max (ps_share_stale_blocks (pools S)) 1)))
       (effective_mempool_max_transactions S)"

definition parse_u32 :: "string \<Rightarrow> u32 result" where
  "parse_u32 s =
     (case strip_prefix (trim s) ''0x'' of
        Some h \<Rightarrow> ok_or (StdErr ParseIntError) (from_str_radix 16 h)
      | None \<Rightarrow> ok_or (StdErr ParseIntError) (parse_uint (trim s)))"

definition pow_bits :: "settings \<Rightarrow> u32 result" where
  "pow_bits S = parse_u32 (cons_pow_bits (consensus S))"

definition genesis_bits :: "settings \<Rightarrow> u32 result" where
  "genesis_bits S = parse_u32 (cons_genesis_bits (consensus S))"

section \<open>Checkpoints and block versions\<close>

definition consensus_checkpoint_hash :: "settings \<Rightarrow> u32 \<Rightarrow> string option" where
  "consensus_checkpoint_hash S height =
     (if net_name (network S) = ''mainnet'' \<and> height = MAINNET_FORK_SAFETY_CHECKPOINT_HEIGHT
      then Some MAINNET_FORK_SAFETY_CHECKPOINT_HASH else None)"

definition validate_consensus_checkpoint ::
  "extern \<Rightarrow> settings \<Rightarrow> u32 \<Rightarrow> hash256 \<Rightarrow> unit result" where
  "validate_consensus_checkpoint X S height h =
     (case consensus_checkpoint_hash S height of
        None \<Rightarrow> Inr ()
      | Some expected \<Rightarrow>
          if hash_to_string X h \<noteq> expected then Inl (ChainErr CheckpointMismatch) else Inr ())"

definition validate_chain_consensus_checkpoints ::
  "extern \<Rightarrow> settings \<Rightarrow> block list \<Rightarrow> unit result" where
  "validate_chain_consensus_checkpoints X S blocks =
     fold_r (\<lambda>(height, b) _. validate_consensus_checkpoint X S (of_nat height) (block_hash X b))
       (enumerate 0 blocks) ()"

definition daa_v2_active :: "settings \<Rightarrow> u32 \<Rightarrow> bool" where
  "daa_v2_active S next_height =
     (if net_name (network S) = ''mainnet'' then next_height \<ge> MAINNET_DAA_V2_ACTIVATION_HEIGHT
      else if net_name (network S) = ''testnet'' then next_height \<ge> TESTNET_DAA_V2_ACTIVATION_HEIGHT
      else False)"

definition protocol_epoch_2_activation_height :: "settings \<Rightarrow> u32" where
  "protocol_epoch_2_activation_height S =
     (if net_name (network S) = ''mainnet'' then MAINNET_PROTOCOL_EPOCH_2_ACTIVATION_HEIGHT else U32_MAX)"

definition protocol_epoch_2_active :: "settings \<Rightarrow> u32 \<Rightarrow> bool" where
  "protocol_epoch_2_active S height =
     (let activation = protocol_epoch_2_activation_height S
      in activation \<noteq> U32_MAX \<and> height \<ge> activation)"

definition expected_block_version :: "settings \<Rightarrow> u32 \<Rightarrow> u32" where
  "expected_block_version S height =
     (if protocol_epoch_2_active S height then PROTOCOL_EPOCH_2_BLOCK_VERSION
      else cons_version (consensus S))"

definition protocol_epoch_name :: "settings \<Rightarrow> u32 \<Rightarrow> string" where
  "protocol_epoch_name S height =
     (if protocol_epoch_2_active S height then ''Protocol Epoch 2'' else ''Protocol Epoch 1'')"

section \<open>Properties\<close>

lemma effective_mempool_bounds:
  "1 \<le> effective_mempool_max_transactions S" "effective_mempool_max_transactions S \<le> 20000"
  by (simp_all add: effective_mempool_max_transactions_def word_le_nat_alt min_def max_def)

lemma pool_share_limit_le: "hf124_pool_share_mempool_limit S \<le> effective_mempool_max_transactions S"
  by (simp add: hf124_pool_share_mempool_limit_def)

lemma overrides_network [simp]: "network (apply_network_consensus_overrides S) = network S"
  by (simp add: apply_network_consensus_overrides_def)

lemma checkpoints_ok_iff:
  "validate_chain_consensus_checkpoints X S bs = Inr () \<longleftrightarrow>
    (\<forall>(h, b) \<in> set (enumerate 0 bs). validate_consensus_checkpoint X S (of_nat h) (block_hash X b) = Inr ())"
proof -
  have "fold_r (\<lambda>(h, b) _. f h b) ps () = Inr () \<longleftrightarrow> (\<forall>(h, b) \<in> set ps. f h b = Inr ())"
    for f :: "nat \<Rightarrow> block \<Rightarrow> unit result" and ps
    by (induction ps) (auto simp: result_simps)
  then show ?thesis by (simp add: validate_chain_consensus_checkpoints_def)
qed

section \<open>The mainnet configuration\<close>

text \<open>The values of \<open>config/mainnet.toml\<close> (node-local paths and peers left empty), for the examples.\<close>

definition ex_network :: "string \<Rightarrow> network_settings" where
  "ex_network name =
     \<lparr>net_name = name, net_magic = ''0x4d425542'', net_default_port = 17444,
      net_address_prefix = ''qub''\<rparr>"

definition ex_node :: "node_settings" where
  "ex_node =
     \<lparr>node_data_dir = []\<rparr>"

definition ex_p2p :: "p2p_settings" where
  "ex_p2p =
     \<lparr>p2p_enabled = True, p2p_bind = [], p2p_advertise_addr = [],
      p2p_max_inbound_peers = 128, p2p_max_outbound_peers = 24, p2p_max_message_bytes = 67108864,
      p2p_max_blocks_per_message = 20000, p2p_max_peer_errors = 10, p2p_connect_interval_secs = 3,
      p2p_peer_file = [], p2p_bootnodes = []\<rparr>"

definition ex_rpc :: "rpc_settings" where
  "ex_rpc =
     \<lparr>rpc_enabled = False, rpc_bind = [], rpc_auth_token = [], rpc_auth_token_file = [],
      rpc_allow_remote = False, rpc_allowed_cidrs = [], rpc_max_connections = 64,
      rpc_max_requests_per_minute = 600, rpc_max_header_bytes = 16384,
      rpc_max_body_bytes = 2097152, rpc_read_timeout_secs = 5, rpc_write_timeout_secs = 15,
      rpc_job_ttl_secs = 90, rpc_max_cached_jobs = 256, rpc_max_template_batch = 32\<rparr>"

definition ex_mempool :: "mempool_settings" where
  "ex_mempool =
     \<lparr>mp_max_transactions = 20000, mp_min_relay_fee_atoms = 1000\<rparr>"

definition ex_mining :: "mining_settings" where
  "ex_mining =
     \<lparr>mine_enabled = False, mine_threads = 1, mine_duty_cycle_percent = 50,
      mine_miner_address = [], mine_auto_mine_mempool = False\<rparr>"

definition ex_wallet :: "wallet_settings" where
  "ex_wallet =
     \<lparr>wal_plaintext_keys_allowed = False\<rparr>"

definition ex_consensus :: "consensus_settings" where
  "ex_consensus =
     \<lparr>cons_version = 1, cons_max_money_atoms = 2100000000000000,
      cons_subsidy_halving_interval = 2100000, cons_initial_subsidy_atoms = 500000000,
      cons_coinbase_maturity = 100, cons_target_spacing_secs = 60,
      cons_difficulty_adjustment_interval = 60, cons_difficulty_max_adjustment_factor = 4,
      cons_max_future_time_secs = 7200, cons_max_block_transactions = 10000,
      cons_pow_bits = ''0x1d07ffff'', cons_genesis_time = 1710000000,
      cons_genesis_bits = ''0x1d07ffff'', cons_genesis_nonce = 0\<rparr>"

definition ex_features :: "feature_settings" where
  "ex_features =
     \<lparr>feat_pooled_mining_enabled = True, feat_jin_native_coin_enabled = True\<rparr>"

definition ex_qns :: "qns_settings" where
  "ex_qns =
     \<lparr>qns_enabled = True, qns_activation_height = 1000,
      qns_miner_split_activation_height = 8305, qns_max_label_chars = 32,
      qns_marker_output_atoms = 1, qns_base_registration_atoms = 100000000,
      qns_price_coefficient_atoms = 100000000,
      qns_protocol_address = ''qub13e088539da373fe809b90ea5c7f6a61e880406d1e459eefe'',
      qns_protocol_name = ''qns.qub''\<rparr>"

definition ex_jin :: "jin_settings" where
  "ex_jin =
     \<lparr>jin_enabled = True, jin_activation_height = 5555,
      jin_conversion_activation_height = 8305, jin_decimals = 18,
      jin_total_supply_units = ''105000000000000000000000000'',
      jin_protocol_address = ''qub1bbc4abd368bf9f7a840938205b1bc1ca211fe3346933717b'',
      jin_marker_output_atoms = 1, jin_default_fee_units = ''1000000000000000'',
      jin_allow_fee_in_jin = True, jin_bridge_name = ''jin.bridge''\<rparr>"

definition ex_jin_swap :: "jin_swap_settings" where
  "ex_jin_swap =
     \<lparr>swap_enabled = True, swap_activation_height = 10720, swap_marker_output_atoms = 1,
      swap_sale_total_units = ''85000000000000000000000000'',
      swap_sale_batch_units = ''1000000000000000000000000'',
      swap_sale_start_price_atoms_per_jin = 1000000, swap_sale_step_price_atoms_per_jin = 100000,
      swap_protocol_fee_bps = 10\<rparr>"

definition ex_pools :: "pools_settings" where
  "ex_pools =
     \<lparr>ps_enabled = True, ps_activation_height = 9999, ps_protocol_name = ''pools.qub'',
      ps_protocol_address = ''qub1b4acf65ce91f786de20baa177cdb643869d1fdd5728eec0e'',
      ps_max_name_chars = 32, ps_max_name_bytes = 128, ps_marker_output_atoms = 1,
      ps_base_create_atoms = 2500000000, ps_base_capacity_slots = 8,
      ps_capacity_step_atoms = 1000000000, ps_capacity_step_slots = 8,
      ps_max_capacity_slots = 128, ps_max_active_pools = 1024, ps_max_commission_bps = 2000,
      ps_share_window_blocks = 360, ps_share_target_bits = ''0x1e00ffff'',
      ps_max_share_txs_per_block = 128, ps_share_stale_blocks = 6\<rparr>"

definition ex_library :: "library_settings" where
  "ex_library =
     \<lparr>lib_enabled = True, lib_activation_height = 10550, lib_marker_output_atoms = 1,
      lib_base_post_fee_atoms = 10000, lib_byte_fee_atoms = 100, lib_max_title_bytes = 120,
      lib_max_category_bytes = 48, lib_max_page_bytes = 2048, lib_max_pages_per_post = 16,
      lib_max_comment_bytes = 1024, lib_max_comment_depth = 16\<rparr>"

definition ex_verified_governance :: "verified_governance_settings" where
  "ex_verified_governance =
     \<lparr>vg_enabled = True, vg_activation_height = 21000, vg_marker_output_atoms = 1,
      vg_wallet_bond_units = ''10000000000000000000000'',
      vg_pool_bond_units = ''25000000000000000000000'',
      vg_moderator_bond_units = ''50000000000000000000000'',
      vg_report_bond_units = ''100000000000000000000'',
      vg_appeal_bond_units = ''250000000000000000000'', vg_min_lock_blocks = 7200,
      vg_max_avatar_bytes = 32768, vg_max_display_name_bytes = 48, vg_max_avatar_ref_bytes = 256,
      vg_max_evidence_ref_bytes = 256, vg_max_active_reports = 4096,
      vg_appeal_window_blocks = 7200, vg_max_initial_slash_bps = 2500\<rparr>"

definition example_settings :: "string \<Rightarrow> settings" where
  "example_settings name =
     \<lparr>network = ex_network name,
      node = ex_node,
      p2p = ex_p2p,
      rpc = ex_rpc,
      mempool_cfg = ex_mempool,
      mining = ex_mining,
      wallet_cfg = ex_wallet,
      consensus = ex_consensus,
      features = ex_features,
      qns = ex_qns,
      jin = ex_jin,
      jin_swap = ex_jin_swap,
      pools = ex_pools,
      library = ex_library,
      verified_governance = ex_verified_governance\<rparr>"

lemma example_settings_simps [simp]:
  "network (example_settings name) = ex_network name"
  "node (example_settings name) = ex_node"
  "p2p (example_settings name) = ex_p2p"
  "rpc (example_settings name) = ex_rpc"
  "mempool_cfg (example_settings name) = ex_mempool"
  "mining (example_settings name) = ex_mining"
  "wallet_cfg (example_settings name) = ex_wallet"
  "consensus (example_settings name) = ex_consensus"
  "features (example_settings name) = ex_features"
  "qns (example_settings name) = ex_qns"
  "jin (example_settings name) = ex_jin"
  "jin_swap (example_settings name) = ex_jin_swap"
  "pools (example_settings name) = ex_pools"
  "library (example_settings name) = ex_library"
  "verified_governance (example_settings name) = ex_verified_governance"
  by (simp_all add: example_settings_def)

lemma example_pow_bits: "pow_bits (example_settings name) = Inr 0x1d07ffff"
proof -
  have t: "trim ''0x1d07ffff'' = ''0x1d07ffff''"
    by (rule trim_graphic) (simp_all add: is_ascii_graphic_def)
  show ?thesis
    by (simp add: pow_bits_def ex_consensus_def parse_u32_def t strip_prefix_def starts_with_def
        from_str_radix_def digit_val_def char_class_defs less_eq_char_def)
qed

end
