(* ===== verification/Difficulty.thy ===== *)
theory Difficulty
  imports Settings
begin

text \<open>
  Proof of work of \<open>src/lib.rs\<close>: compact targets, the header check, the work of a block and of
  a chain, and the required bits of the next block (legacy interval and rolling window).
  \<open>BigUint\<close> is \<open>nat\<close>; a 32-byte target is a big-endian byte list. The lemmas read the byte and
  bit manipulations as arithmetic on natural numbers.
\<close>

section \<open>Compact targets\<close>

definition byte :: "u32 \<Rightarrow> char" where
  "byte w = char_of (unat (w AND 0xFF))"

definition target_from_compact :: "u32 \<Rightarrow> bytes result" where
  "target_from_compact bits =
     (let ex = unat (drop_bit 24 bits); mant = bits AND 0x007FFFFF in
      if mant = 0 \<or> bits AND 0x00800000 \<noteq> 0 then Inl (PowErr InvalidCompactTarget) else
      let out = replicate 32 (CHR 0x00) in
      rbind (if ex \<le> 3 then
               (let v = drop_bit (8 * (3 - ex)) mant;
                    out = out[31 := byte v];
                    out = (if v > 0xFF then out[30 := byte (drop_bit 8 v)] else out);
                    out = (if v > 0xFFFF then out[29 := byte (drop_bit 16 v)] else out)
                in Inr out)
             else if ex > 32 then Inl (PowErr TargetOverflow)
             else (let start = 32 - ex in
               if start + 3 > 32 then Inl (PowErr TargetOverflow)
               else Inr (out[start := byte (drop_bit 16 mant), start + 1 := byte (drop_bit 8 mant),
                 start + 2 := byte mant])))
        (\<lambda>out. if list_all (\<lambda>b. b = CHR 0x00) out then Inl (PowErr ZeroTarget) else Inr out))"

definition compact_to_biguint :: "u32 \<Rightarrow> nat result" where
  "compact_to_biguint bits = rbind (target_from_compact bits) (\<lambda>t. Inr (nat_of_be t))"

text \<open>\<open>BigUint::to_bytes_be\<close>: the bytes of a non-zero number without leading zeros.\<close>

fun to_bytes_be :: "nat \<Rightarrow> bytes" where
  "to_bytes_be n = (if n = 0 then [] else to_bytes_be (n div 256) @ [char_of (n mod 256)])"

declare to_bytes_be.simps [simp del]

definition byte_u32 :: "char \<Rightarrow> u32" where
  "byte_u32 c = of_nat (of_char c)"

definition biguint_to_compact :: "nat \<Rightarrow> u32" where
  "biguint_to_compact target =
     (if target = 0 then 0 else
      let bs = to_bytes_be target; size = length bs;
          compact = (if size \<le> 3
            then push_bit (8 * (3 - size)) (fold (\<lambda>b v. push_bit 8 v OR byte_u32 b) bs 0)
            else push_bit 16 (byte_u32 (bs ! 0)) OR push_bit 8 (byte_u32 (bs ! 1)) OR byte_u32 (bs ! 2));
          (compact, size) = (if compact AND 0x00800000 \<noteq> 0 then (drop_bit 8 compact, size + 1)
            else (compact, size))
      in push_bit 24 (of_nat size) OR (compact AND 0x007FFFFF))"

definition verify_header_pow :: "extern \<Rightarrow> block_header \<Rightarrow> bool result" where
  "verify_header_pow X header =
     rbind (target_from_compact (hdr_bits header)) (\<lambda>target.
     Inr (rev (header_hash X header) \<le> target))"

section \<open>Work\<close>

definition block_work :: "u32 \<Rightarrow> nat result" where
  "block_work bits =
     rbind (compact_to_biguint bits) (\<lambda>target.
     if target = 0 then Inl (PowErr ZeroWorkTarget) else Inr (2 ^ 256 div (target + 1)))"

definition chain_work_for_blocks :: "block list \<Rightarrow> nat result" where
  "chain_work_for_blocks blocks =
     fold_r (\<lambda>b work. rbind (block_work (hdr_bits (blk_header b))) (\<lambda>w. Inr (work + w)))
       (drop 1 blocks) 0"

section \<open>Required bits\<close>

definition prev_bits_or :: "block list \<Rightarrow> u32 \<Rightarrow> u32" where
  "prev_bits_or blocks d = (if blocks = [] then d else hdr_bits (blk_header (last blocks)))"

text \<open>The target \<open>retarget_bits\<close> computes before it is made compact.\<close>

definition retarget_target :: "settings \<Rightarrow> u32 \<Rightarrow> u32 \<Rightarrow> usize \<Rightarrow> u64 \<Rightarrow> nat \<Rightarrow> nat \<Rightarrow> nat" where
  "retarget_target S first_time last_time window max_factor old_target pow_limit =
     (let target_timespan = ucast (cons_target_spacing_secs (consensus S)) * window;
          max_factor = max max_factor 2;
          min_timespan = max (target_timespan div max_factor) 1;
          max_timespan = max (sat_mul target_timespan max_factor) 1;
          actual_timespan = min (max (ucast (sat_sub last_time first_time)) min_timespan) max_timespan;
          new_target = old_target * unat actual_timespan div unat (max target_timespan 1);
          new_target = (if new_target = 0 then 1 else new_target)
      in if new_target > pow_limit then pow_limit else new_target)"

definition retarget_bits :: "settings \<Rightarrow> block list \<Rightarrow> nat \<Rightarrow> u64 \<Rightarrow> u32 result" where
  "retarget_bits S chain_blocks window max_factor =
     rbind (pow_bits S) (\<lambda>pb.
     let prev_bits = prev_bits_or chain_blocks pb;
         last_index = length chain_blocks - 1;
         first_index = last_index - window;
         first_time = hdr_time (blk_header (chain_blocks ! first_index));
         last_time = hdr_time (blk_header (chain_blocks ! last_index)) in
     rbind (compact_to_biguint prev_bits) (\<lambda>old_target.
     rbind (compact_to_biguint pb) (\<lambda>pow_limit.
     Inr (biguint_to_compact
       (retarget_target S first_time last_time (of_nat window) max_factor old_target pow_limit)))))"

definition required_work_bits_legacy :: "settings \<Rightarrow> block list \<Rightarrow> u32 \<Rightarrow> u32 result" where
  "required_work_bits_legacy S chain_blocks next_height =
     rbind (pow_bits S) (\<lambda>pb.
     let prev_bits = prev_bits_or chain_blocks pb;
         interval = max (cons_difficulty_adjustment_interval (consensus S)) 1 in
     if interval \<le> 1 \<or> (next_height - 1) mod interval \<noteq> 0 \<or> length chain_blocks \<le> unat interval
     then Inr prev_bits
     else retarget_bits S chain_blocks (unat interval)
       (ucast (max (cons_difficulty_max_adjustment_factor (consensus S)) 2)))"

definition required_work_bits_v2 :: "settings \<Rightarrow> block list \<Rightarrow> u32 result" where
  "required_work_bits_v2 S chain_blocks =
     (let available = length chain_blocks - 1 in
      if available < 2 then rbind (pow_bits S) (\<lambda>pb. Inr (prev_bits_or chain_blocks pb))
      else retarget_bits S chain_blocks (max (min DAA_V2_WINDOW_BLOCKS available) 2)
        DAA_V2_MAX_ADJUSTMENT_FACTOR)"

definition required_work_bits :: "settings \<Rightarrow> block list \<Rightarrow> u32 \<Rightarrow> u32 result" where
  "required_work_bits S chain_blocks next_height =
     (if next_height = 0 \<or> chain_blocks = [] then genesis_bits S
      else if next_height \<le> 1 then pow_bits S
      else if daa_v2_active S next_height then required_work_bits_v2 S chain_blocks
      else required_work_bits_legacy S chain_blocks next_height)"

section \<open>Reading targets as numbers\<close>

lemma nat_of_be_append: "nat_of_be (xs @ ys) = nat_of_be xs * 256 ^ length ys + nat_of_be ys"
  by (simp add: nat_of_be_def nat_of_le_append)

lemma nat_of_be_less: "nat_of_be bs < 256 ^ length bs"
  using nat_of_le_less [of "rev bs"] by (simp add: nat_of_be_def)

lemma nat_of_be_Cons: "nat_of_be (b # bs) = of_char b * 256 ^ length bs + nat_of_be bs"
  using nat_of_be_append [of "[b]" bs] by (simp add: nat_of_be_def)

lemma nat_of_be_zeros [simp]: "nat_of_be (replicate n (CHR 0x00)) = 0"
  by (induction n) (simp_all add: nat_of_be_Cons, simp add: nat_of_be_def)

lemma nat_of_be_0_iff: "nat_of_be bs = 0 \<longleftrightarrow> list_all (\<lambda>b. b = CHR 0x00) bs"
proof (induction bs)
  case (Cons b bs)
  have "of_char b = (0 :: nat) \<longleftrightarrow> b = CHR 0x00"
    using of_char_eq_iff [of b "CHR 0x00"] by simp
  with Cons show ?case by (simp add: nat_of_be_Cons)
qed (simp add: nat_of_be_def)

text \<open>Comparing byte strings of one length is comparing big-endian numbers.\<close>

lemma bytes_le_iff:
  "length a = length b \<Longrightarrow> a \<le> b \<longleftrightarrow> nat_of_be a \<le> nat_of_be b"
proof (induction a b rule: list_induct2)
  case (Cons x xs y ys)
  let ?k = "256 ^ length xs :: nat"
  have l: "nat_of_be xs < ?k" "nat_of_be ys < ?k"
    using nat_of_be_less [of xs] nat_of_be_less [of ys] Cons.hyps by simp_all
  have le: "x < y \<longleftrightarrow> of_char x < (of_char y :: nat)" by (simp add: less_char_def)
  consider "of_char x < (of_char y :: nat)" | "x = y" | "of_char y < (of_char x :: nat)"
    by (metis linorder_neqE_nat of_char_eq_iff)
  then show ?case
  proof cases
    case 1
    then have "(of_char x + 1) * ?k \<le> of_char y * ?k" by (intro mult_right_mono) simp_all
    with 1 l le Cons.hyps show ?thesis by (simp add: nat_of_be_Cons algebra_simps)
  next
    case 2
    with Cons show ?thesis by (simp add: nat_of_be_Cons)
  next
    case 3
    then have "(of_char y + 1) * ?k \<le> of_char x * ?k" by (intro mult_right_mono) simp_all
    with 3 l le Cons.hyps show ?thesis by (auto simp: nat_of_be_Cons algebra_simps)
  qed
qed simp

lemma unat_drop: "unat (drop_bit n w) = unat w div 2 ^ n"
  by (simp only: unat_drop_bit_eq drop_bit_eq_div [where 'a = nat])

lemma unat_mask: "unat (w AND mask n) = unat w mod 2 ^ n"
  by (simp only: take_bit_eq_mask [symmetric] unsigned_take_bit_eq take_bit_eq_mod [where 'a = nat])

lemma masks: "(0xFF :: u32) = mask 8" "(0x007FFFFF :: u32) = mask 23"
  by (simp_all add: mask_eq_exp_minus_1)

lemma of_char_byte: "of_char (byte w) = unat w mod 256"
  using unat_mask [of w 8] by (simp add: byte_def masks del: mask_numeral)

lemma nat_of_be_three: "nat_of_be [a, b, c] = of_char c + 256 * (of_char b + 256 * of_char a)"
  by (simp add: nat_of_be_def)

lemma three_bytes:
  assumes "unat w < 2 ^ 24"
  shows "nat_of_be [byte (drop_bit 16 w), byte (drop_bit 8 w), byte w] = unat w"
proof -
  have "unat w div 65536 = unat w div 256 div 256" by (simp add: div_mult2_eq [symmetric])
  moreover have "unat w div 65536 < 256" using assms by (simp add: less_mult_imp_div_less)
  ultimately have "unat w mod 256 + 256 * (unat w div 2 ^ 8 mod 256 + 256 * (unat w div 2 ^ 16 mod 256)) = unat w"
    using div_mult_mod_eq [of "unat w" 256] div_mult_mod_eq [of "unat w div 256" 256] by simp
  then show ?thesis by (simp only: nat_of_be_three of_char_byte unat_drop)
qed

text \<open>The exponent and the mantissa of compact bits, and the number they stand for.\<close>

definition c_exp :: "u32 \<Rightarrow> nat" where "c_exp bits = unat bits div 2 ^ 24"
definition c_mant :: "u32 \<Rightarrow> nat" where "c_mant bits = unat bits mod 2 ^ 23"
definition c_sign :: "u32 \<Rightarrow> bool" where "c_sign bits \<longleftrightarrow> bits AND 0x00800000 \<noteq> 0"

definition c_value :: "u32 \<Rightarrow> nat" where
  "c_value bits =
     (if c_exp bits \<le> 3 then c_mant bits div 256 ^ (3 - c_exp bits)
      else c_mant bits * 256 ^ (c_exp bits - 3))"

lemma nat_of_be_padded:
  "nat_of_be (replicate n (CHR 0x00) @ bs @ replicate m (CHR 0x00)) = nat_of_be bs * 256 ^ m"
  by (simp add: nat_of_be_append)

lemma low_target:
  fixes v :: u32
  assumes "unat v < 2 ^ 24"
  defines "z \<equiv> replicate 32 (CHR 0x00)"
  shows "(let out = z[31 := byte v];
      out = (if v > 0xFF then out[30 := byte (drop_bit 8 v)] else out)
    in (if v > 0xFFFF then out[29 := byte (drop_bit 16 v)] else out)) =
    replicate 29 (CHR 0x00) @ [byte (drop_bit 16 v), byte (drop_bit 8 v), byte v]"
proof -
  have b: "byte (drop_bit n v) = CHR 0x00" if "unat v < 2 ^ n" for n
  proof -
    have "of_char (byte (drop_bit n v)) = (of_char (CHR 0x00) :: nat)"
      using that by (simp only: of_char_byte unat_drop) simp
    then show ?thesis by (simp only: of_char_eq_iff)
  qed
  have 8: "byte (drop_bit 8 v) = CHR 0x00" if "\<not> v > 0xFF"
    using that by (intro b) (simp add: word_less_nat_alt)
  have 16: "byte (drop_bit 16 v) = CHR 0x00" if "\<not> v > 0xFFFF"
    using that by (intro b) (simp add: word_less_nat_alt)
  have "v > 0xFFFF \<Longrightarrow> v > 0xFF" by (simp add: word_less_nat_alt)
  moreover have "z = replicate 29 (CHR 0x00) @ [CHR 0x00, CHR 0x00, CHR 0x00]"
    using replicate_add [of 29 3 "CHR 0x00"] by (simp add: z_def numeral_3_eq_3)
  ultimately show ?thesis using 8 16 by (auto simp: Let_def list_update_append)
qed

lemma high_target:
  assumes "k + 3 \<le> n"
  shows "(replicate n z)[k := a, k + 1 := b, k + 2 := c] = replicate k z @ [a, b, c] @ replicate (n - k - 3) z"
  using assms by (intro nth_equalityI) (auto simp: nth_append nth_list_update nth_Cons split: nat.splits)

lemma compact_to_biguint_value:
  "compact_to_biguint bits =
    (if c_mant bits = 0 \<or> c_sign bits then Inl (PowErr InvalidCompactTarget)
     else if c_exp bits > 32 then Inl (PowErr TargetOverflow)
     else if c_value bits = 0 then Inl (PowErr ZeroTarget)
     else Inr (c_value bits))"
proof -
  let ?mant = "bits AND 0x007FFFFF" and ?ex = "unat (drop_bit 24 bits)"
  have m: "unat ?mant = c_mant bits" unfolding c_mant_def masks by (rule unat_mask)
  then have m0: "?mant = 0 \<longleftrightarrow> c_mant bits = 0" by (metis unat_eq_0)
  have e: "?ex = c_exp bits" unfolding c_exp_def by (rule unat_drop)
  have lt: "c_mant bits < 2 ^ 23" by (simp add: c_mant_def)
  have all0: "rbind (if list_all (\<lambda>b. b = CHR 0x00) out then Inl (PowErr ZeroTarget) else Inr out)
      (\<lambda>t. Inr (nat_of_be t)) = (if nat_of_be out = 0 then Inl (PowErr ZeroTarget) else Inr (nat_of_be out))"
    for out by (simp add: nat_of_be_0_iff)
  consider "c_mant bits = 0 \<or> c_sign bits" | "c_mant bits \<noteq> 0" "\<not> c_sign bits" "c_exp bits \<le> 3"
    | "c_mant bits \<noteq> 0" "\<not> c_sign bits" "3 < c_exp bits" "c_exp bits \<le> 32"
    | "c_mant bits \<noteq> 0" "\<not> c_sign bits" "32 < c_exp bits"
    by linarith
  then show ?thesis
  proof cases
    case 1
    then show ?thesis using m0 by (auto simp: compact_to_biguint_def target_from_compact_def c_sign_def)
  next
    case 2
    let ?v = "drop_bit (8 * (3 - c_exp bits)) ?mant"
    have v: "unat ?v = c_mant bits div 256 ^ (3 - c_exp bits)"
      by (simp only: unat_drop m power_mult) simp
    have v24: "unat ?v < 2 ^ 24"
      unfolding v using lt by (rule order.strict_trans1 [OF div_le_dividend, OF order.strict_trans]) simp
    have "nat_of_be (replicate 29 (CHR 0x00) @ [byte (drop_bit 16 ?v), byte (drop_bit 8 ?v), byte ?v]) = c_value bits"
      using nat_of_be_padded [of 29 _ 0] 2 by (simp only: append_Nil2 replicate_0 three_bytes [OF v24] v c_value_def) simp
    with 2 m0 show ?thesis
      unfolding compact_to_biguint_def target_from_compact_def e Let_def
      using low_target [OF v24] by (simp only: Let_def if_True if_False rbind_simps c_sign_def all0 simp_thms not_less) simp
  next
    case 3
    let ?bs = "[byte (drop_bit 16 ?mant), byte (drop_bit 8 ?mant), byte ?mant]"
    have m24: "unat ?mant < 2 ^ 24" using lt m by simp
    have "nat_of_be (replicate (32 - c_exp bits) (CHR 0x00) @ ?bs @ replicate (c_exp bits - 3) (CHR 0x00)) = c_value bits"
      using 3 by (simp only: nat_of_be_padded three_bytes [OF m24] m c_value_def) simp
    moreover have "32 - (32 - c_exp bits) - 3 = c_exp bits - 3" using 3 by linarith
    ultimately have "nat_of_be ((replicate 32 (CHR 0x00))[32 - c_exp bits := byte (drop_bit 16 ?mant),
        32 - c_exp bits + 1 := byte (drop_bit 8 ?mant), 32 - c_exp bits + 2 := byte ?mant]) = c_value bits"
      using 3 by (subst high_target) simp_all
    moreover have "\<not> 32 - c_exp bits + 3 > 32" "\<not> c_exp bits \<le> 3" "\<not> c_exp bits > 32" using 3 by linarith+
    ultimately show ?thesis using 3(1,2) m0
      unfolding compact_to_biguint_def target_from_compact_def e Let_def c_sign_def
      by (simp only: if_False rbind_simps all0 simp_thms)
  next
    case 4
    with m0 e show ?thesis by (auto simp: compact_to_biguint_def target_from_compact_def c_sign_def Let_def)
  qed
qed

section \<open>Making a number compact\<close>

lemma or_shift:
  fixes a b :: u32
  assumes "unat b < 2 ^ k"
  shows "push_bit k a OR b = a * 2 ^ k + b"
proof -
  have "unat (take_bit k b) = unat b"
    using assms by (simp only: unsigned_take_bit_eq take_bit_nat_eq_self)
  then have "take_bit k b = b" by (simp only: word_unat_eq_iff)
  then have "push_bit k a AND b = 0"
    by (metis (no_types, lifting) bit_eqI bit_and_iff bit_push_bit_iff bit_take_bit_iff bit_0_eq bot_apply bot_bool_def not_less)
  then show ?thesis using disjunctive_add_eq_or [of "push_bit k a" b] by (simp add: push_bit_eq_mult)
qed

lemma unat_byte_u32: "unat (byte_u32 b) = of_char b"
proof -
  have "of_char b < (2 ^ LENGTH(32) :: nat)" by (rule order.strict_trans [of _ 256]) simp_all
  then show ?thesis unfolding byte_u32_def by (rule unat_of_nat_less)
qed

lemma fold_bytes:
  "fold (\<lambda>b v. push_bit 8 v OR byte_u32 b) bs v = v * of_nat (256 ^ length bs) + of_nat (nat_of_be bs)"
proof (induction bs arbitrary: v)
  case (Cons b bs)
  have "push_bit 8 v OR byte_u32 b = v * 2 ^ 8 + byte_u32 b"
    by (rule or_shift) (simp add: unat_byte_u32)
  then show ?case
    by (simp only: fold_simps comp_apply Cons.IH) (simp add: nat_of_be_Cons byte_u32_def algebra_simps)
qed (simp add: nat_of_be_def)

lemma to_bytes_be_value [simp]: "nat_of_be (to_bytes_be n) = n"
proof (induction n rule: to_bytes_be.induct)
  case (1 n)
  then show ?case
    by (subst to_bytes_be.simps) (simp add: nat_of_be_append, simp add: nat_of_be_def)
qed

text \<open>The number of bytes of a number.\<close>

definition bsize :: "nat \<Rightarrow> nat" where "bsize n = length (to_bytes_be n)"

lemma bsize_lower: "n \<noteq> 0 \<Longrightarrow> 256 ^ (bsize n - 1) \<le> n \<and> 0 < bsize n"
proof (induction n rule: to_bytes_be.induct)
  case (1 n)
  have step: "bsize n = bsize (n div 256) + 1"
    unfolding bsize_def using 1 by (subst to_bytes_be.simps) simp
  show ?case
  proof (cases "n div 256 = 0")
    case True
    then have "bsize (n div 256) = 0" by (simp add: bsize_def to_bytes_be.simps)
    with step 1 show ?thesis by simp
  next
    case False
    with 1 have IH: "256 ^ (bsize (n div 256) - 1) \<le> n div 256" "0 < bsize (n div 256)" by simp_all
    then have "256 ^ (bsize (n div 256) - 1) * 256 \<le> n" by (simp add: less_eq_div_iff_mult_less_eq)
    with IH(2) step show ?thesis by (cases "bsize (n div 256)") simp_all
  qed
qed

lemma bsize_upper: "n < 256 ^ bsize n"
  using nat_of_be_less [of "to_bytes_be n"] by (simp add: bsize_def)

lemma bsize_unique:
  assumes "256 ^ (s - 1) \<le> n" and "n < 256 ^ s"
  shows "bsize n = s"
proof -
  have n: "n \<noteq> 0" using assms(1) by (metis zero_less_power zero_less_numeral not_le)
  have "(256 :: nat) ^ (bsize n - 1) < 256 ^ s" "(256 :: nat) ^ (s - 1) < 256 ^ bsize n"
    using bsize_lower [OF n] bsize_upper [of n] assms by linarith+
  then have "bsize n - 1 < s" "s - 1 < bsize n" by (simp_all add: power_strict_increasing_iff)
  then show ?thesis using bsize_lower [OF n] by linarith
qed

text \<open>The leading 24 bits of a number, and its compact form, on natural numbers.\<close>

definition lead24 :: "nat \<Rightarrow> nat" where
  "lead24 n = (if bsize n \<le> 3 then n * 256 ^ (3 - bsize n) else n div 256 ^ (bsize n - 3))"

lemma lead24_bounds:
  assumes "n \<noteq> 0"
  shows "2 ^ 16 \<le> lead24 n" and "lead24 n < 2 ^ 24"
proof -
  note l = bsize_lower [OF assms] and u = bsize_upper [of n]
  have "2 ^ 16 \<le> lead24 n \<and> lead24 n < 2 ^ 24"
  proof (cases "bsize n \<le> 3")
    case True
    then have e: "bsize n = 1 \<or> bsize n = 2 \<or> bsize n = 3" using l by linarith
    then show ?thesis using l u by (auto simp: lead24_def)
  next
    case False
    let ?k = "256 ^ (bsize n - 3) :: nat"
    obtain j where j: "bsize n = j + 3" using False by (metis add.commute le_Suc_ex nat_le_linear)
    have "256 ^ (bsize n - 1) = 2 ^ 16 * ?k" "256 ^ bsize n = 2 ^ 24 * ?k"
      by (simp_all add: j power_add)
    then show ?thesis using l u False
      by (simp add: lead24_def less_eq_div_iff_mult_less_eq div_less_iff_less_mult)
  qed
  then show "2 ^ 16 \<le> lead24 n" "lead24 n < 2 ^ 24" by simp_all
qed

lemma of_char_less_256: "of_char c < (256 :: nat)"
  by simp

lemma leading_word:
  assumes "n \<noteq> 0"
  defines "bs \<equiv> to_bytes_be n"
  shows "(if length bs \<le> 3
      then push_bit (8 * (3 - length bs)) (fold (\<lambda>b v. push_bit 8 v OR byte_u32 b) bs 0)
      else push_bit 16 (byte_u32 (bs ! 0)) OR push_bit 8 (byte_u32 (bs ! 1)) OR byte_u32 (bs ! 2)) =
    of_nat (lead24 n)"
proof (cases "length bs \<le> 3")
  case True
  have "push_bit (8 * (3 - length bs)) (of_nat n :: u32) = of_nat (n * 256 ^ (3 - length bs))"
    by (simp add: push_bit_eq_mult power_mult)
  with True show ?thesis by (simp add: fold_bytes bs_def lead24_def bsize_def)
next
  case False
  then obtain b0 b1 b2 r where bs: "bs = b0 # b1 # b2 # r"
    by (metis Suc_le_length_iff not_less_eq_eq numeral_3_eq_3)
  have "n = nat_of_be bs" by (simp add: bs_def)
  also have "\<dots> = nat_of_be [b0, b1, b2] * 256 ^ length r + nat_of_be r"
    using nat_of_be_append [of "[b0, b1, b2]" r] by (simp add: bs)
  finally have "n div 256 ^ length r = nat_of_be [b0, b1, b2]"
    using nat_of_be_less [of r] by simp
  moreover have "bsize n = length r + 3" using bs by (simp add: bsize_def bs_def)
  ultimately have lead: "lead24 n = nat_of_be [b0, b1, b2]" using False by (simp add: lead24_def bsize_def bs_def)
  have low: "push_bit 8 (byte_u32 b1) OR byte_u32 b2 = byte_u32 b1 * 2 ^ 8 + byte_u32 b2"
    by (rule or_shift) (simp add: unat_byte_u32)
  have "byte_u32 b1 * 2 ^ 8 + byte_u32 b2 = of_nat (of_char b1 * 256 + of_char b2)"
    by (simp add: byte_u32_def)
  moreover have small: "of_char b1 * 256 + of_char b2 < (2 ^ 16 :: nat)"
  proof -
    have "of_char b1 \<le> (255 :: nat)" "of_char b2 \<le> (255 :: nat)"
      using of_char_less_256 [of b1] of_char_less_256 [of b2] by linarith+
    then have "of_char b1 * 256 + of_char b2 \<le> (255 * 256 + 255 :: nat)" by linarith
    then show ?thesis by simp
  qed
  ultimately have "unat (byte_u32 b1 * 2 ^ 8 + byte_u32 b2) < 2 ^ 16"
    using unat_of_nat_less [where 'w = 32, of "of_char b1 * 256 + of_char b2"] by simp
  then have "push_bit 16 (byte_u32 b0) OR push_bit 8 (byte_u32 b1) OR byte_u32 b2 =
      byte_u32 b0 * 2 ^ 16 + (byte_u32 b1 * 2 ^ 8 + byte_u32 b2)"
    by (simp only: low or_shift)
  also have "\<dots> = of_nat (lead24 n)" by (simp add: lead nat_of_be_three byte_u32_def algebra_simps)
  finally show ?thesis using False by (simp add: bs)
qed

lemma sign_bit:
  assumes "c < 2 ^ 24"
  shows "(of_nat c :: u32) AND 0x00800000 \<noteq> 0 \<longleftrightarrow> 2 ^ 23 \<le> c"
proof -
  have u: "unat (of_nat c :: u32) = c" using assms by (intro unat_of_nat_less) simp
  have "(of_nat c :: u32) AND 0x00800000 \<noteq> 0 \<longleftrightarrow> bit (of_nat c :: u32) 23"
    using and_exp_eq_0_iff_not_bit [of "of_nat c :: u32" 23] by simp
  also have "\<dots> \<longleftrightarrow> odd (drop_bit 23 (of_nat c :: u32))" by (rule bit_iff_odd_drop_bit)
  also have "drop_bit 23 (of_nat c :: u32) = of_nat (c div 2 ^ 23)"
    using u assms by (simp only: word_unat_eq_iff unat_drop) (subst unat_of_nat_less; simp)
  also have "odd (of_nat (c div 2 ^ 23) :: u32) \<longleftrightarrow> 2 ^ 23 \<le> c"
  proof -
    have "c div 2 ^ 23 < 2" using assms by (simp add: less_mult_imp_div_less)
    then consider "c div 2 ^ 23 = 0" | "c div 2 ^ 23 = 1" by linarith
    then show ?thesis by cases (auto simp: div_eq_0_iff)
  qed
  finally show ?thesis .
qed

lemma unat_pack:
  assumes "s < 256" and "c < 2 ^ 23"
  shows "unat (push_bit 24 (of_nat s) OR ((of_nat c :: u32) AND 0x007FFFFF)) = s * 2 ^ 24 + c"
proof -
  have "unat (of_nat c :: u32) = c" using assms by (intro unat_of_nat_less) simp
  then have c: "(of_nat c :: u32) AND 0x007FFFFF = of_nat c"
    using assms(2) by (simp only: word_unat_eq_iff masks unat_mask mod_less)
  have "push_bit 24 (of_nat s) OR (of_nat c :: u32) = of_nat s * 2 ^ 24 + of_nat c"
    using assms \<open>unat (of_nat c :: u32) = c\<close> by (intro or_shift) simp
  also have "\<dots> = of_nat (s * 2 ^ 24 + c)" by simp
  also have "unat (of_nat (s * 2 ^ 24 + c) :: u32) = s * 2 ^ 24 + c"
    using assms by (intro unat_of_nat_less) simp
  finally show ?thesis by (simp only: c)
qed

lemma unat_biguint_to_compact:
  assumes "n \<noteq> 0" and "bsize n < 255"
  shows "unat (biguint_to_compact n) =
    (if 2 ^ 23 \<le> lead24 n then (bsize n + 1) * 2 ^ 24 + lead24 n div 256 else bsize n * 2 ^ 24 + lead24 n)"
proof -
  have u: "unat (of_nat (lead24 n) :: u32) = lead24 n"
    using lead24_bounds [OF assms(1)] by (intro unat_of_nat_less) simp
  have d: "drop_bit 8 (of_nat (lead24 n) :: u32) = of_nat (lead24 n div 256)"
    using lead24_bounds [OF assms(1)]
    by (simp only: word_unat_eq_iff unat_drop u) (subst unat_of_nat_less; simp)
  have "lead24 n div 256 < 2 ^ 23" using lead24_bounds [OF assms(1)] by simp
  then show ?thesis
    using assms unat_pack [of "bsize n + 1" "lead24 n div 256"] unat_pack [of "bsize n" "lead24 n"]
    unfolding biguint_to_compact_def Let_def leading_word [OF assms(1)]
    by (simp only: if_False sign_bit [OF lead24_bounds(2) [OF assms(1)]] d bsize_def
        split: if_split prod.split) auto
qed

lemma c_sign_iff: "c_sign bits \<longleftrightarrow> odd (unat bits div 2 ^ 23)"
proof -
  have "c_sign bits \<longleftrightarrow> bit bits 23"
    unfolding c_sign_def using and_exp_eq_0_iff_not_bit [of bits 23] by simp
  also have "\<dots> \<longleftrightarrow> bit (unat bits) 23" by (simp add: bit_unsigned_iff)
  finally show ?thesis by (simp add: bit_iff_odd)
qed

text \<open>What making a number compact drops: its bytes below the mantissa.\<close>

definition low_bytes :: "nat \<Rightarrow> nat" where
  "low_bytes n = (if 2 ^ 23 \<le> lead24 n then bsize n - 2 else bsize n - 3)"

definition norm :: "nat \<Rightarrow> nat" where
  "norm n = n div 256 ^ low_bytes n * 256 ^ low_bytes n"

lemma unpack:
  assumes "unat bits = s * 2 ^ 24 + c" and "c < 2 ^ 23"
  shows "c_exp bits = s" and "c_mant bits = c" and "\<not> c_sign bits"
proof -
  have e: "s * 2 ^ 24 + c = c + (2 * s) * 2 ^ 23" by simp
  have "(s * 2 ^ 24 + c) div 2 ^ 24 = s" using assms(2) by simp
  moreover have "(s * 2 ^ 24 + c) mod 2 ^ 23 = c" and h: "(s * 2 ^ 24 + c) div 2 ^ 23 = 2 * s"
    unfolding e mod_mult_self1 using assms(2) by simp_all
  ultimately have "(s * 2 ^ 24 + c) div 2 ^ 24 = s" "(s * 2 ^ 24 + c) mod 2 ^ 23 = c" by simp_all
  then show "c_exp bits = s" "c_mant bits = c" by (simp_all add: assms(1) c_exp_def c_mant_def)
  show "\<not> c_sign bits" unfolding c_sign_iff assms(1) h by simp
qed

lemma compact_fields:
  assumes "n \<noteq> 0" and "bsize n < 255"
  shows "c_exp (biguint_to_compact n) = (if 2 ^ 23 \<le> lead24 n then bsize n + 1 else bsize n)"
    and "c_mant (biguint_to_compact n) = (if 2 ^ 23 \<le> lead24 n then lead24 n div 256 else lead24 n)"
    and "\<not> c_sign (biguint_to_compact n)"
proof -
  have "lead24 n div 256 < 2 ^ 23" using lead24_bounds [OF assms(1)] by simp
  then have "if 2 ^ 23 \<le> lead24 n
      then c_exp (biguint_to_compact n) = bsize n + 1 \<and>
        c_mant (biguint_to_compact n) = lead24 n div 256 \<and> \<not> c_sign (biguint_to_compact n)
      else c_exp (biguint_to_compact n) = bsize n \<and>
        c_mant (biguint_to_compact n) = lead24 n \<and> \<not> c_sign (biguint_to_compact n)"
    using unat_biguint_to_compact [OF assms]
      unpack [of "biguint_to_compact n" "bsize n + 1" "lead24 n div 256"]
      unpack [of "biguint_to_compact n" "bsize n" "lead24 n"] by simp
  then show "c_exp (biguint_to_compact n) = (if 2 ^ 23 \<le> lead24 n then bsize n + 1 else bsize n)"
    and "c_mant (biguint_to_compact n) = (if 2 ^ 23 \<le> lead24 n then lead24 n div 256 else lead24 n)"
    and "\<not> c_sign (biguint_to_compact n)"
    by (simp_all split: if_splits)
qed

lemma c_value_compact:
  assumes "n \<noteq> 0" and "bsize n < 255"
  shows "c_value (biguint_to_compact n) = norm n"
proof -
  have "0 < bsize n" using bsize_lower [OF assms(1)] by simp
  then consider "bsize n = 1" | "bsize n = 2" | "bsize n = 3" | j where "bsize n = j + 4"
    by (metis One_nat_def Suc_eq_plus1 add_Suc_right less_numeral_extra(3) nat_less_le not_less_eq
        numeral_2_eq_2 numeral_3_eq_3 numeral_Bit0 add.commute le_Suc_ex not_less Suc_leI numeral_code(2))
  then show ?thesis
  proof cases
    case 1
    then show ?thesis using compact_fields [OF assms]
      by (auto simp: c_value_def norm_def low_bytes_def lead24_def)
  next
    case 2
    then show ?thesis using compact_fields [OF assms]
      by (auto simp: c_value_def norm_def low_bytes_def lead24_def)
  next
    case 3
    then show ?thesis using compact_fields [OF assms]
      by (auto simp: c_value_def norm_def low_bytes_def lead24_def)
  next
    case 4
    then show ?thesis using compact_fields [OF assms]
      by (auto simp: c_value_def norm_def low_bytes_def lead24_def div_mult2_eq [symmetric] mult.commute)
  qed
qed

lemma norm_ge: "256 ^ low_bytes n dvd m \<Longrightarrow> m \<le> n \<Longrightarrow> m \<le> norm n"
  unfolding norm_def by (metis div_le_mono dvd_div_mult_self mult_le_mono1)

lemma norm_le: "norm n \<le> n"
  by (simp add: norm_def)

lemma low_bytes_le: "low_bytes n \<le> bsize n - 2"
  by (auto simp: low_bytes_def)

lemma mantissa_bound:
  assumes "n \<noteq> 0" and "low_bytes n \<noteq> 0"
  shows "2 ^ 15 * 256 ^ low_bytes n \<le> n"
proof (cases "2 ^ 23 \<le> lead24 n")
  case True
  with assms obtain k where k: "bsize n = k + 3" by (auto simp: low_bytes_def dest: less_imp_Suc_add)
  have "2 ^ 23 * 256 ^ k \<le> n"
    using True k by (cases "k = 0") (auto simp: lead24_def less_eq_div_iff_mult_less_eq)
  with True k show ?thesis by (simp add: low_bytes_def)
next
  case False
  with assms obtain k where "bsize n = k + 4"
    by (auto simp: low_bytes_def dest: less_imp_Suc_add)
  with False bsize_lower [OF assms(1)] show ?thesis by (simp add: low_bytes_def power_add)
qed

lemma bsize_norm:
  assumes "n \<noteq> 0"
  shows "bsize (norm n) = bsize n"
proof (rule bsize_unique)
  have "low_bytes n \<le> bsize n - 1" using low_bytes_le [of n] by linarith
  then show "256 ^ (bsize n - 1) \<le> norm n"
    using bsize_lower [OF assms] by (intro norm_ge) (simp_all add: le_imp_power_dvd)
  show "norm n < 256 ^ bsize n" using norm_le [of n] bsize_upper [of n] by linarith
qed

lemma norm_pos: "n \<noteq> 0 \<Longrightarrow> norm n \<noteq> 0"
  using bsize_norm [of n] bsize_lower [of n] by (metis bsize_def less_numeral_extra(3) list.size(3) to_bytes_be.simps)

lemma lead24_norm:
  assumes "n \<noteq> 0"
  shows "2 ^ 23 \<le> lead24 (norm n) \<longleftrightarrow> 2 ^ 23 \<le> lead24 n"
    and "if 2 ^ 23 \<le> lead24 n then lead24 (norm n) div 256 = lead24 n div 256
      else lead24 (norm n) = lead24 n"
proof -
  have "(2 ^ 23 \<le> lead24 (norm n) \<longleftrightarrow> 2 ^ 23 \<le> lead24 n) \<and>
    (if 2 ^ 23 \<le> lead24 n then lead24 (norm n) div 256 = lead24 n div 256
      else lead24 (norm n) = lead24 n)"
  proof (cases "low_bytes n = 0")
    case True
    then show ?thesis by (simp add: norm_def)
  next
    case False
    show ?thesis
    proof (cases "2 ^ 23 \<le> lead24 n")
      case True
      with False obtain k where k: "bsize n = k + 3" "low_bytes n = k + 1"
        by (auto simp: low_bytes_def dest: less_imp_Suc_add)
      let ?q = "n div 256 ^ (k + 1)"
      have q: "norm n = ?q * 256 * 256 ^ k" by (simp add: norm_def k)
      have l: "lead24 n = n div 256 ^ k" using k by (cases "k = 0") (simp_all add: lead24_def)
      have ln: "lead24 (norm n) = ?q * 256"
        using k bsize_norm [OF assms] by (cases "k = 0") (simp_all add: lead24_def q)
      have "lead24 n div 256 = ?q" by (simp add: l div_mult2_eq [symmetric] mult.commute)
      moreover from this True have "2 ^ 15 \<le> ?q" using div_le_mono [of "2 ^ 23" "lead24 n" 256] by simp
      ultimately show ?thesis using True ln by simp
    next
      case False2: False
      with False obtain k where k: "bsize n = k + 4" "low_bytes n = k + 1"
        by (auto simp: low_bytes_def dest: less_imp_Suc_add)
      have "lead24 n = n div 256 ^ (k + 1)" "lead24 (norm n) = n div 256 ^ (k + 1)"
        using k bsize_norm [OF assms] by (simp_all add: lead24_def norm_def)
      then show ?thesis by simp
    qed
  qed
  then show "2 ^ 23 \<le> lead24 (norm n) \<longleftrightarrow> 2 ^ 23 \<le> lead24 n"
    and "if 2 ^ 23 \<le> lead24 n then lead24 (norm n) div 256 = lead24 n div 256
      else lead24 (norm n) = lead24 n" by blast+
qed

lemma compact_norm:
  assumes "n \<noteq> 0" and "bsize n < 255"
  shows "biguint_to_compact (norm n) = biguint_to_compact n"
proof -
  have "unat (biguint_to_compact (norm n)) = unat (biguint_to_compact n)"
    using unat_biguint_to_compact [OF assms] unat_biguint_to_compact [OF norm_pos [OF assms(1)]]
      bsize_norm [OF assms(1)] lead24_norm [OF assms(1)] assms(2) by (simp split: if_splits)
  then show ?thesis by (simp only: word_unat_eq_iff)
qed

lemma bits_255:
  assumes "n \<noteq> 0" and "n < 2 ^ 255"
  shows "bsize n \<le> 32" and "c_exp (biguint_to_compact n) \<le> 32"
proof -
  have "(256 :: nat) ^ (bsize n - 1) < 256 ^ 32"
    using bsize_lower [OF assms(1)] assms(2) by (simp add: le_less_trans)
  then have "bsize n - 1 < 32" by (simp only: power_strict_increasing_iff [of "256 :: nat"] one_less_numeral_iff semiring_norm)
  then show b: "bsize n \<le> 32" by linarith
  have "\<not> 2 ^ 23 \<le> lead24 n" if "bsize n = 32"
    using that assms(2) by (simp add: lead24_def not_le div_less_iff_less_mult)
  with b show "c_exp (biguint_to_compact n) \<le> 32"
    using compact_fields [of n] assms(1) by (cases "bsize n = 32") auto
qed

lemma compact_to_biguint_compact:
  assumes "n \<noteq> 0" and "n < 2 ^ 255"
  shows "compact_to_biguint (biguint_to_compact n) = Inr (norm n)"
proof -
  have b: "bsize n < 255" using bits_255 [OF assms] by linarith
  have "c_mant (biguint_to_compact n) \<noteq> 0"
    using compact_fields(2) [OF assms(1) b] lead24_bounds [OF assms(1)]
    by (auto simp: div_greater_zero_iff)
  then show ?thesis
    using compact_fields(3) [OF assms(1) b] bits_255(2) [OF assms] c_value_compact [OF assms(1) b]
      norm_pos [OF assms(1)] by (simp add: compact_to_biguint_value)
qed

lemma compact_to_biguint_bounds:
  assumes "compact_to_biguint bits = Inr n"
  shows "n \<noteq> 0" and "n < 2 ^ 255"
proof -
  have n: "n = c_value bits" "c_value bits \<noteq> 0" and e: "c_exp bits \<le> 32"
    using assms by (auto simp: compact_to_biguint_value split: if_splits)
  then show "n \<noteq> 0" by simp
  have m: "c_mant bits < 2 ^ 23" by (simp add: c_mant_def)
  have "c_value bits < 2 ^ 23 * 256 ^ 29"
  proof (cases "c_exp bits \<le> 3")
    case True
    have "c_mant bits div 256 ^ (3 - c_exp bits) < 2 ^ 23"
      using m by (rule le_less_trans [OF div_le_dividend])
    with True have "c_value bits < 2 ^ 23" by (simp add: c_value_def)
    then show ?thesis by simp
  next
    case False
    have "(256 :: nat) ^ (c_exp bits - 3) \<le> 256 ^ 29" using e by (intro power_increasing) simp_all
    then have "c_mant bits * 256 ^ (c_exp bits - 3) \<le> c_mant bits * 256 ^ 29" by (rule mult_le_mono2)
    also have "\<dots> < 2 ^ 23 * 256 ^ 29" using m by (rule mult_strict_right_mono) simp
    finally show ?thesis using False by (simp only: c_value_def if_False)
  qed
  then show "n < 2 ^ 255" using n(1) by simp
qed

lemma norm_loss:
  assumes "n \<noteq> 0"
  shows "(n - norm n) * 2 ^ 15 \<le> n"
proof (cases "low_bytes n = 0")
  case False
  have "n - norm n < 256 ^ low_bytes n"
    by (simp add: norm_def minus_div_mult_eq_mod)
  then have "(n - norm n) * 2 ^ 15 \<le> 2 ^ 15 * 256 ^ low_bytes n" by simp
  also have "\<dots> \<le> n" using mantissa_bound [OF assms False] .
  finally show ?thesis .
qed (simp add: norm_def)

section \<open>Properties of compact targets and of work\<close>

text \<open>
  Compact bits are a canonical rounding of targets. For every target below 2 to the 255 the
  bits made from it are valid, stand for a non-zero number not above the target and within one
  part in 2 to the 15 of it, and making that number compact gives the same bits again.
\<close>

theorem compact_rounding:
  assumes "0 < n" and "n < 2 ^ 255"
  shows "\<exists>m. compact_to_biguint (biguint_to_compact n) = Inr m \<and> 0 < m \<and> m \<le> n \<and>
    (n - m) * 2 ^ 15 \<le> n \<and> biguint_to_compact m = biguint_to_compact n"
proof -
  have n: "n \<noteq> 0" using assms(1) by simp
  have "bsize n < 255" using bits_255(1) [OF n assms(2)] by linarith
  then show ?thesis
    using compact_to_biguint_compact [OF n assms(2)] norm_pos [OF n] norm_le [of n] norm_loss [OF n]
      compact_norm [OF n] by auto
qed

lemma compact_rounding_witness:
  "\<exists>m. compact_to_biguint (biguint_to_compact (2 ^ 200 + 12345)) = Inr m \<and> 0 < m \<and> m \<le> 2 ^ 200 + 12345 \<and>
    (2 ^ 200 + 12345 - m) * 2 ^ 15 \<le> 2 ^ 200 + 12345 \<and>
    biguint_to_compact m = biguint_to_compact (2 ^ 200 + 12345)"
  by (rule compact_rounding [of "2 ^ 200 + 12345"]) simp_all

text \<open>
  C17: The header check accepts exactly the hashes that are, read as a little-endian number, at
  most the target the bits stand for; headers with invalid bits are rejected with an error.
\<close>

lemma target_from_compact_length: "target_from_compact bits = Inr t \<Longrightarrow> length t = 32"
  by (auto simp: target_from_compact_def Let_def result_simps split: if_splits)

theorem verify_header_pow_numeric:
  assumes "extern_ok X"
  shows "verify_header_pow X h =
    rbind (compact_to_biguint (hdr_bits h)) (\<lambda>t. Inr (nat_of_le (header_hash X h) \<le> t))"
proof (cases "target_from_compact (hdr_bits h)")
  case (Inr t)
  have "length (rev (header_hash X h)) = length t"
    using target_from_compact_length [OF Inr] length_double_sha256 [OF assms]
    by (simp add: header_hash_def)
  then show ?thesis
    by (simp add: verify_header_pow_def compact_to_biguint_def Inr bytes_le_iff nat_of_be_def)
qed (simp add: verify_header_pow_def compact_to_biguint_def)

lemma verify_header_pow_numeric_witness:
  "let h = blk_header (example_block []) in
   verify_header_pow ref_extern h =
     rbind (compact_to_biguint (hdr_bits h)) (\<lambda>t. Inr (nat_of_le (header_hash ref_extern h) \<le> t))"
  unfolding Let_def by (rule verify_header_pow_numeric) (rule ref_extern_ok)

lemma block_work_ok:
  "block_work bits = Inr w \<longleftrightarrow> (\<exists>t. compact_to_biguint bits = Inr t \<and> w = 2 ^ 256 div (t + 1))"
  by (auto simp: block_work_def result_simps dest: compact_to_biguint_bounds)

lemma block_work_pos: "block_work bits = Inr w \<Longrightarrow> 0 < w"
  by (auto simp: block_work_ok div_greater_zero_iff dest!: compact_to_biguint_bounds(2))

lemma chain_work_snoc:
  "bs \<noteq> [] \<Longrightarrow> chain_work_for_blocks (bs @ [b]) =
    rbind (chain_work_for_blocks bs) (\<lambda>w. rbind (block_work (hdr_bits (blk_header b))) (\<lambda>v. Inr (w + v)))"
  by (cases bs) (auto simp: chain_work_for_blocks_def fold_r_append rbind_def split: sum.splits)

text \<open>
  The work of a chain grows strictly with every block after the genesis block.
\<close>

theorem chain_work_increases:
  assumes "chain_work_for_blocks (bs @ [b]) = Inr w" and "bs \<noteq> []"
  shows "\<exists>v. chain_work_for_blocks bs = Inr v \<and> v < w"
  using assms by (auto simp: chain_work_snoc result_simps dest: block_work_pos)

section \<open>Properties of the required bits\<close>

text \<open>Bits that stand for a target not above the proof-of-work limit of the settings.\<close>

definition bits_within :: "settings \<Rightarrow> u32 \<Rightarrow> bool" where
  "bits_within S bits \<longleftrightarrow> (\<exists>pb lim t. pow_bits S = Inr pb \<and> compact_to_biguint pb = Inr lim \<and>
     compact_to_biguint bits = Inr t \<and> t \<le> lim)"

lemma clamp_le: "(if x > lim then lim else x) \<le> (lim :: nat)"
  by simp

lemma clamp_pos:
  "0 < lim \<Longrightarrow> 0 < (if (if x = 0 then 1 else x) > lim then lim else if x = 0 then 1 else (x :: nat))"
  by simp

lemma retarget_target_le: "retarget_target S a b w f old lim \<le> lim"
  unfolding retarget_target_def Let_def by (rule clamp_le)

lemma retarget_target_pos: "0 < lim \<Longrightarrow> 0 < retarget_target S a b w f old lim"
  unfolding retarget_target_def Let_def by (rule clamp_pos)

lemma retarget_bits_within:
  assumes "pow_bits S = Inr pb" and "compact_to_biguint pb = Inr lim"
    and "compact_to_biguint (prev_bits_or bs pb) = Inr old"
  shows "\<exists>b. retarget_bits S bs w f = Inr b \<and> bits_within S b"
proof -
  let ?t = "retarget_target S (hdr_time (blk_header (bs ! (length bs - 1 - w))))
    (hdr_time (blk_header (bs ! (length bs - 1)))) (of_nat w) f old lim"
  have t: "?t \<noteq> 0" "?t \<le> lim"
    using retarget_target_pos [of lim] compact_to_biguint_bounds(1) [OF assms(2)] retarget_target_le
    by blast+
  moreover have "lim < 2 ^ 255" by (rule compact_to_biguint_bounds [OF assms(2)])
  ultimately have "compact_to_biguint (biguint_to_compact ?t) = Inr (norm ?t)"
    by (intro compact_to_biguint_compact) linarith+
  moreover have "norm ?t \<le> lim" using norm_le [of ?t] t(2) by linarith
  ultimately have "bits_within S (biguint_to_compact ?t)"
    using assms unfolding bits_within_def by blast
  then show ?thesis using assms by (simp add: retarget_bits_def Let_def)
qed


lemma example_limit: "compact_to_biguint 0x1d07ffff = Inr (0x07ffff * 256 ^ 26)"
  by (simp add: compact_to_biguint_value c_sign_iff c_mant_def c_exp_def c_value_def)

lemma example_bits_within: "bits_within (example_settings name) 0x1d07ffff"
  by (simp add: bits_within_def example_pow_bits example_limit)

lemma ex_genesis_bits: "genesis_bits (example_settings name) = Inr 0x1d07ffff"
  using example_pow_bits [of name] by (simp add: genesis_bits_def pow_bits_def ex_consensus_def)

definition chain_of_bits :: "u32 list \<Rightarrow> block list" where
  "chain_of_bits bits =
     map (\<lambda>b. (example_block [])\<lparr>blk_header := (blk_header (example_block []))\<lparr>hdr_bits := b\<rparr>\<rparr>) bits"


lemma chain_work_increases_witness:
  "\<exists>v. chain_work_for_blocks (chain_of_bits [0x1d07ffff]) = Inr v \<and>
    v < 2 ^ 256 div (0x07ffff * 256 ^ 26 + 1)"
proof -
  have c: "chain_of_bits [0x1d07ffff] @ chain_of_bits [0x1d07ffff] = chain_of_bits [0x1d07ffff, 0x1d07ffff]"
    by (simp add: chain_of_bits_def)
  have w: "chain_work_for_blocks (chain_of_bits [0x1d07ffff, 0x1d07ffff]) =
      Inr (2 ^ 256 div (0x07ffff * 256 ^ 26 + 1))"
    using example_limit by (simp add: chain_of_bits_def chain_work_for_blocks_def block_work_def)
  show ?thesis
    by (rule chain_work_increases [of _ "hd (chain_of_bits [0x1d07ffff])"])
      (use w in \<open>simp_all add: chain_of_bits_def\<close>)
qed

section \<open>How far one adjustment moves the target\<close>

text \<open>The clamped time span, in seconds, as a natural number.\<close>

definition clamped_span :: "nat \<Rightarrow> nat \<Rightarrow> nat \<Rightarrow> nat" where
  "clamped_span target_span f elapsed =
     min (max elapsed (max (target_span div f) 1)) (max (min (target_span * f) (2 ^ 64 - 1)) 1)"

lemma unat_max_word: "unat (max a b) = max (unat a) (unat b)"
  by (simp add: max_def word_le_nat_alt)

lemma unat_min_word: "unat (min a b) = min (unat a) (unat b)"
  by (simp add: min_def word_le_nat_alt)

lemma unat_ucast_64: "unat (ucast (a :: u32) :: u64) = unat a"
  using unat_bound [of a] by (simp add: unsigned_ucast_eq take_bit_nat_eq_self)

lemma retarget_target_nat:
  fixes S f
  assumes "window < 2 ^ 32" and "2 \<le> f"
  defines "tt \<equiv> unat (cons_target_spacing_secs (consensus S)) * window"
  shows "retarget_target S first_time last_time (of_nat window) f old lim =
    min lim (max 1 (old * clamped_span tt (unat f) (unat last_time - unat first_time) div max tt 1))"
proof -
  let ?w = "ucast (cons_target_spacing_secs (consensus S)) * of_nat window :: u64"
  have s: "unat (cons_target_spacing_secs (consensus S)) < 2 ^ 32" using unat_bound [of "cons_target_spacing_secs (consensus S)"] by simp
  have w: "unat (of_nat window :: u64) = window" using assms(1) by (intro unat_of_nat_less) simp
  have "unat (ucast (cons_target_spacing_secs (consensus S)) :: u64) * window < 2 ^ 64"
    using mult_strict_mono [OF s assms(1)] by (simp add: unat_ucast_64)
  then have tt: "unat ?w = tt" by (simp add: unat_word_ariths w tt_def unat_ucast_64)
  have f: "max f 2 = f" using assms(2) by (simp add: max_def)
  have a: "unat (min (max (ucast (sat_sub last_time first_time)) (max (?w div f) 1))
      (max (sat_mul ?w f) 1) :: u64) = clamped_span tt (unat f) (unat last_time - unat first_time)"
    unfolding clamped_span_def unat_min_word unat_max_word unat_sat_mul unat_ucast_64 unat_sat_sub unat_div_mod tt
    by simp
  have m: "unat (max ?w 1) = max tt 1" unfolding unat_max_word tt by simp
  have k: "(if (if x = 0 then 1 else x) > lim then lim else if x = 0 then 1 else x) = min lim (max 1 x)"
    for x :: nat by auto
  show ?thesis unfolding retarget_target_def Let_def f a m k ..
qed

lemma clamped_span_bounds:
  assumes "2 \<le> f" and "tt < 2 ^ 64"
  shows "clamped_span tt f e \<le> f * max tt 1"
    and "max tt 1 \<le> 2 * f * clamped_span tt f e"
    and "e \<le> tt \<Longrightarrow> clamped_span tt f e \<le> max tt 1"
    and "tt \<le> e \<Longrightarrow> max tt 1 \<le> clamped_span tt f e \<or> tt = 0"
proof -
  have d: "tt div f \<le> tt" by (rule div_le_dividend)
  have tf: "tt \<le> tt * f" using assms(1) by simp
  have "clamped_span tt f e \<le> max (tt * f) 1" by (auto simp: clamped_span_def)
  also have "\<dots> \<le> f * max tt 1" using assms(1) by (cases "tt = 0") (simp_all add: mult.commute)
  finally show "clamped_span tt f e \<le> f * max tt 1" .
  show "clamped_span tt f e \<le> max tt 1" if "e \<le> tt"
  proof -
    have "clamped_span tt f e \<le> max e (max (tt div f) 1)"
      unfolding clamped_span_def by (rule min.cobounded1)
    also have "\<dots> \<le> max tt 1" using that d by (cases "tt = 0") (simp_all add: le_max_iff_disj)
    finally show ?thesis .
  qed
  show "tt \<le> e \<Longrightarrow> max tt 1 \<le> clamped_span tt f e \<or> tt = 0"
    using tf assms(2) by (auto simp: clamped_span_def)
  have "tt < f * (tt div f + 1)"
    using dividend_less_times_div [of f tt] assms(1) by (simp add: algebra_simps)
  also have "\<dots> \<le> f * (2 * max (tt div f) 1)" by (intro mult_le_mono2) (simp add: max_def)
  finally have "max tt 1 \<le> 2 * f * max (tt div f) 1" using assms(1) by simp
  have "tt \<le> min (tt * f) (2 ^ 64 - 1)" using tf assms(2) by simp
  then have "max (tt div f) 1 \<le> max (min (tt * f) (2 ^ 64 - 1)) 1"
    using d by (intro max.mono) linarith+
  then have "max (tt div f) 1 \<le> clamped_span tt f e" unfolding clamped_span_def by simp
  with \<open>max tt 1 \<le> 2 * f * max (tt div f) 1\<close> show "max tt 1 \<le> 2 * f * clamped_span tt f e"
    by (meson le_trans mult_le_mono2)
qed

lemma min_lim_facts:
  fixes q old lim d u :: nat
  assumes "q \<le> u" and "d \<le> q" and "P \<Longrightarrow> q \<le> old" and "Q \<Longrightarrow> z \<or> old \<le> q"
    and "1 \<le> u" and "0 < old" and "0 < lim"
  shows "0 < min lim (max 1 q) \<and> min lim (max 1 q) \<le> lim \<and> min lim (max 1 q) \<le> u \<and>
    min lim d \<le> min lim (max 1 q) \<and> (P \<longrightarrow> min lim (max 1 q) \<le> old) \<and>
    (Q \<longrightarrow> min lim old \<le> min lim (max 1 q) \<or> z)"
  using assms by (auto simp: min_def max_def)

text \<open>
  One adjustment moves the target by a bounded factor and in the right direction. With \<open>tt\<close>
  the intended and \<open>e\<close> the elapsed seconds of the window, the new target is at most \<open>f\<close> times the
  old one and, unless the proof-of-work limit cuts it, at least the old one divided by \<open>2 * f\<close>;
  blocks faster than intended never raise the target, slower ones never lower it below the limit.
\<close>

theorem retarget_target_bounds:
  fixes S f first_time last_time
  assumes "window < 2 ^ 32" and "2 \<le> f" and "0 < old" and "0 < lim"
  defines "tt \<equiv> unat (cons_target_spacing_secs (consensus S)) * window"
    and "e \<equiv> unat last_time - unat first_time"
    and "t \<equiv> retarget_target S first_time last_time (of_nat window) f old lim"
  shows "0 < t \<and> t \<le> lim \<and> t \<le> unat f * old \<and> min lim (old div (2 * unat f)) \<le> t \<and>
    (e \<le> tt \<longrightarrow> t \<le> old) \<and> (tt \<le> e \<longrightarrow> min lim old \<le> t \<or> tt = 0)"
proof -
  let ?c = "clamped_span tt (unat f) e" and ?m = "max tt 1"
  have f: "2 \<le> unat f" using assms(2) by (simp add: word_le_nat_alt)
  have s: "unat (cons_target_spacing_secs (consensus S)) < 2 ^ 32"
    using unat_bound [of "cons_target_spacing_secs (consensus S)"] by simp
  have "tt < 2 ^ 64" using mult_strict_mono [OF s assms(1)] by (simp add: tt_def)
  note b = clamped_span_bounds [OF f this, of e]
  have t: "t = min lim (max 1 (old * ?c div ?m))"
    unfolding t_def tt_def e_def by (rule retarget_target_nat [OF assms(1,2)])
  have m: "0 < ?m" by simp
  have up: "old * ?c div ?m \<le> k * old" if "?c \<le> k * ?m" for k
  proof -
    have "old * ?c div ?m \<le> old * (k * ?m) div ?m" using that by (intro div_le_mono mult_le_mono2)
    then show ?thesis using m by (simp add: mult.commute mult.left_commute)
  qed
  have down: "old div k \<le> old * ?c div ?m" if "?m \<le> k * ?c" for k
  proof -
    have "old div k * ?m \<le> old div k * (k * ?c)" using that by (rule mult_le_mono2)
    also have "\<dots> = (old div k * k) * ?c" by (simp only: mult.assoc)
    also have "\<dots> \<le> old * ?c" by (intro mult_le_mono1) simp
    finally show ?thesis using m by (simp only: less_eq_div_iff_mult_less_eq)
  qed
  have 1: "old * ?c div ?m \<le> unat f * old" using b(1) by (rule up)
  have 2: "old div (2 * unat f) \<le> old * ?c div ?m" using b(2) by (rule down)
  have 3: "old * ?c div ?m \<le> old" if "e \<le> tt" using up [of 1] b(3) [OF that] by simp
  have 4: "tt = 0 \<or> old \<le> old * ?c div ?m" if "tt \<le> e" using down [of 1] b(4) [OF that] by auto
  have 5: "1 \<le> unat f * old" using f assms(3) by simp
  show ?thesis
    using min_lim_facts [where P = "e \<le> tt" and Q = "tt \<le> e" and z = "tt = 0", OF 1 2 3 4 5 assms(3,4)]
    unfolding t by blast
qed

lemma retarget_target_bounds_witness:
  "retarget_target (example_settings ''mainnet'') 1000 1600 (of_nat 20) 4 (2 ^ 200) (2 ^ 220) \<le> 2 ^ 200"
proof -
  have s: "unat (cons_target_spacing_secs (consensus (example_settings ''mainnet''))) = 60"
    by (simp add: ex_consensus_def)
  show ?thesis
    using retarget_target_bounds [of 20 4 "2 ^ 200" "2 ^ 220" "example_settings ''mainnet''" 1000 1600] s
    by (simp del: of_nat_numeral)
qed

end
