(* ===== verification/Bridge.thy ===== *)
theory Bridge
  imports Addresses
begin

text \<open>
  The USDJ bridge markers of \<open>src/lib.rs\<close>: the toll, the two scripts a wallet or relay builds
  (a claim of units locked on Ethereum, an exit towards Ethereum), and their parser. The chain
  does no bridge accounting; the markers are records. The lemmas show that what is built is read
  back, and that claim and toll add up.
\<close>

definition USDJ_BRIDGE_TOLL_BPS :: u16 where [simp]: "USDJ_BRIDGE_TOLL_BPS = 100"
definition USDJ_BRIDGE_SCRIPT_PREFIX :: bytes where "USDJ_BRIDGE_SCRIPT_PREFIX = ''BRDG1|''"

text \<open>
  The fields in the order of the source: transaction, log index, recipient, gross, toll and net
  units; sender, Ethereum recipient, released, toll and debited units.
\<close>

datatype usdj_bridge_marker =
  EthToQubClaim string u32 address u128 u128 u128
| QubToEthExit address string u128 u128 u128

definition usdj_bridge_toll_units :: "u128 \<Rightarrow> u128" where
  "usdj_bridge_toll_units amount_units = sat_mul amount_units (ucast USDJ_BRIDGE_TOLL_BPS) div 10000"

definition bridge_clean_ascii :: "string \<Rightarrow> nat \<Rightarrow> string result" where
  "bridge_clean_ascii input max_bytes =
     (let s = trim input in
      if s = [] then Inl (BridgeErr BridgeEmpty)
      else if length s > max_bytes then Inl (BridgeErr BridgeTooLong)
      else if \<not> list_all (\<lambda>c. is_ascii c \<and> is_ascii_graphic c) s then Inl (BridgeErr BridgeNotAscii)
      else if CHR ''|'' \<in> set s then Inl (BridgeErr BridgePipe)
      else Inr s)"

definition usdj_bridge_eth_to_qub_claim_marker_script ::
  "extern \<Rightarrow> string \<Rightarrow> u32 \<Rightarrow> address \<Rightarrow> u128 \<Rightarrow> script result" where
  "usdj_bridge_eth_to_qub_claim_marker_script X eth_tx eth_log_index recipient gross_units =
     rbind (bridge_clean_ascii eth_tx 96) (\<lambda>eth_tx.
     if gross_units = 0 then Inl (BridgeErr BridgeGrossZero) else
     let toll_units = usdj_bridge_toll_units gross_units;
         net_units = sat_sub gross_units toll_units
     in Inr (pipes [''BRDG1'', ''eth_to_qub'', eth_tx, show_word eth_log_index, address_to_string X recipient,
          show_word gross_units, show_word toll_units, show_word net_units]))"

definition usdj_bridge_qub_to_eth_exit_marker_script ::
  "extern \<Rightarrow> address \<Rightarrow> string \<Rightarrow> u128 \<Rightarrow> script result" where
  "usdj_bridge_qub_to_eth_exit_marker_script X sender eth_recipient release_units =
     rbind (bridge_clean_ascii eth_recipient 64) (\<lambda>eth_recipient.
     if \<not> starts_with eth_recipient ''0x'' \<or> length eth_recipient \<noteq> 42 then Inl (BridgeErr BridgeRecipient)
     else if release_units = 0 then Inl (BridgeErr BridgeReleaseZero) else
     let toll_units = usdj_bridge_toll_units release_units;
         debit_units = sat_add release_units toll_units
     in Inr (pipes [''BRDG1'', ''qub_to_eth'', address_to_string X sender, eth_recipient,
          show_word release_units, show_word toll_units, show_word debit_units]))"

text \<open>The parser takes the fields it needs and ignores any that follow.\<close>

definition parse_usdj_bridge_marker_script :: "extern \<Rightarrow> script \<Rightarrow> usdj_bridge_marker option" where
  "parse_usdj_bridge_marker_script X b =
     (if \<not> starts_with b USDJ_BRIDGE_SCRIPT_PREFIX then None else
      Option.bind (from_utf8 b) (\<lambda>raw.
      case split_on (CHR ''|'') raw of
        f0 # f1 # fs \<Rightarrow>
          if f0 \<noteq> ''BRDG1'' then None
          else if f1 = ''eth_to_qub'' then
            (case fs of
               f2 # f3 # f4 # f5 # f6 # f7 # _ \<Rightarrow>
                 Option.bind (parse_uint f3) (\<lambda>eth_log_index.
                 Option.bind (to_option (address_from_str X f4)) (\<lambda>recipient.
                 Option.bind (parse_uint f5) (\<lambda>gross_units.
                 Option.bind (parse_uint f6) (\<lambda>toll_units.
                 Option.bind (parse_uint f7) (\<lambda>net_units.
                 Some (EthToQubClaim f2 eth_log_index recipient gross_units toll_units net_units))))))
             | _ \<Rightarrow> None)
          else if f1 = ''qub_to_eth'' then
            (case fs of
               f2 # f3 # f4 # f5 # f6 # _ \<Rightarrow>
                 Option.bind (to_option (address_from_str X f2)) (\<lambda>sender.
                 Option.bind (parse_uint f4) (\<lambda>release_units.
                 Option.bind (parse_uint f5) (\<lambda>toll_units.
                 Option.bind (parse_uint f6) (\<lambda>debit_units.
                 Some (QubToEthExit sender f3 release_units toll_units debit_units)))))
             | _ \<Rightarrow> None)
          else None
      | _ \<Rightarrow> None))"

section \<open>The toll\<close>

lemma unat_bridge_toll: "unat (usdj_bridge_toll_units a) = min (unat a * 100) (2 ^ 128 - 1) div 10000"
  by (simp add: usdj_bridge_toll_units_def unat_div_mod unat_sat_mul)

lemma bridge_toll_le: "100 * unat (usdj_bridge_toll_units a) \<le> unat a"
proof -
  have "min (unat a * 100) (2 ^ 128 - 1) div 10000 \<le> unat a * 100 div 10000" by (intro div_le_mono) simp
  then show ?thesis unfolding unat_bridge_toll by linarith
qed

section \<open>Reading markers back\<close>

lemma bridge_clean_ascii_Inr:
  "bridge_clean_ascii s n = Inr t \<Longrightarrow> t = trim s \<and> plain_field t \<and> t \<noteq> []"
  by (auto simp: bridge_clean_ascii_def Let_def plain_field_def list_all_iff split: if_splits)

lemma plain_bridge_words:
  "plain_field ''BRDG1''" "plain_field ''eth_to_qub''" "plain_field ''qub_to_eth''"
  by (simp_all add: plain_field_def is_ascii_graphic_def)

lemma bridge_claim_read_back:
  assumes "extern_ok X" and "wf_address a"
    and "usdj_bridge_eth_to_qub_claim_marker_script X t i a gross = Inr s"
  shows "parse_usdj_bridge_marker_script X s = Some (EthToQubClaim (trim t) i a gross
      (usdj_bridge_toll_units gross) (sat_sub gross (usdj_bridge_toll_units gross)))"
proof -
  let ?fs = "[''BRDG1'', ''eth_to_qub'', trim t, show_word i, address_to_string X a, show_word gross,
    show_word (usdj_bridge_toll_units gross), show_word (sat_sub gross (usdj_bridge_toll_units gross))]"
  have c: "bridge_clean_ascii t 96 = Inr (trim t)" and s: "s = pipes ?fs"
    using assms(3) by (auto simp: usdj_bridge_eth_to_qub_claim_marker_script_def result_simps Let_def
        dest: bridge_clean_ascii_Inr split: if_splits)
  have "list_all plain_field ?fs"
    using plain_bridge_words plain_address [OF assms(1,2)] bridge_clean_ascii_Inr [OF c] by simp
  then have r: "from_utf8 s = Some s" "split_on (CHR ''|'') s = ?fs"
    using pipes_read_back [of ?fs] by (simp_all add: s)
  have "starts_with s USDJ_BRIDGE_SCRIPT_PREFIX"
    by (simp add: s starts_with_def USDJ_BRIDGE_SCRIPT_PREFIX_def pipes_def)
  then show ?thesis by (simp add: parse_usdj_bridge_marker_script_def r address_text_roundtrip [OF assms(1,2)])
qed

lemma bridge_exit_read_back:
  assumes "extern_ok X" and "wf_address a"
    and "usdj_bridge_qub_to_eth_exit_marker_script X a r release = Inr s"
  shows "parse_usdj_bridge_marker_script X s = Some (QubToEthExit a (trim r) release
      (usdj_bridge_toll_units release) (sat_add release (usdj_bridge_toll_units release)))"
proof -
  let ?fs = "[''BRDG1'', ''qub_to_eth'', address_to_string X a, trim r, show_word release,
    show_word (usdj_bridge_toll_units release), show_word (sat_add release (usdj_bridge_toll_units release))]"
  have c: "bridge_clean_ascii r 64 = Inr (trim r)" and s: "s = pipes ?fs"
    using assms(3) by (auto simp: usdj_bridge_qub_to_eth_exit_marker_script_def result_simps Let_def
        dest: bridge_clean_ascii_Inr split: if_splits)
  have "list_all plain_field ?fs"
    using plain_bridge_words plain_address [OF assms(1,2)] bridge_clean_ascii_Inr [OF c] by simp
  then have r: "from_utf8 s = Some s" "split_on (CHR ''|'') s = ?fs"
    using pipes_read_back [of ?fs] by (simp_all add: s)
  have "starts_with s USDJ_BRIDGE_SCRIPT_PREFIX"
    by (simp add: s starts_with_def USDJ_BRIDGE_SCRIPT_PREFIX_def pipes_def)
  then show ?thesis by (simp add: parse_usdj_bridge_marker_script_def r address_text_roundtrip [OF assms(1,2)])
qed

text \<open>
  A claim is read back with a toll of at most one percent that adds up with the net amount to the
  gross amount.
\<close>

lemma bridge_claim_adds_up:
  assumes "extern_ok X" and "wf_address a"
    and "usdj_bridge_eth_to_qub_claim_marker_script X t i a gross = Inr s"
  shows "\<exists>toll net. parse_usdj_bridge_marker_script X s = Some (EthToQubClaim (trim t) i a gross toll net) \<and>
    unat toll + unat net = unat gross \<and> 100 * unat toll \<le> unat gross"
  using bridge_claim_read_back [OF assms] bridge_toll_le [of gross]
  by (auto simp: unat_sat_sub)

end
