(* ===== verification/Coins.thy ===== *)
theory Coins
  imports Difficulty
begin

text \<open>
  Coins and the UTXO set of \<open>src/lib.rs\<close>: \<open>CoinRecord\<close>, the block subsidy, the stateless
  transaction checks and \<open>connect_tx_utxos\<close>, \<open>connect_block_utxos\<close>. The UTXO \<open>HashMap\<close> is a
  finite map. The lemmas give the total value of the set after a transaction is connected, and
  show that connecting commutes with coins kept beside the ones a transaction touches.
\<close>

section \<open>Model\<close>

record coin_record =
  coin_out :: tx_out
  coin_height :: u32
  coin_is_coinbase :: bool

type_synonym utxo_map = "(outpoint, coin_record) fmap"

definition block_subsidy :: "u64 \<Rightarrow> settings \<Rightarrow> u64" where
  "block_subsidy height S =
     (if height = 0 then 0 else
      let halvings = (height - 1) div cons_subsidy_halving_interval (consensus S) in
      if halvings \<ge> 64 then 0
      else drop_bit (unat halvings) (cons_initial_subsidy_atoms (consensus S)))"

text \<open>The running output total of \<open>validate_tx_stateless\<close>, an \<open>u128\<close> that cannot overflow.\<close>

definition add_output_value :: "settings \<Rightarrow> tx_out \<Rightarrow> nat \<Rightarrow> nat result" where
  "add_output_value S out acc =
     (let v = out_value out in
      if v = 0 \<or> v > cons_max_money_atoms (consensus S) \<or> v > MAX_MONEY_ATOMS
      then Inl (TxErr AmountOutOfRange)
      else if acc + unat v > unat (cons_max_money_atoms (consensus S))
      then Inl (TxErr OutputTotalExceedsMaxMoney)
      else Inr (acc + unat v))"

definition validate_tx_stateless :: "transaction \<Rightarrow> settings \<Rightarrow> unit result" where
  "validate_tx_stateless tx S =
     (if is_pool_share_transaction tx then Inr ()
      else if tx_inputs tx = [] \<or> tx_outputs tx = [] then
        (if is_coinbase tx then Inr () else Inl (TxErr TxNeedsInputsAndOutputs))
      else if \<not> is_coinbase tx \<and> length (tx_outputs tx) > MAX_SEND_ENTRIES_PER_TX + 4
      then Inl (TxErr TooManyOutputs)
      else if \<not> all_fresh (map previous_output (tx_inputs tx)) {} then Inl (TxErr DuplicateInput)
      else rbind (fold_r (add_output_value S) (tx_outputs tx) 0) (\<lambda>_. Inr ()))"

definition spend_input :: "tx_in \<Rightarrow> utxo_map \<Rightarrow> utxo_map result" where
  "spend_input input utxos =
     (case fmlookup utxos (previous_output input) of
        None \<Rightarrow> Inl (TxErr MissingUtxoDuringConnect)
      | Some _ \<Rightarrow> Inr (fmdrop (previous_output input) utxos))"

definition create_output ::
  "hash256 \<Rightarrow> u32 \<Rightarrow> bool \<Rightarrow> nat \<times> tx_out \<Rightarrow> utxo_map \<Rightarrow> utxo_map result" where
  "create_output tid height cb vo utxos =
     (case vo of (vout, out) \<Rightarrow>
        if fmlookup utxos (OutPoint tid (of_nat vout)) \<noteq> None
        then Inl (TxErr DuplicateCreatedOutpoint)
        else Inr (fmupd (OutPoint tid (of_nat vout))
               \<lparr>coin_out = out, coin_height = height, coin_is_coinbase = cb\<rparr> utxos))"

definition connect_tx_utxos ::
  "extern \<Rightarrow> transaction \<Rightarrow> u32 \<Rightarrow> bool \<Rightarrow> utxo_map \<Rightarrow> utxo_map result" where
  "connect_tx_utxos X tx height cb utxos =
     (if is_pool_share_transaction tx then Inr utxos else
      rbind (if \<not> cb then fold_r spend_input (tx_inputs tx) utxos else Inr utxos) (\<lambda>utxos.
      fold_r (create_output (txid X tx) height cb) (enumerate 0 (tx_outputs tx)) utxos))"

definition connect_block_utxos :: "extern \<Rightarrow> block \<Rightarrow> u32 \<Rightarrow> utxo_map \<Rightarrow> utxo_map result" where
  "connect_block_utxos X b height utxos =
     fold_r (\<lambda>(idx, tx). connect_tx_utxos X tx height (idx = 0)) (enumerate 0 (blk_transactions b)) utxos"

definition is_immature_coinbase :: "coin_record \<Rightarrow> u32 \<Rightarrow> settings \<Rightarrow> bool" where
  "is_immature_coinbase coin current_height S \<longleftrightarrow>
     coin_is_coinbase coin \<and>
     sat_sub current_height (coin_height coin) < cons_coinbase_maturity (consensus S)"

section \<open>Totals\<close>

definition coin_value :: "coin_record \<Rightarrow> nat" where
  "coin_value c = unat (out_value (coin_out c))"

definition utxo_total :: "utxo_map \<Rightarrow> nat" where
  "utxo_total u = fm_total coin_value u"

definition outputs_total :: "transaction \<Rightarrow> nat" where
  "outputs_total tx = sum_list (map (\<lambda>out. unat (out_value out)) (tx_outputs tx))"

text \<open>The value of the coins a list of inputs refers to.\<close>

definition inputs_total :: "utxo_map \<Rightarrow> tx_in list \<Rightarrow> nat" where
  "inputs_total u ins =
     sum_list (map (\<lambda>i. case fmlookup u (previous_output i) of None \<Rightarrow> 0 | Some c \<Rightarrow> coin_value c) ins)"

lemma spend_input_Inr [result_simps]:
  "spend_input i u = Inr v \<longleftrightarrow>
    (\<exists>c. fmlookup u (previous_output i) = Some c) \<and> v = fmdrop (previous_output i) u"
  by (auto simp: spend_input_def split: option.splits)

lemma create_output_Inr [result_simps]:
  "create_output tid h cb (n, out) u = Inr v \<longleftrightarrow>
    fmlookup u (OutPoint tid (of_nat n)) = None \<and>
    v = fmupd (OutPoint tid (of_nat n))
      \<lparr>coin_out = out, coin_height = h, coin_is_coinbase = cb\<rparr> u"
  by (auto simp: create_output_def)

lemma spend_inputs_total:
  "fold_r spend_input ins u = Inr v \<Longrightarrow>
    utxo_total u = utxo_total v + inputs_total u ins \<and> distinct (map previous_output ins) \<and>
    (\<forall>i \<in> set ins. fmlookup u (previous_output i) \<noteq> None) \<and>
    v = fmdrop_set (previous_output ` set ins) u"
proof (induction ins arbitrary: u)
  case (Cons i ins)
  then obtain c where c: "fmlookup u (previous_output i) = Some c"
    and f: "fold_r spend_input ins (fmdrop (previous_output i) u) = Inr v"
    by (auto simp: result_simps)
  note IH = Cons.IH [OF f]
  have same: "fmlookup (fmdrop (previous_output i) u) (previous_output j) = fmlookup u (previous_output j)"
    if "j \<in> set ins" for j
    using IH that by (cases "previous_output j = previous_output i") auto
  then have "inputs_total (fmdrop (previous_output i) u) ins = inputs_total u ins"
    unfolding inputs_total_def by (intro arg_cong [where f = sum_list] map_cong) simp_all
  moreover have "utxo_total u = coin_value c + utxo_total (fmdrop (previous_output i) u)"
    unfolding utxo_total_def by (rule fm_total_drop [OF c])
  moreover have "previous_output i \<notin> previous_output ` set ins" using IH by force
  moreover have "v = fmdrop_set (previous_output ` set (i # ins)) u"
    using IH by (intro fmap_ext) auto
  ultimately show ?case using IH c same by (auto simp: inputs_total_def)
qed (simp_all add: inputs_total_def fmap_ext)

lemma create_outputs_total:
  "fold_r (create_output tid h cb) (enumerate n outs) u = Inr v \<Longrightarrow>
    utxo_total v = utxo_total u + sum_list (map (\<lambda>out. unat (out_value out)) outs)"
proof (induction outs arbitrary: n u)
  case (Cons out outs)
  let ?k = "OutPoint tid (of_nat n)"
  let ?c = "\<lparr>coin_out = out, coin_height = h, coin_is_coinbase = cb\<rparr>"
  from Cons.prems have n: "fmlookup u ?k = None"
    and f: "fold_r (create_output tid h cb) (enumerate (Suc n) outs) (fmupd ?k ?c u) = Inr v"
    by (auto simp: result_simps)
  show ?case using Cons.IH [OF f]
    by (simp add: utxo_total_def fm_total_upd_new [OF n] coin_value_def)
qed simp

lemma connect_tx_total:
  assumes "connect_tx_utxos X tx h False u = Inr v" and "\<not> is_pool_share_transaction tx"
  shows "utxo_total v + inputs_total u (tx_inputs tx) = utxo_total u + outputs_total tx"
proof -
  from assms obtain w where w: "fold_r spend_input (tx_inputs tx) u = Inr w"
    and v: "fold_r (create_output (txid X tx) h False) (enumerate 0 (tx_outputs tx)) w = Inr v"
    by (auto simp: connect_tx_utxos_def result_simps)
  show ?thesis using spend_inputs_total [OF w] create_outputs_total [OF v] by (simp add: outputs_total_def)
qed

lemma connect_coinbase_total:
  assumes "connect_tx_utxos X tx h True u = Inr v" and "\<not> is_pool_share_transaction tx"
  shows "utxo_total v = utxo_total u + outputs_total tx"
  using assms create_outputs_total by (fastforce simp: connect_tx_utxos_def outputs_total_def)

lemma connect_pool_share: "is_pool_share_transaction tx \<Longrightarrow> connect_tx_utxos X tx h cb u = Inr u"
  by (simp add: connect_tx_utxos_def)

section \<open>Coins kept aside\<close>

text \<open>
  A transaction that connects to a UTXO set, and to the set enlarged by other coins, leaves those
  other coins in place.
\<close>

lemma fmupd_add: "fmlookup c k = None \<Longrightarrow> fmupd k v (m ++\<^sub>f c) = fmupd k v m ++\<^sub>f c"
  by (rule fmap_ext) (auto simp: fmdom_notI)

lemma create_outputs_aside:
  assumes "fold_r (create_output tid h cb) vos m = Inr m'"
    and "fold_r (create_output tid h cb) vos (m ++\<^sub>f c) = Inr w" and "fmdom m |\<inter>| fmdom c = {||}"
  shows "w = m' ++\<^sub>f c \<and> fmdom m' |\<inter>| fmdom c = {||}"
  using assms
proof (induction vos arbitrary: m)
  case (Cons vo vos)
  obtain n out where vo: "vo = (n, out)" by force
  let ?k = "OutPoint tid (of_nat n)"
  let ?c = "\<lparr>coin_out = out, coin_height = h, coin_is_coinbase = cb\<rparr>"
  from Cons.prems vo have k: "fmlookup (m ++\<^sub>f c) ?k = None"
    and 1: "fold_r (create_output tid h cb) vos (fmupd ?k ?c m) = Inr m'"
    and 2: "fold_r (create_output tid h cb) vos (fmupd ?k ?c (m ++\<^sub>f c)) = Inr w"
    by (auto simp: result_simps)
  from k have c: "fmlookup c ?k = None" by (simp add: fmlookup_add split: if_splits) (simp add: fmdom_notD)
  with 2 have "fold_r (create_output tid h cb) vos (fmupd ?k ?c m ++\<^sub>f c) = Inr w"
    by (simp only: fmupd_add)
  moreover have "fmdom (fmupd ?k ?c m) |\<inter>| fmdom c = {||}" using Cons.prems(3) c by (auto simp: fmdom_notI)
  ultimately show ?case using Cons.IH [OF 1] by blast
qed simp

lemma connect_tx_aside:
  assumes "connect_tx_utxos X tx h False m = Inr m'"
    and "connect_tx_utxos X tx h False (m ++\<^sub>f c) = Inr w"
    and "fmdom m |\<inter>| fmdom c = {||}"
  shows "w = m' ++\<^sub>f c \<and> fmdom m' |\<inter>| fmdom c = {||}"
proof (cases "is_pool_share_transaction tx")
  case False
  let ?ins = "previous_output ` set (tx_inputs tx)"
  from assms(1) False obtain m1 where m1: "fold_r spend_input (tx_inputs tx) m = Inr m1"
    and out1: "fold_r (create_output (txid X tx) h False) (enumerate 0 (tx_outputs tx)) m1 = Inr m'"
    by (auto simp: connect_tx_utxos_def result_simps)
  from assms(2) False obtain m2 where m2: "fold_r spend_input (tx_inputs tx) (m ++\<^sub>f c) = Inr m2"
    and out2: "fold_r (create_output (txid X tx) h False) (enumerate 0 (tx_outputs tx)) m2 = Inr w"
    by (auto simp: connect_tx_utxos_def result_simps)
  have "fmlookup m k \<noteq> None" if "k \<in> ?ins" for k
    using spend_inputs_total [OF m1] that by auto
  then have "fmlookup c k = None" if "k \<in> ?ins" for k
    using that assms(3) by (metis fmdom_notD fmdom_notI finterI fempty_iff)
  then have "fmdrop_set ?ins (m ++\<^sub>f c) = fmdrop_set ?ins m ++\<^sub>f c"
    by (intro fmap_ext) (auto simp: fmdom_notI)
  then have m2: "m2 = m1 ++\<^sub>f c"
    using spend_inputs_total [OF m1] spend_inputs_total [OF m2] by simp
  have "k |\<in>| fmdom m" if "k |\<in>| fmdom m1" for k
    using that spend_inputs_total [OF m1] by (auto simp: fmlookup_dom_iff split: if_splits)
  with assms(3) have "fmdom m1 |\<inter>| fmdom c = {||}" by blast
  with out2 show ?thesis unfolding m2 by (intro create_outputs_aside [OF out1])
qed (use assms in \<open>simp add: connect_pool_share\<close>)

end
