(* ===== verification/Blast.thy ===== *)
theory Blast
  imports Coins
begin

text \<open>
  Blast vaults of \<open>src/lib.rs\<close>: vault outputs that pay a fixed amount per claim to whoever
  reveals the code, their scripts and parsers, the creation checks and the claim checks. The
  lemmas show that a vault script parses back to its parts, and the value a claim may move.
\<close>

definition BLAST_SCRIPT_PREFIX :: bytes where "BLAST_SCRIPT_PREFIX = ''BLAST1|''"

record blast_vault =
  bv_asset :: string
  bv_manager_address :: string
  bv_code_hash :: string
  bv_per_claim_units :: u128
  bv_remaining_claims :: u32

definition blast_activation_height :: "settings \<Rightarrow> u32" where
  "blast_activation_height S =
     (if net_name (network S) = ''mainnet'' then MAINNET_BLAST_ACTIVATION_HEIGHT
      else if net_name (network S) = ''testnet'' then TESTNET_BLAST_ACTIVATION_HEIGHT else 1)"

definition blast_active :: "settings \<Rightarrow> u32 \<Rightarrow> bool" where
  "blast_active S height \<longleftrightarrow> height \<ge> blast_activation_height S"

definition blast_code_char :: "char \<Rightarrow> bool" where
  "blast_code_char c \<longleftrightarrow> is_ascii_alphanumeric c \<or> c = CHR ''-'' \<or> c = CHR ''_''"

definition blast_code_hash_hex :: "extern \<Rightarrow> string \<Rightarrow> string result" where
  "blast_code_hash_hex X code =
     (let code = trim code in
      if length code < 12 \<or> length code > 128 then Inl (BlastErr BlastCodeLength)
      else if \<not> list_all blast_code_char code then Inl (BlastErr BlastCodeChars)
      else Inr (hex_encode X (sha256 X code)))"

definition blast_vault_script ::
  "extern \<Rightarrow> string \<Rightarrow> address \<Rightarrow> string \<Rightarrow> u128 \<Rightarrow> u32 \<Rightarrow> script result" where
  "blast_vault_script X asset manager code_hash per_claim_units remaining_claims =
     (let asset = to_ascii_uppercase (trim asset) in
      if asset \<noteq> ''QUB'' \<and> asset \<noteq> ''JIN'' then Inl (BlastErr BlastAsset)
      else if length code_hash \<noteq> 64 \<or> \<not> list_all is_ascii_hexdigit code_hash
      then Inl (BlastErr BlastCodeHash)
      else if per_claim_units = 0 then Inl (BlastErr BlastPerClaimZero)
      else if remaining_claims = 0 \<or> unat remaining_claims > MAX_SEND_ENTRIES_PER_TX
      then Inl (BlastErr BlastRemainingClaimsRange)
      else Inr (pipes [''BLAST1'', ''vault'', asset, address_to_string X manager,
        to_ascii_lowercase code_hash, show_word per_claim_units, show_word remaining_claims]))"

definition parse_blast_vault_script :: "extern \<Rightarrow> script \<Rightarrow> settings \<Rightarrow> blast_vault option" where
  "parse_blast_vault_script X b S =
     (if \<not> starts_with b BLAST_SCRIPT_PREFIX then None else
      Option.bind (from_utf8 b) (\<lambda>s.
      case split_on (CHR ''|'') s of
        [f0, f1, f2, f3, f4, f5, f6] \<Rightarrow>
          let asset = to_ascii_uppercase (trim f2);
              manager_address = trim f3;
              code_hash = to_ascii_lowercase (trim f4) in
          if f0 \<noteq> ''BLAST1'' \<or> f1 \<noteq> ''vault'' \<or> (asset \<noteq> ''QUB'' \<and> asset \<noteq> ''JIN'') \<or>
             \<not> is_ok (parse_with_prefix X manager_address (net_address_prefix (network S))) \<or>
             length code_hash \<noteq> 64 \<or> \<not> list_all is_ascii_hexdigit code_hash
          then None
          else Option.bind (parse_uint f5) (\<lambda>per_claim_units.
               Option.bind (parse_uint f6) (\<lambda>remaining_claims.
               if per_claim_units = 0 \<or> remaining_claims = 0 then None
               else Some \<lparr>bv_asset = asset, bv_manager_address = manager_address,
                 bv_code_hash = code_hash, bv_per_claim_units = per_claim_units,
                 bv_remaining_claims = remaining_claims\<rparr>))
      | _ \<Rightarrow> None))"

definition blast_claim_script :: "extern \<Rightarrow> address \<Rightarrow> string \<Rightarrow> script result" where
  "blast_claim_script X claimant code =
     rbind (blast_code_hash_hex X code) (\<lambda>_.
     Inr (pipes [''BLAST1'', ''claim'', address_to_string X claimant, trim code]))"

definition parse_blast_claim_script ::
  "extern \<Rightarrow> script \<Rightarrow> settings \<Rightarrow> (address \<times> string) option" where
  "parse_blast_claim_script X b S =
     (if \<not> starts_with b BLAST_SCRIPT_PREFIX then None else
      Option.bind (from_utf8 b) (\<lambda>s.
      case split_on (CHR ''|'') s of
        [f0, f1, f2, f3] \<Rightarrow>
          if f0 \<noteq> ''BLAST1'' \<or> f1 \<noteq> ''claim'' then None
          else Option.bind (to_option (parse_with_prefix X (trim f2) (net_address_prefix (network S)))) (\<lambda>claimant.
               let code = trim f3 in
               if \<not> is_ok (blast_code_hash_hex X code) then None else Some (claimant, code))
      | _ \<Rightarrow> None))"

definition is_blast_claim_transaction :: "extern \<Rightarrow> transaction \<Rightarrow> settings \<Rightarrow> bool" where
  "is_blast_claim_transaction X tx S \<longleftrightarrow>
     length (tx_inputs tx) = 1 \<and>
     parse_blast_claim_script X (signature_script (tx_inputs tx ! 0)) S \<noteq> None"

definition blast_creates_in_tx :: "extern \<Rightarrow> transaction \<Rightarrow> settings \<Rightarrow> (nat \<times> blast_vault \<times> u64) list" where
  "blast_creates_in_tx X tx S =
     List.map_filter (\<lambda>(idx, out).
       map_option (\<lambda>b. (idx, b, out_value out)) (parse_blast_vault_script X (script_pubkey out) S))
       (enumerate 0 (tx_outputs tx))"

text \<open>\<open>u64::try_from\<close> of an \<open>u128\<close>.\<close>

definition u64_try_from :: "u128 \<Rightarrow> u64 option" where
  "u64_try_from v = (if unat v < 2 ^ 64 then Some (ucast v) else None)"

definition check_blast_create :: "nat \<times> blast_vault \<times> u64 \<Rightarrow> unit result" where
  "check_blast_create c =
     (case c of (_, vault, atoms) \<Rightarrow>
        if unat (bv_remaining_claims vault) > MAX_SEND_ENTRIES_PER_TX
        then Inl (BlastErr BlastEntriesExceed)
        else if bv_asset vault = ''QUB'' then
          rbind (ok_or (BlastErr BlastPerClaimTooLarge) (u64_try_from (bv_per_claim_units vault))) (\<lambda>per_claim.
          rbind (ok_or (BlastErr BlastTotalOverflow)
            (checked_mul per_claim (ucast (bv_remaining_claims vault)))) (\<lambda>expected.
          if atoms \<noteq> expected then Inl (BlastErr BlastVaultAmount) else Inr ()))
        else Inr ())"

definition validate_blast_create_outputs ::
  "extern \<Rightarrow> transaction \<Rightarrow> u32 \<Rightarrow> settings \<Rightarrow> unit result" where
  "validate_blast_create_outputs X tx spend_height S =
     (let creates = blast_creates_in_tx X tx S in
      if creates = [] then Inr ()
      else if \<not> blast_active S spend_height then Inl (BlastErr BlastInactive)
      else if length creates > 1 then Inl (BlastErr BlastManyVaults)
      else fold_r (\<lambda>c _. check_blast_create c) creates ())"

definition validate_blast_claim_contextual ::
  "extern \<Rightarrow> transaction \<Rightarrow> utxo_map \<Rightarrow> u32 \<Rightarrow> settings \<Rightarrow> u64 result" where
  "validate_blast_claim_contextual X tx utxos spend_height S =
     (if \<not> blast_active S spend_height then Inl (BlastErr BlastInactive)
      else if length (tx_inputs tx) \<noteq> 1 then Inl (BlastErr BlastOneInput)
      else if length (tx_outputs tx) > 2 \<or> tx_outputs tx = [] then Inl (BlastErr BlastOutputCount)
      else
        let input0 = tx_inputs tx ! 0; out0 = tx_outputs tx ! 0 in
        rbind (ok_or (BlastErr BlastClaimScript)
          (parse_blast_claim_script X (signature_script input0) S)) (\<lambda>(claimant, code).
        rbind (ok_or (BlastErr BlastMissingVault) (fmlookup utxos (previous_output input0))) (\<lambda>coin.
        rbind (ok_or (BlastErr BlastNotVault)
          (parse_blast_vault_script X (script_pubkey (coin_out coin)) S)) (\<lambda>vault.
        if bv_asset vault \<noteq> ''QUB'' then Inl (BlastErr BlastOnlyQub) else
        rbind (blast_code_hash_hex X code) (\<lambda>h.
        if h \<noteq> bv_code_hash vault then Inl (BlastErr BlastInvalidCode) else
        rbind (ok_or (BlastErr BlastClaimTooLarge) (u64_try_from (bv_per_claim_units vault))) (\<lambda>per_claim_atoms.
        if out_value (coin_out coin) < per_claim_atoms then Inl (BlastErr BlastInsufficientValue)
        else if out_value out0 \<noteq> per_claim_atoms then Inl (BlastErr BlastClaimantAmount)
        else if script_pubkey out0 \<noteq> address_script_pubkey claimant then Inl (BlastErr BlastClaimantAddress)
        else
          let expected_remaining_value = out_value (coin_out coin) - per_claim_atoms;
              expected_remaining_claims = sat_sub (bv_remaining_claims vault) 1 in
          if expected_remaining_value = 0 \<or> expected_remaining_claims = 0 then
            (if length (tx_outputs tx) \<noteq> 1 then Inl (BlastErr BlastFullyClaimedRecreates) else Inr 0)
          else if length (tx_outputs tx) \<noteq> 2 then Inl (BlastErr BlastMustRecreate)
          else if out_value (tx_outputs tx ! 1) \<noteq> expected_remaining_value
          then Inl (BlastErr BlastRemainingAmount)
          else
            rbind (parse_with_prefix X (bv_manager_address vault) (net_address_prefix (network S))) (\<lambda>manager.
            rbind (blast_vault_script X (bv_asset vault) manager (bv_code_hash vault)
              (bv_per_claim_units vault) expected_remaining_claims) (\<lambda>expected_script.
            if script_pubkey (tx_outputs tx ! 1) \<noteq> expected_script
            then Inl (BlastErr BlastRemainingScript) else Inr 0))))))))"

section \<open>Value of a claim\<close>

text \<open>
  A valid claim spends one coin, pays no fee, and its outputs are worth at most the coin: the
  rest of a vault whose claims are used up is destroyed.
\<close>

lemma blast_claim_value:
  assumes "validate_blast_claim_contextual X tx utxos h S = Inr fee"
  obtains c where "fmlookup utxos (previous_output (tx_inputs tx ! 0)) = Some c"
    and "length (tx_inputs tx) = 1" and "outputs_total tx \<le> coin_value c" and "fee = 0"
proof -
  obtain coin per_claim where 1: "length (tx_inputs tx) = 1" "fee = 0"
    and coin: "fmlookup utxos (previous_output (tx_inputs tx ! 0)) = Some coin"
    and le: "per_claim \<le> out_value (coin_out coin)" and o0: "out_value (tx_outputs tx ! 0) = per_claim"
    and out: "length (tx_outputs tx) = 1 \<or> length (tx_outputs tx) = 2 \<and>
      out_value (tx_outputs tx ! 1) = out_value (coin_out coin) - per_claim"
    using assms
    by (auto simp: validate_blast_claim_contextual_def Let_def result_simps not_less split: if_splits)
  have sub: "unat (out_value (coin_out coin) - per_claim) = unat (out_value (coin_out coin)) - unat per_claim"
    using le by (simp add: unat_sub)
  have "unat per_claim \<le> unat (out_value (coin_out coin))" using le by (simp add: word_le_nat_alt)
  with out o0 sub have "outputs_total tx \<le> coin_value coin"
    by (auto simp: outputs_total_def coin_value_def length_Suc_conv numeral_2_eq_2)
  with 1 coin show thesis using that by blast
qed

text \<open>
  What a valid claim does: it spends one vault of QUB with the code of the vault, pays the amount of one
  claim to the address the claim names, and puts what is left, if anything, back into the same vault
  with one claim less.
\<close>

definition vault_claimed :: "extern \<Rightarrow> transaction \<Rightarrow> utxo_map \<Rightarrow> settings \<Rightarrow> bool" where
  "vault_claimed X tx utxos S \<longleftrightarrow>
     (\<exists>coin vault claimant code paid rest.
        length (tx_inputs tx) = 1 \<and> fmlookup utxos (previous_output (tx_inputs tx ! 0)) = Some coin \<and>
        parse_blast_vault_script X (script_pubkey (coin_out coin)) S = Some vault \<and> bv_asset vault = ''QUB'' \<and>
        parse_blast_claim_script X (signature_script (tx_inputs tx ! 0)) S = Some (claimant, code) \<and>
        blast_code_hash_hex X code = Inr (bv_code_hash vault) \<and>
        unat paid = unat (bv_per_claim_units vault) \<and> paid \<le> out_value (coin_out coin) \<and>
        tx_outputs tx = \<lparr>out_value = paid, script_pubkey = address_script_pubkey claimant\<rparr> # rest \<and>
        (if paid = out_value (coin_out coin) \<or> unat (bv_remaining_claims vault) \<le> 1 then rest = []
         else \<exists>manager script.
           parse_with_prefix X (bv_manager_address vault) (net_address_prefix (network S)) = Inr manager \<and>
           blast_vault_script X ''QUB'' manager (bv_code_hash vault) (bv_per_claim_units vault)
             (bv_remaining_claims vault - 1) = Inr script \<and>
           rest = [\<lparr>out_value = out_value (coin_out coin) - paid, script_pubkey = script\<rparr>]))"

lemma u64_try_from_Some:
  assumes "u64_try_from v = Some w"
  shows "unat w = unat v"
proof -
  have "unat v < 2 ^ LENGTH(64)" "w = ucast v" using assms by (auto simp: u64_try_from_def split: if_splits)
  then show ?thesis by (simp add: unsigned_ucast_eq take_bit_nat_eq_self)
qed

lemma sat_sub_one:
  fixes n :: u32
  shows "sat_sub n 1 = 0 \<longleftrightarrow> unat n \<le> 1" and "\<not> unat n \<le> 1 \<Longrightarrow> sat_sub n 1 = n - 1"
proof -
  have le: "1 \<le> n \<longleftrightarrow> unat n \<noteq> 0" by (auto simp: word_le_nat_alt)
  show "sat_sub n 1 = 0 \<longleftrightarrow> unat n \<le> 1"
    using le by (auto simp: sat_sub_def unat_eq_0 [symmetric] unat_sub_if' le_Suc_eq)
  show "\<not> unat n \<le> 1 \<Longrightarrow> sat_sub n 1 = n - 1" using le by (simp add: sat_sub_def)
qed

lemma blast_claim_vault:
  assumes "validate_blast_claim_contextual X tx utxos h S = Inr fee"
  shows "vault_claimed X tx utxos S"
proof -
  let ?outs = "tx_outputs tx"
  obtain claimant code coin vault paid where 1: "length (tx_inputs tx) = 1" "?outs \<noteq> []"
    and claim: "parse_blast_claim_script X (signature_script (tx_inputs tx ! 0)) S = Some (claimant, code)"
    and coin: "fmlookup utxos (previous_output (tx_inputs tx ! 0)) = Some coin"
    and vault: "parse_blast_vault_script X (script_pubkey (coin_out coin)) S = Some vault" "bv_asset vault = ''QUB''"
    and code: "blast_code_hash_hex X code = Inr (bv_code_hash vault)"
    and paid: "u64_try_from (bv_per_claim_units vault) = Some paid" "paid \<le> out_value (coin_out coin)"
    and out: "out_value (?outs ! 0) = paid" "script_pubkey (?outs ! 0) = address_script_pubkey claimant"
    and rest: "(if out_value (coin_out coin) - paid = 0 \<or> sat_sub (bv_remaining_claims vault) 1 = 0
        then length ?outs = 1
        else length ?outs = 2 \<and> out_value (?outs ! 1) = out_value (coin_out coin) - paid \<and>
          (\<exists>manager. parse_with_prefix X (bv_manager_address vault) (net_address_prefix (network S)) = Inr manager \<and>
            blast_vault_script X (bv_asset vault) manager (bv_code_hash vault) (bv_per_claim_units vault)
              (sat_sub (bv_remaining_claims vault) 1) = Inr (script_pubkey (?outs ! 1))))"
    using assms unfolding validate_blast_claim_contextual_def
    by (auto simp: Let_def result_simps not_less simp del: right_minus_eq split: if_split_asm prod.splits)
  obtain o1 os where o: "?outs = o1 # os" using 1(2) by (cases ?outs) auto
  have same: "out_value (coin_out coin) - paid = 0 \<longleftrightarrow> paid = out_value (coin_out coin)" by auto
  have "o1 = \<lparr>out_value = paid, script_pubkey = address_script_pubkey claimant\<rparr>" using out o by simp
  moreover have "if paid = out_value (coin_out coin) \<or> unat (bv_remaining_claims vault) \<le> 1 then os = []
      else \<exists>manager script.
        parse_with_prefix X (bv_manager_address vault) (net_address_prefix (network S)) = Inr manager \<and>
        blast_vault_script X ''QUB'' manager (bv_code_hash vault) (bv_per_claim_units vault)
          (bv_remaining_claims vault - 1) = Inr script \<and>
        os = [\<lparr>out_value = out_value (coin_out coin) - paid, script_pubkey = script\<rparr>]"
    using rest vault(2) sat_sub_one(2) [of "bv_remaining_claims vault"]
    unfolding same sat_sub_one(1) o by (auto simp: length_Suc_conv split: if_splits)
  ultimately show ?thesis
    unfolding vault_claimed_def using 1 claim coin vault code paid(2) u64_try_from_Some [OF paid(1)] o by blast
qed

section \<open>Vault scripts\<close>

lemma ascii_lower_hexdigit:
  "is_ascii_hexdigit c \<Longrightarrow> is_lower_hex (ascii_lower c)"
  by (auto simp: is_lower_hex_def ascii_lower_def char_class_defs less_eq_char_def)

lemma lower_hex_text:
  assumes "list_all is_ascii_hexdigit h"
  shows "list_all is_lower_hex (to_ascii_lowercase h)"
  using assms by (auto simp: list_all_iff to_ascii_lowercase_def intro: ascii_lower_hexdigit)

lemma lower_hex_text_facts:
  assumes "list_all is_lower_hex h"
  shows "plain_field h" and "trim h = h" and "to_ascii_lowercase h = h"
    and "list_all is_ascii_hexdigit h"
proof -
  have c: "is_lower_hex c" if "c \<in> set h" for c using assms that by (simp add: list_all_iff)
  show "list_all is_ascii_hexdigit h" unfolding list_all_iff using c lower_hex_hexdigit by blast
  show "plain_field h"
    unfolding plain_field_def list_all_iff using c lower_hex_graphic lower_hex_not_pipe by blast
  show "trim h = h" by (rule trim_all_graphic) (blast intro: lower_hex_graphic c)
  show "to_ascii_lowercase h = h"
    unfolding to_ascii_lowercase_def by (rule map_idI) (blast intro: lower_hex_lower c)
qed

lemma trim_asset: "trim ''QUB'' = ''QUB''" "trim ''JIN'' = ''JIN''"
  by (rule trim_graphic; simp add: is_ascii_graphic_def)+

lemma upper_asset: "to_ascii_uppercase ''QUB'' = ''QUB''" "to_ascii_uppercase ''JIN'' = ''JIN''"
  by (simp_all add: to_ascii_uppercase_def ascii_upper_def is_ascii_lowercase_def less_eq_char_def)

text \<open>
  A vault script that the node accepts to build parses back to the vault it describes: the
  asset in upper case, the manager's address text, the code hash in lower case, the amount per
  claim and the number of claims left.
\<close>

theorem blast_vault_roundtrip:
  assumes "extern_ok X" and "wf_address m" and "addr_prefix m = net_address_prefix (network S)"
    and "blast_vault_script X asset m code_hash per_claim claims = Inr s"
  shows "parse_blast_vault_script X s S =
    Some \<lparr>bv_asset = to_ascii_uppercase (trim asset), bv_manager_address = address_to_string X m,
      bv_code_hash = to_ascii_lowercase code_hash, bv_per_claim_units = per_claim,
      bv_remaining_claims = claims\<rparr>"
proof -
  let ?a = "to_ascii_uppercase (trim asset)" and ?h = "to_ascii_lowercase code_hash"
  let ?fs = "[''BLAST1'', ''vault'', ?a, address_to_string X m, ?h, show_word per_claim, show_word claims]"
  have a: "?a = ''QUB'' \<or> ?a = ''JIN''" and pos: "per_claim \<noteq> 0" "claims \<noteq> 0"
    and h: "length ?h = 64" "list_all is_lower_hex ?h" and s: "s = pipes ?fs"
    using assms(4) lower_hex_text [of code_hash]
    by (auto simp: blast_vault_script_def Let_def to_ascii_lowercase_def split: if_splits)
  note hf = lower_hex_text_facts [OF h(2)]
  have "plain_field ?a" using a by (auto simp: plain_field_def is_ascii_graphic_def)
  moreover have "plain_field ''BLAST1''" "plain_field ''vault''"
    by (simp_all add: plain_field_def is_ascii_graphic_def)
  ultimately have "list_all plain_field ?fs"
    using hf plain_address [OF assms(1,2)] by simp
  then have r: "from_utf8 s = Some s" "split_on (CHR ''|'') s = ?fs"
    using pipes_read_back [of ?fs] by (simp_all add: s)
  have "starts_with s BLAST_SCRIPT_PREFIX"
    unfolding s by (simp add: starts_with_def BLAST_SCRIPT_PREFIX_def pipes_def)
  moreover have "to_ascii_uppercase (trim ?a) = ?a" using a by (auto simp: trim_asset upper_asset)
  moreover have "is_ok (parse_with_prefix X (address_to_string X m) (net_address_prefix (network S)))"
    using parse_with_prefix_to_string [OF assms(1,2)] assms(3) by (simp add: is_ok_iff)
  ultimately show ?thesis
    using a pos h(1) hf trim_address [OF assms(1,2)]
    by (simp add: parse_blast_vault_script_def r Let_def)
qed

lemma blast_vault_roundtrip_witness:
  "let m = address_new ''qub'' (replicate 20 (CHR ''x'')); S = example_settings ''mainnet'' in
   \<exists>s v. blast_vault_script ref_extern ''QUB'' m (replicate 64 (CHR ''a'')) 5 3 = Inr s \<and>
     parse_blast_vault_script ref_extern s S = Some v \<and> bv_remaining_claims v = 3"
proof -
  let ?m = "address_new ''qub'' (replicate 20 (CHR ''x''))"
  have m: "wf_address ?m" "addr_prefix ?m = net_address_prefix (network (example_settings ''mainnet''))"
    by (simp_all add: wf_address_def address_new_def is_ascii_lowercase_def less_eq_char_def ex_network_def)
  obtain s where s: "blast_vault_script ref_extern ''QUB'' ?m (replicate 64 (CHR ''a'')) 5 3 = Inr s"
    by (simp add: blast_vault_script_def Let_def trim_asset upper_asset list_all_iff
        is_ascii_hexdigit_def is_ascii_digit_def less_eq_char_def)
  show ?thesis using blast_vault_roundtrip [OF ref_extern_ok m s] s by (simp add: Let_def)
qed

end
