(* ===== verification/TxValidation.thy ===== *)
theory TxValidation
  imports Blast
begin

text \<open>
  Contextual transaction validation of \<open>src/lib.rs\<close>: \<open>verify_p2pkh_input\<close> and
  \<open>validate_tx_contextual\<close>. The lemmas account for the value a transaction moves: what it spends
  covers what it creates, and the difference is its fee.
\<close>

definition verify_p2pkh_input :: "extern \<Rightarrow> transaction \<Rightarrow> nat \<Rightarrow> coin_record \<Rightarrow> unit result" where
  "verify_p2pkh_input X tx idx coin =
     rbind (ok_or (TxErr UnsupportedScriptPubkey) (p2pkh_payload (script_pubkey (coin_out coin)))) (\<lambda>expected.
     rbind (decode_sig_script (signature_script (tx_inputs tx ! idx))) (\<lambda>(pk, sig).
     if public_key_hash X pk \<noteq> expected then Inl (TxErr PubkeyHashMismatch) else
     rbind (sighash_all X tx idx (script_pubkey (coin_out coin))) (\<lambda>sighash.
     if \<not> verify_hash X pk sig sighash then Inl (TxErr SignatureVerificationFailed) else Inr ())))"

text \<open>One turn of the input loop: the coin is found, mature, properly signed, and counted.\<close>

definition check_input ::
  "extern \<Rightarrow> transaction \<Rightarrow> utxo_map \<Rightarrow> u32 \<Rightarrow> settings \<Rightarrow> bool \<Rightarrow> nat \<times> tx_in \<Rightarrow> nat \<Rightarrow> nat result" where
  "check_input X tx utxos spend_height S verify_scripts = (\<lambda>(idx, input) total_in.
     rbind (ok_or (TxErr MissingUtxo) (fmlookup utxos (previous_output input))) (\<lambda>coin.
     if coin_is_coinbase coin \<and>
        sat_sub spend_height (coin_height coin) < cons_coinbase_maturity (consensus S)
     then Inl (TxErr PrematureCoinbaseSpend) else
     rbind (if verify_scripts then verify_p2pkh_input X tx idx coin else Inr ()) (\<lambda>_.
     Inr (total_in + unat (out_value (coin_out coin))))))"

definition validate_tx_contextual ::
  "extern \<Rightarrow> transaction \<Rightarrow> utxo_map \<Rightarrow> u32 \<Rightarrow> settings \<Rightarrow> bool \<Rightarrow> u64 result" where
  "validate_tx_contextual X tx utxos spend_height S verify_scripts =
     rbind (validate_tx_stateless tx S) (\<lambda>_.
     if is_coinbase tx \<or> is_pool_share_transaction tx then Inr 0 else
     rbind (validate_blast_create_outputs X tx spend_height S) (\<lambda>_.
     if is_blast_claim_transaction X tx S
     then validate_blast_claim_contextual X tx utxos spend_height S else
     let total_out = sum_list (map (\<lambda>out. unat (out_value out)) (tx_outputs tx)) in
     rbind (fold_r (check_input X tx utxos spend_height S verify_scripts)
       (enumerate 0 (tx_inputs tx)) 0) (\<lambda>total_in.
     if total_in < total_out then Inl (TxErr InsufficientInputValue)
     else Inr (of_nat (total_in - total_out)))))"

section \<open>Stateless checks\<close>

lemma add_output_value_Inr:
  "add_output_value S out n = Inr m \<longleftrightarrow>
    out_value out \<noteq> 0 \<and> out_value out \<le> cons_max_money_atoms (consensus S) \<and>
    out_value out \<le> MAX_MONEY_ATOMS \<and> m = n + unat (out_value out) \<and>
    m \<le> unat (cons_max_money_atoms (consensus S))"
  by (auto simp: add_output_value_def Let_def)

lemma add_outputs_value:
  "fold_r (add_output_value S) outs n = Inr m \<Longrightarrow>
    m = n + sum_list (map (\<lambda>out. unat (out_value out)) outs) \<and>
    (\<forall>out \<in> set outs. out_value out \<noteq> 0 \<and> out_value out \<le> MAX_MONEY_ATOMS) \<and>
    (n \<le> unat (cons_max_money_atoms (consensus S)) \<longrightarrow> m \<le> unat (cons_max_money_atoms (consensus S)))"
proof (induction outs arbitrary: n)
  case (Cons out outs)
  then obtain k where k: "add_output_value S out n = Inr k" and f: "fold_r (add_output_value S) outs k = Inr m"
    by (auto simp: result_simps)
  show ?case using Cons.IH [OF f] k by (auto simp: add_output_value_Inr)
qed simp

lemma stateless_Inr:
  assumes "validate_tx_stateless tx S = Inr ()" and "tx_outputs tx \<noteq> []" and "tx_inputs tx \<noteq> []"
    and "\<not> is_pool_share_transaction tx"
  shows "distinct (map previous_output (tx_inputs tx))"
    and "outputs_total tx \<le> unat (cons_max_money_atoms (consensus S))"
    and "out \<in> set (tx_outputs tx) \<Longrightarrow> out_value out \<noteq> 0 \<and> out_value out \<le> MAX_MONEY_ATOMS"
  using assms add_outputs_value [of S "tx_outputs tx" 0]
  by (auto simp: validate_tx_stateless_def result_simps all_fresh_iff outputs_total_def split: if_splits)

section \<open>Inputs\<close>

text \<open>What one checked input guarantees.\<close>

definition input_authorised ::
  "extern \<Rightarrow> transaction \<Rightarrow> utxo_map \<Rightarrow> u32 \<Rightarrow> settings \<Rightarrow> nat \<Rightarrow> bool" where
  "input_authorised X tx utxos h S idx \<longleftrightarrow>
     (\<exists>coin pk sig sh. fmlookup utxos (previous_output (tx_inputs tx ! idx)) = Some coin \<and>
        (coin_is_coinbase coin \<longrightarrow>
           unat h - unat (coin_height coin) \<ge> unat (cons_coinbase_maturity (consensus S))) \<and>
        p2pkh_payload (script_pubkey (coin_out coin)) = Some (public_key_hash X pk) \<and>
        signature_script (tx_inputs tx ! idx) = sh \<and> decode_sig_script sh = Inr (pk, sig) \<and>
        verify_hash X pk sig (double_sha256 X
          (serialize_tx (Some (idx, script_pubkey (coin_out coin))) tx @ u32_le 1)))"

lemma verify_p2pkh_input_Inr:
  "verify_p2pkh_input X tx idx coin = Inr () \<longleftrightarrow>
    (\<exists>pk sig. p2pkh_payload (script_pubkey (coin_out coin)) = Some (public_key_hash X pk) \<and>
      decode_sig_script (signature_script (tx_inputs tx ! idx)) = Inr (pk, sig) \<and>
      idx < length (tx_inputs tx) \<and>
      verify_hash X pk sig (double_sha256 X
        (serialize_tx (Some (idx, script_pubkey (coin_out coin))) tx @ u32_le 1)))"
  by (auto simp: verify_p2pkh_input_def sighash_all_def result_simps not_le)

lemma check_input_Inr:
  "check_input X tx utxos h S vs (idx, input) n = Inr m \<longleftrightarrow>
    (\<exists>coin. fmlookup utxos (previous_output input) = Some coin \<and>
      (coin_is_coinbase coin \<longrightarrow>
        unat h - unat (coin_height coin) \<ge> unat (cons_coinbase_maturity (consensus S))) \<and>
      (vs \<longrightarrow> verify_p2pkh_input X tx idx coin = Inr ()) \<and> m = n + coin_value coin)"
  by (auto simp: check_input_def result_simps word_less_nat_alt unat_sat_sub coin_value_def not_less)

lemma check_inputs_value:
  "fold_r (check_input X tx utxos h S vs) (enumerate k ins) n = Inr m \<Longrightarrow>
    m = n + inputs_total utxos ins \<and> (\<forall>i \<in> set ins. fmlookup utxos (previous_output i) \<noteq> None)"
proof (induction ins arbitrary: k n)
  case (Cons i ins)
  then obtain l where l: "check_input X tx utxos h S vs (k, i) n = Inr l"
    and f: "fold_r (check_input X tx utxos h S vs) (enumerate (Suc k) ins) l = Inr m"
    by (auto simp: result_simps)
  show ?case using Cons.IH [OF f] l by (auto simp: check_input_Inr inputs_total_def)
qed (simp add: inputs_total_def)

lemma check_inputs_authorised:
  assumes "fold_r (check_input X tx utxos h S True) (enumerate k ins) n = Inr m"
    and "\<And>j. j < length ins \<Longrightarrow> tx_inputs tx ! (k + j) = ins ! j"
  shows "j < length ins \<Longrightarrow> input_authorised X tx utxos h S (k + j)"
  using assms
proof (induction ins arbitrary: k n j)
  case (Cons i ins)
  from Cons.prems(2) obtain n' where c: "check_input X tx utxos h S True (k, i) n = Inr n'"
    and f: "fold_r (check_input X tx utxos h S True) (enumerate (Suc k) ins) n' = Inr m"
    by (auto simp: result_simps)
  have i: "tx_inputs tx ! k = i" using Cons.prems(3) [of 0] by simp
  have IH: "input_authorised X tx utxos h S (Suc k + j')" if "j' < length ins" for j'
    using Cons.IH [OF that f] Cons.prems(3) [of "Suc _"] by simp
  show ?case
  proof (cases j)
    case 0
    with c i show ?thesis
      by (auto simp: check_input_Inr verify_p2pkh_input_Inr input_authorised_def)
  next
    case (Suc j')
    with IH [of j'] Cons.prems(1) show ?thesis by simp
  qed
qed simp

section \<open>Value and authorisation of a validated transaction\<close>

lemma validate_tx_contextual_cases:
  assumes "validate_tx_contextual X tx utxos h S vs = Inr fee"
    and "\<not> is_coinbase tx" and "\<not> is_pool_share_transaction tx"
  obtains (claim) c where "is_blast_claim_transaction X tx S"
      and "fmlookup utxos (previous_output (tx_inputs tx ! 0)) = Some c"
      and "length (tx_inputs tx) = 1" and "outputs_total tx \<le> coin_value c" and "fee = 0"
      and "vault_claimed X tx utxos S"
  | (spend) "\<not> is_blast_claim_transaction X tx S"
      and "fold_r (check_input X tx utxos h S vs) (enumerate 0 (tx_inputs tx)) 0 =
        Inr (inputs_total utxos (tx_inputs tx))"
      and "outputs_total tx \<le> inputs_total utxos (tx_inputs tx)"
      and "fee = of_nat (inputs_total utxos (tx_inputs tx) - outputs_total tx)"
proof (cases "is_blast_claim_transaction X tx S")
  case True
  with assms have "validate_blast_claim_contextual X tx utxos h S = Inr fee"
    by (auto simp: validate_tx_contextual_def result_simps split: if_splits)
  then show thesis by (rule blast_claim_value) (use True claim blast_claim_vault \<open>validate_blast_claim_contextual X tx utxos h S = Inr fee\<close> in blast)
next
  case False
  with assms obtain m where f: "fold_r (check_input X tx utxos h S vs) (enumerate 0 (tx_inputs tx)) 0 = Inr m"
    and "outputs_total tx \<le> m" and "fee = of_nat (m - outputs_total tx)"
    by (auto simp: validate_tx_contextual_def result_simps Let_def outputs_total_def not_less split: if_splits)
  with check_inputs_value [OF f] False show thesis by (intro spend) simp_all
qed

lemma inputs_total_single:
  "length ins = 1 \<Longrightarrow> fmlookup u (previous_output (ins ! 0)) = Some c \<Longrightarrow> inputs_total u ins = coin_value c"
  by (auto simp: inputs_total_def length_Suc_conv)

lemma connected_inputs_le:
  assumes "connect_tx_utxos X tx h False u = Inr v" and "\<not> is_pool_share_transaction tx"
  shows "inputs_total u (tx_inputs tx) \<le> utxo_total u"
proof -
  from assms obtain w where "fold_r spend_input (tx_inputs tx) u = Inr w"
    by (auto simp: connect_tx_utxos_def result_simps)
  then show ?thesis using spend_inputs_total by fastforce
qed

lemma validated_tx_total:
  assumes "validate_tx_contextual X tx u h S vs = Inr fee" and "\<not> is_coinbase tx"
    and "connect_tx_utxos X tx h False u = Inr v" and "utxo_total u < 2 ^ 64"
  shows "utxo_total v + unat fee \<le> utxo_total u"
proof (cases "is_pool_share_transaction tx")
  case True
  with assms(1,3) have "fee = 0" "v = u"
    by (auto simp: validate_tx_contextual_def connect_pool_share result_simps)
  then show ?thesis by simp
next
  case False
  note total = connect_tx_total [OF assms(3) False]
  note le = connected_inputs_le [OF assms(3) False]
  from assms(1,2) False show ?thesis
  proof (cases rule: validate_tx_contextual_cases)
    case (claim c)
    with total inputs_total_single [of "tx_inputs tx" u c] show ?thesis by simp
  next
    case spend
    have "unat fee \<le> inputs_total u (tx_inputs tx) - outputs_total tx"
      unfolding spend(4) by (rule unat_of_nat_le)
    with total le spend(3) show ?thesis by linarith
  qed
qed

text \<open>
  C5: No spend without the owner. When a transaction that is neither a coinbase nor a pool share passes
  contextual validation with script checks, either it is a Blast claim, which spends exactly one vault,
  with the code of that vault, and pays one claim to the claimant and the rest back into the vault; or
  each of its inputs refers to an existing coin, mature if it comes from a coinbase, locked to the hash
  of a public key whose signature over the transaction and that coin's script is in the input.
\<close>

theorem validated_inputs_authorised:
  assumes "validate_tx_contextual X tx utxos h S True = Inr fee"
    and "\<not> is_coinbase tx" and "\<not> is_pool_share_transaction tx"
  shows "if is_blast_claim_transaction X tx S then vault_claimed X tx utxos S
    else \<forall>idx < length (tx_inputs tx). input_authorised X tx utxos h S idx"
  using assms
proof (cases rule: validate_tx_contextual_cases)
  case spend
  show ?thesis using check_inputs_authorised [OF spend(2)] spend(1) by simp
qed simp

text \<open>
  C6: A validated transaction creates no value: connecting it to the UTXO set it was validated against
  lowers the value of the set by exactly the fee that validation returned; a Blast claim, which pays no
  fee, may lower it further by what the last claim of a vault leaves over, but never raises it.
\<close>

theorem validated_tx_conserves_value:
  assumes "validate_tx_contextual X tx u h S vs = Inr fee" and "\<not> is_coinbase tx"
    and "connect_tx_utxos X tx h False u = Inr v" and "utxo_total u < 2 ^ 64"
  shows "if is_blast_claim_transaction X tx S then fee = 0 \<and> utxo_total v \<le> utxo_total u
    else utxo_total v + unat fee = utxo_total u"
proof (cases "is_pool_share_transaction tx")
  case True
  with assms(1,3) have "fee = 0" "v = u"
    by (auto simp: validate_tx_contextual_def connect_pool_share result_simps)
  then show ?thesis by simp
next
  case False
  note total = connect_tx_total [OF assms(3) False]
  note le = connected_inputs_le [OF assms(3) False]
  from assms(1,2) False show ?thesis
  proof (cases rule: validate_tx_contextual_cases)
    case (claim c)
    with total inputs_total_single [of "tx_inputs tx" u c] show ?thesis by simp
  next
    case spend
    have "unat fee = inputs_total u (tx_inputs tx) - outputs_total tx"
      unfolding spend(4) using le assms(4) by (intro unat_of_nat_less) simp
    with total spend(1,3) show ?thesis by simp
  qed
qed

section \<open>An example spend\<close>

text \<open>A coin of its owner and a transaction that spends it, with any outputs.\<close>

definition ex_script :: script where
  "ex_script = P2PKH_PREFIX @ public_key_hash ref_extern ''k'' @ P2PKH_SUFFIX"

definition ex_outpoint :: outpoint where
  "ex_outpoint = OutPoint (replicate 32 (CHR ''t'')) 0"

definition ex_pay_with :: "script \<Rightarrow> tx_out list \<Rightarrow> transaction" where
  "ex_pay_with sig outs =
     \<lparr>tx_version = 1,
      tx_inputs = [\<lparr>previous_output = ex_outpoint, signature_script = sig, sequence = 0xFFFFFFFF\<rparr>],
      tx_outputs = outs, tx_locktime = 0\<rparr>"

definition ex_sighash :: "tx_out list \<Rightarrow> hash256" where
  "ex_sighash outs = double_sha256 ref_extern (serialize_tx (Some (0, ex_script)) (ex_pay_with [] outs) @ u32_le 1)"

definition ex_pay :: "tx_out list \<Rightarrow> transaction" where
  "ex_pay outs = ex_pay_with (u16_le 1 @ ''k'' @ u16_le 33 @ ex_sighash outs @ ''k'') outs"

definition ex_coin :: "u64 \<Rightarrow> utxo_map" where
  "ex_coin v = fmupd ex_outpoint
     \<lparr>coin_out = \<lparr>out_value = v, script_pubkey = ex_script\<rparr>, coin_height = 0, coin_is_coinbase = False\<rparr> fmempty"

lemma ex_pay_simps:
  "tx_inputs (ex_pay outs) = [\<lparr>previous_output = ex_outpoint,
     signature_script = u16_le 1 @ ''k'' @ u16_le 33 @ ex_sighash outs @ ''k'', sequence = 0xFFFFFFFF\<rparr>]"
  "tx_outputs (ex_pay outs) = outs"
  by (simp_all add: ex_pay_def ex_pay_with_def)

lemma ex_serialize: "serialize_tx (Some (0, s)) (ex_pay_with a outs) = serialize_tx (Some (0, s)) (ex_pay_with b outs)"
  by (simp add: ex_pay_with_def serialize_tx_def serialize_input_def)

lemma ex_decode:
  "decode_sig_script (u16_le 1 @ ''k'' @ u16_le 33 @ ex_sighash outs @ ''k'') = Inr (''k'', ex_sighash outs @ ''k'')"
  by (rule decode_encode_sig_script)
    (simp add: encode_sig_script_def length_double_sha256 ref_extern_ok ex_sighash_def)

lemma ex_payload: "p2pkh_payload ex_script = Some (public_key_hash ref_extern ''k'')"
  by (simp add: p2pkh_payload_iff ex_script_def public_key_hash_def ripemd160_length [OF ref_extern_ok])

lemma ex_verify: "verify_p2pkh_input ref_extern (ex_pay outs) 0 \<lparr>coin_out = \<lparr>out_value = v, script_pubkey = ex_script\<rparr>,
    coin_height = 0, coin_is_coinbase = False\<rparr> = Inr ()"
proof -
  have h: "double_sha256 ref_extern (serialize_tx (Some (0, ex_script)) (ex_pay outs) @ u32_le 1) = ex_sighash outs"
    unfolding ex_sighash_def ex_pay_def by (subst ex_serialize [of _ _ _ "[]"]) (rule refl)
  have i: "signature_script (tx_inputs (ex_pay outs) ! 0) = u16_le 1 @ ''k'' @ u16_le 33 @ ex_sighash outs @ ''k''"
    "length (tx_inputs (ex_pay outs)) = 1"
    by (simp_all add: ex_pay_simps)
  show ?thesis unfolding verify_p2pkh_input_Inr i
    using ex_decode ex_payload h by (simp add: verify_hash_def ref_extern_def)
qed

lemma starts_with_first: "starts_with (c # s) (d # p) \<Longrightarrow> c = d"
  by (simp add: starts_with_def)

lemma u16_le_one: "u16_le 1 = [CHR 0x01, CHR 0x00]"
  by code_simp

lemma ex_not_claim: "\<not> is_blast_claim_transaction X (ex_pay outs) S"
proof -
  have "\<not> starts_with (signature_script (tx_inputs (ex_pay outs) ! 0)) BLAST_SCRIPT_PREFIX"
    by (auto simp: ex_pay_simps BLAST_SCRIPT_PREFIX_def u16_le_one dest!: starts_with_first)
  then show ?thesis by (simp add: is_blast_claim_transaction_def parse_blast_claim_script_def)
qed

lemma ex_no_vault:
  "list_all (\<lambda>out. \<not> starts_with (script_pubkey out) BLAST_SCRIPT_PREFIX) outs \<Longrightarrow>
    blast_creates_in_tx X (ex_pay outs) S = []"
  by (auto simp: blast_creates_in_tx_def ex_pay_simps parse_blast_vault_script_def List.map_filter_def
      filter_empty_conv list_all_iff in_set_enumerate_eq)

lemma ex_kind: "\<not> is_coinbase (ex_pay outs)" "\<not> is_pool_share_transaction (ex_pay outs)"
  by (simp_all add: is_coinbase_def is_pool_share_transaction_def ex_pay_simps ex_outpoint_def outpoint_null_def)

lemma ex_stateless:
  assumes "fold_r (add_output_value S) outs 0 = Inr n" and "outs \<noteq> []" and "length outs \<le> MAX_SEND_ENTRIES_PER_TX"
  shows "validate_tx_stateless (ex_pay outs) S = Inr ()"
  using ex_kind [of outs] assms by (simp add: validate_tx_stateless_def ex_pay_simps)

lemma ex_pay_validate:
  assumes "fold_r (add_output_value S) outs 0 = Inr n" and "outs \<noteq> []" and "length outs \<le> MAX_SEND_ENTRIES_PER_TX"
    and "list_all (\<lambda>out. \<not> starts_with (script_pubkey out) BLAST_SCRIPT_PREFIX) outs" and "n \<le> unat v"
  shows "validate_tx_contextual ref_extern (ex_pay outs) (ex_coin v) h S True = Inr (of_nat (unat v - n))"
proof -
  have "fold_r (check_input ref_extern (ex_pay outs) (ex_coin v) h S True)
      (enumerate 0 (tx_inputs (ex_pay outs))) 0 = Inr (unat v)"
    using ex_verify by (simp add: ex_pay_simps check_input_def ex_coin_def)
  moreover have "sum_list (map (\<lambda>out. unat (out_value out)) (tx_outputs (ex_pay outs))) = n"
    using add_outputs_value [OF assms(1)] by (simp add: ex_pay_simps)
  ultimately show ?thesis
    using ex_kind [of outs] ex_stateless [OF assms(1-3)] ex_not_claim [of ref_extern outs S]
      ex_no_vault [OF assms(4), of ref_extern S] assms(5)
    by (simp add: validate_tx_contextual_def validate_blast_create_outputs_def)
qed

lemma create_outputs_fresh:
  assumes "\<And>k. fmlookup u (OutPoint t k) = None" and "n + length outs \<le> 2 ^ 32"
  shows "\<exists>v. fold_r (create_output t h cb) (enumerate n outs) u = Inr v"
proof -
  have "\<exists>v. fold_r (create_output t h cb) (enumerate n outs) u = Inr v"
    if "\<forall>k. n \<le> unat k \<longrightarrow> fmlookup u (OutPoint t k) = None" "n + length outs \<le> 2 ^ 32" for u n
    using that
  proof (induction outs arbitrary: n u)
    case (Cons out outs)
    have n: "unat (of_nat n :: u32) = n" using Cons.prems(2) by (intro unat_of_nat_less) simp
    let ?u = "fmupd (OutPoint t (of_nat n)) \<lparr>coin_out = out, coin_height = h, coin_is_coinbase = cb\<rparr> u"
    have "\<forall>k. Suc n \<le> unat k \<longrightarrow> fmlookup ?u (OutPoint t k) = None" using Cons.prems(1) n by auto
    then have "\<exists>v. fold_r (create_output t h cb) (enumerate (Suc n) outs) ?u = Inr v"
      using Cons.prems(2) by (intro Cons.IH) simp_all
    moreover have "create_output t h cb (n, out) u = Inr ?u" using Cons.prems(1) n by (simp add: create_output_def)
    ultimately show ?case by simp
  qed simp
  then show ?thesis using assms by simp
qed

lemma ex_pay_connect:
  "length outs \<le> 2 ^ 32 \<Longrightarrow> \<exists>u. connect_tx_utxos ref_extern (ex_pay outs) h False (ex_coin v) = Inr u"
  using ex_kind [of outs] create_outputs_fresh [of "fmdrop ex_outpoint (ex_coin v)" _ 0 outs]
  by (simp add: connect_tx_utxos_def ex_pay_simps spend_input_def ex_coin_def)

text \<open>A coin of 100 atoms, spent with a fee of 10 atoms.\<close>

definition ex_spend :: transaction where
  "ex_spend = ex_pay [\<lparr>out_value = 90, script_pubkey = ex_script\<rparr>]"

lemma ex_not_blast_script: "\<not> starts_with ex_script BLAST_SCRIPT_PREFIX"
  by (auto simp: ex_script_def BLAST_SCRIPT_PREFIX_def dest!: starts_with_first)

lemma ex_validate: "validate_tx_contextual ref_extern ex_spend (ex_coin 100) 7 (example_settings name) True = Inr 10"
  using ex_pay_validate [of "example_settings name" "[\<lparr>out_value = 90, script_pubkey = ex_script\<rparr>]" 90 100 7]
  by (simp add: ex_spend_def add_output_value_def ex_consensus_def MAX_MONEY_ATOMS_val
      MAX_SEND_ENTRIES_PER_TX_def ex_not_blast_script)

lemma ex_coin_total: "utxo_total (ex_coin v) = unat v"
  by (simp add: utxo_total_def ex_coin_def fm_total_upd_new coin_value_def)

lemma validated_inputs_authorised_witness:
  "length (tx_inputs ex_spend) = 1 \<and> input_authorised ref_extern ex_spend (ex_coin 100) 7 (example_settings ''mainnet'') 0"
  using validated_inputs_authorised [OF ex_validate [where name = "''mainnet''"]] ex_kind ex_not_claim
  by (simp add: ex_spend_def ex_pay_simps)

lemma validated_tx_conserves_value_witness:
  "\<exists>v. connect_tx_utxos ref_extern ex_spend 7 False (ex_coin 100) = Inr v \<and> utxo_total v + 10 = 100"
proof -
  obtain v where v: "connect_tx_utxos ref_extern ex_spend 7 False (ex_coin 100) = Inr v"
    using ex_pay_connect [of "[\<lparr>out_value = 90, script_pubkey = ex_script\<rparr>]" 7 100] by (auto simp: ex_spend_def)
  with validated_tx_conserves_value [OF ex_validate [where name = "''mainnet''"] _ v] ex_kind ex_not_claim show ?thesis
    by (simp add: ex_coin_total ex_spend_def)
qed

end
