(* ===== verification/Qns.thy ===== *)
theory Qns
  imports TxValidation
begin

text \<open>
  The name service of \<open>src/lib.rs\<close> (QNS): names and prices, the marker script, the registry
  rebuilt from the blocks, and the checks on transactions and blocks that register names. The
  registry \<open>HashMap\<close> is a finite map; rebuilding it is an instance of \<open>replay_monotone\<close>, so a
  registered name is never lost or moved.
\<close>

section \<open>Model\<close>

definition QNS_SCRIPT_PREFIX :: bytes where "QNS_SCRIPT_PREFIX = ''QNS1|''"

record qns_record =
  qr_name :: string
  qr_address :: string
  qr_height :: u32
  qr_txid :: hash256
  qr_price_atoms :: u64
  qr_protocol_address :: string

record qns_registration =
  reg_name :: string
  reg_address :: string

definition qns_active :: "settings \<Rightarrow> u32 \<Rightarrow> bool" where
  "qns_active S height \<longleftrightarrow> qns_enabled (qns S) \<and> height \<ge> qns_activation_height (qns S)"

definition qns_label_char :: "char \<Rightarrow> bool" where
  "qns_label_char c \<longleftrightarrow> is_ascii_lowercase c \<or> is_ascii_digit c"

definition normalize_qns_name :: "string \<Rightarrow> u8 \<Rightarrow> string result" where
  "normalize_qns_name input max_label_chars =
     (let raw = to_ascii_lowercase (trim_end_char (CHR ''.'') (trim input));
          label = (case strip_suffix raw ''.qub'' of None \<Rightarrow> raw | Some l \<Rightarrow> l) in
      if label = [] then Inl (QnsErr QnsNameEmpty)
      else if length label > unat max_label_chars then Inl (QnsErr QnsLabelTooLong)
      else if \<not> list_all qns_label_char label then Inl (QnsErr QnsLabelChars)
      else Inr (label @ ''.qub''))"

definition qns_label :: "string \<Rightarrow> u8 \<Rightarrow> string result" where
  "qns_label name max_label_chars =
     rbind (normalize_qns_name name max_label_chars) (\<lambda>n. Inr (trim_end_str ''.qub'' n))"

definition qns_registration_price_atoms :: "settings \<Rightarrow> string \<Rightarrow> u64 result" where
  "qns_registration_price_atoms S name =
     rbind (qns_label name (qns_max_label_chars (qns S))) (\<lambda>label.
     let label_len = of_nat (length label) :: u64; mx = ucast (qns_max_label_chars (qns S)) in
     if label_len = 0 \<or> label_len > mx then Inl (QnsErr QnsInvalidLength) else
     let weight = sat_add (sat_sub mx label_len) 1 in
     rbind (ok_or (QnsErr QnsPriceOverflow)
       (Option.bind (checked_mul (qns_price_coefficient_atoms (qns S)) weight) (\<lambda>v. checked_mul v weight)))
       (\<lambda>premium. ok_or (QnsErr QnsPriceOverflow)
         (checked_add (qns_base_registration_atoms (qns S)) premium)))"

definition qns_miner_split_active :: "settings \<Rightarrow> u32 \<Rightarrow> bool" where
  "qns_miner_split_active S height \<longleftrightarrow>
     qns_enabled (qns S) \<and> height \<ge> qns_miner_split_activation_height (qns S)"

definition qns_protocol_share_atoms :: "settings \<Rightarrow> u32 \<Rightarrow> u64 \<Rightarrow> u64" where
  "qns_protocol_share_atoms S height price =
     (if qns_miner_split_active S height then price div 2 else price)"

definition qns_miner_share_atoms :: "settings \<Rightarrow> u32 \<Rightarrow> u64 \<Rightarrow> u64" where
  "qns_miner_share_atoms S height price =
     (if qns_miner_split_active S height then price - price div 2 else 0)"

definition qns_marker_script :: "extern \<Rightarrow> string \<Rightarrow> address \<Rightarrow> settings \<Rightarrow> script result" where
  "qns_marker_script X name a S =
     rbind (normalize_qns_name name (qns_max_label_chars (qns S))) (\<lambda>name.
     Inr (pipes [''QNS1'', name, address_to_string X a]))"

definition parse_qns_marker_script :: "extern \<Rightarrow> script \<Rightarrow> settings \<Rightarrow> qns_registration option" where
  "parse_qns_marker_script X b S =
     (if \<not> starts_with b QNS_SCRIPT_PREFIX then None else
      Option.bind (from_utf8 b) (\<lambda>s.
      case split_on (CHR ''|'') s of
        [f0, f1, f2] \<Rightarrow>
          if f0 \<noteq> ''QNS1'' then None else
          Option.bind (to_option (normalize_qns_name f1 (qns_max_label_chars (qns S)))) (\<lambda>name.
          let a = trim f2 in
          if \<not> is_ok (parse_with_prefix X a (net_address_prefix (network S))) then None
          else Some \<lparr>reg_name = name, reg_address = a\<rparr>)
      | _ \<Rightarrow> None))"

definition qns_registrations_in_tx ::
  "extern \<Rightarrow> transaction \<Rightarrow> settings \<Rightarrow> (nat \<times> qns_registration \<times> u64) list" where
  "qns_registrations_in_tx X tx S =
     List.map_filter (\<lambda>(idx, out).
       map_option (\<lambda>r. (idx, r, out_value out)) (parse_qns_marker_script X (script_pubkey out) S))
       (enumerate 0 (tx_outputs tx))"

definition qns_miner_fee_required_in_tx :: "extern \<Rightarrow> settings \<Rightarrow> transaction \<Rightarrow> u32 \<Rightarrow> u64 result" where
  "qns_miner_fee_required_in_tx X S tx height =
     fold_r (\<lambda>(_, reg, _) required.
       rbind (qns_registration_price_atoms S (reg_name reg)) (\<lambda>price.
       ok_or (QnsErr QnsMinerFeeOverflow)
         (checked_add required (qns_miner_share_atoms S height price))))
       (qns_registrations_in_tx X tx S) 0"

type_synonym qns_registry = "(string, qns_record) fmap"

definition qns_base_registry :: "settings \<Rightarrow> qns_registry result" where
  "qns_base_registry S =
     (if \<not> qns_enabled (qns S) then Inr fmempty else
      rbind (normalize_qns_name (qns_protocol_name (qns S)) (qns_max_label_chars (qns S))) (\<lambda>protocol_name.
      let addr = qns_protocol_address (qns S);
          registry = fmupd protocol_name
            \<lparr>qr_name = protocol_name, qr_address = addr, qr_height = 0, qr_txid = hash_zero,
             qr_price_atoms = 0, qr_protocol_address = addr\<rparr> fmempty in
      if ps_enabled (pools S) \<and> feat_pooled_mining_enabled (features S) \<and>
         trim (ps_protocol_address (pools S)) \<noteq> []
      then (case normalize_qns_name (ps_protocol_name (pools S)) (qns_max_label_chars (qns S)) of
          Inl _ \<Rightarrow> Inr registry
        | Inr pool_name \<Rightarrow>
            let paddr = ps_protocol_address (pools S) in
            Inr (if fmlookup registry pool_name \<noteq> None then registry
                 else fmupd pool_name
                   \<lparr>qr_name = pool_name, qr_address = paddr, qr_height = 0, qr_txid = hash_zero,
                    qr_price_atoms = 0, qr_protocol_address = paddr\<rparr> registry))
      else Inr registry))"

definition qns_register_one ::
  "extern \<Rightarrow> settings \<Rightarrow> u32 \<Rightarrow> transaction \<Rightarrow> nat \<times> qns_registration \<times> u64 \<Rightarrow>
    qns_registry \<Rightarrow> qns_registry result" where
  "qns_register_one X S height tx r registry =
     (case r of (_, reg, _) \<Rightarrow>
        if fmlookup registry (reg_name reg) \<noteq> None then Inr registry else
        rbind (qns_registration_price_atoms S (reg_name reg)) (\<lambda>price.
        Inr (fmupd (reg_name reg)
          \<lparr>qr_name = reg_name reg, qr_address = reg_address reg, qr_height = height,
           qr_txid = txid X tx, qr_price_atoms = price,
           qr_protocol_address = qns_protocol_address (qns S)\<rparr> registry)))"

definition qns_register_tx ::
  "extern \<Rightarrow> settings \<Rightarrow> u32 \<Rightarrow> transaction \<Rightarrow> qns_registry \<Rightarrow> qns_registry result" where
  "qns_register_tx X S height tx =
     fold_r (qns_register_one X S height tx) (qns_registrations_in_tx X tx S)"

definition qns_register_block ::
  "extern \<Rightarrow> settings \<Rightarrow> nat \<times> block \<Rightarrow> qns_registry \<Rightarrow> qns_registry result" where
  "qns_register_block X S hb registry =
     (case hb of (height, b) \<Rightarrow>
        if \<not> qns_active S (of_nat height) then Inr registry
        else fold_r (qns_register_tx X S (of_nat height)) (drop 1 (blk_transactions b)) registry)"

definition qns_registry_from_blocks :: "extern \<Rightarrow> settings \<Rightarrow> block list \<Rightarrow> qns_registry result" where
  "qns_registry_from_blocks X S blocks =
     rbind (qns_base_registry S) (fold_r (qns_register_block X S) (numbered blocks))"

definition qns_resolve :: "extern \<Rightarrow> settings \<Rightarrow> block list \<Rightarrow> string \<Rightarrow> qns_record option result" where
  "qns_resolve X S blocks name =
     rbind (normalize_qns_name name (qns_max_label_chars (qns S))) (\<lambda>name.
     rbind (qns_registry_from_blocks X S blocks) (\<lambda>registry. Inr (fmlookup registry name)))"

definition qns_names_for_address ::
  "extern \<Rightarrow> settings \<Rightarrow> block list \<Rightarrow> string \<Rightarrow> qns_record list result" where
  "qns_names_for_address X S blocks a =
     rbind (qns_registry_from_blocks X S blocks) (\<lambda>registry.
     Inr (sort_key qr_name (filter (\<lambda>r. qr_address r = a) (map snd (sorted_list_of_fmap registry)))))"

definition validate_qns_transaction_with_registry ::
  "extern \<Rightarrow> settings \<Rightarrow> u32 \<Rightarrow> qns_registry \<Rightarrow> transaction \<Rightarrow> string set \<Rightarrow> string set result" where
  "validate_qns_transaction_with_registry X S height registry tx block_seen =
     (let regs = qns_registrations_in_tx X tx S in
      if regs = [] then Inr block_seen
      else if \<not> qns_active S height then Inl (QnsErr QnsInactive)
      else if is_coinbase tx then Inl (QnsErr QnsCoinbase)
      else if length regs \<noteq> 1 then Inl (QnsErr QnsExactlyOne)
      else (case regs ! 0 of (_, reg, marker_atoms) \<Rightarrow>
        if marker_atoms \<noteq> qns_marker_output_atoms (qns S) then Inl (QnsErr QnsMarkerAmount)
        else if fmlookup registry (reg_name reg) \<noteq> None then Inl (QnsErr QnsAlreadyRegistered)
        else if reg_name reg \<in> block_seen then Inl (QnsErr QnsDuplicateInBlock)
        else rbind (qns_registration_price_atoms S (reg_name reg)) (\<lambda>price.
          let protocol_required = qns_protocol_share_atoms S height price in
          rbind (parse_with_prefix X (qns_protocol_address (qns S)) (net_address_prefix (network S))) (\<lambda>protocol.
          let paid = sum_list (map out_value
                (filter (\<lambda>out. script_pubkey out = address_script_pubkey protocol) (tx_outputs tx))) in
          if paid < protocol_required
          then rbind (amount_from_atoms protocol_required) (\<lambda>_.
               rbind (amount_from_atoms paid) (\<lambda>_. Inl (QnsErr QnsUnderpayment)))
          else Inr (insert (reg_name reg) block_seen)))))"

definition validate_qns_transaction_against_chain ::
  "extern \<Rightarrow> settings \<Rightarrow> block list \<Rightarrow> transaction \<Rightarrow> u32 \<Rightarrow> unit result" where
  "validate_qns_transaction_against_chain X S blocks tx spend_height =
     (if qns_registrations_in_tx X tx S = [] then Inr () else
      rbind (qns_registry_from_blocks X S blocks) (\<lambda>registry.
      rbind (validate_qns_transaction_with_registry X S spend_height registry tx {}) (\<lambda>_. Inr ())))"

definition validate_qns_block ::
  "extern \<Rightarrow> settings \<Rightarrow> block \<Rightarrow> block list \<Rightarrow> u32 \<Rightarrow> unit result" where
  "validate_qns_block X S b prior_blocks height =
     (if list_all (\<lambda>tx. qns_registrations_in_tx X tx S = []) (drop 1 (blk_transactions b)) then Inr () else
      rbind (qns_registry_from_blocks X S prior_blocks) (\<lambda>registry.
      rbind (fold_r (validate_qns_transaction_with_registry X S height registry)
        (drop 1 (blk_transactions b)) {}) (\<lambda>_. Inr ())))"

section \<open>The registry only grows\<close>

text \<open>Every entry is stored under its own name.\<close>

definition qns_named :: "qns_registry \<Rightarrow> bool" where
  "qns_named registry \<longleftrightarrow> fmpred (\<lambda>name r. qr_name r = name) registry"

lemma qns_register_one_grows:
  assumes "qns_register_one X S h tx r reg = Inr reg'"
  shows "reg \<subseteq>\<^sub>f reg'" and "qns_named reg \<Longrightarrow> qns_named reg'"
  using assms
  by (auto simp: qns_register_one_def qns_named_def result_simps fmsubset_alt_def fmpred_iff
      split: prod.splits if_splits)

interpretation qns_tx: replay_monotone "qns_register_one X S h tx" fmempty qns_named "(\<subseteq>\<^sub>f)"
  for X S h tx
proof unfold_locales
  show "qns_named fmempty" by (simp add: qns_named_def)
qed (auto dest: qns_register_one_grows intro: fmsubset_trans)

interpretation qns_txs: replay_monotone "qns_register_tx X S h" fmempty qns_named "(\<subseteq>\<^sub>f)"
  for X S h
proof unfold_locales
  fix s b t assume "qns_named s" "qns_register_tx X S h b s = Inr t"
  then show "qns_named t" "s \<subseteq>\<^sub>f t"
    unfolding qns_register_tx_def by (rule qns_tx.replay_keeps, rule qns_tx.replay_le)
qed (auto simp: qns_named_def intro: fmsubset_trans)

interpretation qns_blocks: replay_monotone "qns_register_block X S" fmempty qns_named "(\<subseteq>\<^sub>f)"
  for X S
proof unfold_locales
  fix s b t assume "qns_named s" "qns_register_block X S b s = Inr t"
  then show "qns_named t" "s \<subseteq>\<^sub>f t"
    by (auto simp: qns_register_block_def dest: qns_txs.replay_keeps qns_txs.replay_le split: prod.splits if_splits)
qed (auto simp: qns_named_def intro: fmsubset_trans)

lemma qns_base_named: "qns_base_registry S = Inr r \<Longrightarrow> qns_named r"
  by (auto simp: qns_base_registry_def qns_named_def result_simps Let_def fmpred_iff split: if_splits sum.splits)

lemma qns_registry_split:
  assumes "bs \<noteq> []" and "qns_registry_from_blocks X S (bs @ cs) = Inr r'"
  obtains r where "qns_registry_from_blocks X S bs = Inr r" and "qns_named r"
    and "fold_r (qns_register_block X S) (enumerate (length bs) cs) r = Inr r'"
proof -
  from assms obtain b r where b: "qns_base_registry S = Inr b"
    and r: "fold_r (qns_register_block X S) (numbered bs) b = Inr r"
    and c: "fold_r (qns_register_block X S) (enumerate (length bs) cs) r = Inr r'"
    by (auto simp: qns_registry_from_blocks_def numbered_append fold_r_append result_simps)
  moreover have "qns_named r" using qns_blocks.replay_keeps [OF qns_base_named [OF b] r] .
  ultimately show thesis by (intro that) (simp_all add: qns_registry_from_blocks_def)
qed

text \<open>
  C24: A registered name is final: once the blocks of a chain give a name to an address, every
  extension of the chain gives it to the same address, at the same height and price.
\<close>

theorem qns_registration_final:
  assumes "bs \<noteq> []" and "qns_registry_from_blocks X S (bs @ cs) = Inr r'"
  shows "\<exists>r. qns_registry_from_blocks X S bs = Inr r \<and>
    (\<forall>name e. fmlookup r name = Some e \<longrightarrow> fmlookup r' name = Some e)"
proof -
  obtain r where "qns_registry_from_blocks X S bs = Inr r" "qns_named r"
    "fold_r (qns_register_block X S) (enumerate (length bs) cs) r = Inr r'"
    using qns_registry_split [OF assms] by blast
  with qns_blocks.replay_le [of r] show ?thesis by (blast dest: fmsubset_lookup)
qed

section \<open>Names\<close>

lemma label_char_graphic: "qns_label_char c \<Longrightarrow> is_ascii_graphic c"
  by (auto simp: qns_label_char_def intro: lowercase_graphic digit_graphic)

lemma label_char_lower: "qns_label_char c \<Longrightarrow> ascii_lower c = c"
  by (auto simp: qns_label_char_def ascii_lower_def char_class_defs less_eq_char_def)

lemma label_char_not_pipe: "qns_label_char c \<Longrightarrow> c \<noteq> CHR ''|''"
  by (auto simp: qns_label_char_def char_class_defs less_eq_char_def)

text \<open>The shape of a normalised name.\<close>

definition qns_name_ok :: "u8 \<Rightarrow> string \<Rightarrow> bool" where
  "qns_name_ok mx n \<longleftrightarrow> (\<exists>l. n = l @ ''.qub'' \<and> l \<noteq> [] \<and> length l \<le> unat mx \<and> list_all qns_label_char l)"

lemma normalize_shape: "normalize_qns_name s mx = Inr n \<Longrightarrow> qns_name_ok mx n"
  by (auto simp: normalize_qns_name_def Let_def qns_name_ok_def split: if_splits)

lemma strip_suffix_append: "strip_suffix (l @ p) p = Some l"
  by (simp add: strip_suffix_def ends_with_def starts_with_def)

lemma normalize_fixed:
  assumes "qns_name_ok mx n"
  shows "normalize_qns_name n mx = Inr n"
proof -
  obtain l where n: "n = l @ ''.qub''" and l: "l \<noteq> []" "length l \<le> unat mx" "list_all qns_label_char l"
    using assms by (auto simp: qns_name_ok_def)
  have "is_ascii_graphic c" if "c \<in> set n" for c
    using that l(3) by (auto simp: n list_all_iff is_ascii_graphic_def dest!: label_char_graphic)
  then have "trim n = n" by (rule trim_all_graphic)
  moreover have "trim_end_char (CHR ''.'') n = n" by (simp add: n trim_end_char_def)
  moreover have "to_ascii_lowercase n = n"
  proof -
    have "map ascii_lower l = l" by (rule map_idI) (use l(3) in \<open>auto simp: list_all_iff label_char_lower\<close>)
    then show ?thesis
      by (simp add: n to_ascii_lowercase_def ascii_lower_def is_ascii_uppercase_def less_eq_char_def)
  qed
  ultimately show ?thesis using l n by (simp add: normalize_qns_name_def strip_suffix_append del: append.simps)
qed

lemma plain_append: "plain_field (a @ b) \<longleftrightarrow> plain_field a \<and> plain_field b"
  by (auto simp: plain_field_def)

lemma plain_label: "list_all qns_label_char l \<Longrightarrow> plain_field l"
  unfolding plain_field_def list_all_iff using label_char_graphic label_char_not_pipe by blast

lemma plain_dot_qub: "plain_field ''.qub''"
  by (simp add: plain_field_def is_ascii_graphic_def)

lemma plain_qns_name: "qns_name_ok mx n \<Longrightarrow> plain_field n"
  unfolding qns_name_ok_def using plain_append plain_label plain_dot_qub by blast

lemma plain_qns1: "plain_field ''QNS1''"
  by (simp add: plain_field_def is_ascii_graphic_def)

lemma parse_qns_marker:
  assumes "extern_ok X" and "wf_address a" and "addr_prefix a = net_address_prefix (network S)"
    and ok: "qns_name_ok (qns_max_label_chars (qns S)) n"
  shows "parse_qns_marker_script X (pipes [''QNS1'', n, address_to_string X a]) S =
    Some \<lparr>reg_name = n, reg_address = address_to_string X a\<rparr>"
proof -
  let ?s = "pipes [''QNS1'', n, address_to_string X a]"
  have "list_all plain_field [''QNS1'', n, address_to_string X a]"
    using plain_qns_name [OF ok] plain_address [OF assms(1,2)] plain_qns1 by simp
  then have "from_utf8 ?s = Some ?s" "split_on (CHR ''|'') ?s = [''QNS1'', n, address_to_string X a]"
    using pipes_read_back [of "[''QNS1'', n, address_to_string X a]"] by simp_all
  moreover have "starts_with ?s QNS_SCRIPT_PREFIX"
    by (simp add: starts_with_def QNS_SCRIPT_PREFIX_def pipes_def)
  moreover have "is_ok (parse_with_prefix X (address_to_string X a) (net_address_prefix (network S)))"
    using parse_with_prefix_to_string [OF assms(1,2)] assms(3) by (simp add: is_ok_iff)
  ultimately show ?thesis
    by (simp add: parse_qns_marker_script_def normalize_fixed [OF ok] trim_address [OF assms(1,2)] Let_def)
qed

text \<open>
  Names are canonical and markers read back: normalising is idempotent, and the marker script
  built for a name and an address parses to the normalised name and that address.
\<close>

theorem qns_marker_roundtrip:
  assumes "extern_ok X" and "wf_address a" and "addr_prefix a = net_address_prefix (network S)"
    and "qns_marker_script X name a S = Inr s"
  shows "\<exists>n. normalize_qns_name name (qns_max_label_chars (qns S)) = Inr n \<and>
    normalize_qns_name n (qns_max_label_chars (qns S)) = Inr n \<and>
    parse_qns_marker_script X s S = Some \<lparr>reg_name = n, reg_address = address_to_string X a\<rparr>"
proof -
  obtain n where n: "normalize_qns_name name (qns_max_label_chars (qns S)) = Inr n"
    and s: "s = pipes [''QNS1'', n, address_to_string X a]"
    using assms(4) by (auto simp: qns_marker_script_def result_simps)
  note ok = normalize_shape [OF n]
  show ?thesis using n normalize_fixed [OF ok] parse_qns_marker [OF assms(1-3) ok] s by blast
qed

section \<open>A valid block registers its names\<close>

lemma validate_qns_tx_Inr:
  assumes "validate_qns_transaction_with_registry X S h registry tx seen = Inr seen'"
  shows "(qns_registrations_in_tx X tx S = [] \<and> seen' = seen) \<or>
    (\<exists>i r m price. qns_registrations_in_tx X tx S = [(i, r, m)] \<and> fmlookup registry (reg_name r) = None \<and>
      reg_name r \<notin> seen \<and> seen' = insert (reg_name r) seen \<and> qns_active S h \<and>
      qns_registration_price_atoms S (reg_name r) = Inr price)"
  using assms
  by (auto simp: validate_qns_transaction_with_registry_def Let_def result_simps length_Suc_conv
      split: if_splits prod.splits)

text \<open>
  The invariant of the two loops side by side: what validation has seen is exactly what replaying
  the block adds, so a name that validation accepts is free when the replay reaches it.
\<close>

lemma qns_block_registers:
  assumes "fold_r (validate_qns_transaction_with_registry X S h registry) txs seen = Inr seen'"
    and "fold_r (qns_register_tx X S h) txs reg = Inr reg'"
    and "\<And>n. fmlookup registry n = None \<Longrightarrow> n \<notin> seen \<Longrightarrow> fmlookup reg n = None"
    and "qns_named reg"
    and "tx \<in> set txs" and "(i, r, m) \<in> set (qns_registrations_in_tx X tx S)"
  shows "\<exists>e. fmlookup reg' (reg_name r) = Some e \<and> qr_address e = reg_address r \<and>
    qr_txid e = txid X tx \<and> qr_height e = h"
  using assms
proof (induction txs arbitrary: seen reg)
  case (Cons t txs)
  from Cons.prems(1) obtain seen1 where v: "validate_qns_transaction_with_registry X S h registry t seen = Inr seen1"
    and vs: "fold_r (validate_qns_transaction_with_registry X S h registry) txs seen1 = Inr seen'"
    by (auto simp: result_simps)
  from Cons.prems(2) obtain reg1 where g: "qns_register_tx X S h t reg = Inr reg1"
    and gs: "fold_r (qns_register_tx X S h) txs reg1 = Inr reg'"
    by (auto simp: result_simps)
  have named: "qns_named reg1" using qns_txs.inv_step [OF Cons.prems(4) g] .
  from validate_qns_tx_Inr [OF v] show ?case
  proof (elim disjE exE conjE)
    assume none: "qns_registrations_in_tx X t S = []" and s: "seen1 = seen"
    then have "reg1 = reg" using g by (simp add: qns_register_tx_def)
    moreover have "tx \<in> set txs" using Cons.prems(5,6) none by auto
    ultimately show ?thesis
      using Cons.IH [OF vs gs] Cons.prems(3,4,6) s by blast
  next
    fix j q k price
    assume one: "qns_registrations_in_tx X t S = [(j, q, k)]" and free: "fmlookup registry (reg_name q) = None"
      "reg_name q \<notin> seen" and s: "seen1 = insert (reg_name q) seen"
      and price: "qns_registration_price_atoms S (reg_name q) = Inr price"
    let ?e = "\<lparr>qr_name = reg_name q, qr_address = reg_address q, qr_height = h, qr_txid = txid X t,
      qr_price_atoms = price, qr_protocol_address = qns_protocol_address (qns S)\<rparr>"
    have "fmlookup reg (reg_name q) = None" using Cons.prems(3) free by blast
    then have reg1: "reg1 = fmupd (reg_name q) ?e reg"
      using g by (simp add: qns_register_tx_def one qns_register_one_def price)
    show ?thesis
    proof (cases "tx = t \<and> (i, r, m) = (j, q, k)")
      case True
      then have "fmlookup reg1 (reg_name r) = Some ?e" using reg1 by simp
      then have "fmlookup reg' (reg_name r) = Some ?e"
        using qns_txs.replay_le [OF named gs] by (rule fmsubset_lookup [rotated])
      with True show ?thesis by simp
    next
      case False
      then have "tx \<in> set txs" using Cons.prems(5,6) one by auto
      moreover have "fmlookup reg1 n = None" if "fmlookup registry n = None" "n \<notin> seen1" for n
        using that Cons.prems(3) s reg1 by auto
      ultimately show ?thesis using Cons.IH [OF vs gs] named Cons.prems(6) by blast
    qed
  qed
qed simp

text \<open>
  What a valid block registers is what the registry says: when a block passes the QNS checks
  against the chain before it and the registry of the extended chain can be built, every name a
  transaction of the block registers belongs to the address that transaction names, recorded with
  its id and height, so a registration in a valid block cannot be lost to another one.
\<close>

theorem qns_valid_block_registers:
  assumes "validate_qns_block X S b bs (of_nat (length bs)) = Inr ()" and "bs \<noteq> []"
    and "qns_registry_from_blocks X S (bs @ [b]) = Inr r'"
    and "tx \<in> set (drop 1 (blk_transactions b))" and "(i, r, m) \<in> set (qns_registrations_in_tx X tx S)"
  shows "\<exists>e. fmlookup r' (reg_name r) = Some e \<and> qr_address e = reg_address r \<and>
    qr_txid e = txid X tx \<and> qr_height e = of_nat (length bs)"
proof -
  let ?h = "of_nat (length bs) :: u32"
  obtain reg where reg: "qns_registry_from_blocks X S bs = Inr reg" "qns_named reg"
    and blk: "qns_register_block X S (length bs, b) reg = Inr r'"
    using qns_registry_split [OF assms(2,3)] by (auto simp: result_simps)
  have some: "\<not> list_all (\<lambda>tx. qns_registrations_in_tx X tx S = []) (drop 1 (blk_transactions b))"
    using assms(4,5) unfolding list_all_iff by fastforce
  with assms(1) reg(1) obtain seen where
    v: "fold_r (validate_qns_transaction_with_registry X S ?h reg) (drop 1 (blk_transactions b)) {} = Inr seen"
    by (auto simp: validate_qns_block_def result_simps)
  have "qns_active S ?h"
  proof (rule ccontr)
    assume "\<not> qns_active S ?h"
    then have "qns_registrations_in_tx X t S = []" if "t \<in> set txs"
      "fold_r (validate_qns_transaction_with_registry X S ?h reg) txs s = Inr s'" for t txs s s'
      using that by (induction txs arbitrary: s) (auto simp: result_simps dest: validate_qns_tx_Inr)
    from this [OF assms(4) v] assms(5) show False by simp
  qed
  with blk have g: "fold_r (qns_register_tx X S ?h) (drop 1 (blk_transactions b)) reg = Inr r'"
    by (simp add: qns_register_block_def)
  show ?thesis by (rule qns_block_registers [OF v g _ reg(2) assms(4,5)]) simp
qed

section \<open>Prices\<close>

text \<open>
  The price of a name is split without loss: protocol and miner share add up to the price
  once the split is active, before that all of it goes to the protocol; and the price is at least
  the base price.
\<close>

theorem qns_price_split:
  assumes "qns_registration_price_atoms S name = Inr price"
  shows "unat (qns_base_registration_atoms (qns S)) \<le> unat price \<and>
    unat (qns_protocol_share_atoms S h price) + unat (qns_miner_share_atoms S h price) = unat price"
proof -
  have "unat (qns_base_registration_atoms (qns S)) \<le> unat price"
    using assms by (auto simp: qns_registration_price_atoms_def result_simps Let_def checked_add_Some)
  moreover have "price div 2 \<le> price" by (simp add: word_le_nat_alt unat_div_mod)
  then have "unat (price - price div 2) = unat price - unat (price div 2)" by (simp add: unat_sub)
  moreover have "unat (price div 2) \<le> unat price" by (simp add: unat_div_mod)
  ultimately show ?thesis by (simp add: qns_protocol_share_atoms_def qns_miner_share_atoms_def)
qed

section \<open>An example registration\<close>

text \<open>A network on which QNS is active from the start, and a block that registers \<open>abc.qub\<close>.\<close>

definition ex_addr :: "char \<Rightarrow> address" where
  "ex_addr c = address_new ''qub'' (replicate 20 c)"

definition ex_qns_settings :: settings where
  "ex_qns_settings = (example_settings ''regtest'')
     \<lparr>qns := ex_qns\<lparr>qns_activation_height := 0,
        qns_protocol_address := address_to_string ref_extern (ex_addr (CHR ''p''))\<rparr>\<rparr>"

definition ex_qns_tx :: transaction where
  "ex_qns_tx = example_tx\<lparr>tx_outputs :=
     [\<lparr>out_value = 1, script_pubkey = pipes [''QNS1'', ''abc.qub'', address_to_string ref_extern (ex_addr (CHR ''x''))]\<rparr>,
      \<lparr>out_value = 90100000000, script_pubkey = address_script_pubkey (ex_addr (CHR ''p''))\<rparr>]\<rparr>"

lemma ex_addr_wf: "wf_address (ex_addr c)" "addr_prefix (ex_addr c) = ''qub''"
  by (simp_all add: ex_addr_def wf_address_def address_new_def is_ascii_lowercase_def less_eq_char_def)

lemma ex_qns_settings_simps:
  "network ex_qns_settings = ex_network ''regtest''" "qns_activation_height (qns ex_qns_settings) = 0"
  "qns_enabled (qns ex_qns_settings)" "qns_max_label_chars (qns ex_qns_settings) = 32"
  "qns_protocol_address (qns ex_qns_settings) = address_to_string ref_extern (ex_addr (CHR ''p''))"
  "qns_marker_output_atoms (qns ex_qns_settings) = 1"
  "qns_base_registration_atoms (qns ex_qns_settings) = 100000000"
  "qns_price_coefficient_atoms (qns ex_qns_settings) = 100000000"
  "net_address_prefix (ex_network ''regtest'') = ''qub''"
  "pools ex_qns_settings = ex_pools" "features ex_qns_settings = ex_features"
  "qns_protocol_name (qns ex_qns_settings) = ''qns.qub''"
  "qns_miner_split_activation_height (qns ex_qns_settings) = 8305"
  by (simp_all add: ex_qns_settings_def ex_qns_def ex_network_def)

lemma ex_name_ok: "qns_name_ok 32 ''abc.qub''" "qns_name_ok 32 ''qns.qub''" "qns_name_ok 32 ''pools.qub''"
proof -
  have "qns_name_ok 32 (l @ ''.qub'')" if "l \<noteq> []" "length l \<le> 32" "list_all qns_label_char l" for l
    using that unfolding qns_name_ok_def by force
  from this [of "''abc''"] this [of "''qns''"] this [of "''pools''"]
  show "qns_name_ok 32 ''abc.qub''" "qns_name_ok 32 ''qns.qub''" "qns_name_ok 32 ''pools.qub''"
    by (simp_all add: qns_label_char_def is_ascii_lowercase_def less_eq_char_def)
qed

lemma ex_price: "qns_registration_price_atoms ex_qns_settings ''abc.qub'' = Inr 90100000000"
proof -
  have "trim_end_str ''.qub'' ''abc.qub'' = ''abc''"
    by (simp add: trim_end_str_def strip_all.simps starts_with_def)
  then have "qns_label ''abc.qub'' 32 = Inr ''abc''"
    by (simp add: qns_label_def normalize_fixed [OF ex_name_ok(1)])
  then show ?thesis
    by (simp add: qns_registration_price_atoms_def ex_qns_settings_simps Let_def sat_sub_def sat_add_def
        checked_mul_def checked_add_def)
qed

lemma ex_not_marker: "parse_qns_marker_script X (address_script_pubkey a) S = None"
  by (auto simp: parse_qns_marker_script_def address_script_pubkey_def QNS_SCRIPT_PREFIX_def dest!: starts_with_first)

lemma ex_prefix: "addr_prefix (ex_addr c) = net_address_prefix (network ex_qns_settings)"
  by (simp add: ex_addr_wf ex_qns_settings_simps(1,9))

lemma ex_registrations:
  "qns_registrations_in_tx ref_extern ex_qns_tx ex_qns_settings =
    [(0, \<lparr>reg_name = ''abc.qub'', reg_address = address_to_string ref_extern (ex_addr (CHR ''x''))\<rparr>, 1)]"
  using parse_qns_marker [OF ref_extern_ok ex_addr_wf(1) ex_prefix, of "''abc.qub''" "CHR ''x''"]
  by (simp add: qns_registrations_in_tx_def ex_qns_tx_def List.map_filter_def ex_not_marker
      ex_qns_settings_simps ex_addr_wf ex_name_ok)

definition ex_qns_block :: block where
  "ex_qns_block = example_block [example_tx, ex_qns_tx]"

lemma ex_qns_base: "\<exists>r. qns_base_registry ex_qns_settings = Inr r \<and> fmlookup r ''abc.qub'' = None"
  using normalize_fixed [OF ex_name_ok(2)] normalize_fixed [OF ex_name_ok(3)]
  by (simp add: qns_base_registry_def ex_qns_settings_simps ex_pools_def Let_def)

lemma ex_qns_active: "qns_active ex_qns_settings h"
  by (simp add: qns_active_def ex_qns_settings_simps)

lemma ex_qns_registry:
  "\<exists>r. qns_registry_from_blocks ref_extern ex_qns_settings [example_block [], ex_qns_block] = Inr r"
proof -
  obtain r where "qns_base_registry ex_qns_settings = Inr r" "fmlookup r ''abc.qub'' = None" using ex_qns_base by blast
  then show ?thesis
    by (simp add: qns_registry_from_blocks_def numbered_def qns_register_block_def ex_qns_active
        ex_qns_block_def example_block_def qns_register_tx_def ex_registrations qns_register_one_def ex_price)
qed

lemma ex_qns_valid:
  "validate_qns_block ref_extern ex_qns_settings ex_qns_block [example_block []] (of_nat (length [example_block []])) = Inr ()"
proof -
  obtain r where r: "qns_base_registry ex_qns_settings = Inr r" "fmlookup r ''abc.qub'' = None" using ex_qns_base by blast
  have p: "parse_with_prefix ref_extern (address_to_string ref_extern (ex_addr (CHR ''p''))) ''qub'' = Inr (ex_addr (CHR ''p''))"
    using parse_with_prefix_to_string [OF ref_extern_ok ex_addr_wf(1), of "CHR ''p''"] by (simp add: ex_addr_wf)
  have ncb: "\<not> is_coinbase ex_qns_tx" "tx_outputs ex_qns_tx ! 1 = \<lparr>out_value = 90100000000, script_pubkey = address_script_pubkey (ex_addr (CHR ''p''))\<rparr>"
    by (simp_all add: ex_qns_tx_def is_coinbase_def example_tx_def outpoint_null_def)
  have paid: "filter (\<lambda>out. script_pubkey out = address_script_pubkey (ex_addr (CHR ''p''))) (tx_outputs ex_qns_tx) =
      [\<lparr>out_value = 90100000000, script_pubkey = address_script_pubkey (ex_addr (CHR ''p''))\<rparr>]"
    by (simp add: ex_qns_tx_def pipes_def address_script_pubkey_def)
  have "validate_qns_transaction_with_registry ref_extern ex_qns_settings 1 r ex_qns_tx {} = Inr {''abc.qub''}"
    using r(2) ncb(1)
    by (simp add: validate_qns_transaction_with_registry_def ex_registrations ex_qns_active ex_qns_settings_simps
        ex_price p paid qns_protocol_share_atoms_def qns_miner_split_active_def Let_def word_le_nat_alt)
  then show ?thesis
    using r by (simp add: validate_qns_block_def ex_qns_block_def example_block_def qns_registry_from_blocks_def
        ex_registrations)
qed

lemma qns_registration_final_witness:
  "\<exists>r. qns_registry_from_blocks ref_extern ex_qns_settings [example_block []] = Inr r"
  using qns_registration_final [of "[example_block []]" ref_extern ex_qns_settings "[ex_qns_block]"] ex_qns_registry
  by auto

lemma qns_marker_roundtrip_witness:
  "\<exists>s r. qns_marker_script ref_extern ''abc.qub'' (ex_addr (CHR ''x'')) ex_qns_settings = Inr s \<and>
    parse_qns_marker_script ref_extern s ex_qns_settings = Some r"
proof -
  have s: "qns_marker_script ref_extern ''abc.qub'' (ex_addr (CHR ''x'')) ex_qns_settings =
      Inr (pipes [''QNS1'', ''abc.qub'', address_to_string ref_extern (ex_addr (CHR ''x''))])"
    by (simp add: qns_marker_script_def ex_qns_settings_simps normalize_fixed [OF ex_name_ok(1)])
  with qns_marker_roundtrip [OF ref_extern_ok ex_addr_wf(1) ex_prefix s] show ?thesis by blast
qed

lemma qns_valid_block_registers_witness:
  "\<exists>r e. qns_registry_from_blocks ref_extern ex_qns_settings [example_block [], ex_qns_block] = Inr r \<and>
    fmlookup r ''abc.qub'' = Some e \<and> qr_address e = address_to_string ref_extern (ex_addr (CHR ''x''))"
proof -
  obtain r where r: "qns_registry_from_blocks ref_extern ex_qns_settings ([example_block []] @ [ex_qns_block]) = Inr r"
    using ex_qns_registry by auto
  have t: "ex_qns_tx \<in> set (drop 1 (blk_transactions ex_qns_block))"
    by (simp add: ex_qns_block_def example_block_def)
  have m: "(0, \<lparr>reg_name = ''abc.qub'', reg_address = address_to_string ref_extern (ex_addr (CHR ''x''))\<rparr>, 1)
      \<in> set (qns_registrations_in_tx ref_extern ex_qns_tx ex_qns_settings)"
    by (simp add: ex_registrations)
  show ?thesis using qns_valid_block_registers [OF ex_qns_valid _ r t m] r by auto
qed

lemma qns_price_split_witness:
  "unat (qns_protocol_share_atoms ex_qns_settings 9000 90100000000) +
    unat (qns_miner_share_atoms ex_qns_settings 9000 90100000000) = 90100000000"
  using qns_price_split [OF ex_price, of 9000] by simp

end
