(* ===== verification/StateErr.thy ===== *)
theory StateErr
  imports Errors
begin

text \<open>
  Functions of the sources that take \<open>&mut\<close> arguments and return \<open>Result\<close>: a state transformer
  that also says what the state is when it fails. Callers that ignore the error go on with that
  partly changed state. \<open>se_simps\<close> inverts successful runs.
\<close>

named_theorems se_simps \<open>inversion of successful state transformers\<close>

type_synonym ('s, 'a) se = "'s \<Rightarrow> 'a result \<times> 's"

definition se_return :: "'a \<Rightarrow> ('s, 'a) se" where
  "se_return a = (\<lambda>s. (Inr a, s))"

definition se_fail :: "err \<Rightarrow> ('s, 'a) se" where
  "se_fail e = (\<lambda>s. (Inl e, s))"

definition se_bind :: "('s, 'a) se \<Rightarrow> ('a \<Rightarrow> ('s, 'b) se) \<Rightarrow> ('s, 'b) se" where
  "se_bind m k = (\<lambda>s. case m s of (Inl e, t) \<Rightarrow> (Inl e, t) | (Inr a, t) \<Rightarrow> k a t)"

text \<open>\<open>m?; k\<close> for a unit result.\<close>

definition se_then :: "('s, unit) se \<Rightarrow> ('s, 'b) se \<Rightarrow> ('s, 'b) se" where
  "se_then m k = se_bind m (\<lambda>_. k)"

text \<open>A computation on the state alone that may fail, a check, an update.\<close>

definition se_need :: "('s \<Rightarrow> 'a result) \<Rightarrow> ('s, 'a) se" where
  "se_need f = (\<lambda>s. (f s, s))"

definition se_guard :: "err \<Rightarrow> ('s \<Rightarrow> bool) \<Rightarrow> ('s, unit) se" where
  "se_guard e c = (\<lambda>s. if c s then (Inr (), s) else (Inl e, s))"

definition se_modify :: "('s \<Rightarrow> 's) \<Rightarrow> ('s, unit) se" where
  "se_modify f = (\<lambda>s. (Inr (), f s))"

text \<open>\<open>let _ = m;\<close>: the error is dropped, the changes stay.\<close>

definition se_ignore :: "('s, 'a) se \<Rightarrow> ('s, unit) se" where
  "se_ignore m = (\<lambda>s. (Inr (), snd (m s)))"

text \<open>\<open>for x in xs { f(x)?; }\<close>.\<close>

fun se_for :: "('x \<Rightarrow> ('s, unit) se) \<Rightarrow> 'x list \<Rightarrow> ('s, unit) se" where
  "se_for f [] = se_return ()"
| "se_for f (x # xs) = se_then (f x) (se_for f xs)"

text \<open>Running on one component of the state.\<close>

definition on_fst :: "('s, 'a) se \<Rightarrow> ('s \<times> 't, 'a) se" where
  "on_fst m = (\<lambda>(s, t). case m s of (r, s') \<Rightarrow> (r, (s', t)))"

definition on_snd :: "('t, 'a) se \<Rightarrow> ('s \<times> 't, 'a) se" where
  "on_snd m = (\<lambda>(s, t). case m t of (r, t') \<Rightarrow> (r, (s, t')))"

text \<open>Callers that give up on the first error only see the state of a success.\<close>

definition se_run :: "('s, unit) se \<Rightarrow> 's \<Rightarrow> 's result" where
  "se_run m s = (case m s of (Inl e, _) \<Rightarrow> Inl e | (Inr _, t) \<Rightarrow> Inr t)"

lemma se_bind_ok [se_simps]:
  "se_bind m k s = (Inr b, u) \<longleftrightarrow> (\<exists>a t. m s = (Inr a, t) \<and> k a t = (Inr b, u))"
  by (auto simp: se_bind_def split: prod.splits sum.splits)

lemma se_then_ok [se_simps]:
  "se_then m k s = (Inr b, u) \<longleftrightarrow> (\<exists>t. m s = (Inr (), t) \<and> k t = (Inr b, u))"
  by (auto simp: se_then_def se_bind_ok)

lemma se_return_ok [se_simps]: "se_return a s = (Inr b, t) \<longleftrightarrow> b = a \<and> t = s"
  by (auto simp: se_return_def)

lemma se_fail_ok [se_simps]: "se_fail e s = (Inr b, t) \<longleftrightarrow> False"
  by (simp add: se_fail_def)

lemma se_need_ok [se_simps]: "se_need f s = (Inr a, t) \<longleftrightarrow> f s = Inr a \<and> t = s"
  by (auto simp: se_need_def)

lemma se_guard_ok [se_simps]: "se_guard e c s = (Inr a, t) \<longleftrightarrow> c s \<and> t = s"
  by (auto simp: se_guard_def)

lemma se_modify_ok [se_simps]: "se_modify f s = (Inr a, t) \<longleftrightarrow> t = f s"
  by (auto simp: se_modify_def)

lemma se_ignore_ok [se_simps]: "se_ignore m s = (Inr a, t) \<longleftrightarrow> t = snd (m s)"
  by (auto simp: se_ignore_def)

lemma on_fst_ok [se_simps]: "on_fst m (s, t) = (Inr a, (s', t')) \<longleftrightarrow> m s = (Inr a, s') \<and> t' = t"
  by (auto simp: on_fst_def split: prod.splits)

lemma on_snd_ok [se_simps]: "on_snd m (s, t) = (Inr a, (s', t')) \<longleftrightarrow> m t = (Inr a, t') \<and> s' = s"
  by (auto simp: on_snd_def split: prod.splits)

lemma se_run_ok [se_simps]: "se_run m s = Inr t \<longleftrightarrow> m s = (Inr (), t)"
  by (auto simp: se_run_def split: prod.splits sum.splits)

lemma if_fail_ok [se_simps]:
  "(if c then se_fail e else m) s = (Inr b, t) \<longleftrightarrow> \<not> c \<and> m s = (Inr b, t)"
  by (simp add: se_fail_def)

lemma se_for_inv:
  assumes "se_for f xs s = (Inr (), t)" and "P s"
    and "\<And>x u v. x \<in> set xs \<Longrightarrow> P u \<Longrightarrow> f x u = (Inr (), v) \<Longrightarrow> P v"
  shows "P t"
  using assms by (induction xs arbitrary: s) (auto simp: se_simps)

text \<open>What every outcome of a transformer keeps, failures included.\<close>

definition se_keeps :: "('s \<Rightarrow> bool) \<Rightarrow> ('s, 'a) se \<Rightarrow> bool" where
  "se_keeps P m \<longleftrightarrow> (\<forall>s. P s \<longrightarrow> P (snd (m s)))"

named_theorems se_keep \<open>transformers that keep an invariant on success and on failure\<close>

lemma se_keeps_return [se_keep]: "se_keeps P (se_return a)"
  by (simp add: se_keeps_def se_return_def)

lemma se_keeps_fail [se_keep]: "se_keeps P (se_fail e)"
  by (simp add: se_keeps_def se_fail_def)

lemma se_keeps_need [se_keep]: "se_keeps P (se_need f)"
  by (simp add: se_keeps_def se_need_def)

lemma se_keeps_guard [se_keep]: "se_keeps P (se_guard e c)"
  by (simp add: se_keeps_def se_guard_def)

lemma se_keeps_bind [se_keep]: "se_keeps P m \<Longrightarrow> (\<And>a. se_keeps P (k a)) \<Longrightarrow> se_keeps P (se_bind m k)"
  by (auto simp: se_keeps_def se_bind_def split: prod.splits sum.splits)

lemma se_keeps_then [se_keep]: "se_keeps P m \<Longrightarrow> se_keeps P k \<Longrightarrow> se_keeps P (se_then m k)"
  by (simp add: se_then_def se_keeps_bind)

lemma se_keeps_ignore [se_keep]: "se_keeps P m \<Longrightarrow> se_keeps P (se_ignore m)"
  by (simp add: se_keeps_def se_ignore_def)

lemma se_keeps_for [se_keep]: "(\<And>x. se_keeps P (f x)) \<Longrightarrow> se_keeps P (se_for f xs)"
  by (induction xs) (auto intro: se_keep)

lemma se_keeps_if [se_keep]:
  "(c \<Longrightarrow> se_keeps P m) \<Longrightarrow> (\<not> c \<Longrightarrow> se_keeps P k) \<Longrightarrow> se_keeps P (if c then m else k)"
  by simp

end
