(* ===== verification/Connect.thy ===== *)
theory Connect
  imports Coins StateErr
begin

text \<open>
  \<open>connect_tx_utxos\<close> of \<open>src/lib.rs\<close> as it works in place: what the UTXO map holds when the
  function fails matters to the callers that drop the error and go on with the map. The lemma says
  that on success it is the function \<open>Coins\<close> models, so every property of that one carries over.
  The record of a chain state is here as well.
\<close>

record chain_state =
  cs_network :: string
  cs_blocks :: "block list"
  cs_utxos :: utxo_map
  cs_mempool :: "transaction list"

definition chain_height :: "chain_state \<Rightarrow> u32" where
  "chain_height c = of_nat (length (cs_blocks c) - 1)"

definition spend_in_place :: "tx_in \<Rightarrow> (utxo_map, unit) se" where
  "spend_in_place input =
     se_then (se_guard (TxErr MissingUtxoDuringConnect) (\<lambda>u. fmlookup u (previous_output input) \<noteq> None))
       (se_modify (fmdrop (previous_output input)))"

definition create_in_place :: "hash256 \<Rightarrow> u32 \<Rightarrow> bool \<Rightarrow> nat \<times> tx_out \<Rightarrow> (utxo_map, unit) se" where
  "create_in_place tid height cb vo = (case vo of (vout, out) \<Rightarrow>
     se_bind (se_need (\<lambda>u. Inr (fmlookup u (OutPoint tid (of_nat vout))))) (\<lambda>old.
     se_then (se_modify (fmupd (OutPoint tid (of_nat vout))
         \<lparr>coin_out = out, coin_height = height, coin_is_coinbase = cb\<rparr>))
       (if old \<noteq> None then se_fail (TxErr DuplicateCreatedOutpoint) else se_return ())))"

definition connect_in_place :: "extern \<Rightarrow> transaction \<Rightarrow> u32 \<Rightarrow> bool \<Rightarrow> (utxo_map, unit) se" where
  "connect_in_place X tx height cb =
     (if is_pool_share_transaction tx then se_return () else
      se_then (if \<not> cb then se_for spend_in_place (tx_inputs tx) else se_return ())
        (se_for (create_in_place (txid X tx) height cb) (enumerate 0 (tx_outputs tx))))"

lemma spend_in_place_run: "se_run (spend_in_place i) u = spend_input i u"
  by (simp add: spend_in_place_def spend_input_def se_run_def se_then_def se_bind_def se_guard_def se_modify_def
      split: option.splits)

lemma create_in_place_run: "se_run (create_in_place tid h cb vo) u = create_output tid h cb vo u"
  by (cases vo) (simp add: create_in_place_def create_output_def se_run_def se_then_def se_bind_def se_need_def
      se_modify_def se_fail_def se_return_def)

lemma se_run_then: "se_run (se_then m k) s = rbind (se_run m s) (se_run k)"
  by (auto simp: se_run_def se_then_def se_bind_def split: prod.splits sum.splits)

lemma se_run_for: "se_run (se_for f xs) s = fold_r (\<lambda>x. se_run (f x)) xs s"
proof (induction xs arbitrary: s)
  case (Cons x xs)
  then have "se_run (se_for f xs) = fold_r (\<lambda>x. se_run (f x)) xs" by (rule ext)
  then show ?case by (simp add: se_run_then)
qed (simp add: se_run_def se_return_def)

lemma connect_in_place_run:
  "se_run (connect_in_place X tx h cb) u = connect_tx_utxos X tx h cb u"
proof -
  have "se_run (se_return ()) u = Inr u" by (simp add: se_run_def se_return_def)
  moreover have "(\<lambda>vo. se_run (create_in_place t h cb vo)) = create_output t h cb" for t
    by (intro ext) (simp add: create_in_place_run)
  then have "se_run (se_for (create_in_place t h cb) vos) = fold_r (create_output t h cb) vos" for t vos
    by (intro ext) (simp add: se_run_for)
  moreover have "(\<lambda>i. se_run (spend_in_place i)) = spend_input"
    by (intro ext) (simp add: spend_in_place_run)
  ultimately show ?thesis
    by (simp add: connect_in_place_def connect_tx_utxos_def se_run_then se_run_for)
qed

end
