(* ===== verification/Jin.thy ===== *)
theory Jin
  imports Qns Connect
begin

text \<open>
  The native JIN coin of \<open>src/lib.rs\<close>: transfer and conversion markers, and the ledger operations
  \<open>jin_credit\<close>, \<open>jin_debit\<close>, \<open>apply_jin_transfer\<close> and \<open>apply_jin_conversion\<close>. The ledger
  \<open>HashMap\<close> is a finite map from address text to units; an operation on it is a state transformer
  (\<open>StateErr\<close>). The lemmas give the change of the ledger's total for each operation, on success
  and on failure.
\<close>

section \<open>Markers\<close>

definition JIN_SCRIPT_PREFIX :: bytes where "JIN_SCRIPT_PREFIX = ''JIN1|''"

record jin_transfer =
  jt_from :: string
  jt_to :: string
  jt_amount_units :: u128
  jt_fee_units :: u128
  jt_fee_asset :: string

record jin_conversion =
  jc_from :: string
  jc_matrix_address :: string
  jc_amount_units :: u128
  jc_fee_units :: u128
  jc_fee_asset :: string

definition jin_active :: "settings \<Rightarrow> u32 \<Rightarrow> bool" where
  "jin_active S height \<longleftrightarrow>
     jin_enabled (jin S) \<and> feat_jin_native_coin_enabled (features S) \<and>
     height \<ge> jin_activation_height (jin S)"

definition jin_conversion_active :: "settings \<Rightarrow> u32 \<Rightarrow> bool" where
  "jin_conversion_active S height =
     (if \<not> (jin_enabled (jin S) \<and> feat_jin_native_coin_enabled (features S) \<and>
            height \<ge> jin_conversion_activation_height (jin S)) then False
      else if net_name (network S) = ''mainnet'' \<and> height \<ge> MAINNET_JIN_CONVERSION_DISABLE_HEIGHT then False
      else True)"

definition validate_matrix_address_like :: "string \<Rightarrow> string result" where
  "validate_matrix_address_like input =
     (let s = trim input in
      if length s < 16 \<or> length s > 128 then Inl (JinErr JinMatrixLength)
      else if \<not> list_all is_ascii_alphanumeric s then Inl (JinErr JinMatrixChars)
      else Inr s)"

definition jin_marker_script_transfer ::
  "extern \<Rightarrow> settings \<Rightarrow> address \<Rightarrow> address \<Rightarrow> u128 \<Rightarrow> u128 \<Rightarrow> string \<Rightarrow> script result" where
  "jin_marker_script_transfer X S from recipient amount_units fee_units fee_asset =
     (if addr_prefix from \<noteq> net_address_prefix (network S) \<or> addr_prefix recipient \<noteq> net_address_prefix (network S)
      then Inl (JinErr JinNetworkMismatch)
      else if amount_units = 0 then Inl (JinErr JinAmountZero)
      else if amount_units > JIN_TOTAL_SUPPLY_UNITS then Inl (JinErr JinExceedsSupply)
      else
        let fee_asset = to_ascii_uppercase (trim fee_asset) in
        if fee_asset \<noteq> ''QUB'' \<and> fee_asset \<noteq> ''JIN'' then Inl (JinErr JinFeeAsset)
        else if fee_asset = ''JIN'' \<and> \<not> jin_allow_fee_in_jin (jin S) then Inl (JinErr JinFeeDisabled)
        else Inr (pipes [''JIN1'', ''transfer'', address_to_string X from, address_to_string X recipient,
          show_word amount_units, show_word fee_units, fee_asset]))"

definition jin_marker_script_conversion ::
  "extern \<Rightarrow> settings \<Rightarrow> address \<Rightarrow> string \<Rightarrow> u128 \<Rightarrow> u128 \<Rightarrow> string \<Rightarrow> script result" where
  "jin_marker_script_conversion X S from matrix_address amount_units fee_units fee_asset =
     (if addr_prefix from \<noteq> net_address_prefix (network S) then Inl (JinErr JinNetworkMismatch)
      else if amount_units = 0 then Inl (JinErr JinAmountZero)
      else if amount_units > JIN_TOTAL_SUPPLY_UNITS then Inl (JinErr JinExceedsSupply)
      else if amount_units mod JIN_UNITS_PER_COIN \<noteq> 0 then Inl (JinErr JinConversionWhole)
      else rbind (validate_matrix_address_like matrix_address) (\<lambda>matrix_address.
        let fee_asset = to_ascii_uppercase (trim fee_asset) in
        if fee_asset \<noteq> ''QUB'' \<and> fee_asset \<noteq> ''JIN'' then Inl (JinErr JinFeeAsset)
        else if fee_asset = ''JIN'' \<and> \<not> jin_allow_fee_in_jin (jin S) then Inl (JinErr JinFeeDisabled)
        else Inr (pipes [''JIN1'', ''convert-token'', address_to_string X from, matrix_address,
          show_word amount_units, show_word fee_units, fee_asset])))"

definition parse_jin_marker_script :: "extern \<Rightarrow> script \<Rightarrow> settings \<Rightarrow> jin_transfer option" where
  "parse_jin_marker_script X b S =
     (if \<not> starts_with b JIN_SCRIPT_PREFIX then None else
      Option.bind (from_utf8 b) (\<lambda>s.
      case split_on (CHR ''|'') s of
        [f0, f1, f2, f3, f4, f5, f6] \<Rightarrow>
          let from = trim f2; recipient = trim f3; fee_asset = to_ascii_uppercase (trim f6) in
          if f0 \<noteq> ''JIN1'' \<or> f1 \<noteq> ''transfer'' \<or>
             \<not> is_ok (parse_with_prefix X from (net_address_prefix (network S))) \<or>
             \<not> is_ok (parse_with_prefix X recipient (net_address_prefix (network S)))
          then None
          else Option.bind (parse_uint f4) (\<lambda>amount_units.
               Option.bind (parse_uint f5) (\<lambda>fee_units.
               if fee_asset \<noteq> ''QUB'' \<and> fee_asset \<noteq> ''JIN'' then None
               else Some \<lparr>jt_from = from, jt_to = recipient, jt_amount_units = amount_units,
                 jt_fee_units = fee_units, jt_fee_asset = fee_asset\<rparr>))
      | _ \<Rightarrow> None))"

definition parse_jin_conversion_script :: "extern \<Rightarrow> script \<Rightarrow> settings \<Rightarrow> jin_conversion option" where
  "parse_jin_conversion_script X b S =
     (if \<not> starts_with b JIN_SCRIPT_PREFIX then None else
      Option.bind (from_utf8 b) (\<lambda>s.
      case split_on (CHR ''|'') s of
        [f0, f1, f2, f3, f4, f5, f6] \<Rightarrow>
          let from = trim f2; matrix_address = trim f3; fee_asset = to_ascii_uppercase (trim f6) in
          if f0 \<noteq> ''JIN1'' \<or> f1 \<noteq> ''convert-token'' \<or>
             \<not> is_ok (parse_with_prefix X from (net_address_prefix (network S))) \<or>
             \<not> is_ok (validate_matrix_address_like matrix_address)
          then None
          else Option.bind (parse_uint f4) (\<lambda>amount_units.
               Option.bind (parse_uint f5) (\<lambda>fee_units.
               if fee_asset \<noteq> ''QUB'' \<and> fee_asset \<noteq> ''JIN'' then None
               else Some \<lparr>jc_from = from, jc_matrix_address = matrix_address,
                 jc_amount_units = amount_units, jc_fee_units = fee_units, jc_fee_asset = fee_asset\<rparr>))
      | _ \<Rightarrow> None))"

text \<open>\<open>enumerate().filter_map(parse)\<close> over the outputs, shared by the marker kinds.\<close>

definition markers_in :: "(script \<Rightarrow> 'm option) \<Rightarrow> transaction \<Rightarrow> (nat \<times> 'm \<times> u64) list" where
  "markers_in parse tx =
     List.map_filter (\<lambda>(idx, out). map_option (\<lambda>m. (idx, m, out_value out)) (parse (script_pubkey out)))
       (enumerate 0 (tx_outputs tx))"

definition jin_transfers_in_tx :: "extern \<Rightarrow> transaction \<Rightarrow> settings \<Rightarrow> (nat \<times> jin_transfer \<times> u64) list" where
  "jin_transfers_in_tx X tx S = markers_in (\<lambda>s. parse_jin_marker_script X s S) tx"

definition jin_conversions_in_tx :: "extern \<Rightarrow> transaction \<Rightarrow> settings \<Rightarrow> (nat \<times> jin_conversion \<times> u64) list" where
  "jin_conversions_in_tx X tx S = markers_in (\<lambda>s. parse_jin_conversion_script X s S) tx"

definition block_jin_fee_units :: "extern \<Rightarrow> settings \<Rightarrow> block \<Rightarrow> u128" where
  "block_jin_fee_units X S b =
     foldl sat_add 0
       (map (\<lambda>tx.
          sat_add
            (foldl sat_add 0 (map (\<lambda>(_, t, _). jt_fee_units t)
              (filter (\<lambda>(_, t, _). jt_fee_asset t = ''JIN'') (jin_transfers_in_tx X tx S))))
            (foldl sat_add 0 (map (\<lambda>(_, t, _). jc_fee_units t)
              (filter (\<lambda>(_, t, _). jc_fee_asset t = ''JIN'') (jin_conversions_in_tx X tx S)))))
        (drop 1 (blk_transactions b)))"

section \<open>The ledger\<close>

type_synonym jin_ledger = "(string, u128) fmap"

definition jin_credit :: "string \<Rightarrow> u128 \<Rightarrow> (jin_ledger, unit) se" where
  "jin_credit a units =
     se_bind (se_need (\<lambda>map. ok_or (JinErr JinBalanceOverflow) (checked_add (get_or0 map a) units))) (\<lambda>v.
     se_modify (fmupd a v))"

definition jin_debit :: "string \<Rightarrow> u128 \<Rightarrow> (jin_ledger, unit) se" where
  "jin_debit a units =
     se_then (se_guard (JinErr JinInsufficient) (\<lambda>map. \<not> get_or0 map a < units))
       (se_modify (\<lambda>map. fmupd a (get_or0 map a - units) map))"

definition apply_jin_transfer :: "jin_transfer \<Rightarrow> string option \<Rightarrow> (jin_ledger, unit) se" where
  "apply_jin_transfer t miner =
     se_bind (if jt_fee_asset t = ''JIN''
         then se_need (\<lambda>_. ok_or (JinErr JinFeeOverflow) (checked_add (jt_amount_units t) (jt_fee_units t)))
         else se_return (jt_amount_units t)) (\<lambda>debit.
     se_then (jin_debit (jt_from t) debit)
    (se_then (jin_credit (jt_to t) (jt_amount_units t))
       (if jt_fee_asset t = ''JIN'' \<and> jt_fee_units t > 0
        then (case miner of Some m \<Rightarrow> jin_credit m (jt_fee_units t) | None \<Rightarrow> se_return ())
        else se_return ())))"

definition apply_jin_conversion ::
  "settings \<Rightarrow> jin_conversion \<Rightarrow> string option \<Rightarrow> (jin_ledger, unit) se" where
  "apply_jin_conversion S c miner =
     se_bind (if jc_fee_asset c = ''JIN''
         then se_need (\<lambda>_. ok_or (JinErr JinConversionFeeOverflow) (checked_add (jc_amount_units c) (jc_fee_units c)))
         else se_return (jc_amount_units c)) (\<lambda>debit.
     se_then (jin_debit (jc_from c) debit)
    (se_then (jin_credit (jin_protocol_address (jin S)) (jc_amount_units c))
       (if jc_fee_asset c = ''JIN'' \<and> jc_fee_units c > 0
        then (case miner of Some m \<Rightarrow> jin_credit m (jc_fee_units c) | None \<Rightarrow> se_return ())
        else se_return ())))"

definition input_authorizes_address :: "transaction \<Rightarrow> utxo_map \<Rightarrow> address \<Rightarrow> bool" where
  "input_authorizes_address tx base_utxos a \<longleftrightarrow>
     list_ex (\<lambda>input. case fmlookup base_utxos (previous_output input) of
         Some coin \<Rightarrow> script_pubkey (coin_out coin) = address_script_pubkey a
       | None \<Rightarrow> False) (tx_inputs tx)"

section \<open>Totals of the ledger\<close>

definition jin_total :: "jin_ledger \<Rightarrow> nat" where
  "jin_total l = fm_total unat l"

lemma jin_credit_ok:
  "jin_credit a u l = (Inr (), l') \<longleftrightarrow>
    (\<exists>v. unat v = unat (get_or0 l a) + unat u \<and> l' = fmupd a v l)"
  by (auto simp: jin_credit_def se_simps result_simps checked_add_Some)

lemma jin_credit_total: "jin_credit a u l = (Inr (), l') \<Longrightarrow> jin_total l' = jin_total l + unat u"
proof -
  assume "jin_credit a u l = (Inr (), l')"
  then obtain v where v: "unat v = unat (get_or0 l a) + unat u" "l' = fmupd a v l" by (auto simp: jin_credit_ok)
  then show ?thesis using fm_total_upd0 [of unat a v l] by (simp add: jin_total_def)
qed

lemma jin_debit_ok:
  "jin_debit a u l = (Inr (), l') \<longleftrightarrow> u \<le> get_or0 l a \<and> l' = fmupd a (get_or0 l a - u) l"
  by (auto simp: jin_debit_def se_simps)

lemma jin_debit_total: "jin_debit a u l = (Inr (), l') \<Longrightarrow> jin_total l' + unat u = jin_total l"
proof -
  assume d: "jin_debit a u l = (Inr (), l')"
  then have le: "u \<le> get_or0 l a" and l': "l' = fmupd a (get_or0 l a - u) l" by (simp_all add: jin_debit_ok)
  have "unat (get_or0 l a - u) + unat u = unat (get_or0 l a)"
    using le by (simp add: unat_sub word_le_nat_alt)
  then show ?thesis using fm_total_upd0 [of unat a "get_or0 l a - u" l] by (simp add: l' jin_total_def)
qed

text \<open>A failed credit or debit leaves the ledger as it was.\<close>

lemma jin_credit_fail: "jin_credit a u l = (Inl e, l') \<Longrightarrow> l' = l"
  by (auto simp: jin_credit_def se_bind_def se_need_def se_modify_def split: sum.splits)

lemma jin_debit_fail: "jin_debit a u l = (Inl e, l') \<Longrightarrow> l' = l"
  by (auto simp: jin_debit_def se_then_def se_bind_def se_guard_def se_modify_def split: if_splits)

lemma jin_transfer_total:
  assumes "apply_jin_transfer t miner l = (Inr (), l')"
  shows "jin_total l' + (if jt_fee_asset t = ''JIN'' \<and> miner = None then unat (jt_fee_units t) else 0) = jin_total l"
  using assms
  by (auto simp: apply_jin_transfer_def se_simps result_simps checked_add_Some word_gt_0
      dest!: jin_debit_total jin_credit_total split: if_splits option.splits)

lemma jin_conversion_total:
  assumes "apply_jin_conversion S c miner l = (Inr (), l')"
  shows "jin_total l' + (if jc_fee_asset c = ''JIN'' \<and> miner = None then unat (jc_fee_units c) else 0) = jin_total l"
  using assms
  by (auto simp: apply_jin_conversion_def se_simps result_simps checked_add_Some word_gt_0
      dest!: jin_debit_total jin_credit_total split: if_splits option.splits)

lemma jin_credit_other: "jin_credit a u l = (Inr (), l') \<Longrightarrow> b \<noteq> a \<Longrightarrow> get_or0 l' b = get_or0 l b"
  by (auto simp: jin_credit_ok)

lemma jin_debit_other: "jin_debit a u l = (Inr (), l') \<Longrightarrow> b \<noteq> a \<Longrightarrow> get_or0 l' b = get_or0 l b"
  by (auto simp: jin_debit_ok)

text \<open>
  A JIN transfer moves units and creates none: it needs the amount, plus the fee when that is
  paid in JIN, on the sender's balance; afterwards the total of the ledger is the same, less a JIN
  fee no miner receives; and the balance of everyone but sender, recipient and miner is untouched.
\<close>

theorem jin_transfer_conserves:
  assumes "apply_jin_transfer t miner l = (Inr (), l')"
  defines "fee \<equiv> (if jt_fee_asset t = ''JIN'' then unat (jt_fee_units t) else 0)"
  shows "unat (jt_amount_units t) + fee \<le> unat (get_or0 l (jt_from t)) \<and>
    jin_total l' + (if miner = None then fee else 0) = jin_total l \<and>
    (\<forall>a. a \<noteq> jt_from t \<and> a \<noteq> jt_to t \<and> miner \<noteq> Some a \<longrightarrow> get_or0 l' a = get_or0 l a)"
proof (intro conjI)
  show "unat (jt_amount_units t) + fee \<le> unat (get_or0 l (jt_from t))"
    using assms by (auto simp: apply_jin_transfer_def se_simps result_simps checked_add_Some
        jin_debit_ok word_le_nat_alt fee_def split: if_splits)
  show "jin_total l' + (if miner = None then fee else 0) = jin_total l"
    using jin_transfer_total [OF assms(1)] by (auto simp: fee_def split: if_splits)
  show "\<forall>a. a \<noteq> jt_from t \<and> a \<noteq> jt_to t \<and> miner \<noteq> Some a \<longrightarrow> get_or0 l' a = get_or0 l a"
    using assms(1) by (auto simp: apply_jin_transfer_def se_simps result_simps jin_credit_other jin_debit_other
        split: if_splits option.splits)
qed

definition ex_transfer :: jin_transfer where
  "ex_transfer = \<lparr>jt_from = ''a'', jt_to = ''b'', jt_amount_units = 30, jt_fee_units = 2, jt_fee_asset = ''JIN''\<rparr>"

lemma ex_transfer_runs:
  "\<exists>l'. apply_jin_transfer ex_transfer (Some ''m'') (fmupd ''a'' 40 fmempty) = (Inr (), l')"
  by (simp add: apply_jin_transfer_def ex_transfer_def se_bind_def se_then_def se_need_def checked_add_def
      jin_debit_def jin_credit_def se_guard_def se_modify_def)

lemma jin_transfer_conserves_witness:
  "\<exists>l'. apply_jin_transfer ex_transfer (Some ''m'') (fmupd ''a'' 40 fmempty) = (Inr (), l') \<and>
    jin_total l' = jin_total (fmupd ''a'' 40 fmempty)"
proof -
  obtain l' where l': "apply_jin_transfer ex_transfer (Some ''m'') (fmupd ''a'' 40 fmempty) = (Inr (), l')"
    using ex_transfer_runs by blast
  with jin_transfer_conserves [OF l'] show ?thesis by auto
qed

section \<open>Reading markers back\<close>

lemma plain_jin_words:
  "plain_field ''JIN1''" "plain_field ''transfer''" "plain_field ''convert-token''"
  "plain_field ''QUB''" "plain_field ''JIN''"
  by (simp_all add: plain_field_def is_ascii_graphic_def)

lemma fee_asset_fixed:
  assumes "a = ''QUB'' \<or> a = ''JIN''"
  shows "to_ascii_uppercase (trim a) = a" and "plain_field a"
  using assms plain_jin_words by (auto simp: trim_asset upper_asset)

lemma address_ok:
  "extern_ok X \<Longrightarrow> wf_address a \<Longrightarrow> addr_prefix a = p \<Longrightarrow> is_ok (parse_with_prefix X (address_to_string X a) p)"
  using parse_with_prefix_to_string [of X a] by (auto simp: is_ok_iff)

text \<open>
  The transfer marker the wallet builds is read back by the node as the same transfer: sender,
  recipient, amount, fee and fee asset.
\<close>

theorem jin_transfer_marker_roundtrip:
  assumes "extern_ok X" and "wf_address from" and "wf_address recipient"
    and "jin_marker_script_transfer X S from recipient amount fee asset = Inr s"
  shows "parse_jin_marker_script X s S =
    Some \<lparr>jt_from = address_to_string X from, jt_to = address_to_string X recipient,
      jt_amount_units = amount, jt_fee_units = fee, jt_fee_asset = to_ascii_uppercase (trim asset)\<rparr>"
proof -
  let ?a = "to_ascii_uppercase (trim asset)"
  let ?fs = "[''JIN1'', ''transfer'', address_to_string X from, address_to_string X recipient,
    show_word amount, show_word fee, ?a]"
  have p: "addr_prefix from = net_address_prefix (network S)" "addr_prefix recipient = net_address_prefix (network S)"
    and a: "?a = ''QUB'' \<or> ?a = ''JIN''" and s: "s = pipes ?fs"
    using assms(4) by (auto simp: jin_marker_script_transfer_def Let_def split: if_splits)
  note fa = fee_asset_fixed [OF a]
  have "list_all plain_field ?fs"
    using fa(2) plain_jin_words plain_address [OF assms(1,2)] plain_address [OF assms(1,3)] by simp
  then have r: "from_utf8 s = Some s" "split_on (CHR ''|'') s = ?fs"
    using pipes_read_back [of ?fs] by (simp_all add: s)
  have "starts_with s JIN_SCRIPT_PREFIX" by (simp add: s starts_with_def JIN_SCRIPT_PREFIX_def pipes_def)
  then show ?thesis
    using a fa(1) trim_address [OF assms(1,2)] trim_address [OF assms(1,3)]
      address_ok [OF assms(1,2) p(1)] address_ok [OF assms(1,3) p(2)]
    by (simp add: parse_jin_marker_script_def r Let_def)
qed

lemma jin_transfer_marker_roundtrip_witness:
  "\<exists>s. jin_marker_script_transfer ref_extern (example_settings ''mainnet'') (ex_addr (CHR ''x'')) (ex_addr (CHR ''y''))
      7 1 ''JIN'' = Inr s \<and>
    parse_jin_marker_script ref_extern s (example_settings ''mainnet'') \<noteq> None"
proof -
  obtain s where s: "jin_marker_script_transfer ref_extern (example_settings ''mainnet'') (ex_addr (CHR ''x''))
      (ex_addr (CHR ''y'')) 7 1 ''JIN'' = Inr s"
    by (simp add: jin_marker_script_transfer_def ex_addr_wf ex_network_def ex_jin_def trim_asset upper_asset
        JIN_TOTAL_SUPPLY_UNITS_val Let_def)
  with jin_transfer_marker_roundtrip [OF ref_extern_ok ex_addr_wf(1) ex_addr_wf(1) s] show ?thesis by simp
qed

end
