(* ===== verification/Infusion.thy ===== *)
theory Infusion
  imports Jin
begin

text \<open>
  Infusion of JIN into QUB (\<open>src/lib.rs\<close>): the infusion state, the bootstrap at the activation
  height, infusing and melting, the markers, and the state rebuilt from the blocks. Every QUB atom
  of the true maximum supply carries \<open>units_per_qub_atom\<close> JIN units; the invariant says that the
  active reserve is exactly that many units for every atom not melted.
\<close>

section \<open>Model\<close>

definition QUB_JIN_INFUSION_SCRIPT_PREFIX :: bytes where "QUB_JIN_INFUSION_SCRIPT_PREFIX = ''QUBJIN1|''"

datatype infusion_marker =
  InfuseJin (im_from: string) (im_amount_units: u128)
| MeltQub (im_from: string) (im_qub_atoms: u64) (im_min_jin_units: u128)

record infusion_state =
  inf_active :: bool
  inf_activation_height :: u32
  inf_melted_qub_atoms :: u64
  inf_true_max_qub_atoms :: u64
  inf_lifetime_infused :: u128
  inf_active_infused :: u128
  inf_units_per_qub_atom :: u128
  inf_bootstrap_units :: u128

definition qub_jin_infusion_activation_height :: "settings \<Rightarrow> u32" where
  "qub_jin_infusion_activation_height S =
     (if net_name (network S) = ''mainnet'' then MAINNET_QUB_JIN_INFUSION_ACTIVATION_HEIGHT else U32_MAX)"

definition qub_jin_sale_reserve_lock_height :: "settings \<Rightarrow> u32" where
  "qub_jin_sale_reserve_lock_height S =
     (if net_name (network S) = ''mainnet'' then MAINNET_QUB_JIN_SALE_RESERVE_LOCK_HEIGHT else U32_MAX)"

definition qub_jin_bootstrap_units :: "settings \<Rightarrow> u128" where
  "qub_jin_bootstrap_units S =
     (if net_name (network S) = ''mainnet'' then QUB_JIN_BOOTSTRAP_INFUSION_UNITS else 0)"

definition infusion_inactive :: "settings \<Rightarrow> infusion_state" where
  "infusion_inactive S =
     \<lparr>inf_active = False, inf_activation_height = qub_jin_infusion_activation_height S,
      inf_melted_qub_atoms = 0, inf_true_max_qub_atoms = MAX_MONEY_ATOMS, inf_lifetime_infused = 0,
      inf_active_infused = 0, inf_units_per_qub_atom = 0, inf_bootstrap_units = qub_jin_bootstrap_units S\<rparr>"

definition qub_jin_infusion_active :: "settings \<Rightarrow> u32 \<Rightarrow> bool" where
  "qub_jin_infusion_active S height \<longleftrightarrow>
     jin_enabled (jin S) \<and> feat_jin_native_coin_enabled (features S) \<and>
     net_name (network S) = ''mainnet'' \<and> height \<ge> qub_jin_infusion_activation_height S"

definition qub_jin_bootstrap_units_per_atom :: "settings \<Rightarrow> u128 result" where
  "qub_jin_bootstrap_units_per_atom S =
     (let units = qub_jin_bootstrap_units S; denom = ucast MAX_MONEY_ATOMS in
      if units = 0 then Inr 0
      else if units mod denom \<noteq> 0 then Inl (InfusionErr InfBootstrapNotExact)
      else Inr (units div denom))"

definition qub_jin_infuse_marker_script :: "extern \<Rightarrow> settings \<Rightarrow> address \<Rightarrow> u128 \<Rightarrow> script result" where
  "qub_jin_infuse_marker_script X S from amount_units =
     (if addr_prefix from \<noteq> net_address_prefix (network S) then Inl (InfusionErr InfNetworkMismatch)
      else if amount_units = 0 then Inl (InfusionErr InfAmountZero)
      else if amount_units > JIN_TOTAL_SUPPLY_UNITS then Inl (InfusionErr InfExceedsSupply)
      else Inr (pipes [''QUBJIN1'', ''infuse-jin'', ''v1'', address_to_string X from, show_word amount_units]))"

definition qub_jin_melt_marker_script ::
  "extern \<Rightarrow> settings \<Rightarrow> address \<Rightarrow> u64 \<Rightarrow> u128 \<Rightarrow> script result" where
  "qub_jin_melt_marker_script X S from qub_atoms min_jin_units =
     (if addr_prefix from \<noteq> net_address_prefix (network S) then Inl (InfusionErr InfNetworkMismatch)
      else if qub_atoms = 0 then Inl (InfusionErr MeltAmountZero)
      else if qub_atoms > MAX_MONEY_ATOMS then Inl (InfusionErr MeltExceedsMax)
      else Inr (pipes [''QUBJIN1'', ''melt-qub'', ''v1'', address_to_string X from,
        show_word qub_atoms, show_word min_jin_units]))"

definition parse_qub_jin_infusion_script :: "extern \<Rightarrow> script \<Rightarrow> settings \<Rightarrow> infusion_marker option" where
  "parse_qub_jin_infusion_script X b S =
     Option.bind (from_utf8 b) (\<lambda>raw.
     if \<not> starts_with raw QUB_JIN_INFUSION_SCRIPT_PREFIX then None else
     let address_text = (\<lambda>f. map_option (address_to_string X)
           (to_option (parse_with_prefix X f (net_address_prefix (network S))))) in
     case split_on (CHR ''|'') raw of
       [f0, op, v, f3, f4] \<Rightarrow>
         if f0 \<noteq> ''QUBJIN1'' \<or> v \<noteq> ''v1'' \<or> op \<noteq> ''infuse-jin'' then None else
         Option.bind (address_text f3) (\<lambda>from.
         Option.bind (parse_uint f4) (\<lambda>amount_units. Some (InfuseJin from amount_units)))
     | [f0, op, v, f3, f4, f5] \<Rightarrow>
         if f0 \<noteq> ''QUBJIN1'' \<or> v \<noteq> ''v1'' \<or> op \<noteq> ''melt-qub'' then None else
         Option.bind (address_text f3) (\<lambda>from.
         Option.bind (parse_uint f4) (\<lambda>qub_atoms.
         Option.bind (parse_uint f5) (\<lambda>min_jin_units. Some (MeltQub from qub_atoms min_jin_units))))
     | _ \<Rightarrow> None)"

definition qub_jin_infusion_markers_in_tx ::
  "extern \<Rightarrow> transaction \<Rightarrow> settings \<Rightarrow> (nat \<times> infusion_marker \<times> u64) list" where
  "qub_jin_infusion_markers_in_tx X tx S = markers_in (\<lambda>s. parse_qub_jin_infusion_script X s S) tx"

definition is_qub_jin_infusion_transaction :: "extern \<Rightarrow> transaction \<Rightarrow> settings \<Rightarrow> bool" where
  "is_qub_jin_infusion_transaction X tx S \<longleftrightarrow> qub_jin_infusion_markers_in_tx X tx S \<noteq> []"

text \<open>\<open>state.field = state.field.checked_add(v).context(e)?\<close> for the three counters.\<close>

definition add_lifetime :: "err \<Rightarrow> u128 \<Rightarrow> (infusion_state, unit) se" where
  "add_lifetime e v =
     se_bind (se_need (\<lambda>s. ok_or e (checked_add (inf_lifetime_infused s) v))) (\<lambda>w.
     se_modify (inf_lifetime_infused_update (\<lambda>_. w)))"

definition add_active :: "err \<Rightarrow> u128 \<Rightarrow> (infusion_state, unit) se" where
  "add_active e v =
     se_bind (se_need (\<lambda>s. ok_or e (checked_add (inf_active_infused s) v))) (\<lambda>w.
     se_modify (inf_active_infused_update (\<lambda>_. w)))"

definition add_per_atom :: "err \<Rightarrow> u128 \<Rightarrow> (infusion_state, unit) se" where
  "add_per_atom e v =
     se_bind (se_need (\<lambda>s. ok_or e (checked_add (inf_units_per_qub_atom s) v))) (\<lambda>w.
     se_modify (inf_units_per_qub_atom_update (\<lambda>_. w)))"

text \<open>The three counters the bootstrap raises, in the order of the source.\<close>

definition bootstrap_counters :: "u128 \<Rightarrow> u128 \<Rightarrow> (infusion_state, unit) se" where
  "bootstrap_counters bootstrap per_atom =
     se_then (add_lifetime (InfusionErr InfLifetimeOverflow) bootstrap)
    (se_then (add_active (InfusionErr InfActiveOverflow) bootstrap)
       (add_per_atom (InfusionErr InfPerAtomOverflow) per_atom))"

type_synonym jin_state = "jin_ledger \<times> infusion_state"

definition qub_jin_apply_bootstrap :: "settings \<Rightarrow> (jin_state, unit) se" where
  "qub_jin_apply_bootstrap S = (\<lambda>(ledger, state).
     if inf_active state then (Inr (), (ledger, state)) else
     (let bootstrap = qub_jin_bootstrap_units S in
      se_then (se_modify (\<lambda>(l, st). (l, st\<lparr>inf_active := True\<rparr>)))
        (if bootstrap = 0 then se_return () else
         se_bind (se_need (\<lambda>_. qub_jin_bootstrap_units_per_atom S)) (\<lambda>per_atom.
         se_then (on_fst (jin_debit (jin_protocol_address (jin S)) bootstrap))
        (se_then (on_fst (jin_credit QUB_JIN_INFUSION_VAULT bootstrap))
           (on_snd (bootstrap_counters bootstrap per_atom)))))) (ledger, state))"

definition qub_jin_apply_bootstrap_for_context :: "settings \<Rightarrow> u32 \<Rightarrow> u32 \<Rightarrow> (jin_state, unit) se" where
  "qub_jin_apply_bootstrap_for_context S prior_visible_height spend_height =
     (if qub_jin_infusion_active S spend_height \<and>
         prior_visible_height < qub_jin_infusion_activation_height S
      then qub_jin_apply_bootstrap S else se_return ())"

definition qub_jin_apply_infuse_units :: "u128 \<Rightarrow> (infusion_state, u128) se" where
  "qub_jin_apply_infuse_units amount_units =
     (if amount_units = 0 then se_fail (InfusionErr InfAmountZero) else
      se_bind (se_need (\<lambda>s. Inr (ucast (inf_true_max_qub_atoms s)))) (\<lambda>denom.
      if denom = 0 then se_fail (InfusionErr InfAllMelted)
      else if amount_units mod denom \<noteq> 0 then se_fail (InfusionErr InfNotDivisible)
      else let delta_per_atom = amount_units div denom in
        if delta_per_atom = 0 then se_fail (InfusionErr InfBelowOneUnit) else
        se_then (add_per_atom (InfusionErr InfPerAtomOverflow) delta_per_atom)
       (se_then (add_lifetime (InfusionErr InfLifetimeOverflow) amount_units)
       (se_then (add_active (InfusionErr InfActiveOverflow) amount_units)
          (se_return delta_per_atom)))))"

definition qub_jin_apply_melt_atoms :: "u64 \<Rightarrow> u128 \<Rightarrow> (infusion_state, u128) se" where
  "qub_jin_apply_melt_atoms qub_atoms min_jin_units =
     (if qub_atoms = 0 then se_fail (InfusionErr MeltAmountZero) else
      se_then (se_guard (InfusionErr MeltExceedsMax) (\<lambda>s. \<not> qub_atoms > inf_true_max_qub_atoms s))
     (se_then (se_guard (InfusionErr MeltUnavailable) (\<lambda>s. inf_units_per_qub_atom s \<noteq> 0))
     (se_bind (se_need (\<lambda>s. ok_or (InfusionErr MeltPayoutOverflow)
        (checked_mul (ucast qub_atoms) (inf_units_per_qub_atom s)))) (\<lambda>payout_units.
      if payout_units = 0 then se_fail (InfusionErr MeltPayoutZero)
      else if payout_units < min_jin_units then se_fail (InfusionErr MeltSlippage)
      else
        se_then (se_guard (InfusionErr MeltExceedsReserve) (\<lambda>s. \<not> inf_active_infused s < payout_units))
       (se_then (se_bind (se_need (\<lambda>s. ok_or (InfusionErr MeltedOverflow)
            (checked_add (inf_melted_qub_atoms s) qub_atoms))) (\<lambda>w. se_modify (inf_melted_qub_atoms_update (\<lambda>_. w))))
       (se_then (se_bind (se_need (\<lambda>s. ok_or (InfusionErr TrueMaxUnderflow)
            (checked_sub (inf_true_max_qub_atoms s) qub_atoms))) (\<lambda>w. se_modify (inf_true_max_qub_atoms_update (\<lambda>_. w))))
       (se_then (se_bind (se_need (\<lambda>s. ok_or (InfusionErr ActiveUnderflow)
            (checked_sub (inf_active_infused s) payout_units))) (\<lambda>w. se_modify (inf_active_infused_update (\<lambda>_. w))))
          (se_return payout_units))))))))"

definition qub_jin_apply_marker_to_state_only :: "infusion_marker \<Rightarrow> (infusion_state, unit) se" where
  "qub_jin_apply_marker_to_state_only marker =
     (case marker of
        InfuseJin _ amount_units \<Rightarrow> se_bind (qub_jin_apply_infuse_units amount_units) (\<lambda>_. se_return ())
      | MeltQub _ qub_atoms min_jin_units \<Rightarrow>
          se_bind (qub_jin_apply_melt_atoms qub_atoms min_jin_units) (\<lambda>_. se_return ()))"

definition qub_jin_apply_marker_unchecked :: "settings \<Rightarrow> infusion_marker \<Rightarrow> (jin_state, unit) se" where
  "qub_jin_apply_marker_unchecked S marker =
     se_then
       (case marker of
          InfuseJin from amount_units \<Rightarrow>
            se_bind (on_snd (qub_jin_apply_infuse_units amount_units)) (\<lambda>_.
            se_then (on_fst (jin_debit from amount_units))
              (on_fst (jin_credit QUB_JIN_INFUSION_VAULT amount_units)))
        | MeltQub from qub_atoms min_jin_units \<Rightarrow>
            se_bind (on_snd (qub_jin_apply_melt_atoms qub_atoms min_jin_units)) (\<lambda>payout_units.
            se_then (on_fst (jin_debit QUB_JIN_INFUSION_VAULT payout_units))
              (on_fst (jin_credit from payout_units))))
       (on_snd (se_guard (InfusionErr InfAccountingInvariant)
         (\<lambda>s. \<not> (net_name (network S) = ''mainnet'' \<and> inf_active_infused s > inf_lifetime_infused s))))"

definition infusion_apply_tx :: "extern \<Rightarrow> settings \<Rightarrow> transaction \<Rightarrow> (infusion_state, unit) se" where
  "infusion_apply_tx X S tx =
     se_for (\<lambda>(_, marker, marker_atoms).
       if marker_atoms \<noteq> jin_marker_output_atoms (jin S) then se_fail (InfusionErr InfMarkerAmount)
       else qub_jin_apply_marker_to_state_only marker) (qub_jin_infusion_markers_in_tx X tx S)"

definition infusion_apply_block ::
  "extern \<Rightarrow> settings \<Rightarrow> nat \<times> block \<Rightarrow> infusion_state \<Rightarrow> infusion_state result" where
  "infusion_apply_block X S hb = (case hb of (n, b) \<Rightarrow>
     let height = of_nat n in
     se_run (se_then
       (if height = qub_jin_infusion_activation_height S then
          se_then (se_modify (inf_active_update (\<lambda>_. True)))
            (se_bind (se_need (\<lambda>_. qub_jin_bootstrap_units_per_atom S)) (\<lambda>per_atom.
               bootstrap_counters (qub_jin_bootstrap_units S) per_atom))
        else se_return ())
       (if \<not> qub_jin_infusion_active S height then se_return ()
        else se_for (infusion_apply_tx X S) (drop 1 (blk_transactions b)))))"

definition qub_jin_infusion_state_from_blocks ::
  "extern \<Rightarrow> settings \<Rightarrow> block list \<Rightarrow> infusion_state result" where
  "qub_jin_infusion_state_from_blocks X S blocks =
     fold_r (infusion_apply_block X S) (numbered blocks) (infusion_inactive S)"

definition qub_jin_melt_payout_units_for_atoms ::
  "extern \<Rightarrow> settings \<Rightarrow> block list \<Rightarrow> u64 \<Rightarrow> u128 result" where
  "qub_jin_melt_payout_units_for_atoms X S blocks qub_atoms =
     rbind (qub_jin_infusion_state_from_blocks X S blocks) (\<lambda>state.
     if qub_atoms = 0 then Inl (InfusionErr MeltAmountZero)
     else ok_or (InfusionErr MeltPayoutOverflow) (checked_mul (ucast qub_atoms) (inf_units_per_qub_atom state)))"

definition qub_jin_infusion_minimum_step_units :: "extern \<Rightarrow> settings \<Rightarrow> block list \<Rightarrow> u128 result" where
  "qub_jin_infusion_minimum_step_units X S blocks =
     rbind (qub_jin_infusion_state_from_blocks X S blocks) (\<lambda>state. Inr (ucast (inf_true_max_qub_atoms state)))"

definition qub_jin_melt_burn_atoms_for_fee :: "extern \<Rightarrow> settings \<Rightarrow> transaction \<Rightarrow> u32 \<Rightarrow> u64 result" where
  "qub_jin_melt_burn_atoms_for_fee X S tx height =
     (let markers = qub_jin_infusion_markers_in_tx X tx S in
      if markers = [] then Inr 0
      else if \<not> qub_jin_infusion_active S height then Inl (InfusionErr InfInactive)
      else if length markers \<noteq> 1 then Inl (InfusionErr InfExactlyOne)
      else (case fst (snd (markers ! 0)) of
          MeltQub _ qub_atoms _ \<Rightarrow> Inr qub_atoms
        | InfuseJin _ _ \<Rightarrow> Inr 0))"

section \<open>The invariant\<close>

text \<open>
  What is melted and what is left is the maximum supply, the reserve backs every atom left with
  the same whole number of units, and no more is active than was ever infused.
\<close>

definition infusion_inv :: "infusion_state \<Rightarrow> bool" where
  "infusion_inv s \<longleftrightarrow>
     unat (inf_melted_qub_atoms s) + unat (inf_true_max_qub_atoms s) = unat MAX_MONEY_ATOMS \<and>
     unat (inf_active_infused s) = unat (inf_true_max_qub_atoms s) * unat (inf_units_per_qub_atom s) \<and>
     inf_active_infused s \<le> inf_lifetime_infused s"

lemma unat_ucast_128 [simp]: "unat (ucast (a :: u64) :: u128) = unat a"
proof -
  have "unat a < 2 ^ LENGTH(128)" using unat_bound [of a] by simp
  then show ?thesis by (simp add: unsigned_ucast_eq take_bit_nat_eq_self)
qed

lemma infusion_inv_inactive: "infusion_inv (infusion_inactive S)"
  by (simp add: infusion_inv_def infusion_inactive_def)

lemma infuse_ok:
  assumes "qub_jin_apply_infuse_units u s = (Inr d, t)"
  shows "unat u = unat (inf_true_max_qub_atoms s) * unat d" and "d \<noteq> 0"
    and "unat (inf_units_per_qub_atom t) = unat (inf_units_per_qub_atom s) + unat d"
    and "unat (inf_lifetime_infused t) = unat (inf_lifetime_infused s) + unat u"
    and "unat (inf_active_infused t) = unat (inf_active_infused s) + unat u"
    and "inf_melted_qub_atoms t = inf_melted_qub_atoms s" and "inf_true_max_qub_atoms t = inf_true_max_qub_atoms s"
proof -
  have *: "u mod ucast (inf_true_max_qub_atoms s) = 0" "d = u div ucast (inf_true_max_qub_atoms s)"
    using assms by (auto simp: qub_jin_apply_infuse_units_def se_simps Let_def)
  have "unat u = unat (u div ucast (inf_true_max_qub_atoms s)) * unat (inf_true_max_qub_atoms s) +
      unat (u mod ucast (inf_true_max_qub_atoms s))"
    by (simp only: unat_div_mod unat_ucast_128) simp
  then show "unat u = unat (inf_true_max_qub_atoms s) * unat d" using * by simp
  show "d \<noteq> 0"
    and "unat (inf_units_per_qub_atom t) = unat (inf_units_per_qub_atom s) + unat d"
    and "unat (inf_lifetime_infused t) = unat (inf_lifetime_infused s) + unat u"
    and "unat (inf_active_infused t) = unat (inf_active_infused s) + unat u"
    and "inf_melted_qub_atoms t = inf_melted_qub_atoms s" and "inf_true_max_qub_atoms t = inf_true_max_qub_atoms s"
    using assms by (auto simp: qub_jin_apply_infuse_units_def add_per_atom_def add_lifetime_def add_active_def
        se_simps result_simps checked_add_Some Let_def)
qed

lemma infuse_keeps: "qub_jin_apply_infuse_units u s = (Inr d, t) \<Longrightarrow> infusion_inv s \<Longrightarrow> infusion_inv t"
  using infuse_ok [of u s d t] by (simp add: infusion_inv_def word_le_nat_alt add_mult_distrib2)

lemma melt_ok:
  assumes "qub_jin_apply_melt_atoms a m s = (Inr p, t)"
  shows "a \<le> inf_true_max_qub_atoms s" and "unat p = unat a * unat (inf_units_per_qub_atom s)"
    and "m \<le> p" and "p \<noteq> 0"
    and "unat (inf_melted_qub_atoms t) = unat (inf_melted_qub_atoms s) + unat a"
    and "unat (inf_true_max_qub_atoms s) = unat a + unat (inf_true_max_qub_atoms t)"
    and "unat (inf_active_infused s) = unat p + unat (inf_active_infused t)"
    and "inf_units_per_qub_atom t = inf_units_per_qub_atom s" and "inf_lifetime_infused t = inf_lifetime_infused s"
  using assms by (auto simp: qub_jin_apply_melt_atoms_def se_simps result_simps checked_add_Some
      checked_sub_Some checked_mul_Some not_less)

lemma melt_keeps: "qub_jin_apply_melt_atoms a m s = (Inr p, t) \<Longrightarrow> infusion_inv s \<Longrightarrow> infusion_inv t"
  using melt_ok [of a m s p t] by (auto simp: infusion_inv_def word_le_nat_alt add_mult_distrib)

lemma marker_to_state_keeps:
  "qub_jin_apply_marker_to_state_only mk s = (Inr (), t) \<Longrightarrow> infusion_inv s \<Longrightarrow> infusion_inv t"
  by (auto simp: qub_jin_apply_marker_to_state_only_def se_simps infuse_keeps melt_keeps split: infusion_marker.splits)

lemma infusion_apply_tx_keeps:
  assumes "infusion_apply_tx X S tx s = (Inr (), t)" and "infusion_inv s"
  shows "infusion_inv t"
  using assms unfolding infusion_apply_tx_def
  by (rule se_for_inv) (auto simp: se_simps marker_to_state_keeps split: prod.splits if_splits)

text \<open>The bootstrap keeps the invariant as long as nothing has been melted.\<close>

lemma bootstrap_units_exact:
  "qub_jin_bootstrap_units_per_atom S = Inr pa \<Longrightarrow>
    unat (qub_jin_bootstrap_units S) = unat MAX_MONEY_ATOMS * unat pa"
proof -
  assume *: "qub_jin_bootstrap_units_per_atom S = Inr pa"
  let ?u = "qub_jin_bootstrap_units S"
  show ?thesis
  proof (cases "?u = 0")
    case False
    then have m: "?u mod ucast MAX_MONEY_ATOMS = 0" and p: "pa = ?u div ucast MAX_MONEY_ATOMS"
      using * by (auto simp: qub_jin_bootstrap_units_per_atom_def Let_def split: if_splits)
    have "unat ?u = unat (?u div ucast MAX_MONEY_ATOMS) * unat MAX_MONEY_ATOMS + unat (?u mod ucast MAX_MONEY_ATOMS)"
      by (simp only: unat_div_mod unat_ucast_128) simp
    with m p show ?thesis by simp
  qed (use * in \<open>simp add: qub_jin_bootstrap_units_per_atom_def\<close>)
qed

lemma bootstrap_counters_ok:
  assumes "bootstrap_counters b pa s = (Inr (), t)"
  shows "unat (inf_lifetime_infused t) = unat (inf_lifetime_infused s) + unat b"
    and "unat (inf_active_infused t) = unat (inf_active_infused s) + unat b"
    and "unat (inf_units_per_qub_atom t) = unat (inf_units_per_qub_atom s) + unat pa"
    and "inf_melted_qub_atoms t = inf_melted_qub_atoms s" and "inf_true_max_qub_atoms t = inf_true_max_qub_atoms s"
  using assms by (auto simp: bootstrap_counters_def add_lifetime_def add_active_def add_per_atom_def se_simps
      result_simps checked_add_Some)

lemma bootstrap_keeps:
  assumes "bootstrap_counters (qub_jin_bootstrap_units S) pa s = (Inr (), t)"
    and "qub_jin_bootstrap_units_per_atom S = Inr pa" and "infusion_inv s" and "inf_melted_qub_atoms s = 0"
  shows "infusion_inv t"
  using bootstrap_counters_ok [OF assms(1)] bootstrap_units_exact [OF assms(2)] assms(3,4)
  by (auto simp: infusion_inv_def word_le_nat_alt add_mult_distrib2)

lemma infusion_inv_active [simp]: "infusion_inv (s\<lparr>inf_active := b\<rparr>) = infusion_inv s"
  by (simp add: infusion_inv_def)

text \<open>Below the activation height a block changes nothing.\<close>

lemma infusion_apply_block_early:
  assumes "of_nat n < qub_jin_infusion_activation_height S" and "infusion_apply_block X S (n, b) s = Inr t"
  shows "t = s"
proof -
  have "of_nat n \<noteq> qub_jin_infusion_activation_height S" "\<not> qub_jin_infusion_active S (of_nat n)"
    using assms(1) by (auto simp: qub_jin_infusion_active_def)
  then show ?thesis using assms(2) by (simp add: infusion_apply_block_def Let_def se_simps)
qed

lemma infusion_apply_block_keeps:
  assumes "infusion_apply_block X S (n, b) s = Inr t" and "infusion_inv s"
    and "of_nat n = qub_jin_infusion_activation_height S \<longrightarrow> inf_melted_qub_atoms s = 0"
  shows "infusion_inv t"
proof -
  have txs: "infusion_inv v" if "se_for (infusion_apply_tx X S) txs u = (Inr (), v)" "infusion_inv u" for txs u v
    using that by (rule se_for_inv) (rule infusion_apply_tx_keeps)
  have boot: "infusion_inv v" if "bootstrap_counters (qub_jin_bootstrap_units S) pa (s\<lparr>inf_active := True\<rparr>) = (Inr (), v)"
    "qub_jin_bootstrap_units_per_atom S = Inr pa" "of_nat n = qub_jin_infusion_activation_height S" for pa v
    using bootstrap_keeps [OF that(1,2)] assms(2,3) that(3) by simp
  obtain v where v: "(if of_nat n = qub_jin_infusion_activation_height S then
          se_then (se_modify (inf_active_update (\<lambda>_. True)))
            (se_bind (se_need (\<lambda>_. qub_jin_bootstrap_units_per_atom S)) (bootstrap_counters (qub_jin_bootstrap_units S)))
        else se_return ()) s = (Inr (), v)"
    and t: "(if \<not> qub_jin_infusion_active S (of_nat n) then se_return ()
        else se_for (infusion_apply_tx X S) (drop 1 (blk_transactions b))) v = (Inr (), t)"
    using assms(1) by (auto simp: infusion_apply_block_def Let_def se_simps)
  have "infusion_inv v"
  proof (cases "of_nat n = qub_jin_infusion_activation_height S")
    case True
    with v boot show ?thesis by (auto simp: se_simps)
  qed (use v assms(2) in \<open>simp add: se_simps\<close>)
  with t txs show ?thesis by (cases "qub_jin_infusion_active S (of_nat n)") (auto simp: se_simps)
qed

lemma infusion_state_inv:
  assumes "length bs \<le> 2 ^ 32" and "qub_jin_infusion_state_from_blocks X S bs = Inr s"
  shows "infusion_inv s \<and> (length bs \<le> unat (qub_jin_infusion_activation_height S) \<longrightarrow> inf_melted_qub_atoms s = 0)"
  using assms
proof (induction bs arbitrary: s rule: rev_induct)
  case Nil
  then have "s = infusion_inactive S" by (simp add: qub_jin_infusion_state_from_blocks_def)
  then show ?case by (simp add: infusion_inv_inactive, simp add: infusion_inactive_def)
next
  case (snoc b bs)
  show ?case
  proof (cases "bs = []")
    case True
    with snoc.prems have "s = infusion_inactive S" by (simp add: qub_jin_infusion_state_from_blocks_def)
    then show ?thesis by (simp add: infusion_inv_inactive, simp add: infusion_inactive_def)
  next
    case False
    with snoc.prems obtain u where u: "qub_jin_infusion_state_from_blocks X S bs = Inr u"
      and s: "infusion_apply_block X S (length bs, b) u = Inr s"
      by (auto simp: qub_jin_infusion_state_from_blocks_def numbered_snoc fold_r_append result_simps)
    note IH = snoc.IH [OF _ u]
    have len: "unat (of_nat (length bs) :: u32) = length bs"
      using snoc.prems(1) by (intro unat_of_nat_less) simp
    have "inf_melted_qub_atoms u = 0" if "of_nat (length bs) = qub_jin_infusion_activation_height S"
      using IH snoc.prems(1) len that by simp
    then have "infusion_inv s" using infusion_apply_block_keeps [OF s] IH snoc.prems(1) by simp
    moreover have "inf_melted_qub_atoms s = 0" if "length (bs @ [b]) \<le> unat (qub_jin_infusion_activation_height S)"
    proof -
      have "of_nat (length bs) < qub_jin_infusion_activation_height S"
        using that len by (simp add: word_less_nat_alt)
      then have "s = u" using s by (rule infusion_apply_block_early)
      then show ?thesis using IH snoc.prems(1) that by simp
    qed
    ultimately show ?thesis by blast
  qed
qed

text \<open>
  C25: The infusion accounts of a chain always balance: melted and remaining QUB atoms add up to
  the maximum supply, the active JIN reserve is exactly the backing of one atom times the atoms
  that remain, and no more JIN is active than was ever infused.
\<close>

theorem infusion_accounts_balance:
  assumes "length bs \<le> 2 ^ 32" and "qub_jin_infusion_state_from_blocks X S bs = Inr s"
  shows "unat (inf_melted_qub_atoms s) + unat (inf_true_max_qub_atoms s) = unat MAX_MONEY_ATOMS \<and>
    unat (inf_active_infused s) = unat (inf_true_max_qub_atoms s) * unat (inf_units_per_qub_atom s) \<and>
    inf_active_infused s \<le> inf_lifetime_infused s"
  using infusion_state_inv [OF assms] by (simp add: infusion_inv_def)

lemma infusion_accounts_balance_witness:
  "\<exists>s. qub_jin_infusion_state_from_blocks ref_extern (example_settings ''mainnet'')
      [example_block [], example_block []] = Inr s \<and>
    unat (inf_active_infused s) = unat (inf_true_max_qub_atoms s) * unat (inf_units_per_qub_atom s)"
proof -
  obtain s where s: "qub_jin_infusion_state_from_blocks ref_extern (example_settings ''mainnet'')
      [example_block [], example_block []] = Inr s"
    by (simp add: qub_jin_infusion_state_from_blocks_def numbered_def infusion_apply_block_def example_block_def
        qub_jin_infusion_activation_height_def qub_jin_infusion_active_def ex_network_def se_run_def se_then_def
        se_bind_def se_return_def Let_def word_le_nat_alt)
  with infusion_accounts_balance [OF _ s] show ?thesis by auto
qed

text \<open>
  C26: Melting is always honoured: in a state whose accounts balance, melting a positive number of
  atoms not above the remaining supply succeeds exactly when JIN has been infused and the payout,
  the atoms times the units per atom, reaches the minimum asked for; the overflow, reserve and
  underflow errors of the code cannot occur.
\<close>

theorem melt_always_honoured:
  assumes "infusion_inv s" and "a \<noteq> 0" and "a \<le> inf_true_max_qub_atoms s"
  shows "(\<exists>p t. qub_jin_apply_melt_atoms a m s = (Inr p, t) \<and> infusion_inv t \<and>
      unat p = unat a * unat (inf_units_per_qub_atom s)) \<longleftrightarrow>
    inf_units_per_qub_atom s \<noteq> 0 \<and> unat m \<le> unat a * unat (inf_units_per_qub_atom s)"
proof
  assume "\<exists>p t. qub_jin_apply_melt_atoms a m s = (Inr p, t) \<and> infusion_inv t \<and>
      unat p = unat a * unat (inf_units_per_qub_atom s)"
  then obtain p t where "qub_jin_apply_melt_atoms a m s = (Inr p, t)"
    "unat p = unat a * unat (inf_units_per_qub_atom s)" by blast
  with melt_ok(3,4) [of a m s p t] show "inf_units_per_qub_atom s \<noteq> 0 \<and> unat m \<le> unat a * unat (inf_units_per_qub_atom s)"
    by (auto simp: word_le_nat_alt unat_eq_0)
next
  assume u: "inf_units_per_qub_atom s \<noteq> 0 \<and> unat m \<le> unat a * unat (inf_units_per_qub_atom s)"
  let ?w = "unat a * unat (inf_units_per_qub_atom s)"
  have le: "unat a \<le> unat (inf_true_max_qub_atoms s)" using assms(3) by (simp add: word_le_nat_alt)
  have active: "?w \<le> unat (inf_active_infused s)" using assms(1) le by (simp add: infusion_inv_def)
  then have "?w < 2 ^ 128" using unat_bound [of "inf_active_infused s"] by simp
  then obtain p where p: "unat p = ?w" and mul: "checked_mul (ucast a) (inf_units_per_qub_atom s) = Some p"
    using unat_of_nat_less [where 'w = 128, of ?w] by (auto simp: checked_mul_Some)
  have "unat a \<noteq> 0" "unat (inf_units_per_qub_atom s) \<noteq> 0" using assms(2) u by (simp_all add: unat_eq_0)
  with p have "p \<noteq> 0" by (metis mult_is_0 unat_0)
  moreover have "(p < m) = False" "(inf_active_infused s < p) = False" using p u active by (simp_all add: word_less_nat_alt)
  moreover obtain x where "checked_add (inf_melted_qub_atoms s) a = Some x"
  proof -
    have "unat (inf_melted_qub_atoms s) + unat a < 2 ^ 64"
      using assms(1) le by (simp add: infusion_inv_def unat_MAX_MONEY_ATOMS)
    then show thesis using that by (simp add: checked_add_def)
  qed
  moreover obtain y where "checked_sub (inf_true_max_qub_atoms s) a = Some y"
    using assms(3) by (simp add: checked_sub_def)
  moreover obtain z where "checked_sub (inf_active_infused s) p = Some z"
    using active p by (simp add: checked_sub_def word_le_nat_alt)
  ultimately have "\<exists>t. qub_jin_apply_melt_atoms a m s = (Inr p, t)"
    using assms(2,3) u mul
    by (simp add: qub_jin_apply_melt_atoms_def se_then_def se_bind_def se_guard_def se_need_def se_modify_def
        se_return_def)
  with p melt_keeps [OF _ assms(1)] show "\<exists>p t. qub_jin_apply_melt_atoms a m s = (Inr p, t) \<and> infusion_inv t \<and>
      unat p = unat a * unat (inf_units_per_qub_atom s)" by blast
qed

definition ex_infusion_state :: infusion_state where
  "ex_infusion_state =
     \<lparr>inf_active = True, inf_activation_height = 0, inf_melted_qub_atoms = 2000000000000000,
      inf_true_max_qub_atoms = 100000000000000, inf_lifetime_infused = 600000000000000,
      inf_active_infused = 200000000000000, inf_units_per_qub_atom = 2, inf_bootstrap_units = 0\<rparr>"

lemma melt_always_honoured_witness:
  "\<exists>p t. qub_jin_apply_melt_atoms 7 14 ex_infusion_state = (Inr p, t) \<and> infusion_inv t"
proof -
  have "infusion_inv ex_infusion_state"
    by (simp add: infusion_inv_def ex_infusion_state_def unat_MAX_MONEY_ATOMS word_le_nat_alt)
  from melt_always_honoured [OF this, of 7 14] show ?thesis
    by (auto simp: ex_infusion_state_def word_le_nat_alt)
qed

section \<open>The vault\<close>

text \<open>
  The vault covers the reserve: an infusion or a melt by anyone but the vault itself leaves
  the total of the ledger unchanged, keeps the accounts balanced, and moves the vault's balance
  by exactly the change of the active reserve.
\<close>

theorem infusion_marker_moves_vault:
  assumes "qub_jin_apply_marker_unchecked S mk (l, s) = (Inr (), (l', s'))" and "infusion_inv s"
    and "im_from mk \<noteq> QUB_JIN_INFUSION_VAULT"
  shows "infusion_inv s' \<and> jin_total l' = jin_total l \<and>
    unat (get_or0 l' QUB_JIN_INFUSION_VAULT) + unat (inf_active_infused s) =
      unat (get_or0 l QUB_JIN_INFUSION_VAULT) + unat (inf_active_infused s')"
proof (cases mk)
  case (InfuseJin src u)
  with assms(1) obtain d l1 where i: "qub_jin_apply_infuse_units u s = (Inr d, s')"
    and d: "jin_debit src u l = (Inr (), l1)" and c: "jin_credit QUB_JIN_INFUSION_VAULT u l1 = (Inr (), l')"
    unfolding qub_jin_apply_marker_unchecked_def InfuseJin infusion_marker.case se_then_ok se_bind_ok
    by (auto simp: se_simps)
  have "get_or0 l1 QUB_JIN_INFUSION_VAULT = get_or0 l QUB_JIN_INFUSION_VAULT"
    using d assms(3) InfuseJin by (auto intro: jin_debit_other)
  moreover have "unat (get_or0 l' QUB_JIN_INFUSION_VAULT) = unat (get_or0 l1 QUB_JIN_INFUSION_VAULT) + unat u"
    using c by (auto simp: jin_credit_ok)
  ultimately show ?thesis
    using infuse_keeps [OF i assms(2)] infuse_ok(5) [OF i] jin_debit_total [OF d] jin_credit_total [OF c] by simp
next
  case (MeltQub src a m)
  with assms(1) obtain p l1 where i: "qub_jin_apply_melt_atoms a m s = (Inr p, s')"
    and d: "jin_debit QUB_JIN_INFUSION_VAULT p l = (Inr (), l1)" and c: "jin_credit src p l1 = (Inr (), l')"
    unfolding qub_jin_apply_marker_unchecked_def MeltQub infusion_marker.case se_then_ok se_bind_ok
    by (auto simp: se_simps)
  have "get_or0 l' QUB_JIN_INFUSION_VAULT = get_or0 l1 QUB_JIN_INFUSION_VAULT"
    using c assms(3) MeltQub by (auto intro: jin_credit_other)
  moreover have "unat (get_or0 l1 QUB_JIN_INFUSION_VAULT) + unat p = unat (get_or0 l QUB_JIN_INFUSION_VAULT)"
    using d by (auto simp: jin_debit_ok word_le_nat_alt unat_sub)
  ultimately show ?thesis
    using melt_keeps [OF i assms(2)] melt_ok(7) [OF i] jin_debit_total [OF d] jin_credit_total [OF c] by simp
qed

lemma infusion_marker_moves_vault_witness:
  "\<exists>l' s'. qub_jin_apply_marker_unchecked (example_settings ''regtest'') (MeltQub ''a'' 7 14)
      (fmupd QUB_JIN_INFUSION_VAULT 200000000000000 fmempty, ex_infusion_state) = (Inr (), (l', s')) \<and>
    jin_total l' = 200000000000000"
proof -
  have inv: "infusion_inv ex_infusion_state"
    by (simp add: infusion_inv_def ex_infusion_state_def unat_MAX_MONEY_ATOMS word_le_nat_alt)
  have "\<exists>l' s'. qub_jin_apply_marker_unchecked (example_settings ''regtest'') (MeltQub ''a'' 7 14)
      (fmupd QUB_JIN_INFUSION_VAULT 200000000000000 fmempty, ex_infusion_state) = (Inr (), (l', s'))"
    by (simp add: qub_jin_apply_marker_unchecked_def se_then_def se_bind_def on_fst_def on_snd_def se_guard_def
        se_need_def se_modify_def se_return_def qub_jin_apply_melt_atoms_def ex_infusion_state_def ex_network_def
        checked_add_def checked_sub_def checked_mul_def jin_debit_def jin_credit_def QUB_JIN_INFUSION_VAULT_def
        word_le_nat_alt word_less_nat_alt)
  then obtain l' s' where r: "qub_jin_apply_marker_unchecked (example_settings ''regtest'') (MeltQub ''a'' 7 14)
      (fmupd QUB_JIN_INFUSION_VAULT 200000000000000 fmempty, ex_infusion_state) = (Inr (), (l', s'))" by blast
  from infusion_marker_moves_vault [OF r inv] r show ?thesis
    by (auto simp: QUB_JIN_INFUSION_VAULT_def jin_total_def fm_total_upd_new)
qed

end
