(* ===== verification/JinSale.thy ===== *)
theory JinSale
  imports Infusion
begin

text \<open>
  The public sale of JIN in \<open>src/lib.rs\<close> (\<open>JinSaleListing\<close>, \<open>JinSalePurchase\<close> and the functions
  from \<open>ceil_mul_div_u64\<close> to \<open>jin_swap_miner_fee_required_in_tx\<close>): listings and their prices, the
  fee split, the purchase marker, the units sold as replayed from the blocks, and the checks of a
  purchase and of a block. The lemmas show that a block that passes is replayed to the amounts it
  was checked with, that no listing is oversold, and that the protocol is paid.
\<close>

definition JIN_SWAP_SCRIPT_PREFIX :: bytes where "JIN_SWAP_SCRIPT_PREFIX = ''JINSWAP1|''"

record jin_sale_listing =
  sl_listing_id :: u32
  sl_price_atoms_per_jin :: u64
  sl_total_units :: u128
  sl_sold_units :: u128
  sl_remaining_units :: u128

record jin_sale_purchase =
  sp_buyer :: string
  sp_listing_id :: u32
  sp_amount_units :: u128
  sp_price_atoms :: u64
  sp_protocol_fee_atoms :: u64

section \<open>Listings and prices\<close>

definition u32_try_from :: "u128 \<Rightarrow> u32 option" where
  "u32_try_from n = (if unat n < 2 ^ 32 then Some (ucast n) else None)"

definition ceil_mul_div_u64 :: "u64 \<Rightarrow> u64 \<Rightarrow> u64 \<Rightarrow> u64 result" where
  "ceil_mul_div_u64 v m d =
     (if d = 0 then Inl (SaleErr SaleDivisionByZero) else
      rbind (ok_or (SaleErr SaleFeeOverflow) (checked_mul (ucast v :: u128) (ucast m))) (\<lambda>p.
      ok_or (SaleErr SaleFeeOverflow) (u64_try_from ((p + ucast d - 1) div ucast d))))"

definition jin_swap_enabled :: "settings \<Rightarrow> bool" where
  "jin_swap_enabled S \<longleftrightarrow>
     swap_enabled (jin_swap S) \<and> jin_enabled (jin S) \<and> feat_jin_native_coin_enabled (features S)"

definition jin_swap_active :: "settings \<Rightarrow> u32 \<Rightarrow> bool" where
  "jin_swap_active S height \<longleftrightarrow> jin_swap_enabled S \<and> height \<ge> swap_activation_height (jin_swap S)"

definition jin_swap_sale_total_units :: "settings \<Rightarrow> u128 result" where
  "jin_swap_sale_total_units S = parse_jin_units_raw (swap_sale_total_units (jin_swap S))"

definition jin_swap_sale_batch_units :: "settings \<Rightarrow> u128 result" where
  "jin_swap_sale_batch_units S = parse_jin_units_raw (swap_sale_batch_units (jin_swap S))"

definition jin_swap_sale_batch_count :: "settings \<Rightarrow> u32 result" where
  "jin_swap_sale_batch_count S =
     rbind (jin_swap_sale_total_units S) (\<lambda>total_units.
     rbind (jin_swap_sale_batch_units S) (\<lambda>batch.
     if batch = 0 then Inl (SaleErr SaleBatchZero)
     else ok_or (SaleErr SaleTooManyBatches) (u32_try_from ((total_units + batch - 1) div batch))))"

definition jin_swap_sale_listing_price_atoms_per_jin :: "settings \<Rightarrow> u32 \<Rightarrow> u64 result" where
  "jin_swap_sale_listing_price_atoms_per_jin S listing_id =
     rbind (jin_swap_sale_batch_count S) (\<lambda>batches.
     if listing_id \<ge> batches then Inl (SaleErr SaleInvalidListing) else
     rbind (ok_or (SaleErr SalePriceOverflow)
       (checked_mul (swap_sale_step_price_atoms_per_jin (jin_swap S)) (ucast listing_id))) (\<lambda>step.
     ok_or (SaleErr SalePriceOverflow)
       (checked_add (swap_sale_start_price_atoms_per_jin (jin_swap S)) step)))"

definition jin_swap_sale_listing_total_units :: "settings \<Rightarrow> u32 \<Rightarrow> u128 result" where
  "jin_swap_sale_listing_total_units S listing_id =
     rbind (jin_swap_sale_total_units S) (\<lambda>total_units.
     rbind (jin_swap_sale_batch_units S) (\<lambda>batch.
     rbind (ok_or (SaleErr SaleBatchOverflow) (checked_mul batch (ucast listing_id))) (\<lambda>start.
     if start \<ge> total_units then Inl (SaleErr SaleInvalidListing)
     else Inr (min (total_units - start) batch))))"

definition jin_swap_sale_listing_total_units_at_height :: "settings \<Rightarrow> u32 \<Rightarrow> u32 \<Rightarrow> u128 result" where
  "jin_swap_sale_listing_total_units_at_height S listing_id height =
     rbind (jin_swap_sale_batch_count S) (\<lambda>batches.
     if listing_id \<ge> batches then Inl (SaleErr SaleInvalidListing)
     else if net_name (network S) = ''mainnet'' \<and> height \<ge> qub_jin_sale_reserve_lock_height S \<and>
       listing_id \<ge> sat_sub batches QUB_JIN_RESERVED_SALE_BATCHES then Inr 0
     else jin_swap_sale_listing_total_units S listing_id)"

definition jin_swap_sale_price_atoms :: "settings \<Rightarrow> u32 \<Rightarrow> u128 \<Rightarrow> u64 result" where
  "jin_swap_sale_price_atoms S listing_id amount_units =
     (if amount_units = 0 then Inl (SaleErr SaleAmountZero)
      else if amount_units mod JIN_UNITS_PER_COIN \<noteq> 0 then Inl (SaleErr SaleWholeJin)
      else
        let whole_jin = amount_units div JIN_UNITS_PER_COIN in
        rbind (jin_swap_sale_listing_price_atoms_per_jin S listing_id) (\<lambda>price_per_jin.
        rbind (ok_or (SaleErr SalePriceOverflow) (checked_mul (ucast price_per_jin) whole_jin)) (\<lambda>atoms.
        if atoms = 0 \<or> atoms > 0xFFFFFFFFFFFFFFFF then Inl (SaleErr SalePriceRange) else Inr (ucast atoms))))"

definition jin_swap_fee_split_atoms :: "settings \<Rightarrow> u64 \<Rightarrow> (u64 \<times> u64) result" where
  "jin_swap_fee_split_atoms S price_atoms =
     (let total_bps = swap_protocol_fee_bps (jin_swap S) in
      if total_bps \<noteq> 10 then Inl (SaleErr SaleFeeBps) else
      rbind (ceil_mul_div_u64 price_atoms (total_bps div 2) 10000) (\<lambda>protocol.
      rbind (ceil_mul_div_u64 price_atoms (total_bps - total_bps div 2) 10000) (\<lambda>miner.
      Inr (protocol, miner))))"

section \<open>Markers\<close>

definition jin_sale_purchase_marker_script ::
  "extern \<Rightarrow> settings \<Rightarrow> address \<Rightarrow> u32 \<Rightarrow> u128 \<Rightarrow> script result" where
  "jin_sale_purchase_marker_script X S buyer listing_id amount_units =
     (if addr_prefix buyer \<noteq> net_address_prefix (network S) then Inl (SaleErr SaleNetworkMismatch) else
      rbind (jin_swap_sale_price_atoms S listing_id amount_units) (\<lambda>price_atoms.
      rbind (jin_swap_fee_split_atoms S price_atoms) (\<lambda>(protocol_fee_atoms, _).
      Inr (pipes [''JINSWAP1'', ''sale-buy'', ''v1'', address_to_string X buyer, show_word listing_id,
        show_word amount_units, show_word price_atoms, show_word protocol_fee_atoms]))))"

definition parse_jin_sale_purchase_script :: "extern \<Rightarrow> script \<Rightarrow> settings \<Rightarrow> jin_sale_purchase option" where
  "parse_jin_sale_purchase_script X b S =
     Option.bind (from_utf8 b) (\<lambda>raw.
     if \<not> starts_with raw JIN_SWAP_SCRIPT_PREFIX then None else
     case split_on (CHR ''|'') raw of
       [f0, f1, f2, f3, f4, f5, f6, f7] \<Rightarrow>
         if f0 \<noteq> ''JINSWAP1'' \<or> f1 \<noteq> ''sale-buy'' \<or> f2 \<noteq> ''v1'' then None else
         Option.bind (map_option (address_to_string X)
           (to_option (parse_with_prefix X f3 (net_address_prefix (network S))))) (\<lambda>buyer.
         Option.bind (parse_uint f4) (\<lambda>listing_id.
         Option.bind (parse_uint f5) (\<lambda>amount_units.
         Option.bind (parse_uint f6) (\<lambda>price_atoms.
         Option.bind (parse_uint f7) (\<lambda>protocol_fee_atoms.
         Some \<lparr>sp_buyer = buyer, sp_listing_id = listing_id, sp_amount_units = amount_units,
           sp_price_atoms = price_atoms, sp_protocol_fee_atoms = protocol_fee_atoms\<rparr>)))))
     | _ \<Rightarrow> None)"

definition jin_sale_purchases_in_tx ::
  "extern \<Rightarrow> transaction \<Rightarrow> settings \<Rightarrow> (nat \<times> jin_sale_purchase \<times> u64) list" where
  "jin_sale_purchases_in_tx X tx S = markers_in (\<lambda>s. parse_jin_sale_purchase_script X s S) tx"

definition is_jin_sale_purchase_transaction :: "extern \<Rightarrow> transaction \<Rightarrow> settings \<Rightarrow> bool" where
  "is_jin_sale_purchase_transaction X tx S \<longleftrightarrow> jin_sale_purchases_in_tx X tx S \<noteq> []"

definition is_jin_protocol_transaction :: "extern \<Rightarrow> transaction \<Rightarrow> settings \<Rightarrow> bool" where
  "is_jin_protocol_transaction X tx S \<longleftrightarrow>
     is_jin_sale_purchase_transaction X tx S \<or> is_qub_jin_infusion_transaction X tx S \<or>
     jin_transfers_in_tx X tx S \<noteq> [] \<or> jin_conversions_in_tx X tx S \<noteq> []"

section \<open>Purchases\<close>

definition HF106_MAX_STANDARD_JIN_SALE_BUY_UNITS :: u128 where
  "HF106_MAX_STANDARD_JIN_SALE_BUY_UNITS = 50000 * JIN_UNITS_PER_COIN"

definition HF106_MAX_STANDARD_JIN_SALE_MINER_FEE_ATOMS :: u64 where
  "HF106_MAX_STANDARD_JIN_SALE_MINER_FEE_ATOMS = 5 * ATOMS_PER_QUB"

definition hf106_jin_sale_standardness_policy :: "extern \<Rightarrow> transaction \<Rightarrow> settings \<Rightarrow> unit result" where
  "hf106_jin_sale_standardness_policy X tx S =
     (let purchases = jin_sale_purchases_in_tx X tx S in
      if purchases = [] then Inr ()
      else if length purchases > 1 then Inl (SaleErr SalePolicyOnePurchase)
      else (case purchases ! 0 of (_, purchase, marker_atoms) \<Rightarrow>
        if marker_atoms \<noteq> swap_marker_output_atoms (jin_swap S) then Inl (SaleErr SalePolicyMarker)
        else if sp_amount_units purchase > HF106_MAX_STANDARD_JIN_SALE_BUY_UNITS
        then Inl (SaleErr SalePolicyTooLarge)
        else rbind (jin_swap_sale_price_atoms S (sp_listing_id purchase) (sp_amount_units purchase)) (\<lambda>expected_price.
          rbind (jin_swap_fee_split_atoms S expected_price) (\<lambda>(_, miner_fee).
          if miner_fee > HF106_MAX_STANDARD_JIN_SALE_MINER_FEE_ATOMS then Inl (SaleErr SalePolicyMinerFee)
          else Inr ()))))"

type_synonym jin_sold = "(u32, u128) fmap"

definition sale_record_one :: "nat \<times> jin_sale_purchase \<times> u64 \<Rightarrow> jin_sold \<Rightarrow> jin_sold result" where
  "sale_record_one p sold = (case p of (_, purchase, _) \<Rightarrow>
     rbind (ok_or (SaleErr SaleSoldOverflow)
       (checked_add (get_or0 sold (sp_listing_id purchase)) (sp_amount_units purchase))) (\<lambda>v.
     Inr (fmupd (sp_listing_id purchase) v sold)))"

definition sale_record_tx :: "extern \<Rightarrow> settings \<Rightarrow> transaction \<Rightarrow> jin_sold \<Rightarrow> jin_sold result" where
  "sale_record_tx X S tx = fold_r sale_record_one (jin_sale_purchases_in_tx X tx S)"

definition sale_record_block :: "extern \<Rightarrow> settings \<Rightarrow> nat \<times> block \<Rightarrow> jin_sold \<Rightarrow> jin_sold result" where
  "sale_record_block X S hb sold = (case hb of (n, b) \<Rightarrow>
     if \<not> jin_swap_active S (of_nat n) then Inr sold
     else fold_r (sale_record_tx X S) (drop 1 (blk_transactions b)) sold)"

definition jin_sale_sold_by_listing_from_blocks :: "extern \<Rightarrow> settings \<Rightarrow> block list \<Rightarrow> jin_sold result" where
  "jin_sale_sold_by_listing_from_blocks X S blocks =
     fold_r (sale_record_block X S) (numbered blocks) fmempty"

definition apply_jin_sale_purchase :: "settings \<Rightarrow> jin_sale_purchase \<Rightarrow> (jin_ledger, unit) se" where
  "apply_jin_sale_purchase S purchase =
     se_then (jin_debit (jin_protocol_address (jin S)) (sp_amount_units purchase))
       (jin_credit (sp_buyer purchase) (sp_amount_units purchase))"

definition paid_to_script :: "transaction \<Rightarrow> nat \<Rightarrow> script \<Rightarrow> u64" where
  "paid_to_script tx idx s =
     sum_list (map (\<lambda>(_, out). out_value out)
       (filter (\<lambda>(out_idx, out). out_idx \<noteq> idx \<and> script_pubkey out = s) (enumerate 0 (tx_outputs tx))))"

definition validate_jin_sale_purchase_state ::
  "extern \<Rightarrow> settings \<Rightarrow> (nat \<times> jin_sale_purchase \<times> u64) list \<Rightarrow> transaction \<Rightarrow> utxo_map \<Rightarrow> u32 \<Rightarrow>
    jin_sold \<Rightarrow> (jin_sold \<times> u64) result" where
  "validate_jin_sale_purchase_state X S purchases tx utxos spend_height sold =
     (if purchases = [] then Inr (sold, 0)
      else if \<not> jin_swap_active S spend_height then Inl (SaleErr SaleInactive)
      else if is_coinbase tx then Inl (SaleErr SaleCoinbase)
      else if length purchases > 1 then Inl (SaleErr SaleOneListing)
      else (case purchases ! 0 of (idx, purchase, marker_atoms) \<Rightarrow>
        let listing = sp_listing_id purchase; amount = sp_amount_units purchase in
        if marker_atoms \<noteq> swap_marker_output_atoms (jin_swap S) then Inl (SaleErr SaleMarkerAmount) else
        rbind (parse_with_prefix X (sp_buyer purchase) (net_address_prefix (network S))) (\<lambda>buyer.
        if \<not> input_authorizes_address tx utxos buyer then Inl (SaleErr SaleUnauthorized)
        else if amount = 0 then Inl (SaleErr SaleAmountZero)
        else if amount mod JIN_UNITS_PER_COIN \<noteq> 0 then Inl (SaleErr SaleWholeJin) else
        rbind (jin_swap_sale_listing_total_units_at_height S listing spend_height) (\<lambda>listing_total.
        let already_sold = get_or0 sold listing;
            remaining = sat_sub listing_total already_sold in
        if amount > remaining then Inl (SaleErr SaleInsufficientRemaining) else
        rbind (jin_swap_sale_price_atoms S listing amount) (\<lambda>expected_price.
        if sp_price_atoms purchase \<noteq> expected_price then Inl (SaleErr SalePriceMismatch) else
        rbind (jin_swap_fee_split_atoms S expected_price) (\<lambda>(expected_protocol_fee, expected_miner_fee).
        if sp_protocol_fee_atoms purchase \<noteq> expected_protocol_fee then Inl (SaleErr SaleProtocolFeeMismatch) else
        rbind (parse_with_prefix X (jin_protocol_address (jin S)) (net_address_prefix (network S))) (\<lambda>protocol.
        let paid_to_protocol = paid_to_script tx idx (address_script_pubkey protocol) in
        rbind (ok_or (SaleErr SalePaymentOverflow) (checked_add expected_price expected_protocol_fee)) (\<lambda>required.
        if paid_to_protocol < required then Inl (SaleErr SaleUnderpayment) else
        rbind (ok_or (SaleErr SaleSoldOverflow) (checked_add already_sold amount)) (\<lambda>v.
        Inr (fmupd listing v sold, expected_miner_fee))))))))))"

definition validate_jin_sale_tx ::
  "extern \<Rightarrow> settings \<Rightarrow> u32 \<Rightarrow> transaction \<Rightarrow> utxo_map \<times> jin_sold \<Rightarrow> (utxo_map \<times> jin_sold) result" where
  "validate_jin_sale_tx X S height tx st = (case st of (utxos, sold) \<Rightarrow>
     rbind (validate_jin_sale_purchase_state X S (jin_sale_purchases_in_tx X tx S) tx utxos height sold) (\<lambda>(sold, _).
     rbind (validate_tx_contextual X tx utxos height S True) (\<lambda>_.
     rbind (connect_tx_utxos X tx height False utxos) (\<lambda>utxos.
     Inr (utxos, sold)))))"

definition validate_jin_sale_block ::
  "extern \<Rightarrow> settings \<Rightarrow> block \<Rightarrow> block list \<Rightarrow> utxo_map \<Rightarrow> u32 \<Rightarrow> unit result" where
  "validate_jin_sale_block X S b prior_blocks base_utxos height =
     (if list_all (\<lambda>tx. jin_sale_purchases_in_tx X tx S = []) (drop 1 (blk_transactions b)) then Inr () else
      rbind (jin_sale_sold_by_listing_from_blocks X S prior_blocks) (\<lambda>sold.
      rbind (fold_r (validate_jin_sale_tx X S height) (drop 1 (blk_transactions b)) (base_utxos, sold)) (\<lambda>_.
      Inr ())))"

definition jin_swap_miner_fee_required_in_tx :: "extern \<Rightarrow> settings \<Rightarrow> transaction \<Rightarrow> u32 \<Rightarrow> u64 result" where
  "jin_swap_miner_fee_required_in_tx X S tx height =
     (let purchases = jin_sale_purchases_in_tx X tx S in
      if purchases = [] then Inr 0
      else if \<not> jin_swap_active S height then Inr 0
      else (case purchases ! 0 of (_, purchase, _) \<Rightarrow>
        rbind (jin_swap_sale_price_atoms S (sp_listing_id purchase) (sp_amount_units purchase)) (\<lambda>expected_price.
        rbind (jin_swap_fee_split_atoms S expected_price) (\<lambda>(_, miner_fee). Inr miner_fee))))"

section \<open>Fees and listings\<close>

lemma unat_ucast_u64 [simp]: "unat (ucast (a :: u32) :: u64) = unat a"
proof -
  have "unat a < 2 ^ LENGTH(64)" using unat_bound [of a] by simp
  then show ?thesis by (simp add: unsigned_ucast_eq take_bit_nat_eq_self)
qed

lemma unat_ucast_u128 [simp]: "unat (ucast (a :: u32) :: u128) = unat a"
proof -
  have "unat a < 2 ^ LENGTH(128)" using unat_bound [of a] by simp
  then show ?thesis by (simp add: unsigned_ucast_eq take_bit_nat_eq_self)
qed

lemma u64_try_from_nat: "unat v < 2 ^ 64 \<Longrightarrow> \<exists>w. u64_try_from v = Some w \<and> unat w = unat v"
  by (simp add: u64_try_from_def unsigned_ucast_eq take_bit_nat_eq_self)

lemma u32_try_from_Some: "u32_try_from v = Some w \<Longrightarrow> unat w = unat v"
  by (auto simp: u32_try_from_def unsigned_ucast_eq take_bit_nat_eq_self split: if_splits)

text \<open>The rounded-up quotient: no overflow as long as the factor is not above the divisor.\<close>

lemma ceil_mul_div_nat:
  assumes "d \<noteq> 0" and "m \<le> d"
  shows "\<exists>w. ceil_mul_div_u64 v m d = Inr w \<and> unat w = (unat v * unat m + unat d - 1) div unat d"
proof -
  let ?p = "unat v * unat m"
  have d: "0 < unat d" using assms(1) by (simp add: unat_gt_0)
  have md: "unat m \<le> unat d" using assms(2) by (simp add: word_le_nat_alt)
  have v: "unat v < 2 ^ 64" and dd: "unat d < 2 ^ 64" using unat_bound [of v] unat_bound [of d] by simp_all
  have "?p \<le> (2 ^ 64 - 1) * (2 ^ 64 - 1)" using v md dd by (intro mult_le_mono) auto
  then have p: "?p + unat d < 2 ^ 128" using dd by simp
  have mul: "checked_mul (ucast v :: u128) (ucast m) = Some (of_nat ?p)"
    unfolding checked_mul_Some unat_ucast_128 using p by (intro unat_of_nat_less) simp
  have "of_nat ?p + ucast d - 1 = (of_nat (?p + unat d - 1) :: u128)"
    using d by (simp add: of_nat_diff)
  then have q: "unat ((of_nat ?p + ucast d - 1) div ucast d :: u128) = (?p + unat d - 1) div unat d"
    using p by (simp add: unat_div unat_of_nat take_bit_nat_eq_self)
  have "?p + unat d - 1 < 2 ^ 64 * unat d"
  proof -
    have "?p \<le> unat v * unat d" using md by simp
    also have "\<dots> + unat d \<le> 2 ^ 64 * unat d" using mult_le_mono1 [of "unat v + 1" "2 ^ 64" "unat d"] v by simp
    finally show ?thesis using d by simp
  qed
  then have "(?p + unat d - 1) div unat d < 2 ^ 64" using d by (simp add: less_mult_imp_div_less)
  with q obtain w where "u64_try_from ((of_nat ?p + ucast d - 1) div ucast d) = Some w"
    and "unat w = (?p + unat d - 1) div unat d" using u64_try_from_nat by metis
  then show ?thesis using assms(1) mul by (simp add: ceil_mul_div_u64_def)
qed

text \<open>Both shares of the fee are a two-thousandth of the price, rounded up.\<close>

lemma fee_split_nat:
  assumes "swap_protocol_fee_bps (jin_swap S) = 10"
  shows "\<exists>p. jin_swap_fee_split_atoms S price = Inr (p, p) \<and> unat p = (unat price + 1999) div 2000"
proof -
  obtain w where w: "ceil_mul_div_u64 price 5 10000 = Inr w" "unat w = (unat price * 5 + 10000 - 1) div 10000"
    using ceil_mul_div_nat [of 10000 5 price] by (auto simp: word_le_nat_alt)
  have "(unat price * 5 + 10000 - 1) div 10000 = (unat price + 1999) div 2000"
    using div_mult2_eq [of "unat price * 5 + 9999" 5 2000] by simp
  then show ?thesis using w assms by (simp add: jin_swap_fee_split_atoms_def)
qed

lemma batch_sum: "0 < b \<Longrightarrow> (\<Sum>i < (t + b - 1) div b. min (t - b * i) b) = t" for t b :: nat
proof (induction t rule: less_induct)
  case (less t)
  show ?case
  proof (cases "t \<le> b")
    case True
    have "(t + b - 1) div b = (if t = 0 then 0 else 1)"
      using True less.prems by (auto simp: div_nat_eqI)
    with True show ?thesis by simp
  next
    case False
    then have "(t + b - 1) div b = Suc ((t - b + b - 1) div b)"
      using less.prems by (simp add: le_div_geq)
    moreover have "(\<Sum>i < (t - b + b - 1) div b. min (t - b * Suc i) b) = t - b"
      using less.IH [of "t - b"] less.prems False by (simp add: diff_diff_left add.commute)
    ultimately show ?thesis using False by (simp del: sum.lessThan_Suc add: sum.lessThan_Suc_shift)
  qed
qed

text \<open>
  The listings partition the sale: as long as total plus batch size fits in 128 bits, every
  listing below the batch count has between one unit and a full batch to sell, and together the
  listings sell exactly the total of the settings.
\<close>

theorem sale_listings_partition:
  assumes "jin_swap_sale_total_units S = Inr t" and "jin_swap_sale_batch_units S = Inr b"
    and "jin_swap_sale_batch_count S = Inr n" and "unat t + unat b < 2 ^ 128"
  shows "\<exists>f. (\<forall>i < unat n. \<exists>u. jin_swap_sale_listing_total_units S (of_nat i) = Inr u \<and>
      f i = unat u \<and> 0 < f i \<and> f i \<le> unat b) \<and> (\<Sum>i < unat n. f i) = unat t"
proof -
  have b: "0 < unat b" and n: "unat n = unat ((t + b - 1) div b)"
    using assms(1-3) by (auto simp: jin_swap_sale_batch_count_def result_simps unat_gt_0 dest: u32_try_from_Some)
  have "t + b - 1 = of_nat (unat t + unat b - 1)" using b by (simp add: of_nat_diff)
  then have n': "unat n = (unat t + unat b - 1) div unat b"
    using assms(4) n by (simp add: unat_div unat_of_nat take_bit_nat_eq_self)
  define f where "f i = min (unat t - unat b * i) (unat b)" for i
  have "\<exists>u. jin_swap_sale_listing_total_units S (of_nat i) = Inr u \<and> f i = unat u \<and> 0 < f i \<and> f i \<le> unat b"
    if i: "i < unat n" for i
  proof -
    have "i < 2 ^ 32" using i unat_bound [of n] by simp
    then have ui: "unat (of_nat i :: u32) = i" by (intro unat_of_nat_less) simp
    have "Suc i \<le> (unat t + unat b - 1) div unat b" using i n' by simp
    then have "Suc i * unat b \<le> unat t + unat b - 1" by (simp only: less_eq_div_iff_mult_less_eq [OF b])
    then have lt: "unat b * i < unat t" using b by (simp add: mult.commute)
    then have "unat b * i < 2 ^ 128" using unat_bound [of t] by simp
    then obtain s where s: "checked_mul b (ucast (of_nat i :: u32)) = Some s" "unat s = unat b * i"
      by (auto simp: checked_mul_def ui unat_word_ariths)
    have "\<not> s \<ge> t" "unat (t - s) = unat t - unat b * i"
      using s lt by (simp_all add: word_le_nat_alt unat_sub)
    then have "jin_swap_sale_listing_total_units S (of_nat i) = Inr (min (t - s) b)"
      "unat (min (t - s) b) = f i"
      using assms(1,2) s by (auto simp: jin_swap_sale_listing_total_units_def f_def min_def word_le_nat_alt)
    then show ?thesis using b lt by (auto simp: f_def)
  qed
  moreover have "(\<Sum>i < unat n. f i) = unat t" using batch_sum [OF b, of "unat t"] by (simp add: f_def n')
  ultimately show ?thesis by blast
qed

lemma parse_units_show_word: "parse_jin_units_raw (show_word u) = Inr u"
proof -
  obtain c cs where c: "show_word u = c # cs" using show_word_nonempty [of u] by (cases "show_word u") auto
  then have "c \<noteq> CHR ''-''" using show_word_digits [of c u] digit_not_minus by auto
  then have "\<not> starts_with (show_word u) ''-''" using c by (simp add: starts_with_def)
  then show ?thesis using show_word_nonempty [of u] by (simp add: parse_jin_units_raw_def)
qed

lemma ex_sale_units:
  "jin_swap_sale_total_units (example_settings name) = Inr 85000000000000000000000000"
  "jin_swap_sale_batch_units (example_settings name) = Inr 1000000000000000000000000"
proof -
  have t: "show_word (85000000000000000000000000 :: u128) = ''85000000000000000000000000''"
    "show_word (1000000000000000000000000 :: u128) = ''1000000000000000000000000''"
    by (simp_all add: show_word_def show_nat.simps digit_char_def char_of_def bit_iff_odd)
  from parse_units_show_word [of 85000000000000000000000000] parse_units_show_word [of 1000000000000000000000000]
  show "jin_swap_sale_total_units (example_settings name) = Inr 85000000000000000000000000"
    "jin_swap_sale_batch_units (example_settings name) = Inr 1000000000000000000000000"
    by (simp_all add: jin_swap_sale_total_units_def jin_swap_sale_batch_units_def ex_jin_swap_def t)
qed

lemma ex_sale_count: "jin_swap_sale_batch_count (example_settings name) = Inr 85"
  by (simp add: jin_swap_sale_batch_count_def ex_sale_units u32_try_from_def)

lemma sale_listings_partition_witness:
  "\<exists>f. (\<forall>i < 85. \<exists>u. jin_swap_sale_listing_total_units (example_settings ''regtest'') (of_nat i) = Inr u \<and>
      f i = unat u) \<and> (\<Sum>i < 85. f i) = (85000000000000000000000000 :: nat)"
proof -
  obtain f where f: "\<forall>i < 85. \<exists>u. jin_swap_sale_listing_total_units (example_settings ''regtest'') (of_nat i) = Inr u \<and>
      f i = unat u \<and> 0 < f i \<and> f i \<le> 1000000000000000000000000"
    "(\<Sum>i < 85. f i) = 85000000000000000000000000"
    using sale_listings_partition [of "example_settings ''regtest''", OF ex_sale_units ex_sale_count] by auto
  then show ?thesis by blast
qed

section \<open>Checked purchases\<close>

lemma sale_state_Inr:
  assumes "validate_jin_sale_purchase_state X S ps tx u h sold = Inr (sold', fee)"
  obtains (none) "ps = []" and "sold' = sold" and "fee = 0"
  | (one) idx p m buyer t price pfee protocol required v where
      "ps = [(idx, p, m)]" and "jin_swap_active S h" and "\<not> is_coinbase tx"
      and "parse_with_prefix X (sp_buyer p) (net_address_prefix (network S)) = Inr buyer"
      and "input_authorizes_address tx u buyer"
      and "jin_swap_sale_listing_total_units_at_height S (sp_listing_id p) h = Inr t"
      and "sp_amount_units p \<le> sat_sub t (get_or0 sold (sp_listing_id p))"
      and "jin_swap_sale_price_atoms S (sp_listing_id p) (sp_amount_units p) = Inr price"
      and "sp_price_atoms p = price" and "jin_swap_fee_split_atoms S price = Inr (pfee, fee)"
      and "sp_protocol_fee_atoms p = pfee"
      and "parse_with_prefix X (jin_protocol_address (jin S)) (net_address_prefix (network S)) = Inr protocol"
      and "checked_add price pfee = Some required"
      and "required \<le> paid_to_script tx idx (address_script_pubkey protocol)"
      and "checked_add (get_or0 sold (sp_listing_id p)) (sp_amount_units p) = Some v"
      and "sold' = fmupd (sp_listing_id p) v sold"
proof (cases "ps = []")
  case True
  with assms none show thesis by (simp add: validate_jin_sale_purchase_state_def)
next
  case False
  with assms have "length ps = 1"
    by (cases "length ps") (auto simp: validate_jin_sale_purchase_state_def split: if_splits)
  then obtain idx p m where "ps = [(idx, p, m)]" by (auto simp: length_Suc_conv)
  with assms one show thesis
    by (auto simp: validate_jin_sale_purchase_state_def result_simps Let_def not_less split: prod.splits if_splits)
qed

text \<open>A checked purchase is recorded as the same change of the units sold.\<close>

lemma sale_state_recorded:
  "validate_jin_sale_purchase_state X S (jin_sale_purchases_in_tx X tx S) tx u h sold = Inr (sold', fee) \<Longrightarrow>
    sale_record_tx X S tx sold = Inr sold'"
  by (erule sale_state_Inr) (simp_all add: sale_record_tx_def sale_record_one_def)

lemma validate_sale_tx_Inr:
  "validate_jin_sale_tx X S h tx (u, sold) = Inr (u', sold') \<longleftrightarrow>
    (\<exists>fee txfee. validate_jin_sale_purchase_state X S (jin_sale_purchases_in_tx X tx S) tx u h sold = Inr (sold', fee) \<and>
      validate_tx_contextual X tx u h S True = Inr txfee \<and> connect_tx_utxos X tx h False u = Inr u')"
  by (auto simp: validate_jin_sale_tx_def result_simps)

interpretation sale_tx: checked_replay "validate_jin_sale_tx X S h" "sale_record_tx X S" "\<lambda>st sold. snd st = sold"
proof
  fix s :: "utxo_map \<times> jin_sold" and t tx s'
  assume "snd s = t" and "validate_jin_sale_tx X S h tx s = Inr s'"
  then show "\<exists>t'. sale_record_tx X S tx t = Inr t' \<and> snd s' = t'"
    by (cases s, cases s') (auto simp: validate_sale_tx_Inr dest: sale_state_recorded)
qed

text \<open>No listing that grows goes beyond what it has to sell.\<close>

definition not_oversold :: "settings \<Rightarrow> u32 \<Rightarrow> jin_sold \<Rightarrow> jin_sold \<Rightarrow> bool" where
  "not_oversold S h old new \<longleftrightarrow> (\<forall>i. get_or0 new i = get_or0 old i \<or>
     (\<exists>t. jin_swap_sale_listing_total_units_at_height S i h = Inr t \<and>
        get_or0 old i \<le> get_or0 new i \<and> get_or0 new i \<le> t))"

lemma not_oversold_refl: "not_oversold S h sold sold"
  by (simp add: not_oversold_def)

lemma not_oversold_trans: "not_oversold S h a b \<Longrightarrow> not_oversold S h b c \<Longrightarrow> not_oversold S h a c"
proof -
  assume ab: "not_oversold S h a b" and bc: "not_oversold S h b c"
  show ?thesis
    unfolding not_oversold_def
  proof
    fix i
    show "get_or0 c i = get_or0 a i \<or> (\<exists>t. jin_swap_sale_listing_total_units_at_height S i h = Inr t \<and>
        get_or0 a i \<le> get_or0 c i \<and> get_or0 c i \<le> t)"
      using spec [OF ab [unfolded not_oversold_def], of i] spec [OF bc [unfolded not_oversold_def], of i]
      by (elim disjE exE conjE) (simp_all, blast intro: order_trans)
  qed
qed

lemma sale_state_not_oversold:
  assumes "validate_jin_sale_purchase_state X S ps tx u h sold = Inr (sold', fee)"
  shows "not_oversold S h sold sold'"
  using assms
proof (cases rule: sale_state_Inr)
  case (one idx p m buyer t price pfee protocol required v)
  let ?o = "get_or0 sold (sp_listing_id p)"
  have "unat v = unat ?o + unat (sp_amount_units p)" using one(15) by (simp add: checked_add_Some)
  moreover have "unat (sp_amount_units p) \<le> unat t - unat ?o"
    using one(7) by (simp add: word_le_nat_alt unat_sat_sub)
  moreover have "sp_amount_units p \<noteq> 0" using one(8) by (auto simp: jin_swap_sale_price_atoms_def)
  then have "0 < unat (sp_amount_units p)" by (simp add: unat_gt_0)
  ultimately have "?o \<le> v" "v \<le> t" by (simp_all add: word_le_nat_alt)
  with one(6,16) show ?thesis by (auto simp: not_oversold_def)
qed (simp add: not_oversold_refl)

lemma sale_txs_not_oversold:
  assumes "fold_r (validate_jin_sale_tx X S h) txs (u, sold) = Inr st"
  shows "not_oversold S h sold (snd st)"
  using assms
proof (rule fold_r_inv)
  show "not_oversold S h sold (snd (u, sold))" by (simp add: not_oversold_refl)
  fix tx s s'
  assume "not_oversold S h sold (snd s)" and "validate_jin_sale_tx X S h tx s = Inr s'"
  then show "not_oversold S h sold (snd s')"
    by (cases s, cases s') (auto simp: validate_sale_tx_Inr dest!: sale_state_not_oversold intro: not_oversold_trans)
qed

lemma sale_inactive_no_purchases:
  assumes "fold_r (validate_jin_sale_tx X S h) txs st = Inr st'" and "\<not> jin_swap_active S h"
  shows "snd st' = snd st"
  using assms(1)
  by (rule fold_r_inv [where P = "\<lambda>s. snd s = snd st"])
    (use assms(2) in \<open>auto simp: validate_sale_tx_Inr elim!: sale_state_Inr\<close>)

lemma no_purchases_recorded:
  "list_all (\<lambda>tx. jin_sale_purchases_in_tx X tx S = []) txs \<Longrightarrow> fold_r (sale_record_tx X S) txs sold = Inr sold"
  by (induction txs) (simp_all add: sale_record_tx_def)

text \<open>Also the replay of a block without purchases or before the sale is that of its transactions.\<close>

lemma sale_checked_block_replayed:
  assumes "validate_jin_sale_block X S b bs u (of_nat (length bs)) = Inr ()" and "bs \<noteq> []"
    and "jin_sale_sold_by_listing_from_blocks X S bs = Inr sold"
  shows "\<exists>sold'. jin_sale_sold_by_listing_from_blocks X S (bs @ [b]) = Inr sold' \<and>
    fold_r (sale_record_tx X S) (drop 1 (blk_transactions b)) sold = Inr sold' \<and>
    not_oversold S (of_nat (length bs)) sold sold'"
proof -
  let ?h = "of_nat (length bs) :: u32" and ?txs = "drop 1 (blk_transactions b)"
  have replay: "jin_sale_sold_by_listing_from_blocks X S (bs @ [b]) =
      (if \<not> jin_swap_active S ?h then Inr sold else fold_r (sale_record_tx X S) ?txs sold)"
    using assms(2,3)
    by (cases "fold_r (sale_record_tx X S) ?txs sold")
      (simp_all add: jin_sale_sold_by_listing_from_blocks_def numbered_snoc fold_r_append sale_record_block_def)
  show ?thesis
  proof (cases "list_all (\<lambda>tx. jin_sale_purchases_in_tx X tx S = []) ?txs")
    case True
    then show ?thesis using replay no_purchases_recorded [OF True] by (simp add: not_oversold_refl)
  next
    case False
    with assms(1,3) obtain st where st: "fold_r (validate_jin_sale_tx X S ?h) ?txs (u, sold) = Inr st"
      by (auto simp: validate_jin_sale_block_def result_simps)
    from sale_tx.checked_then_recorded [OF _ st] have r: "fold_r (sale_record_tx X S) ?txs sold = Inr (snd st)" by simp
    have "jin_swap_active S ?h \<or> snd st = sold" using sale_inactive_no_purchases [OF st] by auto
    then show ?thesis using replay r sale_txs_not_oversold [OF st] by auto
  qed
qed

text \<open>The units of a listing that the transactions of a block buy.\<close>

definition units_bought :: "extern \<Rightarrow> settings \<Rightarrow> transaction \<Rightarrow> u32 \<Rightarrow> nat" where
  "units_bought X S tx i = sum_list (map (\<lambda>(_, p, _). unat (sp_amount_units p))
     (filter (\<lambda>(_, p, _). sp_listing_id p = i) (jin_sale_purchases_in_tx X tx S)))"

definition block_units_bought :: "extern \<Rightarrow> settings \<Rightarrow> block \<Rightarrow> u32 \<Rightarrow> nat" where
  "block_units_bought X S b i = sum_list (map (\<lambda>tx. units_bought X S tx i) (drop 1 (blk_transactions b)))"

lemma recorded_one_units:
  assumes "sale_record_one m sold = Inr sold'"
  shows "unat (get_or0 sold' i) = unat (get_or0 sold i) +
    (case m of (_, p, _) \<Rightarrow> if sp_listing_id p = i then unat (sp_amount_units p) else 0)"
  using assms by (auto simp: sale_record_one_def result_simps checked_add_Some split: prod.splits)

lemma recorded_tx_units:
  assumes "sale_record_tx X S tx sold = Inr sold'"
  shows "unat (get_or0 sold' i) = unat (get_or0 sold i) + units_bought X S tx i"
proof -
  have "unat (get_or0 sold' i) = unat (get_or0 sold i) + sum_list (map (\<lambda>(_, p, _). unat (sp_amount_units p))
      (filter (\<lambda>(_, p, _). sp_listing_id p = i) ms))" if "fold_r sale_record_one ms sold = Inr sold'" for ms
    using that by (induction ms arbitrary: sold) (auto simp: result_simps recorded_one_units split: prod.splits)
  with assms show ?thesis by (simp add: sale_record_tx_def units_bought_def)
qed

lemma recorded_txs_units:
  "fold_r (sale_record_tx X S) txs sold = Inr sold' \<Longrightarrow>
    unat (get_or0 sold' i) = unat (get_or0 sold i) + sum_list (map (\<lambda>tx. units_bought X S tx i) txs)"
  by (induction txs arbitrary: sold) (auto simp: result_simps recorded_tx_units)

text \<open>
  C28: No listing is oversold, and what a block buys is what the chain records. When a block passes
  the sale checks on top of a chain, replaying the longer chain succeeds; the units it records for
  each listing are those of the chain before plus all the units the transactions of the block buy of
  that listing, without overflow; and a listing from which the block buys has then sold no more than it
  has to sell at that height.
\<close>

theorem sale_block_not_oversold:
  assumes "validate_jin_sale_block X S b bs u (of_nat (length bs)) = Inr ()" and "bs \<noteq> []"
    and "jin_sale_sold_by_listing_from_blocks X S bs = Inr sold"
  shows "\<exists>sold'. jin_sale_sold_by_listing_from_blocks X S (bs @ [b]) = Inr sold' \<and>
    (\<forall>i. unat (get_or0 sold' i) = unat (get_or0 sold i) + block_units_bought X S b i) \<and>
    (\<forall>i. block_units_bought X S b i \<noteq> 0 \<longrightarrow>
      (\<exists>t. jin_swap_sale_listing_total_units_at_height S i (of_nat (length bs)) = Inr t \<and> get_or0 sold' i \<le> t))"
proof -
  from sale_checked_block_replayed [OF assms] obtain sold'
    where r: "jin_sale_sold_by_listing_from_blocks X S (bs @ [b]) = Inr sold'"
      and f: "fold_r (sale_record_tx X S) (drop 1 (blk_transactions b)) sold = Inr sold'"
      and n: "not_oversold S (of_nat (length bs)) sold sold'" by blast
  have units: "unat (get_or0 sold' i) = unat (get_or0 sold i) + block_units_bought X S b i" for i
    using recorded_txs_units [OF f] by (simp add: block_units_bought_def)
  then have "get_or0 sold' i \<noteq> get_or0 sold i" if "block_units_bought X S b i \<noteq> 0" for i using that
    by (metis add_eq_self_zero)
  with r units n show ?thesis unfolding not_oversold_def by blast
qed

lemma sum_list_words_le: "unat (sum_list ws) \<le> sum_list (map unat ws)" for ws :: "'w::len word list"
proof (induction ws)
  case (Cons w ws)
  have "unat (w + sum_list ws) \<le> unat w + unat (sum_list ws)" by (simp add: unat_word_ariths)
  with Cons show ?case by simp
qed simp

lemma sale_price_nat:
  assumes "jin_swap_sale_price_atoms S i amount = Inr price"
  shows "\<exists>per. jin_swap_sale_listing_price_atoms_per_jin S i = Inr per \<and> unat amount mod 10 ^ 18 = 0 \<and>
    unat price = unat per * (unat amount div 10 ^ 18)"
proof -
  have m: "amount mod JIN_UNITS_PER_COIN = 0" using assms unfolding jin_swap_sale_price_atoms_def result_simps by blast
  obtain per atoms where per: "jin_swap_sale_listing_price_atoms_per_jin S i = Inr per"
    and mul: "checked_mul (ucast per) (amount div JIN_UNITS_PER_COIN) = Some atoms"
    and r: "(if atoms = 0 \<or> atoms > 0xFFFFFFFFFFFFFFFF then Inl (SaleErr SalePriceRange) else Inr (ucast atoms)) = Inr price"
    using assms unfolding jin_swap_sale_price_atoms_def Let_def result_simps by blast
  then have le: "\<not> atoms > 0xFFFFFFFFFFFFFFFF" and p: "price = ucast atoms" by (simp_all split: if_splits)
  have a: "unat atoms = unat per * unat (amount div JIN_UNITS_PER_COIN)"
    using mul by (simp add: checked_mul_Some del: JIN_UNITS_PER_COIN_def)
  have "unat atoms < 2 ^ 64" using le by (simp add: word_less_nat_alt)
  then have "unat price = unat atoms" by (simp add: p unsigned_ucast_eq take_bit_nat_eq_self)
  moreover have "unat amount mod 10 ^ 18 = 0"
    using arg_cong [OF m, of unat] by (simp add: unat_mod)
  ultimately show ?thesis using per a by (simp add: unat_div)
qed

text \<open>
  C29: Every purchase is authorised and paid for. In a transaction that passes the sale checks of a
  block, the buyer owns one of the spent coins, the amount is a whole number of JIN, and the
  outputs to the protocol, the marker apart, add up to at least the listing's price for each JIN
  plus a two-thousandth of it; the addition of payments in 64 bits does not matter.
\<close>

theorem sale_purchase_paid:
  assumes "validate_jin_sale_tx X S h tx (u, sold) = Inr (u', sold')"
    and "(idx, p, m) \<in> set (jin_sale_purchases_in_tx X tx S)"
  shows "\<exists>buyer protocol per. parse_with_prefix X (sp_buyer p) (net_address_prefix (network S)) = Inr buyer \<and>
    input_authorizes_address tx u buyer \<and>
    parse_with_prefix X (jin_protocol_address (jin S)) (net_address_prefix (network S)) = Inr protocol \<and>
    jin_swap_sale_listing_price_atoms_per_jin S (sp_listing_id p) = Inr per \<and>
    unat (sp_amount_units p) mod 10 ^ 18 = 0 \<and>
    (let price = unat per * (unat (sp_amount_units p) div 10 ^ 18) in
       price + (price + 1999) div 2000 \<le>
         sum_list (map (\<lambda>(_, out). unat (out_value out))
           (filter (\<lambda>(i, out). i \<noteq> idx \<and> script_pubkey out = address_script_pubkey protocol)
             (enumerate 0 (tx_outputs tx)))))"
proof -
  obtain fee where "validate_jin_sale_purchase_state X S (jin_sale_purchases_in_tx X tx S) tx u h sold = Inr (sold', fee)"
    using assms(1) by (auto simp: validate_sale_tx_Inr)
  then show ?thesis
  proof (cases rule: sale_state_Inr)
    case (one idx' p' m' buyer t price pfee protocol required v)
    then have eq: "idx' = idx" "p' = p" using assms(2) by simp_all
    have "swap_protocol_fee_bps (jin_swap S) = 10" using one(10) by (auto simp: jin_swap_fee_split_atoms_def Let_def split: if_splits)
    with fee_split_nat [of S price] one(10) have fee: "unat pfee = (unat price + 1999) div 2000" by auto
    have req: "unat required = unat price + unat pfee" using one(13) by (simp add: checked_add_Some)
    have "unat required \<le> unat (paid_to_script tx idx (address_script_pubkey protocol))"
      using one(14) eq by (simp add: word_le_nat_alt)
    also have "\<dots> \<le> sum_list (map (\<lambda>(_, out). unat (out_value out))
           (filter (\<lambda>(i, out). i \<noteq> idx \<and> script_pubkey out = address_script_pubkey protocol)
             (enumerate 0 (tx_outputs tx))))"
      unfolding paid_to_script_def
      using sum_list_words_le [of "map (\<lambda>(_, out). out_value out)
        (filter (\<lambda>(i, out). i \<noteq> idx \<and> script_pubkey out = address_script_pubkey protocol) (enumerate 0 (tx_outputs tx)))"]
      by (simp add: comp_def case_prod_unfold)
    finally have paid: "unat price + (unat price + 1999) div 2000 \<le> \<dots>" using req fee by simp
    obtain per where per: "jin_swap_sale_listing_price_atoms_per_jin S (sp_listing_id p) = Inr per"
      "unat (sp_amount_units p) mod 10 ^ 18 = 0" "unat price = unat per * (unat (sp_amount_units p) div 10 ^ 18)"
      using sale_price_nat [OF one(8)] eq by auto
    show ?thesis using one(4,5,12) per paid eq by (auto simp: Let_def)
  qed (use assms(2) in simp)
qed

text \<open>A network with the sale open, and its owner of one coin buying one JIN.\<close>

definition ex_owner :: address where
  "ex_owner = address_new ''qub'' (public_key_hash ref_extern ''k'')"

lemma ex_owner: "wf_address ex_owner" "addr_prefix ex_owner = ''qub''" "address_script_pubkey ex_owner = ex_script"
  by (simp_all add: ex_owner_def wf_address_def address_new_def address_script_pubkey_def ex_script_def
      public_key_hash_def ripemd160_length [OF ref_extern_ok] is_ascii_lowercase_def less_eq_char_def)

lemma parse_ex_address: "wf_address a \<Longrightarrow> addr_prefix a = ''qub'' \<Longrightarrow>
    parse_with_prefix ref_extern (address_to_string ref_extern a) ''qub'' = Inr a"
  using parse_with_prefix_to_string [OF ref_extern_ok, of a] by simp

definition ex_sale_settings :: settings where
  "ex_sale_settings = (example_settings ''regtest'')
     \<lparr>jin := ex_jin\<lparr>jin_activation_height := 0, jin_protocol_address := address_to_string ref_extern (ex_addr (CHR ''p''))\<rparr>,
      jin_swap := ex_jin_swap\<lparr>swap_activation_height := 0\<rparr>\<rparr>"

lemma ex_sale_simps:
  "network ex_sale_settings = ex_network ''regtest''" "net_address_prefix (ex_network ''regtest'') = ''qub''"
  "jin_protocol_address (jin ex_sale_settings) = address_to_string ref_extern (ex_addr (CHR ''p''))"
  "swap_marker_output_atoms (jin_swap ex_sale_settings) = 1" "swap_protocol_fee_bps (jin_swap ex_sale_settings) = 10"
  "consensus ex_sale_settings = ex_consensus" "net_name (network ex_sale_settings) = ''regtest''"
  "swap_sale_start_price_atoms_per_jin (jin_swap ex_sale_settings) = 1000000"
  "swap_sale_step_price_atoms_per_jin (jin_swap ex_sale_settings) = 100000"
  by (simp_all add: ex_sale_settings_def ex_network_def ex_jin_swap_def)

lemma ex_sale_more:
  "jin_swap_active ex_sale_settings h" "jin_swap_sale_batch_count ex_sale_settings = Inr 85"
  "jin_swap_sale_listing_total_units ex_sale_settings 0 = Inr 1000000000000000000000000"
  "jin_swap_sale_price_atoms ex_sale_settings 0 1000000000000000000 = Inr 1000000"
  "jin_swap_fee_split_atoms ex_sale_settings 1000000 = Inr (500, 500)"
proof -
  have u: "jin_swap_sale_total_units ex_sale_settings = Inr 85000000000000000000000000"
    "jin_swap_sale_batch_units ex_sale_settings = Inr 1000000000000000000000000"
    using ex_sale_units [of "''regtest''"]
    by (simp_all add: jin_swap_sale_total_units_def jin_swap_sale_batch_units_def ex_sale_settings_def)
  show c: "jin_swap_sale_batch_count ex_sale_settings = Inr 85"
    by (simp add: jin_swap_sale_batch_count_def u u32_try_from_def)
  show "jin_swap_active ex_sale_settings h"
    by (simp add: jin_swap_active_def jin_swap_enabled_def ex_sale_settings_def ex_jin_swap_def ex_jin_def ex_features_def)
  show "jin_swap_sale_listing_total_units ex_sale_settings 0 = Inr 1000000000000000000000000"
    by (simp add: jin_swap_sale_listing_total_units_def u checked_mul_def word_le_nat_alt min_def)
  show "jin_swap_sale_price_atoms ex_sale_settings 0 1000000000000000000 = Inr 1000000"
    by (simp add: jin_swap_sale_price_atoms_def jin_swap_sale_listing_price_atoms_per_jin_def c ex_sale_simps
        checked_mul_def checked_add_def word_le_nat_alt word_less_nat_alt)
  obtain q where q: "jin_swap_fee_split_atoms ex_sale_settings 1000000 = Inr (q, q)" "unat q = 500"
    using fee_split_nat [of ex_sale_settings 1000000] by (auto simp: ex_sale_simps)
  then show "jin_swap_fee_split_atoms ex_sale_settings 1000000 = Inr (500, 500)"
    using word_unat_eq_iff [of q 500] by simp
qed

lemma parse_sale_marker:
  assumes "extern_ok X" and "wf_address a" and "addr_prefix a = net_address_prefix (network S)"
  shows "parse_jin_sale_purchase_script X (pipes [''JINSWAP1'', ''sale-buy'', ''v1'', address_to_string X a,
      show_word i, show_word u, show_word p, show_word f]) S =
    Some \<lparr>sp_buyer = address_to_string X a, sp_listing_id = i, sp_amount_units = u, sp_price_atoms = p,
      sp_protocol_fee_atoms = f\<rparr>"
proof -
  let ?fs = "[''JINSWAP1'', ''sale-buy'', ''v1'', address_to_string X a, show_word i, show_word u, show_word p, show_word f]"
  define s where "s = pipes ?fs"
  have "plain_field ''JINSWAP1''" "plain_field ''sale-buy''" "plain_field ''v1''"
    by (simp_all add: plain_field_def is_ascii_graphic_def)
  then have "list_all plain_field ?fs" using plain_address [OF assms(1,2)] by (simp add: plain_show_word)
  then have r: "from_utf8 s = Some s" "split_on (CHR ''|'') s = ?fs"
    using pipes_read_back [of ?fs] by (simp_all add: s_def)
  have "starts_with s JIN_SWAP_SCRIPT_PREFIX" by (simp add: s_def starts_with_def JIN_SWAP_SCRIPT_PREFIX_def pipes_def)
  then show ?thesis
    unfolding s_def [symmetric]
    using parse_with_prefix_to_string [OF assms(1,2)] assms(3)
    by (simp add: parse_jin_sale_purchase_script_def r)
qed

definition ex_sale_outs :: "tx_out list" where
  "ex_sale_outs = [\<lparr>out_value = 1, script_pubkey = pipes [''JINSWAP1'', ''sale-buy'', ''v1'',
       address_to_string ref_extern ex_owner, show_word (0 :: u32), show_word (1000000000000000000 :: u128),
       show_word (1000000 :: u64), show_word (500 :: u64)]\<rparr>,
     \<lparr>out_value = 1000500, script_pubkey = address_script_pubkey (ex_addr (CHR ''p''))\<rparr>]"

definition ex_purchase :: jin_sale_purchase where
  "ex_purchase = \<lparr>sp_buyer = address_to_string ref_extern ex_owner, sp_listing_id = 0,
     sp_amount_units = 1000000000000000000, sp_price_atoms = 1000000, sp_protocol_fee_atoms = 500\<rparr>"

lemma ex_sale_purchases:
  "jin_sale_purchases_in_tx ref_extern (ex_pay ex_sale_outs) ex_sale_settings = [(0, ex_purchase, 1)]"
proof -
  note m = parse_sale_marker [OF ref_extern_ok ex_owner(1), of ex_sale_settings]
  have n: "parse_jin_sale_purchase_script ref_extern (address_script_pubkey a) ex_sale_settings = None" for a
    by (cases "from_utf8 (address_script_pubkey a)")
      (auto simp: parse_jin_sale_purchase_script_def from_utf8_def address_script_pubkey_def JIN_SWAP_SCRIPT_PREFIX_def
        dest!: starts_with_first split: if_splits)
  show ?thesis
    by (simp add: jin_sale_purchases_in_tx_def markers_in_def ex_pay_simps ex_sale_outs_def List.map_filter_def
        m n ex_owner ex_sale_simps ex_purchase_def)
qed

lemma ex_sale_valid:
  "\<exists>u. validate_jin_sale_tx ref_extern ex_sale_settings h (ex_pay ex_sale_outs) (ex_coin 2000000, fmempty) =
    Inr (u, fmupd 0 1000000000000000000 fmempty)"
proof -
  let ?tx = "ex_pay ex_sale_outs" and ?sold = "fmupd 0 1000000000000000000 fmempty"
  have auth: "input_authorizes_address ?tx (ex_coin 2000000) ex_owner"
    by (simp add: input_authorizes_address_def ex_pay_simps ex_coin_def ex_owner)
  have paid: "paid_to_script ?tx 0 (address_script_pubkey (ex_addr (CHR ''p''))) = 1000500"
    by (simp add: paid_to_script_def ex_pay_simps ex_sale_outs_def)
  have listing: "jin_swap_sale_listing_total_units_at_height ex_sale_settings 0 h = Inr 1000000000000000000000000"
    by (simp add: jin_swap_sale_listing_total_units_at_height_def ex_sale_more ex_sale_simps(7) word_le_nat_alt)
  have "validate_jin_sale_purchase_state ref_extern ex_sale_settings
      (jin_sale_purchases_in_tx ref_extern ?tx ex_sale_settings) ?tx (ex_coin 2000000) h fmempty = Inr (?sold, 500)"
    using ex_kind parse_ex_address [OF ex_owner(1,2)] parse_ex_address [OF ex_addr_wf]
    by (simp add: validate_jin_sale_purchase_state_def ex_sale_purchases ex_sale_more ex_sale_simps ex_purchase_def
        auth paid listing checked_add_def sat_sub_def word_less_nat_alt)
  moreover have "validate_tx_contextual ref_extern ?tx (ex_coin 2000000) h ex_sale_settings True = Inr (of_nat (2000000 - 1000501))"
  proof -
    have "fold_r (add_output_value ex_sale_settings) ex_sale_outs 0 = Inr 1000501"
      by (simp add: ex_sale_outs_def add_output_value_def ex_sale_simps ex_consensus_def MAX_MONEY_ATOMS_val word_less_nat_alt)
    moreover have "list_all (\<lambda>out. \<not> starts_with (script_pubkey out) BLAST_SCRIPT_PREFIX) ex_sale_outs"
      by (auto simp: ex_sale_outs_def BLAST_SCRIPT_PREFIX_def pipes_def address_script_pubkey_def dest!: starts_with_first)
    ultimately show ?thesis using ex_pay_validate [of ex_sale_settings ex_sale_outs 1000501 2000000 h]
      by (simp add: ex_sale_outs_def MAX_SEND_ENTRIES_PER_TX_def)
  qed
  moreover obtain u where "connect_tx_utxos ref_extern ?tx h False (ex_coin 2000000) = Inr u"
    using ex_pay_connect [of ex_sale_outs h 2000000] by (auto simp: ex_sale_outs_def)
  ultimately have "validate_jin_sale_tx ref_extern ex_sale_settings h ?tx (ex_coin 2000000, fmempty) = Inr (u, ?sold)"
    unfolding validate_sale_tx_Inr by blast
  then show ?thesis by blast
qed

lemma sale_purchase_paid_witness:
  "\<exists>buyer. parse_with_prefix ref_extern (sp_buyer ex_purchase) ''qub'' = Inr buyer \<and>
    input_authorizes_address (ex_pay ex_sale_outs) (ex_coin 2000000) buyer"
proof -
  obtain u where "validate_jin_sale_tx ref_extern ex_sale_settings 5 (ex_pay ex_sale_outs) (ex_coin 2000000, fmempty) =
      Inr (u, fmupd 0 1000000000000000000 fmempty)" using ex_sale_valid by blast
  from sale_purchase_paid [OF this, of 0 ex_purchase 1] show ?thesis
    by (auto simp: ex_sale_purchases ex_sale_simps)
qed

definition ex_sale_block :: block where
  "ex_sale_block = example_block [example_tx, ex_pay ex_sale_outs]"

lemma sale_block_not_oversold_witness:
  "\<exists>sold. jin_sale_sold_by_listing_from_blocks ref_extern ex_sale_settings [example_block [], ex_sale_block] = Inr sold \<and>
    unat (get_or0 sold 0) = 10 ^ 18"
proof -
  have s0: "jin_sale_sold_by_listing_from_blocks ref_extern ex_sale_settings [example_block []] = Inr fmempty"
    by (simp add: jin_sale_sold_by_listing_from_blocks_def)
  obtain u where v: "validate_jin_sale_tx ref_extern ex_sale_settings 1 (ex_pay ex_sale_outs) (ex_coin 2000000, fmempty) =
      Inr (u, fmupd 0 1000000000000000000 fmempty)" using ex_sale_valid by blast
  then have "validate_jin_sale_block ref_extern ex_sale_settings ex_sale_block [example_block []] (ex_coin 2000000)
      (of_nat (length [example_block []])) = Inr ()"
    by (simp add: validate_jin_sale_block_def ex_sale_block_def example_block_def s0 [unfolded example_block_def])
  moreover have "block_units_bought ref_extern ex_sale_settings ex_sale_block 0 = 10 ^ 18"
    by (simp add: block_units_bought_def units_bought_def ex_sale_block_def example_block_def ex_sale_purchases ex_purchase_def)
  ultimately show ?thesis
    using sale_block_not_oversold [of ref_extern ex_sale_settings ex_sale_block "[example_block []]", OF _ _ s0] by fastforce
qed

end
