(* ===== verification/Library.thy ===== *)
theory Library
  imports JinSale "HOL-Library.Product_Lexorder"
begin

text \<open>
  The on-chain library of \<open>src/lib.rs\<close> (\<open>LibraryMarker\<close>, \<open>LibraryState\<close> and the functions from
  \<open>library_enabled\<close> to \<open>validate_library_block\<close>): posts, comments, votes, edits and deletions
  written as markers, the state replayed from the blocks, and the checks of a block. The lemmas
  show that a block that passes its checks never makes the replay of the chain fail, and that
  comments stay within the nesting limit.
\<close>

definition LIBRARY_SCRIPT_PREFIX :: bytes where "LIBRARY_SCRIPT_PREFIX = ''LIB1|''"

datatype library_marker =
  LibPost (lm_author: string) (lm_title: string) (lm_category: string) (lm_page_index: u32)
    (lm_page_total: u32) (lm_body: string)
| LibComment (lm_post_id: string) (lm_parent: "string option") (lm_author: string) (lm_body: string)
| LibVote (lm_kind: string) (lm_target: string) (lm_author: string) (lm_up: bool)
| LibEdit (lm_kind: string) (lm_target: string) (lm_author: string) (lm_title: string)
    (lm_category: string) (lm_body: string)
| LibDelete (lm_kind: string) (lm_target: string) (lm_author: string)

record library_post =
  lp_id :: string
  lp_author :: string
  lp_title :: string
  lp_category :: string
  lp_body :: string
  lp_created_height :: u32
  lp_created_time :: u32
  lp_edited_height :: "u32 option"
  lp_edited_time :: "u32 option"
  lp_deleted :: bool
  lp_upvotes :: u32
  lp_downvotes :: u32
  lp_comment_count :: nat

record library_comment =
  lc_id :: string
  lc_post_id :: string
  lc_parent :: "string option"
  lc_author :: string
  lc_body :: string
  lc_depth :: usize
  lc_created_height :: u32
  lc_created_time :: u32
  lc_edited_height :: "u32 option"
  lc_edited_time :: "u32 option"
  lc_deleted :: bool
  lc_upvotes :: u32
  lc_downvotes :: u32

record library_state =
  ls_posts :: "library_post list"
  ls_comments :: "library_comment list"

section \<open>Fields and markers\<close>

definition library_active :: "settings \<Rightarrow> u32 \<Rightarrow> bool" where
  "library_active S height \<longleftrightarrow> lib_enabled (library S) \<and> height \<ge> lib_activation_height (library S)"

definition library_hex_field :: "extern \<Rightarrow> string \<Rightarrow> usize \<Rightarrow> string result" where
  "library_hex_field X input max_bytes =
     (let trimmed = trim input in
      if length trimmed > unat max_bytes then Inl (LibraryErr LibFieldTooLong)
      else Inr (hex_encode X trimmed))"

definition library_unhex_field :: "extern \<Rightarrow> string \<Rightarrow> usize \<Rightarrow> string result" where
  "library_unhex_field X input max_bytes =
     (if length input > unat (sat_mul max_bytes 2) then Inl (LibraryErr LibFieldTooLong) else
      rbind (ok_or (LibraryErr LibFieldEncoding) (hex_decode X input)) (\<lambda>b.
      if length b > unat max_bytes then Inl (LibraryErr LibFieldTooLong)
      else ok_or (LibraryErr LibFieldUtf8) (from_utf8 b)))"

definition library_validate_id :: "string \<Rightarrow> string result" where
  "library_validate_id raw =
     (let i = to_ascii_lowercase (trim raw) in
      if length i \<noteq> 64 \<or> \<not> list_all is_ascii_hexdigit i then Inl (LibraryErr LibInvalidId) else Inr i)"

definition library_validate_target_kind :: "string \<Rightarrow> string result" where
  "library_validate_target_kind kind =
     (let k = to_ascii_lowercase (trim kind) in
      if k \<noteq> ''post'' \<and> k \<noteq> ''comment'' then Inl (LibraryErr LibTargetKind) else Inr k)"

definition library_post_price_atoms :: "settings \<Rightarrow> string \<Rightarrow> string \<Rightarrow> string \<Rightarrow> u64 result" where
  "library_post_price_atoms S title category body =
     rbind (ok_or (LibraryErr LibPriceOverflow)
       (checked_add (of_nat (length title)) (of_nat (length category)))) (\<lambda>n.
     rbind (ok_or (LibraryErr LibPriceOverflow) (checked_add n (of_nat (length body)))) (\<lambda>n.
     rbind (ok_or (LibraryErr LibByteFeeOverflow) (checked_mul (lib_byte_fee_atoms (library S)) n)) (\<lambda>byte_fee.
     ok_or (LibraryErr LibPostFeeOverflow) (checked_add (lib_base_post_fee_atoms (library S)) byte_fee))))"

definition library_max_body :: "settings \<Rightarrow> string \<Rightarrow> usize" where
  "library_max_body S kind =
     (if kind = ''post'' then lib_max_page_bytes (library S) * lib_max_pages_per_post (library S)
      else lib_max_comment_bytes (library S))"

definition library_post_marker_script ::
  "extern \<Rightarrow> settings \<Rightarrow> address \<Rightarrow> string \<Rightarrow> string \<Rightarrow> u32 \<Rightarrow> u32 \<Rightarrow> string \<Rightarrow> script result" where
  "library_post_marker_script X S author title category page_index page_total body =
     (if page_total = 0 \<or> ucast page_total > lib_max_pages_per_post (library S)
      then Inl (LibraryErr LibPagesRange)
      else if page_index \<ge> page_total then Inl (LibraryErr LibPageIndexRange) else
      rbind (library_hex_field X title (lib_max_title_bytes (library S))) (\<lambda>title.
      rbind (library_hex_field X category (lib_max_category_bytes (library S))) (\<lambda>category.
      rbind (library_hex_field X body (lib_max_page_bytes (library S))) (\<lambda>body.
      Inr (pipes [''LIB1'', ''post'', ''v1'', address_to_string X author, title, category,
        show_word page_index, show_word page_total, body])))))"

definition library_comment_marker_script ::
  "extern \<Rightarrow> settings \<Rightarrow> string \<Rightarrow> string option \<Rightarrow> address \<Rightarrow> string \<Rightarrow> script result" where
  "library_comment_marker_script X S post_id parent_comment_id author body =
     rbind (library_validate_id post_id) (\<lambda>post_id.
     rbind (case parent_comment_id of
         Some v \<Rightarrow> if trim v \<noteq> [] then library_validate_id v else Inr ''-''
       | None \<Rightarrow> Inr ''-'') (\<lambda>parent.
     rbind (library_hex_field X body (lib_max_comment_bytes (library S))) (\<lambda>body.
     Inr (pipes [''LIB1'', ''comment'', ''v1'', post_id, parent, address_to_string X author, body]))))"

definition library_vote_marker_script :: "extern \<Rightarrow> string \<Rightarrow> string \<Rightarrow> address \<Rightarrow> bool \<Rightarrow> script result" where
  "library_vote_marker_script X target_kind target_id author up =
     rbind (library_validate_target_kind target_kind) (\<lambda>kind.
     rbind (library_validate_id target_id) (\<lambda>target_id.
     Inr (pipes [''LIB1'', ''vote'', ''v1'', kind, target_id, address_to_string X author,
       if up then ''up'' else ''down''])))"

definition library_edit_marker_script ::
  "extern \<Rightarrow> settings \<Rightarrow> string \<Rightarrow> string \<Rightarrow> address \<Rightarrow> string \<Rightarrow> string \<Rightarrow> string \<Rightarrow> script result" where
  "library_edit_marker_script X S target_kind target_id author title category body =
     rbind (library_validate_target_kind target_kind) (\<lambda>kind.
     rbind (library_validate_id target_id) (\<lambda>target_id.
     rbind (library_hex_field X title (lib_max_title_bytes (library S))) (\<lambda>title.
     rbind (library_hex_field X category (lib_max_category_bytes (library S))) (\<lambda>category.
     rbind (library_hex_field X body (library_max_body S kind)) (\<lambda>body.
     Inr (pipes [''LIB1'', ''edit'', ''v1'', kind, target_id, address_to_string X author, title,
       category, body]))))))"

definition library_delete_marker_script :: "extern \<Rightarrow> string \<Rightarrow> string \<Rightarrow> address \<Rightarrow> script result" where
  "library_delete_marker_script X target_kind target_id author =
     rbind (library_validate_target_kind target_kind) (\<lambda>kind.
     rbind (library_validate_id target_id) (\<lambda>target_id.
     Inr (pipes [''LIB1'', ''delete'', ''v1'', kind, target_id, address_to_string X author])))"

text \<open>The operands after \<open>LIB1|op|v1\<close>, one function per operation.\<close>

definition library_author :: "extern \<Rightarrow> settings \<Rightarrow> string \<Rightarrow> string option" where
  "library_author X S s =
     map_option (address_to_string X) (to_option (parse_with_prefix X s (net_address_prefix (network S))))"

definition library_field :: "extern \<Rightarrow> string \<Rightarrow> usize \<Rightarrow> string option" where
  "library_field X s max_bytes = to_option (library_unhex_field X s max_bytes)"

definition parse_library_post :: "extern \<Rightarrow> settings \<Rightarrow> string list \<Rightarrow> library_marker option" where
  "parse_library_post X S parts = (case parts of
     [a, t, c, i, n, b] \<Rightarrow>
       Option.bind (library_author X S a) (\<lambda>author.
       Option.bind (library_field X t (lib_max_title_bytes (library S))) (\<lambda>title.
       Option.bind (library_field X c (lib_max_category_bytes (library S))) (\<lambda>category.
       Option.bind (parse_uint i) (\<lambda>page_index.
       Option.bind (parse_uint n) (\<lambda>page_total.
       Option.bind (library_field X b (lib_max_page_bytes (library S))) (\<lambda>body.
       Some (LibPost author title category page_index page_total body)))))))
   | _ \<Rightarrow> None)"

definition parse_library_comment :: "extern \<Rightarrow> settings \<Rightarrow> string list \<Rightarrow> library_marker option" where
  "parse_library_comment X S parts = (case parts of
     [p, q, a, b] \<Rightarrow>
       Option.bind (to_option (library_validate_id p)) (\<lambda>post_id.
       Option.bind (if q = ''-'' then Some None
         else map_option Some (to_option (library_validate_id q))) (\<lambda>parent.
       Option.bind (library_author X S a) (\<lambda>author.
       Option.bind (library_field X b (lib_max_comment_bytes (library S))) (\<lambda>body.
       Some (LibComment post_id parent author body)))))
   | _ \<Rightarrow> None)"

definition parse_library_vote :: "extern \<Rightarrow> settings \<Rightarrow> string list \<Rightarrow> library_marker option" where
  "parse_library_vote X S parts = (case parts of
     [k, t, a, v] \<Rightarrow>
       Option.bind (to_option (library_validate_target_kind k)) (\<lambda>kind.
       Option.bind (to_option (library_validate_id t)) (\<lambda>target.
       Option.bind (library_author X S a) (\<lambda>author.
       if v = ''up'' then Some (LibVote kind target author True)
       else if v = ''down'' then Some (LibVote kind target author False) else None)))
   | _ \<Rightarrow> None)"

definition parse_library_edit :: "extern \<Rightarrow> settings \<Rightarrow> string list \<Rightarrow> library_marker option" where
  "parse_library_edit X S parts = (case parts of
     [k, t, a, ti, c, b] \<Rightarrow>
       Option.bind (to_option (library_validate_target_kind k)) (\<lambda>kind.
       Option.bind (to_option (library_validate_id t)) (\<lambda>target.
       Option.bind (library_author X S a) (\<lambda>author.
       Option.bind (library_field X ti (lib_max_title_bytes (library S))) (\<lambda>title.
       Option.bind (library_field X c (lib_max_category_bytes (library S))) (\<lambda>category.
       Option.bind (library_field X b (library_max_body S kind)) (\<lambda>body.
       Some (LibEdit kind target author title category body)))))))
   | _ \<Rightarrow> None)"

definition parse_library_delete :: "extern \<Rightarrow> settings \<Rightarrow> string list \<Rightarrow> library_marker option" where
  "parse_library_delete X S parts = (case parts of
     [k, t, a] \<Rightarrow>
       Option.bind (to_option (library_validate_target_kind k)) (\<lambda>kind.
       Option.bind (to_option (library_validate_id t)) (\<lambda>target.
       Option.bind (library_author X S a) (\<lambda>author.
       Some (LibDelete kind target author))))
   | _ \<Rightarrow> None)"

definition parse_library_marker_script :: "extern \<Rightarrow> script \<Rightarrow> settings \<Rightarrow> library_marker option" where
  "parse_library_marker_script X b S =
     Option.bind (from_utf8 b) (\<lambda>raw.
     if \<not> starts_with raw LIBRARY_SCRIPT_PREFIX then None else
     case split_on (CHR ''|'') raw of
       f0 # op # v # parts \<Rightarrow>
         if f0 \<noteq> ''LIB1'' \<or> v \<noteq> ''v1'' then None
         else if op = ''post'' then parse_library_post X S parts
         else if op = ''comment'' then parse_library_comment X S parts
         else if op = ''vote'' then parse_library_vote X S parts
         else if op = ''edit'' then parse_library_edit X S parts
         else if op = ''delete'' then parse_library_delete X S parts
         else None
     | _ \<Rightarrow> None)"

definition library_markers_in_tx ::
  "extern \<Rightarrow> transaction \<Rightarrow> settings \<Rightarrow> (nat \<times> library_marker \<times> u64) list" where
  "library_markers_in_tx X tx S = markers_in (\<lambda>s. parse_library_marker_script X s S) tx"

definition library_miner_fee_required_in_tx :: "extern \<Rightarrow> settings \<Rightarrow> transaction \<Rightarrow> u32 \<Rightarrow> u64 result" where
  "library_miner_fee_required_in_tx X S tx height =
     (let markers = library_markers_in_tx X tx S; overflow = LibraryErr LibFeeOverflow in
      if markers = [] then Inr 0
      else if \<not> library_active S height then Inl (LibraryErr LibInactive) else
      rbind (fold_r (\<lambda>(_, marker, atoms) (has_post, n :: usize).
        if atoms \<noteq> lib_marker_output_atoms (library S) then Inl (LibraryErr LibMarkerAmount) else
        (case marker of
           LibPost _ title category _ _ body \<Rightarrow>
             rbind (if has_post then Inr n else
               rbind (ok_or overflow (checked_add n (of_nat (length title)))) (\<lambda>n.
               ok_or overflow (checked_add n (of_nat (length category))))) (\<lambda>n.
             rbind (ok_or overflow (checked_add n (of_nat (length body)))) (\<lambda>n. Inr (True, n)))
         | _ \<Rightarrow> Inr (has_post, n))) markers (False, 0)) (\<lambda>(has_post, n).
      if has_post then
        rbind (ok_or (LibraryErr LibByteFeeOverflow) (checked_mul (lib_byte_fee_atoms (library S)) n)) (\<lambda>byte_fee.
        ok_or (LibraryErr LibPostFeeOverflow) (checked_add (lib_base_post_fee_atoms (library S)) byte_fee))
      else Inr 0))"

section \<open>The state\<close>

type_synonym post_pages = "string \<times> string \<times> string \<times> u32 \<times> (u32 \<times> string) list"

definition library_collect_page :: "library_marker \<Rightarrow> post_pages \<Rightarrow> post_pages result" where
  "library_collect_page marker acc = (case marker of
     LibPost a t c page_index page_total body \<Rightarrow> (case acc of (author, title, category, pages_total, pages) \<Rightarrow>
       if author = [] then Inr (a, t, c, page_total, pages @ [(page_index, body)])
       else if author \<noteq> a \<or> title \<noteq> t \<or> category \<noteq> c \<or> pages_total \<noteq> page_total
       then Inl (LibraryErr LibPagesMetadata)
       else Inr (author, title, category, pages_total, pages @ [(page_index, body)]))
   | _ \<Rightarrow> Inl (LibraryErr LibMixedActions))"

definition library_comment_depth :: "library_comment list \<Rightarrow> string option \<Rightarrow> usize" where
  "library_comment_depth comments parent = (case parent of
     Some p \<Rightarrow> (case find (\<lambda>c. lc_id c = p \<and> \<not> lc_deleted c) comments of
         Some c \<Rightarrow> lc_depth c + 1
       | None \<Rightarrow> 1)
   | None \<Rightarrow> 0)"

definition library_edit_post :: "u32 \<Rightarrow> u32 \<Rightarrow> string \<Rightarrow> string \<Rightarrow> string \<Rightarrow> library_post \<Rightarrow> library_post" where
  "library_edit_post height time title category body p =
     p\<lparr>lp_title := title, lp_category := category, lp_body := body,
       lp_edited_height := Some height, lp_edited_time := Some time\<rparr>"

definition library_edit_comment :: "u32 \<Rightarrow> u32 \<Rightarrow> string \<Rightarrow> library_comment \<Rightarrow> library_comment" where
  "library_edit_comment height time body c =
     c\<lparr>lc_body := body, lc_edited_height := Some height, lc_edited_time := Some time\<rparr>"

definition library_apply_markers ::
  "settings \<Rightarrow> string \<Rightarrow> u32 \<Rightarrow> u32 \<Rightarrow> library_marker list \<Rightarrow> library_state \<Rightarrow> library_state result" where
  "library_apply_markers S tid height time markers state =
     (case markers of
        [] \<Rightarrow> Inr state
      | LibPost _ _ _ _ _ _ # _ \<Rightarrow>
          rbind (fold_r library_collect_page markers ([], [], [], 0, [])) (\<lambda>(author, title, category, _, pages).
          Inr (state\<lparr>ls_posts := ls_posts state @
            [\<lparr>lp_id = tid, lp_author = author, lp_title = title, lp_category = category,
              lp_body = concat (map snd (sort_key fst pages)), lp_created_height = height,
              lp_created_time = time, lp_edited_height = None, lp_edited_time = None,
              lp_deleted = False, lp_upvotes = 0, lp_downvotes = 0, lp_comment_count = 0\<rparr>]\<rparr>))
      | marker # others \<Rightarrow>
          if others \<noteq> [] then Inl (LibraryErr LibExactlyOneAction) else
          (case marker of
             LibComment post_id parent author body \<Rightarrow>
               let depth = library_comment_depth (ls_comments state) parent in
               if depth > lib_max_comment_depth (library S) then Inl (LibraryErr LibNesting)
               else Inr (state\<lparr>ls_comments := ls_comments state @
                 [\<lparr>lc_id = tid, lc_post_id = post_id, lc_parent = parent, lc_author = author,
                   lc_body = body, lc_depth = depth, lc_created_height = height, lc_created_time = time,
                   lc_edited_height = None, lc_edited_time = None, lc_deleted = False,
                   lc_upvotes = 0, lc_downvotes = 0\<rparr>]\<rparr>)
           | LibEdit kind target _ title category body \<Rightarrow>
               Inr (if kind = ''post''
                 then state\<lparr>ls_posts := update_first (\<lambda>p. lp_id p = target)
                   (library_edit_post height time title category body) (ls_posts state)\<rparr>
                 else state\<lparr>ls_comments := update_first (\<lambda>c. lc_id c = target)
                   (library_edit_comment height time body) (ls_comments state)\<rparr>)
           | LibDelete kind target _ \<Rightarrow>
               Inr (if kind = ''post''
                 then state\<lparr>ls_posts := update_first (\<lambda>p. lp_id p = target)
                   (lp_deleted_update (\<lambda>_. True)) (ls_posts state)\<rparr>
                 else state\<lparr>ls_comments := update_first (\<lambda>c. lc_id c = target)
                   (lc_deleted_update (\<lambda>_. True)) (ls_comments state)\<rparr>)
           | _ \<Rightarrow> Inr state))"

type_synonym library_votes = "(string \<times> string \<times> string, bool) fmap"

definition library_record_votes :: "library_marker list \<Rightarrow> library_votes \<Rightarrow> library_votes" where
  "library_record_votes markers votes = fold (\<lambda>m vs. case m of
     LibVote kind target author up \<Rightarrow> fmupd (kind, target, author) up vs | _ \<Rightarrow> vs) markers votes"

definition library_replay_tx ::
  "extern \<Rightarrow> settings \<Rightarrow> u32 \<Rightarrow> u32 \<Rightarrow> transaction \<Rightarrow> library_state \<times> library_votes \<Rightarrow>
    (library_state \<times> library_votes) result" where
  "library_replay_tx X S height time tx st = (case st of (state, votes) \<Rightarrow>
     let markers = map (fst \<circ> snd) (library_markers_in_tx X tx S) in
     rbind (library_apply_markers S (hash_to_string X (txid X tx)) height time markers state) (\<lambda>state.
     Inr (state, library_record_votes markers votes)))"

definition library_replay_block ::
  "extern \<Rightarrow> settings \<Rightarrow> nat \<times> block \<Rightarrow> library_state \<times> library_votes \<Rightarrow> (library_state \<times> library_votes) result" where
  "library_replay_block X S hb st = (case hb of (n, b) \<Rightarrow>
     if \<not> library_active S (of_nat n) then Inr st
     else fold_r (library_replay_tx X S (of_nat n) (hdr_time (blk_header b))) (drop 1 (blk_transactions b)) st)"

definition library_count_vote :: "(string \<times> string \<times> string) \<times> bool \<Rightarrow> library_state \<Rightarrow> library_state" where
  "library_count_vote v state = (case v of ((kind, target, _), up) \<Rightarrow>
     if kind = ''post''
     then state\<lparr>ls_posts := update_first (\<lambda>p. lp_id p = target)
       (if up then lp_upvotes_update (\<lambda>n. sat_add n 1) else lp_downvotes_update (\<lambda>n. sat_add n 1)) (ls_posts state)\<rparr>
     else state\<lparr>ls_comments := update_first (\<lambda>c. lc_id c = target)
       (if up then lc_upvotes_update (\<lambda>n. sat_add n 1) else lc_downvotes_update (\<lambda>n. sat_add n 1)) (ls_comments state)\<rparr>)"

definition library_count_comments :: "library_state \<Rightarrow> library_state" where
  "library_count_comments state =
     state\<lparr>ls_posts := map (\<lambda>p. p\<lparr>lp_comment_count :=
       length (filter (\<lambda>c. lc_post_id c = lp_id p \<and> \<not> lc_deleted c) (ls_comments state))\<rparr>) (ls_posts state)\<rparr>"

definition library_post_order :: "library_post \<Rightarrow> library_post \<Rightarrow> bool" where
  "library_post_order a b \<longleftrightarrow> lp_created_height b < lp_created_height a \<or>
     lp_created_height b = lp_created_height a \<and> lp_id b \<le> lp_id a"

definition library_comment_order :: "library_comment \<Rightarrow> library_comment \<Rightarrow> bool" where
  "library_comment_order a b \<longleftrightarrow> lc_created_height a < lc_created_height b \<or>
     lc_created_height a = lc_created_height b \<and> lc_id a \<le> lc_id b"

definition library_state_from_blocks :: "extern \<Rightarrow> settings \<Rightarrow> block list \<Rightarrow> library_state result" where
  "library_state_from_blocks X S blocks =
     rbind (fold_r (library_replay_block X S) (numbered blocks) (\<lparr>ls_posts = [], ls_comments = []\<rparr>, fmempty)) (\<lambda>(state, votes).
     let counted = library_count_comments (fold library_count_vote (sorted_list_of_fmap votes) state) in
     Inr (counted\<lparr>ls_posts := sort_by library_post_order (ls_posts counted),
       ls_comments := sort_by library_comment_order (ls_comments counted)\<rparr>))"

section \<open>Checks\<close>

definition library_author_spent :: "extern \<Rightarrow> settings \<Rightarrow> transaction \<Rightarrow> utxo_map \<Rightarrow> string \<Rightarrow> bool result" where
  "library_author_spent X S tx utxos author =
     rbind (parse_with_prefix X author (net_address_prefix (network S))) (\<lambda>a.
     Inr (input_authorizes_address tx utxos a))"

definition library_need_author :: "extern \<Rightarrow> settings \<Rightarrow> transaction \<Rightarrow> utxo_map \<Rightarrow> string \<Rightarrow> unit result" where
  "library_need_author X S tx utxos author =
     rbind (library_author_spent X S tx utxos author) (\<lambda>spent.
     if \<not> spent then Inl (LibraryErr LibAuthorNotSpent) else Inr ())"

definition library_owner :: "library_state \<Rightarrow> string \<Rightarrow> string \<Rightarrow> string option" where
  "library_owner state kind target =
     (if kind = ''post''
      then map_option lp_author (find (\<lambda>p. lp_id p = target \<and> \<not> lp_deleted p) (ls_posts state))
      else map_option lc_author (find (\<lambda>c. lc_id c = target \<and> \<not> lc_deleted c) (ls_comments state)))"

definition library_check_target ::
  "extern \<Rightarrow> settings \<Rightarrow> library_state \<Rightarrow> transaction \<Rightarrow> utxo_map \<Rightarrow> string \<Rightarrow> string \<Rightarrow> string \<Rightarrow> unit result" where
  "library_check_target X S state tx utxos kind target author =
     rbind (ok_or (LibraryErr LibEditTargetNotFound) (library_owner state kind target)) (\<lambda>owner.
     if owner \<noteq> author then Inl (LibraryErr LibEditAuthorMismatch)
     else library_need_author X S tx utxos author)"

definition library_check_marker ::
  "extern \<Rightarrow> settings \<Rightarrow> library_state \<Rightarrow> transaction \<Rightarrow> utxo_map \<Rightarrow> library_marker \<Rightarrow> unit result" where
  "library_check_marker X S state tx utxos marker = (case marker of
     LibPost author _ _ page_index page_total _ \<Rightarrow>
       if page_total = 0 \<or> ucast page_total > lib_max_pages_per_post (library S)
       then Inl (LibraryErr LibPagesRange)
       else if page_index \<ge> page_total then Inl (LibraryErr LibPageIndexRange)
       else library_need_author X S tx utxos author
   | LibComment post_id parent author _ \<Rightarrow>
       if \<not> list_ex (\<lambda>p. lp_id p = post_id \<and> \<not> lp_deleted p) (ls_posts state)
       then Inl (LibraryErr LibTargetPostNotFound) else
       rbind (case parent of
           None \<Rightarrow> Inr ()
         | Some q \<Rightarrow> (case find (\<lambda>c. lc_id c = q \<and> \<not> lc_deleted c) (ls_comments state) of
             None \<Rightarrow> Inl (LibraryErr LibParentNotFound)
           | Some c \<Rightarrow>
               if lc_post_id c \<noteq> post_id then Inl (LibraryErr LibParentOtherPost)
               else if lc_depth c + 1 > lib_max_comment_depth (library S) then Inl (LibraryErr LibNesting)
               else Inr ())) (\<lambda>_.
       library_need_author X S tx utxos author)
   | LibVote kind target author _ \<Rightarrow>
       if kind = ''post'' \<and> \<not> list_ex (\<lambda>p. lp_id p = target \<and> \<not> lp_deleted p) (ls_posts state)
       then Inl (LibraryErr LibVotePostNotFound)
       else if kind \<noteq> ''post'' \<and> \<not> list_ex (\<lambda>c. lc_id c = target \<and> \<not> lc_deleted c) (ls_comments state)
       then Inl (LibraryErr LibVoteCommentNotFound)
       else library_need_author X S tx utxos author
   | LibEdit kind target author _ _ _ \<Rightarrow> library_check_target X S state tx utxos kind target author
   | LibDelete kind target author \<Rightarrow> library_check_target X S state tx utxos kind target author)"

text \<open>The pages of a post: the page numbers seen, the page count and the metadata.\<close>

type_synonym page_check = "u32 set \<times> u32 \<times> (string \<times> string \<times> string) option"

definition library_check_page :: "library_marker \<Rightarrow> page_check \<Rightarrow> page_check result" where
  "library_check_page marker acc = (case marker of
     LibPost author title category page_index page_total _ \<Rightarrow> (case acc of (seen, pages_total, meta) \<Rightarrow>
       if meta \<noteq> None \<and> meta \<noteq> Some (author, title, category) then Inl (LibraryErr LibPagesMetadata)
       else if pages_total \<noteq> 0 \<and> pages_total \<noteq> page_total then Inl (LibraryErr LibPageTotal)
       else if page_index \<in> seen then Inl (LibraryErr LibDuplicatePage)
       else Inr (insert page_index seen, if pages_total = 0 then page_total else pages_total,
         Some (author, title, category)))
   | _ \<Rightarrow> Inl (LibraryErr LibMixedActions))"

definition validate_library_marker_state ::
  "extern \<Rightarrow> settings \<Rightarrow> (nat \<times> library_marker \<times> u64) list \<Rightarrow> library_state \<Rightarrow> transaction \<Rightarrow> utxo_map \<Rightarrow>
    unit result" where
  "validate_library_marker_state X S markers state tx utxos =
     (if markers = [] then Inr ()
      else if length markers > MAX_SEND_ENTRIES_PER_TX then Inl (LibraryErr LibActionCount) else
      rbind (fold_r (\<lambda>(_, marker, atoms) _.
        if atoms \<noteq> lib_marker_output_atoms (library S) then Inl (LibraryErr LibMarkerAmount)
        else library_check_marker X S state tx utxos marker) markers ()) (\<lambda>_.
      (case fst (snd (hd markers)) of
         LibPost _ _ _ _ _ _ \<Rightarrow>
           rbind (fold_r (\<lambda>(_, marker, _). library_check_page marker) markers ({}, 0, None)) (\<lambda>(seen, pages_total, _).
           if card seen \<noteq> unat pages_total then Inl (LibraryErr LibMissingPages) else Inr ())
       | _ \<Rightarrow> if length markers \<noteq> 1 then Inl (LibraryErr LibExactlyOneAction) else Inr ())))"

definition validate_library_transaction_with_state ::
  "extern \<Rightarrow> settings \<Rightarrow> transaction \<Rightarrow> library_state \<Rightarrow> utxo_map \<Rightarrow> u32 \<Rightarrow> unit result" where
  "validate_library_transaction_with_state X S tx state utxos spend_height =
     (let markers = library_markers_in_tx X tx S in
      if markers = [] then Inr ()
      else if \<not> library_active S spend_height then Inl (LibraryErr LibInactive)
      else if is_coinbase tx then Inl (LibraryErr LibCoinbase)
      else validate_library_marker_state X S markers state tx utxos)"

definition validate_library_transaction_against_chain ::
  "extern \<Rightarrow> settings \<Rightarrow> transaction \<Rightarrow> chain_state \<Rightarrow> u32 \<Rightarrow> unit result" where
  "validate_library_transaction_against_chain X S tx chain spend_height =
     (if library_markers_in_tx X tx S = [] then Inr () else
      rbind (library_state_from_blocks X S (cs_blocks chain)) (\<lambda>state.
      validate_library_transaction_with_state X S tx state (cs_utxos chain) spend_height))"

definition validate_library_tx ::
  "extern \<Rightarrow> settings \<Rightarrow> u32 \<Rightarrow> u32 \<Rightarrow> transaction \<Rightarrow> library_state \<times> utxo_map \<Rightarrow> (library_state \<times> utxo_map) result" where
  "validate_library_tx X S height time tx st = (case st of (state, utxos) \<Rightarrow>
     rbind (validate_library_transaction_with_state X S tx state utxos height) (\<lambda>_.
     rbind (library_apply_markers S (hash_to_string X (txid X tx)) height time
       (map (fst \<circ> snd) (library_markers_in_tx X tx S)) state) (\<lambda>state.
     Inr (state, snd (connect_in_place X tx height False utxos)))))"

definition validate_library_block ::
  "extern \<Rightarrow> settings \<Rightarrow> block \<Rightarrow> block list \<Rightarrow> utxo_map \<Rightarrow> u32 \<Rightarrow> unit result" where
  "validate_library_block X S b prior_blocks base_utxos height =
     (if list_all (\<lambda>tx. library_markers_in_tx X tx S = []) (drop 1 (blk_transactions b)) then Inr () else
      rbind (library_state_from_blocks X S prior_blocks) (\<lambda>state.
      rbind (fold_r (validate_library_tx X S height (hdr_time (blk_header b)))
        (drop 1 (blk_transactions b)) (state, base_utxos)) (\<lambda>_. Inr ())))"

section \<open>What the checks and the replay have in common\<close>

text \<open>
  All of a state that the replay of a comment looks at: depth, post and deletion of the comments under
  each id.
\<close>

definition comment_view :: "library_comment list \<Rightarrow> string \<Rightarrow> ((usize \<times> string) \<times> bool) list" where
  "comment_view cs i = map (\<lambda>c. ((lc_depth c, lc_post_id c), lc_deleted c)) (filter (\<lambda>c. lc_id c = i) cs)"

definition same_comments :: "library_state \<Rightarrow> library_state \<Rightarrow> bool" where
  "same_comments s t \<longleftrightarrow> (\<forall>i. comment_view (ls_comments s) i = comment_view (ls_comments t) i)"

lemma comment_view_append [simp]: "comment_view (cs @ ds) i = comment_view cs i @ comment_view ds i"
  by (simp add: comment_view_def)

lemma find_by_view:
  "map_option (\<lambda>c. (lc_depth c, lc_post_id c)) (find (\<lambda>c. lc_id c = i \<and> \<not> lc_deleted c) cs) =
    map_option fst (find (\<lambda>(_, gone). \<not> gone) (comment_view cs i))"
  by (induction cs) (auto simp: comment_view_def)

lemma comment_depth_view:
  "library_comment_depth cs parent = (case parent of None \<Rightarrow> 0
     | Some p \<Rightarrow> (case map_option fst (find (\<lambda>(_, gone). \<not> gone) (comment_view cs p)) of
         None \<Rightarrow> 1 | Some (d, _) \<Rightarrow> d + 1))"
  by (auto simp: library_comment_depth_def find_by_view [symmetric] split: option.splits)

lemma comment_view_update:
  assumes "\<And>c. lc_id (f c) = lc_id c" and "\<And>c. lc_depth (f c) = lc_depth c" and "\<And>c. lc_post_id (f c) = lc_post_id c"
    and "\<And>c. lc_deleted (f c) = g (lc_deleted c)"
  shows "comment_view (update_first (\<lambda>c. lc_id c = j) f cs) i =
    (if i = j then (case comment_view cs i of [] \<Rightarrow> [] | (d, gone) # r \<Rightarrow> (d, g gone) # r) else comment_view cs i)"
  using assms filter_update_first_same [of "\<lambda>c. lc_id c = j" f cs]
    filter_update_first_other [of "\<lambda>c. lc_id c = j" "\<lambda>c. lc_id c = i" f cs]
  by (auto simp: comment_view_def split: list.splits)

lemma same_comments_depth:
  "same_comments s t \<Longrightarrow> library_comment_depth (ls_comments s) p = library_comment_depth (ls_comments t) p"
  by (cases p) (simp_all add: comment_depth_view same_comments_def)

lemma same_comments_apply:
  assumes "same_comments s t" and "library_apply_markers S tid h time ms s = Inr s'"
  shows "\<exists>t'. library_apply_markers S tid h time ms t = Inr t' \<and> same_comments s' t'"
proof (cases ms)
  case Nil
  with assms show ?thesis by (simp add: library_apply_markers_def)
next
  case (Cons m ms')
  have v: "comment_view (ls_comments s) i = comment_view (ls_comments t) i" for i
    using assms(1) by (simp add: same_comments_def)
  show ?thesis
  proof (cases m)
    case (LibComment p q a b)
    with assms Cons show ?thesis
      by (auto simp: library_apply_markers_def Let_def same_comments_depth [OF assms(1)] same_comments_def
          comment_view_def split: if_splits)
  next
    case (LibEdit k i a x c b)
    have "comment_view (update_first (\<lambda>c. lc_id c = i) (library_edit_comment h time b) cs) j = comment_view cs j" for cs j
      by (subst comment_view_update [where g = id]) (auto simp: library_edit_comment_def split: list.splits)
    with LibEdit assms(2) Cons v show ?thesis
      by (auto simp: library_apply_markers_def same_comments_def split: if_splits)
  next
    case (LibDelete k i a)
    have "comment_view (update_first (\<lambda>c. lc_id c = i) (lc_deleted_update (\<lambda>_. True)) (ls_comments s)) j =
        comment_view (update_first (\<lambda>c. lc_id c = i) (lc_deleted_update (\<lambda>_. True)) (ls_comments t)) j" for j
      by (subst (1 2) comment_view_update [where g = "\<lambda>_. True"]) (simp_all add: v)
    with LibDelete assms(2) Cons v show ?thesis
      by (auto simp: library_apply_markers_def same_comments_def split: if_splits)
  qed (use assms Cons in \<open>auto simp: library_apply_markers_def same_comments_def result_simps split: if_splits prod.splits\<close>)
qed

interpretation library_tx: checked_replay "validate_library_tx X S h time" "library_replay_tx X S h time"
  "\<lambda>s t. same_comments (fst s) (fst t)"
proof
  fix s :: "library_state \<times> utxo_map" and t :: "library_state \<times> library_votes" and tx s'
  assume "same_comments (fst s) (fst t)" and "validate_library_tx X S h time tx s = Inr s'"
  then show "\<exists>t'. library_replay_tx X S h time tx t = Inr t' \<and> same_comments (fst s') (fst t')"
    by (cases s, cases t)
      (auto simp: validate_library_tx_def library_replay_tx_def Let_def result_simps dest: same_comments_apply)
qed

section \<open>The invariant of the replay\<close>

text \<open>Comments are kept in the order of their blocks and within the nesting limit.\<close>

definition comments_ok :: "settings \<Rightarrow> (u32 \<Rightarrow> bool) \<Rightarrow> library_state \<Rightarrow> bool" where
  "comments_ok S early s \<longleftrightarrow> (\<exists>meta. map (\<lambda>c. (lc_created_height c, lc_depth c)) (ls_comments s) = meta \<and>
     sorted (map fst meta) \<and> (\<forall>(n, d) \<in> set meta. early n \<and> d \<le> lib_max_comment_depth (library S)))"

lemma comments_ok_update:
  assumes "\<And>c. lc_created_height (f c) = lc_created_height c" and "\<And>c. lc_depth (f c) = lc_depth c"
  shows "comments_ok S e (s\<lparr>ls_comments := update_first p f (ls_comments s)\<rparr>) = comments_ok S e s"
  using assms by (simp add: comments_ok_def map_update_first)

lemma comments_ok_posts [simp]: "comments_ok S e (s\<lparr>ls_posts := ps\<rparr>) = comments_ok S e s"
  by (simp add: comments_ok_def)

lemma comments_ok_weaken: "comments_ok S e s \<Longrightarrow> (\<And>n. e n \<Longrightarrow> e' n) \<Longrightarrow> comments_ok S e' s"
  by (auto simp: comments_ok_def)

lemma comments_ok_apply:
  assumes "library_apply_markers S tid h time ms s = Inr s'" and "comments_ok S (\<lambda>n. n \<le> h) s"
  shows "comments_ok S (\<lambda>n. n \<le> h) s'"
proof (cases ms)
  case Nil
  with assms show ?thesis by (simp add: library_apply_markers_def)
next
  case (Cons m ms')
  show ?thesis
  proof (cases m)
    case (LibComment p q a b)
    with assms Cons show ?thesis
      by (auto simp: library_apply_markers_def Let_def comments_ok_def sorted_append split: if_splits)
  qed (use assms Cons in \<open>auto simp: library_apply_markers_def result_simps comments_ok_update
        library_edit_comment_def split: if_splits prod.splits\<close>)
qed

lemma comments_ok_replay_tx:
  "library_replay_tx X S h time tx st = Inr st' \<Longrightarrow> comments_ok S (\<lambda>n. n \<le> h) (fst st) \<Longrightarrow>
    comments_ok S (\<lambda>n. n \<le> h) (fst st')"
  by (cases st) (auto simp: library_replay_tx_def Let_def result_simps intro: comments_ok_apply)

lemma comments_ok_replay:
  assumes "fold_r (library_replay_block X S) (numbered bs) (\<lparr>ls_posts = [], ls_comments = []\<rparr>, fmempty) = Inr st"
    and "length bs \<le> 2 ^ 32"
  shows "comments_ok S (\<lambda>n. unat n < length bs) (fst st)"
  using assms
proof (induction bs arbitrary: st rule: rev_induct)
  case Nil
  then show ?case by (auto simp: comments_ok_def)
next
  case (snoc b bs)
  show ?case
  proof (cases "bs = []")
    case True
    with snoc.prems show ?thesis by (auto simp: comments_ok_def)
  next
    case False
    with snoc.prems obtain u
      where u: "fold_r (library_replay_block X S) (numbered bs) (\<lparr>ls_posts = [], ls_comments = []\<rparr>, fmempty) = Inr u"
        and st: "library_replay_block X S (length bs, b) u = Inr st"
      by (auto simp: numbered_snoc fold_r_append result_simps)
    have n: "unat (of_nat (length bs) :: u32) = length bs" using snoc.prems(2) by (intro unat_of_nat_less) simp
    have "comments_ok S (\<lambda>n. unat n < length bs) (fst u)" using snoc.IH [OF u] snoc.prems(2) by simp
    then have ok: "comments_ok S (\<lambda>n. n \<le> of_nat (length bs)) (fst u)"
      by (rule comments_ok_weaken) (simp add: word_le_nat_alt n)
    have "comments_ok S (\<lambda>n. n \<le> of_nat (length bs)) (fst st)"
    proof (cases "library_active S (of_nat (length bs))")
      case True
      then have "fold_r (library_replay_tx X S (of_nat (length bs)) (hdr_time (blk_header b)))
          (drop 1 (blk_transactions b)) u = Inr st"
        using st by (simp add: library_replay_block_def)
      then show ?thesis using ok by (rule fold_r_inv) (rule comments_ok_replay_tx)
    qed (use st ok in \<open>simp add: library_replay_block_def\<close>)
    then show ?thesis by (rule comments_ok_weaken) (simp add: word_le_nat_alt n)
  qed
qed

lemma count_vote_meta:
  "comment_view (ls_comments (library_count_vote v s)) i = comment_view (ls_comments s) i"
  "map (\<lambda>c. (lc_created_height c, lc_depth c)) (ls_comments (library_count_vote v s)) =
    map (\<lambda>c. (lc_created_height c, lc_depth c)) (ls_comments s)"
proof -
  obtain kind tgt a up where v: "v = ((kind, tgt, a), up)" by (metis surj_pair)
  have "comment_view (update_first (\<lambda>c. lc_id c = tgt) f (ls_comments s)) i = comment_view (ls_comments s) i"
    if "\<And>c. lc_id (f c) = lc_id c" "\<And>c. lc_depth (f c) = lc_depth c" "\<And>c. lc_post_id (f c) = lc_post_id c"
      "\<And>c. lc_deleted (f c) = lc_deleted c" for f
    using that by (subst comment_view_update [where g = id]) (auto split: list.splits)
  then show "comment_view (ls_comments (library_count_vote v s)) i = comment_view (ls_comments s) i"
    by (simp add: library_count_vote_def v)
  show "map (\<lambda>c. (lc_created_height c, lc_depth c)) (ls_comments (library_count_vote v s)) =
      map (\<lambda>c. (lc_created_height c, lc_depth c)) (ls_comments s)"
    by (simp add: library_count_vote_def v map_update_first)
qed

lemma count_votes_meta:
  "comment_view (ls_comments (fold library_count_vote vs s)) i = comment_view (ls_comments s) i"
  "map (\<lambda>c. (lc_created_height c, lc_depth c)) (ls_comments (fold library_count_vote vs s)) =
    map (\<lambda>c. (lc_created_height c, lc_depth c)) (ls_comments s)"
  by (induction vs arbitrary: s) (simp_all add: count_vote_meta)

lemma comment_view_sorted:
  assumes "sorted (map lc_created_height cs)"
  shows "comment_view (sort_by library_comment_order cs) i = comment_view cs i"
proof -
  have "sorted_wrt (\<lambda>x y. lc_created_height x \<le> lc_created_height y) cs"
    using assms by (simp add: sorted_map)
  then have "sorted_wrt (\<lambda>x y. lc_id x = i \<longrightarrow> lc_id y = i \<longrightarrow> library_comment_order x y) cs"
    by (rule sorted_wrt_mono_rel [rotated]) (auto simp: library_comment_order_def)
  then show ?thesis by (simp add: comment_view_def filter_sort_by)
qed

lemma library_state_Inr:
  assumes "library_state_from_blocks X S bs = Inr st" and "length bs \<le> 2 ^ 32"
  obtains s votes where
    "fold_r (library_replay_block X S) (numbered bs) (\<lparr>ls_posts = [], ls_comments = []\<rparr>, fmempty) = Inr (s, votes)"
    and "same_comments st s"
    and "\<And>c. c \<in> set (ls_comments st) \<Longrightarrow>
      unat (lc_created_height c) < length bs \<and> lc_depth c \<le> lib_max_comment_depth (library S)"
proof -
  obtain s votes
    where f: "fold_r (library_replay_block X S) (numbered bs) (\<lparr>ls_posts = [], ls_comments = []\<rparr>, fmempty) = Inr (s, votes)"
      and c: "ls_comments st = sort_by library_comment_order (ls_comments (fold library_count_vote (sorted_list_of_fmap votes) s))"
    using assms(1) by (auto simp: library_state_from_blocks_def result_simps Let_def library_count_comments_def)
  let ?cs = "ls_comments (fold library_count_vote (sorted_list_of_fmap votes) s)"
  let ?meta = "map (\<lambda>c. (lc_created_height c, lc_depth c))"
  have meta: "?meta ?cs = ?meta (ls_comments s)" by (rule count_votes_meta)
  have ok: "sorted (map fst (?meta ?cs))"
    "\<forall>(n, d) \<in> set (?meta ?cs). unat n < length bs \<and> d \<le> lib_max_comment_depth (library S)"
    using comments_ok_replay [OF f assms(2)] unfolding comments_ok_def fst_conv meta by blast+
  have sorted: "sorted (map lc_created_height ?cs)" using ok(1) by (simp add: comp_def)
  have "same_comments st s"
    by (simp add: same_comments_def c comment_view_sorted [OF sorted] count_votes_meta)
  moreover have "unat (lc_created_height d) < length bs \<and> lc_depth d \<le> lib_max_comment_depth (library S)"
    if "d \<in> set (ls_comments st)" for d
    using ok(2) that unfolding c by auto
  ultimately show thesis using f that by blast
qed

lemma library_fold_no_markers:
  assumes "list_all (\<lambda>tx. library_markers_in_tx X tx S = []) txs"
  shows "fold_r (library_replay_tx X S h time) txs st = Inr st"
  using assms
  by (induction txs arbitrary: st)
    (auto simp: library_replay_tx_def library_apply_markers_def library_record_votes_def split: prod.splits)

lemma library_state_snoc:
  assumes "bs \<noteq> []"
    and "fold_r (library_replay_block X S) (numbered bs) (\<lparr>ls_posts = [], ls_comments = []\<rparr>, fmempty) = Inr u"
    and "library_replay_block X S (length bs, b) u = Inr v"
  shows "\<exists>st. library_state_from_blocks X S (bs @ [b]) = Inr st"
  using assms by (cases v) (simp add: library_state_from_blocks_def numbered_snoc fold_r_append Let_def)

lemma library_checked_block_replayed:
  assumes "validate_library_block X S b bs utxos (of_nat (length bs)) = Inr ()"
    and "library_state_from_blocks X S bs = Inr st" and "bs \<noteq> []" and "length bs < 2 ^ 32"
  shows "\<exists>st'. library_state_from_blocks X S (bs @ [b]) = Inr st'"
proof -
  let ?h = "of_nat (length bs) :: u32" and ?txs = "drop 1 (blk_transactions b)" and ?t = "hdr_time (blk_header b)"
  from assms(4) have "length bs \<le> 2 ^ 32" by simp
  with assms(2) obtain s votes where
    f: "fold_r (library_replay_block X S) (numbered bs) (\<lparr>ls_posts = [], ls_comments = []\<rparr>, fmempty) = Inr (s, votes)"
    and same: "same_comments st s" by (rule library_state_Inr)
  have "\<exists>v. library_replay_block X S (length bs, b) (s, votes) = Inr v"
  proof (cases "library_active S ?h \<and> \<not> list_all (\<lambda>tx. library_markers_in_tx X tx S = []) ?txs")
    case True
    then obtain w where "fold_r (validate_library_tx X S ?h ?t) ?txs (st, utxos) = Inr w"
      using assms(1,2) by (auto simp: validate_library_block_def result_simps)
    from library_tx.checked_then_recorded [OF _ this, of "(s, votes)"] same True
    show ?thesis by (auto simp: library_replay_block_def)
  next
    case False
    then show ?thesis
      using library_fold_no_markers [of X S ?txs ?h ?t "(s, votes)"] by (auto simp: library_replay_block_def)
  qed
  then show ?thesis using library_state_snoc [OF assms(3) f] by blast
qed

text \<open>
  A block that passes the library checks never stops the chain. When the library state of a
  chain can be read and a block passes its library checks on top of it, the library state of the
  longer chain can be read as well; the replay meets none of its own errors, although it runs on
  unsorted comments without the vote counts the checks work with.
\<close>

theorem library_block_replays:
  assumes "validate_library_block X S b bs utxos (of_nat (length bs)) = Inr ()"
    and "library_state_from_blocks X S bs = Inr st" and "bs \<noteq> []" and "length bs < 2 ^ 32"
  shows "\<exists>st'. library_state_from_blocks X S (bs @ [b]) = Inr st'"
  using assms by (rule library_checked_block_replayed)

section \<open>A post\<close>

lemma library_field_hex:
  assumes "extern_ok X" and "length t \<le> unat n" and "unat n < 2 ^ 63" and "from_utf8 t = Some t"
  shows "library_field X (hex_encode X t) n = Some t"
proof -
  have "unat (sat_mul n 2) = 2 * unat n" using assms(3) by (simp add: unat_sat_mul)
  then show ?thesis
    using assms by (simp add: library_field_def library_unhex_field_def hex_encode_length hex_roundtrip)
qed

definition ex_lib_settings :: settings where
  "ex_lib_settings = (example_settings ''regtest'')\<lparr>library := ex_library\<lparr>lib_activation_height := 0\<rparr>\<rparr>"

lemma ex_lib_simps:
  "net_address_prefix (network ex_lib_settings) = ''qub''" "library_active ex_lib_settings h"
  "lib_marker_output_atoms (library ex_lib_settings) = 1" "consensus ex_lib_settings = ex_consensus"
  by (simp_all add: ex_lib_settings_def ex_network_def library_active_def ex_library_def)

definition ex_post_script :: script where
  "ex_post_script = pipes [''LIB1'', ''post'', ''v1'', address_to_string ref_extern ex_owner,
     hex_encode ref_extern ''a'', hex_encode ref_extern ''b'', show_word (0 :: u32), show_word (1 :: u32),
     hex_encode ref_extern ''c'']"

lemma plain_library_words: "plain_field ''LIB1''" "plain_field ''post''" "plain_field ''v1''"
  "plain_field ''comment''" "plain_field ''-''"
  by (simp_all add: plain_field_def is_ascii_graphic_def list_all_iff)

lemma ex_library_fields:
  "length s = 1 \<Longrightarrow> from_utf8 s = Some s \<Longrightarrow> n \<in> {lib_max_title_bytes ex_library, lib_max_category_bytes ex_library,
      lib_max_page_bytes ex_library, lib_max_comment_bytes ex_library} \<Longrightarrow>
    library_field ref_extern (hex_encode ref_extern s) n = Some s"
  by (intro library_field_hex ref_extern_ok) (auto simp: ex_library_def)

lemma ex_author: "library_author ref_extern ex_lib_settings (address_to_string ref_extern ex_owner) =
    Some (address_to_string ref_extern ex_owner)"
  using parse_ex_address [OF ex_owner(1,2)] by (simp add: library_author_def ex_lib_simps)

lemma ex_post_parsed:
  "parse_library_marker_script ref_extern ex_post_script ex_lib_settings =
    Some (LibPost (address_to_string ref_extern ex_owner) ''a'' ''b'' 0 1 ''c'')"
proof -
  let ?fs = "[''LIB1'', ''post'', ''v1'', address_to_string ref_extern ex_owner,
     hex_encode ref_extern ''a'', hex_encode ref_extern ''b'', show_word (0 :: u32), show_word (1 :: u32),
     hex_encode ref_extern ''c'']"
  have "list_all plain_field ?fs"
    using plain_address [OF ref_extern_ok ex_owner(1)] plain_library_words plain_hex [OF ref_extern_ok]
    by (simp add: plain_show_word)
  then have r: "from_utf8 ex_post_script = Some ex_post_script" "split_on (CHR ''|'') ex_post_script = ?fs"
    using pipes_read_back [of ?fs] by (simp_all add: ex_post_script_def)
  have "starts_with ex_post_script LIBRARY_SCRIPT_PREFIX"
    by (simp add: ex_post_script_def starts_with_def LIBRARY_SCRIPT_PREFIX_def pipes_def)
  moreover have "library ex_lib_settings = ex_library\<lparr>lib_activation_height := 0\<rparr>" by (simp add: ex_lib_settings_def)
  moreover have "from_utf8 [c] = Some [c]" if "c \<in> {CHR ''a'', CHR ''b'', CHR ''c''}" for c
    using that by (intro from_utf8_ascii) (auto simp: is_ascii_def)
  ultimately show ?thesis
    using ex_library_fields [of "''a''"] ex_library_fields [of "''b''"] ex_library_fields [of "''c''"]
    by (simp add: parse_library_marker_script_def r parse_library_post_def ex_author)
qed

lemma ex_library_markers:
  "library_markers_in_tx ref_extern (ex_pay [\<lparr>out_value = 1, script_pubkey = ex_post_script\<rparr>]) ex_lib_settings =
    [(0, LibPost (address_to_string ref_extern ex_owner) ''a'' ''b'' 0 1 ''c'', 1)]"
  by (simp add: library_markers_in_tx_def markers_in_def ex_pay_simps List.map_filter_def ex_post_parsed)

lemma ex_author_spent: "library_need_author ref_extern ex_lib_settings (ex_pay outs) (ex_coin v)
    (address_to_string ref_extern ex_owner) = Inr ()"
  using parse_ex_address [OF ex_owner(1,2)]
  by (simp add: library_need_author_def library_author_spent_def ex_lib_simps input_authorizes_address_def
      ex_pay_simps ex_coin_def ex_owner)

lemma library_block_replays_witness:
  "\<exists>st. library_state_from_blocks ref_extern ex_lib_settings [example_block [],
      example_block [example_tx, ex_pay [\<lparr>out_value = 1, script_pubkey = ex_post_script\<rparr>]]] = Inr st"
proof -
  let ?tx = "ex_pay [\<lparr>out_value = 1, script_pubkey = ex_post_script\<rparr>]"
  let ?b = "example_block [example_tx, ?tx]"
  obtain st where st: "library_state_from_blocks ref_extern ex_lib_settings [example_block []] = Inr st"
    by (simp add: library_state_from_blocks_def Let_def)
  have "validate_library_transaction_with_state ref_extern ex_lib_settings ?tx st (ex_coin 9) 1 = Inr ()"
    using ex_kind ex_author_spent
    by (simp add: validate_library_transaction_with_state_def validate_library_marker_state_def ex_library_markers
        ex_lib_simps library_check_marker_def library_check_page_def MAX_SEND_ENTRIES_PER_TX_def word_le_nat_alt)
      (simp add: ex_lib_settings_def ex_library_def word_less_nat_alt)
  then have "validate_library_block ref_extern ex_lib_settings ?b [example_block []] (ex_coin 9)
      (of_nat (length [example_block []])) = Inr ()"
    by (simp add: validate_library_block_def st example_block_def [of "[example_tx, ?tx]"] validate_library_tx_def
        ex_library_markers library_apply_markers_def library_collect_page_def ex_owner)
  from library_block_replays [OF this st] show ?thesis by simp
qed

end
