(* ===== verification/LibraryThreads.thy ===== *)
theory LibraryThreads
  imports Library
begin

text \<open>
  The comments of the library of a chain whose blocks passed the library checks
  (\<open>src/src/lib.rs\<close>): where each comment comes from, and how the comments of a post are nested. The
  checks run on the sorted state with the votes counted, the replay on the unsorted one without;
  the lemmas carry the checked parent of a comment over to the replay.
\<close>

section \<open>What edits, deletions and votes leave alone\<close>

definition same_comment :: "library_comment \<Rightarrow> library_comment \<Rightarrow> bool" where
  "same_comment c d \<longleftrightarrow>
     lc_id d = lc_id c \<and> lc_post_id d = lc_post_id c \<and> lc_parent d = lc_parent c \<and> lc_author d = lc_author c \<and>
     lc_depth d = lc_depth c \<and> lc_created_height d = lc_created_height c \<and> lc_created_time d = lc_created_time c \<and>
     (lc_edited_height d = None \<longrightarrow> lc_edited_height c = None \<and> lc_body d = lc_body c)"

lemma same_comment_refl [simp]: "same_comment c c"
  by (simp add: same_comment_def)

lemma same_comment_trans: "same_comment c d \<Longrightarrow> same_comment d e \<Longrightarrow> same_comment c e"
  by (simp add: same_comment_def)

lemma update_first_same:
  "(\<And>c. same_comment c (f c)) \<Longrightarrow> list_all2 same_comment cs (update_first p f cs)"
  by (induction cs) (simp_all add: list_all2_same)

lemma count_vote_same: "list_all2 same_comment (ls_comments s) (ls_comments (library_count_vote v s))"
proof -
  obtain kind tgt a up where v: "v = ((kind, tgt, a), up)" by (metis surj_pair)
  have "list_all2 same_comment cs (update_first p (if up then lc_upvotes_update f else lc_downvotes_update g) cs)" for cs p f g
    by (rule update_first_same) (simp add: same_comment_def)
  then show ?thesis by (simp add: v library_count_vote_def list_all2_same)
qed

lemma count_votes_same: "list_all2 same_comment (ls_comments s) (ls_comments (fold library_count_vote vs s))"
proof (induction vs arbitrary: s)
  case (Cons v vs)
  from list_all2_trans [OF same_comment_trans count_vote_same Cons.IH] show ?case by simp
qed (simp add: list_all2_same)

text \<open>A marker changes the comments that are there as above, or adds a comment at the end.\<close>

definition new_comment :: "string \<Rightarrow> u32 \<Rightarrow> u32 \<Rightarrow> string \<Rightarrow> string option \<Rightarrow> string \<Rightarrow> string \<Rightarrow> usize \<Rightarrow> library_comment" where
  "new_comment tid height time post_id parent author body depth =
     \<lparr>lc_id = tid, lc_post_id = post_id, lc_parent = parent, lc_author = author, lc_body = body, lc_depth = depth,
      lc_created_height = height, lc_created_time = time, lc_edited_height = None, lc_edited_time = None,
      lc_deleted = False, lc_upvotes = 0, lc_downvotes = 0\<rparr>"

lemma apply_markers_comments:
  assumes "library_apply_markers S tid h time ms s = Inr s'"
  obtains (kept) "list_all2 same_comment (ls_comments s) (ls_comments s')"
  | (added) p q a b where "ms = [LibComment p q a b]"
      and "ls_comments s' = ls_comments s @ [new_comment tid h time p q a b (library_comment_depth (ls_comments s) q)]"
proof (cases ms)
  case Nil
  with assms kept show thesis by (simp add: library_apply_markers_def list_all2_same)
next
  case (Cons m ms')
  show thesis
  proof (cases m)
    case (LibComment p q a b)
    with assms Cons added show thesis
      by (auto simp: library_apply_markers_def new_comment_def Let_def split: if_splits)
  next
    case (LibEdit k i a x c b)
    have "list_all2 same_comment cs (update_first p (library_edit_comment h time b) cs)" for cs p
      by (rule update_first_same) (simp add: same_comment_def library_edit_comment_def)
    with LibEdit assms Cons kept show thesis
      by (auto simp: library_apply_markers_def list_all2_same split: if_splits)
  next
    case (LibDelete k i a)
    have "list_all2 same_comment cs (update_first p (lc_deleted_update (\<lambda>_. True)) cs)" for cs p
      by (rule update_first_same) (simp add: same_comment_def)
    with LibDelete assms Cons kept show thesis
      by (auto simp: library_apply_markers_def list_all2_same split: if_splits)
  qed (use assms Cons kept in \<open>auto simp: library_apply_markers_def result_simps list_all2_same split: if_splits prod.splits\<close>)
qed

section \<open>Where a comment comes from\<close>

text \<open>The transaction that holds the marker of a comment, at the height and time of its block.\<close>

definition commented_in :: "extern \<Rightarrow> settings \<Rightarrow> u32 \<Rightarrow> u32 \<Rightarrow> transaction \<Rightarrow> library_comment \<Rightarrow> bool" where
  "commented_in X S height time tx c \<longleftrightarrow>
     lc_id c = hash_to_string X (txid X tx) \<and> lc_created_height c = height \<and> lc_created_time c = time \<and>
     (\<exists>i body atoms. (i, LibComment (lc_post_id c) (lc_parent c) (lc_author c) body, atoms)
        \<in> set (library_markers_in_tx X tx S) \<and> (lc_edited_height c = None \<longrightarrow> lc_body c = body))"

definition comment_recorded :: "extern \<Rightarrow> settings \<Rightarrow> block list \<Rightarrow> library_comment \<Rightarrow> bool" where
  "comment_recorded X S bs c \<longleftrightarrow> unat (lc_created_height c) < length bs \<and>
     (let b = bs ! unat (lc_created_height c) in
      \<exists>tx \<in> set (drop 1 (blk_transactions b)). commented_in X S (lc_created_height c) (hdr_time (blk_header b)) tx c)"

lemma commented_same: "same_comment c d \<Longrightarrow> commented_in X S h time tx c \<Longrightarrow> commented_in X S h time tx d"
  unfolding commented_in_def same_comment_def by metis

lemma recorded_same:
  assumes "same_comment c d" and "comment_recorded X S bs c"
  shows "comment_recorded X S bs d"
proof -
  have "lc_created_height d = lc_created_height c" using assms(1) by (simp add: same_comment_def)
  with assms(2) commented_same [OF assms(1)] show ?thesis
    unfolding comment_recorded_def Let_def by metis
qed

lemma recorded_longer: "comment_recorded X S bs c \<Longrightarrow> comment_recorded X S (bs @ [b]) c"
  by (auto simp: comment_recorded_def Let_def nth_append)

lemma list_all2_later: "list_all2 r xs ys \<Longrightarrow> y \<in> set ys \<Longrightarrow> \<exists>x \<in> set xs. r x y"
  by (induction rule: list_all2_induct) auto

lemma replay_tx_origin:
  assumes "library_replay_tx X S h time tx st = Inr st'" and "c \<in> set (ls_comments (fst st'))"
  shows "(\<exists>d \<in> set (ls_comments (fst st)). same_comment d c) \<or> commented_in X S h time tx c"
proof -
  let ?ms = "map (fst \<circ> snd) (library_markers_in_tx X tx S)"
  from assms(1) obtain s' where a: "library_apply_markers S (hash_to_string X (txid X tx)) h time ?ms (fst st) = Inr s'"
    and s': "fst st' = s'" by (cases st) (auto simp: library_replay_tx_def Let_def result_simps)
  from a show ?thesis
  proof (cases rule: apply_markers_comments)
    case kept
    with assms(2) s' show ?thesis using list_all2_later by fastforce
  next
    case (added p q a b)
    then obtain i m where "(i, LibComment p q a b, m) \<in> set (library_markers_in_tx X tx S)"
      by (cases "library_markers_in_tx X tx S") (auto simp: prod_eq_iff)
    then have "commented_in X S h time tx (new_comment (hash_to_string X (txid X tx)) h time p q a b d)" for d
      unfolding commented_in_def new_comment_def by auto
    with added assms(2) s' show ?thesis by (auto intro: same_comment_refl)
  qed
qed

lemma replay_txs_origin:
  assumes "fold_r (library_replay_tx X S h time) txs st = Inr st'" and "c \<in> set (ls_comments (fst st'))"
  shows "(\<exists>d \<in> set (ls_comments (fst st)). same_comment d c) \<or> (\<exists>tx \<in> set txs. commented_in X S h time tx c)"
  using assms
proof (induction txs arbitrary: st)
  case (Cons tx txs)
  then obtain u where u: "library_replay_tx X S h time tx st = Inr u" "fold_r (library_replay_tx X S h time) txs u = Inr st'"
    by (auto simp: result_simps)
  from Cons.IH [OF u(2) Cons.prems(2)] show ?case
  proof
    assume "\<exists>d \<in> set (ls_comments (fst u)). same_comment d c"
    then obtain d where d: "d \<in> set (ls_comments (fst u))" "same_comment d c" by blast
    from replay_tx_origin [OF u(1) d(1)] d(2) show ?thesis by (auto intro: same_comment_trans commented_same)
  qed auto
qed (auto intro!: bexI [of _ c])

section \<open>Nesting\<close>

text \<open>A comment on a post has depth 0; an answer is one deeper than an older comment on the same post.\<close>

definition comment_linked :: "library_comment list \<Rightarrow> library_comment \<Rightarrow> bool" where
  "comment_linked cs c \<longleftrightarrow> (case lc_parent c of
     None \<Rightarrow> lc_depth c = 0
   | Some p \<Rightarrow> \<exists>d \<in> set cs. lc_id d = p \<and> lc_post_id d = lc_post_id c \<and> lc_depth c = lc_depth d + 1 \<and>
       lc_created_height d \<le> lc_created_height c)"

definition all_linked :: "library_state \<Rightarrow> bool" where
  "all_linked s \<longleftrightarrow> (\<forall>c \<in> set (ls_comments s). comment_linked (ls_comments s) c)"

lemma comment_linked_mono:
  assumes "comment_linked cs c" and "same_comment c c'" and "\<And>d. d \<in> set cs \<Longrightarrow> \<exists>d' \<in> set cs'. same_comment d d'"
  shows "comment_linked cs' c'"
proof (cases "lc_parent c")
  case None
  with assms(1,2) show ?thesis by (simp add: comment_linked_def same_comment_def)
next
  case (Some p)
  with assms(1) obtain d where d: "d \<in> set cs" "lc_id d = p" "lc_post_id d = lc_post_id c"
    "lc_depth c = lc_depth d + 1" "lc_created_height d \<le> lc_created_height c" by (auto simp: comment_linked_def)
  from assms(3) [OF d(1)] obtain d' where "d' \<in> set cs'" "same_comment d d'" by blast
  with d Some assms(2) show ?thesis by (auto simp: comment_linked_def same_comment_def intro!: bexI [of _ d'])
qed

lemma list_all2_earlier: "list_all2 r xs ys \<Longrightarrow> x \<in> set xs \<Longrightarrow> \<exists>y \<in> set ys. r x y"
  by (induction rule: list_all2_induct) auto

lemma all_linked_same:
  assumes "list_all2 same_comment (ls_comments s) (ls_comments t)" and "all_linked s"
  shows "all_linked t"
  unfolding all_linked_def
proof
  fix c assume "c \<in> set (ls_comments t)"
  from list_all2_later [OF assms(1) this] obtain d where d: "d \<in> set (ls_comments s)" "same_comment d c" by blast
  from d(1) assms(2) have "comment_linked (ls_comments s) d" by (simp add: all_linked_def)
  then show "comment_linked (ls_comments t) c"
    using d(2) list_all2_earlier [OF assms(1)] by (rule comment_linked_mono)
qed

lemma all_linked_added:
  assumes "all_linked s" and "ls_comments t = ls_comments s @ [c]" and "comment_linked (ls_comments s) c"
  shows "all_linked t"
  unfolding all_linked_def
proof
  fix d assume "d \<in> set (ls_comments t)"
  with assms have "comment_linked (ls_comments s) d" by (auto simp: all_linked_def)
  moreover have "\<exists>e' \<in> set (ls_comments t). same_comment e e'" if "e \<in> set (ls_comments s)" for e
    using that by (intro bexI [of _ e]) (simp_all add: assms(2))
  ultimately show "comment_linked (ls_comments t) d" using same_comment_refl comment_linked_mono by blast
qed

text \<open>The parent a check finds on its state is one the replay finds on its own.\<close>

lemma found_alike:
  assumes "same_comments s t" and "find (\<lambda>c. lc_id c = i \<and> \<not> lc_deleted c) (ls_comments s) = Some d"
  shows "\<exists>e \<in> set (ls_comments t). find (\<lambda>c. lc_id c = i \<and> \<not> lc_deleted c) (ls_comments t) = Some e \<and>
    lc_id e = i \<and> lc_post_id e = lc_post_id d"
proof -
  have "map_option (\<lambda>c. (lc_depth c, lc_post_id c)) (find (\<lambda>c. lc_id c = i \<and> \<not> lc_deleted c) (ls_comments t)) =
      Some (lc_depth d, lc_post_id d)"
    using assms find_by_view [of i "ls_comments s"] find_by_view [of i "ls_comments t"] by (simp add: same_comments_def)
  then obtain e where "find (\<lambda>c. lc_id c = i \<and> \<not> lc_deleted c) (ls_comments t) = Some e" "lc_post_id e = lc_post_id d"
    by auto
  then show ?thesis by (auto simp: find_Some_iff)
qed

lemma checked_comment_linked:
  assumes "validate_library_tx X S h time tx (s, u) = Inr r" and same: "same_comments s t"
    and ms: "map (fst \<circ> snd) (library_markers_in_tx X tx S) = [LibComment p q a b]"
    and early: "comments_ok S (\<lambda>n. n \<le> h) t"
  shows "comment_linked (ls_comments t) (new_comment tid h time p q a b (library_comment_depth (ls_comments t) q))"
proof (cases q)
  case None
  then show ?thesis by (simp add: comment_linked_def new_comment_def library_comment_depth_def)
next
  case (Some i)
  from ms obtain j m where mk: "library_markers_in_tx X tx S = [(j, LibComment p q a b, m)]"
    by (cases "library_markers_in_tx X tx S") (auto simp: prod_eq_iff)
  from assms(1) mk Some obtain d where "find (\<lambda>c. lc_id c = i \<and> \<not> lc_deleted c) (ls_comments s) = Some d"
    and p: "lc_post_id d = p"
    by (auto simp: validate_library_tx_def validate_library_transaction_with_state_def Let_def result_simps
        validate_library_marker_state_def library_check_marker_def split: if_splits option.splits)
  from found_alike [OF same this(1)] obtain e where e: "e \<in> set (ls_comments t)"
    "find (\<lambda>c. lc_id c = i \<and> \<not> lc_deleted c) (ls_comments t) = Some e" "lc_id e = i" "lc_post_id e = p" by (auto simp: p)
  have "lc_created_height e \<le> h" using early e(1) by (auto simp: comments_ok_def)
  with Some e show ?thesis by (auto simp: comment_linked_def new_comment_def library_comment_depth_def)
qed

interpretation library_threads: checked_replay "validate_library_tx X S h time" "library_replay_tx X S h time"
  "\<lambda>s t. same_comments (fst s) (fst t) \<and> comments_ok S (\<lambda>n. n \<le> h) (fst t) \<and> all_linked (fst t)"
proof
  fix s :: "library_state \<times> utxo_map" and t :: "library_state \<times> library_votes" and tx s'
  assume rel: "same_comments (fst s) (fst t) \<and> comments_ok S (\<lambda>n. n \<le> h) (fst t) \<and> all_linked (fst t)"
    and check: "validate_library_tx X S h time tx s = Inr s'"
  from library_tx.check_step [OF _ check] rel obtain t'
    where t': "library_replay_tx X S h time tx t = Inr t'" "same_comments (fst s') (fst t')" by blast
  obtain u where a: "library_apply_markers S (hash_to_string X (txid X tx)) h time
      (map (fst \<circ> snd) (library_markers_in_tx X tx S)) (fst t) = Inr u" and u: "fst t' = u"
    using t'(1) by (cases t) (auto simp: library_replay_tx_def Let_def result_simps)
  from a have "all_linked u"
  proof (cases rule: apply_markers_comments)
    case kept
    with rel show ?thesis by (blast intro: all_linked_same)
  next
    case (added p q a b)
    obtain r v where s: "s = (r, v)" by (cases s)
    from checked_comment_linked [OF check [unfolded s] _ added(1)] rel
    have "comment_linked (ls_comments (fst t)) (new_comment (hash_to_string X (txid X tx)) h time p q a b
        (library_comment_depth (ls_comments (fst t)) q))" by (simp add: s)
    with rel added(2) show ?thesis using all_linked_added by blast
  qed
  with t' u comments_ok_replay_tx [OF t'(1)] rel
  show "\<exists>t'. library_replay_tx X S h time tx t = Inr t' \<and> same_comments (fst s') (fst t') \<and>
      comments_ok S (\<lambda>n. n \<le> h) (fst t') \<and> all_linked (fst t')" by blast
qed

section \<open>Chains of checked blocks\<close>

definition library_checked :: "extern \<Rightarrow> settings \<Rightarrow> block list \<Rightarrow> bool" where
  "library_checked X S bs \<longleftrightarrow>
     (\<forall>n. 1 \<le> n \<and> n < length bs \<longrightarrow> (\<exists>u. validate_library_block X S (bs ! n) (take n bs) u (of_nat n) = Inr ()))"

lemma library_checked_snoc:
  assumes "library_checked X S (bs @ [b])" and "bs \<noteq> []"
  shows "library_checked X S bs" and "\<exists>u. validate_library_block X S b bs u (of_nat (length bs)) = Inr ()"
proof -
  show "library_checked X S bs"
    unfolding library_checked_def
  proof (intro allI impI)
    fix n assume "1 \<le> n \<and> n < length bs"
    then show "\<exists>u. validate_library_block X S (bs ! n) (take n bs) u (of_nat n) = Inr ()"
      using assms(1) [unfolded library_checked_def, rule_format, of n] by (simp add: nth_append)
  qed
  show "\<exists>u. validate_library_block X S b bs u (of_nat (length bs)) = Inr ()"
    using assms(1) [unfolded library_checked_def, rule_format, of "length bs"] assms(2)
    by (simp add: Suc_le_eq)
qed

abbreviation replayed :: "extern \<Rightarrow> settings \<Rightarrow> block list \<Rightarrow> (library_state \<times> library_votes) result" where
  "replayed X S bs \<equiv> fold_r (library_replay_block X S) (numbered bs) (\<lparr>ls_posts = [], ls_comments = []\<rparr>, fmempty)"

lemma replayed_snoc:
  assumes "replayed X S (bs @ [b]) = Inr w" and "bs \<noteq> []"
  obtains u where "replayed X S bs = Inr u" and "library_replay_block X S (length bs, b) u = Inr w"
  using assms by (auto simp: numbered_snoc fold_r_append result_simps)

lemma replayed_recorded:
  assumes "replayed X S bs = Inr w" and "length bs \<le> 2 ^ 32" and "c \<in> set (ls_comments (fst w))"
  shows "comment_recorded X S bs c"
  using assms
proof (induction bs arbitrary: w c rule: rev_induct)
  case (snoc b bs)
  show ?case
  proof (cases "bs = []")
    case True
    with snoc.prems show ?thesis by auto
  next
    case False
    let ?h = "of_nat (length bs) :: u32"
    have n: "unat ?h = length bs" using snoc.prems(2) by (intro unat_of_nat_less) simp
    from snoc.prems(1) False obtain u where u: "replayed X S bs = Inr u"
      and step: "library_replay_block X S (length bs, b) u = Inr w" by (rule replayed_snoc)
    have old: "comment_recorded X S (bs @ [b]) d" if "d \<in> set (ls_comments (fst u))" for d
      using snoc.IH [OF u _ that] snoc.prems(2) by (simp add: recorded_longer)
    have "comment_recorded X S (bs @ [b]) c"
      if "commented_in X S ?h (hdr_time (blk_header b)) tx c" "tx \<in> set (drop 1 (blk_transactions b))" for tx
    proof -
      from that(1) have h: "lc_created_height c = ?h" by (simp add: commented_in_def)
      from that show ?thesis unfolding comment_recorded_def Let_def h n by (auto simp: nth_append)
    qed
    with old replay_txs_origin [of X S ?h "hdr_time (blk_header b)" "drop 1 (blk_transactions b)" u w c] step snoc.prems(3)
    show ?thesis by (auto simp: library_replay_block_def split: if_split_asm intro: recorded_same)
  qed
qed auto

lemma replayed_linked:
  assumes "library_checked X S bs" and "replayed X S bs = Inr w" and "length bs \<le> 2 ^ 32"
  shows "all_linked (fst w)"
  using assms
proof (induction bs arbitrary: w rule: rev_induct)
  case (snoc b bs)
  show ?case
  proof (cases "bs = []")
    case True
    with snoc.prems show ?thesis by (auto simp: all_linked_def)
  next
    case False
    let ?h = "of_nat (length bs) :: u32" and ?txs = "drop 1 (blk_transactions b)" and ?t = "hdr_time (blk_header b)"
    note checked = library_checked_snoc [OF snoc.prems(1) False]
    from snoc.prems(2) False obtain u where u: "replayed X S bs = Inr u"
      and step: "library_replay_block X S (length bs, b) u = Inr w" by (rule replayed_snoc)
    have len: "length bs \<le> 2 ^ 32" using snoc.prems(3) by simp
    note linked = snoc.IH [OF checked(1) u len]
    show ?thesis
    proof (cases "library_active S ?h \<and> \<not> list_all (\<lambda>tx. library_markers_in_tx X tx S = []) ?txs")
      case False
      then show ?thesis using step linked library_fold_no_markers [of X S ?txs ?h ?t u]
        by (auto simp: library_replay_block_def split: if_split_asm)
    next
      case True
      from checked(2) True obtain st v r where st: "library_state_from_blocks X S bs = Inr st"
        and r: "fold_r (validate_library_tx X S ?h ?t) ?txs (st, v) = Inr r"
        by (auto simp: validate_library_block_def result_simps)
      from st len obtain s votes where "replayed X S bs = Inr (s, votes)" and same: "same_comments st s"
        by (rule library_state_Inr)
      with u have s: "fst u = s" by auto
      have "unat ?h = length bs" using snoc.prems(3) by (intro unat_of_nat_less) simp
      then have "comments_ok S (\<lambda>n. n \<le> ?h) (fst u)"
        using comments_ok_weaken [OF comments_ok_replay [OF u len]] by (simp add: word_le_nat_alt)
      with library_threads.checked_then_recorded [OF _ r, of u] same s linked
      obtain w' where "fold_r (library_replay_tx X S ?h ?t) ?txs u = Inr w'" "all_linked (fst w')" by auto
      with step True show ?thesis by (simp add: library_replay_block_def)
    qed
  qed
qed (auto simp: all_linked_def)

lemma library_state_comments:
  assumes "library_state_from_blocks X S bs = Inr st"
  obtains w and t :: library_state where "replayed X S bs = Inr w" and "list_all2 same_comment (ls_comments (fst w)) (ls_comments t)"
    and "set (ls_comments st) = set (ls_comments t)"
proof -
  from assms obtain s votes where r: "replayed X S bs = Inr (s, votes)"
    and c: "ls_comments st = sort_by library_comment_order (ls_comments (fold library_count_vote (sorted_list_of_fmap votes) s))"
    by (auto simp: library_state_from_blocks_def result_simps Let_def library_count_comments_def)
  show thesis
    by (rule that [OF r, of "fold library_count_vote (sorted_list_of_fmap votes) s"])
      (simp_all add: c set_sort_by count_votes_same)
qed

text \<open>
  C30: The comments of a library are threads of what was posted. On a chain whose blocks passed the
  library checks, every comment of the library state has the id, post, parent, author and, unless it was edited,
  text of a comment marker of a transaction in the block at the height and time the comment records; its
  depth is 0 if it has no parent, and otherwise one more than that of its parent, which is a comment on
  the same post from the same or an earlier block; and no comment is deeper than the settings allow.
\<close>

theorem library_comments_nested:
  assumes "library_checked X S bs" and "library_state_from_blocks X S bs = Inr st" and "length bs \<le> 2 ^ 32"
    and "c \<in> set (ls_comments st)"
  shows "comment_recorded X S bs c \<and> comment_linked (ls_comments st) c \<and> lc_depth c \<le> lib_max_comment_depth (library S)"
proof -
  from assms(2) obtain w and t :: library_state where w: "replayed X S bs = Inr w"
    and same: "list_all2 same_comment (ls_comments (fst w)) (ls_comments t)"
    and same_set: "set (ls_comments st) = set (ls_comments t)" by (rule library_state_comments)
  from list_all2_later [OF same] assms(4) same_set obtain d where d: "d \<in> set (ls_comments (fst w))" "same_comment d c" by auto
  have "comment_linked (ls_comments t) c"
    using all_linked_same [OF same replayed_linked [OF assms(1) w assms(3)]] assms(4) same_set by (simp add: all_linked_def)
  moreover have "comment_linked (ls_comments st) c = comment_linked (ls_comments t) c" unfolding comment_linked_def same_set ..
  moreover have "lc_depth c \<le> lib_max_comment_depth (library S)"
    using library_state_Inr [OF assms(2,3)] assms(4) by metis
  ultimately show ?thesis using recorded_same [OF d(2) replayed_recorded [OF w assms(3) d(1)]] by simp
qed

section \<open>A post, a comment and an answer\<close>

definition ex_comment_script :: "string \<Rightarrow> string \<Rightarrow> script" where
  "ex_comment_script i q = pipes [''LIB1'', ''comment'', ''v1'', i, q, address_to_string ref_extern ex_owner,
     hex_encode ref_extern ''c'']"

definition ex_post_tx :: transaction where
  "ex_post_tx = ex_pay [\<lparr>out_value = 1, script_pubkey = ex_post_script\<rparr>]"

definition ex_comment_tx :: "string \<Rightarrow> string \<Rightarrow> transaction" where
  "ex_comment_tx i q = ex_pay [\<lparr>out_value = 1, script_pubkey = ex_comment_script i q\<rparr>]"

definition ex_tx_id :: "transaction \<Rightarrow> string" where
  "ex_tx_id tx = hash_to_string ref_extern (txid ref_extern tx)"

lemma ex_tx_id_valid:
  "library_validate_id (ex_tx_id tx) = Inr (ex_tx_id tx)" "plain_field (ex_tx_id tx)" "ex_tx_id tx \<noteq> ''-''"
proof -
  have hex: "list_all is_lower_hex (ex_tx_id tx)" and len: "length (ex_tx_id tx) = 64"
    using hex_encode_chars [OF ref_extern_ok]
    by (simp_all add: ex_tx_id_def hash_to_string_def list_all_iff hex_encode_length [OF ref_extern_ok] length_txid [OF ref_extern_ok])
  note h = lower_hex_text_facts [OF hex]
  show "library_validate_id (ex_tx_id tx) = Inr (ex_tx_id tx)" by (simp add: library_validate_id_def h len)
  show "plain_field (ex_tx_id tx)" by (rule h)
  show "ex_tx_id tx \<noteq> ''-''" using len by auto
qed

lemma ex_comment_parsed:
  assumes "library_validate_id i = Inr i" and "plain_field i" and "q = ''-'' \<or> library_validate_id q = Inr q" and "plain_field q"
  shows "library_markers_in_tx ref_extern (ex_comment_tx i q) ex_lib_settings =
    [(0, LibComment i (if q = ''-'' then None else Some q) (address_to_string ref_extern ex_owner) ''c'', 1)]"
proof -
  let ?fs = "[''LIB1'', ''comment'', ''v1'', i, q, address_to_string ref_extern ex_owner, hex_encode ref_extern ''c'']"
  have "list_all plain_field ?fs"
    using plain_address [OF ref_extern_ok ex_owner(1)] plain_library_words plain_hex [OF ref_extern_ok] assms(2,4) by simp
  then have r: "from_utf8 (ex_comment_script i q) = Some (ex_comment_script i q)"
      "split_on (CHR ''|'') (ex_comment_script i q) = ?fs"
    using pipes_read_back [of ?fs] by (simp_all add: ex_comment_script_def)
  have p: "starts_with (ex_comment_script i q) LIBRARY_SCRIPT_PREFIX"
    by (simp add: ex_comment_script_def starts_with_def LIBRARY_SCRIPT_PREFIX_def pipes_def)
  have "library ex_lib_settings = ex_library\<lparr>lib_activation_height := 0\<rparr>" by (simp add: ex_lib_settings_def)
  moreover have "from_utf8 ''c'' = Some ''c''" by (intro from_utf8_ascii) (auto simp: is_ascii_def)
  ultimately have "parse_library_comment ref_extern ex_lib_settings (drop 3 ?fs) =
      Some (LibComment i (if q = ''-'' then None else Some q) (address_to_string ref_extern ex_owner) ''c'')"
    using ex_library_fields [of "''c''"] assms(1,3)
    by (cases "q = ''-''") (simp_all add: parse_library_comment_def ex_author)
  then have "parse_library_marker_script ref_extern (ex_comment_script i q) ex_lib_settings =
      Some (LibComment i (if q = ''-'' then None else Some q) (address_to_string ref_extern ex_owner) ''c'')"
    using p by (simp add: parse_library_marker_script_def r)
  then show ?thesis
    by (simp add: library_markers_in_tx_def markers_in_def ex_comment_tx_def ex_pay_simps List.map_filter_def)
qed

definition ex_comment_id :: string where
  "ex_comment_id = ex_tx_id (ex_comment_tx (ex_tx_id ex_post_tx) ''-'')"

definition ex_library_chain :: "block list" where
  "ex_library_chain = [example_block [], example_block [example_tx, ex_post_tx],
     example_block [example_tx, ex_comment_tx (ex_tx_id ex_post_tx) ''-''],
     example_block [example_tx, ex_comment_tx (ex_tx_id ex_post_tx) ex_comment_id]]"

lemma ex_thread_markers:
  "library_markers_in_tx ref_extern ex_post_tx ex_lib_settings =
    [(0, LibPost (address_to_string ref_extern ex_owner) ''a'' ''b'' 0 1 ''c'', 1)]"
  "library_markers_in_tx ref_extern (ex_comment_tx (ex_tx_id ex_post_tx) ''-'') ex_lib_settings =
    [(0, LibComment (ex_tx_id ex_post_tx) None (address_to_string ref_extern ex_owner) ''c'', 1)]"
  "library_markers_in_tx ref_extern (ex_comment_tx (ex_tx_id ex_post_tx) ex_comment_id) ex_lib_settings =
    [(0, LibComment (ex_tx_id ex_post_tx) (Some ex_comment_id) (address_to_string ref_extern ex_owner) ''c'', 1)]"
  using ex_tx_id_valid plain_library_words
  by (simp_all add: ex_comment_parsed ex_post_tx_def ex_library_markers ex_comment_id_def)

definition ex_posted :: "nat \<Rightarrow> library_post" where
  "ex_posted n = \<lparr>lp_id = ex_tx_id ex_post_tx, lp_author = address_to_string ref_extern ex_owner, lp_title = ''a'',
     lp_category = ''b'', lp_body = ''c'', lp_created_height = 1, lp_created_time = 0, lp_edited_height = None,
     lp_edited_time = None, lp_deleted = False, lp_upvotes = 0, lp_downvotes = 0, lp_comment_count = n\<rparr>"

definition ex_commented :: "u32 \<Rightarrow> library_comment" where
  "ex_commented h = new_comment
     (if h = 2 then ex_comment_id else ex_tx_id (ex_comment_tx (ex_tx_id ex_post_tx) ex_comment_id)) h 0
     (ex_tx_id ex_post_tx) (if h = 2 then None else Some ex_comment_id) (address_to_string ref_extern ex_owner) ''c''
     (if h = 2 then 0 else 1)"

lemma ex_no_votes: "sorted_list_of_fmap (fmempty :: library_votes) = []"
  by (simp add: sorted_list_of_fmap_def sorted_list_of_fset.rep_eq)

lemma ex_depth_limit: "lib_max_comment_depth (library ex_lib_settings) = 16" "lib_max_pages_per_post (library ex_lib_settings) = 16"
  by (simp_all add: ex_lib_settings_def ex_library_def)

lemma ex_replay_txs:
  "library_replay_tx ref_extern ex_lib_settings 1 0 ex_post_tx (\<lparr>ls_posts = [], ls_comments = []\<rparr>, fmempty) =
    Inr (\<lparr>ls_posts = [ex_posted 0], ls_comments = []\<rparr>, fmempty)"
  "library_replay_tx ref_extern ex_lib_settings 2 0 (ex_comment_tx (ex_tx_id ex_post_tx) ''-'')
    (\<lparr>ls_posts = [ex_posted n], ls_comments = []\<rparr>, fmempty) =
    Inr (\<lparr>ls_posts = [ex_posted n], ls_comments = [ex_commented 2]\<rparr>, fmempty)"
  "library_replay_tx ref_extern ex_lib_settings 3 0 (ex_comment_tx (ex_tx_id ex_post_tx) ex_comment_id)
    (\<lparr>ls_posts = [ex_posted n], ls_comments = [ex_commented 2]\<rparr>, fmempty) =
    Inr (\<lparr>ls_posts = [ex_posted n], ls_comments = [ex_commented 2, ex_commented 3]\<rparr>, fmempty)"
  by (simp_all add: library_replay_tx_def ex_thread_markers library_apply_markers_def library_collect_page_def
      ex_owner ex_posted_def ex_commented_def new_comment_def library_record_votes_def library_comment_depth_def
      ex_depth_limit ex_tx_id_def [symmetric] ex_comment_id_def [symmetric] sort_key_simps(2) [of fst])

lemma ex_block_replays:
  "library_replay_block ref_extern ex_lib_settings (n, example_block [example_tx, tx]) st =
    library_replay_tx ref_extern ex_lib_settings (of_nat n) 0 tx st"
  by (cases "library_replay_tx ref_extern ex_lib_settings (of_nat n) 0 tx st")
    (simp_all add: library_replay_block_def ex_lib_simps example_block_def)

lemma ex_fields:
  "lp_id (ex_posted n) = ex_tx_id ex_post_tx" "\<not> lp_deleted (ex_posted n)" "(ex_posted n)\<lparr>lp_comment_count := k\<rparr> = ex_posted k"
  "lc_post_id (ex_commented h) = ex_tx_id ex_post_tx" "\<not> lc_deleted (ex_commented h)" "lc_created_height (ex_commented h) = h"
  "lc_id (ex_commented 2) = ex_comment_id" "lc_depth (ex_commented 2) = 0"
  "lc_parent (ex_commented 3) = Some ex_comment_id" "lc_depth (ex_commented 3) = 1"
  by (simp_all add: ex_posted_def ex_commented_def new_comment_def)

lemma ex_states:
  "library_state_from_blocks ref_extern ex_lib_settings (take 1 ex_library_chain) = Inr \<lparr>ls_posts = [], ls_comments = []\<rparr>"
  "library_state_from_blocks ref_extern ex_lib_settings (take 2 ex_library_chain) =
    Inr \<lparr>ls_posts = [ex_posted 0], ls_comments = []\<rparr>"
  "library_state_from_blocks ref_extern ex_lib_settings (take 3 ex_library_chain) =
    Inr \<lparr>ls_posts = [ex_posted 1], ls_comments = [ex_commented 2]\<rparr>"
  "library_state_from_blocks ref_extern ex_lib_settings ex_library_chain =
    Inr \<lparr>ls_posts = [ex_posted (Suc 1)], ls_comments = [ex_commented 2, ex_commented 3]\<rparr>"
  by (simp_all add: library_state_from_blocks_def ex_library_chain_def numbered_def ex_block_replays ex_replay_txs
      ex_no_votes library_count_comments_def sort_by_def library_comment_order_def ex_fields Let_def)

lemma ex_thread_checked:
  assumes "library_check_marker ref_extern ex_lib_settings st (ex_pay outs) (ex_coin 9) m = Inr ()"
    and "library_markers_in_tx ref_extern (ex_pay outs) ex_lib_settings = [(0, m, 1)]"
    and "library_state_from_blocks ref_extern ex_lib_settings bs = Inr st"
    and "library_replay_tx ref_extern ex_lib_settings (of_nat n) 0 (ex_pay outs) (st, fmempty) = Inr r"
    and "\<And>a t c i k d. m = LibPost a t c i k d \<Longrightarrow> k = 1"
  shows "validate_library_block ref_extern ex_lib_settings (example_block [example_tx, ex_pay outs]) bs (ex_coin 9) (of_nat n) = Inr ()"
proof -
  have "validate_library_transaction_with_state ref_extern ex_lib_settings (ex_pay outs) st (ex_coin 9) (of_nat n) = Inr ()"
    using ex_kind [of outs] assms(1,2,5)
    by (cases m) (simp_all add: validate_library_transaction_with_state_def validate_library_marker_state_def
        ex_lib_simps library_check_page_def MAX_SEND_ENTRIES_PER_TX_def)
  then show ?thesis
    using assms(2-4) by (auto simp: validate_library_block_def example_block_def validate_library_tx_def
        library_replay_tx_def result_simps Let_def)
qed

lemma ex_library_checked: "library_checked ref_extern ex_lib_settings ex_library_chain"
  unfolding library_checked_def
proof (intro allI impI)
  fix n assume "1 \<le> n \<and> n < length ex_library_chain"
  then consider "n = 1" | "n = 2" | "n = 3" by (auto simp: ex_library_chain_def less_Suc_eq)
  then show "\<exists>u. validate_library_block ref_extern ex_lib_settings (ex_library_chain ! n) (take n ex_library_chain) u (of_nat n) = Inr ()"
  proof cases
    case 1
    have "validate_library_block ref_extern ex_lib_settings (example_block [example_tx, ex_post_tx])
        (take 1 ex_library_chain) (ex_coin 9) (of_nat 1) = Inr ()"
      unfolding ex_post_tx_def
      by (rule ex_thread_checked [OF _ ex_thread_markers(1) [unfolded ex_post_tx_def] ex_states(1) _])
        (use ex_author_spent ex_thread_markers(1) ex_replay_txs(1) in \<open>simp_all add: ex_post_tx_def
          library_check_marker_def word_less_nat_alt ex_depth_limit\<close>)
    with 1 show ?thesis by (auto simp: ex_library_chain_def)
  next
    case 2
    have "validate_library_block ref_extern ex_lib_settings (example_block [example_tx, ex_comment_tx (ex_tx_id ex_post_tx) ''-''])
        (take 2 ex_library_chain) (ex_coin 9) (of_nat 2) = Inr ()"
      unfolding ex_comment_tx_def
      by (rule ex_thread_checked [OF _ ex_thread_markers(2) [unfolded ex_comment_tx_def] ex_states(2) _])
        (use ex_author_spent ex_thread_markers(2) ex_replay_txs(2) in \<open>simp_all add: ex_comment_tx_def
          library_check_marker_def ex_fields\<close>)
    with 2 show ?thesis by (auto simp: ex_library_chain_def)
  next
    case 3
    have "validate_library_block ref_extern ex_lib_settings (example_block [example_tx, ex_comment_tx (ex_tx_id ex_post_tx) ex_comment_id])
        (take 3 ex_library_chain) (ex_coin 9) (of_nat 3) = Inr ()"
      unfolding ex_comment_tx_def
      by (rule ex_thread_checked [OF _ ex_thread_markers(3) [unfolded ex_comment_tx_def] ex_states(3) _])
        (use ex_author_spent ex_thread_markers(3) ex_replay_txs(3) in \<open>simp_all add: ex_comment_tx_def
          library_check_marker_def ex_fields ex_depth_limit\<close>)
    with 3 show ?thesis by (auto simp: ex_library_chain_def)
  qed
qed

lemma library_comments_nested_witness:
  "ex_commented 3 \<in> set [ex_commented 2, ex_commented 3] \<and> lc_depth (ex_commented 3) = 1 \<and>
    comment_recorded ref_extern ex_lib_settings ex_library_chain (ex_commented 3) \<and>
    comment_linked [ex_commented 2, ex_commented 3] (ex_commented 3)"
  using library_comments_nested [OF ex_library_checked ex_states(4), of "ex_commented 3"] ex_fields(10)
  by (simp add: ex_library_chain_def)

end
