(* ===== verification/Disk.thy ===== *)
theory Disk
  imports StateErr Extern
begin

text \<open>
  The files the node keeps, and how \<open>src/fast_storage.rs\<close> changes them. A \<open>disk\<close> holds the files of
  the data directory and of its subdirectory \<open>chain-v2\<close> by name. Every change is one attempt,
  and \<open>dk_fails\<close> says which attempts fail: a full disk fails some of them, a loss of power all from one
  on, so a statement for every \<open>dk_fails\<close> covers every point at which a writer can be
  interrupted. Replacing a file through a temporary one is a single attempt (\<open>rename\<close> is atomic,
  and no code reads a temporary file); appending is one attempt per byte, so that a torn append
  leaves any prefix behind. Attempts take effect in their order. File lengths are natural numbers.
\<close>

record disk =
  dk_data :: "(string, bytes) fmap"
  dk_fast :: "(string, bytes) fmap"
  dk_attempts :: nat
  dk_fails :: "nat \<Rightarrow> bool"

definition attempt :: "(disk \<Rightarrow> disk) \<Rightarrow> (disk, unit) se" where
  "attempt f = (\<lambda>d. let e = d\<lparr>dk_attempts := dk_attempts d + 1\<rparr> in
     if dk_fails d (dk_attempts d) then (Inl (StorageErr SWriteFailed), e) else (Inr (), f e))"

definition fast_file :: "disk \<Rightarrow> string \<Rightarrow> bytes option" where
  "fast_file d n = fmlookup (dk_fast d) n"

definition data_file :: "disk \<Rightarrow> string \<Rightarrow> bytes option" where
  "data_file d n = fmlookup (dk_data d) n"

definition put_fast :: "string \<Rightarrow> bytes \<Rightarrow> disk \<Rightarrow> disk" where
  "put_fast n body d = d\<lparr>dk_fast := fmupd n body (dk_fast d)\<rparr>"

definition put_data :: "string \<Rightarrow> bytes \<Rightarrow> disk \<Rightarrow> disk" where
  "put_data n body d = d\<lparr>dk_data := fmupd n body (dk_data d)\<rparr>"

definition drop_fast :: "string \<Rightarrow> disk \<Rightarrow> disk" where
  "drop_fast n d = d\<lparr>dk_fast := fmdrop n (dk_fast d)\<rparr>"

definition replace_fast :: "string \<Rightarrow> bytes \<Rightarrow> (disk, unit) se" where
  "replace_fast n body = attempt (put_fast n body)"

definition replace_data :: "string \<Rightarrow> bytes \<Rightarrow> (disk, unit) se" where
  "replace_data n body = attempt (put_data n body)"

definition remove_fast :: "string \<Rightarrow> (disk, unit) se" where
  "remove_fast n = attempt (drop_fast n)"

text \<open>\<open>write_all\<close> at the end of a file, one byte after the other.\<close>

definition append_byte :: "string \<Rightarrow> char \<Rightarrow> (disk, unit) se" where
  "append_byte n c = attempt (\<lambda>d. put_fast n (the (fast_file d n) @ [c]) d)"

definition append_fast :: "string \<Rightarrow> bytes \<Rightarrow> (disk, unit) se" where
  "append_fast n body = se_for (append_byte n) body"

definition truncate_fast :: "string \<Rightarrow> nat \<Rightarrow> (disk, unit) se" where
  "truncate_fast n k = attempt (\<lambda>d. put_fast n (take k (the (fast_file d n))) d)"

section \<open>What an attempt leaves alone\<close>

lemma fast_file_simps [simp]:
  "fast_file (put_fast n b d) m = (if m = n then Some b else fast_file d m)"
  "fast_file (drop_fast n d) m = (if m = n then None else fast_file d m)"
  "fast_file (put_data n b d) m = fast_file d m"
  "fast_file (d\<lparr>dk_attempts := a\<rparr>) m = fast_file d m"
  by (simp_all add: fast_file_def put_fast_def drop_fast_def put_data_def)

lemma data_file_simps [simp]:
  "data_file (put_data n b d) m = (if m = n then Some b else data_file d m)"
  "data_file (put_fast n b d) m = data_file d m"
  "data_file (drop_fast n d) m = data_file d m"
  "data_file (d\<lparr>dk_attempts := a\<rparr>) m = data_file d m"
  by (simp_all add: data_file_def put_fast_def drop_fast_def put_data_def)

text \<open>An attempt either has its effect on the files, or none.\<close>

lemma attempt_cases:
  assumes "attempt f d = (r, e)"
  obtains (failed) "r = Inl (StorageErr SWriteFailed)" and "e = d\<lparr>dk_attempts := dk_attempts d + 1\<rparr>"
  | (took) "r = Inr ()" and "e = f (d\<lparr>dk_attempts := dk_attempts d + 1\<rparr>)"
  using assms by (auto simp: attempt_def Let_def split: if_split_asm)

lemma append_fast_prefix:
  assumes "append_fast n body d = (r, e)" and "fast_file d n = Some old"
  obtains k where "fast_file e n = Some (old @ take k body)" and "r = Inr () \<Longrightarrow> k = length body"
    and "\<And>m. m \<noteq> n \<Longrightarrow> fast_file e m = fast_file d m" and "\<And>m. data_file e m = data_file d m"
  using assms
proof (induction body arbitrary: d old thesis)
  case Nil
  then show ?case by (simp add: append_fast_def se_return_def)
next
  case (Cons c body)
  obtain r1 d1 where a: "append_byte n c d = (r1, d1)" by (cases "append_byte n c d")
  from a [unfolded append_byte_def] show ?case
  proof (cases rule: attempt_cases)
    case failed
    with Cons.prems(2) a have "r = Inl (StorageErr SWriteFailed)" "e = d\<lparr>dk_attempts := dk_attempts d + 1\<rparr>"
      by (simp_all add: append_fast_def se_then_def se_bind_def)
    with Cons.prems(3) show ?thesis by (intro Cons.prems(1) [of 0]) simp_all
  next
    case took
    with Cons.prems(2) a have "append_fast n body d1 = (r, e)" by (simp add: append_fast_def se_then_def se_bind_def)
    moreover have "fast_file d1 n = Some (old @ [c])" using took(2) Cons.prems(3) by simp
    ultimately obtain k where k: "fast_file e n = Some ((old @ [c]) @ take k body)" "r = Inr () \<Longrightarrow> k = length body"
      "\<And>m. m \<noteq> n \<Longrightarrow> fast_file e m = fast_file d1 m" "\<And>m. data_file e m = data_file d1 m"
      using Cons.IH by metis
    show ?thesis
    proof (rule Cons.prems(1) [of "Suc k"])
      show "fast_file e n = Some (old @ take (Suc k) (c # body))" using k(1) by simp
      show "r = Inr () \<Longrightarrow> Suc k = length (c # body)" using k(2) by simp
      show "m \<noteq> n \<Longrightarrow> fast_file e m = fast_file d m" for m using k(3) took(2) by simp
      show "data_file e m = data_file d m" for m using k(4) took(2) by simp
    qed
  qed
qed

text \<open>
  A transformer that touches files in chain-v2 only by names in a set, or files of the data directory
  only: what else is on the disk stays, whichever attempts fail.
\<close>

definition touches_only :: "string set \<Rightarrow> (disk, 'a) se \<Rightarrow> bool" where
  "touches_only N m \<longleftrightarrow> (\<forall>d n. n \<notin> N \<longrightarrow> fast_file (snd (m d)) n = fast_file d n)"

named_theorems touches \<open>which files a transformer may change\<close>

lemma touches_attempt: "(\<And>d n. n \<notin> N \<Longrightarrow> fast_file (f d) n = fast_file d n) \<Longrightarrow> touches_only N (attempt f)"
  by (auto simp: touches_only_def attempt_def Let_def)

lemma touches_basic [touches]:
  "n \<in> N \<Longrightarrow> touches_only N (replace_fast n b)" "n \<in> N \<Longrightarrow> touches_only N (remove_fast n)"
  "n \<in> N \<Longrightarrow> touches_only N (append_byte n c)" "n \<in> N \<Longrightarrow> touches_only N (truncate_fast n k)"
  "touches_only N (replace_data x b)"
  unfolding replace_fast_def remove_fast_def append_byte_def truncate_fast_def replace_data_def
  by (rule touches_attempt; auto)+

lemma touches_return [touches]: "touches_only N (se_return a)"
  and touches_fail [touches]: "touches_only N (se_fail e)"
  and touches_need [touches]: "touches_only N (se_need f)"
  by (simp_all add: touches_only_def se_return_def se_fail_def se_need_def)

lemma touches_bind [touches]: "touches_only N m \<Longrightarrow> (\<And>a. touches_only N (k a)) \<Longrightarrow> touches_only N (se_bind m k)"
  unfolding touches_only_def se_bind_def
proof (intro allI impI)
  fix d n
  assume m: "\<forall>d n. n \<notin> N \<longrightarrow> fast_file (snd (m d)) n = fast_file d n"
    and k: "\<And>a. \<forall>d n. n \<notin> N \<longrightarrow> fast_file (snd (k a d)) n = fast_file d n" and n: "n \<notin> N"
  obtain r e where "m d = (r, e)" by (cases "m d")
  with m k n show "fast_file (snd (case m d of (Inl e, t) \<Rightarrow> (Inl e, t) | (Inr a, t) \<Rightarrow> k a t)) n = fast_file d n"
    by (cases r) (auto dest: spec [of _ d])
qed

lemma touches_then [touches]: "touches_only N m \<Longrightarrow> touches_only N k \<Longrightarrow> touches_only N (se_then m k)"
  by (simp add: se_then_def touches_bind)

lemma touches_ignore [touches]: "touches_only N m \<Longrightarrow> touches_only N (se_ignore m)"
  by (simp add: touches_only_def se_ignore_def)

lemma touches_for [touches]: "(\<And>x. x \<in> set xs \<Longrightarrow> touches_only N (f x)) \<Longrightarrow> touches_only N (se_for f xs)"
  by (induction xs) (auto intro: touches)

lemma touches_if [touches]:
  "(c \<Longrightarrow> touches_only N m) \<Longrightarrow> (\<not> c \<Longrightarrow> touches_only N k) \<Longrightarrow> touches_only N (if c then m else k)"
  by simp

lemma touches_onlyD: "touches_only N m \<Longrightarrow> m d = (r, e) \<Longrightarrow> n \<notin> N \<Longrightarrow> fast_file e n = fast_file d n"
  by (metis touches_only_def snd_conv)

end
