(* ===== verification/BlockRules.thy ===== *)
theory BlockRules
  imports Library
begin

text \<open>
  \<open>validate_block\<close> of \<open>src/lib.rs\<close>: the rules of a block that do not look at the protocol registries
  (shape, link, work, time, transactions against the UTXO set, fees, coinbase). The lemmas show that
  an accepted block mints no more than the subsidy.
\<close>

definition check_no_coinbase :: "transaction \<Rightarrow> unit \<Rightarrow> unit result" where
  "check_no_coinbase tx _ = (if is_coinbase tx then Inl (BlockErr ExtraCoinbase) else Inr ())"

definition collect_txid :: "extern \<Rightarrow> transaction \<Rightarrow> hash256 fset \<Rightarrow> hash256 fset result" where
  "collect_txid X tx ids =
     (if txid X tx |\<in>| ids then Inl (BlockErr DuplicateTxid) else Inr (finsert (txid X tx) ids))"

definition required_extra_fee :: "extern \<Rightarrow> settings \<Rightarrow> transaction \<Rightarrow> u32 \<Rightarrow> u64 result" where
  "required_extra_fee X S tx height =
     rbind (qns_miner_fee_required_in_tx X S tx height) (\<lambda>qns_miner_fee.
     rbind (library_miner_fee_required_in_tx X S tx height) (\<lambda>library_miner_fee.
     rbind (jin_swap_miner_fee_required_in_tx X S tx height) (\<lambda>swap_miner_fee.
     ok_or (BlockErr ExtraFeeOverflow)
       (Option.bind (checked_add qns_miner_fee library_miner_fee) (\<lambda>v. checked_add v swap_miner_fee)))))"

definition validate_block_tx ::
  "extern \<Rightarrow> settings \<Rightarrow> u32 \<Rightarrow> transaction \<Rightarrow> utxo_map \<times> u128 \<Rightarrow> (utxo_map \<times> u128) result" where
  "validate_block_tx X S height tx st = (case st of (scratch, fees) \<Rightarrow>
     rbind (validate_tx_contextual X tx scratch height S True) (\<lambda>raw_fee.
     rbind (qub_jin_melt_burn_atoms_for_fee X S tx height) (\<lambda>qub_melt_burn.
     if raw_fee < qub_melt_burn then Inl (BlockErr MeltBurnExceedsDelta) else
     let fee = raw_fee - qub_melt_burn in
     rbind (required_extra_fee X S tx height) (\<lambda>extra.
     if fee < extra then Inl (BlockErr MinerFeeUnderpayment) else
     rbind (connect_tx_utxos X tx height False scratch) (\<lambda>scratch.
     Inr (scratch, fees + ucast fee))))))"

definition coinbase_claim :: "transaction \<Rightarrow> u128" where
  "coinbase_claim tx = sum_list (map (\<lambda>out. ucast (out_value out)) (tx_outputs tx))"

definition validate_block ::
  "extern \<Rightarrow> block \<Rightarrow> utxo_map \<Rightarrow> hash256 \<Rightarrow> u32 \<Rightarrow> u32 \<Rightarrow> settings \<Rightarrow> hash256 fset result" where
  "validate_block X b base_utxos expected_prev height required_bits S =
     (let txs = blk_transactions b; header = blk_header b in
      if txs = [] then Inl (BlockErr EmptyBlock)
      else if length txs > unat (cons_max_block_transactions (consensus S)) then Inl (BlockErr TooManyBlockTransactions)
      else if hdr_version header \<noteq> expected_block_version S height then Inl (BlockErr BadBlockVersion)
      else if hdr_prev_block_hash header \<noteq> expected_prev then Inl (BlockErr BadPrevHash)
      else if hdr_bits header \<noteq> required_bits then Inl (BlockErr BadBits)
      else if compute_merkle_root X b \<noteq> hdr_merkle_root header then Inl (BlockErr MerkleMismatch) else
      rbind (verify_header_pow X header) (\<lambda>pow.
      if \<not> pow then Inl (BlockErr InsufficientPow)
      else if hdr_time header > sat_add (unix_now X) (cons_max_future_time_secs (consensus S))
      then Inl (BlockErr FutureTimestamp)
      else if \<not> is_coinbase (txs ! 0) then Inl (BlockErr MissingCoinbase) else
      rbind (fold_r check_no_coinbase (drop 1 txs) ()) (\<lambda>_.
      rbind (fold_r (collect_txid X) txs {||}) (\<lambda>ids.
      rbind (fold_r (validate_block_tx X S height) (drop 1 txs) (base_utxos, 0)) (\<lambda>(_, fees).
      rbind (validate_tx_stateless (txs ! 0) S) (\<lambda>_.
      if coinbase_claim (txs ! 0) > ucast (block_subsidy (ucast height) S) + fees
      then Inl (BlockErr CoinbaseOverclaim)
      else Inr ids))))))"

section \<open>What an accepted block mints\<close>

lemma validate_block_Inr:
  assumes "validate_block X b u p h bits S = Inr ids"
  obtains cb txs scratch fees where "blk_transactions b = cb # txs" and "is_coinbase cb"
    and "\<forall>tx \<in> set txs. \<not> is_coinbase tx" and "fold_r (collect_txid X) (cb # txs) {||} = Inr ids"
    and "fold_r (validate_block_tx X S h) txs (u, 0) = Inr (scratch, fees)"
    and "validate_tx_stateless cb S = Inr ()"
    and "coinbase_claim cb \<le> ucast (block_subsidy (ucast h) S) + fees"
    and "hdr_prev_block_hash (blk_header b) = p" and "hdr_bits (blk_header b) = bits"
    and "compute_merkle_root X b = hdr_merkle_root (blk_header b)"
    and "verify_header_pow X (blk_header b) = Inr True"
    and "hdr_version (blk_header b) = expected_block_version S h"
    and "length txs < unat (cons_max_block_transactions (consensus S))"
proof -
  obtain cb txs where txs: "blk_transactions b = cb # txs"
    using assms by (cases "blk_transactions b") (auto simp: validate_block_def)
  have none: "fold_r check_no_coinbase xs () = Inr () \<Longrightarrow> \<forall>tx \<in> set xs. \<not> is_coinbase tx" for xs
    by (induction xs) (auto simp: check_no_coinbase_def split: if_splits)
  from assms txs obtain scratch fees where "is_coinbase cb" "fold_r check_no_coinbase txs () = Inr ()"
    "fold_r (collect_txid X) (cb # txs) {||} = Inr ids"
    "fold_r (validate_block_tx X S h) txs (u, 0) = Inr (scratch, fees)" "validate_tx_stateless cb S = Inr ()"
    "coinbase_claim cb \<le> ucast (block_subsidy (ucast h) S) + fees"
    "hdr_prev_block_hash (blk_header b) = p" "hdr_bits (blk_header b) = bits"
    "compute_merkle_root X b = hdr_merkle_root (blk_header b)" "verify_header_pow X (blk_header b) = Inr True"
    "hdr_version (blk_header b) = expected_block_version S h"
    "length txs < unat (cons_max_block_transactions (consensus S))"
    by (auto simp: validate_block_def Let_def result_simps not_less Suc_le_eq simp del: fold_r.simps)
  with txs none that show thesis by blast
qed

lemma validate_block_tx_Inr:
  assumes "validate_block_tx X S h tx (u, f) = Inr r"
  obtains raw burn u1 where "validate_tx_contextual X tx u h S True = Inr raw"
    and "qub_jin_melt_burn_atoms_for_fee X S tx h = Inr burn" and "burn \<le> raw"
    and "connect_tx_utxos X tx h False u = Inr u1" and "r = (u1, f + ucast (raw - burn))"
  using assms by (auto simp: validate_block_tx_def result_simps Let_def not_less)

lemma block_txs_fees:
  assumes "fold_r (validate_block_tx X S h) txs (u, f) = Inr (v, f')"
    and "\<forall>tx \<in> set txs. \<not> is_coinbase tx" and "utxo_total u < 2 ^ 64" and "unat f + utxo_total u < 2 ^ 128"
  shows "utxo_total v + unat f' \<le> utxo_total u + unat f"
  using assms
proof (induction txs arbitrary: u f)
  case (Cons tx txs)
  from Cons.prems(1) obtain r where "validate_block_tx X S h tx (u, f) = Inr r"
    and "fold_r (validate_block_tx X S h) txs r = Inr (v, f')" by (auto simp: result_simps)
  then obtain raw burn u1 where v: "validate_tx_contextual X tx u h S True = Inr raw"
    and burn: "burn \<le> raw" and c: "connect_tx_utxos X tx h False u = Inr u1"
    and r: "fold_r (validate_block_tx X S h) txs (u1, f + ucast (raw - burn)) = Inr (v, f')"
    by (elim validate_block_tx_Inr) simp
  have le: "utxo_total u1 + unat raw \<le> utxo_total u"
    using validated_tx_total [OF v _ c Cons.prems(3)] Cons.prems(2) by simp
  have "unat (raw - burn) \<le> unat raw" using burn by (simp add: unat_sub)
  then have f: "unat (f + ucast (raw - burn)) = unat f + unat (raw - burn)" "unat (raw - burn) \<le> unat raw"
    using le Cons.prems(4) by (simp_all add: unat_word_ariths)
  have "utxo_total v + unat f' \<le> utxo_total u1 + unat (f + ucast (raw - burn))"
    by (rule Cons.IH [OF r]) (use Cons.prems le f in simp_all)
  with le f show ?case by simp
qed simp

lemma fm_total_add:
  assumes "fmdom m |\<inter>| fmdom c = {||}"
  shows "fm_total f (m ++\<^sub>f c) = fm_total f m + fm_total f c"
proof -
  have d: "fmdom' m \<inter> fmdom' c = {}" using assms by (auto simp: fmdom'_alt_def)
  have "fm_total f (m ++\<^sub>f c) = (\<Sum>k \<in> fmdom' m \<union> fmdom' c. f (the (fmlookup (m ++\<^sub>f c) k)))"
    by (simp add: fm_total_def)
  also have "\<dots> = (\<Sum>k \<in> fmdom' m. f (the (fmlookup (m ++\<^sub>f c) k))) + (\<Sum>k \<in> fmdom' c. f (the (fmlookup (m ++\<^sub>f c) k)))"
    using d by (simp add: sum.union_disjoint)
  also have "(\<Sum>k \<in> fmdom' m. f (the (fmlookup (m ++\<^sub>f c) k))) = fm_total f m"
    unfolding fm_total_def using d by (intro sum.cong) (auto simp: fmdom'_alt_def)
  also have "(\<Sum>k \<in> fmdom' c. f (the (fmlookup (m ++\<^sub>f c) k))) = fm_total f c"
    unfolding fm_total_def by (intro sum.cong) (auto simp: fmdom'_alt_def)
  finally show ?thesis .
qed

lemma create_outputs_extend:
  "fold_r (create_output tid h cb) vos u = Inr v \<Longrightarrow> u \<subseteq>\<^sub>f v"
proof (induction vos arbitrary: u)
  case (Cons vo vos)
  obtain n out where vo: "vo = (n, out)" by force
  let ?u = "fmupd (OutPoint tid (of_nat n)) \<lparr>coin_out = out, coin_height = h, coin_is_coinbase = cb\<rparr> u"
  from Cons.prems vo have "fmlookup u (OutPoint tid (of_nat n)) = None"
    and r: "fold_r (create_output tid h cb) vos ?u = Inr v" by (auto simp: result_simps)
  then have "u \<subseteq>\<^sub>f ?u" by (simp add: fmsubset_upd_new)
  with Cons.IH [OF r] show ?case by (blast intro: fmsubset_trans)
qed simp

lemma extension_split:
  assumes "u \<subseteq>\<^sub>f v"
  shows "\<exists>c. v = u ++\<^sub>f c \<and> fmdom u |\<inter>| fmdom c = {||}"
proof (intro exI conjI)
  let ?c = "fmdrop_fset (fmdom u) v"
  show "v = u ++\<^sub>f ?c"
  proof (rule fmap_ext)
    fix k
    show "fmlookup v k = fmlookup (u ++\<^sub>f ?c) k"
      by (cases "fmlookup u k"; cases "fmlookup v k") (simp_all add: fmlookup_dom_iff fmsubset_lookup [OF assms])
  qed
  show "fmdom u |\<inter>| fmdom ?c = {||}" by auto
qed

lemma block_txs_aside:
  assumes "fold_r (validate_block_tx X S h) txs (m, f) = Inr (m', f')"
    and "fold_r (\<lambda>tx. connect_tx_utxos X tx h False) txs (m ++\<^sub>f c) = Inr w" and "fmdom m |\<inter>| fmdom c = {||}"
  shows "w = m' ++\<^sub>f c \<and> fmdom m' |\<inter>| fmdom c = {||}"
  using assms
proof (induction txs arbitrary: m f)
  case (Cons tx txs)
  from Cons.prems(1) obtain r where "validate_block_tx X S h tx (m, f) = Inr r"
    and "fold_r (validate_block_tx X S h) txs r = Inr (m', f')" by (auto simp: result_simps)
  then obtain m1 f1 where 1: "connect_tx_utxos X tx h False m = Inr m1"
    "fold_r (validate_block_tx X S h) txs (m1, f1) = Inr (m', f')"
    by (elim validate_block_tx_Inr) simp
  from Cons.prems(2) obtain w1 where 2: "connect_tx_utxos X tx h False (m ++\<^sub>f c) = Inr w1"
    "fold_r (\<lambda>tx. connect_tx_utxos X tx h False) txs w1 = Inr w" by (auto simp: result_simps)
  have "w1 = m1 ++\<^sub>f c" "fmdom m1 |\<inter>| fmdom c = {||}"
    using connect_tx_aside [OF 1(1) 2(1) Cons.prems(3)] by blast+
  then show ?case using Cons.IH [OF 1(2)] 2(2) by blast
qed simp

lemma output_values_total: "fold_r (add_output_value S) outs n = Inr m \<Longrightarrow> m = n + sum_list (map (\<lambda>out. unat (out_value out)) outs) \<and>
    (outs \<noteq> [] \<longrightarrow> m \<le> unat (cons_max_money_atoms (consensus S)))"
proof (induction outs arbitrary: n)
  case (Cons out outs)
  from Cons.prems obtain k where k: "add_output_value S out n = Inr k" "fold_r (add_output_value S) outs k = Inr m"
    by (auto simp: result_simps)
  then have "k = n + unat (out_value out)" "k \<le> unat (cons_max_money_atoms (consensus S))"
    by (auto simp: add_output_value_def Let_def split: if_splits)
  with Cons.IH [OF k(2)] k(2) show ?case by (cases outs) auto
qed simp

lemma coinbase_claim_total:
  assumes "validate_tx_stateless cb S = Inr ()" and "is_coinbase cb"
  shows "unat (coinbase_claim cb) = outputs_total cb" and "outputs_total cb < 2 ^ 64"
proof -
  have "\<not> is_pool_share_transaction cb" using assms(2) by (simp add: is_coinbase_def is_pool_share_transaction_def)
  moreover have "tx_inputs cb \<noteq> []" using assms(2) by (auto simp: is_coinbase_def)
  ultimately have "tx_outputs cb = [] \<or> (\<exists>n. fold_r (add_output_value S) (tx_outputs cb) 0 = Inr n)"
    using assms(1) by (auto simp: validate_tx_stateless_def result_simps split: if_splits)
  then have "outputs_total cb \<le> unat (cons_max_money_atoms (consensus S))"
    using output_values_total [of S "tx_outputs cb" 0] by (auto simp: outputs_total_def)
  then show small: "outputs_total cb < 2 ^ 64"
    using unat_bound [of "cons_max_money_atoms (consensus S)"] by simp
  have "unat (sum_list (map (\<lambda>out. ucast (out_value out)) outs) :: u128) = sum_list (map (\<lambda>out. unat (out_value out)) outs)"
    if "sum_list (map (\<lambda>out. unat (out_value out)) outs) < 2 ^ 128" for outs
    using that by (induction outs) (auto simp: unat_word_ariths)
  from this [of "tx_outputs cb"] small show "unat (coinbase_claim cb) = outputs_total cb"
    by (simp add: coinbase_claim_def outputs_total_def)
qed

lemma connect_rest: "fold_r (\<lambda>(idx, tx). connect_tx_utxos X tx h (idx = 0)) (enumerate (Suc n) txs) u =
    fold_r (\<lambda>tx. connect_tx_utxos X tx h False) txs u"
  by (induction txs arbitrary: n u) (auto intro!: arg_cong2 [where f = rbind])

lemma block_mint_bound:
  assumes "validate_block X b u p h bits S = Inr ids" and "connect_block_utxos X b h u = Inr v" and "utxo_total u < 2 ^ 64"
  shows "utxo_total v \<le> utxo_total u + unat (block_subsidy (ucast h) S)"
proof -
  from assms(1) obtain cb txs scratch fees where b: "blk_transactions b = cb # txs" and cb: "is_coinbase cb"
    and no_cb: "\<forall>tx \<in> set txs. \<not> is_coinbase tx"
    and txs: "fold_r (validate_block_tx X S h) txs (u, 0) = Inr (scratch, fees)"
    and stateless: "validate_tx_stateless cb S = Inr ()"
    and claim: "coinbase_claim cb \<le> ucast (block_subsidy (ucast h) S) + fees"
    by (rule validate_block_Inr)
  from assms(2) b obtain u0 where u0: "connect_tx_utxos X cb h True u = Inr u0"
    and rest: "fold_r (\<lambda>tx. connect_tx_utxos X tx h False) txs u0 = Inr v"
    by (auto simp: connect_block_utxos_def result_simps connect_rest)
  have not_share: "\<not> is_pool_share_transaction cb" using cb by (simp add: is_coinbase_def is_pool_share_transaction_def)
  then have "fold_r (create_output (txid X cb) h True) (enumerate 0 (tx_outputs cb)) u = Inr u0"
    using u0 by (simp add: connect_tx_utxos_def)
  then obtain c where c: "u0 = u ++\<^sub>f c" "fmdom u |\<inter>| fmdom c = {||}"
    using extension_split create_outputs_extend by blast
  then have v: "v = scratch ++\<^sub>f c" "fmdom scratch |\<inter>| fmdom c = {||}"
    using block_txs_aside [OF txs] rest by auto
  have "utxo_total u0 = utxo_total u + outputs_total cb" by (rule connect_coinbase_total [OF u0 not_share])
  then have total: "utxo_total v = utxo_total scratch + outputs_total cb"
    using fm_total_add [OF c(2)] fm_total_add [OF v(2)] by (simp add: utxo_total_def c(1) v(1))
  have fees: "utxo_total scratch + unat fees \<le> utxo_total u"
    using block_txs_fees [OF txs no_cb assms(3)] assms(3) by simp
  have "unat (ucast (block_subsidy (ucast h) S) + fees) \<le> unat (block_subsidy (ucast h) S) + unat fees"
    by (simp add: unat_word_ariths)
  with claim coinbase_claim_total(1) [OF stateless cb] have "outputs_total cb \<le> unat (block_subsidy (ucast h) S) + unat fees"
    by (simp add: word_le_nat_alt)
  with total fees show ?thesis by simp
qed

end
