(* ===== verification/PoolMarkers.thy ===== *)
theory PoolMarkers
  imports Library
begin

text \<open>
  The markers of pooled mining in \<open>src/pools.rs\<close>: pool names, capacities and prices, the scripts
  that create, enlarge, rename a pool or lower its commission, pool share transactions, and their
  parsers. The lemmas show that the scripts the wallet builds are read back as what they say.
\<close>

definition POOL_CREATE_PREFIX :: bytes where "POOL_CREATE_PREFIX = ''POOLCREATE1|''"
definition POOL_TOPUP_PREFIX :: bytes where "POOL_TOPUP_PREFIX = ''POOLTOPUP1|''"
definition POOL_COMMISSION_PREFIX :: bytes where "POOL_COMMISSION_PREFIX = ''POOLCOMMISSION1|''"
definition POOL_RENAME_PREFIX :: bytes where "POOL_RENAME_PREFIX = ''POOLRENAME1|''"
definition POOL_SHARE_PREFIX :: bytes where "POOL_SHARE_PREFIX = ''POOLSHARE1|''"
definition POOL_BLOCK_PREFIX :: bytes where "POOL_BLOCK_PREFIX = ''POOLBLOCK1|''"

record pool_record =
  pr_pool_id :: hash256
  pr_name :: string
  pr_manager_address :: string
  pr_commission_bps :: u16
  pr_capacity_slots :: u32
  pr_created_height :: u32
  pr_create_txid :: hash256
  pr_total_paid_atoms :: u64

record pool_create =
  pcr_name :: string
  pcr_manager_address :: string
  pcr_commission_bps :: u16
  pcr_capacity_slots :: u32

record pool_topup =
  ptu_pool_id :: hash256
  ptu_manager_address :: string
  ptu_extra_capacity_slots :: u32

record pool_set_commission =
  psc_pool_id :: hash256
  psc_manager_address :: string
  psc_new_commission_bps :: u16

record pool_rename =
  prn_pool_id :: hash256
  prn_manager_address :: string
  prn_new_name :: string

record pool_share =
  psh_pool_id :: hash256
  psh_miner_address :: string
  psh_parent_height :: u32
  psh_parent_hash :: hash256
  psh_nonce :: u64
  psh_public_key_hex :: string
  psh_signature_hex :: string

section \<open>Names, capacities, prices\<close>

definition pools_enabled :: "settings \<Rightarrow> bool" where
  "pools_enabled S \<longleftrightarrow> ps_enabled (pools S) \<and> feat_pooled_mining_enabled (features S)"

definition pools_active :: "settings \<Rightarrow> u32 \<Rightarrow> bool" where
  "pools_active S height \<longleftrightarrow>
     feat_pooled_mining_enabled (features S) \<and> ps_enabled (pools S) \<and> height \<ge> ps_activation_height (pools S)"

definition parse_share_bits :: "settings \<Rightarrow> u32 result" where
  "parse_share_bits S =
     (let s = trim (ps_share_target_bits (pools S)) in
      case strip_prefix s ''0x'' of
        Some h \<Rightarrow> ok_or (StdErr ParseIntError) (from_str_radix 16 h)
      | None \<Rightarrow> ok_or (StdErr ParseIntError) (parse_uint s))"

text \<open>Every Rust \<open>str\<close> is valid UTF-8, so the decoding below always has a value.\<close>

definition pool_name_char :: "nat \<Rightarrow> unit \<Rightarrow> unit result" where
  "pool_name_char ch _ =
     (if ch < 0x20 \<or> (0x7F \<le> ch \<and> ch \<le> 0x9F) then Inl (PoolErr PoolNameControl)
      else if (0x200B \<le> ch \<and> ch \<le> 0x200F) \<or> (0x202A \<le> ch \<and> ch \<le> 0x202E) \<or>
              (0x2060 \<le> ch \<and> ch \<le> 0x206F) \<or> ch = 0xFEFF then Inl (PoolErr PoolNameInvisible)
      else Inr ())"

definition normalize_pool_name :: "string \<Rightarrow> u8 \<Rightarrow> usize \<Rightarrow> string result" where
  "normalize_pool_name name max_chars max_bytes =
     (let trimmed = trim name in
      if trimmed = [] then Inl (PoolErr PoolNameEmpty)
      else if length trimmed > unat max_bytes then Inl (PoolErr PoolNameBytes) else
      rbind (ok_or (StdErr Utf8Error) (utf8_chars trimmed)) (\<lambda>chars.
      if length chars > unat max_chars then Inl (PoolErr PoolNameChars) else
      rbind (fold_r pool_name_char chars ()) (\<lambda>_. Inr trimmed)))"

definition pool_name :: "settings \<Rightarrow> string \<Rightarrow> string result" where
  "pool_name S name = normalize_pool_name name (ps_max_name_chars (pools S)) (ps_max_name_bytes (pools S))"

definition capacity_slots_valid :: "settings \<Rightarrow> u32 \<Rightarrow> bool" where
  "capacity_slots_valid S slots =
     (if slots < ps_base_capacity_slots (pools S) \<or> slots > ps_max_capacity_slots (pools S) then False
      else (slots - ps_base_capacity_slots (pools S)) mod ps_capacity_step_slots (pools S) = 0)"

definition extra_capacity_slots_valid :: "settings \<Rightarrow> u32 \<Rightarrow> bool" where
  "extra_capacity_slots_valid S slots \<longleftrightarrow> slots > 0 \<and> slots mod ps_capacity_step_slots (pools S) = 0"

definition pool_create_price_atoms :: "settings \<Rightarrow> u32 \<Rightarrow> u64 result" where
  "pool_create_price_atoms S capacity_slots =
     (if \<not> capacity_slots_valid S capacity_slots then Inl (PoolErr PoolCapacityInvalid) else
      let steps = (capacity_slots - ps_base_capacity_slots (pools S)) div ps_capacity_step_slots (pools S) in
      rbind (ok_or (PoolErr PoolPriceOverflow) (checked_mul (ucast steps) (ps_capacity_step_atoms (pools S)))) (\<lambda>extra.
      ok_or (PoolErr PoolPriceOverflow) (checked_add (ps_base_create_atoms (pools S)) extra)))"

definition pool_topup_price_atoms :: "settings \<Rightarrow> u32 \<Rightarrow> u64 result" where
  "pool_topup_price_atoms S extra_capacity_slots =
     (if \<not> extra_capacity_slots_valid S extra_capacity_slots then Inl (PoolErr PoolTopupInvalid) else
      let steps = extra_capacity_slots div ps_capacity_step_slots (pools S) in
      ok_or (PoolErr PoolTopupPriceOverflow) (checked_mul (ucast steps) (ps_capacity_step_atoms (pools S))))"

definition pool_protocol_share_atoms :: "u64 \<Rightarrow> u64" where
  "pool_protocol_share_atoms price_atoms = price_atoms div 2"

definition pool_miner_share_atoms :: "u64 \<Rightarrow> u64" where
  "pool_miner_share_atoms price_atoms = price_atoms - price_atoms div 2"

section \<open>Scripts\<close>

definition pool_create_marker_script ::
  "extern \<Rightarrow> settings \<Rightarrow> string \<Rightarrow> address \<Rightarrow> u16 \<Rightarrow> u32 \<Rightarrow> script result" where
  "pool_create_marker_script X S name manager commission_bps capacity_slots =
     rbind (pool_name S name) (\<lambda>name.
     if commission_bps > ps_max_commission_bps (pools S) then Inl (PoolErr PoolCommissionMax)
     else if \<not> capacity_slots_valid S capacity_slots then Inl (PoolErr PoolCapacityInvalid)
     else Inr (pipes [''POOLCREATE1'', hex_encode X name, address_to_string X manager,
       show_word commission_bps, show_word capacity_slots]))"

definition pool_topup_marker_script :: "extern \<Rightarrow> settings \<Rightarrow> hash256 \<Rightarrow> address \<Rightarrow> u32 \<Rightarrow> script result" where
  "pool_topup_marker_script X S pool_id manager extra_capacity_slots =
     (if \<not> extra_capacity_slots_valid S extra_capacity_slots then Inl (PoolErr PoolTopupInvalid)
      else Inr (pipes [''POOLTOPUP1'', hash_to_string X pool_id, address_to_string X manager,
        show_word extra_capacity_slots]))"

definition pool_commission_marker_script ::
  "extern \<Rightarrow> settings \<Rightarrow> hash256 \<Rightarrow> address \<Rightarrow> u16 \<Rightarrow> script result" where
  "pool_commission_marker_script X S pool_id manager new_commission_bps =
     (if new_commission_bps > ps_max_commission_bps (pools S) then Inl (PoolErr PoolCommissionMax)
      else Inr (pipes [''POOLCOMMISSION1'', hash_to_string X pool_id, address_to_string X manager,
        show_word new_commission_bps]))"

definition pool_rename_marker_script ::
  "extern \<Rightarrow> settings \<Rightarrow> hash256 \<Rightarrow> address \<Rightarrow> string \<Rightarrow> script result" where
  "pool_rename_marker_script X S pool_id manager new_name =
     rbind (pool_name S new_name) (\<lambda>new_name.
     Inr (pipes [''POOLRENAME1'', hash_to_string X pool_id, address_to_string X manager, hex_encode X new_name]))"

text \<open>What the parsers share: the fields of a script with the right prefix and tag, a manager address.\<close>

definition pool_fields :: "bytes \<Rightarrow> string \<Rightarrow> script \<Rightarrow> string list option" where
  "pool_fields p tag b =
     (if \<not> starts_with b p then None else
      Option.bind (from_utf8 b) (\<lambda>s.
      case split_on (CHR ''|'') s of
        f0 # parts \<Rightarrow> if f0 \<noteq> tag then None else Some parts
      | [] \<Rightarrow> None))"

definition pool_manager :: "extern \<Rightarrow> settings \<Rightarrow> string \<Rightarrow> string option" where
  "pool_manager X S field =
     (let a = trim field in
      if is_ok (parse_with_prefix X a (net_address_prefix (network S))) then Some a else None)"

definition pool_name_field :: "extern \<Rightarrow> settings \<Rightarrow> string \<Rightarrow> string option" where
  "pool_name_field X S field =
     Option.bind (hex_decode X field) (\<lambda>name_bytes.
     Option.bind (from_utf8 name_bytes) (\<lambda>name. to_option (pool_name S name)))"

definition parse_pool_create_marker_script :: "extern \<Rightarrow> script \<Rightarrow> settings \<Rightarrow> pool_create option" where
  "parse_pool_create_marker_script X b S =
     Option.bind (pool_fields POOL_CREATE_PREFIX ''POOLCREATE1'' b) (\<lambda>parts.
     case parts of
       [n, a, c, k] \<Rightarrow>
         Option.bind (pool_name_field X S n) (\<lambda>name.
         Option.bind (pool_manager X S a) (\<lambda>manager.
         Option.bind (parse_uint c) (\<lambda>commission_bps.
         Option.bind (parse_uint k) (\<lambda>capacity_slots.
         Some \<lparr>pcr_name = name, pcr_manager_address = manager, pcr_commission_bps = commission_bps,
           pcr_capacity_slots = capacity_slots\<rparr>))))
     | _ \<Rightarrow> None)"

definition parse_pool_topup_marker_script :: "extern \<Rightarrow> script \<Rightarrow> settings \<Rightarrow> pool_topup option" where
  "parse_pool_topup_marker_script X b S =
     Option.bind (pool_fields POOL_TOPUP_PREFIX ''POOLTOPUP1'' b) (\<lambda>parts.
     case parts of
       [i, a, k] \<Rightarrow>
         Option.bind (to_option (hash_from_hex X i)) (\<lambda>pool_id.
         Option.bind (pool_manager X S a) (\<lambda>manager.
         Option.bind (parse_uint k) (\<lambda>slots.
         Some \<lparr>ptu_pool_id = pool_id, ptu_manager_address = manager, ptu_extra_capacity_slots = slots\<rparr>)))
     | _ \<Rightarrow> None)"

definition parse_pool_commission_marker_script :: "extern \<Rightarrow> script \<Rightarrow> settings \<Rightarrow> pool_set_commission option" where
  "parse_pool_commission_marker_script X b S =
     Option.bind (pool_fields POOL_COMMISSION_PREFIX ''POOLCOMMISSION1'' b) (\<lambda>parts.
     case parts of
       [i, a, c] \<Rightarrow>
         Option.bind (to_option (hash_from_hex X i)) (\<lambda>pool_id.
         Option.bind (pool_manager X S a) (\<lambda>manager.
         Option.bind (parse_uint c) (\<lambda>bps.
         Some \<lparr>psc_pool_id = pool_id, psc_manager_address = manager, psc_new_commission_bps = bps\<rparr>)))
     | _ \<Rightarrow> None)"

definition parse_pool_rename_marker_script :: "extern \<Rightarrow> script \<Rightarrow> settings \<Rightarrow> pool_rename option" where
  "parse_pool_rename_marker_script X b S =
     Option.bind (pool_fields POOL_RENAME_PREFIX ''POOLRENAME1'' b) (\<lambda>parts.
     case parts of
       [i, a, n] \<Rightarrow>
         Option.bind (to_option (hash_from_hex X i)) (\<lambda>pool_id.
         Option.bind (pool_manager X S a) (\<lambda>manager.
         Option.bind (pool_name_field X S n) (\<lambda>name.
         Some \<lparr>prn_pool_id = pool_id, prn_manager_address = manager, prn_new_name = name\<rparr>)))
     | _ \<Rightarrow> None)"

definition pool_creates_in_tx :: "extern \<Rightarrow> transaction \<Rightarrow> settings \<Rightarrow> (nat \<times> pool_create \<times> u64) list" where
  "pool_creates_in_tx X tx S = markers_in (\<lambda>s. parse_pool_create_marker_script X s S) tx"

definition pool_topups_in_tx :: "extern \<Rightarrow> transaction \<Rightarrow> settings \<Rightarrow> (nat \<times> pool_topup \<times> u64) list" where
  "pool_topups_in_tx X tx S = markers_in (\<lambda>s. parse_pool_topup_marker_script X s S) tx"

definition pool_commissions_in_tx ::
  "extern \<Rightarrow> transaction \<Rightarrow> settings \<Rightarrow> (nat \<times> pool_set_commission \<times> u64) list" where
  "pool_commissions_in_tx X tx S = markers_in (\<lambda>s. parse_pool_commission_marker_script X s S) tx"

definition pool_renames_in_tx :: "extern \<Rightarrow> transaction \<Rightarrow> settings \<Rightarrow> (nat \<times> pool_rename \<times> u64) list" where
  "pool_renames_in_tx X tx S = markers_in (\<lambda>s. parse_pool_rename_marker_script X s S) tx"

definition pool_action_count :: "extern \<Rightarrow> transaction \<Rightarrow> settings \<Rightarrow> nat" where
  "pool_action_count X tx S =
     length (pool_creates_in_tx X tx S) + length (pool_topups_in_tx X tx S) +
     length (pool_commissions_in_tx X tx S) + length (pool_renames_in_tx X tx S)"

section \<open>Shares\<close>

definition parse_pool_share_tx :: "extern \<Rightarrow> transaction \<Rightarrow> pool_share option" where
  "parse_pool_share_tx X tx =
     (if \<not> is_pool_share_transaction tx then None else
      Option.bind (pool_fields POOL_SHARE_PREFIX ''POOLSHARE1'' (signature_script (tx_inputs tx ! 0))) (\<lambda>parts.
      case parts of
        [i, a, h, p, n, k, s] \<Rightarrow>
          Option.bind (to_option (hash_from_hex X i)) (\<lambda>pool_id.
          Option.bind (parse_uint h) (\<lambda>parent_height.
          Option.bind (to_option (hash_from_hex X p)) (\<lambda>parent_hash.
          Option.bind (parse_uint n) (\<lambda>nonce.
          Some \<lparr>psh_pool_id = pool_id, psh_miner_address = trim a, psh_parent_height = parent_height,
            psh_parent_hash = parent_hash, psh_nonce = nonce, psh_public_key_hex = trim k,
            psh_signature_hex = trim s\<rparr>))))
      | _ \<Rightarrow> None))"

definition share_fields :: "extern \<Rightarrow> hash256 \<Rightarrow> string \<Rightarrow> u32 \<Rightarrow> hash256 \<Rightarrow> u64 \<Rightarrow> string list" where
  "share_fields X pool_id miner_address parent_height parent_hash nonce =
     [hash_to_string X pool_id, miner_address, show_word parent_height, hash_to_string X parent_hash,
      show_word nonce]"

definition pool_share_signing_hash ::
  "extern \<Rightarrow> hash256 \<Rightarrow> string \<Rightarrow> u32 \<Rightarrow> hash256 \<Rightarrow> u64 \<Rightarrow> hash256" where
  "pool_share_signing_hash X pool_id miner_address parent_height parent_hash nonce =
     double_sha256 X (pipes (''POOLSHARE-SIG-v1'' #
       share_fields X pool_id miner_address parent_height parent_hash nonce))"

definition pool_share_work_hash ::
  "extern \<Rightarrow> hash256 \<Rightarrow> string \<Rightarrow> u32 \<Rightarrow> hash256 \<Rightarrow> u64 \<Rightarrow> hash256" where
  "pool_share_work_hash X pool_id miner_address parent_height parent_hash nonce =
     double_sha256 X (pipes (''POOLSHARE-WORK-v1'' #
       share_fields X pool_id miner_address parent_height parent_hash nonce))"

definition pool_share_key :: "extern \<Rightarrow> pool_share \<Rightarrow> string" where
  "pool_share_key X sh = pipes (share_fields X (psh_pool_id sh) (psh_miner_address sh)
     (psh_parent_height sh) (psh_parent_hash sh) (psh_nonce sh))"

definition hash_meets_compact_target :: "hash256 \<Rightarrow> u32 \<Rightarrow> bool result" where
  "hash_meets_compact_target h bits =
     rbind (target_from_compact bits) (\<lambda>target. Inr (rev h \<le> target))"

definition pool_share_meets_target ::
  "extern \<Rightarrow> settings \<Rightarrow> hash256 \<Rightarrow> string \<Rightarrow> u32 \<Rightarrow> hash256 \<Rightarrow> u64 \<Rightarrow> bool result" where
  "pool_share_meets_target X S pool_id miner_address parent_height parent_hash nonce =
     rbind (parse_share_bits S) (\<lambda>bits.
     hash_meets_compact_target (pool_share_work_hash X pool_id miner_address parent_height parent_hash nonce) bits)"

record wallet_key =
  wk_address :: string
  wk_public_key_hex :: string
  wk_secret_key_hex :: string
  wk_label :: string
  wk_created_height :: u32

definition create_pool_share_transaction ::
  "extern \<Rightarrow> settings \<Rightarrow> hash256 \<Rightarrow> wallet_key \<Rightarrow> u32 \<Rightarrow> hash256 \<Rightarrow> u64 \<Rightarrow> transaction result" where
  "create_pool_share_transaction X S pool_id key parent_height parent_hash nonce =
     rbind (parse_with_prefix X (wk_address key) (net_address_prefix (network S))) (\<lambda>miner.
     rbind (ok_or (StdErr HexError) (hex_decode X (wk_public_key_hex key))) (\<lambda>pk.
     rbind (ok_or (StdErr SecpError) (pk_from_slice X pk)) (\<lambda>public.
     if public_key_hash X public \<noteq> addr_payload miner then Inl (PoolErr PoolMinerKeyMismatch) else
     rbind (secret_key_from_hex X (wk_secret_key_hex key)) (\<lambda>secret.
     rbind (sign_hash X secret (pool_share_signing_hash X pool_id (address_to_string X miner)
       parent_height parent_hash nonce)) (\<lambda>sig.
     Inr \<lparr>tx_version = TX_VERSION_POOL_SHARE,
       tx_inputs = [\<lparr>previous_output = outpoint_null,
         signature_script = pipes (''POOLSHARE1'' #
           share_fields X pool_id (address_to_string X miner) parent_height parent_hash nonce @
           [hex_encode X public, hex_encode X sig]), sequence = U32_MAX\<rparr>],
       tx_outputs = [], tx_locktime = 0\<rparr>)))))"

section \<open>Reading back\<close>

lemma pool_fields_pipes:
  assumes "list_all plain_field (tag # fs)" and "p = tag @ ''|''" and "fs \<noteq> []"
  shows "pool_fields p tag (pipes (tag # fs)) = Some fs"
proof -
  have "starts_with (pipes (tag # fs)) p"
    using assms(2,3) by (cases fs) (simp_all add: pipes_def starts_with_def)
  then show ?thesis
    using pipes_read_back [of "tag # fs"] assms(1) by (simp add: pool_fields_def)
qed

lemma pool_manager_text:
  assumes "extern_ok X" and "wf_address a" and "addr_prefix a = net_address_prefix (network S)"
  shows "pool_manager X S (address_to_string X a) = Some (address_to_string X a)"
  using assms by (simp add: pool_manager_def trim_address address_ok)

lemma plain_pool_words:
  "plain_field ''POOLCREATE1''" "plain_field ''POOLTOPUP1''" "plain_field ''POOLCOMMISSION1''"
  "plain_field ''POOLRENAME1''" "plain_field ''POOLSHARE1''" "plain_field ''POOLSHARE-SIG-v1''"
  "plain_field ''POOLSHARE-WORK-v1''"
  by (simp_all add: plain_field_def is_ascii_graphic_def)

lemma plain_share_fields:
  "extern_ok X \<Longrightarrow> plain_field a \<Longrightarrow> list_all plain_field (share_fields X i a h p n)"
  by (simp add: share_fields_def plain_show_word plain_hash)

lemma pool_share_created:
  assumes "extern_ok X" and "length pool = 32" and "length parent = 32"
    and "create_pool_share_transaction X S pool key h parent nonce = Inr tx"
    and "wf_address miner" and "parse_with_prefix X (wk_address key) (net_address_prefix (network S)) = Inr miner"
  obtains public secret sig where "pk_from_slice X (the (hex_decode X (wk_public_key_hex key))) = Some public"
    and "public_key_hash X public = addr_payload miner"
    and "secret_key_from_hex X (wk_secret_key_hex key) = Inr secret"
    and "sign_hash X secret (pool_share_signing_hash X pool (address_to_string X miner) h parent nonce) = Inr sig"
    and "is_pool_share_transaction tx" and "\<not> is_coinbase tx" and "tx_outputs tx = []"
    and "parse_pool_share_tx X tx = Some \<lparr>psh_pool_id = pool,
      psh_miner_address = address_to_string X miner, psh_parent_height = h, psh_parent_hash = parent,
      psh_nonce = nonce, psh_public_key_hex = hex_encode X public, psh_signature_hex = hex_encode X sig\<rparr>"
proof -
  obtain public secret sig where pk: "pk_from_slice X (the (hex_decode X (wk_public_key_hex key))) = Some public"
      "public_key_hash X public = addr_payload miner"
    and sk: "secret_key_from_hex X (wk_secret_key_hex key) = Inr secret"
      "sign_hash X secret (pool_share_signing_hash X pool (address_to_string X miner) h parent nonce) = Inr sig"
    and tx: "tx = \<lparr>tx_version = TX_VERSION_POOL_SHARE,
       tx_inputs = [\<lparr>previous_output = outpoint_null,
         signature_script = pipes (''POOLSHARE1'' # share_fields X pool (address_to_string X miner) h parent nonce @
           [hex_encode X public, hex_encode X sig]), sequence = U32_MAX\<rparr>],
       tx_outputs = [], tx_locktime = 0\<rparr>"
    using assms(4,6) by (auto simp: create_pool_share_transaction_def result_simps)
  let ?fs = "share_fields X pool (address_to_string X miner) h parent nonce @ [hex_encode X public, hex_encode X sig]"
  have "list_all plain_field (''POOLSHARE1'' # ?fs)"
    using plain_pool_words(5) plain_share_fields [OF assms(1) plain_address [OF assms(1,5)]] plain_hex [OF assms(1)]
    by simp
  then have fields: "pool_fields POOL_SHARE_PREFIX ''POOLSHARE1'' (pipes (''POOLSHARE1'' # ?fs)) = Some ?fs"
    by (rule pool_fields_pipes) (simp_all add: POOL_SHARE_PREFIX_def)
  have kind: "is_pool_share_transaction tx" "\<not> is_coinbase tx" "tx_outputs tx = []"
    by (simp_all add: tx is_pool_share_transaction_def is_coinbase_def)
  have "parse_pool_share_tx X tx = Some \<lparr>psh_pool_id = pool,
      psh_miner_address = address_to_string X miner, psh_parent_height = h, psh_parent_hash = parent,
      psh_nonce = nonce, psh_public_key_hex = hex_encode X public, psh_signature_hex = hex_encode X sig\<rparr>"
    using kind(1) fields assms(2,3)
    by (simp add: parse_pool_share_tx_def tx, simp add: share_fields_def hash_hex_roundtrip [OF assms(1)]
        trim_address [OF assms(1,5)] trim_hex [OF assms(1)])
  with pk sk kind that show thesis by blast
qed

text \<open>
  A miner's share is read back by every node: the transaction built for a pool, a parent block
  and a nonce is a pool share, not a coinbase, and parses to exactly that pool, the address of the
  miner's key, that parent, that nonce, and the key and signature of the miner.
\<close>

theorem pool_share_roundtrip:
  assumes "extern_ok X" and "length pool = 32" and "length parent = 32"
    and "create_pool_share_transaction X S pool key h parent nonce = Inr tx"
    and "wf_address miner" and "parse_with_prefix X (wk_address key) (net_address_prefix (network S)) = Inr miner"
  shows "is_pool_share_transaction tx \<and> \<not> is_coinbase tx \<and>
    (\<exists>sh public. parse_pool_share_tx X tx = Some sh \<and> psh_pool_id sh = pool \<and>
      psh_miner_address sh = address_to_string X miner \<and> psh_parent_height sh = h \<and>
      psh_parent_hash sh = parent \<and> psh_nonce sh = nonce \<and>
      hex_decode X (psh_public_key_hex sh) = Some public \<and> public_key_hash X public = addr_payload miner)"
  using assms
proof (rule pool_share_created)
  fix public secret sig
  assume "public_key_hash X public = addr_payload miner" "is_pool_share_transaction tx" "\<not> is_coinbase tx"
    and "parse_pool_share_tx X tx = Some \<lparr>psh_pool_id = pool,
      psh_miner_address = address_to_string X miner, psh_parent_height = h, psh_parent_hash = parent,
      psh_nonce = nonce, psh_public_key_hex = hex_encode X public, psh_signature_hex = hex_encode X sig\<rparr>"
  then show ?thesis using hex_roundtrip [OF assms(1), of public] by simp
qed

definition ex_key :: wallet_key where
  "ex_key = \<lparr>wk_address = address_to_string ref_extern ex_owner, wk_public_key_hex = hex_encode ref_extern ''k'',
     wk_secret_key_hex = hex_encode ref_extern (replicate 32 (CHR ''s'')), wk_label = ''miner'', wk_created_height = 0\<rparr>"

lemma ex_share_created:
  "\<exists>tx. create_pool_share_transaction ref_extern (example_settings ''regtest'') pool ex_key h parent nonce = Inr tx"
proof -
  have "secret_key_from_hex ref_extern (hex_encode ref_extern (replicate 32 (CHR ''s''))) = Inr (replicate 32 (CHR ''s''))"
    using hex_roundtrip [OF ref_extern_ok] trim_hex [OF ref_extern_ok]
    by (simp add: secret_key_from_hex_def) (simp add: ref_extern_def)
  moreover have "pk_from_slice ref_extern b = Some b" "\<exists>s. sign_hash ref_extern k m = Inr s" for b k m
    by (simp_all add: ref_extern_def sign_hash_def)
  moreover have "public_key_hash ref_extern ''k'' = addr_payload ex_owner" by (simp add: ex_owner_def address_new_def)
  ultimately show ?thesis
    using parse_ex_address [OF ex_owner(1,2)] hex_roundtrip [OF ref_extern_ok]
    by (simp add: create_pool_share_transaction_def ex_key_def ex_network_def) (metis rbind_simps(2))
qed

lemma pool_share_roundtrip_witness:
  "\<exists>tx sh. create_pool_share_transaction ref_extern (example_settings ''regtest'') hash_zero ex_key 3 hash_zero 8 = Inr tx \<and>
    parse_pool_share_tx ref_extern tx = Some sh \<and> psh_nonce sh = 8"
proof -
  obtain tx where tx: "create_pool_share_transaction ref_extern (example_settings ''regtest'') hash_zero ex_key 3 hash_zero 8 = Inr tx"
    using ex_share_created by blast
  have "parse_with_prefix ref_extern (wk_address ex_key) (net_address_prefix (network (example_settings ''regtest''))) = Inr ex_owner"
    using parse_ex_address [OF ex_owner(1,2)] by (simp add: ex_key_def ex_network_def)
  from pool_share_roundtrip [OF ref_extern_ok _ _ tx ex_owner(1) this] tx show ?thesis
    by (auto simp: hash_zero_def)
qed

end
