(* ===== verification/PoolRegistry.thy ===== *)
theory PoolRegistry
  imports PoolMarkers
begin

text \<open>
  The pool registry of \<open>src/pools.rs\<close>: how pool actions are checked (\<open>validate_pool_action_tx\<close>)
  and how a block changes the registry when the chain is replayed (\<open>apply_pool_registry_block\<close>,
  \<open>pools_registry_from_blocks\<close>). The lemmas show that a checked action is replayed as the same
  change, and that pools keep their manager, their id and their limits.
\<close>

type_synonym pool_registry = "(hash256, pool_record) fmap"

definition new_pool :: "hash256 \<Rightarrow> pool_create \<Rightarrow> u32 \<Rightarrow> u64 \<Rightarrow> pool_record" where
  "new_pool pool_id create height price =
     \<lparr>pr_pool_id = pool_id, pr_name = pcr_name create, pr_manager_address = pcr_manager_address create,
      pr_commission_bps = pcr_commission_bps create, pr_capacity_slots = pcr_capacity_slots create,
      pr_created_height = height, pr_create_txid = pool_id, pr_total_paid_atoms = price\<rparr>"

section \<open>Replay\<close>

definition replay_create ::
  "settings \<Rightarrow> hash256 \<Rightarrow> u32 \<Rightarrow> nat \<times> pool_create \<times> u64 \<Rightarrow> pool_registry \<Rightarrow> pool_registry result" where
  "replay_create S pool_id height m registry = (case m of (_, create, _) \<Rightarrow>
     rbind (pool_create_price_atoms S (pcr_capacity_slots create)) (\<lambda>price.
     Inr (fmupd pool_id (new_pool pool_id create height price) registry)))"

definition replay_topup ::
  "settings \<Rightarrow> nat \<times> pool_topup \<times> u64 \<Rightarrow> pool_registry \<Rightarrow> pool_registry result" where
  "replay_topup S m registry = (case m of (_, topup, _) \<Rightarrow>
     (case fmlookup registry (ptu_pool_id topup) of
        None \<Rightarrow> Inr registry
      | Some pool \<Rightarrow>
          rbind (pool_topup_price_atoms S (ptu_extra_capacity_slots topup)) (\<lambda>price.
          Inr (fmupd (ptu_pool_id topup)
            (pool\<lparr>pr_capacity_slots := min (sat_add (pr_capacity_slots pool) (ptu_extra_capacity_slots topup))
                (ps_max_capacity_slots (pools S)),
              pr_total_paid_atoms := sat_add (pr_total_paid_atoms pool) price\<rparr>) registry))))"

definition replay_commission ::
  "nat \<times> pool_set_commission \<times> u64 \<Rightarrow> pool_registry \<Rightarrow> pool_registry result" where
  "replay_commission m registry = (case m of (_, c, _) \<Rightarrow>
     Inr (case fmlookup registry (psc_pool_id c) of
        None \<Rightarrow> registry
      | Some pool \<Rightarrow>
          if psc_new_commission_bps c \<le> pr_commission_bps pool
          then fmupd (psc_pool_id c) (pool\<lparr>pr_commission_bps := psc_new_commission_bps c\<rparr>) registry
          else registry))"

definition replay_rename :: "nat \<times> pool_rename \<times> u64 \<Rightarrow> pool_registry \<Rightarrow> pool_registry result" where
  "replay_rename m registry = (case m of (_, r, _) \<Rightarrow>
     Inr (case fmlookup registry (prn_pool_id r) of
        None \<Rightarrow> registry
      | Some pool \<Rightarrow>
          if prn_manager_address r = pr_manager_address pool
          then fmupd (prn_pool_id r) (pool\<lparr>pr_name := prn_new_name r\<rparr>) registry
          else registry))"

definition replay_pool_tx ::
  "extern \<Rightarrow> settings \<Rightarrow> u32 \<Rightarrow> transaction \<Rightarrow> pool_registry \<Rightarrow> pool_registry result" where
  "replay_pool_tx X S height tx registry =
     rbind (fold_r (replay_create S (txid X tx) height) (pool_creates_in_tx X tx S) registry) (\<lambda>registry.
     rbind (fold_r (replay_topup S) (pool_topups_in_tx X tx S) registry) (\<lambda>registry.
     rbind (fold_r replay_commission (pool_commissions_in_tx X tx S) registry) (\<lambda>registry.
     fold_r replay_rename (pool_renames_in_tx X tx S) registry)))"

definition apply_pool_registry_block ::
  "extern \<Rightarrow> settings \<Rightarrow> nat \<times> block \<Rightarrow> pool_registry \<Rightarrow> pool_registry result" where
  "apply_pool_registry_block X S hb registry = (case hb of (n, b) \<Rightarrow>
     if \<not> pools_active S (of_nat n) then Inr registry
     else fold_r (replay_pool_tx X S (of_nat n)) (drop 1 (blk_transactions b)) registry)"

definition pools_registry_from_blocks :: "extern \<Rightarrow> settings \<Rightarrow> block list \<Rightarrow> pool_registry result" where
  "pools_registry_from_blocks X S blocks =
     (if \<not> pools_enabled S then Inr fmempty
      else fold_r (apply_pool_registry_block X S) (numbered blocks) fmempty)"

section \<open>Checks\<close>

definition protocol_paid_atoms :: "extern \<Rightarrow> settings \<Rightarrow> transaction \<Rightarrow> u64 result" where
  "protocol_paid_atoms X S tx =
     rbind (parse_with_prefix X (ps_protocol_address (pools S)) (net_address_prefix (network S))) (\<lambda>protocol.
     Inr (sum_list (map out_value
       (filter (\<lambda>out. script_pubkey out = address_script_pubkey protocol) (tx_outputs tx)))))"

text \<open>Both halves of the price: outputs to the protocol, fee to the miner.\<close>

definition check_pool_payment :: "extern \<Rightarrow> settings \<Rightarrow> transaction \<Rightarrow> u64 \<Rightarrow> u64 \<Rightarrow> unit result" where
  "check_pool_payment X S tx fee_atoms price =
     rbind (protocol_paid_atoms X S tx) (\<lambda>paid.
     if paid < pool_protocol_share_atoms price
     then rbind (amount_from_atoms (pool_protocol_share_atoms price)) (\<lambda>_.
          rbind (amount_from_atoms paid) (\<lambda>_. Inl (PoolErr PoolUnderpayment)))
     else if fee_atoms < pool_miner_share_atoms price then Inl (PoolErr PoolMinerUnderpayment)
     else Inr ())"

text \<open>The pool an action names, its manager being the one of the action and the owner of an input.\<close>

definition check_pool_manager ::
  "extern \<Rightarrow> settings \<Rightarrow> transaction \<Rightarrow> utxo_map \<Rightarrow> pool_registry \<Rightarrow> hash256 \<Rightarrow> string \<Rightarrow> pool_record result" where
  "check_pool_manager X S tx utxos registry pool_id manager_address =
     rbind (ok_or (PoolErr PoolUnknown) (fmlookup registry pool_id)) (\<lambda>pool.
     if manager_address \<noteq> pr_manager_address pool then Inl (PoolErr PoolManagerMismatch) else
     rbind (parse_with_prefix X manager_address (net_address_prefix (network S))) (\<lambda>manager.
     if \<not> input_authorizes_address tx utxos manager then Inl (PoolErr PoolUnauthorized) else Inr pool))"

definition check_create ::
  "extern \<Rightarrow> settings \<Rightarrow> transaction \<Rightarrow> u64 \<Rightarrow> pool_create \<Rightarrow> u64 \<Rightarrow> pool_registry \<Rightarrow> u64 result" where
  "check_create X S tx fee_atoms create marker_atoms registry =
     (if marker_atoms \<noteq> ps_marker_output_atoms (pools S) then Inl (PoolErr PoolMarkerAmount)
      else if fcard (fmdom registry) \<ge> unat (ps_max_active_pools (pools S)) then Inl (PoolErr PoolMaxActive)
      else if pcr_commission_bps create > ps_max_commission_bps (pools S) then Inl (PoolErr PoolCommissionMax)
      else if \<not> capacity_slots_valid S (pcr_capacity_slots create) then Inl (PoolErr PoolCapacityInvalid) else
      rbind (pool_create_price_atoms S (pcr_capacity_slots create)) (\<lambda>price.
      rbind (check_pool_payment X S tx fee_atoms price) (\<lambda>_. Inr price)))"

definition check_topup ::
  "extern \<Rightarrow> settings \<Rightarrow> transaction \<Rightarrow> utxo_map \<Rightarrow> u64 \<Rightarrow> pool_topup \<Rightarrow> u64 \<Rightarrow> pool_registry \<Rightarrow>
    (pool_record \<times> u32 \<times> u64) result" where
  "check_topup X S tx utxos fee_atoms topup marker_atoms registry =
     (if marker_atoms \<noteq> ps_marker_output_atoms (pools S) then Inl (PoolErr PoolMarkerAmount) else
      rbind (check_pool_manager X S tx utxos registry (ptu_pool_id topup) (ptu_manager_address topup)) (\<lambda>pool.
      if \<not> extra_capacity_slots_valid S (ptu_extra_capacity_slots topup) then Inl (PoolErr PoolTopupInvalid) else
      rbind (ok_or (PoolErr PoolCapacityOverflow)
        (checked_add (pr_capacity_slots pool) (ptu_extra_capacity_slots topup))) (\<lambda>new_capacity.
      if new_capacity > ps_max_capacity_slots (pools S) then Inl (PoolErr PoolCapacityExceeds) else
      rbind (pool_topup_price_atoms S (ptu_extra_capacity_slots topup)) (\<lambda>price.
      rbind (check_pool_payment X S tx fee_atoms price) (\<lambda>_. Inr (pool, new_capacity, price))))))"

definition check_commission ::
  "extern \<Rightarrow> settings \<Rightarrow> transaction \<Rightarrow> utxo_map \<Rightarrow> pool_set_commission \<Rightarrow> u64 \<Rightarrow> pool_registry \<Rightarrow>
    pool_record result" where
  "check_commission X S tx utxos c marker_atoms registry =
     (if marker_atoms \<noteq> ps_marker_output_atoms (pools S) then Inl (PoolErr PoolMarkerAmount) else
      rbind (check_pool_manager X S tx utxos registry (psc_pool_id c) (psc_manager_address c)) (\<lambda>pool.
      if psc_new_commission_bps c > pr_commission_bps pool then Inl (PoolErr PoolCommissionIncrease)
      else if psc_new_commission_bps c > ps_max_commission_bps (pools S) then Inl (PoolErr PoolCommissionMax)
      else Inr pool))"

definition check_rename ::
  "extern \<Rightarrow> settings \<Rightarrow> transaction \<Rightarrow> utxo_map \<Rightarrow> pool_rename \<Rightarrow> u64 \<Rightarrow> pool_registry \<Rightarrow>
    (pool_record \<times> string) result" where
  "check_rename X S tx utxos r marker_atoms registry =
     (if marker_atoms \<noteq> ps_marker_output_atoms (pools S) then Inl (PoolErr PoolMarkerAmount) else
      rbind (check_pool_manager X S tx utxos registry (prn_pool_id r) (prn_manager_address r)) (\<lambda>pool.
      rbind (pool_name S (prn_new_name r)) (\<lambda>new_name. Inr (pool, new_name))))"

text \<open>
  The capacity of a top-up is stored before the paid total is added up, so a failing addition
  leaves the new capacity behind.
\<close>

definition validate_pool_action_tx ::
  "extern \<Rightarrow> settings \<Rightarrow> transaction \<Rightarrow> u64 \<Rightarrow> u32 \<Rightarrow> utxo_map \<Rightarrow> (pool_registry, unit) se" where
  "validate_pool_action_tx X S tx fee_atoms height utxos =
     (let creates = pool_creates_in_tx X tx S; topups = pool_topups_in_tx X tx S;
          commissions = pool_commissions_in_tx X tx S; renames = pool_renames_in_tx X tx S;
          actions = length creates + length topups + length commissions + length renames in
      if actions = 0 then se_return ()
      else if \<not> pools_active S height then se_fail (PoolErr PoolInactive)
      else if is_coinbase tx then se_fail (PoolErr PoolCoinbase)
      else if actions \<noteq> 1 then se_fail (PoolErr PoolExactlyOneAction)
      else if qns_registrations_in_tx X tx S \<noteq> [] \<or> jin_transfers_in_tx X tx S \<noteq> [] \<or>
        jin_conversions_in_tx X tx S \<noteq> [] then se_fail (PoolErr PoolMixedMarkers)
      else (case creates of (_, create, marker_atoms) # _ \<Rightarrow>
          se_bind (se_need (check_create X S tx fee_atoms create marker_atoms)) (\<lambda>price.
          se_modify (fmupd (txid X tx) (new_pool (txid X tx) create height price)))
      | [] \<Rightarrow> (case topups of (_, topup, marker_atoms) # _ \<Rightarrow>
          se_bind (se_need (check_topup X S tx utxos fee_atoms topup marker_atoms)) (\<lambda>(pool, new_capacity, price).
          se_then (se_modify (fmupd (ptu_pool_id topup) (pool\<lparr>pr_capacity_slots := new_capacity\<rparr>)))
         (se_bind (se_need (\<lambda>_. ok_or (PoolErr PoolPaidOverflow)
            (checked_add (pr_total_paid_atoms pool) price))) (\<lambda>paid.
          se_modify (fmupd (ptu_pool_id topup)
            (pool\<lparr>pr_capacity_slots := new_capacity, pr_total_paid_atoms := paid\<rparr>)))))
      | [] \<Rightarrow> (case commissions of (_, c, marker_atoms) # _ \<Rightarrow>
          se_bind (se_need (check_commission X S tx utxos c marker_atoms)) (\<lambda>pool.
          se_modify (fmupd (psc_pool_id c) (pool\<lparr>pr_commission_bps := psc_new_commission_bps c\<rparr>)))
      | [] \<Rightarrow> (case renames of (_, r, marker_atoms) # _ \<Rightarrow>
          se_bind (se_need (check_rename X S tx utxos r marker_atoms)) (\<lambda>(pool, new_name).
          se_modify (fmupd (prn_pool_id r) (pool\<lparr>pr_name := new_name\<rparr>)))
      | [] \<Rightarrow> se_return ())))))"

section \<open>Checked actions are replayed\<close>

lemma pool_name_idem: "pool_name S name = Inr n \<Longrightarrow> pool_name S n = Inr n"
  by (auto simp: pool_name_def normalize_pool_name_def Let_def result_simps)

lemma markers_in_parsed:
  "(i, m, v) \<in> set (markers_in parse tx) \<Longrightarrow> \<exists>out \<in> set (tx_outputs tx). parse (script_pubkey out) = Some m"
  by (auto simp: markers_in_def List.map_filter_def in_set_enumerate_eq) (use nth_mem in blast)

lemma parse_rename_named:
  "parse_pool_rename_marker_script X b S = Some r \<Longrightarrow> pool_name S (prn_new_name r) = Inr (prn_new_name r)"
  unfolding parse_pool_rename_marker_script_def bind_eq_Some
proof (elim exE conjE)
  fix parts
  assume "(case parts of [i, a, n] \<Rightarrow>
         Option.bind (to_option (hash_from_hex X i)) (\<lambda>pool_id.
         Option.bind (pool_manager X S a) (\<lambda>manager.
         Option.bind (pool_name_field X S n) (\<lambda>name.
         Some \<lparr>prn_pool_id = pool_id, prn_manager_address = manager, prn_new_name = name\<rparr>)))
     | _ \<Rightarrow> None) = Some r"
  then show "pool_name S (prn_new_name r) = Inr (prn_new_name r)"
    by (cases parts; cases "tl parts"; cases "tl (tl parts)"; cases "tl (tl (tl parts))")
      (auto simp: pool_name_field_def result_simps intro: pool_name_idem)
qed

lemma pool_renames_named:
  "(i, r, m) \<in> set (pool_renames_in_tx X tx S) \<Longrightarrow> pool_name S (prn_new_name r) = Inr (prn_new_name r)"
  unfolding pool_renames_in_tx_def by (auto dest!: markers_in_parsed intro: parse_rename_named)

lemma check_pool_manager_Inr:
  "check_pool_manager X S tx u reg i a = Inr pool \<longleftrightarrow> fmlookup reg i = Some pool \<and> a = pr_manager_address pool \<and>
    (\<exists>m. parse_with_prefix X a (net_address_prefix (network S)) = Inr m \<and> input_authorizes_address tx u m)"
  by (auto simp: check_pool_manager_def result_simps)

lemma check_pool_payment_Inr:
  "check_pool_payment X S tx fee price = Inr () \<longleftrightarrow>
    (\<exists>paid. protocol_paid_atoms X S tx = Inr paid \<and> pool_protocol_share_atoms price \<le> paid \<and>
      pool_miner_share_atoms price \<le> fee)"
  by (auto simp: check_pool_payment_def result_simps not_less)

text \<open>The four ways an action can pass.\<close>

lemma pool_action_cases:
  assumes "validate_pool_action_tx X S tx fee h u reg = (Inr (), reg')"
  obtains (none) "pool_action_count X tx S = 0" and "reg' = reg"
  | (create) i c m price where "pool_creates_in_tx X tx S = [(i, c, m)]" and "pool_topups_in_tx X tx S = []"
      and "pool_commissions_in_tx X tx S = []" and "pool_renames_in_tx X tx S = []" and "pools_active S h"
      and "check_create X S tx fee c m reg = Inr price"
      and "reg' = fmupd (txid X tx) (new_pool (txid X tx) c h price) reg"
  | (topup) i t m pool cap price paid where "pool_creates_in_tx X tx S = []"
      and "pool_topups_in_tx X tx S = [(i, t, m)]" and "pool_commissions_in_tx X tx S = []"
      and "pool_renames_in_tx X tx S = []" and "pools_active S h"
      and "check_topup X S tx u fee t m reg = Inr (pool, cap, price)"
      and "checked_add (pr_total_paid_atoms pool) price = Some paid"
      and "reg' = fmupd (ptu_pool_id t) (pool\<lparr>pr_capacity_slots := cap, pr_total_paid_atoms := paid\<rparr>) reg"
  | (commission) i c m pool where "pool_creates_in_tx X tx S = []" and "pool_topups_in_tx X tx S = []"
      and "pool_commissions_in_tx X tx S = [(i, c, m)]" and "pool_renames_in_tx X tx S = []" and "pools_active S h"
      and "check_commission X S tx u c m reg = Inr pool"
      and "reg' = fmupd (psc_pool_id c) (pool\<lparr>pr_commission_bps := psc_new_commission_bps c\<rparr>) reg"
  | (rename) i r m pool name where "pool_creates_in_tx X tx S = []" and "pool_topups_in_tx X tx S = []"
      and "pool_commissions_in_tx X tx S = []" and "pool_renames_in_tx X tx S = [(i, r, m)]" and "pools_active S h"
      and "check_rename X S tx u r m reg = Inr (pool, name)"
      and "reg' = fmupd (prn_pool_id r) (pool\<lparr>pr_name := name\<rparr>) reg"
proof -
  let ?c = "pool_creates_in_tx X tx S" and ?t = "pool_topups_in_tx X tx S"
    and ?k = "pool_commissions_in_tx X tx S" and ?r = "pool_renames_in_tx X tx S"
  consider "pool_action_count X tx S = 0" | "length ?c = 1" "?t = []" "?k = []" "?r = []"
    | "?c = []" "length ?t = 1" "?k = []" "?r = []" | "?c = []" "?t = []" "length ?k = 1" "?r = []"
    | "?c = []" "?t = []" "?k = []" "length ?r = 1"
    using assms by (cases "length ?c"; cases "length ?t"; cases "length ?k"; cases "length ?r")
      (auto simp: validate_pool_action_tx_def pool_action_count_def Let_def se_simps split: if_splits)
  then show thesis
  proof cases
    case 1
    with assms none show thesis by (simp add: validate_pool_action_tx_def pool_action_count_def se_simps)
  next
    case 2
    then obtain i c m where "?c = [(i, c, m)]" by (auto simp: length_Suc_conv)
    with 2 assms create show thesis by (auto simp: validate_pool_action_tx_def Let_def se_simps split: if_splits)
  next
    case 3
    then obtain i t m where "?t = [(i, t, m)]" by (auto simp: length_Suc_conv)
    with 3 assms topup show thesis
      by (auto simp: validate_pool_action_tx_def Let_def se_simps result_simps split: if_splits prod.splits)
  next
    case 4
    then obtain i c m where "?k = [(i, c, m)]" by (auto simp: length_Suc_conv)
    with 4 assms commission show thesis by (auto simp: validate_pool_action_tx_def Let_def se_simps split: if_splits)
  next
    case 5
    then obtain i r m where "?r = [(i, r, m)]" by (auto simp: length_Suc_conv)
    with 5 assms rename show thesis
      by (auto simp: validate_pool_action_tx_def Let_def se_simps split: if_splits prod.splits)
  qed
qed

lemma checked_add_sat: "checked_add a b = Some c \<Longrightarrow> sat_add a b = c"
  by (auto simp: checked_add_def sat_add_def split: if_splits)

lemma pool_action_recorded:
  assumes "validate_pool_action_tx X S tx fee h u reg = (Inr (), reg')"
  shows "replay_pool_tx X S h tx reg = Inr reg'"
  using assms
proof (cases rule: pool_action_cases)
  case none
  then show ?thesis by (simp add: pool_action_count_def replay_pool_tx_def)
next
  case (create i c m price)
  then have "pool_create_price_atoms S (pcr_capacity_slots c) = Inr price"
    by (auto simp: check_create_def result_simps split: if_splits)
  with create show ?thesis by (simp add: replay_pool_tx_def replay_create_def)
next
  case (topup i t m pool cap price paid)
  then have "fmlookup reg (ptu_pool_id t) = Some pool" "pool_topup_price_atoms S (ptu_extra_capacity_slots t) = Inr price"
    "checked_add (pr_capacity_slots pool) (ptu_extra_capacity_slots t) = Some cap" "cap \<le> ps_max_capacity_slots (pools S)"
    by (auto simp: check_topup_def check_pool_manager_Inr result_simps split: if_splits)
  with topup show ?thesis
    by (simp add: replay_pool_tx_def replay_topup_def checked_add_sat min_def)
next
  case (commission i c m pool)
  then have "fmlookup reg (psc_pool_id c) = Some pool" "psc_new_commission_bps c \<le> pr_commission_bps pool"
    by (auto simp: check_commission_def check_pool_manager_Inr result_simps split: if_splits)
  with commission show ?thesis by (simp add: replay_pool_tx_def replay_commission_def)
next
  case (rename i r m pool name)
  then have "fmlookup reg (prn_pool_id r) = Some pool" "prn_manager_address r = pr_manager_address pool"
    "pool_name S (prn_new_name r) = Inr name"
    by (auto simp: check_rename_def check_pool_manager_Inr result_simps split: if_splits)
  moreover have "pool_name S (prn_new_name r) = Inr (prn_new_name r)"
    using rename(4) by (intro pool_renames_named [of i r m X tx]) simp
  ultimately show ?thesis using rename by (simp add: replay_pool_tx_def replay_rename_def)
qed

text \<open>
  C31: Only its manager changes a pool, and never against its miners: an accepted action leaves
  every other pool's manager and age alone, never raises a commission, never shrinks a capacity,
  and changes a pool only when one of the spent coins belongs to the pool's manager.
\<close>

theorem pool_changed_by_manager_only:
  assumes "validate_pool_action_tx X S tx fee h u reg = (Inr (), reg')"
    and "fmlookup reg i = Some p" and "i \<noteq> txid X tx"
  shows "\<exists>p'. fmlookup reg' i = Some p' \<and> pr_manager_address p' = pr_manager_address p \<and>
    pr_created_height p' = pr_created_height p \<and> pr_commission_bps p' \<le> pr_commission_bps p \<and>
    pr_capacity_slots p \<le> pr_capacity_slots p' \<and>
    (p' = p \<or> (\<exists>m. parse_with_prefix X (pr_manager_address p) (net_address_prefix (network S)) = Inr m \<and>
      input_authorizes_address tx u m))"
  using assms(1)
proof (cases rule: pool_action_cases)
  case (topup k t m pool cap price paid)
  then have "check_pool_manager X S tx u reg (ptu_pool_id t) (ptu_manager_address t) = Inr pool"
    "checked_add (pr_capacity_slots pool) (ptu_extra_capacity_slots t) = Some cap"
    by (auto simp: check_topup_def result_simps split: if_splits)
  then show ?thesis using topup(8) assms(2)
    by (cases "ptu_pool_id t = i") (auto simp: check_pool_manager_Inr checked_add_Some word_le_nat_alt)
next
  case (commission k c m pool)
  then have "check_pool_manager X S tx u reg (psc_pool_id c) (psc_manager_address c) = Inr pool"
    "psc_new_commission_bps c \<le> pr_commission_bps pool"
    by (auto simp: check_commission_def result_simps split: if_splits)
  then show ?thesis using commission(7) assms(2)
    by (cases "psc_pool_id c = i") (auto simp: check_pool_manager_Inr)
next
  case (rename k r m pool name)
  then have "check_pool_manager X S tx u reg (prn_pool_id r) (prn_manager_address r) = Inr pool"
    by (auto simp: check_rename_def result_simps split: if_splits)
  then show ?thesis using rename(7) assms(2)
    by (cases "prn_pool_id r = i") (auto simp: check_pool_manager_Inr)
qed (use assms(2,3) in auto)

section \<open>An example\<close>

text \<open>A network with pools from the start, and a manager lowering a commission.\<close>

definition ex_pool_settings :: settings where
  "ex_pool_settings = (example_settings ''regtest'')
     \<lparr>pools := ex_pools\<lparr>ps_activation_height := 0,
        ps_protocol_address := address_to_string ref_extern (ex_addr (CHR ''p'')),
        ps_share_target_bits := ''0x207fffff''\<rparr>,
      features := ex_features\<lparr>feat_pooled_mining_enabled := True\<rparr>\<rparr>"

lemma ex_pool_simps:
  "network ex_pool_settings = ex_network ''regtest''" "net_address_prefix (ex_network ''regtest'') = ''qub''"
  "pools_active ex_pool_settings h" "pools_enabled ex_pool_settings"
  "ps_marker_output_atoms (pools ex_pool_settings) = 1" "ps_max_commission_bps (pools ex_pool_settings) = 2000"
  "consensus ex_pool_settings = ex_consensus"
  by (simp_all add: ex_pool_settings_def ex_network_def pools_active_def pools_enabled_def ex_pools_def)

definition ex_pool_id :: hash256 where
  "ex_pool_id = replicate 32 (CHR ''i'')"

definition ex_pool :: pool_record where
  "ex_pool = \<lparr>pr_pool_id = ex_pool_id, pr_name = ''pool'',
     pr_manager_address = address_to_string ref_extern ex_owner, pr_commission_bps = 500, pr_capacity_slots = 8,
     pr_created_height = 1, pr_create_txid = ex_pool_id, pr_total_paid_atoms = 2500000000\<rparr>"

definition ex_commission_outs :: "tx_out list" where
  "ex_commission_outs = [\<lparr>out_value = 1, script_pubkey = pipes [''POOLCOMMISSION1'',
     hash_to_string ref_extern ex_pool_id, address_to_string ref_extern ex_owner, show_word (300 :: u16)]\<rparr>]"

lemma pool_fields_other:
  assumes "starts_with b q" and "length p \<le> length q" and "take (length p) q \<noteq> p"
  shows "pool_fields p tag b = None"
proof -
  from assms(1) obtain t where b: "b = q @ t" by (auto simp: starts_with_iff)
  have "\<not> starts_with b p"
    using assms(2,3) b by (auto simp: starts_with_def)
  then show ?thesis by (simp add: pool_fields_def)
qed

lemma ex_commission_markers:
  "pool_commissions_in_tx ref_extern (ex_pay ex_commission_outs) ex_pool_settings =
    [(0, \<lparr>psc_pool_id = ex_pool_id, psc_manager_address = address_to_string ref_extern ex_owner,
       psc_new_commission_bps = 300\<rparr>, 1)]"
  "pool_creates_in_tx ref_extern (ex_pay ex_commission_outs) ex_pool_settings = []"
  "pool_topups_in_tx ref_extern (ex_pay ex_commission_outs) ex_pool_settings = []"
  "pool_renames_in_tx ref_extern (ex_pay ex_commission_outs) ex_pool_settings = []"
proof -
  let ?fs = "[hash_to_string ref_extern ex_pool_id, address_to_string ref_extern ex_owner, show_word (300 :: u16)]"
  let ?b = "pipes (''POOLCOMMISSION1'' # ?fs)"
  have "list_all plain_field (''POOLCOMMISSION1'' # ?fs)"
    using plain_pool_words(3) plain_hash [OF ref_extern_ok] plain_address [OF ref_extern_ok ex_owner(1)]
    by (simp add: plain_show_word)
  then have "pool_fields POOL_COMMISSION_PREFIX ''POOLCOMMISSION1'' ?b = Some ?fs"
    by (rule pool_fields_pipes) (simp_all add: POOL_COMMISSION_PREFIX_def)
  moreover have "starts_with ?b POOL_COMMISSION_PREFIX"
    by (simp add: starts_with_def POOL_COMMISSION_PREFIX_def pipes_def)
  then have "pool_fields POOL_CREATE_PREFIX t ?b = None" "pool_fields POOL_TOPUP_PREFIX t ?b = None"
    "pool_fields POOL_RENAME_PREFIX t ?b = None" for t
    by (rule pool_fields_other; simp add: POOL_CREATE_PREFIX_def POOL_TOPUP_PREFIX_def POOL_RENAME_PREFIX_def
        POOL_COMMISSION_PREFIX_def)+
  moreover have "length ex_pool_id = 32" by (simp add: ex_pool_id_def)
  moreover have "addr_prefix ex_owner = net_address_prefix (network ex_pool_settings)"
    by (simp add: ex_owner ex_pool_simps(1,2))
  ultimately show "pool_commissions_in_tx ref_extern (ex_pay ex_commission_outs) ex_pool_settings =
      [(0, \<lparr>psc_pool_id = ex_pool_id, psc_manager_address = address_to_string ref_extern ex_owner,
       psc_new_commission_bps = 300\<rparr>, 1)]"
    "pool_creates_in_tx ref_extern (ex_pay ex_commission_outs) ex_pool_settings = []"
    "pool_topups_in_tx ref_extern (ex_pay ex_commission_outs) ex_pool_settings = []"
    "pool_renames_in_tx ref_extern (ex_pay ex_commission_outs) ex_pool_settings = []"
    using pool_manager_text [OF ref_extern_ok ex_owner(1)] hash_hex_roundtrip [OF ref_extern_ok]
    by (simp_all add: pool_commissions_in_tx_def pool_creates_in_tx_def pool_topups_in_tx_def pool_renames_in_tx_def
        markers_in_def ex_pay_simps ex_commission_outs_def List.map_filter_def parse_pool_commission_marker_script_def
        parse_pool_create_marker_script_def parse_pool_topup_marker_script_def parse_pool_rename_marker_script_def)
qed

lemma ex_no_other_markers:
  "qns_registrations_in_tx X (ex_pay ex_commission_outs) S = []"
  "jin_transfers_in_tx X (ex_pay ex_commission_outs) S = []"
  "jin_conversions_in_tx X (ex_pay ex_commission_outs) S = []"
  by (auto simp: qns_registrations_in_tx_def jin_transfers_in_tx_def jin_conversions_in_tx_def markers_in_def
      ex_pay_simps ex_commission_outs_def List.map_filter_def parse_qns_marker_script_def QNS_SCRIPT_PREFIX_def
      parse_jin_marker_script_def parse_jin_conversion_script_def JIN_SCRIPT_PREFIX_def pipes_def dest!: starts_with_first)

lemma ex_commission_valid:
  "validate_pool_action_tx ref_extern ex_pool_settings (ex_pay ex_commission_outs) fee h (ex_coin v)
      (fmupd ex_pool_id ex_pool fmempty) =
    (Inr (), fmupd ex_pool_id (ex_pool\<lparr>pr_commission_bps := 300\<rparr>) (fmupd ex_pool_id ex_pool fmempty))"
proof -
  have "input_authorizes_address (ex_pay ex_commission_outs) (ex_coin v) ex_owner"
    by (simp add: input_authorizes_address_def ex_pay_simps ex_coin_def ex_owner)
  then have "check_pool_manager ref_extern ex_pool_settings (ex_pay ex_commission_outs) (ex_coin v)
      (fmupd ex_pool_id ex_pool fmempty) ex_pool_id (address_to_string ref_extern ex_owner) = Inr ex_pool"
    using parse_ex_address [OF ex_owner(1,2)]
    by (simp add: check_pool_manager_Inr ex_pool_simps ex_pool_def)
  then show ?thesis
    using ex_kind
    by (simp add: validate_pool_action_tx_def ex_commission_markers ex_no_other_markers check_commission_def
        ex_pool_simps se_bind_def se_need_def se_modify_def word_less_nat_alt) (simp add: ex_pool_def)
qed

lemma ref_double_sha256: "32 \<le> length b \<Longrightarrow> double_sha256 ref_extern b = drop (length b - 32) b"
  by (simp add: double_sha256_def ref_extern_def pad_digest_def take_rev rev_take)

lemma last_u32_zero: "u32_le 0 \<noteq> []" "last (u32_le 0) = CHR 0x00"
  by code_simp+

lemma ex_serialize_last:
  "32 \<le> length (serialize_tx None (ex_pay outs))" "last (serialize_tx None (ex_pay outs)) = CHR 0x00"
  using last_u32_zero
  by (simp_all add: serialize_tx_def ex_pay_def ex_pay_with_def serialize_input_def ex_outpoint_def)

lemma ex_txid_last: "last (txid ref_extern (ex_pay outs)) = CHR 0x00"
  unfolding txid_def ref_double_sha256 [OF ex_serialize_last(1)]
  using ex_serialize_last [of outs] by (subst last_drop) auto

lemma pool_changed_by_manager_only_witness:
  "\<exists>p'. fmlookup (fmupd ex_pool_id (ex_pool\<lparr>pr_commission_bps := 300\<rparr>) (fmupd ex_pool_id ex_pool fmempty)) ex_pool_id = Some p' \<and>
    pr_commission_bps p' \<le> pr_commission_bps ex_pool"
proof -
  have "ex_pool_id \<noteq> txid ref_extern (ex_pay ex_commission_outs)"
  proof
    assume eq: "ex_pool_id = txid ref_extern (ex_pay ex_commission_outs)"
    show False using arg_cong [OF eq, of last] ex_txid_last by (simp add: ex_pool_id_def)
  qed
  from pool_changed_by_manager_only [OF ex_commission_valid _ this, of ex_pool] show ?thesis by auto
qed

end
