(* ===== verification/PoolWindow.thy ===== *)
theory PoolWindow
  imports PoolRegistry
begin

text \<open>
  The share window of \<open>src/pools.rs\<close>: which shares count at a height, how a new share is checked
  against them (\<open>PoolWindowState\<close>, \<open>validate_share_tx_against_context\<close>), and the context in which the
  transactions of a block or a template are checked (\<open>PoolValidationContext\<close>,
  \<open>validate_pools_block\<close>). The caches of confirmed registries and windows are in theory \<open>PoolCache\<close>;
  here they are what they cache.
\<close>

section \<open>The window\<close>

record pool_window =
  pw_pool_by_miner :: "(string, hash256) fmap"
  pw_miners_by_pool :: "(hash256, string fset) fmap"
  pw_seen_keys :: "string fset"

definition pool_window_empty :: pool_window where
  "pool_window_empty = \<lparr>pw_pool_by_miner = fmempty, pw_miners_by_pool = fmempty, pw_seen_keys = {||}\<rparr>"

definition pw_miners :: "pool_window \<Rightarrow> hash256 \<Rightarrow> string fset" where
  "pw_miners w p = (case fmlookup (pw_miners_by_pool w) p of None \<Rightarrow> {||} | Some ms \<Rightarrow> ms)"

definition add_active_unchecked :: "pool_share \<Rightarrow> pool_window \<Rightarrow> pool_window" where
  "add_active_unchecked sh w =
     w\<lparr>pw_pool_by_miner := (if fmlookup (pw_pool_by_miner w) (psh_miner_address sh) = None
         then fmupd (psh_miner_address sh) (psh_pool_id sh) (pw_pool_by_miner w) else pw_pool_by_miner w),
       pw_miners_by_pool := fmupd (psh_pool_id sh)
         (finsert (psh_miner_address sh) (pw_miners w (psh_pool_id sh))) (pw_miners_by_pool w)\<rparr>"

definition add_seen_key :: "extern \<Rightarrow> pool_share \<Rightarrow> pool_window \<Rightarrow> pool_window" where
  "add_seen_key X sh w = w\<lparr>pw_seen_keys := finsert (pool_share_key X sh) (pw_seen_keys w)\<rparr>"

definition window_record_tx ::
  "extern \<Rightarrow> u32 \<Rightarrow> u32 \<Rightarrow> u32 \<Rightarrow> transaction \<Rightarrow> pool_window \<Rightarrow> pool_window" where
  "window_record_tx X duplicate_start active_start height tx w =
     (case parse_pool_share_tx X tx of
        None \<Rightarrow> w
      | Some sh \<Rightarrow>
          let w = (if height \<ge> duplicate_start then add_seen_key X sh w else w) in
          if height \<ge> active_start then add_active_unchecked sh w else w)"

definition pool_window_from_blocks :: "extern \<Rightarrow> settings \<Rightarrow> block list \<Rightarrow> u32 \<Rightarrow> pool_window" where
  "pool_window_from_blocks X S blocks spend_height =
     (let active_start = sat_sub spend_height (ps_share_window_blocks (pools S));
          duplicate_start = sat_sub spend_height (ps_share_stale_blocks (pools S));
          scan_start = unat (max (min active_start duplicate_start) 1);
          scan_end = min (unat spend_height) (length blocks) in
      fold (\<lambda>(n, b). fold (window_record_tx X duplicate_start active_start (of_nat n)) (drop 1 (blk_transactions b)))
        (drop scan_start (take scan_end (enumerate 0 blocks))) pool_window_empty)"

definition validate_and_add_share :: "extern \<Rightarrow> pool_share \<Rightarrow> pool_record \<Rightarrow> pool_window \<Rightarrow> pool_window result" where
  "validate_and_add_share X sh pool w =
     (let miner = psh_miner_address sh; pool_id = psh_pool_id sh; key = pool_share_key X sh in
      if key |\<in>| pw_seen_keys w then Inl (PoolErr ShareDuplicate)
      else if (case fmlookup (pw_pool_by_miner w) miner of Some existing \<Rightarrow> existing \<noteq> pool_id | None \<Rightarrow> False)
      then Inl (PoolErr ShareOtherPool)
      else if miner |\<notin>| pw_miners w pool_id \<and> fcard (pw_miners w pool_id) \<ge> unat (pr_capacity_slots pool)
      then Inl (PoolErr SharePoolFull)
      else Inr (w\<lparr>pw_seen_keys := finsert key (pw_seen_keys w),
        pw_miners_by_pool := fmupd pool_id (finsert miner (pw_miners w pool_id)) (pw_miners_by_pool w),
        pw_pool_by_miner := fmupd miner pool_id (pw_pool_by_miner w)\<rparr>))"

section \<open>Share transactions\<close>

definition validate_share_tx_against_context ::
  "extern \<Rightarrow> settings \<Rightarrow> transaction \<Rightarrow> block list \<Rightarrow> u32 \<Rightarrow> pool_registry \<Rightarrow> pool_window \<Rightarrow> pool_window result" where
  "validate_share_tx_against_context X S tx blocks spend_height registry w =
     (if \<not> pools_active S spend_height then Inl (PoolErr ShareInactive) else
      rbind (ok_or (PoolErr ShareInvalid) (parse_pool_share_tx X tx)) (\<lambda>sh.
      let parent_height = psh_parent_height sh; pre = net_address_prefix (network S) in
      rbind (parse_with_prefix X (psh_miner_address sh) pre) (\<lambda>_.
      rbind (ok_or (PoolErr ShareUnknownPool) (fmlookup registry (psh_pool_id sh))) (\<lambda>pool.
      if parent_height < pr_created_height pool then Inl (PoolErr ShareParentPredates)
      else if unat parent_height \<ge> length blocks then Inl (PoolErr ShareParentUnknown)
      else if psh_parent_hash sh \<noteq> block_hash X (blocks ! unat parent_height) then Inl (PoolErr ShareParentHash)
      else if parent_height \<ge> spend_height then Inl (PoolErr ShareParentNotBefore)
      else
        let age = sat_sub spend_height parent_height in
        if age = 0 \<or> age > ps_share_stale_blocks (pools S) then Inl (PoolErr ShareStale) else
        rbind (pool_share_meets_target X S (psh_pool_id sh) (psh_miner_address sh) parent_height
          (psh_parent_hash sh) (psh_nonce sh)) (\<lambda>meets.
        if \<not> meets then Inl (PoolErr ShareTarget) else
        rbind (ok_or (StdErr HexError) (hex_decode X (psh_public_key_hex sh))) (\<lambda>pk.
        rbind (ok_or (StdErr HexError) (hex_decode X (psh_signature_hex sh))) (\<lambda>sig.
        rbind (ok_or (StdErr SecpError) (pk_from_slice X pk)) (\<lambda>public.
        rbind (parse_with_prefix X (psh_miner_address sh) pre) (\<lambda>addr.
        if public_key_hash X public \<noteq> addr_payload addr then Inl (PoolErr SharePublicKey)
        else if \<not> verify_hash X pk sig (pool_share_signing_hash X (psh_pool_id sh) (psh_miner_address sh)
          parent_height (psh_parent_hash sh) (psh_nonce sh)) then Inl (PoolErr ShareSignature)
        else validate_and_add_share X sh pool w)))))))))"

section \<open>The validation context\<close>

record pool_context =
  pcx_registry :: pool_registry
  pcx_window :: pool_window

definition confirmed_pool_window :: "extern \<Rightarrow> settings \<Rightarrow> block list \<Rightarrow> u32 \<Rightarrow> pool_window" where
  "confirmed_pool_window X S blocks spend_height =
     (if \<not> pools_enabled S then pool_window_empty else pool_window_from_blocks X S blocks spend_height)"

definition pool_context_from_confirmed :: "extern \<Rightarrow> settings \<Rightarrow> block list \<Rightarrow> u32 \<Rightarrow> pool_context result" where
  "pool_context_from_confirmed X S blocks spend_height =
     rbind (pools_registry_from_blocks X S blocks) (\<lambda>registry.
     Inr \<lparr>pcx_registry = registry, pcx_window = confirmed_pool_window X S blocks spend_height\<rparr>)"

definition absorb_mempool_share ::
  "extern \<Rightarrow> settings \<Rightarrow> block list \<Rightarrow> u32 \<Rightarrow> hash256 option \<Rightarrow> transaction \<Rightarrow> pool_context \<Rightarrow> pool_context" where
  "absorb_mempool_share X S blocks spend_height exclude_txid tx ctx =
     (if exclude_txid = Some (txid X tx) then ctx else
      (case parse_pool_share_tx X tx of None \<Rightarrow> ctx | Some sh \<Rightarrow>
      (case fmlookup (pcx_registry ctx) (psh_pool_id sh) of None \<Rightarrow> ctx | Some pool \<Rightarrow>
        if psh_parent_height sh < pr_created_height pool then ctx
        else if unat (psh_parent_height sh) \<ge> length blocks then ctx
        else if psh_parent_hash sh \<noteq> block_hash X (blocks ! unat (psh_parent_height sh)) then ctx
        else
          let age = sat_sub spend_height (psh_parent_height sh) in
          if age > 0 \<and> age \<le> ps_share_stale_blocks (pools S)
          then ctx\<lparr>pcx_window := add_active_unchecked sh (add_seen_key X sh (pcx_window ctx))\<rparr>
          else ctx)))"

definition absorb_mempool_shares ::
  "extern \<Rightarrow> settings \<Rightarrow> block list \<Rightarrow> transaction list \<Rightarrow> u32 \<Rightarrow> hash256 option \<Rightarrow> pool_context \<Rightarrow> pool_context" where
  "absorb_mempool_shares X S blocks mempool spend_height exclude_txid =
     fold (absorb_mempool_share X S blocks spend_height exclude_txid) mempool"

text \<open>
  A rejected share changes nothing; a rejected top-up may have changed the registry of the context,
  as \<open>validate_pool_action_tx\<close> describes.
\<close>

definition pool_context_share ::
  "extern \<Rightarrow> settings \<Rightarrow> transaction \<Rightarrow> block list \<Rightarrow> u32 \<Rightarrow> (pool_context, unit) se" where
  "pool_context_share X S tx blocks spend_height =
     se_bind (se_need (\<lambda>ctx. validate_share_tx_against_context X S tx blocks spend_height
         (pcx_registry ctx) (pcx_window ctx))) (\<lambda>w.
     se_modify (pcx_window_update (\<lambda>_. w)))"

definition pool_context_action ::
  "extern \<Rightarrow> settings \<Rightarrow> transaction \<Rightarrow> utxo_map \<Rightarrow> u32 \<Rightarrow> u64 \<Rightarrow> (pool_context, unit) se" where
  "pool_context_action X S tx utxos spend_height fee_atoms =
     (\<lambda>ctx. case validate_pool_action_tx X S tx fee_atoms spend_height utxos (pcx_registry ctx) of
        (r, registry) \<Rightarrow> (r, ctx\<lparr>pcx_registry := registry\<rparr>))"

definition pool_validate_and_apply ::
  "extern \<Rightarrow> settings \<Rightarrow> transaction \<Rightarrow> block list \<Rightarrow> utxo_map \<Rightarrow> u32 \<Rightarrow> u64 \<Rightarrow> (pool_context, unit) se" where
  "pool_validate_and_apply X S tx blocks utxos spend_height fee_atoms =
     (let is_share = is_pool_share_transaction tx in
      if \<not> pool_action_count X tx S > 0 \<and> \<not> is_share then se_return ()
      else if \<not> pools_enabled S then se_fail (PoolErr PoolDisabled)
      else if is_share then pool_context_share X S tx blocks spend_height
      else pool_context_action X S tx utxos spend_height fee_atoms)"

end
