(* ===== verification/PoolPayout.thy ===== *)
theory PoolPayout
  imports PoolRegistry
begin

text \<open>
  How a pool block pays its miners (\<open>src/pools.rs\<close>): the scores of the share window
  (\<open>pool_share_scores_from_blocks\<close>), the split of an amount by score (\<open>split_amount\<close>,
  \<open>pool_payout_plan\<close>), the outputs a pool coinbase must have (\<open>expected_pool_coinbase_outputs\<close>), the
  marker of a pool block, and who receives the JIN fees of a block. The lemmas show that a split pays
  out exactly the amount, every miner within one unit of the proportional share.
\<close>

section \<open>Scores\<close>

type_synonym pool_scores = "(string, u128) fmap"

definition score_tx :: "extern \<Rightarrow> hash256 \<Rightarrow> transaction \<Rightarrow> pool_scores \<Rightarrow> pool_scores" where
  "score_tx X pool_id tx scores =
     (case parse_pool_share_tx X tx of
        Some sh \<Rightarrow> if psh_pool_id sh = pool_id
          then fmupd (psh_miner_address sh) (get_or0 scores (psh_miner_address sh) + 1) scores else scores
      | None \<Rightarrow> scores)"

definition score_block :: "extern \<Rightarrow> hash256 \<Rightarrow> u32 \<Rightarrow> nat \<times> block \<Rightarrow> pool_scores \<Rightarrow> pool_scores" where
  "score_block X pool_id spend_height hb scores = (case hb of (n, b) \<Rightarrow>
     if (of_nat n :: u32) \<ge> spend_height then scores
     else fold (score_tx X pool_id) (drop 1 (blk_transactions b)) scores)"

definition pool_share_scores_from_blocks ::
  "extern \<Rightarrow> settings \<Rightarrow> block list \<Rightarrow> u32 \<Rightarrow> hash256 \<Rightarrow> pool_scores" where
  "pool_share_scores_from_blocks X S blocks spend_height pool_id =
     (let window_start = sat_sub spend_height (ps_share_window_blocks (pools S));
          start_idx = unat (max window_start 1);
          end_idx = min (unat spend_height) (length blocks) in
      fold (score_block X pool_id spend_height) (drop start_idx (take end_idx (enumerate 0 blocks))) fmempty)"

definition pool_active_miners_from_blocks ::
  "extern \<Rightarrow> settings \<Rightarrow> block list \<Rightarrow> u32 \<Rightarrow> hash256 \<Rightarrow> string fset" where
  "pool_active_miners_from_blocks X S blocks spend_height pool_id =
     fmdom (pool_share_scores_from_blocks X S blocks spend_height pool_id)"

section \<open>The split\<close>

record pool_payout_entry =
  ppe_address :: string
  ppe_score :: u128
  ppe_amount :: u128

record pool_plan =
  ppp_pool_id :: hash256
  ppp_manager_address :: string
  ppp_commission_bps :: u16
  ppp_total_score :: u128
  ppp_commission_amount :: u128
  ppp_miner_amount :: u128
  ppp_entries :: "pool_payout_entry list"

text \<open>The whole shares and the remainders of the division.\<close>

definition split_one ::
  "u128 \<Rightarrow> u128 \<Rightarrow> string \<times> u128 \<Rightarrow> u128 \<times> pool_payout_entry list \<times> (string \<times> u128) list \<Rightarrow>
    (u128 \<times> pool_payout_entry list \<times> (string \<times> u128) list) result" where
  "split_one miner_total total_score row acc = (case row of (addr, score) \<Rightarrow> case acc of (floors_sum, entries, remainders) \<Rightarrow>
     rbind (ok_or (PoolErr PoolPayoutOverflow) (checked_mul miner_total score)) (\<lambda>product.
     let amount = product div total_score; rem = product mod total_score in
     rbind (ok_or (PoolErr PoolPayoutOverflow) (checked_add floors_sum amount)) (\<lambda>floors_sum.
     Inr (floors_sum, entries @ [\<lparr>ppe_address = addr, ppe_score = score, ppe_amount = amount\<rparr>],
       remainders @ [(addr, rem)]))))"

text \<open>One unit of the leftover to the next address; nothing once the leftover is used up.\<close>

definition give_one ::
  "string \<times> u128 \<Rightarrow> pool_payout_entry list \<times> u128 \<Rightarrow> (pool_payout_entry list \<times> u128) result" where
  "give_one row acc = (case row of (addr, _) \<Rightarrow> case acc of (entries, leftover) \<Rightarrow>
     if leftover = 0 then Inr (entries, leftover) else
     (case find (\<lambda>e. ppe_address e = addr) entries of
        None \<Rightarrow> Inr (entries, leftover)
      | Some e \<Rightarrow>
          rbind (ok_or (PoolErr PoolPayoutOverflow) (checked_add (ppe_amount e) 1)) (\<lambda>amount.
          Inr (update_first (\<lambda>e. ppe_address e = addr) (ppe_amount_update (\<lambda>_. amount)) entries, leftover - 1))))"

definition split_scores :: "(string \<times> u128) list \<Rightarrow> (string \<times> u128) list" where
  "split_scores scores = sort_by (\<lambda>a b. fst a \<le> fst b) (filter (\<lambda>s. snd s > 0) scores)"

definition remainder_order :: "string \<times> u128 \<Rightarrow> string \<times> u128 \<Rightarrow> bool" where
  "remainder_order a b \<longleftrightarrow> snd b < snd a \<or> snd b = snd a \<and> fst a \<le> fst b"

definition split_amount ::
  "u128 \<Rightarrow> u16 \<Rightarrow> (string \<times> u128) list \<Rightarrow> (u128 \<times> u128 \<times> pool_payout_entry list) result" where
  "split_amount amount_total commission_bps scores =
     (let rows = split_scores scores; total_score = sum_list (map snd rows) in
      if total_score = 0 then Inl (PoolErr PoolNoShares) else
      rbind (ok_or (PoolErr PoolCommissionOverflow) (checked_mul amount_total (ucast commission_bps))) (\<lambda>product.
      let commission = product div 10000 in
      rbind (ok_or (PoolErr PoolCommissionExceedsTotal) (checked_sub amount_total commission)) (\<lambda>miner_total.
      rbind (fold_r (split_one miner_total total_score) rows (0, [], [])) (\<lambda>(floors_sum, entries, remainders).
      rbind (ok_or (PoolErr PoolPayoutUnderflow) (checked_sub miner_total floors_sum)) (\<lambda>leftover.
      rbind (fold_r give_one (sort_by remainder_order remainders) (entries, leftover)) (\<lambda>(entries, _).
      Inr (commission, miner_total, sort_by (\<lambda>a b. ppe_address a \<le> ppe_address b) entries)))))))"

definition pool_payout_plan ::
  "extern \<Rightarrow> settings \<Rightarrow> block list \<Rightarrow> hash256 \<Rightarrow> u128 \<Rightarrow> pool_plan result" where
  "pool_payout_plan X S prior_blocks pool_id amount_total =
     (let height = of_nat (length prior_blocks) in
      rbind (pools_registry_from_blocks X S prior_blocks) (\<lambda>registry.
      rbind (ok_or (PoolErr PoolUnknown) (fmlookup registry pool_id)) (\<lambda>pool.
      let scores = sorted_list_of_fmap (pool_share_scores_from_blocks X S prior_blocks height pool_id) in
      rbind (split_amount amount_total (pr_commission_bps pool) scores) (\<lambda>(commission, miner, entries).
      Inr \<lparr>ppp_pool_id = pool_id, ppp_manager_address = pr_manager_address pool,
        ppp_commission_bps = pr_commission_bps pool, ppp_total_score = sum_list (map snd scores),
        ppp_commission_amount = commission, ppp_miner_amount = miner, ppp_entries = entries\<rparr>))))"

section \<open>The coinbase of a pool block\<close>

definition payout_output :: "extern \<Rightarrow> settings \<Rightarrow> string \<Rightarrow> u128 \<Rightarrow> tx_out result" where
  "payout_output X S addr amount =
     rbind (parse_with_prefix X addr (net_address_prefix (network S))) (\<lambda>a.
     rbind (amount_from_atoms (ucast amount)) (\<lambda>v.
     Inr \<lparr>out_value = v, script_pubkey = address_script_pubkey a\<rparr>))"

definition push_entry :: "extern \<Rightarrow> settings \<Rightarrow> pool_payout_entry \<Rightarrow> tx_out list \<Rightarrow> tx_out list result" where
  "push_entry X S e outs =
     (if ppe_amount e = 0 then Inr outs else
      rbind (payout_output X S (ppe_address e) (ppe_amount e)) (\<lambda>out. Inr (outs @ [out])))"

definition expected_pool_coinbase_outputs ::
  "extern \<Rightarrow> settings \<Rightarrow> block list \<Rightarrow> hash256 \<Rightarrow> u128 \<Rightarrow> tx_out list result" where
  "expected_pool_coinbase_outputs X S prior_blocks pool_id total_reward_atoms =
     (if total_reward_atoms > 0xFFFFFFFFFFFFFFFF then Inl (PoolErr PoolRewardOverflow) else
      rbind (pool_payout_plan X S prior_blocks pool_id total_reward_atoms) (\<lambda>plan.
      rbind (if ppp_commission_amount plan > 0
          then rbind (payout_output X S (ppp_manager_address plan) (ppp_commission_amount plan)) (\<lambda>out. Inr [out])
          else Inr []) (\<lambda>outs.
      rbind (fold_r (push_entry X S) (ppp_entries plan) outs) (\<lambda>outs.
      if outs = [] then Inl (PoolErr PoolNoOutputs) else Inr outs))))"

definition pool_block_marker_script :: "extern \<Rightarrow> u32 \<Rightarrow> u64 \<Rightarrow> hash256 \<Rightarrow> script" where
  "pool_block_marker_script X height extra_nonce pool_id =
     u32_le height @ u64_le extra_nonce @ ''/QUB Core v1.4.8/'' @ POOL_BLOCK_PREFIX @ hash_to_string X pool_id"

definition parse_pool_block_marker :: "extern \<Rightarrow> block \<Rightarrow> hash256 option" where
  "parse_pool_block_marker X b =
     (case blk_transactions b of [] \<Rightarrow> None | coinbase # _ \<Rightarrow>
     (case tx_inputs coinbase of [] \<Rightarrow> None | input # _ \<Rightarrow>
       let s = signature_script input in
       Option.bind (position_of POOL_BLOCK_PREFIX s) (\<lambda>pos.
       Option.bind (from_utf8 (drop (pos + length POOL_BLOCK_PREFIX) s)) (\<lambda>rest.
       to_option (hash_from_hex X (takeWhile is_ascii_hexdigit (trim rest)))))))"

section \<open>JIN fees\<close>

definition merge_amounts :: "(string \<times> u128) list \<Rightarrow> (string \<times> u128) list" where
  "merge_amounts rows =
     sort_by (\<lambda>a b. fst a \<le> fst b)
       (sorted_list_of_fmap (fold (\<lambda>(addr, amount) m. fmupd addr (get_or0 m addr + amount) m) rows fmempty))"

definition plan_receivers :: "pool_plan \<Rightarrow> (string \<times> u128) list" where
  "plan_receivers plan =
     (if ppp_commission_amount plan > 0 then [(ppp_manager_address plan, ppp_commission_amount plan)] else []) @
     map (\<lambda>e. (ppe_address e, ppe_amount e)) (filter (\<lambda>e. ppe_amount e > 0) (ppp_entries plan))"

definition jin_fee_receivers_for_block ::
  "extern \<Rightarrow> settings \<Rightarrow> block list \<Rightarrow> block \<Rightarrow> u128 \<Rightarrow> (string \<times> u128) list result" where
  "jin_fee_receivers_for_block X S prior_blocks b total_fee_units =
     (if total_fee_units = 0 then Inr [] else
      (case parse_pool_block_marker X b of
         Some pool_id \<Rightarrow>
           rbind (pool_payout_plan X S prior_blocks pool_id total_fee_units) (\<lambda>plan.
           Inr (merge_amounts (plan_receivers plan)))
       | None \<Rightarrow>
           Inr (case blk_transactions b of [] \<Rightarrow> [] | tx # _ \<Rightarrow>
             (case tx_outputs tx of [] \<Rightarrow> [] | out # _ \<Rightarrow>
             (case address_from_script_pubkey (net_address_prefix (network S)) (script_pubkey out) of
                None \<Rightarrow> []
              | Some a \<Rightarrow> [(address_to_string X a, total_fee_units)])))))"

section \<open>The split pays out the amount\<close>

abbreviation paid_out :: "pool_payout_entry list \<Rightarrow> nat" where
  "paid_out es \<equiv> sum_list (map (\<lambda>e. unat (ppe_amount e)) es)"

lemma split_one_fold:
  assumes "fold_r (split_one mt ts) rows (f0, es0, rs0) = Inr (f, es, rs)"
  shows "unat f = unat f0 + sum_list (map (\<lambda>(a, s). unat mt * unat s div unat ts) rows) \<and>
    es = es0 @ map (\<lambda>(a, s). \<lparr>ppe_address = a, ppe_score = s, ppe_amount = (mt * s) div ts\<rparr>) rows \<and>
    rs = rs0 @ map (\<lambda>(a, s). (a, (mt * s) mod ts)) rows \<and>
    (\<forall>(a, s) \<in> set rows. unat (mt * s) = unat mt * unat s)"
  using assms
proof (induction rows arbitrary: f0 es0 rs0)
  case (Cons row rows)
  obtain a s where row: "row = (a, s)" by (cases row)
  from Cons.prems obtain acc where 1: "split_one mt ts row (f0, es0, rs0) = Inr acc"
    and 2: "fold_r (split_one mt ts) rows acc = Inr (f, es, rs)" by (auto simp: result_simps)
  from 1 obtain product f1 where m: "checked_mul mt s = Some product" "checked_add f0 (product div ts) = Some f1"
    and acc: "acc = (f1, es0 @ [\<lparr>ppe_address = a, ppe_score = s, ppe_amount = product div ts\<rparr>],
      rs0 @ [(a, product mod ts)])"
    by (auto simp: row split_one_def Let_def result_simps)
  from m(1) have product: "product = mt * s" by (simp add: checked_mul_def split: if_splits)
  from m product have "unat (mt * s) = unat mt * unat s" "unat f1 = unat f0 + unat (mt * s div ts)"
    by (auto simp: checked_mul_Some checked_add_Some)
  with Cons.IH [OF 2 [unfolded acc]] show ?case by (simp add: row unat_div product)
qed simp

text \<open>An entry before and after the leftover is handed out to the addresses of a list.\<close>

definition topped_up :: "string set \<Rightarrow> pool_payout_entry \<Rightarrow> pool_payout_entry \<Rightarrow> bool" where
  "topped_up addrs e e' \<longleftrightarrow> ppe_address e' = ppe_address e \<and> ppe_score e' = ppe_score e \<and>
     (ppe_amount e' = ppe_amount e \<or> ppe_address e \<in> addrs \<and> unat (ppe_amount e') = unat (ppe_amount e) + 1)"

lemma topped_up_refl: "topped_up A e e"
  by (simp add: topped_up_def)

lemma topped_up_mono: "topped_up A e e' \<Longrightarrow> A \<subseteq> B \<Longrightarrow> topped_up B e e'"
  by (auto simp: topped_up_def)

lemma list_all2_topped_up_refl: "list_all2 (topped_up A) es es"
  by (simp add: list_all2_refl topped_up_refl)

lemma list_all2_update_first:
  "find p xs = Some x \<Longrightarrow> r x (f x) \<Longrightarrow> (\<And>y. r y y) \<Longrightarrow> list_all2 r xs (update_first p f xs)"
  by (induction xs) (auto intro: list_all2_refl split: if_splits)

lemma sum_list_update_first:
  "find p xs = Some x \<Longrightarrow> g (f x) = g x + (1 :: nat) \<Longrightarrow> sum_list (map g (update_first p f xs)) = sum_list (map g xs) + 1"
  by (induction xs) (auto split: if_splits)

lemma give_one_step:
  assumes "give_one row (es, l) = Inr (es', l')" and "fst row \<in> ppe_address ` set es"
  shows "paid_out es' = paid_out es + min (unat l) 1" and "unat l' = unat l - 1"
    and "list_all2 (topped_up {fst row}) es es'"
proof -
  obtain addr v where row: "row = (addr, v)" by (cases row)
  have "paid_out es' = paid_out es + min (unat l) 1 \<and> unat l' = unat l - 1 \<and> list_all2 (topped_up {addr}) es es'"
  proof (cases "l = 0")
    case True
    then show ?thesis using assms by (simp add: give_one_def row list_all2_topped_up_refl)
  next
    case False
    then have l: "unat (l - 1) = unat l - 1" "0 < unat l"
      by (simp_all add: unat_minus_one unat_gt_0)
    obtain e where e: "find (\<lambda>e. ppe_address e = addr) es = Some e"
      using assms(2) by (cases "find (\<lambda>e. ppe_address e = addr) es") (auto simp: row find_None_iff)
    then have addr: "ppe_address e = addr" by (auto simp: find_Some_iff)
    obtain amount where a: "checked_add (ppe_amount e) 1 = Some amount"
      and es': "es' = update_first (\<lambda>e. ppe_address e = addr) (ppe_amount_update (\<lambda>_. amount)) es" "l' = l - 1"
      using assms(1) False e by (auto simp: give_one_def row result_simps)
    from a have u: "unat amount = unat (ppe_amount e) + 1" by (simp add: checked_add_Some)
    have "paid_out es' = paid_out es + 1"
      unfolding es' by (rule sum_list_update_first [OF e]) (simp add: u)
    moreover have "list_all2 (topped_up {addr}) es es'"
      unfolding es' by (rule list_all2_update_first [OF e]) (simp_all add: topped_up_def u addr)
    ultimately show ?thesis using l es'(2) by simp
  qed
  then show "paid_out es' = paid_out es + min (unat l) 1" "unat l' = unat l - 1"
    "list_all2 (topped_up {fst row}) es es'"
    by (simp_all add: row)
qed

lemma topped_up_address: "list_all2 (topped_up A) es es' \<Longrightarrow> map ppe_address es' = map ppe_address es"
  by (induction rule: list_all2_induct) (simp_all add: topped_up_def)

lemma topped_up_trans:
  "topped_up A e e' \<Longrightarrow> topped_up B e' e'' \<Longrightarrow> A \<inter> B = {} \<Longrightarrow> topped_up (A \<union> B) e e''"
  by (auto simp: topped_up_def)

lemma give_one_fold:
  assumes "fold_r give_one rows (es, l) = Inr (es', l')" and "fst ` set rows \<subseteq> ppe_address ` set es"
  shows "paid_out es' = paid_out es + min (unat l) (length rows) \<and>
    (distinct (map fst rows) \<longrightarrow> list_all2 (topped_up (fst ` set rows)) es es')"
  using assms
proof (induction rows arbitrary: es l)
  case (Cons row rows)
  from Cons.prems(1) obtain es1 l1 where 1: "give_one row (es, l) = Inr (es1, l1)"
    and 2: "fold_r give_one rows (es1, l1) = Inr (es', l')" by (auto simp: result_simps)
  from Cons.prems(2) have "fst row \<in> ppe_address ` set es" by simp
  note step = give_one_step [OF 1 this]
  from topped_up_address [OF step(3)] have "ppe_address ` set es1 = ppe_address ` set es"
    by (metis image_set)
  with Cons.prems(2) have IH: "paid_out es' = paid_out es1 + min (unat l1) (length rows) \<and>
      (distinct (map fst rows) \<longrightarrow> list_all2 (topped_up (fst ` set rows)) es1 es')"
    by (intro Cons.IH [OF 2]) simp
  have "list_all2 (topped_up (fst ` set (row # rows))) es es'" if "distinct (map fst (row # rows))"
  proof -
    from that have "{fst row} \<inter> fst ` set rows = {}" by auto
    then have "topped_up {fst row} e e1 \<Longrightarrow> topped_up (fst ` set rows) e1 e2 \<Longrightarrow> topped_up (fst ` set (row # rows)) e e2"
      for e e1 e2 using topped_up_trans [of "{fst row}" e e1 "fst ` set rows" e2] by simp
    with step(3) IH that show ?thesis by (auto elim: list_all2_trans [rotated 1])
  qed
  then show ?case using IH step(1,2) by auto
qed (simp add: list_all2_topped_up_refl)

lemma sum_list_mset_cong:
  fixes f :: "'a \<Rightarrow> nat"
  assumes "mset xs = mset ys"
  shows "sum_list (map f xs) = sum_list (map f ys)"
proof -
  have "sum_list (map f zs) = sum_mset (image_mset f (mset zs))" for zs
    by (simp flip: sum_mset_sum_list)
  with assms show ?thesis by simp
qed

lemma sum_list_mult_const: "sum_list (map (\<lambda>x. c * f x) xs) = c * sum_list (map f xs)" for c :: nat
  by (induction xs) (simp_all add: distrib_left)

text \<open>The remainders add up to less than one unit per entry.\<close>

lemma leftover_bound:
  fixes rows :: "('a \<times> nat) list"
  assumes "rows \<noteq> []" and "0 < d" and "d = sum_list (map snd rows)"
  shows "sum_list (map (\<lambda>(a, s). m * s div d) rows) \<le> m"
    and "m - sum_list (map (\<lambda>(a, s). m * s div d) rows) \<le> length rows"
proof -
  let ?F = "sum_list (map (\<lambda>(a, s). m * s div d) rows)" and ?R = "sum_list (map (\<lambda>(a, s). m * s mod d) rows)"
  have "d * ?F + ?R = sum_list (map (\<lambda>(a, s). m * s) rows)"
    by (induction rows) (auto simp: distrib_left)
  also have "\<dots> = m * d"
    unfolding assms(3) using sum_list_mult_const [of m snd rows] by (simp add: case_prod_unfold)
  finally have eq: "d * ?F + ?R = d * m" by (simp add: mult.commute)
  then have "d * ?F \<le> d * m" by linarith
  then show "?F \<le> m" using assms(2) by simp
  have "?R \<le> sum_list (map (\<lambda>_. d) rows)"
    by (rule sum_list_mono) (auto simp: assms(2) less_imp_le)
  then have "d * (m - ?F) \<le> d * length rows"
    using eq by (simp add: diff_mult_distrib2 sum_list_triv mult.commute)
  then show "m - ?F \<le> length rows" using assms(2) by simp
qed

definition score_sum :: "(string \<times> u128) list \<Rightarrow> nat" where
  "score_sum rows = sum_list (map (\<lambda>r. unat (snd r)) rows)"

lemma unat_score_sum:
  "score_sum rows < 2 ^ 128 \<Longrightarrow> unat (sum_list (map snd rows)) = score_sum rows"
  by (induction rows) (auto simp: score_sum_def unat_word_ariths)

lemma mset_split_scores: "mset (split_scores scores) = filter_mset (\<lambda>s. snd s > 0) (mset scores)"
  by (simp add: split_scores_def)

lemma score_sum_split: "score_sum (split_scores scores) = score_sum scores"
proof -
  have "score_sum (split_scores scores) = sum_mset (image_mset (\<lambda>r. unat (snd r)) (mset (split_scores scores)))"
    by (simp add: score_sum_def sum_mset_sum_list [symmetric])
  also have "\<dots> = sum_mset (image_mset (\<lambda>r. unat (snd r)) (filter_mset (\<lambda>s. snd s > 0) (mset scores)))"
    by (simp add: mset_split_scores)
  also have "\<dots> = score_sum scores"
    by (induction scores) (auto simp: score_sum_def word_gt_0)
  finally show ?thesis .
qed

lemma unat_ucast_up:
  "LENGTH('a) \<le> LENGTH('b) \<Longrightarrow> unat (ucast (a :: 'a::len word) :: 'b::len word) = unat a"
proof -
  assume "LENGTH('a) \<le> LENGTH('b)"
  then have "(2 :: nat) ^ LENGTH('a) \<le> 2 ^ LENGTH('b)" by (intro power_increasing) simp_all
  then have "unat a < 2 ^ LENGTH('b)" using unat_bound [of a] by linarith
  then show ?thesis by (simp add: unsigned_ucast_eq take_bit_nat_eq_self)
qed

definition split_entry :: "u128 \<Rightarrow> u128 \<Rightarrow> string \<times> u128 \<Rightarrow> pool_payout_entry" where
  "split_entry mt ts r = \<lparr>ppe_address = fst r, ppe_score = snd r, ppe_amount = (mt * snd r) div ts\<rparr>"

lemma split_amount_spec:
  assumes "split_amount amount bps scores = Inr (c, m, es)" and "score_sum scores < 2 ^ 128"
  shows "unat c = unat amount * unat bps div 10000" and "unat c + unat m = unat amount"
    and "paid_out es = unat m"
    and "distinct (map fst scores) \<Longrightarrow> \<exists>es1. mset es = mset es1 \<and>
      list_all2 (topped_up (fst ` set scores))
        (map (split_entry m (sum_list (map snd (split_scores scores)))) (split_scores scores)) es1"
    and "\<forall>r \<in> set (split_scores scores). unat (m * snd r) = unat m * unat (snd r)"
proof -
  let ?rows = "split_scores scores"
  let ?ts = "sum_list (map snd ?rows)"
  have ts: "unat ?ts = score_sum scores"
    using unat_score_sum [of ?rows] assms(2) by (simp add: score_sum_split)
  from assms(1) obtain product f e0 rs l e1 l1 where
    0: "?ts \<noteq> 0" "checked_mul amount (ucast bps) = Some product" "c = product div 10000"
      "checked_sub amount c = Some m" and
    1: "fold_r (split_one m ?ts) ?rows (0, [], []) = Inr (f, e0, rs)" and
    2: "checked_sub m f = Some l" "fold_r give_one (sort_by remainder_order rs) (e0, l) = Inr (e1, l1)"
      "es = sort_by (\<lambda>a b. ppe_address a \<le> ppe_address b) e1"
    by (auto simp: split_amount_def Let_def result_simps)
  have "unat (ucast bps :: u128) = unat bps" by (simp add: unat_ucast_up)
  with 0 show c: "unat c = unat amount * unat bps div 10000" by (simp add: checked_mul_Some unat_div)
  from 0(4) show "unat c + unat m = unat amount" by (auto simp: checked_sub_Some)
  from split_one_fold [OF 1]
  have f: "unat f = sum_list (map (\<lambda>(a, s). unat m * unat s div unat ?ts) ?rows)"
    and e0: "e0 = map (split_entry m ?ts) ?rows"
    and rs: "rs = map (\<lambda>(a, s). (a, (m * s) mod ?ts)) ?rows"
    and mul: "\<forall>(a, s) \<in> set ?rows. unat (m * s) = unat m * unat s"
    by (auto simp: split_entry_def case_prod_unfold)
  from mul show "\<forall>r \<in> set ?rows. unat (m * snd r) = unat m * unat (snd r)" by auto
  have "?rows \<noteq> []" using 0(1) by auto
  moreover have "score_sum ?rows = sum_list (map snd (map (\<lambda>r. (fst r, unat (snd r))) ?rows))"
    by (simp add: score_sum_def o_def)
  moreover have "0 < unat ?ts" using 0(1) by (simp add: unat_gt_0)
  ultimately have "unat m - unat f \<le> length ?rows"
    using leftover_bound(2) [of "map (\<lambda>r. (fst r, unat (snd r))) ?rows" "unat ?ts" "unat m"] ts
    by (simp add: f score_sum_split case_prod_unfold o_def)
  moreover have "unat l = unat m - unat f" "unat f \<le> unat m" using 2(1) by (auto simp: checked_sub_Some)
  ultimately have l: "min (unat l) (length (sort_by remainder_order rs)) = unat m - unat f" by (simp add: rs)
  have addrs: "fst ` set (sort_by remainder_order rs) = ppe_address ` set e0"
    by (simp add: rs e0 split_entry_def image_image case_prod_unfold)
  note give = give_one_fold [OF 2(2), unfolded l addrs, simplified]
  have "paid_out e0 = unat f"
    unfolding f e0 using mul
    by (auto simp: split_entry_def case_prod_unfold unat_div o_def intro!: arg_cong [of _ _ sum_list] map_cong)
  with give \<open>unat f \<le> unat m\<close> have "paid_out e1 = unat m" by simp
  moreover have "paid_out es = paid_out e1"
    unfolding 2(3) by (rule sum_list_mset_cong) simp
  ultimately show "paid_out es = unat m" by simp
  assume d: "distinct (map fst scores)"
  have "image_mset fst (mset (sort_by remainder_order rs)) = image_mset fst (mset ?rows)"
    by (simp add: rs case_prod_unfold o_def image_mset.compositionality)
  moreover have "distinct (map fst ?rows)"
  proof -
    have "distinct (map fst (filter (\<lambda>s. snd s > 0) scores))" using d by (simp add: distinct_map_filter)
    moreover have "mset (map fst ?rows) = mset (map fst (filter (\<lambda>s. snd s > 0) scores))"
      by (simp add: mset_split_scores)
    ultimately show ?thesis using mset_eq_imp_distinct_iff by blast
  qed
  ultimately have "distinct (map fst (sort_by remainder_order rs))"
    by (metis mset_eq_imp_distinct_iff mset_map)
  with give have "list_all2 (topped_up (ppe_address ` set e0)) e0 e1" by blast
  moreover have "ppe_address ` set e0 \<subseteq> fst ` set scores"
    by (force simp: e0 split_entry_def split_scores_def)
  ultimately have "list_all2 (topped_up (fst ` set scores)) e0 e1"
    by (metis list_all2_mono topped_up_mono)
  then have "list_all2 (topped_up (fst ` set scores)) (map (split_entry m ?ts) ?rows) e1" by (simp only: e0)
  then show "\<exists>es1. mset es = mset es1 \<and> list_all2 (topped_up (fst ` set scores)) (map (split_entry m ?ts) ?rows) es1"
    using 2(3) by auto
qed

lemma split_one_ok:
  assumes "unat f + sum_list (map (\<lambda>r. unat mt * unat (snd r) div unat ts) rows) < 2 ^ 128"
    and "\<forall>r \<in> set rows. unat mt * unat (snd r) < 2 ^ 128"
  shows "\<exists>r. fold_r (split_one mt ts) rows (f, es, rs) = Inr r"
  using assms
proof (induction rows arbitrary: f es rs)
  case (Cons row rows)
  obtain a s where row: "row = (a, s)" by (cases row)
  have m: "checked_mul mt s = Some (mt * s)" "unat (mt * s) = unat mt * unat s"
    using Cons.prems(2) by (simp_all add: row checked_mul_def unat_word_ariths)
  then have a: "checked_add f (mt * s div ts) = Some (f + mt * s div ts)"
    "unat (f + mt * s div ts) = unat f + unat mt * unat s div unat ts"
    using Cons.prems(1) by (simp_all add: row checked_add_def unat_word_ariths unat_div)
  then have "unat (f + mt * s div ts) + sum_list (map (\<lambda>r. unat mt * unat (snd r) div unat ts) rows) < 2 ^ 128"
    using Cons.prems(1) by (simp add: row)
  moreover have "split_one mt ts row (f, es, rs) = Inr (f + mt * s div ts,
      es @ [\<lparr>ppe_address = a, ppe_score = s, ppe_amount = mt * s div ts\<rparr>], rs @ [(a, mt * s mod ts)])"
    by (simp add: row split_one_def m(1) a(1) Let_def)
  ultimately show ?case using Cons.IH Cons.prems(2) by simp
qed simp

lemma give_one_ok:
  assumes "paid_out es + unat l < 2 ^ 128"
  shows "\<exists>r. fold_r give_one rows (es, l) = Inr r"
  using assms
proof (induction rows arbitrary: es l)
  case (Cons row rows)
  obtain addr v where row: "row = (addr, v)" by (cases row)
  show ?case
  proof (cases "l = 0 \<or> find (\<lambda>e. ppe_address e = addr) es = None")
    case True
    with Cons show ?thesis by (auto simp: row give_one_def)
  next
    case False
    then obtain e where e: "find (\<lambda>e. ppe_address e = addr) es = Some e" and l: "unat l = Suc (unat (l - 1))"
      by (auto simp: unat_minus_one unat_gt_0 dest: gr0_implies_Suc)
    from e have "e \<in> set es" by (auto simp: find_Some_iff)
    then have "unat (ppe_amount e) \<le> paid_out es" by (rule sum_list_unat_le)
    then have a: "unat (ppe_amount e) + 1 < 2 ^ 128" using Cons.prems l by linarith
    let ?es = "update_first (\<lambda>e. ppe_address e = addr) (ppe_amount_update (\<lambda>_. ppe_amount e + 1)) es"
    have "paid_out ?es = paid_out es + 1"
      by (rule sum_list_update_first [OF e]) (use a in \<open>simp add: unat_word_ariths\<close>)
    then have "paid_out ?es + unat (l - 1) < 2 ^ 128" using Cons.prems l by simp
    from Cons.IH [OF this] e a False show ?thesis by (auto simp: row give_one_def checked_add_def)
  qed
qed simp

lemma split_amount_no_error:
  assumes "unat bps \<le> 10000" and "unat amount * 10000 < 2 ^ 128" and "unat amount * score_sum scores < 2 ^ 128"
    and "score_sum scores < 2 ^ 128" and "score_sum scores \<noteq> 0"
  shows "\<exists>r. split_amount amount bps scores = Inr r"
proof -
  let ?rows = "split_scores scores"
  let ?ts = "sum_list (map snd ?rows)"
  have ts: "unat ?ts = score_sum scores"
    using unat_score_sum [of ?rows] assms(4) by (simp add: score_sum_split)
  then have ts0: "?ts \<noteq> 0" using assms(5) by auto
  have bps: "unat (ucast bps :: u128) = unat bps" by (simp add: unat_ucast_up)
  have "unat amount * unat bps \<le> unat amount * 10000" using assms(1) by simp
  also have "\<dots> < 2 ^ LENGTH(128)" using assms(2) by simp
  finally have product: "checked_mul amount (ucast bps) = Some (amount * ucast bps)"
    "unat (amount * ucast bps) = unat amount * unat bps"
    by (simp_all add: checked_mul_def bps unat_word_ariths)
  define c where "c = amount * ucast bps div 10000"
  have "unat c = unat amount * unat bps div 10000" by (simp add: c_def unat_div product(2))
  also have "\<dots> \<le> unat amount * 10000 div 10000" using assms(1) by (intro div_le_mono) simp
  finally have c: "unat c \<le> unat amount" by simp
  define m where "m = amount - c"
  have m: "checked_sub amount c = Some m" "unat m \<le> unat amount"
    using c by (simp_all add: checked_sub_def m_def unat_sub word_le_nat_alt)
  have "?rows \<noteq> []" using ts0 by auto
  moreover have "score_sum ?rows = sum_list (map snd (map (\<lambda>r. (fst r, unat (snd r))) ?rows))"
    by (simp add: score_sum_def o_def)
  moreover have "0 < unat ?ts" using ts0 by (simp add: unat_gt_0)
  ultimately have floors: "sum_list (map (\<lambda>r. unat m * unat (snd r) div unat ?ts) ?rows) \<le> unat m"
    using leftover_bound(1) [of "map (\<lambda>r. (fst r, unat (snd r))) ?rows" "unat ?ts" "unat m"] ts
    by (simp add: score_sum_split case_prod_unfold o_def)
  have "unat m * unat (snd r) < 2 ^ 128" if "r \<in> set ?rows" for r
  proof -
    from that have "unat (snd r) \<le> score_sum ?rows" unfolding score_sum_def by (rule sum_list_unat_le)
    then have "unat m * unat (snd r) \<le> unat amount * score_sum scores"
      using m(2) by (intro mult_le_mono) (simp_all add: score_sum_split)
    then show ?thesis using assms(3) by simp
  qed
  moreover have "unat m < 2 ^ 128" using unat_bound [of m] by simp
  ultimately obtain f e0 rs where 1: "fold_r (split_one m ?ts) ?rows (0, [], []) = Inr (f, e0, rs)"
    using split_one_ok [of 0 m ?ts ?rows "[]" "[]"] floors by fastforce
  from split_one_fold [OF 1]
  have f: "unat f = sum_list (map (\<lambda>(a, s). unat m * unat s div unat ?ts) ?rows)"
    and e0: "e0 = map (split_entry m ?ts) ?rows"
    and mul: "\<forall>(a, s) \<in> set ?rows. unat (m * s) = unat m * unat s"
    by (auto simp: split_entry_def case_prod_unfold)
  have "paid_out e0 = unat f"
    unfolding f e0 using mul
    by (auto simp: split_entry_def case_prod_unfold unat_div o_def intro!: arg_cong [of _ _ sum_list] map_cong)
  moreover have "unat f \<le> unat m" using floors f by (simp add: case_prod_unfold)
  ultimately have l: "checked_sub m f = Some (m - f)" "paid_out e0 + unat (m - f) < 2 ^ 128"
    using \<open>unat m < 2 ^ 128\<close> by (simp_all add: checked_sub_def unat_sub word_le_nat_alt)
  from give_one_ok [OF l(2), of "sort_by remainder_order rs"] show ?thesis
    using ts0 product(1) m(1) 1 l(1) by (auto simp: split_amount_def Let_def c_def [symmetric])
qed

text \<open>
  A pool payout is exact and fair. The commission is the rounded-down part of the amount, and
  the commission and the entries together are the amount to the last unit. Every address with a
  score gets one entry, and each entry is the rounded-down proportional share of what the commission
  leaves, or one unit more.
\<close>

theorem split_amount_exact:
  assumes "split_amount amount bps scores = Inr (c, m, es)"
    and "distinct (map fst scores)" and "score_sum scores < 2 ^ 128"
  shows "unat c = unat amount * unat bps div 10000 \<and>
    unat c + sum_list (map (\<lambda>e. unat (ppe_amount e)) es) = unat amount \<and>
    image_mset (\<lambda>e. (ppe_address e, ppe_score e)) (mset es) = filter_mset (\<lambda>s. snd s > 0) (mset scores) \<and>
    (\<forall>e \<in> set es. unat (ppe_amount e) - unat m * unat (ppe_score e) div score_sum scores \<in> {0, 1} \<and>
      unat m * unat (ppe_score e) div score_sum scores \<le> unat (ppe_amount e))"
proof -
  let ?rows = "split_scores scores"
  let ?ts = "sum_list (map snd ?rows)"
  have ts: "unat ?ts = score_sum scores"
    using unat_score_sum [of ?rows] assms(3) by (simp add: score_sum_split)
  note spec = split_amount_spec [OF assms(1,3)]
  obtain es1 where es1: "mset es = mset es1" and
    all: "list_all2 (topped_up (fst ` set scores)) (map (split_entry m ?ts) ?rows) es1"
    using spec(4) [OF assms(2)] by blast
  have "image_mset (\<lambda>e. (ppe_address e, ppe_score e)) (mset es) = mset (map (\<lambda>e. (ppe_address e, ppe_score e)) es1)"
    by (simp add: es1)
  also have "map (\<lambda>e. (ppe_address e, ppe_score e)) es1 = ?rows"
    using all by (auto simp: list_all2_conv_all_nth topped_up_def split_entry_def intro!: nth_equalityI)
  finally have 1: "image_mset (\<lambda>e. (ppe_address e, ppe_score e)) (mset es) = filter_mset (\<lambda>s. snd s > 0) (mset scores)"
    by (simp add: mset_split_scores)
  have "unat (ppe_amount e) - unat m * unat (ppe_score e) div score_sum scores \<in> {0, 1} \<and>
      unat m * unat (ppe_score e) div score_sum scores \<le> unat (ppe_amount e)" if e: "e \<in> set es" for e
  proof -
    from e es1 have "e \<in> set es1" by (metis set_mset_mset)
    then obtain i where i: "i < length es1" "e = es1 ! i" by (auto simp: in_set_conv_nth)
    define r where "r = ?rows ! i"
    have r: "r \<in> set ?rows" "topped_up (fst ` set scores) (split_entry m ?ts r) e"
      using all i by (auto simp: list_all2_conv_all_nth r_def)
    then have "unat (ppe_amount (split_entry m ?ts r)) = unat m * unat (snd r) div score_sum scores"
      using spec(5) by (simp add: split_entry_def unat_div ts)
    with r(2) show ?thesis by (auto simp: topped_up_def split_entry_def)
  qed
  with 1 spec(1,2,3) show ?thesis by simp
qed

lemma split_amount_exact_witness:
  "\<exists>c m es. split_amount 100 500 [(''b'', 2), (''a'', 1)] = Inr (c, m, es) \<and> unat c = 5 \<and>
    unat c + sum_list (map (\<lambda>e. unat (ppe_amount e)) es) = 100"
proof -
  have "score_sum [(''b'', 2), (''a'', 1)] = 3" by (simp add: score_sum_def)
  then obtain c m es where r: "split_amount 100 500 [(''b'', 2), (''a'', 1)] = Inr (c, m, es)"
    using split_amount_no_error [of 500 100 "[(''b'', 2), (''a'', 1)]"] by auto
  with split_amount_exact [OF r] \<open>score_sum _ = 3\<close> show ?thesis by simp
qed

text \<open>
  The only way a payout fails is that the pool has no shares. For a commission of at most one
  hundred percent and amounts far below the width of the integers, the split reports an error
  exactly when no address has a score, and then it is that error.
\<close>

theorem split_amount_fails_without_shares:
  assumes "unat bps \<le> 10000" and "unat amount * 10000 < 2 ^ 128" and "unat amount * score_sum scores < 2 ^ 128"
    and "score_sum scores < 2 ^ 128"
  shows "split_amount amount bps scores = Inl e \<longleftrightarrow> score_sum scores = 0 \<and> e = PoolErr PoolNoShares"
proof (cases "score_sum scores = 0")
  case True
  then have "unat (sum_list (map snd (split_scores scores))) = 0"
    using unat_score_sum [of "split_scores scores"] assms(4) by (simp add: score_sum_split)
  then have "sum_list (map snd (split_scores scores)) = 0" by (simp add: unat_eq_0)
  with True show ?thesis by (auto simp: split_amount_def)
next
  case False
  from split_amount_no_error [OF assms False] False show ?thesis by auto
qed

lemma split_amount_fails_without_shares_witness:
  "split_amount 100 500 [(''a'', 0)] = Inl (PoolErr PoolNoShares)"
  using split_amount_fails_without_shares [of 500 100 "[(''a'', 0)]" "PoolErr PoolNoShares"]
  by (simp add: score_sum_def)

section \<open>Coinbase and fee receivers\<close>

lemma sorted_list_of_fset_fmdom:
  "set (sorted_list_of_fset (fmdom m)) = fmdom' m" "distinct (sorted_list_of_fset (fmdom m))"
  by (simp_all add: fmdom'_alt_def sorted_list_of_fset.rep_eq)

lemma distinct_sorted_list_of_fmap: "distinct (map fst (sorted_list_of_fmap m))"
  by (simp add: sorted_list_of_fmap_def o_def sorted_list_of_fset_fmdom(2))

lemma sum_sorted_list_of_fmap: "sum_list (map (\<lambda>r. f (snd r)) (sorted_list_of_fmap m)) = fm_total f m"
proof -
  have "sum_list (map (\<lambda>r. f (snd r)) (sorted_list_of_fmap m)) =
      sum_list (map (\<lambda>k. f (the (fmlookup m k))) (sorted_list_of_fset (fmdom m)))"
    by (simp add: sorted_list_of_fmap_def o_def)
  also have "\<dots> = fm_total f m"
    by (simp add: fm_total_def sum_list_distinct_conv_sum_set sorted_list_of_fset_fmdom fmdom'_alt_def)
  finally show ?thesis .
qed

lemma score_sum_fmap: "score_sum (sorted_list_of_fmap m) = fm_total unat m"
  unfolding score_sum_def by (rule sum_sorted_list_of_fmap)

definition tx_count :: "block list \<Rightarrow> nat" where
  "tx_count bs = sum_list (map (\<lambda>b. length (blk_transactions b)) bs)"

lemma score_tx_total: "fm_total unat (score_tx X i tx m) \<le> fm_total unat m + 1"
proof -
  have "fm_total unat (fmupd a (get_or0 m a + 1) m) \<le> fm_total unat m + 1" for a
  proof -
    have "unat (get_or0 m a + 1) \<le> unat (get_or0 m a) + 1" by (simp add: unat_word_ariths)
    with fm_total_upd0 [of unat a "get_or0 m a + 1" m] show ?thesis by simp
  qed
  then show ?thesis by (auto simp: score_tx_def split: option.splits)
qed

lemma score_txs_total: "fm_total unat (fold (score_tx X i) txs m) \<le> fm_total unat m + length txs"
proof (induction txs arbitrary: m)
  case (Cons tx txs)
  from Cons.IH [of "score_tx X i tx m"] score_tx_total [of X i tx m] show ?case by simp
qed simp

lemma score_blocks_total:
  "fm_total unat (fold (score_block X i h) hbs m) \<le> fm_total unat m + tx_count (map snd hbs)"
proof (induction hbs arbitrary: m)
  case (Cons hb hbs)
  obtain n b where hb: "hb = (n, b)" by (cases hb)
  have "fm_total unat (score_block X i h hb m) \<le> fm_total unat m + length (blk_transactions b)"
    using score_txs_total [of X i "drop 1 (blk_transactions b)" m] by (auto simp: score_block_def hb)
  with Cons.IH [of "score_block X i h hb m"] show ?case by (simp add: hb tx_count_def)
qed (simp add: tx_count_def)

lemma sum_list_drop_le: "sum_list (drop n (xs :: nat list)) \<le> sum_list xs"
  by (metis append_take_drop_id le_add2 sum_list_append)

lemma sum_list_take_le: "sum_list (take n (xs :: nat list)) \<le> sum_list xs"
  by (metis append_take_drop_id le_add1 sum_list_append)

lemma pool_scores_total:
  "score_sum (sorted_list_of_fmap (pool_share_scores_from_blocks X S bs h i)) \<le> tx_count bs"
proof -
  have "tx_count (map snd (drop a (take b (enumerate 0 bs)))) \<le> tx_count bs" for a b
  proof -
    have "map snd (drop a (take b (enumerate 0 bs))) = drop a (take b bs)"
      by (simp add: drop_map [symmetric] take_map [symmetric])
    then have "tx_count (map snd (drop a (take b (enumerate 0 bs)))) =
        sum_list (drop a (take b (map (\<lambda>b. length (blk_transactions b)) bs)))"
      by (simp add: tx_count_def drop_map take_map)
    also have "\<dots> \<le> tx_count bs"
      using sum_list_drop_le sum_list_take_le by (simp add: tx_count_def) (meson order_trans)
    finally show ?thesis .
  qed
  then show ?thesis
    using score_blocks_total [of X i h _ fmempty]
    by (simp add: score_sum_fmap pool_share_scores_from_blocks_def Let_def) (meson order_trans)
qed

lemma pool_plan_exact:
  assumes "pool_payout_plan X S bs i amount = Inr plan" and "tx_count bs < 2 ^ 128"
  shows "unat (ppp_commission_amount plan) + paid_out (ppp_entries plan) = unat amount"
proof -
  let ?scores = "sorted_list_of_fmap (pool_share_scores_from_blocks X S bs (of_nat (length bs)) i)"
  from assms(1) obtain bps c m es where "split_amount amount bps ?scores = Inr (c, m, es)"
    and plan: "ppp_commission_amount plan = c" "ppp_entries plan = es"
    by (auto simp: pool_payout_plan_def Let_def result_simps)
  moreover have "score_sum ?scores < 2 ^ 128"
    using pool_scores_total [of X S bs _ i] assms(2) by (meson le_less_trans)
  ultimately show ?thesis using split_amount_spec(2,3) by metis
qed

lemma payout_output_value:
  assumes "payout_output X S addr amount = Inr out" and "unat amount < 2 ^ 64"
  shows "unat (out_value out) = unat amount"
  using assms by (auto simp: payout_output_def result_simps amount_from_atoms_def unsigned_ucast_eq take_bit_nat_eq_self)

abbreviation out_total :: "tx_out list \<Rightarrow> nat" where
  "out_total outs \<equiv> sum_list (map (\<lambda>out. unat (out_value out)) outs)"

lemma push_entries_total:
  assumes "fold_r (push_entry X S) es outs = Inr outs'" and "\<forall>e \<in> set es. unat (ppe_amount e) < 2 ^ 64"
  shows "out_total outs' = out_total outs + paid_out es \<and>
    ((\<forall>out \<in> set outs. 0 < out_value out) \<longrightarrow> (\<forall>out \<in> set outs'. 0 < out_value out))"
  using assms
proof (induction es arbitrary: outs)
  case (Cons e es)
  from Cons.prems(1) obtain outs1 where 1: "push_entry X S e outs = Inr outs1"
    and 2: "fold_r (push_entry X S) es outs1 = Inr outs'" by (auto simp: result_simps)
  have "out_total outs1 = out_total outs + unat (ppe_amount e) \<and>
      ((\<forall>out \<in> set outs. 0 < out_value out) \<longrightarrow> (\<forall>out \<in> set outs1. 0 < out_value out))"
  proof (cases "ppe_amount e = 0")
    case True
    with 1 show ?thesis by (simp add: push_entry_def)
  next
    case False
    with 1 obtain out where out: "payout_output X S (ppe_address e) (ppe_amount e) = Inr out" "outs1 = outs @ [out]"
      by (auto simp: push_entry_def result_simps)
    moreover have "unat (ppe_amount e) < 2 ^ 64" using Cons.prems(2) by simp
    note v = payout_output_value [OF out(1) this]
    moreover have "0 < out_value out" using v False by (simp add: word_less_nat_alt unat_gt_0)
    ultimately show ?thesis by auto
  qed
  with Cons.IH [OF 2] Cons.prems(2) show ?case by auto
qed simp

lemma expected_outputs_exact:
  assumes "expected_pool_coinbase_outputs X S bs i reward = Inr outs" and "tx_count bs < 2 ^ 128"
  shows "sum_list (map (\<lambda>out. unat (out_value out)) outs) = unat reward \<and> outs \<noteq> [] \<and>
    (\<forall>out \<in> set outs. 0 < out_value out)"
proof -
  from assms(1) obtain plan outs0 where "reward \<le> 0xFFFFFFFFFFFFFFFF"
    and plan: "pool_payout_plan X S bs i reward = Inr plan"
    and 0: "(if ppp_commission_amount plan > 0
        then rbind (payout_output X S (ppp_manager_address plan) (ppp_commission_amount plan)) (\<lambda>out. Inr [out])
        else Inr []) = Inr outs0"
    and 1: "fold_r (push_entry X S) (ppp_entries plan) outs0 = Inr outs" and "outs \<noteq> []"
    by (auto simp: expected_pool_coinbase_outputs_def result_simps not_less split del: if_split)
  from pool_plan_exact [OF plan assms(2)]
  have total: "unat (ppp_commission_amount plan) + paid_out (ppp_entries plan) = unat reward" .
  moreover have "unat reward < 2 ^ 64" using \<open>reward \<le> _\<close> by (simp add: word_le_nat_alt)
  ultimately have small: "unat (ppp_commission_amount plan) < 2 ^ 64" "paid_out (ppp_entries plan) < 2 ^ 64"
    by linarith+
  then have "\<forall>e \<in> set (ppp_entries plan). unat (ppe_amount e) < 2 ^ 64"
    using sum_list_unat_le [of _ "ppp_entries plan" "\<lambda>e. unat (ppe_amount e)"] by (meson le_less_trans)
  note entries = push_entries_total [OF 1 this]
  have "out_total outs0 = unat (ppp_commission_amount plan) \<and> (\<forall>out \<in> set outs0. 0 < out_value out)"
  proof (cases "ppp_commission_amount plan > 0")
    case True
    with 0 obtain out where out: "payout_output X S (ppp_manager_address plan) (ppp_commission_amount plan) = Inr out"
      "outs0 = [out]" by (auto simp: result_simps)
    then show ?thesis using payout_output_value [OF out(1) small(1)] True
      by (simp add: word_less_nat_alt)
  next
    case False
    with 0 show ?thesis by (simp add: word_gt_0)
  qed
  with entries total \<open>outs \<noteq> []\<close> show ?thesis by simp
qed

text \<open>
  C34: The coinbase a pool block must have pays out the whole reward: when the outputs can be
  computed, their values add up to the reward exactly, and none of them is empty.
\<close>

theorem pool_coinbase_exact:
  assumes "expected_pool_coinbase_outputs X S bs i reward = Inr outs" and "tx_count bs < 2 ^ 128"
  shows "sum_list (map (\<lambda>out. unat (out_value out)) outs) = unat reward \<and> outs \<noteq> [] \<and>
    (\<forall>out \<in> set outs. 0 < out_value out)"
  using assms by (rule expected_outputs_exact)

lemma merge_fold_total:
  fixes m :: "(string, u128) fmap"
  assumes "fm_total unat m + sum_list (map (\<lambda>r. unat (snd r)) rows) < 2 ^ 128"
  shows "fm_total unat (fold (\<lambda>(addr, amount) m. fmupd addr (get_or0 m addr + amount) m) rows m) =
    fm_total unat m + sum_list (map (\<lambda>r. unat (snd r)) rows)"
  using assms
proof (induction rows arbitrary: m)
  case (Cons row rows)
  obtain a v where row: "row = (a, v)" by (cases row)
  have "unat (get_or0 m a) \<le> fm_total unat m" by (rule fm_total_ge0) simp
  then have "unat (get_or0 m a + v) = unat (get_or0 m a) + unat v"
    using Cons.prems by (simp add: row unat_word_ariths)
  then have t: "fm_total unat (fmupd a (get_or0 m a + v) m) = fm_total unat m + unat v"
    using fm_total_upd0 [of unat a "get_or0 m a + v" m] by simp
  then have "fm_total unat (fmupd a (get_or0 m a + v) m) + sum_list (map (\<lambda>r. unat (snd r)) rows) < 2 ^ 128"
    using Cons.prems by (simp add: row)
  from Cons.IH [OF this] t show ?case by (simp add: row)
qed simp

lemma merge_amounts_spec:
  assumes "sum_list (map (\<lambda>r. unat (snd r)) rows) < 2 ^ 128"
  shows "sum_list (map (\<lambda>r. unat (snd r)) (merge_amounts rows)) = sum_list (map (\<lambda>r. unat (snd r)) rows)"
    and "distinct (map fst (merge_amounts rows))"
proof -
  let ?m = "fold (\<lambda>(addr, amount) m. fmupd addr (get_or0 m addr + amount) m) rows fmempty"
  have m: "mset (merge_amounts rows) = mset (sorted_list_of_fmap ?m)"
    by (simp add: merge_amounts_def)
  have "sum_list (map (\<lambda>r. unat (snd r)) (merge_amounts rows)) = sum_list (map (\<lambda>r. unat (snd r)) (sorted_list_of_fmap ?m))"
    by (rule sum_list_mset_cong [OF m])
  also have "\<dots> = fm_total unat ?m" by (rule sum_sorted_list_of_fmap)
  finally show "sum_list (map (\<lambda>r. unat (snd r)) (merge_amounts rows)) = sum_list (map (\<lambda>r. unat (snd r)) rows)"
    using merge_fold_total [of fmempty rows] assms by simp
  from m have "mset (map fst (merge_amounts rows)) = mset (map fst (sorted_list_of_fmap ?m))" by simp
  then show "distinct (map fst (merge_amounts rows))"
    using distinct_sorted_list_of_fmap mset_eq_imp_distinct_iff by blast
qed

lemma plan_receivers_total:
  "sum_list (map (\<lambda>r. unat (snd r)) (plan_receivers plan)) =
    unat (ppp_commission_amount plan) + paid_out (ppp_entries plan)"
proof -
  have "sum_list (map (\<lambda>e. unat (ppe_amount e)) (filter (\<lambda>e. ppe_amount e > 0) es)) = paid_out es" for es
    by (induction es) (auto simp: word_gt_0)
  then show ?thesis by (auto simp: plan_receivers_def o_def word_gt_0)
qed

lemma jin_fee_receivers_exact:
  assumes "jin_fee_receivers_for_block X S bs b fees = Inr rows" and "tx_count bs < 2 ^ 128"
  shows "distinct (map fst rows) \<and>
    (rows = [] \<and> (fees = 0 \<or> parse_pool_block_marker X b = None) \<or> sum_list (map (\<lambda>r. unat (snd r)) rows) = unat fees)"
proof (cases "fees = 0 \<or> parse_pool_block_marker X b = None")
  case True
  with assms(1) show ?thesis
    by (auto simp: jin_fee_receivers_for_block_def split: list.splits option.splits if_splits)
next
  case False
  then obtain i where i: "parse_pool_block_marker X b = Some i" by auto
  with assms(1) False obtain plan where plan: "pool_payout_plan X S bs i fees = Inr plan"
    and rows: "rows = merge_amounts (plan_receivers plan)"
    by (auto simp: jin_fee_receivers_for_block_def result_simps)
  from pool_plan_exact [OF plan assms(2)]
  have "sum_list (map (\<lambda>r. unat (snd r)) (plan_receivers plan)) = unat fees"
    by (simp add: plan_receivers_total)
  with merge_amounts_spec [of "plan_receivers plan"] unat_bound [of fees] show ?thesis by (simp add: rows)
qed

text \<open>
  JIN fees are handed out in full: when the receivers of a block's fees are known, either there
  is no receiver, because there are no fees or the coinbase of a block without a pool pays no
  address, or the amounts add up to the fees exactly and no address is listed twice.
\<close>

theorem jin_fees_handed_out:
  assumes "jin_fee_receivers_for_block X S bs b fees = Inr rows" and "tx_count bs < 2 ^ 128"
  shows "distinct (map fst rows) \<and>
    (rows = [] \<and> (fees = 0 \<or> parse_pool_block_marker X b = None) \<or> sum_list (map (\<lambda>r. unat (snd r)) rows) = unat fees)"
  using assms by (rule jin_fee_receivers_exact)

end
