(* ===== verification/PoolBlocks.thy ===== *)
theory PoolBlocks
  imports PoolWindow PoolPayout
begin

text \<open>
  How \<open>src/pools.rs\<close> checks the pool data of a transaction against the chain
  (\<open>validate_pools_transaction_against_chain\<close>) and of a block (\<open>validate_pools_block\<close>), and what a
  chain of checked blocks guarantees: the lemmas describe the share window by the shares of the
  blocks it covers, and what the check of one block says of the shares in it.
\<close>

definition validate_pools_transaction_against_chain ::
  "extern \<Rightarrow> settings \<Rightarrow> transaction \<Rightarrow> chain_state \<Rightarrow> u32 \<Rightarrow> unit result" where
  "validate_pools_transaction_against_chain X S tx chain spend_height =
     (if \<not> pool_action_count X tx S > 0 \<and> \<not> is_pool_share_transaction tx then Inr () else
      rbind (pool_context_from_confirmed X S (cs_blocks chain) spend_height) (\<lambda>ctx.
      let ctx = absorb_mempool_shares X S (cs_blocks chain) (cs_mempool chain) spend_height (Some (txid X tx)) ctx in
      rbind (validate_tx_contextual X tx (cs_utxos chain) spend_height S True) (\<lambda>fee.
      fst (pool_validate_and_apply X S tx (cs_blocks chain) (cs_utxos chain) spend_height fee ctx))))"

definition validate_pools_tx ::
  "extern \<Rightarrow> settings \<Rightarrow> block list \<Rightarrow> u32 \<Rightarrow> transaction \<Rightarrow> pool_context \<times> utxo_map \<times> u128 \<Rightarrow>
    (pool_context \<times> utxo_map \<times> u128) result" where
  "validate_pools_tx X S prior_blocks height tx st = (case st of (ctx, utxos, fees) \<Rightarrow>
     rbind (validate_tx_contextual X tx utxos height S True) (\<lambda>fee.
     rbind (se_run (pool_validate_and_apply X S tx prior_blocks utxos height fee) ctx) (\<lambda>ctx.
     rbind (if \<not> is_pool_share_transaction tx then connect_tx_utxos X tx height False utxos else Inr utxos) (\<lambda>utxos.
     rbind (ok_or (PoolErr PoolFeeOverflow) (checked_add fees (ucast fee))) (\<lambda>fees.
     Inr (ctx, utxos, fees))))))"

definition validate_pool_coinbase ::
  "extern \<Rightarrow> settings \<Rightarrow> block \<Rightarrow> block list \<Rightarrow> u32 \<Rightarrow> u128 \<Rightarrow> unit result" where
  "validate_pool_coinbase X S b prior_blocks height fees =
     (case parse_pool_block_marker X b of
        None \<Rightarrow> Inr ()
      | Some pool_id \<Rightarrow>
          let total_reward = ucast (block_subsidy (ucast height) S) + fees in
          rbind (expected_pool_coinbase_outputs X S prior_blocks pool_id total_reward) (\<lambda>expected.
          case blk_transactions b of
            [] \<Rightarrow> Inl (BlockErr MissingCoinbase)
          | coinbase # _ \<Rightarrow>
              if tx_outputs coinbase \<noteq> expected then Inl (PoolErr PoolPayoutMismatch) else Inr ()))"

definition validate_pools_block ::
  "extern \<Rightarrow> settings \<Rightarrow> block \<Rightarrow> block list \<Rightarrow> utxo_map \<Rightarrow> u32 \<Rightarrow> unit result" where
  "validate_pools_block X S b prior_blocks base_utxos height =
     (let txs = drop 1 (blk_transactions b) in
      if parse_pool_block_marker X b = None \<and>
        \<not> list_ex (\<lambda>tx. is_pool_share_transaction tx \<or> pool_action_count X tx S > 0) txs then Inr ()
      else if \<not> pools_enabled S then Inl (PoolErr PoolDisabled)
      else if \<not> pools_active S height then Inl (PoolErr PoolInactive)
      else if length (filter is_pool_share_transaction txs) > unat (ps_max_share_txs_per_block (pools S))
      then Inl (PoolErr PoolTooManyShares) else
      rbind (pool_context_from_confirmed X S prior_blocks height) (\<lambda>ctx.
      rbind (fold_r (validate_pools_tx X S prior_blocks height) txs (ctx, base_utxos, 0)) (\<lambda>(_, _, fees).
      validate_pool_coinbase X S b prior_blocks height fees)))"

section \<open>The shares of a block\<close>

definition shares_in :: "extern \<Rightarrow> transaction list \<Rightarrow> pool_share list" where
  "shares_in X txs = List.map_filter (parse_pool_share_tx X) txs"

definition block_shares :: "extern \<Rightarrow> block \<Rightarrow> pool_share list" where
  "block_shares X b = shares_in X (drop 1 (blk_transactions b))"

lemma shares_in_simps [simp]:
  "shares_in X [] = []"
  "shares_in X (tx # txs) = (case parse_pool_share_tx X tx of None \<Rightarrow> shares_in X txs | Some sh \<Rightarrow> sh # shares_in X txs)"
  by (simp_all add: shares_in_def List.map_filter_def split: option.splits)

lemma parse_share_kind: "parse_pool_share_tx X tx = Some sh \<Longrightarrow> is_pool_share_transaction tx"
  by (simp add: parse_pool_share_tx_def split: if_splits)

section \<open>What the window holds\<close>

lemma add_active_by_miner:
  "fmlookup (pw_pool_by_miner (add_active_unchecked sh w)) m =
    (if m = psh_miner_address sh \<and> fmlookup (pw_pool_by_miner w) m = None then Some (psh_pool_id sh)
     else fmlookup (pw_pool_by_miner w) m)"
  by (auto simp: add_active_unchecked_def)

lemma add_window_simps [simp]:
  "pw_seen_keys (add_active_unchecked sh w) = pw_seen_keys w"
  "pw_pool_by_miner (add_seen_key X sh w) = pw_pool_by_miner w"
  "pw_seen_keys (add_seen_key X sh w) = finsert (pool_share_key X sh) (pw_seen_keys w)"
  by (simp_all add: add_active_unchecked_def add_seen_key_def)

text \<open>The scan as a fold over the shares it meets, each with the height of its block.\<close>

definition record_share :: "extern \<Rightarrow> u32 \<Rightarrow> u32 \<Rightarrow> u32 \<times> pool_share \<Rightarrow> pool_window \<Rightarrow> pool_window" where
  "record_share X d a hs w = (case hs of (h, sh) \<Rightarrow>
     let w = (if h \<ge> d then add_seen_key X sh w else w) in
     if h \<ge> a then add_active_unchecked sh w else w)"

definition shares_at :: "extern \<Rightarrow> nat \<times> block \<Rightarrow> (u32 \<times> pool_share) list" where
  "shares_at X nb = map (Pair (of_nat (fst nb))) (block_shares X (snd nb))"

lemma record_txs: "fold (window_record_tx X d a h) txs = fold (record_share X d a) (map (Pair h) (shares_in X txs))"
proof (induction txs)
  case (Cons tx txs)
  have "window_record_tx X d a h tx = (case parse_pool_share_tx X tx of None \<Rightarrow> id | Some sh \<Rightarrow> record_share X d a (h, sh))"
    by (auto simp: window_record_tx_def record_share_def fun_eq_iff split: option.splits)
  with Cons show ?case by (simp split: option.splits)
qed simp

lemma record_blocks:
  "fold (\<lambda>(n, b). fold (window_record_tx X d a (of_nat n)) (drop 1 (blk_transactions b))) nbs =
    fold (record_share X d a) (concat (map (shares_at X) nbs))"
  by (induction nbs) (auto simp: record_txs shares_at_def block_shares_def)

lemma record_seen:
  "pw_seen_keys (fold (record_share X d a) hss w) =
    pw_seen_keys w |\<union>| fset_of_list (map (\<lambda>hs. pool_share_key X (snd hs)) (filter (\<lambda>hs. fst hs \<ge> d) hss))"
proof (induction hss arbitrary: w)
  case (Cons hs hss)
  have "pw_seen_keys (record_share X d a hs w) =
      (if fst hs \<ge> d then finsert (pool_share_key X (snd hs)) (pw_seen_keys w) else pw_seen_keys w)"
    by (cases hs) (simp add: record_share_def Let_def)
  with Cons show ?case by auto
qed simp

lemma record_miner:
  "fmlookup (pw_pool_by_miner (fold (record_share X d a) hss w)) m =
    (case fmlookup (pw_pool_by_miner w) m of Some p \<Rightarrow> Some p
     | None \<Rightarrow> map_option (\<lambda>hs. psh_pool_id (snd hs)) (find (\<lambda>hs. fst hs \<ge> a \<and> psh_miner_address (snd hs) = m) hss))"
proof (induction hss arbitrary: w)
  case (Cons hs hss)
  have "fmlookup (pw_pool_by_miner (record_share X d a hs w)) m =
      (if fst hs \<ge> a \<and> psh_miner_address (snd hs) = m \<and> fmlookup (pw_pool_by_miner w) m = None
       then Some (psh_pool_id (snd hs)) else fmlookup (pw_pool_by_miner w) m)"
    by (cases hs) (auto simp: record_share_def Let_def add_active_by_miner)
  with Cons show ?case by (auto split: option.splits)
qed (simp split: option.splits)

text \<open>For a chain below the spend height the scan starts where a share can still matter.\<close>

definition window_start :: "u32 \<Rightarrow> u32 \<Rightarrow> nat" where
  "window_start h width = max 1 (unat h - unat width)"

lemma in_scan:
  "(n, b) \<in> set (drop s (enumerate 0 bs)) \<longleftrightarrow> s \<le> n \<and> n < length bs \<and> b = bs ! n"
proof -
  have "drop s (enumerate 0 bs) = enumerate s (drop s bs)"
    by (cases "s \<le> length bs") (auto intro!: nth_equalityI simp: nth_enumerate_eq)
  then show ?thesis by (cases "s \<le> length bs") (auto simp: in_set_enumerate_eq)
qed

definition scanned_shares :: "extern \<Rightarrow> settings \<Rightarrow> block list \<Rightarrow> u32 \<Rightarrow> (u32 \<times> pool_share) list" where
  "scanned_shares X S bs h = concat (map (shares_at X) (drop (unat (max (min
     (sat_sub h (ps_share_window_blocks (pools S))) (sat_sub h (ps_share_stale_blocks (pools S)))) 1))
     (take (min (unat h) (length bs)) (enumerate 0 bs))))"

lemma in_scanned:
  assumes "length bs = unat h"
  shows "(k, sh) \<in> set (scanned_shares X S bs h) \<longleftrightarrow> (\<exists>n. k = of_nat n \<and> n < length bs \<and>
    min (window_start h (ps_share_window_blocks (pools S))) (window_start h (ps_share_stale_blocks (pools S))) \<le> n \<and>
    sh \<in> set (block_shares X (bs ! n)))"
proof -
  let ?s = "min (window_start h (ps_share_window_blocks (pools S))) (window_start h (ps_share_stale_blocks (pools S)))"
  have "unat (max (min (sat_sub h (ps_share_window_blocks (pools S))) (sat_sub h (ps_share_stale_blocks (pools S)))) 1) = ?s"
    unfolding unat_max_word unat_min_word unat_sat_sub window_start_def by (simp add: min_def max_def)
  then have "scanned_shares X S bs h = concat (map (shares_at X) (drop ?s (enumerate 0 bs)))"
    using assms by (simp add: scanned_shares_def)
  then have "(k, sh) \<in> set (scanned_shares X S bs h) \<longleftrightarrow>
      (\<exists>n b. (n, b) \<in> set (drop ?s (enumerate 0 bs)) \<and> k = of_nat n \<and> sh \<in> set (block_shares X b))"
    by (simp only:) (simp add: shares_at_def image_iff Bex_def, blast)
  then show ?thesis unfolding in_scan by blast
qed

text \<open>What the window of a chain says: the keys that count as seen and the pool of each miner.\<close>

lemma window_seen:
  assumes "length bs = unat h" and "window_start h (ps_share_stale_blocks (pools S)) \<le> n" and "n < length bs"
    and "sh \<in> set (block_shares X (bs ! n))"
  shows "pool_share_key X sh |\<in>| pw_seen_keys (pool_window_from_blocks X S bs h)"
proof -
  have "(of_nat n, sh) \<in> set (scanned_shares X S bs h)"
    using assms by (auto simp: in_scanned)
  moreover have "n < 2 ^ 32" using assms(1,3) unat_bound [of h] by simp
  then have "of_nat n \<ge> sat_sub h (ps_share_stale_blocks (pools S))"
    using assms(2) by (simp add: word_le_nat_alt unat_of_nat_less unat_sat_sub window_start_def)
  ultimately show ?thesis
    unfolding pool_window_from_blocks_def Let_def record_blocks record_seen
    by (force simp: scanned_shares_def fset_of_list_elem)
qed

lemma window_active:
  assumes "length bs = unat h" and "window_start h (ps_share_window_blocks (pools S)) \<le> n" and "n < length bs"
    and "sh \<in> set (block_shares X (bs ! n))"
  shows "\<exists>n' sh'. window_start h (ps_share_window_blocks (pools S)) \<le> n' \<and> n' < length bs \<and>
    sh' \<in> set (block_shares X (bs ! n')) \<and> psh_miner_address sh' = psh_miner_address sh \<and>
    fmlookup (pw_pool_by_miner (pool_window_from_blocks X S bs h)) (psh_miner_address sh) = Some (psh_pool_id sh')"
proof -
  let ?a = "sat_sub h (ps_share_window_blocks (pools S))"
  let ?p = "\<lambda>hs. fst hs \<ge> ?a \<and> psh_miner_address (snd hs) = psh_miner_address sh"
  have low: "n < 2 ^ 32" if "n < length bs" for n using that assms(1) unat_bound [of h] by simp
  have start: "of_nat n \<ge> ?a \<longleftrightarrow> unat h - unat (ps_share_window_blocks (pools S)) \<le> n" if "n < length bs" for n
    using low [OF that] by (simp add: word_le_nat_alt unat_of_nat_less unat_sat_sub)
  have "(of_nat n, sh) \<in> set (scanned_shares X S bs h)"
    using assms by (auto simp: in_scanned)
  moreover have "?p (of_nat n, sh)" using start [OF assms(3)] assms(2) by (simp add: window_start_def)
  ultimately obtain hs where hs: "find ?p (scanned_shares X S bs h) = Some hs"
    by (cases "find ?p (scanned_shares X S bs h)") (auto simp: find_None_iff)
  then have "hs \<in> set (scanned_shares X S bs h)" "?p hs" by (auto simp: find_Some_iff)
  then obtain n' where n': "fst hs = of_nat n'" "n' < length bs" "snd hs \<in> set (block_shares X (bs ! n'))"
    "1 \<le> n'"
    using in_scanned [OF assms(1), of "fst hs" "snd hs" X S] by (auto simp: window_start_def)
  then have "window_start h (ps_share_window_blocks (pools S)) \<le> n'"
    using start [OF n'(2)] \<open>?p hs\<close> by (simp add: window_start_def)
  moreover have "fmlookup (pw_pool_by_miner (pool_window_from_blocks X S bs h)) (psh_miner_address sh) = Some (psh_pool_id (snd hs))"
    using hs unfolding pool_window_from_blocks_def Let_def record_blocks record_miner
    by (simp add: scanned_shares_def pool_window_empty_def)
  ultimately show ?thesis using n'(2,3) \<open>?p hs\<close> by blast
qed

section \<open>What the check of a block says of its shares\<close>

lemma accepted_share:
  assumes "validate_and_add_share X sh pool w = Inr w'"
  shows "pool_share_key X sh |\<notin>| pw_seen_keys w" and "pw_seen_keys w' = finsert (pool_share_key X sh) (pw_seen_keys w)"
    and "pw_pool_by_miner w \<subseteq>\<^sub>f pw_pool_by_miner w'"
    and "fmlookup (pw_pool_by_miner w') (psh_miner_address sh) = Some (psh_pool_id sh)"
  using assms
  by (auto simp: validate_and_add_share_def Let_def fmsubset_alt_def fmpred_iff split: if_splits option.splits)

lemma accepted_share_tx:
  assumes "validate_share_tx_against_context X S tx bs h registry w = Inr w'"
  obtains sh pool where "parse_pool_share_tx X tx = Some sh" and "validate_and_add_share X sh pool w = Inr w'"
    and "psh_parent_height sh < h" and "unat h - unat (psh_parent_height sh) \<le> unat (ps_share_stale_blocks (pools S))"
  using assms
  by (auto simp: validate_share_tx_against_context_def Let_def result_simps word_le_nat_alt word_less_nat_alt
      unat_sat_sub not_le not_less)

lemma pools_tx_window:
  assumes "validate_pools_tx X S bs h tx (ctx, u, f) = Inr (ctx', u', f')"
  shows "case parse_pool_share_tx X tx of
      None \<Rightarrow> pcx_window ctx' = pcx_window ctx
    | Some sh \<Rightarrow> (\<exists>pool. validate_and_add_share X sh pool (pcx_window ctx) = Inr (pcx_window ctx')) \<and>
        psh_parent_height sh < h \<and> unat h - unat (psh_parent_height sh) \<le> unat (ps_share_stale_blocks (pools S))"
proof -
  from assms obtain fee where run: "pool_validate_and_apply X S tx bs u h fee ctx = (Inr (), ctx')"
    by (auto simp: validate_pools_tx_def result_simps se_simps)
  show ?thesis
  proof (cases "is_pool_share_transaction tx")
    case True
    with run obtain w' where w': "validate_share_tx_against_context X S tx bs h (pcx_registry ctx) (pcx_window ctx) = Inr w'"
      "ctx' = ctx\<lparr>pcx_window := w'\<rparr>"
      by (auto simp: pool_validate_and_apply_def pool_context_share_def Let_def se_simps split: if_splits)
    obtain sh pool where "parse_pool_share_tx X tx = Some sh" "validate_and_add_share X sh pool (pcx_window ctx) = Inr w'"
      "psh_parent_height sh < h" "unat h - unat (psh_parent_height sh) \<le> unat (ps_share_stale_blocks (pools S))"
      using accepted_share_tx [OF w'(1)] by blast
    then show ?thesis using w'(2) by auto
  next
    case False
    then have "parse_pool_share_tx X tx = None" by (simp add: parse_pool_share_tx_def)
    with False run show ?thesis
      by (auto simp: pool_validate_and_apply_def pool_context_action_def Let_def se_simps split: if_splits prod.splits)
  qed
qed

lemma pools_txs_window:
  assumes "fold_r (validate_pools_tx X S bs h) txs (ctx, u, f) = Inr (ctx', u', f')"
  defines "w \<equiv> pcx_window ctx" and "w' \<equiv> pcx_window ctx'" and "shs \<equiv> shares_in X txs"
  shows "pw_pool_by_miner w \<subseteq>\<^sub>f pw_pool_by_miner w'"
    and "\<forall>sh \<in> set shs. fmlookup (pw_pool_by_miner w') (psh_miner_address sh) = Some (psh_pool_id sh)"
    and "distinct (map (pool_share_key X) shs)"
    and "\<forall>sh \<in> set shs. pool_share_key X sh |\<notin>| pw_seen_keys w"
    and "\<forall>sh \<in> set shs. psh_parent_height sh < h \<and>
      unat h - unat (psh_parent_height sh) \<le> unat (ps_share_stale_blocks (pools S))"
proof -
  have "pw_pool_by_miner w \<subseteq>\<^sub>f pw_pool_by_miner w' \<and>
      (\<forall>sh \<in> set shs. fmlookup (pw_pool_by_miner w') (psh_miner_address sh) = Some (psh_pool_id sh)) \<and>
      distinct (map (pool_share_key X) shs) \<and> (\<forall>sh \<in> set shs. pool_share_key X sh |\<notin>| pw_seen_keys w) \<and>
      (\<forall>sh \<in> set shs. psh_parent_height sh < h \<and>
        unat h - unat (psh_parent_height sh) \<le> unat (ps_share_stale_blocks (pools S)))"
    using assms(1) unfolding w_def w'_def shs_def
  proof (induction txs arbitrary: ctx u f)
    case (Cons tx txs)
    from Cons.prems obtain ctx1 u1 f1 where 1: "validate_pools_tx X S bs h tx (ctx, u, f) = Inr (ctx1, u1, f1)"
      and 2: "fold_r (validate_pools_tx X S bs h) txs (ctx1, u1, f1) = Inr (ctx', u', f')"
      by (auto simp: result_simps)
    note IH = Cons.IH [OF 2]
    show ?case
    proof (cases "parse_pool_share_tx X tx")
      case None
      with pools_tx_window [OF 1] IH show ?thesis by simp
    next
      case (Some sh)
      with pools_tx_window [OF 1] obtain pool where
        a: "validate_and_add_share X sh pool (pcx_window ctx) = Inr (pcx_window ctx1)"
        and b: "psh_parent_height sh < h \<and> unat h - unat (psh_parent_height sh) \<le> unat (ps_share_stale_blocks (pools S))"
        by auto
      note a = accepted_share [OF a]
      from a(3) IH have m: "pw_pool_by_miner (pcx_window ctx) \<subseteq>\<^sub>f pw_pool_by_miner (pcx_window ctx')"
        by (blast intro: fmsubset_trans)
      from a(4) IH have "fmlookup (pw_pool_by_miner (pcx_window ctx')) (psh_miner_address sh) = Some (psh_pool_id sh)"
        by (blast intro: fmsubset_lookup)
      moreover from a(2) IH have "\<forall>sh' \<in> set (shares_in X txs). pool_share_key X sh' |\<notin>| finsert (pool_share_key X sh) (pw_seen_keys (pcx_window ctx))"
        by simp
      ultimately show ?thesis using m a(1) b IH Some by (auto simp: image_iff)
    qed
  qed simp
  then show "pw_pool_by_miner w \<subseteq>\<^sub>f pw_pool_by_miner w'"
    "\<forall>sh \<in> set shs. fmlookup (pw_pool_by_miner w') (psh_miner_address sh) = Some (psh_pool_id sh)"
    "distinct (map (pool_share_key X) shs)" "\<forall>sh \<in> set shs. pool_share_key X sh |\<notin>| pw_seen_keys w"
    "\<forall>sh \<in> set shs. psh_parent_height sh < h \<and>
      unat h - unat (psh_parent_height sh) \<le> unat (ps_share_stale_blocks (pools S))"
    by blast+
qed

text \<open>A checked block with shares: its window extends the window of the chain before it.\<close>

lemma no_shares: "\<not> list_ex (\<lambda>tx. is_pool_share_transaction tx \<or> pool_action_count X tx S > 0) txs \<Longrightarrow> shares_in X txs = []"
proof (induction txs)
  case (Cons tx txs)
  then have "parse_pool_share_tx X tx = None" by (simp add: parse_pool_share_tx_def)
  with Cons show ?case by simp
qed simp

lemma pools_block_shares:
  assumes "validate_pools_block X S b bs u h = Inr ()" and "block_shares X b \<noteq> []"
  obtains ctx u' f where "fold_r (validate_pools_tx X S bs h) (drop 1 (blk_transactions b)) (ctx, u, 0) = Inr (f, u')"
    and "pcx_window ctx = pool_window_from_blocks X S bs h" and "pools_registry_from_blocks X S bs = Inr (pcx_registry ctx)"
proof -
  have "list_ex (\<lambda>tx. is_pool_share_transaction tx \<or> pool_action_count X tx S > 0) (drop 1 (blk_transactions b))"
    using assms(2) no_shares unfolding block_shares_def by blast
  with assms(1) obtain ctx r where en: "pools_enabled S" and ctx: "pool_context_from_confirmed X S bs h = Inr ctx"
    and r: "fold_r (validate_pools_tx X S bs h) (drop 1 (blk_transactions b)) (ctx, u, 0) = Inr r"
    by (auto simp: validate_pools_block_def Let_def result_simps split: if_splits)
  from ctx en have "pcx_window ctx = pool_window_from_blocks X S bs h" "pools_registry_from_blocks X S bs = Inr (pcx_registry ctx)"
    by (auto simp: pool_context_from_confirmed_def confirmed_pool_window_def result_simps)
  with r that show thesis by (cases r) auto
qed

end
