(* ===== verification/GovMarkers.thy ===== *)
theory GovMarkers
  imports Jin
begin

text \<open>
  Verified governance of \<open>src/lib.rs\<close>: the data (profiles, reports, locks, the state), the text
  helpers, the six marker scripts a wallet builds and \<open>parse_verified_governance_marker_script\<close>.
  The lemmas show that cleaned text is stable, that hexadecimal text fields read back, and that the
  vote and wallet markers are parsed as they were built.
\<close>

section \<open>Data\<close>

definition VERIFIED_GOVERNANCE_SCRIPT_PREFIX :: bytes where
  "VERIFIED_GOVERNANCE_SCRIPT_PREFIX = ''VGOV1|''"

datatype verified_status = VsPending | VsActive | VsUnderReview | VsSuspended | VsRevoked | VsExpired

definition show_verified_status :: "verified_status \<Rightarrow> string" where
  "show_verified_status v =
     (case v of
        VsPending \<Rightarrow> ''pending''
      | VsActive \<Rightarrow> ''active''
      | VsUnderReview \<Rightarrow> ''under_review''
      | VsSuspended \<Rightarrow> ''suspended''
      | VsRevoked \<Rightarrow> ''revoked''
      | VsExpired \<Rightarrow> ''expired'')"

record avatar_meta =
  av_hash_hex :: string
  av_mime :: string
  av_size_bytes :: u32
  av_reference :: string

record verified_wallet_profile =
  vw_address :: string
  vw_status :: verified_status
  vw_display_name :: string
  vw_avatar :: "avatar_meta option"
  vw_locked_jin_units :: u128
  vw_lock_until_height :: u32
  vw_verified_since_height :: u32
  vw_last_review_height :: u32
  vw_strikes :: u8

record verified_pool_profile =
  vp_pool_id :: hash256
  vp_owner_address :: string
  vp_status :: verified_status
  vp_display_name :: string
  vp_avatar :: "avatar_meta option"
  vp_locked_jin_units :: u128
  vp_lock_until_height :: u32
  vp_verified_since_height :: u32
  vp_last_review_height :: u32
  vp_strikes :: u8

record moderator_profile =
  mp_address :: string
  mp_status :: verified_status
  mp_statement_hash :: string
  mp_statement_ref :: string
  mp_locked_jin_units :: u128
  mp_lock_until_height :: u32
  mp_elected_height :: "u32 option"
  mp_support_power_units :: u128
  mp_support_voters :: u32

record report_case =
  rc_report_id :: string
  rc_target_kind :: string
  rc_target_id :: string
  rc_reporter :: string
  rc_category :: string
  rc_severity :: string
  rc_evidence_hash :: string
  rc_evidence_ref :: string
  rc_report_bond_units :: u128
  rc_status :: string
  rc_opened_height :: u32
  rc_decision_height :: "u32 option"

record verified_jin_lock =
  vl_owner :: string
  vl_units :: u128
  vl_lock_until_height :: u32
  vl_reason :: string

record gov_state =
  gs_wallets :: "(string, verified_wallet_profile) fmap"
  gs_pools :: "(hash256, verified_pool_profile) fmap"
  gs_moderators :: "(string, moderator_profile) fmap"
  gs_reports :: "(string, report_case) fmap"
  gs_votes :: "string fset"
  gs_locks :: "verified_jin_lock list"
  gs_pending_slash_units :: "(string, u128) fmap"

definition gov_state_default :: gov_state where
  "gov_state_default =
     \<lparr>gs_wallets = fmempty, gs_pools = fmempty, gs_moderators = fmempty, gs_reports = fmempty,
      gs_votes = {||}, gs_locks = [], gs_pending_slash_units = fmempty\<rparr>"

text \<open>The variants of \<open>VerifiedGovernanceMarker\<close>, one record of fields each.\<close>

record wallet_apply =
  wa_address :: string
  wa_display_name :: string
  wa_avatar_hash :: string
  wa_avatar_mime :: string
  wa_avatar_size_bytes :: u32
  wa_avatar_ref :: string
  wa_bond_units :: u128
  wa_lock_until_height :: u32

record pool_apply =
  pa_pool_id :: hash256
  pa_owner :: string
  pa_display_name :: string
  pa_avatar_hash :: string
  pa_avatar_mime :: string
  pa_avatar_size_bytes :: u32
  pa_avatar_ref :: string
  pa_bond_units :: u128
  pa_lock_until_height :: u32

record gov_report =
  gr_reporter :: string
  gr_target_kind :: string
  gr_target_id :: string
  gr_category :: string
  gr_severity :: string
  gr_evidence_hash :: string
  gr_evidence_ref :: string
  gr_bond_units :: u128

record moderator_apply =
  ma_candidate :: string
  ma_statement_hash :: string
  ma_statement_ref :: string
  ma_bond_units :: u128
  ma_lock_until_height :: u32

record gov_vote =
  gv_voter :: string
  gv_proposal_kind :: string
  gv_proposal_id :: string
  gv_support :: bool
  gv_jin_units :: u128
  gv_conviction :: u8
  gv_lock_until_height :: u32

record gov_decision =
  gd_moderator :: string
  gd_report_id :: string
  gd_decision :: string
  gd_slash_bps :: u16

datatype gov_marker =
  WalletApply wallet_apply | PoolApply pool_apply | Report gov_report
| ModeratorApply moderator_apply | Vote gov_vote | Decision gov_decision

section \<open>Text helpers\<close>

definition verified_governance_active :: "settings \<Rightarrow> u32 \<Rightarrow> bool" where
  "verified_governance_active S height \<longleftrightarrow>
     vg_enabled (verified_governance S) \<and> height \<ge> vg_activation_height (verified_governance S)"

definition verified_governance_bond_units :: "string \<Rightarrow> u128 result" where
  "verified_governance_bond_units raw = parse_jin_units_raw raw"

definition verified_governance_hash_hex :: "string \<Rightarrow> string result" where
  "verified_governance_hash_hex input =
     (let h = to_ascii_lowercase (trim input) in
      if length h \<noteq> 64 \<or> \<not> list_all is_ascii_hexdigit h then Inl (GovErr GovInvalidHash) else Inr h)"

definition printable :: "char \<Rightarrow> bool" where
  "printable c = (is_ascii_graphic c \<or> c = CHR '' '')"

definition verified_governance_clean_ascii :: "string \<Rightarrow> nat \<Rightarrow> string result" where
  "verified_governance_clean_ascii input max_bytes =
     (let s = trim input in
      if length s > max_bytes then Inl (GovErr GovTextTooLong)
      else if \<not> list_all (\<lambda>c. is_ascii c \<and> printable c) s then Inl (GovErr GovTextNotAscii)
      else if CHR ''|'' \<in> set s then Inl (GovErr GovTextPipe)
      else Inr s)"

definition verified_governance_decode_hex_text :: "extern \<Rightarrow> string \<Rightarrow> nat \<Rightarrow> string result" where
  "verified_governance_decode_hex_text X input max_bytes =
     (let raw = trim input in
      if raw = ''-'' \<or> raw = [] then Inr [] else
      rbind (ok_or (GovErr GovTextHex) (hex_decode X raw)) (\<lambda>b.
      if length b > max_bytes then Inl (GovErr GovTextTooLong) else
      rbind (ok_or (GovErr GovTextUtf8) (from_utf8 b)) (\<lambda>s.
      verified_governance_clean_ascii s max_bytes)))"

definition verified_governance_encode_hex_text :: "extern \<Rightarrow> string \<Rightarrow> nat \<Rightarrow> string result" where
  "verified_governance_encode_hex_text X input max_bytes =
     rbind (verified_governance_clean_ascii input max_bytes) (\<lambda>s.
     if s = [] then Inr ''-'' else Inr (hex_encode X s))"

definition verified_avatar_meta ::
  "string \<Rightarrow> string \<Rightarrow> u32 \<Rightarrow> string \<Rightarrow> settings \<Rightarrow> avatar_meta option result" where
  "verified_avatar_meta hash mime sz reference S =
     (let hash = trim hash; mime = to_ascii_lowercase (trim mime); reference = trim reference;
          vg = verified_governance S in
      if hash = ''-'' \<or> hash = [] then
        (if mime \<noteq> ''-'' \<and> mime \<noteq> [] then Inl (GovErr GovAvatarMimeWithoutHash)
         else if sz \<noteq> 0 then Inl (GovErr GovAvatarSizeWithoutHash)
         else if reference \<noteq> ''-'' \<and> reference \<noteq> [] then Inl (GovErr GovAvatarRefWithoutHash)
         else Inr None)
      else
        rbind (verified_governance_hash_hex hash) (\<lambda>hash_hex.
        if mime \<noteq> ''image/png'' \<and> mime \<noteq> ''image/webp'' then Inl (GovErr GovAvatarMime)
        else if sz = 0 \<or> sz > vg_max_avatar_bytes vg then Inl (GovErr GovAvatarSize) else
        rbind (verified_governance_clean_ascii reference (unat (vg_max_avatar_ref_bytes vg))) (\<lambda>reference.
        Inr (Some \<lparr>av_hash_hex = hash_hex, av_mime = mime, av_size_bytes = sz, av_reference = reference\<rparr>))))"

section \<open>Scripts\<close>

definition display_hex :: "extern \<Rightarrow> settings \<Rightarrow> string \<Rightarrow> string result" where
  "display_hex X S s =
     verified_governance_encode_hex_text X s (unat (vg_max_display_name_bytes (verified_governance S)))"

definition avatar_ref_hex :: "extern \<Rightarrow> settings \<Rightarrow> string \<Rightarrow> string result" where
  "avatar_ref_hex X S s =
     verified_governance_encode_hex_text X s (unat (vg_max_avatar_ref_bytes (verified_governance S)))"

definition evidence_ref_hex :: "extern \<Rightarrow> settings \<Rightarrow> string \<Rightarrow> string result" where
  "evidence_ref_hex X S s =
     verified_governance_encode_hex_text X s (unat (vg_max_evidence_ref_bytes (verified_governance S)))"

definition verified_governance_wallet_apply_marker_script ::
  "extern \<Rightarrow> settings \<Rightarrow> address \<Rightarrow> string \<Rightarrow> string \<Rightarrow> string \<Rightarrow> u32 \<Rightarrow> string \<Rightarrow> u128 \<Rightarrow> u32 \<Rightarrow> script result" where
  "verified_governance_wallet_apply_marker_script X S a display_name avatar_hash avatar_mime
       avatar_size_bytes avatar_ref bond_units lock_until_height =
     rbind (display_hex X S display_name) (\<lambda>dh.
     rbind (avatar_ref_hex X S avatar_ref) (\<lambda>rh.
     Inr (pipes [''VGOV1'', ''wallet'', address_to_string X a, dh, trim avatar_hash, trim avatar_mime,
       show_word avatar_size_bytes, rh, show_word bond_units, show_word lock_until_height])))"

definition verified_governance_pool_apply_marker_script ::
  "extern \<Rightarrow> settings \<Rightarrow> hash256 \<Rightarrow> address \<Rightarrow> string \<Rightarrow> string \<Rightarrow> string \<Rightarrow> u32 \<Rightarrow> string \<Rightarrow> u128 \<Rightarrow> u32 \<Rightarrow>
    script result" where
  "verified_governance_pool_apply_marker_script X S pool_id owner display_name avatar_hash avatar_mime
       avatar_size_bytes avatar_ref bond_units lock_until_height =
     rbind (display_hex X S display_name) (\<lambda>dh.
     rbind (avatar_ref_hex X S avatar_ref) (\<lambda>rh.
     Inr (pipes [''VGOV1'', ''pool'', hash_to_string X pool_id, address_to_string X owner, dh,
       trim avatar_hash, trim avatar_mime, show_word avatar_size_bytes, rh, show_word bond_units,
       show_word lock_until_height])))"

definition verified_governance_report_marker_script ::
  "extern \<Rightarrow> settings \<Rightarrow> address \<Rightarrow> string \<Rightarrow> string \<Rightarrow> string \<Rightarrow> string \<Rightarrow> string \<Rightarrow> string \<Rightarrow> u128 \<Rightarrow> script result" where
  "verified_governance_report_marker_script X S reporter target_kind target_id category severity
       evidence_hash evidence_ref bond_units =
     rbind (verified_governance_clean_ascii target_kind 32) (\<lambda>target_kind.
     rbind (verified_governance_clean_ascii target_id 96) (\<lambda>target_id.
     rbind (verified_governance_clean_ascii category 48) (\<lambda>category.
     rbind (verified_governance_clean_ascii severity 16) (\<lambda>severity.
     rbind (evidence_ref_hex X S evidence_ref) (\<lambda>rh.
     Inr (pipes [''VGOV1'', ''report'', address_to_string X reporter, to_ascii_lowercase target_kind,
       target_id, category, to_ascii_lowercase severity, trim evidence_hash, rh, show_word bond_units]))))))"

definition verified_governance_moderator_apply_marker_script ::
  "extern \<Rightarrow> settings \<Rightarrow> address \<Rightarrow> string \<Rightarrow> string \<Rightarrow> u128 \<Rightarrow> u32 \<Rightarrow> script result" where
  "verified_governance_moderator_apply_marker_script X S candidate statement_hash statement_ref bond_units
       lock_until_height =
     rbind (evidence_ref_hex X S statement_ref) (\<lambda>rh.
     Inr (pipes [''VGOV1'', ''mod_apply'', address_to_string X candidate, trim statement_hash, rh,
       show_word bond_units, show_word lock_until_height]))"

definition yes_no :: "bool \<Rightarrow> string" where
  "yes_no b = (if b then ''yes'' else ''no'')"

definition verified_governance_vote_marker_script ::
  "extern \<Rightarrow> address \<Rightarrow> string \<Rightarrow> string \<Rightarrow> bool \<Rightarrow> u128 \<Rightarrow> u8 \<Rightarrow> u32 \<Rightarrow> script result" where
  "verified_governance_vote_marker_script X voter proposal_kind proposal_id support jin_units conviction
       lock_until_height =
     rbind (verified_governance_clean_ascii proposal_kind 32) (\<lambda>proposal_kind.
     rbind (verified_governance_clean_ascii proposal_id 96) (\<lambda>proposal_id.
     Inr (pipes [''VGOV1'', ''vote'', address_to_string X voter, to_ascii_lowercase proposal_kind, proposal_id,
       yes_no support, show_word jin_units, show_word conviction, show_word lock_until_height])))"

definition verified_governance_decision_marker_script ::
  "extern \<Rightarrow> address \<Rightarrow> string \<Rightarrow> string \<Rightarrow> u16 \<Rightarrow> script result" where
  "verified_governance_decision_marker_script X moderator report_id decision slash_bps =
     rbind (verified_governance_clean_ascii report_id 96) (\<lambda>report_id.
     rbind (verified_governance_clean_ascii decision 32) (\<lambda>decision.
     Inr (pipes [''VGOV1'', ''decision'', address_to_string X moderator, report_id,
       to_ascii_lowercase decision, show_word slash_bps])))"

section \<open>Parser\<close>

definition gov_address :: "extern \<Rightarrow> settings \<Rightarrow> string \<Rightarrow> string option" where
  "gov_address X S f =
     (if is_ok (parse_with_prefix X (trim f) (net_address_prefix (network S))) then Some (trim f) else None)"

definition gov_text :: "extern \<Rightarrow> usize \<Rightarrow> string \<Rightarrow> string option" where
  "gov_text X n f = to_option (verified_governance_decode_hex_text X f (unat n))"

definition gov_clean :: "nat \<Rightarrow> string \<Rightarrow> string option" where
  "gov_clean n f = to_option (verified_governance_clean_ascii f n)"

definition parse_gov_wallet :: "extern \<Rightarrow> settings \<Rightarrow> string list \<Rightarrow> gov_marker option" where
  "parse_gov_wallet X S fs = (let vg = verified_governance S in
     case fs of
       [f2, f3, f4, f5, f6, f7, f8, f9] \<Rightarrow>
         Option.bind (gov_address X S f2) (\<lambda>a.
         Option.bind (gov_text X (vg_max_display_name_bytes vg) f3) (\<lambda>display_name.
         Option.bind (parse_uint f6) (\<lambda>sz.
         Option.bind (gov_text X (vg_max_avatar_ref_bytes vg) f7) (\<lambda>avatar_ref.
         Option.bind (parse_uint f8) (\<lambda>bond.
         Option.bind (parse_uint f9) (\<lambda>lock.
         Some (WalletApply \<lparr>wa_address = a, wa_display_name = display_name, wa_avatar_hash = trim f4,
           wa_avatar_mime = trim f5, wa_avatar_size_bytes = sz, wa_avatar_ref = avatar_ref,
           wa_bond_units = bond, wa_lock_until_height = lock\<rparr>)))))))
     | _ \<Rightarrow> None)"

definition parse_gov_pool :: "extern \<Rightarrow> settings \<Rightarrow> string list \<Rightarrow> gov_marker option" where
  "parse_gov_pool X S fs = (let vg = verified_governance S in
     case fs of
       [f2, f3, f4, f5, f6, f7, f8, f9, f10] \<Rightarrow>
         Option.bind (to_option (hash_from_hex X f2)) (\<lambda>pool_id.
         Option.bind (gov_address X S f3) (\<lambda>owner.
         Option.bind (gov_text X (vg_max_display_name_bytes vg) f4) (\<lambda>display_name.
         Option.bind (parse_uint f7) (\<lambda>sz.
         Option.bind (gov_text X (vg_max_avatar_ref_bytes vg) f8) (\<lambda>avatar_ref.
         Option.bind (parse_uint f9) (\<lambda>bond.
         Option.bind (parse_uint f10) (\<lambda>lock.
         Some (PoolApply \<lparr>pa_pool_id = pool_id, pa_owner = owner, pa_display_name = display_name,
           pa_avatar_hash = trim f5, pa_avatar_mime = trim f6, pa_avatar_size_bytes = sz,
           pa_avatar_ref = avatar_ref, pa_bond_units = bond, pa_lock_until_height = lock\<rparr>))))))))
     | _ \<Rightarrow> None)"

definition parse_gov_report :: "extern \<Rightarrow> settings \<Rightarrow> string list \<Rightarrow> gov_marker option" where
  "parse_gov_report X S fs = (let vg = verified_governance S in
     case fs of
       [f2, f3, f4, f5, f6, f7, f8, f9] \<Rightarrow>
         Option.bind (gov_address X S f2) (\<lambda>reporter.
         Option.bind (gov_clean 32 f3) (\<lambda>target_kind.
         Option.bind (gov_clean 96 f4) (\<lambda>target_id.
         Option.bind (gov_clean 48 f5) (\<lambda>category.
         Option.bind (gov_clean 16 f6) (\<lambda>severity.
         Option.bind (gov_text X (vg_max_evidence_ref_bytes vg) f8) (\<lambda>evidence_ref.
         Option.bind (parse_uint f9) (\<lambda>bond.
         Some (Report \<lparr>gr_reporter = reporter, gr_target_kind = to_ascii_lowercase target_kind,
           gr_target_id = target_id, gr_category = category, gr_severity = to_ascii_lowercase severity,
           gr_evidence_hash = trim f7, gr_evidence_ref = evidence_ref, gr_bond_units = bond\<rparr>))))))))
     | _ \<Rightarrow> None)"

definition parse_gov_moderator :: "extern \<Rightarrow> settings \<Rightarrow> string list \<Rightarrow> gov_marker option" where
  "parse_gov_moderator X S fs = (let vg = verified_governance S in
     case fs of
       [f2, f3, f4, f5, f6] \<Rightarrow>
         Option.bind (gov_address X S f2) (\<lambda>candidate.
         Option.bind (gov_text X (vg_max_evidence_ref_bytes vg) f4) (\<lambda>statement_ref.
         Option.bind (parse_uint f5) (\<lambda>bond.
         Option.bind (parse_uint f6) (\<lambda>lock.
         Some (ModeratorApply \<lparr>ma_candidate = candidate, ma_statement_hash = trim f3,
           ma_statement_ref = statement_ref, ma_bond_units = bond, ma_lock_until_height = lock\<rparr>)))))
     | _ \<Rightarrow> None)"

definition parse_support :: "string \<Rightarrow> bool option" where
  "parse_support f =
     (if f \<in> {''yes'', ''true'', ''1''} then Some True
      else if f \<in> {''no'', ''false'', ''0''} then Some False
      else None)"

definition parse_gov_vote :: "extern \<Rightarrow> settings \<Rightarrow> string list \<Rightarrow> gov_marker option" where
  "parse_gov_vote X S fs =
     (case fs of
        [f2, f3, f4, f5, f6, f7, f8] \<Rightarrow>
          Option.bind (gov_address X S f2) (\<lambda>voter.
          Option.bind (gov_clean 32 f3) (\<lambda>proposal_kind.
          Option.bind (gov_clean 96 f4) (\<lambda>proposal_id.
          Option.bind (parse_support (trim f5)) (\<lambda>support.
          Option.bind (parse_uint f6) (\<lambda>jin_units.
          Option.bind (parse_uint f7) (\<lambda>conviction.
          Option.bind (parse_uint f8) (\<lambda>lock.
          Some (Vote \<lparr>gv_voter = voter, gv_proposal_kind = to_ascii_lowercase proposal_kind,
            gv_proposal_id = proposal_id, gv_support = support, gv_jin_units = jin_units,
            gv_conviction = conviction, gv_lock_until_height = lock\<rparr>))))))))
      | _ \<Rightarrow> None)"

definition parse_gov_decision :: "extern \<Rightarrow> settings \<Rightarrow> string list \<Rightarrow> gov_marker option" where
  "parse_gov_decision X S fs =
     (case fs of
        [f2, f3, f4, f5] \<Rightarrow>
          Option.bind (gov_address X S f2) (\<lambda>moderator.
          Option.bind (gov_clean 96 f3) (\<lambda>report_id.
          Option.bind (gov_clean 32 f4) (\<lambda>decision.
          Option.bind (parse_uint f5) (\<lambda>slash_bps.
          Some (Decision \<lparr>gd_moderator = moderator, gd_report_id = report_id,
            gd_decision = to_ascii_lowercase decision, gd_slash_bps = slash_bps\<rparr>)))))
      | _ \<Rightarrow> None)"

definition parse_verified_governance_marker_script :: "extern \<Rightarrow> script \<Rightarrow> settings \<Rightarrow> gov_marker option" where
  "parse_verified_governance_marker_script X b S =
     (if \<not> starts_with b VERIFIED_GOVERNANCE_SCRIPT_PREFIX then None else
      Option.bind (from_utf8 b) (\<lambda>s.
      case split_on (CHR ''|'') s of
        f0 # action # fs \<Rightarrow>
          if f0 \<noteq> ''VGOV1'' then None
          else if action = ''wallet'' then parse_gov_wallet X S fs
          else if action = ''pool'' then parse_gov_pool X S fs
          else if action = ''report'' then parse_gov_report X S fs
          else if action = ''mod_apply'' then parse_gov_moderator X S fs
          else if action = ''vote'' then parse_gov_vote X S fs
          else if action = ''decision'' then parse_gov_decision X S fs
          else None
      | _ \<Rightarrow> None))"

definition verified_governance_markers_in_tx ::
  "extern \<Rightarrow> transaction \<Rightarrow> settings \<Rightarrow> (nat \<times> gov_marker \<times> u64) list" where
  "verified_governance_markers_in_tx X tx S =
     markers_in (\<lambda>s. parse_verified_governance_marker_script X s S) tx"

section \<open>Cleaned text is stable\<close>

lemma trim_encs_shorter:
  assumes "e \<in> set es" and "e \<noteq> []" and "starts_with s e"
  shows "length (trim_encs es s) < length s"
proof -
  from assms obtain e' where e': "find (\<lambda>e. e \<noteq> [] \<and> starts_with s e) es = Some e'"
    by (cases "find (\<lambda>e. e \<noteq> [] \<and> starts_with s e) es") (auto simp: find_None_iff)
  then have ne: "e' \<noteq> []" "starts_with s e'" by (auto simp: find_Some_iff)
  obtain p where "drop (length e') s = p @ trim_encs es (drop (length e') s)" using trim_encs_suffix by blast
  from arg_cong [OF this, of length] have "length (trim_encs es (drop (length e') s)) \<le> length s - length e'" by simp
  moreover have "0 < length e'" "length e' \<le> length s" using ne by (auto simp: starts_with_iff)
  ultimately have "length (trim_encs es (drop (length e') s)) < length s" by linarith
  then show ?thesis by (simp add: trim_encs.simps [of es s] e')
qed

lemma trim_encs_length: "length (trim_encs es s) \<le> length s"
  using trim_encs_suffix [of s es] by (metis le_add2 length_append)

lemma trimmed_ends:
  assumes "trim s = s" and "s \<noteq> []"
  shows "hd s \<noteq> CHR '' ''" and "last s \<noteq> CHR '' ''"
proof -
  have sp: "[CHR '' ''] \<in> set ws_encodings" "[CHR '' ''] \<in> set (map rev ws_encodings)"
    by (simp_all add: ws_encodings_def)
  have len: "length (trim s) \<le> length (trim_start s)"
    using trim_encs_length [of "map rev ws_encodings" "rev (trim_start s)"] by (simp add: trim_def trim_end_def)
  show "hd s \<noteq> CHR '' ''"
  proof
    assume "hd s = CHR '' ''"
    then have "starts_with s [CHR '' '']" using assms(2) by (cases s) (simp_all add: starts_with_def)
    with sp(1) have "length (trim_start s) < length s" unfolding trim_start_def by (intro trim_encs_shorter) simp_all
    with len assms(1) show False by simp
  qed
  obtain p where p: "s = p @ trim_start s" unfolding trim_start_def using trim_encs_suffix by blast
  then have "length s = length p + length (trim_start s)" by (metis length_append)
  with len assms(1) have "p = []" by simp
  with p have start: "trim_start s = s" by simp
  show "last s \<noteq> CHR '' ''"
  proof
    assume "last s = CHR '' ''"
    then have "starts_with (rev s) [CHR '' '']" using assms(2) by (cases s rule: rev_cases) (simp_all add: starts_with_def)
    with sp(2) have "length (trim_encs (map rev ws_encodings) (rev s)) < length (rev s)"
      by (intro trim_encs_shorter) simp_all
    with assms(1) start show False by (simp add: trim_def trim_end_def) (metis length_rev less_irrefl)
  qed
qed

lemma trim_printable:
  assumes "list_all printable s" and "s \<noteq> []"
  shows "trim s = s \<longleftrightarrow> is_ascii_graphic (hd s) \<and> is_ascii_graphic (last s)"
proof
  assume "trim s = s"
  then show "is_ascii_graphic (hd s) \<and> is_ascii_graphic (last s)"
    using trimmed_ends [of s] assms by (auto simp: list_all_iff printable_def)
qed (use trim_graphic assms in auto)

lemma lower_graphic [simp]: "is_ascii_graphic (ascii_lower c) = is_ascii_graphic c"
  by (auto simp: ascii_lower_def char_class_defs less_eq_char_def)

lemma lower_uppercase: "is_ascii_uppercase c \<Longrightarrow> is_ascii_lowercase (ascii_lower c)"
  by (simp add: ascii_lower_def is_ascii_uppercase_def is_ascii_lowercase_def less_eq_char_def)

lemma lower_eq_iff:
  "ascii_lower c = CHR ''|'' \<longleftrightarrow> c = CHR ''|''" "ascii_lower c = CHR '' '' \<longleftrightarrow> c = CHR '' ''"
proof -
  have "\<not> is_ascii_lowercase (CHR ''|'')" "\<not> is_ascii_lowercase (CHR '' '')"
    "\<not> is_ascii_uppercase (CHR ''|'')" "\<not> is_ascii_uppercase (CHR '' '')"
    by (simp_all add: is_ascii_lowercase_def is_ascii_uppercase_def less_eq_char_def)
  then show "ascii_lower c = CHR ''|'' \<longleftrightarrow> c = CHR ''|''" "ascii_lower c = CHR '' '' \<longleftrightarrow> c = CHR '' ''"
    using lower_uppercase [of c] by (auto simp: ascii_lower_def split: if_splits)
qed

lemma printable_lower [simp]: "printable (ascii_lower c) = printable c"
  by (simp add: printable_def lower_eq_iff)

lemma printable_ascii: "printable c \<Longrightarrow> is_ascii c"
  by (auto simp: printable_def graphic_ascii) (simp add: is_ascii_def)

lemma clean_ascii_Inr:
  "verified_governance_clean_ascii s n = Inr t \<longleftrightarrow>
    t = trim s \<and> length t \<le> n \<and> list_all printable t \<and> CHR ''|'' \<notin> set t"
proof -
  have "list_all (\<lambda>c. is_ascii c \<and> printable c) u = list_all printable u" for u
    by (auto simp: list_all_iff printable_ascii)
  then show ?thesis by (auto simp: verified_governance_clean_ascii_def Let_def not_less)
qed

lemma clean_ascii_idem: "verified_governance_clean_ascii s n = Inr t \<Longrightarrow> verified_governance_clean_ascii t n = Inr t"
  by (auto simp: clean_ascii_Inr)

lemma clean_ascii_lower:
  assumes "verified_governance_clean_ascii s n = Inr t"
  shows "verified_governance_clean_ascii (to_ascii_lowercase t) n = Inr (to_ascii_lowercase t)"
proof -
  note cleaned = assms [unfolded clean_ascii_Inr]
  have "trim (trim s) = trim s" by simp
  then have t: "trim t = t" unfolding cleaned [THEN conjunct1, symmetric] .
  have p0: "list_all printable t" and no_pipe: "CHR ''|'' \<notin> set t" and len: "length t \<le> n"
    using cleaned by blast+
  have p: "list_all printable (to_ascii_lowercase t)" using p0 by (induction t) (simp_all add: to_ascii_lowercase_def)
  have "trim (to_ascii_lowercase t) = to_ascii_lowercase t"
  proof (cases "t = []")
    case False
    then have "is_ascii_graphic (hd t)" "is_ascii_graphic (last t)"
      using trim_printable [OF p0 False] t by blast+
    then have "is_ascii_graphic (hd (to_ascii_lowercase t))" "is_ascii_graphic (last (to_ascii_lowercase t))"
      using False by (simp_all add: to_ascii_lowercase_def hd_map last_map)
    with False show ?thesis by (intro trim_graphic) (simp_all add: to_ascii_lowercase_def)
  qed (simp add: to_ascii_lowercase_def)
  moreover have "ascii_lower c \<noteq> CHR ''|''" if "c \<in> set t" for c
    using that no_pipe lower_eq_iff(1) [of c] by metis
  then have "CHR ''|'' \<notin> set (to_ascii_lowercase t)" unfolding to_ascii_lowercase_def set_map by (metis imageE)
  ultimately have "to_ascii_lowercase t = trim (to_ascii_lowercase t) \<and> length (to_ascii_lowercase t) \<le> n \<and>
    list_all printable (to_ascii_lowercase t) \<and> CHR ''|'' \<notin> set (to_ascii_lowercase t)"
    using len p by (intro conjI) (simp_all only: to_ascii_lowercase_def length_map not_False_eq_True)
  then show ?thesis unfolding clean_ascii_Inr .
qed

section \<open>Reading markers back\<close>

text \<open>Fields of ASCII text without separator, spaces allowed.\<close>

definition gov_field :: "string \<Rightarrow> bool" where
  "gov_field f \<longleftrightarrow> CHR ''|'' \<notin> set f \<and> list_all is_ascii f"

lemma gov_pipes_read_back:
  assumes "fs \<noteq> []" and "list_all gov_field fs"
  shows "from_utf8 (pipes fs) = Some (pipes fs)" and "split_on (CHR ''|'') (pipes fs) = fs"
proof -
  have "list_all (list_all is_ascii) fs" "list_all (\<lambda>f. CHR ''|'' \<notin> set f) fs"
    using assms(2) by (auto simp: gov_field_def list_all_iff)
  moreover from this(1) have "list_all is_ascii (pipes fs)"
    unfolding pipes_def by (subst list_all_join) (simp_all add: is_ascii_def)
  ultimately show "from_utf8 (pipes fs) = Some (pipes fs)" "split_on (CHR ''|'') (pipes fs) = fs"
    using assms(1) by (auto intro!: from_utf8_ascii split_on_pipes simp: list_all_iff)
qed

lemma plain_gov_field: "plain_field f \<Longrightarrow> gov_field f"
  by (auto simp: plain_field_def gov_field_def list_all_iff graphic_ascii)

lemma clean_gov_field: "verified_governance_clean_ascii s n = Inr t \<Longrightarrow> gov_field t"
  by (auto simp: clean_ascii_Inr gov_field_def list_all_iff printable_ascii)

lemma plain_gov_words:
  "gov_field ''VGOV1''" "gov_field ''wallet''" "gov_field ''vote''" "gov_field (yes_no b)" "gov_field ''-''"
  by (simp_all add: gov_field_def is_ascii_def yes_no_def)

lemma gov_address_read_back:
  assumes "extern_ok X" and "wf_address a" and "addr_prefix a = net_address_prefix (network S)"
  shows "gov_address X S (address_to_string X a) = Some (address_to_string X a)"
  using assms address_ok [OF assms] by (simp add: gov_address_def trim_address)

lemma encoded_text:
  assumes "extern_ok X" and "verified_governance_encode_hex_text X s n = Inr h"
  shows "gov_field h" and "verified_governance_decode_hex_text X h n = Inr (trim s)"
proof -
  from assms(2) obtain t where t: "verified_governance_clean_ascii s n = Inr t"
    and h: "h = (if t = [] then ''-'' else hex_encode X t)"
    by (auto simp: verified_governance_encode_hex_text_def result_simps split: if_splits)
  show "gov_field h" using h plain_hex [OF assms(1)] plain_gov_words by (auto intro: plain_gov_field)
  show "verified_governance_decode_hex_text X h n = Inr (trim s)"
  proof (cases "t = []")
    case True
    have "trim ''-'' = ''-''" by (rule trim_graphic) (simp_all add: is_ascii_graphic_def)
    with True t h show ?thesis by (simp add: verified_governance_decode_hex_text_def clean_ascii_Inr)
  next
    case False
    have "length (hex_encode X t) = 2 * length t" by (rule hex_encode_length [OF assms(1)])
    with False have ne: "hex_encode X t \<noteq> []" "hex_encode X t \<noteq> ''-''" by auto
    have "from_utf8 t = Some t" using clean_gov_field [OF t] by (auto simp: gov_field_def list_all_iff intro: from_utf8_ascii)
    with False t h ne show ?thesis
      by (auto simp: verified_governance_decode_hex_text_def trim_hex [OF assms(1)] hex_roundtrip [OF assms(1)]
          Let_def clean_ascii_Inr)
  qed
qed

lemma gov_words_distinct:
  "(''vote'' :: string) \<noteq> ''wallet''" "(''vote'' :: string) \<noteq> ''pool''" "(''vote'' :: string) \<noteq> ''report''"
  "(''vote'' :: string) \<noteq> ''mod_apply''"
  by simp_all

lemma gov_vote_read_back:
  assumes "extern_ok X" and "wf_address voter" and "addr_prefix voter = net_address_prefix (network S)"
    and "verified_governance_vote_marker_script X voter kind i support units conviction lock = Inr s"
  shows "parse_verified_governance_marker_script X s S = Some (Vote
    \<lparr>gv_voter = address_to_string X voter, gv_proposal_kind = to_ascii_lowercase (trim kind),
     gv_proposal_id = trim i, gv_support = support, gv_jin_units = units, gv_conviction = conviction,
     gv_lock_until_height = lock\<rparr>)"
proof -
  let ?k = "to_ascii_lowercase (trim kind)"
  let ?fs = "[''VGOV1'', ''vote'', address_to_string X voter, ?k, trim i, yes_no support, show_word units,
    show_word conviction, show_word lock]"
  from assms(4) have k: "verified_governance_clean_ascii kind 32 = Inr (trim kind)"
    and i: "verified_governance_clean_ascii i 96 = Inr (trim i)" and s: "s = pipes ?fs"
    by (auto simp: verified_governance_vote_marker_script_def result_simps clean_ascii_Inr)
  note k' = clean_ascii_lower [OF k] and i' = clean_ascii_idem [OF i]
  have "list_all gov_field ?fs"
    using plain_gov_words clean_gov_field [OF k'] clean_gov_field [OF i'] plain_address [OF assms(1,2)]
    by (simp add: plain_gov_field)
  then have r: "from_utf8 s = Some s" "split_on (CHR ''|'') s = ?fs"
    using gov_pipes_read_back [of ?fs] by (simp_all add: s)
  have "starts_with s VERIFIED_GOVERNANCE_SCRIPT_PREFIX"
    by (simp add: s starts_with_def VERIFIED_GOVERNANCE_SCRIPT_PREFIX_def pipes_def)
  moreover have "trim (yes_no support) = yes_no support"
    by (rule trim_all_graphic) (auto simp: yes_no_def is_ascii_graphic_def split: if_splits)
  moreover have "parse_support (yes_no support) = Some support" by (simp add: parse_support_def yes_no_def)
  moreover have "to_ascii_lowercase ?k = ?k"
    by (simp add: to_ascii_lowercase_def ascii_lower_def char_class_defs less_eq_char_def)
  ultimately show ?thesis
    by (simp add: parse_verified_governance_marker_script_def r parse_gov_vote_def gov_clean_def k' i'
        gov_address_read_back [OF assms(1-3)])
qed

lemma gov_wallet_read_back:
  assumes "extern_ok X" and "wf_address a" and "addr_prefix a = net_address_prefix (network S)"
    and "plain_field (trim hash)" and "plain_field (trim mime)"
    and "verified_governance_wallet_apply_marker_script X S a name hash mime sz ref bond lock = Inr s"
  shows "parse_verified_governance_marker_script X s S = Some (WalletApply
    \<lparr>wa_address = address_to_string X a, wa_display_name = trim name, wa_avatar_hash = trim hash,
     wa_avatar_mime = trim mime, wa_avatar_size_bytes = sz, wa_avatar_ref = trim ref, wa_bond_units = bond,
     wa_lock_until_height = lock\<rparr>)"
proof -
  from assms(6) obtain dh rh where dh: "display_hex X S name = Inr dh" and rh: "avatar_ref_hex X S ref = Inr rh"
    and s: "s = pipes [''VGOV1'', ''wallet'', address_to_string X a, dh, trim hash, trim mime, show_word sz, rh,
      show_word bond, show_word lock]" (is "_ = pipes ?fs")
    by (auto simp: verified_governance_wallet_apply_marker_script_def result_simps)
  note dh = encoded_text [OF assms(1) dh [unfolded display_hex_def]]
    and rh = encoded_text [OF assms(1) rh [unfolded avatar_ref_hex_def]]
  have "list_all gov_field ?fs"
    using plain_gov_words dh(1) rh(1) assms(4,5) plain_address [OF assms(1,2)] by (simp add: plain_gov_field)
  then have r: "from_utf8 s = Some s" "split_on (CHR ''|'') s = ?fs"
    using gov_pipes_read_back [of ?fs] by (simp_all add: s)
  have "starts_with s VERIFIED_GOVERNANCE_SCRIPT_PREFIX"
    by (simp add: s starts_with_def VERIFIED_GOVERNANCE_SCRIPT_PREFIX_def pipes_def)
  then show ?thesis
    by (simp add: parse_verified_governance_marker_script_def r parse_gov_wallet_def gov_text_def dh(2) rh(2)
        gov_address_read_back [OF assms(1-3)])
qed

end
