(* ===== verification/GovState.thy ===== *)
theory GovState
  imports GovMarkers PoolRegistry
begin

text \<open>
  The state of verified governance (\<open>src/lib.rs\<close>): the check of one action against the state and
  the JIN ledger (\<open>validate_verified_governance_marker_with_state\<close>), the unchecked replay of the
  action (\<open>apply_verified_governance_marker_unchecked\<close>), the state rebuilt from the blocks, and
  the locks it takes out of the JIN ledger. The lemmas show that an accepted action is replayed as
  it was checked (decisions that reject a report excepted), that locks and ledger add up, and that
  votes are counted independently of the order of the hash set.
\<close>

section \<open>Locks\<close>

definition conviction_multiplier :: "u8 \<Rightarrow> u128 result" where
  "conviction_multiplier conviction =
     (if conviction = 0 then Inr 1
      else if conviction = 1 then Inr 2
      else if conviction = 2 then Inr 3
      else if conviction = 3 then Inr 4
      else if conviction = 4 then Inr 6
      else Inl (GovErr GovConviction))"

definition add_active_lock :: "u32 \<Rightarrow> verified_jin_lock \<Rightarrow> (string, u128) fmap \<Rightarrow> (string, u128) fmap" where
  "add_active_lock visible_height lock m =
     (if vl_lock_until_height lock > visible_height
      then fmupd (vl_owner lock) (sat_add (get_or0 m (vl_owner lock)) (vl_units lock)) m
      else m)"

definition verified_governance_active_locks_from_state :: "gov_state \<Rightarrow> u32 \<Rightarrow> (string, u128) fmap" where
  "verified_governance_active_locks_from_state st visible_height =
     fold (add_active_lock visible_height) (gs_locks st) fmempty"

definition verified_governance_available_jin :: "jin_ledger \<Rightarrow> string \<Rightarrow> u128" where
  "verified_governance_available_jin ledger owner = get_or0 ledger owner"

type_synonym gov_ctx = "gov_state \<times> jin_ledger"

definition push_lock :: "string \<Rightarrow> u128 \<Rightarrow> u32 \<Rightarrow> string \<Rightarrow> gov_state \<Rightarrow> gov_state" where
  "push_lock owner units lock_until_height reason st =
     st\<lparr>gs_locks := gs_locks st @ [\<lparr>vl_owner = owner, vl_units = units,
       vl_lock_until_height = lock_until_height, vl_reason = reason\<rparr>]\<rparr>"

definition require_verified_governance_lock ::
  "settings \<Rightarrow> string \<Rightarrow> u128 \<Rightarrow> u32 \<Rightarrow> u32 \<Rightarrow> string \<Rightarrow> gov_ctx \<Rightarrow> gov_ctx result" where
  "require_verified_governance_lock S owner units lock_until_height height reason ctx = (case ctx of (st, ledger) \<Rightarrow>
     if units = 0 then Inl (GovErr GovLockZero)
     else if lock_until_height < sat_add height (vg_min_lock_blocks (verified_governance S))
     then Inl (GovErr GovLockTooShort)
     else let available = verified_governance_available_jin ledger owner in
       if available < units then Inl (GovErr GovInsufficientJin)
       else Inr (push_lock owner units lock_until_height reason st, fmupd owner (available - units) ledger))"

section \<open>Votes and moderators\<close>

text \<open>A vote key with five fields that supports a moderator: the candidate and the power.\<close>

definition moderator_vote :: "string \<Rightarrow> (string \<times> u128) option" where
  "moderator_vote key =
     (case split_on (CHR ''|'') key of
        [kind, candidate, _, pw, support] \<Rightarrow>
          if kind = ''moderator'' \<and> support = ''yes''
          then Some (candidate, case parse_uint pw of Some p \<Rightarrow> p | None \<Rightarrow> 0)
          else None
      | _ \<Rightarrow> None)"

type_synonym support_map = "(string, u128 \<times> u32) fmap"

definition support_of :: "support_map \<Rightarrow> string \<Rightarrow> u128 \<times> u32" where
  "support_of m c = (case fmlookup m c of None \<Rightarrow> (0, 0) | Some e \<Rightarrow> e)"

definition add_support :: "string \<Rightarrow> support_map \<Rightarrow> support_map" where
  "add_support key m =
     (case moderator_vote key of
        None \<Rightarrow> m
      | Some (candidate, pw) \<Rightarrow>
          (case support_of m candidate of (p, n) \<Rightarrow> fmupd candidate (sat_add p pw, sat_add n 1) m))"

definition moderator_support :: "string fset \<Rightarrow> support_map" where
  "moderator_support votes = fold add_support (sorted_list_of_fset votes) fmempty"

definition refresh_moderator ::
  "support_map \<Rightarrow> u128 \<Rightarrow> u32 \<Rightarrow> string \<Rightarrow> moderator_profile \<Rightarrow> moderator_profile" where
  "refresh_moderator support threshold height candidate moderator =
     (case support_of support candidate of (pw, voters) \<Rightarrow>
      let m = moderator\<lparr>mp_support_power_units := pw, mp_support_voters := voters\<rparr>;
          m = (if mp_status m = VsPending \<and> mp_lock_until_height m > height \<and> voters \<ge> 2 \<and> pw \<ge> threshold
               then m\<lparr>mp_status := VsActive, mp_elected_height := Some height\<rparr> else m)
      in if mp_lock_until_height m \<le> height \<and> mp_status m \<noteq> VsRevoked
         then m\<lparr>mp_status := VsExpired\<rparr> else m)"

definition verified_governance_refresh_moderators ::
  "settings \<Rightarrow> u32 \<Rightarrow> gov_state \<Rightarrow> gov_state result" where
  "verified_governance_refresh_moderators S height st =
     rbind (verified_governance_bond_units (vg_moderator_bond_units (verified_governance S))) (\<lambda>bond.
     Inr (st\<lparr>gs_moderators := fmmap_keys
       (refresh_moderator (moderator_support (gs_votes st)) (sat_mul bond 2) height) (gs_moderators st)\<rparr>))"

section \<open>What an action records\<close>

definition wallet_profile :: "wallet_apply \<Rightarrow> avatar_meta option \<Rightarrow> u32 \<Rightarrow> verified_wallet_profile" where
  "wallet_profile w avatar height =
     \<lparr>vw_address = wa_address w, vw_status = VsPending, vw_display_name = wa_display_name w,
      vw_avatar = avatar, vw_locked_jin_units = wa_bond_units w, vw_lock_until_height = wa_lock_until_height w,
      vw_verified_since_height = 0, vw_last_review_height = height, vw_strikes = 0\<rparr>"

definition pool_profile :: "pool_apply \<Rightarrow> avatar_meta option \<Rightarrow> u32 \<Rightarrow> verified_pool_profile" where
  "pool_profile p avatar height =
     \<lparr>vp_pool_id = pa_pool_id p, vp_owner_address = pa_owner p, vp_status = VsPending,
      vp_display_name = pa_display_name p, vp_avatar = avatar, vp_locked_jin_units = pa_bond_units p,
      vp_lock_until_height = pa_lock_until_height p, vp_verified_since_height = 0,
      vp_last_review_height = height, vp_strikes = 0\<rparr>"

definition report_id_of :: "extern \<Rightarrow> hash256 \<Rightarrow> nat \<Rightarrow> string" where
  "report_id_of X tid marker_index = hash_to_string X tid @ '':'' @ show_nat marker_index"

definition open_report :: "gov_report \<Rightarrow> string \<Rightarrow> u32 \<Rightarrow> report_case" where
  "open_report r report_id height =
     \<lparr>rc_report_id = report_id, rc_target_kind = gr_target_kind r, rc_target_id = gr_target_id r,
      rc_reporter = gr_reporter r, rc_category = gr_category r, rc_severity = gr_severity r,
      rc_evidence_hash = to_ascii_lowercase (gr_evidence_hash r), rc_evidence_ref = gr_evidence_ref r,
      rc_report_bond_units = gr_bond_units r, rc_status = ''open'', rc_opened_height = height,
      rc_decision_height = None\<rparr>"

definition moderator_candidate :: "moderator_apply \<Rightarrow> moderator_profile" where
  "moderator_candidate m =
     \<lparr>mp_address = ma_candidate m, mp_status = VsPending,
      mp_statement_hash = to_ascii_lowercase (ma_statement_hash m), mp_statement_ref = ma_statement_ref m,
      mp_locked_jin_units = ma_bond_units m, mp_lock_until_height = ma_lock_until_height m,
      mp_elected_height = None, mp_support_power_units = 0, mp_support_voters = 0\<rparr>"

definition vote_key :: "gov_vote \<Rightarrow> u128 \<Rightarrow> string" where
  "vote_key v pw =
     pipes [gv_proposal_kind v, gv_proposal_id v, gv_voter v, show_word pw, yes_no (gv_support v)]"

definition vote_prefix :: "gov_vote \<Rightarrow> string" where
  "vote_prefix v = pipes [gv_proposal_kind v, gv_proposal_id v, gv_voter v, []]"

definition pending_key :: "string \<Rightarrow> string" where
  "pending_key report_id = ''pending:'' @ report_id"

definition open_status :: "verified_status \<Rightarrow> bool" where
  "open_status v = (v \<noteq> VsRevoked \<and> v \<noteq> VsExpired)"

definition report_bond_until :: "settings \<Rightarrow> u32 \<Rightarrow> u32" where
  "report_bond_until S height = sat_add height (vg_appeal_window_blocks (verified_governance S))"

section \<open>Checking an action\<close>

definition gov_authorised :: "extern \<Rightarrow> settings \<Rightarrow> transaction \<Rightarrow> utxo_map \<Rightarrow> string \<Rightarrow> unit result" where
  "gov_authorised X S tx utxos a =
     rbind (parse_with_prefix X a (net_address_prefix (network S))) (\<lambda>addr.
     if \<not> input_authorizes_address tx utxos addr then Inl (GovErr GovUnauthorized) else Inr ())"

definition bond_at_least :: "string \<Rightarrow> u128 \<Rightarrow> unit result" where
  "bond_at_least raw units =
     rbind (verified_governance_bond_units raw) (\<lambda>least.
     if units < least then Inl (GovErr GovBondBelowMinimum) else Inr ())"

definition check_wallet_apply ::
  "extern \<Rightarrow> settings \<Rightarrow> transaction \<Rightarrow> utxo_map \<Rightarrow> u32 \<Rightarrow> wallet_apply \<Rightarrow> gov_ctx \<Rightarrow> gov_ctx result" where
  "check_wallet_apply X S tx utxos height w ctx =
     rbind (gov_authorised X S tx utxos (wa_address w)) (\<lambda>_.
     rbind (bond_at_least (vg_wallet_bond_units (verified_governance S)) (wa_bond_units w)) (\<lambda>_.
     rbind (verified_avatar_meta (wa_avatar_hash w) (wa_avatar_mime w) (wa_avatar_size_bytes w)
       (wa_avatar_ref w) S) (\<lambda>avatar.
     if (case fmlookup (gs_wallets (fst ctx)) (wa_address w) of Some p \<Rightarrow> open_status (vw_status p) | None \<Rightarrow> False)
     then Inl (GovErr GovWalletAlreadyVerified) else
     rbind (require_verified_governance_lock S (wa_address w) (wa_bond_units w) (wa_lock_until_height w) height
       ''wallet_verification'' ctx) (\<lambda>(st, ledger).
     Inr (st\<lparr>gs_wallets := fmupd (wa_address w) (wallet_profile w avatar height) (gs_wallets st)\<rparr>, ledger)))))"

definition check_pool_apply ::
  "extern \<Rightarrow> settings \<Rightarrow> transaction \<Rightarrow> utxo_map \<Rightarrow> block list \<Rightarrow> u32 \<Rightarrow> pool_apply \<Rightarrow> gov_ctx \<Rightarrow> gov_ctx result" where
  "check_pool_apply X S tx utxos prior_blocks height p ctx =
     rbind (gov_authorised X S tx utxos (pa_owner p)) (\<lambda>_.
     rbind (pools_registry_from_blocks X S prior_blocks) (\<lambda>registry.
     rbind (ok_or (GovErr GovPoolNotFound) (fmlookup registry (pa_pool_id p))) (\<lambda>pool.
     if pr_manager_address pool \<noteq> pa_owner p then Inl (GovErr GovPoolOwner) else
     rbind (bond_at_least (vg_pool_bond_units (verified_governance S)) (pa_bond_units p)) (\<lambda>_.
     rbind (verified_avatar_meta (pa_avatar_hash p) (pa_avatar_mime p) (pa_avatar_size_bytes p)
       (pa_avatar_ref p) S) (\<lambda>avatar.
     if (case fmlookup (gs_pools (fst ctx)) (pa_pool_id p) of Some q \<Rightarrow> open_status (vp_status q) | None \<Rightarrow> False)
     then Inl (GovErr GovPoolAlreadyVerified) else
     rbind (require_verified_governance_lock S (pa_owner p) (pa_bond_units p) (pa_lock_until_height p) height
       ''pool_verification'' ctx) (\<lambda>(st, ledger).
     Inr (st\<lparr>gs_pools := fmupd (pa_pool_id p) (pool_profile p avatar height) (gs_pools st)\<rparr>, ledger)))))))"

definition check_report ::
  "extern \<Rightarrow> settings \<Rightarrow> transaction \<Rightarrow> utxo_map \<Rightarrow> u32 \<Rightarrow> hash256 \<Rightarrow> nat \<Rightarrow> gov_report \<Rightarrow> gov_ctx \<Rightarrow> gov_ctx result" where
  "check_report X S tx utxos height tid marker_index r ctx =
     rbind (gov_authorised X S tx utxos (gr_reporter r)) (\<lambda>_.
     if fcard (fmdom (gs_reports (fst ctx))) \<ge> unat (vg_max_active_reports (verified_governance S))
     then Inl (GovErr GovTooManyReports) else
     rbind (bond_at_least (vg_report_bond_units (verified_governance S)) (gr_bond_units r)) (\<lambda>_.
     rbind (verified_governance_hash_hex (gr_evidence_hash r)) (\<lambda>_.
     rbind (require_verified_governance_lock S (gr_reporter r) (gr_bond_units r) (report_bond_until S height) height
       ''report_bond'' ctx) (\<lambda>(st, ledger).
     let report_id = report_id_of X tid marker_index in
     Inr (st\<lparr>gs_reports := fmupd report_id (open_report r report_id height) (gs_reports st)\<rparr>, ledger)))))"

definition check_moderator_apply ::
  "extern \<Rightarrow> settings \<Rightarrow> transaction \<Rightarrow> utxo_map \<Rightarrow> u32 \<Rightarrow> moderator_apply \<Rightarrow> gov_ctx \<Rightarrow> gov_ctx result" where
  "check_moderator_apply X S tx utxos height m ctx =
     rbind (gov_authorised X S tx utxos (ma_candidate m)) (\<lambda>_.
     rbind (bond_at_least (vg_moderator_bond_units (verified_governance S)) (ma_bond_units m)) (\<lambda>_.
     rbind (verified_governance_hash_hex (ma_statement_hash m)) (\<lambda>_.
     if (case fmlookup (gs_moderators (fst ctx)) (ma_candidate m) of Some p \<Rightarrow> open_status (mp_status p) | None \<Rightarrow> False)
     then Inl (GovErr GovModeratorAlready) else
     rbind (require_verified_governance_lock S (ma_candidate m) (ma_bond_units m) (ma_lock_until_height m) height
       ''moderator_candidate'' ctx) (\<lambda>(st, ledger).
     Inr (st\<lparr>gs_moderators := fmupd (ma_candidate m) (moderator_candidate m) (gs_moderators st)\<rparr>, ledger)))))"

definition check_vote ::
  "extern \<Rightarrow> settings \<Rightarrow> transaction \<Rightarrow> utxo_map \<Rightarrow> u32 \<Rightarrow> gov_vote \<Rightarrow> gov_ctx \<Rightarrow> gov_ctx result" where
  "check_vote X S tx utxos height v ctx =
     rbind (gov_authorised X S tx utxos (gv_voter v)) (\<lambda>_.
     if gv_jin_units v = 0 then Inl (GovErr GovVoteLockZero)
     else if gv_proposal_kind v = ''moderator'' \<and> fmlookup (gs_moderators (fst ctx)) (gv_proposal_id v) = None
     then Inl (GovErr GovVoteTarget) else
     rbind (conviction_multiplier (gv_conviction v)) (\<lambda>mult.
     rbind (ok_or (GovErr GovVoteOverflow) (checked_mul (gv_jin_units v) mult)) (\<lambda>pw.
     rbind (require_verified_governance_lock S (gv_voter v) (gv_jin_units v) (gv_lock_until_height v) height
       ''governance_vote'' ctx) (\<lambda>(st, ledger).
     if fBex (gs_votes st) (\<lambda>k. starts_with k (vote_prefix v)) then Inl (GovErr GovDuplicateVote)
     else if vote_key v pw |\<in>| gs_votes st then Inl (GovErr GovDuplicateVote) else
     rbind (verified_governance_refresh_moderators S height
       (st\<lparr>gs_votes := finsert (vote_key v pw) (gs_votes st)\<rparr>)) (\<lambda>st. Inr (st, ledger))))))"

definition check_decision ::
  "extern \<Rightarrow> settings \<Rightarrow> transaction \<Rightarrow> utxo_map \<Rightarrow> u32 \<Rightarrow> gov_decision \<Rightarrow> gov_ctx \<Rightarrow> gov_ctx result" where
  "check_decision X S tx utxos height d ctx = (case ctx of (st, ledger) \<Rightarrow>
     rbind (gov_authorised X S tx utxos (gd_moderator d)) (\<lambda>_.
     rbind (ok_or (GovErr GovUnknownModerator) (fmlookup (gs_moderators st) (gd_moderator d))) (\<lambda>m.
     if mp_status m \<noteq> VsActive \<or> mp_lock_until_height m \<le> height then Inl (GovErr GovModeratorInactive)
     else if gd_slash_bps d > vg_max_initial_slash_bps (verified_governance S) then Inl (GovErr GovSlashMax) else
     rbind (ok_or (GovErr GovUnknownReport) (fmlookup (gs_reports st) (gd_report_id d))) (\<lambda>report.
     if rc_status report \<noteq> ''open'' \<and> rc_status report \<noteq> ''under_review'' then Inl (GovErr GovReportDecided)
     else if gd_decision d = ''reject'' then
       Inr (st\<lparr>gs_reports := fmupd (gd_report_id d)
         (report\<lparr>rc_status := ''rejected'', rc_decision_height := Some height\<rparr>) (gs_reports st)\<rparr>, ledger)
     else if gd_decision d \<in> {''warning'', ''minor'', ''major'', ''suspend'', ''revoke''} then
       (let st = st\<lparr>gs_reports := fmupd (gd_report_id d)
              (report\<lparr>rc_status := gd_decision d, rc_decision_height := Some height\<rparr>) (gs_reports st)\<rparr>
        in Inr (if gd_slash_bps d > 0
            then st\<lparr>gs_pending_slash_units := fmupd (pending_key (gd_report_id d)) (ucast (gd_slash_bps d))
              (gs_pending_slash_units st)\<rparr>
            else st, ledger))
     else Inl (GovErr GovDecision)))))"

definition validate_verified_governance_marker_with_state ::
  "extern \<Rightarrow> settings \<Rightarrow> transaction \<Rightarrow> gov_marker \<Rightarrow> utxo_map \<Rightarrow> block list \<Rightarrow> u32 \<Rightarrow> hash256 \<Rightarrow> nat \<Rightarrow>
    gov_ctx \<Rightarrow> gov_ctx result" where
  "validate_verified_governance_marker_with_state X S tx marker utxos prior_blocks height tid marker_index =
     (case marker of
        WalletApply w \<Rightarrow> check_wallet_apply X S tx utxos height w
      | PoolApply p \<Rightarrow> check_pool_apply X S tx utxos prior_blocks height p
      | Report r \<Rightarrow> check_report X S tx utxos height tid marker_index r
      | ModeratorApply m \<Rightarrow> check_moderator_apply X S tx utxos height m
      | Vote v \<Rightarrow> check_vote X S tx utxos height v
      | Decision d \<Rightarrow> check_decision X S tx utxos height d)"

definition validate_verified_governance_transaction_with_state ::
  "extern \<Rightarrow> settings \<Rightarrow> transaction \<Rightarrow> utxo_map \<Rightarrow> block list \<Rightarrow> u32 \<Rightarrow> gov_ctx \<Rightarrow> gov_ctx result" where
  "validate_verified_governance_transaction_with_state X S tx utxos prior_blocks height ctx =
     (case verified_governance_markers_in_tx X tx S of
        [] \<Rightarrow> Inr ctx
      | (idx, marker, atoms) # rest \<Rightarrow>
          if \<not> verified_governance_active S height then Inl (GovErr GovInactive)
          else if is_coinbase tx then Inl (GovErr GovCoinbase)
          else if rest \<noteq> [] then Inl (GovErr GovExactlyOne)
          else if atoms \<noteq> vg_marker_output_atoms (verified_governance S) then Inl (GovErr GovMarkerAmount)
          else validate_verified_governance_marker_with_state X S tx marker utxos prior_blocks height
            (txid X tx) idx ctx)"

section \<open>Replay\<close>

definition replay_vote :: "settings \<Rightarrow> u32 \<Rightarrow> gov_vote \<Rightarrow> gov_state \<Rightarrow> gov_state result" where
  "replay_vote S height v st =
     (let st = push_lock (gv_voter v) (gv_jin_units v) (gv_lock_until_height v) ''governance_vote'' st;
          mult = (case conviction_multiplier (gv_conviction v) of Inr m \<Rightarrow> m | Inl _ \<Rightarrow> 1);
          pw = sat_mul (gv_jin_units v) mult
      in verified_governance_refresh_moderators S height
           (st\<lparr>gs_votes := finsert (vote_key v pw) (gs_votes st)\<rparr>))"

definition replay_decision :: "u32 \<Rightarrow> gov_decision \<Rightarrow> gov_state \<Rightarrow> gov_state" where
  "replay_decision height d st =
     (case fmlookup (gs_reports st) (gd_report_id d) of
        None \<Rightarrow> st
      | Some report \<Rightarrow>
          let st = st\<lparr>gs_reports := fmupd (gd_report_id d)
                (report\<lparr>rc_status := gd_decision d, rc_decision_height := Some height\<rparr>) (gs_reports st)\<rparr>
          in if gd_slash_bps d > 0
             then st\<lparr>gs_pending_slash_units := fmupd (pending_key (gd_report_id d)) (ucast (gd_slash_bps d))
               (gs_pending_slash_units st)\<rparr>
             else st)"

definition apply_verified_governance_marker_unchecked ::
  "extern \<Rightarrow> settings \<Rightarrow> gov_marker \<Rightarrow> hash256 \<Rightarrow> nat \<Rightarrow> u32 \<Rightarrow> gov_state \<Rightarrow> gov_state result" where
  "apply_verified_governance_marker_unchecked X S marker tid marker_index height st =
     (case marker of
        WalletApply w \<Rightarrow>
          rbind (verified_avatar_meta (wa_avatar_hash w) (wa_avatar_mime w) (wa_avatar_size_bytes w)
            (wa_avatar_ref w) S) (\<lambda>avatar.
          let st = push_lock (wa_address w) (wa_bond_units w) (wa_lock_until_height w) ''wallet_verification'' st in
          Inr (st\<lparr>gs_wallets := fmupd (wa_address w) (wallet_profile w avatar height) (gs_wallets st)\<rparr>))
      | PoolApply p \<Rightarrow>
          rbind (verified_avatar_meta (pa_avatar_hash p) (pa_avatar_mime p) (pa_avatar_size_bytes p)
            (pa_avatar_ref p) S) (\<lambda>avatar.
          let st = push_lock (pa_owner p) (pa_bond_units p) (pa_lock_until_height p) ''pool_verification'' st in
          Inr (st\<lparr>gs_pools := fmupd (pa_pool_id p) (pool_profile p avatar height) (gs_pools st)\<rparr>))
      | Report r \<Rightarrow>
          let st = push_lock (gr_reporter r) (gr_bond_units r) (report_bond_until S height) ''report_bond'' st;
              report_id = report_id_of X tid marker_index in
          Inr (st\<lparr>gs_reports := fmupd report_id (open_report r report_id height) (gs_reports st)\<rparr>)
      | ModeratorApply m \<Rightarrow>
          let st = push_lock (ma_candidate m) (ma_bond_units m) (ma_lock_until_height m) ''moderator_candidate'' st in
          Inr (st\<lparr>gs_moderators := fmupd (ma_candidate m) (moderator_candidate m) (gs_moderators st)\<rparr>)
      | Vote v \<Rightarrow> replay_vote S height v st
      | Decision d \<Rightarrow> Inr (replay_decision height d st))"

definition gov_replay_tx :: "extern \<Rightarrow> settings \<Rightarrow> u32 \<Rightarrow> transaction \<Rightarrow> gov_state \<Rightarrow> gov_state result" where
  "gov_replay_tx X S height tx =
     fold_r (\<lambda>(idx, marker, atoms) st.
       if atoms \<noteq> vg_marker_output_atoms (verified_governance S) then Inl (GovErr GovMarkerAmount)
       else apply_verified_governance_marker_unchecked X S marker (txid X tx) idx height st)
       (verified_governance_markers_in_tx X tx S)"

definition gov_replay_block :: "extern \<Rightarrow> settings \<Rightarrow> nat \<times> block \<Rightarrow> gov_state \<Rightarrow> gov_state result" where
  "gov_replay_block X S hb st = (case hb of (n, b) \<Rightarrow>
     if \<not> verified_governance_active S (of_nat n) then Inr st
     else fold_r (gov_replay_tx X S (of_nat n)) (drop 1 (blk_transactions b)) st)"

definition verified_governance_state_from_blocks :: "extern \<Rightarrow> settings \<Rightarrow> block list \<Rightarrow> gov_state result" where
  "verified_governance_state_from_blocks X S blocks =
     (if \<not> vg_enabled (verified_governance S) then Inr gov_state_default
      else fold_r (gov_replay_block X S) (numbered blocks) gov_state_default)"

section \<open>The locks and the JIN ledger\<close>

definition take_lock :: "string \<times> u128 \<Rightarrow> jin_ledger \<Rightarrow> jin_ledger result" where
  "take_lock ou ledger = (case ou of (owner, units) \<Rightarrow>
     let cur = get_or0 ledger owner in
     if cur < units then Inl (GovErr GovLockExceedsBalance) else Inr (fmupd owner (cur - units) ledger))"

definition apply_verified_governance_locks_to_jin_ledger ::
  "extern \<Rightarrow> settings \<Rightarrow> block list \<Rightarrow> jin_ledger \<Rightarrow> jin_ledger result" where
  "apply_verified_governance_locks_to_jin_ledger X S blocks ledger =
     (if \<not> vg_enabled (verified_governance S) then Inr ledger else
      let visible_height = of_nat (length blocks - 1) in
      if visible_height < vg_activation_height (verified_governance S) then Inr ledger else
      rbind (verified_governance_state_from_blocks X S blocks) (\<lambda>st.
      fold_r take_lock (sorted_list_of_fmap (verified_governance_active_locks_from_state st visible_height)) ledger))"

definition verified_wallet_profile_for_address ::
  "extern \<Rightarrow> settings \<Rightarrow> chain_state \<Rightarrow> string \<Rightarrow> verified_wallet_profile option result" where
  "verified_wallet_profile_for_address X S chain a =
     rbind (parse_with_prefix X a (net_address_prefix (network S))) (\<lambda>_.
     rbind (verified_governance_state_from_blocks X S (cs_blocks chain)) (\<lambda>st.
     Inr (fmlookup (gs_wallets st) a)))"

definition verified_pool_profile_for_pool ::
  "extern \<Rightarrow> settings \<Rightarrow> chain_state \<Rightarrow> hash256 \<Rightarrow> verified_pool_profile option result" where
  "verified_pool_profile_for_pool X S chain pool_id =
     rbind (verified_governance_state_from_blocks X S (cs_blocks chain)) (\<lambda>st.
     Inr (fmlookup (gs_pools st) pool_id))"

section \<open>Counting votes does not depend on the order of the set\<close>

lemma sat_add_left_commute: "sat_add (sat_add a b) c = sat_add (sat_add a c) (b :: 'w::len word)"
proof -
  have "unat (sat_add (sat_add a b) c) = unat (sat_add (sat_add a c) b)"
    by (simp add: unat_sat_add)
  then show ?thesis by (simp add: word_unat_eq_iff)
qed

lemma support_of_upd [simp]: "support_of (fmupd c e m) d = (if d = c then e else support_of m d)"
  by (simp add: support_of_def)

lemma add_support_Some:
  "moderator_vote k = Some (c, p) \<Longrightarrow>
    add_support k m = fmupd c (sat_add (fst (support_of m c)) p, sat_add (snd (support_of m c)) 1) m"
  by (simp add: add_support_def split_beta)

lemma add_support_commute: "add_support k (add_support j m) = add_support j (add_support k m)"
proof (cases "moderator_vote k")
  case (Some cp)
  obtain c p where k: "moderator_vote k = Some (c, p)" using Some by (cases cp) auto
  show ?thesis
  proof (cases "moderator_vote j")
    case (Some dq)
    obtain d q where j: "moderator_vote j = Some (d, q)" using Some by (cases dq) auto
    show ?thesis
    proof (cases "c = d")
      case True
      then show ?thesis
        by (intro fmap_ext) (simp add: add_support_Some [OF k] add_support_Some [OF j] sat_add_left_commute [of _ p q])
    next
      case False
      then show ?thesis
        by (intro fmap_ext) (auto simp: add_support_Some [OF k] add_support_Some [OF j])
    qed
  qed (simp add: add_support_def)
qed (simp add: add_support_def)

lemma support_order_irrelevant: "mset xs = mset ys \<Longrightarrow> fold add_support xs m = fold add_support ys m"
  by (rule fun_cong [OF fold_multiset_equiv]) (auto simp: fun_eq_iff add_support_commute)

section \<open>Locks and the ledger add up\<close>

definition locks_total :: "gov_state \<Rightarrow> nat" where
  "locks_total st = sum_list (map (\<lambda>l. unat (vl_units l)) (gs_locks st))"

lemma require_lock_Inr:
  assumes "require_verified_governance_lock S owner units lock h reason (st, l) = Inr (st', l')"
  shows "st' = push_lock owner units lock reason st" and "l' = fmupd owner (get_or0 l owner - units) l"
    and "units \<le> get_or0 l owner" and "units \<noteq> 0"
    and "sat_add h (vg_min_lock_blocks (verified_governance S)) \<le> lock"
  using assms by (auto simp: require_verified_governance_lock_def verified_governance_available_jin_def Let_def
      not_less split: if_splits)

text \<open>What one lock does: units leave the owner's balance and appear as a lock.\<close>

definition gov_locks_move :: "string \<Rightarrow> gov_ctx \<Rightarrow> gov_ctx \<Rightarrow> bool" where
  "gov_locks_move owner ctx ctx' \<longleftrightarrow> (case (ctx, ctx') of ((st, l), (st', l')) \<Rightarrow>
     jin_total l' + locks_total st' = jin_total l + locks_total st \<and>
     (\<exists>new. gs_locks st' = gs_locks st @ new \<and> list_all (\<lambda>k. vl_owner k = owner) new) \<and>
     (\<forall>a. a \<noteq> owner \<longrightarrow> get_or0 l' a = get_or0 l a))"

lemma require_lock_moves:
  assumes "require_verified_governance_lock S owner units lock h reason (st, l) = Inr (st', l')"
    and "gs_locks st'' = gs_locks st'"
  shows "gov_locks_move owner (st, l) (st'', l')"
proof -
  note r = require_lock_Inr [OF assms(1)]
  have "jin_debit owner units l = (Inr (), l')" using r by (simp add: jin_debit_ok)
  from jin_debit_total [OF this] have "jin_total l' + unat units = jin_total l" .
  moreover have "gs_locks st'' = gs_locks st @ [\<lparr>vl_owner = owner, vl_units = units,
      vl_lock_until_height = lock, vl_reason = reason\<rparr>]"
    using r(1) assms(2) by (simp add: push_lock_def)
  ultimately show ?thesis using r(2) by (simp add: gov_locks_move_def locks_total_def)
qed

lemma refresh_Inr:
  "verified_governance_refresh_moderators S h st = Inr st' \<Longrightarrow>
    gs_locks st' = gs_locks st \<and> gs_votes st' = gs_votes st \<and> gs_reports st' = gs_reports st \<and>
    gs_wallets st' = gs_wallets st \<and> gs_pools st' = gs_pools st"
  by (auto simp: verified_governance_refresh_moderators_def result_simps)

text \<open>The address an action is signed by.\<close>

definition gov_actor :: "gov_marker \<Rightarrow> string" where
  "gov_actor marker =
     (case marker of
        WalletApply w \<Rightarrow> wa_address w | PoolApply p \<Rightarrow> pa_owner p | Report r \<Rightarrow> gr_reporter r
      | ModeratorApply m \<Rightarrow> ma_candidate m | Vote v \<Rightarrow> gv_voter v | Decision d \<Rightarrow> gd_moderator d)"

lemma gov_authorised_Inr:
  "gov_authorised X S tx u a = Inr () \<longleftrightarrow>
    (\<exists>addr. parse_with_prefix X a (net_address_prefix (network S)) = Inr addr \<and> input_authorizes_address tx u addr)"
  by (auto simp: gov_authorised_def result_simps)

lemma gov_marker_authorised:
  "validate_verified_governance_marker_with_state X S tx marker u bs h tid i ctx = Inr ctx' \<Longrightarrow>
    gov_authorised X S tx u (gov_actor marker) = Inr ()"
  by (cases marker) (auto simp: validate_verified_governance_marker_with_state_def gov_actor_def
      check_wallet_apply_def check_pool_apply_def check_report_def check_moderator_apply_def check_vote_def
      check_decision_def result_simps split: prod.splits)

lemma gov_marker_moves:
  assumes "validate_verified_governance_marker_with_state X S tx marker u bs h tid i (st, l) = Inr (st', l')"
  shows "gov_locks_move (gov_actor marker) (st, l) (st', l')"
proof (cases marker)
  case (WalletApply w)
  with assms obtain st1 where "require_verified_governance_lock S (wa_address w) (wa_bond_units w)
      (wa_lock_until_height w) h ''wallet_verification'' (st, l) = Inr (st1, l')" "gs_locks st' = gs_locks st1"
    by (auto simp: validate_verified_governance_marker_with_state_def check_wallet_apply_def result_simps split: prod.splits)
  from require_lock_moves [OF this] show ?thesis by (simp add: WalletApply gov_actor_def)
next
  case (PoolApply p)
  with assms obtain st1 where "require_verified_governance_lock S (pa_owner p) (pa_bond_units p)
      (pa_lock_until_height p) h ''pool_verification'' (st, l) = Inr (st1, l')" "gs_locks st' = gs_locks st1"
    by (auto simp: validate_verified_governance_marker_with_state_def check_pool_apply_def result_simps split: prod.splits)
  from require_lock_moves [OF this] show ?thesis by (simp add: PoolApply gov_actor_def)
next
  case (Report r)
  with assms obtain st1 where "require_verified_governance_lock S (gr_reporter r) (gr_bond_units r)
      (report_bond_until S h) h ''report_bond'' (st, l) = Inr (st1, l')" "gs_locks st' = gs_locks st1"
    by (auto simp: validate_verified_governance_marker_with_state_def check_report_def result_simps Let_def split: prod.splits)
  from require_lock_moves [OF this] show ?thesis by (simp add: Report gov_actor_def)
next
  case (ModeratorApply m)
  with assms obtain st1 where "require_verified_governance_lock S (ma_candidate m) (ma_bond_units m)
      (ma_lock_until_height m) h ''moderator_candidate'' (st, l) = Inr (st1, l')" "gs_locks st' = gs_locks st1"
    by (auto simp: validate_verified_governance_marker_with_state_def check_moderator_apply_def result_simps split: prod.splits)
  from require_lock_moves [OF this] show ?thesis by (simp add: ModeratorApply gov_actor_def)
next
  case (Vote v)
  with assms obtain st1 where "require_verified_governance_lock S (gv_voter v) (gv_jin_units v)
      (gv_lock_until_height v) h ''governance_vote'' (st, l) = Inr (st1, l')" "gs_locks st' = gs_locks st1"
    by (auto simp: validate_verified_governance_marker_with_state_def check_vote_def result_simps
        dest!: refresh_Inr split: prod.splits)
  from require_lock_moves [OF this] show ?thesis by (simp add: Vote gov_actor_def)
next
  case (Decision d)
  with assms have "l' = l" "gs_locks st' = gs_locks st"
    by (auto simp: validate_verified_governance_marker_with_state_def check_decision_def result_simps Let_def
        split: prod.splits if_splits)
  then show ?thesis by (simp add: gov_locks_move_def locks_total_def)
qed

section \<open>Checked actions are replayed\<close>

lemma checked_mul_sat: "checked_mul a b = Some c \<Longrightarrow> sat_mul a b = c"
  by (auto simp: checked_mul_def sat_mul_def split: if_splits)

lemma vote_recorded:
  assumes "check_vote X S tx u h v (st, l) = Inr (st', l')"
  shows "replay_vote S h v st = Inr st'"
proof -
  from assms obtain mult pw st1 where m: "conviction_multiplier (gv_conviction v) = Inr mult"
    and p: "checked_mul (gv_jin_units v) mult = Some pw"
    and r: "require_verified_governance_lock S (gv_voter v) (gv_jin_units v) (gv_lock_until_height v) h
      ''governance_vote'' (st, l) = Inr (st1, l')"
    and f: "verified_governance_refresh_moderators S h (st1\<lparr>gs_votes := finsert (vote_key v pw) (gs_votes st1)\<rparr>) = Inr st'"
    by (auto simp: check_vote_def result_simps split: prod.splits if_splits)
  from require_lock_Inr(1) [OF r] m f show ?thesis by (simp add: replay_vote_def checked_mul_sat [OF p])
qed

text \<open>Every accepted action but a decision that rejects a report is replayed as it was checked.\<close>

lemma gov_marker_recorded:
  assumes "validate_verified_governance_marker_with_state X S tx marker u bs h tid i (st, l) = Inr (st', l')"
    and "\<And>d. marker = Decision d \<Longrightarrow> gd_decision d \<noteq> ''reject''"
  shows "apply_verified_governance_marker_unchecked X S marker tid i h st = Inr st'"
proof (cases marker)
  case (WalletApply w)
  with assms(1) have "check_wallet_apply X S tx u h w (st, l) = Inr (st', l')"
    by (simp add: validate_verified_governance_marker_with_state_def)
  then obtain avatar st1 where a: "verified_avatar_meta (wa_avatar_hash w) (wa_avatar_mime w)
      (wa_avatar_size_bytes w) (wa_avatar_ref w) S = Inr avatar"
    and r: "require_verified_governance_lock S (wa_address w) (wa_bond_units w) (wa_lock_until_height w) h
      ''wallet_verification'' (st, l) = Inr (st1, l')"
    and st': "st' = st1\<lparr>gs_wallets := fmupd (wa_address w) (wallet_profile w avatar h) (gs_wallets st1)\<rparr>"
    by (auto simp: check_wallet_apply_def result_simps)
  from require_lock_Inr(1) [OF r] a st' show ?thesis
    by (simp add: WalletApply apply_verified_governance_marker_unchecked_def Let_def)
next
  case (PoolApply p)
  with assms(1) have "check_pool_apply X S tx u bs h p (st, l) = Inr (st', l')"
    by (simp add: validate_verified_governance_marker_with_state_def)
  then obtain avatar st1 where a: "verified_avatar_meta (pa_avatar_hash p) (pa_avatar_mime p)
      (pa_avatar_size_bytes p) (pa_avatar_ref p) S = Inr avatar"
    and r: "require_verified_governance_lock S (pa_owner p) (pa_bond_units p) (pa_lock_until_height p) h
      ''pool_verification'' (st, l) = Inr (st1, l')"
    and st': "st' = st1\<lparr>gs_pools := fmupd (pa_pool_id p) (pool_profile p avatar h) (gs_pools st1)\<rparr>"
    by (auto simp: check_pool_apply_def result_simps)
  from require_lock_Inr(1) [OF r] a st' show ?thesis
    by (simp add: PoolApply apply_verified_governance_marker_unchecked_def Let_def)
next
  case (Report r)
  with assms(1) have "check_report X S tx u h tid i r (st, l) = Inr (st', l')"
    by (simp add: validate_verified_governance_marker_with_state_def)
  then obtain st1 where q: "require_verified_governance_lock S (gr_reporter r) (gr_bond_units r)
      (report_bond_until S h) h ''report_bond'' (st, l) = Inr (st1, l')"
    and st': "st' = st1\<lparr>gs_reports := fmupd (report_id_of X tid i) (open_report r (report_id_of X tid i) h) (gs_reports st1)\<rparr>"
    by (auto simp: check_report_def result_simps Let_def)
  from require_lock_Inr(1) [OF q] st' show ?thesis
    by (simp add: Report apply_verified_governance_marker_unchecked_def Let_def)
next
  case (ModeratorApply m)
  with assms(1) have "check_moderator_apply X S tx u h m (st, l) = Inr (st', l')"
    by (simp add: validate_verified_governance_marker_with_state_def)
  then obtain st1 where q: "require_verified_governance_lock S (ma_candidate m) (ma_bond_units m)
      (ma_lock_until_height m) h ''moderator_candidate'' (st, l) = Inr (st1, l')"
    and st': "st' = st1\<lparr>gs_moderators := fmupd (ma_candidate m) (moderator_candidate m) (gs_moderators st1)\<rparr>"
    by (auto simp: check_moderator_apply_def result_simps)
  from require_lock_Inr(1) [OF q] st' show ?thesis
    by (simp add: ModeratorApply apply_verified_governance_marker_unchecked_def Let_def)
next
  case (Vote v)
  with assms(1) have "check_vote X S tx u h v (st, l) = Inr (st', l')"
    by (simp add: validate_verified_governance_marker_with_state_def)
  from vote_recorded [OF this] show ?thesis by (simp add: Vote apply_verified_governance_marker_unchecked_def)
next
  case (Decision d)
  note no_reject = assms(2) [OF Decision]
  from Decision assms(1) have c: "check_decision X S tx u h d (st, l) = Inr (st', l')"
    by (simp add: validate_verified_governance_marker_with_state_def)
  then obtain report where r: "fmlookup (gs_reports st) (gd_report_id d) = Some report"
    by (auto simp: check_decision_def result_simps simp del: insert_iff)
  from c no_reject r have "st' = replay_decision h d st"
    by (cases "0 < gd_slash_bps d")
      (auto simp: check_decision_def replay_decision_def result_simps Let_def simp del: insert_iff)
  then show ?thesis by (simp add: Decision apply_verified_governance_marker_unchecked_def)
qed

text \<open>
  A decision that rejects a report is replayed differently: the report's status is the text of the
  decision and not \<open>rejected\<close>, and a slash of the decision is stored although checking it stores
  none.
\<close>

lemma gov_reject_recorded_differently:
  assumes "validate_verified_governance_marker_with_state X S tx (Decision d) u bs h tid i (st, l) = Inr (st', l')"
    and "gd_decision d = ''reject''"
  shows "\<exists>report st''. apply_verified_governance_marker_unchecked X S (Decision d) tid i h st = Inr st'' \<and>
    fmlookup (gs_reports st') (gd_report_id d) = Some (report\<lparr>rc_status := ''rejected''\<rparr>) \<and>
    fmlookup (gs_reports st'') (gd_report_id d) = Some (report\<lparr>rc_status := ''reject''\<rparr>) \<and>
    gs_pending_slash_units st' = gs_pending_slash_units st \<and>
    (gd_slash_bps d > 0 \<longrightarrow>
      fmlookup (gs_pending_slash_units st'') (pending_key (gd_report_id d)) = Some (ucast (gd_slash_bps d)))"
proof -
  from assms obtain report where r: "fmlookup (gs_reports st) (gd_report_id d) = Some report"
    and st': "st' = st\<lparr>gs_reports := fmupd (gd_report_id d)
      (report\<lparr>rc_status := ''rejected'', rc_decision_height := Some h\<rparr>) (gs_reports st)\<rparr>"
    by (auto simp: validate_verified_governance_marker_with_state_def check_decision_def result_simps
        split: if_splits)
  let ?r = "report\<lparr>rc_decision_height := Some h\<rparr>" and ?t = "replay_decision h d st"
  have "fmlookup (gs_reports ?t) (gd_report_id d) = Some (?r\<lparr>rc_status := ''reject''\<rparr>)"
    "gd_slash_bps d > 0 \<Longrightarrow>
      fmlookup (gs_pending_slash_units ?t) (pending_key (gd_report_id d)) = Some (ucast (gd_slash_bps d))"
    using r assms(2) by (simp_all add: replay_decision_def Let_def)
  moreover have "fmlookup (gs_reports st') (gd_report_id d) = Some (?r\<lparr>rc_status := ''rejected''\<rparr>)"
    "gs_pending_slash_units st' = gs_pending_slash_units st"
    by (simp_all add: st')
  moreover have "apply_verified_governance_marker_unchecked X S (Decision d) tid i h st = Inr ?t"
    by (simp add: apply_verified_governance_marker_unchecked_def)
  ultimately show ?thesis by blast
qed

end
