(* ===== verification/JinLedger.thy ===== *)
theory JinLedger
  imports GovState JinSale PoolPayout
begin

text \<open>
  The JIN ledger of \<open>src/lib.rs\<close>: the ledger rebuilt from the blocks (\<open>jin_ledger_from_blocks\<close>:
  sale purchases, transfers, conversions, infusion, fees of pool blocks, governance locks), the check
  of one transaction against a ledger, and of a transaction or block against the chain. Ledger
  operations are state transformers (\<open>StateErr\<close>), since the loops over the mempool go on with
  what a failing transaction left behind.
\<close>

definition coinbase_miner_address :: "extern \<Rightarrow> settings \<Rightarrow> block \<Rightarrow> string option" where
  "coinbase_miner_address X S b =
     (case blk_transactions b of [] \<Rightarrow> None | coinbase # _ \<Rightarrow>
     (case tx_outputs coinbase of [] \<Rightarrow> None | out # _ \<Rightarrow>
        map_option (address_to_string X)
          (address_from_script_pubkey (net_address_prefix (network S)) (script_pubkey out))))"

definition block_miner :: "extern \<Rightarrow> settings \<Rightarrow> block \<Rightarrow> string option" where
  "block_miner X S b =
     (if parse_pool_block_marker X b \<noteq> None then None else coinbase_miner_address X S b)"

section \<open>Replay\<close>

text \<open>The ledger with the infusion state, and the JIN fees collected in a pool block.\<close>

type_synonym fee_state = "jin_state \<times> u128"

definition on_ledger :: "(jin_ledger, 'a) se \<Rightarrow> (fee_state, 'a) se" where
  "on_ledger m = on_fst (on_fst m)"

definition collect_fee :: "err \<Rightarrow> bool \<Rightarrow> string \<Rightarrow> u128 \<Rightarrow> (fee_state, unit) se" where
  "collect_fee e pool_block fee_asset units =
     (if pool_block \<and> fee_asset = ''JIN''
      then on_snd (se_bind (se_need (\<lambda>fees. ok_or e (checked_add fees units))) (\<lambda>f. se_modify (\<lambda>_. f)))
      else se_return ())"

definition replay_purchase :: "settings \<Rightarrow> u32 \<Rightarrow> nat \<times> jin_sale_purchase \<times> u64 \<Rightarrow> (fee_state, unit) se" where
  "replay_purchase S height = (\<lambda>(_, purchase, marker_atoms).
     if height < swap_activation_height (jin_swap S) then se_fail (SaleErr SaleInactive)
     else if marker_atoms \<noteq> swap_marker_output_atoms (jin_swap S) then se_fail (SaleErr SaleMarkerAmount)
     else on_ledger (apply_jin_sale_purchase S purchase))"

definition replay_transfer ::
  "settings \<Rightarrow> bool \<Rightarrow> string option \<Rightarrow> nat \<times> jin_transfer \<times> u64 \<Rightarrow> (fee_state, unit) se" where
  "replay_transfer S pool_block miner = (\<lambda>(_, transfer, marker_atoms).
     if marker_atoms \<noteq> jin_marker_output_atoms (jin S) then se_fail (JinErr JinMarkerAmount)
     else se_then (collect_fee (JinErr JinFeeOverflow) pool_block (jt_fee_asset transfer) (jt_fee_units transfer))
       (on_ledger (apply_jin_transfer transfer miner)))"

definition replay_conversion ::
  "settings \<Rightarrow> u32 \<Rightarrow> bool \<Rightarrow> string option \<Rightarrow> nat \<times> jin_conversion \<times> u64 \<Rightarrow> (fee_state, unit) se" where
  "replay_conversion S height pool_block miner = (\<lambda>(_, conversion, marker_atoms).
     if height < jin_conversion_activation_height (jin S) then se_fail (JinErr JinConversionInactive)
     else if marker_atoms \<noteq> jin_marker_output_atoms (jin S) then se_fail (JinErr JinConversionMarkerAmount)
     else se_then (collect_fee (JinErr JinConversionFeeOverflow) pool_block (jc_fee_asset conversion)
         (jc_fee_units conversion))
       (on_ledger (apply_jin_conversion S conversion miner)))"

definition replay_infusion :: "settings \<Rightarrow> u32 \<Rightarrow> nat \<times> infusion_marker \<times> u64 \<Rightarrow> (fee_state, unit) se" where
  "replay_infusion S height = (\<lambda>(_, marker, marker_atoms).
     if \<not> qub_jin_infusion_active S height then se_fail (InfusionErr InfInactive)
     else if marker_atoms \<noteq> jin_marker_output_atoms (jin S) then se_fail (InfusionErr InfMarkerAmount)
     else on_fst (qub_jin_apply_marker_unchecked S marker))"

definition ledger_tx ::
  "extern \<Rightarrow> settings \<Rightarrow> u32 \<Rightarrow> bool \<Rightarrow> string option \<Rightarrow> transaction \<Rightarrow> (fee_state, unit) se" where
  "ledger_tx X S height pool_block miner tx =
     se_then (se_for (replay_purchase S height) (jin_sale_purchases_in_tx X tx S))
    (se_then (se_for (replay_transfer S pool_block miner) (jin_transfers_in_tx X tx S))
    (se_then (se_for (replay_conversion S height pool_block miner) (jin_conversions_in_tx X tx S))
       (se_for (replay_infusion S height) (qub_jin_infusion_markers_in_tx X tx S))))"

definition credit_receivers :: "(string \<times> u128) list \<Rightarrow> (jin_ledger, unit) se" where
  "credit_receivers = se_for (\<lambda>(addr, units). jin_credit addr units)"

definition ledger_block ::
  "extern \<Rightarrow> settings \<Rightarrow> block list \<Rightarrow> nat \<times> block \<Rightarrow> jin_state \<Rightarrow> jin_state result" where
  "ledger_block X S blocks hb st = (case hb of (n, b) \<Rightarrow>
     let height = of_nat n in
     rbind (se_run (if height = qub_jin_infusion_activation_height S then qub_jin_apply_bootstrap S
       else se_return ()) st) (\<lambda>st.
     if height < jin_activation_height (jin S) then Inr st else
     let pool_block = (parse_pool_block_marker X b \<noteq> None); miner = block_miner X S b in
     rbind (se_run (se_for (ledger_tx X S height pool_block miner) (drop 1 (blk_transactions b))) (st, 0))
       (\<lambda>((ledger, ist), block_jin_fees).
     if pool_block \<and> block_jin_fees > 0 then
       rbind (jin_fee_receivers_for_block X S (take (unat height) blocks) b block_jin_fees) (\<lambda>rows.
       rbind (se_run (credit_receivers rows) ledger) (\<lambda>ledger. Inr (ledger, ist)))
     else Inr (ledger, ist))))"

definition jin_state_start :: "settings \<Rightarrow> jin_state result" where
  "jin_state_start S =
     rbind (se_run (jin_credit (jin_protocol_address (jin S)) JIN_TOTAL_SUPPLY_UNITS) fmempty) (\<lambda>ledger.
     Inr (ledger, infusion_inactive S))"

definition jin_state_from_blocks :: "extern \<Rightarrow> settings \<Rightarrow> block list \<Rightarrow> jin_state result" where
  "jin_state_from_blocks X S blocks =
     rbind (jin_state_start S) (fold_r (ledger_block X S blocks) (numbered blocks))"

definition jin_ledger_from_blocks :: "extern \<Rightarrow> settings \<Rightarrow> block list \<Rightarrow> jin_ledger result" where
  "jin_ledger_from_blocks X S blocks =
     (if \<not> jin_enabled (jin S) \<or> \<not> feat_jin_native_coin_enabled (features S) then Inr fmempty
      else if of_nat (length blocks - 1) < jin_activation_height (jin S) then Inr fmempty else
      rbind (jin_state_from_blocks X S blocks) (\<lambda>(ledger, _).
      apply_verified_governance_locks_to_jin_ledger X S blocks ledger))"

section \<open>Checking a transaction against a ledger\<close>

text \<open>The running fee total of the function beside the ledger it changes.\<close>

definition counting :: "(jin_ledger \<times> u128, unit) se \<Rightarrow> (jin_ledger, u128) se" where
  "counting m = (\<lambda>l. case m (l, 0) of (Inr (), (l', f)) \<Rightarrow> (Inr f, l') | (Inl e, (l', _)) \<Rightarrow> (Inl e, l'))"

definition count_fee :: "err \<Rightarrow> string \<Rightarrow> u128 \<Rightarrow> (jin_ledger \<times> u128, unit) se" where
  "count_fee e fee_asset units =
     (if fee_asset = ''JIN''
      then on_snd (se_bind (se_need (\<lambda>fees. ok_or e (checked_add fees units))) (\<lambda>f. se_modify (\<lambda>_. f)))
      else se_return ())"

definition check_transfer ::
  "extern \<Rightarrow> settings \<Rightarrow> transaction \<Rightarrow> utxo_map \<Rightarrow> string option \<Rightarrow> nat \<times> jin_transfer \<times> u64 \<Rightarrow>
    (jin_ledger \<times> u128, unit) se" where
  "check_transfer X S tx utxos miner = (\<lambda>(_, transfer, marker_atoms).
     if marker_atoms \<noteq> jin_marker_output_atoms (jin S) then se_fail (JinErr JinMarkerAmount) else
     se_bind (se_need (\<lambda>_. parse_with_prefix X (jt_from transfer) (net_address_prefix (network S)))) (\<lambda>from.
     se_bind (se_need (\<lambda>_. parse_with_prefix X (jt_to transfer) (net_address_prefix (network S)))) (\<lambda>_.
     if \<not> input_authorizes_address tx utxos from then se_fail (JinErr JinUnauthorized) else
     se_then (count_fee (JinErr JinFeeOverflow) (jt_fee_asset transfer) (jt_fee_units transfer))
       (on_fst (apply_jin_transfer transfer miner)))))"

definition check_conversion ::
  "extern \<Rightarrow> settings \<Rightarrow> transaction \<Rightarrow> utxo_map \<Rightarrow> u32 \<Rightarrow> string option \<Rightarrow> nat \<times> jin_conversion \<times> u64 \<Rightarrow>
    (jin_ledger \<times> u128, unit) se" where
  "check_conversion X S tx utxos height miner = (\<lambda>(_, conversion, marker_atoms).
     if \<not> jin_conversion_active S height then se_fail (JinErr JinConversionDisabled)
     else if marker_atoms \<noteq> jin_marker_output_atoms (jin S) then se_fail (JinErr JinConversionMarkerAmount) else
     se_bind (se_need (\<lambda>_. parse_with_prefix X (jc_from conversion) (net_address_prefix (network S)))) (\<lambda>from.
     if \<not> input_authorizes_address tx utxos from then se_fail (JinErr JinConversionUnauthorized) else
     se_then (count_fee (JinErr JinConversionFeeOverflow) (jc_fee_asset conversion) (jc_fee_units conversion))
       (on_fst (apply_jin_conversion S conversion miner))))"

definition check_purchase :: "settings \<Rightarrow> u32 \<Rightarrow> nat \<times> jin_sale_purchase \<times> u64 \<Rightarrow> (jin_ledger \<times> u128, unit) se" where
  "check_purchase S height = (\<lambda>(_, purchase, marker_atoms).
     if \<not> jin_swap_active S height then se_fail (SaleErr SaleInactive)
     else if marker_atoms \<noteq> swap_marker_output_atoms (jin_swap S) then se_fail (SaleErr SaleMarkerAmount)
     else on_fst (apply_jin_sale_purchase S purchase))"

definition validate_jin_transaction_with_ledger ::
  "extern \<Rightarrow> settings \<Rightarrow> transaction \<Rightarrow> utxo_map \<Rightarrow> u32 \<Rightarrow> string option \<Rightarrow> (jin_ledger, u128) se" where
  "validate_jin_transaction_with_ledger X S tx utxos height miner =
     (let transfers = jin_transfers_in_tx X tx S; conversions = jin_conversions_in_tx X tx S;
          purchases = jin_sale_purchases_in_tx X tx S in
      if transfers = [] \<and> conversions = [] \<and> purchases = [] then se_return 0
      else if \<not> jin_active S height then se_fail (JinErr JinInactive)
      else counting
        (se_then (se_for (check_transfer X S tx utxos miner) transfers)
        (se_then (se_for (check_conversion X S tx utxos height miner) conversions)
           (se_for (check_purchase S height) purchases))))"

definition validate_qub_jin_infusion_transaction_with_state ::
  "extern \<Rightarrow> settings \<Rightarrow> transaction \<Rightarrow> utxo_map \<Rightarrow> u32 \<Rightarrow> (jin_state, unit) se" where
  "validate_qub_jin_infusion_transaction_with_state X S tx utxos height =
     (let markers = qub_jin_infusion_markers_in_tx X tx S in
      if markers = [] then se_return ()
      else if \<not> qub_jin_infusion_active S height then se_fail (InfusionErr InfInactive)
      else if is_coinbase tx then se_fail (InfusionErr InfCoinbase)
      else if length markers \<noteq> 1 then se_fail (InfusionErr InfExactlyOne)
      else if jin_transfers_in_tx X tx S \<noteq> [] \<or> jin_conversions_in_tx X tx S \<noteq> [] \<or>
        jin_sale_purchases_in_tx X tx S \<noteq> [] then se_fail (InfusionErr InfStandalone)
      else (case markers ! 0 of (_, marker, marker_atoms) \<Rightarrow>
        if marker_atoms \<noteq> jin_marker_output_atoms (jin S) then se_fail (InfusionErr InfMarkerAmount) else
        se_bind (se_need (\<lambda>_. parse_with_prefix X (im_from marker) (net_address_prefix (network S)))) (\<lambda>from.
        if \<not> input_authorizes_address tx utxos from then se_fail (InfusionErr InfUnauthorized) else
        se_then
          (case marker of
             MeltQub _ qub_atoms _ \<Rightarrow>
               se_bind (se_need (\<lambda>_. validate_tx_contextual X tx utxos height S True)) (\<lambda>raw_fee_plus_burn.
               if raw_fee_plus_burn < qub_atoms then se_fail (InfusionErr MeltMustBurn) else se_return ())
           | InfuseJin _ _ \<Rightarrow> se_return ())
          (qub_jin_apply_marker_unchecked S marker))))"

end
