(* ===== verification/JinChain.thy ===== *)
theory JinChain
  imports JinLedger
begin

text \<open>
  JIN against the chain and the mempool (\<open>src/lib.rs\<close>): the checks of a transaction that wants to
  enter the mempool (transfers, infusion, the public sale), with the pending transactions applied
  first, the check of a block, and the balance and listings shown to a wallet. The loops over the
  mempool keep what a pending transaction changed before it failed.
\<close>

section \<open>The order of pending transactions\<close>

definition mempool_template_priority :: "extern \<Rightarrow> settings \<Rightarrow> transaction \<Rightarrow> u8" where
  "mempool_template_priority X S tx =
     (if is_pool_share_transaction tx then 0
      else if is_jin_sale_purchase_transaction X tx S then 1
      else if is_qub_jin_infusion_transaction X tx S then 2
      else if is_jin_protocol_transaction X tx S then 3
      else if is_blast_claim_transaction X tx S then 4
      else if library_markers_in_tx X tx S \<noteq> [] then 5
      else 16)"

text \<open>\<open>sort_by_cached_key\<close> with the priority and the text of the transaction id.\<close>

definition priority_le :: "extern \<Rightarrow> settings \<Rightarrow> transaction \<Rightarrow> transaction \<Rightarrow> bool" where
  "priority_le X S a b \<longleftrightarrow>
     mempool_template_priority X S a < mempool_template_priority X S b \<or>
     mempool_template_priority X S a = mempool_template_priority X S b \<and>
       hash_to_string X (txid X a) \<le> hash_to_string X (txid X b)"

definition by_priority :: "extern \<Rightarrow> settings \<Rightarrow> transaction list \<Rightarrow> transaction list" where
  "by_priority X S txs = sort_by (priority_le X S) txs"

section \<open>Transfers, conversions and infusion\<close>

definition pending_jin ::
  "extern \<Rightarrow> settings \<Rightarrow> utxo_map \<Rightarrow> u32 \<Rightarrow> transaction \<Rightarrow> jin_state \<Rightarrow> jin_state" where
  "pending_jin X S utxos height mem st =
     (case on_fst (validate_jin_transaction_with_ledger X S mem utxos height None) st of
        (Inr _, st) \<Rightarrow> snd (validate_qub_jin_infusion_transaction_with_state X S mem utxos height st)
      | (Inl _, st) \<Rightarrow> st)"

definition jin_states_at :: "extern \<Rightarrow> settings \<Rightarrow> block list \<Rightarrow> u32 \<Rightarrow> u32 \<Rightarrow> jin_state result" where
  "jin_states_at X S blocks prior_visible_height spend_height =
     rbind (jin_ledger_from_blocks X S blocks) (\<lambda>ledger.
     rbind (qub_jin_infusion_state_from_blocks X S blocks) (\<lambda>ist.
     se_run (qub_jin_apply_bootstrap_for_context S prior_visible_height spend_height) (ledger, ist)))"

definition validate_jin_transaction_against_chain ::
  "extern \<Rightarrow> settings \<Rightarrow> transaction \<Rightarrow> chain_state \<Rightarrow> u32 \<Rightarrow> u128 result" where
  "validate_jin_transaction_against_chain X S tx chain spend_height =
     (if \<not> is_jin_protocol_transaction X tx S then Inr 0 else
      rbind (jin_states_at X S (cs_blocks chain) (chain_height chain) spend_height) (\<lambda>st.
      let st = fold (pending_jin X S (cs_utxos chain) spend_height)
            (filter (\<lambda>mem. txid X mem \<noteq> txid X tx) (cs_mempool chain)) st in
      fst (validate_jin_transaction_with_ledger X S tx (cs_utxos chain) spend_height None (fst st))))"

definition pending_infusion ::
  "extern \<Rightarrow> settings \<Rightarrow> u32 \<Rightarrow> transaction \<Rightarrow> jin_state \<times> utxo_map \<Rightarrow> jin_state \<times> utxo_map" where
  "pending_infusion X S height mem s = (case s of (st, scratch) \<Rightarrow>
     (case on_fst (validate_jin_transaction_with_ledger X S mem scratch height None) st of
        (Inr _, st) \<Rightarrow>
          (snd (validate_qub_jin_infusion_transaction_with_state X S mem scratch height st),
           snd (connect_in_place X mem height False scratch))
      | (Inl _, st) \<Rightarrow> (st, scratch)))"

definition validate_qub_jin_infusion_transaction_against_chain ::
  "extern \<Rightarrow> settings \<Rightarrow> transaction \<Rightarrow> chain_state \<Rightarrow> u32 \<Rightarrow> unit result" where
  "validate_qub_jin_infusion_transaction_against_chain X S tx chain spend_height =
     (if qub_jin_infusion_markers_in_tx X tx S = [] then Inr () else
      rbind (jin_states_at X S (cs_blocks chain) (chain_height chain) spend_height) (\<lambda>st.
      case fold (pending_infusion X S spend_height)
          (filter (\<lambda>mem. txid X mem \<noteq> txid X tx) (by_priority X S (cs_mempool chain))) (st, cs_utxos chain) of
        (st, scratch) \<Rightarrow> fst (validate_qub_jin_infusion_transaction_with_state X S tx scratch spend_height st)))"

definition validate_jin_tx ::
  "extern \<Rightarrow> settings \<Rightarrow> u32 \<Rightarrow> bool \<Rightarrow> string option \<Rightarrow> transaction \<Rightarrow>
    (jin_state \<times> utxo_map) \<times> u128 \<Rightarrow> ((jin_state \<times> utxo_map) \<times> u128) result" where
  "validate_jin_tx X S height pool_block miner tx s = (case s of ((st, scratch), fees) \<Rightarrow>
     if \<not> jin_active S height \<and> (jin_transfers_in_tx X tx S \<noteq> [] \<or> jin_conversions_in_tx X tx S \<noteq> [])
     then Inl (JinErr JinInactive)
     else if \<not> jin_conversion_active S height \<and> jin_conversions_in_tx X tx S \<noteq> []
     then Inl (JinErr JinConversionDisabled) else
     rbind (validate_tx_contextual X tx scratch height S True) (\<lambda>_.
     case validate_jin_transaction_with_ledger X S tx scratch height miner (fst st) of
       (Inl e, _) \<Rightarrow> Inl e
     | (Inr fee_units, ledger) \<Rightarrow>
       rbind (se_run (validate_qub_jin_infusion_transaction_with_state X S tx scratch height) (ledger, snd st)) (\<lambda>st.
       rbind (if pool_block then ok_or (JinErr JinBlockFeeOverflow) (checked_add fees fee_units) else Inr fees) (\<lambda>fees.
       rbind (connect_tx_utxos X tx height False scratch) (\<lambda>scratch. Inr ((st, scratch), fees))))))"

definition validate_jin_block ::
  "extern \<Rightarrow> settings \<Rightarrow> block \<Rightarrow> block list \<Rightarrow> utxo_map \<Rightarrow> u32 \<Rightarrow> unit result" where
  "validate_jin_block X S b prior_blocks base_utxos height =
     (if list_all (\<lambda>tx. \<not> is_jin_protocol_transaction X tx S) (drop 1 (blk_transactions b)) then Inr () else
      rbind (jin_states_at X S prior_blocks (of_nat (length prior_blocks - 1)) height) (\<lambda>st.
      let pool_block = (parse_pool_block_marker X b \<noteq> None); miner = block_miner X S b in
      rbind (fold_r (validate_jin_tx X S height pool_block miner) (drop 1 (blk_transactions b))
        ((st, base_utxos), 0)) (\<lambda>(((ledger, _), _), block_jin_fees).
      if pool_block \<and> block_jin_fees > 0 then
        rbind (jin_fee_receivers_for_block X S prior_blocks b block_jin_fees) (\<lambda>rows.
        rbind (se_run (credit_receivers rows) ledger) (\<lambda>_. Inr ()))
      else Inr ())))"

section \<open>The balance a wallet shows\<close>

definition optimistic_marker :: "settings \<Rightarrow> infusion_marker \<Rightarrow> jin_state \<Rightarrow> jin_state" where
  "optimistic_marker S marker st =
     (case qub_jin_apply_marker_unchecked S marker st of (Inr _, st') \<Rightarrow> st' | (Inl _, _) \<Rightarrow> st)"

definition optimistic_tx :: "extern \<Rightarrow> settings \<Rightarrow> transaction \<Rightarrow> jin_state \<Rightarrow> jin_state" where
  "optimistic_tx X S tx st =
     (let st = fold (\<lambda>(_, purchase, _) st. snd (on_fst (apply_jin_sale_purchase S purchase) st))
            (jin_sale_purchases_in_tx X tx S) st;
          st = fold (\<lambda>(_, transfer, _) st. snd (on_fst (apply_jin_transfer transfer None) st))
            (jin_transfers_in_tx X tx S) st;
          st = fold (\<lambda>(_, conversion, _) st. snd (on_fst (apply_jin_conversion S conversion None) st))
            (jin_conversions_in_tx X tx S) st
      in fold (\<lambda>(_, marker, _). optimistic_marker S marker) (qub_jin_infusion_markers_in_tx X tx S) st)"

definition jin_balance_units_for_address :: "extern \<Rightarrow> settings \<Rightarrow> chain_state \<Rightarrow> string \<Rightarrow> u128 result" where
  "jin_balance_units_for_address X S chain a =
     rbind (parse_with_prefix X a (net_address_prefix (network S))) (\<lambda>_.
     rbind (jin_ledger_from_blocks X S (cs_blocks chain)) (\<lambda>ledger.
     rbind (qub_jin_infusion_state_from_blocks X S (cs_blocks chain)) (\<lambda>ist.
     let st = snd (qub_jin_apply_bootstrap_for_context S (chain_height chain) (chain_height chain + 1) (ledger, ist));
         st = fold (optimistic_tx X S) (cs_mempool chain) st
     in Inr (get_or0 (fst st) a))))"

section \<open>The public sale with the mempool\<close>

text \<open>The loop over the inputs of a pending purchase that stops at the first conflict.\<close>

definition sale_conflict :: "utxo_map \<Rightarrow> outpoint fset \<Rightarrow> transaction \<Rightarrow> bool" where
  "sale_conflict utxos spent tx \<longleftrightarrow>
     list_ex (\<lambda>input. previous_output input \<noteq> outpoint_null \<and>
       (fmlookup utxos (previous_output input) = None \<or> previous_output input |\<in>| spent)) (tx_inputs tx)"

definition pending_sale ::
  "extern \<Rightarrow> settings \<Rightarrow> chain_state \<Rightarrow> hash256 option \<Rightarrow> transaction \<Rightarrow> jin_sold \<times> outpoint fset \<Rightarrow>
    jin_sold \<times> outpoint fset" where
  "pending_sale X S chain exclude_txid tx s = (case s of (sold, spent) \<Rightarrow>
     if exclude_txid = Some (txid X tx) then s else
     let purchases = jin_sale_purchases_in_tx X tx S in
     if purchases = [] then s
     else if sale_conflict (cs_utxos chain) spent tx then s
     else if \<not> is_ok (hf106_jin_sale_standardness_policy X tx S) then s
     else (case validate_jin_sale_purchase_state X S purchases tx (cs_utxos chain) (chain_height chain + 1) sold of
         Inl _ \<Rightarrow> s
       | Inr (sold, _) \<Rightarrow>
           (sold, fold (\<lambda>input sp. if previous_output input \<noteq> outpoint_null then finsert (previous_output input) sp else sp)
             (tx_inputs tx) spent)))"

definition jin_sale_sold_by_listing_with_mempool_except ::
  "extern \<Rightarrow> settings \<Rightarrow> chain_state \<Rightarrow> hash256 option \<Rightarrow> jin_sold result" where
  "jin_sale_sold_by_listing_with_mempool_except X S chain exclude_txid =
     rbind (jin_sale_sold_by_listing_from_blocks X S (cs_blocks chain)) (\<lambda>sold.
     Inr (fst (fold (pending_sale X S chain exclude_txid) (by_priority X S (cs_mempool chain)) (sold, {||}))))"

definition jin_sale_sold_by_listing_with_mempool :: "extern \<Rightarrow> settings \<Rightarrow> chain_state \<Rightarrow> jin_sold result" where
  "jin_sale_sold_by_listing_with_mempool X S chain = jin_sale_sold_by_listing_with_mempool_except X S chain None"

definition jin_sale_listing_at :: "settings \<Rightarrow> u32 \<Rightarrow> jin_sold \<Rightarrow> u32 \<Rightarrow> jin_sale_listing result" where
  "jin_sale_listing_at S display_height sold listing_id =
     rbind (jin_swap_sale_listing_total_units_at_height S listing_id display_height) (\<lambda>total_units.
     let sold_units = min (get_or0 sold listing_id) total_units;
         remaining_units = sat_sub total_units sold_units in
     rbind (jin_swap_sale_listing_price_atoms_per_jin S listing_id) (\<lambda>price.
     Inr \<lparr>sl_listing_id = listing_id, sl_price_atoms_per_jin = price, sl_total_units = total_units,
       sl_sold_units = sold_units, sl_remaining_units = remaining_units\<rparr>))"

definition jin_sale_listings :: "extern \<Rightarrow> settings \<Rightarrow> chain_state \<Rightarrow> jin_sale_listing list result" where
  "jin_sale_listings X S chain =
     rbind (jin_sale_sold_by_listing_with_mempool X S chain) (\<lambda>sold.
     rbind (jin_swap_sale_batch_count S) (\<lambda>count.
     map_r (jin_sale_listing_at S (chain_height chain + 1) sold) (map of_nat [0..<unat count])))"

definition validate_jin_sale_transaction_against_chain ::
  "extern \<Rightarrow> settings \<Rightarrow> transaction \<Rightarrow> chain_state \<Rightarrow> u32 \<Rightarrow> u64 result" where
  "validate_jin_sale_transaction_against_chain X S tx chain spend_height =
     (let purchases = jin_sale_purchases_in_tx X tx S in
      if purchases = [] then Inr 0 else
      rbind (jin_sale_sold_by_listing_with_mempool_except X S chain (Some (txid X tx))) (\<lambda>sold.
      rbind (validate_jin_sale_purchase_state X S purchases tx (cs_utxos chain) spend_height sold) (\<lambda>(_, fee).
      Inr fee)))"

end
