(* ===== verification/JinSupply.thy ===== *)
theory JinSupply
  imports JinChain
begin

text \<open>
  Properties of the JIN ledger rebuilt from the blocks: it never holds more than the JIN supply, the
  infusion vault holds exactly the reserve the infusion state accounts for, the two replays of the
  infusion state agree, and governance locks are taken out exactly once.
\<close>

section \<open>The supply\<close>

definition state_total :: "fee_state \<Rightarrow> nat" where
  "state_total s = jin_total (fst (fst s)) + unat (snd s)"

lemma jin_total_empty [simp]: "jin_total fmempty = 0"
  by (simp add: jin_total_def)

lemma purchase_total: "apply_jin_sale_purchase S p l = (Inr (), l') \<Longrightarrow> jin_total l' = jin_total l"
  by (auto simp: apply_jin_sale_purchase_def se_simps dest!: jin_debit_total jin_credit_total)

lemma infusion_marker_total:
  "qub_jin_apply_marker_unchecked S m (l, ist) = (Inr (), (l', ist')) \<Longrightarrow> jin_total l' = jin_total l"
  by (cases m) (auto simp: qub_jin_apply_marker_unchecked_def se_simps dest!: jin_debit_total jin_credit_total)

lemma bootstrap_total:
  assumes "qub_jin_apply_bootstrap S (l, ist) = (Inr (), (l', ist'))"
  shows "jin_total l' = jin_total l"
proof (cases "inf_active ist \<or> qub_jin_bootstrap_units S = 0")
  case True
  with assms show ?thesis by (auto simp: qub_jin_apply_bootstrap_def Let_def se_simps split: if_splits)
next
  case False
  with assms show ?thesis
    by (auto simp: qub_jin_apply_bootstrap_def Let_def se_simps dest!: jin_debit_total jin_credit_total)
qed

lemma on_ledger_ok:
  "on_ledger m ((l, ist), f) = (Inr a, s') \<longleftrightarrow> (\<exists>l'. m l = (Inr a, l') \<and> s' = ((l', ist), f))"
  by (cases s') (auto simp: on_ledger_def on_fst_def split: prod.splits)

lemma collect_fee_ok:
  "collect_fee e pool asset units (st, f) = (Inr a, s') \<longleftrightarrow>
    (\<exists>f'. s' = (st, f') \<and> unat f' = unat f + (if pool \<and> asset = ''JIN'' then unat units else 0))"
  by (cases s') (auto simp: collect_fee_def se_simps result_simps checked_add_Some word_unat_eq_iff)

lemma replay_purchase_total: "replay_purchase S h p s = (Inr (), s') \<Longrightarrow> state_total s' = state_total s"
  by (cases s rule: prod.exhaust; cases "fst s")
    (auto simp: replay_purchase_def se_simps on_ledger_ok state_total_def purchase_total split: prod.splits)

lemma replay_transfer_total:
  assumes "replay_transfer S pool miner t s = (Inr (), s')" and "pool \<longrightarrow> miner = None"
  shows "state_total s' \<le> state_total s"
proof -
  obtain l ist f where s: "s = ((l, ist), f)" by (metis prod.exhaust)
  obtain i tr m where t: "t = (i, tr, m)" by (metis prod.exhaust)
  from assms(1) obtain f' l' where f': "unat f' = unat f + (if pool \<and> jt_fee_asset tr = ''JIN'' then unat (jt_fee_units tr) else 0)"
    and l': "apply_jin_transfer tr miner l = (Inr (), l')" and s': "s' = ((l', ist), f')"
    by (auto simp: s t replay_transfer_def se_simps collect_fee_ok on_ledger_ok)
  from jin_transfer_total [OF l'] f' assms(2) show ?thesis by (auto simp: s s' state_total_def split: if_splits)
qed

lemma replay_conversion_total:
  assumes "replay_conversion S h pool miner t s = (Inr (), s')" and "pool \<longrightarrow> miner = None"
  shows "state_total s' \<le> state_total s"
proof -
  obtain l ist f where s: "s = ((l, ist), f)" by (metis prod.exhaust)
  obtain i c m where t: "t = (i, c, m)" by (metis prod.exhaust)
  from assms(1) obtain f' l' where f': "unat f' = unat f + (if pool \<and> jc_fee_asset c = ''JIN'' then unat (jc_fee_units c) else 0)"
    and l': "apply_jin_conversion S c miner l = (Inr (), l')" and s': "s' = ((l', ist), f')"
    by (auto simp: s t replay_conversion_def se_simps collect_fee_ok on_ledger_ok)
  from jin_conversion_total [OF l'] f' assms(2) show ?thesis by (auto simp: s s' state_total_def split: if_splits)
qed

lemma replay_infusion_total: "replay_infusion S h m s = (Inr (), s') \<Longrightarrow> state_total s' = state_total s"
proof -
  assume r: "replay_infusion S h m s = (Inr (), s')"
  obtain l ist f where s: "s = ((l, ist), f)" by (metis prod.exhaust)
  obtain l' ist' f' where s': "s' = ((l', ist'), f')" by (metis prod.exhaust)
  from r show ?thesis
    by (auto simp: s s' replay_infusion_def se_simps state_total_def infusion_marker_total split: prod.splits)
qed

lemma se_for_le:
  assumes "se_for f xs s = (Inr (), t)" and "\<And>x u v. f x u = (Inr (), v) \<Longrightarrow> g v \<le> g u"
  shows "g t \<le> (g s :: nat)"
  using assms(1) by (rule se_for_inv [where P = "\<lambda>u. g u \<le> g s"]) (use assms(2) in \<open>auto intro: le_trans\<close>)

lemma ledger_tx_total:
  assumes "ledger_tx X S h pool miner tx s = (Inr (), s')" and "pool \<longrightarrow> miner = None"
  shows "state_total s' \<le> state_total s"
proof -
  from assms(1) obtain s1 s2 s3 where 1: "se_for (replay_purchase S h) (jin_sale_purchases_in_tx X tx S) s = (Inr (), s1)"
    and 2: "se_for (replay_transfer S pool miner) (jin_transfers_in_tx X tx S) s1 = (Inr (), s2)"
    and 3: "se_for (replay_conversion S h pool miner) (jin_conversions_in_tx X tx S) s2 = (Inr (), s3)"
    and 4: "se_for (replay_infusion S h) (qub_jin_infusion_markers_in_tx X tx S) s3 = (Inr (), s')"
    by (auto simp: ledger_tx_def se_simps)
  have "state_total s1 \<le> state_total s" by (rule se_for_le [OF 1]) (simp add: replay_purchase_total)
  moreover have "state_total s2 \<le> state_total s1" by (rule se_for_le [OF 2]) (rule replay_transfer_total [OF _ assms(2)])
  moreover have "state_total s3 \<le> state_total s2" by (rule se_for_le [OF 3]) (rule replay_conversion_total [OF _ assms(2)])
  moreover have "state_total s' \<le> state_total s3" by (rule se_for_le [OF 4]) (simp add: replay_infusion_total)
  ultimately show ?thesis by linarith
qed

lemma credit_receivers_total:
  "credit_receivers rows l = (Inr (), l') \<Longrightarrow> jin_total l' = jin_total l + sum_list (map (\<lambda>r. unat (snd r)) rows)"
  unfolding credit_receivers_def
  by (induction rows arbitrary: l) (auto simp: se_simps dest!: jin_credit_total)

lemma tx_count_take: "tx_count (take n bs) \<le> tx_count bs"
  by (metis append_take_drop_id le_add1 map_append sum_list_append tx_count_def)

lemma ledger_block_total:
  assumes "ledger_block X S bs hb (l, ist) = Inr (l', ist')" and "tx_count bs < 2 ^ 128"
  shows "jin_total l' \<le> jin_total l"
proof -
  obtain n b where hb: "hb = (n, b)" by (cases hb)
  let ?h = "of_nat n :: u32" and ?pool = "parse_pool_block_marker X b \<noteq> None"
  from assms(1) obtain l1 inf1 where boot: "(if ?h = qub_jin_infusion_activation_height S then qub_jin_apply_bootstrap S
       else se_return ()) (l, ist) = (Inr (), (l1, inf1))"
    and rest: "?h < jin_activation_height (jin S) \<and> l' = l1 \<or>
      (\<exists>l2 inf2 fees. se_for (ledger_tx X S ?h ?pool (block_miner X S b)) (drop 1 (blk_transactions b)) ((l1, inf1), 0) =
          (Inr (), ((l2, inf2), fees)) \<and>
        (if ?pool \<and> fees > 0 then \<exists>rows. jin_fee_receivers_for_block X S (take (unat ?h) bs) b fees = Inr rows \<and>
           credit_receivers rows l2 = (Inr (), l')
         else l' = l2))"
    by (auto simp: hb ledger_block_def Let_def result_simps se_simps split: if_splits)
  have l1: "jin_total l1 = jin_total l"
    using boot bootstrap_total by (auto simp: se_simps split: if_splits)
  show ?thesis
  proof (cases "?h < jin_activation_height (jin S) \<and> l' = l1")
    case False
    with rest obtain l2 inf2 fees where txs: "se_for (ledger_tx X S ?h ?pool (block_miner X S b))
        (drop 1 (blk_transactions b)) ((l1, inf1), 0) = (Inr (), ((l2, inf2), fees))"
      and fin: "if ?pool \<and> fees > 0 then \<exists>rows. jin_fee_receivers_for_block X S (take (unat ?h) bs) b fees = Inr rows \<and>
           credit_receivers rows l2 = (Inr (), l') else l' = l2" by blast
    have "?pool \<longrightarrow> block_miner X S b = None" by (simp add: block_miner_def)
    then have "state_total ((l2, inf2), fees) \<le> state_total ((l1, inf1), 0)"
      using se_for_le [OF txs, of state_total] ledger_tx_total by blast
    then have le: "jin_total l2 + unat fees \<le> jin_total l" by (simp add: state_total_def l1)
    show ?thesis
    proof (cases "?pool \<and> fees > 0")
      case True
      with fin obtain rows where rows: "jin_fee_receivers_for_block X S (take (unat ?h) bs) b fees = Inr rows"
        and c: "credit_receivers rows l2 = (Inr (), l')" by auto
      have "tx_count (take (unat ?h) bs) < 2 ^ 128" using tx_count_take assms(2) by (rule le_less_trans)
      from jin_fee_receivers_exact [OF rows this] credit_receivers_total [OF c] le show ?thesis by auto
    qed (use fin le in auto)
  qed (use l1 in simp)
qed

lemma jin_state_total:
  assumes "jin_state_from_blocks X S bs = Inr (l, ist)" and "tx_count bs < 2 ^ 128"
  shows "jin_total l \<le> unat JIN_TOTAL_SUPPLY_UNITS"
proof -
  from assms(1) obtain s0 where s0: "jin_state_start S = Inr s0"
    and r: "fold_r (ledger_block X S bs) (numbered bs) s0 = Inr (l, ist)"
    by (auto simp: jin_state_from_blocks_def result_simps)
  have "jin_total (fst s0) \<le> unat JIN_TOTAL_SUPPLY_UNITS"
    using s0 by (auto simp: jin_state_start_def result_simps se_simps dest!: jin_credit_total)
  then have "jin_total (fst (l, ist)) \<le> unat JIN_TOTAL_SUPPLY_UNITS"
  proof (rule fold_r_inv [OF r, where P = "\<lambda>s. jin_total (fst s) \<le> unat JIN_TOTAL_SUPPLY_UNITS"])
    fix hb u v
    assume "jin_total (fst u) \<le> unat JIN_TOTAL_SUPPLY_UNITS" "ledger_block X S bs hb u = Inr v"
    then show "jin_total (fst v) \<le> unat JIN_TOTAL_SUPPLY_UNITS"
      using ledger_block_total [OF _ assms(2), of X S hb "fst u" "snd u" "fst v" "snd v"] by simp
  qed
  then show ?thesis by simp
qed

section \<open>Governance locks\<close>

lemma take_lock_Inr:
  "take_lock (a, u) l = Inr l' \<longleftrightarrow> u \<le> get_or0 l a \<and> l' = fmupd a (get_or0 l a - u) l"
  by (auto simp: take_lock_def Let_def not_less)

lemma take_locks_each:
  assumes "fold_r take_lock ps l = Inr l'" and "distinct (map fst ps)"
  shows "unat (get_or0 l' a) + (case map_of ps a of None \<Rightarrow> 0 | Some u \<Rightarrow> unat u) = unat (get_or0 l a)"
  using assms
proof (induction ps arbitrary: l)
  case (Cons p ps)
  obtain b u where p: "p = (b, u)" by (cases p)
  from Cons.prems(1) p have u: "u \<le> get_or0 l b" and r: "fold_r take_lock ps (fmupd b (get_or0 l b - u) l) = Inr l'"
    by (auto simp: result_simps take_lock_Inr)
  have none: "map_of ps b = None" using Cons.prems(2) p by (simp add: map_of_eq_None_iff)
  have "unat (get_or0 l b - u) + unat u = unat (get_or0 l b)" using u by (simp add: unat_sub word_le_nat_alt)
  with Cons.IH [OF r] Cons.prems(2) none p show ?case by (cases "a = b") auto
qed simp

lemma map_of_sorted_list_of_fmap: "map_of (sorted_list_of_fmap m) a = fmlookup m a"
proof (cases "fmlookup m a")
  case None
  then have "a \<notin> fst ` set (sorted_list_of_fmap m)"
    by (auto simp: sorted_list_of_fmap_def sorted_list_of_fset_fmdom)
  with None show ?thesis by (simp add: map_of_eq_None_iff)
next
  case (Some u)
  then have "(a, u) \<in> set (sorted_list_of_fmap m)"
    by (auto simp: sorted_list_of_fmap_def sorted_list_of_fset_fmdom fmdomI intro!: image_eqI [of _ _ a])
  with Some distinct_sorted_list_of_fmap [of m] show ?thesis by simp
qed

text \<open>What an owner has locked beyond a height: the sum of the units of the owner's locks.\<close>

definition locked_units :: "gov_state \<Rightarrow> u32 \<Rightarrow> string \<Rightarrow> nat" where
  "locked_units st h a = sum_list (map (\<lambda>k. unat (vl_units k))
     (filter (\<lambda>k. vl_owner k = a \<and> vl_lock_until_height k > h) (gs_locks st)))"

lemma active_locks_fold:
  "unat (get_or0 (fold (add_active_lock h) ks m) a) =
    min (unat (get_or0 m a) + sum_list (map (\<lambda>k. unat (vl_units k))
      (filter (\<lambda>k. vl_owner k = a \<and> vl_lock_until_height k > h) ks))) (2 ^ 128 - 1)"
proof (induction ks arbitrary: m)
  case Nil
  show ?case using unat_bound [of "get_or0 m a"] by simp
next
  case (Cons k ks)
  have "unat (get_or0 (add_active_lock h k m) a) =
      (if vl_owner k = a \<and> vl_lock_until_height k > h
       then min (unat (get_or0 m a) + unat (vl_units k)) (2 ^ 128 - 1) else unat (get_or0 m a))"
    by (auto simp: add_active_lock_def unat_sat_add)
  then show ?case by (auto simp: Cons.IH min_def)
qed

lemma active_locks_sum:
  "unat (get_or0 (verified_governance_active_locks_from_state st h) a) = min (locked_units st h a) (2 ^ 128 - 1)"
  by (simp add: verified_governance_active_locks_from_state_def active_locks_fold locked_units_def)

lemma governance_locks_each:
  assumes "apply_verified_governance_locks_to_jin_ledger X S bs l = Inr l'"
    and "vg_enabled (verified_governance S)"
    and "vg_activation_height (verified_governance S) \<le> of_nat (length bs - 1)"
  shows "\<exists>st. verified_governance_state_from_blocks X S bs = Inr st \<and>
    unat (get_or0 l' a) + min (locked_units st (of_nat (length bs - 1)) a) (2 ^ 128 - 1) = unat (get_or0 l a)"
proof -
  let ?h = "of_nat (length bs - 1) :: u32"
  from assms obtain st where st: "verified_governance_state_from_blocks X S bs = Inr st"
    and r: "fold_r take_lock (sorted_list_of_fmap (verified_governance_active_locks_from_state st ?h)) l = Inr l'"
    by (auto simp: apply_verified_governance_locks_to_jin_ledger_def Let_def result_simps not_less [symmetric])
  let ?m = "verified_governance_active_locks_from_state st ?h"
  have "(case fmlookup ?m a of None \<Rightarrow> 0 | Some u \<Rightarrow> unat u) = unat (get_or0 ?m a)"
    by (simp add: get_or0_def split: option.splits)
  with take_locks_each [OF r distinct_sorted_list_of_fmap, of a] st show ?thesis
    by (simp add: map_of_sorted_list_of_fmap active_locks_sum)
qed

lemma take_lock_total: "take_lock p l = Inr l' \<Longrightarrow> jin_total l' \<le> jin_total l"
proof -
  assume t: "take_lock p l = Inr l'"
  obtain a u where p: "p = (a, u)" by (cases p)
  from t have "jin_debit a u l = (Inr (), l')" by (simp add: p take_lock_Inr jin_debit_ok)
  then show ?thesis using jin_debit_total by fastforce
qed

lemma governance_locks_total:
  assumes "apply_verified_governance_locks_to_jin_ledger X S bs l = Inr l'"
  shows "jin_total l' \<le> jin_total l"
proof (cases "l' = l")
  case False
  with assms obtain m where r: "fold_r take_lock m l = Inr l'"
    by (auto simp: apply_verified_governance_locks_to_jin_ledger_def Let_def result_simps split: if_splits)
  show ?thesis
    by (rule fold_r_inv [OF r, where P = "\<lambda>u. jin_total u \<le> jin_total l"]) (auto dest: take_lock_total)
qed simp

section \<open>The infusion vault\<close>

text \<open>The vault's name is not an address, so no marker can name it.\<close>

lemma vault_not_address: "parse_with_prefix X a p = Inr q \<Longrightarrow> a \<noteq> QUB_JIN_INFUSION_VAULT"
proof
  assume "parse_with_prefix X a p = Inr q" "a = QUB_JIN_INFUSION_VAULT"
  then have p: "address_from_str X QUB_JIN_INFUSION_VAULT = Inr q" by (simp add: parse_with_prefix_Inr)
  have "trim QUB_JIN_INFUSION_VAULT = QUB_JIN_INFUSION_VAULT"
    by (rule trim_graphic) (simp_all add: QUB_JIN_INFUSION_VAULT_def is_ascii_graphic_def)
  moreover have "split_once (CHR ''1'') QUB_JIN_INFUSION_VAULT = None"
    by (simp add: split_once_None QUB_JIN_INFUSION_VAULT_def)
  ultimately have "address_from_str X QUB_JIN_INFUSION_VAULT \<noteq> Inr q" by (simp add: address_from_str_def)
  with p show False by simp
qed

lemma vault_not_ok: "is_ok (parse_with_prefix X a p) \<Longrightarrow> a \<noteq> QUB_JIN_INFUSION_VAULT"
  using vault_not_address by (auto simp: is_ok_iff)

lemma vault_not_printed: "address_to_string X a \<noteq> QUB_JIN_INFUSION_VAULT"
proof
  assume "address_to_string X a = QUB_JIN_INFUSION_VAULT"
  then have "CHR ''1'' \<in> set QUB_JIN_INFUSION_VAULT" by (metis address_to_string_def in_set_conv_decomp append_Cons append_Nil)
  then show False by (simp add: QUB_JIN_INFUSION_VAULT_def)
qed

lemma transfer_from_not_vault:
  assumes "(i, t, m) \<in> set (jin_transfers_in_tx X tx S)"
  shows "jt_from t \<noteq> QUB_JIN_INFUSION_VAULT"
proof -
  from markers_in_parsed [OF assms [unfolded jin_transfers_in_tx_def]] obtain out :: tx_out where "parse_jin_marker_script X (script_pubkey out) S = Some t"
    by blast
  then show ?thesis
    unfolding parse_jin_marker_script_def
    apply (split if_split_asm)
     apply simp
    apply (erule bind_eq_Some [THEN iffD1, THEN exE])
    apply (erule conjE)
    apply (auto simp: Let_def bind_eq_Some split: list.split_asm if_split_asm dest!: vault_not_ok)
    done
qed

lemma conversion_from_not_vault:
  assumes "(i, c, m) \<in> set (jin_conversions_in_tx X tx S)"
  shows "jc_from c \<noteq> QUB_JIN_INFUSION_VAULT"
proof -
  from markers_in_parsed [OF assms [unfolded jin_conversions_in_tx_def]] obtain out :: tx_out where "parse_jin_conversion_script X (script_pubkey out) S = Some c"
    by blast
  then show ?thesis
    unfolding parse_jin_conversion_script_def
    apply (split if_split_asm)
     apply simp
    apply (erule bind_eq_Some [THEN iffD1, THEN exE])
    apply (erule conjE)
    apply (auto simp: Let_def bind_eq_Some split: list.split_asm if_split_asm dest!: vault_not_ok)
    done
qed

lemma infusion_from_not_vault:
  assumes "(i, mk, m) \<in> set (qub_jin_infusion_markers_in_tx X tx S)"
  shows "im_from mk \<noteq> QUB_JIN_INFUSION_VAULT"
proof -
  from markers_in_parsed [OF assms [unfolded qub_jin_infusion_markers_in_tx_def]] obtain out :: tx_out where "parse_qub_jin_infusion_script X (script_pubkey out) S = Some mk"
    by blast
  then show ?thesis
    unfolding parse_qub_jin_infusion_script_def
    by (auto simp: Let_def result_simps vault_not_printed split: list.splits if_splits)
qed

text \<open>The reserve is covered by the vault.\<close>

definition vault_covers :: "jin_state \<Rightarrow> bool" where
  "vault_covers s \<longleftrightarrow> unat (inf_active_infused (snd s)) \<le> unat (get_or0 (fst s) QUB_JIN_INFUSION_VAULT)"

lemma credit_vault: "jin_credit a u l = (Inr (), l') \<Longrightarrow>
    unat (get_or0 l' b) = unat (get_or0 l b) + (if b = a then unat u else 0)"
  by (auto simp: jin_credit_ok)

lemma debit_vault: "jin_debit a u l = (Inr (), l') \<Longrightarrow>
    unat (get_or0 l' b) + (if b = a then unat u else 0) = unat (get_or0 l b)"
  by (auto simp: jin_debit_ok unat_sub word_le_nat_alt)

lemma transfer_vault:
  assumes "apply_jin_transfer t miner l = (Inr (), l')" and "jt_from t \<noteq> v"
  shows "unat (get_or0 l v) \<le> unat (get_or0 l' v)"
  using assms by (auto simp: apply_jin_transfer_def se_simps split: if_splits option.splits
      dest!: credit_vault [where b = v] debit_vault [where b = v])

lemma conversion_vault:
  assumes "apply_jin_conversion S c miner l = (Inr (), l')" and "jc_from c \<noteq> v"
  shows "unat (get_or0 l v) \<le> unat (get_or0 l' v)"
  using assms by (auto simp: apply_jin_conversion_def se_simps split: if_splits option.splits
      dest!: credit_vault [where b = v] debit_vault [where b = v])

lemma purchase_vault:
  assumes "apply_jin_sale_purchase S p l = (Inr (), l')" and "jin_protocol_address (jin S) \<noteq> v"
  shows "unat (get_or0 l v) \<le> unat (get_or0 l' v)"
  using assms by (auto simp: apply_jin_sale_purchase_def se_simps
      dest!: credit_vault [where b = v] debit_vault [where b = v])

lemma infusion_marker_vault:
  assumes "qub_jin_apply_marker_unchecked S mk s = (Inr (), s')" and "vault_covers s"
    and "im_from mk \<noteq> QUB_JIN_INFUSION_VAULT"
  shows "vault_covers s'"
proof -
  let ?v = QUB_JIN_INFUSION_VAULT
  obtain l ist where s: "s = (l, ist)" by (cases s)
  obtain l' ist' where s': "s' = (l', ist')" by (cases s')
  show ?thesis
  proof (cases mk)
    case (InfuseJin src amount)
    with assms(1) obtain d l1 where i: "qub_jin_apply_infuse_units amount ist = (Inr d, ist')"
      and l1: "jin_debit src amount l = (Inr (), l1)" and l2: "jin_credit ?v amount l1 = (Inr (), l')"
      by (auto simp: s s' qub_jin_apply_marker_unchecked_def se_simps)
    have "unat (get_or0 l1 ?v) = unat (get_or0 l ?v)"
      using debit_vault [OF l1, of ?v] InfuseJin assms(3) by simp
    with credit_vault [OF l2, of ?v] infuse_ok(5) [OF i] assms(2) show ?thesis by (simp add: vault_covers_def s s')
  next
    case (MeltQub src atoms least)
    with assms(1) obtain p l1 where i: "qub_jin_apply_melt_atoms atoms least ist = (Inr p, ist')"
      and l1: "jin_debit ?v p l = (Inr (), l1)" and l2: "jin_credit src p l1 = (Inr (), l')"
      by (auto simp: s s' qub_jin_apply_marker_unchecked_def se_simps)
    from debit_vault [OF l1, of ?v] credit_vault [OF l2, of ?v] melt_ok(7) [OF i] assms(2)
    show ?thesis by (simp add: vault_covers_def s s')
  qed
qed

lemma bootstrap_vault:
  assumes "qub_jin_apply_bootstrap S s = (Inr (), s')" and "vault_covers s"
    and "jin_protocol_address (jin S) \<noteq> QUB_JIN_INFUSION_VAULT"
  shows "vault_covers s'"
proof -
  let ?v = QUB_JIN_INFUSION_VAULT
  obtain l ist where s: "s = (l, ist)" by (cases s)
  obtain l' ist' where s': "s' = (l', ist')" by (cases s')
  show ?thesis
  proof (cases "inf_active ist \<or> qub_jin_bootstrap_units S = 0")
    case True
    with assms show ?thesis
      by (auto simp: s s' qub_jin_apply_bootstrap_def Let_def se_simps vault_covers_def split: if_splits)
  next
    case False
    with assms(1) obtain pa l1 where l1: "jin_debit (jin_protocol_address (jin S)) (qub_jin_bootstrap_units S) l = (Inr (), l1)"
      and l2: "jin_credit ?v (qub_jin_bootstrap_units S) l1 = (Inr (), l')"
      and c: "bootstrap_counters (qub_jin_bootstrap_units S) pa (ist\<lparr>inf_active := True\<rparr>) = (Inr (), ist')"
      by (auto simp: s s' qub_jin_apply_bootstrap_def Let_def se_simps)
    from debit_vault [OF l1, of ?v] credit_vault [OF l2, of ?v] bootstrap_counters_ok(2) [OF c] assms(2,3)
    show ?thesis by (simp add: vault_covers_def s s')
  qed
qed

lemma vault_covers_mono:
  "vault_covers (l, ist) \<Longrightarrow> unat (get_or0 l QUB_JIN_INFUSION_VAULT) \<le> unat (get_or0 l' QUB_JIN_INFUSION_VAULT) \<Longrightarrow>
    vault_covers (l', ist)"
  by (simp add: vault_covers_def)

text \<open>A transaction keeps the vault covered.\<close>

lemma ledger_tx_vault:
  assumes "ledger_tx X S h pool miner tx s = (Inr (), s')" and "vault_covers (fst s)"
    and "jin_protocol_address (jin S) \<noteq> QUB_JIN_INFUSION_VAULT"
  shows "vault_covers (fst s')"
proof -
  from assms(1) obtain s1 s2 s3 where 1: "se_for (replay_purchase S h) (jin_sale_purchases_in_tx X tx S) s = (Inr (), s1)"
    and 2: "se_for (replay_transfer S pool miner) (jin_transfers_in_tx X tx S) s1 = (Inr (), s2)"
    and 3: "se_for (replay_conversion S h pool miner) (jin_conversions_in_tx X tx S) s2 = (Inr (), s3)"
    and 4: "se_for (replay_infusion S h) (qub_jin_infusion_markers_in_tx X tx S) s3 = (Inr (), s')"
    by (auto simp: ledger_tx_def se_simps)
  have "vault_covers (fst s1)" using 1 assms(2)
  proof (rule se_for_inv [where P = "\<lambda>s. vault_covers (fst s)"])
    fix p u v assume "vault_covers (fst u)" "replay_purchase S h p u = (Inr (), v)"
    then show "vault_covers (fst v)"
      by (cases u; cases "fst u") (auto simp: replay_purchase_def se_simps on_ledger_ok split: prod.splits
          intro: vault_covers_mono dest!: purchase_vault [OF _ assms(3)])
  qed
  with 2 have "vault_covers (fst s2)"
  proof (rule se_for_inv [where P = "\<lambda>s. vault_covers (fst s)"])
    fix t u v assume "t \<in> set (jin_transfers_in_tx X tx S)" "vault_covers (fst u)" "replay_transfer S pool miner t u = (Inr (), v)"
    then show "vault_covers (fst v)"
      by (cases u; cases "fst u") (auto simp: replay_transfer_def se_simps on_ledger_ok collect_fee_ok split: prod.splits
          intro: vault_covers_mono dest!: transfer_from_not_vault transfer_vault [rotated])
  qed
  with 3 have "vault_covers (fst s3)"
  proof (rule se_for_inv [where P = "\<lambda>s. vault_covers (fst s)"])
    fix t u v assume "t \<in> set (jin_conversions_in_tx X tx S)" "vault_covers (fst u)" "replay_conversion S h pool miner t u = (Inr (), v)"
    then show "vault_covers (fst v)"
      by (cases u; cases "fst u") (auto simp: replay_conversion_def se_simps on_ledger_ok collect_fee_ok split: prod.splits
          intro: vault_covers_mono dest!: conversion_from_not_vault conversion_vault [rotated])
  qed
  with 4 show ?thesis
  proof (rule se_for_inv [where P = "\<lambda>s. vault_covers (fst s)"])
    fix t u v assume "t \<in> set (qub_jin_infusion_markers_in_tx X tx S)" "vault_covers (fst u)" "replay_infusion S h t u = (Inr (), v)"
    then show "vault_covers (fst v)"
      by (cases u; cases v) (auto simp: replay_infusion_def se_simps split: prod.splits
          intro: infusion_marker_vault dest!: infusion_from_not_vault)
  qed
qed

lemma receivers_vault:
  "credit_receivers rows l = (Inr (), l') \<Longrightarrow> unat (get_or0 l v) \<le> unat (get_or0 l' v)"
proof -
  assume "credit_receivers rows l = (Inr (), l')"
  then show ?thesis unfolding credit_receivers_def
    by (rule se_for_inv [where P = "\<lambda>u. unat (get_or0 l v) \<le> unat (get_or0 u v)"])
      (auto dest!: credit_vault [where b = v])
qed

lemma ledger_block_vault:
  assumes "ledger_block X S bs hb s = Inr s'" and "vault_covers s"
    and "jin_protocol_address (jin S) \<noteq> QUB_JIN_INFUSION_VAULT"
  shows "vault_covers s'"
proof -
  obtain n b where hb: "hb = (n, b)" by (cases hb)
  let ?h = "of_nat n :: u32" and ?pool = "parse_pool_block_marker X b \<noteq> None"
  from assms(1) obtain s1 where boot: "(if ?h = qub_jin_infusion_activation_height S then qub_jin_apply_bootstrap S
       else se_return ()) s = (Inr (), s1)"
    and rest: "s' = s1 \<or> (\<exists>l2 i2 fees l3. se_for (ledger_tx X S ?h ?pool (block_miner X S b))
        (drop 1 (blk_transactions b)) (s1, 0) = (Inr (), ((l2, i2), fees)) \<and> s' = (l3, i2) \<and>
        (l3 = l2 \<or> (\<exists>rows. credit_receivers rows l2 = (Inr (), l3))))"
    by (auto simp: hb ledger_block_def Let_def result_simps se_simps split: if_splits) blast+
  have s1: "vault_covers s1"
    using boot bootstrap_vault [OF _ assms(2,3)] assms(2) by (auto simp: se_simps split: if_splits)
  show ?thesis
  proof (cases "s' = s1")
    case False
    with rest obtain l2 i2 fees l3 where txs: "se_for (ledger_tx X S ?h ?pool (block_miner X S b))
        (drop 1 (blk_transactions b)) (s1, 0) = (Inr (), ((l2, i2), fees))" and s': "s' = (l3, i2)"
      and l3: "l3 = l2 \<or> (\<exists>rows. credit_receivers rows l2 = (Inr (), l3))" by blast
    have "vault_covers (fst ((l2, i2), fees))"
      using txs by (rule se_for_inv [where P = "\<lambda>s. vault_covers (fst s)"])
        (use s1 in \<open>auto intro: ledger_tx_vault [OF _ _ assms(3)]\<close>)
    moreover have "unat (get_or0 l2 QUB_JIN_INFUSION_VAULT) \<le> unat (get_or0 l3 QUB_JIN_INFUSION_VAULT)"
      using l3 receivers_vault by blast
    ultimately show ?thesis by (simp add: vault_covers_def s')
  qed (use s1 in simp)
qed

lemma jin_state_vault:
  assumes "jin_state_from_blocks X S bs = Inr s" and "jin_protocol_address (jin S) \<noteq> QUB_JIN_INFUSION_VAULT"
  shows "vault_covers s"
proof -
  from assms(1) obtain s0 where s0: "jin_state_start S = Inr s0"
    and r: "fold_r (ledger_block X S bs) (numbered bs) s0 = Inr s"
    by (auto simp: jin_state_from_blocks_def result_simps)
  have "vault_covers s0" using s0 by (auto simp: jin_state_start_def result_simps vault_covers_def infusion_inactive_def)
  then show ?thesis
    by (rule fold_r_inv [OF r]) (rule ledger_block_vault [OF _ _ assms(2)])
qed

section \<open>The two replays of the infusion state\<close>

lemma marker_state_only:
  assumes "qub_jin_apply_marker_unchecked S mk (l, ist) = (Inr (), (l', ist'))"
  shows "qub_jin_apply_marker_to_state_only mk ist = (Inr (), ist')"
  using assms by (cases mk) (auto simp: qub_jin_apply_marker_unchecked_def qub_jin_apply_marker_to_state_only_def se_simps)

lemma infusion_active_kept:
  "qub_jin_apply_marker_to_state_only mk ist = (Inr (), ist') \<Longrightarrow> inf_active ist' = inf_active ist"
  by (cases mk) (auto simp: qub_jin_apply_marker_to_state_only_def qub_jin_apply_infuse_units_def
      qub_jin_apply_melt_atoms_def add_per_atom_def add_lifetime_def add_active_def se_simps Let_def)

lemma purchases_state: "se_for (replay_purchase S h) ps s = (Inr (), s') \<Longrightarrow> snd (fst s') = snd (fst s)"
  by (rule se_for_inv [where P = "\<lambda>u. snd (fst u) = snd (fst s)"])
    (auto simp: replay_purchase_def se_simps on_ledger_def on_fst_def split: prod.splits)

lemma transfers_state: "se_for (replay_transfer S pool miner) ps s = (Inr (), s') \<Longrightarrow> snd (fst s') = snd (fst s)"
proof (rule se_for_inv [where P = "\<lambda>u. snd (fst u) = snd (fst s)"])
  fix x and u v :: fee_state
  assume "snd (fst u) = snd (fst s)" "replay_transfer S pool miner x u = (Inr (), v)"
  then show "snd (fst v) = snd (fst s)"
    by (cases u; cases "fst u") (auto simp: replay_transfer_def se_simps on_ledger_ok collect_fee_ok split: prod.splits)
qed auto

lemma conversions_state: "se_for (replay_conversion S h pool miner) ps s = (Inr (), s') \<Longrightarrow> snd (fst s') = snd (fst s)"
proof (rule se_for_inv [where P = "\<lambda>u. snd (fst u) = snd (fst s)"])
  fix x and u v :: fee_state
  assume "snd (fst u) = snd (fst s)" "replay_conversion S h pool miner x u = (Inr (), v)"
  then show "snd (fst v) = snd (fst s)"
    by (cases u; cases "fst u") (auto simp: replay_conversion_def se_simps on_ledger_ok collect_fee_ok split: prod.splits)
qed auto

lemma infusions_state:
  assumes "se_for (replay_infusion S h) ms s = (Inr (), s')"
  shows "se_for (\<lambda>(_, marker, marker_atoms).
       if marker_atoms \<noteq> jin_marker_output_atoms (jin S) then se_fail (InfusionErr InfMarkerAmount)
       else qub_jin_apply_marker_to_state_only marker) ms (snd (fst s)) = (Inr (), snd (fst s'))
    \<and> inf_active (snd (fst s')) = inf_active (snd (fst s)) \<and> (qub_jin_infusion_active S h \<or> ms = [])"
  using assms
proof (induction ms arbitrary: s)
  case (Cons m ms)
  obtain i mk a where m: "m = (i, mk, a)" by (cases m)
  from Cons.prems obtain u where u: "replay_infusion S h m s = (Inr (), u)" and r: "se_for (replay_infusion S h) ms u = (Inr (), s')"
    by (auto simp: se_simps)
  obtain l ist f where s: "s = ((l, ist), f)" by (metis prod.exhaust)
  obtain l1 ist1 f1 where u': "u = ((l1, ist1), f1)" by (metis prod.exhaust)
  from u have act: "qub_jin_infusion_active S h" "a = jin_marker_output_atoms (jin S)"
    and k: "qub_jin_apply_marker_unchecked S mk (l, ist) = (Inr (), (l1, ist1))"
    by (auto simp: m s u' replay_infusion_def se_simps split: if_splits)
  from Cons.IH [OF r] act marker_state_only [OF k] infusion_active_kept show ?case
    by (auto simp: m s u' se_simps)
qed (simp add: se_simps)

lemma ledger_tx_state:
  assumes "ledger_tx X S h pool miner tx s = (Inr (), s')"
  shows "infusion_apply_tx X S tx (snd (fst s)) = (Inr (), snd (fst s')) \<and>
    inf_active (snd (fst s')) = inf_active (snd (fst s)) \<and>
    (\<not> qub_jin_infusion_active S h \<longrightarrow> snd (fst s') = snd (fst s))"
proof -
  from assms obtain s1 s2 s3 where 1: "se_for (replay_purchase S h) (jin_sale_purchases_in_tx X tx S) s = (Inr (), s1)"
    and 2: "se_for (replay_transfer S pool miner) (jin_transfers_in_tx X tx S) s1 = (Inr (), s2)"
    and 3: "se_for (replay_conversion S h pool miner) (jin_conversions_in_tx X tx S) s2 = (Inr (), s3)"
    and 4: "se_for (replay_infusion S h) (qub_jin_infusion_markers_in_tx X tx S) s3 = (Inr (), s')"
    by (auto simp: ledger_tx_def se_simps)
  from purchases_state [OF 1] transfers_state [OF 2] conversions_state [OF 3]
  have "snd (fst s3) = snd (fst s)" by simp
  with infusions_state [OF 4] show ?thesis by (auto simp: infusion_apply_tx_def se_simps)
qed

lemma ledger_txs_state:
  assumes "se_for (ledger_tx X S h pool miner) txs s = (Inr (), s')"
  shows "(if \<not> qub_jin_infusion_active S h then se_return () else se_for (infusion_apply_tx X S) txs) (snd (fst s)) =
      (Inr (), snd (fst s')) \<and> inf_active (snd (fst s')) = inf_active (snd (fst s))"
  using assms
proof (induction txs arbitrary: s)
  case (Cons tx txs)
  then obtain u where u: "ledger_tx X S h pool miner tx s = (Inr (), u)"
    and r: "se_for (ledger_tx X S h pool miner) txs u = (Inr (), s')" by (auto simp: se_simps)
  from Cons.IH [OF r] ledger_tx_state [OF u] show ?case by (auto simp: se_simps split: if_splits)
qed (simp add: se_simps)

lemma bootstrap_counters_0: "bootstrap_counters 0 0 s = (Inr (), s)"
  using unat_bound [of "inf_lifetime_infused s"] unat_bound [of "inf_active_infused s"]
    unat_bound [of "inf_units_per_qub_atom s"]
  by (simp add: bootstrap_counters_def add_lifetime_def add_active_def add_per_atom_def se_then_def se_bind_def
      se_need_def se_modify_def checked_add_def)

lemma bootstrap_state:
  assumes "qub_jin_apply_bootstrap S (l, ist) = (Inr (), (l', ist'))" and "\<not> inf_active ist"
  shows "se_then (se_modify (inf_active_update (\<lambda>_. True)))
      (se_bind (se_need (\<lambda>_. qub_jin_bootstrap_units_per_atom S))
        (bootstrap_counters (qub_jin_bootstrap_units S))) ist = (Inr (), ist')"
proof (cases "qub_jin_bootstrap_units S = 0")
  case True
  with assms have "ist' = ist\<lparr>inf_active := True\<rparr>"
    by (auto simp: qub_jin_apply_bootstrap_def Let_def se_simps)
  with True show ?thesis
    by (auto simp: se_simps qub_jin_bootstrap_units_per_atom_def bootstrap_counters_0)
next
  case False
  with assms show ?thesis by (auto simp: qub_jin_apply_bootstrap_def Let_def se_simps)
qed

lemma ledger_block_state:
  assumes "ledger_block X S bs (n, b) (l, ist) = Inr (l', ist')"
    and "jin_activation_height (jin S) \<le> qub_jin_infusion_activation_height S"
    and "of_nat n = qub_jin_infusion_activation_height S \<longrightarrow> \<not> inf_active ist"
  shows "infusion_apply_block X S (n, b) ist = Inr ist' \<and>
    (of_nat n \<noteq> qub_jin_infusion_activation_height S \<longrightarrow> inf_active ist' = inf_active ist)"
proof -
  let ?h = "of_nat n :: u32" and ?pool = "parse_pool_block_marker X b \<noteq> None"
  let ?act = "qub_jin_infusion_activation_height S"
  from assms(1) obtain l1 ist1 where boot: "(if ?h = ?act then qub_jin_apply_bootstrap S
       else se_return ()) (l, ist) = (Inr (), (l1, ist1))"
    and rest: "?h < jin_activation_height (jin S) \<and> ist' = ist1 \<or>
      \<not> ?h < jin_activation_height (jin S) \<and> (\<exists>l2 fees. se_for (ledger_tx X S ?h ?pool (block_miner X S b))
        (drop 1 (blk_transactions b)) ((l1, ist1), 0) = (Inr (), ((l2, ist'), fees)))"
    by (auto simp: ledger_block_def Let_def result_simps se_simps split: if_splits)
  have 1: "(if ?h = ?act then se_then (se_modify (inf_active_update (\<lambda>_. True)))
      (se_bind (se_need (\<lambda>_. qub_jin_bootstrap_units_per_atom S)) (bootstrap_counters (qub_jin_bootstrap_units S)))
      else se_return ()) ist = (Inr (), ist1)"
    using boot assms(3) bootstrap_state by (auto simp: se_simps split: if_splits)
  have 2: "(if \<not> qub_jin_infusion_active S ?h then se_return () else
      se_for (infusion_apply_tx X S) (drop 1 (blk_transactions b))) ist1 = (Inr (), ist') \<and>
      inf_active ist' = inf_active ist1"
    using rest
  proof
    assume early: "?h < jin_activation_height (jin S) \<and> ist' = ist1"
    then have "\<not> qub_jin_infusion_active S ?h" using assms(2) by (auto simp: qub_jin_infusion_active_def)
    with early show ?thesis by (simp add: se_simps)
  next
    assume "\<not> ?h < jin_activation_height (jin S) \<and> (\<exists>l2 fees. se_for (ledger_tx X S ?h ?pool (block_miner X S b))
        (drop 1 (blk_transactions b)) ((l1, ist1), 0) = (Inr (), ((l2, ist'), fees)))"
    then show ?thesis using ledger_txs_state by fastforce
  qed
  have "infusion_apply_block X S (n, b) ist = Inr ist'"
    using 1 2 by (simp add: infusion_apply_block_def Let_def se_run_ok se_then_ok)
  moreover have "?h \<noteq> ?act \<longrightarrow> inf_active ist' = inf_active ist" using 1 2 by (auto simp: se_simps)
  ultimately show ?thesis by blast
qed

lemma ledger_fold_state:
  assumes "fold_r (ledger_block X S bs) (numbered cs) (l0, infusion_inactive S) = Inr (l, ist)"
    and "length cs \<le> 2 ^ 32" and "jin_activation_height (jin S) \<le> qub_jin_infusion_activation_height S"
  shows "qub_jin_infusion_state_from_blocks X S cs = Inr ist \<and>
    (length cs \<le> unat (qub_jin_infusion_activation_height S) \<longrightarrow> \<not> inf_active ist)"
  using assms(1,2)
proof (induction cs arbitrary: l ist rule: rev_induct)
  case Nil
  then show ?case by (auto simp: qub_jin_infusion_state_from_blocks_def infusion_inactive_def)
next
  case (snoc b cs)
  show ?case
  proof (cases "cs = []")
    case True
    with snoc.prems show ?thesis by (auto simp: qub_jin_infusion_state_from_blocks_def infusion_inactive_def)
  next
    case False
    with snoc.prems(1) obtain l1 ist1 where 1: "fold_r (ledger_block X S bs) (numbered cs) (l0, infusion_inactive S) = Inr (l1, ist1)"
      and 2: "ledger_block X S bs (length cs, b) (l1, ist1) = Inr (l, ist)"
      by (auto simp: numbered_snoc fold_r_append result_simps)
    note IH = snoc.IH [OF 1]
    have len: "unat (of_nat (length cs) :: u32) = length cs"
      using snoc.prems(2) by (intro unat_of_nat_less) simp
    have "\<not> inf_active ist1" if "of_nat (length cs) = qub_jin_infusion_activation_height S"
      using IH snoc.prems(2) len that by simp
    with ledger_block_state [OF 2 assms(3)]
    have b: "infusion_apply_block X S (length cs, b) ist1 = Inr ist"
      and k: "of_nat (length cs) \<noteq> qub_jin_infusion_activation_height S \<longrightarrow> inf_active ist = inf_active ist1" by blast+
    have "\<not> inf_active ist" if "length (cs @ [b]) \<le> unat (qub_jin_infusion_activation_height S)"
    proof -
      have "of_nat (length cs) \<noteq> qub_jin_infusion_activation_height S" using that len by auto
      with k IH snoc.prems(2) that show ?thesis by simp
    qed
    moreover have "qub_jin_infusion_state_from_blocks X S (cs @ [b]) = Inr ist"
      using False IH b snoc.prems(2)
      by (simp add: qub_jin_infusion_state_from_blocks_def numbered_snoc fold_r_append)
    ultimately show ?thesis by blast
  qed
qed

lemma jin_state_agrees:
  assumes "jin_state_from_blocks X S bs = Inr (l, ist)" and "length bs \<le> 2 ^ 32"
    and "jin_activation_height (jin S) \<le> qub_jin_infusion_activation_height S"
  shows "qub_jin_infusion_state_from_blocks X S bs = Inr ist"
proof -
  from assms(1) obtain l0 where "fold_r (ledger_block X S bs) (numbered bs) (l0, infusion_inactive S) = Inr (l, ist)"
    by (auto simp: jin_state_from_blocks_def jin_state_start_def result_simps)
  from ledger_fold_state [OF this assms(2,3)] show ?thesis by blast
qed

section \<open>The ledger of a chain\<close>

lemma jin_ledger_cases:
  assumes "jin_ledger_from_blocks X S bs = Inr l"
  obtains (off) "l = fmempty"
  | (on) l0 ist where "jin_state_from_blocks X S bs = Inr (l0, ist)"
      and "apply_verified_governance_locks_to_jin_ledger X S bs l0 = Inr l"
  using assms by (auto simp: jin_ledger_from_blocks_def result_simps split: if_splits)

lemma jin_ledger_total:
  assumes "jin_ledger_from_blocks X S bs = Inr l" and "tx_count bs < 2 ^ 128"
  shows "jin_total l \<le> unat JIN_TOTAL_SUPPLY_UNITS"
  using assms(1)
proof (cases rule: jin_ledger_cases)
  case (on l0 ist)
  from governance_locks_total [OF on(2)] jin_state_total [OF on(1) assms(2)] show ?thesis by simp
qed simp

text \<open>
  C35: The JIN supply is never exceeded: the balances of the ledger rebuilt from any chain add up to
  at most the 105 million coins credited at the start, whatever transfers, conversions, sale
  purchases, infusions, pool fee shares and governance locks the chain contains.
\<close>

theorem jin_supply_bounded:
  assumes "jin_ledger_from_blocks X S bs = Inr l" and "tx_count bs < 2 ^ 128"
  shows "jin_total l \<le> 105000000 * 10 ^ 18"
  using jin_ledger_total [OF assms] by (simp add: unat_JIN_TOTAL_SUPPLY_UNITS)

text \<open>
  C36: Locked JIN cannot be spent: in the ledger of a chain with verified governance active, every
  address can spend exactly the balance its transactions give it less the units of its locks that
  have not expired; a chain where the locks exceed a balance has no ledger.
\<close>

theorem governance_locks_reserved:
  assumes "jin_ledger_from_blocks X S bs = Inr l" and "tx_count bs < 2 ^ 128"
    and "jin_enabled (jin S)" and "feat_jin_native_coin_enabled (features S)"
    and "jin_activation_height (jin S) \<le> of_nat (length bs - 1)"
    and "verified_governance_active S (of_nat (length bs - 1))"
  shows "\<exists>l0 ist st. jin_state_from_blocks X S bs = Inr (l0, ist) \<and>
    verified_governance_state_from_blocks X S bs = Inr st \<and>
    (\<forall>a. unat (get_or0 l a) + locked_units st (of_nat (length bs - 1)) a = unat (get_or0 l0 a))"
proof -
  let ?h = "of_nat (length bs - 1) :: u32"
  have "\<not> ?h < jin_activation_height (jin S)" using assms(5) by simp
  with assms(1,3,4) obtain l0 ist where l0: "jin_state_from_blocks X S bs = Inr (l0, ist)"
    and locks: "apply_verified_governance_locks_to_jin_ledger X S bs l0 = Inr l"
    by (auto simp: jin_ledger_from_blocks_def result_simps)
  have vg: "vg_enabled (verified_governance S)" "vg_activation_height (verified_governance S) \<le> ?h"
    using assms(6) by (simp_all add: verified_governance_active_def)
  note each = governance_locks_each [OF locks vg]
  then obtain st where st: "verified_governance_state_from_blocks X S bs = Inr st" by blast
  have "unat (get_or0 l a) + locked_units st ?h a = unat (get_or0 l0 a)" for a
  proof -
    from each [of a] st have e: "unat (get_or0 l a) + min (locked_units st ?h a) (2 ^ 128 - 1) = unat (get_or0 l0 a)"
      by auto
    have "unat (get_or0 l0 a) \<le> jin_total l0" unfolding jin_total_def by (rule fm_total_ge0) simp
    then have "unat (get_or0 l0 a) < 2 ^ 128 - 1"
      using jin_state_total [OF l0 assms(2)] by (simp add: unat_JIN_TOTAL_SUPPLY_UNITS)
    with e show ?thesis by (simp add: min_def split: if_splits)
  qed
  with l0 st show ?thesis by blast
qed

text \<open>
  C37: The ledger's replay and the stand-alone replay of the infusion state agree, and the infusion
  vault of the ledger holds at least the units that back the QUB atoms not melted: true maximum
  times units per atom. So every melt can be paid out.
\<close>

theorem infusion_vault_backed:
  assumes "jin_state_from_blocks X S bs = Inr (l, ist)" and "length bs \<le> 2 ^ 32"
    and "jin_activation_height (jin S) \<le> qub_jin_infusion_activation_height S"
    and "jin_protocol_address (jin S) \<noteq> QUB_JIN_INFUSION_VAULT"
  shows "qub_jin_infusion_state_from_blocks X S bs = Inr ist \<and>
    unat (inf_true_max_qub_atoms ist) * unat (inf_units_per_qub_atom ist) \<le> unat (get_or0 l QUB_JIN_INFUSION_VAULT)"
proof -
  note agree = jin_state_agrees [OF assms(1-3)]
  from infusion_state_inv [OF assms(2) agree] have "infusion_inv ist" by blast
  with jin_state_vault [OF assms(1,4)] agree show ?thesis by (simp add: infusion_inv_def vault_covers_def)
qed

section \<open>Examples\<close>

text \<open>The chain with one sale purchase, with governance active from the start.\<close>

definition ex_jin_settings :: settings where
  "ex_jin_settings = ex_sale_settings\<lparr>verified_governance := ex_verified_governance\<lparr>vg_activation_height := 0\<rparr>\<rparr>"

lemma ex_jin_simps:
  "network ex_jin_settings = network ex_sale_settings" "jin ex_jin_settings = jin ex_sale_settings"
  "jin_swap ex_jin_settings = jin_swap ex_sale_settings" "features ex_jin_settings = features ex_sale_settings"
  "jin_activation_height (jin ex_sale_settings) = 0"
  by (simp_all add: ex_jin_settings_def ex_sale_settings_def)

definition ex_jin_chain :: "block list" where
  "ex_jin_chain = [example_block [], ex_sale_block]"

lemma ex_jin_markers:
  "jin_sale_purchases_in_tx ref_extern (ex_pay ex_sale_outs) ex_jin_settings = [(0, ex_purchase, 1)]"
  "jin_transfers_in_tx ref_extern (ex_pay ex_sale_outs) ex_jin_settings = []"
  "jin_conversions_in_tx ref_extern (ex_pay ex_sale_outs) ex_jin_settings = []"
  "qub_jin_infusion_markers_in_tx ref_extern (ex_pay ex_sale_outs) ex_jin_settings = []"
  "verified_governance_markers_in_tx ref_extern (ex_pay ex_sale_outs) ex_jin_settings = []"
proof -
  have "parse_jin_sale_purchase_script ref_extern s ex_jin_settings = parse_jin_sale_purchase_script ref_extern s ex_sale_settings" for s
    unfolding parse_jin_sale_purchase_script_def by (simp only: ex_jin_simps)
  with ex_sale_purchases show "jin_sale_purchases_in_tx ref_extern (ex_pay ex_sale_outs) ex_jin_settings = [(0, ex_purchase, 1)]"
    by (simp add: jin_sale_purchases_in_tx_def)
  have start: "\<not> starts_with (script_pubkey out) JIN_SCRIPT_PREFIX \<and> \<not> starts_with (script_pubkey out) QUB_JIN_INFUSION_SCRIPT_PREFIX
      \<and> \<not> starts_with (script_pubkey out) VERIFIED_GOVERNANCE_SCRIPT_PREFIX" if "out \<in> set ex_sale_outs" for out :: tx_out
    using that by (auto simp: ex_sale_outs_def pipes_def starts_with_def address_script_pubkey_def JIN_SCRIPT_PREFIX_def
        QUB_JIN_INFUSION_SCRIPT_PREFIX_def VERIFIED_GOVERNANCE_SCRIPT_PREFIX_def)
  have none: "markers_in parse (ex_pay ex_sale_outs) = []" if "\<And>out :: tx_out. out \<in> set ex_sale_outs \<Longrightarrow> parse (script_pubkey out) = None" for parse :: "script \<Rightarrow> 'a option"
    using that by (auto simp: markers_in_def List.map_filter_def ex_pay_simps filter_empty_conv in_set_enumerate_eq)
  show "jin_transfers_in_tx ref_extern (ex_pay ex_sale_outs) ex_jin_settings = []"
    unfolding jin_transfers_in_tx_def by (rule none) (use start in \<open>simp add: parse_jin_marker_script_def\<close>)
  show "jin_conversions_in_tx ref_extern (ex_pay ex_sale_outs) ex_jin_settings = []"
    unfolding jin_conversions_in_tx_def by (rule none) (use start in \<open>simp add: parse_jin_conversion_script_def\<close>)
  show "verified_governance_markers_in_tx ref_extern (ex_pay ex_sale_outs) ex_jin_settings = []"
    unfolding verified_governance_markers_in_tx_def
    by (rule none) (use start in \<open>simp add: parse_verified_governance_marker_script_def\<close>)
  show "qub_jin_infusion_markers_in_tx ref_extern (ex_pay ex_sale_outs) ex_jin_settings = []"
    unfolding qub_jin_infusion_markers_in_tx_def
  proof (rule none)
    fix out :: tx_out assume "out \<in> set ex_sale_outs"
    with start show "parse_qub_jin_infusion_script ref_extern (script_pubkey out) ex_jin_settings = None"
      by (cases "from_utf8 (script_pubkey out)")
        (auto simp: parse_qub_jin_infusion_script_def from_utf8_def split: if_splits)
  qed
qed

lemma ex_jin_block:
  "parse_pool_block_marker ref_extern ex_sale_block = None" "block_miner ref_extern S ex_sale_block = None"
  by (simp_all add: parse_pool_block_marker_def ex_sale_block_def example_block_def example_tx_def
      starts_with_def POOL_BLOCK_PREFIX_def block_miner_def coinbase_miner_address_def
      address_from_script_pubkey_def p2pkh_payload_def)

lemma ex_jin_state:
  "\<exists>l. jin_state_from_blocks ref_extern ex_jin_settings ex_jin_chain = Inr (l, infusion_inactive ex_jin_settings) \<and>
    get_or0 l (sp_buyer ex_purchase) \<ge> 1000000000000000000"
proof -
  let ?S = ex_jin_settings and ?p = "jin_protocol_address (jin ex_sale_settings)"
  let ?l0 = "fmupd ?p JIN_TOTAL_SUPPLY_UNITS fmempty"
  have start: "jin_state_start ?S = Inr (?l0, infusion_inactive ?S)"
    by (simp add: jin_state_start_def jin_credit_def se_run_def se_bind_def se_need_def se_modify_def checked_add_def
        ex_jin_simps JIN_TOTAL_SUPPLY_UNITS_val)
  have "jin_debit ?p 1000000000000000000 ?l0 = (Inr (), fmupd ?p (JIN_TOTAL_SUPPLY_UNITS - 1000000000000000000) ?l0)"
    by (simp add: jin_debit_ok word_le_nat_alt unat_JIN_TOTAL_SUPPLY_UNITS)
  moreover have "\<exists>l. jin_credit (sp_buyer ex_purchase) 1000000000000000000
      (fmupd ?p (JIN_TOTAL_SUPPLY_UNITS - 1000000000000000000) ?l0) = (Inr (), l) \<and>
      get_or0 l (sp_buyer ex_purchase) \<ge> 1000000000000000000"
    by (simp add: jin_credit_def se_bind_def se_need_def se_modify_def checked_add_def JIN_TOTAL_SUPPLY_UNITS_val
        get_or0_def word_le_nat_alt)
  ultimately obtain l where l: "apply_jin_sale_purchase ?S ex_purchase ?l0 = (Inr (), l)"
    and rich: "get_or0 l (sp_buyer ex_purchase) \<ge> 1000000000000000000"
    by (auto simp: apply_jin_sale_purchase_def se_simps ex_jin_simps ex_purchase_def)
  have "\<not> (1 :: u32) < swap_activation_height (jin_swap ex_sale_settings)" by (simp add: ex_sale_settings_def)
  then have tx: "ledger_tx ref_extern ?S 1 False None (ex_pay ex_sale_outs) ((?l0, infusion_inactive ?S), 0) =
      (Inr (), ((l, infusion_inactive ?S), 0))"
    using l by (simp add: ledger_tx_def se_simps ex_jin_markers replay_purchase_def ex_jin_simps ex_sale_simps on_ledger_ok)
  have height: "qub_jin_infusion_activation_height ?S \<noteq> 1"
    by (simp add: qub_jin_infusion_activation_height_def ex_jin_simps ex_sale_simps U32_MAX_def)
  have "ledger_block ref_extern ?S ex_jin_chain (1, ex_sale_block) (?l0, infusion_inactive ?S) = Inr (l, infusion_inactive ?S)"
    using tx height by (simp add: ledger_block_def Let_def ex_jin_block ex_jin_simps se_run_def se_return_def se_then_def se_bind_def)
      (simp add: ex_sale_block_def example_block_def se_then_def se_bind_def se_return_def)
  then show ?thesis
    using rich by (simp add: jin_state_from_blocks_def start ex_jin_chain_def numbered_def)
qed

lemma ex_jin_gov: "verified_governance_state_from_blocks ref_extern ex_jin_settings ex_jin_chain = Inr gov_state_default"
  by (simp add: verified_governance_state_from_blocks_def ex_jin_chain_def numbered_def gov_replay_block_def
      ex_sale_block_def example_block_def gov_replay_tx_def ex_jin_markers)

lemma ex_jin_ledger:
  "\<exists>l. jin_ledger_from_blocks ref_extern ex_jin_settings ex_jin_chain = Inr l \<and>
    get_or0 l (sp_buyer ex_purchase) \<ge> 1000000000000000000"
proof -
  obtain l where l: "jin_state_from_blocks ref_extern ex_jin_settings ex_jin_chain = Inr (l, infusion_inactive ex_jin_settings)"
    and rich: "get_or0 l (sp_buyer ex_purchase) \<ge> 1000000000000000000"
    using ex_jin_state by blast
  note ex_jin_gov
  moreover have "sorted_list_of_fmap (fmempty :: jin_ledger) = []"
    by (simp add: sorted_list_of_fmap_def sorted_list_of_fset.rep_eq)
  ultimately have "apply_verified_governance_locks_to_jin_ledger ref_extern ex_jin_settings ex_jin_chain l = Inr l"
    by (simp add: apply_verified_governance_locks_to_jin_ledger_def Let_def gov_state_default_def
        verified_governance_active_locks_from_state_def)
  moreover have "jin_enabled (jin ex_jin_settings)" "feat_jin_native_coin_enabled (features ex_jin_settings)"
    by (simp_all add: ex_jin_settings_def ex_sale_settings_def ex_jin_def ex_features_def)
  ultimately show ?thesis using l rich by (simp add: jin_ledger_from_blocks_def ex_jin_simps)
qed

lemma ex_jin_count: "tx_count ex_jin_chain = 2"
  by (simp add: tx_count_def ex_jin_chain_def ex_sale_block_def example_block_def)

lemma jin_supply_bounded_witness:
  "\<exists>l. jin_ledger_from_blocks ref_extern ex_jin_settings ex_jin_chain = Inr l \<and> jin_total l \<le> 105000000 * 10 ^ 18"
proof -
  obtain l where l: "jin_ledger_from_blocks ref_extern ex_jin_settings ex_jin_chain = Inr l" using ex_jin_ledger by blast
  from jin_supply_bounded [OF this] l show ?thesis by (simp add: ex_jin_count)
qed

lemma governance_locks_reserved_witness:
  "\<exists>l l0 ist st. jin_ledger_from_blocks ref_extern ex_jin_settings ex_jin_chain = Inr l \<and>
    jin_state_from_blocks ref_extern ex_jin_settings ex_jin_chain = Inr (l0, ist) \<and>
    (\<forall>a. unat (get_or0 l a) + locked_units st 1 a = unat (get_or0 l0 a))"
proof -
  obtain l where l: "jin_ledger_from_blocks ref_extern ex_jin_settings ex_jin_chain = Inr l" using ex_jin_ledger by blast
  have h: "length ex_jin_chain - Suc 0 = 1" by (simp add: ex_jin_chain_def)
  have "jin_enabled (jin ex_jin_settings)" "feat_jin_native_coin_enabled (features ex_jin_settings)"
    "verified_governance_active ex_jin_settings 1"
    by (simp_all add: ex_jin_settings_def ex_sale_settings_def ex_jin_def ex_features_def verified_governance_active_def
        ex_verified_governance_def)
  with governance_locks_reserved [OF l] l show ?thesis by (auto simp: ex_jin_count ex_jin_simps h)
qed

lemma infusion_vault_backed_witness:
  "\<exists>l ist. jin_state_from_blocks ref_extern ex_jin_settings ex_jin_chain = Inr (l, ist) \<and>
    unat (inf_true_max_qub_atoms ist) * unat (inf_units_per_qub_atom ist) \<le> unat (get_or0 l QUB_JIN_INFUSION_VAULT)"
proof -
  obtain l where l: "jin_state_from_blocks ref_extern ex_jin_settings ex_jin_chain = Inr (l, infusion_inactive ex_jin_settings)"
    using ex_jin_state by blast
  have "jin_protocol_address (jin ex_jin_settings) \<noteq> QUB_JIN_INFUSION_VAULT"
    by (simp add: ex_jin_simps ex_sale_simps vault_not_printed)
  with infusion_vault_backed [OF l] l show ?thesis by (simp add: ex_jin_chain_def ex_jin_simps)
qed

end
