(* ===== verification/Governance.thy ===== *)
theory Governance
  imports JinSupply
begin

text \<open>
  Verified governance against the chain (\<open>src/lib.rs\<close>): the check of a transaction and of a block,
  which runs the JIN ledger and the governance state side by side. The lemmas show that an accepted
  block is replayed, that nobody votes twice on a proposal, and what the block check does not look
  at.
\<close>

definition validate_verified_governance_transaction_against_chain ::
  "extern \<Rightarrow> settings \<Rightarrow> transaction \<Rightarrow> chain_state \<Rightarrow> u32 \<Rightarrow> unit result" where
  "validate_verified_governance_transaction_against_chain X S tx chain spend_height =
     (if verified_governance_markers_in_tx X tx S = [] then Inr () else
      rbind (verified_governance_state_from_blocks X S (cs_blocks chain)) (\<lambda>st.
      rbind (jin_ledger_from_blocks X S (cs_blocks chain)) (\<lambda>ledger.
      rbind (validate_verified_governance_transaction_with_state X S tx (cs_utxos chain) (cs_blocks chain)
        spend_height (st, ledger)) (\<lambda>_. Inr ()))))"

definition validate_governance_tx ::
  "extern \<Rightarrow> settings \<Rightarrow> block list \<Rightarrow> u32 \<Rightarrow> string option \<Rightarrow> transaction \<Rightarrow> gov_ctx \<times> utxo_map \<Rightarrow>
    (gov_ctx \<times> utxo_map) result" where
  "validate_governance_tx X S prior_blocks height miner tx s = (case s of ((st, ledger), scratch) \<Rightarrow>
     rbind (validate_tx_contextual X tx scratch height S True) (\<lambda>_.
     case validate_jin_transaction_with_ledger X S tx scratch height miner ledger of
       (Inl e, _) \<Rightarrow> Inl e
     | (Inr _, ledger) \<Rightarrow>
       rbind (validate_verified_governance_transaction_with_state X S tx scratch prior_blocks height (st, ledger)) (\<lambda>ctx.
       rbind (connect_tx_utxos X tx height False scratch) (\<lambda>scratch. Inr (ctx, scratch)))))"

definition validate_verified_governance_block ::
  "extern \<Rightarrow> settings \<Rightarrow> block \<Rightarrow> block list \<Rightarrow> utxo_map \<Rightarrow> u32 \<Rightarrow> unit result" where
  "validate_verified_governance_block X S b prior_blocks base_utxos height =
     (if list_all (\<lambda>tx. verified_governance_markers_in_tx X tx S = []) (drop 1 (blk_transactions b)) then Inr () else
      rbind (verified_governance_state_from_blocks X S prior_blocks) (\<lambda>st.
      rbind (jin_ledger_from_blocks X S prior_blocks) (\<lambda>ledger.
      rbind (fold_r (validate_governance_tx X S prior_blocks height (block_miner X S b)) (drop 1 (blk_transactions b))
        ((st, ledger), base_utxos)) (\<lambda>_. Inr ()))))"

section \<open>What is recorded\<close>

text \<open>
  The parts of the state on which check and replay agree after any accepted action: all but the
  reports and the pending slashes, which decisions change.
\<close>

definition same_record :: "gov_state \<Rightarrow> gov_state \<Rightarrow> bool" where
  "same_record s t \<longleftrightarrow> gs_wallets s = gs_wallets t \<and> gs_pools s = gs_pools t \<and>
     gs_moderators s = gs_moderators t \<and> gs_votes s = gs_votes t \<and> gs_locks s = gs_locks t"

lemma same_record_refl [simp]: "same_record s s"
  by (simp add: same_record_def)

lemma refresh_same_record:
  assumes "same_record s t" and "verified_governance_refresh_moderators S h s = Inr s'"
  shows "\<exists>t'. verified_governance_refresh_moderators S h t = Inr t' \<and> same_record s' t'"
  using assms by (auto simp: verified_governance_refresh_moderators_def result_simps same_record_def)

lemma replay_same_record:
  assumes "same_record s t" and "apply_verified_governance_marker_unchecked X S marker tid i h s = Inr s'"
  shows "\<exists>t'. apply_verified_governance_marker_unchecked X S marker tid i h t = Inr t' \<and> same_record s' t'"
proof (cases marker)
  case (Vote v)
  let ?lock = "push_lock (gv_voter v) (gv_jin_units v) (gv_lock_until_height v) ''governance_vote''"
  have "same_record (?lock s\<lparr>gs_votes := finsert k (gs_votes (?lock s))\<rparr>)
      (?lock t\<lparr>gs_votes := finsert k (gs_votes (?lock t))\<rparr>)" for k
    using assms(1) by (simp add: same_record_def push_lock_def)
  from refresh_same_record [OF this] show ?thesis
    using assms(2) by (simp add: Vote apply_verified_governance_marker_unchecked_def replay_vote_def Let_def)
next
  case (Decision d)
  have "same_record (replay_decision h d u) u" for u
    by (simp add: replay_decision_def same_record_def Let_def split: option.splits)
  with assms show ?thesis
    by (auto simp: Decision apply_verified_governance_marker_unchecked_def same_record_def)
next
  case (WalletApply w)
  with assms(2) obtain avatar where a: "verified_avatar_meta (wa_avatar_hash w) (wa_avatar_mime w)
      (wa_avatar_size_bytes w) (wa_avatar_ref w) S = Inr avatar"
    and s': "s' = (push_lock (wa_address w) (wa_bond_units w) (wa_lock_until_height w) ''wallet_verification'' s)
      \<lparr>gs_wallets := fmupd (wa_address w) (wallet_profile w avatar h) (gs_wallets s)\<rparr>"
    by (auto simp: apply_verified_governance_marker_unchecked_def result_simps Let_def push_lock_def)
  with assms(1) show ?thesis
    by (simp add: WalletApply apply_verified_governance_marker_unchecked_def a s' same_record_def push_lock_def Let_def)
next
  case (PoolApply p)
  with assms(2) obtain avatar where a: "verified_avatar_meta (pa_avatar_hash p) (pa_avatar_mime p)
      (pa_avatar_size_bytes p) (pa_avatar_ref p) S = Inr avatar"
    and s': "s' = (push_lock (pa_owner p) (pa_bond_units p) (pa_lock_until_height p) ''pool_verification'' s)
      \<lparr>gs_pools := fmupd (pa_pool_id p) (pool_profile p avatar h) (gs_pools s)\<rparr>"
    by (auto simp: apply_verified_governance_marker_unchecked_def result_simps Let_def push_lock_def)
  with assms(1) show ?thesis
    by (simp add: PoolApply apply_verified_governance_marker_unchecked_def a s' same_record_def push_lock_def Let_def)
next
  case (Report r)
  from assms(2) have "s' = (push_lock (gr_reporter r) (gr_bond_units r) (report_bond_until S h) ''report_bond'' s)
      \<lparr>gs_reports := fmupd (report_id_of X tid i) (open_report r (report_id_of X tid i) h) (gs_reports s)\<rparr>"
    by (simp add: Report apply_verified_governance_marker_unchecked_def Let_def push_lock_def)
  with assms(1) show ?thesis
    by (simp add: Report apply_verified_governance_marker_unchecked_def same_record_def push_lock_def Let_def)
next
  case (ModeratorApply m)
  from assms(2) have "s' = (push_lock (ma_candidate m) (ma_bond_units m) (ma_lock_until_height m) ''moderator_candidate'' s)
      \<lparr>gs_moderators := fmupd (ma_candidate m) (moderator_candidate m) (gs_moderators s)\<rparr>"
    by (simp add: ModeratorApply apply_verified_governance_marker_unchecked_def Let_def push_lock_def)
  with assms(1) show ?thesis
    by (simp add: ModeratorApply apply_verified_governance_marker_unchecked_def same_record_def push_lock_def Let_def)
qed

lemma accepted_same_record:
  assumes "validate_verified_governance_marker_with_state X S tx marker u bs h tid i (st, l) = Inr (st', l')"
  shows "\<exists>t. apply_verified_governance_marker_unchecked X S marker tid i h st = Inr t \<and> same_record st' t"
proof (cases "\<exists>d. marker = Decision d \<and> gd_decision d = ''reject''")
  case False
  then have "apply_verified_governance_marker_unchecked X S marker tid i h st = Inr st'"
    by (intro gov_marker_recorded [OF assms]) blast
  then show ?thesis by auto
next
  case True
  then obtain d where d: "marker = Decision d" "gd_decision d = ''reject''" by blast
  have "same_record st' st"
    using assms d by (auto simp: validate_verified_governance_marker_with_state_def check_decision_def result_simps
        same_record_def split: if_splits)
  moreover have "same_record (replay_decision h d u) u" for u
    by (simp add: replay_decision_def same_record_def Let_def split: option.splits)
  ultimately show ?thesis by (auto simp: d(1) apply_verified_governance_marker_unchecked_def same_record_def)
qed

lemma accepted_tx_cases:
  assumes "validate_verified_governance_transaction_with_state X S tx u bs h (st, l) = Inr (st', l')"
  obtains (none) "verified_governance_markers_in_tx X tx S = []" and "st' = st" and "l' = l"
  | (one) idx marker where
      "verified_governance_markers_in_tx X tx S = [(idx, marker, vg_marker_output_atoms (verified_governance S))]"
      and "verified_governance_active S h" and "\<not> is_coinbase tx"
      and "validate_verified_governance_marker_with_state X S tx marker u bs h (txid X tx) idx (st, l) = Inr (st', l')"
  using assms unfolding validate_verified_governance_transaction_with_state_def
  by (auto split: list.splits if_splits)

lemma accepted_tx_replayed:
  assumes "same_record st t"
    and "validate_verified_governance_transaction_with_state X S tx u bs h (st, l) = Inr (st', l')"
  shows "\<exists>t'. gov_replay_tx X S h tx t = Inr t' \<and> same_record st' t'"
  using assms(2)
proof (cases rule: accepted_tx_cases)
  case none
  with assms(1) show ?thesis by (simp add: gov_replay_tx_def)
next
  case (one idx marker)
  from accepted_same_record [OF one(4)] obtain r where r: "same_record st' r"
    "apply_verified_governance_marker_unchecked X S marker (txid X tx) idx h st = Inr r" by blast
  from replay_same_record [OF assms(1) r(2)] obtain t' where
    "apply_verified_governance_marker_unchecked X S marker (txid X tx) idx h t = Inr t'" "same_record r t'" by blast
  with one r(1) show ?thesis by (auto simp: gov_replay_tx_def same_record_def)
qed

lemma validate_governance_tx_Inr:
  assumes "validate_governance_tx X S bs h miner tx ((st, l), u) = Inr s"
  obtains fee l1 st' l' u' where "validate_jin_transaction_with_ledger X S tx u h miner l = (Inr fee, l1)"
    and "validate_verified_governance_transaction_with_state X S tx u bs h (st, l1) = Inr (st', l')"
    and "connect_tx_utxos X tx h False u = Inr u'" and "s = ((st', l'), u')"
  using assms by (auto simp: validate_governance_tx_def result_simps split: prod.splits sum.splits)

section \<open>One vote per voter\<close>

text \<open>No key but the last shares proposal kind, proposal and voter with another.\<close>

definition votes_unique :: "string fset \<Rightarrow> bool" where
  "votes_unique V \<longleftrightarrow>
     (\<forall>k. k |\<in>| V \<longrightarrow> length (split_on (CHR ''|'') k) = 5) \<and>
     (\<forall>j k. j |\<in>| V \<longrightarrow> k |\<in>| V \<longrightarrow>
        take 3 (split_on (CHR ''|'') j) = take 3 (split_on (CHR ''|'') k) \<longrightarrow> j = k)"

definition vote_fields_ok :: "gov_vote \<Rightarrow> bool" where
  "vote_fields_ok v \<longleftrightarrow> CHR ''|'' \<notin> set (gv_proposal_kind v) \<and> CHR ''|'' \<notin> set (gv_proposal_id v) \<and>
     CHR ''|'' \<notin> set (gv_voter v)"

lemma vote_key_fields:
  assumes "vote_fields_ok v"
  shows "split_on (CHR ''|'') (vote_key v pw) =
    [gv_proposal_kind v, gv_proposal_id v, gv_voter v, show_word pw, yes_no (gv_support v)]"
  using assms unfolding vote_key_def by (intro split_on_pipes) (simp_all add: vote_fields_ok_def yes_no_def)

lemma shared_fields_prefix:
  assumes "length (split_on (CHR ''|'') k) = 5"
    and "take 3 (split_on (CHR ''|'') k) = [gv_proposal_kind v, gv_proposal_id v, gv_voter v]"
  shows "starts_with k (vote_prefix v)"
proof -
  obtain a b c d e where f: "split_on (CHR ''|'') k = [a, b, c, d, e]"
    using assms(1) by (auto simp: length_Suc_conv eval_nat_numeral)
  with assms(2) have "a = gv_proposal_kind v" "b = gv_proposal_id v" "c = gv_voter v" by simp_all
  with join_split_on [of "CHR ''|''" k] f have "k = vote_prefix v @ d @ ''|'' @ e"
    by (simp add: vote_prefix_def pipes_def)
  then show ?thesis by simp
qed

lemma keys_insert_unique:
  assumes "\<And>j k. j |\<in>| V \<Longrightarrow> k |\<in>| V \<Longrightarrow> f j = f k \<Longrightarrow> j = k"
    and "\<And>k. k |\<in>| V \<Longrightarrow> f k \<noteq> f n"
    and "j |\<in>| finsert n V" and "k |\<in>| finsert n V" and "f j = f k"
  shows "j = k"
  using assms by (metis finsert_iff)

lemma vote_inserted_unique:
  assumes "votes_unique V" and "vote_fields_ok v" and "\<not> fBex V (\<lambda>k. starts_with k (vote_prefix v))"
  shows "votes_unique (finsert (vote_key v pw) V)"
proof -
  let ?F = "\<lambda>k. take 3 (split_on (CHR ''|'') k)" and ?new = "vote_key v pw"
  have F: "?F ?new = [gv_proposal_kind v, gv_proposal_id v, gv_voter v]"
    by (simp add: vote_key_fields [OF assms(2)])
  have old5: "length (split_on (CHR ''|'') k) = 5" if "k |\<in>| V" for k
    using assms(1) that unfolding votes_unique_def by blast
  have old: "j = k" if "j |\<in>| V" "k |\<in>| V" "?F j = ?F k" for j k
    using assms(1) that unfolding votes_unique_def by blast
  have new: "?F k \<noteq> ?F ?new" if "k |\<in>| V" for k
  proof
    assume "?F k = ?F ?new"
    then have "starts_with k (vote_prefix v)" using F by (intro shared_fields_prefix [OF old5 [OF that]]) simp
    with assms(3) that show False by blast
  qed
  have "length (split_on (CHR ''|'') ?new) = 5" by (simp add: vote_key_fields [OF assms(2)])
  with old5 have "length (split_on (CHR ''|'') k) = 5" if "k |\<in>| finsert ?new V" for k
    using that by (metis finsert_iff)
  moreover note keys_insert_unique [of V ?F ?new, OF old new]
  ultimately show ?thesis unfolding votes_unique_def by (intro conjI allI impI) 
qed

lemma gov_votes_kept:
  assumes "validate_verified_governance_marker_with_state X S tx marker u bs h tid i (st, l) = Inr (st', l')"
    and "\<And>v. marker \<noteq> Vote v"
  shows "gs_votes st' = gs_votes st"
proof -
  from accepted_same_record [OF assms(1)] obtain t where
    t: "apply_verified_governance_marker_unchecked X S marker tid i h st = Inr t" and same: "same_record st' t" by blast
  have "gs_votes t = gs_votes st"
    using t assms(2) by (cases marker) (auto simp: apply_verified_governance_marker_unchecked_def result_simps
        push_lock_def replay_decision_def Let_def split: option.splits if_splits)
  with same show ?thesis by (simp add: same_record_def)
qed

lemma lower_no_pipe: "CHR ''|'' \<notin> set t \<Longrightarrow> CHR ''|'' \<notin> set (to_ascii_lowercase t)"
  unfolding to_ascii_lowercase_def set_map by (metis imageE lower_eq_iff(1))

lemma parsed_vote_fields:
  assumes "(idx, Vote v, m) \<in> set (verified_governance_markers_in_tx X tx S)"
  shows "vote_fields_ok v"
proof -
  from markers_in_parsed [OF assms [unfolded verified_governance_markers_in_tx_def]] obtain out :: tx_out
    where "parse_verified_governance_marker_script X (script_pubkey out) S = Some (Vote v)" by blast
  then obtain s where "(case split_on (CHR ''|'') s of
        f0 # action # fs \<Rightarrow>
          if f0 \<noteq> ''VGOV1'' then None
          else if action = ''wallet'' then parse_gov_wallet X S fs
          else if action = ''pool'' then parse_gov_pool X S fs
          else if action = ''report'' then parse_gov_report X S fs
          else if action = ''mod_apply'' then parse_gov_moderator X S fs
          else if action = ''vote'' then parse_gov_vote X S fs
          else if action = ''decision'' then parse_gov_decision X S fs
          else None
      | _ \<Rightarrow> None) = Some (Vote v)"
    by (auto simp: parse_verified_governance_marker_script_def bind_eq_Some split: if_split_asm)
  moreover have "parse_gov_wallet X S fs \<noteq> Some (Vote v)" "parse_gov_pool X S fs \<noteq> Some (Vote v)"
    "parse_gov_report X S fs \<noteq> Some (Vote v)" "parse_gov_moderator X S fs \<noteq> Some (Vote v)"
    "parse_gov_decision X S fs \<noteq> Some (Vote v)" for fs
    by (auto simp: parse_gov_wallet_def parse_gov_pool_def parse_gov_report_def parse_gov_moderator_def
        parse_gov_decision_def Let_def bind_eq_Some split: list.split_asm)
  ultimately obtain f0 fs where fs: "split_on (CHR ''|'') s = f0 # ''vote'' # fs" and v: "parse_gov_vote X S fs = Some (Vote v)"
    by (auto split: list.split_asm if_split_asm)
  from v obtain f2 f3 f4 k i where f: "f2 \<in> set fs"
    and k: "verified_governance_clean_ascii f3 32 = Inr k" and i: "verified_governance_clean_ascii f4 96 = Inr i"
    and eqs: "gv_voter v = trim f2" "gv_proposal_kind v = to_ascii_lowercase k" "gv_proposal_id v = i"
    by (auto simp: parse_gov_vote_def bind_eq_Some gov_address_def gov_clean_def to_option_eq_Some
        split: list.split_asm if_split_asm) fast
  have "CHR ''|'' \<notin> set f2" using f fs split_on_fields [of f2 "CHR ''|''" s] by auto
  then have "CHR ''|'' \<notin> set (trim f2)" using trim_subset by blast
  with k i eqs show ?thesis by (auto simp: vote_fields_ok_def clean_ascii_Inr dest: lower_no_pipe)
qed

lemma accepted_tx_votes:
  assumes "validate_verified_governance_transaction_with_state X S tx u bs h (st, l) = Inr (st', l')"
    and "votes_unique (gs_votes st)"
  shows "votes_unique (gs_votes st')"
  using assms(1)
proof (cases rule: accepted_tx_cases)
  case (one idx marker)
  show ?thesis
  proof (cases "\<exists>v. marker = Vote v")
    case True
    then obtain v where v: "marker = Vote v" by blast
    with one(1) have ok: "vote_fields_ok v" by (intro parsed_vote_fields [of idx v _ X tx S]) auto
    from one(4) v obtain pw st1 where
      lock: "require_verified_governance_lock S (gv_voter v) (gv_jin_units v) (gv_lock_until_height v) h
        ''governance_vote'' (st, l) = Inr (st1, l')"
      and no: "\<not> fBex (gs_votes st1) (\<lambda>k. starts_with k (vote_prefix v))"
      and r: "verified_governance_refresh_moderators S h (st1\<lparr>gs_votes := finsert (vote_key v pw) (gs_votes st1)\<rparr>) = Inr st'"
      by (auto simp: validate_verified_governance_marker_with_state_def check_vote_def result_simps split: if_splits)
    have st1: "gs_votes st1 = gs_votes st" using require_lock_Inr(1) [OF lock] by (simp add: push_lock_def)
    have "gs_votes st' = finsert (vote_key v pw) (gs_votes st)" using refresh_Inr [OF r] by (simp add: st1)
    with vote_inserted_unique [OF assms(2) ok no [unfolded st1]] show ?thesis by simp
  next
    case False
    with gov_votes_kept [OF one(4)] assms(2) show ?thesis by auto
  qed
qed (use assms(2) in simp)

interpretation gov_tx: checked_replay "validate_governance_tx X S bs h miner" "gov_replay_tx X S h"
  "\<lambda>s t. same_record (fst (fst s)) t \<and> votes_unique (gs_votes t)"
proof
  fix s :: "gov_ctx \<times> utxo_map" and t tx s'
  assume rel: "same_record (fst (fst s)) t \<and> votes_unique (gs_votes t)"
    and v: "validate_governance_tx X S bs h miner tx s = Inr s'"
  obtain st l u where s: "s = ((st, l), u)" by (metis prod.exhaust)
  from v [unfolded s] obtain l1 st' l' u' where
    acc: "validate_verified_governance_transaction_with_state X S tx u bs h (st, l1) = Inr (st', l')" and s': "s' = ((st', l'), u')"
    by (rule validate_governance_tx_Inr)
  from rel have same: "same_record st t" and unique: "votes_unique (gs_votes st)" by (simp_all add: s same_record_def)
  from accepted_tx_replayed [OF same acc] obtain t' where t': "gov_replay_tx X S h tx t = Inr t'" "same_record st' t'" by blast
  moreover have "votes_unique (gs_votes t')"
    using accepted_tx_votes [OF acc unique] t'(2) by (simp add: same_record_def)
  ultimately show "\<exists>t'. gov_replay_tx X S h tx t = Inr t' \<and> same_record (fst (fst s')) t' \<and> votes_unique (gs_votes t')"
    by (auto simp: s')
qed

lemma no_markers_replayed:
  "list_all (\<lambda>tx. verified_governance_markers_in_tx X tx S = []) txs \<Longrightarrow> fold_r (gov_replay_tx X S h) txs st = Inr st"
  by (induction txs) (simp_all add: gov_replay_tx_def)

lemma governance_block_replayed:
  assumes "validate_verified_governance_block X S b bs u (of_nat (length bs)) = Inr ()"
    and "bs \<noteq> []" and "verified_governance_state_from_blocks X S bs = Inr st" and "votes_unique (gs_votes st)"
  shows "\<exists>st'. verified_governance_state_from_blocks X S (bs @ [b]) = Inr st' \<and> votes_unique (gs_votes st')"
proof (cases "vg_enabled (verified_governance S)")
  case True
  let ?h = "of_nat (length bs)" and ?txs = "drop 1 (blk_transactions b)"
  have state: "verified_governance_state_from_blocks X S (bs @ [b]) = gov_replay_block X S (length bs, b) st"
    using assms(2,3) True by (cases "gov_replay_block X S (length bs, b) st")
      (simp_all add: verified_governance_state_from_blocks_def numbered_snoc fold_r_append)
  have "\<exists>st'. fold_r (gov_replay_tx X S ?h) ?txs st = Inr st' \<and> votes_unique (gs_votes st')"
  proof (cases "list_all (\<lambda>tx. verified_governance_markers_in_tx X tx S = []) ?txs")
    case True
    from no_markers_replayed [OF this] assms(4) show ?thesis by simp
  next
    case False
    with assms(1,3) obtain l s where "fold_r (validate_governance_tx X S bs ?h (block_miner X S b)) ?txs ((st, l), u) = Inr s"
      by (auto simp: validate_verified_governance_block_def result_simps split: if_split_asm)
    with gov_tx.checked_then_recorded [of "((st, l), u)" st] assms(4) show ?thesis by fastforce
  qed
  with assms(4) show ?thesis by (auto simp: state gov_replay_block_def)
next
  case False
  with assms(3,4) show ?thesis by (auto simp: verified_governance_state_from_blocks_def)
qed

definition governance_checked :: "extern \<Rightarrow> settings \<Rightarrow> block list \<Rightarrow> bool" where
  "governance_checked X S bs \<longleftrightarrow>
     (\<forall>n. 0 < n \<and> n < length bs \<longrightarrow>
        (\<exists>u. validate_verified_governance_block X S (bs ! n) (take n bs) u (of_nat n) = Inr ()))"

lemma governance_checked_snoc:
  assumes "bs \<noteq> []"
  shows "governance_checked X S (bs @ [b]) \<longleftrightarrow> governance_checked X S bs \<and>
    (\<exists>u. validate_verified_governance_block X S b bs u (of_nat (length bs)) = Inr ())"
proof
  assume c: "governance_checked X S (bs @ [b])"
  have "\<exists>u. validate_verified_governance_block X S (bs ! n) (take n bs) u (of_nat n) = Inr ()" if "0 < n" "n < length bs" for n
    using c [unfolded governance_checked_def, rule_format, of n] that by (simp add: nth_append)
  moreover have "\<exists>u. validate_verified_governance_block X S b bs u (of_nat (length bs)) = Inr ()"
    using c [unfolded governance_checked_def, rule_format, of "length bs"] assms by simp
  ultimately show "governance_checked X S bs \<and> (\<exists>u. validate_verified_governance_block X S b bs u (of_nat (length bs)) = Inr ())"
    by (simp add: governance_checked_def)
next
  assume c: "governance_checked X S bs \<and> (\<exists>u. validate_verified_governance_block X S b bs u (of_nat (length bs)) = Inr ())"
  show "governance_checked X S (bs @ [b])"
    unfolding governance_checked_def
  proof (intro allI impI)
    fix n assume n: "0 < n \<and> n < length (bs @ [b])"
    show "\<exists>u. validate_verified_governance_block X S ((bs @ [b]) ! n) (take n (bs @ [b])) u (of_nat n) = Inr ()"
      using c n by (cases "n < length bs") (auto simp: governance_checked_def nth_append less_Suc_eq)
  qed
qed

lemma governance_checked_votes:
  "bs \<noteq> [] \<Longrightarrow> governance_checked X S bs \<Longrightarrow>
    \<exists>st. verified_governance_state_from_blocks X S bs = Inr st \<and> votes_unique (gs_votes st)"
proof (induction bs rule: rev_nonempty_induct)
  case (single b)
  show ?case by (simp add: verified_governance_state_from_blocks_def gov_state_default_def votes_unique_def)
next
  case (snoc b bs)
  then show ?case using governance_block_replayed by (metis governance_checked_snoc)
qed

text \<open>
  The block check runs transfers, conversions and purchases on its ledger but no infusion: JIN that
  an infusion of the same block moves into the vault, or a melt moves out of it, is still, or not yet,
  available for a lock in the check, while the JIN ledger of the chain counts it.
\<close>

lemma gov_check_ignores_infusion:
  assumes "jin_transfers_in_tx X tx S = []" and "jin_conversions_in_tx X tx S = []"
    and "jin_sale_purchases_in_tx X tx S = []" and "verified_governance_markers_in_tx X tx S = []"
    and "validate_governance_tx X S bs h miner tx ((st, l), u) = Inr ((st', l'), u')"
  shows "st' = st \<and> l' = l"
  using assms by (auto simp: validate_governance_tx_def validate_jin_transaction_with_ledger_def se_return_def
      validate_verified_governance_transaction_with_state_def result_simps)

section \<open>Properties\<close>

text \<open>
  C39: A governance action is authorised by its actor and takes its JIN from the actor alone. When a
  transaction that carries a marker passes the governance check of a block, it carries exactly that
  one marker, with the configured marker value, governance is active and the transaction is not a
  coinbase; the acting address (applicant, owner, reporter, candidate, voter or moderator) is a valid
  address of the network that signed an input; every lock it adds belongs to the actor; no balance
  but the actor's changes; and the JIN in balances plus the JIN in locks stays the same.
\<close>

theorem governance_action_authorised:
  assumes "validate_verified_governance_transaction_with_state X S tx u bs h (st, l) = Inr (st', l')"
    and "(idx, marker, atoms) \<in> set (verified_governance_markers_in_tx X tx S)"
  shows "verified_governance_markers_in_tx X tx S = [(idx, marker, vg_marker_output_atoms (verified_governance S))] \<and>
    verified_governance_active S h \<and> \<not> is_coinbase tx \<and>
    (\<exists>a. parse_with_prefix X (gov_actor marker) (net_address_prefix (network S)) = Inr a \<and>
      input_authorizes_address tx u a) \<and>
    (\<exists>locks. gs_locks st' = gs_locks st @ locks \<and> list_all (\<lambda>k. vl_owner k = gov_actor marker) locks) \<and>
    (\<forall>a. a \<noteq> gov_actor marker \<longrightarrow> get_or0 l' a = get_or0 l a) \<and>
    jin_total l' + locks_total st' = jin_total l + locks_total st"
  using assms(1)
proof (cases rule: accepted_tx_cases)
  case none
  with assms(2) show ?thesis by simp
next
  case (one i m)
  with assms(2) have "idx = i" "marker = m" by simp_all
  with one gov_marker_authorised [OF one(4)] gov_marker_moves [OF one(4)] show ?thesis
    by (simp add: gov_authorised_Inr gov_locks_move_def)
qed

text \<open>
  C38: One voter, one vote: in a chain whose blocks all passed the governance check, the governance
  state can always be replayed, and it holds at most one vote of a voter on a proposal. Every stored
  vote has the five fields of its key, and two votes that agree on the kind of the proposal, the
  proposal and the voter are the same vote, whatever their power and direction. In particular the
  power of a voter is never counted twice for a moderator.
\<close>

theorem one_vote_per_voter:
  assumes "bs \<noteq> []" and "governance_checked X S bs"
  shows "\<exists>st. verified_governance_state_from_blocks X S bs = Inr st \<and>
    (\<forall>j k. j |\<in>| gs_votes st \<longrightarrow> k |\<in>| gs_votes st \<longrightarrow>
       length (split_on (CHR ''|'') k) = 5 \<and>
       (take 3 (split_on (CHR ''|'') j) = take 3 (split_on (CHR ''|'') k) \<longrightarrow> j = k))"
  using governance_checked_votes [OF assms] unfolding votes_unique_def by blast

text \<open>The owner of the JIN bought in the second block locks half of it for a vote in the third.\<close>

definition ex_vote_outs :: "tx_out list" where
  "ex_vote_outs = [\<lparr>out_value = 1, script_pubkey = pipes [''VGOV1'', ''vote'', address_to_string ref_extern ex_owner,
     ''upgrade'', ''p1'', yes_no True, show_word (500000000000000000 :: u128), show_word (1 :: u8),
     show_word (9000 :: u32)]\<rparr>]"

definition ex_vote :: gov_vote where
  "ex_vote = \<lparr>gv_voter = address_to_string ref_extern ex_owner, gv_proposal_kind = ''upgrade'', gv_proposal_id = ''p1'',
     gv_support = True, gv_jin_units = 500000000000000000, gv_conviction = 1, gv_lock_until_height = 9000\<rparr>"

lemma ex_vote_text:
  "verified_governance_clean_ascii ''upgrade'' 32 = Inr ''upgrade''" "verified_governance_clean_ascii ''p1'' 96 = Inr ''p1''"
  "trim ''upgrade'' = ''upgrade''" "trim ''p1'' = ''p1''" "to_ascii_lowercase ''upgrade'' = ''upgrade''"
proof -
  show "trim ''upgrade'' = ''upgrade''" "trim ''p1'' = ''p1''"
    by (rule trim_graphic; simp add: is_ascii_graphic_def)+
  then show "verified_governance_clean_ascii ''upgrade'' 32 = Inr ''upgrade''" "verified_governance_clean_ascii ''p1'' 96 = Inr ''p1''"
    by (simp_all add: verified_governance_clean_ascii_def is_ascii_def printable_def is_ascii_graphic_def)
  show "to_ascii_lowercase ''upgrade'' = ''upgrade''"
    by (simp add: to_ascii_lowercase_def ascii_lower_def char_class_defs less_eq_char_def)
qed

lemma ex_vote_markers:
  "verified_governance_markers_in_tx ref_extern (ex_pay ex_vote_outs) ex_jin_settings = [(0, Vote ex_vote, 1)]"
  "jin_sale_purchases_in_tx ref_extern (ex_pay ex_vote_outs) ex_jin_settings = []"
  "jin_transfers_in_tx ref_extern (ex_pay ex_vote_outs) ex_jin_settings = []"
  "jin_conversions_in_tx ref_extern (ex_pay ex_vote_outs) ex_jin_settings = []"
proof -
  obtain sc where sc: "ex_vote_outs = [\<lparr>out_value = 1, script_pubkey = sc\<rparr>]"
    and b: "verified_governance_vote_marker_script ref_extern ex_owner ''upgrade'' ''p1'' True 500000000000000000 1 9000 = Inr sc"
    by (simp add: ex_vote_outs_def verified_governance_vote_marker_script_def ex_vote_text)
  have "parse_verified_governance_marker_script ref_extern sc ex_jin_settings = Some (Vote ex_vote)"
    using gov_vote_read_back [OF ref_extern_ok ex_owner(1) _ b, of ex_jin_settings]
    by (simp add: ex_owner ex_jin_simps ex_sale_simps ex_vote_def ex_vote_text)
  then show "verified_governance_markers_in_tx ref_extern (ex_pay ex_vote_outs) ex_jin_settings = [(0, Vote ex_vote, 1)]"
    by (simp add: verified_governance_markers_in_tx_def markers_in_def ex_pay_simps sc List.map_filter_def)
  have start: "\<not> starts_with sc JIN_SCRIPT_PREFIX" "\<not> starts_with sc JIN_SWAP_SCRIPT_PREFIX"
    using sc by (auto simp: ex_vote_outs_def pipes_def starts_with_def JIN_SCRIPT_PREFIX_def JIN_SWAP_SCRIPT_PREFIX_def)
  then have "parse_jin_sale_purchase_script ref_extern sc ex_jin_settings = None"
    by (cases "from_utf8 sc") (auto simp: parse_jin_sale_purchase_script_def from_utf8_def split: if_splits)
  then show "jin_sale_purchases_in_tx ref_extern (ex_pay ex_vote_outs) ex_jin_settings = []"
    by (simp add: jin_sale_purchases_in_tx_def markers_in_def ex_pay_simps sc List.map_filter_def)
  from start show "jin_transfers_in_tx ref_extern (ex_pay ex_vote_outs) ex_jin_settings = []"
    "jin_conversions_in_tx ref_extern (ex_pay ex_vote_outs) ex_jin_settings = []"
    by (simp_all add: jin_transfers_in_tx_def jin_conversions_in_tx_def markers_in_def ex_pay_simps sc List.map_filter_def
        parse_jin_marker_script_def parse_jin_conversion_script_def)
qed

definition ex_vote_block :: block where
  "ex_vote_block = example_block [example_tx, ex_pay ex_vote_outs]"

lemma ex_moderator_bond: "verified_governance_bond_units ''50000000000000000000000'' = Inr 50000000000000000000000"
proof -
  have "show_word (50000000000000000000000 :: u128) = ''50000000000000000000000''"
    by (simp add: show_word_def show_nat.simps digit_char_def char_of_def bit_iff_odd)
  with parse_units_show_word [of 50000000000000000000000] show ?thesis by (simp add: verified_governance_bond_units_def)
qed

lemma ex_vote_check:
  assumes "get_or0 l (sp_buyer ex_purchase) \<ge> 1000000000000000000"
  shows "\<exists>c. check_vote ref_extern ex_jin_settings (ex_pay ex_vote_outs) (ex_coin 5) 2 ex_vote (gov_state_default, l) = Inr c"
proof -
  have auth: "gov_authorised ref_extern ex_jin_settings (ex_pay ex_vote_outs) (ex_coin 5) (gv_voter ex_vote) = Inr ()"
    unfolding gov_authorised_Inr using parse_ex_address [OF ex_owner(1,2)]
    by (simp add: ex_vote_def ex_jin_simps ex_sale_simps input_authorizes_address_def ex_pay_simps ex_coin_def ex_owner)
  have vg: "verified_governance ex_jin_settings = ex_verified_governance\<lparr>vg_activation_height := 0\<rparr>"
    by (simp add: ex_jin_settings_def)
  have "\<not> get_or0 l (gv_voter ex_vote) < 500000000000000000"
    using assms by (simp add: ex_vote_def ex_purchase_def word_le_nat_alt word_less_nat_alt)
  moreover have "\<not> (9000 :: u32) < sat_add 2 7200" by (simp add: word_less_nat_alt unat_sat_add)
  ultimately have "\<exists>l'. require_verified_governance_lock ex_jin_settings (gv_voter ex_vote) 500000000000000000 9000 2
      ''governance_vote'' (gov_state_default, l) =
      Inr (push_lock (gv_voter ex_vote) 500000000000000000 9000 ''governance_vote'' gov_state_default, l')"
    by (simp add: require_verified_governance_lock_def verified_governance_available_jin_def vg ex_verified_governance_def)
  then show ?thesis
    using auth by (auto simp: check_vote_def conviction_multiplier_def checked_mul_def ex_vote_def push_lock_def
        gov_state_default_def verified_governance_refresh_moderators_def vg ex_verified_governance_def ex_moderator_bond)
qed

lemma ex_vote_accepted:
  "validate_verified_governance_block ref_extern ex_jin_settings ex_vote_block ex_jin_chain (ex_coin 5) 2 = Inr ()"
proof -
  obtain l where l: "jin_ledger_from_blocks ref_extern ex_jin_settings ex_jin_chain = Inr l"
    and rich: "get_or0 l (sp_buyer ex_purchase) \<ge> 1000000000000000000" using ex_jin_ledger by blast
  obtain st' l' where c: "check_vote ref_extern ex_jin_settings (ex_pay ex_vote_outs) (ex_coin 5) 2 ex_vote
      (gov_state_default, l) = Inr (st', l')" using ex_vote_check [OF rich] by auto
  have vg: "verified_governance_active ex_jin_settings 2" "vg_marker_output_atoms (verified_governance ex_jin_settings) = 1"
    by (simp_all add: ex_jin_settings_def ex_verified_governance_def verified_governance_active_def)
  have "fold_r (add_output_value ex_jin_settings) ex_vote_outs 0 = Inr 1"
    by (simp add: ex_vote_outs_def add_output_value_def ex_jin_settings_def ex_sale_simps ex_consensus_def
        MAX_MONEY_ATOMS_val word_less_nat_alt)
  moreover have "list_all (\<lambda>out. \<not> starts_with (script_pubkey out) BLAST_SCRIPT_PREFIX) ex_vote_outs"
    by (auto simp: ex_vote_outs_def BLAST_SCRIPT_PREFIX_def pipes_def dest!: starts_with_first)
  ultimately have "validate_tx_contextual ref_extern (ex_pay ex_vote_outs) (ex_coin 5) 2 ex_jin_settings True = Inr (of_nat (unat (5 :: u64) - 1))"
    by (intro ex_pay_validate) (simp_all add: ex_vote_outs_def MAX_SEND_ENTRIES_PER_TX_def)
  moreover obtain u where "connect_tx_utxos ref_extern (ex_pay ex_vote_outs) 2 False (ex_coin 5) = Inr u"
    using ex_pay_connect [of ex_vote_outs 2 5] by (auto simp: ex_vote_outs_def)
  ultimately have "validate_governance_tx ref_extern ex_jin_settings ex_jin_chain 2 m (ex_pay ex_vote_outs)
      ((gov_state_default, l), ex_coin 5) = Inr ((st', l'), u)" for m
    using c ex_kind vg by (simp add: validate_governance_tx_def validate_jin_transaction_with_ledger_def ex_vote_markers
        se_return_def validate_verified_governance_transaction_with_state_def validate_verified_governance_marker_with_state_def)
  then show ?thesis
    by (simp add: validate_verified_governance_block_def ex_vote_block_def example_block_def ex_jin_gov l)
qed

lemma one_vote_per_voter_witness:
  "\<exists>st. verified_governance_state_from_blocks ref_extern ex_jin_settings (ex_jin_chain @ [ex_vote_block]) = Inr st \<and>
    (\<forall>j k. j |\<in>| gs_votes st \<longrightarrow> k |\<in>| gs_votes st \<longrightarrow>
       length (split_on (CHR ''|'') k) = 5 \<and>
       (take 3 (split_on (CHR ''|'') j) = take 3 (split_on (CHR ''|'') k) \<longrightarrow> j = k))"
proof (rule one_vote_per_voter)
  have "governance_checked ref_extern ex_jin_settings [example_block []]" by (simp add: governance_checked_def)
  moreover have "validate_verified_governance_block ref_extern ex_jin_settings ex_sale_block [example_block []] fmempty 1 = Inr ()"
    by (simp add: validate_verified_governance_block_def ex_sale_block_def example_block_def ex_jin_markers)
  ultimately have "governance_checked ref_extern ex_jin_settings ex_jin_chain"
    using governance_checked_snoc [of "[example_block []]" ref_extern ex_jin_settings ex_sale_block]
    by (auto simp: ex_jin_chain_def)
  then show "governance_checked ref_extern ex_jin_settings (ex_jin_chain @ [ex_vote_block])"
    using governance_checked_snoc [of ex_jin_chain ref_extern ex_jin_settings ex_vote_block] ex_vote_accepted
    by (auto simp: ex_jin_chain_def)
qed simp

lemma governance_action_authorised_witness:
  "verified_governance_markers_in_tx ref_extern (ex_pay ex_vote_outs) ex_jin_settings = [(0, Vote ex_vote, 1)] \<and>
   (\<exists>(l :: jin_ledger) st' l'. get_or0 l (sp_buyer ex_purchase) \<ge> 1000000000000000000 \<and> jin_total l' + locks_total st' = jin_total l)"
proof -
  obtain l :: jin_ledger where rich: "get_or0 l (sp_buyer ex_purchase) \<ge> 1000000000000000000" using ex_jin_ledger by blast
  obtain st' l' where c: "check_vote ref_extern ex_jin_settings (ex_pay ex_vote_outs) (ex_coin 5) 2 ex_vote
      (gov_state_default, l) = Inr (st', l')" using ex_vote_check [OF rich] by auto
  have vg: "verified_governance_active ex_jin_settings 2" "vg_marker_output_atoms (verified_governance ex_jin_settings) = 1"
    by (simp_all add: ex_jin_settings_def ex_verified_governance_def verified_governance_active_def)
  have "validate_verified_governance_transaction_with_state ref_extern ex_jin_settings (ex_pay ex_vote_outs) (ex_coin 5)
      [] 2 (gov_state_default, l) = Inr (st', l')"
    using c vg ex_kind by (simp add: validate_verified_governance_transaction_with_state_def ex_vote_markers
        validate_verified_governance_marker_with_state_def)
  from governance_action_authorised [OF this, of 0 "Vote ex_vote" 1] rich show ?thesis
    by (auto simp: ex_vote_markers locks_total_def gov_state_default_def)
qed

end
