(* ===== verification/Mempool.thy ===== *)
theory Mempool
  imports BlockRules PoolBlocks Governance
begin

text \<open>
  The mempool of \<open>ChainState\<close> (\<open>src/lib.rs\<close>): admission of one transaction and of a batch, the
  pruning of pool shares that cannot be confirmed any more, and the rebuild after the chain changed.
  Admission is a state transformer over the chain state, the pool validation context and the number
  of pending shares: a prune stays even when the transaction is then refused. The number of shares is
  a count of list elements and a natural number here.
\<close>

section \<open>Model\<close>

definition tip_hash :: "extern \<Rightarrow> chain_state \<Rightarrow> hash256" where
  "tip_hash X c = (if cs_blocks c = [] then hash_zero else block_hash X (last (cs_blocks c)))"

definition spend_height :: "chain_state \<Rightarrow> u32" where
  "spend_height c = sat_add (chain_height c) 1"

definition pending_shares :: "transaction list \<Rightarrow> nat" where
  "pending_shares txs = length (filter is_pool_share_transaction txs)"

definition tx_in_mempool :: "extern \<Rightarrow> hash256 \<Rightarrow> chain_state \<Rightarrow> bool" where
  "tx_in_mempool X tid c = list_ex (\<lambda>tx. txid X tx = tid) (cs_mempool c)"

definition mempool_txids :: "extern \<Rightarrow> chain_state \<Rightarrow> hash256 set" where
  "mempool_txids X c = set (map (txid X) (cs_mempool c))"

text \<open>The preview a wallet runs before it sends.\<close>

definition accept_transaction_preview :: "extern \<Rightarrow> settings \<Rightarrow> transaction \<Rightarrow> chain_state \<Rightarrow> unit result" where
  "accept_transaction_preview X S tx c = (let h = chain_height c + 1 in
     rbind (validate_tx_contextual X tx (cs_utxos c) h S True) (\<lambda>_.
     rbind (validate_qns_transaction_against_chain X S (cs_blocks c) tx h) (\<lambda>_.
     rbind (validate_jin_transaction_against_chain X S tx c h) (\<lambda>_.
     rbind (validate_qub_jin_infusion_transaction_against_chain X S tx c h) (\<lambda>_.
     rbind (validate_jin_sale_transaction_against_chain X S tx c h) (\<lambda>_.
     rbind (validate_pools_transaction_against_chain X S tx c h) (\<lambda>_.
     rbind (validate_library_transaction_against_chain X S tx c h) (\<lambda>_.
     validate_verified_governance_transaction_against_chain X S tx c h))))))))"

definition confirmable_share :: "extern \<Rightarrow> settings \<Rightarrow> block list \<Rightarrow> u32 \<Rightarrow> transaction \<Rightarrow> bool" where
  "confirmable_share X S blocks height tx =
     (if \<not> is_pool_share_transaction tx then True else
      (case parse_pool_share_tx X tx of
         None \<Rightarrow> False
       | Some sh \<Rightarrow>
           if psh_parent_height sh \<ge> height then False
           else let age = sat_sub height (psh_parent_height sh) in
             if age = 0 \<or> age > ps_share_stale_blocks (pools S) then False
             else unat (psh_parent_height sh) < length blocks \<and>
               block_hash X (blocks ! unat (psh_parent_height sh)) = psh_parent_hash sh))"

definition prune_unconfirmable_pool_shares :: "extern \<Rightarrow> settings \<Rightarrow> chain_state \<Rightarrow> nat \<times> chain_state" where
  "prune_unconfirmable_pool_shares X S c =
     (let kept = filter (confirmable_share X S (cs_blocks c) (spend_height c)) (cs_mempool c) in
      (length (cs_mempool c) - length kept, c\<lparr>cs_mempool := kept\<rparr>))"

type_synonym admission = "chain_state \<times> pool_context \<times> nat"

definition make_room :: "extern \<Rightarrow> settings \<Rightarrow> bool \<Rightarrow> (admission, unit) se" where
  "make_room X S incoming_is_share = (\<lambda>(c, ctx, shares).
     if length (cs_mempool c) \<ge> unat (effective_mempool_max_transactions S) \<or>
        incoming_is_share \<and> shares \<ge> unat (hf124_pool_share_mempool_limit S) then
       (case prune_unconfirmable_pool_shares X S c of (removed, c) \<Rightarrow>
        if removed > 0 then
          let shares = pending_shares (cs_mempool c) in
          (case pool_context_from_confirmed X S (cs_blocks c) (spend_height c) of
             Inl e \<Rightarrow> (Inl e, (c, ctx, shares))
           | Inr ctx \<Rightarrow>
               (Inr (), (c, absorb_mempool_shares X S (cs_blocks c) (cs_mempool c) (spend_height c) None ctx, shares)))
        else (Inr (), (c, ctx, shares)))
     else (Inr (), (c, ctx, shares)))"

definition push_tx :: "transaction \<Rightarrow> chain_state \<Rightarrow> chain_state" where
  "push_tx tx c = c\<lparr>cs_mempool := cs_mempool c @ [tx]\<rparr>"

definition common_checks :: "extern \<Rightarrow> settings \<Rightarrow> transaction \<Rightarrow> admission \<Rightarrow> unit result" where
  "common_checks X S tx a = (case a of (c, _, _) \<Rightarrow>
     if length (cs_mempool c) \<ge> unat (effective_mempool_max_transactions S) then Inl (ChainErr MempoolFull)
     else if list_ex (\<lambda>t. txid X t = txid X tx) (cs_mempool c) then Inl (ChainErr DuplicateMempoolTx)
     else hf106_jin_sale_standardness_policy X tx S)"

definition admit_share :: "extern \<Rightarrow> settings \<Rightarrow> transaction \<Rightarrow> (admission, unit) se" where
  "admit_share X S tx = (\<lambda>(c, ctx, shares).
     if shares \<ge> unat (hf124_pool_share_mempool_limit S) then (Inl (ChainErr ShareMempoolFull), (c, ctx, shares)) else
     (case validate_tx_contextual X tx (cs_utxos c) (spend_height c) S True of
        Inl e \<Rightarrow> (Inl e, (c, ctx, shares))
      | Inr _ \<Rightarrow>
          (case pool_validate_and_apply X S tx (cs_blocks c) (cs_utxos c) (spend_height c) 0 ctx of
             (Inl e, ctx) \<Rightarrow> (Inl e, (c, ctx, shares))
           | (Inr _, ctx) \<Rightarrow> (Inr (), (push_tx tx c, ctx, shares + 1)))))"

text \<open>The outpoints pending transactions spend.\<close>

definition spent_outpoints :: "transaction \<Rightarrow> outpoint list" where
  "spent_outpoints tx = filter (\<lambda>p. p \<noteq> outpoint_null) (map previous_output (tx_inputs tx))"

definition mempool_spent :: "transaction list \<Rightarrow> outpoint set" where
  "mempool_spent txs = set (concat (map spent_outpoints txs))"

text \<open>The checks of a transaction that is not a share; they return the pool context to go on with.\<close>

definition ordinary_checks :: "extern \<Rightarrow> settings \<Rightarrow> transaction \<Rightarrow> chain_state \<Rightarrow> pool_context \<Rightarrow> pool_context result" where
  "ordinary_checks X S tx c ctx = (let h = spend_height c in
     if list_ex (\<lambda>i. previous_output i \<noteq> outpoint_null \<and> previous_output i \<in> mempool_spent (cs_mempool c)) (tx_inputs tx)
     then Inl (ChainErr MempoolDoubleSpend) else
     rbind (validate_tx_contextual X tx (cs_utxos c) h S True) (\<lambda>raw_fee.
     rbind (qub_jin_melt_burn_atoms_for_fee X S tx h) (\<lambda>qub_melt_burn.
     if raw_fee < qub_melt_burn then Inl (BlockErr MeltBurnExceedsDelta) else
     let fee = raw_fee - qub_melt_burn in
     rbind (se_run (pool_validate_and_apply X S tx (cs_blocks c) (cs_utxos c) h raw_fee) ctx) (\<lambda>ctx.
     rbind (validate_jin_transaction_against_chain X S tx c h) (\<lambda>jin_fee_units.
     rbind (validate_qub_jin_infusion_transaction_against_chain X S tx c h) (\<lambda>_.
     rbind (validate_jin_sale_transaction_against_chain X S tx c h) (\<lambda>swap_miner_fee.
     rbind (qns_miner_fee_required_in_tx X S tx h) (\<lambda>qns_miner_fee.
     rbind (library_miner_fee_required_in_tx X S tx h) (\<lambda>library_miner_fee.
     rbind (ok_or (BlockErr ExtraFeeOverflow)
         (Option.bind (checked_add qns_miner_fee library_miner_fee) (\<lambda>v. checked_add v swap_miner_fee))) (\<lambda>extra.
     if fee < extra then Inl (BlockErr MinerFeeUnderpayment)
     else if \<not> is_blast_claim_transaction X tx S \<and> fee < mp_min_relay_fee_atoms (mempool_cfg S) \<and> jin_fee_units = 0
     then Inl (ChainErr FeeBelowMinRelay) else
     rbind (validate_qns_transaction_against_chain X S (cs_blocks c) tx h) (\<lambda>_.
     rbind (validate_library_transaction_against_chain X S tx c h) (\<lambda>_.
     rbind (validate_verified_governance_transaction_against_chain X S tx c h) (\<lambda>_.
     Inr ctx)))))))))))))"

definition admit_ordinary :: "extern \<Rightarrow> settings \<Rightarrow> transaction \<Rightarrow> (admission, unit) se" where
  "admit_ordinary X S tx = (\<lambda>(c, ctx, shares).
     case ordinary_checks X S tx c ctx of
       Inl e \<Rightarrow> (Inl e, (c, ctx, shares))
     | Inr ctx \<Rightarrow> (Inr (), (push_tx tx c, ctx, shares)))"

definition accept_transaction_to_mempool_with_context ::
  "extern \<Rightarrow> settings \<Rightarrow> transaction \<Rightarrow> (admission, hash256) se" where
  "accept_transaction_to_mempool_with_context X S tx =
     (let is_share = is_pool_share_transaction tx in
      se_then (make_room X S is_share)
     (se_then (se_need (common_checks X S tx))
     (se_then (if is_share then admit_share X S tx else admit_ordinary X S tx)
        (se_return (txid X tx)))))"

definition admission_start :: "extern \<Rightarrow> settings \<Rightarrow> hash256 option \<Rightarrow> chain_state \<Rightarrow> admission result" where
  "admission_start X S exclude_txid c =
     rbind (pool_context_from_confirmed X S (cs_blocks c) (spend_height c)) (\<lambda>ctx.
     Inr (c, absorb_mempool_shares X S (cs_blocks c) (cs_mempool c) (spend_height c) exclude_txid ctx,
       pending_shares (cs_mempool c)))"

definition accept_transaction_to_mempool :: "extern \<Rightarrow> settings \<Rightarrow> transaction \<Rightarrow> (chain_state, hash256) se" where
  "accept_transaction_to_mempool X S tx = (\<lambda>c.
     case admission_start X S (Some (txid X tx)) c of
       Inl e \<Rightarrow> (Inl e, c)
     | Inr a \<Rightarrow> (case accept_transaction_to_mempool_with_context X S tx a of (r, a) \<Rightarrow> (r, fst a)))"

text \<open>Try the transactions in order; the first component lists the accepted ones.\<close>

fun accept_each :: "extern \<Rightarrow> settings \<Rightarrow> transaction list \<Rightarrow> admission \<Rightarrow> transaction list \<times> admission" where
  "accept_each X S [] a = ([], a)"
| "accept_each X S (tx # txs) a =
     (case accept_transaction_to_mempool_with_context X S tx a of (r, a) \<Rightarrow>
      (case accept_each X S txs a of (accepted, a) \<Rightarrow>
        (if is_ok r then tx # accepted else accepted, a)))"

definition accept_transactions_to_mempool_batch ::
  "extern \<Rightarrow> settings \<Rightarrow> transaction list \<Rightarrow> (chain_state, transaction list) se" where
  "accept_transactions_to_mempool_batch X S txs = (\<lambda>c.
     case admission_start X S None c of
       Inl e \<Rightarrow> (Inl e, c)
     | Inr a \<Rightarrow> (case accept_each X S txs a of (accepted, a) \<Rightarrow> (Inr accepted, fst a)))"

section \<open>Rebuild\<close>

text \<open>The transactions whose id was not seen before, the first of each id.\<close>

fun unseen :: "extern \<Rightarrow> hash256 set \<Rightarrow> transaction list \<Rightarrow> transaction list" where
  "unseen X seen [] = []"
| "unseen X seen (tx # txs) =
     (if txid X tx \<in> seen then unseen X seen txs else tx # unseen X (insert (txid X tx) seen) txs)"

definition share_order :: "extern \<Rightarrow> transaction \<Rightarrow> transaction \<Rightarrow> bool" where
  "share_order X a b =
     (let key = \<lambda>tx. (case parse_pool_share_tx X tx of None \<Rightarrow> U32_MAX | Some sh \<Rightarrow> psh_parent_height sh) in
      key a < key b \<or> key a = key b \<and> hash_to_string X (txid X a) \<le> hash_to_string X (txid X b))"

fun rebuild_shares :: "extern \<Rightarrow> settings \<Rightarrow> nat \<Rightarrow> nat \<Rightarrow> transaction list \<Rightarrow> admission \<Rightarrow> nat \<times> admission" where
  "rebuild_shares X S cap share_cap [] a = (0, a)"
| "rebuild_shares X S cap share_cap (tx # txs) a =
     (if length (cs_mempool (fst a)) \<ge> cap \<or> snd (snd a) \<ge> share_cap then (0, a) else
      (case accept_transaction_to_mempool_with_context X S tx a of (r, a) \<Rightarrow>
      (case rebuild_shares X S cap share_cap txs a of (n, a) \<Rightarrow> (if is_ok r then n + 1 else n, a))))"

text \<open>One pass: the number of accepted transactions, those refused, and the state.\<close>

fun rebuild_pass :: "extern \<Rightarrow> settings \<Rightarrow> nat \<Rightarrow> transaction list \<Rightarrow> admission \<Rightarrow> nat \<times> transaction list \<times> admission" where
  "rebuild_pass X S cap [] a = (0, [], a)"
| "rebuild_pass X S cap (tx # txs) a =
     (if length (cs_mempool (fst a)) \<ge> cap then (0, [], a) else
      (case accept_transaction_to_mempool_with_context X S tx a of (r, a) \<Rightarrow>
      (case rebuild_pass X S cap txs a of (n, refused, a) \<Rightarrow>
        if is_ok r then (n + 1, refused, a) else (n, tx # refused, a))))"

text \<open>\<open>for _ in 0..k\<close>.\<close>

fun rebuild_passes :: "extern \<Rightarrow> settings \<Rightarrow> nat \<Rightarrow> nat \<Rightarrow> transaction list \<Rightarrow> admission \<Rightarrow> nat \<times> admission" where
  "rebuild_passes X S cap 0 pending a = (0, a)"
| "rebuild_passes X S cap (Suc k) pending a =
     (if pending = [] \<or> length (cs_mempool (fst a)) \<ge> cap then (0, a) else
      (case rebuild_pass X S cap pending a of (n, refused, a) \<Rightarrow>
        if length refused = length pending then (n, a)
        else (case rebuild_passes X S cap k refused a of (m, a) \<Rightarrow> (n + m, a))))"

definition rebuild_mempool_from :: "extern \<Rightarrow> settings \<Rightarrow> transaction list \<Rightarrow> chain_state \<Rightarrow> nat \<times> chain_state" where
  "rebuild_mempool_from X S txs c =
     (let cap = unat (effective_mempool_max_transactions S);
          share_cap = min (unat (hf124_pool_share_mempool_limit S)) cap;
          fresh = unseen X {} txs;
          shares = sort_by (share_order X) (filter is_pool_share_transaction fresh);
          ordinary = by_priority X S (filter (\<lambda>tx. \<not> is_pool_share_transaction tx) fresh);
          c = c\<lparr>cs_mempool := []\<rparr> in
      case pool_context_from_confirmed X S (cs_blocks c) (spend_height c) of
        Inl _ \<Rightarrow> (0, c)
      | Inr ctx \<Rightarrow>
          (case rebuild_shares X S cap share_cap shares (c, ctx, 0) of (n, a) \<Rightarrow>
          (case rebuild_passes X S cap 8 ordinary a of (m, a) \<Rightarrow> (n + m, fst a))))"

definition revalidate_mempool :: "extern \<Rightarrow> settings \<Rightarrow> chain_state \<Rightarrow> nat \<times> chain_state" where
  "revalidate_mempool X S c = rebuild_mempool_from X S (cs_mempool c) c"

section \<open>Sequences of admissions\<close>

text \<open>Batches and rebuilds are sequences of admissions of transactions of \<open>T\<close>, refused ones included.\<close>

inductive admits :: "extern \<Rightarrow> settings \<Rightarrow> transaction set \<Rightarrow> admission \<Rightarrow> admission \<Rightarrow> bool" for X S T where
  finished: "admits X S T a a"
| admit: "tx \<in> T \<Longrightarrow> accept_transaction_to_mempool_with_context X S tx a = (r, b) \<Longrightarrow> admits X S T b c \<Longrightarrow>
    admits X S T a c"

lemma admits_trans: "admits X S T a b \<Longrightarrow> admits X S T b c \<Longrightarrow> admits X S T a c"
  by (induction rule: admits.induct) (auto intro: admits.admit)

lemma admits_mono: "admits X S T a b \<Longrightarrow> T \<subseteq> U \<Longrightarrow> admits X S U a b"
  by (induction rule: admits.induct) (auto intro: admits.intros)

lemma accept_each_admits:
  "accept_each X S txs a = (accepted, b) \<Longrightarrow> admits X S (set txs) a b"
proof (induction txs arbitrary: a accepted b)
  case (Cons tx txs)
  obtain r a' where a': "accept_transaction_to_mempool_with_context X S tx a = (r, a')"
      by (cases "accept_transaction_to_mempool_with_context X S tx a")
  moreover obtain acc' b' where e: "accept_each X S txs a' = (acc', b')" by (rule prod.exhaust)
  moreover have "b' = b" using Cons.prems a' e by simp
  ultimately have acc: "accept_each X S txs a' = (acc', b)" by simp
  have "admits X S (set (tx # txs)) a' b" by (rule admits_mono [OF Cons.IH [OF acc]]) auto
  with a' show ?case by (rule admits.admit [rotated]) simp_all
qed (simp add: admits.finished)

lemma rebuild_shares_admits:
  "rebuild_shares X S cap k txs a = (n, b) \<Longrightarrow> admits X S (set txs) a b"
proof (induction txs arbitrary: a n b)
  case (Cons tx txs)
  show ?case
  proof (cases "length (cs_mempool (fst a)) \<ge> cap \<or> snd (snd a) \<ge> k")
    case True
    with Cons.prems show ?thesis by (simp add: admits.finished)
  next
    case False
    obtain r a' where a': "accept_transaction_to_mempool_with_context X S tx a = (r, a')"
      by (cases "accept_transaction_to_mempool_with_context X S tx a")
    obtain n' b' where e: "rebuild_shares X S cap k txs a' = (n', b')" by (rule prod.exhaust)
    have "b' = b" using Cons.prems a' e False by (simp split: if_split_asm)
    with e have acc: "rebuild_shares X S cap k txs a' = (n', b)" by simp
    have "admits X S (set (tx # txs)) a' b" by (rule admits_mono [OF Cons.IH [OF acc]]) auto
    with a' show ?thesis by (rule admits.admit [rotated]) simp_all
  qed
qed (simp add: admits.finished)

lemma rebuild_pass_admits:
  "rebuild_pass X S cap txs a = (n, refused, b) \<Longrightarrow> admits X S (set txs) a b \<and> set refused \<subseteq> set txs"
proof (induction txs arbitrary: a n refused b)
  case (Cons tx txs)
  show ?case
  proof (cases "length (cs_mempool (fst a)) \<ge> cap")
    case True
    with Cons.prems show ?thesis by (simp add: admits.finished)
  next
    case False
    obtain r a' where a': "accept_transaction_to_mempool_with_context X S tx a = (r, a')"
      by (cases "accept_transaction_to_mempool_with_context X S tx a")
    obtain n' refused' b' where e: "rebuild_pass X S cap txs a' = (n', refused', b')"
      by (cases "rebuild_pass X S cap txs a'")
    have "b' = b" and sub: "set refused \<subseteq> insert tx (set refused')"
      using Cons.prems a' e False by (auto split: if_split_asm)
    with e have r: "rebuild_pass X S cap txs a' = (n', refused', b)" by simp
    from Cons.IH [OF r] have ab: "admits X S (set txs) a' b" and "set refused' \<subseteq> set txs" by simp_all
    moreover have "admits X S (set (tx # txs)) a' b" by (rule admits_mono [OF ab]) auto
    ultimately show ?thesis using sub a' admits.admit [of tx "set (tx # txs)" X S a r a' b] by auto
  qed
qed (simp add: admits.finished)

lemma rebuild_passes_admits:
  "rebuild_passes X S cap k txs a = (n, b) \<Longrightarrow> admits X S (set txs) a b"
proof (induction k arbitrary: txs a n b)
  case (Suc k)
  show ?case
  proof (cases "txs = [] \<or> length (cs_mempool (fst a)) \<ge> cap")
    case True
    with Suc.prems show ?thesis by (simp add: admits.finished)
  next
    case False
    obtain m refused a' where p: "rebuild_pass X S cap txs a = (m, refused, a')" by (cases "rebuild_pass X S cap txs a")
    note pass = rebuild_pass_admits [OF p]
    show ?thesis
    proof (cases "length refused = length txs")
      case True
      with Suc.prems False p pass show ?thesis by simp
    next
      case False': False
      obtain m' b' where e: "rebuild_passes X S cap k refused a' = (m', b')" by (rule prod.exhaust)
      have "b' = b" using Suc.prems False False' p e by simp
      from Suc.IH [OF e] this have "admits X S (set txs) a' b" using pass admits_mono by blast
      with pass show ?thesis by (blast intro: admits_trans)
    qed
  qed
qed (simp add: admits.finished)

section \<open>What every admission keeps\<close>

definition mempool_ok :: "extern \<Rightarrow> settings \<Rightarrow> chain_state \<Rightarrow> bool" where
  "mempool_ok X S c \<longleftrightarrow>
     length (cs_mempool c) \<le> unat (effective_mempool_max_transactions S) \<and>
     pending_shares (cs_mempool c) \<le> unat (hf124_pool_share_mempool_limit S) \<and>
     distinct (map (txid X) (cs_mempool c)) \<and>
     distinct (concat (map spent_outpoints (cs_mempool c))) \<and>
     (\<forall>tx \<in> set (cs_mempool c). \<not> is_coinbase tx \<longrightarrow> (\<forall>p \<in> set (spent_outpoints tx). p |\<in>| fmdom (cs_utxos c)))"

lemma mempool_ok_empty [simp]: "cs_mempool c = [] \<Longrightarrow> mempool_ok X S c"
  by (simp add: mempool_ok_def pending_shares_def)

lemma distinct_concat_filter: "distinct (concat (map f xs)) \<Longrightarrow> distinct (concat (map f (filter P xs)))"
  by (induction xs) auto

lemma mempool_ok_filter:
  assumes "mempool_ok X S c"
  shows "mempool_ok X S (c\<lparr>cs_mempool := filter P (cs_mempool c)\<rparr>)"
proof -
  have "length (filter P xs) \<le> n" if "length xs \<le> n" for xs and n :: nat
    using length_filter_le [of P xs] that by (rule le_trans)
  moreover have "length (filter (\<lambda>x. P x \<and> is_pool_share_transaction x) xs) \<le> length (filter is_pool_share_transaction xs)" for xs
    by (induction xs) auto
  ultimately show ?thesis
    using assms by (auto simp: mempool_ok_def pending_shares_def distinct_map_filter distinct_concat_filter intro: le_trans)
qed

text \<open>The parts of the state admissions do not touch.\<close>

definition same_base :: "chain_state \<Rightarrow> chain_state \<Rightarrow> bool" where
  "same_base c d \<longleftrightarrow> cs_network d = cs_network c \<and> cs_blocks d = cs_blocks c \<and> cs_utxos d = cs_utxos c"

lemma same_base_refl [simp]: "same_base c c" and same_base_mempool [simp]: "same_base c (c\<lparr>cs_mempool := m\<rparr>)"
  by (simp_all add: same_base_def)

lemma same_base_trans: "same_base a b \<Longrightarrow> same_base b c \<Longrightarrow> same_base a c"
  by (simp add: same_base_def)

definition admission_ok :: "extern \<Rightarrow> settings \<Rightarrow> admission \<Rightarrow> bool" where
  "admission_ok X S a \<longleftrightarrow> mempool_ok X S (fst a) \<and> snd (snd a) = pending_shares (cs_mempool (fst a))"

lemma make_room_keeps:
  assumes "make_room X S sh a = (r, b)"
  shows "same_base (fst a) (fst b) \<and> set (cs_mempool (fst b)) \<subseteq> set (cs_mempool (fst a)) \<and>
    (admission_ok X S a \<longrightarrow> admission_ok X S b)"
proof -
  obtain c ctx n where a: "a = (c, ctx, n)" by (cases a)
  let ?d = "c\<lparr>cs_mempool := filter (confirmable_share X S (cs_blocks c) (spend_height c)) (cs_mempool c)\<rparr>"
  have d: "same_base c ?d" "set (cs_mempool ?d) \<subseteq> set (cs_mempool c)" "mempool_ok X S c \<longrightarrow> mempool_ok X S ?d"
    by (auto simp: mempool_ok_filter)
  have kept: "filter P xs = xs" if "length (filter P xs) = length xs" for P and xs :: "transaction list"
    using that by (metis filter_id_conv length_filter_less less_irrefl)
  let ?full = "length (cs_mempool c) \<ge> unat (effective_mempool_max_transactions S) \<or> sh \<and> n \<ge> unat (hf124_pool_share_mempool_limit S)"
  let ?removed = "length (cs_mempool c) - length (cs_mempool ?d)"
  show ?thesis
  proof (cases "?full \<and> ?removed > 0")
    case True
    then have "fst b = ?d \<and> snd (snd b) = pending_shares (cs_mempool ?d)"
      using assms by (auto simp: a make_room_def prune_unconfirmable_pool_shares_def Let_def split: sum.splits)
    with d show ?thesis by (simp add: a admission_ok_def)
  next
    case False
    have "b = a"
    proof (cases ?full)
      case True
      with False have "length (cs_mempool ?d) = length (cs_mempool c)"
        by (simp add: le_antisym [OF length_filter_le])
      then have "filter (confirmable_share X S (cs_blocks c) (spend_height c)) (cs_mempool c) = cs_mempool c"
        by (intro kept) simp
      with True assms show ?thesis
        by (simp add: a make_room_def prune_unconfirmable_pool_shares_def Let_def)
    next
      case False
      with assms show ?thesis by (auto simp: a make_room_def split: if_split_asm)
    qed
    with d show ?thesis by simp
  qed
qed

lemma null_spends_nothing: "is_pool_share_transaction tx \<or> is_coinbase tx \<Longrightarrow> spent_outpoints tx = []"
  by (auto simp: is_pool_share_transaction_def is_coinbase_def spent_outpoints_def length_Suc_conv)

lemma validated_spends:
  assumes "validate_tx_contextual X tx u h S vs = Inr fee" and "\<not> is_pool_share_transaction tx"
  shows "distinct (spent_outpoints tx)" and "\<not> is_coinbase tx \<Longrightarrow> p \<in> set (spent_outpoints tx) \<Longrightarrow> p |\<in>| fmdom u"
proof -
  have stateless: "validate_tx_stateless tx S = Inr ()"
    using assms(1) by (auto simp: validate_tx_contextual_def result_simps)
  show "distinct (spent_outpoints tx)"
  proof (cases "is_coinbase tx")
    case False
    with stateless assms(2) have "tx_inputs tx \<noteq> []" "tx_outputs tx \<noteq> []"
      by (auto simp: validate_tx_stateless_def split: if_split_asm)
    with stateless_Inr(1) [OF stateless] assms(2) show ?thesis by (simp add: spent_outpoints_def)
  qed (simp add: null_spends_nothing)
  show "p |\<in>| fmdom u" if "\<not> is_coinbase tx" "p \<in> set (spent_outpoints tx)"
    using assms(1) that(1) assms(2)
  proof (cases rule: validate_tx_contextual_cases)
    case (claim c)
    with that(2) show ?thesis by (auto simp: spent_outpoints_def length_Suc_conv intro: fmdomI)
  next
    case spend
    from check_inputs_value [OF spend(2)] that(2) show ?thesis by (auto simp: spent_outpoints_def intro: fmdomI)
  qed
qed

lemma common_checks_Inr:
  "common_checks X S tx (c, ctx, n) = Inr () \<Longrightarrow>
    length (cs_mempool c) < unat (effective_mempool_max_transactions S) \<and> txid X tx \<notin> txid X ` set (cs_mempool c)"
  by (auto simp: common_checks_def list_ex_iff split: if_split_asm)

lemma ordinary_checks_Inr:
  assumes "ordinary_checks X S tx c ctx = Inr ctx'"
  shows "set (spent_outpoints tx) \<inter> mempool_spent (cs_mempool c) = {}"
    and "\<exists>fee. validate_tx_contextual X tx (cs_utxos c) (spend_height c) S True = Inr fee"
proof -
  from assms have "\<not> list_ex (\<lambda>i. previous_output i \<noteq> outpoint_null \<and> previous_output i \<in> mempool_spent (cs_mempool c)) (tx_inputs tx)"
    by (auto simp: ordinary_checks_def Let_def)
  then show "set (spent_outpoints tx) \<inter> mempool_spent (cs_mempool c) = {}"
    by (auto simp: spent_outpoints_def list_ex_iff)
  from assms show "\<exists>fee. validate_tx_contextual X tx (cs_utxos c) (spend_height c) S True = Inr fee"
    unfolding ordinary_checks_def Let_def if_Inl_eq_Inr rbind_eq_Inr by blast
qed

lemma push_tx_base [simp]: "same_base c (push_tx tx c)" "cs_mempool (push_tx tx c) = cs_mempool c @ [tx]"
  "cs_utxos (push_tx tx c) = cs_utxos c"
  by (simp_all add: push_tx_def)

lemma push_share_ok:
  assumes "mempool_ok X S c" and "common_checks X S tx (c, ctx, n) = Inr ()" and "is_pool_share_transaction tx"
    and "pending_shares (cs_mempool c) < unat (hf124_pool_share_mempool_limit S)"
  shows "mempool_ok X S (push_tx tx c)"
  using assms(1,3,4) common_checks_Inr [OF assms(2)]
  by (auto simp: mempool_ok_def pending_shares_def null_spends_nothing)

lemma push_ordinary_ok:
  assumes "mempool_ok X S c" and "common_checks X S tx (c, ctx, n) = Inr ()" and "\<not> is_pool_share_transaction tx"
    and "ordinary_checks X S tx c ctx = Inr ctx'"
  shows "mempool_ok X S (push_tx tx c)"
proof -
  from ordinary_checks_Inr(2) [OF assms(4)] obtain fee where
    v: "validate_tx_contextual X tx (cs_utxos c) (spend_height c) S True = Inr fee" by blast
  have "distinct (concat (map spent_outpoints (cs_mempool c @ [tx])))"
    using assms(1) validated_spends(1) [OF v assms(3)] ordinary_checks_Inr(1) [OF assms(4)]
    by (auto simp: mempool_ok_def mempool_spent_def)
  with assms(1,3) validated_spends(2) [OF v assms(3)] common_checks_Inr [OF assms(2)] show ?thesis
    by (auto simp: mempool_ok_def pending_shares_def)
qed

text \<open>
  One admission, accepted or refused: chain and UTXO set stay, the mempool stays well formed and can
  only gain the transaction, which is in it when it was accepted.
\<close>

definition admission_step :: "extern \<Rightarrow> settings \<Rightarrow> transaction set \<Rightarrow> admission \<Rightarrow> admission \<Rightarrow> bool" where
  "admission_step X S T a b \<longleftrightarrow> same_base (fst a) (fst b) \<and>
     set (cs_mempool (fst b)) \<subseteq> T \<union> set (cs_mempool (fst a)) \<and> (admission_ok X S a \<longrightarrow> admission_ok X S b)"

lemma admission_step_refl: "admission_step X S T a a"
  by (simp add: admission_step_def)

lemma admission_step_trans: "admission_step X S T a b \<Longrightarrow> admission_step X S T b c \<Longrightarrow> admission_step X S T a c"
  by (auto simp: admission_step_def intro: same_base_trans)

lemma admit_share_step:
  assumes "admit_share X S tx a = (r, b)" and "common_checks X S tx a = Inr ()" and "is_pool_share_transaction tx"
  shows "admission_step X S {tx} a b \<and> (is_ok r \<longrightarrow> tx \<in> set (cs_mempool (fst b)))"
proof -
  obtain c ctx n where a: "a = (c, ctx, n)" by (cases a)
  consider "fst b = c" "snd (snd b) = n" "\<not> is_ok r"
    | "fst b = push_tx tx c" "snd (snd b) = n + 1" "n < unat (hf124_pool_share_mempool_limit S)"
    using assms(1) by (auto simp: a admit_share_def split: if_split_asm sum.split_asm prod.split_asm)
  then show ?thesis
  proof cases
    case 2
    have "mempool_ok X S (push_tx tx c)" if "admission_ok X S a"
      using that 2(3) assms(2,3) by (intro push_share_ok) (auto simp: a admission_ok_def)
    with 2 assms(3) show ?thesis
      by (auto simp: admission_step_def admission_ok_def a pending_shares_def)
  qed (auto simp: admission_step_def admission_ok_def a)
qed

lemma admit_ordinary_step:
  assumes "admit_ordinary X S tx a = (r, b)" and "common_checks X S tx a = Inr ()" and "\<not> is_pool_share_transaction tx"
  shows "admission_step X S {tx} a b \<and> (is_ok r \<longrightarrow> tx \<in> set (cs_mempool (fst b)))"
proof -
  obtain c ctx n where a: "a = (c, ctx, n)" by (cases a)
  show ?thesis
  proof (cases "ordinary_checks X S tx c ctx")
    case (Inl e)
    with assms(1) show ?thesis by (auto simp: a admit_ordinary_def admission_step_refl)
  next
    case (Inr ctx')
    with assms(1) have b: "b = (push_tx tx c, ctx', n)" by (simp add: a admit_ordinary_def)
    have "mempool_ok X S (push_tx tx c)" if "admission_ok X S a"
      using that assms(2,3) Inr by (intro push_ordinary_ok) (auto simp: a admission_ok_def)
    with assms(3) show ?thesis
      by (auto simp: admission_step_def admission_ok_def a b pending_shares_def)
  qed
qed

lemma accept_step:
  assumes "accept_transaction_to_mempool_with_context X S tx a = (r, b)"
  shows "admission_step X S {tx} a b \<and> (is_ok r \<longrightarrow> tx \<in> set (cs_mempool (fst b)) \<and> r = Inr (txid X tx))"
proof -
  let ?sh = "is_pool_share_transaction tx"
  obtain r1 a1 where m: "make_room X S ?sh a = (r1, a1)" by (cases "make_room X S ?sh a")
  from make_room_keeps [OF m] have room: "admission_step X S {tx} a a1" by (auto simp: admission_step_def)
  show ?thesis
  proof (cases "is_ok r1 \<and> common_checks X S tx a1 = Inr ()")
    case False
    with assms m have "b = a1 \<and> \<not> is_ok r"
      by (auto simp: accept_transaction_to_mempool_with_context_def Let_def se_then_def se_bind_def se_need_def
          split: sum.split_asm)
    with room show ?thesis by simp
  next
    case True
    let ?admit = "if ?sh then admit_share X S tx else admit_ordinary X S tx"
    obtain r2 b2 where ad: "?admit a1 = (r2, b2)" by (cases "?admit a1")
    with assms m True have b: "b = b2" "is_ok r \<longrightarrow> is_ok r2 \<and> r = Inr (txid X tx)"
      by (auto simp: accept_transaction_to_mempool_with_context_def Let_def se_then_def se_bind_def se_need_def
          se_return_def is_ok_iff split: sum.split_asm)
    have "admission_step X S {tx} a1 b \<and> (is_ok r2 \<longrightarrow> tx \<in> set (cs_mempool (fst b)))"
    proof (cases ?sh)
      case sh: True
      with ad b(1) True show ?thesis by (intro admit_share_step) simp_all
    next
      case sh: False
      with ad b(1) True show ?thesis by (intro admit_ordinary_step) simp_all
    qed
    with room b(2) show ?thesis by (blast intro: admission_step_trans)
  qed
qed

lemma admission_step_mono: "admission_step X S T a b \<Longrightarrow> T \<subseteq> U \<Longrightarrow> admission_step X S U a b"
  by (auto simp: admission_step_def)

lemma admits_step: "admits X S T a b \<Longrightarrow> admission_step X S T a b"
proof (induction rule: admits.induct)
  case (admit tx a r b c)
  from accept_step [OF admit(2)] admit(1) have "admission_step X S T a b"
    using admission_step_mono [of X S "{tx}" a b T] by auto
  from this admit.IH show ?case by (rule admission_step_trans)
qed (rule admission_step_refl)

section \<open>The operations of the mempool\<close>

lemma accept_transaction_ok:
  assumes "accept_transaction_to_mempool X S tx c = (r, d)" and "mempool_ok X S c"
  shows "mempool_ok X S d \<and> same_base c d \<and> set (cs_mempool d) \<subseteq> insert tx (set (cs_mempool c)) \<and>
    (is_ok r \<longrightarrow> tx \<in> set (cs_mempool d))"
proof (cases "admission_start X S (Some (txid X tx)) c")
  case (Inl e)
  with assms show ?thesis by (auto simp: accept_transaction_to_mempool_def)
next
  case (Inr a)
  then have a: "fst a = c" "snd (snd a) = pending_shares (cs_mempool c)" by (auto simp: admission_start_def result_simps)
  obtain r' b where b: "accept_transaction_to_mempool_with_context X S tx a = (r', b)"
    by (cases "accept_transaction_to_mempool_with_context X S tx a")
  with Inr assms(1) have "d = fst b" "r = r'" by (simp_all add: accept_transaction_to_mempool_def)
  with accept_step [OF b] assms(2) a show ?thesis
    by (auto simp: admission_step_def admission_ok_def)
qed

lemma accept_batch_ok:
  assumes "accept_transactions_to_mempool_batch X S txs c = (r, d)" and "mempool_ok X S c"
  shows "mempool_ok X S d \<and> same_base c d \<and> set (cs_mempool d) \<subseteq> set txs \<union> set (cs_mempool c)"
proof (cases "admission_start X S None c")
  case (Inl e)
  with assms show ?thesis by (auto simp: accept_transactions_to_mempool_batch_def)
next
  case (Inr a)
  then have a: "fst a = c" "snd (snd a) = pending_shares (cs_mempool c)" by (auto simp: admission_start_def result_simps)
  obtain acc b where b: "accept_each X S txs a = (acc, b)" by (cases "accept_each X S txs a")
  with Inr assms(1) have "d = fst b" by (simp add: accept_transactions_to_mempool_batch_def)
  with admits_step [OF accept_each_admits [OF b]] assms(2) a show ?thesis
    by (auto simp: admission_step_def admission_ok_def)
qed

lemma unseen_subset: "set (unseen X seen txs) \<subseteq> set txs"
  by (induction txs arbitrary: seen) auto

lemma rebuild_mempool_ok:
  assumes "rebuild_mempool_from X S txs c = (n, d)"
  shows "mempool_ok X S d \<and> same_base c d \<and> set (cs_mempool d) \<subseteq> set txs"
proof -
  let ?c = "c\<lparr>cs_mempool := []\<rparr>" and ?cap = "unat (effective_mempool_max_transactions S)"
  let ?share_cap = "min (unat (hf124_pool_share_mempool_limit S)) ?cap"
  let ?shares = "sort_by (share_order X) (filter is_pool_share_transaction (unseen X {} txs))"
  let ?ordinary = "by_priority X S (filter (\<lambda>tx. \<not> is_pool_share_transaction tx) (unseen X {} txs))"
  show ?thesis
  proof (cases "pool_context_from_confirmed X S (cs_blocks c) (spend_height ?c)")
    case (Inl e)
    with assms show ?thesis by (auto simp: rebuild_mempool_from_def Let_def)
  next
    case (Inr ctx)
    obtain k a where a: "rebuild_shares X S ?cap ?share_cap ?shares (?c, ctx, 0) = (k, a)"
      by (cases "rebuild_shares X S ?cap ?share_cap ?shares (?c, ctx, 0)")
    obtain m b where b: "rebuild_passes X S ?cap 8 ?ordinary a = (m, b)"
      by (cases "rebuild_passes X S ?cap 8 ?ordinary a")
    have d: "d = fst b" using assms Inr a b by (simp add: rebuild_mempool_from_def Let_def)
    have "set ?shares \<subseteq> set txs" "set ?ordinary \<subseteq> set txs"
      using unseen_subset [of X "{}" txs] by (auto simp: by_priority_def)
    with admits_mono [OF rebuild_shares_admits [OF a]] admits_mono [OF rebuild_passes_admits [OF b]]
    have "admits X S (set txs) (?c, ctx, 0) b" by (blast intro: admits_trans)
    from admits_step [OF this] show ?thesis
      by (auto simp: d admission_step_def admission_ok_def pending_shares_def same_base_def)
  qed
qed

section \<open>A free transaction\<close>

text \<open>
  \<open>validate_tx_contextual\<close> answers a fee of 0 for anything shaped like a coinbase, and a Blast claim is
  exempt from the relay fee: a transaction that spends the null outpoint with a claim script is
  accepted without a coin, a signature or a fee. No block can contain it.
\<close>

lemma bare_tx_no_markers:
  assumes "tx_outputs tx = []"
  shows "jin_sale_purchases_in_tx X tx S = []" and "qub_jin_infusion_markers_in_tx X tx S = []"
    and "jin_transfers_in_tx X tx S = []" and "jin_conversions_in_tx X tx S = []"
    and "qns_registrations_in_tx X tx S = []" and "library_markers_in_tx X tx S = []"
    and "pool_action_count X tx S = 0" and "verified_governance_markers_in_tx X tx S = []"
proof -
  have m: "markers_in parse tx = []" for parse :: "script \<Rightarrow> 'm option"
    using assms by (simp add: markers_in_def List.map_filter_def)
  show "jin_sale_purchases_in_tx X tx S = []" "qub_jin_infusion_markers_in_tx X tx S = []"
    "jin_transfers_in_tx X tx S = []" "jin_conversions_in_tx X tx S = []" "library_markers_in_tx X tx S = []"
    "verified_governance_markers_in_tx X tx S = []"
    unfolding jin_sale_purchases_in_tx_def qub_jin_infusion_markers_in_tx_def jin_transfers_in_tx_def
      jin_conversions_in_tx_def library_markers_in_tx_def verified_governance_markers_in_tx_def by (rule m)+
  show "qns_registrations_in_tx X tx S = []" using assms by (simp add: qns_registrations_in_tx_def List.map_filter_def)
  show "pool_action_count X tx S = 0"
    by (simp add: pool_action_count_def pool_creates_in_tx_def pool_topups_in_tx_def pool_commissions_in_tx_def
        pool_renames_in_tx_def m)
qed

definition markerless :: "extern \<Rightarrow> settings \<Rightarrow> transaction \<Rightarrow> bool" where
  "markerless X S tx \<longleftrightarrow>
     jin_sale_purchases_in_tx X tx S = [] \<and> qub_jin_infusion_markers_in_tx X tx S = [] \<and>
     jin_transfers_in_tx X tx S = [] \<and> jin_conversions_in_tx X tx S = [] \<and>
     qns_registrations_in_tx X tx S = [] \<and> library_markers_in_tx X tx S = [] \<and>
     pool_action_count X tx S = 0 \<and> verified_governance_markers_in_tx X tx S = []"

text \<open>Without markers, admission is the contextual check, the conflict check and the relay fee.\<close>

lemma markerless_admitted:
  assumes "markerless X S tx" and "\<not> is_pool_share_transaction tx"
    and "validate_tx_contextual X tx (cs_utxos c) (spend_height c) S True = Inr fee"
    and "set (spent_outpoints tx) \<inter> mempool_spent (cs_mempool c) = {}"
    and "is_blast_claim_transaction X tx S \<or> mp_min_relay_fee_atoms (mempool_cfg S) \<le> fee"
    and "pools_registry_from_blocks X S (cs_blocks c) = Inr reg"
    and "length (cs_mempool c) < unat (effective_mempool_max_transactions S)"
    and "\<forall>t \<in> set (cs_mempool c). txid X t \<noteq> txid X tx"
  shows "accept_transaction_to_mempool X S tx c = (Inr (txid X tx), push_tx tx c)"
proof -
  note none = assms(1) [unfolded markerless_def]
  obtain ctx n where start: "admission_start X S (Some (txid X tx)) c = Inr (c, ctx, n)"
    using assms(6) by (simp add: admission_start_def pool_context_from_confirmed_def)
  have "is_jin_protocol_transaction X tx S \<longleftrightarrow> False"
    using none by (simp add: is_jin_protocol_transaction_def is_jin_sale_purchase_transaction_def
        is_qub_jin_infusion_transaction_def)
  moreover have "\<not> list_ex (\<lambda>i. previous_output i \<noteq> outpoint_null \<and> previous_output i \<in> mempool_spent (cs_mempool c)) (tx_inputs tx)"
    using assms(4) by (auto simp: spent_outpoints_def list_ex_iff)
  ultimately have ok: "ordinary_checks X S tx c ctx = Inr ctx"
    using assms(2,3,5) none
    by (auto simp: ordinary_checks_def Let_def qub_jin_melt_burn_atoms_for_fee_def pool_validate_and_apply_def
        validate_jin_transaction_against_chain_def validate_qub_jin_infusion_transaction_against_chain_def
        validate_jin_sale_transaction_against_chain_def qns_miner_fee_required_in_tx_def
        library_miner_fee_required_in_tx_def validate_qns_transaction_against_chain_def
        validate_library_transaction_against_chain_def validate_verified_governance_transaction_against_chain_def
        se_run_def se_return_def checked_add_def)
  have "make_room X S False (c, ctx, n) = (Inr (), (c, ctx, n))"
    using assms(7) by (simp add: make_room_def)
  moreover have "common_checks X S tx (c, ctx, n) = Inr ()"
    using assms(7,8) none by (auto simp: common_checks_def hf106_jin_sale_standardness_policy_def list_ex_iff)
  ultimately have "accept_transaction_to_mempool_with_context X S tx (c, ctx, n) =
      (Inr (txid X tx), (push_tx tx c, ctx, n))"
    using assms(2) ok
    by (simp add: accept_transaction_to_mempool_with_context_def se_then_def se_bind_def se_need_def se_return_def
        admit_ordinary_def)
  with start show ?thesis by (simp add: accept_transaction_to_mempool_def)
qed

text \<open>A transaction shaped like a coinbase with a Blast claim as its script is admitted unchecked.\<close>

lemma null_claim_admitted:
  assumes "is_coinbase tx" and "is_blast_claim_transaction X tx S" and "tx_outputs tx = []"
    and "pools_registry_from_blocks X S (cs_blocks c) = Inr reg"
    and "length (cs_mempool c) < unat (effective_mempool_max_transactions S)"
    and "\<forall>t \<in> set (cs_mempool c). txid X t \<noteq> txid X tx"
  shows "accept_transaction_to_mempool X S tx c = (Inr (txid X tx), push_tx tx c)"
proof (rule markerless_admitted [where fee = 0, OF _ _ _ _ _ assms(4-6)])
  show "markerless X S tx" by (simp add: markerless_def bare_tx_no_markers [OF assms(3)])
  show "\<not> is_pool_share_transaction tx" "set (spent_outpoints tx) \<inter> mempool_spent (cs_mempool c) = {}"
    using assms(1) null_spends_nothing [of tx] by (auto simp: is_coinbase_def is_pool_share_transaction_def)
  show "validate_tx_contextual X tx (cs_utxos c) (spend_height c) S True = Inr 0"
    using assms(1,3) by (simp add: validate_tx_contextual_def validate_tx_stateless_def)
  show "is_blast_claim_transaction X tx S \<or> mp_min_relay_fee_atoms (mempool_cfg S) \<le> 0" using assms(2) by simp
qed

end
