(* ===== verification/ChainState.thy ===== *)
theory ChainState
  imports Mempool
begin

text \<open>
  \<open>ChainState\<close> of \<open>src/lib.rs\<close>: the genesis block, connecting a block, building and checking a whole
  chain, adopting a better one, and the form a chain state is persisted in. A function that leaves
  the state alone when it fails is a function to \<open>result\<close>.
\<close>

section \<open>Genesis\<close>

definition genesis_coinbase :: "settings \<Rightarrow> transaction" where
  "genesis_coinbase S =
     \<lparr>tx_version = 1,
      tx_inputs = [\<lparr>previous_output = outpoint_null,
        signature_script = ''QUB genesis:'' @ net_name (network S), sequence = U32_MAX\<rparr>],
      tx_outputs = [], tx_locktime = 0\<rparr>"

definition genesis_block :: "extern \<Rightarrow> settings \<Rightarrow> block result" where
  "genesis_block X S =
     (let coinbase = genesis_coinbase S in
      rbind (genesis_bits S) (\<lambda>bits.
      Inr \<lparr>blk_header =
          \<lparr>hdr_version = cons_version (consensus S), hdr_prev_block_hash = hash_zero,
           hdr_merkle_root = merkle_root X [txid X coinbase], hdr_time = cons_genesis_time (consensus S),
           hdr_bits = bits, hdr_nonce = cons_genesis_nonce (consensus S)\<rparr>,
        blk_transactions = [coinbase]\<rparr>))"

definition new_with_genesis :: "extern \<Rightarrow> settings \<Rightarrow> chain_state result" where
  "new_with_genesis X S =
     rbind (genesis_block X S) (\<lambda>genesis.
     Inr \<lparr>cs_network = net_name (network S), cs_blocks = [genesis], cs_utxos = fmempty, cs_mempool = []\<rparr>)"

section \<open>Connecting a block\<close>

text \<open>
  The checks of a block on top of the blocks and coins before it, in the order of \<open>connect_block\<close> and
  of the loop of \<open>validate_all\<close>: the transaction ids of the block and the coins after it.
\<close>

definition check_and_apply_block ::
  "extern \<Rightarrow> settings \<Rightarrow> block list \<Rightarrow> utxo_map \<Rightarrow> hash256 \<Rightarrow> u32 \<Rightarrow> block \<Rightarrow> (hash256 fset \<times> utxo_map) result" where
  "check_and_apply_block X S prior utxos prev height b =
     rbind (required_work_bits S prior height) (\<lambda>required_bits.
     rbind (validate_block X b utxos prev height required_bits S) (\<lambda>txids.
     rbind (validate_qns_block X S b prior height) (\<lambda>_.
     rbind (validate_jin_block X S b prior utxos height) (\<lambda>_.
     rbind (validate_jin_sale_block X S b prior utxos height) (\<lambda>_.
     rbind (validate_pools_block X S b prior utxos height) (\<lambda>_.
     rbind (validate_library_block X S b prior utxos height) (\<lambda>_.
     rbind (validate_verified_governance_block X S b prior utxos height) (\<lambda>_.
     rbind (validate_consensus_checkpoint X S height (block_hash X b)) (\<lambda>_.
     rbind (connect_block_utxos X b height utxos) (\<lambda>new_utxos.
     Inr (txids, new_utxos)))))))))))"

definition connect_block :: "extern \<Rightarrow> settings \<Rightarrow> block \<Rightarrow> chain_state \<Rightarrow> (hash256 \<times> chain_state) result" where
  "connect_block X S b c =
     rbind (check_and_apply_block X S (cs_blocks c) (cs_utxos c) (tip_hash X c) (chain_height c + 1) b) (\<lambda>(txids, new_utxos).
     let c = c\<lparr>cs_blocks := cs_blocks c @ [b], cs_utxos := new_utxos,
         cs_mempool := filter (\<lambda>tx. txid X tx |\<notin>| txids) (cs_mempool c)\<rparr>
     in Inr (block_hash X b, snd (revalidate_mempool X S c)))"

definition from_blocks :: "extern \<Rightarrow> settings \<Rightarrow> block list \<Rightarrow> chain_state result" where
  "from_blocks X S blocks =
     (if blocks = [] then Inl (ChainErr EmptyCandidateChain) else
      rbind (genesis_block X S) (\<lambda>genesis.
      if blocks ! 0 \<noteq> genesis then Inl (ChainErr GenesisMismatch) else
      rbind (new_with_genesis X S) (\<lambda>chain.
      fold_r (\<lambda>b chain. rbind (connect_block X S b chain) (\<lambda>(_, chain). Inr chain)) (drop 1 blocks) chain)))"

definition validate_step ::
  "extern \<Rightarrow> settings \<Rightarrow> block list \<Rightarrow> nat \<times> block \<Rightarrow> utxo_map \<times> hash256 \<Rightarrow> (utxo_map \<times> hash256) result" where
  "validate_step X S blocks ib s = (case (ib, s) of ((i, b), (utxos, prev)) \<Rightarrow>
     rbind (check_and_apply_block X S (take i blocks) utxos prev (of_nat i) b) (\<lambda>(_, utxos).
     Inr (utxos, block_hash X b)))"

definition validate_all :: "extern \<Rightarrow> settings \<Rightarrow> chain_state \<Rightarrow> unit result" where
  "validate_all X S c = (let blocks = cs_blocks c in
     rbind (genesis_block X S) (\<lambda>genesis.
     if blocks = [] \<or> blocks ! 0 \<noteq> genesis then Inl (ChainErr GenesisMismatch) else
     rbind (fold_r (validate_step X S blocks) (numbered blocks) (fmempty, block_hash X (blocks ! 0))) (\<lambda>(utxos, _).
     if utxos \<noteq> cs_utxos c then Inl (ChainErr UtxoMismatch) else Inr ())))"

section \<open>Persistence\<close>

text \<open>Outpoints are ordered, so that the entries of a UTXO map can be listed.\<close>

instantiation outpoint :: linorder
begin

definition less_eq_outpoint :: "outpoint \<Rightarrow> outpoint \<Rightarrow> bool" where
  "less_eq_outpoint a b \<longleftrightarrow>
     op_txid a < op_txid b \<or> op_txid a = op_txid b \<and> op_vout a \<le> op_vout b"

definition less_outpoint :: "outpoint \<Rightarrow> outpoint \<Rightarrow> bool" where
  "less_outpoint a b \<longleftrightarrow>
     op_txid a < op_txid b \<or> op_txid a = op_txid b \<and> op_vout a < op_vout b"

instance
  by standard (auto simp: less_eq_outpoint_def less_outpoint_def intro: outpoint.expand)

end

record persisted_utxo =
  pu_outpoint :: outpoint
  pu_coin :: coin_record

record persisted_chain_state =
  pc_network :: string
  pc_blocks :: "block list"
  pc_utxos :: "persisted_utxo list"
  pc_mempool :: "transaction list"

text \<open>The entries of the \<open>HashMap\<close>, in the order of the text of their outpoints.\<close>

definition to_persisted :: "extern \<Rightarrow> chain_state \<Rightarrow> persisted_chain_state" where
  "to_persisted X c =
     \<lparr>pc_network = cs_network c, pc_blocks = cs_blocks c,
      pc_utxos = sort_by (\<lambda>a b. outpoint_key X (pu_outpoint a) \<le> outpoint_key X (pu_outpoint b))
        (map (\<lambda>(p, coin). \<lparr>pu_outpoint = p, pu_coin = coin\<rparr>) (sorted_list_of_fmap (cs_utxos c))),
      pc_mempool = cs_mempool c\<rparr>"

definition load_utxos :: "persisted_utxo list \<Rightarrow> utxo_map result" where
  "load_utxos us =
     fold_r (\<lambda>u m. if fmlookup m (pu_outpoint u) \<noteq> None then Inl (ChainErr DuplicatePersistedUtxo)
       else Inr (fmupd (pu_outpoint u) (pu_coin u) m)) us fmempty"

definition from_persisted :: "extern \<Rightarrow> settings \<Rightarrow> persisted_chain_state \<Rightarrow> chain_state result" where
  "from_persisted X S p =
     (if pc_network p \<noteq> net_name (network S) then Inl (ChainErr NetworkMismatch) else
      rbind (load_utxos (pc_utxos p)) (\<lambda>utxos.
      let s = \<lparr>cs_network = pc_network p, cs_blocks = pc_blocks p, cs_utxos = utxos, cs_mempool = pc_mempool p\<rparr> in
      rbind (validate_all X S s) (\<lambda>_. Inr s)))"

definition recent_links_ok :: "extern \<Rightarrow> block list \<Rightarrow> bool" where
  "recent_links_ok X blocks \<longleftrightarrow>
     list_all (\<lambda>i. hdr_prev_block_hash (blk_header (blocks ! i)) = block_hash X (blocks ! (i - 1)))
       [max (length blocks - 96) 1 ..< length blocks]"

definition from_persisted_unchecked_for_ui ::
  "extern \<Rightarrow> settings \<Rightarrow> persisted_chain_state \<Rightarrow> chain_state result" where
  "from_persisted_unchecked_for_ui X S p = (let blocks = pc_blocks p; h = MAINNET_FORK_SAFETY_CHECKPOINT_HEIGHT in
     if pc_network p \<noteq> net_name (network S) then Inl (ChainErr NetworkMismatch)
     else if blocks = [] then Inl (ChainErr EmptyPersistedChain) else
     rbind (genesis_block X S) (\<lambda>genesis.
     if blocks ! 0 \<noteq> genesis then Inl (ChainErr GenesisMismatch)
     else if (case consensus_checkpoint_hash S h of
         None \<Rightarrow> False
       | Some expected \<Rightarrow> unat h < length blocks \<and> hash_to_string X (block_hash X (blocks ! unat h)) \<noteq> expected)
     then Inl (ChainErr CheckpointMismatch)
     else if \<not> recent_links_ok X blocks then Inl (ChainErr RecentLinkMismatch) else
     rbind (load_utxos (pc_utxos p)) (\<lambda>utxos.
     Inr \<lparr>cs_network = pc_network p, cs_blocks = blocks, cs_utxos = utxos, cs_mempool = pc_mempool p\<rparr>)))"

section \<open>Adopting a chain\<close>

definition common_prefix_height_with :: "extern \<Rightarrow> chain_state \<Rightarrow> chain_state \<Rightarrow> nat" where
  "common_prefix_height_with X c other =
     (let top = unat (min (chain_height c) (chain_height other));
          same = (\<lambda>h. map_option (block_hash X) (if h < length (cs_blocks c) then Some (cs_blocks c ! h) else None) =
            map_option (block_hash X) (if h < length (cs_blocks other) then Some (cs_blocks other ! h) else None))
      in length (takeWhile same [0..<top + 1]) - 1)"

definition disconnected_non_coinbase_transactions_for :: "extern \<Rightarrow> chain_state \<Rightarrow> chain_state \<Rightarrow> transaction list" where
  "disconnected_non_coinbase_transactions_for X c candidate =
     (let common = common_prefix_height_with X c candidate;
          canonical = set (concat (map (\<lambda>b. map (txid X) (blk_transactions b)) (cs_blocks candidate)))
      in unseen X canonical (concat (map (\<lambda>b. drop 1 (blk_transactions b)) (drop (common + 1) (cs_blocks c)))))"

definition reorg_mempool_candidates_for :: "extern \<Rightarrow> chain_state \<Rightarrow> chain_state \<Rightarrow> transaction list" where
  "reorg_mempool_candidates_for X c candidate =
     unseen X {} (cs_mempool c @ cs_mempool candidate @ disconnected_non_coinbase_transactions_for X c candidate)"

definition should_adopt :: "extern \<Rightarrow> bool \<Rightarrow> nat \<Rightarrow> nat \<Rightarrow> chain_state \<Rightarrow> chain_state \<Rightarrow> bool" where
  "should_adopt X prefer_peer_on_equal_work candidate_work current_work candidate current \<longleftrightarrow>
     candidate_work > current_work \<or>
     candidate_work = current_work \<and> chain_height candidate > chain_height current \<or>
     candidate_work = current_work \<and> chain_height candidate = chain_height current \<and>
       hash_to_string X (tip_hash X candidate) \<noteq> hash_to_string X (tip_hash X current) \<and> prefer_peer_on_equal_work"

definition try_adopt_peer_chain ::
  "extern \<Rightarrow> settings \<Rightarrow> block list \<Rightarrow> bool \<Rightarrow> chain_state \<Rightarrow> (bool \<times> chain_state) result" where
  "try_adopt_peer_chain X S blocks prefer_peer_on_equal_work c =
     rbind (from_blocks X S blocks) (\<lambda>candidate.
     rbind (chain_work_for_blocks (cs_blocks candidate)) (\<lambda>candidate_work.
     rbind (chain_work_for_blocks (cs_blocks c)) (\<lambda>current_work.
     if should_adopt X prefer_peer_on_equal_work candidate_work current_work candidate c
     then Inr (True, snd (rebuild_mempool_from X S (reorg_mempool_candidates_for X c candidate) candidate))
     else Inr (False, c))))"

definition try_adopt_better_chain :: "extern \<Rightarrow> settings \<Rightarrow> block list \<Rightarrow> chain_state \<Rightarrow> (bool \<times> chain_state) result" where
  "try_adopt_better_chain X S blocks = try_adopt_peer_chain X S blocks False"

section \<open>Queries\<close>

definition tx_confirmations :: "extern \<Rightarrow> hash256 \<Rightarrow> chain_state \<Rightarrow> (u32 \<times> u32) option" where
  "tx_confirmations X tid c =
     map_option (\<lambda>(i, _). let h = of_nat i in (h, sat_add (sat_sub (chain_height c) h) 1))
       (find (\<lambda>(_, b). list_ex (\<lambda>tx. txid X tx = tid) (blk_transactions b)) (numbered (cs_blocks c)))"

definition balance_for_scripts :: "script set \<Rightarrow> settings \<Rightarrow> bool \<Rightarrow> chain_state \<Rightarrow> u64" where
  "balance_for_scripts scripts S include_immature c =
     sum_list (map (\<lambda>(_, coin). out_value (coin_out coin))
       (filter (\<lambda>(_, coin). script_pubkey (coin_out coin) \<in> scripts \<and>
           (include_immature \<or> \<not> is_immature_coinbase coin (chain_height c) S))
         (sorted_list_of_fmap (cs_utxos c))))"

end
