(* ===== verification/FastStorage.thy ===== *)
theory FastStorage
  imports Disk ChainState
begin

text \<open>
  The Fast Chain Engine of \<open>src/fast_storage.rs\<close>, its data and its readers. The blocks are lines of an
  append-only journal, the coins and the mempool are one state file per commit, and a pointer file
  says how many bytes of which journal and which state file make the committed chain. \<open>CURRENT.json\<close>
  is the last commit, \<open>PREVIOUS.json\<close> the one before. The crates \<open>serde_json\<close> and \<open>num_bigint\<close>
  are the parameter \<open>codec\<close>.
\<close>

section \<open>Data\<close>

definition HF123_FAST_STORAGE_SCHEMA_VERSION :: u32 where "HF123_FAST_STORAGE_SCHEMA_VERSION = 1"
definition HF123_FAST_STORAGE_MAGIC :: string where "HF123_FAST_STORAGE_MAGIC = ''QUB-FCE-1''"
definition HF123_FAST_STATUS_RECENT_BLOCKS :: nat where "HF123_FAST_STATUS_RECENT_BLOCKS = 64"
definition HF123_LEGACY_EXPORT_INTERVAL_SECS :: u64 where "HF123_LEGACY_EXPORT_INTERVAL_SECS = 6 * 60 * 60"
definition HF123_LEGACY_EXPORT_BLOCK_INTERVAL :: u32 where "HF123_LEGACY_EXPORT_BLOCK_INTERVAL = 256"
definition HF123_STORAGE_LOCK_STALE_SECS :: u64 where "HF123_STORAGE_LOCK_STALE_SECS = 15 * 60"
definition FAST_CHAIN_STATUS_SCHEMA_VERSION :: u32 where "FAST_CHAIN_STATUS_SCHEMA_VERSION = 1"

definition fast_pointer_file :: string where "fast_pointer_file = ''CURRENT.json''"
definition fast_previous_pointer_file :: string where "fast_previous_pointer_file = ''PREVIOUS.json''"
definition fast_storage_lock_file :: string where "fast_storage_lock_file = ''WRITE.lock''"
definition fast_legacy_export_status_file :: string where "fast_legacy_export_status_file = ''legacy-export-status.json''"
definition chain_file :: string where "chain_file = ''chain.json''"
definition chain_status_file :: string where "chain_status_file = ''chain-status.json''"

datatype fast_commit_policy = Normal | VerifiedEqualWorkReanchor

record fast_recent_block =
  frb_height :: u32
  frb_hash :: hash256
  frb_version :: u32
  frb_time :: u32
  frb_tx_count :: nat

record storage_identity =
  fid_schema_version :: u32
  fid_magic :: string
  fid_network :: string
  fid_generation :: u64
  fid_state_revision :: u64
  fid_committed_height :: u32
  fid_tip_hash :: hash256
  fid_tip_block_version :: u32
  fid_mempool_digest :: hash256
  fid_total_work_hex :: string
  fid_committed_at_unix :: u64

record storage_pointer =
  ptr_schema_version :: u32
  ptr_magic :: string
  ptr_network :: string
  ptr_generation :: u64
  ptr_state_revision :: u64
  ptr_blocks_file :: string
  ptr_state_file :: string
  ptr_state_sha256 :: string
  ptr_journal_bytes :: nat
  ptr_committed_height :: u32
  ptr_tip_hash :: hash256
  ptr_tip_header :: block_header
  ptr_tip_tx_count :: nat
  ptr_mempool_digest :: hash256
  ptr_total_work_hex :: string
  ptr_committed_at_unix :: u64

record storage_state =
  fst_schema_version :: u32
  fst_magic :: string
  fst_network :: string
  fst_generation :: u64
  fst_state_revision :: u64
  fst_committed_height :: u32
  fst_tip_hash :: hash256
  fst_tip_header :: block_header
  fst_tip_tx_count :: nat
  fst_journal_bytes :: nat
  fst_mempool_digest :: hash256
  fst_total_work_hex :: string
  fst_utxos :: "persisted_utxo list"
  fst_mempool :: "transaction list"
  fst_recent_blocks :: "fast_recent_block list"

record legacy_export_status =
  les_schema_version :: u32
  les_network :: string
  les_height :: u32
  les_tip_hash :: hash256
  les_exported_at_unix :: u64

record fast_chain_status =
  fcs_schema_version :: u32
  fcs_network :: string
  fcs_height :: u32
  fcs_tip_hash :: hash256
  fcs_tip_block_version :: u32
  fcs_tip_block_time :: u32
  fcs_tip_tx_count :: nat
  fcs_chain_file_bytes :: nat
  fcs_chain_file_modified :: "u64 \<times> u32"
  fcs_generated_at_unix :: u64
  fcs_storage_engine :: string
  fcs_storage_generation :: u64
  fcs_state_revision :: u64
  fcs_primary_state_bytes :: nat
  fcs_journal_bytes :: nat
  fcs_mempool_tx_count :: nat
  fcs_mempool_digest :: hash256
  fcs_recent_blocks :: "fast_recent_block list"

text \<open>
  \<open>serde_json\<close> (\<open>to_vec\<close>, \<open>from_slice\<close> on each type) and the hexadecimal text of \<open>BigUint\<close>.
  \<open>codec_ok\<close> is what they document: a value is read back from its text, and compact JSON has no
  line break and is not empty. Of reading a whole document, only the grammar is left to \<open>serde_json\<close>:
  \<open>array_items\<close> and \<open>object_members\<close> cut an array or an object into the texts of its values. \<open>json_ok\<close> says
  that they find the values an array or object was put together from.
\<close>

record codec =
  block_json :: "block \<Rightarrow> bytes"
  block_parse :: "bytes \<Rightarrow> block option"
  state_json :: "storage_state \<Rightarrow> bytes"
  state_parse :: "bytes \<Rightarrow> storage_state option"
  pointer_json :: "storage_pointer \<Rightarrow> bytes"
  pointer_parse :: "bytes \<Rightarrow> storage_pointer option"
  status_json :: "fast_chain_status \<Rightarrow> bytes"
  legacy_json :: "legacy_export_status \<Rightarrow> bytes"
  legacy_parse :: "bytes \<Rightarrow> legacy_export_status option"
  string_json :: "string \<Rightarrow> bytes"
  utxos_json :: "persisted_utxo list \<Rightarrow> bytes"
  txs_json :: "transaction list \<Rightarrow> bytes"
  string_parse :: "bytes \<Rightarrow> string option"
  utxos_parse :: "bytes \<Rightarrow> persisted_utxo list option"
  txs_parse :: "bytes \<Rightarrow> transaction list option"
  json_value :: "bytes \<Rightarrow> bool"
  array_items :: "bytes \<Rightarrow> bytes list option"
  object_members :: "bytes \<Rightarrow> (string \<times> bytes) list option"
  work_hex :: "nat \<Rightarrow> string"
  work_parse :: "string \<Rightarrow> nat option"

definition NL :: char where "NL = CHR 0x0A"
definition CR :: char where "CR = CHR 0x0D"

definition codec_ok :: "codec \<Rightarrow> bool" where
  "codec_ok J \<longleftrightarrow>
     (\<forall>b. block_parse J (block_json J b) = Some b) \<and> (\<forall>s. state_parse J (state_json J s) = Some s) \<and>
     (\<forall>p. pointer_parse J (pointer_json J p) = Some p) \<and> (\<forall>n. work_parse J (work_hex J n) = Some n) \<and>
     (\<forall>b. block_json J b \<noteq> [] \<and> NL \<notin> set (block_json J b) \<and> CR \<notin> set (block_json J b))"

definition chain_json_text :: "codec \<Rightarrow> string \<Rightarrow> bytes list \<Rightarrow> persisted_utxo list \<Rightarrow> transaction list \<Rightarrow> bytes" where
  "chain_json_text J net records utxos mempool =
     ''{\"network\":'' @ string_json J net @ '',\"blocks\":['' @ join_with (CHR '','') records @
     ''],\"utxos\":'' @ utxos_json J utxos @ '',\"mempool\":'' @ txs_json J mempool @ ''}'' @ [NL]"

definition json_array :: "bytes list \<Rightarrow> bytes" where
  "json_array vs = ''['' @ join_with (CHR '','') vs @ '']''"

definition json_object :: "(string \<times> bytes) list \<Rightarrow> bytes" where
  "json_object ms = ''{'' @ join_with (CHR '','') (map (\<lambda>(k, v). ''\"'' @ k @ ''\":'' @ v) ms) @ ''}''"

definition json_ok :: "codec \<Rightarrow> bool" where
  "json_ok J \<longleftrightarrow>
     (\<forall>s. string_parse J (string_json J s) = Some s \<and> json_value J (string_json J s)) \<and>
     (\<forall>us. utxos_parse J (utxos_json J us) = Some us \<and> json_value J (utxos_json J us)) \<and>
     (\<forall>ts. txs_parse J (txs_json J ts) = Some ts \<and> json_value J (txs_json J ts)) \<and>
     (\<forall>b. json_value J (block_json J b)) \<and>
     (\<forall>vs. list_all (json_value J) vs \<longrightarrow> json_value J (json_array vs) \<and> array_items J (json_array vs) = Some vs) \<and>
     (\<forall>ms ws. list_all (\<lambda>(k, v). list_all is_ascii_lowercase k \<and> json_value J v) ms \<longrightarrow>
        set ws \<subseteq> {NL, CR, CHR '' '', CHR 0x09} \<longrightarrow> object_members J (json_object ms @ ws) = Some ms)"

text \<open>
  The reader that \<open>derive(Deserialize)\<close> makes of \<open>PersistedChainState\<close>: every field by its name, exactly
  once; other members are ignored.
\<close>

definition json_field :: "(string \<times> bytes) list \<Rightarrow> string \<Rightarrow> bytes option" where
  "json_field members name = (case filter (\<lambda>m. fst m = name) members of [m] \<Rightarrow> Some (snd m) | _ \<Rightarrow> None)"

definition persisted_parse :: "codec \<Rightarrow> bytes \<Rightarrow> persisted_chain_state option" where
  "persisted_parse J raw =
     Option.bind (object_members J raw) (\<lambda>members.
     Option.bind (Option.bind (json_field members ''network'') (string_parse J)) (\<lambda>network.
     Option.bind (Option.bind (json_field members ''blocks'') (array_items J)) (\<lambda>items.
     Option.bind (those (map (block_parse J) items)) (\<lambda>blocks.
     Option.bind (Option.bind (json_field members ''utxos'') (utxos_parse J)) (\<lambda>utxos.
     Option.bind (Option.bind (json_field members ''mempool'') (txs_parse J)) (\<lambda>mempool.
     Some \<lparr>pc_network = network, pc_blocks = blocks, pc_utxos = utxos, pc_mempool = mempool\<rparr>))))))"

lemma codec_okD:
  assumes "codec_ok J"
  shows "block_parse J (block_json J b) = Some b" "state_parse J (state_json J s) = Some s"
    "pointer_parse J (pointer_json J p) = Some p" "work_parse J (work_hex J n) = Some n"
    "block_json J b \<noteq> []" "NL \<notin> set (block_json J b)" "CR \<notin> set (block_json J b)"
  using assms by (simp_all add: codec_ok_def)

lemma chain_json_members:
  "chain_json_text J net records utxos mempool =
    json_object [(''network'', string_json J net), (''blocks'', json_array records),
      (''utxos'', utxos_json J utxos), (''mempool'', txs_json J mempool)] @ [NL]"
  by (simp add: chain_json_text_def json_object_def json_array_def)

lemma those_parsed: "codec_ok J \<Longrightarrow> those (map (block_parse J) (map (block_json J) bs)) = Some bs"
  by (induction bs) (simp_all add: codec_okD)

lemma chain_json_read:
  assumes "codec_ok J" and "json_ok J"
  shows "persisted_parse J (chain_json_text J net (map (block_json J) bs) us txs) =
    Some \<lparr>pc_network = net, pc_blocks = bs, pc_utxos = us, pc_mempool = txs\<rparr>"
proof -
  let ?ms = "[(''network'', string_json J net), (''blocks'', json_array (map (block_json J) bs)),
      (''utxos'', utxos_json J us), (''mempool'', txs_json J txs)]"
  note j = assms(2) [unfolded json_ok_def]
  have bs: "list_all (json_value J) (map (block_json J) bs)" using j by (simp add: list_all_iff)
  with j have items: "json_value J (json_array (map (block_json J) bs))"
    "array_items J (json_array (map (block_json J) bs)) = Some (map (block_json J) bs)" by blast+
  have "list_all (\<lambda>(k, v). list_all is_ascii_lowercase k \<and> json_value J v) ?ms"
    using j items(1) by (simp add: is_ascii_lowercase_def less_eq_char_def)
  moreover have "\<forall>ms ws. list_all (\<lambda>(k, v). list_all is_ascii_lowercase k \<and> json_value J v) ms \<longrightarrow>
      set ws \<subseteq> {NL, CR, CHR '' '', CHR 0x09} \<longrightarrow> object_members J (json_object ms @ ws) = Some ms" using j by blast
  moreover have "set [NL] \<subseteq> {NL, CR, CHR '' '', CHR 0x09}" by simp
  ultimately have "object_members J (json_object ?ms @ [NL]) = Some ?ms" by blast
  with j items(2) those_parsed [OF assms(1), of bs] show ?thesis
    by (simp add: persisted_parse_def chain_json_members json_field_def)
qed

section \<open>What a commit stores\<close>

definition pointer_identity :: "storage_pointer \<Rightarrow> storage_identity" where
  "pointer_identity p =
     \<lparr>fid_schema_version = ptr_schema_version p, fid_magic = ptr_magic p, fid_network = ptr_network p,
      fid_generation = ptr_generation p, fid_state_revision = ptr_state_revision p,
      fid_committed_height = ptr_committed_height p, fid_tip_hash = ptr_tip_hash p,
      fid_tip_block_version = hdr_version (ptr_tip_header p), fid_mempool_digest = ptr_mempool_digest p,
      fid_total_work_hex = ptr_total_work_hex p, fid_committed_at_unix = ptr_committed_at_unix p\<rparr>"

definition sha256_hex :: "extern \<Rightarrow> bytes \<Rightarrow> string" where
  "sha256_hex X body = hex_encode X (sha256 X body)"

definition hash_file_prefix :: "extern \<Rightarrow> disk \<Rightarrow> string \<Rightarrow> nat \<Rightarrow> string result" where
  "hash_file_prefix X d name bytes =
     rbind (ok_or (StorageErr SOpen) (fast_file d name)) (\<lambda>body.
     let read = take bytes body in
     if length read \<noteq> bytes then Inl (StorageErr SJournalShort) else Inr (sha256_hex X read))"

definition mempool_digest :: "extern \<Rightarrow> transaction list \<Rightarrow> hash256" where
  "mempool_digest X txs = double_sha256 X (concat (sort_by (\<le>) (map (txid X) txs)))"

definition sorted_utxos :: "extern \<Rightarrow> chain_state \<Rightarrow> persisted_utxo list" where
  "sorted_utxos X c =
     sort_by (\<lambda>a b. outpoint_key X (pu_outpoint a) \<le> outpoint_key X (pu_outpoint b))
       (map (\<lambda>(p, coin). \<lparr>pu_outpoint = p, pu_coin = coin\<rparr>) (sorted_list_of_fmap (cs_utxos c)))"

definition recent_blocks :: "extern \<Rightarrow> chain_state \<Rightarrow> fast_recent_block list" where
  "recent_blocks X c =
     (let start = length (cs_blocks c) - HF123_FAST_STATUS_RECENT_BLOCKS in
      map (\<lambda>(offset, b). \<lparr>frb_height = of_nat (start + offset), frb_hash = block_hash X b,
          frb_version = hdr_version (blk_header b), frb_time = hdr_time (blk_header b),
          frb_tx_count = length (blk_transactions b)\<rparr>)
        (enumerate 0 (drop start (cs_blocks c))))"

definition total_work_hex :: "codec \<Rightarrow> chain_state \<Rightarrow> string result" where
  "total_work_hex J c = rbind (chain_work_for_blocks (cs_blocks c)) (\<lambda>w. Inr (work_hex J w))"

definition parse_work :: "codec \<Rightarrow> string \<Rightarrow> nat result" where
  "parse_work J s = ok_or (StorageErr SParseWork) (work_parse J s)"

definition total_work_value :: "codec \<Rightarrow> chain_state \<Rightarrow> nat result" where
  "total_work_value J c = rbind (total_work_hex J c) (parse_work J)"

definition state_from_chain ::
  "codec \<Rightarrow> extern \<Rightarrow> chain_state \<Rightarrow> u64 \<Rightarrow> u64 \<Rightarrow> nat \<Rightarrow> storage_state result" where
  "state_from_chain J X c generation state_revision journal_bytes =
     (if cs_blocks c = [] then Inl (StorageErr SNoBlocks) else
      let tip = last (cs_blocks c) in
      rbind (total_work_hex J c) (\<lambda>work.
      Inr \<lparr>fst_schema_version = HF123_FAST_STORAGE_SCHEMA_VERSION, fst_magic = HF123_FAST_STORAGE_MAGIC,
        fst_network = cs_network c, fst_generation = generation, fst_state_revision = state_revision,
        fst_committed_height = chain_height c, fst_tip_hash = block_hash X tip, fst_tip_header = blk_header tip,
        fst_tip_tx_count = length (blk_transactions tip), fst_journal_bytes = journal_bytes,
        fst_mempool_digest = mempool_digest X (cs_mempool c), fst_total_work_hex = work,
        fst_utxos = sorted_utxos X c, fst_mempool = cs_mempool c, fst_recent_blocks = recent_blocks X c\<rparr>))"

definition pointer_from_state :: "string \<Rightarrow> string \<Rightarrow> string \<Rightarrow> u64 \<Rightarrow> storage_state \<Rightarrow> storage_pointer" where
  "pointer_from_state blocks_file state_file state_sha256 now s =
     \<lparr>ptr_schema_version = fst_schema_version s, ptr_magic = fst_magic s, ptr_network = fst_network s,
      ptr_generation = fst_generation s, ptr_state_revision = fst_state_revision s,
      ptr_blocks_file = blocks_file, ptr_state_file = state_file, ptr_state_sha256 = state_sha256,
      ptr_journal_bytes = fst_journal_bytes s, ptr_committed_height = fst_committed_height s,
      ptr_tip_hash = fst_tip_hash s, ptr_tip_header = fst_tip_header s, ptr_tip_tx_count = fst_tip_tx_count s,
      ptr_mempool_digest = fst_mempool_digest s, ptr_total_work_hex = fst_total_work_hex s,
      ptr_committed_at_unix = now\<rparr>"

section \<open>Reading the pointer and the state\<close>

text \<open>\<open>safe_child\<close>: a name of one normal path component, itself.\<close>

definition safe_child :: "string \<Rightarrow> string result" where
  "safe_child name =
     (if name = [] \<or> CHR ''/'' \<in> set name \<or> name = ''.'' \<or> name = ''..'' then Inl (StorageErr SBadFileName)
      else Inr name)"

definition fast_storage_exists :: "disk \<Rightarrow> bool" where
  "fast_storage_exists d \<longleftrightarrow>
     fast_file d fast_pointer_file \<noteq> None \<or> fast_file d fast_previous_pointer_file \<noteq> None"

definition validate_pointer :: "settings \<Rightarrow> storage_pointer \<Rightarrow> unit result" where
  "validate_pointer S p =
     (if ptr_schema_version p \<noteq> HF123_FAST_STORAGE_SCHEMA_VERSION \<or> ptr_magic p \<noteq> HF123_FAST_STORAGE_MAGIC
         \<or> ptr_network p \<noteq> net_name (network S) then Inl (StorageErr SPointerMismatch) else
      rbind (safe_child (ptr_blocks_file p)) (\<lambda>_. rbind (safe_child (ptr_state_file p)) (\<lambda>_. Inr ())))"

definition read_pointer_path :: "codec \<Rightarrow> settings \<Rightarrow> disk \<Rightarrow> string \<Rightarrow> storage_pointer result" where
  "read_pointer_path J S d path =
     rbind (ok_or (StorageErr SOpen) (fast_file d path)) (\<lambda>body.
     rbind (ok_or (StorageErr SJson) (pointer_parse J body)) (\<lambda>pointer.
     rbind (validate_pointer S pointer) (\<lambda>_.
     rbind (safe_child (ptr_blocks_file pointer)) (\<lambda>_.
     rbind (safe_child (ptr_state_file pointer)) (\<lambda>_. Inr pointer)))))"

text \<open>The four attempts of the reader see the same disk.\<close>

definition read_pointer_with_recovery :: "codec \<Rightarrow> settings \<Rightarrow> disk \<Rightarrow> (storage_pointer \<times> bool) result" where
  "read_pointer_with_recovery J S d =
     (case read_pointer_path J S d fast_pointer_file of
        Inr pointer \<Rightarrow> Inr (pointer, False)
      | Inl err \<Rightarrow>
          if fast_file d fast_previous_pointer_file \<noteq> None then
            (case read_pointer_path J S d fast_previous_pointer_file of
               Inr pointer \<Rightarrow> Inr (pointer, True)
             | Inl _ \<Rightarrow> Inl (StorageErr SBothUnusable))
          else Inl err)"

definition read_state :: "codec \<Rightarrow> extern \<Rightarrow> settings \<Rightarrow> disk \<Rightarrow> storage_pointer \<Rightarrow> (storage_state \<times> nat) result" where
  "read_state J X S d p =
     rbind (safe_child (ptr_state_file p)) (\<lambda>path.
     rbind (ok_or (StorageErr SOpen) (fast_file d path)) (\<lambda>body.
     if sha256_hex X body \<noteq> ptr_state_sha256 p then Inl (StorageErr SStateChecksum) else
     rbind (ok_or (StorageErr SJson) (state_parse J body)) (\<lambda>s.
     if fst_schema_version s \<noteq> HF123_FAST_STORAGE_SCHEMA_VERSION \<or> fst_magic s \<noteq> HF123_FAST_STORAGE_MAGIC
        \<or> fst_network s \<noteq> net_name (network S) \<or> fst_generation s \<noteq> ptr_generation p
        \<or> fst_state_revision s \<noteq> ptr_state_revision p \<or> fst_committed_height s \<noteq> ptr_committed_height p
        \<or> fst_tip_hash s \<noteq> ptr_tip_hash p \<or> fst_tip_header s \<noteq> ptr_tip_header p
        \<or> fst_journal_bytes s \<noteq> ptr_journal_bytes p \<or> fst_mempool_digest s \<noteq> ptr_mempool_digest p
        \<or> fst_total_work_hex s \<noteq> ptr_total_work_hex p
     then Inl (StorageErr SStatePointerMismatch)
     else if mempool_digest X (fst_mempool s) \<noteq> fst_mempool_digest s then Inl (StorageErr SMempoolDigest)
     else Inr (s, length body))))"

text \<open>The current commit if \<open>read\<close> can use it, else the previous one, and whether it was the previous one.\<close>

definition with_previous :: "disk \<Rightarrow> (string \<Rightarrow> 'a result) \<Rightarrow> ('a \<times> bool) result" where
  "with_previous d read =
     (case read fast_pointer_file of
        Inr a \<Rightarrow> Inr (a, False)
      | Inl _ \<Rightarrow>
          if fast_file d fast_previous_pointer_file \<noteq> None then
            (case read fast_previous_pointer_file of
               Inr a \<Rightarrow> Inr (a, True)
             | Inl _ \<Rightarrow> Inl (StorageErr SBothUnusable))
          else Inl (StorageErr SCurrentUnusable))"

definition read_pointer_state ::
  "codec \<Rightarrow> extern \<Rightarrow> settings \<Rightarrow> disk \<Rightarrow> string \<Rightarrow> (storage_pointer \<times> storage_state \<times> nat) result" where
  "read_pointer_state J X S d path =
     rbind (read_pointer_path J S d path) (\<lambda>p.
     rbind (read_state J X S d p) (\<lambda>(s, bytes). Inr (p, s, bytes)))"

definition read_pointer_state_with_recovery ::
  "codec \<Rightarrow> extern \<Rightarrow> settings \<Rightarrow> disk \<Rightarrow> ((storage_pointer \<times> storage_state \<times> nat) \<times> bool) result" where
  "read_pointer_state_with_recovery J X S d = with_previous d (read_pointer_state J X S d)"

section \<open>Reading the journal\<close>

definition read_until_nl :: "bytes \<Rightarrow> bytes \<times> bytes" where
  "read_until_nl s =
     (case dropWhile (\<lambda>c. c \<noteq> NL) s of
        [] \<Rightarrow> (s, [])
      | c # rest \<Rightarrow> (takeWhile (\<lambda>c. c \<noteq> NL) s @ [c], rest))"

definition strip_eol :: "bytes \<Rightarrow> bytes" where
  "strip_eol line = rev (dropWhile (\<lambda>c. c = NL \<or> c = CR) (rev line))"

lemma read_until_nl_shorter: "s \<noteq> [] \<Longrightarrow> read_until_nl s = (line, rest) \<Longrightarrow> length rest < length s"
proof (cases "dropWhile (\<lambda>c. c \<noteq> NL) s")
  case (Cons c r)
  moreover assume "s \<noteq> []" "read_until_nl s = (line, rest)"
  moreover have "length (dropWhile (\<lambda>c. c \<noteq> NL) s) \<le> length s" by (rule length_dropWhile_le)
  ultimately show ?thesis by (auto simp: read_until_nl_def)
qed (auto simp: read_until_nl_def)

text \<open>The loop of \<open>read_blocks\<close>: the blocks so far, the hash of the last one, the bytes left.\<close>

function read_records ::
  "codec \<Rightarrow> extern \<Rightarrow> settings \<Rightarrow> block \<Rightarrow> block list \<Rightarrow> hash256 \<Rightarrow> bytes \<Rightarrow> (block list \<times> hash256) result" where
  "read_records J X S genesis blocks previous s =
     (if s = [] then Inr (blocks, previous) else
      let (line, rest) = read_until_nl s; line = strip_eol line in
      if line = [] then Inl (StorageErr SEmptyRecord) else
      (case block_parse J line of
         None \<Rightarrow> Inl (StorageErr SParseRecord)
       | Some b \<Rightarrow>
           let height = of_nat (length blocks) in
           if hdr_version (blk_header b) \<noteq> expected_block_version S height then Inl (StorageErr SBlockVersion)
           else if height = 0 \<and> b \<noteq> genesis then Inl (StorageErr SGenesisMismatch)
           else if height \<noteq> 0 \<and> hdr_prev_block_hash (blk_header b) \<noteq> previous then Inl (StorageErr SHashLink)
           else read_records J X S genesis (blocks @ [b]) (block_hash X b) rest))"
  by pat_completeness auto
termination
  by (relation "measure (\<lambda>(J, X, S, g, blocks, previous, s). length s)")
    (auto dest!: sym [of "(_, _)" "read_until_nl _"] read_until_nl_shorter)

declare read_records.simps [simp del]

definition read_blocks ::
  "codec \<Rightarrow> extern \<Rightarrow> settings \<Rightarrow> disk \<Rightarrow> storage_pointer \<Rightarrow> storage_state \<Rightarrow> block list result" where
  "read_blocks J X S d p s =
     rbind (safe_child (ptr_blocks_file p)) (\<lambda>path.
     rbind (ok_or (StorageErr SOpen) (fast_file d path)) (\<lambda>body.
     if length body < ptr_journal_bytes p then Inl (StorageErr SJournalShort) else
     let expected = unat (ptr_committed_height p) + 1 in
     rbind (genesis_block X S) (\<lambda>genesis.
     rbind (read_records J X S genesis [] hash_zero (take (ptr_journal_bytes p) body)) (\<lambda>(blocks, previous).
     if length blocks \<noteq> expected then Inl (StorageErr SBlockCount)
     else if previous \<noteq> ptr_tip_hash p \<or> previous \<noteq> fst_tip_hash s then Inl (StorageErr STipHash)
     else if blocks = [] \<or> blk_header (last blocks) \<noteq> ptr_tip_header p then Inl (StorageErr STipHeader)
     else
       let h = MAINNET_FORK_SAFETY_CHECKPOINT_HEIGHT in
       if (case consensus_checkpoint_hash S h of
           None \<Rightarrow> False
         | Some expected_hash \<Rightarrow>
             unat h < length blocks \<and> hash_to_string X (block_hash X (blocks ! unat h)) \<noteq> expected_hash)
       then Inl (StorageErr SCheckpoint)
       else Inr blocks))))"

section \<open>Loading\<close>

definition chain_from_state ::
  "extern \<Rightarrow> settings \<Rightarrow> block list \<Rightarrow> storage_state \<Rightarrow> bool \<Rightarrow> chain_state result" where
  "chain_from_state X S blocks s full_validate =
     rbind (fold_r (\<lambda>u m. if fmlookup m (pu_outpoint u) \<noteq> None then Inl (StorageErr SDuplicateUtxo)
       else Inr (fmupd (pu_outpoint u) (pu_coin u) m)) (fst_utxos s) fmempty) (\<lambda>utxos.
     let c = \<lparr>cs_network = fst_network s, cs_blocks = blocks, cs_utxos = utxos, cs_mempool = fst_mempool s\<rparr> in
     if full_validate then rbind (validate_all X S c) (\<lambda>_. Inr c) else Inr c)"

definition load_fast_chain_from_pointer_path ::
  "codec \<Rightarrow> extern \<Rightarrow> settings \<Rightarrow> disk \<Rightarrow> bool \<Rightarrow> string \<Rightarrow> (chain_state \<times> storage_identity) result" where
  "load_fast_chain_from_pointer_path J X S d full_validate path =
     rbind (read_pointer_path J S d path) (\<lambda>p.
     rbind (read_state J X S d p) (\<lambda>(s, _).
     rbind (read_blocks J X S d p s) (\<lambda>blocks.
     rbind (chain_from_state X S blocks s full_validate) (\<lambda>c.
     Inr (c, pointer_identity p)))))"

definition load_fast_chain_once ::
  "codec \<Rightarrow> extern \<Rightarrow> settings \<Rightarrow> disk \<Rightarrow> bool \<Rightarrow> ((chain_state \<times> storage_identity) \<times> bool) result" where
  "load_fast_chain_once J X S d full_validate =
     with_previous d (load_fast_chain_from_pointer_path J X S d full_validate)"

text \<open>\<open>load_fast_chain\<close> tries four times; on a disk no one writes to, each attempt has the same outcome.\<close>

definition load_fast_chain ::
  "codec \<Rightarrow> extern \<Rightarrow> settings \<Rightarrow> disk \<Rightarrow> bool \<Rightarrow> (chain_state \<times> storage_identity) result" where
  "load_fast_chain J X S d full_validate =
     rbind (load_fast_chain_once J X S d full_validate) (\<lambda>(r, used_previous). Inr r)"

end
