(* ===== verification/FastCommit.thy ===== *)
theory FastCommit
  imports FastStorage
begin

text \<open>
  The writers of the Fast Chain Engine (\<open>src/fast_storage.rs\<close>): the writer lock, a commit and its
  order of writes, the removal of old files, the compatibility export \<open>chain.json\<close>, and the
  functions of \<open>src/lib.rs\<close> that load and save the chain through it. What the operating system
  answers (clock, process table, age and modification times of files) is \<open>store_env\<close>.
\<close>

record store_env =
  ev_now_nanos :: u64
  ev_now_secs :: u64
  ev_pid :: u32
  ev_lock_age_secs :: "u64 option"
  ev_process_exists :: "u32 \<Rightarrow> bool"
  ev_modified :: "string \<Rightarrow> nat"
  ev_chain_file_stamp :: "u64 \<times> u32"

section \<open>The writer lock\<close>

text \<open>\<open>str::split_whitespace\<close>: the characters of a separator still to skip, the word so far, the rest.\<close>

fun split_words :: "nat \<Rightarrow> bytes \<Rightarrow> bytes \<Rightarrow> bytes list" where
  "split_words k w [] = (if w = [] then [] else [w])"
| "split_words (Suc k) w (c # cs) = split_words k w cs"
| "split_words 0 w (c # cs) =
     (case find (\<lambda>e. starts_with (c # cs) e) ws_encodings of
        Some e \<Rightarrow> (if w = [] then [] else [w]) @ split_words (length e - 1) [] cs
      | None \<Rightarrow> split_words 0 (w @ [c]) cs)"

fun find_map :: "('a \<Rightarrow> 'b option) \<Rightarrow> 'a list \<Rightarrow> 'b option" where
  "find_map f [] = None"
| "find_map f (x # xs) = (case f x of Some y \<Rightarrow> Some y | None \<Rightarrow> find_map f xs)"

definition lock_owner_alive :: "store_env \<Rightarrow> disk \<Rightarrow> bool" where
  "lock_owner_alive E d =
     (case Option.bind (fast_file d fast_storage_lock_file) from_utf8 of
        None \<Rightarrow> False
      | Some raw \<Rightarrow>
          (case Option.bind (find_map (\<lambda>part. strip_prefix part ''pid='') (split_words 0 [] raw)) parse_uint of
             None \<Rightarrow> False
           | Some pid \<Rightarrow> pid = ev_pid E \<or> ev_process_exists E pid))"

definition lock_text :: "store_env \<Rightarrow> bytes" where
  "lock_text E = ''pid='' @ show_word (ev_pid E) @ '' created_at_unix='' @ show_word (ev_now_secs E) @ [NL]"

definition lock_is_stale :: "store_env \<Rightarrow> bool" where
  "lock_is_stale E = (case ev_lock_age_secs E of Some age \<Rightarrow> age \<ge> HF123_STORAGE_LOCK_STALE_SECS | None \<Rightarrow> False)"

fun acquire_lease :: "store_env \<Rightarrow> nat \<Rightarrow> (disk, unit) se" where
  "acquire_lease E 0 = se_fail (StorageErr SLockFailed)"
| "acquire_lease E (Suc n) = (\<lambda>d.
     if fast_file d fast_storage_lock_file = None then
       se_then (replace_fast fast_storage_lock_file [])
         (append_fast fast_storage_lock_file (lock_text E)) d
     else if lock_is_stale E \<and> \<not> lock_owner_alive E d then
       se_then (se_ignore (remove_fast fast_storage_lock_file)) (acquire_lease E n) d
     else (Inl (StorageErr SLockActive), d))"

text \<open>The lease is dropped on every way out of the function that holds it.\<close>

definition with_lease :: "store_env \<Rightarrow> (disk, 'a) se \<Rightarrow> (disk, 'a) se" where
  "with_lease E m = se_then (acquire_lease E 2) (\<lambda>d.
     (case m d of (r, e) \<Rightarrow> (r, snd (remove_fast fast_storage_lock_file e))))"

section \<open>Journal, state and pointer\<close>

definition journal_text :: "codec \<Rightarrow> block list \<Rightarrow> bytes" where
  "journal_text J bs = concat (map (\<lambda>b. block_json J b @ [NL]) bs)"

definition write_full_journal :: "codec \<Rightarrow> string \<Rightarrow> block list \<Rightarrow> (disk, nat) se" where
  "write_full_journal J path bs =
     se_then (replace_fast path (journal_text J bs)) (se_return (length (journal_text J bs)))"

definition append_journal :: "codec \<Rightarrow> string \<Rightarrow> nat \<Rightarrow> block list \<Rightarrow> (disk, nat) se" where
  "append_journal J path committed_bytes bs =
     se_bind (se_need (\<lambda>d. ok_or (StorageErr SOpen) (fast_file d path))) (\<lambda>body.
     if length body < committed_bytes then se_fail (StorageErr SJournalShortened) else
     se_then (if length body > committed_bytes then truncate_fast path committed_bytes else se_return ())
    (se_then (append_fast path (journal_text J bs))
    (se_need (\<lambda>d. Inr (length (the (fast_file d path)))))))"

definition blocks_file_name :: "u64 \<Rightarrow> string" where
  "blocks_file_name generation = ''blocks-'' @ show_padded 20 (unat generation) @ ''.jsonl''"

definition state_file_name :: "u64 \<Rightarrow> u64 \<Rightarrow> string" where
  "state_file_name generation revision =
     ''state-'' @ show_padded 20 (unat generation) @ ''-'' @ show_padded 20 (unat revision) @ ''.json''"

text \<open>
  Old files go when they are neither used by \<open>CURRENT\<close> or \<open>PREVIOUS\<close> nor among the newest
  \<open>newest_kept\<close>; a file that cannot be removed stays.
\<close>

definition cleanup_old_files ::
  "codec \<Rightarrow> store_env \<Rightarrow> (storage_pointer \<Rightarrow> string) \<Rightarrow> string \<Rightarrow> string \<Rightarrow> nat \<Rightarrow> storage_pointer \<Rightarrow> (disk, unit) se" where
  "cleanup_old_files J E used start tail newest_kept current = (\<lambda>d.
     let keep = used current #
           (case Option.bind (fast_file d fast_previous_pointer_file) (pointer_parse J) of
              Some previous \<Rightarrow> [used previous] | None \<Rightarrow> []);
         names = filter (\<lambda>n. starts_with n start \<and> ends_with n tail) (sorted_list_of_fset (fmdom (dk_fast d)));
         newest = sort_by (\<lambda>a b. ev_modified E b \<le> ev_modified E a) names;
         keep = keep @ take newest_kept newest
     in se_for (\<lambda>n. se_ignore (remove_fast n)) (filter (\<lambda>n. n \<notin> set keep) newest) d)"

definition cleanup_old_state_files :: "codec \<Rightarrow> store_env \<Rightarrow> storage_pointer \<Rightarrow> (disk, unit) se" where
  "cleanup_old_state_files J E = cleanup_old_files J E ptr_state_file ''state-'' ''.json'' 4"

definition cleanup_old_journal_files :: "codec \<Rightarrow> store_env \<Rightarrow> storage_pointer \<Rightarrow> (disk, unit) se" where
  "cleanup_old_journal_files J E = cleanup_old_files J E ptr_blocks_file ''blocks-'' ''.jsonl'' 3"

definition write_state_and_pointer ::
  "codec \<Rightarrow> extern \<Rightarrow> store_env \<Rightarrow> storage_pointer option \<Rightarrow> string \<Rightarrow> storage_state \<Rightarrow> (disk, storage_pointer) se" where
  "write_state_and_pointer J X E previous blocks_file s =
     (let state_file = state_file_name (fst_generation s) (fst_state_revision s) in
      se_bind (se_need (\<lambda>_. safe_child state_file)) (\<lambda>state_path.
      let body = state_json J s;
          pointer = pointer_from_state blocks_file state_file (sha256_hex X body) (ev_now_secs E) s in
      se_then (replace_fast state_path body)
     (se_then (case previous of Some p \<Rightarrow> replace_fast fast_previous_pointer_file (pointer_json J p) | None \<Rightarrow> se_return ())
     (se_then (replace_fast fast_pointer_file (pointer_json J pointer))
     (se_then (cleanup_old_state_files J E pointer)
     (se_then (cleanup_old_journal_files J E pointer) (se_return pointer)))))))"

section \<open>Status and compatibility export\<close>

definition fast_status_from_pointer ::
  "store_env \<Rightarrow> disk \<Rightarrow> storage_pointer \<Rightarrow> storage_state \<Rightarrow> nat \<Rightarrow> fast_chain_status" where
  "fast_status_from_pointer E d p s state_bytes =
     \<lparr>fcs_schema_version = FAST_CHAIN_STATUS_SCHEMA_VERSION, fcs_network = fst_network s,
      fcs_height = fst_committed_height s, fcs_tip_hash = fst_tip_hash s,
      fcs_tip_block_version = hdr_version (fst_tip_header s), fcs_tip_block_time = hdr_time (fst_tip_header s),
      fcs_tip_tx_count = fst_tip_tx_count s,
      fcs_chain_file_bytes = (case data_file d chain_file of Some body \<Rightarrow> length body | None \<Rightarrow> 0),
      fcs_chain_file_modified = (if data_file d chain_file = None then (0, 0) else ev_chain_file_stamp E),
      fcs_generated_at_unix = ev_now_secs E, fcs_storage_engine = HF123_FAST_STORAGE_MAGIC,
      fcs_storage_generation = fst_generation s, fcs_state_revision = fst_state_revision s,
      fcs_primary_state_bytes = state_bytes, fcs_journal_bytes = ptr_journal_bytes p,
      fcs_mempool_tx_count = length (fst_mempool s), fcs_mempool_digest = fst_mempool_digest s,
      fcs_recent_blocks = fst_recent_blocks s\<rparr>"

definition write_status_from_pointer :: "codec \<Rightarrow> store_env \<Rightarrow> storage_pointer \<Rightarrow> (disk, unit) se" where
  "write_status_from_pointer J E p =
     se_bind (se_need (\<lambda>d. rbind (safe_child (ptr_state_file p)) (\<lambda>path.
        rbind (ok_or (StorageErr SOpen) (fast_file d path)) (\<lambda>body.
        rbind (ok_or (StorageErr SJson) (state_parse J body)) (\<lambda>s.
        if fst_network s \<noteq> ptr_network p then Inl (StorageErr SStatusNetwork)
        else Inr (fast_status_from_pointer E d p s (length body))))))) (\<lambda>status.
     se_ignore (replace_data chain_status_file (status_json J status)))"

definition load_fast_status ::
  "codec \<Rightarrow> extern \<Rightarrow> settings \<Rightarrow> store_env \<Rightarrow> (disk, fast_chain_status) se" where
  "load_fast_status J X S E =
     se_bind (se_need (\<lambda>d. rbind (read_pointer_state_with_recovery J X S d) (\<lambda>((p, s, bytes), used_previous).
        Inr (fast_status_from_pointer E d p s bytes)))) (\<lambda>status.
     se_then (se_ignore (replace_data chain_status_file (status_json J status))) (se_return status))"

fun export_records :: "nat \<Rightarrow> bytes \<Rightarrow> bytes list result" where
  "export_records 0 s = Inr []"
| "export_records (Suc n) s =
     (if s = [] then Inl (StorageErr SExportEnded) else
      let (line, rest) = read_until_nl s in
      rbind (export_records n rest) (\<lambda>records. Inr (strip_eol line # records)))"

definition export_chain_json_to ::
  "codec \<Rightarrow> extern \<Rightarrow> settings \<Rightarrow> string \<Rightarrow> (disk, u32 \<times> hash256 \<times> nat) se" where
  "export_chain_json_to J X S output_path =
     se_bind (se_need (\<lambda>d.
        rbind (read_pointer_state_with_recovery J X S d) (\<lambda>((p, s, bytes), used_previous).
        rbind (safe_child (ptr_blocks_file p)) (\<lambda>path.
        rbind (ok_or (StorageErr SOpen) (fast_file d path)) (\<lambda>body.
        if length body < ptr_journal_bytes p then Inl (StorageErr SExportShort) else
        rbind (export_records (unat (ptr_committed_height p) + 1) (take (ptr_journal_bytes p) body)) (\<lambda>records.
        Inr (p, chain_json_text J (fst_network s) records (fst_utxos s) (fst_mempool s)))))))) (\<lambda>(p, text).
     se_then (replace_data output_path text)
       (se_return (ptr_committed_height p, ptr_tip_hash p, length text)))"

definition legacy_status_of :: "extern \<Rightarrow> settings \<Rightarrow> store_env \<Rightarrow> chain_state \<Rightarrow> legacy_export_status" where
  "legacy_status_of X S E c =
     \<lparr>les_schema_version = 1, les_network = net_name (network S), les_height = chain_height c,
      les_tip_hash = tip_hash X c, les_exported_at_unix = ev_now_secs E\<rparr>"

definition should_refresh_legacy_export ::
  "codec \<Rightarrow> settings \<Rightarrow> store_env \<Rightarrow> disk \<Rightarrow> storage_pointer \<Rightarrow> bool" where
  "should_refresh_legacy_export J S E d p =
     (if data_file d chain_file = None then True else
      (case Option.bind (fast_file d fast_legacy_export_status_file) (legacy_parse J) of
         None \<Rightarrow> True
       | Some status \<Rightarrow>
           les_network status \<noteq> net_name (network S)
           \<or> sat_sub (ptr_committed_height p) (les_height status) \<ge> HF123_LEGACY_EXPORT_BLOCK_INTERVAL
           \<or> sat_sub (ev_now_secs E) (les_exported_at_unix status) \<ge> HF123_LEGACY_EXPORT_INTERVAL_SECS))"

definition maybe_refresh_legacy_export ::
  "codec \<Rightarrow> extern \<Rightarrow> settings \<Rightarrow> store_env \<Rightarrow> chain_state \<Rightarrow> storage_pointer \<Rightarrow> (disk, unit) se" where
  "maybe_refresh_legacy_export J X S E c p = (\<lambda>d.
     if should_refresh_legacy_export J S E d p then
       se_then (se_bind (export_chain_json_to J X S chain_file) (\<lambda>_. se_return ()))
         (replace_fast fast_legacy_export_status_file (legacy_json J (legacy_status_of X S E c))) d
     else se_return () d)"

section \<open>The first commit\<close>

definition initialize_fast_storage ::
  "codec \<Rightarrow> extern \<Rightarrow> settings \<Rightarrow> store_env \<Rightarrow> chain_state \<Rightarrow> bool \<Rightarrow> bool \<Rightarrow> (disk, storage_identity) se" where
  "initialize_fast_storage J X S E c legacy_is_current validate_before_commit =
     se_then (if validate_before_commit then se_need (\<lambda>_. validate_all X S c) else se_return ())
    (with_lease E
      (let generation = max (ev_now_nanos E) 1; blocks_file = blocks_file_name generation in
       se_bind (se_need (\<lambda>_. safe_child blocks_file)) (\<lambda>blocks_path.
       se_bind (write_full_journal J blocks_path (cs_blocks c)) (\<lambda>journal_bytes.
       se_bind (se_need (\<lambda>_. state_from_chain J X c generation 1 journal_bytes)) (\<lambda>s.
       se_bind (write_state_and_pointer J X E None blocks_file s) (\<lambda>pointer.
       se_then (write_status_from_pointer J E pointer)
      (se_then
        (if legacy_is_current then
           se_ignore (replace_fast fast_legacy_export_status_file (legacy_json J (legacy_status_of X S E c)))
         else se_bind (export_chain_json_to J X S chain_file) (\<lambda>_. se_return ()))
        (se_return (pointer_identity pointer)))))))))"

definition initialize_new_chain ::
  "codec \<Rightarrow> extern \<Rightarrow> settings \<Rightarrow> store_env \<Rightarrow> chain_state \<Rightarrow> (disk, storage_identity) se" where
  "initialize_new_chain J X S E c = initialize_fast_storage J X S E c False False"

definition migrate_legacy_chain ::
  "codec \<Rightarrow> extern \<Rightarrow> settings \<Rightarrow> store_env \<Rightarrow> chain_state \<Rightarrow> (disk, storage_identity) se" where
  "migrate_legacy_chain J X S E c = (\<lambda>d.
     if fast_storage_exists d then
       (case load_fast_chain J X S d True of
          Inr (_, identity) \<Rightarrow> (Inr identity, d)
        | Inl _ \<Rightarrow> (Inl (StorageErr SExistingUnusable), d))
     else initialize_fast_storage J X S E c True False d)"

section \<open>Later commits\<close>

definition ensure_candidate_not_behind_committed ::
  "codec \<Rightarrow> extern \<Rightarrow> settings \<Rightarrow> chain_state \<Rightarrow> storage_pointer \<Rightarrow> fast_commit_policy \<Rightarrow> unit result" where
  "ensure_candidate_not_behind_committed J X S c current policy =
     rbind (total_work_value J c) (\<lambda>candidate_work.
     rbind (parse_work J (ptr_total_work_hex current)) (\<lambda>committed_work.
     let candidate_height = chain_height c; candidate_tip = tip_hash X c;
         equal_work_sibling = net_name (network S) = ''mainnet'' \<and> candidate_work = committed_work
           \<and> candidate_height = ptr_committed_height current \<and> candidate_tip \<noteq> ptr_tip_hash current;
         verified_equal_work_reanchor = (policy = VerifiedEqualWorkReanchor \<and> equal_work_sibling);
         stale = (candidate_work < committed_work
           \<or> candidate_work = committed_work \<and> candidate_height < ptr_committed_height current
           \<or> equal_work_sibling \<and> \<not> verified_equal_work_reanchor)
     in if stale then Inl (StorageErr SStale)
        else if policy = VerifiedEqualWorkReanchor \<and> \<not> verified_equal_work_reanchor
        then Inl (StorageErr SReanchorRejected)
        else Inr ()))"

text \<open>The commit that a new one replaces, \<open>None\<close> for the first.\<close>

definition current_commit ::
  "codec \<Rightarrow> extern \<Rightarrow> settings \<Rightarrow> chain_state \<Rightarrow> fast_commit_policy \<Rightarrow> disk \<Rightarrow> storage_pointer option result" where
  "current_commit J X S c policy d =
     (if fast_storage_exists d then
        rbind (read_pointer_state_with_recovery J X S d) (\<lambda>((pointer, s, bytes), used_previous).
        rbind (ensure_candidate_not_behind_committed J X S c pointer policy) (\<lambda>_. Inr (Some pointer)))
      else Inr None)"

text \<open>Append to the journal when the candidate continues the committed chain, else write a new one.\<close>

definition extends_committed :: "extern \<Rightarrow> chain_state \<Rightarrow> storage_pointer \<Rightarrow> bool" where
  "extends_committed X c p \<longleftrightarrow>
     chain_height c \<ge> ptr_committed_height p \<and>
     unat (ptr_committed_height p) < length (cs_blocks c) \<and>
     block_hash X (cs_blocks c ! unat (ptr_committed_height p)) = ptr_tip_hash p"

definition commit_journal ::
  "codec \<Rightarrow> extern \<Rightarrow> store_env \<Rightarrow> chain_state \<Rightarrow> storage_pointer option \<Rightarrow> (disk, u64 \<times> u64 \<times> string \<times> nat) se" where
  "commit_journal J X E c current =
     (let full = (\<lambda>generation. let blocks_file = blocks_file_name generation in
        se_bind (se_need (\<lambda>_. safe_child blocks_file)) (\<lambda>path.
        se_bind (write_full_journal J path (cs_blocks c)) (\<lambda>bytes. se_return (generation, 1, blocks_file, bytes)))) in
      case current of
        Some p \<Rightarrow>
          if extends_committed X c p then
            se_bind (se_need (\<lambda>_. safe_child (ptr_blocks_file p))) (\<lambda>path.
            se_bind (append_journal J path (ptr_journal_bytes p) (drop (unat (ptr_committed_height p) + 1) (cs_blocks c))) (\<lambda>bytes.
            se_return (ptr_generation p, sat_add (ptr_state_revision p) 1, ptr_blocks_file p, bytes)))
          else full (sat_add (ptr_generation p) 1)
      | None \<Rightarrow> full (max (ev_now_nanos E) 1))"

definition commit_chain_with_policy ::
  "codec \<Rightarrow> extern \<Rightarrow> settings \<Rightarrow> store_env \<Rightarrow> chain_state \<Rightarrow> fast_commit_policy \<Rightarrow> (disk, storage_identity) se" where
  "commit_chain_with_policy J X S E c policy =
     with_lease E
      (se_bind (se_need (current_commit J X S c policy)) (\<lambda>current.
       se_bind (commit_journal J X E c current) (\<lambda>(generation, state_revision, blocks_file, journal_bytes).
       se_bind (se_need (\<lambda>_. state_from_chain J X c generation state_revision journal_bytes)) (\<lambda>s.
       se_bind (write_state_and_pointer J X E current blocks_file s) (\<lambda>pointer.
       se_then (write_status_from_pointer J E pointer)
      (se_then (maybe_refresh_legacy_export J X S E c pointer)
      (se_return (pointer_identity pointer))))))))"

definition commit_chain ::
  "codec \<Rightarrow> extern \<Rightarrow> settings \<Rightarrow> store_env \<Rightarrow> chain_state \<Rightarrow> (disk, storage_identity) se" where
  "commit_chain J X S E c = commit_chain_with_policy J X S E c Normal"

definition commit_chain_verified_equal_work_reanchor ::
  "codec \<Rightarrow> extern \<Rightarrow> settings \<Rightarrow> store_env \<Rightarrow> chain_state \<Rightarrow> (disk, storage_identity) se" where
  "commit_chain_verified_equal_work_reanchor J X S E c = commit_chain_with_policy J X S E c VerifiedEqualWorkReanchor"

section \<open>Loading and saving the chain\<close>

definition read_chain_json :: "codec \<Rightarrow> disk \<Rightarrow> persisted_chain_state result" where
  "read_chain_json J d =
     rbind (ok_or (StorageErr SOpen) (data_file d chain_file)) (\<lambda>raw.
     ok_or (StorageErr SJson) (persisted_parse J raw))"

definition load_committed_chain :: "codec \<Rightarrow> extern \<Rightarrow> settings \<Rightarrow> bool \<Rightarrow> disk \<Rightarrow> chain_state result" where
  "load_committed_chain J X S full_validate d =
     (if fast_storage_exists d then rbind (load_fast_chain J X S d full_validate) (\<lambda>(c, _). Inr c)
      else if data_file d chain_file = None then new_with_genesis X S
      else rbind (read_chain_json J d) (\<lambda>persisted.
        if full_validate then from_persisted X S persisted else from_persisted_unchecked_for_ui X S persisted))"

definition fast_storage_identity :: "codec \<Rightarrow> settings \<Rightarrow> disk \<Rightarrow> storage_identity option result" where
  "fast_storage_identity J S d =
     (if \<not> fast_storage_exists d then Inr None else
      rbind (read_pointer_with_recovery J S d) (\<lambda>(p, _). Inr (Some (pointer_identity p))))"

text \<open>\<open>live\<close> is the snapshot of the chain an embedded node owns, when there is one.\<close>

definition load_or_init_chain ::
  "codec \<Rightarrow> extern \<Rightarrow> settings \<Rightarrow> store_env \<Rightarrow> chain_state option \<Rightarrow> (disk, chain_state) se" where
  "load_or_init_chain J X S E live = (\<lambda>d.
     case live of Some c \<Rightarrow> (Inr c, d) | None \<Rightarrow>
     if fast_storage_exists d then
       (case load_fast_chain J X S d True of
          Inr (c, _) \<Rightarrow> (Inr c, d) | Inl _ \<Rightarrow> (Inl (StorageErr SLoadFailed), d))
     else if data_file d chain_file \<noteq> None then
       se_bind (se_need (\<lambda>d. rbind (read_chain_json J d) (from_persisted X S))) (\<lambda>c.
       se_bind (migrate_legacy_chain J X S E c) (\<lambda>_. se_return c)) d
     else
       se_bind (se_need (\<lambda>_. new_with_genesis X S)) (\<lambda>c.
       se_bind (initialize_new_chain J X S E c) (\<lambda>_. se_return c)) d)"

definition load_or_init_chain_for_ui_fast ::
  "codec \<Rightarrow> extern \<Rightarrow> settings \<Rightarrow> store_env \<Rightarrow> chain_state option \<Rightarrow> (disk, chain_state) se" where
  "load_or_init_chain_for_ui_fast J X S E live = (\<lambda>d.
     case live of Some c \<Rightarrow> (Inr c, d) | None \<Rightarrow>
     if fast_storage_exists d then
       (case load_fast_chain J X S d False of
          Inr (c, _) \<Rightarrow> (Inr c, d) | Inl _ \<Rightarrow> (Inl (StorageErr SLoadFailed), d))
     else if data_file d chain_file \<noteq> None then
       (rbind (read_chain_json J d) (from_persisted_unchecked_for_ui X S), d)
     else
       se_bind (se_need (\<lambda>_. new_with_genesis X S)) (\<lambda>c.
       se_bind (initialize_new_chain J X S E c) (\<lambda>_. se_return c)) d)"

text \<open>What \<open>save_chain\<close> does to the disk, before it publishes the chain to the live node.\<close>

definition persist_chain :: "codec \<Rightarrow> extern \<Rightarrow> settings \<Rightarrow> store_env \<Rightarrow> chain_state \<Rightarrow> (disk, unit) se" where
  "persist_chain J X S E c = (\<lambda>d.
     if \<not> fast_storage_exists d then
       se_then (se_need (\<lambda>_. validate_all X S c))
         (se_bind (if data_file d chain_file \<noteq> None then migrate_legacy_chain J X S E c
            else initialize_new_chain J X S E c) (\<lambda>_. se_return ())) d
     else se_bind (commit_chain J X S E c) (\<lambda>_. se_return ()) d)"

definition persist_chain_verified_equal_work_reanchor ::
  "codec \<Rightarrow> extern \<Rightarrow> settings \<Rightarrow> store_env \<Rightarrow> chain_state \<Rightarrow> (disk, unit) se" where
  "persist_chain_verified_equal_work_reanchor J X S E c =
     (if net_name (network S) \<noteq> ''mainnet'' then se_fail (StorageErr SReanchorMainnetOnly) else
      se_then (se_need (\<lambda>_. validate_all X S c)) (\<lambda>d.
      if \<not> fast_storage_exists d then (Inl (StorageErr SReanchorNoEngine), d)
      else se_bind (commit_chain_verified_equal_work_reanchor J X S E c) (\<lambda>_. se_return ()) d))"

end
