(* ===== verification/PoolChain.thy ===== *)
theory PoolChain
  imports PoolBlocks
begin

text \<open>
  What a chain guarantees whose blocks all passed the pool checks of \<open>src/pools.rs\<close>: the registry
  that is replayed is the one the checks computed, no share is counted twice, and no miner works for
  two pools within one share window. An example chain with a pool and a share comes with them.
\<close>

section \<open>The registry\<close>

lemma no_outputs_no_markers:
  assumes "tx_outputs tx = []"
  shows "replay_pool_tx X S h tx reg = Inr reg"
  using assms by (simp add: replay_pool_tx_def pool_creates_in_tx_def pool_topups_in_tx_def
      pool_commissions_in_tx_def pool_renames_in_tx_def markers_in_def List.map_filter_def)

lemma no_action_no_replay: "pool_action_count X tx S = 0 \<Longrightarrow> replay_pool_tx X S h tx reg = Inr reg"
  by (simp add: pool_action_count_def replay_pool_tx_def)

lemma pools_tx_recorded:
  assumes "validate_pools_tx X S bs h tx (ctx, u, f) = Inr (ctx', u', f')"
  shows "replay_pool_tx X S h tx (pcx_registry ctx) = Inr (pcx_registry ctx')"
proof -
  from assms obtain fee where run: "pool_validate_and_apply X S tx bs u h fee ctx = (Inr (), ctx')"
    by (auto simp: validate_pools_tx_def result_simps se_simps)
  consider "is_pool_share_transaction tx" | "\<not> is_pool_share_transaction tx" "pool_action_count X tx S = 0"
    | "\<not> is_pool_share_transaction tx" "pool_action_count X tx S \<noteq> 0" by blast
  then show ?thesis
  proof cases
    case 1
    then have "tx_outputs tx = []" by (simp add: is_pool_share_transaction_def)
    moreover have "pcx_registry ctx' = pcx_registry ctx"
      using 1 run by (auto simp: pool_validate_and_apply_def pool_context_share_def Let_def se_simps split: if_splits)
    ultimately show ?thesis by (simp add: no_outputs_no_markers)
  next
    case 2
    with run show ?thesis by (simp add: pool_validate_and_apply_def se_simps no_action_no_replay)
  next
    case 3
    with run have "pool_context_action X S tx u h fee ctx = (Inr (), ctx')"
      by (auto simp: pool_validate_and_apply_def Let_def se_simps split: if_splits)
    then have "validate_pool_action_tx X S tx fee h u (pcx_registry ctx) = (Inr (), pcx_registry ctx')"
      by (auto simp: pool_context_action_def split: prod.splits)
    then show ?thesis by (rule pool_action_recorded)
  qed
qed

interpretation pool_txs: checked_replay "validate_pools_tx X S bs h" "replay_pool_tx X S h"
  "\<lambda>st reg. pcx_registry (fst st) = reg"
  by unfold_locales (auto dest: pools_tx_recorded)

lemma pools_registry_snoc:
  assumes "bs \<noteq> []" and "pools_registry_from_blocks X S bs = Inr reg"
  shows "pools_registry_from_blocks X S (bs @ [b]) =
    (if pools_enabled S then apply_pool_registry_block X S (length bs, b) reg else Inr reg)"
  using assms by (cases "apply_pool_registry_block X S (length bs, b) reg")
    (simp_all add: pools_registry_from_blocks_def numbered_snoc fold_r_append split: if_splits)

lemma no_pool_data:
  "\<not> list_ex (\<lambda>tx. is_pool_share_transaction tx \<or> pool_action_count X tx S > 0) txs \<Longrightarrow>
    fold_r (replay_pool_tx X S h) txs reg = Inr reg"
  by (induction txs) (simp_all add: no_action_no_replay)

lemma pools_active_enabled: "pools_active S h \<Longrightarrow> pools_enabled S"
  by (simp add: pools_active_def pools_enabled_def)

definition has_pool_data :: "extern \<Rightarrow> settings \<Rightarrow> block \<Rightarrow> bool" where
  "has_pool_data X S b \<longleftrightarrow>
     list_ex (\<lambda>tx. is_pool_share_transaction tx \<or> pool_action_count X tx S > 0) (drop 1 (blk_transactions b))"

lemma pool_checked_block_replayed:
  assumes "validate_pools_block X S b bs u (of_nat (length bs)) = Inr ()"
    and "pools_registry_from_blocks X S bs = Inr reg" and "bs \<noteq> []"
  shows "if has_pool_data X S b
    then \<exists>ctx ctx' u' f. pool_context_from_confirmed X S bs (of_nat (length bs)) = Inr ctx \<and> pcx_registry ctx = reg \<and>
      fold_r (validate_pools_tx X S bs (of_nat (length bs))) (drop 1 (blk_transactions b)) (ctx, u, 0) = Inr (ctx', u', f) \<and>
      pools_registry_from_blocks X S (bs @ [b]) = Inr (pcx_registry ctx')
    else pools_registry_from_blocks X S (bs @ [b]) = Inr reg"
proof -
  let ?h = "of_nat (length bs) :: u32" and ?txs = "drop 1 (blk_transactions b)"
  note snoc = pools_registry_snoc [OF assms(3,2), of b]
  show ?thesis
  proof (cases "has_pool_data X S b")
    case False
    then show ?thesis using snoc no_pool_data [of X S ?txs ?h reg]
      by (simp add: has_pool_data_def apply_pool_registry_block_def)
  next
    case True
    with assms(1) obtain ctx r where act: "pools_active S ?h" and ctx: "pool_context_from_confirmed X S bs ?h = Inr ctx"
      and r: "fold_r (validate_pools_tx X S bs ?h) ?txs (ctx, u, 0) = Inr r"
      by (auto simp: validate_pools_block_def has_pool_data_def Let_def result_simps split: if_splits)
    from ctx assms(2) have reg: "pcx_registry ctx = reg" by (auto simp: pool_context_from_confirmed_def)
    with pool_txs.checked_then_recorded [OF _ r, of reg]
    have "fold_r (replay_pool_tx X S ?h) ?txs reg = Inr (pcx_registry (fst r))" by simp
    then have "pools_registry_from_blocks X S (bs @ [b]) = Inr (pcx_registry (fst r))"
      using snoc act by (simp add: apply_pool_registry_block_def pools_active_enabled)
    with True ctx r reg show ?thesis by (cases r) auto
  qed
qed

text \<open>
  C33: An accepted block registers what was checked. If the registry of a chain can be replayed and a
  block passes the pool checks on top of it, the registry of the longer chain can be replayed too. When
  the block holds pool actions or shares, it is the registry that the checks, which started from the
  registry of the chain, ended with after the last transaction; otherwise it is the old registry.
\<close>

theorem pool_block_recorded:
  assumes "validate_pools_block X S b bs u (of_nat (length bs)) = Inr ()"
    and "pools_registry_from_blocks X S bs = Inr reg" and "bs \<noteq> []"
  shows "if has_pool_data X S b
    then \<exists>ctx ctx' u' f. pool_context_from_confirmed X S bs (of_nat (length bs)) = Inr ctx \<and> pcx_registry ctx = reg \<and>
      fold_r (validate_pools_tx X S bs (of_nat (length bs))) (drop 1 (blk_transactions b)) (ctx, u, 0) = Inr (ctx', u', f) \<and>
      pools_registry_from_blocks X S (bs @ [b]) = Inr (pcx_registry ctx')
    else pools_registry_from_blocks X S (bs @ [b]) = Inr reg"
  using assms by (rule pool_checked_block_replayed)

section \<open>Shares of a chain\<close>

definition pools_checked :: "extern \<Rightarrow> settings \<Rightarrow> block list \<Rightarrow> bool" where
  "pools_checked X S bs \<longleftrightarrow>
     (\<forall>n. 1 \<le> n \<and> n < length bs \<longrightarrow> (\<exists>u. validate_pools_block X S (bs ! n) (take n bs) u (of_nat n) = Inr ()))"

definition chain_shares :: "extern \<Rightarrow> block list \<Rightarrow> pool_share list" where
  "chain_shares X bs = concat (map (block_shares X) (drop 1 bs))"

lemma parsed_miner_no_pipe:
  assumes "parse_pool_share_tx X tx = Some sh"
  shows "CHR ''|'' \<notin> set (psh_miner_address sh)"
proof -
  note kind = parse_share_kind [OF assms]
  from assms kind obtain parts where f: "pool_fields POOL_SHARE_PREFIX ''POOLSHARE1'' (signature_script (tx_inputs tx ! 0)) = Some parts"
    by (cases "pool_fields POOL_SHARE_PREFIX ''POOLSHARE1'' (signature_script (tx_inputs tx ! 0))")
      (simp_all add: parse_pool_share_tx_def)
  with assms kind have m: "length parts = 7" "psh_miner_address sh = trim (parts ! 1)"
    by (auto simp: parse_pool_share_tx_def bind_eq_Some split: list.splits)
  from f obtain raw where "(case split_on (CHR ''|'') raw of f0 # ps \<Rightarrow> if f0 \<noteq> ''POOLSHARE1'' then None else Some ps
      | [] \<Rightarrow> None) = Some parts"
    by (auto simp: pool_fields_def bind_eq_Some split: if_splits)
  then have "parts = tl (split_on (CHR ''|'') raw)"
    by (cases "split_on (CHR ''|'') raw") (auto split: if_splits)
  then have "parts ! 1 \<in> set (split_on (CHR ''|'') raw)"
    using m(1) nth_mem [of 1 parts] list.set_sel(2) [OF split_on_nonempty] by (metis One_nat_def Suc_lessI
        numeral_eq_one_iff semiring_norm(86) zero_less_numeral)
  then have "CHR ''|'' \<notin> set (parts ! 1)" by (rule split_on_fields)
  with m(2) show ?thesis by (auto dest: subsetD [OF trim_subset])
qed

lemma share_key_parent:
  assumes "extern_ok X" and "parse_pool_share_tx X tx = Some sh" and "parse_pool_share_tx X tx' = Some sh'"
    and "pool_share_key X sh = pool_share_key X sh'"
  shows "psh_parent_height sh = psh_parent_height sh'"
proof -
  let ?f = "\<lambda>sh. share_fields X (psh_pool_id sh) (psh_miner_address sh) (psh_parent_height sh) (psh_parent_hash sh) (psh_nonce sh)"
  have "list_all (\<lambda>f. CHR ''|'' \<notin> set f) (?f sh)" if "parse_pool_share_tx X tx = Some sh" for tx sh
    using parsed_miner_no_pipe [OF that] pipe_notin_hex [OF assms(1)] by (simp add: share_fields_def hash_to_string_def)
  from this [OF assms(2)] this [OF assms(3)] have "?f sh = ?f sh'"
    using assms(4) split_on_pipes unfolding pool_share_key_def by (metis share_fields_def list.distinct(1))
  then have "show_word (psh_parent_height sh) = show_word (psh_parent_height sh')" by (simp add: share_fields_def)
  then show ?thesis by (metis option.inject parse_uint_show_word)
qed

lemma in_block_shares: "sh \<in> set (block_shares X b) \<Longrightarrow> \<exists>tx. parse_pool_share_tx X tx = Some sh"
  unfolding block_shares_def by (induction "drop 1 (blk_transactions b)" arbitrary: b)
    (auto simp: shares_in_def List.map_filter_def)

text \<open>What the check of the block at a height says of its shares and the shares before it.\<close>

lemma checked_block:
  assumes "pools_checked X S bs" and "length bs < 2 ^ 32" and "1 \<le> n" and "n < length bs"
    and "sh \<in> set (block_shares X (bs ! n))"
  shows "unat (psh_parent_height sh) < n" and "n \<le> unat (psh_parent_height sh) + unat (ps_share_stale_blocks (pools S))"
    and "distinct (map (pool_share_key X) (block_shares X (bs ! n)))"
    and "window_start (of_nat n) (ps_share_stale_blocks (pools S)) \<le> k \<Longrightarrow> k < n \<Longrightarrow>
      sh' \<in> set (block_shares X (bs ! k)) \<Longrightarrow> pool_share_key X sh \<noteq> pool_share_key X sh'"
    and "\<exists>pool_of. (\<forall>sh \<in> set (block_shares X (bs ! n)). fmlookup pool_of (psh_miner_address sh) = Some (psh_pool_id sh)) \<and>
      (\<forall>k sh. window_start (of_nat n) (ps_share_window_blocks (pools S)) \<le> k \<longrightarrow> k < n \<longrightarrow> sh \<in> set (block_shares X (bs ! k)) \<longrightarrow>
        (\<exists>k' sh'. window_start (of_nat n) (ps_share_window_blocks (pools S)) \<le> k' \<and> k' < n \<and>
          sh' \<in> set (block_shares X (bs ! k')) \<and> psh_miner_address sh' = psh_miner_address sh \<and>
          fmlookup pool_of (psh_miner_address sh) = Some (psh_pool_id sh')))"
proof -
  let ?h = "of_nat n :: u32" and ?pre = "take n bs"
  have h: "unat ?h = n" using assms(2,4) by (simp add: unat_of_nat_less)
  have len: "length ?pre = unat ?h" using assms(4) h by simp
  from assms(1,3,4) obtain u where "validate_pools_block X S (bs ! n) ?pre u ?h = Inr ()"
    by (auto simp: pools_checked_def)
  moreover have "block_shares X (bs ! n) \<noteq> []" using assms(5) by auto
  ultimately obtain ctx ctx' u' f where
    r: "fold_r (validate_pools_tx X S ?pre ?h) (drop 1 (blk_transactions (bs ! n))) (ctx, u, 0) = Inr (ctx', u', f)"
    and w: "pcx_window ctx = pool_window_from_blocks X S ?pre ?h"
    by (elim pools_block_shares) auto
  note facts = pools_txs_window [OF r, folded block_shares_def]
  show "unat (psh_parent_height sh) < n" "n \<le> unat (psh_parent_height sh) + unat (ps_share_stale_blocks (pools S))"
    using facts(5) assms(5) h by (auto simp: word_less_nat_alt)
  show "distinct (map (pool_share_key X) (block_shares X (bs ! n)))" by (rule facts(3))
  show "pool_share_key X sh \<noteq> pool_share_key X sh'"
    if "window_start ?h (ps_share_stale_blocks (pools S)) \<le> k" "k < n" "sh' \<in> set (block_shares X (bs ! k))"
  proof -
    from that(2,3) assms(4) have "k < length ?pre" "sh' \<in> set (block_shares X (?pre ! k))" by simp_all
    from window_seen [OF len that(1) this] show ?thesis using facts(4) assms(5) w by auto
  qed
  have "\<exists>k' sh'. window_start ?h (ps_share_window_blocks (pools S)) \<le> k' \<and> k' < n \<and>
      sh' \<in> set (block_shares X (bs ! k')) \<and> psh_miner_address sh' = psh_miner_address sh \<and>
      fmlookup (pw_pool_by_miner (pcx_window ctx')) (psh_miner_address sh) = Some (psh_pool_id sh')"
    if "window_start ?h (ps_share_window_blocks (pools S)) \<le> k" "k < n" "sh \<in> set (block_shares X (bs ! k))" for k sh
  proof -
    from that(2,3) assms(4) have "k < length ?pre" "sh \<in> set (block_shares X (?pre ! k))" by simp_all
    from window_active [OF len that(1) this] obtain k' sh' where
      k: "window_start ?h (ps_share_window_blocks (pools S)) \<le> k'" "k' < n" "sh' \<in> set (block_shares X (?pre ! k'))"
        "psh_miner_address sh' = psh_miner_address sh"
      and l: "fmlookup (pw_pool_by_miner (pcx_window ctx)) (psh_miner_address sh) = Some (psh_pool_id sh')"
      using w assms(4) by auto
    from fmsubset_lookup [OF facts(1) l] k show ?thesis by auto
  qed
  with facts(2) show "\<exists>pool_of. (\<forall>sh \<in> set (block_shares X (bs ! n)). fmlookup pool_of (psh_miner_address sh) = Some (psh_pool_id sh)) \<and>
      (\<forall>k sh. window_start (of_nat n) (ps_share_window_blocks (pools S)) \<le> k \<longrightarrow> k < n \<longrightarrow> sh \<in> set (block_shares X (bs ! k)) \<longrightarrow>
        (\<exists>k' sh'. window_start (of_nat n) (ps_share_window_blocks (pools S)) \<le> k' \<and> k' < n \<and>
          sh' \<in> set (block_shares X (bs ! k')) \<and> psh_miner_address sh' = psh_miner_address sh \<and>
          fmlookup pool_of (psh_miner_address sh) = Some (psh_pool_id sh')))"
    by blast
qed

text \<open>A pair of shares of one key lies in one block, at one place.\<close>

lemma distinct_concat_map:
  assumes "\<forall>x \<in> set xs. distinct (f x)"
    and "\<forall>i < length xs. \<forall>j < i. set (f (xs ! i)) \<inter> set (f (xs ! j)) = {}"
  shows "distinct (concat (map f xs))"
  using assms
proof (induction xs rule: rev_induct)
  case (snoc x xs)
  have "\<forall>i < length xs. \<forall>j < i. set (f (xs ! i)) \<inter> set (f (xs ! j)) = {}"
  proof (intro allI impI)
    fix i j
    assume "i < length xs" "j < i"
    with snoc.prems(2) [rule_format, of i j] show "set (f (xs ! i)) \<inter> set (f (xs ! j)) = {}"
      by (simp add: nth_append)
  qed
  with snoc have "distinct (concat (map f xs))" by simp
  moreover have "set (f x) \<inter> set (f y) = {}" if "y \<in> set xs" for y
  proof -
    from that obtain j where "j < length xs" "y = xs ! j" by (auto simp: in_set_conv_nth)
    with snoc.prems(2) [rule_format, of "length xs" j] show ?thesis by (simp add: nth_append)
  qed
  ultimately show ?case using snoc.prems(1) by auto
qed simp

text \<open>
  C32: No share is counted twice: in a chain whose blocks all passed the pool checks, no two shares
  have the same key (pool, miner, parent block and nonce), however far apart their blocks are. The
  window of the checks only covers the last few blocks; an older copy is refused because its parent
  is stale.
\<close>

theorem pool_shares_counted_once:
  assumes "extern_ok X" and "pools_checked X S bs" and "length bs < 2 ^ 32"
  shows "distinct (map (pool_share_key X) (chain_shares X bs))"
proof -
  let ?f = "\<lambda>b. map (pool_share_key X) (block_shares X b)"
  have "set (?f (bs ! n)) \<inter> set (?f (bs ! k)) = {}" if "n < length bs" "1 \<le> k" "k < n" for n k
  proof (rule ccontr)
    assume "set (?f (bs ! n)) \<inter> set (?f (bs ! k)) \<noteq> {}"
    then obtain sh sh' where sh: "sh \<in> set (block_shares X (bs ! n))" "sh' \<in> set (block_shares X (bs ! k))"
      and key: "pool_share_key X sh = pool_share_key X sh'" by auto
    from in_block_shares [OF sh(1)] in_block_shares [OF sh(2)] have parent: "psh_parent_height sh = psh_parent_height sh'"
      using share_key_parent [OF assms(1) _ _ key] by blast
    have n: "1 \<le> n" "k < length bs" "unat (of_nat n :: u32) = n" using that assms(3) by (auto simp: unat_of_nat_less)
    note new = checked_block [OF assms(2,3) n(1) that(1) sh(1)] and old = checked_block [OF assms(2,3) that(2) n(2) sh(2)]
    from new(2) old(1) parent that(2) have "window_start (of_nat n) (ps_share_stale_blocks (pools S)) \<le> k"
      by (auto simp: window_start_def n(3))
    with new(4) [of k sh'] that(3) sh(2) key show False by blast
  qed
  moreover have "distinct (?f (bs ! n))" if "1 \<le> n" "n < length bs" for n
    using checked_block(3) [OF assms(2,3) that] by (cases "block_shares X (bs ! n)") auto
  ultimately have "distinct (concat (map ?f (drop 1 bs)))"
    by (intro distinct_concat_map) (auto simp: in_set_conv_nth)
  then show ?thesis by (simp add: chain_shares_def map_concat o_def)
qed

text \<open>
  A miner works for one pool at a time: in a chain whose blocks all passed the pool checks, two
  shares of the same address in blocks at most a share window apart belong to the same pool.
\<close>

theorem pool_miner_exclusive:
  assumes "pools_checked X S bs" and "length bs < 2 ^ 32"
    and "1 \<le> k" and "k \<le> n" and "n < length bs" and "n \<le> k + unat (ps_share_window_blocks (pools S))"
    and "sh \<in> set (block_shares X (bs ! n))" and "sh' \<in> set (block_shares X (bs ! k))"
    and "psh_miner_address sh = psh_miner_address sh'"
  shows "psh_pool_id sh = psh_pool_id sh'"
  using assms(3-)
proof (induction n arbitrary: k sh sh' rule: less_induct)
  case (less n)
  have n: "1 \<le> n" "unat (of_nat n :: u32) = n"
    using less.prems(1,2,3) assms(2) by (simp_all add: unat_of_nat_less)
  from checked_block(5) [OF assms(1,2) n(1) less.prems(3,5)] obtain pool_of where
    own: "\<forall>sh \<in> set (block_shares X (bs ! n)). fmlookup pool_of (psh_miner_address sh) = Some (psh_pool_id sh)"
    and old: "\<And>k sh. window_start (of_nat n) (ps_share_window_blocks (pools S)) \<le> k \<Longrightarrow> k < n \<Longrightarrow>
      sh \<in> set (block_shares X (bs ! k)) \<Longrightarrow> \<exists>k' sh'. window_start (of_nat n) (ps_share_window_blocks (pools S)) \<le> k' \<and> k' < n \<and>
        sh' \<in> set (block_shares X (bs ! k')) \<and> psh_miner_address sh' = psh_miner_address sh \<and>
        fmlookup pool_of (psh_miner_address sh) = Some (psh_pool_id sh')"
    by blast
  show ?case
  proof (cases "k = n")
    case True
    with own less.prems(5,6,7) show ?thesis by (metis option.inject)
  next
    case False
    then have "k < n" using less.prems(2) by simp
    moreover have "window_start (of_nat n) (ps_share_window_blocks (pools S)) \<le> k"
      using less.prems(1,4) n(2) by (auto simp: window_start_def)
    ultimately obtain k' s where k': "window_start (of_nat n) (ps_share_window_blocks (pools S)) \<le> k'" "k' < n"
      "s \<in> set (block_shares X (bs ! k'))" "psh_miner_address s = psh_miner_address sh'"
      "fmlookup pool_of (psh_miner_address sh') = Some (psh_pool_id s)"
      using old [OF _ _ less.prems(6)] by blast
    have "psh_pool_id sh = psh_pool_id s" using own less.prems(5,7) k'(5) by (metis option.inject)
    moreover have "psh_pool_id s = psh_pool_id sh'"
    proof (cases "k \<le> k'")
      case True
      show ?thesis
        by (rule less.IH [OF k'(2) less.prems(1) True _ _ k'(3) less.prems(6) k'(4)])
          (use less.prems(3,4) k'(2) in simp_all)
    next
      case False
      have "psh_pool_id sh' = psh_pool_id s"
        by (rule less.IH [OF \<open>k < n\<close> _ _ _ _ less.prems(6) k'(3)])
          (use False less.prems(3) k'(1,4) \<open>k < n\<close> n(2) in \<open>auto simp: window_start_def\<close>)
      then show ?thesis by simp
    qed
    ultimately show ?thesis by simp
  qed
qed

end
