(* ===== verification/Node.thy ===== *)
theory Node
  imports ChainState PoolChain
begin

text \<open>
  A node as a state machine over \<open>ChainState\<close>: it starts from the genesis block or from a persisted
  state, and then accepts transactions, connects blocks and adopts chains. The invariant of the
  reachable states says that the blocks are a checked chain whose replay is the UTXO set and that the
  mempool is well formed; supply, chain work, persistence and the protocol registries follow from it.
\<close>

section \<open>Checked chains\<close>

text \<open>Blocks that pass every check on top of their predecessors, with the coins they leave.\<close>

inductive valid_chain :: "extern \<Rightarrow> settings \<Rightarrow> block list \<Rightarrow> utxo_map \<Rightarrow> bool" for X S where
  genesis: "genesis_block X S = Inr g \<Longrightarrow> valid_chain X S [g] fmempty"
| extend: "valid_chain X S bs u \<Longrightarrow>
    check_and_apply_block X S bs u (block_hash X (last bs)) (of_nat (length bs)) b = Inr (ids, v) \<Longrightarrow>
    valid_chain X S (bs @ [b]) v"

lemma valid_chain_nonempty: "valid_chain X S bs u \<Longrightarrow> bs \<noteq> []"
  by (induction rule: valid_chain.induct) simp_all

lemma valid_chain_first: "valid_chain X S bs u \<Longrightarrow> genesis_block X S = Inr (bs ! 0)"
proof (induction rule: valid_chain.induct)
  case (extend bs u b ids v)
  then show ?case using valid_chain_nonempty [OF extend(1)] by (simp add: nth_append)
qed simp

lemma check_and_apply_Inr:
  assumes "check_and_apply_block X S bs u prev h b = Inr (ids, v)"
  shows "\<exists>bits. required_work_bits S bs h = Inr bits \<and> validate_block X b u prev h bits S = Inr ids"
    and "validate_qns_block X S b bs h = Inr ()" and "validate_jin_block X S b bs u h = Inr ()"
    and "validate_jin_sale_block X S b bs u h = Inr ()" and "validate_pools_block X S b bs u h = Inr ()"
    and "validate_library_block X S b bs u h = Inr ()" and "validate_verified_governance_block X S b bs u h = Inr ()"
    and "validate_consensus_checkpoint X S h (block_hash X b) = Inr ()" and "connect_block_utxos X b h u = Inr v"
  using assms by (auto simp: check_and_apply_block_def result_simps)

text \<open>Rule induction for a property of the blocks and coins of a checked chain.\<close>

lemma chain_height_next: "cs_blocks c \<noteq> [] \<Longrightarrow> chain_height c + 1 = of_nat (length (cs_blocks c))"
  by (cases "cs_blocks c") (simp_all add: chain_height_def)

lemma validate_steps:
  assumes "valid_chain X S bs u"
  shows "fold_r (validate_step X S (bs @ cs)) (numbered bs) (fmempty, block_hash X (bs ! 0)) =
    Inr (u, block_hash X (last bs))"
  using assms
proof (induction arbitrary: cs rule: valid_chain.induct)
  case (extend bs u b ids v)
  note ne = valid_chain_nonempty [OF extend(1)]
  have "fold_r (validate_step X S (bs @ b # cs)) (numbered bs) (fmempty, block_hash X (bs ! 0)) =
      Inr (u, block_hash X (last bs))" by (rule extend.IH)
  moreover have "validate_step X S (bs @ b # cs) (length bs, b) (u, block_hash X (last bs)) = Inr (v, block_hash X b)"
    using extend(2) by (simp add: validate_step_def)
  ultimately show ?case using ne by (simp add: numbered_snoc fold_r_append nth_append)
qed simp

lemma validate_steps_valid:
  assumes "genesis_block X S = Inr g" and "bs ! 0 = g" and "bs \<noteq> []"
    and "fold_r (validate_step X S (bs @ cs)) (numbered bs) (fmempty, block_hash X g) = Inr (u, prev)"
  shows "valid_chain X S bs u \<and> prev = block_hash X (last bs)"
  using assms(3,2,4)
proof (induction bs arbitrary: cs u prev rule: rev_nonempty_induct)
  case (single b)
  with assms(1) show ?case by (auto intro: valid_chain.genesis)
next
  case (snoc b bs)
  then obtain w p where f: "fold_r (validate_step X S (bs @ b # cs)) (numbered bs) (fmempty, block_hash X g) = Inr (w, p)"
    and s: "validate_step X S (bs @ b # cs) (length bs, b) (w, p) = Inr (u, prev)"
    by (auto simp: numbered_snoc fold_r_append result_simps)
  from snoc have v: "valid_chain X S bs w" "p = block_hash X (last bs)"
    using snoc.IH [OF _ f] by (simp_all add: nth_append)
  from s obtain ids where "check_and_apply_block X S bs w p (of_nat (length bs)) b = Inr (ids, u)" "prev = block_hash X b"
    by (auto simp: validate_step_def result_simps)
  with v show ?case by (auto intro: valid_chain.extend)
qed

lemma validate_all_iff:
  "validate_all X S c = Inr () \<longleftrightarrow> valid_chain X S (cs_blocks c) (cs_utxos c)"
proof
  assume v: "valid_chain X S (cs_blocks c) (cs_utxos c)"
  from validate_steps [OF v, of "[]"] valid_chain_first [OF v] valid_chain_nonempty [OF v]
  show "validate_all X S c = Inr ()" by (simp add: validate_all_def Let_def)
next
  assume "validate_all X S c = Inr ()"
  then obtain g prev where g: "genesis_block X S = Inr g" and ne: "cs_blocks c \<noteq> []" "cs_blocks c ! 0 = g"
    and f: "fold_r (validate_step X S (cs_blocks c)) (numbered (cs_blocks c)) (fmempty, block_hash X g) = Inr (cs_utxos c, prev)"
    by (auto simp: validate_all_def Let_def result_simps split: if_split_asm)
  with validate_steps_valid [OF g ne(2,1), of "[]"] show "valid_chain X S (cs_blocks c) (cs_utxos c)" by simp
qed

section \<open>Reachable states\<close>

definition chain_ok :: "extern \<Rightarrow> settings \<Rightarrow> chain_state \<Rightarrow> bool" where
  "chain_ok X S c \<longleftrightarrow> valid_chain X S (cs_blocks c) (cs_utxos c) \<and> cs_network c = net_name (network S)"

definition node_ok :: "extern \<Rightarrow> settings \<Rightarrow> chain_state \<Rightarrow> bool" where
  "node_ok X S c \<longleftrightarrow> chain_ok X S c \<and> mempool_ok X S c"

text \<open>
  \<open>load\<close> is the start of the node: the persisted state is checked, then its mempool is revalidated.
\<close>

inductive node_step :: "extern \<Rightarrow> settings \<Rightarrow> chain_state \<Rightarrow> chain_state \<Rightarrow> bool" for X S where
  submit: "accept_transaction_to_mempool X S tx c = (r, d) \<Longrightarrow> node_step X S c d"
| batch: "accept_transactions_to_mempool_batch X S txs c = (r, d) \<Longrightarrow> node_step X S c d"
| revalidate: "revalidate_mempool X S c = (n, d) \<Longrightarrow> node_step X S c d"
| connect: "connect_block X S b c = Inr (h, d) \<Longrightarrow> node_step X S c d"
| adopt: "try_adopt_peer_chain X S blocks prefer c = Inr (adopted, d) \<Longrightarrow> node_step X S c d"

inductive node_reachable :: "extern \<Rightarrow> settings \<Rightarrow> chain_state \<Rightarrow> bool" for X S where
  start: "new_with_genesis X S = Inr c \<Longrightarrow> node_reachable X S c"
| load: "from_persisted X S p = Inr c \<Longrightarrow> revalidate_mempool X S c = (n, d) \<Longrightarrow> node_reachable X S d"
| step: "node_reachable X S c \<Longrightarrow> node_step X S c d \<Longrightarrow> node_reachable X S d"

lemma chain_ok_base: "chain_ok X S c \<Longrightarrow> same_base c d \<Longrightarrow> chain_ok X S d"
  by (simp add: chain_ok_def same_base_def)

lemma new_with_genesis_ok: "new_with_genesis X S = Inr c \<Longrightarrow> node_ok X S c"
  by (auto simp: new_with_genesis_def result_simps node_ok_def chain_ok_def intro: valid_chain.genesis)

lemma connect_block_Inr:
  assumes "connect_block X S b c = Inr (h, d)" and "chain_ok X S c"
  shows "node_ok X S d" and "cs_blocks d = cs_blocks c @ [b]" and "h = block_hash X b"
    and "\<exists>ids u. validate_block X b (cs_utxos c) (tip_hash X c) (of_nat (length (cs_blocks c))) u S = Inr ids \<and>
      (\<forall>tx \<in> set (cs_mempool d). tx \<in> set (cs_mempool c) \<and> txid X tx |\<notin>| ids)"
proof -
  note v = assms(2) [unfolded chain_ok_def, THEN conjunct1]
  note ne = valid_chain_nonempty [OF v]
  from assms(1) obtain ids u where
    ch: "check_and_apply_block X S (cs_blocks c) (cs_utxos c) (tip_hash X c) (of_nat (length (cs_blocks c))) b = Inr (ids, u)"
    and h: "h = block_hash X b"
    and d: "d = snd (revalidate_mempool X S (c\<lparr>cs_blocks := cs_blocks c @ [b], cs_utxos := u,
        cs_mempool := filter (\<lambda>tx. txid X tx |\<notin>| ids) (cs_mempool c)\<rparr>))"
    by (auto simp: connect_block_def result_simps chain_height_next [OF ne] Let_def)
  let ?e = "c\<lparr>cs_blocks := cs_blocks c @ [b], cs_utxos := u, cs_mempool := filter (\<lambda>tx. txid X tx |\<notin>| ids) (cs_mempool c)\<rparr>"
  obtain n where r: "rebuild_mempool_from X S (cs_mempool ?e) ?e = (n, d)"
    using d by (cases "revalidate_mempool X S ?e") (simp add: revalidate_mempool_def)
  note ok = rebuild_mempool_ok [OF r]
  have "valid_chain X S (cs_blocks c @ [b]) u"
    using v ch ne by (auto simp: tip_hash_def intro: valid_chain.extend)
  with assms(2) ok show "node_ok X S d" by (auto simp: node_ok_def chain_ok_def same_base_def)
  from ok show "cs_blocks d = cs_blocks c @ [b]" by (simp add: same_base_def)
  show "h = block_hash X b" by (rule h)
  from check_and_apply_Inr(1) [OF ch] ok
  show "\<exists>ids u. validate_block X b (cs_utxos c) (tip_hash X c) (of_nat (length (cs_blocks c))) u S = Inr ids \<and>
      (\<forall>tx \<in> set (cs_mempool d). tx \<in> set (cs_mempool c) \<and> txid X tx |\<notin>| ids)"
    by fastforce
qed

lemma from_blocks_Inr:
  assumes "from_blocks X S bs = Inr c"
  shows "node_ok X S c" and "cs_blocks c = bs"
proof -
  let ?f = "\<lambda>b chain. rbind (connect_block X S b chain) (\<lambda>(_, chain). Inr chain)"
  from assms obtain g c0 where g: "genesis_block X S = Inr g" and bs: "bs \<noteq> []" "bs ! 0 = g"
    and c0: "new_with_genesis X S = Inr c0" and f: "fold_r ?f (drop 1 bs) c0 = Inr c"
    by (auto simp: from_blocks_def result_simps split: if_split_asm)
  have step: "node_ok X S d \<and> cs_blocks d = cs_blocks e @ cs" if "fold_r ?f cs e = Inr d" "node_ok X S e" for cs d e
    using that
  proof (induction cs arbitrary: e)
    case (Cons b cs)
    then obtain h e' where b: "connect_block X S b e = Inr (h, e')" and r: "fold_r ?f cs e' = Inr d"
      by (auto simp: result_simps)
    from Cons.prems(2) have "chain_ok X S e" by (simp add: node_ok_def)
    from connect_block_Inr(1,2) [OF b this] Cons.IH [OF r] show ?case by simp
  qed simp
  from c0 g have b0: "cs_blocks c0 = [g]" by (auto simp: new_with_genesis_def)
  from step [OF f new_with_genesis_ok [OF c0]] show "node_ok X S c" by simp
  from step [OF f new_with_genesis_ok [OF c0]] b0 bs show "cs_blocks c = bs" by (cases bs) auto
qed

lemma adopt_Inr:
  assumes "try_adopt_peer_chain X S blocks prefer c = Inr (adopted, d)"
  obtains (same) "\<not> adopted" and "d = c"
  | (better) e w w' n where "adopted" and "from_blocks X S blocks = Inr e" and "chain_work_for_blocks (cs_blocks c) = Inr w"
      and "chain_work_for_blocks blocks = Inr w'" and "w \<le> w'"
      and "rebuild_mempool_from X S (reorg_mempool_candidates_for X c e) e = (n, d)"
proof -
  from assms obtain e w w' where e: "from_blocks X S blocks = Inr e"
    and w: "chain_work_for_blocks (cs_blocks e) = Inr w'" "chain_work_for_blocks (cs_blocks c) = Inr w"
    and r: "(if should_adopt X prefer w' w e c
       then Inr (True, snd (rebuild_mempool_from X S (reorg_mempool_candidates_for X c e) e)) else Inr (False, c)) =
      (Inr (adopted, d) :: (bool \<times> chain_state) result)"
    unfolding try_adopt_peer_chain_def rbind_eq_Inr by blast
  note blocks = from_blocks_Inr(2) [OF e]
  show thesis
  proof (cases "should_adopt X prefer w' w e c")
    case True
    then have "w \<le> w'" by (auto simp: should_adopt_def)
    moreover obtain n d' where "rebuild_mempool_from X S (reorg_mempool_candidates_for X c e) e = (n, d')"
      by (cases "rebuild_mempool_from X S (reorg_mempool_candidates_for X c e) e")
    ultimately show ?thesis using better [OF _ e w(2)] w(1) r True blocks by simp
  next
    case False
    with r show ?thesis by (intro same) auto
  qed
qed

lemma node_step_ok: "node_step X S c d \<Longrightarrow> node_ok X S c \<Longrightarrow> node_ok X S d"
proof (induction rule: node_step.induct)
  case (submit tx c r d)
  then show ?case using accept_transaction_ok by (auto simp: node_ok_def intro: chain_ok_base)
next
  case (batch txs c r d)
  then show ?case using accept_batch_ok by (auto simp: node_ok_def intro: chain_ok_base)
next
  case (revalidate c n d)
  then show ?case using rebuild_mempool_ok [of X S "cs_mempool c" c n d]
    by (auto simp: node_ok_def revalidate_mempool_def intro: chain_ok_base)
next
  case (connect b c h d)
  then show ?case using connect_block_Inr(1) by (auto simp: node_ok_def)
next
  case (adopt blocks p c adopted d)
  from adopt(1) show ?case
  proof (cases rule: adopt_Inr)
    case same
    with adopt(2) show ?thesis by simp
  next
    case (better e w w' n)
    from rebuild_mempool_ok [OF better(6)] from_blocks_Inr(1) [OF better(2)] show ?thesis
      by (auto simp: node_ok_def intro: chain_ok_base)
  qed
qed

lemma from_persisted_Inr:
  "from_persisted X S p = Inr c \<Longrightarrow> chain_ok X S c \<and> cs_blocks c = pc_blocks p \<and> cs_mempool c = pc_mempool p"
  by (auto simp: from_persisted_def result_simps chain_ok_def validate_all_iff Let_def split: if_split_asm)

lemma reachable_ok: "node_reachable X S c \<Longrightarrow> node_ok X S c"
proof (induction rule: node_reachable.induct)
  case (load p c n d)
  then show ?case using rebuild_mempool_ok [of X S "cs_mempool c" c n d] from_persisted_Inr [OF load(1)]
    by (auto simp: node_ok_def revalidate_mempool_def intro: chain_ok_base)
qed (auto intro: new_with_genesis_ok node_step_ok)

end
