(* ===== verification/NodeSafety.thy ===== *)
theory NodeSafety
  imports Node
begin

text \<open>
  What holds of every reachable state of a node: the money supply, the work of its chain, the
  registries rebuilt from its blocks, the transactions a reorganisation offers to the new mempool, and
  that a persisted state is read back.
\<close>

section \<open>The subsidies add up\<close>

lemma halved_sum: "(\<Sum>j<m. s div 2 ^ j) + 2 * (s div 2 ^ m) \<le> 2 * (s :: nat)"
proof (induction m)
  case (Suc m)
  have "2 * (s div 2 ^ Suc m) = 2 * (s div 2 ^ m div 2)" by (metis div_mult2_eq mult.commute power_Suc)
  also have "\<dots> \<le> s div 2 ^ m" by simp
  finally show ?case using Suc by simp
qed simp

lemma era_sum: "0 < k \<Longrightarrow> (\<Sum>i<m * k. f (i div k)) = k * (\<Sum>j<m. f j)" for f :: "nat \<Rightarrow> nat"
proof (induction m)
  case (Suc m)
  have "(\<Sum>i<Suc m * k. f (i div k)) = (\<Sum>i<m * k. f (i div k)) + (\<Sum>i=m * k..<m * k + k. f (i div k))"
    by (metis add.commute atLeast0LessThan le_add1 mult_Suc sum.atLeastLessThan_concat zero_le)
  also have "(\<Sum>i=m * k..<m * k + k. f (i div k)) = (\<Sum>i=m * k..<m * k + k. f m)"
    by (intro sum.cong refl arg_cong [where f = f]) (auto simp: div_nat_eqI mult.commute)
  finally show ?case using Suc by (simp add: algebra_simps)
qed simp

definition subsidy_at :: "settings \<Rightarrow> nat \<Rightarrow> nat" where
  "subsidy_at S n = unat (block_subsidy (of_nat n) S)"

lemma subsidy_le:
  assumes "n < 2 ^ 64"
  shows "subsidy_at S (Suc n) \<le>
    unat (cons_initial_subsidy_atoms (consensus S)) div 2 ^ (n div unat (cons_subsidy_halving_interval (consensus S)))"
proof -
  let ?I = "cons_subsidy_halving_interval (consensus S)" and ?s = "cons_initial_subsidy_atoms (consensus S)"
  have n: "unat (of_nat n :: u64) = n" using assms by (intro unat_of_nat_less) simp
  have "unat ((of_nat (Suc n) - 1 :: u64) div ?I) = n div unat ?I" by (simp add: unat_div n)
  moreover have "unat (drop_bit k ?s) = unat ?s div 2 ^ k" for k by (simp only: unat_drop_bit_eq drop_bit_nat_def)
  ultimately show ?thesis by (auto simp: subsidy_at_def block_subsidy_def Let_def)
qed

lemma subsidies_bounded:
  assumes "0 < unat (cons_subsidy_halving_interval (consensus S))" and "n \<le> 2 ^ 64"
  shows "(\<Sum>i<n. subsidy_at S (Suc i)) \<le>
    2 * unat (cons_subsidy_halving_interval (consensus S)) * unat (cons_initial_subsidy_atoms (consensus S))"
proof -
  let ?I = "unat (cons_subsidy_halving_interval (consensus S))" and ?s = "unat (cons_initial_subsidy_atoms (consensus S))"
  have "(\<Sum>i<n. subsidy_at S (Suc i)) \<le> (\<Sum>i<n. ?s div 2 ^ (i div ?I))"
    using assms(2) by (intro sum_mono subsidy_le) simp
  also have "\<dots> \<le> (\<Sum>i<n * ?I. ?s div 2 ^ (i div ?I))"
    using assms(1) by (intro sum_mono2) auto
  also have "\<dots> = ?I * (\<Sum>j<n. ?s div 2 ^ j)" by (rule era_sum [OF assms(1)])
  also have "\<dots> \<le> ?I * (2 * ?s)" using halved_sum [where m = n and s = ?s] by (intro mult_left_mono) simp_all
  finally show ?thesis by (simp add: algebra_simps)
qed

lemma valid_chain_supply:
  assumes "valid_chain X S bs u" and "length bs \<le> 2 ^ 32"
    and "0 < unat (cons_subsidy_halving_interval (consensus S))"
    and "2 * unat (cons_subsidy_halving_interval (consensus S)) * unat (cons_initial_subsidy_atoms (consensus S)) < 2 ^ 64"
  shows "utxo_total u \<le> (\<Sum>i<length bs - 1. subsidy_at S (Suc i))"
  using assms(1,2)
proof (induction rule: valid_chain.induct)
  case genesis
  show ?case by (simp add: utxo_total_def)
next
  case (extend bs u b ids v)
  let ?h = "of_nat (length bs) :: u32"
  note ne = valid_chain_nonempty [OF extend(1)]
  from extend have IH: "utxo_total u \<le> (\<Sum>i<length bs - 1. subsidy_at S (Suc i))" by simp
  also have "\<dots> \<le> 2 * unat (cons_subsidy_halving_interval (consensus S)) * unat (cons_initial_subsidy_atoms (consensus S))"
    using extend.prems by (intro subsidies_bounded [OF assms(3)]) simp
  also have "\<dots> < 2 ^ 64" by (rule assms(4))
  finally have small: "utxo_total u < 2 ^ 64" .
  from check_and_apply_Inr(1) [OF extend(2)] obtain bits where
    "validate_block X b u (block_hash X (last bs)) ?h bits S = Inr ids" by blast
  from block_mint_bound [OF this check_and_apply_Inr(9) [OF extend(2)] small]
  have "utxo_total v \<le> utxo_total u + unat (block_subsidy (ucast ?h) S)" .
  moreover have "ucast ?h = (of_nat (length bs) :: u64)"
    using extend.prems unat_of_nat_less [of "length bs", where 'w = 32] unat_of_nat_less [of "length bs", where 'w = 64]
    by (simp add: word_unat_eq_iff unsigned_ucast_eq take_bit_nat_eq_self)
  ultimately have "utxo_total v \<le> utxo_total u + subsidy_at S (length bs)" by (simp add: subsidy_at_def)
  moreover have "(\<Sum>i<length bs. subsidy_at S (Suc i)) = (\<Sum>i<length bs - 1. subsidy_at S (Suc i)) + subsidy_at S (length bs)"
    using ne by (cases "length bs") simp_all
  ultimately show ?case using IH by simp
qed

section \<open>Connecting is validating\<close>

lemma from_blocks_snoc:
  assumes "from_blocks X S bs = Inr c" and "connect_block X S b c = Inr (h, d)"
  shows "from_blocks X S (bs @ [b]) = Inr d"
proof -
  have ne: "bs \<noteq> []" using assms(1) by (auto simp: from_blocks_def)
  with assms show ?thesis
    by (cases bs) (auto simp: from_blocks_def result_simps fold_r_append split: if_split_asm)
qed

lemma valid_chain_connects:
  assumes "valid_chain X S bs u"
  shows "\<exists>c. from_blocks X S bs = Inr c \<and> cs_utxos c = u"
  using assms
proof (induction rule: valid_chain.induct)
  case (genesis g)
  then show ?case by (simp add: from_blocks_def new_with_genesis_def)
next
  case (extend bs u b ids v)
  then obtain c where c: "from_blocks X S bs = Inr c" "cs_utxos c = u" by blast
  note ok = from_blocks_Inr [OF c(1)]
  note ne = valid_chain_nonempty [OF extend(1)]
  let ?e = "c\<lparr>cs_blocks := bs @ [b], cs_utxos := v, cs_mempool := filter (\<lambda>tx. txid X tx |\<notin>| ids) (cs_mempool c)\<rparr>"
  have "connect_block X S b c = Inr (block_hash X b, snd (revalidate_mempool X S ?e))"
    using extend(2) ne ok(2) c(2) chain_height_next [of c]
    by (simp add: connect_block_def tip_hash_def)
  moreover have "cs_utxos (snd (revalidate_mempool X S ?e)) = v"
    using rebuild_mempool_ok [of X S "cs_mempool ?e" ?e]
    by (cases "revalidate_mempool X S ?e") (auto simp: revalidate_mempool_def same_base_def)
  ultimately show ?case using from_blocks_snoc [OF c(1)] by blast
qed

section \<open>Work\<close>

lemma valid_chain_work: "valid_chain X S bs u \<Longrightarrow> \<exists>w. chain_work_for_blocks bs = Inr w"
proof (induction rule: valid_chain.induct)
  case (extend bs u b ids v)
  from check_and_apply_Inr(1) [OF extend(2)] obtain bits where
    "validate_block X b u (block_hash X (last bs)) (of_nat (length bs)) bits S = Inr ids" by blast
  then have "verify_header_pow X (blk_header b) = Inr True" by (rule validate_block_Inr)
  then obtain t where "target_from_compact (hdr_bits (blk_header b)) = Inr t"
    by (auto simp: verify_header_pow_def result_simps)
  then have "\<exists>w. block_work (hdr_bits (blk_header b)) = Inr w"
    by (auto simp: block_work_ok compact_to_biguint_def)
  with extend.IH valid_chain_nonempty [OF extend(1)] show ?case by (auto simp: chain_work_snoc)
qed (simp add: chain_work_for_blocks_def)

lemma node_step_work:
  assumes "node_step X S c d" and "node_ok X S c"
  shows "\<exists>w w'. chain_work_for_blocks (cs_blocks c) = Inr w \<and> chain_work_for_blocks (cs_blocks d) = Inr w' \<and> w \<le> w'"
proof -
  from assms(2) obtain w where w: "chain_work_for_blocks (cs_blocks c) = Inr w"
    using valid_chain_work [of X S] unfolding node_ok_def chain_ok_def by blast
  from node_step_ok [OF assms] obtain w' where w': "chain_work_for_blocks (cs_blocks d) = Inr w'"
    using valid_chain_work [of X S] unfolding node_ok_def chain_ok_def by blast
  have "w \<le> w'"
    using assms(1)
  proof (cases rule: node_step.cases)
    case (submit tx r)
    with accept_transaction_ok [OF submit] assms(2) w w' show ?thesis by (simp add: node_ok_def same_base_def)
  next
    case (batch txs r)
    with accept_batch_ok [OF batch] assms(2) w w' show ?thesis by (simp add: node_ok_def same_base_def)
  next
    case (revalidate n)
    with rebuild_mempool_ok [of X S "cs_mempool c" c n d] w w' show ?thesis
      by (simp add: revalidate_mempool_def same_base_def)
  next
    case (connect b h)
    from assms(2) have "chain_ok X S c" by (simp add: node_ok_def)
    moreover from this have "cs_blocks c \<noteq> []" using valid_chain_nonempty by (auto simp: chain_ok_def)
    ultimately show ?thesis using connect_block_Inr(2) [OF connect] w w' by (auto simp: chain_work_snoc result_simps)
  next
    case (adopt blocks pref adopted)
    from adopt show ?thesis
    proof (cases rule: adopt_Inr)
      case same
      with w w' show ?thesis by simp
    next
      case (better e v v' n)
      from rebuild_mempool_ok [OF better(6)] from_blocks_Inr(2) [OF better(2)] have "cs_blocks d = blocks"
        by (simp add: same_base_def)
      with better w w' show ?thesis by simp
    qed
  qed
  with w w' show ?thesis by blast
qed

section \<open>The registries\<close>

lemma valid_chain_registries:
  assumes "valid_chain X S bs u" and "length bs < 2 ^ 32"
  shows "(\<exists>st. library_state_from_blocks X S bs = Inr st) \<and> (\<exists>reg. pools_registry_from_blocks X S bs = Inr reg) \<and>
    (\<exists>sold. jin_sale_sold_by_listing_from_blocks X S bs = Inr sold) \<and>
    (\<exists>st. verified_governance_state_from_blocks X S bs = Inr st \<and> votes_unique (gs_votes st))"
  using assms
proof (induction rule: valid_chain.induct)
  case (genesis g)
  show ?case
    by (auto simp: library_state_from_blocks_def pools_registry_from_blocks_def jin_sale_sold_by_listing_from_blocks_def
        verified_governance_state_from_blocks_def gov_state_default_def votes_unique_def Let_def)
next
  case (extend bs u b ids v)
  note ne = valid_chain_nonempty [OF extend(1)] and ch = check_and_apply_Inr [OF extend(2)]
  from extend have len: "length bs < 2 ^ 32" by simp
  with extend.IH obtain l reg sold g where IH: "library_state_from_blocks X S bs = Inr l"
    "pools_registry_from_blocks X S bs = Inr reg" "jin_sale_sold_by_listing_from_blocks X S bs = Inr sold"
    "verified_governance_state_from_blocks X S bs = Inr g" "votes_unique (gs_votes g)" by blast
  have "\<exists>reg. pools_registry_from_blocks X S (bs @ [b]) = Inr reg"
    using pool_checked_block_replayed [OF ch(5) IH(2) ne] by (auto split: if_split_asm)
  with library_checked_block_replayed [OF ch(6) IH(1) ne len]
    sale_checked_block_replayed [OF ch(4) ne IH(3)] governance_block_replayed [OF ch(7) ne IH(4,5)]
  show ?case by blast
qed

section \<open>Persisted coins\<close>

lemma load_utxos_fold:
  assumes "distinct (map pu_outpoint us)" and "fmdom' m \<inter> pu_outpoint ` set us = {}"
  shows "\<exists>v. fold_r (\<lambda>u m. if fmlookup m (pu_outpoint u) \<noteq> None then Inl (ChainErr DuplicatePersistedUtxo)
       else Inr (fmupd (pu_outpoint u) (pu_coin u) m)) us m = Inr v \<and>
    (\<forall>p. fmlookup v p = (case map_of (map (\<lambda>u. (pu_outpoint u, pu_coin u)) us) p of None \<Rightarrow> fmlookup m p | Some c \<Rightarrow> Some c))"
  using assms
proof (induction us arbitrary: m)
  case (Cons u us)
  let ?m = "fmupd (pu_outpoint u) (pu_coin u) m"
  have new: "fmlookup m (pu_outpoint u) = None" using Cons.prems(2) by (auto simp: fmdom'_notI fmdom'_notD)
  have "fmdom' ?m \<inter> pu_outpoint ` set us = {}" using Cons.prems by auto
  with Cons.prems(1) obtain v where v: "fold_r (\<lambda>u m. if fmlookup m (pu_outpoint u) \<noteq> None then Inl (ChainErr DuplicatePersistedUtxo)
       else Inr (fmupd (pu_outpoint u) (pu_coin u) m)) us ?m = Inr v"
    and look: "\<forall>p. fmlookup v p = (case map_of (map (\<lambda>u. (pu_outpoint u, pu_coin u)) us) p of None \<Rightarrow> fmlookup ?m p | Some c \<Rightarrow> Some c)"
    using Cons.IH [of ?m] by auto
  have none: "map_of (map (\<lambda>u. (pu_outpoint u, pu_coin u)) us) (pu_outpoint u) = None"
    using Cons.prems(1) by (force simp: map_of_eq_None_iff)
  have "fmlookup v p = (case map_of (map (\<lambda>u. (pu_outpoint u, pu_coin u)) (u # us)) p of None \<Rightarrow> fmlookup m p | Some c \<Rightarrow> Some c)" for p
    by (cases "p = pu_outpoint u") (simp_all add: look none cong: option.case_cong)
  with v new show ?case by simp
qed simp

lemma map_of_mset:
  assumes "mset xs = mset ys" and "distinct (map fst xs)"
  shows "map_of xs = map_of ys"
proof
  have "distinct (map fst ys)" using assms by (metis mset_map mset_eq_imp_distinct_iff)
  with assms show "map_of xs k = map_of ys k" for k
    by (metis (no_types, opaque_lifting) map_of_eq_Some_iff not_None_eq set_mset_mset)
qed

lemma load_persisted_utxos: "load_utxos (pc_utxos (to_persisted X c)) = Inr (cs_utxos c)"
proof -
  let ?coin = "\<lambda>(p, coin). \<lparr>pu_outpoint = p, pu_coin = coin\<rparr> :: persisted_utxo"
  let ?pair = "\<lambda>u. (pu_outpoint u, pu_coin u)" and ?l = "sorted_list_of_fmap (cs_utxos c)"
  let ?us = "pc_utxos (to_persisted X c)"
  have m: "mset ?us = mset (map ?coin ?l)" by (simp add: to_persisted_def)
  have pairs: "map ?pair (map ?coin ?l) = ?l" by (simp add: comp_def case_prod_unfold)
  have "mset (map ?pair ?us) = mset ?l" using m pairs by (metis mset_map)
  moreover have d: "distinct (map fst ?l)" by (rule distinct_sorted_list_of_fmap)
  ultimately have look: "map_of (map ?pair ?us) = fmlookup (cs_utxos c)" and dist: "distinct (map fst (map ?pair ?us))"
    using map_of_mset [of ?l "map ?pair ?us"] by (metis mset_map mset_eq_imp_distinct_iff map_of_sorted_list)+
  from dist have "distinct (map pu_outpoint ?us)" by (simp add: comp_def)
  from load_utxos_fold [OF this, of fmempty] obtain v where "load_utxos ?us = Inr v"
    and "\<forall>p. fmlookup v p = (case map_of (map ?pair ?us) p of None \<Rightarrow> None | Some c \<Rightarrow> Some c)"
    unfolding load_utxos_def fmempty_lookup by auto
  with look have "v = cs_utxos c" by (intro fmap_ext) (simp split: option.splits)
  with \<open>load_utxos ?us = Inr v\<close> show ?thesis by simp
qed

lemma chain_ok_restored:
  assumes "chain_ok X S c"
  shows "from_persisted X S (to_persisted X c) = Inr c"
proof -
  from assms have v: "validate_all X S c = Inr ()" and n: "cs_network c = net_name (network S)"
    by (simp_all add: chain_ok_def validate_all_iff)
  have c: "\<lparr>cs_network = cs_network c, cs_blocks = cs_blocks c, cs_utxos = cs_utxos c, cs_mempool = cs_mempool c\<rparr> = c" by simp
  have p: "pc_network (to_persisted X c) = cs_network c" "pc_blocks (to_persisted X c) = cs_blocks c"
    "pc_mempool (to_persisted X c) = cs_mempool c"
    by (simp_all add: to_persisted_def)
  show ?thesis using v by (simp add: from_persisted_def load_persisted_utxos p c n [symmetric] Let_def)
qed

section \<open>Reorganisations\<close>

lemma unseen_distinct: "distinct (map (txid X) (unseen X seen txs)) \<and> seen \<inter> txid X ` set (unseen X seen txs) = {}"
proof (induction txs arbitrary: seen)
  case (Cons tx txs)
  show ?case using Cons.IH [of seen] Cons.IH [of "insert (txid X tx) seen"] by auto
qed simp

lemma unseen_complete: "tx \<in> set txs \<Longrightarrow> txid X tx \<in> seen \<union> txid X ` set (unseen X seen txs)"
proof (induction txs arbitrary: seen)
  case (Cons t txs)
  show ?case using Cons.prems Cons.IH [of seen] Cons.IH [of "insert (txid X t) seen"] by auto
qed simp

section \<open>Properties\<close>

text \<open>
  C1: The state of a node is always a fully checked chain with a sound mempool. In every state a node
  reaches by accepting transactions, connecting blocks, adopting chains or loading its files, the
  whole-chain validation succeeds, so every block passed every check on top of its predecessors and
  the UTXO set is the replay of the blocks; the mempool is within its limits, no two pending
  transactions have the same id or spend the same output, and whatever a pending transaction spends
  is an unspent output of the confirmed chain. (So a pending transaction never spends the output of
  another pending one.)
\<close>

theorem node_state_valid:
  assumes "node_reachable X S c"
  shows "validate_all X S c = Inr () \<and> cs_network c = net_name (network S) \<and>
    length (cs_mempool c) \<le> unat (effective_mempool_max_transactions S) \<and>
    length (filter is_pool_share_transaction (cs_mempool c)) \<le> unat (hf124_pool_share_mempool_limit S) \<and>
    distinct (map (txid X) (cs_mempool c)) \<and> distinct (concat (map spent_outpoints (cs_mempool c))) \<and>
    (\<forall>tx \<in> set (cs_mempool c). \<not> is_coinbase tx \<longrightarrow>
      (\<forall>i \<in> set (tx_inputs tx). previous_output i \<noteq> outpoint_null \<longrightarrow> fmlookup (cs_utxos c) (previous_output i) \<noteq> None))"
  using reachable_ok [OF assms]
  by (auto simp: node_ok_def chain_ok_def validate_all_iff mempool_ok_def pending_shares_def spent_outpoints_def
      fmlookup_dom_iff)

text \<open>
  C16: Validating a whole chain and connecting it block by block are the same check: a state passes
  \<open>validate_all\<close> exactly when its blocks can be connected one after the other from the genesis block
  and leave its UTXO set.
\<close>

theorem validate_all_reconnects:
  "validate_all X S c = Inr () \<longleftrightarrow> (\<exists>d. from_blocks X S (cs_blocks c) = Inr d \<and> cs_utxos d = cs_utxos c)"
proof
  assume "validate_all X S c = Inr ()"
  then show "\<exists>d. from_blocks X S (cs_blocks c) = Inr d \<and> cs_utxos d = cs_utxos c"
    unfolding validate_all_iff by (rule valid_chain_connects)
next
  assume "\<exists>d. from_blocks X S (cs_blocks c) = Inr d \<and> cs_utxos d = cs_utxos c"
  then obtain d where d: "from_blocks X S (cs_blocks c) = Inr d" "cs_utxos d = cs_utxos c" by blast
  from from_blocks_Inr [OF d(1)] d(2) show "validate_all X S c = Inr ()"
    by (simp add: validate_all_iff node_ok_def chain_ok_def)
qed

text \<open>
  C9: What a node writes it can read: the persisted form of any reachable state loads as the same
  state, passing all the checks a file has to pass, whatever order the coins are written in.
\<close>

theorem persisted_state_restored:
  assumes "node_reachable X S c"
  shows "from_persisted X S (to_persisted X c) = Inr c"
  using reachable_ok [OF assms] by (intro chain_ok_restored) (simp add: node_ok_def)

text \<open>
  C2: The money supply is capped. In every reachable state of a node the unspent outputs are worth at
  most twice the halving interval times the initial subsidy, whatever blocks the network sends, as
  long as that bound fits in 64 bits and the interval is positive.
\<close>

theorem money_supply_capped:
  assumes "node_reachable X S c" and "length (cs_blocks c) \<le> 2 ^ 32"
    and "0 < unat (cons_subsidy_halving_interval (consensus S))"
    and "2 * unat (cons_subsidy_halving_interval (consensus S)) * unat (cons_initial_subsidy_atoms (consensus S)) < 2 ^ 64"
  shows "utxo_total (cs_utxos c) \<le>
    2 * unat (cons_subsidy_halving_interval (consensus S)) * unat (cons_initial_subsidy_atoms (consensus S))"
proof -
  from reachable_ok [OF assms(1)] have "valid_chain X S (cs_blocks c) (cs_utxos c)" by (simp add: node_ok_def chain_ok_def)
  from valid_chain_supply [OF this assms(2-4)] have "utxo_total (cs_utxos c) \<le> (\<Sum>i<length (cs_blocks c) - 1. subsidy_at S (Suc i))" .
  also have "\<dots> \<le> 2 * unat (cons_subsidy_halving_interval (consensus S)) * unat (cons_initial_subsidy_atoms (consensus S))"
    using assms(2) by (intro subsidies_bounded [OF assms(3)]) simp
  finally show ?thesis .
qed

text \<open>
  C19: A node never gives up work: no step from a reachable state, be it a new block or the adoption of
  a peer's chain, leads to a chain with less cumulative work.
\<close>

theorem chain_work_never_decreases:
  assumes "node_reachable X S c" and "node_step X S c d"
  shows "\<exists>w w'. chain_work_for_blocks (cs_blocks c) = Inr w \<and> chain_work_for_blocks (cs_blocks d) = Inr w' \<and> w \<le> w'"
  using node_step_work [OF assms(2) reachable_ok [OF assms(1)]] .

text \<open>
  C14: An accepted chain never blocks its own registries: in every reachable state the library, the
  pools, the units sold in the public sale and the governance state can be rebuilt from the blocks
  without an error, although the replay stops at the first marker it cannot apply.
\<close>

theorem registries_always_rebuild:
  assumes "node_reachable X S c" and "length (cs_blocks c) < 2 ^ 32"
  shows "(\<exists>st. library_state_from_blocks X S (cs_blocks c) = Inr st) \<and>
    (\<exists>reg. pools_registry_from_blocks X S (cs_blocks c) = Inr reg) \<and>
    (\<exists>sold. jin_sale_sold_by_listing_from_blocks X S (cs_blocks c) = Inr sold) \<and>
    (\<exists>st. verified_governance_state_from_blocks X S (cs_blocks c) = Inr st)"
proof -
  from reachable_ok [OF assms(1)] have "valid_chain X S (cs_blocks c) (cs_utxos c)" by (simp add: node_ok_def chain_ok_def)
  from valid_chain_registries [OF this assms(2)] show ?thesis by blast
qed

text \<open>
  A reorganisation forgets no transaction: among the transactions offered to the mempool of the
  adopted chain there is one for the id of every pending transaction of the old state, and of every
  transaction but the coinbase in an old block above the common prefix whose id no block of the
  adopted chain contains; no id is offered twice.
\<close>

theorem reorg_offers_everything:
  assumes "tx \<in> set (cs_mempool c) \<or>
    (\<exists>b \<in> set (drop (common_prefix_height_with X c d + 1) (cs_blocks c)). tx \<in> set (drop 1 (blk_transactions b))) \<and>
      (\<forall>b \<in> set (cs_blocks d). txid X tx \<notin> txid X ` set (blk_transactions b))"
  shows "txid X tx \<in> txid X ` set (reorg_mempool_candidates_for X c d) \<and>
    distinct (map (txid X) (reorg_mempool_candidates_for X c d))"
proof -
  have "txid X tx \<in> txid X ` set (cs_mempool c @ cs_mempool d @ disconnected_non_coinbase_transactions_for X c d)"
    using assms
  proof
    assume r: "(\<exists>b \<in> set (drop (common_prefix_height_with X c d + 1) (cs_blocks c)). tx \<in> set (drop 1 (blk_transactions b))) \<and>
      (\<forall>b \<in> set (cs_blocks d). txid X tx \<notin> txid X ` set (blk_transactions b))"
    then have "tx \<in> set (concat (map (\<lambda>b. drop 1 (blk_transactions b)) (drop (common_prefix_height_with X c d + 1) (cs_blocks c))))"
      by auto
    from unseen_complete [OF this, of X "set (concat (map (\<lambda>b. map (txid X) (blk_transactions b)) (cs_blocks d)))"] r
    show ?thesis by (auto simp: disconnected_non_coinbase_transactions_for_def Let_def)
  qed simp
  then obtain t where t: "t \<in> set (cs_mempool c @ cs_mempool d @ disconnected_non_coinbase_transactions_for X c d)"
    and id: "txid X tx = txid X t" by blast
  from unseen_complete [OF t, of X "{}"] id unseen_distinct [of X "{}"] show ?thesis
    by (simp add: reorg_mempool_candidates_for_def)
qed

end
