(* ===== verification/FastRead.thy ===== *)
theory FastRead
  imports FastCommit NodeSafety
begin

text \<open>
  What is on the disk when a chain is committed (\<open>stored\<close>), and that the readers of the Fast Chain
  Engine get exactly that chain from it.
\<close>

section \<open>Committed chains\<close>

text \<open>A checked chain whose height fits the 32-bit heights of the sources.\<close>

definition storable :: "extern \<Rightarrow> settings \<Rightarrow> chain_state \<Rightarrow> bool" where
  "storable X S c \<longleftrightarrow> chain_ok X S c \<and> length (cs_blocks c) \<le> 2 ^ 32"

definition commit_state :: "codec \<Rightarrow> extern \<Rightarrow> chain_state \<Rightarrow> storage_pointer \<Rightarrow> storage_state result" where
  "commit_state J X c p = state_from_chain J X c (ptr_generation p) (ptr_state_revision p) (ptr_journal_bytes p)"

definition commit_pointer :: "codec \<Rightarrow> extern \<Rightarrow> chain_state \<Rightarrow> storage_pointer \<Rightarrow> storage_state \<Rightarrow> bool" where
  "commit_pointer J X c p s \<longleftrightarrow>
     commit_state J X c p = Inr s \<and>
     p = pointer_from_state (blocks_file_name (ptr_generation p))
       (state_file_name (ptr_generation p) (ptr_state_revision p)) (sha256_hex X (state_json J s))
       (ptr_committed_at_unix p) s \<and>
     ptr_journal_bytes p = length (journal_text J (cs_blocks c))"

definition journal_holds :: "codec \<Rightarrow> disk \<Rightarrow> string \<Rightarrow> block list \<Rightarrow> bool" where
  "journal_holds J d n bs \<longleftrightarrow> (\<exists>rest. fast_file d n = Some (journal_text J bs @ rest))"

definition stored :: "codec \<Rightarrow> extern \<Rightarrow> disk \<Rightarrow> string \<Rightarrow> storage_pointer \<Rightarrow> chain_state \<Rightarrow> bool" where
  "stored J X d path p c \<longleftrightarrow>
     fast_file d path = Some (pointer_json J p) \<and>
     (\<exists>s. commit_pointer J X c p s \<and> fast_file d (ptr_state_file p) = Some (state_json J s)) \<and>
     journal_holds J d (ptr_blocks_file p) (cs_blocks c)"

section \<open>File names\<close>

lemma show_padded_inject [simp]: "show_padded w a = show_padded w b \<longleftrightarrow> a = b"
proof
  assume "show_padded w a = show_padded w b"
  then have "parse_digits 10 0 (show_padded w a) = parse_digits 10 0 (show_padded w b)" by simp
  then show "a = b" by (simp add: parse_digits_show_padded)
qed simp

lemma padded_no [simp]: "\<not> is_ascii_digit c \<Longrightarrow> c \<notin> set (show_padded w n)"
  by (auto dest: show_padded_digits)

lemma not_digit [simp]: "\<not> is_ascii_digit (CHR ''-'')" "\<not> is_ascii_digit (CHR ''/'')" "\<not> is_ascii_digit (CHR ''.'')"
  by (simp_all add: is_ascii_digit_def less_eq_char_def)

lemma state_file_inject [simp]: "state_file_name g r = state_file_name h q \<longleftrightarrow> g = h \<and> r = q"
proof
  assume "state_file_name g r = state_file_name h q"
  then have e: "show_padded 20 (unat g) @ CHR ''-'' # show_padded 20 (unat r) @ ''.json'' =
      show_padded 20 (unat h) @ CHR ''-'' # show_padded 20 (unat q) @ ''.json''"
    by (simp add: state_file_name_def)
  have "split_once (CHR ''-'') (show_padded 20 (unat g) @ CHR ''-'' # show_padded 20 (unat r) @ ''.json'') =
      split_once (CHR ''-'') (show_padded 20 (unat h) @ CHR ''-'' # show_padded 20 (unat q) @ ''.json'')"
    by (rule arg_cong [OF e])
  then show "g = h \<and> r = q" by (simp add: split_once_append word_unat_eq_iff)
qed simp

lemma blocks_file_inject [simp]: "blocks_file_name g = blocks_file_name h \<longleftrightarrow> g = h"
  by (simp add: blocks_file_name_def word_unat_eq_iff)

lemmas control_files = fast_pointer_file_def fast_previous_pointer_file_def fast_storage_lock_file_def
  fast_legacy_export_status_file_def

lemma file_names_differ [simp]:
  "state_file_name g r \<noteq> blocks_file_name h" "blocks_file_name h \<noteq> state_file_name g r"
  "state_file_name g r \<noteq> fast_pointer_file" "fast_pointer_file \<noteq> state_file_name g r"
  "state_file_name g r \<noteq> fast_previous_pointer_file" "fast_previous_pointer_file \<noteq> state_file_name g r"
  "state_file_name g r \<noteq> fast_storage_lock_file" "fast_storage_lock_file \<noteq> state_file_name g r"
  "state_file_name g r \<noteq> fast_legacy_export_status_file" "fast_legacy_export_status_file \<noteq> state_file_name g r"
  "blocks_file_name g \<noteq> fast_pointer_file" "fast_pointer_file \<noteq> blocks_file_name g"
  "blocks_file_name g \<noteq> fast_previous_pointer_file" "fast_previous_pointer_file \<noteq> blocks_file_name g"
  "blocks_file_name g \<noteq> fast_storage_lock_file" "fast_storage_lock_file \<noteq> blocks_file_name g"
  "blocks_file_name g \<noteq> fast_legacy_export_status_file" "fast_legacy_export_status_file \<noteq> blocks_file_name g"
  "fast_pointer_file \<noteq> fast_previous_pointer_file" "fast_previous_pointer_file \<noteq> fast_pointer_file"
  "fast_pointer_file \<noteq> fast_storage_lock_file" "fast_storage_lock_file \<noteq> fast_pointer_file"
  "fast_previous_pointer_file \<noteq> fast_storage_lock_file" "fast_storage_lock_file \<noteq> fast_previous_pointer_file"
  "fast_pointer_file \<noteq> fast_legacy_export_status_file" "fast_legacy_export_status_file \<noteq> fast_pointer_file"
  "fast_previous_pointer_file \<noteq> fast_legacy_export_status_file" "fast_legacy_export_status_file \<noteq> fast_previous_pointer_file"
  by (simp_all add: state_file_name_def blocks_file_name_def control_files)

lemma safe_names [simp]:
  "safe_child (state_file_name g r) = Inr (state_file_name g r)" "safe_child (blocks_file_name g) = Inr (blocks_file_name g)"
  by (simp_all add: safe_child_def state_file_name_def blocks_file_name_def)

section \<open>Reading the journal back\<close>

lemma read_until_record:
  "NL \<notin> set r \<Longrightarrow> read_until_nl (r @ NL # s) = (r @ [NL], s)"
proof -
  assume "NL \<notin> set r"
  then have n: "\<And>x. x \<in> set r \<Longrightarrow> x \<noteq> NL" by blast
  show ?thesis unfolding read_until_nl_def by (simp add: dropWhile_append2 [OF n] takeWhile_append2 [OF n])
qed

lemma strip_eol_record: "NL \<notin> set r \<Longrightarrow> CR \<notin> set r \<Longrightarrow> strip_eol (r @ [NL]) = r"
  by (cases r rule: rev_cases) (auto simp: strip_eol_def)

lemma read_records_Nil [simp]: "read_records J X S g bs prev [] = Inr (bs, prev)"
  by (simp add: read_records.simps)

lemma read_records_block:
  assumes "codec_ok J"
  shows "read_records J X S g bs prev (block_json J b @ NL # s) =
    (let height = of_nat (length bs) in
     if hdr_version (blk_header b) \<noteq> expected_block_version S height then Inl (StorageErr SBlockVersion)
     else if height = 0 \<and> b \<noteq> g then Inl (StorageErr SGenesisMismatch)
     else if height \<noteq> 0 \<and> hdr_prev_block_hash (blk_header b) \<noteq> prev then Inl (StorageErr SHashLink)
     else read_records J X S g (bs @ [b]) (block_hash X b) s)"
  using codec_okD [OF assms]
  by (subst read_records.simps) (simp add: read_until_record strip_eol_record)

lemma journal_text_simps [simp]:
  "journal_text J [] = []" "journal_text J (b # bs) = block_json J b @ NL # journal_text J bs"
  "journal_text J (bs @ cs) = journal_text J bs @ journal_text J cs"
  by (simp_all add: journal_text_def)

lemma genesis_version: "genesis_block X S = Inr g \<Longrightarrow> hdr_version (blk_header g) = expected_block_version S 0"
  by (auto simp: genesis_block_def Let_def result_simps expected_block_version_def protocol_epoch_2_active_def
      protocol_epoch_2_activation_height_def split: if_split_asm)

lemma valid_chain_journal:
  assumes "valid_chain X S bs u" and "length bs \<le> 2 ^ 32" and "codec_ok J" and "genesis_block X S = Inr g"
  shows "read_records J X S g [] hash_zero (journal_text J bs @ s) = read_records J X S g bs (block_hash X (last bs)) s"
  using assms(1,2)
proof (induction arbitrary: s rule: valid_chain.induct)
  case (genesis g')
  with assms(4) have "g' = g" by simp
  with genesis_version [OF assms(4)] show ?case by (simp add: read_records_block [OF assms(3)])
next
  case (extend bs u b ids v)
  from check_and_apply_Inr(1) [OF extend(2)] obtain bits
    where "validate_block X b u (block_hash X (last bs)) (of_nat (length bs)) bits S = Inr ids" by blast
  then have "hdr_version (blk_header b) = expected_block_version S (of_nat (length bs))"
    and "hdr_prev_block_hash (blk_header b) = block_hash X (last bs)" by (auto elim: validate_block_Inr)
  moreover have "length bs < 2 ^ 32" "bs \<noteq> []" using extend.prems valid_chain_nonempty [OF extend(1)] by simp_all
  then have "unat (of_nat (length bs) :: u32) \<noteq> 0" by (subst unat_of_nat_less) simp_all
  then have "(of_nat (length bs) :: u32) \<noteq> 0" by (metis unsigned_0)
  ultimately show ?case using extend.IH extend.prems by (simp add: read_records_block [OF assms(3)] Let_def)
qed

lemma valid_chain_checkpoint:
  "valid_chain X S bs u \<Longrightarrow> 0 < i \<Longrightarrow> i < length bs \<Longrightarrow> validate_consensus_checkpoint X S (of_nat i) (block_hash X (bs ! i)) = Inr ()"
proof (induction rule: valid_chain.induct)
  case (extend bs u b ids v)
  then show ?case using check_and_apply_Inr(8) [OF extend(2)] by (cases "i = length bs") (auto simp: nth_append)
qed simp

section \<open>Loading a stored chain\<close>

lemma storable_height: "storable X S c \<Longrightarrow> unat (chain_height c) + 1 = length (cs_blocks c)"
  and storable_nonempty: "storable X S c \<Longrightarrow> cs_blocks c \<noteq> []"
proof -
  assume s: "storable X S c"
  then show "cs_blocks c \<noteq> []" by (auto simp: storable_def chain_ok_def dest: valid_chain_nonempty)
  with s show "unat (chain_height c) + 1 = length (cs_blocks c)"
    by (cases "cs_blocks c") (auto simp: storable_def chain_height_def unat_of_nat_less)
qed

lemma storable_work: "storable X S c \<Longrightarrow> \<exists>w. chain_work_for_blocks (cs_blocks c) = Inr w"
  by (auto simp: storable_def chain_ok_def dest: valid_chain_work)

text \<open>The fields of the pointer and the state file of a committed chain.\<close>

lemma commit_pointer_state:
  assumes "commit_pointer J X c p s"
  shows "fst_schema_version s = HF123_FAST_STORAGE_SCHEMA_VERSION" "fst_magic s = HF123_FAST_STORAGE_MAGIC"
    "fst_network s = cs_network c" "fst_generation s = ptr_generation p" "fst_state_revision s = ptr_state_revision p"
    "fst_committed_height s = chain_height c" "fst_tip_hash s = block_hash X (last (cs_blocks c))"
    "fst_tip_header s = blk_header (last (cs_blocks c))" "fst_journal_bytes s = ptr_journal_bytes p"
    "fst_mempool_digest s = mempool_digest X (cs_mempool c)" "fst_utxos s = sorted_utxos X c" "fst_mempool s = cs_mempool c"
    "cs_blocks c \<noteq> []" "\<exists>w. chain_work_for_blocks (cs_blocks c) = Inr w \<and> fst_total_work_hex s = work_hex J w"
  using assms by (auto simp: commit_pointer_def commit_state_def state_from_chain_def total_work_hex_def Let_def result_simps
      split: if_split_asm)

lemma commit_pointer_fields:
  assumes "commit_pointer J X c p s"
  shows "ptr_schema_version p = fst_schema_version s" "ptr_magic p = fst_magic s" "ptr_network p = fst_network s"
    "ptr_blocks_file p = blocks_file_name (ptr_generation p)"
    "ptr_state_file p = state_file_name (ptr_generation p) (ptr_state_revision p)"
    "ptr_state_sha256 p = sha256_hex X (state_json J s)" "ptr_journal_bytes p = length (journal_text J (cs_blocks c))"
    "ptr_committed_height p = fst_committed_height s" "ptr_tip_hash p = fst_tip_hash s" "ptr_tip_header p = fst_tip_header s"
    "ptr_mempool_digest p = fst_mempool_digest s" "ptr_total_work_hex p = fst_total_work_hex s"
  using assms unfolding commit_pointer_def pointer_from_state_def by (metis storage_pointer.select_convs)+

lemmas commit_fields = commit_pointer_fields commit_pointer_state

lemma stored_pointer:
  assumes "stored J X d path p c" and "storable X S c" and "codec_ok J"
  shows "read_pointer_path J S d path = Inr p"
proof -
  from assms(1) obtain s where s: "commit_pointer J X c p s" and f: "fast_file d path = Some (pointer_json J p)"
    by (auto simp: stored_def)
  have "cs_network c = net_name (network S)" using assms(2) by (simp add: storable_def chain_ok_def)
  with commit_fields [OF s] f show ?thesis
    by (simp add: read_pointer_path_def validate_pointer_def codec_okD [OF assms(3)] ok_or_def)
qed

lemma stored_state:
  assumes "stored J X d path p c" and "storable X S c" and "codec_ok J"
  obtains s where "commit_pointer J X c p s" and "read_state J X S d p = Inr (s, length (state_json J s))"
proof -
  from assms(1) obtain s where s: "commit_pointer J X c p s" and f: "fast_file d (ptr_state_file p) = Some (state_json J s)"
    by (auto simp: stored_def)
  have "cs_network c = net_name (network S)" using assms(2) by (simp add: storable_def chain_ok_def)
  with commit_fields [OF s] f have "read_state J X S d p = Inr (s, length (state_json J s))"
    by (simp add: read_state_def codec_okD [OF assms(3)] ok_or_def)
  with s that show thesis by blast
qed

lemma stored_blocks:
  assumes "stored J X d path p c" and "storable X S c" and "codec_ok J" and "commit_pointer J X c p s"
  shows "read_blocks J X S d p s = Inr (cs_blocks c)"
proof -
  note f = commit_fields [OF assms(4)]
  from assms(2) have v: "valid_chain X S (cs_blocks c) (cs_utxos c)" and len: "length (cs_blocks c) \<le> 2 ^ 32"
    by (simp_all add: storable_def chain_ok_def)
  from assms(1) obtain rest where body: "fast_file d (ptr_blocks_file p) = Some (journal_text J (cs_blocks c) @ rest)"
    by (auto simp: stored_def journal_holds_def)
  obtain g where g: "genesis_block X S = Inr g" using valid_chain_first [OF v] by blast
  have r: "read_records J X S g [] hash_zero (journal_text J (cs_blocks c)) = Inr (cs_blocks c, block_hash X (last (cs_blocks c)))"
    using valid_chain_journal [OF v len assms(3) g, of "[]"] by simp
  have cp: "\<not> (case consensus_checkpoint_hash S MAINNET_FORK_SAFETY_CHECKPOINT_HEIGHT of None \<Rightarrow> False
      | Some e \<Rightarrow> unat MAINNET_FORK_SAFETY_CHECKPOINT_HEIGHT < length (cs_blocks c) \<and>
          hash_to_string X (block_hash X (cs_blocks c ! unat MAINNET_FORK_SAFETY_CHECKPOINT_HEIGHT)) \<noteq> e)"
    using valid_chain_checkpoint [OF v, of "unat MAINNET_FORK_SAFETY_CHECKPOINT_HEIGHT"]
    by (auto simp: validate_consensus_checkpoint_def split: option.splits if_split_asm)
  show ?thesis using f body g r storable_height [OF assms(2)] cp
    unfolding read_blocks_def by (simp add: ok_or_def Let_def del: MAINNET_FORK_SAFETY_CHECKPOINT_HEIGHT_def)
qed

lemma fold_r_same_success:
  assumes "fold_r f xs s = Inr t" and "\<And>x s t. f x s = Inr t \<Longrightarrow> g x s = Inr t"
  shows "fold_r g xs s = Inr t"
  using assms(1)
proof (induction xs arbitrary: s)
  case (Cons x xs)
  then obtain u where "f x s = Inr u" "fold_r f xs u = Inr t" by (auto simp: result_simps)
  with Cons.IH assms(2) [of x s u] show ?case by simp
qed simp

lemma stored_chain:
  assumes "storable X S c" and "commit_pointer J X c p s"
  shows "chain_from_state X S (cs_blocks c) s full = Inr c"
proof -
  note f = commit_fields [OF assms(2)]
  have "fst_utxos s = pc_utxos (to_persisted X c)" by (simp add: f sorted_utxos_def to_persisted_def)
  then have load: "load_utxos (fst_utxos s) = Inr (cs_utxos c)" by (simp add: load_persisted_utxos)
  have "fold_r (\<lambda>u m. if fmlookup m (pu_outpoint u) \<noteq> None then Inl (StorageErr SDuplicateUtxo)
       else Inr (fmupd (pu_outpoint u) (pu_coin u) m)) (fst_utxos s) fmempty = Inr (cs_utxos c)"
    by (rule fold_r_same_success [OF load [unfolded load_utxos_def]]) (simp split: if_split_asm)
  moreover have "validate_all X S c = Inr ()" using assms(1) by (simp add: storable_def chain_ok_def validate_all_iff)
  ultimately show ?thesis using f by (cases c) (simp add: chain_from_state_def Let_def)
qed

lemma stored_loads_path:
  assumes "stored J X d path p c" and "storable X S c" and "codec_ok J"
  shows "load_fast_chain_from_pointer_path J X S d full path = Inr (c, pointer_identity p)"
proof -
  from stored_state [OF assms] obtain s where s: "commit_pointer J X c p s"
    and r: "read_state J X S d p = Inr (s, length (state_json J s))" .
  show ?thesis
    by (simp add: load_fast_chain_from_pointer_path_def stored_pointer [OF assms] r stored_blocks [OF assms s]
        stored_chain [OF assms(2) s])
qed

lemma stored_loads:
  assumes "stored J X d fast_pointer_file p c" and "storable X S c" and "codec_ok J"
  shows "load_fast_chain J X S d full = Inr (c, pointer_identity p)"
  by (simp add: load_fast_chain_def load_fast_chain_once_def with_previous_def stored_loads_path [OF assms])

lemma stored_reads:
  assumes "stored J X d fast_pointer_file p c" and "storable X S c" and "codec_ok J"
  obtains s where "commit_pointer J X c p s"
    and "read_pointer_state_with_recovery J X S d = Inr ((p, s, length (state_json J s)), False)"
proof -
  from stored_state [OF assms] obtain s where s: "commit_pointer J X c p s"
    and r: "read_state J X S d p = Inr (s, length (state_json J s))" .
  then have "read_pointer_state_with_recovery J X S d = Inr ((p, s, length (state_json J s)), False)"
    by (simp add: read_pointer_state_with_recovery_def with_previous_def read_pointer_state_def stored_pointer [OF assms])
  with s that show thesis by blast
qed

end
