(* ===== verification/FastSafety.thy ===== *)
theory FastSafety
  imports FastRead
begin

text \<open>
  A commit of the Fast Chain Engine is atomic: whichever of its writes fail, the disk holds either the
  chain committed before or the new one, and once it holds the new one the old one stays reachable
  through \<open>PREVIOUS.json\<close>. \<open>outcome\<close> is the Hoare triple of a transformer that can fail: one
  postcondition for success and one for failure.
\<close>

section \<open>Outcomes of a fallible transformer\<close>

definition outcome :: "('s \<Rightarrow> bool) \<Rightarrow> ('s, 'a) se \<Rightarrow> ('a \<Rightarrow> 's \<Rightarrow> bool) \<Rightarrow> ('s \<Rightarrow> bool) \<Rightarrow> bool" where
  "outcome P m Q R \<longleftrightarrow> (\<forall>d r e. P d \<longrightarrow> m d = (r, e) \<longrightarrow> (case r of Inr a \<Rightarrow> Q a e | Inl _ \<Rightarrow> R e))"

lemma outcomeI: "(\<And>d r e. P d \<Longrightarrow> m d = (r, e) \<Longrightarrow> (case r of Inr a \<Rightarrow> Q a e | Inl _ \<Rightarrow> R e)) \<Longrightarrow> outcome P m Q R"
  by (simp add: outcome_def)

lemma outcomeD:
  assumes "outcome P m Q R" and "P d" and "m d = (r, e)"
  shows "r = Inr a \<Longrightarrow> Q a e" and "r = Inl x \<Longrightarrow> R e"
  using assms by (fastforce simp: outcome_def)+

lemma outcome_pre: "outcome P m Q R \<Longrightarrow> (\<And>d. P' d \<Longrightarrow> P d) \<Longrightarrow> outcome P' m Q R"
  unfolding outcome_def by blast

lemma outcome_post:
  "outcome P m Q R \<Longrightarrow> (\<And>a d. Q a d \<Longrightarrow> Q' a d) \<Longrightarrow> (\<And>d. R d \<Longrightarrow> R' d) \<Longrightarrow> outcome P m Q' R'"
  by (fastforce simp: outcome_def split: sum.splits)

lemma outcome_bind:
  assumes "outcome P m Q R" and "\<And>a. outcome (Q a) (k a) T R"
  shows "outcome P (se_bind m k) T R"
proof (rule outcomeI)
  fix d r e assume p: "P d" and b: "se_bind m k d = (r, e)"
  obtain r1 d1 where m: "m d = (r1, d1)" by (cases "m d")
  show "case r of Inr a \<Rightarrow> T a e | Inl _ \<Rightarrow> R e"
  proof (cases r1)
    case (Inl x)
    with outcomeD(2) [OF assms(1) p m Inl] b m show ?thesis by (auto simp: se_bind_def)
  next
    case (Inr a)
    with outcomeD(1) [OF assms(1) p m Inr] b m assms(2) [of a] show ?thesis by (auto simp: se_bind_def outcome_def)
  qed
qed

lemma outcome_then: "outcome P m (\<lambda>_. Q) R \<Longrightarrow> outcome Q k T R \<Longrightarrow> outcome P (se_then m k) T R"
  unfolding se_then_def by (rule outcome_bind)

lemma outcome_return: "(\<And>d. P d \<Longrightarrow> Q a d) \<Longrightarrow> outcome P (se_return a) Q R"
  by (simp add: outcome_def se_return_def)

lemma outcome_fail: "(\<And>d. P d \<Longrightarrow> R d) \<Longrightarrow> outcome P (se_fail x) Q R"
  by (simp add: outcome_def se_fail_def)

lemma outcome_need:
  "(\<And>d a. P d \<Longrightarrow> f d = Inr a \<Longrightarrow> Q a d) \<Longrightarrow> (\<And>d x. P d \<Longrightarrow> f d = Inl x \<Longrightarrow> R d) \<Longrightarrow> outcome P (se_need f) Q R"
  by (auto simp: outcome_def se_need_def split: sum.splits)

lemma se_need_Inr: "se_bind (se_need (\<lambda>_. Inr a)) k = k a"
  by (rule ext) (simp add: se_bind_def se_need_def)

lemma outcome_ignore: "outcome P m (\<lambda>_. Q) Q \<Longrightarrow> outcome P (se_ignore m) (\<lambda>_. Q) R"
  by (auto simp: outcome_def se_ignore_def split: sum.splits) (metis old.sum.exhaust surjective_pairing)

lemma outcome_for:
  assumes "\<And>x. x \<in> set xs \<Longrightarrow> outcome I (f x) (\<lambda>_. I) R"
  shows "outcome I (se_for f xs) (\<lambda>_. I) R"
  using assms
proof (induction xs)
  case (Cons x xs)
  then have "outcome I (f x) (\<lambda>_. I) R" "outcome I (se_for f xs) (\<lambda>_. I) R" by simp_all
  then show ?case by (simp add: outcome_then)
qed (simp add: outcome_return)

lemma outcome_if:
  "(c \<Longrightarrow> outcome P m Q R) \<Longrightarrow> (\<not> c \<Longrightarrow> outcome P k Q R) \<Longrightarrow> outcome P (if c then m else k) Q R"
  by simp

lemma outcome_and_pure: "(c \<Longrightarrow> outcome P m Q R) \<Longrightarrow> outcome (\<lambda>d. c \<and> P d) m Q R"
  by (auto simp: outcome_def)

text \<open>Attempts on the disk: the failed attempt only counts.\<close>

definition uncounted :: "(disk \<Rightarrow> bool) \<Rightarrow> bool" where
  "uncounted P \<longleftrightarrow> (\<forall>d a. P d \<longrightarrow> P (d\<lparr>dk_attempts := a\<rparr>))"

lemma outcome_attempt:
  "uncounted P \<Longrightarrow> (\<And>d. P d \<Longrightarrow> Q () (f d)) \<Longrightarrow> (\<And>d. P d \<Longrightarrow> R d) \<Longrightarrow> outcome P (attempt f) Q R"
  by (rule outcomeI) (auto elim!: attempt_cases simp: uncounted_def)

text \<open>Statements about the files of chain-v2 outside a set, kept by what only touches files of that set.\<close>

definition about_others :: "string set \<Rightarrow> (disk \<Rightarrow> bool) \<Rightarrow> bool" where
  "about_others N P \<longleftrightarrow> (\<forall>d e. (\<forall>n. n \<notin> N \<longrightarrow> fast_file e n = fast_file d n) \<longrightarrow> P d \<longrightarrow> P e)"

lemma outcome_touches: "touches_only N m \<Longrightarrow> about_others N P \<Longrightarrow> (\<And>d. P d \<Longrightarrow> R d) \<Longrightarrow> outcome P m (\<lambda>_. P) R"
  by (rule outcomeI, unfold touches_only_def about_others_def) (metis (mono_tags, lifting) snd_conv sum.case_eq_if)

lemma about_others_uncounted: "about_others N P \<Longrightarrow> uncounted P"
  unfolding uncounted_def
proof (intro allI impI)
  fix d a assume N: "about_others N P" and "P d"
  have "\<forall>n. n \<notin> N \<longrightarrow> fast_file (d\<lparr>dk_attempts := a\<rparr>) n = fast_file d n" by simp
  with N \<open>P d\<close> show "P (d\<lparr>dk_attempts := a\<rparr>)" unfolding about_others_def by blast
qed

lemma about_others_mono: "about_others N P \<Longrightarrow> M \<subseteq> N \<Longrightarrow> about_others M P"
  unfolding about_others_def by blast

lemma about_others_conj: "about_others N P \<Longrightarrow> about_others N Q \<Longrightarrow> about_others N (\<lambda>d. P d \<and> Q d)"
  unfolding about_others_def by blast

section \<open>Stored chains under changes of other files\<close>

lemma stored_change:
  assumes "stored J X d path p c" and "fast_file e path = fast_file d path"
    and "fast_file e (ptr_state_file p) = fast_file d (ptr_state_file p)" and "journal_holds J e (ptr_blocks_file p) (cs_blocks c)"
  shows "stored J X e path p c"
  using assms by (auto simp: stored_def)

lemma stored_agree:
  assumes "stored J X d path p c" and "\<And>n. n \<in> {path, ptr_state_file p, ptr_blocks_file p} \<Longrightarrow> fast_file e n = fast_file d n"
  shows "stored J X e path p c"
proof (rule stored_change [OF assms(1)])
  show "journal_holds J e (ptr_blocks_file p) (cs_blocks c)"
    using assms(1) assms(2) [of "ptr_blocks_file p"] by (simp add: stored_def journal_holds_def)
qed (use assms(2) in simp_all)

lemma stored_names:
  assumes "stored J X d path p c"
  shows "ptr_blocks_file p = blocks_file_name (ptr_generation p)"
    and "ptr_state_file p = state_file_name (ptr_generation p) (ptr_state_revision p)"
  using assms commit_pointer_fields(4,5) unfolding stored_def by blast+

text \<open>The files a commit consists of.\<close>

definition commit_file :: "string \<Rightarrow> bool" where
  "commit_file n \<longleftrightarrow> n = fast_pointer_file \<or> n = fast_previous_pointer_file \<or>
     (\<exists>g. n = blocks_file_name g) \<or> (\<exists>g r. n = state_file_name g r)"

lemma commit_file_simps [simp]:
  "commit_file fast_pointer_file" "commit_file fast_previous_pointer_file" "commit_file (blocks_file_name g)"
  "commit_file (state_file_name g r)" "\<not> commit_file fast_storage_lock_file" "\<not> commit_file fast_legacy_export_status_file"
  by (auto simp: commit_file_def)

lemma stored_files:
  assumes "stored J X d path p c" and "commit_file path" and "n \<in> {path, ptr_state_file p, ptr_blocks_file p}"
  shows "commit_file n"
  using assms(2,3) by (auto simp: stored_names [OF assms(1)])

lemma stored_about_others:
  assumes "commit_file path" and "\<And>n. n \<in> N \<Longrightarrow> \<not> commit_file n"
  shows "about_others N (\<lambda>d. stored J X d path p c)"
  unfolding about_others_def
proof (intro allI impI)
  fix d e
  assume e: "\<forall>n. n \<notin> N \<longrightarrow> fast_file e n = fast_file d n" and s: "stored J X d path p c"
  show "stored J X e path p c"
    by (rule stored_agree [OF s]) (use e stored_files [OF s assms(1)] assms(2) in blast)
qed

section \<open>Cleaning up keeps both commits\<close>

text \<open>The disk holds \<open>c\<close> as the current commit, and the commit before it when there is one.\<close>

definition committed ::
  "codec \<Rightarrow> extern \<Rightarrow> storage_pointer \<Rightarrow> chain_state \<Rightarrow> (storage_pointer \<times> chain_state) option \<Rightarrow> disk \<Rightarrow> bool" where
  "committed J X p c prev d \<longleftrightarrow> stored J X d fast_pointer_file p c \<and>
     (case prev of Some (q, b) \<Rightarrow> stored J X d fast_previous_pointer_file q b | None \<Rightarrow> True)"

lemma stored_drop:
  "stored J X d path p c \<Longrightarrow> n \<notin> {path, ptr_state_file p, ptr_blocks_file p} \<Longrightarrow> stored J X (drop_fast n d) path p c"
  by (erule stored_agree) auto

lemma name_prefixes [simp]:
  "starts_with (state_file_name g r) ''state-''" "\<not> starts_with (blocks_file_name g) ''state-''"
  "starts_with (blocks_file_name g) ''blocks-''" "\<not> starts_with (state_file_name g r) ''blocks-''"
  "\<not> starts_with fast_pointer_file ''state-''" "\<not> starts_with fast_pointer_file ''blocks-''"
  "\<not> starts_with fast_previous_pointer_file ''state-''" "\<not> starts_with fast_previous_pointer_file ''blocks-''"
  by (simp_all add: starts_with_def state_file_name_def blocks_file_name_def control_files)

lemma committed_about_others:
  assumes "\<And>n. n \<in> N \<Longrightarrow> \<not> commit_file n"
  shows "about_others N (committed J X p c prev)"
proof -
  have a: "about_others N (\<lambda>d. stored J X d fast_pointer_file p c)" using assms by (intro stored_about_others) simp_all
  show ?thesis
  proof (cases prev)
    case None
    with a show ?thesis by (simp add: committed_def [abs_def])
  next
    case (Some qb)
    obtain q b where "qb = (q, b)" by (cases qb)
    moreover have "about_others N (\<lambda>d. stored J X d fast_previous_pointer_file q b)"
      using assms by (intro stored_about_others) simp_all
    ultimately show ?thesis using a Some by (simp add: committed_def [abs_def] about_others_conj)
  qed
qed

lemma committed_drop:
  assumes "committed J X p c prev d" and "starts_with n start"
    and "used = ptr_state_file \<and> start = ''state-'' \<or> used = ptr_blocks_file \<and> start = ''blocks-''"
    and "n \<noteq> used p" and "\<And>q b. prev = Some (q, b) \<Longrightarrow> n \<noteq> used q"
  shows "committed J X p c prev (drop_fast n d)"
proof -
  have keep: "stored J X (drop_fast n d) path q b"
    if s: "stored J X d path q b" and "n \<noteq> used q" and "path \<in> {fast_pointer_file, fast_previous_pointer_file}" for path q b
  proof (rule stored_drop [OF s])
    have "\<not> starts_with path start" using assms(3) that(3) by (elim disjE conjE insertE emptyE) simp_all
    then have "path \<noteq> n" using assms(2) by blast
    moreover have "n \<noteq> ptr_state_file q" "n \<noteq> ptr_blocks_file q"
      using assms(3) assms(2) that(2) by (elim disjE conjE; clarify; simp add: stored_names [OF s])+
    ultimately show "n \<notin> {path, ptr_state_file q, ptr_blocks_file q}" by simp
  qed
  show ?thesis
  proof (cases prev)
    case None
    with assms(1,4) keep [of fast_pointer_file p c] show ?thesis by (simp add: committed_def)
  next
    case (Some qb)
    obtain q b where "qb = (q, b)" by (cases qb)
    with Some assms(1,4,5) keep [of fast_pointer_file p c] keep [of fast_previous_pointer_file q b] show ?thesis
      by (simp add: committed_def)
  qed
qed

lemma cleanup_keeps:
  assumes "codec_ok J" and "used = ptr_state_file \<and> start = ''state-'' \<or> used = ptr_blocks_file \<and> start = ''blocks-''"
  shows "outcome (committed J X p c prev) (cleanup_old_files J E used start tail k p) (\<lambda>_. committed J X p c prev) R"
proof (rule outcomeI)
  fix d r e assume d: "committed J X p c prev d" and run: "cleanup_old_files J E used start tail k p d = (r, e)"
  let ?keep = "used p # (case Option.bind (fast_file d fast_previous_pointer_file) (pointer_parse J) of
      Some previous \<Rightarrow> [used previous] | None \<Rightarrow> [])"
  let ?newest = "sort_by (\<lambda>a b. ev_modified E b \<le> ev_modified E a)
      (filter (\<lambda>n. starts_with n start \<and> ends_with n tail) (sorted_list_of_fset (fmdom (dk_fast d))))"
  have prev: "used q \<in> set ?keep" if "prev = Some (q, b)" for q b
    using d that by (auto simp: committed_def stored_def codec_okD [OF assms(1)])
  have "outcome (committed J X p c prev)
      (se_for (\<lambda>n. se_ignore (remove_fast n)) (filter (\<lambda>n. n \<notin> set (?keep @ take k ?newest)) ?newest)) (\<lambda>_. committed J X p c prev) R"
  proof (rule outcome_for)
    fix n assume "n \<in> set (filter (\<lambda>n. n \<notin> set (?keep @ take k ?newest)) ?newest)"
    then have n: "starts_with n start" "n \<notin> set ?keep" by auto
    have u: "uncounted (committed J X p c prev)"
      by (rule about_others_uncounted [where N = "{}"], rule committed_about_others) simp
    have "committed J X p c prev (drop_fast n e)" if "committed J X p c prev e" for e
      using that n(1) assms(2) by (rule committed_drop) (use n(2) prev in auto)
    then show "outcome (committed J X p c prev) (se_ignore (remove_fast n)) (\<lambda>_. committed J X p c prev) R"
      unfolding remove_fast_def by (intro outcome_ignore outcome_attempt u)
  qed
  moreover have "se_for (\<lambda>n. se_ignore (remove_fast n)) (filter (\<lambda>n. n \<notin> set (?keep @ take k ?newest)) ?newest) d = (r, e)"
    using run by (simp only: cleanup_old_files_def Let_def)
  ultimately show "case r of Inr a \<Rightarrow> committed J X p c prev e | Inl _ \<Rightarrow> R e" using d unfolding outcome_def by blast
qed

section \<open>The order of writes\<close>

lemma uncounted_conj: "uncounted P \<Longrightarrow> uncounted Q \<Longrightarrow> uncounted (\<lambda>d. P d \<and> Q d)"
  and uncounted_journal: "uncounted (\<lambda>d. journal_holds J d n bs)"
  and uncounted_file: "uncounted (\<lambda>d. fast_file d n = v)"
  and uncounted_const: "uncounted (\<lambda>d. x)"
  by (simp_all add: uncounted_def journal_holds_def)

lemma uncounted_committed: "uncounted (committed J X p c prev)"
  by (rule about_others_uncounted [where N = "{}"], rule committed_about_others) simp

lemma uncounted_stored: "commit_file path \<Longrightarrow> uncounted (\<lambda>d. stored J X d path p c)"
  by (rule about_others_uncounted [where N = "{}"], rule stored_about_others) simp_all

lemmas uncounted_rules = uncounted_conj uncounted_journal uncounted_file uncounted_const uncounted_committed uncounted_stored

text \<open>What is known of the previous commit once \<open>PREVIOUS.json\<close> names it.\<close>

definition previous_stored ::
  "codec \<Rightarrow> extern \<Rightarrow> (storage_pointer \<times> chain_state) option \<Rightarrow> disk \<Rightarrow> bool" where
  "previous_stored J X prev d = (case prev of Some (q, b) \<Rightarrow> stored J X d fast_previous_pointer_file q b | None \<Rightarrow> True)"

lemma uncounted_previous: "uncounted (previous_stored J X prev)"
  by (cases prev) (auto simp: previous_stored_def [abs_def] uncounted_const intro: uncounted_stored)

lemma previous_put_pointer: "previous_stored J X prev d \<Longrightarrow> previous_stored J X prev (put_fast fast_pointer_file b d)"
proof (cases prev)
  case (Some qb)
  moreover obtain q c where "qb = (q, c)" by (cases qb)
  moreover assume "previous_stored J X prev d"
  ultimately have s: "stored J X d fast_previous_pointer_file q c" by (simp add: previous_stored_def)
  have "stored J X (put_fast fast_pointer_file b d) fast_previous_pointer_file q c"
    by (rule stored_agree [OF s]) (auto simp: stored_names [OF s])
  with Some \<open>qb = (q, c)\<close> show ?thesis by (simp add: previous_stored_def)
qed (simp add: previous_stored_def)

text \<open>
  Whatever \<open>old\<close> says about the disk before, if a new state file does not disturb it and the old
  pointer may be written to \<open>PREVIOUS.json\<close>, then either \<open>old\<close> still holds or both commits are there.
\<close>

lemma write_state_and_pointer_outcome:
  assumes J: "codec_ok J" and p: "commit_pointer J X c p s" "ptr_committed_at_unix p = ev_now_secs E"
    and old: "uncounted old" "\<And>d b. old d \<Longrightarrow> old (put_fast (ptr_state_file p) b d)"
      "\<And>d q b. prev = Some (q, b) \<Longrightarrow> old d \<Longrightarrow> old (put_fast fast_previous_pointer_file (pointer_json J q) d) \<and>
        stored J X (put_fast fast_previous_pointer_file (pointer_json J q) d) fast_previous_pointer_file q b"
  shows "outcome (\<lambda>d. old d \<and> journal_holds J d (ptr_blocks_file p) (cs_blocks c))
    (write_state_and_pointer J X E (map_option fst prev) (ptr_blocks_file p) s)
    (\<lambda>q d. q = p \<and> committed J X p c prev d) (\<lambda>d. old d \<or> committed J X p c prev d)"
proof -
  note f = commit_fields [OF p(1)]
  have names: "state_file_name (fst_generation s) (fst_state_revision s) = ptr_state_file p"
    using f by simp
  have ptr: "pointer_from_state (ptr_blocks_file p) (ptr_state_file p) (sha256_hex X (state_json J s)) (ev_now_secs E) s = p"
    using p f(4,5) by (simp add: commit_pointer_def)
  let ?J = "\<lambda>d. journal_holds J d (ptr_blocks_file p) (cs_blocks c)"
  let ?S = "\<lambda>d. fast_file d (ptr_state_file p) = Some (state_json J s)"
  let ?R = "\<lambda>d. old d \<or> committed J X p c prev d"
  have u: "uncounted (\<lambda>d. old d \<and> ?J d)" "uncounted (\<lambda>d. (old d \<and> ?J d) \<and> ?S d)"
    "uncounted (\<lambda>d. ((old d \<and> ?J d) \<and> ?S d) \<and> previous_stored J X prev d)"
    by (intro uncounted_rules old(1) uncounted_previous)+
  have safe: "safe_child (ptr_state_file p) = Inr (ptr_state_file p)" using f by simp
  have differ: "ptr_blocks_file p \<noteq> ptr_state_file p" "ptr_blocks_file p \<noteq> fast_pointer_file" "ptr_state_file p \<noteq> fast_pointer_file"
    "ptr_blocks_file p \<noteq> fast_previous_pointer_file" "ptr_state_file p \<noteq> fast_previous_pointer_file"
    using f by simp_all
  have state: "outcome (\<lambda>d. old d \<and> ?J d) (replace_fast (ptr_state_file p) (state_json J s)) (\<lambda>_ d. (old d \<and> ?J d) \<and> ?S d) ?R"
    unfolding replace_fast_def by (rule outcome_attempt [OF u(1)]) (use old(2) differ in \<open>auto simp: journal_holds_def\<close>)
  have prevw: "outcome (\<lambda>d. (old d \<and> ?J d) \<and> ?S d)
      (case map_option fst prev of Some p \<Rightarrow> replace_fast fast_previous_pointer_file (pointer_json J p) | None \<Rightarrow> se_return ())
      (\<lambda>_ d. ((old d \<and> ?J d) \<and> ?S d) \<and> previous_stored J X prev d) ?R"
  proof (cases prev)
    case None
    then show ?thesis by (simp add: outcome_return previous_stored_def)
  next
    case (Some qb)
    obtain q b where qb: "qb = (q, b)" by (cases qb)
    have "outcome (\<lambda>d. (old d \<and> ?J d) \<and> ?S d) (attempt (put_fast fast_previous_pointer_file (pointer_json J q)))
        (\<lambda>_ d. ((old d \<and> ?J d) \<and> ?S d) \<and> previous_stored J X prev d) ?R"
      by (rule outcome_attempt [OF u(2)]) (use old(3) Some qb differ in \<open>auto simp: journal_holds_def previous_stored_def\<close>)
    then show ?thesis by (simp add: Some qb replace_fast_def)
  qed
  have current: "outcome (\<lambda>d. ((old d \<and> ?J d) \<and> ?S d) \<and> previous_stored J X prev d)
      (replace_fast fast_pointer_file (pointer_json J p)) (\<lambda>_. committed J X p c prev) ?R"
    unfolding replace_fast_def
  proof (rule outcome_attempt [OF u(3)])
    fix d assume d: "((old d \<and> ?J d) \<and> ?S d) \<and> previous_stored J X prev d"
    then have "stored J X (put_fast fast_pointer_file (pointer_json J p) d) fast_pointer_file p c"
      using p(1) differ by (auto simp: stored_def journal_holds_def)
    with d previous_put_pointer show "committed J X p c prev (put_fast fast_pointer_file (pointer_json J p) d)"
      by (simp add: committed_def previous_stored_def)
  qed blast
  have clean: "outcome (committed J X p c prev) (cleanup_old_state_files J E p) (\<lambda>_. committed J X p c prev) ?R"
    "outcome (committed J X p c prev) (cleanup_old_journal_files J E p) (\<lambda>_. committed J X p c prev) ?R"
    unfolding cleanup_old_state_files_def cleanup_old_journal_files_def by (rule cleanup_keeps [OF J]; simp)+
  show ?thesis
    unfolding write_state_and_pointer_def Let_def names safe se_need_Inr ptr
    by (rule outcome_then [OF state], rule outcome_then [OF prevw], rule outcome_then [OF current],
        rule outcome_then [OF clean(1)], rule outcome_then [OF clean(2)], rule outcome_return) simp
qed

end
