(* ===== verification/FastAtomic.thy ===== *)
theory FastAtomic
  imports FastSafety
begin

text \<open>
  Whole commits of the Fast Chain Engine: appending to the journal or starting a new one, the first
  commit of a node, and any sequence of commits with any failures. Blocks with the same hash are
  assumed to be the same block (\<open>no_hash_collision\<close>): the engine appends when the hash of its tip is
  in the candidate.
\<close>

section \<open>Chains that continue each other\<close>

definition no_hash_collision :: "extern \<Rightarrow> block list \<Rightarrow> block list \<Rightarrow> bool" where
  "no_hash_collision X bs cs \<longleftrightarrow> (\<forall>b \<in> set bs. \<forall>c \<in> set cs. block_hash X b = block_hash X c \<longrightarrow> b = c)"

lemma valid_chain_link:
  "valid_chain X S bs u \<Longrightarrow> Suc i < length bs \<Longrightarrow> hdr_prev_block_hash (blk_header (bs ! Suc i)) = block_hash X (bs ! i)"
proof (induction rule: valid_chain.induct)
  case (extend bs u b ids v)
  show ?case
  proof (cases "Suc i = length bs")
    case True
    from check_and_apply_Inr(1) [OF extend(2)] obtain bits
      where "validate_block X b u (block_hash X (last bs)) (of_nat (length bs)) bits S = Inr ids" by blast
    then have "hdr_prev_block_hash (blk_header b) = block_hash X (last bs)" by (rule validate_block_Inr)
    moreover have "last bs = bs ! i" using True by (cases bs rule: rev_cases) (auto simp: nth_append)
    ultimately show ?thesis using True by (simp add: nth_append)
  next
    case False
    with extend show ?thesis by (simp add: nth_append)
  qed
qed simp

lemma same_prefix:
  assumes v: "valid_chain X S bs u" "valid_chain X S cs v" and len: "length bs \<le> length cs"
    and tip: "block_hash X (cs ! (length bs - 1)) = block_hash X (last bs)" and nc: "no_hash_collision X bs cs"
  shows "take (length bs) cs = bs"
proof -
  note ne = valid_chain_nonempty [OF v(1)]
  have same: "bs ! i = cs ! i" if "i < length bs" "block_hash X (bs ! i) = block_hash X (cs ! i)" for i
    using nc that len unfolding no_hash_collision_def by (meson nth_mem order_less_le_trans)
  have down: "k < length bs \<Longrightarrow> bs ! (length bs - 1 - k) = cs ! (length bs - 1 - k)" for k
  proof (induction k)
    case 0
    then show ?case using same [of "length bs - 1"] tip ne by (simp add: last_conv_nth)
  next
    case (Suc k)
    let ?i = "length bs - 1 - Suc k"
    have i: "Suc ?i = length bs - 1 - k" "Suc ?i < length bs" using Suc.prems by auto
    have "hdr_prev_block_hash (blk_header (bs ! Suc ?i)) = block_hash X (bs ! ?i)" by (rule valid_chain_link [OF v(1) i(2)])
    moreover have "hdr_prev_block_hash (blk_header (cs ! Suc ?i)) = block_hash X (cs ! ?i)"
      by (rule valid_chain_link [OF v(2)]) (use i(2) len in simp)
    moreover have "bs ! Suc ?i = cs ! Suc ?i" unfolding i(1) using Suc by simp
    ultimately show ?case using same [of ?i] i(2) by simp
  qed
  have "bs ! i = cs ! i" if "i < length bs" for i using down [of "length bs - 1 - i"] that by simp
  then show ?thesis using len by (intro nth_equalityI) simp_all
qed

lemma extends_committed_prefix:
  assumes "extends_committed X c' p" and "commit_pointer J X c p s" and "storable X S c" and "storable X S c'"
    and "no_hash_collision X (cs_blocks c) (cs_blocks c')"
  shows "cs_blocks c @ drop (unat (ptr_committed_height p) + 1) (cs_blocks c') = cs_blocks c'"
proof -
  note f = commit_fields [OF assms(2)]
  have h: "unat (chain_height c) = length (cs_blocks c) - 1" "cs_blocks c \<noteq> []"
    using storable_height [OF assms(3)] storable_nonempty [OF assms(3)] by simp_all
  from assms(1) f h have "length (cs_blocks c) \<le> length (cs_blocks c')"
    "block_hash X (cs_blocks c' ! (length (cs_blocks c) - 1)) = block_hash X (last (cs_blocks c))"
    by (auto simp: extends_committed_def)
  with assms(3-5) have "take (length (cs_blocks c)) (cs_blocks c') = cs_blocks c"
    unfolding storable_def chain_ok_def by (intro same_prefix) blast+
  moreover have "unat (ptr_committed_height p) + 1 = length (cs_blocks c)" using f h by (simp add: Suc_leI)
  ultimately show ?thesis by (metis append_take_drop_id)
qed

section \<open>The journal of a commit\<close>

text \<open>Every commit has a state file of its own.\<close>

definition advances :: "storage_pointer \<Rightarrow> u64 \<Rightarrow> u64 \<Rightarrow> bool" where
  "advances p g r \<longleftrightarrow>
     g = ptr_generation p \<and> unat r = unat (ptr_state_revision p) + 1 \<or> unat g = unat (ptr_generation p) + 1 \<and> r = 1"

lemma sat_add_one: "unat w + 1 < 2 ^ 64 \<Longrightarrow> unat (sat_add w (1 :: u64)) = unat w + 1"
  by (simp add: unat_sat_add)

definition journal_done ::
  "codec \<Rightarrow> chain_state \<Rightarrow> storage_pointer \<Rightarrow> u64 \<times> u64 \<times> string \<times> nat \<Rightarrow> disk \<Rightarrow> bool" where
  "journal_done J c p = (\<lambda>(g, r, blocks_file, bytes) d.
     blocks_file = blocks_file_name g \<and> bytes = length (journal_text J (cs_blocks c)) \<and>
     journal_holds J d blocks_file (cs_blocks c) \<and> advances p g r)"

lemma append_journal_outcome:
  assumes "blocks @ tail = blocks'"
  shows "outcome (\<lambda>d. stored J X d fast_pointer_file p c \<and> cs_blocks c = blocks)
    (append_journal J (ptr_blocks_file p) (ptr_journal_bytes p) tail)
    (\<lambda>n d. stored J X d fast_pointer_file p c \<and> n = length (journal_text J blocks') \<and>
      journal_holds J d (ptr_blocks_file p) blocks')
    (\<lambda>d. stored J X d fast_pointer_file p c)"
proof (rule outcomeI)
  fix d r e
  let ?n = "ptr_blocks_file p" and ?k = "ptr_journal_bytes p"
  assume P: "stored J X d fast_pointer_file p c \<and> cs_blocks c = blocks" and run: "append_journal J ?n ?k tail d = (r, e)"
  from P obtain s rest where cp: "commit_pointer J X c p s"
    and content: "fast_file d ?n = Some (journal_text J blocks @ rest)" by (auto simp: stored_def journal_holds_def)
  have keep: "stored J X d' fast_pointer_file p c"
    if "\<And>m. m \<noteq> ?n \<Longrightarrow> fast_file d' m = fast_file d m" "fast_file d' ?n = Some (journal_text J blocks @ rest')" for d' rest'
  proof (rule stored_change)
    show "stored J X d fast_pointer_file p c" using P by simp
    show "fast_file d' fast_pointer_file = fast_file d fast_pointer_file"
      "fast_file d' (ptr_state_file p) = fast_file d (ptr_state_file p)"
      using that(1) commit_pointer_fields(4,5) [OF cp] by simp_all
    show "journal_holds J d' ?n (cs_blocks c)" using P that(2) by (simp add: journal_holds_def)
  qed
  have k: "?k = length (journal_text J blocks)" using commit_pointer_fields(7) [OF cp] P by simp
  let ?cut = "if length (journal_text J blocks @ rest) > ?k then truncate_fast ?n ?k else se_return ()"
  obtain r1 d1 where cut: "?cut d = (r1, d1)" by (cases "?cut d")
  have d1: "(\<forall>m. m \<noteq> ?n \<longrightarrow> fast_file d1 m = fast_file d m) \<and>
      (r1 = Inr () \<and> fast_file d1 ?n = Some (journal_text J blocks) \<or> r1 \<noteq> Inr () \<and> fast_file d1 ?n = fast_file d ?n)"
    using cut content k by (cases rest) (auto simp: truncate_fast_def se_return_def elim!: attempt_cases)
  have body: "append_journal J ?n ?k tail d = se_then ?cut (se_then (append_fast ?n (journal_text J tail))
      (se_need (\<lambda>d. Inr (length (the (fast_file d ?n)))))) d"
    using content k by (simp add: append_journal_def se_bind_def se_need_def ok_or_def)
  show "case r of Inr a \<Rightarrow> stored J X e fast_pointer_file p c \<and> a = length (journal_text J blocks') \<and> journal_holds J e ?n blocks'
    | Inl _ \<Rightarrow> stored J X e fast_pointer_file p c"
  proof (cases "r1 = Inr ()")
    case False
    then have "r1 = Inl (projl r1)" "e = d1" "\<exists>x. r = Inl x" using run body cut
      by (cases r1; auto simp: se_then_def se_bind_def)+
    with d1 False content keep [of d1 rest] show ?thesis by auto
  next
    case True
    with d1 have f1: "fast_file d1 ?n = Some (journal_text J blocks)" by simp
    obtain r2 d2 where ap: "append_fast ?n (journal_text J tail) d1 = (r2, d2)" by (cases "append_fast ?n (journal_text J tail) d1")
    from append_fast_prefix [OF ap f1] obtain k where k: "fast_file d2 ?n = Some (journal_text J blocks @ take k (journal_text J tail))"
      "r2 = Inr () \<Longrightarrow> k = length (journal_text J tail)" "\<And>m. m \<noteq> ?n \<Longrightarrow> fast_file d2 m = fast_file d1 m" by metis
    have st: "stored J X d2 fast_pointer_file p c" using k(1,3) d1 by (intro keep [where rest' = "take k (journal_text J tail)"]) auto
    show ?thesis
    proof (cases r2)
      case (Inl x)
      then have "r = Inl x" "e = d2" using run body cut True ap by (simp_all add: se_then_def se_bind_def)
      with st show ?thesis by simp
    next
      case (Inr x)
      with k(1,2) have f2: "fast_file d2 ?n = Some (journal_text J blocks')" using assms by (simp flip: assms)
      then have "r = Inr (length (journal_text J blocks'))" "e = d2"
        using Inr run body cut True ap by (simp_all add: se_then_def se_bind_def se_need_def)
      with st f2 show ?thesis by (simp add: journal_holds_def)
    qed
  qed
qed

lemma outcome_by: "(\<And>d. P d \<Longrightarrow> outcome P m Q R) \<Longrightarrow> outcome P m Q R"
  unfolding outcome_def by blast

lemma commit_journal_outcome:
  assumes ok: "storable X S c" "storable X S c'" "no_hash_collision X (cs_blocks c) (cs_blocks c')"
    and room: "unat (ptr_generation p) + 1 < 2 ^ 64" "unat (ptr_state_revision p) + 1 < 2 ^ 64"
  shows "outcome (\<lambda>d. stored J X d fast_pointer_file p c) (commit_journal J X E c' (Some p))
    (\<lambda>x d. stored J X d fast_pointer_file p c \<and> journal_done J c' p x d) (\<lambda>d. stored J X d fast_pointer_file p c)"
proof (rule outcome_by)
  fix d assume d: "stored J X d fast_pointer_file p c"
  then obtain s where cp: "commit_pointer J X c p s" by (auto simp: stored_def)
  have name: "ptr_blocks_file p = blocks_file_name (ptr_generation p)" by (rule stored_names(1) [OF d])
  show ?thesis
  proof (cases "extends_committed X c' p")
    case True
    note ap = append_journal_outcome [OF extends_committed_prefix [OF True cp ok], of J X p c]
    have "outcome (\<lambda>d. stored J X d fast_pointer_file p c) (append_journal J (ptr_blocks_file p) (ptr_journal_bytes p)
          (drop (unat (ptr_committed_height p) + 1) (cs_blocks c')))
        (\<lambda>n d. stored J X d fast_pointer_file p c \<and> n = length (journal_text J (cs_blocks c')) \<and>
          journal_holds J d (ptr_blocks_file p) (cs_blocks c')) (\<lambda>d. stored J X d fast_pointer_file p c)"
      by (rule outcome_pre [OF ap]) simp
    then show ?thesis using True name sat_add_one [OF room(2)]
      by (auto simp: commit_journal_def Let_def se_need_Inr journal_done_def advances_def intro!: outcome_return elim!: outcome_bind)
  next
    case False
    let ?g = "sat_add (ptr_generation p) 1"
    have g: "unat ?g = unat (ptr_generation p) + 1" by (rule sat_add_one [OF room(1)])
    then have other: "blocks_file_name ?g \<noteq> ptr_blocks_file p" using name by auto
    have keep: "stored J X (put_fast (blocks_file_name ?g) t e) fast_pointer_file p c"
      if e: "stored J X e fast_pointer_file p c" for e t
      by (rule stored_agree [OF e]) (use other stored_names(2) [OF e] in auto)
    have "outcome (\<lambda>d. stored J X d fast_pointer_file p c) (replace_fast (blocks_file_name ?g) (journal_text J (cs_blocks c')))
      (\<lambda>_ d. stored J X d fast_pointer_file p c \<and> journal_holds J d (blocks_file_name ?g) (cs_blocks c'))
      (\<lambda>d. stored J X d fast_pointer_file p c)"
      unfolding replace_fast_def
      by (rule outcome_attempt) (auto intro: uncounted_stored keep simp: journal_holds_def)
    then have "outcome (\<lambda>d. stored J X d fast_pointer_file p c) (write_full_journal J (blocks_file_name ?g) (cs_blocks c'))
      (\<lambda>n d. (stored J X d fast_pointer_file p c \<and> journal_holds J d (blocks_file_name ?g) (cs_blocks c')) \<and>
        n = length (journal_text J (cs_blocks c'))) (\<lambda>d. stored J X d fast_pointer_file p c)"
      unfolding write_full_journal_def by (rule outcome_then) (simp add: outcome_return)
    then show ?thesis using False g
      by (auto simp: commit_journal_def Let_def se_need_Inr journal_done_def advances_def intro!: outcome_return elim!: outcome_bind)
  qed
qed

section \<open>A commit is atomic\<close>

text \<open>The candidate may replace the commit and is on the disk in its place, which \<open>PREVIOUS.json\<close> keeps.\<close>

definition replaced ::
  "codec \<Rightarrow> extern \<Rightarrow> settings \<Rightarrow> fast_commit_policy \<Rightarrow> storage_pointer \<Rightarrow> chain_state \<Rightarrow> chain_state \<Rightarrow>
    storage_pointer \<Rightarrow> disk \<Rightarrow> bool" where
  "replaced J X S policy p c c' p' d \<longleftrightarrow>
     committed J X p' c' (Some (p, c)) d \<and> advances p (ptr_generation p') (ptr_state_revision p') \<and>
     ensure_candidate_not_behind_committed J X S c' p policy = Inr ()"

lemma state_from_chain_pointer:
  assumes "state_from_chain J X c g r n = Inr s" and "n = length (journal_text J (cs_blocks c))"
    and "p = pointer_from_state (blocks_file_name g) (state_file_name g r) (sha256_hex X (state_json J s)) now s"
  shows "commit_pointer J X c p s" "ptr_generation p = g" "ptr_state_revision p = r" "ptr_committed_at_unix p = now"
proof -
  have s: "fst_generation s = g" "fst_state_revision s = r" "fst_journal_bytes s = n"
    using assms(1) by (auto simp: state_from_chain_def Let_def result_simps split: if_split_asm)
  show "ptr_generation p = g" "ptr_state_revision p = r" "ptr_committed_at_unix p = now"
    by (simp_all add: assms(3) pointer_from_state_def s)
  then show "commit_pointer J X c p s"
    using assms s by (simp add: commit_pointer_def commit_state_def) (simp add: pointer_from_state_def)
qed

lemma write_commit_outcome:
  assumes J: "codec_ok J" and x: "x = (g, r, blocks_file, n)" and s: "state_from_chain J X c' g r n = Inr s"
    and e: "ensure_candidate_not_behind_committed J X S c' p policy = Inr ()"
  shows "outcome (\<lambda>d. stored J X d fast_pointer_file p c \<and> journal_done J c' p x d)
    (write_state_and_pointer J X E (Some p) blocks_file s) (\<lambda>q d. replaced J X S policy p c c' q d)
    (\<lambda>d. stored J X d fast_pointer_file p c \<or> (\<exists>q. replaced J X S policy p c c' q d))"
proof (rule outcome_by)
  fix d assume d: "stored J X d fast_pointer_file p c \<and> journal_done J c' p x d"
  let ?q = "pointer_from_state (blocks_file_name g) (state_file_name g r) (sha256_hex X (state_json J s)) (ev_now_secs E) s"
  from d x have n: "n = length (journal_text J (cs_blocks c'))" and b: "blocks_file = blocks_file_name g" and adv: "advances p g r"
    by (auto simp: journal_done_def)
  note q = state_from_chain_pointer [OF s n refl, of "ev_now_secs E"]
  note f = commit_fields [OF q(1)]
  have other: "ptr_state_file ?q \<noteq> ptr_state_file p" "ptr_state_file ?q \<noteq> fast_pointer_file" "ptr_state_file ?q \<noteq> ptr_blocks_file p"
    using f(5) q(2,3) adv stored_names [of J X d fast_pointer_file p c] d by (auto simp: advances_def)
  have w: "outcome (\<lambda>d. stored J X d fast_pointer_file p c \<and> journal_holds J d (ptr_blocks_file ?q) (cs_blocks c'))
      (write_state_and_pointer J X E (map_option fst (Some (p, c))) (ptr_blocks_file ?q) s)
      (\<lambda>q d. q = ?q \<and> committed J X ?q c' (Some (p, c)) d)
      (\<lambda>d. stored J X d fast_pointer_file p c \<or> committed J X ?q c' (Some (p, c)) d)"
  proof (rule write_state_and_pointer_outcome [OF J q(1,4)])
    show "uncounted (\<lambda>d. stored J X d fast_pointer_file p c)" by (rule uncounted_stored) simp
    show "stored J X (put_fast (ptr_state_file ?q) t e) fast_pointer_file p c" if st: "stored J X e fast_pointer_file p c" for e t
      by (rule stored_agree [OF st]) (use other in auto)
    fix e q b assume eq: "Some (p, c) = Some (q, b)" and st: "stored J X e fast_pointer_file p c"
    let ?e = "put_fast fast_previous_pointer_file (pointer_json J p) e"
    have "stored J X ?e fast_pointer_file p c" by (rule stored_agree [OF st]) (auto simp: stored_names [OF st])
    then have "stored J X ?e fast_previous_pointer_file p c" by (simp add: stored_def)
    with \<open>stored J X ?e fast_pointer_file p c\<close> eq
    show "stored J X (put_fast fast_previous_pointer_file (pointer_json J q) e) fast_pointer_file p c \<and>
        stored J X (put_fast fast_previous_pointer_file (pointer_json J q) e) fast_previous_pointer_file q b" by simp
  qed
  have bq: "ptr_blocks_file ?q = blocks_file" using b f(4) q(2) by simp
  have new: "replaced J X S policy p c c' ?q d" if "committed J X ?q c' (Some (p, c)) d" for d
    using that adv q(2,3) e by (simp add: replaced_def)
  show "outcome (\<lambda>d. stored J X d fast_pointer_file p c \<and> journal_done J c' p x d)
    (write_state_and_pointer J X E (Some p) blocks_file s) (\<lambda>q d. replaced J X S policy p c c' q d)
    (\<lambda>d. stored J X d fast_pointer_file p c \<or> (\<exists>q. replaced J X S policy p c c' q d))"
    by (rule outcome_pre [OF outcome_post [OF w [unfolded bq option.map prod.sel]]])
      (use new in \<open>auto simp: x journal_done_def b\<close>)
qed

text \<open>The lock, the status file and the export are other files.\<close>

lemma touches_state:
  "touches_only N m \<Longrightarrow> touches_only N k \<Longrightarrow> touches_only N (\<lambda>d. if c d then m d else k d)"
  by (simp add: touches_only_def)

lemma touches_append: "n \<in> N \<Longrightarrow> touches_only N (append_fast n body)"
  unfolding append_fast_def by (intro touches)

lemma touches_lease: "touches_only {fast_storage_lock_file} (acquire_lease E n)"
proof (induction n)
  case 0
  show ?case by (simp add: touches)
next
  case (Suc n)
  have "touches_only {fast_storage_lock_file} (se_then (replace_fast fast_storage_lock_file []) (append_fast fast_storage_lock_file (lock_text E)))"
    by (intro touches touches_append) simp_all
  moreover have "touches_only {fast_storage_lock_file} (se_then (se_ignore (remove_fast fast_storage_lock_file)) (acquire_lease E n))"
    by (intro touches Suc) simp
  moreover have "touches_only {fast_storage_lock_file} (\<lambda>d. (Inl (StorageErr SLockActive), d))" by (simp add: touches_only_def)
  ultimately show ?case by (auto simp: touches_only_def)
qed

lemma touches_status: "touches_only N (write_status_from_pointer J E p)"
  unfolding write_status_from_pointer_def by (intro touches)

lemma touches_export: "touches_only N (export_chain_json_to J X S out)"
  unfolding export_chain_json_to_def by (intro touches) (simp split: prod.split add: touches)

lemma touches_refresh: "touches_only {fast_legacy_export_status_file} (maybe_refresh_legacy_export J X S E c p)"
  unfolding maybe_refresh_legacy_export_def by (intro touches_state touches touches_export) simp

lemma outcome_lease:
  assumes m: "outcome P m Q R" and P: "about_others {fast_storage_lock_file} P"
    and Q: "\<And>a. about_others {fast_storage_lock_file} (Q a)" and R: "about_others {fast_storage_lock_file} R"
    and "\<And>d. P d \<Longrightarrow> R d"
  shows "outcome P (with_lease E m) Q R"
  unfolding with_lease_def
proof (rule outcome_then [OF outcome_touches [OF touches_lease P assms(5)]], assumption, rule outcomeI)
  fix d r e assume p: "P d" and run: "(case m d of (r, e) \<Rightarrow> (r, snd (remove_fast fast_storage_lock_file e))) = (r, e)"
  obtain d1 where d1: "m d = (r, d1)" and e: "e = snd (remove_fast fast_storage_lock_file d1)" using run by (cases "m d") auto
  have others: "\<forall>n. n \<notin> {fast_storage_lock_file} \<longrightarrow> fast_file e n = fast_file d1 n"
    using touches_basic(2) [of fast_storage_lock_file "{fast_storage_lock_file}"] e by (simp add: touches_only_def)
  show "case r of Inr a \<Rightarrow> Q a e | Inl _ \<Rightarrow> R e"
  proof (cases r)
    case (Inl x)
    with outcomeD(2) [OF m p d1 Inl] R others show ?thesis unfolding about_others_def by (metis sum.case(1))
  next
    case (Inr a)
    with outcomeD(1) [OF m p d1 Inr] Q [of a] others show ?thesis unfolding about_others_def by (metis sum.case(2))
  qed
qed

lemma replaced_about_others:
  "(\<And>n. n \<in> N \<Longrightarrow> \<not> commit_file n) \<Longrightarrow> about_others N (replaced J X S policy p c c' q)"
  unfolding replaced_def [abs_def] by (intro about_others_conj committed_about_others) (auto simp: about_others_def)

lemma about_others_ex: "(\<And>q. about_others N (P q)) \<Longrightarrow> about_others N (\<lambda>d. \<exists>q. P q d)"
  unfolding about_others_def by blast

lemma about_others_disj: "about_others N P \<Longrightarrow> about_others N Q \<Longrightarrow> about_others N (\<lambda>d. P d \<or> Q d)"
  unfolding about_others_def by blast

lemma current_commit_stored:
  assumes "stored J X d fast_pointer_file p c" and "storable X S c" and "codec_ok J"
  shows "current_commit J X S c' policy d = rbind (ensure_candidate_not_behind_committed J X S c' p policy) (\<lambda>_. Inr (Some p))"
proof -
  from stored_reads [OF assms] obtain s
    where "read_pointer_state_with_recovery J X S d = Inr ((p, s, length (state_json J s)), False)" .
  moreover have "fast_storage_exists d" using assms(1) by (auto simp: fast_storage_exists_def stored_def)
  ultimately show ?thesis by (simp add: current_commit_def)
qed

lemma commit_outcome:
  assumes J: "codec_ok J" and ok: "storable X S c" "storable X S c'" "no_hash_collision X (cs_blocks c) (cs_blocks c')"
    and room: "unat (ptr_generation p) + 1 < 2 ^ 64" "unat (ptr_state_revision p) + 1 < 2 ^ 64"
  shows "outcome (\<lambda>d. stored J X d fast_pointer_file p c) (commit_chain_with_policy J X S E c' policy)
    (\<lambda>i d. \<exists>q. i = pointer_identity q \<and> replaced J X S policy p c c' q d)
    (\<lambda>d. stored J X d fast_pointer_file p c \<or> (\<exists>q. replaced J X S policy p c c' q d))"
proof -
  let ?old = "\<lambda>d. stored J X d fast_pointer_file p c" and ?new = "replaced J X S policy p c c'"
  let ?R = "\<lambda>d. ?old d \<or> (\<exists>q. ?new q d)" and ?e = "ensure_candidate_not_behind_committed J X S c' p policy"
  have current: "outcome ?old (se_need (current_commit J X S c' policy)) (\<lambda>a d. (a = Some p \<and> ?e = Inr ()) \<and> ?old d) ?R"
    by (rule outcome_need) (auto simp: current_commit_stored [OF _ ok(1) J] result_simps)
  have journal: "outcome (\<lambda>d. (a = Some p \<and> ?e = Inr ()) \<and> ?old d) (commit_journal J X E c' a)
      (\<lambda>x d. ?e = Inr () \<and> a = Some p \<and> ?old d \<and> journal_done J c' p x d) ?R" for a
    by (rule outcome_and_pure) (use outcome_post [OF commit_journal_outcome [OF ok room]] in auto)
  have state: "outcome (\<lambda>d. ?e = Inr () \<and> a = Some p \<and> ?old d \<and> journal_done J c' p (g, r, b, n) d)
      (se_need (\<lambda>_. state_from_chain J X c' g r n))
      (\<lambda>s d. (?e = Inr () \<and> a = Some p \<and> state_from_chain J X c' g r n = Inr s) \<and> ?old d \<and> journal_done J c' p (g, r, b, n) d) ?R"
    for a g r b n by (rule outcome_need) auto
  have "outcome (\<lambda>d. (?e = Inr () \<and> a = Some p \<and> state_from_chain J X c' g r n = Inr s) \<and> ?old d \<and> journal_done J c' p (g, r, b, n) d)
      (write_state_and_pointer J X E a b s) (\<lambda>q. ?new q) ?R" for a g r b n s
    by (rule outcome_and_pure) (use write_commit_outcome [OF J refl] in auto)
  note writes = this
  have status: "outcome (?new q) (write_status_from_pointer J E q) (\<lambda>_. ?new q) ?R" for q
    by (rule outcome_touches [OF touches_status [of "{}"] replaced_about_others]) auto
  have refresh: "outcome (?new q) (maybe_refresh_legacy_export J X S E c' q) (\<lambda>_. ?new q) ?R" for q
    by (rule outcome_touches [OF touches_refresh replaced_about_others]) auto
  let ?Q = "\<lambda>i d. \<exists>q. i = pointer_identity q \<and> ?new q d"
  have tail: "outcome (?new q) (se_then (write_status_from_pointer J E q) (se_then (maybe_refresh_legacy_export J X S E c' q)
      (se_return (pointer_identity q)))) ?Q ?R" for q
    by (rule outcome_then [OF status], rule outcome_then [OF refresh], rule outcome_return) blast
  show ?thesis unfolding commit_chain_with_policy_def
  proof (rule outcome_lease)
    show "outcome ?old (se_bind (se_need (current_commit J X S c' policy)) (\<lambda>current.
       se_bind (commit_journal J X E c' current) (\<lambda>(generation, state_revision, blocks_file, journal_bytes).
       se_bind (se_need (\<lambda>_. state_from_chain J X c' generation state_revision journal_bytes)) (\<lambda>s.
       se_bind (write_state_and_pointer J X E current blocks_file s) (\<lambda>pointer.
       se_then (write_status_from_pointer J E pointer) (se_then (maybe_refresh_legacy_export J X S E c' pointer)
      (se_return (pointer_identity pointer)))))))) ?Q ?R"
      by (rule outcome_bind [OF current], rule outcome_bind [OF journal], clarify,
          rule outcome_bind [OF state], rule outcome_bind [OF writes], rule tail)
  qed (auto intro!: about_others_disj about_others_ex stored_about_others replaced_about_others about_others_conj simp: about_others_def [where P = "\<lambda>_. _ = _"])
qed

end
