(* ===== verification/FastDurable.thy ===== *)
theory FastDurable
  imports FastAtomic
begin

text \<open>
  Sequences of \<open>save_chain\<close> calls, each with its own clock and its own failing writes, from a data
  directory without a Fast Chain Engine: a chain whose save returned is what a later start loads,
  unless a later save replaced it with a chain of at least its work.
\<close>

section \<open>The first commit\<close>

definition no_storage :: "disk \<Rightarrow> bool" where
  "no_storage d \<longleftrightarrow> fast_file d fast_pointer_file = None \<and> fast_file d fast_previous_pointer_file = None"

lemma no_storage_iff: "no_storage d \<longleftrightarrow> \<not> fast_storage_exists d"
  by (simp add: no_storage_def fast_storage_exists_def)

lemma no_storage_about_others: "(\<And>n. n \<in> N \<Longrightarrow> \<not> commit_file n) \<Longrightarrow> about_others N no_storage"
  unfolding about_others_def no_storage_def by (metis commit_file_simps(1,2))

definition first_committed ::
  "codec \<Rightarrow> extern \<Rightarrow> store_env \<Rightarrow> chain_state \<Rightarrow> storage_pointer \<Rightarrow> disk \<Rightarrow> bool" where
  "first_committed J X E c p d \<longleftrightarrow>
     committed J X p c None d \<and> ptr_generation p = max (ev_now_nanos E) 1 \<and> ptr_state_revision p = 1"

lemma first_committed_about_others:
  "(\<And>n. n \<in> N \<Longrightarrow> \<not> commit_file n) \<Longrightarrow> about_others N (first_committed J X E c q)"
  unfolding first_committed_def [abs_def] by (intro about_others_conj committed_about_others) (auto simp: about_others_def)

lemma first_write_outcome:
  assumes J: "codec_ok J" and s: "state_from_chain J X c (max (ev_now_nanos E) 1) 1 n = Inr s"
    and n: "n = length (journal_text J (cs_blocks c))"
  shows "outcome (\<lambda>d. no_storage d \<and> journal_holds J d (blocks_file_name (max (ev_now_nanos E) 1)) (cs_blocks c))
    (write_state_and_pointer J X E None (blocks_file_name (max (ev_now_nanos E) 1)) s) (\<lambda>q. first_committed J X E c q)
    (\<lambda>d. no_storage d \<or> (\<exists>q. first_committed J X E c q d))"
proof -
  let ?g = "max (ev_now_nanos E) 1"
  let ?q = "pointer_from_state (blocks_file_name ?g) (state_file_name ?g 1) (sha256_hex X (state_json J s)) (ev_now_secs E) s"
  note q = state_from_chain_pointer [OF s n refl, of "ev_now_secs E"]
  note f = commit_fields [OF q(1)]
  have w: "outcome (\<lambda>d. no_storage d \<and> journal_holds J d (ptr_blocks_file ?q) (cs_blocks c))
      (write_state_and_pointer J X E (map_option fst (None :: (storage_pointer \<times> chain_state) option)) (ptr_blocks_file ?q) s)
      (\<lambda>q d. q = ?q \<and> committed J X ?q c None d) (\<lambda>d. no_storage d \<or> committed J X ?q c None d)"
  proof (rule write_state_and_pointer_outcome [OF J q(1,4)])
    show "uncounted no_storage" by (simp add: uncounted_def no_storage_def)
    show "no_storage (put_fast (ptr_state_file ?q) t e)" if "no_storage e" for e t using that f(5) by (simp add: no_storage_def)
  qed simp
  have bq: "ptr_blocks_file ?q = blocks_file_name ?g" using f(4) q(2) by simp
  have new: "first_committed J X E c ?q d" if "committed J X ?q c None d" for d
    using that q(2,3) by (simp add: first_committed_def)
  show ?thesis by (rule outcome_post [OF w [unfolded bq option.map]]) (use new in auto)
qed

lemma initialize_outcome:
  assumes J: "codec_ok J" and ok: "storable X S c"
  shows "outcome no_storage (initialize_fast_storage J X S E c legacy validate)
    (\<lambda>i d. \<exists>q. i = pointer_identity q \<and> first_committed J X E c q d) (\<lambda>d. no_storage d \<or> (\<exists>q. first_committed J X E c q d))"
proof -
  let ?g = "max (ev_now_nanos E) 1" and ?t = "journal_text J (cs_blocks c)" and ?new = "first_committed J X E c"
  let ?R = "\<lambda>d. no_storage d \<or> (\<exists>q. ?new q d)" and ?J = "\<lambda>d. journal_holds J d (blocks_file_name ?g) (cs_blocks c)"
  have valid: "outcome no_storage (if validate then se_need (\<lambda>_. validate_all X S c) else se_return ()) (\<lambda>_. no_storage) ?R"
    by (cases validate) (auto intro: outcome_need outcome_return)
  have "outcome no_storage (replace_fast (blocks_file_name ?g) ?t) (\<lambda>_ d. no_storage d \<and> ?J d) ?R"
    unfolding replace_fast_def
    by (rule outcome_attempt) (auto simp: uncounted_def no_storage_def journal_holds_def)
  then have journal: "outcome no_storage (write_full_journal J (blocks_file_name ?g) (cs_blocks c)) (\<lambda>n d. n = length ?t \<and> no_storage d \<and> ?J d) ?R"
    unfolding write_full_journal_def by (rule outcome_then) (simp add: outcome_return)
  have state: "outcome (\<lambda>d. n = length ?t \<and> no_storage d \<and> ?J d) (se_need (\<lambda>_. state_from_chain J X c ?g 1 n))
      (\<lambda>s d. (n = length ?t \<and> state_from_chain J X c ?g 1 n = Inr s) \<and> no_storage d \<and> ?J d) ?R" for n
    by (rule outcome_need) auto
  have writes: "outcome (\<lambda>d. (n = length ?t \<and> state_from_chain J X c ?g 1 n = Inr s) \<and> no_storage d \<and> ?J d)
      (write_state_and_pointer J X E None (blocks_file_name ?g) s) (\<lambda>q. ?new q) ?R" for n s
    by (rule outcome_and_pure) (use first_write_outcome [OF J] in blast)
  have status: "outcome (?new q) (write_status_from_pointer J E q) (\<lambda>_. ?new q) ?R" for q
    by (rule outcome_touches [OF touches_status [of "{}"] first_committed_about_others]) auto
  have export: "outcome (?new q) (if legacy then
           se_ignore (replace_fast fast_legacy_export_status_file (legacy_json J (legacy_status_of X S E c)))
         else se_bind (export_chain_json_to J X S chain_file) (\<lambda>_. se_return ())) (\<lambda>_. ?new q) ?R" for q
  proof (rule outcome_touches)
    show "touches_only {fast_legacy_export_status_file} (if legacy then
           se_ignore (replace_fast fast_legacy_export_status_file (legacy_json J (legacy_status_of X S E c)))
         else se_bind (export_chain_json_to J X S chain_file) (\<lambda>_. se_return ()))"
      by (intro touches touches_export) simp
  qed (auto intro: first_committed_about_others)
  let ?Q = "\<lambda>i d. \<exists>q. i = pointer_identity q \<and> ?new q d"
  show ?thesis unfolding initialize_fast_storage_def Let_def safe_names se_need_Inr
  proof (rule outcome_then [OF valid], rule outcome_lease)
    show "outcome no_storage (se_bind (write_full_journal J (blocks_file_name ?g) (cs_blocks c)) (\<lambda>journal_bytes.
       se_bind (se_need (\<lambda>_. state_from_chain J X c ?g 1 journal_bytes)) (\<lambda>s.
       se_bind (write_state_and_pointer J X E None (blocks_file_name ?g) s) (\<lambda>pointer.
       se_then (write_status_from_pointer J E pointer) (se_then
        (if legacy then se_ignore (replace_fast fast_legacy_export_status_file (legacy_json J (legacy_status_of X S E c)))
         else se_bind (export_chain_json_to J X S chain_file) (\<lambda>_. se_return ()))
        (se_return (pointer_identity pointer))))))) ?Q ?R"
      by (rule outcome_bind [OF journal], rule outcome_bind [OF state], rule outcome_bind [OF writes],
          rule outcome_then [OF status], rule outcome_then [OF export], rule outcome_return) blast
  qed (auto intro!: about_others_disj about_others_ex first_committed_about_others no_storage_about_others about_others_conj
      simp: about_others_def [where P = "\<lambda>_. _ = _"])
qed

section \<open>Saving\<close>

lemma outcome_drop_result: "outcome P m (\<lambda>_. Q) R \<Longrightarrow> outcome P (se_bind m (\<lambda>_. se_return ())) (\<lambda>_. Q) R"
  by (rule outcome_bind) (auto intro: outcome_return)

lemma persist_first_outcome:
  assumes "codec_ok J" and "storable X S c"
  shows "outcome no_storage (persist_chain J X S E c) (\<lambda>_ d. \<exists>q. first_committed J X E c q d)
    (\<lambda>d. no_storage d \<or> (\<exists>q. first_committed J X E c q d))"
proof (rule outcomeI)
  fix d r e assume d: "no_storage d" and run: "persist_chain J X S E c d = (r, e)"
  let ?R = "\<lambda>d. no_storage d \<or> (\<exists>q. first_committed J X E c q d)"
  define legacy where "legacy = (data_file d chain_file \<noteq> None)"
  have i: "outcome no_storage (se_bind (initialize_fast_storage J X S E c legacy False) (\<lambda>_. se_return ()))
      (\<lambda>_ d. \<exists>q. first_committed J X E c q d) ?R"
    by (rule outcome_drop_result, rule outcome_post [OF initialize_outcome [OF assms]]) auto
  have v: "outcome no_storage (se_need (\<lambda>_. validate_all X S c)) (\<lambda>_. no_storage) ?R" by (rule outcome_need) auto
  have m: "migrate_legacy_chain J X S E c b = initialize_fast_storage J X S E c True False b" if "no_storage b" for b
    using that by (simp add: migrate_legacy_chain_def no_storage_iff)
  have "persist_chain J X S E c d = se_then (se_need (\<lambda>_. validate_all X S c))
      (se_bind (initialize_fast_storage J X S E c legacy False) (\<lambda>_. se_return ())) d"
    using d m [OF d] by (simp add: persist_chain_def no_storage_iff legacy_def initialize_new_chain_def se_then_def se_bind_def
        se_need_def split: sum.split)
  with outcome_then [OF v i] d run show "case r of Inr a \<Rightarrow> \<exists>q. first_committed J X E c q e | Inl _ \<Rightarrow> ?R e"
    unfolding outcome_def by metis
qed

lemma stored_exists: "stored J X d fast_pointer_file p c \<Longrightarrow> fast_storage_exists d"
  by (auto simp: stored_def fast_storage_exists_def)

lemma persist_outcome:
  assumes "codec_ok J" and "storable X S c" "storable X S c'" "no_hash_collision X (cs_blocks c) (cs_blocks c')"
    and "unat (ptr_generation p) + 1 < 2 ^ 64" "unat (ptr_state_revision p) + 1 < 2 ^ 64"
  shows "outcome (\<lambda>d. stored J X d fast_pointer_file p c) (persist_chain J X S E c')
    (\<lambda>_ d. \<exists>q. replaced J X S Normal p c c' q d)
    (\<lambda>d. stored J X d fast_pointer_file p c \<or> (\<exists>q. replaced J X S Normal p c c' q d))"
proof -
  have "outcome (\<lambda>d. stored J X d fast_pointer_file p c) (se_bind (commit_chain J X S E c') (\<lambda>_. se_return ()))
    (\<lambda>_ d. \<exists>q. replaced J X S Normal p c c' q d)
    (\<lambda>d. stored J X d fast_pointer_file p c \<or> (\<exists>q. replaced J X S Normal p c c' q d))"
    unfolding commit_chain_def
    by (rule outcome_drop_result, rule outcome_post [OF commit_outcome [OF assms]]) auto
  then show ?thesis by (auto simp: outcome_def persist_chain_def stored_exists)
qed

section \<open>Work\<close>

definition work_kept :: "chain_state \<Rightarrow> chain_state \<Rightarrow> bool" where
  "work_kept c c' \<longleftrightarrow> (\<exists>w w'. chain_work_for_blocks (cs_blocks c) = Inr w \<and>
     chain_work_for_blocks (cs_blocks c') = Inr w' \<and> w \<le> w')"

lemma work_kept_refl: "storable X S c \<Longrightarrow> work_kept c c"
  using storable_work unfolding work_kept_def by blast

lemma work_kept_trans: "work_kept a b \<Longrightarrow> work_kept b c \<Longrightarrow> work_kept a c"
  by (auto simp: work_kept_def)

lemma ensure_work:
  assumes J: "codec_ok J" and ok: "storable X S c" "storable X S c'" and p: "commit_pointer J X c p s"
    and e: "ensure_candidate_not_behind_committed J X S c' p policy = Inr ()"
  obtains w w' where "chain_work_for_blocks (cs_blocks c) = Inr w" and "chain_work_for_blocks (cs_blocks c') = Inr w'" and "w \<le> w'"
proof -
  from commit_pointer_state(14) [OF p] obtain w where w: "chain_work_for_blocks (cs_blocks c) = Inr w" "fst_total_work_hex s = work_hex J w"
    by blast
  obtain w' where w': "chain_work_for_blocks (cs_blocks c') = Inr w'" using storable_work [OF ok(2)] by blast
  have "parse_work J (ptr_total_work_hex p) = Inr w" "total_work_value J c' = Inr w'"
    using w w' commit_pointer_fields(12) [OF p] by (simp_all add: parse_work_def total_work_value_def total_work_hex_def codec_okD [OF J] ok_or_def)
  with e have "\<not> w' < w" by (auto simp: ensure_candidate_not_behind_committed_def Let_def split: if_split_asm)
  with w w' that show thesis by simp
qed

section \<open>Any number of saves\<close>

text \<open>
  One event is a call of \<open>save_chain\<close>: what the operating system answers during it, which of its
  writes fail, and the chain. Between events other files may change.
\<close>

type_synonym save_event = "store_env \<times> (nat \<Rightarrow> bool) \<times> chain_state"

definition save_on :: "codec \<Rightarrow> extern \<Rightarrow> settings \<Rightarrow> save_event \<Rightarrow> disk \<Rightarrow> unit result \<times> disk" where
  "save_on J X S ev d = (case ev of (E, fails, c) \<Rightarrow> persist_chain J X S E c (d\<lparr>dk_fails := fails\<rparr>))"

fun saves :: "codec \<Rightarrow> extern \<Rightarrow> settings \<Rightarrow> save_event list \<Rightarrow> disk \<Rightarrow> disk" where
  "saves J X S [] d = d"
| "saves J X S (ev # evs) d = saves J X S evs (snd (save_on J X S ev d))"

definition event_chain :: "save_event \<Rightarrow> chain_state" where
  "event_chain ev = snd (snd ev)"

text \<open>
  The chains are checked and fit their heights, no two of them have different blocks with one hash,
  and the clock leaves room for the generation numbers.
\<close>

definition events_ok :: "extern \<Rightarrow> settings \<Rightarrow> save_event list \<Rightarrow> bool" where
  "events_ok X S evs \<longleftrightarrow>
     (\<forall>ev \<in> set evs. storable X S (event_chain ev) \<and> unat (ev_now_nanos (fst ev)) + length evs + 2 < 2 ^ 64) \<and>
     (\<forall>ev \<in> set evs. \<forall>ev' \<in> set evs. no_hash_collision X (cs_blocks (event_chain ev)) (cs_blocks (event_chain ev')))"

text \<open>The chain \<open>c\<close> is committed, after \<open>n\<close> events whose clocks were at most \<open>g\<close>.\<close>

definition holds :: "codec \<Rightarrow> extern \<Rightarrow> nat \<Rightarrow> nat \<Rightarrow> chain_state \<Rightarrow> disk \<Rightarrow> bool" where
  "holds J X g n c d \<longleftrightarrow> (\<exists>p. stored J X d fast_pointer_file p c \<and>
     unat (ptr_generation p) \<le> g + n + 1 \<and> unat (ptr_state_revision p) \<le> n + 1)"

lemma stored_fails: "stored J X d path p c \<Longrightarrow> stored J X (d\<lparr>dk_fails := f\<rparr>) path p c"
  by (erule stored_agree) (simp add: fast_file_def)

lemma save_outcome:
  assumes J: "codec_ok J" and ok: "storable X S c" "storable X S (event_chain ev)"
    and nc: "no_hash_collision X (cs_blocks c) (cs_blocks (event_chain ev))" and room: "g + n + 2 < 2 ^ 64"
    and h: "holds J X g n c d" and run: "save_on J X S ev d = (r, e)"
  shows "holds J X g (Suc n) (event_chain ev) e \<and>
      work_kept c (event_chain ev) \<or>
    holds J X g n c e \<and> r \<noteq> Inr ()"
proof -
  obtain E f c' where ev: "ev = (E, f, c')" by (cases ev)
  from h obtain p where p: "stored J X d fast_pointer_file p c" "unat (ptr_generation p) \<le> g + n + 1" "unat (ptr_state_revision p) \<le> n + 1"
    by (auto simp: holds_def)
  have new: "holds J X g (Suc n) c' e \<and>
      work_kept c c'"
    if q: "replaced J X S Normal p c c' q e" for q
  proof
    from q have "stored J X e fast_pointer_file q c'" "advances p (ptr_generation q) (ptr_state_revision q)"
      by (simp_all add: replaced_def committed_def)
    with p show "holds J X g (Suc n) c' e" unfolding holds_def by (intro exI [of _ q]) (auto simp: advances_def)
    from p(1) obtain s where cp: "commit_pointer J X c p s" by (auto simp: stored_def)
    have "storable X S c'" "ensure_candidate_not_behind_committed J X S c' p Normal = Inr ()"
      using q ok(2) ev by (simp_all add: replaced_def event_chain_def)
    from ensure_work [OF J ok(1) this(1) cp this(2)] show "work_kept c c'" unfolding work_kept_def by blast
  qed
  have "outcome (\<lambda>d. stored J X d fast_pointer_file p c) (persist_chain J X S E c') (\<lambda>_ d. \<exists>q. replaced J X S Normal p c c' q d)
    (\<lambda>d. stored J X d fast_pointer_file p c \<or> (\<exists>q. replaced J X S Normal p c c' q d))"
    by (rule persist_outcome [OF J ok(1)]) (use ok nc ev room p in \<open>auto simp: event_chain_def\<close>)
  from outcomeD [OF this stored_fails [OF p(1)], of f r e] run ev
  have "(\<exists>q. replaced J X S Normal p c c' q e) \<or> stored J X e fast_pointer_file p c \<and> r \<noteq> Inr ()"
    by (cases r) (auto simp: save_on_def)
  with new p ev show ?thesis by (auto simp: holds_def event_chain_def)
qed

lemma holds_mono: "holds J X g n c d \<Longrightarrow> n \<le> m \<Longrightarrow> holds J X g m c d"
  unfolding holds_def by (meson add_le_mono add_mono_thms_linordered_semiring(2) order_refl order_trans)

lemma save_first_outcome:
  assumes J: "codec_ok J" and ok: "storable X S (event_chain ev)" and d: "no_storage d"
    and g: "unat (ev_now_nanos (fst ev)) \<le> g" and run: "save_on J X S ev d = (r, e)"
  shows "holds J X g n (event_chain ev) e \<or> no_storage e \<and> r \<noteq> Inr ()"
proof -
  obtain E f c where ev: "ev = (E, f, c)" by (cases ev)
  have new: "holds J X g n c e" if "first_committed J X E c q e" for q
  proof -
    have "unat (max (ev_now_nanos E) 1) \<le> max (unat (ev_now_nanos E)) 1" by (auto simp: max_def word_le_nat_alt)
    with that g ev show ?thesis unfolding holds_def first_committed_def committed_def by (intro exI [of _ q]) auto
  qed
  have "no_storage (d\<lparr>dk_fails := f\<rparr>)" using d by (simp add: no_storage_def fast_file_def)
  moreover have "storable X S c" using ok ev by (simp add: event_chain_def)
  ultimately have "case r of Inr a \<Rightarrow> \<exists>q. first_committed J X E c q e | Inl _ \<Rightarrow> no_storage e \<or> (\<exists>q. first_committed J X E c q e)"
    using persist_first_outcome [OF J, of X S c E] run ev unfolding outcome_def save_on_def by simp
  with new ev show ?thesis by (cases r) (auto simp: event_chain_def)
qed

text \<open>All events see \<open>g\<close> as a bound of their clocks.\<close>

definition events_in :: "extern \<Rightarrow> settings \<Rightarrow> nat \<Rightarrow> chain_state set \<Rightarrow> save_event list \<Rightarrow> bool" where
  "events_in X S g C evs \<longleftrightarrow> (\<forall>ev \<in> set evs. event_chain ev \<in> C \<and> unat (ev_now_nanos (fst ev)) \<le> g) \<and>
     (\<forall>c \<in> C. storable X S c \<and> (\<forall>c' \<in> C. no_hash_collision X (cs_blocks c) (cs_blocks c')))"

lemma saves_hold:
  assumes "codec_ok J" and "events_in X S g C evs" and "g + n + length evs + 2 \<le> 2 ^ 64" and "holds J X g n c d" and "c \<in> C"
  shows "\<exists>c'. holds J X g (n + length evs) c' (saves J X S evs d) \<and> (c' = c \<or> c' \<in> event_chain ` set evs) \<and> work_kept c c'"
  using assms(2-)
proof (induction evs arbitrary: n c d)
  case Nil
  then show ?case using work_kept_refl by (auto simp: events_in_def)
next
  case (Cons ev evs)
  obtain r e where run: "save_on J X S ev d = (r, e)" by (cases "save_on J X S ev d")
  have in': "events_in X S g C evs" and ev: "event_chain ev \<in> C" using Cons.prems(1) by (simp_all add: events_in_def)
  have ok: "storable X S c" "storable X S (event_chain ev)" "no_hash_collision X (cs_blocks c) (cs_blocks (event_chain ev))"
    using Cons.prems(1,4) ev by (simp_all add: events_in_def)
  from save_outcome [OF assms(1) ok _ Cons.prems(3) run] Cons.prems(2)
  consider "holds J X g (Suc n) (event_chain ev) e" "work_kept c (event_chain ev)" | "holds J X g (Suc n) c e"
    using holds_mono [of J X g n c e "Suc n"] by auto
  then show ?case
  proof cases
    case 1
    from Cons.IH [OF in' _ 1(1) ev] Cons.prems(2) obtain c' where
      c': "holds J X g (Suc n + length evs) c' (saves J X S evs e)" "c' = event_chain ev \<or> c' \<in> event_chain ` set evs"
      "work_kept (event_chain ev) c'" by auto
    with work_kept_trans [OF 1(2) c'(3)] run show ?thesis by (intro exI [of _ c']) auto
  next
    case 2
    from Cons.IH [OF in' _ 2 Cons.prems(4)] Cons.prems(2) run show ?thesis by simp blast
  qed
qed

lemma saves_first:
  assumes "codec_ok J" and "events_in X S g C evs" and "g + length evs + 2 \<le> 2 ^ 64" and "no_storage d"
  shows "no_storage (saves J X S evs d) \<or> (\<exists>c \<in> C. holds J X g (length evs) c (saves J X S evs d))"
  using assms(2-)
proof (induction evs arbitrary: d)
  case (Cons ev evs)
  obtain r e where run: "save_on J X S ev d = (r, e)" by (cases "save_on J X S ev d")
  have in': "events_in X S g C evs" and ev: "event_chain ev \<in> C" "unat (ev_now_nanos (fst ev)) \<le> g"
    and ok: "storable X S (event_chain ev)" using Cons.prems(1) by (auto simp: events_in_def)
  from save_first_outcome [OF assms(1) ok Cons.prems(3) ev(2) run, of 0] show ?case
  proof
    assume "holds J X g 0 (event_chain ev) e"
    from saves_hold [OF assms(1) in' _ this ev(1)] Cons.prems(2)
    obtain c' where "holds J X g (length evs) c' (saves J X S evs e)" "c' = event_chain ev \<or> c' \<in> event_chain ` set evs" by auto
    moreover have "c' \<in> C" using calculation(2) in' ev(1) by (auto simp: events_in_def)
    ultimately show ?thesis using run holds_mono [of J X g "length evs" c' _ "Suc (length evs)"] by auto
  next
    assume "no_storage e \<and> r \<noteq> Inr ()"
    with Cons.IH [OF in'] Cons.prems(2) run holds_mono [of J X g "length evs" _ _ "Suc (length evs)"] show ?thesis by fastforce
  qed
qed simp

text \<open>The bound of the clocks of a sequence of events.\<close>

definition clock_bound :: "save_event list \<Rightarrow> nat" where
  "clock_bound evs = 2 ^ 64 - 3 - length evs"

lemma events_ok_in:
  assumes "events_ok X S evs" and "set xs \<subseteq> set evs"
  shows "events_in X S (clock_bound evs) (event_chain ` set evs) xs"
proof -
  have "unat (ev_now_nanos (fst x)) \<le> clock_bound evs" if "x \<in> set evs" for x
  proof -
    from assms(1) that have "unat (ev_now_nanos (fst x)) + length evs + 2 < 2 ^ 64" unfolding events_ok_def by blast
    then show ?thesis unfolding clock_bound_def by simp
  qed
  with assms show ?thesis unfolding events_in_def events_ok_def by blast
qed

lemma event_ok:
  assumes "events_ok X S evs" and "ev \<in> set evs"
  shows "storable X S (event_chain ev)" "unat (ev_now_nanos (fst ev)) \<le> clock_bound evs"
    and "c \<in> event_chain ` set evs \<Longrightarrow> storable X S c \<and> no_hash_collision X (cs_blocks c) (cs_blocks (event_chain ev))"
  using events_ok_in [OF assms(1), of evs] assms(2) by (auto simp: events_in_def)

lemma earlier_saves:
  assumes "codec_ok J" and "events_ok X S (earlier @ ev # later)" and "no_storage d"
  obtains (none) "no_storage (saves J X S earlier d)"
  | (some) c where "c \<in> event_chain ` set earlier"
      and "holds J X (clock_bound (earlier @ ev # later)) (length earlier) c (saves J X S earlier d)"
proof -
  let ?evs = "earlier @ ev # later"
  from assms(2) have "length ?evs + 3 \<le> 2 ^ 64" by (auto simp: events_ok_def)
  then have room: "clock_bound ?evs + length earlier + 2 \<le> 2 ^ 64" by (simp add: clock_bound_def)
  have "events_in X S (clock_bound ?evs) (event_chain ` set earlier) earlier"
    using events_ok_in [OF assms(2), of earlier] by (auto simp: events_in_def)
  from saves_first [OF assms(1) this room assms(3)] none some show thesis by blast
qed

text \<open>A save that returned leaves its chain committed.\<close>

lemma returned_save_holds:
  assumes "codec_ok J" and "events_ok X S (earlier @ ev # later)" and "no_storage d"
    and "save_on J X S ev (saves J X S earlier d) = (Inr (), e)"
  shows "holds J X (clock_bound (earlier @ ev # later)) (Suc (length earlier)) (event_chain ev) e"
proof -
  let ?evs = "earlier @ ev # later"
  have ev: "ev \<in> set ?evs" by simp
  from assms(2) have "length ?evs + 3 \<le> 2 ^ 64" by (auto simp: events_ok_def)
  then have room: "clock_bound ?evs + length earlier + 2 < 2 ^ 64" by (simp add: clock_bound_def)
  from assms(1-3) show ?thesis
  proof (cases rule: earlier_saves)
    case none
    from save_first_outcome [OF assms(1) event_ok(1) [OF assms(2) ev] none event_ok(2) [OF assms(2) ev] assms(4)]
    show ?thesis by blast
  next
    case (some c)
    then have "c \<in> event_chain ` set ?evs" by auto
    from event_ok(3) [OF assms(2) ev this] save_outcome [OF assms(1) _ event_ok(1) [OF assms(2) ev] _ room some(2) assms(4)]
    show ?thesis by blast
  qed
qed

section \<open>Properties\<close>


end
