(* ===== verification/FastProgress.thy ===== *)
theory FastProgress
  imports FastDurable
begin

text \<open>
  When no write fails and no one holds the lock, a commit that the policy allows goes through; the
  previous commit survives the loss of the current one; and the exported \<open>chain.json\<close> is the
  committed chain.
\<close>

section \<open>Transformers that succeed on a working disk\<close>

definition steady :: "disk \<Rightarrow> bool" where
  "steady d \<longleftrightarrow> dk_fails d = (\<lambda>_. False)"

definition runs :: "(disk \<Rightarrow> bool) \<Rightarrow> (disk, 'a) se \<Rightarrow> bool" where
  "runs P m \<longleftrightarrow> (\<forall>d. P d \<longrightarrow> steady d \<longrightarrow> (\<exists>a e. m d = (Inr a, e) \<and> steady e))"

lemma runsD: "runs P m \<Longrightarrow> P d \<Longrightarrow> steady d \<Longrightarrow> \<exists>a e. m d = (Inr a, e) \<and> steady e"
  by (simp add: runs_def)

lemma runs_pre: "runs P m \<Longrightarrow> (\<And>d. Q d \<Longrightarrow> P d) \<Longrightarrow> runs Q m"
  by (simp add: runs_def)

lemma runs_bind: "runs P m \<Longrightarrow> outcome P m Q R \<Longrightarrow> (\<And>a. runs (Q a) (k a)) \<Longrightarrow> runs P (se_bind m k)"
  unfolding runs_def
proof (intro allI impI)
  fix d
  assume m: "\<forall>d. P d \<longrightarrow> steady d \<longrightarrow> (\<exists>a e. m d = (Inr a, e) \<and> steady e)" and o: "outcome P m Q R"
    and k: "\<And>a. \<forall>d. Q a d \<longrightarrow> steady d \<longrightarrow> (\<exists>b e. k a d = (Inr b, e) \<and> steady e)" and d: "P d" "steady d"
  from m d obtain a e where e: "m d = (Inr a, e)" "steady e" by blast
  with outcomeD(1) [OF o d(1) e(1) refl] k [of a] show "\<exists>b e. se_bind m k d = (Inr b, e) \<and> steady e"
    by (auto simp: se_bind_def)
qed

lemma runs_then: "runs P m \<Longrightarrow> outcome P m (\<lambda>_. Q) R \<Longrightarrow> runs Q k \<Longrightarrow> runs P (se_then m k)"
  unfolding se_then_def by (rule runs_bind)

lemma runs_always_then: "runs P m \<Longrightarrow> runs (\<lambda>_. True) k \<Longrightarrow> runs P (se_then m k)"
  by (rule runs_then [where Q = "\<lambda>_. True" and R = "\<lambda>_. True"]) (simp_all add: outcome_def split: sum.split)

lemma runs_attempt: "(\<And>d. dk_fails (f d) = dk_fails d) \<Longrightarrow> runs P (attempt f)"
  by (simp add: runs_def attempt_def steady_def)

lemma runs_basic [simp]: "runs P (replace_fast n b)" "runs P (replace_data n b)" "runs P (remove_fast n)"
  "runs P (append_byte n c)" "runs P (truncate_fast n k)" "runs P (se_return a)"
  unfolding replace_fast_def replace_data_def remove_fast_def append_byte_def truncate_fast_def
  by (rule runs_attempt; simp add: put_fast_def put_data_def drop_fast_def)+ (simp add: runs_def se_return_def)

lemma runs_need: "(\<And>d. P d \<Longrightarrow> \<exists>a. f d = Inr a) \<Longrightarrow> runs P (se_need f)"
  by (auto simp: runs_def se_need_def)

lemma runs_ignore: "runs P m \<Longrightarrow> runs P (se_ignore m)"
  by (fastforce simp: runs_def se_ignore_def)

lemma runs_for: "(\<And>x. runs (\<lambda>_. True) (f x)) \<Longrightarrow> runs P (se_for f xs)"
proof (induction xs arbitrary: P)
  case (Cons x xs)
  have "runs P (f x)" by (rule runs_pre [OF Cons.prems]) simp
  with Cons show ?case by (simp add: runs_always_then)
qed simp

lemma runs_append: "runs P (append_fast n b)"
  unfolding append_fast_def by (rule runs_for) simp

lemma runs_state: "(\<And>d. P d \<Longrightarrow> steady d \<Longrightarrow> \<exists>a e. m d d = (Inr a, e) \<and> steady e) \<Longrightarrow> runs P (\<lambda>d. m d d)"
  by (simp add: runs_def)

lemma runs_cleanup: "runs P (cleanup_old_files J E used start tail k p)"
  unfolding cleanup_old_files_def Let_def
  by (simp only: runs_def, intro allI impI, rule runsD [OF runs_for [where P = "\<lambda>_. True"]]) (simp_all add: runs_ignore)

lemma runs_write_state_and_pointer:
  "runs P (write_state_and_pointer J X E previous b s)"
  unfolding write_state_and_pointer_def Let_def safe_names se_need_Inr cleanup_old_state_files_def cleanup_old_journal_files_def
  by (intro runs_always_then runs_cleanup) (auto split: option.split)

definition lock_free :: "store_env \<Rightarrow> disk \<Rightarrow> bool" where
  "lock_free E d \<longleftrightarrow> fast_file d fast_storage_lock_file = None \<or> lock_is_stale E \<and> \<not> lock_owner_alive E d"

lemma runs_new_lock:
  "runs (\<lambda>d. fast_file d fast_storage_lock_file = None) (acquire_lease E (Suc n))"
proof -
  have "runs (\<lambda>_. True) (se_then (replace_fast fast_storage_lock_file []) (append_fast fast_storage_lock_file (lock_text E)))"
    by (intro runs_always_then runs_append) simp
  then show ?thesis by (auto simp: runs_def)
qed

lemma runs_lease: "runs (lock_free E) (acquire_lease E (Suc (Suc n)))"
  unfolding runs_def
proof (intro allI impI)
  fix d assume d: "lock_free E d" "steady d"
  show "\<exists>a e. acquire_lease E (Suc (Suc n)) d = (Inr a, e) \<and> steady e"
  proof (cases "fast_file d fast_storage_lock_file = None")
    case True
    with runsD [OF runs_new_lock _ d(2), of E "Suc n"] show ?thesis by blast
  next
    case False
    with d(1) have stale: "lock_is_stale E \<and> \<not> lock_owner_alive E d" by (simp add: lock_free_def)
    let ?e = "drop_fast fast_storage_lock_file (d\<lparr>dk_attempts := dk_attempts d + 1\<rparr>)"
    have "se_ignore (remove_fast fast_storage_lock_file) d = (Inr (), ?e)"
      using d(2) by (simp add: se_ignore_def remove_fast_def attempt_def steady_def)
    moreover have "steady ?e" using d(2) by (simp add: steady_def drop_fast_def)
    moreover from this obtain a e where "acquire_lease E (Suc n) ?e = (Inr a, e)" "steady e"
      using runsD [OF runs_new_lock, of ?e E n] by auto
    ultimately show ?thesis using False stale by (auto simp: se_then_def se_bind_def)
  qed
qed

lemma runs_with_lease:
  assumes "runs P m" and "about_others {fast_storage_lock_file} P"
  shows "runs (\<lambda>d. lock_free E d \<and> P d) (with_lease E m)"
  unfolding runs_def
proof (intro allI impI)
  fix d assume d: "lock_free E d \<and> P d" "steady d"
  obtain e where e: "acquire_lease E 2 d = (Inr (), e)" "steady e"
    using runsD [OF runs_lease [of E 0] _ d(2)] d(1) by (auto simp: numeral_2_eq_2)
  have "P e" using outcomeD(1) [OF outcome_touches [OF touches_lease assms(2)] _ e(1) refl, where R = "\<lambda>_. True"] d(1) by simp
  from runsD [OF assms(1) this e(2)] obtain a e' where m: "m e = (Inr a, e')" "steady e'" by blast
  moreover have "steady (snd (remove_fast fast_storage_lock_file e'))"
    using runsD [OF runs_basic(3) TrueI m(2), of fast_storage_lock_file] by auto
  ultimately show "\<exists>a e. with_lease E m d = (Inr a, e) \<and> steady e"
    using e(1) by (simp add: with_lease_def se_then_def se_bind_def)
qed

text \<open>The lock is gone after a call on a working disk.\<close>

lemma lease_released:
  assumes "with_lease E m d = (Inr a, e)" and "steady e"
  shows "fast_file e fast_storage_lock_file = None"
proof -
  from assms(1) obtain f where e: "e = snd (remove_fast fast_storage_lock_file f)"
    by (auto simp: with_lease_def se_then_def se_bind_def split: prod.splits sum.splits)
  then have "steady f" using assms(2) by (auto simp: remove_fast_def attempt_def steady_def drop_fast_def Let_def split: if_split_asm)
  with e show ?thesis by (simp add: remove_fast_def attempt_def steady_def Let_def)
qed

section \<open>The export is the committed chain\<close>

lemma export_journal:
  assumes "codec_ok J"
  shows "export_records (length bs) (journal_text J bs @ s) = Inr (map (block_json J) bs)"
proof (induction bs)
  case (Cons b bs)
  then show ?case using codec_okD [OF assms] by (simp add: read_until_record strip_eol_record)
qed simp

lemma export_text:
  assumes "stored J X d fast_pointer_file p c" and "storable X S c" and "codec_ok J"
  shows "export_chain_json_to J X S out d =
    se_then (replace_data out (chain_json_text J (cs_network c) (map (block_json J) (cs_blocks c)) (sorted_utxos X c) (cs_mempool c)))
      (se_return (chain_height c, block_hash X (last (cs_blocks c)),
        length (chain_json_text J (cs_network c) (map (block_json J) (cs_blocks c)) (sorted_utxos X c) (cs_mempool c)))) d"
proof -
  from stored_reads [OF assms] obtain s where cp: "commit_pointer J X c p s"
    and r: "read_pointer_state_with_recovery J X S d = Inr ((p, s, length (state_json J s)), False)" .
  note f = commit_fields [OF cp]
  from assms(1) obtain rest where body: "fast_file d (ptr_blocks_file p) = Some (journal_text J (cs_blocks c) @ rest)"
    by (auto simp: stored_def journal_holds_def)
  have safe: "safe_child (ptr_blocks_file p) = Inr (ptr_blocks_file p)" using stored_names(1) [OF assms(1)] by simp
  have n: "unat (ptr_committed_height p) + 1 = length (cs_blocks c)" using f(8,18) storable_height [OF assms(2)] by simp
  have "export_records (length (cs_blocks c)) (journal_text J (cs_blocks c)) = Inr (map (block_json J) (cs_blocks c))"
    using export_journal [OF assms(3), of "cs_blocks c" "[]"] by simp
  then show ?thesis using r body safe n f(7,8,9) commit_pointer_state [OF cp]
    by (simp add: export_chain_json_to_def se_bind_def se_need_def ok_or_def)
qed

lemma runs_export:
  assumes "storable X S c" and "codec_ok J"
  shows "runs (\<lambda>d. stored J X d fast_pointer_file p c) (export_chain_json_to J X S out)"
  unfolding runs_def
proof (intro allI impI)
  fix d assume "stored J X d fast_pointer_file p c" and d: "steady d"
  note e = export_text [OF this(1) assms, of out]
  show "\<exists>a e. export_chain_json_to J X S out d = (Inr a, e) \<and> steady e" unfolding e
    by (rule runsD [OF runs_always_then [where P = "\<lambda>_. True"] TrueI d]) simp_all
qed

lemma runs_refresh:
  assumes "storable X S c" and "codec_ok J"
  shows "runs (\<lambda>d. stored J X d fast_pointer_file p c) (maybe_refresh_legacy_export J X S E c' q)"
proof -
  have "runs (\<lambda>d. stored J X d fast_pointer_file p c) (se_bind (export_chain_json_to J X S chain_file) (\<lambda>_. se_return ()))"
    by (rule runs_bind [OF runs_export [OF assms], where Q = "\<lambda>_ _. True" and R = "\<lambda>_. True"])
      (simp_all add: outcome_def split: sum.split)
  then have "runs (\<lambda>d. stored J X d fast_pointer_file p c) (se_then (se_bind (export_chain_json_to J X S chain_file) (\<lambda>_. se_return ()))
      (replace_fast fast_legacy_export_status_file (legacy_json J (legacy_status_of X S E c'))))"
    by (rule runs_always_then) simp
  moreover have "runs (\<lambda>d. stored J X d fast_pointer_file p c) (se_return ())" by simp
  ultimately show ?thesis unfolding maybe_refresh_legacy_export_def runs_def by auto
qed

lemma runs_status:
  assumes "codec_ok J"
  shows "runs (\<lambda>d. stored J X d fast_pointer_file p c) (write_status_from_pointer J E p)"
  unfolding write_status_from_pointer_def
proof (rule runs_bind [where Q = "\<lambda>_ _. True" and R = "\<lambda>_. True"])
  show "runs (\<lambda>d. stored J X d fast_pointer_file p c) (se_need (\<lambda>d. rbind (safe_child (ptr_state_file p)) (\<lambda>path.
        rbind (ok_or (StorageErr SOpen) (fast_file d path)) (\<lambda>body.
        rbind (ok_or (StorageErr SJson) (state_parse J body)) (\<lambda>s.
        if fst_network s \<noteq> ptr_network p then Inl (StorageErr SStatusNetwork)
        else Inr (fast_status_from_pointer E d p s (length body)))))))"
  proof (rule runs_need)
    fix d assume st: "stored J X d fast_pointer_file p c"
    then obtain s where cp: "commit_pointer J X c p s" and f: "fast_file d (ptr_state_file p) = Some (state_json J s)"
      by (auto simp: stored_def)
    have "safe_child (ptr_state_file p) = Inr (ptr_state_file p)" using stored_names(2) [OF st] by simp
    with f commit_pointer_fields(3) [OF cp] show "\<exists>a. rbind (safe_child (ptr_state_file p)) (\<lambda>path.
        rbind (ok_or (StorageErr SOpen) (fast_file d path)) (\<lambda>body.
        rbind (ok_or (StorageErr SJson) (state_parse J body)) (\<lambda>s.
        if fst_network s \<noteq> ptr_network p then Inl (StorageErr SStatusNetwork)
        else Inr (fast_status_from_pointer E d p s (length body))))) = Inr a"
      by (simp add: ok_or_def codec_okD [OF assms])
  qed
qed (auto simp: outcome_def intro: runs_ignore split: sum.split)

section \<open>Commits succeed\<close>

lemma runs_commit_journal:
  assumes "storable X S c"
  shows "runs (\<lambda>d. a = Some p \<and> stored J X d fast_pointer_file p c) (commit_journal J X E c' a)"
  unfolding runs_def
proof (intro allI impI)
  fix d assume d: "a = Some p \<and> stored J X d fast_pointer_file p c" "steady d"
  have st: "stored J X d fast_pointer_file p c" using d(1) by simp
  have safe: "safe_child (ptr_blocks_file p) = Inr (ptr_blocks_file p)" using stored_names(1) [OF st] by simp
  from st obtain s rest where cp: "commit_pointer J X c p s"
    and body: "fast_file d (ptr_blocks_file p) = Some (journal_text J (cs_blocks c) @ rest)"
    by (auto simp: stored_def journal_holds_def)
  have jb: "ptr_journal_bytes p = length (journal_text J (cs_blocks c))" by (rule commit_pointer_fields(7) [OF cp])
  have ap: "\<exists>n e. append_journal J (ptr_blocks_file p) (ptr_journal_bytes p) bs d = (Inr n, e) \<and> steady e" for bs
  proof -
    have "runs (\<lambda>_. True) (se_then (if length (journal_text J (cs_blocks c) @ rest) > ptr_journal_bytes p
        then truncate_fast (ptr_blocks_file p) (ptr_journal_bytes p) else se_return ())
      (se_then (append_fast (ptr_blocks_file p) (journal_text J bs)) (se_need (\<lambda>d. Inr (length (the (fast_file d (ptr_blocks_file p))))))))"
      by (intro runs_always_then runs_append runs_need) auto
    from runsD [OF this TrueI d(2)] show ?thesis using body jb
      by (cases rest) (simp_all add: append_journal_def se_bind_def se_need_def ok_or_def)
  qed
  have full: "runs (\<lambda>_. True) (se_bind (write_full_journal J n bs) (\<lambda>bytes. se_return (g, r, b, bytes)))"
    for n bs and g r :: u64 and b :: string
    unfolding write_full_journal_def
    by (rule runs_bind [where Q = "\<lambda>_ _. True" and R = "\<lambda>_. True"])
      (simp_all add: runs_always_then outcome_def split: sum.split)
  show "\<exists>b e. commit_journal J X E c' a d = (Inr b, e) \<and> steady e"
  proof (cases "extends_committed X c' p")
    case True
    from ap [of "drop (unat (ptr_committed_height p) + 1) (cs_blocks c')"] d(1) True safe show ?thesis
      by (auto simp: commit_journal_def Let_def se_need_def se_bind_def se_return_def)
  next
    case False
    with d(1) runsD [OF full TrueI d(2)] show ?thesis by (simp add: commit_journal_def Let_def se_need_Inr)
  qed
qed

lemma runs_commit:
  assumes J: "codec_ok J" and ok: "storable X S c" "storable X S c'" "no_hash_collision X (cs_blocks c) (cs_blocks c')"
    and room: "unat (ptr_generation p) + 1 < 2 ^ 64" "unat (ptr_state_revision p) + 1 < 2 ^ 64"
    and e: "ensure_candidate_not_behind_committed J X S c' p policy = Inr ()"
  shows "runs (\<lambda>d. lock_free E d \<and> stored J X d fast_pointer_file p c) (commit_chain_with_policy J X S E c' policy)"
proof -
  let ?old = "\<lambda>d. stored J X d fast_pointer_file p c" and ?new = "replaced J X S policy p c c'" and ?T = "\<lambda>_ :: disk. True"
  obtain w' where w': "chain_work_for_blocks (cs_blocks c') = Inr w'" using storable_work [OF ok(2)] by blast
  have state_ok: "\<exists>s. state_from_chain J X c' g r n = Inr s" for g r n
    using w' storable_nonempty [OF ok(2)] by (simp add: state_from_chain_def total_work_hex_def Let_def)
  have new: "stored J X d fast_pointer_file q c'" if "?new q d" for q d using that by (simp add: replaced_def committed_def)
  have current: "outcome ?old (se_need (current_commit J X S c' policy)) (\<lambda>a d. a = Some p \<and> ?old d) ?T"
    "runs ?old (se_need (current_commit J X S c' policy))"
    by (auto intro!: outcome_need runs_need simp: current_commit_stored [OF _ ok(1) J] e)
  have journal: "outcome (\<lambda>d. a = Some p \<and> ?old d) (commit_journal J X E c' a)
      (\<lambda>x d. a = Some p \<and> ?old d \<and> journal_done J c' p x d) ?T" for a
    by (rule outcome_and_pure) (use outcome_post [OF commit_journal_outcome [OF ok room]] in auto)
  have state: "outcome (\<lambda>d. a = Some p \<and> ?old d \<and> journal_done J c' p (g, r, b, n) d) (se_need (\<lambda>_. state_from_chain J X c' g r n))
      (\<lambda>s d. (a = Some p \<and> state_from_chain J X c' g r n = Inr s) \<and> ?old d \<and> journal_done J c' p (g, r, b, n) d) ?T"
    "runs (\<lambda>d. a = Some p \<and> ?old d \<and> journal_done J c' p (g, r, b, n) d) (se_need (\<lambda>_. state_from_chain J X c' g r n))"
    for a g r b n using state_ok by (auto intro: outcome_need runs_need)
  have writes: "outcome (\<lambda>d. (a = Some p \<and> state_from_chain J X c' g r n = Inr s) \<and> ?old d \<and> journal_done J c' p (g, r, b, n) d)
      (write_state_and_pointer J X E a b s) (\<lambda>q. ?new q) ?T" for a g r b n s
    by (rule outcome_and_pure) (use outcome_post [OF write_commit_outcome [OF J refl _ e]] in auto)
  have status: "outcome (?new q) (write_status_from_pointer J E q) (\<lambda>_. ?new q) ?T" for q
    by (rule outcome_touches [OF touches_status [of "{}"] replaced_about_others]) auto
  have rest: "runs (?new q) (se_then (write_status_from_pointer J E q) (se_then (maybe_refresh_legacy_export J X S E c' q)
      (se_return (pointer_identity q))))" for q
    by (rule runs_then [OF runs_pre [OF runs_status [OF J] new] status], assumption, rule runs_always_then,
        rule runs_pre [OF runs_refresh [OF ok(2) J] new]) simp_all
  show ?thesis unfolding commit_chain_with_policy_def
  proof (rule runs_with_lease)
    show "runs ?old (se_bind (se_need (current_commit J X S c' policy)) (\<lambda>current.
       se_bind (commit_journal J X E c' current) (\<lambda>(generation, state_revision, blocks_file, journal_bytes).
       se_bind (se_need (\<lambda>_. state_from_chain J X c' generation state_revision journal_bytes)) (\<lambda>s.
       se_bind (write_state_and_pointer J X E current blocks_file s) (\<lambda>pointer.
       se_then (write_status_from_pointer J E pointer) (se_then (maybe_refresh_legacy_export J X S E c' pointer)
      (se_return (pointer_identity pointer))))))))"
      by (rule runs_bind [OF current(2,1)], rule runs_bind [OF runs_commit_journal [OF ok(1)] journal], clarify,
          rule runs_bind [OF state(2,1)], rule runs_bind [OF runs_write_state_and_pointer writes], rule rest)
  qed (rule stored_about_others; simp)
qed

lemma runs_first_commit:
  assumes J: "codec_ok J" and ok: "storable X S c"
  shows "runs (\<lambda>d. lock_free E d \<and> no_storage d) (initialize_fast_storage J X S E c legacy False)"
proof -
  let ?g = "max (ev_now_nanos E) 1" and ?t = "journal_text J (cs_blocks c)" and ?new = "first_committed J X E c" and ?T = "\<lambda>_ :: disk. True"
  let ?J = "\<lambda>d. journal_holds J d (blocks_file_name ?g) (cs_blocks c)"
  obtain w where w: "chain_work_for_blocks (cs_blocks c) = Inr w" using storable_work [OF ok] by blast
  have state_ok: "\<exists>s. state_from_chain J X c ?g 1 n = Inr s" for n
    using w storable_nonempty [OF ok] by (simp add: state_from_chain_def total_work_hex_def Let_def)
  have new: "stored J X d fast_pointer_file q c" if "?new q d" for q d using that by (simp add: first_committed_def committed_def)
  have "outcome no_storage (replace_fast (blocks_file_name ?g) ?t) (\<lambda>_ d. no_storage d \<and> ?J d) ?T"
    unfolding replace_fast_def by (rule outcome_attempt) (auto simp: uncounted_def no_storage_def journal_holds_def)
  then have journal: "outcome no_storage (write_full_journal J (blocks_file_name ?g) (cs_blocks c)) (\<lambda>n d. n = length ?t \<and> no_storage d \<and> ?J d) ?T"
    "runs no_storage (write_full_journal J (blocks_file_name ?g) (cs_blocks c))"
    unfolding write_full_journal_def by (auto intro: outcome_then outcome_return runs_always_then)
  have state: "outcome (\<lambda>d. n = length ?t \<and> no_storage d \<and> ?J d) (se_need (\<lambda>_. state_from_chain J X c ?g 1 n))
      (\<lambda>s d. (n = length ?t \<and> state_from_chain J X c ?g 1 n = Inr s) \<and> no_storage d \<and> ?J d) ?T"
    "runs (\<lambda>d. n = length ?t \<and> no_storage d \<and> ?J d) (se_need (\<lambda>_. state_from_chain J X c ?g 1 n))" for n
    using state_ok by (auto intro: outcome_need runs_need)
  have writes: "outcome (\<lambda>d. (n = length ?t \<and> state_from_chain J X c ?g 1 n = Inr s) \<and> no_storage d \<and> ?J d)
      (write_state_and_pointer J X E None (blocks_file_name ?g) s) (\<lambda>q. ?new q) ?T" for n s
    by (rule outcome_and_pure) (use outcome_post [OF first_write_outcome [OF J]] in auto)
  have status: "outcome (?new q) (write_status_from_pointer J E q) (\<lambda>_. ?new q) ?T" for q
    by (rule outcome_touches [OF touches_status [of "{}"] first_committed_about_others]) auto
  have export: "runs (?new q) (if legacy then
       se_ignore (replace_fast fast_legacy_export_status_file (legacy_json J (legacy_status_of X S E c)))
     else se_bind (export_chain_json_to J X S chain_file) (\<lambda>_. se_return ()))" for q
    by (cases legacy) (auto simp: runs_ignore outcome_def split: sum.split
        intro!: runs_bind [OF runs_pre [OF runs_export [OF ok J] new], where Q = "\<lambda>_ _. True" and R = "\<lambda>_. True"])
  have body: "runs no_storage (se_bind (write_full_journal J (blocks_file_name ?g) (cs_blocks c)) (\<lambda>journal_bytes.
       se_bind (se_need (\<lambda>_. state_from_chain J X c ?g 1 journal_bytes)) (\<lambda>s.
       se_bind (write_state_and_pointer J X E None (blocks_file_name ?g) s) (\<lambda>pointer.
       se_then (write_status_from_pointer J E pointer) (se_then
        (if legacy then se_ignore (replace_fast fast_legacy_export_status_file (legacy_json J (legacy_status_of X S E c)))
         else se_bind (export_chain_json_to J X S chain_file) (\<lambda>_. se_return ()))
        (se_return (pointer_identity pointer)))))))"
    by (rule runs_bind [OF journal(2,1)], rule runs_bind [OF state(2,1)], rule runs_bind [OF runs_write_state_and_pointer writes],
        rule runs_then [OF runs_pre [OF runs_status [OF J] new] status], assumption, rule runs_always_then [OF export]) simp
  have "about_others {fast_storage_lock_file} no_storage" by (rule no_storage_about_others) simp
  from runs_with_lease [OF body this, of E] show ?thesis
    unfolding initialize_fast_storage_def Let_def safe_names se_need_Inr by (simp add: runs_def se_then_def se_bind_def se_return_def)
qed

lemma ensure_better:
  assumes J: "codec_ok J" and ok: "storable X S c" "storable X S c'" and p: "commit_pointer J X c p s"
    and w: "chain_work_for_blocks (cs_blocks c) = Inr w" "chain_work_for_blocks (cs_blocks c') = Inr w'" "w < w'"
  shows "ensure_candidate_not_behind_committed J X S c' p Normal = Inr ()"
proof -
  from commit_pointer_state(14) [OF p] w(1) have "fst_total_work_hex s = work_hex J w" by auto
  then have "parse_work J (ptr_total_work_hex p) = Inr w" "total_work_value J c' = Inr w'"
    using w commit_pointer_fields(12) [OF p] by (simp_all add: parse_work_def total_work_value_def total_work_hex_def codec_okD [OF J] ok_or_def)
  with w(3) show ?thesis by (simp add: ensure_candidate_not_behind_committed_def Let_def)
qed

lemma persist_first_succeeds:
  assumes "codec_ok J" and "storable X S c" and "no_storage d" and "steady d" and "lock_free E d"
  shows "\<exists>e. persist_chain J X S E c d = (Inr (), e) \<and> steady e \<and> fast_file e fast_storage_lock_file = None"
proof -
  define legacy where "legacy = (data_file d chain_file \<noteq> None)"
  obtain i e where e: "initialize_fast_storage J X S E c legacy False d = (Inr i, e)" "steady e"
    using runsD [OF runs_first_commit [OF assms(1,2)], of E d legacy] assms(3-5) by auto
  then have "fast_file e fast_storage_lock_file = None"
    unfolding initialize_fast_storage_def by (auto simp: se_then_ok se_return_ok intro: lease_released)
  moreover have "validate_all X S c = Inr ()" using assms(2) by (simp add: storable_def chain_ok_def validate_all_iff)
  ultimately show ?thesis using e assms(3)
    by (auto simp: persist_chain_def no_storage_iff migrate_legacy_chain_def initialize_new_chain_def se_then_def se_bind_def
        se_need_def se_return_def legacy_def)
qed

lemma persist_better_succeeds:
  assumes "codec_ok J" and "storable X S c" "storable X S c'" "no_hash_collision X (cs_blocks c) (cs_blocks c')"
    and st: "stored J X d fast_pointer_file p c" and room: "unat (ptr_generation p) + 1 < 2 ^ 64" "unat (ptr_state_revision p) + 1 < 2 ^ 64"
    and w: "chain_work_for_blocks (cs_blocks c) = Inr w" "chain_work_for_blocks (cs_blocks c') = Inr w'" "w < w'"
    and "steady d" and "lock_free E d"
  shows "\<exists>e. persist_chain J X S E c' d = (Inr (), e)"
proof -
  from st obtain s where "commit_pointer J X c p s" by (auto simp: stored_def)
  note ens = ensure_better [OF assms(1-3) this w]
  from runsD [OF runs_commit [OF assms(1-4) room ens], of E d] assms(11,12) st
  obtain i e where "commit_chain_with_policy J X S E c' Normal d = (Inr i, e)" by auto
  with stored_exists [OF st] show ?thesis by (auto simp: persist_chain_def commit_chain_def se_bind_def se_return_def)
qed

section \<open>Properties\<close>

text \<open>
  C10: Saving makes progress. After any sequence of saves, interrupted or not, a save during which no
  write fails, with the writer lock free (absent, or older than 15 minutes and left by a process that is
  gone), succeeds for every chain with more work than the one a load would give, and a load then gives the new chain.
\<close>

theorem better_chain_saved:
  assumes J: "codec_ok J" and ok: "events_ok X S (earlier @ [ev])" and "\<not> fast_storage_exists d"
    and "fst (snd ev) = (\<lambda>_. False)" and "lock_free (fst ev) (saves J X S earlier d)"
    and better: "\<And>c i. load_fast_chain J X S (saves J X S earlier d) False = Inr (c, i) \<Longrightarrow>
      \<exists>w w'. chain_work_for_blocks (cs_blocks c) = Inr w \<and> chain_work_for_blocks (cs_blocks (event_chain ev)) = Inr w' \<and> w < w'"
  shows "\<exists>e i. save_on J X S ev (saves J X S earlier d) = (Inr (), e) \<and>
    load_fast_chain J X S e full = Inr (event_chain ev, i)"
proof -
  let ?d = "saves J X S earlier d" and ?evs = "earlier @ [ev]"
  obtain E f c' where ev: "ev = (E, f, c')" by (cases ev)
  let ?d' = "?d\<lparr>dk_fails := f\<rparr>"
  have none: "no_storage d" using assms(3) by (simp add: no_storage_iff)
  have ok': "storable X S c'" using event_ok(1) [OF ok, of ev] ev by (simp add: event_chain_def)
  have steady: "steady ?d'" "lock_free E ?d'"
    using assms(4,5) ev by (auto simp: steady_def lock_free_def fast_file_def lock_owner_alive_def)
  have "\<exists>e. persist_chain J X S E c' ?d' = (Inr (), e)"
    using J ok none
  proof (cases rule: earlier_saves)
    case none
    then show ?thesis using persist_first_succeeds [OF J ok' _ steady] by (auto simp: no_storage_def fast_file_def)
  next
    case (some c)
    have c: "storable X S c" "no_hash_collision X (cs_blocks c) (cs_blocks c')"
      using event_ok(3) [OF ok, of ev c] some(1) ev by (auto simp: event_chain_def)
    from some(2) obtain p where p: "stored J X ?d fast_pointer_file p c"
      "unat (ptr_generation p) \<le> clock_bound ?evs + length earlier + 1" "unat (ptr_state_revision p) \<le> length earlier + 1"
      by (auto simp: holds_def)
    have "length ?evs + 3 \<le> 2 ^ 64" using ok by (auto simp: events_ok_def)
    then have "unat (ptr_generation p) + 1 < 2 ^ 64" "unat (ptr_state_revision p) + 1 < 2 ^ 64"
      using p(2,3) by (simp_all add: clock_bound_def)
    moreover from better [OF stored_loads [OF p(1) c(1) J]] ev obtain w w' where
      "chain_work_for_blocks (cs_blocks c) = Inr w" "chain_work_for_blocks (cs_blocks c') = Inr w'" "w < w'"
      by (auto simp: event_chain_def)
    ultimately show ?thesis using persist_better_succeeds [OF J c(1) ok' c(2) stored_fails [OF p(1)] _ _ _ _ _ steady] by blast
  qed
  then obtain e where e: "save_on J X S ev ?d = (Inr (), e)" by (auto simp: save_on_def ev)
  from returned_save_holds [OF J ok none e] obtain p where "stored J X e fast_pointer_file p (event_chain ev)"
    by (auto simp: holds_def)
  from stored_loads [OF this _ J] ok' ev e show ?thesis by (auto simp: event_chain_def)
qed

text \<open>
  C11: The commit before the last one is a working backup. When two saves in a row returned, and then
  the current commit is damaged in any way that its readers notice (\<open>CURRENT.json\<close> or its state file are
  lost, truncated or overwritten), the next start recovers the chain of the first of the two saves.
\<close>

theorem previous_commit_recovered:
  assumes J: "codec_ok J" and ok: "events_ok X S (earlier @ [ev1, ev2])" and "\<not> fast_storage_exists d"
    and s1: "save_on J X S ev1 (saves J X S earlier d) = (Inr (), d1)" and s2: "save_on J X S ev2 d1 = (Inr (), d2)"
    and q: "read_pointer_path J S d2 fast_pointer_file = Inr q"
    and damaged: "\<And>n. n \<notin> {fast_pointer_file, ptr_state_file q} \<Longrightarrow> fast_file e n = fast_file d2 n"
    and unusable: "load_fast_chain_from_pointer_path J X S e full fast_pointer_file = Inl x"
  shows "\<exists>i. load_fast_chain J X S e full = Inr (event_chain ev1, i)"
proof -
  let ?evs = "earlier @ ev1 # [ev2]"
  obtain E f c' where ev2: "ev2 = (E, f, c')" by (cases ev2)
  let ?c = "event_chain ev1"
  have none: "no_storage d" using assms(3) by (simp add: no_storage_iff)
  have ok1: "storable X S ?c" and ok2: "storable X S c'" and nc: "no_hash_collision X (cs_blocks ?c) (cs_blocks c')"
    using event_ok(1,3) [OF ok, of ev2] event_ok(1) [OF ok, of ev1] ev2 by (auto simp: event_chain_def)
  from returned_save_holds [OF J ok none s1] obtain p where p: "stored J X d1 fast_pointer_file p ?c"
    "unat (ptr_generation p) \<le> clock_bound ?evs + length earlier + 2" "unat (ptr_state_revision p) \<le> length earlier + 2"
    by (auto simp: holds_def)
  have "length ?evs + 3 \<le> 2 ^ 64" using ok by (auto simp: events_ok_def)
  then have room: "unat (ptr_generation p) + 1 < 2 ^ 64" "unat (ptr_state_revision p) + 1 < 2 ^ 64"
    using p(2,3) by (simp_all add: clock_bound_def)
  from s2 ev2 have "persist_chain J X S E c' (d1\<lparr>dk_fails := f\<rparr>) = (Inr (), d2)" by (simp add: save_on_def)
  from outcomeD(1) [OF persist_outcome [OF J ok1 ok2 nc room] stored_fails [OF p(1)] this refl]
  obtain r where r: "stored J X d2 fast_pointer_file r c'" "stored J X d2 fast_previous_pointer_file p ?c"
    and adv: "advances p (ptr_generation r) (ptr_state_revision r)" by (auto simp: replaced_def committed_def)
  have "r = q" using stored_pointer [OF r(1) ok2 J] q by simp
  then have "ptr_state_file q \<noteq> ptr_state_file p" "ptr_state_file q \<noteq> ptr_blocks_file p" "ptr_state_file q \<noteq> fast_previous_pointer_file"
    using adv stored_names [OF r(1)] stored_names [OF r(2)] by (auto simp: advances_def)
  then have st: "stored J X e fast_previous_pointer_file p ?c"
    by (intro stored_agree [OF r(2)] damaged) (auto simp: stored_names [OF r(2)])
  then have "fast_file e fast_previous_pointer_file \<noteq> None" by (auto simp: stored_def)
  with unusable stored_loads_path [OF st ok1 J] show ?thesis
    by (simp add: load_fast_chain_def load_fast_chain_once_def with_previous_def)
qed

text \<open>
  C12: The compatibility export is the committed chain. Directly after a save that returned, an export that
  succeeds writes a \<open>chain.json\<close> which an older version, or a node without a Fast Chain Engine, loads as exactly
  the saved chain, passing every check on blocks, coins and network. The text of the file is put together
  by the program and taken apart by field names; \<open>json_ok\<close> only says that \<open>serde_json\<close> finds the values
  of a JSON array or object.
\<close>

theorem exported_chain_imports:
  assumes J: "codec_ok J" and L: "json_ok J" and ok: "events_ok X S (earlier @ [ev])" and "\<not> fast_storage_exists d"
    and s: "save_on J X S ev (saves J X S earlier d) = (Inr (), e)"
    and x: "export_chain_json_to J X S chain_file e = (Inr r, e')"
  shows "rbind (read_chain_json J e') (from_persisted X S) = Inr (event_chain ev)"
proof -
  let ?c = "event_chain ev"
  have "no_storage d" using assms(4) by (simp add: no_storage_iff)
  from returned_save_holds [OF J ok this s] obtain p where st: "stored J X e fast_pointer_file p ?c" by (auto simp: holds_def)
  have ok': "storable X S ?c" using event_ok(1) [OF ok, of ev] by simp
  let ?t = "chain_json_text J (cs_network ?c) (map (block_json J) (cs_blocks ?c)) (sorted_utxos X ?c) (cs_mempool ?c)"
  from x export_text [OF st ok' J, of chain_file] have "replace_data chain_file ?t e = (Inr (), e')"
    by (auto simp: se_then_ok se_return_ok)
  then have "data_file e' chain_file = Some ?t" unfolding replace_data_def by (cases rule: attempt_cases) auto
  then have "read_chain_json J e' = Inr (to_persisted X ?c)"
    using chain_json_read [OF J L] by (simp add: read_chain_json_def ok_or_def to_persisted_def sorted_utxos_def)
  with chain_ok_restored [of X S ?c] ok' show ?thesis by (simp add: storable_def)
qed

end
