(* ===== verification/Mining.thy ===== *)
theory Mining
  imports NodeSafety
begin

text \<open>
  Block templates and mining (\<open>src/lib.rs\<close>): which pending transactions a template takes, the
  coinbase, solo and pool templates, and the search for a nonce. The loop over the ordinary
  transactions works on copies of the registries that a failing transaction leaves untouched, so a
  turn of it is a function to \<open>result\<close>. The search is a partial function: \<open>None\<close> is a search that
  never ends. The pause of a reduced duty cycle has no effect on the result and is left out.
\<close>

section \<open>The coinbase\<close>

definition create_coinbase :: "u32 \<Rightarrow> u64 \<Rightarrow> address \<Rightarrow> u64 \<Rightarrow> transaction result" where
  "create_coinbase height value_atoms a extra_nonce =
     rbind (amount_from_atoms value_atoms) (\<lambda>value.
     Inr \<lparr>tx_version = 1,
       tx_inputs = [\<lparr>previous_output = outpoint_null,
         signature_script = u32_le height @ u64_le extra_nonce @ ''/QUB Core v1.4.8/'', sequence = U32_MAX\<rparr>],
       tx_outputs = [\<lparr>out_value = value, script_pubkey = address_script_pubkey a\<rparr>], tx_locktime = 0\<rparr>)"

section \<open>The transactions of a template\<close>

record template =
  tp_pool :: pool_context
  tp_qns_seen :: "string set"
  tp_jin :: jin_state
  tp_sold :: jin_sold
  tp_library :: library_state
  tp_gov :: gov_state
  tp_scratch :: utxo_map
  tp_fees :: u64
  tp_txs :: "transaction list"

definition template_full :: "settings \<Rightarrow> transaction list \<Rightarrow> bool" where
  "template_full S txs = (length txs + 1 \<ge> unat (cons_max_block_transactions (consensus S)))"

text \<open>The pool shares: the context, and the shares taken so far, which count from \<open>selected\<close>.\<close>

fun template_shares ::
  "extern \<Rightarrow> settings \<Rightarrow> chain_state \<Rightarrow> u32 \<Rightarrow> transaction list \<Rightarrow> pool_context \<times> transaction list \<Rightarrow>
    pool_context \<times> transaction list" where
  "template_shares X S c height [] st = st"
| "template_shares X S c height (tx # shares) (ctx, txs) =
     (if template_full S txs then (ctx, txs)
      else if length txs \<ge> unat (ps_max_share_txs_per_block (pools S))
      then template_shares X S c height shares (ctx, txs)
      else if \<not> is_ok (validate_tx_contextual X tx (cs_utxos c) height S True)
      then template_shares X S c height shares (ctx, txs)
      else (case pool_validate_and_apply X S tx (cs_blocks c) (cs_utxos c) height 0 ctx of
          (Inl _, ctx) \<Rightarrow> template_shares X S c height shares (ctx, txs)
        | (Inr _, ctx) \<Rightarrow> template_shares X S c height shares (ctx, txs @ [tx])))"

text \<open>The fees required on top, \<open>u64::MAX\<close> for one that cannot be computed.\<close>

definition or_max :: "u64 result \<Rightarrow> u64" where
  "or_max r = (case r of Inl _ \<Rightarrow> - 1 | Inr v \<Rightarrow> v)"

definition template_extra_fee :: "extern \<Rightarrow> settings \<Rightarrow> transaction \<Rightarrow> u32 \<Rightarrow> u64 option" where
  "template_extra_fee X S tx height =
     Option.bind (checked_add (or_max (qns_miner_fee_required_in_tx X S tx height))
       (or_max (library_miner_fee_required_in_tx X S tx height))) (\<lambda>v.
     checked_add v (or_max (jin_swap_miner_fee_required_in_tx X S tx height)))"

text \<open>One ordinary transaction; an error means that the template goes on without it.\<close>

definition template_tx ::
  "extern \<Rightarrow> settings \<Rightarrow> block list \<Rightarrow> u32 \<Rightarrow> string option \<Rightarrow> qns_registry \<Rightarrow> transaction \<Rightarrow> template \<Rightarrow> template result" where
  "template_tx X S blocks height miner registry tx t = (let scratch = tp_scratch t in
     rbind (hf106_jin_sale_standardness_policy X tx S) (\<lambda>_.
     rbind (validate_tx_contextual X tx scratch height S True) (\<lambda>raw_fee.
     rbind (qub_jin_melt_burn_atoms_for_fee X S tx height) (\<lambda>qub_melt_burn.
     if raw_fee < qub_melt_burn then Inl (BlockErr MeltBurnExceedsDelta) else
     let fee = raw_fee - qub_melt_burn in
     rbind (ok_or (BlockErr ExtraFeeOverflow) (template_extra_fee X S tx height)) (\<lambda>required.
     if fee < required then Inl (BlockErr MinerFeeUnderpayment) else
     rbind (validate_qns_transaction_with_registry X S height registry tx (tp_qns_seen t)) (\<lambda>qns_seen.
     rbind (se_run (pool_validate_and_apply X S tx blocks scratch height raw_fee) (tp_pool t)) (\<lambda>pool.
     case validate_jin_transaction_with_ledger X S tx scratch height miner (fst (tp_jin t)) of
       (Inl e, _) \<Rightarrow> Inl e
     | (Inr _, ledger) \<Rightarrow>
     rbind (se_run (validate_qub_jin_infusion_transaction_with_state X S tx scratch height) (ledger, snd (tp_jin t)))
       (\<lambda>(ledger, infusion).
     let purchases = jin_sale_purchases_in_tx X tx S in
     rbind (if purchases = [] then Inr (tp_sold t, 0)
       else validate_jin_sale_purchase_state X S purchases tx scratch height (tp_sold t)) (\<lambda>(sold, _).
     rbind (validate_library_transaction_with_state X S tx (tp_library t) scratch height) (\<lambda>_.
     rbind (validate_verified_governance_transaction_with_state X S tx scratch blocks height (tp_gov t, ledger))
       (\<lambda>(gov, ledger).
     rbind (connect_tx_utxos X tx height False scratch) (\<lambda>scratch.
     let markers = map (fst \<circ> snd) (library_markers_in_tx X tx S) in
     rbind (if markers = [] then Inr (tp_library t)
       else library_apply_markers S (hash_to_string X (txid X tx)) height (unix_now X) markers (tp_library t)) (\<lambda>lib.
     Inr \<lparr>tp_pool = pool, tp_qns_seen = qns_seen, tp_jin = (ledger, infusion), tp_sold = sold, tp_library = lib,
       tp_gov = gov, tp_scratch = scratch, tp_fees = sat_add (tp_fees t) fee, tp_txs = tp_txs t @ [tx]\<rparr>)))))))))))))"

fun template_ordinary ::
  "extern \<Rightarrow> settings \<Rightarrow> block list \<Rightarrow> u32 \<Rightarrow> string option \<Rightarrow> qns_registry \<Rightarrow> transaction list \<Rightarrow> template \<Rightarrow> template" where
  "template_ordinary X S blocks height miner registry [] t = t"
| "template_ordinary X S blocks height miner registry (tx # txs) t =
     (if template_full S (tp_txs t) then t else
      (case template_tx X S blocks height miner registry tx t of
         Inl _ \<Rightarrow> template_ordinary X S blocks height miner registry txs t
       | Inr t \<Rightarrow> template_ordinary X S blocks height miner registry txs t))"

text \<open>The registries an ordinary transaction is checked against.\<close>

definition template_start ::
  "extern \<Rightarrow> settings \<Rightarrow> chain_state \<Rightarrow> u32 \<Rightarrow> pool_context \<Rightarrow> transaction list \<Rightarrow> (qns_registry \<times> template) result" where
  "template_start X S c height ctx txs =
     rbind (jin_states_at X S (cs_blocks c) (chain_height c) height) (\<lambda>jin.
     rbind (qns_registry_from_blocks X S (cs_blocks c)) (\<lambda>registry.
     rbind (library_state_from_blocks X S (cs_blocks c)) (\<lambda>lib.
     rbind (verified_governance_state_from_blocks X S (cs_blocks c)) (\<lambda>gov.
     rbind (jin_sale_sold_by_listing_from_blocks X S (cs_blocks c)) (\<lambda>sold.
     Inr (registry, \<lparr>tp_pool = ctx, tp_qns_seen = {}, tp_jin = jin, tp_sold = sold, tp_library = lib, tp_gov = gov,
       tp_scratch = cs_utxos c, tp_fees = 0, tp_txs = txs\<rparr>))))))"

definition candidate_mempool_transactions ::
  "extern \<Rightarrow> settings \<Rightarrow> chain_state \<Rightarrow> u32 \<Rightarrow> string option \<Rightarrow> (transaction list \<times> u64) result" where
  "candidate_mempool_transactions X S c height miner =
     rbind (pool_context_from_confirmed X S (cs_blocks c) height) (\<lambda>ctx.
     let shares = sort_by (share_order X) (filter is_pool_share_transaction (cs_mempool c));
         ordinary = take (unat (hf115_template_scan_limit S))
           (by_priority X S (filter (\<lambda>tx. \<not> is_pool_share_transaction tx) (cs_mempool c)))
     in (case template_shares X S c height shares (ctx, []) of (ctx, txs) \<Rightarrow>
       if template_full S txs \<or> ordinary = [] then Inr (txs, 0) else
       rbind (template_start X S c height ctx txs) (\<lambda>(registry, t).
       let t = template_ordinary X S (cs_blocks c) height miner registry ordinary t in
       Inr (tp_txs t, tp_fees t))))"

section \<open>Templates\<close>

record candidate_block_parts =
  cp_height :: u32
  cp_prev_block_hash :: hash256
  cp_time :: u32
  cp_bits :: u32
  cp_version :: u32
  cp_reward_atoms :: u64
  cp_non_coinbase_transactions :: "transaction list"

definition build_candidate_block_parts ::
  "extern \<Rightarrow> settings \<Rightarrow> chain_state \<Rightarrow> string option \<Rightarrow> candidate_block_parts result" where
  "build_candidate_block_parts X S c miner =
     (let height = sat_add (chain_height c) 1 in
      rbind (candidate_mempool_transactions X S c height miner) (\<lambda>(transactions, fees).
      rbind (ok_or (ChainErr RewardOverflow) (checked_add (block_subsidy (ucast height) S) fees)) (\<lambda>reward_atoms.
      rbind (required_work_bits S (cs_blocks c) height) (\<lambda>bits.
      Inr \<lparr>cp_height = height, cp_prev_block_hash = tip_hash X c, cp_time = unix_now X, cp_bits = bits,
        cp_version = expected_block_version S height, cp_reward_atoms = reward_atoms,
        cp_non_coinbase_transactions = transactions\<rparr>))))"

definition block_from_candidate_parts :: "extern \<Rightarrow> candidate_block_parts \<Rightarrow> transaction \<Rightarrow> block" where
  "block_from_candidate_parts X parts coinbase =
     (let transactions = coinbase # cp_non_coinbase_transactions parts in
      \<lparr>blk_header =
         \<lparr>hdr_version = cp_version parts, hdr_prev_block_hash = cp_prev_block_hash parts,
          hdr_merkle_root = merkle_root X (map (txid X) transactions), hdr_time = cp_time parts,
          hdr_bits = cp_bits parts, hdr_nonce = 0\<rparr>,
       blk_transactions = transactions\<rparr>)"

definition build_candidate_block :: "extern \<Rightarrow> settings \<Rightarrow> chain_state \<Rightarrow> address \<Rightarrow> u64 \<Rightarrow> block result" where
  "build_candidate_block X S c miner extra_nonce =
     rbind (build_candidate_block_parts X S c (Some (address_to_string X miner))) (\<lambda>parts.
     rbind (create_coinbase (cp_height parts) (cp_reward_atoms parts) miner extra_nonce) (\<lambda>coinbase.
     Inr (block_from_candidate_parts X parts coinbase)))"

definition pool_coinbase :: "extern \<Rightarrow> u32 \<Rightarrow> u64 \<Rightarrow> hash256 \<Rightarrow> tx_out list \<Rightarrow> transaction" where
  "pool_coinbase X height extra_nonce pool_id outputs =
     \<lparr>tx_version = 1,
      tx_inputs = [\<lparr>previous_output = outpoint_null,
        signature_script = pool_block_marker_script X height extra_nonce pool_id, sequence = U32_MAX\<rparr>],
      tx_outputs = outputs, tx_locktime = 0\<rparr>"

definition build_candidate_pool_block ::
  "extern \<Rightarrow> settings \<Rightarrow> chain_state \<Rightarrow> hash256 \<Rightarrow> u64 \<Rightarrow> block result" where
  "build_candidate_pool_block X S c pool_id extra_nonce =
     (let height = chain_height c + 1 in
      if \<not> pools_active S height then Inl (PoolErr PoolInactive) else
      rbind (pools_registry_from_blocks X S (cs_blocks c)) (\<lambda>registry.
      if fmlookup registry pool_id = None then Inl (PoolErr PoolUnknown) else
      rbind (build_candidate_block_parts X S c None) (\<lambda>parts.
      rbind (expected_pool_coinbase_outputs X S (cs_blocks c) pool_id (ucast (cp_reward_atoms parts))) (\<lambda>outputs.
      Inr (block_from_candidate_parts X parts (pool_coinbase X (cp_height parts) extra_nonce pool_id outputs))))))"

section \<open>The search\<close>

record mining_options =
  mo_duty_cycle_percent :: u8
  mo_max_hashes :: "u64 option"

definition mining_options_from_settings :: "settings \<Rightarrow> mining_options" where
  "mining_options_from_settings S =
     \<lparr>mo_duty_cycle_percent = mine_duty_cycle_percent (mining S), mo_max_hashes = None\<rparr>"

definition with_nonce :: "u32 \<Rightarrow> block \<Rightarrow> block" where
  "with_nonce n b = b\<lparr>blk_header := (blk_header b)\<lparr>hdr_nonce := n\<rparr>\<rparr>"

definition hashes_spent :: "u64 option \<Rightarrow> u64 \<Rightarrow> bool" where
  "hashes_spent max_hashes hashes = (case max_hashes of None \<Rightarrow> False | Some m \<Rightarrow> hashes \<ge> m)"

text \<open>
  The inner loop over the nonces of one template and the outer loop over the extra nonces, as one
  recursion: \<open>build\<close> makes the template of an extra nonce.
\<close>

partial_function (option) mine_search ::
  "extern \<Rightarrow> (u64 \<Rightarrow> block result) \<Rightarrow> u64 option \<Rightarrow> u64 \<Rightarrow> block \<Rightarrow> u32 \<Rightarrow> u64 \<Rightarrow> block result option" where
  "mine_search X build max_hashes extra b nonce hashes =
     (case verify_header_pow X (blk_header (with_nonce nonce b)) of
        Inl e \<Rightarrow> Some (Inl e)
      | Inr found \<Rightarrow>
          if found then Some (Inr (with_nonce nonce b))
          else if hashes_spent max_hashes (sat_add hashes 1) then Some (Inl (ChainErr MaxHashesReached))
          else if nonce < U32_MAX then mine_search X build max_hashes extra b (nonce + 1) (sat_add hashes 1)
          else (case build (extra + 1) of
              Inl e \<Rightarrow> Some (Inl e)
            | Inr b \<Rightarrow> mine_search X build max_hashes (extra + 1) b 0 (sat_add hashes 1)))"

definition mine_templates ::
  "extern \<Rightarrow> (u64 \<Rightarrow> block result) \<Rightarrow> mining_options \<Rightarrow> block result option" where
  "mine_templates X build options =
     (if mo_duty_cycle_percent options = 0 \<or> mo_duty_cycle_percent options > 100
      then Some (Inl (SettingsErr InvalidDutyCycle))
      else (case build 0 of
          Inl e \<Rightarrow> Some (Inl e)
        | Inr b \<Rightarrow> mine_search X build (mo_max_hashes options) 0 b 0 0))"

definition mine_next_block ::
  "extern \<Rightarrow> settings \<Rightarrow> chain_state \<Rightarrow> address \<Rightarrow> mining_options \<Rightarrow> block result option" where
  "mine_next_block X S c miner = mine_templates X (build_candidate_block X S c miner)"

definition mine_next_pool_block ::
  "extern \<Rightarrow> settings \<Rightarrow> chain_state \<Rightarrow> hash256 \<Rightarrow> mining_options \<Rightarrow> block result option" where
  "mine_next_pool_block X S c pool_id = mine_templates X (build_candidate_pool_block X S c pool_id)"

definition mining_payout_label :: "extern \<Rightarrow> settings \<Rightarrow> block \<Rightarrow> string \<times> string" where
  "mining_payout_label X S b =
     (case parse_pool_block_marker X b of
        Some pool_id \<Rightarrow> (''pool:'' @ hash_to_string X pool_id, ''pool'')
      | None \<Rightarrow>
          (case coinbase_miner_address X S b of
             Some a \<Rightarrow> (a, ''solo'')
           | None \<Rightarrow> (''unknown'', ''unknown'')))"

section \<open>The search ends\<close>

lemma sat_add_one_less: "sat_add h 1 < m \<Longrightarrow> unat (sat_add h 1) = unat h + 1" for h m :: u64
  by (auto simp: sat_add_def unat_word_ariths split: if_split_asm)

text \<open>With a limit on the hashes.\<close>

lemma mine_search_bounded: "\<exists>r. mine_search X build (Some m) extra b nonce hashes = Some r"
proof (induction "unat m - unat hashes" arbitrary: extra b nonce hashes rule: less_induct)
  case less
  let ?more = "sat_add hashes 1"
  have go: "\<exists>r. mine_search X build (Some m) e b' n ?more = Some r" if "\<not> hashes_spent (Some m) ?more" for e b' n
  proof -
    from that have "?more < m" by (simp add: hashes_spent_def)
    with sat_add_one_less [OF this] have "unat m - unat ?more < unat m - unat hashes"
      by (simp add: word_less_nat_alt)
    then show ?thesis by (rule less)
  qed
  show ?case by (subst mine_search.simps) (use go in \<open>auto split: sum.splits\<close>)
qed

text \<open>When some nonce of the template meets the target.\<close>

lemma mine_search_reaches:
  assumes "verify_header_pow X (blk_header (with_nonce n b)) = Inr True"
  shows "nonce \<le> n \<Longrightarrow> \<exists>r. mine_search X build max_hashes extra b nonce hashes = Some r"
proof (induction "unat n - unat nonce" arbitrary: nonce hashes rule: less_induct)
  case less
  show ?case
  proof (cases "nonce = n")
    case True
    with assms show ?thesis by (subst mine_search.simps) simp
  next
    case False
    with less.prems have l: "nonce < n" by simp
    then have max: "nonce < U32_MAX" using unat_bound [of n] by (simp add: U32_MAX_def word_less_nat_alt)
    then have u: "unat (nonce + 1) = unat nonce + 1" by (simp add: U32_MAX_def word_less_nat_alt unat_word_ariths)
    with l have le: "nonce + 1 \<le> n" by (simp add: word_le_nat_alt word_less_nat_alt)
    from l u have "unat n - unat (nonce + 1) < unat n - unat nonce" by (simp add: word_less_nat_alt)
    from less.hyps [OF this le] max show ?thesis
      by (subst mine_search.simps) (auto split: sum.splits)
  qed
qed

text \<open>A block that is returned comes from a template and meets its target.\<close>

definition found_block :: "extern \<Rightarrow> (u64 \<Rightarrow> block result) \<Rightarrow> block \<Rightarrow> bool" where
  "found_block X build b \<longleftrightarrow>
     (\<exists>e t n. build e = Inr t \<and> b = with_nonce n t) \<and> verify_header_pow X (blk_header b) = Inr True"

lemma mine_search_found:
  assumes "mine_search X build max_hashes extra b nonce hashes = Some r"
  shows "build extra = Inr b \<longrightarrow> (\<forall>b'. r = Inr b' \<longrightarrow> found_block X build b')"
proof (rule mine_search.raw_induct [OF _ assms,
    where P = "\<lambda>X build max_hashes extra b nonce hashes r.
      build extra = Inr b \<longrightarrow> (\<forall>b'. r = Inr b' \<longrightarrow> found_block X build b')"])
  fix search :: "extern \<Rightarrow> (u64 \<Rightarrow> block result) \<Rightarrow> u64 option \<Rightarrow> u64 \<Rightarrow> block \<Rightarrow> u32 \<Rightarrow> u64 \<Rightarrow> block result option"
    and X :: extern and build :: "u64 \<Rightarrow> block result" and max_hashes :: "u64 option" and extra :: u64
    and b :: block and nonce :: u32 and hashes :: u64 and r :: "block result"
  let ?more = "sat_add hashes 1"
  assume IH: "\<And>X build max_hashes extra b nonce hashes r. search X build max_hashes extra b nonce hashes = Some r \<Longrightarrow>
      build extra = Inr b \<longrightarrow> (\<forall>b'. r = Inr b' \<longrightarrow> found_block X build b')"
    and step: "(case verify_header_pow X (blk_header (with_nonce nonce b)) of
        Inl e \<Rightarrow> Some (Inl e)
      | Inr found \<Rightarrow>
          if found then Some (Inr (with_nonce nonce b))
          else if hashes_spent max_hashes ?more then Some (Inl (ChainErr MaxHashesReached))
          else if nonce < U32_MAX then search X build max_hashes extra b (nonce + 1) ?more
          else (case build (extra + 1) of
              Inl e \<Rightarrow> Some (Inl e)
            | Inr b \<Rightarrow> search X build max_hashes (extra + 1) b 0 ?more)) = Some r"
  from IH [of X build max_hashes extra b "nonce + 1" ?more r] IH [of X build max_hashes "extra + 1" _ 0 ?more r] step
  show "build extra = Inr b \<longrightarrow> (\<forall>b'. r = Inr b' \<longrightarrow> found_block X build b')"
    by (auto simp: found_block_def split: sum.split_asm if_split_asm)
qed

lemma mine_templates_found:
  assumes "mine_templates X build options = Some (Inr b)"
  shows "found_block X build b"
  using assms by (auto simp: mine_templates_def split: if_split_asm sum.split_asm dest: mine_search_found)

lemma mine_templates_ends:
  assumes "mo_max_hashes options \<noteq> None \<or> (\<exists>t n. build 0 = Inr t \<and> verify_header_pow X (blk_header (with_nonce n t)) = Inr True)"
  shows "\<exists>r. mine_templates X build options = Some r"
proof (cases "build 0")
  case (Inr t)
  from assms show ?thesis
  proof
    assume "mo_max_hashes options \<noteq> None"
    with Inr mine_search_bounded show ?thesis by (auto simp: mine_templates_def)
  next
    assume "\<exists>t n. build 0 = Inr t \<and> verify_header_pow X (blk_header (with_nonce n t)) = Inr True"
    with Inr obtain n where "verify_header_pow X (blk_header (with_nonce n t)) = Inr True" by auto
    from mine_search_reaches [OF this, of 0] Inr show ?thesis by (simp add: mine_templates_def)
  qed
qed (simp add: mine_templates_def)

end
