(* ===== verification/Template.thy ===== *)
theory Template
  imports Mining
begin

text \<open>
  A mined template is a valid block: the turns of the template loop are, registry by registry, the
  turns of the block checks (interpretations of \<open>checked_replay\<close>), so the block a miner finds connects
  to the chain the template was built on. The exceptions are governance markers, where the template
  and the block check use different JIN ledgers, and pool blocks with a melt.
\<close>

section \<open>What is selected\<close>

lemma template_tx_Inr:
  assumes "template_tx X S bs h miner reg tx t = Inr t'"
  obtains raw burn required units ledger ledger1 sold_fee where
    "validate_tx_contextual X tx (tp_scratch t) h S True = Inr raw"
    and "qub_jin_melt_burn_atoms_for_fee X S tx h = Inr burn" and "burn \<le> raw"
    and "template_extra_fee X S tx h = Some required" and "required \<le> raw - burn"
    and "validate_qns_transaction_with_registry X S h reg tx (tp_qns_seen t) = Inr (tp_qns_seen t')"
    and "se_run (pool_validate_and_apply X S tx bs (tp_scratch t) h raw) (tp_pool t) = Inr (tp_pool t')"
    and "validate_jin_transaction_with_ledger X S tx (tp_scratch t) h miner (fst (tp_jin t)) = (Inr units, ledger)"
    and "se_run (validate_qub_jin_infusion_transaction_with_state X S tx (tp_scratch t) h) (ledger, snd (tp_jin t)) =
      Inr (ledger1, snd (tp_jin t'))"
    and "validate_jin_sale_purchase_state X S (jin_sale_purchases_in_tx X tx S) tx (tp_scratch t) h (tp_sold t) =
      Inr (tp_sold t', sold_fee)"
    and "validate_library_transaction_with_state X S tx (tp_library t) (tp_scratch t) h = Inr ()"
    and "validate_verified_governance_transaction_with_state X S tx (tp_scratch t) bs h (tp_gov t, ledger1) =
      Inr (tp_gov t', fst (tp_jin t'))"
    and "connect_tx_utxos X tx h False (tp_scratch t) = Inr (tp_scratch t')"
    and "library_apply_markers S (hash_to_string X (txid X tx)) h (unix_now X)
      (map (fst \<circ> snd) (library_markers_in_tx X tx S)) (tp_library t) = Inr (tp_library t')"
    and "tp_fees t' = sat_add (tp_fees t) (raw - burn)" and "tp_txs t' = tp_txs t @ [tx]"
proof -
  obtain r ledger where run: "validate_jin_transaction_with_ledger X S tx (tp_scratch t) h miner (fst (tp_jin t)) = (r, ledger)"
    by (cases "validate_jin_transaction_with_ledger X S tx (tp_scratch t) h miner (fst (tp_jin t))")
  have sale: "(if ps = [] then Inr (sold, 0) else validate_jin_sale_purchase_state X S ps tx u h sold) =
      validate_jin_sale_purchase_state X S ps tx u h sold" for ps u sold
    by (simp add: validate_jin_sale_purchase_state_def)
  have lib: "(if ms = [] then Inr l else library_apply_markers S i h n ms l) = library_apply_markers S i h n ms l" for ms l i n
    by (simp add: library_apply_markers_def)
  from assms run show thesis
    by (cases r) (auto simp: template_tx_def Let_def result_simps sale lib not_less intro!: that)
qed

lemma template_shares_sel:
  assumes "template_shares X S c h shares (ctx, txs) = (ctx', txs')" and "\<forall>tx \<in> set shares. is_pool_share_transaction tx"
  shows "\<exists>sel. txs' = txs @ sel \<and> subseq sel shares \<and>
    fold_r (\<lambda>tx. se_run (pool_validate_and_apply X S tx (cs_blocks c) (cs_utxos c) h 0)) sel ctx = Inr ctx' \<and>
    (sel \<noteq> [] \<longrightarrow> length txs' < unat (cons_max_block_transactions (consensus S)) \<and>
      length txs' \<le> unat (ps_max_share_txs_per_block (pools S)))"
  using assms
proof (induction shares arbitrary: ctx txs)
  case (Cons tx shares)
  let ?run = "pool_validate_and_apply X S tx (cs_blocks c) (cs_utxos c) h 0 ctx"
  have skip: ?case if "template_shares X S c h shares (ctx, txs) = (ctx', txs')"
    using Cons.IH [OF that] Cons.prems(2) by auto
  show ?case
  proof (cases "\<not> template_full S txs \<and> length txs < unat (ps_max_share_txs_per_block (pools S)) \<and>
      is_ok (validate_tx_contextual X tx (cs_utxos c) h S True)")
    case True
    obtain r ctx1 where run: "?run = (r, ctx1)" by (cases ?run)
    show ?thesis
    proof (cases r)
      case (Inl e)
      have "is_pool_share_transaction tx" using Cons.prems(2) by simp
      then have "ctx1 = ctx"
        using run Inl by (auto simp: pool_validate_and_apply_def pool_context_share_def se_return_def se_fail_def se_bind_def
            se_need_def se_modify_def Let_def split: if_split_asm sum.split_asm)
      with Cons.prems(1) True run Inl skip show ?thesis by (simp add: not_less [symmetric])
    next
      case (Inr u)
      with Cons.prems(1) True run have r: "template_shares X S c h shares (ctx1, txs @ [tx]) = (ctx', txs')"
        by (simp add: not_less [symmetric])
      from Cons.IH [OF r] Cons.prems(2) obtain sel where "txs' = txs @ tx # sel" "subseq sel shares"
        "fold_r (\<lambda>tx. se_run (pool_validate_and_apply X S tx (cs_blocks c) (cs_utxos c) h 0)) sel ctx1 = Inr ctx'"
        "sel \<noteq> [] \<longrightarrow> length txs' < unat (cons_max_block_transactions (consensus S)) \<and>
          length txs' \<le> unat (ps_max_share_txs_per_block (pools S))" by auto
      moreover have "se_run (pool_validate_and_apply X S tx (cs_blocks c) (cs_utxos c) h 0) ctx = Inr ctx1"
        using run Inr by (simp add: se_run_def)
      ultimately show ?thesis
        using True by (intro exI [of _ "tx # sel"]) (auto simp: template_full_def)
    qed
  next
    case False
    show ?thesis
    proof (cases "template_full S txs")
      case True
      with Cons.prems(1) show ?thesis by (intro exI [of _ "[]"]) simp
    next
      case no: False
      with False Cons.prems(1) have "template_shares X S c h shares (ctx, txs) = (ctx', txs')" by (auto split: if_split_asm)
      then show ?thesis by (rule skip)
    qed
  qed
qed simp

lemma template_ordinary_sel:
  "\<exists>sel. tp_txs (template_ordinary X S bs h miner reg txs t) = tp_txs t @ sel \<and> subseq sel txs \<and>
    fold_r (template_tx X S bs h miner reg) sel t = Inr (template_ordinary X S bs h miner reg txs t) \<and>
    (sel \<noteq> [] \<longrightarrow> length (tp_txs t @ sel) < unat (cons_max_block_transactions (consensus S)))"
proof (induction txs arbitrary: t)
  case (Cons tx txs)
  show ?case
  proof (cases "template_full S (tp_txs t)")
    case False
    show ?thesis
    proof (cases "template_tx X S bs h miner reg tx t")
      case (Inl e)
      with False Cons.IH [of t] show ?thesis by auto
    next
      case (Inr t1)
      then have t1: "tp_txs t1 = tp_txs t @ [tx]" by (rule template_tx_Inr)
      from Cons.IH [of t1] obtain sel where "tp_txs (template_ordinary X S bs h miner reg txs t1) = tp_txs t1 @ sel"
        "subseq sel txs" "fold_r (template_tx X S bs h miner reg) sel t1 = Inr (template_ordinary X S bs h miner reg txs t1)"
        "sel \<noteq> [] \<longrightarrow> length (tp_txs t1 @ sel) < unat (cons_max_block_transactions (consensus S))" by blast
      with False Inr t1 show ?thesis
        by (intro exI [of _ "tx # sel"]) (auto simp: template_full_def)
    qed
  qed (intro exI [of _ "[]"], simp)
qed simp

section \<open>Shares leave the registries alone\<close>

lemma share_no_markers:
  assumes "is_pool_share_transaction tx"
  shows "qns_registrations_in_tx X tx S = []" "jin_transfers_in_tx X tx S = []" "jin_conversions_in_tx X tx S = []"
    "jin_sale_purchases_in_tx X tx S = []" "qub_jin_infusion_markers_in_tx X tx S = []"
    "library_markers_in_tx X tx S = []" "verified_governance_markers_in_tx X tx S = []"
    "\<not> is_jin_protocol_transaction X tx S" "pool_action_count X tx S = 0"
  using assms
  by (simp_all add: is_pool_share_transaction_def qns_registrations_in_tx_def jin_transfers_in_tx_def
      jin_conversions_in_tx_def jin_sale_purchases_in_tx_def qub_jin_infusion_markers_in_tx_def
      library_markers_in_tx_def verified_governance_markers_in_tx_def is_jin_protocol_transaction_def
      is_jin_sale_purchase_transaction_def is_qub_jin_infusion_transaction_def
      pool_action_count_def pool_creates_in_tx_def pool_topups_in_tx_def pool_commissions_in_tx_def
      pool_renames_in_tx_def markers_in_def List.map_filter_def)

lemma share_not_coinbase: "is_pool_share_transaction tx \<Longrightarrow> \<not> is_coinbase tx"
  by (simp add: is_pool_share_transaction_def is_coinbase_def)

lemma share_contextual: "is_pool_share_transaction tx \<Longrightarrow> validate_tx_contextual X tx u h S True = Inr 0"
  by (simp add: validate_tx_contextual_def validate_tx_stateless_def)

text \<open>Each check of a block passes over a share.\<close>

lemma share_silent:
  assumes "is_pool_share_transaction tx"
  shows "validate_block_tx X S h tx (u, f) = Inr (u, f)"
    and "validate_qns_transaction_with_registry X S h reg tx seen = Inr seen"
    and "validate_jin_tx X S h False miner tx ((st, u), 0) = Inr ((st, u), 0)"
    and "validate_jin_sale_tx X S h tx (u, sold) = Inr (u, sold)"
    and "validate_library_tx X S h time tx (lib, u) = Inr (lib, u)"
    and "connect_tx_utxos X tx h False u = Inr u"
proof -
  note no = share_no_markers [OF assms] share_contextual [OF assms] connect_pool_share [OF assms]
  have conn: "snd (connect_in_place X tx h False u) = u" by (simp add: connect_in_place_def assms se_return_def)
  show "validate_block_tx X S h tx (u, f) = Inr (u, f)"
    by (simp add: validate_block_tx_def no qub_jin_melt_burn_atoms_for_fee_def required_extra_fee_def
        qns_miner_fee_required_in_tx_def library_miner_fee_required_in_tx_def jin_swap_miner_fee_required_in_tx_def
        checked_add_def)
  show "validate_qns_transaction_with_registry X S h reg tx seen = Inr seen"
    by (simp add: validate_qns_transaction_with_registry_def no)
  show "validate_jin_tx X S h False miner tx ((st, u), 0) = Inr ((st, u), 0)"
    by (simp add: validate_jin_tx_def no validate_jin_transaction_with_ledger_def
        validate_qub_jin_infusion_transaction_with_state_def se_return_def se_run_def)
  show "validate_jin_sale_tx X S h tx (u, sold) = Inr (u, sold)"
    by (simp add: validate_jin_sale_tx_def no validate_jin_sale_purchase_state_def)
  show "validate_library_tx X S h time tx (lib, u) = Inr (lib, u)"
    by (simp add: validate_library_tx_def no validate_library_transaction_with_state_def library_apply_markers_def conn)
  show "connect_tx_utxos X tx h False u = Inr u" by (rule no)
qed

lemma fold_r_silent: "(\<And>x. x \<in> set xs \<Longrightarrow> f x s = Inr s) \<Longrightarrow> fold_r f xs s = Inr s"
  by (induction xs) simp_all

section \<open>The turns of the template are the turns of the checks\<close>

text \<open>
  The turn for a transaction that is neither a coinbase nor a share, has no governance marker and
  an id other than the coinbase's.
\<close>

definition plain_tx :: "extern \<Rightarrow> settings \<Rightarrow> hash256 \<Rightarrow> transaction \<Rightarrow> bool" where
  "plain_tx X S cb tx \<longleftrightarrow> \<not> is_coinbase tx \<and> \<not> is_pool_share_transaction tx \<and>
     verified_governance_markers_in_tx X tx S = [] \<and> txid X tx \<noteq> cb"

definition plain_turn ::
  "extern \<Rightarrow> settings \<Rightarrow> block list \<Rightarrow> u32 \<Rightarrow> string option \<Rightarrow> qns_registry \<Rightarrow> hash256 \<Rightarrow> transaction \<Rightarrow> template \<Rightarrow>
    template result" where
  "plain_turn X S bs h miner reg cb tx t =
     (if plain_tx X S cb tx then template_tx X S bs h miner reg tx t else Inl (BlockErr ExtraCoinbase))"

lemma plain_turn_Inr:
  "plain_turn X S bs h miner reg cb tx t = Inr t' \<longleftrightarrow>
    plain_tx X S cb tx \<and> template_tx X S bs h miner reg tx t = Inr t'"
  by (auto simp: plain_turn_def)

text \<open>Value: nothing saturates as long as the coins and the fees stay below \<open>u64::MAX\<close>.\<close>

definition value_rel :: "template \<Rightarrow> utxo_map \<times> u128 \<Rightarrow> bool" where
  "value_rel t s \<longleftrightarrow> s = (tp_scratch t, ucast (tp_fees t)) \<and> utxo_total (tp_scratch t) + unat (tp_fees t) < 2 ^ 64 - 1"

lemma or_max_small:
  assumes "template_extra_fee X S tx h = Some required" and "required < - 1"
  shows "required_extra_fee X S tx h = Inr required"
proof -
  have small: "\<exists>v. r = Inr v" if "or_max r \<le> n" "n < - 1" for r n
    using that by (cases r) (auto simp: or_max_def)
  have le: "a \<le> c \<and> b \<le> c" if "checked_add a b = Some c" for a b c :: u64
    using that by (simp add: checked_add_Some word_le_nat_alt)
  from assms(1) obtain v where v: "checked_add (or_max (qns_miner_fee_required_in_tx X S tx h))
       (or_max (library_miner_fee_required_in_tx X S tx h)) = Some v"
    and r: "checked_add v (or_max (jin_swap_miner_fee_required_in_tx X S tx h)) = Some required"
    by (auto simp: template_extra_fee_def bind_eq_Some_conv)
  from le [OF v] le [OF r] have "or_max (qns_miner_fee_required_in_tx X S tx h) \<le> required"
    "or_max (library_miner_fee_required_in_tx X S tx h) \<le> required"
    "or_max (jin_swap_miner_fee_required_in_tx X S tx h) \<le> required" by (meson order_trans)+
  then obtain a b d where "qns_miner_fee_required_in_tx X S tx h = Inr a" "library_miner_fee_required_in_tx X S tx h = Inr b"
    "jin_swap_miner_fee_required_in_tx X S tx h = Inr d"
    using small assms(2) by metis
  with v r show ?thesis by (simp add: required_extra_fee_def or_max_def ok_or_def)
qed

interpretation turn_value: checked_replay "plain_turn X S bs h miner reg cb" "validate_block_tx X S h" value_rel
proof
  fix t s tx t'
  assume rel: "value_rel t s" and "plain_turn X S bs h miner reg cb tx t = Inr t'"
  then have plain: "plain_tx X S cb tx" and turn: "template_tx X S bs h miner reg tx t = Inr t'"
    by (simp_all add: plain_turn_Inr)
  let ?u = "tp_scratch t" and ?u' = "tp_scratch t'"
  from turn obtain raw burn required where v: "validate_tx_contextual X tx ?u h S True = Inr raw"
    and burn: "qub_jin_melt_burn_atoms_for_fee X S tx h = Inr burn" "burn \<le> raw"
    and req: "template_extra_fee X S tx h = Some required" "required \<le> raw - burn"
    and c: "connect_tx_utxos X tx h False ?u = Inr ?u'"
    and fees: "tp_fees t' = sat_add (tp_fees t) (raw - burn)" by (rule template_tx_Inr)
  from rel have s: "s = (?u, ucast (tp_fees t))" and small: "utxo_total ?u + unat (tp_fees t) < 2 ^ 64 - 1"
    by (simp_all add: value_rel_def)
  have le: "utxo_total ?u' + unat raw \<le> utxo_total ?u"
    using validated_tx_total [OF v _ c] plain small by (simp add: plain_tx_def)
  have fee: "unat (raw - burn) \<le> unat raw" using burn(2) by (simp add: unat_sub)
  with le small have sum: "unat (tp_fees t) + unat (raw - burn) < 2 ^ 64" by simp
  then have fees': "tp_fees t' = tp_fees t + (raw - burn)" "unat (tp_fees t') = unat (tp_fees t) + unat (raw - burn)"
    using fees by (simp_all add: sat_add_def unat_word_ariths)
  have "raw - burn < - 1" using fee le small by (simp add: word_less_nat_alt unsigned_minus_1_eq_mask mask_eq_exp_minus_1)
  with req(2) have "required < - 1" by (rule order.strict_trans1)
  from or_max_small [OF req(1) this] v burn req(2) c s
  have "validate_block_tx X S h tx s = Inr (?u', ucast (tp_fees t) + ucast (raw - burn))"
    by (simp add: validate_block_tx_def Let_def not_less)
  moreover have "ucast (tp_fees t) + ucast (raw - burn) = (ucast (tp_fees t') :: u128)"
    using sum fees' by (simp add: word_unat_eq_iff unat_word_ariths unsigned_ucast_eq take_bit_nat_eq_self)
  ultimately show "\<exists>s'. validate_block_tx X S h tx s = Inr s' \<and> value_rel t' s'"
    using le fee fees' small by (simp add: value_rel_def)
qed

text \<open>The registries.\<close>

interpretation turn_qns: checked_replay "plain_turn X S bs h miner reg cb"
  "validate_qns_transaction_with_registry X S h reg" "\<lambda>t s. s = tp_qns_seen t"
  by unfold_locales (auto simp: plain_turn_Inr elim: template_tx_Inr)

interpretation turn_sale: checked_replay "plain_turn X S bs h miner reg cb" "validate_jin_sale_tx X S h"
  "\<lambda>t s. s = (tp_scratch t, tp_sold t)"
proof
  fix t s tx t'
  assume "s = (tp_scratch t, tp_sold t)" and "plain_turn X S bs h miner reg cb tx t = Inr t'"
  then show "\<exists>s'. validate_jin_sale_tx X S h tx s = Inr s' \<and> s' = (tp_scratch t', tp_sold t')"
    by (auto simp: plain_turn_Inr validate_jin_sale_tx_def elim: template_tx_Inr)
qed

interpretation turn_library: checked_replay "plain_turn X S bs h miner reg cb" "validate_library_tx X S h (unix_now X)"
  "\<lambda>t s. s = (tp_library t, tp_scratch t)"
proof
  fix t s tx t'
  assume s: "s = (tp_library t, tp_scratch t)" and "plain_turn X S bs h miner reg cb tx t = Inr t'"
  then have "template_tx X S bs h miner reg tx t = Inr t'" by (simp add: plain_turn_Inr)
  then show "\<exists>s'. validate_library_tx X S h (unix_now X) tx s = Inr s' \<and> s' = (tp_library t', tp_scratch t')"
  proof (rule template_tx_Inr)
    assume "connect_tx_utxos X tx h False (tp_scratch t) = Inr (tp_scratch t')"
    then have "se_run (connect_in_place X tx h False) (tp_scratch t) = Inr (tp_scratch t')"
      by (simp add: connect_in_place_run)
    then have "snd (connect_in_place X tx h False (tp_scratch t)) = tp_scratch t'" by (simp add: se_run_ok)
    moreover assume "validate_library_transaction_with_state X S tx (tp_library t) (tp_scratch t) h = Inr ()"
      and "library_apply_markers S (hash_to_string X (txid X tx)) h (unix_now X)
        (map (fst \<circ> snd) (library_markers_in_tx X tx S)) (tp_library t) = Inr (tp_library t')"
    ultimately show ?thesis using s by (simp add: validate_library_tx_def)
  qed
qed

lemma validate_jin_conversions_active:
  assumes "validate_jin_transaction_with_ledger X S tx u h miner l = (Inr units, l')"
  shows "jin_conversion_active S h \<or> jin_conversions_in_tx X tx S = []"
proof (cases "jin_conversions_in_tx X tx S")
  case (Cons m ms)
  from assms Cons obtain s s' where "se_for (check_conversion X S tx u h miner) (m # ms) s = (Inr (), s')"
    by (fastforce simp: validate_jin_transaction_with_ledger_def counting_def se_then_ok se_fail_def Let_def
        split: if_split_asm prod.split_asm sum.split_asm unit.split_asm)
  then obtain s1 where "check_conversion X S tx u h miner m s = (Inr (), s1)" by (auto simp: se_then_ok)
  then show ?thesis by (auto simp: check_conversion_def se_fail_def split: prod.split_asm if_split_asm)
qed simp

interpretation turn_jin: checked_replay "plain_turn X S bs h miner reg cb" "validate_jin_tx X S h False miner"
  "\<lambda>t s. s = ((tp_jin t, tp_scratch t), 0)"
proof
  fix t tx t' and s :: "(jin_state \<times> utxo_map) \<times> u128"
  assume s: "s = ((tp_jin t, tp_scratch t), 0)" and "plain_turn X S bs h miner reg cb tx t = Inr t'"
  then have no_gov: "verified_governance_markers_in_tx X tx S = []" and turn: "template_tx X S bs h miner reg tx t = Inr t'"
    by (simp_all add: plain_turn_Inr plain_tx_def)
  from turn obtain raw units ledger ledger1 where v: "validate_tx_contextual X tx (tp_scratch t) h S True = Inr raw"
    and jin: "validate_jin_transaction_with_ledger X S tx (tp_scratch t) h miner (fst (tp_jin t)) = (Inr units, ledger)"
    and inf: "se_run (validate_qub_jin_infusion_transaction_with_state X S tx (tp_scratch t) h) (ledger, snd (tp_jin t)) =
      Inr (ledger1, snd (tp_jin t'))"
    and gov: "validate_verified_governance_transaction_with_state X S tx (tp_scratch t) bs h (tp_gov t, ledger1) =
      Inr (tp_gov t', fst (tp_jin t'))"
    and c: "connect_tx_utxos X tx h False (tp_scratch t) = Inr (tp_scratch t')" by (rule template_tx_Inr)
  from gov no_gov have ledger1: "ledger1 = fst (tp_jin t')"
    by (simp add: validate_verified_governance_transaction_with_state_def)
  have active: "jin_active S h \<or> jin_transfers_in_tx X tx S = [] \<and> jin_conversions_in_tx X tx S = []"
    using jin by (auto simp: validate_jin_transaction_with_ledger_def se_fail_def Let_def split: if_split_asm)
  have conv: "jin_conversion_active S h \<or> jin_conversions_in_tx X tx S = []"
    using validate_jin_conversions_active [OF jin] .
  from active conv v jin inf c ledger1 s
  show "\<exists>s'. validate_jin_tx X S h False miner tx s = Inr s' \<and> s' = ((tp_jin t', tp_scratch t'), 0)"
    by (cases "tp_jin t'") (auto simp: validate_jin_tx_def)
qed

interpretation turn_pools: checked_replay "plain_turn X S bs h miner reg cb" "validate_pools_tx X S bs h"
  "\<lambda>t s. \<exists>f. s = (tp_pool t, tp_scratch t, f) \<and> unat f + utxo_total (tp_scratch t) < 2 ^ 64"
proof
  fix t tx t' and s :: "pool_context \<times> utxo_map \<times> u128"
  assume s: "\<exists>f. s = (tp_pool t, tp_scratch t, f) \<and> unat f + utxo_total (tp_scratch t) < 2 ^ 64"
    and "plain_turn X S bs h miner reg cb tx t = Inr t'"
  then have plain: "plain_tx X S cb tx" and turn: "template_tx X S bs h miner reg tx t = Inr t'"
    by (simp_all add: plain_turn_Inr)
  from turn obtain raw where v: "validate_tx_contextual X tx (tp_scratch t) h S True = Inr raw"
    and pool: "se_run (pool_validate_and_apply X S tx bs (tp_scratch t) h raw) (tp_pool t) = Inr (tp_pool t')"
    and c: "connect_tx_utxos X tx h False (tp_scratch t) = Inr (tp_scratch t')" by (rule template_tx_Inr)
  from s obtain f where f: "s = (tp_pool t, tp_scratch t, f)" "unat f + utxo_total (tp_scratch t) < 2 ^ 64" by blast
  have le: "utxo_total (tp_scratch t') + unat raw \<le> utxo_total (tp_scratch t)"
    using validated_tx_total [OF v _ c] plain f(2) by (simp add: plain_tx_def)
  have raw: "unat (ucast raw :: u128) = unat raw" by (simp add: unsigned_ucast_eq take_bit_nat_eq_self)
  with le f(2) have sum: "unat f + unat (ucast raw :: u128) < 2 ^ 64" by simp
  then have "unat (f + ucast raw) = unat f + unat raw" using raw by (simp add: unat_word_ariths)
  moreover have "checked_add f (ucast raw) = Some (f + ucast raw)" using sum by (simp add: checked_add_def)
  ultimately show "\<exists>s'. validate_pools_tx X S bs h tx s = Inr s' \<and>
      (\<exists>f. s' = (tp_pool t', tp_scratch t', f) \<and> unat f + utxo_total (tp_scratch t') < 2 ^ 64)"
    using v pool c plain f le by (simp add: validate_pools_tx_def plain_tx_def ok_or_def)
qed

text \<open>The coins, with the coinbase's outputs set aside.\<close>

lemma create_outputs_beside:
  assumes "fold_r (create_output tid h cb) vos m = Inr m'" and "fmdom m |\<inter>| fmdom c = {||}"
    and "\<forall>p \<in> fmdom' c. op_txid p \<noteq> tid"
  shows "fold_r (create_output tid h cb) vos (m ++\<^sub>f c) = Inr (m' ++\<^sub>f c)"
  using assms(1,2)
proof (induction vos arbitrary: m)
  case (Cons vo vos)
  obtain n out where vo: "vo = (n, out)" by force
  let ?k = "OutPoint tid (of_nat n)"
  let ?c = "\<lparr>coin_out = out, coin_height = h, coin_is_coinbase = cb\<rparr>"
  from Cons.prems vo have m: "fmlookup m ?k = None"
    and r: "fold_r (create_output tid h cb) vos (fmupd ?k ?c m) = Inr m'" by (auto simp: result_simps)
  have c: "fmlookup c ?k = None" using assms(3) by (cases "fmlookup c ?k") (simp, fastforce dest: fmdom'I)
  then have "fmdom (fmupd ?k ?c m) |\<inter>| fmdom c = {||}" using Cons.prems(2) by (auto simp: fmdom_notI)
  from Cons.IH [OF r this] m c vo show ?case
    by (simp add: result_simps fmupd_add fmdom_notI)
qed simp

lemma connect_tx_beside:
  assumes "connect_tx_utxos X tx h False m = Inr m'" and "fmdom m |\<inter>| fmdom c = {||}"
    and "\<forall>p \<in> fmdom' c. op_txid p \<noteq> txid X tx"
  shows "connect_tx_utxos X tx h False (m ++\<^sub>f c) = Inr (m' ++\<^sub>f c)"
proof (cases "is_pool_share_transaction tx")
  case False
  have spend: "fold_r spend_input ins (m ++\<^sub>f c) = Inr (m1 ++\<^sub>f c) \<and> fmdom m1 |\<inter>| fmdom c = {||}"
    if "fold_r spend_input ins m = Inr m1" "fmdom m |\<inter>| fmdom c = {||}" for ins m m1
    using that
  proof (induction ins arbitrary: m)
    case (Cons i ins)
    let ?p = "previous_output i"
    from Cons.prems obtain coin where m: "fmlookup m ?p = Some coin"
      and r: "fold_r spend_input ins (fmdrop ?p m) = Inr m1" by (auto simp: result_simps)
    from m Cons.prems(2) have c: "fmlookup c ?p = None" by (metis fempty_iff finterI fmdomI fmdom_notD)
    then have drop: "fmdrop ?p (m ++\<^sub>f c) = fmdrop ?p m ++\<^sub>f c" by (intro fmap_ext) (auto simp: fmdom_notI)
    have "fmdom (fmdrop ?p m) |\<inter>| fmdom c = {||}" using Cons.prems(2) by auto
    from Cons.IH [OF r this] m c drop show ?case by (simp add: spend_input_def fmdom_notI)
  qed simp
  from assms(1) False obtain m1 where m1: "fold_r spend_input (tx_inputs tx) m = Inr m1"
    and out: "fold_r (create_output (txid X tx) h False) (enumerate 0 (tx_outputs tx)) m1 = Inr m'"
    by (auto simp: connect_tx_utxos_def result_simps)
  from spend [OF m1 assms(2)] create_outputs_beside [OF out _ assms(3)] False
  show ?thesis by (simp add: connect_tx_utxos_def)
qed (use assms in \<open>simp add: connect_pool_share\<close>)

definition beside :: "hash256 \<Rightarrow> utxo_map \<Rightarrow> utxo_map \<Rightarrow> utxo_map \<Rightarrow> bool" where
  "beside cb c u v \<longleftrightarrow> v = u ++\<^sub>f c \<and> fmdom u |\<inter>| fmdom c = {||} \<and> (\<forall>p \<in> fmdom' c. op_txid p = cb)"

interpretation turn_coins: checked_replay "plain_turn X S bs h miner reg cb" "\<lambda>tx. connect_tx_utxos X tx h False"
  "\<lambda>t. beside cb c (tp_scratch t)"
proof
  fix t s tx t'
  assume rel: "beside cb c (tp_scratch t) s" and "plain_turn X S bs h miner reg cb tx t = Inr t'"
  then have plain: "plain_tx X S cb tx" and turn: "template_tx X S bs h miner reg tx t = Inr t'"
    by (simp_all add: plain_turn_Inr)
  from turn obtain n :: nat where run: "connect_tx_utxos X tx h False (tp_scratch t) = Inr (tp_scratch t')"
    by (rule template_tx_Inr)
  from rel plain have dis: "fmdom (tp_scratch t) |\<inter>| fmdom c = {||}" "\<forall>p \<in> fmdom' c. op_txid p \<noteq> txid X tx"
    by (auto simp: beside_def plain_tx_def)
  from connect_tx_beside [OF run dis]
  have v: "connect_tx_utxos X tx h False (tp_scratch t ++\<^sub>f c) = Inr (tp_scratch t' ++\<^sub>f c)" .
  from connect_tx_aside [OF run v dis(1)] v rel
  show "\<exists>s'. connect_tx_utxos X tx h False s = Inr s' \<and> beside cb c (tp_scratch t') s'"
    by (auto simp: beside_def)
qed

section \<open>The transactions of a candidate\<close>

lemma subseq_subset: "subseq xs ys \<Longrightarrow> set xs \<subseteq> set ys"
  by (induction rule: list_emb.induct) auto

lemma subseq_distinct_map: "subseq xs ys \<Longrightarrow> distinct (map f ys) \<Longrightarrow> distinct (map f xs)"
proof (induction rule: list_emb.induct)
  case (list_emb_Cons2 x y xs ys)
  then show ?case using subseq_subset [of xs ys] by auto
qed auto

text \<open>The shares come first; the registries of the rest start from the chain.\<close>

lemma candidate_Inr:
  assumes "candidate_mempool_transactions X S c h miner = Inr (txs, fees)" and "mempool_ok X S c"
  obtains sh ord ctx0 ctx where "txs = sh @ ord" and "\<forall>tx \<in> set sh. is_pool_share_transaction tx"
    and "\<forall>tx \<in> set ord. \<not> is_pool_share_transaction tx" and "set txs \<subseteq> set (cs_mempool c)" and "distinct (map (txid X) txs)"
    and "txs \<noteq> [] \<longrightarrow> length txs < unat (cons_max_block_transactions (consensus S))"
    and "length sh \<le> unat (ps_max_share_txs_per_block (pools S))"
    and "pool_context_from_confirmed X S (cs_blocks c) h = Inr ctx0"
    and "fold_r (\<lambda>tx. se_run (pool_validate_and_apply X S tx (cs_blocks c) (cs_utxos c) h 0)) sh ctx0 = Inr ctx"
    and "ord = [] \<and> fees = 0 \<or> (\<exists>reg t0 t. template_start X S c h ctx sh = Inr (reg, t0) \<and>
      fold_r (template_tx X S (cs_blocks c) h miner reg) ord t0 = Inr t \<and> fees = tp_fees t)"
proof -
  let ?pool = "cs_mempool c" and ?share = is_pool_share_transaction
  let ?shares = "sort_by (share_order X) (filter ?share ?pool)"
  let ?rest = "by_priority X S (filter (\<lambda>tx. \<not> ?share tx) ?pool)"
  let ?ordinary = "take (unat (hf115_template_scan_limit S)) ?rest"
  from assms(1) obtain ctx0 where ctx0: "pool_context_from_confirmed X S (cs_blocks c) h = Inr ctx0"
    by (auto simp: candidate_mempool_transactions_def result_simps)
  obtain ctx sh where shares: "template_shares X S c h ?shares (ctx0, []) = (ctx, sh)" by (rule prod.exhaust)
  with assms(1) ctx0 have r: "(if template_full S sh \<or> ?ordinary = [] then Inr (sh, 0) else
       rbind (template_start X S c h ctx sh) (\<lambda>(registry, t).
       let t = template_ordinary X S (cs_blocks c) h miner registry ?ordinary t in
       Inr (tp_txs t, tp_fees t))) = (Inr (txs, fees) :: (transaction list \<times> u64) result)"
    by (simp add: candidate_mempool_transactions_def Let_def)
  have sh: "subseq sh ?shares" "fold_r (\<lambda>tx. se_run (pool_validate_and_apply X S tx (cs_blocks c) (cs_utxos c) h 0)) sh ctx0 = Inr ctx"
    "sh \<noteq> [] \<longrightarrow> length sh < unat (cons_max_block_transactions (consensus S))"
    "length sh \<le> unat (ps_max_share_txs_per_block (pools S))"
    using template_shares_sel [OF shares] by auto
  have start: "tp_txs t0 = txs0" if "template_start X S c h ctx txs0 = Inr (reg, t0)" for reg t0 txs0
    using that by (auto simp: template_start_def result_simps)
  have "\<exists>ord. txs = sh @ ord \<and> subseq ord ?rest \<and>
      (ord \<noteq> [] \<longrightarrow> length txs < unat (cons_max_block_transactions (consensus S))) \<and>
      (ord = [] \<and> fees = 0 \<or> (\<exists>reg t0 t. template_start X S c h ctx sh = Inr (reg, t0) \<and>
        fold_r (template_tx X S (cs_blocks c) h miner reg) ord t0 = Inr t \<and> fees = tp_fees t))"
  proof (cases "template_full S sh \<or> ?ordinary = []")
    case True
    with r show ?thesis by (intro exI [of _ "[]"]) auto
  next
    case False
    with r obtain reg t0 where t0: "template_start X S c h ctx sh = Inr (reg, t0)"
      and txs: "txs = tp_txs (template_ordinary X S (cs_blocks c) h miner reg ?ordinary t0)"
      and fees: "fees = tp_fees (template_ordinary X S (cs_blocks c) h miner reg ?ordinary t0)"
      by (auto simp: result_simps Let_def)
    from template_ordinary_sel [of X S "cs_blocks c" h miner reg ?ordinary t0] start [OF t0] txs obtain ord
      where ord: "txs = sh @ ord" "subseq ord ?ordinary"
        "fold_r (template_tx X S (cs_blocks c) h miner reg) ord t0 =
          Inr (template_ordinary X S (cs_blocks c) h miner reg ?ordinary t0)"
        "ord \<noteq> [] \<longrightarrow> length (sh @ ord) < unat (cons_max_block_transactions (consensus S))" by auto
    have "subseq ?ordinary ?rest" by (metis append_take_drop_id prefix_imp_subseq prefix_def)
    with ord(2) have "subseq ord ?rest" by (rule subseq_order.trans)
    with ord t0 fees show ?thesis by blast
  qed
  then obtain ord where ord: "txs = sh @ ord" "subseq ord ?rest"
    "ord \<noteq> [] \<longrightarrow> length txs < unat (cons_max_block_transactions (consensus S))"
    "ord = [] \<and> fees = 0 \<or> (\<exists>reg t0 t. template_start X S c h ctx sh = Inr (reg, t0) \<and>
        fold_r (template_tx X S (cs_blocks c) h miner reg) ord t0 = Inr t \<and> fees = tp_fees t)" by blast
  have "mset (?shares @ ?rest) = mset ?pool" by (simp add: by_priority_def)
  then have "mset (map (txid X) (?shares @ ?rest)) = mset (map (txid X) ?pool)" by (simp only: mset_map)
  with assms(2) have "distinct (map (txid X) (?shares @ ?rest))"
    by (metis mempool_ok_def mset_eq_imp_distinct_iff)
  moreover have sub: "subseq txs (?shares @ ?rest)" unfolding ord(1) using sh(1) ord(2) by (rule list_emb_append_mono)
  ultimately have "distinct (map (txid X) txs)" using sub by (blast intro: subseq_distinct_map)
  moreover have "set sh \<subseteq> set ?shares" "set ord \<subseteq> set ?rest" using sh(1) ord(2) subseq_subset by blast+
  then have "\<forall>tx \<in> set sh. ?share tx \<and> tx \<in> set ?pool" "\<forall>tx \<in> set ord. \<not> ?share tx \<and> tx \<in> set ?pool"
    by (auto simp: by_priority_def)
  moreover have "txs \<noteq> [] \<longrightarrow> length txs < unat (cons_max_block_transactions (consensus S))" using sh(3) ord(1,3) by auto
  ultimately show thesis using that [OF ord(1) _ _ _ _ _ sh(4) ctx0 sh(2) ord(4)] ord(1) by auto
qed

section \<open>The block checks of a candidate\<close>

lemma connect_lookup:
  assumes "connect_tx_utxos X tx h False u = Inr v" and "fmlookup v p \<noteq> None"
  shows "fmlookup u p \<noteq> None \<or> op_txid p = txid X tx"
proof -
  have spend: "fmlookup w p \<noteq> None \<Longrightarrow> fmlookup u p \<noteq> None" if "fold_r spend_input ins u = Inr w" for ins u w
    using that
  proof (induction ins arbitrary: u)
    case (Cons i ins)
    then have r: "fold_r spend_input ins (fmdrop (previous_output i) u) = Inr w" by (auto simp: result_simps)
    from Cons.IH [OF Cons.prems(1) r] show ?case by (auto split: if_split_asm)
  qed simp
  have create: "fmlookup w p \<noteq> None \<Longrightarrow> fmlookup u p \<noteq> None \<or> op_txid p = t"
    if "fold_r (create_output t h False) vos u = Inr w" for t vos u w
    using that by (induction vos arbitrary: u) (fastforce simp: result_simps split: if_split_asm)+
  show ?thesis
  proof (cases "is_pool_share_transaction tx")
    case False
    with assms(1) obtain w where "fold_r spend_input (tx_inputs tx) u = Inr w"
      and "fold_r (create_output (txid X tx) h False) (enumerate 0 (tx_outputs tx)) w = Inr v"
      by (auto simp: connect_tx_utxos_def result_simps)
    with spend create assms(2) show ?thesis by blast
  qed (use assms in \<open>simp add: connect_pool_share\<close>)
qed

lemma null_not_spent:
  assumes "connect_tx_utxos X tx h False u = Inr v" and "fmlookup u outpoint_null = None" and "\<not> is_pool_share_transaction tx"
  shows "\<not> is_coinbase tx"
  using assms by (auto simp: is_coinbase_def connect_tx_utxos_def length_Suc_conv result_simps)

lemma ordinary_plain:
  assumes "fold_r (template_tx X S bs h miner reg) ord t0 = Inr t" and "fmlookup (tp_scratch t0) outpoint_null = None"
    and "\<forall>tx \<in> set ord. \<not> is_pool_share_transaction tx \<and> verified_governance_markers_in_tx X tx S = [] \<and>
      txid X tx \<noteq> cb \<and> txid X tx \<noteq> hash_zero"
  shows "fold_r (plain_turn X S bs h miner reg cb) ord t0 = Inr t \<and> (\<forall>tx \<in> set ord. \<not> is_coinbase tx)"
  using assms
proof (induction ord arbitrary: t0)
  case (Cons tx ord)
  from Cons.prems(1) obtain t1 where t1: "template_tx X S bs h miner reg tx t0 = Inr t1"
    and r: "fold_r (template_tx X S bs h miner reg) ord t1 = Inr t" by (auto simp: result_simps)
  from t1 have c: "connect_tx_utxos X tx h False (tp_scratch t0) = Inr (tp_scratch t1)" by (rule template_tx_Inr)
  have "fmlookup (tp_scratch t1) outpoint_null = None"
    using connect_lookup [OF c, of outpoint_null] Cons.prems(2,3) by (cases "fmlookup (tp_scratch t1) outpoint_null")
      (auto simp: outpoint_null_def)
  from Cons.IH [OF r this] null_not_spent [OF c Cons.prems(2)] t1 Cons.prems(3) show ?case
    by (auto simp: plain_turn_def plain_tx_def)
qed simp

text \<open>The hypotheses on the chain and the pending transactions, for a coinbase of id \<open>cb\<close>.\<close>

definition fresh_ids :: "extern \<Rightarrow> chain_state \<Rightarrow> hash256 \<Rightarrow> bool" where
  "fresh_ids X c cb \<longleftrightarrow> fmlookup (cs_utxos c) outpoint_null = None \<and> (\<forall>p \<in> fmdom' (cs_utxos c). op_txid p \<noteq> cb) \<and>
     (\<forall>tx \<in> set (cs_mempool c). txid X tx \<noteq> cb \<and> txid X tx \<noteq> hash_zero)"

lemma fold_shares_first:
  "(\<And>tx. tx \<in> set sh \<Longrightarrow> f tx s = Inr s) \<Longrightarrow> fold_r f (sh @ ord) s = fold_r f ord s"
  by (simp add: fold_r_append fold_r_silent)

lemma shares_checked:
  assumes "\<forall>tx \<in> set sh. is_pool_share_transaction tx" and "drop 1 (blk_transactions b) = sh"
  shows "fold_r (validate_block_tx X S h) sh (u, 0) = Inr (u, 0)"
    and "validate_qns_block X S b bs h = Inr ()" and "validate_jin_sale_block X S b bs u h = Inr ()"
    and "validate_library_block X S b bs u h = Inr ()" and "validate_jin_block X S b bs u h = Inr ()"
    and "fold_r (\<lambda>tx. connect_tx_utxos X tx h False) sh v = Inr v"
proof -
  have "list_all (\<lambda>tx. qns_registrations_in_tx X tx S = [] \<and> jin_sale_purchases_in_tx X tx S = [] \<and>
      library_markers_in_tx X tx S = [] \<and> \<not> is_jin_protocol_transaction X tx S) sh"
    using assms(1) share_no_markers by (auto simp: list_all_iff)
  with assms(2) show "validate_qns_block X S b bs h = Inr ()" "validate_jin_sale_block X S b bs u h = Inr ()"
    "validate_library_block X S b bs u h = Inr ()" "validate_jin_block X S b bs u h = Inr ()"
    by (simp_all add: validate_qns_block_def validate_jin_sale_block_def validate_library_block_def
        validate_jin_block_def list_all_iff)
  show "fold_r (validate_block_tx X S h) sh (u, 0) = Inr (u, 0)"
    using assms(1) by (intro fold_r_silent) (simp add: share_silent)
  show "fold_r (\<lambda>tx. connect_tx_utxos X tx h False) sh v = Inr v"
    using assms(1) by (intro fold_r_silent) (simp add: share_silent)
qed

lemma ordinary_checked:
  assumes sh: "\<forall>tx \<in> set sh. is_pool_share_transaction tx"
    and t0: "template_start X S c h ctx sh = Inr (reg, t0)"
    and turns: "fold_r (plain_turn X S (cs_blocks c) h miner reg cb) ord t0 = Inr t"
    and u: "utxo_total (cs_utxos c) < 2 ^ 64 - 1" and b: "drop 1 (blk_transactions b) = sh @ ord"
  shows "\<exists>scratch. fold_r (validate_block_tx X S h) (sh @ ord) (cs_utxos c, 0) = Inr (scratch, ucast (tp_fees t))"
    and "validate_qns_block X S b (cs_blocks c) h = Inr ()"
    and "validate_jin_sale_block X S b (cs_blocks c) (cs_utxos c) h = Inr ()"
    and "hdr_time (blk_header b) = unix_now X \<Longrightarrow> validate_library_block X S b (cs_blocks c) (cs_utxos c) h = Inr ()"
    and "parse_pool_block_marker X b = None \<Longrightarrow> block_miner X S b = miner \<Longrightarrow>
      validate_jin_block X S b (cs_blocks c) (cs_utxos c) h = Inr ()"
    and "beside cb d (cs_utxos c) v \<Longrightarrow> \<exists>w. fold_r (\<lambda>tx. connect_tx_utxos X tx h False) (sh @ ord) v = Inr w"
proof -
  let ?u = "cs_utxos c" and ?bs = "cs_blocks c"
  from t0 have start: "jin_states_at X S ?bs (chain_height c) h = Inr (tp_jin t0)" "qns_registry_from_blocks X S ?bs = Inr reg"
    "library_state_from_blocks X S ?bs = Inr (tp_library t0)"
    "jin_sale_sold_by_listing_from_blocks X S ?bs = Inr (tp_sold t0)" "tp_scratch t0 = ?u" "tp_fees t0 = 0" "tp_qns_seen t0 = {}"
    by (auto simp: template_start_def result_simps)
  note first = fold_shares_first [where sh = sh and ord = ord]
  show "\<exists>scratch. fold_r (validate_block_tx X S h) (sh @ ord) (?u, 0) = Inr (scratch, ucast (tp_fees t))"
    using turn_value.checked_then_recorded [OF _ turns, of "(?u, 0)"] start u sh
    by (subst first) (auto simp: share_silent value_rel_def)
  show "validate_qns_block X S b ?bs h = Inr ()"
    using turn_qns.checked_then_recorded [OF _ turns, of "{}"] start b sh
    by (subst validate_qns_block_def, simp, subst first) (auto simp: share_silent)
  show "validate_jin_sale_block X S b ?bs ?u h = Inr ()"
    using turn_sale.checked_then_recorded [OF _ turns, of "(?u, tp_sold t0)"] start b sh
    by (subst validate_jin_sale_block_def, simp, subst first) (auto simp: share_silent)
  show "validate_library_block X S b ?bs ?u h = Inr ()" if "hdr_time (blk_header b) = unix_now X"
    using turn_library.checked_then_recorded [OF _ turns, of "(tp_library t0, ?u)"] start b sh that
    by (subst validate_library_block_def, simp, subst first) (auto simp: share_silent)
  show "validate_jin_block X S b ?bs ?u h = Inr ()" if "parse_pool_block_marker X b = None" "block_miner X S b = miner"
    using turn_jin.checked_then_recorded [OF _ turns, of "((tp_jin t0, ?u), 0)"] start b sh that
    by (subst validate_jin_block_def, simp add: chain_height_def, subst first) (auto simp: share_silent)
  show "\<exists>w. fold_r (\<lambda>tx. connect_tx_utxos X tx h False) (sh @ ord) v = Inr w" if "beside cb d ?u v"
    using turn_coins.checked_then_recorded [OF _ turns, of d v] start sh that
    by (subst first) (auto simp: share_silent)
qed

lemma pools_tx_active:
  assumes "validate_pools_tx X S bs h tx s = Inr s'" and "is_pool_share_transaction tx \<or> pool_action_count X tx S > 0"
  shows "pools_enabled S \<and> pools_active S h"
proof -
  obtain ctx u f where s: "s = (ctx, u, f)" by (rule prod_cases3)
  from assms(1) s obtain fee ctx' where run: "pool_validate_and_apply X S tx bs u h fee ctx = (Inr (), ctx')"
    by (auto simp: validate_pools_tx_def result_simps se_simps)
  with assms(2) have en: "pools_enabled S" by (auto simp: pool_validate_and_apply_def se_simps split: if_split_asm)
  have "pools_active S h"
  proof (cases "is_pool_share_transaction tx")
    case True
    with run en show ?thesis
      by (auto simp: pool_validate_and_apply_def pool_context_share_def se_simps validate_share_tx_against_context_def
          Let_def split: if_split_asm)
  next
    case False
    with run en assms(2) have "pool_context_action X S tx u h fee ctx = (Inr (), ctx')"
      by (auto simp: pool_validate_and_apply_def Let_def se_simps split: if_split_asm)
    then obtain r where "validate_pool_action_tx X S tx fee h u (pcx_registry ctx) = (Inr (), r)"
      by (auto simp: pool_context_action_def split: prod.splits)
    with False assms(2) show ?thesis
      by (auto simp: validate_pool_action_tx_def pool_action_count_def se_simps Let_def split: if_split_asm)
  qed
  with en show ?thesis by blast
qed

lemma pools_fold:
  assumes sh: "\<forall>tx \<in> set sh. is_pool_share_transaction tx"
    and ctx: "fold_r (\<lambda>tx. se_run (pool_validate_and_apply X S tx bs u h 0)) sh ctx0 = Inr ctx"
    and turns: "fold_r (validate_pools_tx X S bs h) ord (ctx, u, 0) = Inr r"
  shows "fold_r (validate_pools_tx X S bs h) (sh @ ord) (ctx0, u, 0) = Inr r"
proof -
  have "fold_r (validate_pools_tx X S bs h) sh (ctx0, u, 0) = Inr (ctx, u, 0)"
    using ctx sh
  proof (induction sh arbitrary: ctx0)
    case (Cons tx sh)
    then obtain ctx1 where "se_run (pool_validate_and_apply X S tx bs u h 0) ctx0 = Inr ctx1"
      and "fold_r (validate_pools_tx X S bs h) sh (ctx1, u, 0) = Inr (ctx, u, 0)" by (auto simp: result_simps)
    moreover from this(1) Cons.prems(2) share_contextual [of tx]
    have "validate_pools_tx X S bs h tx (ctx0, u, 0) = Inr (ctx1, u, 0)"
      by (simp add: validate_pools_tx_def checked_add_def ok_or_def)
    ultimately show ?case by simp
  qed simp
  with turns show ?thesis by (simp add: fold_r_append)
qed

text \<open>The transactions of a block pass the pool checks.\<close>

definition pools_pass :: "extern \<Rightarrow> settings \<Rightarrow> block list \<Rightarrow> utxo_map \<Rightarrow> u32 \<Rightarrow> transaction list \<Rightarrow> u128 \<Rightarrow> bool" where
  "pools_pass X S bs u h txs gross \<longleftrightarrow>
     (\<exists>ctx0 ctx v. pool_context_from_confirmed X S bs h = Inr ctx0 \<and>
       fold_r (validate_pools_tx X S bs h) txs (ctx0, u, 0) = Inr (ctx, v, gross)) \<and>
     length (filter is_pool_share_transaction txs) \<le> unat (ps_max_share_txs_per_block (pools S))"

lemma pools_pass_block:
  assumes pass: "pools_pass X S bs u h (drop 1 (blk_transactions b)) gross"
    and coinbase: "validate_pool_coinbase X S b bs h gross = Inr ()"
    and marked: "parse_pool_block_marker X b \<noteq> None \<longrightarrow> pools_active S h"
  shows "validate_pools_block X S b bs u h = Inr ()"
proof -
  from pass obtain ctx0 ctx v where ctx0: "pool_context_from_confirmed X S bs h = Inr ctx0"
    and all: "fold_r (validate_pools_tx X S bs h) (drop 1 (blk_transactions b)) (ctx0, u, 0) = Inr (ctx, v, gross)"
    by (auto simp: pools_pass_def)
  have "pools_enabled S \<and> pools_active S h"
    if "list_ex (\<lambda>tx. is_pool_share_transaction tx \<or> pool_action_count X tx S > 0) txs"
      "fold_r (validate_pools_tx X S bs h) txs s = Inr f" for txs s f
    using that by (induction txs arbitrary: s) (auto simp: result_simps dest: pools_tx_active)
  from this [OF _ all] marked pools_active_enabled [of S h]
  have active: "pools_enabled S \<and> pools_active S h"
    if "\<not> (parse_pool_block_marker X b = None \<and>
      \<not> list_ex (\<lambda>tx. is_pool_share_transaction tx \<or> pool_action_count X tx S > 0) (drop 1 (blk_transactions b)))"
    using that by argo
  have cap: "\<not> length (filter is_pool_share_transaction (drop 1 (blk_transactions b))) > unat (ps_max_share_txs_per_block (pools S))"
    using pass by (simp add: pools_pass_def)
  show ?thesis
    unfolding validate_pools_block_def Let_def using active cap coinbase
    by (simp add: ctx0 all del: fold_r.simps One_nat_def)
qed

lemma candidate_checked:
  assumes "candidate_mempool_transactions X S c h miner = Inr (txs, fees)" and "mempool_ok X S c"
    and "fresh_ids X c cb" and "utxo_total (cs_utxos c) < 2 ^ 64 - 1"
    and "\<forall>tx \<in> set txs. verified_governance_markers_in_tx X tx S = []" and b: "drop 1 (blk_transactions b) = txs"
  shows "\<exists>scratch. fold_r (validate_block_tx X S h) txs (cs_utxos c, 0) = Inr (scratch, ucast fees)"
    and "\<forall>tx \<in> set txs. \<not> is_coinbase tx"
    and "validate_qns_block X S b (cs_blocks c) h = Inr ()"
    and "validate_jin_sale_block X S b (cs_blocks c) (cs_utxos c) h = Inr ()"
    and "hdr_time (blk_header b) = unix_now X \<Longrightarrow> validate_library_block X S b (cs_blocks c) (cs_utxos c) h = Inr ()"
    and "validate_verified_governance_block X S b (cs_blocks c) (cs_utxos c) h = Inr ()"
    and "parse_pool_block_marker X b = None \<Longrightarrow> block_miner X S b = miner \<Longrightarrow>
      validate_jin_block X S b (cs_blocks c) (cs_utxos c) h = Inr ()"
    and "\<exists>gross. pools_pass X S (cs_blocks c) (cs_utxos c) h txs gross"
    and "beside cb d (cs_utxos c) v \<Longrightarrow> \<exists>w. fold_r (\<lambda>tx. connect_tx_utxos X tx h False) txs v = Inr w"
proof -
  let ?u = "cs_utxos c" and ?bs = "cs_blocks c"
  obtain sh ord ctx0 ctx where txs: "txs = sh @ ord" and sh: "\<forall>tx \<in> set sh. is_pool_share_transaction tx"
    and ord: "\<forall>tx \<in> set ord. \<not> is_pool_share_transaction tx" and sub: "set txs \<subseteq> set (cs_mempool c)"
    and cap: "length sh \<le> unat (ps_max_share_txs_per_block (pools S))"
    and ctx: "pool_context_from_confirmed X S ?bs h = Inr ctx0"
      "fold_r (\<lambda>tx. se_run (pool_validate_and_apply X S tx ?bs ?u h 0)) sh ctx0 = Inr ctx"
    and alt: "ord = [] \<and> fees = 0 \<or> (\<exists>reg t0 t. template_start X S c h ctx sh = Inr (reg, t0) \<and>
      fold_r (template_tx X S ?bs h miner reg) ord t0 = Inr t \<and> fees = tp_fees t)"
    by (rule candidate_Inr [OF assms(1,2)])
  show "validate_verified_governance_block X S b ?bs ?u h = Inr ()"
    using assms(5) b by (simp add: validate_verified_governance_block_def list_all_iff)
  have all: "(\<exists>scratch. fold_r (validate_block_tx X S h) txs (?u, 0) = Inr (scratch, ucast fees)) \<and>
    (\<forall>tx \<in> set txs. \<not> is_coinbase tx) \<and> validate_qns_block X S b ?bs h = Inr () \<and>
    validate_jin_sale_block X S b ?bs ?u h = Inr () \<and>
    (hdr_time (blk_header b) = unix_now X \<longrightarrow> validate_library_block X S b ?bs ?u h = Inr ()) \<and>
    (parse_pool_block_marker X b = None \<longrightarrow> block_miner X S b = miner \<longrightarrow> validate_jin_block X S b ?bs ?u h = Inr ()) \<and>
    (\<exists>r. fold_r (validate_pools_tx X S ?bs h) ord (ctx, ?u, 0) = Inr r) \<and>
    (beside cb d ?u v \<longrightarrow> (\<exists>w. fold_r (\<lambda>tx. connect_tx_utxos X tx h False) txs v = Inr w))"
    using alt
  proof
    assume "ord = [] \<and> fees = 0"
    with b sh txs show ?thesis by (auto simp: shares_checked share_not_coinbase)
  next
    assume "\<exists>reg t0 t. template_start X S c h ctx sh = Inr (reg, t0) \<and>
      fold_r (template_tx X S ?bs h miner reg) ord t0 = Inr t \<and> fees = tp_fees t"
    then obtain reg t0 t where t0: "template_start X S c h ctx sh = Inr (reg, t0)"
      and t: "fold_r (template_tx X S ?bs h miner reg) ord t0 = Inr t" and fees: "fees = tp_fees t" by blast
    then have start: "tp_scratch t0 = ?u" "tp_pool t0 = ctx" by (auto simp: template_start_def result_simps)
    have "fmlookup (tp_scratch t0) outpoint_null = None" using assms(3) start by (simp add: fresh_ids_def)
    moreover have "\<forall>tx \<in> set ord. \<not> is_pool_share_transaction tx \<and> verified_governance_markers_in_tx X tx S = [] \<and>
      txid X tx \<noteq> cb \<and> txid X tx \<noteq> hash_zero" using assms(3,5) ord sub txs by (auto simp: fresh_ids_def)
    ultimately have turns: "fold_r (plain_turn X S ?bs h miner reg cb) ord t0 = Inr t" and no_cb: "\<forall>tx \<in> set ord. \<not> is_coinbase tx"
      using ordinary_plain [OF t] by blast+
    have "\<exists>r. fold_r (validate_pools_tx X S ?bs h) ord (ctx, ?u, 0) = Inr r"
      using turn_pools.checked_then_recorded [OF _ turns, of "(ctx, ?u, 0)"] start assms(4) by auto
    with ordinary_checked [OF sh t0 turns assms(4) b [unfolded txs]] no_cb sh txs fees show ?thesis
      by (auto simp: share_not_coinbase)
  qed
  then show "\<exists>scratch. fold_r (validate_block_tx X S h) txs (?u, 0) = Inr (scratch, ucast fees)"
    and "\<forall>tx \<in> set txs. \<not> is_coinbase tx" and "validate_qns_block X S b ?bs h = Inr ()"
    and "validate_jin_sale_block X S b ?bs ?u h = Inr ()" by blast+
  from all show "hdr_time (blk_header b) = unix_now X \<Longrightarrow> validate_library_block X S b ?bs ?u h = Inr ()" by blast
  from all show "parse_pool_block_marker X b = None \<Longrightarrow> block_miner X S b = miner \<Longrightarrow>
      validate_jin_block X S b ?bs ?u h = Inr ()" by blast
  from all obtain r where "fold_r (validate_pools_tx X S ?bs h) ord (ctx, ?u, 0) = Inr r" by blast
  from pools_fold [OF sh ctx(2) this] have "fold_r (validate_pools_tx X S ?bs h) txs (ctx0, ?u, 0) = Inr r" by (simp add: txs)
  moreover have "filter is_pool_share_transaction txs = sh"
    using sh ord by (simp add: txs filter_id_conv filter_empty_conv)
  ultimately show "\<exists>gross. pools_pass X S ?bs ?u h txs gross"
    using ctx(1) cap by (cases r) (auto simp: pools_pass_def)
  from all show "beside cb d ?u v \<Longrightarrow> \<exists>w. fold_r (\<lambda>tx. connect_tx_utxos X tx h False) txs v = Inr w" by blast
qed

section \<open>The block of a candidate\<close>

lemma with_nonce_simps [simp]:
  "blk_transactions (with_nonce n b) = blk_transactions b"
  "hdr_version (blk_header (with_nonce n b)) = hdr_version (blk_header b)"
  "hdr_prev_block_hash (blk_header (with_nonce n b)) = hdr_prev_block_hash (blk_header b)"
  "hdr_merkle_root (blk_header (with_nonce n b)) = hdr_merkle_root (blk_header b)"
  "hdr_time (blk_header (with_nonce n b)) = hdr_time (blk_header b)"
  "hdr_bits (blk_header (with_nonce n b)) = hdr_bits (blk_header b)"
  by (simp_all add: with_nonce_def)

lemma sat_add_ge: "a \<le> sat_add a b" for a :: u32
proof (cases "unat a + unat b < 2 ^ 32")
  case True
  then show ?thesis by (simp add: sat_add_def word_le_nat_alt unat_word_ariths)
next
  case False
  then show ?thesis by (simp add: sat_add_def word_order.extremum)
qed

lemma no_coinbase_fold: "\<forall>tx \<in> set txs. \<not> is_coinbase tx \<Longrightarrow> fold_r check_no_coinbase txs () = Inr ()"
  by (induction txs) (simp_all add: check_no_coinbase_def)

lemma collect_txids_fold:
  "distinct (map (txid X) txs) \<Longrightarrow> \<forall>tx \<in> set txs. txid X tx |\<notin>| ids \<Longrightarrow> \<exists>r. fold_r (collect_txid X) txs ids = Inr r"
proof (induction txs arbitrary: ids)
  case (Cons tx txs)
  then have "\<exists>r. fold_r (collect_txid X) txs (finsert (txid X tx) ids) = Inr r" by (intro Cons.IH) (auto simp: image_iff)
  with Cons.prems show ?case by (simp add: collect_txid_def [of X tx])
qed simp

lemma block_from_parts_Inr:
  assumes parts: "build_candidate_block_parts X S c miner = Inr parts" and b: "b = block_from_candidate_parts X parts cb"
    and len: "length (cs_blocks c) < 2 ^ 32" "cs_blocks c \<noteq> []"
  shows "cp_height parts = of_nat (length (cs_blocks c))" and "blk_transactions b = cb # cp_non_coinbase_transactions parts"
    and "hdr_time (blk_header b) = unix_now X" and "required_work_bits S (cs_blocks c) (cp_height parts) = Inr (hdr_bits (blk_header b))"
    and "hdr_prev_block_hash (blk_header b) = tip_hash X c" and "hdr_version (blk_header b) = expected_block_version S (cp_height parts)"
    and "compute_merkle_root X b = hdr_merkle_root (blk_header b)"
    and "\<exists>fees. candidate_mempool_transactions X S c (cp_height parts) miner = Inr (cp_non_coinbase_transactions parts, fees) \<and>
      checked_add (block_subsidy (ucast (cp_height parts)) S) fees = Some (cp_reward_atoms parts)"
proof -
  have "unat (chain_height c) = length (cs_blocks c) - 1"
    using len unat_of_nat_less [where 'w = 32, of "length (cs_blocks c) - 1"] by (simp add: chain_height_def)
  then have "sat_add (chain_height c) 1 = chain_height c + 1" using len by (simp add: sat_add_def)
  with len have h: "sat_add (chain_height c) 1 = of_nat (length (cs_blocks c))" by (simp add: chain_height_next)
  from parts obtain txs fees reward bits where
    "candidate_mempool_transactions X S c (of_nat (length (cs_blocks c))) miner = Inr (txs, fees)"
    "checked_add (block_subsidy (ucast (of_nat (length (cs_blocks c)) :: u32)) S) fees = Some reward"
    "required_work_bits S (cs_blocks c) (of_nat (length (cs_blocks c))) = Inr bits"
    "parts = \<lparr>cp_height = of_nat (length (cs_blocks c)), cp_prev_block_hash = tip_hash X c, cp_time = unix_now X, cp_bits = bits,
        cp_version = expected_block_version S (of_nat (length (cs_blocks c))), cp_reward_atoms = reward,
        cp_non_coinbase_transactions = txs\<rparr>"
    by (auto simp: build_candidate_block_parts_def h Let_def result_simps)
  then show "cp_height parts = of_nat (length (cs_blocks c))" "blk_transactions b = cb # cp_non_coinbase_transactions parts"
    "hdr_time (blk_header b) = unix_now X" "required_work_bits S (cs_blocks c) (cp_height parts) = Inr (hdr_bits (blk_header b))"
    "hdr_prev_block_hash (blk_header b) = tip_hash X c" "hdr_version (blk_header b) = expected_block_version S (cp_height parts)"
    "compute_merkle_root X b = hdr_merkle_root (blk_header b)"
    "\<exists>fees. candidate_mempool_transactions X S c (cp_height parts) miner = Inr (cp_non_coinbase_transactions parts, fees) \<and>
      checked_add (block_subsidy (ucast (cp_height parts)) S) fees = Some (cp_reward_atoms parts)"
    using b by (simp_all add: block_from_candidate_parts_def compute_merkle_root_def)
qed

text \<open>Coinbase outputs go to fresh outpoints.\<close>

lemma coinbase_beside:
  assumes "is_coinbase cb" and "\<forall>p \<in> fmdom' u. op_txid p \<noteq> txid X cb" and "length (tx_outputs cb) \<le> 2 ^ 32"
  shows "\<exists>d v. connect_tx_utxos X cb h True u = Inr v \<and> beside (txid X cb) d u v"
proof -
  have not_share: "\<not> is_pool_share_transaction cb" using assms(1) by (simp add: is_coinbase_def is_pool_share_transaction_def)
  have "fmlookup u (OutPoint (txid X cb) k) = None" for k
    using assms(2) by (cases "fmlookup u (OutPoint (txid X cb) k)") (simp, fastforce dest: fmdom'I)
  from create_outputs_fresh [OF this, of 0 "tx_outputs cb"] assms(3) obtain v where
    v: "fold_r (create_output (txid X cb) h True) (enumerate 0 (tx_outputs cb)) u = Inr v" by auto
  have created: "op_txid p = t" if "fold_r (create_output t h True) vos w = Inr v" "fmlookup w p = None" "fmlookup v p \<noteq> None"
    for vos t w p
    using that by (induction vos arbitrary: w) (fastforce simp: result_simps split: if_split_asm)+
  from extension_split [OF create_outputs_extend [OF v]] obtain d where
    d: "v = u ++\<^sub>f d" "fmdom u |\<inter>| fmdom d = {||}" by blast
  have "op_txid p = txid X cb" if p: "p \<in> fmdom' d" for p
  proof (rule created [OF v])
    from p have p: "p |\<in>| fmdom d" by (simp add: fmdom'_alt_def)
    with d(2) have "p |\<notin>| fmdom u" by blast
    then show "fmlookup u p = None" by (rule fmdom_notD)
    from p show "fmlookup v p \<noteq> None" unfolding d(1) by (simp add: fmlookup_dom_iff)
  qed
  with v d not_share show ?thesis by (auto simp: connect_tx_utxos_def beside_def)
qed

lemma template_valid:
  assumes parts: "build_candidate_block_parts X S c miner = Inr parts" and b: "b = block_from_candidate_parts X parts cb"
    and len: "length (cs_blocks c) < 2 ^ 32" "cs_blocks c \<noteq> []"
    and pow: "verify_header_pow X (blk_header (with_nonce n b)) = Inr True"
    and ok: "mempool_ok X S c" and fresh: "fresh_ids X c (txid X cb)" and u: "utxo_total (cs_utxos c) < 2 ^ 64 - 1"
    and room: "0 < unat (cons_max_block_transactions (consensus S))"
    and gov: "\<forall>tx \<in> set (cp_non_coinbase_transactions parts). verified_governance_markers_in_tx X tx S = []"
    and cb: "is_coinbase cb" "validate_tx_stateless cb S = Inr ()" "coinbase_claim cb \<le> ucast (cp_reward_atoms parts)"
  shows "\<exists>ids. validate_block X (with_nonce n b) (cs_utxos c) (tip_hash X c) (of_nat (length (cs_blocks c)))
    (hdr_bits (blk_header b)) S = Inr ids"
proof -
  let ?txs = "cp_non_coinbase_transactions parts" and ?h = "of_nat (length (cs_blocks c)) :: u32"
  note blk = block_from_parts_Inr [OF parts b len]
  from blk(1,8) obtain fees where cand: "candidate_mempool_transactions X S c ?h miner = Inr (?txs, fees)"
    and reward: "checked_add (block_subsidy (ucast ?h) S) fees = Some (cp_reward_atoms parts)" by auto
  note checked = candidate_checked [OF cand ok fresh u gov, of b] 
  from blk(2) have drop: "drop 1 (blk_transactions b) = ?txs" by simp
  from candidate_Inr [OF cand ok] have sub: "set ?txs \<subseteq> set (cs_mempool c)" and dist: "distinct (map (txid X) ?txs)"
    and few: "?txs \<noteq> [] \<longrightarrow> length ?txs < unat (cons_max_block_transactions (consensus S))" by metis+
  have "distinct (map (txid X) (cb # ?txs))" using dist sub fresh by (auto simp: fresh_ids_def)
  then obtain ids where ids: "fold_r (collect_txid X) (cb # ?txs) {||} = Inr ids"
    using collect_txids_fold [of X "cb # ?txs" "{||}"] by auto
  from checked(1) [OF drop] obtain scratch where
    fold: "fold_r (validate_block_tx X S ?h) ?txs (cs_utxos c, 0) = Inr (scratch, ucast fees)" by blast
  have "ucast (cp_reward_atoms parts) = (ucast (block_subsidy (ucast ?h) S) + ucast fees :: u128)"
    using reward unat_bound [of "cp_reward_atoms parts"]
    by (simp add: checked_add_Some word_unat_eq_iff unat_word_ariths unsigned_ucast_eq take_bit_nat_eq_self)
  with cb(3) have claim: "\<not> coinbase_claim cb > ucast (block_subsidy (ucast ?h) S) + ucast fees" by simp
  have size: "length (cb # ?txs) \<le> unat (cons_max_block_transactions (consensus S))" using few room by (cases ?txs) auto
  have merkle: "compute_merkle_root X (with_nonce n b) = hdr_merkle_root (blk_header b)"
    using blk(7) by (simp add: compute_merkle_root_def)
  show ?thesis
    using size merkle blk(1-6) pow claim fold ids cb(1,2) no_coinbase_fold [OF checked(2) [OF drop]]
      sat_add_ge [of "unix_now X" "cons_max_future_time_secs (consensus S)"]
    by (simp add: validate_block_def not_less [symmetric] del: fold_r.simps)
qed

text \<open>A solo coinbase is no pool marker: what follows its last \<open>|\<close> is too short for a pool id.\<close>

lemma length_trim: "length (trim s) \<le> length s"
proof -
  have "length (trim_encs es s) \<le> length s" for es s using trim_encs_suffix [of s es] by (metis length_append le_add2)
  then show ?thesis unfolding trim_def trim_end_def trim_start_def by (metis length_rev order_trans)
qed

lemma short_not_pool_marker:
  assumes "extern_ok X" and "blk_transactions b = cb # txs" and "tx_inputs cb = [i]" and "length (signature_script i) < 64"
  shows "parse_pool_block_marker X b = None"
proof -
  have short: "to_option (hash_from_hex X (takeWhile is_ascii_hexdigit (trim rest))) = None" if "length rest < 64" for rest
  proof -
    let ?s = "takeWhile is_ascii_hexdigit (trim rest)"
    have "length (trim ?s) < 64" using that length_trim [of ?s] length_trim [of rest] length_takeWhile_le [of is_ascii_hexdigit "trim rest"]
      by linarith
    then have "length v \<noteq> 32" if "hex_decode X (trim ?s) = Some v" for v using hex_decode_length [OF assms(1) that] by linarith
    then show ?thesis by (cases "hex_decode X (trim ?s)") (auto simp: hash_from_hex_def to_option_def ok_or_def)
  qed
  have "length rest < 64" if "from_utf8 (drop k (signature_script i)) = Some rest" for k rest
    using that assms(4) by (auto simp: from_utf8_def split: if_split_asm)
  with short have "to_option (hash_from_hex X (takeWhile is_ascii_hexdigit (trim rest))) = None"
    if "from_utf8 (drop k (signature_script i)) = Some rest" for k rest
    using that by blast
  then have "Option.bind (from_utf8 (drop k (signature_script i)))
      (\<lambda>rest. to_option (hash_from_hex X (takeWhile is_ascii_hexdigit (trim rest)))) = None" for k
    by (cases "from_utf8 (drop k (signature_script i))") auto
  then show ?thesis
    using assms(2,3) by (cases "position_of POOL_BLOCK_PREFIX (signature_script i)") (simp_all add: parse_pool_block_marker_def Let_def)
qed

section \<open>Solo blocks connect\<close>

lemma create_coinbase_Inr:
  assumes "create_coinbase h v a e = Inr cb"
  shows "is_coinbase cb" and "coinbase_claim cb = ucast v" and "tx_outputs cb = [\<lparr>out_value = v, script_pubkey = address_script_pubkey a\<rparr>]"
    and "\<exists>i. tx_inputs cb = [i] \<and> length (signature_script i) = 29" and "v \<le> MAX_MONEY_ATOMS"
  using assms
  by (auto simp: create_coinbase_def amount_from_atoms_def is_coinbase_def TX_VERSION_POOL_SHARE_def coinbase_claim_def
      u32_le_def u64_le_def result_simps split: if_split_asm)

lemma coinbase_stateless:
  assumes "create_coinbase h v a e = Inr cb" and "0 < v" and "v \<le> cons_max_money_atoms (consensus S)"
  shows "validate_tx_stateless cb S = Inr ()"
proof -
  note cb = create_coinbase_Inr [OF assms(1)]
  have "\<not> is_pool_share_transaction cb" using cb(3) by (simp add: is_pool_share_transaction_def)
  moreover have "fold_r (add_output_value S) (tx_outputs cb) 0 = Inr (unat v)"
    using cb(3,5) assms(2,3) by (simp add: add_output_value_def word_le_nat_alt not_less)
  ultimately show ?thesis using cb by (auto simp: validate_tx_stateless_def)
qed

lemma solo_block_miner:
  assumes "blk_transactions b = cb # txs" and "create_coinbase h v a e = Inr cb" and "extern_ok X"
    and "length (addr_payload a) = 20" and "addr_prefix a = net_address_prefix (network S)"
  shows "parse_pool_block_marker X b = None" and "block_miner X S b = Some (address_to_string X a)"
proof -
  note cb = create_coinbase_Inr [OF assms(2)]
  from cb(4) obtain i where "tx_inputs cb = [i]" "length (signature_script i) = 29" by blast
  then show no: "parse_pool_block_marker X b = None" using short_not_pool_marker [OF assms(3,1)] by simp
  have "address_from_script_pubkey (net_address_prefix (network S)) (address_script_pubkey a) = Some a"
    using assms(4,5) by (simp add: address_from_script_pubkey_def address_new_def)
  then show "block_miner X S b = Some (address_to_string X a)"
    using assms(1) cb(3) no by (simp add: block_miner_def coinbase_miner_address_def)
qed

lemma found_solo_connects:
  assumes X: "extern_ok X" and ne: "cs_blocks c \<noteq> []" and ok: "mempool_ok X S c" and len: "length (cs_blocks c) < 2 ^ 32"
    and found: "found_block X (build_candidate_block X S c miner) b"
    and miner: "length (addr_payload miner) = 20" "addr_prefix miner = net_address_prefix (network S)"
    and fresh: "fresh_ids X c (txid X (hd (blk_transactions b)))" and u: "utxo_total (cs_utxos c) < 2 ^ 64 - 1"
    and room: "0 < unat (cons_max_block_transactions (consensus S))"
    and range: "\<forall>out \<in> set (tx_outputs (hd (blk_transactions b))). 0 < out_value out \<and> out_value out \<le> cons_max_money_atoms (consensus S)"
    and gov: "\<forall>tx \<in> set (tl (blk_transactions b)). verified_governance_markers_in_tx X tx S = []"
    and checkpoint: "validate_consensus_checkpoint X S (of_nat (length (cs_blocks c))) (block_hash X b) = Inr ()"
  shows "\<exists>d. connect_block X S b c = Inr (block_hash X b, d)"
proof -
  let ?bs = "cs_blocks c" and ?u = "cs_utxos c" and ?h = "of_nat (length (cs_blocks c)) :: u32"
  from found obtain e t n where t: "build_candidate_block X S c miner e = Inr t" and b: "b = with_nonce n t"
    and pow: "verify_header_pow X (blk_header (with_nonce n t)) = Inr True" by (auto simp: found_block_def)
  from t obtain parts cb where parts: "build_candidate_block_parts X S c (Some (address_to_string X miner)) = Inr parts"
    and cb: "create_coinbase (cp_height parts) (cp_reward_atoms parts) miner e = Inr cb"
    and t: "t = block_from_candidate_parts X parts cb" by (auto simp: build_candidate_block_def result_simps)
  note blk = block_from_parts_Inr [OF parts t len ne] and coin = create_coinbase_Inr [OF cb]
  have txs: "blk_transactions b = cb # cp_non_coinbase_transactions parts" using blk(2) b by simp
  from blk(1,8) obtain fees where
    cand: "candidate_mempool_transactions X S c ?h (Some (address_to_string X miner)) = Inr (cp_non_coinbase_transactions parts, fees)"
    by auto
  have fresh': "fresh_ids X c (txid X cb)" and gov': "\<forall>tx \<in> set (cp_non_coinbase_transactions parts). verified_governance_markers_in_tx X tx S = []"
    using fresh gov txs by simp_all
  have stateless: "validate_tx_stateless cb S = Inr ()" using range txs coin(3) by (intro coinbase_stateless [OF cb]) simp_all
  obtain ids where valid: "validate_block X b ?u (tip_hash X c) ?h (hdr_bits (blk_header t)) S = Inr ids"
    using template_valid [OF parts t len ne pow ok fresh' u room gov' coin(1) stateless] coin(2) b by auto
  note checked = candidate_checked [OF cand ok fresh' u gov', of b]
  have drop: "drop 1 (blk_transactions b) = cp_non_coinbase_transactions parts" using txs by simp
  note solo = solo_block_miner [OF txs cb X miner]
  from coinbase_beside [OF coin(1), of ?u X ?h] fresh' coin(3) obtain d v where
    v: "connect_tx_utxos X cb ?h True ?u = Inr v" and beside: "beside (txid X cb) d ?u v" by (auto simp: fresh_ids_def)
  from checked(8) [OF drop] obtain gross where pass: "pools_pass X S ?bs ?u ?h (drop 1 (blk_transactions b)) gross"
    unfolding drop by blast
  have pools: "validate_pools_block X S b ?bs ?u ?h = Inr ()"
    by (rule pools_pass_block [OF pass]) (simp_all add: solo(1) validate_pool_coinbase_def)
  from checked(9) [OF drop beside] obtain w where
    "fold_r (\<lambda>tx. connect_tx_utxos X tx ?h False) (cp_non_coinbase_transactions parts) v = Inr w" by blast
  with v txs have coins: "connect_block_utxos X b ?h ?u = Inr w"
    by (simp add: connect_block_utxos_def connect_rest)
  have "check_and_apply_block X S ?bs ?u (tip_hash X c) ?h b = Inr (ids, w)"
    using blk(1,3,4) valid checked(3-7) [OF drop] pools solo checkpoint coins b by (simp add: check_and_apply_block_def)
  then show ?thesis by (simp add: connect_block_def chain_height_next [OF ne] Let_def)
qed

lemma reachable_mempool: "node_reachable X S c \<Longrightarrow> cs_blocks c \<noteq> []" "node_reachable X S c \<Longrightarrow> mempool_ok X S c"
  using reachable_ok [of X S c] valid_chain_nonempty [of X S "cs_blocks c" "cs_utxos c"]
  by (auto simp: node_ok_def chain_ok_def)

section \<open>Properties\<close>

text \<open>
  C4: What a miner finds is a block its own node accepts. A block the solo miner returns connects to
  the chain it was mined on, provided that no governance action was taken into it (the template and the
  block check use different JIN ledgers for those), the coinbase's id is new, the coinbase's outputs are
  positive and within the maximum, the next checkpoint (if there is one) is met, the miner's address is
  one of the network, and fewer than 2 ^ 64 - 1 atoms exist. Every other transaction the template took
  from the pending ones then passes the checks of the block, and the fees and the coinbase add up.
\<close>

theorem mined_block_connects:
  assumes "extern_ok X" and "node_reachable X S c" and "length (cs_blocks c) < 2 ^ 32"
    and "mine_next_block X S c miner options = Some (Inr b)"
    and "length (addr_payload miner) = 20" and "addr_prefix miner = net_address_prefix (network S)"
    and "fresh_ids X c (txid X (hd (blk_transactions b)))" and "utxo_total (cs_utxos c) < 2 ^ 64 - 1"
    and "0 < unat (cons_max_block_transactions (consensus S))"
    and "\<forall>out \<in> set (tx_outputs (hd (blk_transactions b))). 0 < out_value out \<and> out_value out \<le> cons_max_money_atoms (consensus S)"
    and "\<forall>tx \<in> set (tl (blk_transactions b)). verified_governance_markers_in_tx X tx S = []"
    and "validate_consensus_checkpoint X S (of_nat (length (cs_blocks c))) (block_hash X b) = Inr ()"
  shows "\<exists>d. connect_block X S b c = Inr (block_hash X b, d)"
  using assms(4) found_solo_connects [OF assms(1) reachable_mempool(1) [OF assms(2)] reachable_mempool(2) [OF assms(2)] assms(3) _ assms(5-12)]
  by (auto simp: mine_next_block_def dest: mine_templates_found)

text \<open>
  C20: Mining ends. The search for a block returns (a block, or the error it met) whenever the number of
  hashes is limited, and also without a limit if some nonce of the first template meets the target;
  and a block it returns is a template with a nonce that meets the target.
\<close>

theorem mining_ends:
  assumes "mo_max_hashes options \<noteq> None \<or>
    (\<exists>t n. build_candidate_block X S c miner 0 = Inr t \<and> verify_header_pow X (blk_header (with_nonce n t)) = Inr True)"
  shows "\<exists>r. mine_next_block X S c miner options = Some r \<and>
    (\<forall>b. r = Inr b \<longrightarrow> found_block X (build_candidate_block X S c miner) b)"
  using mine_templates_ends [where build = "build_candidate_block X S c miner", OF assms] mine_templates_found
  by (auto simp: mine_next_block_def)

end
