(* ===== verification/PoolTemplate.thy ===== *)
theory PoolTemplate
  imports Template
begin

text \<open>
  Pool blocks: the pool check counts the fees of a block as inputs minus outputs, the block check
  without the atoms that a melt burns, so a pool block with a melt fits neither; without JIN
  transactions a pool template is a valid block.
\<close>

section \<open>The two fee totals\<close>

definition melted_atoms :: "extern \<Rightarrow> settings \<Rightarrow> u32 \<Rightarrow> transaction \<Rightarrow> nat" where
  "melted_atoms X S h tx = (case qub_jin_melt_burn_atoms_for_fee X S tx h of Inl _ \<Rightarrow> 0 | Inr n \<Rightarrow> unat n)"

lemma fee_totals_differ:
  assumes "fold_r (validate_block_tx X S h) txs (u, f) = Inr (v, f')"
    and "fold_r (validate_pools_tx X S bs h) txs (ctx, u, g) = Inr (ctx', v', g')"
    and "\<forall>tx \<in> set txs. \<not> is_coinbase tx" and "utxo_total u < 2 ^ 64" and "unat f + utxo_total u < 2 ^ 128"
  shows "unat g' + unat f = unat g + unat f' + sum_list (map (melted_atoms X S h) txs)"
  using assms
proof (induction txs arbitrary: u f ctx g)
  case (Cons tx txs)
  from Cons.prems(1) obtain r where "validate_block_tx X S h tx (u, f) = Inr r"
    and "fold_r (validate_block_tx X S h) txs r = Inr (v, f')" by (auto simp: result_simps)
  then obtain raw burn u1 where raw: "validate_tx_contextual X tx u h S True = Inr raw"
    and burn: "qub_jin_melt_burn_atoms_for_fee X S tx h = Inr burn" "burn \<le> raw"
    and c: "connect_tx_utxos X tx h False u = Inr u1"
    and rest: "fold_r (validate_block_tx X S h) txs (u1, f + ucast (raw - burn)) = Inr (v, f')"
    by (elim validate_block_tx_Inr) simp
  have conn: "(if \<not> is_pool_share_transaction tx then connect_tx_utxos X tx h False u else Inr u) = Inr u1"
    using c by (simp add: connect_tx_utxos_def split: if_split_asm)
  from Cons.prems(2) raw obtain ctx1 g1 where g1: "checked_add g (ucast raw) = Some g1"
    and rest': "fold_r (validate_pools_tx X S bs h) txs (ctx1, u1, g1) = Inr (ctx', v', g')"
    by (auto simp: validate_pools_tx_def [of X S bs h tx] conn result_simps)
  have le: "utxo_total u1 + unat raw \<le> utxo_total u"
    using validated_tx_total [OF raw _ c Cons.prems(4)] Cons.prems(3) by simp
  have "unat (raw - burn) + unat burn = unat raw" using burn(2) by (simp add: unat_sub word_le_nat_alt)
  moreover from this le Cons.prems(5) have f: "unat (f + ucast (raw - burn)) = unat f + unat (raw - burn)"
    by (simp add: unat_word_ariths)
  moreover have "unat (ucast raw :: u128) = unat raw" by (simp add: unsigned_ucast_eq take_bit_nat_eq_self)
  moreover have "unat g' + unat (f + ucast (raw - burn)) = unat g1 + unat f' + sum_list (map (melted_atoms X S h) txs)"
    by (rule Cons.IH [OF rest rest']) (use Cons.prems le calculation in simp_all)
  ultimately show ?case using g1 burn(1) by (simp add: melted_atoms_def [of X S h tx] checked_add_Some)
qed simp

lemma pools_fees_bound:
  assumes "fold_r (validate_pools_tx X S bs h) txs (ctx, u, g) = Inr (ctx', v, g')"
    and "\<forall>tx \<in> set txs. \<not> is_coinbase tx" and "utxo_total u < 2 ^ 64"
  shows "unat g' + utxo_total v \<le> unat g + utxo_total u"
  using assms
proof (induction txs arbitrary: ctx u g)
  case (Cons tx txs)
  from Cons.prems(1) obtain raw u1 ctx1 g1 where raw: "validate_tx_contextual X tx u h S True = Inr raw"
    and c: "(if \<not> is_pool_share_transaction tx then connect_tx_utxos X tx h False u else Inr u) = Inr u1"
    and g1: "checked_add g (ucast raw) = Some g1"
    and rest: "fold_r (validate_pools_tx X S bs h) txs (ctx1, u1, g1) = Inr (ctx', v, g')"
    by (auto simp: validate_pools_tx_def [of X S bs h tx] result_simps)
  have "connect_tx_utxos X tx h False u = Inr u1" using c by (auto simp: connect_tx_utxos_def split: if_split_asm)
  from validated_tx_total [OF raw _ this Cons.prems(3)] Cons.prems(2) have "utxo_total u1 + unat raw \<le> utxo_total u" by simp
  moreover have "unat (ucast raw :: u128) = unat raw" by (simp add: unsigned_ucast_eq take_bit_nat_eq_self)
  ultimately show ?case using Cons.IH [OF rest] Cons.prems g1 by (simp add: checked_add_Some)
qed simp

lemma block_tx_melts:
  "fold_r (validate_block_tx X S h) txs (u, f) = Inr r \<Longrightarrow> \<forall>tx \<in> set txs. \<exists>n. qub_jin_melt_burn_atoms_for_fee X S tx h = Inr n"
proof (induction txs arbitrary: u f)
  case (Cons tx txs)
  then obtain m where "validate_block_tx X S h tx (u, f) = Inr m" and r: "fold_r (validate_block_tx X S h) txs m = Inr r"
    by (auto simp: result_simps)
  then show ?case using Cons.IH [of "fst m" "snd m"] by (auto elim!: validate_block_tx_Inr)
qed simp

lemma pool_block_no_melt:
  assumes valid: "validate_block X b u p h bits S = Inr ids" and pools: "validate_pools_block X S b bs u h = Inr ()"
    and marker: "parse_pool_block_marker X b = Some i" and u: "utxo_total u < 2 ^ 64 - 1" and count: "tx_count bs < 2 ^ 128"
  shows "\<forall>tx \<in> set (drop 1 (blk_transactions b)). qub_jin_melt_burn_atoms_for_fee X S tx h = Inr 0"
proof -
  from valid obtain cb txs scratch fees where b: "blk_transactions b = cb # txs" and cb: "is_coinbase cb"
    and no_cb: "\<forall>tx \<in> set txs. \<not> is_coinbase tx" and net: "fold_r (validate_block_tx X S h) txs (u, 0) = Inr (scratch, fees)"
    and stateless: "validate_tx_stateless cb S = Inr ()"
    and claim: "coinbase_claim cb \<le> ucast (block_subsidy (ucast h) S) + fees" by (rule validate_block_Inr)
  let ?subsidy = "block_subsidy (ucast h) S"
  from pools marker b obtain ctx0 ctx v gross where gross: "fold_r (validate_pools_tx X S bs h) txs (ctx0, u, 0) = Inr (ctx, v, gross)"
    and coinbase: "validate_pool_coinbase X S b bs h gross = Inr ()"
    by (auto simp: validate_pools_block_def Let_def result_simps split: if_split_asm)
  with marker b have "expected_pool_coinbase_outputs X S bs i (ucast ?subsidy + gross) = Inr (tx_outputs cb)"
    by (auto simp: validate_pool_coinbase_def Let_def result_simps split: if_split_asm)
  from expected_outputs_exact [OF this count]
  have paid: "outputs_total cb = unat (ucast ?subsidy + gross)" by (simp add: outputs_total_def)
  have total: "unat gross = unat fees + sum_list (map (melted_atoms X S h) txs)"
    using fee_totals_differ [OF net gross no_cb] u by simp
  have sub: "unat (ucast ?subsidy :: u128) = unat ?subsidy" by (simp add: unsigned_ucast_eq take_bit_nat_eq_self)
  have small: "unat fees < 2 ^ 64" using block_txs_fees [OF net no_cb] u by simp
  have gross_le: "unat gross \<le> utxo_total u" using pools_fees_bound [OF gross no_cb] u by simp
  have "unat (ucast ?subsidy + gross) = unat ?subsidy + unat gross" "unat (ucast ?subsidy + fees) = unat ?subsidy + unat fees"
    using sub small gross_le u unat_bound [of ?subsidy] by (simp_all add: unat_word_ariths)
  then have "sum_list (map (melted_atoms X S h) txs) = 0"
    using claim paid coinbase_claim_total(1) [OF stateless cb] total by (simp add: word_le_nat_alt)
  then have "\<forall>tx \<in> set txs. melted_atoms X S h tx = 0" by simp
  with block_tx_melts [OF net] b show ?thesis by (fastforce simp: melted_atoms_def unat_eq_0)
qed

section \<open>The marker of a pool coinbase\<close>

lemma parse_pool_marker_script:
  assumes "extern_ok X" and "length i = 32" and "unat h < 2 ^ 24"
    and "blk_transactions b = pool_coinbase X h e i outs # txs"
  shows "parse_pool_block_marker X b = Some i"
proof -
  have four: "(4 :: nat) = Suc (Suc (Suc (Suc 0)))" and eight: "(8 :: nat) = Suc (Suc (Suc (Suc 4)))" by simp_all
  obtain h0 h1 h2 h3 where h: "u32_le h = [h0, h1, h2, h3]" and top: "h3 = char_of (unat h div 256 div 256 div 256 mod 256)"
    by (simp only: u32_le_def four le_nat.simps simp_thms)
  have "unat h div 256 div 256 div 256 = 0" using assms(3) by (simp add: div_mult2_eq [symmetric])
  with top have h3: "h3 = CHR 0x00" by (simp add: char_of_def)
  obtain e0 e1 e2 e3 e4 e5 e6 e7 where e: "u64_le e = [e0, e1, e2, e3, e4, e5, e6, e7]"
    by (simp only: u64_le_def eight four le_nat.simps simp_thms)
  let ?s = "pool_block_marker_script X h e i"
  have pos: "position_of POOL_BLOCK_PREFIX ?s = Some 29"
    by (simp add: pool_block_marker_script_def h e h3 POOL_BLOCK_PREFIX_def starts_with_def)
  have "drop (29 + length POOL_BLOCK_PREFIX) ?s = hex_encode X i"
    by (simp add: pool_block_marker_script_def h e POOL_BLOCK_PREFIX_def hash_to_string_def)
  moreover have "from_utf8 (hex_encode X i) = Some (hex_encode X i)"
    using hex_encode_chars [OF assms(1)] lower_hex_graphic by (intro from_utf8_graphic) (auto simp: list_all_iff)
  moreover have "takeWhile is_ascii_hexdigit (trim (hex_encode X i)) = hex_encode X i"
    using assms(1) by (simp add: trim_hex takeWhile_eq_all_conv hex_encode_chars lower_hex_hexdigit)
  moreover have "hash_from_hex X (hex_encode X i) = Inr i"
    using assms(1,2) by (simp add: hash_from_hex_def trim_hex hex_roundtrip ok_or_def)
  ultimately show ?thesis
    using assms(4) pos by (simp add: parse_pool_block_marker_def pool_coinbase_def Let_def to_option_def)
qed

section \<open>Pool blocks connect\<close>

lemma expected_outputs_amounts:
  assumes "expected_pool_coinbase_outputs X S bs i reward = Inr outs"
  shows "\<forall>out \<in> set outs. out_value out \<le> MAX_MONEY_ATOMS"
proof -
  have one: "out_value out \<le> MAX_MONEY_ATOMS" if "payout_output X S a n = Inr out" for a n out
    using that by (auto simp: payout_output_def amount_from_atoms_def result_simps split: if_split_asm)
  have push: "\<forall>out \<in> set outs'. out_value out \<le> MAX_MONEY_ATOMS"
    if "fold_r (push_entry X S) es outs = Inr outs'" "\<forall>out \<in> set outs. out_value out \<le> MAX_MONEY_ATOMS" for es outs outs'
    using that
  proof (induction es arbitrary: outs)
    case (Cons e es)
    from Cons.prems(1) obtain mid where m: "push_entry X S e outs = Inr mid" "fold_r (push_entry X S) es mid = Inr outs'"
      by (auto simp: result_simps)
    from m(1) Cons.prems(2) have "\<forall>out \<in> set mid. out_value out \<le> MAX_MONEY_ATOMS"
      by (auto simp: push_entry_def result_simps dest: one split: if_split_asm)
    with Cons.IH [OF m(2)] show ?case .
  qed simp
  from assms show ?thesis
    by (auto simp: expected_pool_coinbase_outputs_def result_simps dest!: one push split: if_split_asm)
qed

lemma pool_coinbase_stateless:
  assumes "\<forall>out \<in> set outs. 0 < out_value out \<and> out_value out \<le> MAX_MONEY_ATOMS" and "outs \<noteq> []"
    and "sum_list (map (\<lambda>out. unat (out_value out)) outs) \<le> unat (cons_max_money_atoms (consensus S))"
  shows "is_coinbase (pool_coinbase X h e i outs)" and "validate_tx_stateless (pool_coinbase X h e i outs) S = Inr ()"
proof -
  have fold: "\<exists>m. fold_r (add_output_value S) outs n = Inr m"
    if "n + sum_list (map (\<lambda>out. unat (out_value out)) outs) \<le> unat (cons_max_money_atoms (consensus S))"
      "\<forall>out \<in> set outs. 0 < out_value out \<and> out_value out \<le> MAX_MONEY_ATOMS" for outs n
    using that
  proof (induction outs arbitrary: n)
    case (Cons out outs)
    then have "\<not> cons_max_money_atoms (consensus S) < out_value out" "\<not> MAX_MONEY_ATOMS < out_value out" "out_value out \<noteq> 0"
      by (auto simp: not_less word_le_nat_alt)
    with Cons.prems(1) have "add_output_value S out n = Inr (n + unat (out_value out))"
      by (simp add: add_output_value_def)
    moreover have "\<exists>m. fold_r (add_output_value S) outs (n + unat (out_value out)) = Inr m"
      using Cons.prems by (intro Cons.IH) simp_all
    ultimately show ?case by simp
  qed simp
  show "is_coinbase (pool_coinbase X h e i outs)" by (simp add: is_coinbase_def pool_coinbase_def TX_VERSION_POOL_SHARE_def)
  with fold [of 0 outs] assms show "validate_tx_stateless (pool_coinbase X h e i outs) S = Inr ()"
    by (auto simp: validate_tx_stateless_def pool_coinbase_def is_pool_share_transaction_def)
qed

lemma pool_reward_matches:
  assumes "checked_add (block_subsidy (ucast (h :: u32)) S) fees = Some reward"
    and "fold_r (validate_block_tx X S h) txs (u, 0) = Inr (scratch, ucast fees)" and "\<forall>tx \<in> set txs. \<not> is_coinbase tx"
    and "utxo_total u < 2 ^ 64" and "pools_pass X S bs u h txs gross" and "\<forall>tx \<in> set txs. qub_jin_infusion_markers_in_tx X tx S = []"
  shows "ucast (block_subsidy (ucast h) S) + gross = ucast reward"
proof -
  from assms(5) obtain ctx0 ctx v where gross: "fold_r (validate_pools_tx X S bs h) txs (ctx0, u, 0) = Inr (ctx, v, gross)"
    by (auto simp: pools_pass_def)
  have "map (melted_atoms X S h) txs = map (\<lambda>_. 0) txs"
    using assms(6) by (simp add: melted_atoms_def qub_jin_melt_burn_atoms_for_fee_def)
  then have none: "sum_list (map (melted_atoms X S h) txs) = 0" by simp
  have "unat gross = unat (ucast fees :: u128)" using fee_totals_differ [OF assms(2) gross assms(3,4)] assms(4) none by simp
  then have "gross = ucast fees" by (simp add: word_unat_eq_iff)
  with assms(1) unat_bound [of reward] show ?thesis
    by (simp add: checked_add_Some word_unat_eq_iff unat_word_ariths unsigned_ucast_eq take_bit_nat_eq_self)
qed

lemma found_pool_connects:
  assumes X: "extern_ok X" and ne: "cs_blocks c \<noteq> []" and ok: "mempool_ok X S c" and len: "length (cs_blocks c) < 2 ^ 24" "tx_count (cs_blocks c) < 2 ^ 128"
    and found: "found_block X (build_candidate_pool_block X S c i) b" and i: "length i = 32"
    and fresh: "fresh_ids X c (txid X (hd (blk_transactions b)))" and u: "utxo_total (cs_utxos c) < 2 ^ 64 - 1"
    and room: "0 < unat (cons_max_block_transactions (consensus S))"
    and range: "outputs_total (hd (blk_transactions b)) \<le> unat (cons_max_money_atoms (consensus S))"
    and outs: "length (tx_outputs (hd (blk_transactions b))) \<le> 2 ^ 32"
    and no_jin: "\<forall>tx \<in> set (tl (blk_transactions b)). \<not> is_jin_protocol_transaction X tx S"
    and gov: "\<forall>tx \<in> set (tl (blk_transactions b)). verified_governance_markers_in_tx X tx S = []"
    and checkpoint: "validate_consensus_checkpoint X S (of_nat (length (cs_blocks c))) (block_hash X b) = Inr ()"
  shows "\<exists>d. connect_block X S b c = Inr (block_hash X b, d)"
proof -
  let ?bs = "cs_blocks c" and ?u = "cs_utxos c" and ?h = "of_nat (length (cs_blocks c)) :: u32"
  from len have len32: "length ?bs < 2 ^ 32" by simp
  from found obtain e t n where t: "build_candidate_pool_block X S c i e = Inr t" and b: "b = with_nonce n t"
    and pow: "verify_header_pow X (blk_header (with_nonce n t)) = Inr True" by (auto simp: found_block_def)
  from t obtain parts os where active: "pools_active S ?h" and parts: "build_candidate_block_parts X S c None = Inr parts"
    and expected: "expected_pool_coinbase_outputs X S ?bs i (ucast (cp_reward_atoms parts)) = Inr os"
    and t: "t = block_from_candidate_parts X parts (pool_coinbase X (cp_height parts) e i os)"
    by (auto simp: build_candidate_pool_block_def Let_def result_simps chain_height_next [OF ne] split: if_split_asm)
  let ?cb = "pool_coinbase X (cp_height parts) e i os" and ?txs = "cp_non_coinbase_transactions parts"
  note blk = block_from_parts_Inr [OF parts t len32 ne]
  have txs: "blk_transactions b = ?cb # ?txs" using blk(2) b by simp
  then have drop: "drop 1 (blk_transactions b) = ?txs" by simp
  from blk(1,8) obtain fees where cand: "candidate_mempool_transactions X S c ?h None = Inr (?txs, fees)"
    and reward: "checked_add (block_subsidy (ucast ?h) S) fees = Some (cp_reward_atoms parts)" by auto
  have fresh': "fresh_ids X c (txid X ?cb)" and gov': "\<forall>tx \<in> set ?txs. verified_governance_markers_in_tx X tx S = []"
    and no_jin': "\<forall>tx \<in> set ?txs. \<not> is_jin_protocol_transaction X tx S"
    and outs': "outputs_total ?cb \<le> unat (cons_max_money_atoms (consensus S))" "length (tx_outputs ?cb) \<le> 2 ^ 32"
    using fresh gov no_jin range outs txs by simp_all
  note exact = expected_outputs_exact [OF expected len(2)]
  have cb: "is_coinbase ?cb" "validate_tx_stateless ?cb S = Inr ()"
    using pool_coinbase_stateless [of os S X] exact expected_outputs_amounts [OF expected] outs'(1)
    by (simp_all add: outputs_total_def pool_coinbase_def)
  have claim: "coinbase_claim ?cb \<le> ucast (cp_reward_atoms parts)"
    using coinbase_claim_total(1) [OF cb(2,1)] exact by (simp add: word_le_nat_alt outputs_total_def pool_coinbase_def)
  obtain ids where valid: "validate_block X b ?u (tip_hash X c) ?h (hdr_bits (blk_header t)) S = Inr ids"
    using template_valid [OF parts t len32 ne pow ok fresh' u room gov' cb claim] b by auto
  note checked = candidate_checked [OF cand ok fresh' u gov' drop]
  have "unat ?h < 2 ^ 24" using len(1) unat_of_nat_less [where 'w = 32, of "length ?bs"] by simp
  with blk(1) txs have marker: "parse_pool_block_marker X b = Some i"
    by (intro parse_pool_marker_script [OF X i]) simp_all
  from checked(8) obtain gross where pass: "pools_pass X S ?bs ?u ?h ?txs gross" by blast
  from checked(1) obtain scratch where net: "fold_r (validate_block_tx X S ?h) ?txs (?u, 0) = Inr (scratch, ucast fees)" by blast
  have "ucast (block_subsidy (ucast ?h) S) + gross = ucast (cp_reward_atoms parts)"
    using pool_reward_matches [OF reward net checked(2) _ pass] u no_jin'
    by (simp add: is_jin_protocol_transaction_def is_qub_jin_infusion_transaction_def)
  then have "validate_pool_coinbase X S b ?bs ?h gross = Inr ()"
    using expected txs by (simp add: validate_pool_coinbase_def marker pool_coinbase_def Let_def)
  then have pools: "validate_pools_block X S b ?bs ?u ?h = Inr ()"
    using pools_pass_block [of X S ?bs ?u ?h b gross] pass active drop by simp
  have jin: "validate_jin_block X S b ?bs ?u ?h = Inr ()"
    using no_jin' txs by (simp add: validate_jin_block_def list_all_iff)
  from coinbase_beside [OF cb(1), of ?u X ?h] fresh' outs'(2) obtain d v where
    v: "connect_tx_utxos X ?cb ?h True ?u = Inr v" and beside: "beside (txid X ?cb) d ?u v" by (auto simp: fresh_ids_def)
  from checked(9) [OF beside] obtain w where "fold_r (\<lambda>tx. connect_tx_utxos X tx ?h False) ?txs v = Inr w" by blast
  with v txs have coins: "connect_block_utxos X b ?h ?u = Inr w" by (simp add: connect_block_utxos_def connect_rest)
  have "check_and_apply_block X S ?bs ?u (tip_hash X c) ?h b = Inr (ids, w)"
    using blk(1,3,4) valid checked(3-6) pools jin checkpoint coins b by (simp add: check_and_apply_block_def)
  then show ?thesis by (simp add: connect_block_def chain_height_next [OF ne] Let_def)
qed

section \<open>Properties\<close>

text \<open>
  C15: What a pool finds is a block the node accepts. A block the pool miner returns over a chain with a
  sound mempool connects to that chain, provided that no JIN transaction and no governance action was
  taken into it, the coinbase's id is new, the coinbase pays at most the money limit, and the next
  checkpoint (if there is one) is met: the coinbase pays the members exactly the reward that the pool
  check computes from the fees of the block, and everything else is checked as for a solo block.
\<close>

theorem pool_mined_block_connects:
  assumes "extern_ok X" and "cs_blocks c \<noteq> []" and "mempool_ok X S c" and "length (cs_blocks c) < 2 ^ 24" and "tx_count (cs_blocks c) < 2 ^ 128"
    and "mine_next_pool_block X S c i options = Some (Inr b)" and "length i = 32"
    and "fresh_ids X c (txid X (hd (blk_transactions b)))" and "utxo_total (cs_utxos c) < 2 ^ 64 - 1"
    and "0 < unat (cons_max_block_transactions (consensus S))"
    and "outputs_total (hd (blk_transactions b)) \<le> unat (cons_max_money_atoms (consensus S))"
    and "length (tx_outputs (hd (blk_transactions b))) \<le> 2 ^ 32"
    and "\<forall>tx \<in> set (tl (blk_transactions b)). \<not> is_jin_protocol_transaction X tx S"
    and "\<forall>tx \<in> set (tl (blk_transactions b)). verified_governance_markers_in_tx X tx S = []"
    and "validate_consensus_checkpoint X S (of_nat (length (cs_blocks c))) (block_hash X b) = Inr ()"
  shows "\<exists>d. connect_block X S b c = Inr (block_hash X b, d)"
  using assms(6) found_pool_connects [OF assms(1-5) _ assms(7-15)]
  by (auto simp: mine_next_pool_block_def dest: mine_templates_found)

text \<open>
  C21: A pool block never contains a melt. The block check allows the coinbase the fees without the
  atoms a QUB melt burns, the pool check demands that the coinbase pays out the fees with them; so a
  block with a pool marker that passes both has no transaction that burns anything, although melts
  are accepted into the mempool and taken into pool templates.
\<close>

theorem pool_block_never_melts:
  assumes "validate_block X b u p h bits S = Inr ids" and "validate_pools_block X S b bs u h = Inr ()"
    and "parse_pool_block_marker X b = Some i" and "utxo_total u < 2 ^ 64 - 1" and "tx_count bs < 2 ^ 128"
    and "tx \<in> set (tl (blk_transactions b))"
  shows "qub_jin_melt_burn_atoms_for_fee X S tx h = Inr 0"
  using pool_block_no_melt [OF assms(1-5)] assms(6) by (simp add: drop_Suc)

end
