(* ===== verification/PoolExample.thy ===== *)
theory PoolExample
  imports PoolChain
begin

text \<open>
  A small chain with a pool: block 1 creates it, block 2 carries a share of one miner. The chain
  passes the checks of \<open>src/pools.rs\<close>, and the properties of pools are applied to it.
\<close>

section \<open>The blocks\<close>

definition ex_create_outs :: "tx_out list" where
  "ex_create_outs = [\<lparr>out_value = 1, script_pubkey = pipes [''POOLCREATE1'',
     hex_encode ref_extern ''pool'', address_to_string ref_extern ex_owner, show_word (500 :: u16), show_word (8 :: u32)]\<rparr>,
     \<lparr>out_value = 1250000000, script_pubkey = address_script_pubkey (ex_addr (CHR ''p''))\<rparr>]"

definition ex_create :: pool_create where
  "ex_create = \<lparr>pcr_name = ''pool'', pcr_manager_address = address_to_string ref_extern ex_owner,
     pcr_commission_bps = 500, pcr_capacity_slots = 8\<rparr>"

definition ex_create_id :: hash256 where
  "ex_create_id = txid ref_extern (ex_pay ex_create_outs)"

definition ex_miner :: address where
  "ex_miner = address_new ''qub'' (public_key_hash ref_extern (replicate 32 (CHR ''s'')))"

definition ex_miner_key :: wallet_key where
  "ex_miner_key = \<lparr>wk_address = address_to_string ref_extern ex_miner,
     wk_public_key_hex = hex_encode ref_extern (replicate 32 (CHR ''s'')),
     wk_secret_key_hex = hex_encode ref_extern (replicate 32 (CHR ''s'')), wk_label = ''miner'', wk_created_height = 0\<rparr>"

definition ex_create_block :: block where
  "ex_create_block = example_block [example_tx, ex_pay ex_create_outs]"

definition ex_share_tx :: transaction where
  "ex_share_tx = projr (create_pool_share_transaction ref_extern ex_pool_settings ex_create_id ex_miner_key 1
     (block_hash ref_extern ex_create_block) 8)"

definition ex_share_block :: block where
  "ex_share_block = example_block [example_tx, ex_share_tx]"

definition ex_pool_chain :: "block list" where
  "ex_pool_chain = [example_block [], ex_create_block, ex_share_block]"

section \<open>The pool\<close>

lemma ex_create_markers:
  "pool_creates_in_tx ref_extern (ex_pay ex_create_outs) ex_pool_settings = [(0, ex_create, 1)]"
  "pool_commissions_in_tx ref_extern (ex_pay ex_create_outs) ex_pool_settings = []"
  "pool_topups_in_tx ref_extern (ex_pay ex_create_outs) ex_pool_settings = []"
  "pool_renames_in_tx ref_extern (ex_pay ex_create_outs) ex_pool_settings = []"
proof -
  let ?fs = "[hex_encode ref_extern ''pool'', address_to_string ref_extern ex_owner, show_word (500 :: u16), show_word (8 :: u32)]"
  let ?b = "pipes (''POOLCREATE1'' # ?fs)" and ?a = "address_script_pubkey (ex_addr (CHR ''p''))"
  have "list_all plain_field (''POOLCREATE1'' # ?fs)"
    using plain_pool_words(1) plain_hex [OF ref_extern_ok] plain_address [OF ref_extern_ok ex_owner(1)]
    by (simp add: plain_show_word)
  then have "pool_fields POOL_CREATE_PREFIX ''POOLCREATE1'' ?b = Some ?fs"
    by (rule pool_fields_pipes) (simp_all add: POOL_CREATE_PREFIX_def)
  moreover have "starts_with ?b POOL_CREATE_PREFIX"
    by (simp add: starts_with_def POOL_CREATE_PREFIX_def pipes_def)
  then have "pool_fields POOL_COMMISSION_PREFIX t ?b = None" "pool_fields POOL_TOPUP_PREFIX t ?b = None"
    "pool_fields POOL_RENAME_PREFIX t ?b = None" for t
    by (auto simp: pool_fields_def starts_with_def POOL_CREATE_PREFIX_def POOL_TOPUP_PREFIX_def POOL_RENAME_PREFIX_def
        POOL_COMMISSION_PREFIX_def pipes_def)
  moreover have "pool_fields p t ?a = None" if "hd p = CHR ''P''" "p \<noteq> []" for p t
    using that by (cases p) (auto simp: pool_fields_def address_script_pubkey_def dest!: starts_with_first)
  moreover have "addr_prefix ex_owner = net_address_prefix (network ex_pool_settings)"
    by (simp add: ex_owner ex_pool_simps(1,2))
  moreover have "pool_name_field ref_extern ex_pool_settings (hex_encode ref_extern ''pool'') = Some ''pool''"
  proof -
    have "from_utf8 ''pool'' = Some ''pool''" by (rule from_utf8_graphic) (simp add: is_ascii_graphic_def)
    moreover have "trim ''pool'' = ''pool''" by (rule trim_all_graphic) (auto simp: is_ascii_graphic_def)
    ultimately show ?thesis
      using hex_roundtrip [OF ref_extern_ok, of "''pool''"]
      by (simp add: pool_name_field_def pool_name_def normalize_pool_name_def utf8_chars_def pool_name_char_def
          ex_pool_settings_def ex_pools_def)
  qed
  ultimately show "pool_creates_in_tx ref_extern (ex_pay ex_create_outs) ex_pool_settings = [(0, ex_create, 1)]"
    "pool_commissions_in_tx ref_extern (ex_pay ex_create_outs) ex_pool_settings = []"
    "pool_topups_in_tx ref_extern (ex_pay ex_create_outs) ex_pool_settings = []"
    "pool_renames_in_tx ref_extern (ex_pay ex_create_outs) ex_pool_settings = []"
    using pool_manager_text [OF ref_extern_ok ex_owner(1)]
    by (simp_all add: pool_commissions_in_tx_def pool_creates_in_tx_def pool_topups_in_tx_def pool_renames_in_tx_def
        markers_in_def ex_pay_simps ex_create_outs_def List.map_filter_def parse_pool_commission_marker_script_def
        parse_pool_create_marker_script_def parse_pool_topup_marker_script_def parse_pool_rename_marker_script_def
        ex_create_def POOL_CREATE_PREFIX_def POOL_TOPUP_PREFIX_def POOL_RENAME_PREFIX_def POOL_COMMISSION_PREFIX_def)
qed

lemma ex_pool_more:
  "ps_base_create_atoms (pools ex_pool_settings) = 2500000000" "ps_base_capacity_slots (pools ex_pool_settings) = 8"
  "ps_max_capacity_slots (pools ex_pool_settings) = 128" "ps_capacity_step_slots (pools ex_pool_settings) = 8"
  "ps_max_active_pools (pools ex_pool_settings) = 1024" "ps_capacity_step_atoms (pools ex_pool_settings) = 1000000000"
  "ps_share_window_blocks (pools ex_pool_settings) = 360" "ps_share_stale_blocks (pools ex_pool_settings) = 6"
  "ps_protocol_address (pools ex_pool_settings) = address_to_string ref_extern (ex_addr (CHR ''p''))"
  "ps_max_share_txs_per_block (pools ex_pool_settings) = 128"
  by (simp_all add: ex_pool_settings_def ex_pools_def ATOMS_PER_QUB_def)

lemma ex_create_price: "pool_create_price_atoms ex_pool_settings 8 = Inr 2500000000"
  by (simp add: pool_create_price_atoms_def capacity_slots_valid_def ex_pool_more checked_mul_def checked_add_def)

definition ex_pool_record :: pool_record where
  "ex_pool_record = new_pool ex_create_id ex_create 1 2500000000"

lemma ex_no_coinbase_data:
  "pool_action_count X example_tx S = 0" "parse_pool_block_marker X (example_block (example_tx # txs)) = None"
  by (simp_all add: pool_action_count_def pool_creates_in_tx_def pool_topups_in_tx_def pool_commissions_in_tx_def
      pool_renames_in_tx_def markers_in_def example_tx_def example_block_def List.map_filter_def
      parse_pool_commission_marker_script_def parse_pool_create_marker_script_def parse_pool_topup_marker_script_def
      parse_pool_rename_marker_script_def pool_fields_def starts_with_def POOL_CREATE_PREFIX_def POOL_TOPUP_PREFIX_def
      POOL_RENAME_PREFIX_def POOL_COMMISSION_PREFIX_def POOL_BLOCK_PREFIX_def parse_pool_block_marker_def)

lemma ex_create_protocol_markers:
  "qns_registrations_in_tx X (ex_pay ex_create_outs) S = []"
  "jin_transfers_in_tx X (ex_pay ex_create_outs) S = []"
  "jin_conversions_in_tx X (ex_pay ex_create_outs) S = []"
  by (auto simp: qns_registrations_in_tx_def jin_transfers_in_tx_def jin_conversions_in_tx_def markers_in_def
      ex_pay_simps ex_create_outs_def List.map_filter_def parse_qns_marker_script_def QNS_SCRIPT_PREFIX_def
      parse_jin_marker_script_def parse_jin_conversion_script_def JIN_SCRIPT_PREFIX_def pipes_def
      address_script_pubkey_def dest!: starts_with_first)

lemma ex_create_action:
  "validate_pool_action_tx ref_extern ex_pool_settings (ex_pay ex_create_outs) 1250000000 1 u fmempty =
    (Inr (), fmupd ex_create_id ex_pool_record fmempty)"
proof -
  have "protocol_paid_atoms ref_extern ex_pool_settings (ex_pay ex_create_outs) = Inr 1250000000"
  proof -
    have "pipes xs \<noteq> address_script_pubkey a" if "hd xs = ''POOLCREATE1''" "xs \<noteq> []" for xs a
      using that by (cases xs rule: join_with.cases [of "(CHR ''|'', xs)" for xs, simplified])
        (auto simp: pipes_def address_script_pubkey_def)
    then show ?thesis
      using parse_ex_address [OF ex_addr_wf]
      by (simp add: protocol_paid_atoms_def ex_pool_more ex_pool_simps ex_pay_simps ex_create_outs_def)
  qed
  then have "check_create ref_extern ex_pool_settings (ex_pay ex_create_outs) 1250000000 ex_create 1 fmempty = Inr 2500000000"
    using ex_create_price
    by (simp add: check_create_def ex_pool_simps ex_pool_more ex_create_def capacity_slots_valid_def
        check_pool_payment_def pool_protocol_share_atoms_def pool_miner_share_atoms_def fcard_fempty)
  then show ?thesis
    using ex_kind by (simp add: validate_pool_action_tx_def ex_create_markers ex_create_protocol_markers ex_pool_simps
        se_bind_def se_need_def se_modify_def ex_pool_record_def ex_create_id_def)
qed

lemma ex_create_validates:
  "validate_tx_contextual ref_extern (ex_pay ex_create_outs) (ex_coin 2500000001) h ex_pool_settings True = Inr 1250000000"
proof -
  have "list_all (\<lambda>out. \<not> starts_with (script_pubkey out) BLAST_SCRIPT_PREFIX) ex_create_outs"
    by (auto simp: ex_create_outs_def BLAST_SCRIPT_PREFIX_def pipes_def address_script_pubkey_def dest!: starts_with_first)
  moreover have "fold_r (add_output_value ex_pool_settings) ex_create_outs 0 = Inr 1250000001"
    by (simp add: ex_create_outs_def add_output_value_def ex_pool_simps ex_consensus_def MAX_MONEY_ATOMS_val)
  ultimately show ?thesis
    using ex_pay_validate [of ex_pool_settings ex_create_outs 1250000001 2500000001 h]
    by (simp add: ex_create_outs_def MAX_SEND_ENTRIES_PER_TX_def)
qed

lemma ex_no_registry: "pools_registry_from_blocks X S [b] = Inr fmempty"
  by (simp add: pools_registry_from_blocks_def)

lemma ex_create_count: "pool_action_count ref_extern (ex_pay ex_create_outs) ex_pool_settings = 1"
  by (simp add: pool_action_count_def ex_create_markers)

lemma ex_create_valid: "validate_pools_block ref_extern ex_pool_settings ex_create_block [b] (ex_coin 2500000001) 1 = Inr ()"
proof -
  let ?ctx = "\<lparr>pcx_registry = fmempty, pcx_window = confirmed_pool_window ref_extern ex_pool_settings [b] 1\<rparr>"
  obtain u where "connect_tx_utxos ref_extern (ex_pay ex_create_outs) 1 False (ex_coin 2500000001) = Inr u"
    using ex_pay_connect [of ex_create_outs 1 2500000001] by (auto simp: ex_create_outs_def)
  then have "validate_pools_tx ref_extern ex_pool_settings [b] 1 (ex_pay ex_create_outs) (?ctx, ex_coin 2500000001, 0) =
      Inr (?ctx\<lparr>pcx_registry := fmupd ex_create_id ex_pool_record fmempty\<rparr>, u, 1250000000)"
    using ex_kind ex_create_action
    by (simp add: validate_pools_tx_def ex_create_validates pool_validate_and_apply_def ex_create_count ex_pool_simps
        pool_context_action_def se_run_def checked_add_def)
  moreover have "validate_pool_coinbase ref_extern ex_pool_settings ex_create_block [b] 1 f = Inr ()" for f
    by (simp add: validate_pool_coinbase_def ex_create_block_def ex_no_coinbase_data(2))
  moreover have "drop 1 (blk_transactions ex_create_block) = [ex_pay ex_create_outs]"
    by (simp add: ex_create_block_def example_block_def)
  ultimately show ?thesis
    using ex_kind by (simp add: validate_pools_block_def ex_create_count ex_pool_simps Let_def
        pool_context_from_confirmed_def ex_no_registry)
qed

lemma ex_registry:
  "pools_registry_from_blocks ref_extern ex_pool_settings [b, ex_create_block] = Inr (fmupd ex_create_id ex_pool_record fmempty)"
proof -
  have "replay_pool_tx ref_extern ex_pool_settings 1 (ex_pay ex_create_outs) fmempty = Inr (fmupd ex_create_id ex_pool_record fmempty)"
    by (rule pool_action_recorded [OF ex_create_action])
  then show ?thesis
    using pools_registry_snoc [of "[b]" ref_extern ex_pool_settings fmempty ex_create_block]
    by (simp add: ex_no_registry ex_pool_simps apply_pool_registry_block_def ex_create_block_def example_block_def)
qed

section \<open>The share\<close>

lemma ex_miner: "wf_address ex_miner" "addr_prefix ex_miner = ''qub''"
  by (simp_all add: ex_miner_def wf_address_def address_new_def public_key_hash_def ripemd160_length [OF ref_extern_ok]
      is_ascii_lowercase_def less_eq_char_def)

lemma ex_create_id_length: "length ex_create_id = 32"
  by (simp add: ex_create_id_def length_txid [OF ref_extern_ok])

definition ex_share :: pool_share where
  "ex_share = \<lparr>psh_pool_id = ex_create_id, psh_miner_address = address_to_string ref_extern ex_miner,
     psh_parent_height = 1, psh_parent_hash = block_hash ref_extern ex_create_block, psh_nonce = 8,
     psh_public_key_hex = hex_encode ref_extern (replicate 32 (CHR ''s'')),
     psh_signature_hex = hex_encode ref_extern (pool_share_signing_hash ref_extern ex_create_id
       (address_to_string ref_extern ex_miner) 1 (block_hash ref_extern ex_create_block) 8 @ replicate 32 (CHR ''s''))\<rparr>"

lemma ex_share_parsed: "parse_pool_share_tx ref_extern ex_share_tx = Some ex_share"
proof -
  let ?s = "replicate 32 (CHR ''s'')" and ?h = "block_hash ref_extern ex_create_block"
  have sk: "secret_key_from_hex ref_extern (hex_encode ref_extern ?s) = Inr ?s"
    using hex_roundtrip [OF ref_extern_ok] trim_hex [OF ref_extern_ok]
    by (simp add: secret_key_from_hex_def) (simp add: ref_extern_def)
  have "pk_from_slice ref_extern b = Some b" for b by (simp add: ref_extern_def)
  note ref = this hex_roundtrip [OF ref_extern_ok]
  have sign: "sign_hash ref_extern k m = Inr (m @ k)" for k m
    by (simp add: ref_extern_def sign_hash_def)
  have parse: "parse_with_prefix ref_extern (wk_address ex_miner_key) (net_address_prefix (network ex_pool_settings)) = Inr ex_miner"
    using parse_ex_address [OF ex_miner] by (simp add: ex_miner_key_def ex_pool_simps)
  have "\<exists>tx. create_pool_share_transaction ref_extern ex_pool_settings ex_create_id ex_miner_key 1 ?h 8 = Inr tx"
    using parse sk sign ref
    by (simp add: create_pool_share_transaction_def ex_miner_key_def) (simp add: ex_miner_def address_new_def)
  then have created: "create_pool_share_transaction ref_extern ex_pool_settings ex_create_id ex_miner_key 1 ?h 8 = Inr ex_share_tx"
    by (auto simp: ex_share_tx_def)
  show ?thesis
    by (rule pool_share_created [OF ref_extern_ok ex_create_id_length length_block_hash [OF ref_extern_ok] created ex_miner(1) parse])
      (use sk sign ref in \<open>simp add: ex_share_def ex_miner_key_def\<close>)
qed

lemma ex_share_kind: "is_pool_share_transaction ex_share_tx"
  by (rule parse_share_kind [OF ex_share_parsed])

lemma ex_share_bits: "parse_share_bits ex_pool_settings = Inr 0x207fffff"
proof -
  have "trim ''0x207fffff'' = ''0x207fffff''" by (rule trim_all_graphic) (auto simp: is_ascii_graphic_def)
  then show ?thesis
    by (simp add: parse_share_bits_def ex_pool_settings_def ex_pools_def strip_prefix_def starts_with_def)
      (simp add: from_str_radix_def digit_val_def char_class_defs less_eq_char_def)
qed

lemma ex_share_target: "target_from_compact 0x207fffff = Inr (CHR 0x7F # CHR 0xFF # CHR 0xFF # replicate 29 (CHR 0x00))"
  by code_simp

lemma ex_share_work:
  assumes "length i = 32"
  shows "pool_share_meets_target ref_extern ex_pool_settings i a h p 8 = Inr True"
proof -
  let ?t = "pipes (''POOLSHARE-WORK-v1'' # share_fields ref_extern i a h p 8)"
  have "show_word (8 :: u64) = ''8''" by (simp add: show_word_def show_nat.simps digit_char_def char_of_def bit_iff_odd)
  then obtain t where t: "?t = t @ ''8''" by (simp add: pipes_def share_fields_def)
  have long: "32 \<le> length ?t"
    by (simp add: pipes_def share_fields_def hash_to_string_def hex_encode_length [OF ref_extern_ok] assms)
  have "rev (pool_share_work_hash ref_extern i a h p 8) = take 32 (rev ?t)"
    unfolding pool_share_work_hash_def ref_double_sha256 [OF long] using long by (simp add: take_rev)
  also have "\<dots> = CHR ''8'' # take 31 (rev t)" by (simp add: t)
  finally have "rev (pool_share_work_hash ref_extern i a h p 8) \<le> CHR 0x7F # CHR 0xFF # CHR 0xFF # replicate 29 (CHR 0x00)"
    by (simp add: less_char_def)
  then show ?thesis
    by (simp add: pool_share_meets_target_def ex_share_bits hash_meets_compact_target_def ex_share_target)
qed

lemma ex_share_accepted:
  "\<exists>w. validate_share_tx_against_context ref_extern ex_pool_settings ex_share_tx [b, ex_create_block] 2
      (fmupd ex_create_id ex_pool_record fmempty) pool_window_empty = Inr w"
proof -
  let ?s = "replicate 32 (CHR ''s'')"
  have "public_key_hash ref_extern ?s = addr_payload ex_miner" by (simp add: ex_miner_def address_new_def)
  moreover have "pk_from_slice ref_extern k = Some k" "verify_hash ref_extern k (m @ k) m" for k m
    by (simp_all add: ref_extern_def verify_hash_def)
  moreover have "\<exists>w. validate_and_add_share ref_extern ex_share ex_pool_record pool_window_empty = Inr w"
    by (simp add: validate_and_add_share_def Let_def pool_window_empty_def pw_miners_def ex_pool_record_def new_pool_def
        ex_create_def fcard_fempty)
  ultimately show ?thesis
    using parse_ex_address [OF ex_miner] ex_share_work [OF ex_create_id_length] hex_roundtrip [OF ref_extern_ok]
    by (simp add: validate_share_tx_against_context_def ex_share_parsed ex_pool_simps Let_def)
      (simp add: ex_share_def ex_pool_record_def new_pool_def sat_sub_def ex_pool_more word_le_nat_alt)
qed

lemma ex_window: "pool_window_from_blocks ref_extern S [b, ex_create_block] 2 = pool_window_empty"
proof -
  have "parse_pool_share_tx ref_extern (ex_pay ex_create_outs) = None"
    using ex_kind by (simp add: parse_pool_share_tx_def)
  then have none: "shares_at ref_extern (n, ex_create_block) = []" for n
    by (simp add: shares_at_def block_shares_def ex_create_block_def example_block_def)
  have "concat (map (shares_at ref_extern) (drop (unat (max m 1)) (enumerate 0 [b, ex_create_block]))) = []" for m :: u32
  proof -
    obtain k where "unat (max m 1) = Suc k" by (metis max.cobounded2 not0_implies_Suc unat_0 unat_eq_zero word_le_0_iff zero_neq_one)
    then show ?thesis using none by (cases k) simp_all
  qed
  moreover have "take (min (unat (2 :: u32)) (length [b, ex_create_block])) (enumerate 0 [b, ex_create_block]) =
      enumerate 0 [b, ex_create_block]" by simp
  ultimately show ?thesis unfolding pool_window_from_blocks_def Let_def record_blocks
    by (simp only: fold_simps id_apply)
qed

lemma ex_share_valid:
  "validate_pools_block ref_extern ex_pool_settings ex_share_block [b, ex_create_block] u 2 = Inr ()"
proof -
  let ?reg = "fmupd ex_create_id ex_pool_record fmempty"
  let ?ctx = "\<lparr>pcx_registry = ?reg, pcx_window = pool_window_empty\<rparr>"
  obtain w where w: "validate_share_tx_against_context ref_extern ex_pool_settings ex_share_tx [b, ex_create_block] 2
      ?reg pool_window_empty = Inr w" using ex_share_accepted by blast
  have "validate_tx_contextual ref_extern ex_share_tx u 2 ex_pool_settings True = Inr 0"
    by (simp add: validate_tx_contextual_def validate_tx_stateless_def ex_share_kind)
  then have "validate_pools_tx ref_extern ex_pool_settings [b, ex_create_block] 2 ex_share_tx (?ctx, u, 0) =
      Inr (?ctx\<lparr>pcx_window := w\<rparr>, u, 0)"
    using ex_share_kind w
    by (simp add: validate_pools_tx_def pool_validate_and_apply_def ex_pool_simps pool_context_share_def se_run_def
        se_bind_def se_need_def se_modify_def checked_add_def)
  moreover have "validate_pool_coinbase ref_extern ex_pool_settings ex_share_block [b, ex_create_block] 2 f = Inr ()" for f
    by (simp add: validate_pool_coinbase_def ex_share_block_def ex_no_coinbase_data(2))
  moreover have "drop 1 (blk_transactions ex_share_block) = [ex_share_tx]"
    by (simp add: ex_share_block_def example_block_def)
  moreover have "pool_context_from_confirmed ref_extern ex_pool_settings [b, ex_create_block] 2 = Inr ?ctx"
    by (simp add: pool_context_from_confirmed_def ex_registry confirmed_pool_window_def ex_pool_simps ex_window)
  ultimately show ?thesis
    using ex_share_kind by (simp add: validate_pools_block_def ex_pool_simps ex_pool_more Let_def)
qed

lemma ex_pools_checked: "pools_checked ref_extern ex_pool_settings ex_pool_chain"
  unfolding pools_checked_def
proof (intro allI impI)
  fix n assume "1 \<le> n \<and> n < length ex_pool_chain"
  then consider "n = 1" | "n = 2" by (auto simp: ex_pool_chain_def less_Suc_eq numeral_2_eq_2)
  then show "\<exists>u. validate_pools_block ref_extern ex_pool_settings (ex_pool_chain ! n) (take n ex_pool_chain) u (of_nat n) = Inr ()"
  proof cases
    case 1
    then show ?thesis using ex_create_valid by (auto simp: ex_pool_chain_def)
  next
    case 2
    then show ?thesis using ex_share_valid by (auto simp: ex_pool_chain_def)
  qed
qed

lemma ex_block_shares: "block_shares ref_extern ex_share_block = [ex_share]"
  by (simp add: block_shares_def ex_share_block_def example_block_def ex_share_parsed)

section \<open>The properties on the chain\<close>

lemma ex_create_shares: "block_shares ref_extern ex_create_block = []"
  using ex_kind by (simp add: block_shares_def ex_create_block_def example_block_def parse_pool_share_tx_def)

lemma pool_shares_counted_once_witness:
  "chain_shares ref_extern ex_pool_chain = [ex_share] \<and>
    distinct (map (pool_share_key ref_extern) (chain_shares ref_extern ex_pool_chain))"
  using pool_shares_counted_once [OF ref_extern_ok ex_pools_checked] ex_create_shares ex_block_shares
  by (simp add: chain_shares_def ex_pool_chain_def)

lemma pool_miner_exclusive_witness: "\<exists>sh \<in> set (block_shares ref_extern (ex_pool_chain ! 2)). psh_pool_id sh = psh_pool_id ex_share"
proof -
  have "ex_pool_chain ! 2 = ex_share_block" "length ex_pool_chain = 3" by (simp_all add: ex_pool_chain_def)
  then show ?thesis
    using pool_miner_exclusive [OF ex_pools_checked, of 2 2 ex_share ex_share] ex_block_shares by simp
qed

lemma pool_block_recorded_witness:
  "\<exists>ctx ctx' u f. fold_r (validate_pools_tx ref_extern ex_pool_settings [example_block []] 1)
      (drop 1 (blk_transactions ex_create_block)) (ctx, ex_coin 2500000001, 0) = Inr (ctx', u, f) \<and>
    pools_registry_from_blocks ref_extern ex_pool_settings [example_block [], ex_create_block] = Inr (pcx_registry ctx') \<and>
    fmlookup (pcx_registry ctx') ex_create_id = Some ex_pool_record"
proof -
  have data: "has_pool_data ref_extern ex_pool_settings ex_create_block"
    by (simp add: has_pool_data_def ex_create_block_def example_block_def ex_create_count)
  have "validate_pools_block ref_extern ex_pool_settings ex_create_block [example_block []] (ex_coin 2500000001)
      (of_nat (length [example_block []])) = Inr ()" using ex_create_valid by simp
  from pool_block_recorded [OF this ex_no_registry] data
  obtain ctx ctx' u f where f: "fold_r (validate_pools_tx ref_extern ex_pool_settings [example_block []] 1)
      (drop 1 (blk_transactions ex_create_block)) (ctx, ex_coin 2500000001, 0) = Inr (ctx', u, f)"
    and r: "pools_registry_from_blocks ref_extern ex_pool_settings [example_block [], ex_create_block] = Inr (pcx_registry ctx')"
    by auto
  from r have "fmlookup (pcx_registry ctx') ex_create_id = Some ex_pool_record"
    unfolding ex_registry by (metis fmupd_lookup sum.inject(2))
  with f r show ?thesis by blast
qed

lemma ex_chain_registry:
  "pools_registry_from_blocks ref_extern ex_pool_settings ex_pool_chain = Inr (fmupd ex_create_id ex_pool_record fmempty)"
proof -
  have "tx_outputs ex_share_tx = []" using ex_share_kind by (simp add: is_pool_share_transaction_def)
  then have "replay_pool_tx ref_extern ex_pool_settings 2 ex_share_tx r = Inr r" for r
    by (rule no_outputs_no_markers)
  then show ?thesis
    using pools_registry_snoc [OF _ ex_registry, of "example_block []" ex_share_block]
    by (simp add: ex_pool_chain_def ex_pool_simps apply_pool_registry_block_def ex_share_block_def example_block_def)
qed

lemma ex_scores:
  "pool_share_scores_from_blocks ref_extern ex_pool_settings ex_pool_chain 3 ex_create_id =
    fmupd (address_to_string ref_extern ex_miner) 1 fmempty"
proof -
  have "score_tx ref_extern ex_create_id (ex_pay ex_create_outs) m = m" for m
    using ex_kind by (simp add: score_tx_def parse_pool_share_tx_def)
  then have "score_block ref_extern ex_create_id 3 (1, ex_create_block) m = m" for m
    by (simp add: score_block_def ex_create_block_def example_block_def)
  moreover have "score_block ref_extern ex_create_id 3 (2, ex_share_block) fmempty = fmupd (address_to_string ref_extern ex_miner) 1 fmempty"
    by (simp add: score_block_def ex_share_block_def example_block_def score_tx_def ex_share_parsed word_le_nat_alt)
      (simp add: ex_share_def)
  moreover have "drop (unat (max (sat_sub (3 :: u32) 360) 1)) (take (min (unat (3 :: u32)) (length ex_pool_chain)) (enumerate 0 ex_pool_chain)) =
      [(1, ex_create_block), (2, ex_share_block)]"
    by (simp add: ex_pool_chain_def sat_sub_def word_le_nat_alt)
  ultimately show ?thesis
    by (simp only: pool_share_scores_from_blocks_def ex_pool_more Let_def fold_simps)
qed

lemma ex_split:
  "split_amount 5000000000 500 [(a, 1)] =
    Inr (250000000, 4750000000, [\<lparr>ppe_address = a, ppe_score = 1, ppe_amount = 4750000000\<rparr>])"
  by (simp add: split_amount_def split_scores_def sort_by_def split_one_def give_one_def checked_mul_def checked_add_def
      checked_sub_def)

lemma ex_plan:
  "pool_payout_plan ref_extern ex_pool_settings ex_pool_chain ex_create_id 5000000000 =
    Inr \<lparr>ppp_pool_id = ex_create_id, ppp_manager_address = address_to_string ref_extern ex_owner,
      ppp_commission_bps = 500, ppp_total_score = 1, ppp_commission_amount = 250000000, ppp_miner_amount = 4750000000,
      ppp_entries = [\<lparr>ppe_address = address_to_string ref_extern ex_miner, ppe_score = 1, ppe_amount = 4750000000\<rparr>]\<rparr>"
proof -
  have "length ex_pool_chain = 3" by (simp add: ex_pool_chain_def)
  moreover have "sorted_list_of_fmap (fmupd a (1 :: u128) fmempty) = [(a, 1)]" for a :: string
    by (simp add: sorted_list_of_fmap_def sorted_list_of_fset.rep_eq)
  ultimately show ?thesis
    by (simp add: pool_payout_plan_def ex_chain_registry ex_scores ex_pool_record_def new_pool_def ex_create_def ex_split)
qed

lemma pool_coinbase_exact_witness:
  "\<exists>outs. expected_pool_coinbase_outputs ref_extern ex_pool_settings ex_pool_chain ex_create_id 5000000000 = Inr outs \<and>
    sum_list (map (\<lambda>out. unat (out_value out)) outs) = 5000000000"
proof -
  have "\<exists>outs. expected_pool_coinbase_outputs ref_extern ex_pool_settings ex_pool_chain ex_create_id 5000000000 = Inr outs"
    using parse_ex_address [OF ex_miner] parse_ex_address [OF ex_owner(1,2)]
    by (simp add: expected_pool_coinbase_outputs_def ex_plan payout_output_def push_entry_def ex_pool_simps
        amount_from_atoms_def MAX_MONEY_ATOMS_val)
  moreover have "tx_count ex_pool_chain < 2 ^ 128"
    by (simp add: tx_count_def ex_pool_chain_def ex_create_block_def ex_share_block_def example_block_def)
  ultimately show ?thesis using pool_coinbase_exact by fastforce
qed

definition ex_pool_block :: block where
  "ex_pool_block = example_block [example_tx\<lparr>tx_inputs := [\<lparr>previous_output = outpoint_null,
     signature_script = POOL_BLOCK_PREFIX @ hash_to_string ref_extern ex_create_id, sequence = 0\<rparr>]\<rparr>]"

lemma jin_fees_handed_out_witness:
  "\<exists>rows. jin_fee_receivers_for_block ref_extern ex_pool_settings ex_pool_chain ex_pool_block 5000000000 = Inr rows \<and>
    sum_list (map (\<lambda>r. unat (snd r)) rows) = 5000000000"
proof -
  have "takeWhile is_ascii_hexdigit (hex_encode ref_extern ex_create_id) = hex_encode ref_extern ex_create_id"
    unfolding takeWhile_eq_all_conv using hex_encode_chars [OF ref_extern_ok, of _ ex_create_id]
    by (auto simp: is_lower_hex_def is_ascii_hexdigit_def char_class_defs)
  moreover have "from_utf8 (hash_to_string ref_extern i) = Some (hash_to_string ref_extern i)" for i
    using hex_encode_chars [OF ref_extern_ok] lower_hex_graphic
    by (intro from_utf8_graphic) (auto simp: hash_to_string_def list_all_iff)
  ultimately have "parse_pool_block_marker ref_extern ex_pool_block = Some ex_create_id"
    using hash_hex_roundtrip [OF ref_extern_ok ex_create_id_length] trim_hex [OF ref_extern_ok]
    by (simp add: parse_pool_block_marker_def ex_pool_block_def example_block_def POOL_BLOCK_PREFIX_def starts_with_def
        hash_to_string_def del: takeWhile_eq_all_conv)
  then obtain rows where rows: "jin_fee_receivers_for_block ref_extern ex_pool_settings ex_pool_chain ex_pool_block 5000000000 = Inr rows"
    by (simp add: jin_fee_receivers_for_block_def ex_plan)
  have "tx_count ex_pool_chain < 2 ^ 128"
    by (simp add: tx_count_def ex_pool_chain_def ex_create_block_def ex_share_block_def example_block_def)
  from jin_fees_handed_out [OF rows this] rows \<open>parse_pool_block_marker _ _ = _\<close> show ?thesis by auto
qed

end
