(* ===== verification/NodeExample.thy ===== *)
theory NodeExample
  imports PoolTemplate PoolExample
begin

text \<open>
  A node with the mainnet values on a test network, but without coinbase maturity, its genesis block and the first block it mines,
  and a pool block on the example chain of \<open>PoolExample\<close>. The properties of the node, of templates and
  of mining are applied to them.
\<close>

section \<open>Work\<close>

lemma ex_target: "target_from_compact 0x1d07ffff =
    Inr (CHR 0x00 # CHR 0x00 # CHR 0x00 # CHR 0x07 # CHR 0xFF # CHR 0xFF # replicate 26 (CHR 0x00))"
  by code_simp

text \<open>The stand-in digest ends with the nonce, so nonce 0 meets any such target.\<close>

lemma ex_meets_target:
  assumes "hdr_bits h = 0x1d07ffff" and "hdr_nonce h = 0" and "length (hdr_prev_block_hash h) = 32"
  shows "verify_header_pow ref_extern h = Inr True"
proof -
  have nonce: "u32_le 0 = [CHR 0x00, CHR 0x00, CHR 0x00, CHR 0x00]" by code_simp
  have four: "(4 :: nat) = Suc (Suc (Suc (Suc 0)))" by simp
  have bits: "u32_le 0x1d07ffff = [CHR 0xFF, CHR 0xFF, CHR 0x07, CHR 0x1D]"
    unfolding u32_le_def four le_nat.simps by (simp, code_simp)
  have le: "length (u32_le w) = 4" for w by (simp add: u32_le_def)
  let ?s = "serialize_header h"
  have long: "32 \<le> length ?s" using assms(3) by (simp add: serialize_header_def le)
  obtain t where t: "?s = t @ u32_le 0x1d07ffff @ u32_le 0" using assms(1,2) by (simp add: serialize_header_def)
  have "rev (header_hash ref_extern h) = take 32 (rev ?s)"
    unfolding header_hash_def ref_double_sha256 [OF long] using long by (simp add: take_rev)
  also have "\<dots> = CHR 0x00 # CHR 0x00 # CHR 0x00 # CHR 0x00 # take 28 (CHR 0x1D # CHR 0x07 # CHR 0xFF # CHR 0xFF # rev t)"
    by (simp add: t nonce bits)
  finally have "rev (header_hash ref_extern h) \<le>
      CHR 0x00 # CHR 0x00 # CHR 0x00 # CHR 0x07 # CHR 0xFF # CHR 0xFF # replicate 26 (CHR 0x00)"
    by (simp add: less_char_def)
  then show ?thesis using assms(1) by (simp add: verify_header_pow_def ex_target)
qed

section \<open>A node with a genesis block and a mined block\<close>

definition ex_node_settings :: settings where
  "ex_node_settings = (example_settings ''regtest'')\<lparr>consensus := ex_consensus\<lparr>cons_coinbase_maturity := 0\<rparr>\<rparr>"

lemma ex_node_settings_simps [simp]:
  "network ex_node_settings = ex_network ''regtest''" "mempool_cfg ex_node_settings = ex_mempool"
  "mining ex_node_settings = ex_mining" "consensus ex_node_settings = ex_consensus\<lparr>cons_coinbase_maturity := 0\<rparr>"
  "features ex_node_settings = ex_features" "qns ex_node_settings = ex_qns" "jin ex_node_settings = ex_jin"
  "jin_swap ex_node_settings = ex_jin_swap" "pools ex_node_settings = ex_pools" "library ex_node_settings = ex_library"
  "node ex_node_settings = ex_node" "p2p ex_node_settings = ex_p2p" "rpc ex_node_settings = ex_rpc"
  "wallet_cfg ex_node_settings = ex_wallet"
  "verified_governance ex_node_settings = verified_governance (example_settings ''regtest'')"
  by (simp_all add: ex_node_settings_def)

definition ex_genesis :: block where
  "ex_genesis = projr (genesis_block ref_extern ex_node_settings)"

definition ex_start :: chain_state where
  "ex_start = \<lparr>cs_network = ''regtest'', cs_blocks = [ex_genesis], cs_utxos = fmempty, cs_mempool = []\<rparr>"

lemma ex_node_bits [simp]: "pow_bits ex_node_settings = Inr 0x1d07ffff" "genesis_bits ex_node_settings = Inr 0x1d07ffff"
  using example_pow_bits [of "''regtest''"] ex_genesis_bits [of "''regtest''"] by (simp_all add: pow_bits_def genesis_bits_def)

lemma ex_genesis_block: "genesis_block ref_extern ex_node_settings = Inr ex_genesis"
  by (simp add: ex_genesis_def genesis_block_def ex_genesis_bits Let_def)

lemma ex_start_reachable: "node_reachable ref_extern ex_node_settings ex_start"
  by (rule node_reachable.start) (simp add: new_with_genesis_def ex_genesis_block ex_start_def ex_network_def)

text \<open>An empty mempool gives an empty template.\<close>

lemma empty_candidate:
  assumes "cs_mempool c = []" and "pools_registry_from_blocks X S (cs_blocks c) = Inr r"
  shows "candidate_mempool_transactions X S c h m = Inr ([], 0)"
  using assms by (simp add: candidate_mempool_transactions_def pool_context_from_confirmed_def sort_by_def by_priority_def)

definition ex_template :: block where
  "ex_template = projr (build_candidate_block ref_extern ex_node_settings ex_start ex_owner 0)"

definition ex_mined :: block where
  "ex_mined = with_nonce 0 ex_template"

definition ex_options :: mining_options where
  "ex_options = \<lparr>mo_duty_cycle_percent = 50, mo_max_hashes = Some 10\<rparr>"

lemma ex_reward: "block_subsidy 1 (example_settings name) = 500000000"
  by (simp add: block_subsidy_def ex_consensus_def)

lemma ex_node_reward [simp]: "block_subsidy 1 ex_node_settings = 500000000"
  by (simp add: block_subsidy_def ex_consensus_def)

lemma ex_parts:
  "build_candidate_block_parts ref_extern ex_node_settings ex_start m =
     Inr \<lparr>cp_height = 1, cp_prev_block_hash = block_hash ref_extern ex_genesis, cp_time = unix_now ref_extern,
       cp_bits = 0x1d07ffff, cp_version = expected_block_version ex_node_settings 1, cp_reward_atoms = 500000000,
       cp_non_coinbase_transactions = []\<rparr>"
proof -
  have "candidate_mempool_transactions ref_extern ex_node_settings ex_start h m = Inr ([], 0)" for h
    by (rule empty_candidate [where r = fmempty]) (simp_all add: ex_start_def ex_no_registry)
  moreover have "sat_add (chain_height ex_start) 1 = 1" by (simp add: chain_height_def ex_start_def sat_add_def)
  ultimately show ?thesis
    by (simp add: build_candidate_block_parts_def Let_def required_work_bits_def example_pow_bits ex_reward checked_add_def
        tip_hash_def ok_or_def) (simp add: ex_start_def)
qed

lemma ex_coinbase: "create_coinbase 1 500000000 ex_owner 0 = Inr (hd (blk_transactions ex_mined))"
  and ex_template: "build_candidate_block ref_extern ex_node_settings ex_start ex_owner 0 = Inr ex_template"
  and ex_mined_txs: "tl (blk_transactions ex_mined) = []" and ex_mined_some: "blk_transactions ex_mined \<noteq> []"
  and ex_mined_header: "hdr_bits (blk_header ex_mined) = 0x1d07ffff" "hdr_nonce (blk_header ex_mined) = 0"
    "hdr_prev_block_hash (blk_header ex_mined) = block_hash ref_extern ex_genesis" "hdr_time (blk_header ex_mined) = unix_now ref_extern"
proof -
  obtain cb where cb: "create_coinbase 1 500000000 ex_owner 0 = Inr cb"
    by (simp add: create_coinbase_def amount_from_atoms_def MAX_MONEY_ATOMS_val)
  then have t: "ex_template = block_from_candidate_parts ref_extern \<lparr>cp_height = 1, cp_prev_block_hash = block_hash ref_extern ex_genesis,
       cp_time = unix_now ref_extern, cp_bits = 0x1d07ffff, cp_version = expected_block_version ex_node_settings 1,
       cp_reward_atoms = 500000000, cp_non_coinbase_transactions = []\<rparr> cb"
    and ok: "build_candidate_block ref_extern ex_node_settings ex_start ex_owner 0 = Inr ex_template"
    by (simp_all add: ex_template_def build_candidate_block_def ex_parts)
  show "build_candidate_block ref_extern ex_node_settings ex_start ex_owner 0 = Inr ex_template" by (rule ok)
  from t cb show "create_coinbase 1 500000000 ex_owner 0 = Inr (hd (blk_transactions ex_mined))"
    "tl (blk_transactions ex_mined) = []" "blk_transactions ex_mined \<noteq> []"
    "hdr_bits (blk_header ex_mined) = 0x1d07ffff" "hdr_nonce (blk_header ex_mined) = 0"
    "hdr_prev_block_hash (blk_header ex_mined) = block_hash ref_extern ex_genesis" "hdr_time (blk_header ex_mined) = unix_now ref_extern"
    by (simp_all only: ex_mined_def with_nonce_simps t block_from_candidate_parts_def Let_def)
      (simp_all add: with_nonce_def)
qed

lemma ex_mined_pow: "verify_header_pow ref_extern (blk_header ex_mined) = Inr True"
  by (rule ex_meets_target) (simp_all add: ex_mined_header length_block_hash [OF ref_extern_ok])

lemma ex_mining: "mine_next_block ref_extern ex_node_settings ex_start ex_owner ex_options = Some (Inr ex_mined)"
proof -
  have "mine_search ref_extern f m e ex_template 0 h = Some (Inr ex_mined)" for f m e h
    using ex_mined_pow by (subst mine_search.simps) (simp add: ex_mined_def)
  then show ?thesis by (simp add: mine_next_block_def mine_templates_def ex_options_def ex_template)
qed

lemma ex_mined_ready:
  "\<forall>out \<in> set (tx_outputs (hd (blk_transactions ex_mined))). 0 < out_value out \<and>
    out_value out \<le> cons_max_money_atoms (consensus ex_node_settings)"
  "length (addr_payload ex_owner) = 20" "addr_prefix ex_owner = net_address_prefix (network ex_node_settings)"
  "fresh_ids ref_extern ex_start i" "utxo_total (cs_utxos ex_start) = 0" "length (cs_blocks ex_start) = 1"
  "validate_consensus_checkpoint ref_extern ex_node_settings h i = Inr ()"
  "0 < unat (cons_max_block_transactions (consensus ex_node_settings))"
proof -
  have "tx_outputs (hd (blk_transactions ex_mined)) = [\<lparr>out_value = 500000000, script_pubkey = address_script_pubkey ex_owner\<rparr>]"
    by (rule create_coinbase_Inr [OF ex_coinbase])
  then show "\<forall>out \<in> set (tx_outputs (hd (blk_transactions ex_mined))). 0 < out_value out \<and>
    out_value out \<le> cons_max_money_atoms (consensus ex_node_settings)" by (simp add: ex_consensus_def)
  show "fresh_ids ref_extern ex_start i" by (simp add: fresh_ids_def ex_start_def)
  show "length (addr_payload ex_owner) = 20" "addr_prefix ex_owner = net_address_prefix (network ex_node_settings)"
    using ex_owner by (simp_all add: wf_address_def ex_network_def)
  show "validate_consensus_checkpoint ref_extern ex_node_settings h i = Inr ()"
    by (simp add: validate_consensus_checkpoint_def consensus_checkpoint_hash_def ex_network_def)
  show "utxo_total (cs_utxos ex_start) = 0" "length (cs_blocks ex_start) = 1"
    "0 < unat (cons_max_block_transactions (consensus ex_node_settings))"
    by (simp_all add: ex_start_def utxo_total_def ex_consensus_def)
qed

lemma mined_block_connects_witness:
  "\<exists>d. mine_next_block ref_extern ex_node_settings ex_start ex_owner ex_options = Some (Inr ex_mined) \<and>
    connect_block ref_extern ex_node_settings ex_mined ex_start = Inr (block_hash ref_extern ex_mined, d)"
proof -
  have "\<exists>d. connect_block ref_extern ex_node_settings ex_mined ex_start = Inr (block_hash ref_extern ex_mined, d)"
    by (rule mined_block_connects [OF ref_extern_ok ex_start_reachable _ ex_mining])
      (simp_all add: ex_mined_ready ex_mined_txs del: example_settings_simps ex_node_settings_simps)
  with ex_mining show ?thesis by blast
qed

lemma mining_ends_witness: "\<exists>r. mine_next_block ref_extern ex_node_settings ex_start ex_owner ex_options = Some r"
  using mining_ends [of ex_options ref_extern ex_node_settings ex_start ex_owner] by (auto simp: ex_options_def)

section \<open>The node after its first block\<close>

definition ex_next :: chain_state where
  "ex_next = snd (projr (connect_block ref_extern ex_node_settings ex_mined ex_start))"

lemma ex_connected: "connect_block ref_extern ex_node_settings ex_mined ex_start = Inr (block_hash ref_extern ex_mined, ex_next)"
proof -
  from ex_mining have found: "found_block ref_extern (build_candidate_block ref_extern ex_node_settings ex_start ex_owner) ex_mined"
    unfolding mine_next_block_def by (rule mine_templates_found)
  have "\<exists>d. connect_block ref_extern ex_node_settings ex_mined ex_start = Inr (block_hash ref_extern ex_mined, d)"
    by (rule found_solo_connects [OF ref_extern_ok reachable_mempool [OF ex_start_reachable] _ found])
      (simp_all add: ex_mined_ready ex_mined_txs del: example_settings_simps ex_node_settings_simps)
  then show ?thesis by (auto simp: ex_next_def)
qed

lemma ex_next_reachable: "node_reachable ref_extern ex_node_settings ex_next"
  using ex_start_reachable node_step.connect [OF ex_connected] by (rule node_reachable.step)

lemma ex_next_blocks: "cs_blocks ex_next = [ex_genesis, ex_mined]"
proof -
  from reachable_ok [OF ex_start_reachable] have "chain_ok ref_extern ex_node_settings ex_start" by (simp add: node_ok_def)
  from connect_block_Inr(2) [OF ex_connected this] show ?thesis by (simp add: ex_start_def)
qed

lemma node_state_valid_witness:
  "length (cs_blocks ex_next) = 2 \<and> validate_all ref_extern ex_node_settings ex_next = Inr ()"
  using node_state_valid [OF ex_next_reachable] by (simp add: ex_next_blocks)

lemma persisted_state_restored_witness:
  "from_persisted ref_extern ex_node_settings (to_persisted ref_extern ex_next) = Inr ex_next"
  by (rule persisted_state_restored [OF ex_next_reachable])

lemma money_supply_capped_witness: "utxo_total (cs_utxos ex_next) \<le> 2100000000000000"
  using money_supply_capped [OF ex_next_reachable] by (simp add: ex_next_blocks ex_consensus_def)

lemma chain_work_never_decreases_witness:
  "\<exists>w w'. chain_work_for_blocks [ex_genesis] = Inr w \<and> chain_work_for_blocks [ex_genesis, ex_mined] = Inr w' \<and> w \<le> w'"
  using chain_work_never_decreases [OF ex_start_reachable node_step.connect [OF ex_connected]]
  by (simp add: ex_next_blocks) (simp add: ex_start_def)

lemma registries_always_rebuild_witness:
  "\<exists>st. library_state_from_blocks ref_extern ex_node_settings [ex_genesis, ex_mined] = Inr st"
  using registries_always_rebuild [OF ex_next_reachable] by (simp add: ex_next_blocks)

lemma reorg_offers_everything_witness:
  "txid ref_extern example_tx \<in>
    txid ref_extern ` set (reorg_mempool_candidates_for ref_extern (ex_next\<lparr>cs_mempool := [example_tx]\<rparr>) ex_next)"
  using reorg_offers_everything [of example_tx "ex_next\<lparr>cs_mempool := [example_tx]\<rparr>" ref_extern ex_next] by simp

section \<open>A pool block\<close>

text \<open>The chain of \<open>PoolExample\<close> with nothing pending, and the block its pool finds on it.\<close>

definition ex_pool_state :: chain_state where
  "ex_pool_state = \<lparr>cs_network = ''regtest'', cs_blocks = ex_pool_chain, cs_utxos = fmempty, cs_mempool = []\<rparr>"

text \<open>The plan for any reward of the one miner.\<close>

lemma ex_plan_for:
  assumes "split_amount r 500 [(address_to_string ref_extern ex_miner, 1)] = Inr (cm, mn, es)"
  shows "pool_payout_plan ref_extern ex_pool_settings ex_pool_chain ex_create_id r =
    Inr \<lparr>ppp_pool_id = ex_create_id, ppp_manager_address = address_to_string ref_extern ex_owner,
      ppp_commission_bps = 500, ppp_total_score = 1, ppp_commission_amount = cm, ppp_miner_amount = mn, ppp_entries = es\<rparr>"
proof -
  have "length ex_pool_chain = 3" by (simp add: ex_pool_chain_def)
  moreover have "sorted_list_of_fmap (fmupd a (1 :: u128) fmempty) = [(a, 1)]" for a :: string
    by (simp add: sorted_list_of_fmap_def sorted_list_of_fset.rep_eq)
  ultimately show ?thesis using assms
    by (simp add: pool_payout_plan_def ex_chain_registry ex_scores ex_pool_record_def new_pool_def ex_create_def)
qed

lemma ex_pool_state_simps [simp]:
  "cs_blocks ex_pool_state = ex_pool_chain" "cs_utxos ex_pool_state = fmempty" "cs_mempool ex_pool_state = []"
  "chain_height ex_pool_state = 2" "tip_hash X ex_pool_state = block_hash X ex_share_block"
  by (simp_all add: ex_pool_state_def chain_height_def tip_hash_def ex_pool_chain_def)

definition ex_pool_outs :: "u64 \<Rightarrow> tx_out list" where
  "ex_pool_outs n = [\<lparr>out_value = 25000000, script_pubkey = address_script_pubkey ex_owner\<rparr>,
     \<lparr>out_value = n, script_pubkey = address_script_pubkey ex_miner\<rparr>]"

lemma ex_pool_expected:
  "expected_pool_coinbase_outputs ref_extern ex_pool_settings ex_pool_chain ex_create_id 500000000 = Inr (ex_pool_outs 475000000)"
  "expected_pool_coinbase_outputs ref_extern ex_pool_settings ex_pool_chain ex_create_id 500000010 = Inr (ex_pool_outs 475000010)"
proof -
  have split: "split_amount 500000000 500 [(a, 1)] = Inr (25000000, 475000000, [\<lparr>ppe_address = a, ppe_score = 1, ppe_amount = 475000000\<rparr>])"
    "split_amount 500000010 500 [(a, 1)] = Inr (25000000, 475000010, [\<lparr>ppe_address = a, ppe_score = 1, ppe_amount = 475000010\<rparr>])" for a
    by (simp_all add: split_amount_def split_scores_def sort_by_def split_one_def give_one_def checked_mul_def checked_add_def
        checked_sub_def)
  show "expected_pool_coinbase_outputs ref_extern ex_pool_settings ex_pool_chain ex_create_id 500000000 = Inr (ex_pool_outs 475000000)"
    "expected_pool_coinbase_outputs ref_extern ex_pool_settings ex_pool_chain ex_create_id 500000010 = Inr (ex_pool_outs 475000010)"
    using parse_ex_address [OF ex_miner] parse_ex_address [OF ex_owner(1,2)]
    by (simp_all add: expected_pool_coinbase_outputs_def ex_plan_for [OF split(1)] ex_plan_for [OF split(2)] payout_output_def
        push_entry_def ex_pool_simps amount_from_atoms_def MAX_MONEY_ATOMS_val ex_pool_outs_def)
qed

lemma ex_pool_parts:
  "build_candidate_block_parts ref_extern ex_pool_settings ex_pool_state None =
     Inr \<lparr>cp_height = 3, cp_prev_block_hash = block_hash ref_extern ex_share_block, cp_time = unix_now ref_extern,
       cp_bits = 0x1d07ffff, cp_version = expected_block_version ex_pool_settings 3, cp_reward_atoms = 500000000,
       cp_non_coinbase_transactions = []\<rparr>"
proof -
  have "candidate_mempool_transactions ref_extern ex_pool_settings ex_pool_state h None = Inr ([], 0)" for h
    by (rule empty_candidate) (simp_all add: ex_chain_registry)
  moreover have "sat_add (chain_height ex_pool_state) 1 = 3" by (simp add: sat_add_def)
  moreover have "pow_bits ex_pool_settings = Inr 0x1d07ffff"
    using example_pow_bits by (simp add: pow_bits_def ex_pool_simps)
  then have "required_work_bits ex_pool_settings ex_pool_chain 3 = Inr 0x1d07ffff"
    by (simp add: required_work_bits_def daa_v2_active_def ex_pool_simps ex_network_def required_work_bits_legacy_def
        ex_pool_chain_def prev_bits_or_def ex_share_block_def example_block_def Let_def word_le_nat_alt ex_consensus_def)
  moreover have "block_subsidy 3 ex_pool_settings = 500000000"
    by (simp add: block_subsidy_def ex_pool_simps ex_consensus_def)
  ultimately show ?thesis
    by (simp add: build_candidate_block_parts_def Let_def checked_add_def ok_or_def)
qed

definition ex_pool_template :: block where
  "ex_pool_template = projr (build_candidate_pool_block ref_extern ex_pool_settings ex_pool_state ex_create_id 0)"

definition ex_pool_mined :: block where
  "ex_pool_mined = with_nonce 0 ex_pool_template"

lemma ex_pool_template:
  "build_candidate_pool_block ref_extern ex_pool_settings ex_pool_state ex_create_id 0 = Inr ex_pool_template"
  and ex_pool_mined_txs: "blk_transactions ex_pool_mined = [pool_coinbase ref_extern 3 0 ex_create_id (ex_pool_outs 475000000)]"
  and ex_pool_mined_header: "hdr_bits (blk_header ex_pool_mined) = 0x1d07ffff" "hdr_nonce (blk_header ex_pool_mined) = 0"
    "hdr_prev_block_hash (blk_header ex_pool_mined) = block_hash ref_extern ex_share_block"
proof -
  let ?parts = "\<lparr>cp_height = 3, cp_prev_block_hash = block_hash ref_extern ex_share_block, cp_time = unix_now ref_extern,
       cp_bits = 0x1d07ffff, cp_version = expected_block_version ex_pool_settings 3, cp_reward_atoms = 500000000,
       cp_non_coinbase_transactions = []\<rparr>"
  have ok: "build_candidate_pool_block ref_extern ex_pool_settings ex_pool_state ex_create_id 0 =
      Inr (block_from_candidate_parts ref_extern ?parts (pool_coinbase ref_extern 3 0 ex_create_id (ex_pool_outs 475000000)))"
    using ex_pool_expected(1) ex_chain_registry
    by (simp add: build_candidate_pool_block_def ex_pool_parts ex_pool_simps Let_def)
  then show "build_candidate_pool_block ref_extern ex_pool_settings ex_pool_state ex_create_id 0 = Inr ex_pool_template"
    by (simp add: ex_pool_template_def)
  have t: "ex_pool_template = block_from_candidate_parts ref_extern ?parts (pool_coinbase ref_extern 3 0 ex_create_id (ex_pool_outs 475000000))"
    using ok by (simp add: ex_pool_template_def)
  show "blk_transactions ex_pool_mined = [pool_coinbase ref_extern 3 0 ex_create_id (ex_pool_outs 475000000)]"
    "hdr_bits (blk_header ex_pool_mined) = 0x1d07ffff" "hdr_nonce (blk_header ex_pool_mined) = 0"
    "hdr_prev_block_hash (blk_header ex_pool_mined) = block_hash ref_extern ex_share_block"
    by (simp_all only: ex_pool_mined_def with_nonce_simps t block_from_candidate_parts_def Let_def)
      (simp_all add: with_nonce_def)
qed

lemma ex_pool_mining:
  "mine_next_pool_block ref_extern ex_pool_settings ex_pool_state ex_create_id ex_options = Some (Inr ex_pool_mined)"
proof -
  have "verify_header_pow ref_extern (blk_header ex_pool_mined) = Inr True"
    by (rule ex_meets_target) (simp_all add: ex_pool_mined_header length_block_hash [OF ref_extern_ok])
  then have "mine_search ref_extern f m e ex_pool_template 0 h = Some (Inr ex_pool_mined)" for f m e h
    by (subst mine_search.simps) (simp add: ex_pool_mined_def)
  then show ?thesis by (simp add: mine_next_pool_block_def mine_templates_def ex_options_def ex_pool_template)
qed

lemma pool_mined_block_connects_witness:
  "\<exists>d. connect_block ref_extern ex_pool_settings ex_pool_mined ex_pool_state = Inr (block_hash ref_extern ex_pool_mined, d)"
proof (rule pool_mined_block_connects [OF ref_extern_ok _ _ _ _ ex_pool_mining ex_create_id_length])
  show "fresh_ids ref_extern ex_pool_state (txid ref_extern (hd (blk_transactions ex_pool_mined)))"
    by (simp add: fresh_ids_def)
  show "tx_count (cs_blocks ex_pool_state) < 2 ^ 128"
    by (simp add: tx_count_def ex_pool_chain_def ex_create_block_def ex_share_block_def example_block_def)
  show "outputs_total (hd (blk_transactions ex_pool_mined)) \<le> unat (cons_max_money_atoms (consensus ex_pool_settings))"
    "length (tx_outputs (hd (blk_transactions ex_pool_mined))) \<le> 2 ^ 32"
    by (simp_all add: ex_pool_mined_txs pool_coinbase_def ex_pool_outs_def outputs_total_def ex_pool_simps ex_consensus_def)
  show "validate_consensus_checkpoint ref_extern ex_pool_settings h i = Inr ()" for h i
    by (simp add: validate_consensus_checkpoint_def consensus_checkpoint_hash_def ex_pool_simps ex_network_def)
qed (simp_all add: ex_pool_chain_def ex_pool_mined_txs utxo_total_def ex_pool_simps ex_consensus_def)

text \<open>A pool block with a fee and no melt.\<close>

definition ex_paid_block :: block where
  "ex_paid_block = block_from_candidate_parts ref_extern
     \<lparr>cp_height = 3, cp_prev_block_hash = block_hash ref_extern ex_share_block, cp_time = 1700000000, cp_bits = 0x1d07ffff,
       cp_version = 1, cp_reward_atoms = 500000010, cp_non_coinbase_transactions = [ex_spend]\<rparr>
     (pool_coinbase ref_extern 3 0 ex_create_id (ex_pool_outs 475000010))"

text \<open>Its transactions have different ids: the stand-in digest keeps the last bytes, and with them the last payload.\<close>

lemma ex_txid_tail:
  assumes "tx_outputs tx = outs @ [\<lparr>out_value = v, script_pubkey = P2PKH_PREFIX @ p @ P2PKH_SUFFIX\<rparr>]"
    and "length p = 20" and "tx_locktime tx = 0"
  shows "rev (txid ref_extern tx) ! 6 = last p"
proof -
  have zero: "u32_le 0 = [CHR 0x00, CHR 0x00, CHR 0x00, CHR 0x00]" by code_simp
  from assms(2) obtain q x where q: "p = q @ [x]" by (cases p rule: rev_cases) simp_all
  from assms obtain s where s: "serialize_tx None tx = s @ write_varbytes (P2PKH_PREFIX @ p @ P2PKH_SUFFIX) @ u32_le 0"
    by (simp add: serialize_tx_def serialize_output_def)
  obtain r where r: "serialize_tx None tx = r @ p @ P2PKH_SUFFIX @ u32_le 0"
    using s by (simp add: write_varbytes_def)
  have long: "32 \<le> length (serialize_tx None tx)" by (simp add: serialize_tx_def u32_le_def assms(1,2) serialize_output_def
      u64_le_def write_varbytes_def)
  have "rev (txid ref_extern tx) = take 32 (rev (serialize_tx None tx))"
    unfolding txid_def ref_double_sha256 [OF long] using long by (simp add: take_rev)
  also have "\<dots> ! 6 = rev (serialize_tx None tx) ! 6" by simp
  also have "\<dots> = last p" unfolding r q by (simp add: zero)
  finally show ?thesis .
qed

lemma ex_paid_ids: "txid ref_extern (pool_coinbase ref_extern 3 0 ex_create_id (ex_pool_outs 475000010)) \<noteq> txid ref_extern ex_spend"
proof -
  have "rev (txid ref_extern (pool_coinbase ref_extern 3 0 ex_create_id (ex_pool_outs 475000010))) ! 6 = last (addr_payload ex_miner)"
    by (rule ex_txid_tail) (simp_all add: pool_coinbase_def ex_pool_outs_def address_script_pubkey_def ex_miner_def address_new_def
        public_key_hash_def ripemd160_length [OF ref_extern_ok])
  moreover have "rev (txid ref_extern ex_spend) ! 6 = last (public_key_hash ref_extern ''k'')"
    by (rule ex_txid_tail [where outs = "[]"]) (simp_all add: ex_spend_def ex_pay_def ex_pay_with_def ex_script_def
        public_key_hash_def ripemd160_length [OF ref_extern_ok])
  moreover have "last (addr_payload ex_miner) \<noteq> last (public_key_hash ref_extern ''k'')"
    unfolding ex_miner_def address_new_def by code_simp
  ultimately show ?thesis by metis
qed

lemma ex_spend_markers:
  "qns_registrations_in_tx X ex_spend S = []" "qub_jin_infusion_markers_in_tx X ex_spend S = []"
  "library_markers_in_tx X ex_spend S = []" "jin_sale_purchases_in_tx X ex_spend S = []"
  "pool_action_count X ex_spend S = 0"
proof -
  obtain s where s: "ex_script = CHR 0x76 # s" by (simp add: ex_script_def)
  have utf: "from_utf8 (CHR 0x76 # s) = None \<or> from_utf8 (CHR 0x76 # s) = Some (CHR 0x76 # s)" by (simp add: from_utf8_def)
  then show "qns_registrations_in_tx X ex_spend S = []" "qub_jin_infusion_markers_in_tx X ex_spend S = []"
    "library_markers_in_tx X ex_spend S = []" "jin_sale_purchases_in_tx X ex_spend S = []" "pool_action_count X ex_spend S = 0"
    by (auto simp: ex_spend_def ex_pay_simps s qns_registrations_in_tx_def qub_jin_infusion_markers_in_tx_def
        library_markers_in_tx_def jin_sale_purchases_in_tx_def pool_action_count_def pool_creates_in_tx_def
        pool_topups_in_tx_def pool_commissions_in_tx_def pool_renames_in_tx_def markers_in_def List.map_filter_def
        parse_qns_marker_script_def parse_qub_jin_infusion_script_def parse_library_marker_script_def
        parse_jin_sale_purchase_script_def parse_pool_commission_marker_script_def parse_pool_create_marker_script_def
        parse_pool_topup_marker_script_def parse_pool_rename_marker_script_def pool_fields_def starts_with_def
        QNS_SCRIPT_PREFIX_def QUB_JIN_INFUSION_SCRIPT_PREFIX_def LIBRARY_SCRIPT_PREFIX_def JIN_SWAP_SCRIPT_PREFIX_def
        POOL_CREATE_PREFIX_def POOL_TOPUP_PREFIX_def POOL_RENAME_PREFIX_def POOL_COMMISSION_PREFIX_def)
qed

lemma ex_paid_txs: "blk_transactions ex_paid_block = [pool_coinbase ref_extern 3 0 ex_create_id (ex_pool_outs 475000010), ex_spend]"
  by (simp add: ex_paid_block_def block_from_candidate_parts_def)

lemma ex_spend_checks:
  "validate_block_tx ref_extern ex_pool_settings 3 ex_spend (ex_coin 100, 0) = Inr (projr (connect_tx_utxos ref_extern ex_spend 3 False (ex_coin 100)), 10)"
  "validate_pools_tx ref_extern ex_pool_settings bs 3 ex_spend (ctx, ex_coin 100, 0) =
    Inr (ctx, projr (connect_tx_utxos ref_extern ex_spend 3 False (ex_coin 100)), 10)"
proof -
  have v: "validate_tx_contextual ref_extern ex_spend (ex_coin 100) 3 ex_pool_settings True = Inr 10"
    using ex_pay_validate [of ex_pool_settings "[\<lparr>out_value = 90, script_pubkey = ex_script\<rparr>]" 90 100 3]
    by (simp add: ex_spend_def add_output_value_def ex_consensus_def MAX_MONEY_ATOMS_val
        MAX_SEND_ENTRIES_PER_TX_def ex_not_blast_script ex_pool_simps)
  obtain u where u: "connect_tx_utxos ref_extern ex_spend 3 False (ex_coin 100) = Inr u"
    using ex_pay_connect [of "[\<lparr>out_value = 90, script_pubkey = ex_script\<rparr>]" 3 100] by (auto simp: ex_spend_def)
  have kind: "\<not> is_pool_share_transaction ex_spend" using ex_kind by (simp add: ex_spend_def)
  show "validate_block_tx ref_extern ex_pool_settings 3 ex_spend (ex_coin 100, 0) = Inr (projr (connect_tx_utxos ref_extern ex_spend 3 False (ex_coin 100)), 10)"
    by (simp add: validate_block_tx_def v u qub_jin_melt_burn_atoms_for_fee_def ex_spend_markers required_extra_fee_def
        qns_miner_fee_required_in_tx_def library_miner_fee_required_in_tx_def jin_swap_miner_fee_required_in_tx_def checked_add_def)
  show "validate_pools_tx ref_extern ex_pool_settings bs 3 ex_spend (ctx, ex_coin 100, 0) =
    Inr (ctx, projr (connect_tx_utxos ref_extern ex_spend 3 False (ex_coin 100)), 10)"
    by (simp add: validate_pools_tx_def v u kind pool_validate_and_apply_def ex_spend_markers se_return_def se_run_def checked_add_def)
qed

lemma ex_paid_marker: "parse_pool_block_marker ref_extern ex_paid_block = Some ex_create_id"
  by (rule parse_pool_marker_script [OF ref_extern_ok ex_create_id_length _ ex_paid_txs]) simp

lemma ex_paid_coinbase:
  "is_coinbase (pool_coinbase ref_extern 3 0 ex_create_id (ex_pool_outs 475000010))"
  "validate_tx_stateless (pool_coinbase ref_extern 3 0 ex_create_id (ex_pool_outs 475000010)) ex_pool_settings = Inr ()"
  by (rule pool_coinbase_stateless [where S = ex_pool_settings];
    simp add: ex_pool_outs_def MAX_MONEY_ATOMS_val ex_pool_simps ex_consensus_def)+

lemma ex_paid_valid:
  "\<exists>ids. validate_block ref_extern ex_paid_block (ex_coin 100) (block_hash ref_extern ex_share_block) 3 0x1d07ffff ex_pool_settings = Inr ids"
proof -
  have "verify_header_pow ref_extern (blk_header ex_paid_block) = Inr True"
    by (rule ex_meets_target) (simp_all add: ex_paid_block_def block_from_candidate_parts_def length_block_hash [OF ref_extern_ok])
  moreover have "expected_block_version ex_pool_settings 3 = 1"
    by (simp add: expected_block_version_def protocol_epoch_2_active_def protocol_epoch_2_activation_height_def Let_def ex_pool_simps ex_network_def ex_consensus_def)
  moreover have "compute_merkle_root ref_extern ex_paid_block = hdr_merkle_root (blk_header ex_paid_block)"
    by (simp add: compute_merkle_root_def ex_paid_block_def block_from_candidate_parts_def)
  moreover have "\<not> is_coinbase ex_spend" using ex_kind by (simp add: ex_spend_def)
  moreover have "block_subsidy 3 ex_pool_settings = 500000000" by (simp add: block_subsidy_def ex_pool_simps ex_consensus_def)
  moreover have "hdr_version (blk_header ex_paid_block) = 1" "hdr_time (blk_header ex_paid_block) = 1700000000"
    "hdr_bits (blk_header ex_paid_block) = 0x1d07ffff" "hdr_prev_block_hash (blk_header ex_paid_block) = block_hash ref_extern ex_share_block"
    by (simp_all add: ex_paid_block_def block_from_candidate_parts_def)
  moreover have "unix_now ref_extern = 1700000000" by (simp add: ref_extern_def)
  moreover have "coinbase_claim (pool_coinbase ref_extern 3 0 ex_create_id (ex_pool_outs 475000010)) = 500000010"
    by (simp add: coinbase_claim_def pool_coinbase_def ex_pool_outs_def)
  ultimately show ?thesis
    using ex_paid_ids ex_paid_coinbase ex_spend_checks(1)
    by (simp add: validate_block_def Let_def ex_paid_txs ex_pool_simps check_no_coinbase_def collect_txid_def)
      (simp add: ex_consensus_def sat_add_def)
qed

lemma pool_block_never_melts_witness:
  "ex_spend \<in> set (tl (blk_transactions ex_paid_block)) \<and>
    qub_jin_melt_burn_atoms_for_fee ref_extern ex_pool_settings ex_spend 3 = Inr 0"
proof -
  have pools: "validate_pools_block ref_extern ex_pool_settings ex_paid_block ex_pool_chain (ex_coin 100) 3 = Inr ()"
  proof (rule pools_pass_block)
    have "\<not> is_pool_share_transaction ex_spend" using ex_kind by (simp add: ex_spend_def)
    then show "pools_pass ref_extern ex_pool_settings ex_pool_chain (ex_coin 100) 3 (drop 1 (blk_transactions ex_paid_block)) 10"
      using ex_spend_checks(2) by (auto simp: pools_pass_def ex_paid_txs pool_context_from_confirmed_def ex_chain_registry)
    have "block_subsidy 3 ex_pool_settings = 500000000" by (simp add: block_subsidy_def ex_pool_simps ex_consensus_def)
    then show "validate_pool_coinbase ref_extern ex_pool_settings ex_paid_block ex_pool_chain 3 10 = Inr ()"
      using ex_pool_expected(2) by (simp add: validate_pool_coinbase_def ex_paid_marker ex_paid_txs pool_coinbase_def)
  qed (simp add: ex_pool_simps)
  have tx: "ex_spend \<in> set (tl (blk_transactions ex_paid_block))" by (simp add: ex_paid_txs)
  have "tx_count ex_pool_chain < 2 ^ 128"
    by (simp add: tx_count_def ex_pool_chain_def ex_create_block_def ex_share_block_def example_block_def)
  with ex_paid_valid pool_block_never_melts [OF _ pools ex_paid_marker _ _ tx] tx show ?thesis
    by (auto simp: ex_coin_total)
qed

end
