(* ===== verification/FastExample.thy ===== *)
theory FastExample
  imports FastProgress NodeExample "HOL-Library.Countable"
begin

text \<open>
  A codec that meets \<open>codec_ok\<close> and \<open>json_ok\<close>, and the properties of the Fast Chain Engine applied to
  the saves of a node that mines its first block: every value is written as that many letters as the
  number of it among the values of its type, and arrays and objects are cut at their commas by a scanner.
\<close>

section \<open>A codec\<close>

definition enc :: "'a::countable \<Rightarrow> bytes" where
  "enc x = replicate (Suc (to_nat x)) (CHR ''x'')"

definition dec :: "bytes \<Rightarrow> 'a::countable option" where
  "dec s = Some (from_nat (length s - 1))"

lemma dec_enc [simp]: "dec (enc x) = Some x"
  by (simp add: dec_def enc_def)

lemma enc_injective [simp]: "enc x = enc y \<longleftrightarrow> x = y"
  by (metis dec_enc option.inject)

lemma enc_chars: "enc x \<noteq> []" "c \<in> set (enc x) \<Longrightarrow> c = CHR ''x''"
  by (simp_all add: enc_def del: replicate_Suc)

text \<open>Records as tuples.\<close>

definition in_tuple where "in_tuple i = ((op_txid (previous_output i), op_vout (previous_output i)), signature_script i, sequence i)"
definition in_of where "in_of = (\<lambda>((t, v), s, q). \<lparr>previous_output = OutPoint t v, signature_script = s, sequence = q\<rparr> :: tx_in)"
definition out_tuple where "out_tuple u = (out_value u, script_pubkey u)"
definition out_of where "out_of = (\<lambda>(v, s). \<lparr>out_value = v, script_pubkey = s\<rparr> :: tx_out)"
definition tx_tuple where "tx_tuple t = (tx_version t, map in_tuple (tx_inputs t), map out_tuple (tx_outputs t), tx_locktime t)"
definition tx_of where "tx_of = (\<lambda>(v, i, u, l). \<lparr>tx_version = v, tx_inputs = map in_of i, tx_outputs = map out_of u, tx_locktime = l\<rparr> :: transaction)"
definition header_tuple where
  "header_tuple h = (hdr_version h, hdr_prev_block_hash h, hdr_merkle_root h, hdr_time h, hdr_bits h, hdr_nonce h)"
definition header_of where
  "header_of = (\<lambda>(v, p, m, t, b, n). \<lparr>hdr_version = v, hdr_prev_block_hash = p, hdr_merkle_root = m, hdr_time = t, hdr_bits = b, hdr_nonce = n\<rparr> :: block_header)"
definition block_tuple where "block_tuple b = (header_tuple (blk_header b), map tx_tuple (blk_transactions b))"
definition block_of where "block_of = (\<lambda>(h, ts). \<lparr>blk_header = header_of h, blk_transactions = map tx_of ts\<rparr> :: block)"
definition utxo_tuple where
  "utxo_tuple u = ((op_txid (pu_outpoint u), op_vout (pu_outpoint u)), out_tuple (coin_out (pu_coin u)), coin_height (pu_coin u), coin_is_coinbase (pu_coin u))"
definition utxo_of where
  "utxo_of = (\<lambda>((t, v), u, h, c). \<lparr>pu_outpoint = OutPoint t v, pu_coin = \<lparr>coin_out = out_of u, coin_height = h, coin_is_coinbase = c\<rparr>\<rparr> :: persisted_utxo)"
definition recent_tuple where "recent_tuple r = (frb_height r, frb_hash r, frb_version r, frb_time r, frb_tx_count r)"
definition recent_of where
  "recent_of = (\<lambda>(h, i, v, t, n). \<lparr>frb_height = h, frb_hash = i, frb_version = v, frb_time = t, frb_tx_count = n\<rparr> :: fast_recent_block)"
definition pointer_tuple where
  "pointer_tuple p = ((ptr_schema_version p, ptr_magic p, ptr_network p, ptr_generation p, ptr_state_revision p),
     (ptr_blocks_file p, ptr_state_file p, ptr_state_sha256 p, ptr_journal_bytes p, ptr_committed_height p),
     (ptr_tip_hash p, header_tuple (ptr_tip_header p), ptr_tip_tx_count p, ptr_mempool_digest p, ptr_total_work_hex p, ptr_committed_at_unix p))"
definition pointer_of where
  "pointer_of = (\<lambda>((a, b, c, d, e), (f, g, h, i, j), (k, l, m, n, u, q)).
     \<lparr>ptr_schema_version = a, ptr_magic = b, ptr_network = c, ptr_generation = d, ptr_state_revision = e, ptr_blocks_file = f,
      ptr_state_file = g, ptr_state_sha256 = h, ptr_journal_bytes = i, ptr_committed_height = j, ptr_tip_hash = k,
      ptr_tip_header = header_of l, ptr_tip_tx_count = m, ptr_mempool_digest = n, ptr_total_work_hex = u, ptr_committed_at_unix = q\<rparr> :: storage_pointer)"
definition state_tuple where
  "state_tuple s = ((fst_schema_version s, fst_magic s, fst_network s, fst_generation s, fst_state_revision s),
     (fst_committed_height s, fst_tip_hash s, header_tuple (fst_tip_header s), fst_tip_tx_count s, fst_journal_bytes s),
     (fst_mempool_digest s, fst_total_work_hex s, map utxo_tuple (fst_utxos s), map tx_tuple (fst_mempool s), map recent_tuple (fst_recent_blocks s)))"
definition state_of where
  "state_of = (\<lambda>((a, b, c, d, e), (f, g, h, i, j), (k, l, m, n, u)).
     \<lparr>fst_schema_version = a, fst_magic = b, fst_network = c, fst_generation = d, fst_state_revision = e, fst_committed_height = f,
      fst_tip_hash = g, fst_tip_header = header_of h, fst_tip_tx_count = i, fst_journal_bytes = j, fst_mempool_digest = k,
      fst_total_work_hex = l, fst_utxos = map utxo_of m, fst_mempool = map tx_of n, fst_recent_blocks = map recent_of u\<rparr> :: storage_state)"

lemma tuples_back [simp]:
  "in_of (in_tuple i) = i" "out_of (out_tuple u) = u" "header_of (header_tuple h) = h" "recent_of (recent_tuple r) = r"
  by (simp_all add: in_of_def in_tuple_def out_of_def out_tuple_def header_of_def header_tuple_def recent_of_def recent_tuple_def)

lemma tx_back [simp]: "tx_of (tx_tuple t) = t"
  by (simp add: tx_of_def tx_tuple_def comp_def)

lemma utxo_back [simp]: "utxo_of (utxo_tuple u) = u"
  by (simp add: utxo_of_def utxo_tuple_def)

lemma block_back [simp]: "block_of (block_tuple b) = b"
  by (simp add: block_of_def block_tuple_def comp_def)

lemma pointer_back [simp]: "pointer_of (pointer_tuple p) = p"
  by (simp add: pointer_of_def pointer_tuple_def)

lemma state_back [simp]: "state_of (state_tuple s) = s"
  by (simp add: state_of_def state_tuple_def comp_def)

text \<open>
  A value is a text whose brackets match and whose commas stand within brackets; \<open>split_top\<close> cuts at the
  other commas.
\<close>

fun closed :: "nat \<Rightarrow> bytes \<Rightarrow> bool" where
  "closed d [] \<longleftrightarrow> d = 0"
| "closed d (c # t) \<longleftrightarrow>
    (if c = CHR ''['' then closed (Suc d) t
     else if c = CHR '']'' then 0 < d \<and> closed (d - 1) t
     else if c = CHR '','' then 0 < d \<and> closed d t
     else closed d t)"

fun split_top :: "nat \<Rightarrow> bytes \<Rightarrow> bytes \<Rightarrow> bytes list" where
  "split_top d acc [] = [acc]"
| "split_top d acc (c # t) =
    (if c = CHR '','' \<and> d = 0 then acc # split_top 0 [] t
     else split_top (if c = CHR ''['' then Suc d else if c = CHR '']'' then d - 1 else d) (acc @ [c]) t)"

definition scan_items :: "bytes \<Rightarrow> bytes list option" where
  "scan_items t =
     (if 2 \<le> length t \<and> hd t = CHR ''['' \<and> last t = CHR '']''
      then Some (if butlast (tl t) = [] then [] else split_top 0 [] (butlast (tl t))) else None)"

definition scan_member :: "bytes \<Rightarrow> string \<times> bytes" where
  "scan_member p = (let k = takeWhile (\<lambda>c. c \<noteq> CHR 0x22) (tl p) in (k, drop (length k + 3) p))"

definition scan_members :: "bytes \<Rightarrow> (string \<times> bytes) list option" where
  "scan_members raw =
     (let t = rev (dropWhile (\<lambda>c. c \<in> {NL, CR, CHR '' '', CHR 0x09}) (rev raw)) in
      if 2 \<le> length t \<and> hd t = CHR ''{'' \<and> last t = CHR ''}''
      then Some (if butlast (tl t) = [] then [] else map scan_member (split_top 0 [] (butlast (tl t)))) else None)"

definition ref_codec :: codec where
  "ref_codec =
     \<lparr>block_json = (\<lambda>b. enc (block_tuple b)), block_parse = (\<lambda>s. map_option block_of (dec s)),
      state_json = (\<lambda>s. enc (state_tuple s)), state_parse = (\<lambda>s. map_option state_of (dec s)),
      pointer_json = (\<lambda>p. enc (pointer_tuple p)), pointer_parse = (\<lambda>s. map_option pointer_of (dec s)),
      status_json = (\<lambda>_. []), legacy_json = (\<lambda>_. []), legacy_parse = (\<lambda>_. None), string_json = enc,
      utxos_json = (\<lambda>us. enc (map utxo_tuple us)), txs_json = (\<lambda>ts. enc (map tx_tuple ts)), string_parse = dec,
      utxos_parse = (\<lambda>s. map_option (map utxo_of) (dec s)), txs_parse = (\<lambda>s. map_option (map tx_of) (dec s)),
      json_value = (\<lambda>t. t \<noteq> [] \<and> closed 0 t), array_items = scan_items, object_members = scan_members,
      work_hex = enc, work_parse = dec\<rparr>"

lemma closed_append: "closed d t \<Longrightarrow> closed (d + k) (t @ r) = closed k r"
proof (induction t arbitrary: d)
  case (Cons c t)
  have "0 < d \<Longrightarrow> d - 1 + k = d + k - 1" by simp
  then show ?case using Cons.prems Cons.IH [of "Suc d"] Cons.IH [of "d - 1"] Cons.IH [of d] by (auto split: if_splits)
qed simp

lemma closed_plain: "list_all (\<lambda>c. c \<notin> {CHR ''['', CHR '']'', CHR '',''}) t \<Longrightarrow> closed 0 t"
  by (induction t) auto

lemma closed_join:
  assumes "list_all (closed 0) vs"
  shows "closed (Suc 0) (join_with (CHR '','') vs @ r) = closed (Suc 0) r"
  using assms by (induction "CHR '',''" vs rule: join_with.induct) (auto simp: closed_append [where d = 0, simplified])

lemma split_closed: "closed d t \<Longrightarrow> split_top d acc (t @ r) = split_top 0 (acc @ t) r"
  by (induction t arbitrary: d acc) (auto split: if_splits)

lemma split_join: "list_all (closed 0) vs \<Longrightarrow> vs \<noteq> [] \<Longrightarrow> split_top 0 [] (join_with (CHR '','') vs) = vs"
proof (induction "CHR '',''" vs rule: join_with.induct)
  case (2 v)
  then show ?case using split_closed [of 0 v "[]" "[]"] by simp
next
  case (3 v w vs)
  then show ?case by (simp add: split_closed [of 0 v "[]"])
qed simp

lemma join_empty: "list_all (\<lambda>t. t \<noteq> []) vs \<Longrightarrow> join_with c vs = [] \<longleftrightarrow> vs = []"
  by (induction c vs rule: join_with.induct) simp_all

lemma scan_array:
  assumes "list_all (\<lambda>t. t \<noteq> [] \<and> closed 0 t) vs"
  shows "scan_items (json_array vs) = Some vs" and "closed 0 (json_array vs)" and "json_array vs \<noteq> []"
proof -
  from assms have v: "list_all (\<lambda>t. t \<noteq> []) vs" "list_all (closed 0) vs" by (simp_all add: list_all_iff)
  then show "scan_items (json_array vs) = Some vs"
    by (auto simp: scan_items_def json_array_def butlast_append join_empty split_join)
  show "closed 0 (json_array vs)" by (simp add: json_array_def closed_join [OF v(2)])
qed (simp add: json_array_def)

lemma lowercase_plain:
  assumes "list_all is_ascii_lowercase k"
  shows "list_all (\<lambda>c. c \<notin> {CHR ''['', CHR '']'', CHR '','', CHR 0x22}) k"
  using assms by (induction k) (auto simp: is_ascii_lowercase_def less_eq_char_def)

lemma scan_object:
  assumes "list_all (\<lambda>(k, v). list_all is_ascii_lowercase k \<and> v \<noteq> [] \<and> closed 0 v) ms" and ws: "set ws \<subseteq> {NL, CR, CHR '' '', CHR 0x09}"
  shows "scan_members (json_object ms @ ws) = Some ms"
proof -
  let ?p = "\<lambda>(k, v). CHR 0x22 # k @ CHR 0x22 # CHR '':'' # v"
  have t: "rev (dropWhile (\<lambda>c. c \<in> {NL, CR, CHR '' '', CHR 0x09}) (rev (json_object ms @ ws))) = json_object ms"
  proof -
    have "\<And>c. c \<in> set (rev ws) \<Longrightarrow> c \<in> {NL, CR, CHR '' '', CHR 0x09}" using ws by auto
    then show ?thesis by (simp only: rev_append dropWhile_append2) (simp add: json_object_def NL_def CR_def)
  qed
  have part: "scan_member (?p m) = m \<and> closed 0 (?p m)" if "m \<in> set ms" for m
  proof -
    obtain k v where m: "m = (k, v)" by fastforce
    with that assms(1) have "list_all is_ascii_lowercase k" and v: "closed 0 v" by (auto simp: list_all_iff)
    then have k: "list_all (\<lambda>c. c \<notin> {CHR ''['', CHR '']'', CHR '','', CHR 0x22}) k" by (intro lowercase_plain)
    then have "closed 0 k" by (intro closed_plain) (simp add: list_all_iff)
    moreover have "drop (length k + 3) (CHR 0x22 # k @ CHR 0x22 # CHR '':'' # v) = v" by (simp add: numeral_3_eq_3)
    ultimately show ?thesis using k v m
      by (simp add: scan_member_def takeWhile_append2 list_all_iff closed_append [where d = 0, simplified])
  qed
  then have c: "list_all (closed 0) (map ?p ms)" "map scan_member (map ?p ms) = ms"
    by (auto simp: list_all_iff map_idI)
  have "list_all (\<lambda>t. t \<noteq> []) (map ?p ms)" by (auto simp: list_all_iff)
  with c have "butlast (tl (json_object ms)) = join_with (CHR '','') (map ?p ms)"
    "join_with (CHR '','') (map ?p ms) = [] \<longleftrightarrow> ms = []"
    by (simp_all add: json_object_def butlast_append join_empty)
  with c show ?thesis unfolding scan_members_def t Let_def
    by (auto simp: split_join json_object_def)
qed

lemma enc_plain: "enc x \<noteq> []" "closed 0 (enc x)"
  by (auto simp: enc_chars(1) list_all_iff intro!: closed_plain dest: enc_chars(2))

lemma enc_line: "NL \<notin> set (enc x)" "CR \<notin> set (enc x)"
  by (auto simp: NL_def CR_def dest: enc_chars(2))

lemma ref_codec_ok: "codec_ok ref_codec"
  by (simp add: codec_ok_def ref_codec_def enc_line enc_chars(1))

lemma ref_json_ok: "json_ok ref_codec"
  by (simp add: json_ok_def ref_codec_def enc_plain comp_def scan_array scan_object)

section \<open>A node saves its first block\<close>

abbreviation J0 :: codec where "J0 \<equiv> ref_codec"

definition ex_env :: store_env where
  "ex_env = \<lparr>ev_now_nanos = 1700000000000000000, ev_now_secs = 1700000000, ev_pid = 7, ev_lock_age_secs = None,
     ev_process_exists = (\<lambda>_. False), ev_modified = (\<lambda>_. 0), ev_chain_file_stamp = (0, 0)\<rparr>"

definition ex_disk :: disk where
  "ex_disk = \<lparr>dk_data = fmempty, dk_fast = fmempty, dk_attempts = 0, dk_fails = (\<lambda>_. False)\<rparr>"

text \<open>The node saves its genesis block and then its first block; the second save fails from its 12th write on.\<close>

definition ex_first :: save_event where "ex_first = (ex_env, (\<lambda>_. False), ex_start)"
definition ex_second :: save_event where "ex_second = (ex_env, (\<lambda>_. False), ex_next)"
definition ex_torn :: save_event where "ex_torn = (ex_env, (\<lambda>n. 12 \<le> n), ex_next)"

lemma ex_events [simp]: "event_chain ex_first = ex_start" "event_chain ex_second = ex_next" "event_chain ex_torn = ex_next"
  "fst ex_first = ex_env" "fst ex_second = ex_env" "fst ex_torn = ex_env"
  "fst (snd ex_first) = (\<lambda>_. False)" "fst (snd ex_second) = (\<lambda>_. False)"
  by (simp_all add: event_chain_def ex_first_def ex_second_def ex_torn_def)

lemma ex_storable: "storable ref_extern ex_node_settings ex_start" "storable ref_extern ex_node_settings ex_next"
  using reachable_ok [OF ex_start_reachable] reachable_ok [OF ex_next_reachable]
  by (auto simp: storable_def node_ok_def ex_next_blocks) (simp add: ex_start_def)

lemma header_hash_time:
  assumes "header_hash ref_extern h = header_hash ref_extern k" and "32 \<le> length (serialize_header h)" "32 \<le> length (serialize_header k)"
  shows "hdr_time h = hdr_time k"
proof -
  let ?tail = "\<lambda>h. u32_le (hdr_time h) @ u32_le (hdr_bits h) @ u32_le (hdr_nonce h)"
  have len: "length (?tail h) = 12" for h by simp
  have "take 12 (rev (header_hash ref_extern h)) = rev (?tail h)" if "32 \<le> length (serialize_header h)" for h
  proof -
    have "rev (header_hash ref_extern h) = take 32 (rev (serialize_header h))"
      unfolding header_hash_def ref_double_sha256 [OF that] using that by (simp add: take_rev)
    moreover have "take 12 (rev (serialize_header h)) = rev (?tail h)" by (simp add: serialize_header_def)
    ultimately show ?thesis by (simp add: min_def)
  qed
  with assms have "?tail h = ?tail k" by (metis rev_rev_ident)
  then show ?thesis by simp
qed

lemma ex_hashes_differ: "block_hash ref_extern ex_genesis \<noteq> block_hash ref_extern ex_mined"
proof
  assume "block_hash ref_extern ex_genesis = block_hash ref_extern ex_mined"
  then have e: "header_hash ref_extern (blk_header ex_genesis) = header_hash ref_extern (blk_header ex_mined)"
    by (simp only: block_hash_def)
  have g: "hdr_time (blk_header ex_genesis) = 1710000000" "length (hdr_prev_block_hash (blk_header ex_genesis)) = 32"
    by (simp_all add: ex_genesis_def genesis_block_def ex_genesis_bits Let_def ex_consensus_def hash_zero_def)
  have m: "length (hdr_prev_block_hash (blk_header ex_mined)) = 32"
    unfolding ex_mined_header(3) by (rule length_block_hash [OF ref_extern_ok])
  have "32 \<le> length (serialize_header h)" if "length (hdr_prev_block_hash h) = 32" for h
    using that by (simp add: serialize_header_def)
  from header_hash_time [OF e this [OF g(2)] this [OF m]] show False
    unfolding g(1) ex_mined_header(4) by (simp add: ref_extern_def)
qed

lemma ex_no_collision:
  assumes "c \<in> {ex_start, ex_next}" and "c' \<in> {ex_start, ex_next}"
  shows "no_hash_collision ref_extern (cs_blocks c) (cs_blocks c')"
proof -
  have s: "cs_blocks ex_start = [ex_genesis]" by (simp add: ex_start_def)
  have "set (cs_blocks x) \<subseteq> {ex_genesis, ex_mined}" if "x \<in> {ex_start, ex_next}" for x
    using that by (elim insertE emptyE) (simp_all add: s ex_next_blocks)
  with assms ex_hashes_differ show ?thesis unfolding no_hash_collision_def by (metis empty_iff insert_iff subsetD)
qed

lemma ex_events_ok:
  assumes "set evs \<subseteq> {ex_first, ex_second, ex_torn}" and "length evs \<le> 2"
  shows "events_ok ref_extern ex_node_settings evs"
  unfolding events_ok_def
proof (intro conjI ballI)
  fix ev assume "ev \<in> set evs"
  with assms(1) have "ev \<in> {ex_first, ex_second, ex_torn}" by blast
  then have ev: "event_chain ev \<in> {ex_start, ex_next}" "fst ev = ex_env" by auto
  from ev(1) ex_storable show "storable ref_extern ex_node_settings (event_chain ev)" by auto
  show "unat (ev_now_nanos (fst ev)) + length evs + 2 < 2 ^ 64" using assms(2) ev(2) by (simp add: ex_env_def)
  fix ev' assume "ev' \<in> set evs"
  with assms(1) have "ev' \<in> {ex_first, ex_second, ex_torn}" by blast
  then have "event_chain ev' \<in> {ex_start, ex_next}" by auto
  with ev(1) show "no_hash_collision ref_extern (cs_blocks (event_chain ev)) (cs_blocks (event_chain ev'))"
    by (rule ex_no_collision)
qed

lemma ex_no_storage: "no_storage ex_disk" "\<not> fast_storage_exists ex_disk"
  by (simp_all add: no_storage_def fast_storage_exists_def fast_file_def ex_disk_def)

lemma ex_saved:
  obtains e where "save_on J0 ref_extern ex_node_settings ex_first ex_disk = (Inr (), e)" and "steady e"
    and "fast_file e fast_storage_lock_file = None"
proof -
  have "steady ex_disk" "lock_free ex_env ex_disk" by (simp_all add: steady_def lock_free_def fast_file_def ex_disk_def)
  from persist_first_succeeds [OF ref_codec_ok ex_storable(1) ex_no_storage(1) this] that show thesis
    by (auto simp: save_on_def ex_first_def ex_disk_def)
qed

lemma ex_work: "\<exists>w w'. chain_work_for_blocks (cs_blocks ex_start) = Inr w \<and> chain_work_for_blocks (cs_blocks ex_next) = Inr w' \<and> w < w'"
proof -
  have s: "cs_blocks ex_start = [ex_genesis]" by (simp add: ex_start_def)
  obtain w' where w': "chain_work_for_blocks ([ex_genesis] @ [ex_mined]) = Inr w'"
    using storable_work [OF ex_storable(2)] by (auto simp: ex_next_blocks)
  from chain_work_increases [OF this] s show ?thesis using w' by (auto simp: ex_next_blocks)
qed


lemma ex_saved_twice:
  obtains e1 e2 where "save_on J0 ref_extern ex_node_settings ex_first ex_disk = (Inr (), e1)"
    and "save_on J0 ref_extern ex_node_settings ex_second e1 = (Inr (), e2)"
proof -
  obtain e where e: "save_on J0 ref_extern ex_node_settings ex_first ex_disk = (Inr (), e)" and st: "steady e"
    and l: "fast_file e fast_storage_lock_file = None" by (rule ex_saved)
  have "events_ok ref_extern ex_node_settings ([] @ ex_first # [])" by (rule ex_events_ok) simp_all
  from returned_save_holds [OF ref_codec_ok this ex_no_storage(1)] e
  obtain p where p: "stored J0 ref_extern e fast_pointer_file p ex_start"
    "unat (ptr_generation p) \<le> clock_bound [ex_first] + 2" "unat (ptr_state_revision p) \<le> 2" by (auto simp: holds_def)
  have "e\<lparr>dk_fails := \<lambda>_. False\<rparr> = e" using st by (simp add: steady_def)
  moreover have "unat (ptr_generation p) + 1 < 2 ^ 64" "unat (ptr_state_revision p) + 1 < 2 ^ 64"
    using p(2,3) by (simp_all add: clock_bound_def)
  moreover from l have "lock_free ex_env e" by (simp add: lock_free_def)
  ultimately have "\<exists>e2. save_on J0 ref_extern ex_node_settings ex_second e = (Inr (), e2)"
    using persist_better_succeeds [OF ref_codec_ok ex_storable ex_no_collision p(1)] ex_work st
    by (auto simp: save_on_def ex_second_def)
  with e that show thesis by blast
qed

lemma better_chain_saved_witness:
  "\<exists>e i. save_on J0 ref_extern ex_node_settings ex_second (saves J0 ref_extern ex_node_settings [ex_first] ex_disk) = (Inr (), e) \<and>
    load_fast_chain J0 ref_extern ex_node_settings e True = Inr (ex_next, i)"
proof -
  obtain e where e: "save_on J0 ref_extern ex_node_settings ex_first ex_disk = (Inr (), e)"
    and l: "fast_file e fast_storage_lock_file = None" by (rule ex_saved)
  have ok: "events_ok ref_extern ex_node_settings ([ex_first] @ [ex_second])" by (rule ex_events_ok) simp_all
  have "events_ok ref_extern ex_node_settings ([] @ ex_first # [])" by (rule ex_events_ok) simp_all
  from returned_save_holds [OF ref_codec_ok this ex_no_storage(1)] e
  obtain p where p: "stored J0 ref_extern e fast_pointer_file p ex_start" by (auto simp: holds_def)
  have "\<exists>e' i. save_on J0 ref_extern ex_node_settings ex_second (saves J0 ref_extern ex_node_settings [ex_first] ex_disk) = (Inr (), e') \<and>
    load_fast_chain J0 ref_extern ex_node_settings e' True = Inr (event_chain ex_second, i)"
    by (rule better_chain_saved [OF ref_codec_ok ok ex_no_storage(2)])
      (use e l ex_work in \<open>auto simp: lock_free_def stored_loads [OF p ex_storable(1) ref_codec_ok]\<close>)
  then show ?thesis by simp
qed

lemma previous_commit_recovered_witness:
  "\<exists>e i. load_fast_chain J0 ref_extern ex_node_settings (drop_fast fast_pointer_file e) True = Inr (ex_start, i)"
proof -
  obtain d1 d2 where s: "save_on J0 ref_extern ex_node_settings ex_first ex_disk = (Inr (), d1)"
    "save_on J0 ref_extern ex_node_settings ex_second d1 = (Inr (), d2)" by (rule ex_saved_twice)
  have ok: "events_ok ref_extern ex_node_settings ([ex_first] @ ex_second # [])" by (rule ex_events_ok) simp_all
  from returned_save_holds [OF ref_codec_ok ok ex_no_storage(1)] s
  obtain p where p: "stored J0 ref_extern d2 fast_pointer_file p ex_next" by (auto simp: holds_def)
  have lost: "load_fast_chain_from_pointer_path J0 ref_extern ex_node_settings (drop_fast fast_pointer_file d2) True fast_pointer_file =
      Inl (StorageErr SOpen)" by (simp add: load_fast_chain_from_pointer_path_def read_pointer_path_def ok_or_def)
  have "\<exists>i. load_fast_chain J0 ref_extern ex_node_settings (drop_fast fast_pointer_file d2) True = Inr (event_chain ex_first, i)"
    using previous_commit_recovered [where earlier = "[]", simplified, OF ref_codec_ok _ ex_no_storage(2) s
        stored_pointer [OF p ex_storable(2) ref_codec_ok] _ lost] ok by auto
  then show ?thesis by auto
qed

lemma exported_chain_imports_witness:
  "\<exists>e. rbind (read_chain_json J0 e) (from_persisted ref_extern ex_node_settings) = Inr ex_start"
proof -
  obtain e where e: "save_on J0 ref_extern ex_node_settings ex_first ex_disk = (Inr (), e)" and st: "steady e" by (rule ex_saved)
  have ok: "events_ok ref_extern ex_node_settings ([] @ [ex_first])" by (rule ex_events_ok) simp_all
  have "events_ok ref_extern ex_node_settings ([] @ ex_first # [])" by (rule ex_events_ok) simp_all
  from returned_save_holds [OF ref_codec_ok this ex_no_storage(1)] e
  obtain p where p: "stored J0 ref_extern e fast_pointer_file p ex_start" by (auto simp: holds_def)
  from runsD [OF runs_export [OF ex_storable(1) ref_codec_ok] p st]
  obtain r e' where "export_chain_json_to J0 ref_extern ex_node_settings chain_file e = (Inr r, e')" by blast
  from exported_chain_imports [OF ref_codec_ok ref_json_ok ok ex_no_storage(2) _ this] e show ?thesis by auto
qed

end
