(* ===== verification/LivePublish.thy ===== *)
theory LivePublish
  imports FastProgress
begin

text \<open>
  The live owner of the chain in a running node and what is published to it
  (\<open>src/fast_storage.rs\<close>), and the functions of \<open>src/lib.rs\<close> that save a chain and then publish it.
  A \<open>live_node\<close> is one data directory: its disk, the chain state behind the mutex of the embedded
  node (if one is registered), whether that mutex is held, and the candidate that waits for it.
\<close>

section \<open>Publishing\<close>

text \<open>\<open>total_work_value(..).ok()\<close>, and the comparison both publishers use.\<close>

definition more_work :: "codec \<Rightarrow> chain_state \<Rightarrow> chain_state \<Rightarrow> bool" where
  "more_work J candidate current =
     (case (to_option (total_work_value J candidate), to_option (total_work_value J current)) of
        (Some candidate_work, Some current_work) \<Rightarrow> candidate_work > current_work
      | _ \<Rightarrow> chain_height candidate > chain_height current)"

definition apply_live_candidate_locked ::
  "codec \<Rightarrow> extern \<Rightarrow> settings \<Rightarrow> chain_state \<Rightarrow> chain_state \<Rightarrow> chain_state" where
  "apply_live_candidate_locked J X S current candidate =
     (if tip_hash X current = tip_hash X candidate then
        (if mempool_txids X candidate \<subseteq> mempool_txids X current then current
         else snd (rebuild_mempool_from X S (reorg_mempool_candidates_for X current candidate) current))
      else if more_work J candidate current then candidate else current)"

definition merge_deferred_candidate ::
  "codec \<Rightarrow> extern \<Rightarrow> settings \<Rightarrow> chain_state \<Rightarrow> chain_state \<Rightarrow> chain_state" where
  "merge_deferred_candidate J X S existing candidate =
     (if tip_hash X existing = tip_hash X candidate then apply_live_candidate_locked J X S existing candidate
      else if more_work J candidate existing then candidate else existing)"

record live_node =
  ln_disk :: disk
  ln_live :: "chain_state option"
  ln_locked :: bool
  ln_pending :: "chain_state option"

definition publish_live_chain :: "codec \<Rightarrow> extern \<Rightarrow> settings \<Rightarrow> chain_state \<Rightarrow> live_node \<Rightarrow> live_node" where
  "publish_live_chain J X S candidate n =
     (case ln_live n of
        None \<Rightarrow> n
      | Some current \<Rightarrow>
          if \<not> ln_locked n then n\<lparr>ln_live := Some (apply_live_candidate_locked J X S current candidate)\<rparr>
          else n\<lparr>ln_pending := Some (case ln_pending n of
              Some existing \<Rightarrow> merge_deferred_candidate J X S existing candidate | None \<Rightarrow> candidate)\<rparr>)"

text \<open>One turn of the worker: it takes the waiting candidate, waits for the mutex and applies it.\<close>

definition deferred_turn :: "codec \<Rightarrow> extern \<Rightarrow> settings \<Rightarrow> live_node \<Rightarrow> live_node" where
  "deferred_turn J X S n =
     (case ln_pending n of
        None \<Rightarrow> n
      | Some candidate \<Rightarrow>
          (case ln_live n of
             None \<Rightarrow> n\<lparr>ln_pending := None\<rparr>
           | Some current \<Rightarrow>
               n\<lparr>ln_pending := None, ln_live := Some (apply_live_candidate_locked J X S current candidate)\<rparr>))"

definition publish_live_chain_verified_equal_work_reanchor ::
  "codec \<Rightarrow> extern \<Rightarrow> settings \<Rightarrow> chain_state \<Rightarrow> (live_node, unit) se" where
  "publish_live_chain_verified_equal_work_reanchor J X S candidate = (\<lambda>n.
     case ln_live n of
       None \<Rightarrow> (Inr (), n)
     | Some current \<Rightarrow>
         if tip_hash X current = tip_hash X candidate
         then (Inr (), n\<lparr>ln_live := Some (apply_live_candidate_locked J X S current candidate)\<rparr>)
         else
           (case total_work_value J candidate of Inl e \<Rightarrow> (Inl e, n) | Inr candidate_work \<Rightarrow>
           (case total_work_value J current of Inl e \<Rightarrow> (Inl e, n) | Inr current_work \<Rightarrow>
             if current_work > candidate_work
                \<or> current_work = candidate_work \<and> chain_height current > chain_height candidate
             then (Inr (), n)
             else if candidate_work > current_work
                \<or> candidate_work = current_work \<and> chain_height candidate > chain_height current
             then (Inr (), n\<lparr>ln_live := Some candidate\<rparr>)
             else if \<not> (net_name (network S) = ''mainnet'' \<and> candidate_work = current_work
                \<and> chain_height candidate = chain_height current \<and> tip_hash X candidate \<noteq> tip_hash X current)
             then (Inl (StorageErr SLiveReanchorRejected), n)
             else (Inr (), n\<lparr>ln_live := Some candidate\<rparr>))))"

section \<open>Saving and publishing\<close>

definition on_disk :: "(disk, 'a) se \<Rightarrow> (live_node, 'a) se" where
  "on_disk m = (\<lambda>n. case m (ln_disk n) of (r, d) \<Rightarrow> (r, n\<lparr>ln_disk := d\<rparr>))"

definition save_chain :: "codec \<Rightarrow> extern \<Rightarrow> settings \<Rightarrow> store_env \<Rightarrow> chain_state \<Rightarrow> (live_node, unit) se" where
  "save_chain J X S E c =
     se_then (on_disk (persist_chain J X S E c)) (se_modify (publish_live_chain J X S c))"

definition save_chain_verified_equal_work_reanchor ::
  "codec \<Rightarrow> extern \<Rightarrow> settings \<Rightarrow> store_env \<Rightarrow> chain_state \<Rightarrow> (live_node, unit) se" where
  "save_chain_verified_equal_work_reanchor J X S E c =
     se_then (on_disk (persist_chain_verified_equal_work_reanchor J X S E c))
       (publish_live_chain_verified_equal_work_reanchor J X S c)"

text \<open>The chain state of the caller after the call, and the hash of the block.\<close>

definition connect_block_persist_atomic ::
  "codec \<Rightarrow> extern \<Rightarrow> settings \<Rightarrow> store_env \<Rightarrow> block \<Rightarrow> chain_state \<Rightarrow> (live_node, hash256 \<times> chain_state) se" where
  "connect_block_persist_atomic J X S E b c =
     se_bind (se_need (\<lambda>_. connect_block X S b c)) (\<lambda>(h, candidate).
     se_then (save_chain J X S E candidate) (se_return (h, candidate)))"

section \<open>What publishing keeps\<close>

lemma total_work_value_ok:
  assumes "codec_ok J"
  shows "total_work_value J c = chain_work_for_blocks (cs_blocks c)"
  by (cases "chain_work_for_blocks (cs_blocks c)")
    (simp_all add: total_work_value_def total_work_hex_def parse_work_def codec_okD [OF assms] ok_or_def)

lemma more_work_iff:
  assumes "codec_ok J" and "chain_work_for_blocks (cs_blocks c) = Inr w" and "chain_work_for_blocks (cs_blocks c') = Inr w'"
  shows "more_work J c c' \<longleftrightarrow> w > w'"
  using assms by (simp add: more_work_def total_work_value_ok to_option_def)

lemma same_base_work: "same_base c d \<Longrightarrow> cs_blocks d = cs_blocks c"
  by (simp add: same_base_def)

lemma apply_live_kept:
  assumes "codec_ok J" and "node_ok X S current" and "node_ok X S candidate"
  shows "node_ok X S (apply_live_candidate_locked J X S current candidate)"
    and "work_kept current (apply_live_candidate_locked J X S current candidate)"
    and "tip_hash X current \<noteq> tip_hash X candidate \<Longrightarrow> work_kept candidate (apply_live_candidate_locked J X S current candidate)"
    and "apply_live_candidate_locked J X S current candidate = candidate \<or>
      cs_blocks (apply_live_candidate_locked J X S current candidate) = cs_blocks current"
proof -
  let ?a = "apply_live_candidate_locked J X S current candidate"
  obtain w w' where w: "chain_work_for_blocks (cs_blocks current) = Inr w" "chain_work_for_blocks (cs_blocks candidate) = Inr w'"
    using assms(2,3) valid_chain_work unfolding node_ok_def chain_ok_def by blast
  obtain n d where r: "rebuild_mempool_from X S (reorg_mempool_candidates_for X current candidate) current = (n, d)"
    by (cases "rebuild_mempool_from X S (reorg_mempool_candidates_for X current candidate) current")
  from rebuild_mempool_ok [OF r] assms(2) have d: "node_ok X S d" "cs_blocks d = cs_blocks current"
    by (auto simp: node_ok_def same_base_def intro: chain_ok_base)
  show "node_ok X S ?a" using assms(2,3) d r by (simp add: apply_live_candidate_locked_def)
  show "work_kept current ?a" using w d r more_work_iff [OF assms(1) w(2,1)]
    by (simp add: apply_live_candidate_locked_def work_kept_def)
  show "tip_hash X current \<noteq> tip_hash X candidate \<Longrightarrow> work_kept candidate ?a"
    using w more_work_iff [OF assms(1) w(2,1)] by (simp add: apply_live_candidate_locked_def work_kept_def)
  show "?a = candidate \<or> cs_blocks ?a = cs_blocks current" using d r by (simp add: apply_live_candidate_locked_def)
qed

end
