(* ===== verification/LiveWorker.thy ===== *)
theory LiveWorker
  imports LivePublish
begin

text \<open>
  The threads behind \<open>publish_live_chain\<close> (\<open>src/fast_storage.rs\<close>): any number of publishers, the
  owner of the live chain, and the detached worker that applies the candidates that found the mutex
  taken. Every access to one of the three shared objects (the live chain, the map of waiting
  candidates, the set of registered workers) is one step; steps of different threads interleave in any way.
  The owner takes the mutex of the live chain, makes its node steps and releases it (\<open>pb_held\<close>); meanwhile
  a worker with a candidate to apply waits.
  \<open>pb_spawning\<close> counts the calls of \<open>spawn_deferred_live_worker\<close> that have yet to look at the set
  of workers, \<open>pb_checking\<close> the workers that have left it and have yet to look for another candidate.
\<close>

datatype worker_at = Taking | Applying chain_state | Leaving

record publisher =
  pb_live :: chain_state
  pb_held :: bool
  pb_pending :: "chain_state option"
  pb_worker :: "worker_at option"
  pb_spawning :: nat
  pb_checking :: nat

text \<open>The steps of the background threads.\<close>

inductive worker_step :: "codec \<Rightarrow> extern \<Rightarrow> settings \<Rightarrow> publisher \<Rightarrow> publisher \<Rightarrow> bool" for J X S where
  spawn: "pb_spawning s = Suc n \<Longrightarrow>
    worker_step J X S s (s\<lparr>pb_spawning := n, pb_worker := (case pb_worker s of None \<Rightarrow> Some Taking | Some w \<Rightarrow> Some w)\<rparr>)"
| takes: "pb_worker s = Some Taking \<Longrightarrow> pb_pending s = Some c \<Longrightarrow>
    worker_step J X S s (s\<lparr>pb_pending := None, pb_worker := Some (Applying c)\<rparr>)"
| none_waiting: "pb_worker s = Some Taking \<Longrightarrow> pb_pending s = None \<Longrightarrow> worker_step J X S s (s\<lparr>pb_worker := Some Leaving\<rparr>)"
| applies: "pb_worker s = Some (Applying c) \<Longrightarrow> \<not> pb_held s \<Longrightarrow>
    worker_step J X S s (s\<lparr>pb_live := apply_live_candidate_locked J X S (pb_live s) c, pb_worker := Some Taking\<rparr>)"
| leaves: "pb_worker s = Some Leaving \<Longrightarrow>
    worker_step J X S s (s\<lparr>pb_worker := None, pb_checking := pb_checking s + 1\<rparr>)"
| looks_again: "pb_checking s = Suc n \<Longrightarrow>
    worker_step J X S s (s\<lparr>pb_checking := n, pb_spawning := (if pb_pending s \<noteq> None then pb_spawning s + 1 else pb_spawning s)\<rparr>)"

text \<open>A publisher that finds the mutex free, or taken.\<close>

definition publish_free :: "codec \<Rightarrow> extern \<Rightarrow> settings \<Rightarrow> chain_state \<Rightarrow> publisher \<Rightarrow> publisher" where
  "publish_free J X S c s = s\<lparr>pb_live := apply_live_candidate_locked J X S (pb_live s) c\<rparr>"

definition publish_busy :: "codec \<Rightarrow> extern \<Rightarrow> settings \<Rightarrow> chain_state \<Rightarrow> publisher \<Rightarrow> publisher" where
  "publish_busy J X S c s =
     s\<lparr>pb_pending := Some (case pb_pending s of Some e \<Rightarrow> merge_deferred_candidate J X S e c | None \<Rightarrow> c),
       pb_spawning := pb_spawning s + 1\<rparr>"

text \<open>
  The states a node gets into, with the candidates published so far. Chains are those of valid node
  states whose blocks are in \<open>T\<close>.
\<close>

inductive published ::
  "codec \<Rightarrow> extern \<Rightarrow> settings \<Rightarrow> block list set \<Rightarrow> chain_state list \<Rightarrow> publisher \<Rightarrow> bool" for J X S T where
  start: "node_ok X S c \<Longrightarrow> cs_blocks c \<in> T \<Longrightarrow>
    published J X S T [] \<lparr>pb_live = c, pb_held = False, pb_pending = None, pb_worker = None, pb_spawning = 0, pb_checking = 0\<rparr>"
| free: "published J X S T cs s \<Longrightarrow> \<not> pb_held s \<Longrightarrow> node_ok X S c \<Longrightarrow> cs_blocks c \<in> T \<Longrightarrow> published J X S T (c # cs) (publish_free J X S c s)"
| busy: "published J X S T cs s \<Longrightarrow> node_ok X S c \<Longrightarrow> cs_blocks c \<in> T \<Longrightarrow> published J X S T (c # cs) (publish_busy J X S c s)"
| worker: "published J X S T cs s \<Longrightarrow> worker_step J X S s t \<Longrightarrow> published J X S T cs t"
| lock: "published J X S T cs s \<Longrightarrow> \<not> pb_held s \<Longrightarrow> published J X S T cs (s\<lparr>pb_held := True\<rparr>)"
| owner: "published J X S T cs s \<Longrightarrow> pb_held s \<Longrightarrow> node_step X S (pb_live s) c \<Longrightarrow> cs_blocks c \<in> T \<Longrightarrow>
    published J X S T cs (s\<lparr>pb_live := c\<rparr>)"
| unlock: "published J X S T cs s \<Longrightarrow> pb_held s \<Longrightarrow> published J X S T cs (s\<lparr>pb_held := False\<rparr>)"

inductive_cases worker_stepE: "worker_step J X S s t"

section \<open>The background threads stop\<close>

fun worker_weight :: "bool \<Rightarrow> worker_at option \<Rightarrow> nat" where
  "worker_weight waiting None = 0"
| "worker_weight waiting (Some Taking) = (if waiting then 1 else 3)"
| "worker_weight waiting (Some (Applying c)) = 4"
| "worker_weight waiting (Some Leaving) = (if waiting then 4 else 2)"

text \<open>With a candidate waiting, a leaving worker comes back to take it; with none, it goes.\<close>

definition thread_weight :: "publisher \<Rightarrow> nat" where
  "thread_weight s = (let waiting = pb_pending s \<noteq> None in
     worker_weight waiting (pb_worker s) + (if waiting then 2 else 4) * pb_spawning s + (if waiting then 3 else 1) * pb_checking s)"

definition waiting_weight :: "publisher \<Rightarrow> nat" where
  "waiting_weight s = (if pb_pending s = None then 0 else 1)"

lemma worker_step_decreases: "worker_step J X S s t \<Longrightarrow> (t, s) \<in> measures [waiting_weight, thread_weight]"
  by (erule worker_stepE) (auto simp: waiting_weight_def thread_weight_def Let_def split: option.split)

definition no_threads :: "publisher \<Rightarrow> bool" where
  "no_threads s \<longleftrightarrow> pb_worker s = None \<and> pb_spawning s = 0 \<and> pb_checking s = 0"

lemma worker_step_enabled:
  assumes "\<not> no_threads s" and "\<not> pb_held s"
  shows "\<exists>t. worker_step J X S s t"
proof -
  from assms(1)
  consider n where "pb_spawning s = Suc n" | n where "pb_checking s = Suc n" | w where "pb_worker s = Some w"
    unfolding no_threads_def by (metis not0_implies_Suc option.exhaust)
  then show ?thesis
  proof cases
    case 3
    show ?thesis
    proof (cases w)
      case Taking
      with 3 show ?thesis by (cases "pb_pending s") (auto intro: worker_step.intros)
    next
      case (Applying c)
      with 3 have "pb_worker s = Some (Applying c)" by simp
      from worker_step.applies [OF this assms(2)] show ?thesis by (rule exI)
    next
      case Leaving
      with 3 show ?thesis by (auto intro: worker_step.intros)
    qed
  qed (auto intro: worker_step.intros)
qed

section \<open>No candidate is lost\<close>

definition holds_work :: "chain_state \<Rightarrow> publisher \<Rightarrow> bool" where
  "holds_work c s \<longleftrightarrow> work_kept c (pb_live s) \<or> (\<exists>p. pb_pending s = Some p \<and> work_kept c p) \<or>
     (\<exists>a. pb_worker s = Some (Applying a) \<and> work_kept c a)"

definition in_play :: "extern \<Rightarrow> settings \<Rightarrow> block list set \<Rightarrow> chain_state \<Rightarrow> bool" where
  "in_play X S T c \<longleftrightarrow> node_ok X S c \<and> cs_blocks c \<in> T"

definition publisher_ok ::
  "extern \<Rightarrow> settings \<Rightarrow> block list set \<Rightarrow> chain_state list \<Rightarrow> publisher \<Rightarrow> bool" where
  "publisher_ok X S T cs s \<longleftrightarrow>
     in_play X S T (pb_live s) \<and> (\<forall>p. pb_pending s = Some p \<longrightarrow> in_play X S T p) \<and>
     (\<forall>a. pb_worker s = Some (Applying a) \<longrightarrow> in_play X S T a) \<and>
     (pb_pending s = None \<or> \<not> no_threads s) \<and> (\<forall>c \<in> set cs. holds_work c s)"

text \<open>Two chains in play with the same tip hash are the same chain.\<close>

definition tips_identify :: "extern \<Rightarrow> block list set \<Rightarrow> bool" where
  "tips_identify X T \<longleftrightarrow> inj_on (\<lambda>bs. block_hash X (last bs)) T"

lemma in_play_work: "in_play X S T c \<Longrightarrow> work_kept c c"
  by (auto simp: in_play_def node_ok_def chain_ok_def work_kept_def dest: valid_chain_work)

lemma in_play_tip:
  assumes "tips_identify X T" and "in_play X S T c" and "in_play X S T d" and "tip_hash X c = tip_hash X d"
  shows "work_kept c d"
proof -
  have "cs_blocks c \<noteq> []" "cs_blocks d \<noteq> []"
    using assms(2,3) valid_chain_nonempty by (auto simp: in_play_def node_ok_def chain_ok_def)
  with assms have "cs_blocks c = cs_blocks d"
    by (auto simp: tips_identify_def in_play_def tip_hash_def dest: inj_onD)
  then show ?thesis using in_play_work [OF assms(3)] by (simp add: work_kept_def)
qed

lemma apply_in_play:
  assumes "codec_ok J" and "tips_identify X T" and "in_play X S T c" and "in_play X S T d"
  shows "in_play X S T (apply_live_candidate_locked J X S c d)"
    and "work_kept c (apply_live_candidate_locked J X S c d)" and "work_kept d (apply_live_candidate_locked J X S c d)"
proof -
  have ok: "node_ok X S c" "node_ok X S d" using assms(3,4) by (simp_all add: in_play_def)
  note a = apply_live_kept [OF assms(1) ok]
  show p: "in_play X S T (apply_live_candidate_locked J X S c d)"
    using a(1,4) assms(3,4) unfolding in_play_def by metis
  show c: "work_kept c (apply_live_candidate_locked J X S c d)" by (rule a(2))
  show "work_kept d (apply_live_candidate_locked J X S c d)"
    using a(3) work_kept_trans [OF in_play_tip [OF assms(2,4,3)] c] by metis
qed

lemma merge_is_apply: "merge_deferred_candidate J X S c d = apply_live_candidate_locked J X S c d"
  by (simp add: merge_deferred_candidate_def apply_live_candidate_locked_def)

lemma holds_later:
  assumes "holds_work c s"
    and "work_kept (pb_live s) (pb_live t)"
    and "\<And>p. pb_pending s = Some p \<Longrightarrow> holds_work p t"
    and "\<And>a. pb_worker s = Some (Applying a) \<Longrightarrow> holds_work a t"
  shows "holds_work c t"
  using assms unfolding holds_work_def by (metis work_kept_trans)

lemma worker_step_keeps:
  assumes "worker_step J X S s t" and "codec_ok J" and "tips_identify X T" and "publisher_ok X S T cs s"
  shows "publisher_ok X S T cs t"
proof -
  note ok = assms(4) [unfolded publisher_ok_def]
  have self: "in_play X S T (pb_live s)" "\<And>p. pb_pending s = Some p \<Longrightarrow> in_play X S T p"
    "\<And>a. pb_worker s = Some (Applying a) \<Longrightarrow> in_play X S T a" using ok by auto
  note w = self [THEN in_play_work]
  show ?thesis using assms(1)
  proof cases
    case (applies c)
    note a = apply_in_play [OF assms(2,3) self(1) self(3) [OF applies(2)]]
    have "holds_work d t" if "d \<in> set cs" for d
      by (rule holds_later [where s = s]) (use that ok applies a w in \<open>auto simp: holds_work_def\<close>)
    then show ?thesis using ok applies a by (auto simp: publisher_ok_def no_threads_def)
  next
    case (takes c)
    have "holds_work d t" if "d \<in> set cs" for d
      by (rule holds_later [where s = s]) (use that ok takes w in \<open>auto simp: holds_work_def\<close>)
    then show ?thesis using ok takes by (auto simp: publisher_ok_def no_threads_def)
  qed (use ok in \<open>auto simp: publisher_ok_def holds_work_def no_threads_def split: option.split\<close>)
qed

lemma publish_free_keeps:
  assumes "codec_ok J" and "tips_identify X T" and "publisher_ok X S T cs s" and c: "in_play X S T c"
  shows "publisher_ok X S T (c # cs) (publish_free J X S c s)"
proof -
  note ok = assms(3) [unfolded publisher_ok_def]
  have self: "in_play X S T (pb_live s)" using ok by auto
  note a = apply_in_play [OF assms(1,2) self c]
  have "holds_work d (publish_free J X S c s)" if "holds_work d s" for d
    by (rule holds_later [OF that]) (use ok a in_play_work in \<open>auto simp: publish_free_def holds_work_def\<close>)
  with ok a show ?thesis by (auto simp: publisher_ok_def publish_free_def no_threads_def holds_work_def)
qed

lemma mutex_keeps: "publisher_ok X S T cs s \<Longrightarrow> publisher_ok X S T cs (s\<lparr>pb_held := h\<rparr>)"
  by (simp add: publisher_ok_def holds_work_def no_threads_def)

lemma publish_busy_keeps:
  assumes "codec_ok J" and "tips_identify X T" and "publisher_ok X S T cs s" and c: "in_play X S T c"
  shows "publisher_ok X S T (c # cs) (publish_busy J X S c s)"
proof -
  let ?t = "publish_busy J X S c s"
  note ok = assms(3) [unfolded publisher_ok_def]
  obtain m where m: "pb_pending ?t = Some m" "in_play X S T m" "work_kept c m"
    "\<And>p. pb_pending s = Some p \<Longrightarrow> work_kept p m"
    using ok apply_in_play [OF assms(1,2) _ c] c in_play_work [OF c]
    by (cases "pb_pending s") (auto simp: publish_busy_def merge_is_apply)
  have s: "pb_live ?t = pb_live s" "pb_worker ?t = pb_worker s" "pb_spawning ?t = Suc (pb_spawning s)"
    by (simp_all add: publish_busy_def)
  have "holds_work d ?t" if "holds_work d s" for d
  proof (rule holds_later [OF that])
    show "work_kept (pb_live s) (pb_live ?t)" using ok s(1) in_play_work by metis
    show "holds_work p ?t" if "pb_pending s = Some p" for p using m(1) m(4) [OF that] by (simp add: holds_work_def)
    show "holds_work a ?t" if "pb_worker s = Some (Applying a)" for a
      using ok that s(2) in_play_work unfolding holds_work_def by metis
  qed
  moreover have "holds_work c ?t" using m(1,3) by (simp add: holds_work_def)
  moreover have "\<not> no_threads ?t" using s(3) by (simp add: no_threads_def)
  ultimately show ?thesis using ok unfolding publisher_ok_def s(1,2) m(1) by (simp add: m(2))
qed

lemma owner_step_keeps:
  assumes ok: "publisher_ok X S T cs s" and step: "node_step X S (pb_live s) c" and c: "cs_blocks c \<in> T"
  shows "publisher_ok X S T cs (s\<lparr>pb_live := c\<rparr>)"
proof -
  let ?t = "s\<lparr>pb_live := c\<rparr>"
  note o = ok [unfolded publisher_ok_def]
  have n: "node_ok X S (pb_live s)" using o unfolding in_play_def by blast
  have k: "work_kept (pb_live s) c" using node_step_work [OF step n] by (simp add: work_kept_def)
  have "holds_work d ?t" if "holds_work d s" for d
  proof (rule holds_later [OF that])
    show "work_kept (pb_live s) (pb_live ?t)" using k by simp
    show "holds_work p ?t" if "pb_pending s = Some p" for p
      using o that in_play_work unfolding holds_work_def by fastforce
    show "holds_work a ?t" if "pb_worker s = Some (Applying a)" for a
      using o that in_play_work unfolding holds_work_def by fastforce
  qed
  moreover have "in_play X S T c" using node_step_ok [OF step n] c by (simp add: in_play_def)
  moreover have "no_threads ?t \<longleftrightarrow> no_threads s" by (simp add: no_threads_def)
  ultimately show ?thesis using o unfolding publisher_ok_def by simp
qed

lemma published_ok:
  assumes "published J X S T cs s" and J: "codec_ok J" and T: "tips_identify X T"
  shows "publisher_ok X S T cs s"
  using assms(1)
proof (induction rule: published.induct)
  case (start c)
  then show ?case by (simp add: publisher_ok_def in_play_def)
next
  case (free cs s c)
  show ?case by (rule publish_free_keeps [OF J T free(5)]) (simp add: in_play_def free)
next
  case (busy cs s c)
  show ?case by (rule publish_busy_keeps [OF J T busy(4)]) (simp add: in_play_def busy)
next
  case (worker cs s t)
  show ?case by (rule worker_step_keeps [OF worker(2) J T worker(3)])
next
  case (owner cs s c)
  show ?case by (rule owner_step_keeps [OF owner(5,3,4)])
qed (rule mutex_keeps, assumption)+

section \<open>The properties\<close>

text \<open>
  C13: However publishers, the owner and the background worker interleave, the background threads stop
  after finitely many steps of their own; while one of them is left some thread can take a step, at the
  latest when the owner has released the mutex; and when none
  is left no candidate waits, and the live chain of the owner has at least the work of every chain
  that was published to it, also of those that found the mutex taken.
\<close>
theorem deferred_candidates_reach_owner:
  assumes "codec_ok J" and "tips_identify X T" and "published J X S T cs s"
  shows "wfp (\<lambda>t s. worker_step J X S s t) \<and> (no_threads s \<or> (\<exists>t. worker_step J X S s t) \<or>
      pb_held s \<and> (\<exists>t. worker_step J X S (s\<lparr>pb_held := False\<rparr>) t)) \<and>
    (no_threads s \<longrightarrow> pb_pending s = None \<and> (\<forall>c \<in> set cs. work_kept c (pb_live s)))"
proof (intro conjI)
  have "{(t, s). worker_step J X S s t} \<subseteq> measures [waiting_weight, thread_weight]"
    using worker_step_decreases by blast
  then show "wfp (\<lambda>t s. worker_step J X S s t)"
    unfolding wfp_def by (rule wf_subset [OF wf_measures])
  have "\<not> no_threads (s\<lparr>pb_held := False\<rparr>)" if "\<not> no_threads s" using that by (simp add: no_threads_def)
  then show "no_threads s \<or> (\<exists>t. worker_step J X S s t) \<or> pb_held s \<and> (\<exists>t. worker_step J X S (s\<lparr>pb_held := False\<rparr>) t)"
    using worker_step_enabled [of s] worker_step_enabled [of "s\<lparr>pb_held := False\<rparr>"] by fastforce
  show "no_threads s \<longrightarrow> pb_pending s = None \<and> (\<forall>c \<in> set cs. work_kept c (pb_live s))"
    using published_ok [OF assms(3,1,2)] by (auto simp: publisher_ok_def no_threads_def holds_work_def)
qed

end
