(* ===== verification/LiveExample.thy ===== *)
theory LiveExample
  imports FastExample LiveWorker
begin

text \<open>
  A run of the publisher of \<^theory_text>\<open>LiveWorker\<close> on the chains of \<^theory_text>\<open>NodeExample\<close>: a block is published
  while the owner holds its mutex, and the background worker brings it to the owner.
\<close>

definition ex_chains :: "block list set" where "ex_chains = {cs_blocks ex_start, cs_blocks ex_next}"

lemma ex_tips: "tips_identify ref_extern ex_chains"
proof -
  have s: "cs_blocks ex_start = [ex_genesis]" by (simp add: ex_start_def)
  show ?thesis using ex_hashes_differ
    by (auto simp: tips_identify_def ex_chains_def inj_on_def s ex_next_blocks)
qed

lemma ex_nodes_ok: "node_ok ref_extern ex_node_settings ex_start" "node_ok ref_extern ex_node_settings ex_next"
  using reachable_ok [OF ex_start_reachable] reachable_ok [OF ex_next_reachable] by simp_all

definition ex_live :: chain_state where
  "ex_live = apply_live_candidate_locked J0 ref_extern ex_node_settings ex_start ex_next"

definition ex_pb :: "bool \<Rightarrow> chain_state \<Rightarrow> chain_state option \<Rightarrow> worker_at option \<Rightarrow> nat \<Rightarrow> nat \<Rightarrow> publisher" where
  "ex_pb h l p w n m = \<lparr>pb_live = l, pb_held = h, pb_pending = p, pb_worker = w, pb_spawning = n, pb_checking = m\<rparr>"

lemma ex_published:
  defines "P \<equiv> published J0 ref_extern ex_node_settings ex_chains [ex_next]"
  shows "P (ex_pb True ex_start None (Some (Applying ex_next)) 0 0)" and "P (ex_pb False ex_live None None 0 0)"
proof -
  note step = published.worker [where J = J0 and X = ref_extern and S = ex_node_settings and T = ex_chains]
  note steps = worker_step.intros [where J = J0 and X = ref_extern and S = ex_node_settings]
  have "published J0 ref_extern ex_node_settings ex_chains [] (ex_pb False ex_start None None 0 0)"
    unfolding ex_pb_def by (rule published.start) (simp_all add: ex_nodes_ok ex_chains_def)
  from published.lock [OF this] have "published J0 ref_extern ex_node_settings ex_chains [] (ex_pb True ex_start None None 0 0)"
    by (simp add: ex_pb_def)
  from published.busy [OF this ex_nodes_ok(2)] have "P (ex_pb True ex_start (Some ex_next) None 1 0)"
    by (simp add: P_def publish_busy_def ex_pb_def ex_chains_def)
  from step [OF this [unfolded P_def] steps(1)] have "P (ex_pb True ex_start (Some ex_next) (Some Taking) 0 0)"
    by (simp add: P_def ex_pb_def)
  from step [OF this [unfolded P_def] steps(2)] show p: "P (ex_pb True ex_start None (Some (Applying ex_next)) 0 0)"
    by (simp add: P_def ex_pb_def)
  from published.unlock [OF p [unfolded P_def]] have "P (ex_pb False ex_start None (Some (Applying ex_next)) 0 0)"
    by (simp add: P_def ex_pb_def)
  from step [OF this [unfolded P_def] steps(4)] have "P (ex_pb False ex_live None (Some Taking) 0 0)"
    by (simp add: P_def ex_pb_def ex_live_def)
  from step [OF this [unfolded P_def] steps(3)] have "P (ex_pb False ex_live None (Some Leaving) 0 0)"
    by (simp add: P_def ex_pb_def)
  from step [OF this [unfolded P_def] steps(5)] have "P (ex_pb False ex_live None None 0 1)"
    by (simp add: P_def ex_pb_def)
  from step [OF this [unfolded P_def] steps(6)] show "P (ex_pb False ex_live None None 0 0)"
    by (simp add: P_def ex_pb_def)
qed

lemma ex_worker_waits: "\<not> worker_step J0 ref_extern ex_node_settings (ex_pb True ex_start None (Some (Applying ex_next)) 0 0) t"
  by (auto elim!: worker_stepE simp: ex_pb_def)

lemma deferred_candidates_reach_owner_witness:
  "(\<exists>t. worker_step J0 ref_extern ex_node_settings (ex_pb False ex_start None (Some (Applying ex_next)) 0 0) t) \<and> work_kept ex_next ex_live"
proof -
  note r = deferred_candidates_reach_owner [OF ref_codec_ok ex_tips]
  show ?thesis
    using r [OF ex_published(1)] r [OF ex_published(2)] ex_worker_waits by (auto simp: no_threads_def ex_pb_def)
qed

end
