(* ===== verification/Wallet.thy ===== *)
theory Wallet
  imports Template
begin

text \<open>
  The wallet of \<open>src/lib.rs\<close>: the key file, the selection of coins and the signing of a transaction.
  \<open>wallet_env\<close> holds what a wallet takes from outside beside \<open>extern\<close>: the public key of a secret key,
  the order in which the \<open>HashMap\<close> of coins is iterated (any order, so that what is proved of a
  selection holds whichever coins it meets first), and whether the environment variable that allows
  plain keys is set. The lemmas show that a selection consists of mature coins of the wallet and that
  the signatures of a signed transaction verify.
\<close>

section \<open>The key file\<close>

record wallet_file =
  wl_version :: u32
  wl_network :: string
  wl_keys :: "wallet_key list"
  wl_default_index :: "nat option"

record wallet_env =
  pk_of_secret :: "bytes \<Rightarrow> bytes"
  utxo_iter :: "utxo_map \<Rightarrow> (outpoint \<times> coin_record) list"
  plain_keys_env :: bool

definition wallet_new :: "string \<Rightarrow> wallet_file" where
  "wallet_new network_name = \<lparr>wl_version = 1, wl_network = network_name, wl_keys = [], wl_default_index = None\<rparr>"

definition ensure_network :: "settings \<Rightarrow> wallet_file \<Rightarrow> unit result" where
  "ensure_network S w = (if wl_network w \<noteq> net_name (network S) then Inl (WalletErr WNetworkMismatch) else Inr ())"

definition ensure_plaintext_wallet_allowed :: "wallet_env \<Rightarrow> settings \<Rightarrow> unit result" where
  "ensure_plaintext_wallet_allowed W S =
     (if wal_plaintext_keys_allowed (wallet_cfg S) \<or> plain_keys_env W then Inr ()
      else Inl (WalletErr WPlaintextWalletDisabled))"

definition secret_key_to_hex :: "extern \<Rightarrow> bytes \<Rightarrow> string" where
  "secret_key_to_hex X secret = hex_encode X secret"

text \<open>\<open>create_key\<close> with the secret the random generator produced.\<close>

definition create_key ::
  "extern \<Rightarrow> wallet_env \<Rightarrow> settings \<Rightarrow> string \<Rightarrow> u32 \<Rightarrow> bytes \<Rightarrow> wallet_file \<Rightarrow> (wallet_key \<times> wallet_file) result" where
  "create_key X W S label height secret w =
     rbind (ensure_plaintext_wallet_allowed W S) (\<lambda>_.
     let public = pk_of_secret W secret;
         key = \<lparr>wk_address = address_to_string X (address_from_public_key X (net_address_prefix (network S)) public),
           wk_public_key_hex = hex_encode X public, wk_secret_key_hex = secret_key_to_hex X secret,
           wk_label = label, wk_created_height = height\<rparr>
     in Inr (key, w\<lparr>wl_keys := wl_keys w @ [key],
          wl_default_index := (case wl_default_index w of None \<Rightarrow> Some 0 | Some i \<Rightarrow> Some i)\<rparr>))"

definition default_key :: "wallet_file \<Rightarrow> wallet_key option" where
  "default_key w = Option.bind (wl_default_index w) (\<lambda>i. if i < length (wl_keys w) then Some (wl_keys w ! i) else None)"

definition default_address :: "wallet_file \<Rightarrow> string option" where
  "default_address w = map_option wk_address (default_key w)"

definition wallet_scripts :: "extern \<Rightarrow> wallet_file \<Rightarrow> script set result" where
  "wallet_scripts X w =
     fold_r (\<lambda>k scripts. rbind (address_from_str X (wk_address k)) (\<lambda>a. Inr (insert (address_script_pubkey a) scripts)))
       (wl_keys w) {}"

definition balance_atoms :: "extern \<Rightarrow> settings \<Rightarrow> wallet_file \<Rightarrow> chain_state \<Rightarrow> bool \<Rightarrow> u64 result" where
  "balance_atoms X S w c include_immature =
     rbind (wallet_scripts X w) (\<lambda>scripts. Inr (balance_for_scripts scripts S include_immature c))"

definition wallet_jin_balance_units :: "extern \<Rightarrow> settings \<Rightarrow> wallet_file \<Rightarrow> chain_state \<Rightarrow> u128 result" where
  "wallet_jin_balance_units X S w c =
     fold_r (\<lambda>k n. rbind (jin_balance_units_for_address X S c (wk_address k)) (\<lambda>units.
       ok_or (WalletErr WJinBalanceOverflow) (checked_add n units))) (wl_keys w) 0"

section \<open>Selecting coins\<close>

definition wallet_public_key :: "extern \<Rightarrow> wallet_key \<Rightarrow> bytes result" where
  "wallet_public_key X k =
     rbind (ok_or (StdErr HexError) (hex_decode X (wk_public_key_hex k))) (\<lambda>b.
     ok_or (StdErr SecpError) (pk_from_slice X b))"

fun key_with_hash :: "extern \<Rightarrow> bytes \<Rightarrow> wallet_key list \<Rightarrow> wallet_key option result" where
  "key_with_hash X payload [] = Inr None"
| "key_with_hash X payload (k # ks) =
     rbind (wallet_public_key X k) (\<lambda>public.
     if public_key_hash X public = payload then Inr (Some k) else key_with_hash X payload ks)"

definition key_for_coin :: "extern \<Rightarrow> wallet_file \<Rightarrow> coin_record \<Rightarrow> wallet_key option result" where
  "key_for_coin X w coin =
     (case p2pkh_payload (script_pubkey (coin_out coin)) of
        None \<Rightarrow> Inr None
      | Some payload \<Rightarrow> key_with_hash X payload (wl_keys w))"

definition pending_spent_outpoints :: "chain_state \<Rightarrow> outpoint set" where
  "pending_spent_outpoints c = mempool_spent (cs_mempool c)"

definition ordered_wallet_keys_default_first :: "wallet_file \<Rightarrow> wallet_key list" where
  "ordered_wallet_keys_default_first w =
     (case wl_default_index w of
        None \<Rightarrow> wl_keys w
      | Some i \<Rightarrow>
          if i < length (wl_keys w)
          then wl_keys w ! i # map snd (filter (\<lambda>(j, _). j \<noteq> i) (enumerate 0 (wl_keys w)))
          else wl_keys w)"

type_synonym selection = "(outpoint \<times> coin_record \<times> wallet_key) list"

text \<open>The loop over the coins: those of \<open>avoid\<close> are passed over, \<open>required_script\<close> restricts the owner.\<close>

fun select_coins ::
  "extern \<Rightarrow> settings \<Rightarrow> wallet_file \<Rightarrow> u32 \<Rightarrow> outpoint set \<Rightarrow> script option \<Rightarrow> u64 \<Rightarrow>
    (outpoint \<times> coin_record) list \<Rightarrow> selection \<times> u64 \<Rightarrow> (selection \<times> u64) result" where
  "select_coins X S w height avoid required_script target [] st = Inr st"
| "select_coins X S w height avoid required_script target ((p, coin) # coins) (selected, so_far) =
     (if p \<in> avoid \<or> is_immature_coinbase coin height S \<or>
         (case required_script of None \<Rightarrow> False | Some s \<Rightarrow> script_pubkey (coin_out coin) \<noteq> s)
      then select_coins X S w height avoid required_script target coins (selected, so_far) else
      rbind (key_for_coin X w coin) (\<lambda>key.
      case key of
        None \<Rightarrow> select_coins X S w height avoid required_script target coins (selected, so_far)
      | Some k \<Rightarrow>
          rbind (ok_or (WalletErr WSelectionOverflow) (checked_add so_far (out_value (coin_out coin)))) (\<lambda>so_far.
          let selected = selected @ [(p, coin, k)] in
          if so_far \<ge> target then Inr (selected, so_far)
          else select_coins X S w height avoid required_script target coins (selected, so_far))))"

definition select_from ::
  "extern \<Rightarrow> wallet_env \<Rightarrow> settings \<Rightarrow> wallet_file \<Rightarrow> chain_state \<Rightarrow> outpoint set \<Rightarrow> script option \<Rightarrow> u64 \<Rightarrow> wallet_err \<Rightarrow>
    (selection \<times> u64) result" where
  "select_from X W S w c avoid required_script target e =
     rbind (select_coins X S w (chain_height c) avoid required_script target (utxo_iter W (cs_utxos c)) ([], 0))
       (\<lambda>(selected, so_far). if so_far < target then Inl (WalletErr e) else Inr (selected, so_far))"

definition select_signed_inputs_for_target_from_script ::
  "extern \<Rightarrow> wallet_env \<Rightarrow> settings \<Rightarrow> wallet_file \<Rightarrow> chain_state \<Rightarrow> u64 \<Rightarrow> script option \<Rightarrow> (selection \<times> u64) result" where
  "select_signed_inputs_for_target_from_script X W S w c target required_script =
     select_from X W S w c (pending_spent_outpoints c) required_script target
       (if required_script \<noteq> None then WInsufficientOnSourceAddress else WInsufficientSpendable)"

definition select_signed_inputs_for_target ::
  "extern \<Rightarrow> wallet_env \<Rightarrow> settings \<Rightarrow> wallet_file \<Rightarrow> chain_state \<Rightarrow> u64 \<Rightarrow> (selection \<times> u64) result" where
  "select_signed_inputs_for_target X W S w c target =
     select_signed_inputs_for_target_from_script X W S w c target None"

fun select_address ::
  "extern \<Rightarrow> wallet_env \<Rightarrow> settings \<Rightarrow> wallet_file \<Rightarrow> chain_state \<Rightarrow> u64 \<Rightarrow> wallet_key list \<Rightarrow>
    (address \<times> selection \<times> u64) result" where
  "select_address X W S w c target [] = Inl (WalletErr WNoAddressWithEnough)"
| "select_address X W S w c target (key # keys) =
     rbind (parse_with_prefix X (wk_address key) (net_address_prefix (network S))) (\<lambda>a.
     case select_signed_inputs_for_target_from_script X W S w c target (Some (address_script_pubkey a)) of
       Inr (selected, so_far) \<Rightarrow> Inr (a, selected, so_far)
     | Inl _ \<Rightarrow> select_address X W S w c target keys)"

definition select_wallet_address_inputs_for_target ::
  "extern \<Rightarrow> wallet_env \<Rightarrow> settings \<Rightarrow> wallet_file \<Rightarrow> chain_state \<Rightarrow> u64 \<Rightarrow> (address \<times> selection \<times> u64) result" where
  "select_wallet_address_inputs_for_target X W S w c target =
     (let keys = ordered_wallet_keys_default_first w in
      if keys = [] then Inl (WalletErr WEmpty) else select_address X W S w c target keys)"

text \<open>An address with enough JIN; \<open>without_dust\<close>: one was found that lacks the coins for the marker.\<close>

fun select_jin_address ::
  "extern \<Rightarrow> wallet_env \<Rightarrow> settings \<Rightarrow> wallet_file \<Rightarrow> chain_state \<Rightarrow> u128 \<Rightarrow> u64 \<Rightarrow> wallet_key list \<Rightarrow> bool \<Rightarrow>
    (address \<times> selection \<times> u64) result" where
  "select_jin_address X W S w c required_jin target [] without_dust =
     Inl (WalletErr (if without_dust then WJinSourceWithoutDust else WInsufficientJinOnWallet))"
| "select_jin_address X W S w c required_jin target (key # keys) without_dust =
     rbind (parse_with_prefix X (wk_address key) (net_address_prefix (network S))) (\<lambda>a.
     rbind (jin_balance_units_for_address X S c (address_to_string X a)) (\<lambda>balance.
     if balance < required_jin then select_jin_address X W S w c required_jin target keys without_dust else
     case select_signed_inputs_for_target_from_script X W S w c target (Some (address_script_pubkey a)) of
       Inr (selected, so_far) \<Rightarrow> Inr (a, selected, so_far)
     | Inl _ \<Rightarrow> select_jin_address X W S w c required_jin target keys True))"

definition select_jin_source_for_payment ::
  "extern \<Rightarrow> wallet_env \<Rightarrow> settings \<Rightarrow> wallet_file \<Rightarrow> chain_state \<Rightarrow> u128 \<Rightarrow> u64 \<Rightarrow>
    (address \<times> selection \<times> u64) result" where
  "select_jin_source_for_payment X W S w c required_jin target =
     select_jin_address X W S w c required_jin target (ordered_wallet_keys_default_first w) False"

section \<open>Signing\<close>

definition unsigned_tx :: "selection \<Rightarrow> tx_out list \<Rightarrow> transaction" where
  "unsigned_tx selected outputs =
     \<lparr>tx_version = 1,
      tx_inputs = map (\<lambda>(p, _, _). \<lparr>previous_output = p, signature_script = [], sequence = U32_MAX\<rparr>) selected,
      tx_outputs = outputs, tx_locktime = 0\<rparr>"

definition set_signature :: "nat \<Rightarrow> script \<Rightarrow> transaction \<Rightarrow> transaction" where
  "set_signature idx sig tx =
     tx\<lparr>tx_inputs := (tx_inputs tx)[idx := (tx_inputs tx ! idx)\<lparr>signature_script := sig\<rparr>]\<rparr>"

definition sign_input :: "extern \<Rightarrow> nat \<times> outpoint \<times> coin_record \<times> wallet_key \<Rightarrow> transaction \<Rightarrow> transaction result" where
  "sign_input X = (\<lambda>(idx, _, coin, key) tx.
     rbind (secret_key_from_hex X (wk_secret_key_hex key)) (\<lambda>secret.
     rbind (wallet_public_key X key) (\<lambda>public.
     rbind (sighash_all X tx idx (script_pubkey (coin_out coin))) (\<lambda>sighash.
     rbind (sign_hash X secret sighash) (\<lambda>sig.
     rbind (encode_sig_script public sig) (\<lambda>script.
     Inr (set_signature idx script tx)))))))"

definition sign_selected_transaction :: "extern \<Rightarrow> transaction \<Rightarrow> selection \<Rightarrow> transaction result" where
  "sign_selected_transaction X tx selected = fold_r (sign_input X) (enumerate 0 selected) tx"

text \<open>An output of a checked amount, the output for the change, and the signed transaction.\<close>

definition tx_output :: "u64 \<Rightarrow> script \<Rightarrow> tx_out result" where
  "tx_output atoms script = rbind (amount_from_atoms atoms) (\<lambda>v. Inr \<lparr>out_value = v, script_pubkey = script\<rparr>)"

definition change_output :: "u64 \<Rightarrow> address result \<Rightarrow> tx_out list result" where
  "change_output change a =
     (if change > 0 then rbind a (\<lambda>a. rbind (tx_output change (address_script_pubkey a)) (\<lambda>out. Inr [out]))
      else Inr [])"

definition default_wallet_address :: "extern \<Rightarrow> settings \<Rightarrow> wallet_file \<Rightarrow> address result" where
  "default_wallet_address X S w =
     rbind (ok_or (WalletErr WEmpty) (default_address w)) (\<lambda>s.
     parse_with_prefix X s (net_address_prefix (network S)))"

definition signed_spend :: "extern \<Rightarrow> selection \<times> u64 \<Rightarrow> u64 \<Rightarrow> tx_out list \<Rightarrow> address result \<Rightarrow> transaction result" where
  "signed_spend X sel target outputs change_address = (case sel of (selected, so_far) \<Rightarrow>
     rbind (change_output (so_far - target) change_address) (\<lambda>change.
     sign_selected_transaction X (unsigned_tx selected (outputs @ change)) selected))"

section \<open>What the wallet relies on\<close>

text \<open>
  The iteration lists every entry of the map once; the public key of a valid secret key parses as
  itself; a digest of 32 bytes is a message, and its signature by a secret key verifies with the public
  key; keys and DER signatures are short.
\<close>

definition wallet_env_ok :: "extern \<Rightarrow> wallet_env \<Rightarrow> bool" where
  "wallet_env_ok X W \<longleftrightarrow>
     (\<forall>u. distinct (map fst (utxo_iter W u))) \<and>
     (\<forall>u p coin. (p, coin) \<in> set (utxo_iter W u) \<longleftrightarrow> fmlookup u p = Some coin) \<and>
     (\<forall>b secret. length b = 32 \<longrightarrow> sk_from_slice X b = Some secret \<longrightarrow>
        length (pk_of_secret W secret) \<le> 65 \<and>
        pk_from_slice X (pk_of_secret W secret) = Some (pk_of_secret W secret)) \<and>
     (\<forall>h. length h = 32 \<longrightarrow> (\<exists>m. msg_from_digest X h = Some m \<and>
        (\<forall>b secret. length b = 32 \<longrightarrow> sk_from_slice X b = Some secret \<longrightarrow>
          length (ecdsa_sign X m secret) \<le> 72 \<and>
          (\<exists>sig. sig_from_der X (ecdsa_sign X m secret) = Some sig \<and>
            ecdsa_verify X m sig (pk_of_secret W secret)))))"

text \<open>A key as \<open>create_key\<close> makes it: the public key and the address belong to the secret key.\<close>

definition key_ok :: "extern \<Rightarrow> wallet_env \<Rightarrow> settings \<Rightarrow> wallet_key \<Rightarrow> bool" where
  "key_ok X W S k \<longleftrightarrow>
     (\<exists>b secret. length b = 32 \<and> sk_from_slice X b = Some secret \<and>
        secret_key_from_hex X (wk_secret_key_hex k) = Inr secret \<and>
        wk_public_key_hex k = hex_encode X (pk_of_secret W secret) \<and>
        wk_address k = address_to_string X
          (address_from_public_key X (net_address_prefix (network S)) (pk_of_secret W secret)))"

definition wallet_ok :: "extern \<Rightarrow> wallet_env \<Rightarrow> settings \<Rightarrow> wallet_file \<Rightarrow> bool" where
  "wallet_ok X W S w \<longleftrightarrow>
     (\<forall>k \<in> set (wl_keys w). key_ok X W S k) \<and>
     (if wl_keys w = [] then wl_default_index w = None else default_key w \<noteq> None)"

lemma wallet_new_ok: "wallet_ok X W S (wallet_new n)"
  by (simp add: wallet_ok_def wallet_new_def)

lemma create_key_ok:
  assumes "extern_ok X" and "wallet_ok X W S w"
    and "length secret = 32" and "sk_from_slice X secret = Some secret"
    and "create_key X W S label height secret w = Inr (k, w')"
  shows "wallet_ok X W S w' \<and> k \<in> set (wl_keys w')"
proof -
  from assms(5) have k: "wk_secret_key_hex k = hex_encode X secret" "wk_public_key_hex k = hex_encode X (pk_of_secret W secret)"
      "wk_address k = address_to_string X (address_from_public_key X (net_address_prefix (network S)) (pk_of_secret W secret))"
    and w': "wl_keys w' = wl_keys w @ [k]"
      "wl_default_index w' = (case wl_default_index w of None \<Rightarrow> Some 0 | Some i \<Rightarrow> Some i)"
    by (auto simp: create_key_def result_simps Let_def secret_key_to_hex_def split: option.split)
  have "key_ok X W S k"
    unfolding key_ok_def using assms(1,3,4) k
    by (intro exI [of _ secret]) (simp add: secret_key_from_hex_def trim_hex hex_roundtrip)
  moreover have "default_key w' \<noteq> None"
  proof (cases "wl_keys w = []")
    case False
    with assms(2) obtain i where "wl_default_index w = Some i" "i < length (wl_keys w)"
      by (cases "wl_default_index w") (auto simp: wallet_ok_def default_key_def split: if_split_asm)
    with w' show ?thesis by (simp add: default_key_def)
  next
    case True
    with w' assms(2) show ?thesis by (simp add: default_key_def wallet_ok_def)
  qed
  ultimately show ?thesis using assms(2) w' by (auto simp: wallet_ok_def)
qed

lemma wallet_public_key_ok:
  assumes "extern_ok X" and "wallet_env_ok X W" and "key_ok X W S k"
  shows "\<exists>b secret. length b = 32 \<and> sk_from_slice X b = Some secret \<and>
    secret_key_from_hex X (wk_secret_key_hex k) = Inr secret \<and> wallet_public_key X k = Inr (pk_of_secret W secret)"
proof -
  from assms(3) obtain b secret where s: "length b = 32" "sk_from_slice X b = Some secret"
      "secret_key_from_hex X (wk_secret_key_hex k) = Inr secret"
    and pk: "wk_public_key_hex k = hex_encode X (pk_of_secret W secret)"
    by (auto simp: key_ok_def)
  from assms(2) s have "pk_from_slice X (pk_of_secret W secret) = Some (pk_of_secret W secret)"
    by (auto simp: wallet_env_ok_def)
  with s pk show ?thesis by (auto simp: wallet_public_key_def hex_roundtrip [OF assms(1)])
qed

section \<open>Selections\<close>

text \<open>A selected coin: of the UTXO set, mature, not avoided, and of a key of the wallet.\<close>

definition selected_ok ::
  "extern \<Rightarrow> settings \<Rightarrow> wallet_file \<Rightarrow> chain_state \<Rightarrow> outpoint set \<Rightarrow> script option \<Rightarrow> outpoint \<times> coin_record \<times> wallet_key \<Rightarrow> bool" where
  "selected_ok X S w c avoid req = (\<lambda>(p, coin, k).
     fmlookup (cs_utxos c) p = Some coin \<and> p \<notin> avoid \<and> \<not> is_immature_coinbase coin (chain_height c) S \<and>
     k \<in> set (wl_keys w) \<and> (\<forall>s. req = Some s \<longrightarrow> script_pubkey (coin_out coin) = s) \<and>
     (\<exists>public. wallet_public_key X k = Inr public \<and>
        p2pkh_payload (script_pubkey (coin_out coin)) = Some (public_key_hash X public)))"

definition selected_value :: "selection \<Rightarrow> nat" where
  "selected_value sel = (\<Sum>(p, coin, k) \<leftarrow> sel. coin_value coin)"

lemma key_with_hash_Some:
  "key_with_hash X payload ks = Inr (Some k) \<Longrightarrow>
    k \<in> set ks \<and> (\<exists>public. wallet_public_key X k = Inr public \<and> public_key_hash X public = payload)"
  by (induction ks) (auto simp: result_simps split: if_split_asm)

lemma key_for_coin_Some:
  "key_for_coin X w coin = Inr (Some k) \<Longrightarrow>
    k \<in> set (wl_keys w) \<and> (\<exists>public. wallet_public_key X k = Inr public \<and>
      p2pkh_payload (script_pubkey (coin_out coin)) = Some (public_key_hash X public))"
  by (auto simp: key_for_coin_def split: option.split_asm dest: key_with_hash_Some)

lemma select_coins_Inr:
  assumes "select_coins X S w h avoid req target coins (sel, n) = Inr (sel', n')"
  shows "\<exists>new. sel' = sel @ new \<and> subseq (map (\<lambda>(p, coin, k). (p, coin)) new) coins \<and>
    unat n' = unat n + selected_value new \<and>
    (\<forall>(p, coin, k) \<in> set new. p \<notin> avoid \<and> \<not> is_immature_coinbase coin h S \<and>
      (\<forall>s. req = Some s \<longrightarrow> script_pubkey (coin_out coin) = s) \<and> key_for_coin X w coin = Inr (Some k))"
  using assms
proof (induction coins arbitrary: sel n)
  case Nil
  then show ?case by (intro exI [of _ "[]"]) (simp add: selected_value_def)
next
  case (Cons x coins)
  obtain p coin where x: "x = (p, coin)" by (cases x)
  let ?skip = "p \<in> avoid \<or> is_immature_coinbase coin h S \<or>
    (case req of None \<Rightarrow> False | Some s \<Rightarrow> script_pubkey (coin_out coin) \<noteq> s)"
  show ?case
  proof (cases "?skip \<or> key_for_coin X w coin = Inr None")
    case True
    with Cons.prems have "select_coins X S w h avoid req target coins (sel, n) = Inr (sel', n')"
      by (auto simp: x split: if_split_asm)
    from Cons.IH [OF this] show ?thesis by (auto simp: x)
  next
    case False
    with Cons.prems obtain k m where k: "key_for_coin X w coin = Inr (Some k)"
      and m: "checked_add n (out_value (coin_out coin)) = Some m"
      and rest: "if m \<ge> target then Inr (sel @ [(p, coin, k)], m) = Inr (sel', n')
        else select_coins X S w h avoid req target coins (sel @ [(p, coin, k)], m) = Inr (sel', n')"
      by (auto simp: x result_simps Let_def split: option.split_asm if_split_asm)
    from m have m: "unat m = unat n + coin_value coin" by (simp add: checked_add_Some coin_value_def)
    from False have here: "p \<notin> avoid \<and> \<not> is_immature_coinbase coin h S \<and>
        (\<forall>s. req = Some s \<longrightarrow> script_pubkey (coin_out coin) = s) \<and> key_for_coin X w coin = Inr (Some k)"
      using k by (auto split: option.split_asm)
    show ?thesis
    proof (cases "m \<ge> target")
      case True
      with rest m here show ?thesis
        by (intro exI [of _ "[(p, coin, k)]"]) (auto simp: x selected_value_def)
    next
      case False
      with rest have "select_coins X S w h avoid req target coins (sel @ [(p, coin, k)], m) = Inr (sel', n')" by simp
      from Cons.IH [OF this] obtain new where "sel' = (sel @ [(p, coin, k)]) @ new"
        "subseq (map (\<lambda>(p, coin, k). (p, coin)) new) coins" "unat n' = unat m + selected_value new"
        "\<forall>(p, coin, k) \<in> set new. p \<notin> avoid \<and> \<not> is_immature_coinbase coin h S \<and>
          (\<forall>s. req = Some s \<longrightarrow> script_pubkey (coin_out coin) = s) \<and> key_for_coin X w coin = Inr (Some k)"
        by blast
      with m here show ?thesis
        by (intro exI [of _ "(p, coin, k) # new"]) (auto simp: x selected_value_def)
    qed
  qed
qed

lemma select_from_Inr:
  assumes "wallet_env_ok X W" and "select_from X W S w c avoid req target e = Inr (sel, n)"
  shows "list_all (selected_ok X S w c avoid req) sel" and "distinct (map fst sel)"
    and "unat n = selected_value sel" and "target \<le> n"
proof -
  from assms(2) have s: "select_coins X S w (chain_height c) avoid req target (utxo_iter W (cs_utxos c)) ([], 0) = Inr (sel, n)"
    and t: "target \<le> n"
    by (auto simp: select_from_def result_simps split: if_split_asm)
  from select_coins_Inr [OF s] have sub: "subseq (map (\<lambda>(p, coin, k). (p, coin)) sel) (utxo_iter W (cs_utxos c))"
    and n: "unat n = selected_value sel"
    and each: "\<forall>(p, coin, k) \<in> set sel. p \<notin> avoid \<and> \<not> is_immature_coinbase coin (chain_height c) S \<and>
      (\<forall>s. req = Some s \<longrightarrow> script_pubkey (coin_out coin) = s) \<and> key_for_coin X w coin = Inr (Some k)"
    by auto
  from subseq_map [OF sub, of fst] have "subseq (map fst sel) (map fst (utxo_iter W (cs_utxos c)))"
    by (simp add: comp_def case_prod_beta)
  moreover have "distinct (map fst (utxo_iter W (cs_utxos c)))" using assms(1) by (simp add: wallet_env_ok_def)
  ultimately show "distinct (map fst sel)" by (metis subseq_distinct_map map_ident list.map_id)
  have "fmlookup (cs_utxos c) p = Some coin" if "(p, coin, k) \<in> set sel" for p coin k
  proof -
    have "(p, coin) \<in> set (map (\<lambda>(p, coin, k). (p, coin)) sel)" using that by force
    with subseq_subset [OF sub] have "(p, coin) \<in> set (utxo_iter W (cs_utxos c))" by blast
    with assms(1) show ?thesis by (simp add: wallet_env_ok_def)
  qed
  with each show "list_all (selected_ok X S w c avoid req) sel"
    by (fastforce simp: list_all_iff selected_ok_def dest: key_for_coin_Some)
  from n t show "unat n = selected_value sel" "target \<le> n" .
qed

section \<open>Signatures\<close>

text \<open>Two transactions that differ in their signature scripts only have the same signature hashes.\<close>

definition same_shape :: "transaction \<Rightarrow> transaction \<Rightarrow> bool" where
  "same_shape tx tx' \<longleftrightarrow> tx_version tx = tx_version tx' \<and> tx_outputs tx = tx_outputs tx' \<and> tx_locktime tx = tx_locktime tx' \<and>
     map previous_output (tx_inputs tx) = map previous_output (tx_inputs tx') \<and>
     map sequence (tx_inputs tx) = map sequence (tx_inputs tx')"

lemma same_shape_refl: "same_shape tx tx"
  by (simp add: same_shape_def)

lemma same_shape_trans: "same_shape a b \<Longrightarrow> same_shape b c \<Longrightarrow> same_shape a c"
  by (simp add: same_shape_def)

lemma same_shape_length: "same_shape tx tx' \<Longrightarrow> length (tx_inputs tx) = length (tx_inputs tx')"
  by (auto simp: same_shape_def dest: map_eq_imp_length_eq)

lemma serialize_inputs_shape:
  "map previous_output ins = map previous_output ins' \<Longrightarrow> map sequence ins = map sequence ins' \<Longrightarrow>
    map (\<lambda>(i, inp). serialize_input (Some x) i inp) (enumerate n ins) =
    map (\<lambda>(i, inp). serialize_input (Some x) i inp) (enumerate n ins')"
proof (induction ins arbitrary: ins' n)
  case (Cons i ins)
  then obtain j js where "ins' = j # js" by (cases ins') auto
  with Cons.prems Cons.IH [of js "Suc n"] show ?case by (simp add: serialize_input_def)
qed simp

lemma serialize_tx_shape: "same_shape tx tx' \<Longrightarrow> serialize_tx (Some x) tx = serialize_tx (Some x) tx'"
  using serialize_inputs_shape [of "tx_inputs tx" "tx_inputs tx'" x 0] same_shape_length [of tx tx']
  by (simp only: serialize_tx_def same_shape_def)

lemma sighash_shape: "same_shape tx tx' \<Longrightarrow> sighash_all X tx idx s = sighash_all X tx' idx s"
  by (simp only: sighash_all_def serialize_tx_shape same_shape_length)

lemma map_list_update_same: "f y = f (xs ! i) \<Longrightarrow> map f (xs[i := y]) = map f xs"
  by (cases "i < length xs") (simp_all add: list_eq_iff_nth_eq nth_list_update)

lemma set_signature_shape: "same_shape tx (set_signature idx sig tx)"
  by (simp add: same_shape_def set_signature_def map_list_update_same)

lemma verify_input_shape:
  assumes "same_shape tx tx'" and "signature_script (tx_inputs tx ! idx) = signature_script (tx_inputs tx' ! idx)"
  shows "verify_p2pkh_input X tx idx coin = verify_p2pkh_input X tx' idx coin"
  unfolding verify_p2pkh_input_def assms(2) sighash_shape [OF assms(1)] by (rule refl)

text \<open>A signature script with a key of the length the library serialises.\<close>

definition short_key_script :: "script \<Rightarrow> bool" where
  "short_key_script s \<longleftrightarrow> (\<exists>public sig. encode_sig_script public sig = Inr s \<and> length public \<le> 65)"

lemma sign_input_verifies:
  assumes "extern_ok X" and "wallet_env_ok X W" and "key_ok X W S k" and "idx < length (tx_inputs tx)"
    and "wallet_public_key X k = Inr public"
    and "p2pkh_payload (script_pubkey (coin_out coin)) = Some (public_key_hash X public)"
  shows "\<exists>sig. sign_input X (idx, p, coin, k) tx = Inr (set_signature idx sig tx) \<and>
    short_key_script sig \<and> verify_p2pkh_input X (set_signature idx sig tx) idx coin = Inr ()"
proof -
  from wallet_public_key_ok [OF assms(1-3)] assms(5) obtain b secret where b: "length b = 32"
      "sk_from_slice X b = Some secret" "secret_key_from_hex X (wk_secret_key_hex k) = Inr secret"
    and public: "public = pk_of_secret W secret" by auto
  let ?hash = "\<lambda>tx. double_sha256 X (serialize_tx (Some (idx, script_pubkey (coin_out coin))) tx @ u32_le 1)"
  have same: "?hash (set_signature idx sig tx) = ?hash tx" for sig
    using serialize_tx_shape [OF set_signature_shape, of _ tx idx sig] by simp
  have "length (?hash tx) = 32" by (simp add: length_double_sha256 assms(1))
  with assms(2) b obtain m der where m: "msg_from_digest X (?hash tx) = Some m"
    and len: "length (ecdsa_sign X m secret) \<le> 72" and der: "sig_from_der X (ecdsa_sign X m secret) = Some der"
      "ecdsa_verify X m der (pk_of_secret W secret)"
    unfolding wallet_env_ok_def by blast
  from assms(2) b have pk: "length public \<le> 65" "pk_from_slice X public = Some public"
    by (auto simp: wallet_env_ok_def public)
  with len obtain sig where enc: "encode_sig_script public (ecdsa_sign X m secret) = Inr sig"
    by (auto simp: encode_sig_script_def)
  have "sign_input X (idx, p, coin, k) tx = Inr (set_signature idx sig tx)"
    using assms(4,5) b(3) m enc by (simp add: sign_input_def sighash_all_def sign_hash_def)
  moreover have "verify_p2pkh_input X (set_signature idx sig tx) idx coin = Inr ()"
    unfolding verify_p2pkh_input_Inr same
    using assms(4,6) m der pk decode_encode_sig_script [OF enc]
    by (auto simp: verify_hash_def public set_signature_def)
  moreover have "short_key_script sig" using enc pk(1) by (auto simp: short_key_script_def)
  ultimately show ?thesis by blast
qed

text \<open>Signing succeeds and every input of the result verifies.\<close>

lemma sign_selected_verifies:
  assumes "extern_ok X" and "wallet_env_ok X W" and "list_all (key_ok X W S \<circ> snd \<circ> snd) sel"
    and "list_all (selected_ok X S w c avoid req) sel" and "length (tx_inputs tx) \<ge> length sel"
  shows "\<exists>tx'. sign_selected_transaction X tx sel = Inr tx' \<and> same_shape tx tx' \<and>
    (\<forall>i < length sel. verify_p2pkh_input X tx' i (fst (snd (sel ! i))) = Inr () \<and>
      short_key_script (signature_script (tx_inputs tx' ! i)))"
  using assms(3-5)
proof (induction sel rule: rev_induct)
  case Nil
  then show ?case by (simp add: sign_selected_transaction_def same_shape_refl)
next
  case (snoc x sel)
  obtain p coin k where x: "x = (p, coin, k)" by (cases x)
  from snoc obtain tx' where tx': "sign_selected_transaction X tx sel = Inr tx'" "same_shape tx tx'"
    "\<forall>i < length sel. verify_p2pkh_input X tx' i (fst (snd (sel ! i))) = Inr () \<and>
      short_key_script (signature_script (tx_inputs tx' ! i))" by auto
  from snoc.prems obtain public where k: "key_ok X W S k" "wallet_public_key X k = Inr public"
    "p2pkh_payload (script_pubkey (coin_out coin)) = Some (public_key_hash X public)"
    by (auto simp: x selected_ok_def)
  from snoc.prems(3) same_shape_length [OF tx'(2)] have less: "length sel < length (tx_inputs tx')" by simp
  from sign_input_verifies [OF assms(1,2) k(1) less k(2,3), of p] obtain sig
    where sig: "sign_input X (length sel, p, coin, k) tx' = Inr (set_signature (length sel) sig tx')"
      "short_key_script sig" "verify_p2pkh_input X (set_signature (length sel) sig tx') (length sel) coin = Inr ()" by blast
  have "verify_p2pkh_input X (set_signature (length sel) sig tx') i (fst (snd ((sel @ [x]) ! i))) = Inr () \<and>
      short_key_script (signature_script (tx_inputs (set_signature (length sel) sig tx') ! i))"
    if "i < length (sel @ [x])" for i
  proof (cases "i = length sel")
    case True
    with sig(2,3) less show ?thesis by (simp add: x set_signature_def)
  next
    case False
    with that have i: "i < length sel" by simp
    have "verify_p2pkh_input X (set_signature (length sel) sig tx') i coin' = verify_p2pkh_input X tx' i coin'" for coin'
      using i by (intro verify_input_shape [OF set_signature_shape, symmetric]) (simp add: set_signature_def)
    with tx'(3) i show ?thesis by (simp add: nth_append set_signature_def)
  qed
  moreover have "sign_selected_transaction X tx (sel @ [x]) = Inr (set_signature (length sel) sig tx')"
    using tx'(1) sig(1) by (simp add: sign_selected_transaction_def fold_r_append enumerate_append_eq x)
  ultimately show ?case using same_shape_trans [OF tx'(2) set_signature_shape] by blast
qed

end
