(* ===== verification/WalletBuild.thy ===== *)
theory WalletBuild
  imports Wallet
begin

text \<open>
  The transactions a wallet builds (\<open>impl WalletFile\<close> of \<open>src/lib.rs\<close>): payments, JIN transfers,
  conversions and purchases, infusions and melts, Blast vaults and claims, name registrations, pool
  actions and library posts. Each builder checks its arguments, selects coins for what it pays, puts
  the outputs together, adds the change and signs; several then run the node's own check of their
  protocol on the result.
\<close>

section \<open>Payments\<close>

definition own_prefix :: "settings \<Rightarrow> address \<Rightarrow> bool" where
  "own_prefix S a \<longleftrightarrow> addr_prefix a = net_address_prefix (network S)"

definition create_signed_transaction ::
  "extern \<Rightarrow> wallet_env \<Rightarrow> settings \<Rightarrow> wallet_file \<Rightarrow> chain_state \<Rightarrow> address \<Rightarrow> amount \<Rightarrow> amount \<Rightarrow> transaction result" where
  "create_signed_transaction X W S w c recipient amount fee =
     (if \<not> own_prefix S recipient then Inl (WalletErr WRecipientNetworkMismatch) else
      rbind (amount_checked_add amount fee) (\<lambda>target.
      rbind (select_signed_inputs_for_target X W S w c target) (\<lambda>sel.
      signed_spend X sel target [\<lparr>out_value = amount, script_pubkey = address_script_pubkey recipient\<rparr>]
        (default_wallet_address X S w))))"

definition multi_send_total :: "settings \<Rightarrow> (address \<times> amount) list \<Rightarrow> u64 result" where
  "multi_send_total S payments =
     fold_r (\<lambda>(recipient, amount) n.
       if \<not> own_prefix S recipient then Inl (WalletErr WRecipientNetworkMismatch)
       else if amount = 0 then Inl (WalletErr WMultiSendZero)
       else ok_or (WalletErr WMultiSendOverflow) (checked_add n amount)) payments 0"

definition create_multi_signed_transaction ::
  "extern \<Rightarrow> wallet_env \<Rightarrow> settings \<Rightarrow> wallet_file \<Rightarrow> chain_state \<Rightarrow> (address \<times> amount) list \<Rightarrow> amount \<Rightarrow> transaction result" where
  "create_multi_signed_transaction X W S w c payments fee =
     (if payments = [] then Inl (WalletErr WMultiSendEmpty)
      else if length payments > MAX_SEND_ENTRIES_PER_TX then Inl (WalletErr WMultiSendTooMany) else
      rbind (multi_send_total S payments) (\<lambda>total_pay.
      rbind (ok_or (WalletErr WMultiSendOverflow) (checked_add total_pay fee)) (\<lambda>target.
      rbind (select_signed_inputs_for_target X W S w c target) (\<lambda>sel.
      signed_spend X sel target
        (map (\<lambda>(recipient, amount). \<lparr>out_value = amount, script_pubkey = address_script_pubkey recipient\<rparr>) payments)
        (default_wallet_address X S w)))))"

section \<open>JIN\<close>

definition jin_fee_asset_ok :: "string \<Rightarrow> bool" where
  "jin_fee_asset_ok a \<longleftrightarrow> a = ''QUB'' \<or> a = ''JIN''"

definition jin_multi_total :: "settings \<Rightarrow> (address \<times> u128) list \<Rightarrow> u128 result" where
  "jin_multi_total S payments =
     fold_r (\<lambda>(recipient, units) n.
       if \<not> own_prefix S recipient then Inl (WalletErr WRecipientNetworkMismatch)
       else if units = 0 then Inl (WalletErr WJinMultiSendZero)
       else ok_or (WalletErr WJinMultiSendOverflow) (checked_add n units)) payments 0"

text \<open>The share of the JIN fee in the marker of payment \<open>idx\<close> of \<open>n\<close>.\<close>

definition jin_marker_fee :: "string \<Rightarrow> u128 \<Rightarrow> nat \<Rightarrow> nat \<Rightarrow> u128" where
  "jin_marker_fee fee_asset jin_fee_units n idx =
     (if fee_asset = ''JIN''
      then jin_fee_units div of_nat n + (if of_nat idx < jin_fee_units mod of_nat n then 1 else 0)
      else 0)"

definition jin_multi_output ::
  "extern \<Rightarrow> settings \<Rightarrow> address \<Rightarrow> string \<Rightarrow> u128 \<Rightarrow> nat \<Rightarrow> nat \<times> address \<times> u128 \<Rightarrow> tx_out result" where
  "jin_multi_output X S from_address fee_asset jin_fee_units n = (\<lambda>(idx, recipient, units).
     rbind (jin_marker_script_transfer X S from_address recipient units
         (jin_marker_fee fee_asset jin_fee_units n idx) fee_asset) (\<lambda>marker_script.
     tx_output (jin_marker_output_atoms (jin S)) marker_script))"

definition create_jin_multi_transfer_transaction ::
  "extern \<Rightarrow> wallet_env \<Rightarrow> settings \<Rightarrow> wallet_file \<Rightarrow> chain_state \<Rightarrow> (address \<times> u128) list \<Rightarrow> amount \<Rightarrow> u128 \<Rightarrow> string \<Rightarrow>
    transaction result" where
  "create_jin_multi_transfer_transaction X W S w c payments qub_fee jin_fee_units fee_asset =
     (let h = chain_height c + 1 in
      if \<not> jin_active S h then Inl (JinErr JinInactive)
      else if payments = [] then Inl (WalletErr WJinMultiSendEmpty)
      else if length payments > MAX_SEND_ENTRIES_PER_TX then Inl (WalletErr WJinMultiSendTooMany) else
      let fee_asset = to_ascii_uppercase (trim fee_asset); n = length payments in
      if \<not> jin_fee_asset_ok fee_asset then Inl (WalletErr WJinFeeAsset) else
      rbind (jin_multi_total S payments) (\<lambda>total_jin.
      rbind (ok_or (WalletErr WJinMultiSendFeeOverflow)
          (checked_add total_jin (if fee_asset = ''JIN'' then jin_fee_units else 0))) (\<lambda>required_jin.
      rbind (ok_or (WalletErr WJinMarkerAtomsOverflow)
          (checked_mul (jin_marker_output_atoms (jin S)) (of_nat n))) (\<lambda>marker_atoms_total.
      rbind (ok_or (WalletErr WQubFeeOverflow)
          (checked_add marker_atoms_total (if fee_asset = ''QUB'' then qub_fee else 0))) (\<lambda>target_qub.
      rbind (select_jin_source_for_payment X W S w c required_jin target_qub) (\<lambda>(from_address, sel).
      rbind (map_r (jin_multi_output X S from_address fee_asset jin_fee_units n) (enumerate 0 payments)) (\<lambda>outputs.
      rbind (signed_spend X sel target_qub outputs (Inr from_address)) (\<lambda>tx.
      rbind (validate_jin_transaction_against_chain X S tx c h) (\<lambda>_. Inr tx)))))))))"

definition create_jin_transfer_transaction ::
  "extern \<Rightarrow> wallet_env \<Rightarrow> settings \<Rightarrow> wallet_file \<Rightarrow> chain_state \<Rightarrow> address \<Rightarrow> u128 \<Rightarrow> amount \<Rightarrow> u128 \<Rightarrow> string \<Rightarrow>
    transaction result" where
  "create_jin_transfer_transaction X W S w c recipient amount_units qub_fee jin_fee_units fee_asset =
     (let h = chain_height c + 1; marker_atoms = jin_marker_output_atoms (jin S) in
      if \<not> jin_active S h then Inl (JinErr JinInactive)
      else if \<not> own_prefix S recipient then Inl (WalletErr WRecipientNetworkMismatch)
      else if amount_units = 0 then Inl (WalletErr WJinAmountZero) else
      let fee_asset = to_ascii_uppercase (trim fee_asset) in
      if \<not> jin_fee_asset_ok fee_asset then Inl (WalletErr WJinFeeAsset) else
      rbind (ok_or (WalletErr WJinAmountTargetOverflow)
          (checked_add amount_units (if fee_asset = ''JIN'' then jin_fee_units else 0))) (\<lambda>required_jin.
      rbind (ok_or (WalletErr WQubFeeOverflow)
          (checked_add marker_atoms (if fee_asset = ''QUB'' then qub_fee else 0))) (\<lambda>target_qub.
      rbind (select_jin_source_for_payment X W S w c required_jin target_qub) (\<lambda>(from_address, sel).
      rbind (jin_marker_script_transfer X S from_address recipient amount_units jin_fee_units fee_asset) (\<lambda>marker_script.
      rbind (tx_output marker_atoms marker_script) (\<lambda>out.
      rbind (signed_spend X sel target_qub [out] (Inr from_address)) (\<lambda>tx.
      rbind (validate_jin_transaction_against_chain X S tx c h) (\<lambda>_. Inr tx))))))))"

definition create_jin_token_conversion_transaction ::
  "extern \<Rightarrow> wallet_env \<Rightarrow> settings \<Rightarrow> wallet_file \<Rightarrow> chain_state \<Rightarrow> string \<Rightarrow> u128 \<Rightarrow> amount \<Rightarrow> u128 \<Rightarrow> string \<Rightarrow>
    transaction result" where
  "create_jin_token_conversion_transaction X W S w c matrix_address amount_units qub_fee jin_fee_units fee_asset =
     (let h = chain_height c + 1; marker_atoms = jin_marker_output_atoms (jin S) in
      if \<not> jin_active S h then Inl (JinErr JinInactive)
      else if \<not> jin_conversion_active S h then Inl (WalletErr WConversionDisabled) else
      rbind (validate_matrix_address_like matrix_address) (\<lambda>matrix_address.
      let fee_asset = to_ascii_uppercase (trim fee_asset) in
      if \<not> jin_fee_asset_ok fee_asset then Inl (WalletErr WConversionFeeAsset) else
      rbind (ok_or (WalletErr WConversionOverflow)
          (checked_add amount_units (if fee_asset = ''JIN'' then jin_fee_units else 0))) (\<lambda>required_jin.
      rbind (ok_or (WalletErr WQubFeeOverflow)
          (checked_add marker_atoms (if fee_asset = ''QUB'' then qub_fee else 0))) (\<lambda>target_qub.
      rbind (select_jin_source_for_payment X W S w c required_jin target_qub) (\<lambda>(from_address, sel).
      rbind (jin_marker_script_conversion X S from_address matrix_address amount_units jin_fee_units fee_asset) (\<lambda>marker_script.
      rbind (tx_output marker_atoms marker_script) (\<lambda>out.
      rbind (signed_spend X sel target_qub [out] (Inr from_address)) (\<lambda>tx.
      rbind (validate_jin_transaction_against_chain X S tx c h) (\<lambda>_. Inr tx)))))))))"

text \<open>A purchase in the public sale; the price is computed again inside the marker.\<close>

definition sale_target :: "settings \<Rightarrow> u64 \<Rightarrow> u64 \<Rightarrow> u64 \<Rightarrow> u64 option" where
  "sale_target S protocol_payment miner_fee fee =
     Option.bind (checked_add (swap_marker_output_atoms (jin_swap S)) protocol_payment) (\<lambda>v.
     Option.bind (checked_add v miner_fee) (\<lambda>v. checked_add v fee))"

definition create_jin_public_sale_buy_transaction ::
  "extern \<Rightarrow> wallet_env \<Rightarrow> settings \<Rightarrow> wallet_file \<Rightarrow> chain_state \<Rightarrow> u32 \<Rightarrow> u128 \<Rightarrow> amount \<Rightarrow> transaction result" where
  "create_jin_public_sale_buy_transaction X W S w c listing_id amount_units fee =
     (let h = chain_height c + 1; marker_atoms = swap_marker_output_atoms (jin_swap S) in
      if \<not> jin_swap_active S h then Inl (SaleErr SaleInactive)
      else if amount_units > HF106_MAX_STANDARD_JIN_SALE_BUY_UNITS then Inl (WalletErr WSaleBuyTooLarge) else
      rbind (jin_swap_sale_price_atoms S listing_id amount_units) (\<lambda>price_atoms.
      rbind (jin_swap_fee_split_atoms S price_atoms) (\<lambda>(protocol_fee_atoms, miner_fee_atoms).
      rbind (parse_with_prefix X (jin_protocol_address (jin S)) (net_address_prefix (network S))) (\<lambda>protocol.
      rbind (ok_or (WalletErr WSaleTargetOverflow) (checked_add price_atoms protocol_fee_atoms)) (\<lambda>protocol_payment.
      rbind (ok_or (WalletErr WSaleTargetOverflow) (sale_target S protocol_payment miner_fee_atoms fee)) (\<lambda>target_qub.
      rbind (select_wallet_address_inputs_for_target X W S w c target_qub) (\<lambda>(buyer, sel).
      rbind (jin_sale_purchase_marker_script X S buyer listing_id amount_units) (\<lambda>marker_script.
      rbind (tx_output protocol_payment (address_script_pubkey protocol)) (\<lambda>paid.
      rbind (tx_output marker_atoms marker_script) (\<lambda>marker.
      rbind (signed_spend X sel target_qub [paid, marker] (Inr buyer)) (\<lambda>tx.
      rbind (validate_jin_sale_transaction_against_chain X S tx c h) (\<lambda>_. Inr tx))))))))))))"

section \<open>Infusion and melt\<close>

definition create_qub_jin_infuse_transaction ::
  "extern \<Rightarrow> wallet_env \<Rightarrow> settings \<Rightarrow> wallet_file \<Rightarrow> chain_state \<Rightarrow> u128 \<Rightarrow> amount \<Rightarrow> transaction result" where
  "create_qub_jin_infuse_transaction X W S w c amount_units fee =
     (let h = chain_height c + 1; marker_atoms = jin_marker_output_atoms (jin S) in
      if \<not> qub_jin_infusion_active S h then Inl (InfusionErr InfInactive) else
      rbind (qub_jin_infusion_state_from_blocks X S (cs_blocks c)) (\<lambda>state.
      if amount_units = 0 then Inl (InfusionErr InfAmountZero)
      else if inf_true_max_qub_atoms state = 0 then Inl (WalletErr WInfusionAllMelted)
      else if amount_units mod ucast (inf_true_max_qub_atoms state) \<noteq> 0 then Inl (InfusionErr InfNotDivisible) else
      rbind (ok_or (WalletErr WInfusionFeeOverflow) (checked_add marker_atoms fee)) (\<lambda>target_qub.
      rbind (select_jin_source_for_payment X W S w c amount_units target_qub) (\<lambda>(from_address, sel).
      rbind (qub_jin_infuse_marker_script X S from_address amount_units) (\<lambda>marker_script.
      rbind (tx_output marker_atoms marker_script) (\<lambda>out.
      rbind (signed_spend X sel target_qub [out] (Inr from_address)) (\<lambda>tx.
      rbind (validate_qub_jin_infusion_transaction_against_chain X S tx c h) (\<lambda>_. Inr tx))))))))"

definition create_qub_melt_for_jin_transaction ::
  "extern \<Rightarrow> wallet_env \<Rightarrow> settings \<Rightarrow> wallet_file \<Rightarrow> chain_state \<Rightarrow> amount \<Rightarrow> amount \<Rightarrow> u128 \<Rightarrow> transaction result" where
  "create_qub_melt_for_jin_transaction X W S w c qub_atoms fee min_jin_units =
     (let h = chain_height c + 1; marker_atoms = jin_marker_output_atoms (jin S) in
      if \<not> qub_jin_infusion_active S h then Inl (InfusionErr InfInactive)
      else if qub_atoms = 0 then Inl (InfusionErr MeltAmountZero) else
      rbind (qub_jin_melt_payout_units_for_atoms X S (cs_blocks c) qub_atoms) (\<lambda>payout.
      if payout < min_jin_units then Inl (WalletErr WMeltBelowMinimum) else
      rbind (ok_or (WalletErr WMeltTargetOverflow)
          (Option.bind (checked_add qub_atoms marker_atoms) (\<lambda>v. checked_add v fee))) (\<lambda>target_qub.
      rbind (select_wallet_address_inputs_for_target X W S w c target_qub) (\<lambda>(from_address, sel).
      rbind (qub_jin_melt_marker_script X S from_address qub_atoms min_jin_units) (\<lambda>marker_script.
      rbind (tx_output marker_atoms marker_script) (\<lambda>out.
      rbind (signed_spend X sel target_qub [out] (Inr from_address)) (\<lambda>tx.
      rbind (validate_qub_jin_infusion_transaction_against_chain X S tx c h) (\<lambda>_. Inr tx))))))))"

section \<open>Blast\<close>

definition create_blast_create_transaction_qub ::
  "extern \<Rightarrow> wallet_env \<Rightarrow> settings \<Rightarrow> wallet_file \<Rightarrow> chain_state \<Rightarrow> amount \<Rightarrow> amount \<Rightarrow> u32 \<Rightarrow> string \<Rightarrow> amount \<Rightarrow>
    transaction result" where
  "create_blast_create_transaction_qub X W S w c amount per_claim max_claims code fee =
     (if \<not> blast_active S (chain_height c + 1) then Inl (BlastErr BlastInactive)
      else if amount = 0 \<or> per_claim = 0 then Inl (WalletErr WBlastAmountsZero)
      else if max_claims = 0 \<or> unat max_claims > MAX_SEND_ENTRIES_PER_TX then Inl (WalletErr WBlastMaxClaimsRange) else
      rbind (ok_or (WalletErr WBlastAmountOverflow) (checked_mul per_claim (ucast max_claims))) (\<lambda>product.
      if product \<noteq> amount then Inl (WalletErr WBlastTotalMismatch) else
      rbind (default_wallet_address X S w) (\<lambda>manager.
      rbind (blast_code_hash_hex X code) (\<lambda>code_hash.
      rbind (ok_or (WalletErr WBlastTargetOverflow) (checked_add amount fee)) (\<lambda>target.
      rbind (select_signed_inputs_for_target X W S w c target) (\<lambda>sel.
      rbind (blast_vault_script X ''QUB'' manager code_hash (ucast per_claim) max_claims) (\<lambda>vault.
      signed_spend X sel target [\<lparr>out_value = amount, script_pubkey = vault\<rparr>] (Inr manager))))))))"

definition make_blast_code_payload :: "extern \<Rightarrow> hash256 \<Rightarrow> u32 \<Rightarrow> string \<Rightarrow> string result" where
  "make_blast_code_payload X tid vout code =
     rbind (blast_code_hash_hex X code) (\<lambda>_.
     Inr (pipes [''QUBBLAST1'', hash_to_string X tid, show_word vout, trim code]))"

definition parse_blast_code_payload :: "extern \<Rightarrow> string \<Rightarrow> (hash256 \<times> u32 \<times> string) result" where
  "parse_blast_code_payload X payload =
     (case split_on (CHR ''|'') (trim payload) of
        [] \<Rightarrow> Inl (WalletErr WBlastPayloadPrefix)
      | f0 # parts \<Rightarrow>
          if f0 \<noteq> ''QUBBLAST1'' then Inl (WalletErr WBlastPayloadPrefix) else
          (case parts of
             [] \<Rightarrow> Inl (WalletErr WBlastPayloadNoTxid)
           | f1 # parts \<Rightarrow>
               rbind (hash_from_hex X f1) (\<lambda>tid.
               case parts of
                 [] \<Rightarrow> Inl (WalletErr WBlastPayloadNoVout)
               | f2 # parts \<Rightarrow>
                   rbind (ok_or (StdErr ParseIntError) (parse_uint f2)) (\<lambda>vout.
                   case parts of
                     [] \<Rightarrow> Inl (WalletErr WBlastPayloadNoCode)
                   | code # parts \<Rightarrow>
                       if parts \<noteq> [] then Inl (WalletErr WBlastPayloadExtra) else
                       rbind (blast_code_hash_hex X code) (\<lambda>_. Inr (tid, vout, code))))))"

text \<open>A coin that is an open QUB vault for the code, and the vault of a claim: the hint or the only other one.\<close>

definition open_vault :: "extern \<Rightarrow> settings \<Rightarrow> string \<Rightarrow> coin_record \<Rightarrow> blast_vault option" where
  "open_vault X S code_hash coin =
     Option.bind (parse_blast_vault_script X (script_pubkey (coin_out coin)) S) (\<lambda>vault.
     if bv_asset vault = ''QUB'' \<and> bv_code_hash vault = code_hash \<and> bv_remaining_claims vault > 0
     then Some vault else None)"

definition hinted_vault ::
  "extern \<Rightarrow> settings \<Rightarrow> chain_state \<Rightarrow> string \<Rightarrow> outpoint \<Rightarrow> (outpoint \<times> coin_record \<times> blast_vault) option" where
  "hinted_vault X S c code_hash hint =
     (if hint \<in> pending_spent_outpoints c then None else
      Option.bind (fmlookup (cs_utxos c) hint) (\<lambda>coin.
      map_option (\<lambda>vault. (hint, coin, vault)) (open_vault X S code_hash coin)))"

definition search_vault ::
  "extern \<Rightarrow> wallet_env \<Rightarrow> settings \<Rightarrow> chain_state \<Rightarrow> string \<Rightarrow> (outpoint \<times> coin_record \<times> blast_vault) option result" where
  "search_vault X W S c code_hash =
     fold_r (\<lambda>(p, coin) found.
       if p \<in> pending_spent_outpoints c then Inr found else
       (case open_vault X S code_hash coin of
          None \<Rightarrow> Inr found
        | Some vault \<Rightarrow> if found \<noteq> None then Inl (WalletErr WBlastAmbiguousCode) else Inr (Some (p, coin, vault))))
       (utxo_iter W (cs_utxos c)) None"

definition claim_outputs ::
  "extern \<Rightarrow> settings \<Rightarrow> address \<Rightarrow> coin_record \<Rightarrow> blast_vault \<Rightarrow> tx_out list result" where
  "claim_outputs X S claimant coin vault =
     rbind (ok_or (WalletErr WBlastClaimAmountTooLarge) (u64_try_from (bv_per_claim_units vault))) (\<lambda>per_claim_atoms.
     if out_value (coin_out coin) < per_claim_atoms then Inl (WalletErr WBlastVaultInsufficient) else
     rbind (tx_output per_claim_atoms (address_script_pubkey claimant)) (\<lambda>paid.
     let remaining_value = out_value (coin_out coin) - per_claim_atoms;
         remaining_claims = sat_sub (bv_remaining_claims vault) 1 in
     if remaining_value > 0 \<and> remaining_claims > 0 then
       rbind (parse_with_prefix X (bv_manager_address vault) (net_address_prefix (network S))) (\<lambda>manager.
       rbind (amount_from_atoms remaining_value) (\<lambda>v.
       rbind (blast_vault_script X (bv_asset vault) manager (bv_code_hash vault) (bv_per_claim_units vault)
           remaining_claims) (\<lambda>script.
       Inr [paid, \<lparr>out_value = v, script_pubkey = script\<rparr>])))
     else Inr [paid]))"

definition create_blast_claim_transaction_qub ::
  "extern \<Rightarrow> wallet_env \<Rightarrow> settings \<Rightarrow> wallet_file \<Rightarrow> chain_state \<Rightarrow> string \<Rightarrow> address option \<Rightarrow> transaction result" where
  "create_blast_claim_transaction_qub X W S w c code_payload claimant =
     (if \<not> blast_active S (chain_height c + 1) then Inl (BlastErr BlastInactive) else
      rbind (parse_blast_code_payload X code_payload) (\<lambda>(hint_txid, hint_vout, code).
      rbind (case claimant of Some a \<Rightarrow> Inr a | None \<Rightarrow> default_wallet_address X S w) (\<lambda>claimant.
      if \<not> own_prefix S claimant then Inl (WalletErr WBlastClaimantNetwork) else
      rbind (blast_code_hash_hex X code) (\<lambda>code_hash.
      rbind (case hinted_vault X S c code_hash (OutPoint hint_txid hint_vout) of
          Some v \<Rightarrow> Inr (Some v)
        | None \<Rightarrow> search_vault X W S c code_hash) (\<lambda>found.
      rbind (ok_or (WalletErr WBlastNoActiveVault) found) (\<lambda>(prev, coin, vault).
      rbind (claim_outputs X S claimant coin vault) (\<lambda>outputs.
      rbind (blast_claim_script X claimant code) (\<lambda>script.
      Inr \<lparr>tx_version = 1,
        tx_inputs = [\<lparr>previous_output = prev, signature_script = script, sequence = U32_MAX\<rparr>],
        tx_outputs = outputs, tx_locktime = 0\<rparr>))))))))"

section \<open>Names\<close>

text \<open>
  The builders of this section and the next select their coins in loops of their own, which do not pass
  over the coins pending transactions spend.
\<close>

definition create_qns_registration_transaction ::
  "extern \<Rightarrow> wallet_env \<Rightarrow> settings \<Rightarrow> wallet_file \<Rightarrow> chain_state \<Rightarrow> string \<Rightarrow> address \<Rightarrow> amount \<Rightarrow> transaction result" where
  "create_qns_registration_transaction X W S w c name target_address fee =
     (if \<not> qns_enabled (qns S) then Inl (WalletErr WQnsDisabled) else
      let h = chain_height c + 1; marker_atoms = qns_marker_output_atoms (qns S) in
      if h < qns_activation_height (qns S) then Inl (QnsErr QnsInactive) else
      rbind (qns_resolve X S (cs_blocks c) name) (\<lambda>taken.
      if taken \<noteq> None then Inl (WalletErr WQnsNameTaken) else
      rbind (normalize_qns_name name (qns_max_label_chars (qns S))) (\<lambda>name.
      if \<not> own_prefix S target_address then Inl (WalletErr WQnsTargetNetwork) else
      rbind (parse_with_prefix X (qns_protocol_address (qns S)) (net_address_prefix (network S))) (\<lambda>protocol.
      rbind (qns_registration_price_atoms S name) (\<lambda>price_atoms.
      rbind (ok_or (WalletErr WQnsPaymentOverflow)
          (Option.bind (checked_add price_atoms marker_atoms) (\<lambda>v. checked_add v fee))) (\<lambda>target.
      rbind (select_from X W S w c {} None target WQnsInsufficient) (\<lambda>sel.
      rbind (tx_output (qns_protocol_share_atoms S h price_atoms) (address_script_pubkey protocol)) (\<lambda>paid.
      rbind (amount_from_atoms marker_atoms) (\<lambda>marker_value.
      rbind (qns_marker_script X name target_address S) (\<lambda>marker_script.
      rbind (signed_spend X sel target [paid, \<lparr>out_value = marker_value, script_pubkey = marker_script\<rparr>]
          (default_wallet_address X S w)) (\<lambda>tx.
      rbind (validate_qns_transaction_against_chain X S (cs_blocks c) tx h) (\<lambda>_.
      rbind (validate_tx_contextual X tx (cs_utxos c) h S True) (\<lambda>fee_atoms.
      rbind (qns_miner_fee_required_in_tx X S tx h) (\<lambda>miner_required.
      if fee_atoms < miner_required then Inl (WalletErr WQnsSplitUnderpayment) else Inr tx))))))))))))))"

section \<open>Pools\<close>

definition pools_ready :: "settings \<Rightarrow> u32 \<Rightarrow> unit result" where
  "pools_ready S height =
     (if \<not> feat_pooled_mining_enabled (features S) \<or> \<not> ps_enabled (pools S) then Inl (WalletErr WPoolsDisabled)
      else if height < ps_activation_height (pools S) then Inl (PoolErr PoolInactive)
      else Inr ())"

definition pool_target :: "u64 \<Rightarrow> u64 \<Rightarrow> u64 \<Rightarrow> u64 result" where
  "pool_target price marker_atoms fee =
     ok_or (WalletErr WPoolPaymentOverflow) (Option.bind (checked_add price marker_atoms) (\<lambda>v. checked_add v fee))"

definition create_pool_create_transaction ::
  "extern \<Rightarrow> wallet_env \<Rightarrow> settings \<Rightarrow> wallet_file \<Rightarrow> chain_state \<Rightarrow> string \<Rightarrow> address \<Rightarrow> u16 \<Rightarrow> u32 \<Rightarrow> amount \<Rightarrow>
    transaction result" where
  "create_pool_create_transaction X W S w c name manager commission_bps capacity_slots fee =
     (let h = chain_height c + 1; marker_atoms = ps_marker_output_atoms (pools S) in
      rbind (pools_ready S h) (\<lambda>_.
      if \<not> own_prefix S manager then Inl (WalletErr WPoolManagerNetwork) else
      rbind (pool_name S name) (\<lambda>name.
      if commission_bps > ps_max_commission_bps (pools S) then Inl (WalletErr WPoolCommissionTooHigh) else
      rbind (parse_with_prefix X (ps_protocol_address (pools S)) (net_address_prefix (network S))) (\<lambda>protocol.
      rbind (pool_create_price_atoms S capacity_slots) (\<lambda>price_atoms.
      rbind (pool_target price_atoms marker_atoms fee) (\<lambda>target.
      rbind (select_from X W S w c {} None target WPoolInsufficient) (\<lambda>sel.
      rbind (tx_output (pool_protocol_share_atoms price_atoms) (address_script_pubkey protocol)) (\<lambda>paid.
      rbind (amount_from_atoms marker_atoms) (\<lambda>marker_value.
      rbind (pool_create_marker_script X S name manager commission_bps capacity_slots) (\<lambda>marker_script.
      rbind (signed_spend X sel target [paid, \<lparr>out_value = marker_value, script_pubkey = marker_script\<rparr>]
          (default_wallet_address X S w)) (\<lambda>tx.
      rbind (validate_pools_transaction_against_chain X S tx c h) (\<lambda>_. Inr tx))))))))))))"

text \<open>The pool and its manager.\<close>

definition managed_pool ::
  "extern \<Rightarrow> settings \<Rightarrow> chain_state \<Rightarrow> hash256 \<Rightarrow> pool_record result" where
  "managed_pool X S c pool_id =
     rbind (pools_registry_from_blocks X S (cs_blocks c)) (\<lambda>registry.
     ok_or (WalletErr WPoolUnknownId) (fmlookup registry pool_id))"

definition pool_manager_address :: "extern \<Rightarrow> settings \<Rightarrow> pool_record \<Rightarrow> address result" where
  "pool_manager_address X S pool = parse_with_prefix X (pr_manager_address pool) (net_address_prefix (network S))"

definition create_pool_topup_transaction ::
  "extern \<Rightarrow> wallet_env \<Rightarrow> settings \<Rightarrow> wallet_file \<Rightarrow> chain_state \<Rightarrow> hash256 \<Rightarrow> u32 \<Rightarrow> amount \<Rightarrow> transaction result" where
  "create_pool_topup_transaction X W S w c pool_id extra_capacity_slots fee =
     (let h = chain_height c + 1; marker_atoms = ps_marker_output_atoms (pools S) in
      rbind (pools_ready S h) (\<lambda>_.
      rbind (managed_pool X S c pool_id) (\<lambda>pool.
      rbind (pool_manager_address X S pool) (\<lambda>manager.
      rbind (parse_with_prefix X (ps_protocol_address (pools S)) (net_address_prefix (network S))) (\<lambda>protocol.
      rbind (ok_or (PoolErr PoolCapacityOverflow) (checked_add (pr_capacity_slots pool) extra_capacity_slots)) (\<lambda>new_capacity.
      if new_capacity > ps_max_capacity_slots (pools S) then Inl (WalletErr WPoolCapacityTooLarge) else
      rbind (pool_topup_price_atoms S extra_capacity_slots) (\<lambda>price_atoms.
      rbind (pool_target price_atoms marker_atoms fee) (\<lambda>target.
      rbind (select_from X W S w c {} (Some (address_script_pubkey manager)) target WPoolInsufficient) (\<lambda>sel.
      rbind (tx_output (pool_protocol_share_atoms price_atoms) (address_script_pubkey protocol)) (\<lambda>paid.
      rbind (amount_from_atoms marker_atoms) (\<lambda>marker_value.
      rbind (pool_topup_marker_script X S pool_id manager extra_capacity_slots) (\<lambda>marker_script.
      rbind (signed_spend X sel target [paid, \<lparr>out_value = marker_value, script_pubkey = marker_script\<rparr>]
          (Inr manager)) (\<lambda>tx.
      rbind (validate_pools_transaction_against_chain X S tx c h) (\<lambda>_. Inr tx))))))))))))))"

text \<open>The two actions that cost nothing but the marker.\<close>

definition pool_marker_spend ::
  "extern \<Rightarrow> wallet_env \<Rightarrow> settings \<Rightarrow> wallet_file \<Rightarrow> chain_state \<Rightarrow> u32 \<Rightarrow> address \<Rightarrow> script result \<Rightarrow> amount \<Rightarrow> transaction result" where
  "pool_marker_spend X W S w c h manager marker_script fee = (let marker_atoms = ps_marker_output_atoms (pools S) in
     rbind (ok_or (WalletErr WPoolPaymentOverflow) (checked_add marker_atoms fee)) (\<lambda>target.
     rbind (select_from X W S w c {} (Some (address_script_pubkey manager)) target WPoolInsufficient) (\<lambda>sel.
     rbind (amount_from_atoms marker_atoms) (\<lambda>marker_value.
     rbind marker_script (\<lambda>marker_script.
     rbind (signed_spend X sel target [\<lparr>out_value = marker_value, script_pubkey = marker_script\<rparr>] (Inr manager)) (\<lambda>tx.
     rbind (validate_pools_transaction_against_chain X S tx c h) (\<lambda>_. Inr tx)))))))"

definition create_pool_set_commission_transaction ::
  "extern \<Rightarrow> wallet_env \<Rightarrow> settings \<Rightarrow> wallet_file \<Rightarrow> chain_state \<Rightarrow> hash256 \<Rightarrow> u16 \<Rightarrow> amount \<Rightarrow> transaction result" where
  "create_pool_set_commission_transaction X W S w c pool_id new_commission_bps fee =
     (let h = chain_height c + 1 in
      rbind (pools_ready S h) (\<lambda>_.
      rbind (managed_pool X S c pool_id) (\<lambda>pool.
      if new_commission_bps > pr_commission_bps pool then Inl (WalletErr WPoolCommissionRaise) else
      rbind (pool_manager_address X S pool) (\<lambda>manager.
      pool_marker_spend X W S w c h manager (pool_commission_marker_script X S pool_id manager new_commission_bps) fee))))"

definition create_pool_rename_transaction ::
  "extern \<Rightarrow> wallet_env \<Rightarrow> settings \<Rightarrow> wallet_file \<Rightarrow> chain_state \<Rightarrow> hash256 \<Rightarrow> string \<Rightarrow> amount \<Rightarrow> transaction result" where
  "create_pool_rename_transaction X W S w c pool_id new_name fee =
     (let h = chain_height c + 1 in
      rbind (pools_ready S h) (\<lambda>_.
      rbind (managed_pool X S c pool_id) (\<lambda>pool.
      rbind (pool_name S new_name) (\<lambda>new_name.
      rbind (pool_manager_address X S pool) (\<lambda>manager.
      pool_marker_spend X W S w c h manager (pool_rename_marker_script X S pool_id manager new_name) fee)))))"

section \<open>Library\<close>

text \<open>The longest start of the text that is at most \<open>n\<close> bytes long and ends between two characters.\<close>

fun page_end :: "string \<Rightarrow> nat \<Rightarrow> nat" where
  "page_end b 0 = 0"
| "page_end b (Suc n) = (if from_utf8 (take (Suc n) b) = None then page_end b n else Suc n)"

lemma page_end_le: "page_end b n \<le> n"
  by (induction n) auto

function split_pages :: "nat \<Rightarrow> string \<Rightarrow> string list result" where
  "split_pages page_size b =
     (if b = [] then Inr [] else
      let e = page_end b (min page_size (length b)) in
      if e = 0 then Inl (WalletErr WLibraryCharTooLarge) else
      rbind (ok_or (StdErr Utf8Error) (from_utf8 (take e b))) (\<lambda>page.
      rbind (split_pages page_size (drop e b)) (\<lambda>pages. Inr (page # pages))))"
  by auto
termination by (relation "measure (length \<circ> snd)") (auto simp: Let_def)

declare split_pages.simps [simp del]

definition library_pages :: "settings \<Rightarrow> string \<Rightarrow> string list result" where
  "library_pages S body =
     (if body = [] then Inr [[]] else split_pages (unat (max (lib_max_page_bytes (library S)) 1)) body)"

definition library_ready :: "extern \<Rightarrow> settings \<Rightarrow> wallet_file \<Rightarrow> chain_state \<Rightarrow> address result" where
  "library_ready X S w c =
     (if \<not> library_active S (chain_height c + 1) then Inl (LibraryErr LibInactive) else default_wallet_address X S w)"

definition create_library_post_transaction ::
  "extern \<Rightarrow> wallet_env \<Rightarrow> settings \<Rightarrow> wallet_file \<Rightarrow> chain_state \<Rightarrow> string \<Rightarrow> string \<Rightarrow> string \<Rightarrow> amount \<Rightarrow>
    transaction result" where
  "create_library_post_transaction X W S w c title category body fee =
     (let marker_atoms = lib_marker_output_atoms (library S) in
      rbind (library_ready X S w c) (\<lambda>author.
      rbind (library_pages S body) (\<lambda>pages.
      if length pages > unat (lib_max_pages_per_post (library S)) then Inl (WalletErr WLibraryTooManyPages) else
      rbind (library_post_price_atoms S title category body) (\<lambda>library_fee.
      rbind (ok_or (WalletErr WLibraryMarkerOverflow) (checked_mul marker_atoms (of_nat (length pages)))) (\<lambda>markers_atoms.
      rbind (ok_or (WalletErr WLibraryTargetOverflow)
          (Option.bind (checked_add markers_atoms fee) (\<lambda>v. checked_add v library_fee))) (\<lambda>target.
      rbind (select_signed_inputs_for_target X W S w c target) (\<lambda>sel.
      rbind (map_r (\<lambda>(idx, page).
          rbind (amount_from_atoms marker_atoms) (\<lambda>v.
          rbind (library_post_marker_script X S author title category (of_nat idx) (of_nat (length pages)) page) (\<lambda>script.
          Inr \<lparr>out_value = v, script_pubkey = script\<rparr>)))
        (enumerate 0 pages)) (\<lambda>outputs.
      signed_spend X sel target outputs (Inr author)))))))))"

text \<open>The other library actions: one marker.\<close>

definition library_marker_spend ::
  "extern \<Rightarrow> wallet_env \<Rightarrow> settings \<Rightarrow> wallet_file \<Rightarrow> chain_state \<Rightarrow> (address \<Rightarrow> script result) \<Rightarrow> amount \<Rightarrow> transaction result" where
  "library_marker_spend X W S w c marker_script fee = (let marker_atoms = lib_marker_output_atoms (library S) in
     rbind (library_ready X S w c) (\<lambda>author.
     rbind (ok_or (WalletErr WLibraryTargetOverflow) (checked_add marker_atoms fee)) (\<lambda>target.
     rbind (select_signed_inputs_for_target X W S w c target) (\<lambda>sel.
     rbind (amount_from_atoms marker_atoms) (\<lambda>v.
     rbind (marker_script author) (\<lambda>script.
     signed_spend X sel target [\<lparr>out_value = v, script_pubkey = script\<rparr>] (Inr author)))))))"

definition create_library_comment_transaction ::
  "extern \<Rightarrow> wallet_env \<Rightarrow> settings \<Rightarrow> wallet_file \<Rightarrow> chain_state \<Rightarrow> string \<Rightarrow> string option \<Rightarrow> string \<Rightarrow> amount \<Rightarrow>
    transaction result" where
  "create_library_comment_transaction X W S w c post_id parent_comment_id body fee =
     library_marker_spend X W S w c
       (\<lambda>author. library_comment_marker_script X S post_id parent_comment_id author body) fee"

definition create_library_vote_transaction ::
  "extern \<Rightarrow> wallet_env \<Rightarrow> settings \<Rightarrow> wallet_file \<Rightarrow> chain_state \<Rightarrow> string \<Rightarrow> string \<Rightarrow> bool \<Rightarrow> amount \<Rightarrow> transaction result" where
  "create_library_vote_transaction X W S w c target_kind target_id up fee =
     library_marker_spend X W S w c (\<lambda>author. library_vote_marker_script X target_kind target_id author up) fee"

definition create_library_edit_transaction ::
  "extern \<Rightarrow> wallet_env \<Rightarrow> settings \<Rightarrow> wallet_file \<Rightarrow> chain_state \<Rightarrow> string \<Rightarrow> string \<Rightarrow> string \<Rightarrow> string \<Rightarrow> string \<Rightarrow> amount \<Rightarrow>
    transaction result" where
  "create_library_edit_transaction X W S w c target_kind target_id title category body fee =
     library_marker_spend X W S w c
       (\<lambda>author. library_edit_marker_script X S target_kind target_id author title category body) fee"

definition create_library_delete_transaction ::
  "extern \<Rightarrow> wallet_env \<Rightarrow> settings \<Rightarrow> wallet_file \<Rightarrow> chain_state \<Rightarrow> string \<Rightarrow> string \<Rightarrow> amount \<Rightarrow> transaction result" where
  "create_library_delete_transaction X W S w c target_kind target_id fee =
     library_marker_spend X W S w c (\<lambda>author. library_delete_marker_script X target_kind target_id author) fee"

end
