(* ===== verification/WalletSafety.thy ===== *)
theory WalletSafety
  imports WalletBuild
begin

text \<open>
  What the wallet's transactions guarantee: every input of every transaction a wallet builds is a
  mature coin of the wallet with a valid signature; a payment pays its recipient and exactly its fee and
  is accepted into the mempool of the node it was built on; a Blast claim is valid; a library post is
  cut into pages that put together are the post.
\<close>

section \<open>Signed spends\<close>

text \<open>A transaction signed for a selection: what it spends, what it creates, and its signatures.\<close>

definition signed_for ::
  "extern \<Rightarrow> settings \<Rightarrow> wallet_file \<Rightarrow> chain_state \<Rightarrow> outpoint set \<Rightarrow> u64 \<Rightarrow> tx_out list \<Rightarrow> address result \<Rightarrow> transaction \<Rightarrow> bool" where
  "signed_for X S w c avoid target outs change_address tx \<longleftrightarrow>
     (\<exists>sel n change req. list_all (selected_ok X S w c avoid req) sel \<and> distinct (map fst sel) \<and>
        unat n = selected_value sel \<and> target \<le> n \<and> change_output (n - target) change_address = Inr change \<and>
        same_shape (unsigned_tx sel (outs @ change)) tx \<and>
        (\<forall>i < length sel. verify_p2pkh_input X tx i (fst (snd (sel ! i))) = Inr () \<and>
          short_key_script (signature_script (tx_inputs tx ! i))))"

lemma signed_spend_for:
  assumes "extern_ok X" and "wallet_env_ok X W" and "wallet_ok X W S w"
    and "select_from X W S w c avoid req target e = Inr sel"
    and "signed_spend X sel target outs change_address = Inr tx"
  shows "signed_for X S w c avoid target outs change_address tx"
proof -
  obtain selected n where sel: "sel = (selected, n)" by (cases sel)
  note ok = select_from_Inr [OF assms(2) assms(4) [unfolded sel]]
  from assms(5) obtain change where change: "change_output (n - target) change_address = Inr change"
    and tx: "sign_selected_transaction X (unsigned_tx selected (outs @ change)) selected = Inr tx"
    by (auto simp: signed_spend_def sel result_simps)
  have "list_all (key_ok X W S \<circ> snd \<circ> snd) selected"
    using ok(1) assms(3) by (auto simp: list_all_iff selected_ok_def wallet_ok_def)
  from sign_selected_verifies [OF assms(1,2) this ok(1), of "unsigned_tx selected (outs @ change)"] tx
  have "same_shape (unsigned_tx selected (outs @ change)) tx \<and>
      (\<forall>i < length selected. verify_p2pkh_input X tx i (fst (snd (selected ! i))) = Inr () \<and>
        short_key_script (signature_script (tx_inputs tx ! i)))"
    by (simp add: unsigned_tx_def)
  with ok change show ?thesis unfolding signed_for_def by blast
qed

text \<open>The selection that found an address is a selection for its script.\<close>

lemma select_address_Inr:
  "select_address X W S w c target keys = Inr (a, sel) \<Longrightarrow>
    \<exists>req e. select_from X W S w c (pending_spent_outpoints c) req target e = Inr sel"
proof (induction keys)
  case (Cons key keys)
  then obtain b where "parse_with_prefix X (wk_address key) (net_address_prefix (network S)) = Inr b"
    by (auto simp: result_simps)
  with Cons show ?case
    by (cases "select_signed_inputs_for_target_from_script X W S w c target (Some (address_script_pubkey b))")
      (auto simp: select_signed_inputs_for_target_from_script_def)
qed simp

lemma select_jin_address_Inr:
  "select_jin_address X W S w c required target keys dust = Inr (a, sel) \<Longrightarrow>
    \<exists>req e. select_from X W S w c (pending_spent_outpoints c) req target e = Inr sel"
proof (induction keys arbitrary: dust)
  case (Cons key keys)
  then obtain b n where "parse_with_prefix X (wk_address key) (net_address_prefix (network S)) = Inr b"
    "jin_balance_units_for_address X S c (address_to_string X b) = Inr n"
    by (auto simp: result_simps)
  with Cons show ?case
    by (cases "select_signed_inputs_for_target_from_script X W S w c target (Some (address_script_pubkey b))")
      (auto simp: select_signed_inputs_for_target_from_script_def split: if_split_asm)
qed simp

lemma select_wallet_address_Inr:
  "select_wallet_address_inputs_for_target X W S w c target = Inr (a, sel) \<Longrightarrow>
    \<exists>req e. select_from X W S w c (pending_spent_outpoints c) req target e = Inr sel"
  by (auto simp: select_wallet_address_inputs_for_target_def Let_def split: if_split_asm dest: select_address_Inr)

lemma select_jin_source_Inr:
  "select_jin_source_for_payment X W S w c required target = Inr (a, sel) \<Longrightarrow>
    \<exists>req e. select_from X W S w c (pending_spent_outpoints c) req target e = Inr sel"
  by (auto simp: select_jin_source_for_payment_def dest: select_jin_address_Inr)

lemma select_any_Inr:
  "select_signed_inputs_for_target X W S w c target = Inr sel \<Longrightarrow>
    \<exists>req e. select_from X W S w c (pending_spent_outpoints c) req target e = Inr sel"
  by (auto simp: select_signed_inputs_for_target_def select_signed_inputs_for_target_from_script_def)

lemmas selections = select_wallet_address_Inr select_jin_source_Inr select_any_Inr

section \<open>Everything a wallet sends\<close>

text \<open>The transactions of the builders that sign, one rule per builder.\<close>

inductive wallet_sends ::
  "extern \<Rightarrow> wallet_env \<Rightarrow> settings \<Rightarrow> wallet_file \<Rightarrow> chain_state \<Rightarrow> transaction \<Rightarrow> bool" for X W S w c where
  pay: "create_signed_transaction X W S w c a v fee = Inr tx \<Longrightarrow> wallet_sends X W S w c tx"
| multi: "create_multi_signed_transaction X W S w c payments fee = Inr tx \<Longrightarrow> wallet_sends X W S w c tx"
| jin_multi: "create_jin_multi_transfer_transaction X W S w c jins fee units asset = Inr tx \<Longrightarrow> wallet_sends X W S w c tx"
| jin_send: "create_jin_transfer_transaction X W S w c a units fee jin_fee asset = Inr tx \<Longrightarrow> wallet_sends X W S w c tx"
| conversion: "create_jin_token_conversion_transaction X W S w c s units fee jin_fee asset = Inr tx \<Longrightarrow> wallet_sends X W S w c tx"
| sale: "create_jin_public_sale_buy_transaction X W S w c listing units fee = Inr tx \<Longrightarrow> wallet_sends X W S w c tx"
| infuse: "create_qub_jin_infuse_transaction X W S w c units fee = Inr tx \<Longrightarrow> wallet_sends X W S w c tx"
| melt: "create_qub_melt_for_jin_transaction X W S w c v fee units = Inr tx \<Longrightarrow> wallet_sends X W S w c tx"
| blast: "create_blast_create_transaction_qub X W S w c v per_claim claims s fee = Inr tx \<Longrightarrow> wallet_sends X W S w c tx"
| name: "create_qns_registration_transaction X W S w c s a fee = Inr tx \<Longrightarrow> wallet_sends X W S w c tx"
| pool_create: "create_pool_create_transaction X W S w c s a bps slots fee = Inr tx \<Longrightarrow> wallet_sends X W S w c tx"
| pool_topup: "create_pool_topup_transaction X W S w c i slots fee = Inr tx \<Longrightarrow> wallet_sends X W S w c tx"
| pool_commission: "create_pool_set_commission_transaction X W S w c i bps fee = Inr tx \<Longrightarrow> wallet_sends X W S w c tx"
| pool_rename: "create_pool_rename_transaction X W S w c i s fee = Inr tx \<Longrightarrow> wallet_sends X W S w c tx"
| post: "create_library_post_transaction X W S w c title category body fee = Inr tx \<Longrightarrow> wallet_sends X W S w c tx"
| comment_on: "create_library_comment_transaction X W S w c s parent body fee = Inr tx \<Longrightarrow> wallet_sends X W S w c tx"
| vote: "create_library_vote_transaction X W S w c kind s up fee = Inr tx \<Longrightarrow> wallet_sends X W S w c tx"
| edit: "create_library_edit_transaction X W S w c kind s title category body fee = Inr tx \<Longrightarrow> wallet_sends X W S w c tx"
| delete: "create_library_delete_transaction X W S w c kind s fee = Inr tx \<Longrightarrow> wallet_sends X W S w c tx"

text \<open>What a builder selects and signs.\<close>

definition spends_selection ::
  "extern \<Rightarrow> wallet_env \<Rightarrow> settings \<Rightarrow> wallet_file \<Rightarrow> chain_state \<Rightarrow> transaction \<Rightarrow> bool" where
  "spends_selection X W S w c tx \<longleftrightarrow>
     (\<exists>avoid req target e sel outs change_address. select_from X W S w c avoid req target e = Inr sel \<and>
        signed_spend X sel target outs change_address = Inr tx)"

lemma spends_selectionI:
  "select_from X W S w c avoid req target e = Inr sel \<Longrightarrow> signed_spend X sel target outs change_address = Inr tx \<Longrightarrow>
    spends_selection X W S w c tx"
  unfolding spends_selection_def by blast

lemma library_marker_spends:
  "library_marker_spend X W S w c f fee = Inr tx \<Longrightarrow> spends_selection X W S w c tx"
  by (auto simp: library_marker_spend_def Let_def result_simps dest!: selections intro: spends_selectionI)

lemma pool_marker_spends:
  "pool_marker_spend X W S w c h m s fee = Inr tx \<Longrightarrow> spends_selection X W S w c tx"
  by (auto simp: pool_marker_spend_def Let_def result_simps intro: spends_selectionI)

lemma wallet_sends_selection: "wallet_sends X W S w c tx \<Longrightarrow> spends_selection X W S w c tx"
proof (induction rule: wallet_sends.induct)
  case (pay a v fee tx)
  then show ?case
    by (auto simp: create_signed_transaction_def result_simps split: if_split_asm dest!: selections intro: spends_selectionI)
next
  case (multi payments fee tx)
  then show ?case
    by (auto simp: create_multi_signed_transaction_def result_simps split: if_split_asm dest!: selections intro: spends_selectionI)
next
  case (jin_multi jins fee units asset tx)
  then show ?case
    by (auto simp: create_jin_multi_transfer_transaction_def Let_def result_simps split: if_split_asm
        dest!: selections intro: spends_selectionI)
next
  case (jin_send a units fee jin_fee asset tx)
  then show ?case
    by (auto simp: create_jin_transfer_transaction_def Let_def result_simps split: if_split_asm
        dest!: selections intro: spends_selectionI)
next
  case (conversion s units fee jin_fee asset tx)
  then show ?case
    by (auto simp: create_jin_token_conversion_transaction_def Let_def result_simps split: if_split_asm
        dest!: selections intro: spends_selectionI)
next
  case (sale listing units fee tx)
  then show ?case
    by (auto simp: create_jin_public_sale_buy_transaction_def Let_def result_simps split: if_split_asm
        dest!: selections intro: spends_selectionI)
next
  case (infuse units fee tx)
  then show ?case
    by (auto simp: create_qub_jin_infuse_transaction_def Let_def result_simps split: if_split_asm
        dest!: selections intro: spends_selectionI)
next
  case (melt v fee units tx)
  then show ?case
    by (auto simp: create_qub_melt_for_jin_transaction_def Let_def result_simps split: if_split_asm
        dest!: selections intro: spends_selectionI)
next
  case (blast v per_claim claims s fee tx)
  then show ?case
    by (auto simp: create_blast_create_transaction_qub_def result_simps split: if_split_asm
        dest!: selections intro: spends_selectionI)
next
  case (name s a fee tx)
  then show ?case
    by (auto simp: create_qns_registration_transaction_def Let_def result_simps split: if_split_asm intro: spends_selectionI)
next
  case (pool_create s a bps slots fee tx)
  then show ?case
    by (auto simp: create_pool_create_transaction_def Let_def result_simps split: if_split_asm intro: spends_selectionI)
next
  case (pool_topup i slots fee tx)
  then show ?case
    by (auto simp: create_pool_topup_transaction_def Let_def result_simps split: if_split_asm intro: spends_selectionI)
next
  case (pool_commission i bps fee tx)
  then show ?case
    by (auto simp: create_pool_set_commission_transaction_def Let_def result_simps split: if_split_asm intro: pool_marker_spends)
next
  case (pool_rename i s fee tx)
  then show ?case
    by (auto simp: create_pool_rename_transaction_def Let_def result_simps intro: pool_marker_spends)
next
  case (post title category body fee tx)
  then show ?case
    by (auto simp: create_library_post_transaction_def Let_def result_simps split: if_split_asm
        dest!: selections intro: spends_selectionI)
qed (auto simp: create_library_comment_transaction_def create_library_vote_transaction_def
    create_library_edit_transaction_def create_library_delete_transaction_def intro: library_marker_spends)

lemma signed_for_inputs:
  assumes "signed_for X S w c avoid target outs change_address tx"
  obtains sel n change req where "list_all (selected_ok X S w c avoid req) sel" and "distinct (map fst sel)"
    and "unat n = selected_value sel" and "target \<le> n" and "change_output (n - target) change_address = Inr change"
    and "tx_outputs tx = outs @ change" and "tx_version tx = 1" and "map previous_output (tx_inputs tx) = map fst sel"
    and "length (tx_inputs tx) = length sel"
    and "\<And>i. i < length sel \<Longrightarrow> verify_p2pkh_input X tx i (fst (snd (sel ! i))) = Inr ()"
    and "\<And>i. i < length sel \<Longrightarrow> short_key_script (signature_script (tx_inputs tx ! i))"
proof -
  from assms obtain sel n change req where s: "list_all (selected_ok X S w c avoid req) sel" "distinct (map fst sel)"
      "unat n = selected_value sel" "target \<le> n" "change_output (n - target) change_address = Inr change"
    and shape: "same_shape (unsigned_tx sel (outs @ change)) tx"
    and v: "\<And>i. i < length sel \<Longrightarrow> verify_p2pkh_input X tx i (fst (snd (sel ! i))) = Inr ()"
      "\<And>i. i < length sel \<Longrightarrow> short_key_script (signature_script (tx_inputs tx ! i))"
    by (auto simp: signed_for_def)
  have "map previous_output (tx_inputs tx) = map fst sel" "tx_outputs tx = outs @ change" "tx_version tx = 1"
    using shape by (auto simp: same_shape_def unsigned_tx_def comp_def case_prod_beta)
  moreover have "length (tx_inputs tx) = length sel"
    using same_shape_length [OF shape] by (simp add: unsigned_tx_def)
  ultimately show thesis using s v by (intro that)
qed

lemma next_height:
  assumes "length (cs_blocks c) < 2 ^ 32"
  shows "unat (chain_height c + 1) = unat (chain_height c) + 1" and "spend_height c = chain_height c + 1"
proof -
  have "unat (chain_height c) = length (cs_blocks c) - 1" using assms by (simp add: chain_height_def unat_of_nat_less)
  with assms have "unat (chain_height c) + 1 < 2 ^ 32" by (cases "cs_blocks c") simp_all
  then show "unat (chain_height c + 1) = unat (chain_height c) + 1" by (simp add: unat_word_ariths)
  with \<open>unat (chain_height c) + 1 < 2 ^ 32\<close> show "spend_height c = chain_height c + 1"
    by (intro word_unat_eq_iff [THEN iffD2]) (simp add: spend_height_def unat_sat_add)
qed

lemma mature_next:
  assumes "length (cs_blocks c) < 2 ^ 32" and "\<not> is_immature_coinbase coin (chain_height c) S" and "coin_is_coinbase coin"
  shows "unat (cons_coinbase_maturity (consensus S)) \<le> unat (chain_height c + 1) - unat (coin_height coin)"
  using assms(2,3) next_height(1) [OF assms(1)]
  by (simp add: is_immature_coinbase_def not_less word_le_nat_alt unat_sat_sub)

lemma signed_for_authorised:
  assumes "length (cs_blocks c) < 2 ^ 32" and "signed_for X S w c avoid target outs change_address tx"
    and "i < length (tx_inputs tx)"
  shows "input_authorised X tx (cs_utxos c) (chain_height c + 1) S i \<and>
    (\<exists>coin key public. fmlookup (cs_utxos c) (previous_output (tx_inputs tx ! i)) = Some coin \<and>
      previous_output (tx_inputs tx ! i) \<notin> avoid \<and> key \<in> set (wl_keys w) \<and> wallet_public_key X key = Inr public \<and>
      p2pkh_payload (script_pubkey (coin_out coin)) = Some (public_key_hash X public))"
proof -
  from assms(2) show ?thesis
  proof (rule signed_for_inputs)
    fix sel n change req
    assume ok: "list_all (selected_ok X S w c avoid req) sel" and prev: "map previous_output (tx_inputs tx) = map fst sel"
      and len: "length (tx_inputs tx) = length sel"
      and v: "\<And>i. i < length sel \<Longrightarrow> verify_p2pkh_input X tx i (fst (snd (sel ! i))) = Inr ()"
    obtain p coin k where x: "sel ! i = (p, coin, k)" by (cases "sel ! i")
    from prev assms(3) len have p: "previous_output (tx_inputs tx ! i) = p" by (metis fst_conv nth_map x)
    from ok assms(3) len x have "selected_ok X S w c avoid req (p, coin, k)" by (metis list_all_length)
    then have s: "fmlookup (cs_utxos c) p = Some coin" "p \<notin> avoid" "\<not> is_immature_coinbase coin (chain_height c) S"
      "k \<in> set (wl_keys w)" "\<exists>public. wallet_public_key X k = Inr public \<and>
        p2pkh_payload (script_pubkey (coin_out coin)) = Some (public_key_hash X public)"
      by (auto simp: selected_ok_def)
    from v [of i] x assms(3) len have "verify_p2pkh_input X tx i coin = Inr ()" by simp
    with s p mature_next [OF assms(1) s(3)] show ?thesis
      unfolding verify_p2pkh_input_Inr by (auto simp: input_authorised_def)
  qed
qed

text \<open>
  C8: A wallet signs only for its own mature coins, and its signatures verify. Every input of every
  transaction a wallet builds, whatever it is for, spends a different coin of the UTXO set that is
  locked to a key of the wallet, is mature for the next block, and carries a signature the node's check
  accepts.
\<close>

theorem wallet_spends_authorised:
  assumes "extern_ok X" and "wallet_env_ok X W" and "wallet_ok X W S w" and "length (cs_blocks c) < 2 ^ 32"
    and "wallet_sends X W S w c tx"
  shows "distinct (map previous_output (tx_inputs tx)) \<and>
    (\<forall>i < length (tx_inputs tx). input_authorised X tx (cs_utxos c) (chain_height c + 1) S i \<and>
      (\<exists>coin key public. fmlookup (cs_utxos c) (previous_output (tx_inputs tx ! i)) = Some coin \<and>
        key \<in> set (wl_keys w) \<and> wallet_public_key X key = Inr public \<and>
        p2pkh_payload (script_pubkey (coin_out coin)) = Some (public_key_hash X public)))"
proof -
  from wallet_sends_selection [OF assms(5)] obtain avoid req target e sel outs change_address
    where "select_from X W S w c avoid req target e = Inr sel" "signed_spend X sel target outs change_address = Inr tx"
    by (auto simp: spends_selection_def)
  then have s: "signed_for X S w c avoid target outs change_address tx" by (rule signed_spend_for [OF assms(1-3)])
  then have "distinct (map previous_output (tx_inputs tx))" by (rule signed_for_inputs) simp
  with signed_for_authorised [OF assms(4) s] show ?thesis by blast
qed

section \<open>Payments\<close>

text \<open>A pay-to-public-key-hash script is no marker: its first byte is not a letter of a prefix.\<close>

definition pays_keys :: "tx_out list \<Rightarrow> bool" where
  "pays_keys outs \<longleftrightarrow> (\<forall>out \<in> set outs. p2pkh_payload (script_pubkey out) \<noteq> None)"

lemma p2pkh_no_marker:
  assumes "p2pkh_payload s \<noteq> None"
  shows "parse_qns_marker_script X s S = None" and "parse_jin_marker_script X s S = None"
    and "parse_jin_conversion_script X s S = None" and "parse_qub_jin_infusion_script X s S = None"
    and "parse_jin_sale_purchase_script X s S = None" and "parse_library_marker_script X s S = None"
    and "parse_verified_governance_marker_script X s S = None" and "parse_blast_vault_script X s S = None"
    and "parse_pool_create_marker_script X s S = None" and "parse_pool_topup_marker_script X s S = None"
    and "parse_pool_commission_marker_script X s S = None" and "parse_pool_rename_marker_script X s S = None"
proof -
  from assms obtain t where s: "s = CHR 0x76 # t" by (auto simp: p2pkh_payload_iff)
  have no: "\<not> starts_with s (d # p)" if "d \<noteq> CHR 0x76" for d p
    using that starts_with_first [of "CHR 0x76" t d p] by (auto simp: s)
  have self: "Option.bind (from_utf8 s) f = None" if "f s = None" for f :: "string \<Rightarrow> 'b option"
    using that by (simp add: from_utf8_def)
  show "parse_qns_marker_script X s S = None" "parse_jin_marker_script X s S = None"
    "parse_jin_conversion_script X s S = None" "parse_verified_governance_marker_script X s S = None"
    "parse_blast_vault_script X s S = None"
    by (simp_all add: parse_qns_marker_script_def parse_jin_marker_script_def parse_jin_conversion_script_def
        parse_verified_governance_marker_script_def parse_blast_vault_script_def QNS_SCRIPT_PREFIX_def JIN_SCRIPT_PREFIX_def
        VERIFIED_GOVERNANCE_SCRIPT_PREFIX_def BLAST_SCRIPT_PREFIX_def no)
  show "parse_qub_jin_infusion_script X s S = None" "parse_jin_sale_purchase_script X s S = None"
    "parse_library_marker_script X s S = None"
    unfolding parse_qub_jin_infusion_script_def parse_jin_sale_purchase_script_def parse_library_marker_script_def
      QUB_JIN_INFUSION_SCRIPT_PREFIX_def JIN_SWAP_SCRIPT_PREFIX_def LIBRARY_SCRIPT_PREFIX_def
    by (rule self, simp add: no)+
  show "parse_pool_create_marker_script X s S = None" "parse_pool_topup_marker_script X s S = None"
    "parse_pool_commission_marker_script X s S = None" "parse_pool_rename_marker_script X s S = None"
    by (simp_all add: parse_pool_create_marker_script_def parse_pool_topup_marker_script_def
        parse_pool_commission_marker_script_def parse_pool_rename_marker_script_def pool_fields_def
        POOL_CREATE_PREFIX_def POOL_TOPUP_PREFIX_def POOL_COMMISSION_PREFIX_def POOL_RENAME_PREFIX_def no)
qed

lemma no_markers_in:
  assumes "\<And>out. out \<in> set (tx_outputs tx) \<Longrightarrow> parse (script_pubkey out) = None"
  shows "markers_in parse tx = []"
  using assms by (fastforce simp: markers_in_def List.map_filter_def filter_empty_conv in_set_enumerate_eq)

lemma pays_keys_markerless:
  assumes "pays_keys (tx_outputs tx)"
  shows "markerless X S tx" and "blast_creates_in_tx X tx S = []"
proof -
  note none = p2pkh_no_marker [OF assms [unfolded pays_keys_def, rule_format]]
  have "blast_creates_in_tx X tx S = markers_in (\<lambda>s. parse_blast_vault_script X s S) tx"
    "qns_registrations_in_tx X tx S = markers_in (\<lambda>s. parse_qns_marker_script X s S) tx"
    by (simp_all add: blast_creates_in_tx_def qns_registrations_in_tx_def markers_in_def)
  then show "markerless X S tx" "blast_creates_in_tx X tx S = []"
    by (simp_all add: markerless_def pool_action_count_def jin_sale_purchases_in_tx_def qub_jin_infusion_markers_in_tx_def
        jin_transfers_in_tx_def jin_conversions_in_tx_def library_markers_in_tx_def verified_governance_markers_in_tx_def
        pool_creates_in_tx_def pool_topups_in_tx_def pool_commissions_in_tx_def pool_renames_in_tx_def no_markers_in none)
qed

lemma selected_value_le:
  "distinct (map fst sel) \<Longrightarrow> \<forall>(p, coin, k) \<in> set sel. fmlookup u p = Some coin \<Longrightarrow> selected_value sel \<le> utxo_total u"
proof (induction sel arbitrary: u)
  case (Cons x sel)
  obtain p coin k where x: "x = (p, coin, k)" by (cases x)
  from Cons.prems have p: "fmlookup u p = Some coin" by (simp add: x)
  have "\<forall>(q, coin, k) \<in> set sel. fmlookup (fmdrop p u) q = Some coin"
    using Cons.prems by (force simp: x)
  with Cons.IH [of "fmdrop p u"] Cons.prems(1) fm_total_drop [OF p, of coin_value] show ?case
    by (simp add: x selected_value_def utxo_total_def)
qed (simp add: selected_value_def)

lemma add_outputs_ok:
  assumes "\<forall>out \<in> set outs. out_value out \<noteq> 0 \<and> out_value out \<le> MAX_MONEY_ATOMS"
    and "n + sum_list (map (\<lambda>out. unat (out_value out)) outs) \<le> unat (cons_max_money_atoms (consensus S))"
  shows "fold_r (add_output_value S) outs n = Inr (n + sum_list (map (\<lambda>out. unat (out_value out)) outs))"
  using assms
proof (induction outs arbitrary: n)
  case (Cons out outs)
  then have "add_output_value S out n = Inr (n + unat (out_value out))"
    by (simp add: add_output_value_Inr word_le_nat_alt)
  with Cons show ?case by (simp add: add.assoc)
qed simp

lemma check_inputs_ok:
  assumes "\<And>j. j < length ins \<Longrightarrow> \<exists>coin. fmlookup u (previous_output (ins ! j)) = Some coin \<and>
      (coin_is_coinbase coin \<longrightarrow> unat (cons_coinbase_maturity (consensus S)) \<le> unat h - unat (coin_height coin)) \<and>
      verify_p2pkh_input X tx (m + j) coin = Inr ()"
  shows "fold_r (check_input X tx u h S True) (enumerate m ins) n = Inr (n + inputs_total u ins)"
  using assms
proof (induction ins arbitrary: m n)
  case (Cons i ins)
  from Cons.prems [of 0] obtain coin where c: "fmlookup u (previous_output i) = Some coin"
    "coin_is_coinbase coin \<longrightarrow> unat (cons_coinbase_maturity (consensus S)) \<le> unat h - unat (coin_height coin)"
    "verify_p2pkh_input X tx m coin = Inr ()" by auto
  then have "check_input X tx u h S True (m, i) n = Inr (n + coin_value coin)" by (simp add: check_input_Inr)
  moreover have "fold_r (check_input X tx u h S True) (enumerate (Suc m) ins) (n + coin_value coin) =
      Inr (n + coin_value coin + inputs_total u ins)"
  proof (rule Cons.IH)
    fix j assume "j < length ins"
    with Cons.prems [of "Suc j"] show "\<exists>coin. fmlookup u (previous_output (ins ! j)) = Some coin \<and>
      (coin_is_coinbase coin \<longrightarrow> unat (cons_coinbase_maturity (consensus S)) \<le> unat h - unat (coin_height coin)) \<and>
      verify_p2pkh_input X tx (Suc m + j) coin = Inr ()" by simp
  qed
  ultimately show ?case using c by (simp add: inputs_total_def add.assoc)
qed (simp add: inputs_total_def)

text \<open>The signature script of a signed input is no Blast claim: its first byte is the length of the key.\<close>

lemma two_bytes: "le_nat 2 v = [char_of (v mod 256), char_of (v div 256 mod 256)]"
  using le_nat.simps(2) [of 1 v] le_nat.simps(2) [of 0 "v div 256"] by (simp add: numeral_2_eq_2 del: le_nat.simps(2))

lemma short_key_not_claim:
  assumes "short_key_script s"
  shows "parse_blast_claim_script X s S = None"
proof -
  from assms obtain pk sig where enc: "encode_sig_script pk sig = Inr s" and len: "length pk \<le> 65"
    by (auto simp: short_key_script_def)
  then have "s = char_of (length pk) # char_of (0 :: nat) # pk @ u16_le (of_nat (length sig)) @ sig"
    by (auto simp: encode_sig_script_def u16_le_def unat_of_nat take_bit_nat_eq_self two_bytes split: if_split_asm)
  moreover have "char_of (length pk) \<noteq> CHR ''B''"
    using len by (auto dest: arg_cong [where f = "of_char :: char \<Rightarrow> nat"])
  ultimately show ?thesis
    by (auto simp: parse_blast_claim_script_def BLAST_SCRIPT_PREFIX_def dest!: starts_with_first)
qed

lemma change_output_Inr:
  assumes "change_output v a = Inr change"
  shows "v = 0 \<and> change = [] \<or>
    (\<exists>b. v \<noteq> 0 \<and> a = Inr b \<and> change = [\<lparr>out_value = v, script_pubkey = address_script_pubkey b\<rparr>])"
  using assms unfolding change_output_def tx_output_def amount_from_atoms_def
  by (auto simp: result_simps word_gt_0 split: if_split_asm)

lemma change_pays:
  assumes "change_output v a = Inr change"
  shows "sum_list (map (\<lambda>out. unat (out_value out)) change) = unat v" and "\<forall>out \<in> set change. out_value out \<noteq> 0"
    and "length change \<le> 1"
    and "(\<And>b. a = Inr b \<Longrightarrow> length (addr_payload b) = 20) \<Longrightarrow> pays_keys change"
  using change_output_Inr [OF assms] by (auto simp: pays_keys_def)

lemma payment_valid:
  assumes s: "signed_for X S w c avoid target outs change_address tx" and len: "length (cs_blocks c) < 2 ^ 32"
    and keys: "pays_keys outs" "\<forall>out \<in> set outs. out_value out \<noteq> 0" "outs \<noteq> []" "length outs \<le> MAX_SEND_ENTRIES_PER_TX"
    and fee: "sum_list (map (\<lambda>out. unat (out_value out)) outs) + unat fee = unat target"
    and own: "\<And>a. change_address = Inr a \<Longrightarrow> length (addr_payload a) = 20"
    and money: "utxo_total (cs_utxos c) \<le> unat (cons_max_money_atoms (consensus S))"
      "utxo_total (cs_utxos c) \<le> unat MAX_MONEY_ATOMS"
    and null: "fmlookup (cs_utxos c) outpoint_null = None"
  shows "validate_tx_contextual X tx (cs_utxos c) (chain_height c + 1) S True = Inr fee"
    and "pays_keys (tx_outputs tx)" and "\<not> is_pool_share_transaction tx" and "set (spent_outpoints tx) \<inter> avoid = {}"
    and "inputs_total (cs_utxos c) (tx_inputs tx) = outputs_total tx + unat fee"
proof -
  obtain sel n change req where ok: "list_all (selected_ok X S w c avoid req) sel" "distinct (map fst sel)"
      "unat n = selected_value sel" "target \<le> n" "change_output (n - target) change_address = Inr change"
    and outs: "tx_outputs tx = outs @ change" and version: "tx_version tx = 1"
    and prev: "map previous_output (tx_inputs tx) = map fst sel" and length: "length (tx_inputs tx) = length sel"
    and v: "\<And>i. i < length sel \<Longrightarrow> verify_p2pkh_input X tx i (fst (snd (sel ! i))) = Inr ()"
      "\<And>i. i < length sel \<Longrightarrow> short_key_script (signature_script (tx_inputs tx ! i))"
    by (rule signed_for_inputs [OF s]) (rule that, assumption+)
  note change = change_pays [OF ok(5)]
  show pays: "pays_keys (tx_outputs tx)" using keys(1) change(4) own by (auto simp: outs pays_keys_def)
  show share: "\<not> is_pool_share_transaction tx" using keys(3) by (simp add: is_pool_share_transaction_def outs)
  have each: "fmlookup (cs_utxos c) p = Some coin \<and> p \<notin> avoid \<and> \<not> is_immature_coinbase coin (chain_height c) S"
    if "(p, coin, k) \<in> set sel" for p coin k
    using ok(1) that by (auto simp: list_all_iff selected_ok_def)
  have "set (spent_outpoints tx) \<subseteq> set (map fst sel)" unfolding prev [symmetric] by (auto simp: spent_outpoints_def)
  with each show "set (spent_outpoints tx) \<inter> avoid = {}" by fastforce
  \<comment> \<open>value\<close>
  have total: "outputs_total tx + unat fee = selected_value sel"
    using change(1) ok(3,4) fee by (simp add: outputs_total_def outs word_le_nat_alt unat_sub)
  have le: "selected_value sel \<le> utxo_total (cs_utxos c)"
    by (rule selected_value_le [OF ok(2)]) (use each in auto)
  have "0 < sum_list (map (\<lambda>out. unat (out_value out)) outs)"
    using keys(2,3) by (cases outs) (auto simp: unat_gt_0)
  then have "0 < outputs_total tx" by (simp add: outputs_total_def outs)
  with total have "sel \<noteq> []" by (auto simp: selected_value_def)
  have some_in: "tx_inputs tx \<noteq> []" using length \<open>sel \<noteq> []\<close> by auto
  have value_le: "unat (out_value out) \<le> outputs_total tx" if "out \<in> set (tx_outputs tx)" for out
    unfolding outputs_total_def using that by (intro member_le_sum_list) auto
  have "out_value out \<noteq> 0 \<and> out_value out \<le> MAX_MONEY_ATOMS" if "out \<in> set (tx_outputs tx)" for out
    using that value_le [OF that] keys(2) change(2) total le money(2) by (auto simp: outs word_le_nat_alt)
  with add_outputs_ok [of "tx_outputs tx" 0 S] total le money(1)
  have add: "fold_r (add_output_value S) (tx_outputs tx) 0 = Inr (outputs_total tx)"
    by (simp add: outputs_total_def)
  \<comment> \<open>kind\<close>
  have "previous_output (tx_inputs tx ! 0) \<in> set (map fst sel)"
    unfolding prev [symmetric] using some_in by auto
  with each null have "previous_output (tx_inputs tx ! 0) \<noteq> outpoint_null" by fastforce
  then have coinbase: "\<not> is_coinbase tx" by (simp add: is_coinbase_def)
  have claim: "\<not> is_blast_claim_transaction X tx S"
    using v(2) [of 0] \<open>sel \<noteq> []\<close> short_key_not_claim by (auto simp: is_blast_claim_transaction_def)
  have stateless: "validate_tx_stateless tx S = Inr ()"
    using share coinbase some_in keys(3,4) change(3) add prev ok(2)
    by (simp add: validate_tx_stateless_def outs all_fresh_iff)
  \<comment> \<open>inputs\<close>
  have spent: "inputs_total (cs_utxos c) (tx_inputs tx) = selected_value sel"
  proof -
    have "inputs_total (cs_utxos c) (tx_inputs tx) =
        sum_list (map (\<lambda>p. case fmlookup (cs_utxos c) p of None \<Rightarrow> 0 | Some c \<Rightarrow> coin_value c) (map fst sel))"
      unfolding prev [symmetric] by (simp add: inputs_total_def comp_def)
    also have "\<dots> = selected_value sel"
      unfolding selected_value_def map_map
      by (rule arg_cong [where f = sum_list], rule map_cong [OF refl]) (use each in fastforce)
    finally show ?thesis .
  qed
  then show "inputs_total (cs_utxos c) (tx_inputs tx) = outputs_total tx + unat fee" using total by simp
  have "fold_r (check_input X tx (cs_utxos c) (chain_height c + 1) S True) (enumerate 0 (tx_inputs tx)) 0 =
      Inr (0 + inputs_total (cs_utxos c) (tx_inputs tx))"
  proof (rule check_inputs_ok)
    fix j assume j: "j < length (tx_inputs tx)"
    obtain p coin k where x: "sel ! j = (p, coin, k)" by (cases "sel ! j")
    with j length have "(p, coin, k) \<in> set sel" by (metis nth_mem)
    note c = each [OF this]
    from prev j length have "previous_output (tx_inputs tx ! j) = p" by (metis fst_conv nth_map x)
    with c v(1) [of j] j length x mature_next [OF len, of coin S]
    show "\<exists>coin. fmlookup (cs_utxos c) (previous_output (tx_inputs tx ! j)) = Some coin \<and>
      (coin_is_coinbase coin \<longrightarrow> unat (cons_coinbase_maturity (consensus S)) \<le> unat (chain_height c + 1) - unat (coin_height coin)) \<and>
      verify_p2pkh_input X tx (0 + j) coin = Inr ()" by auto
  qed
  then have inputs: "fold_r (check_input X tx (cs_utxos c) (chain_height c + 1) S True) (enumerate 0 (tx_inputs tx)) 0 =
      Inr (outputs_total tx + unat fee)" using total spent by simp
  show "validate_tx_contextual X tx (cs_utxos c) (chain_height c + 1) S True = Inr fee"
    using stateless coinbase share claim inputs pays_keys_markerless(2) [OF pays, of X S]
    by (simp add: validate_tx_contextual_def validate_blast_create_outputs_def Let_def outputs_total_def [symmetric])
qed

section \<open>From the wallet to the mempool\<close>

text \<open>A payment, by either of the two functions that build one, and the outputs it asks for.\<close>

definition payment_outputs :: "(address \<times> amount) list \<Rightarrow> tx_out list" where
  "payment_outputs payments =
     map (\<lambda>(recipient, amount). \<lparr>out_value = amount, script_pubkey = address_script_pubkey recipient\<rparr>) payments"

definition wallet_pays ::
  "extern \<Rightarrow> wallet_env \<Rightarrow> settings \<Rightarrow> wallet_file \<Rightarrow> chain_state \<Rightarrow> (address \<times> amount) list \<Rightarrow> amount \<Rightarrow> transaction \<Rightarrow> bool" where
  "wallet_pays X W S w c payments fee tx \<longleftrightarrow>
     create_multi_signed_transaction X W S w c payments fee = Inr tx \<or>
     (case payments of
        [(recipient, amount)] \<Rightarrow> amount \<noteq> 0 \<and> create_signed_transaction X W S w c recipient amount fee = Inr tx
      | _ \<Rightarrow> False)"

lemma multi_send_fold:
  assumes "fold_r (\<lambda>(recipient, amount) n.
       if \<not> own_prefix S recipient then Inl (WalletErr WRecipientNetworkMismatch)
       else if amount = 0 then Inl (WalletErr WMultiSendZero)
       else ok_or (WalletErr WMultiSendOverflow) (checked_add n amount)) payments n = Inr total_pay"
  shows "unat total_pay = unat n + sum_list (map (\<lambda>out. unat (out_value out)) (payment_outputs payments)) \<and>
    (\<forall>out \<in> set (payment_outputs payments). out_value out \<noteq> 0)"
  using assms
  by (induction payments arbitrary: n)
    (force simp: payment_outputs_def result_simps checked_add_Some split: if_split_asm prod.splits)+

lemma wallet_pays_signed:
  assumes "extern_ok X" and "wallet_env_ok X W" and "wallet_ok X W S w" and "wallet_pays X W S w c payments fee tx"
  shows "\<exists>target. signed_for X S w c (pending_spent_outpoints c) target (payment_outputs payments) (default_wallet_address X S w) tx \<and>
    sum_list (map (\<lambda>out. unat (out_value out)) (payment_outputs payments)) + unat fee = unat target \<and>
    (\<forall>out \<in> set (payment_outputs payments). out_value out \<noteq> 0) \<and>
    payments \<noteq> [] \<and> length payments \<le> MAX_SEND_ENTRIES_PER_TX"
  using assms(4)[unfolded wallet_pays_def]
proof
  assume "create_multi_signed_transaction X W S w c payments fee = Inr tx"
  then obtain total_pay target sel where len: "payments \<noteq> []" "length payments \<le> MAX_SEND_ENTRIES_PER_TX"
    and n: "multi_send_total S payments = Inr total_pay" and t: "checked_add total_pay fee = Some target"
    and sel: "select_signed_inputs_for_target X W S w c target = Inr sel"
    and s: "signed_spend X sel target (payment_outputs payments) (default_wallet_address X S w) = Inr tx"
    by (auto simp: create_multi_signed_transaction_def result_simps payment_outputs_def split: if_split_asm)
  from select_any_Inr [OF sel] obtain req e
    where "select_from X W S w c (pending_spent_outpoints c) req target e = Inr sel" by blast
  from signed_spend_for [OF assms(1-3) this s] multi_send_fold [OF n [unfolded multi_send_total_def]] t len
  show ?thesis by (auto simp: checked_add_Some)
next
  assume "case payments of [(recipient, amount)] \<Rightarrow> amount \<noteq> 0 \<and> create_signed_transaction X W S w c recipient amount fee = Inr tx
      | _ \<Rightarrow> False"
  then obtain recipient amount where p: "payments = [(recipient, amount)]" "amount \<noteq> 0"
    and tx: "create_signed_transaction X W S w c recipient amount fee = Inr tx"
    by (cases payments rule: remdups_adj.cases) auto
  from tx obtain target sel where t: "amount_checked_add amount fee = Inr target"
    and sel: "select_signed_inputs_for_target X W S w c target = Inr sel"
    and s: "signed_spend X sel target (payment_outputs payments) (default_wallet_address X S w) = Inr tx"
    by (auto simp: create_signed_transaction_def result_simps payment_outputs_def p split: if_split_asm)
  from select_any_Inr [OF sel] obtain req e
    where "select_from X W S w c (pending_spent_outpoints c) req target e = Inr sel" by blast
  from signed_spend_for [OF assms(1-3) this s] t p show ?thesis
    by (auto simp: amount_checked_add_def result_simps checked_add_Some amount_from_atoms_def payment_outputs_def
        MAX_SEND_ENTRIES_PER_TX_def split: if_split_asm)
qed

text \<open>
  C7: The node accepts what the wallet pays. A payment to one or to many recipients (addresses of 20 bytes)
  that a wallet builds over a reachable state of a node is admitted to the mempool of that node when its
  fee is at least the minimum relay fee (the builder does not enforce one), the mempool is not full, no
  pending transaction has its id, all coins together are within the money limit and none of them sits at
  the null outpoint. It then creates exactly the requested outputs, returns the change
  to the wallet's own default address, and leaves exactly the fee it announced.
\<close>

theorem wallet_payment_accepted:
  assumes "extern_ok X" and "wallet_env_ok X W" and "wallet_ok X W S w"
    and "node_reachable X S c" and "length (cs_blocks c) < 2 ^ 32"
    and "wallet_pays X W S w c payments fee tx"
    and "\<forall>(recipient, amount) \<in> set payments. length (addr_payload recipient) = 20"
    and "mp_min_relay_fee_atoms (mempool_cfg S) \<le> fee"
    and "length (cs_mempool c) < unat (effective_mempool_max_transactions S)"
    and "\<forall>t \<in> set (cs_mempool c). txid X t \<noteq> txid X tx"
    and "utxo_total (cs_utxos c) \<le> unat (min (cons_max_money_atoms (consensus S)) MAX_MONEY_ATOMS)"
    and "fmlookup (cs_utxos c) outpoint_null = None"
  shows "accept_transaction_to_mempool X S tx c = (Inr (txid X tx), push_tx tx c) \<and>
    (\<exists>change. tx_outputs tx = payment_outputs payments @ change \<and> length change \<le> 1 \<and>
      (\<forall>out \<in> set change. \<exists>a. default_wallet_address X S w = Inr a \<and> script_pubkey out = address_script_pubkey a)) \<and>
    inputs_total (cs_utxos c) (tx_inputs tx) = outputs_total tx + unat fee"
proof -
  from wallet_pays_signed [OF assms(1-3,6)] obtain target
    where s: "signed_for X S w c (pending_spent_outpoints c) target (payment_outputs payments) (default_wallet_address X S w) tx"
    and t: "sum_list (map (\<lambda>out. unat (out_value out)) (payment_outputs payments)) + unat fee = unat target"
    and outs: "\<forall>out \<in> set (payment_outputs payments). out_value out \<noteq> 0"
      "payments \<noteq> []" "length payments \<le> MAX_SEND_ENTRIES_PER_TX" by blast
  have keys: "pays_keys (payment_outputs payments)" "payment_outputs payments \<noteq> []"
      "length (payment_outputs payments) \<le> MAX_SEND_ENTRIES_PER_TX"
    using assms(7) outs by (auto simp: pays_keys_def payment_outputs_def)
  have own: "length (addr_payload a) = 20" if "default_wallet_address X S w = Inr a" for a
    using that address_from_str_wf [OF assms(1)]
    by (auto simp: default_wallet_address_def result_simps parse_with_prefix_Inr wf_address_def)
  have money: "utxo_total (cs_utxos c) \<le> unat (cons_max_money_atoms (consensus S))"
      "utxo_total (cs_utxos c) \<le> unat MAX_MONEY_ATOMS"
    using assms(11) by (auto simp: min_def word_le_nat_alt split: if_split_asm)
  note valid = payment_valid [OF s assms(5) keys(1) outs(1) keys(2,3) t own money assms(12)]
  from reachable_ok [OF assms(4)] have "valid_chain X S (cs_blocks c) (cs_utxos c)" by (simp add: node_ok_def chain_ok_def)
  from valid_chain_registries [OF this assms(5)] obtain reg where "pools_registry_from_blocks X S (cs_blocks c) = Inr reg" by blast
  then have "accept_transaction_to_mempool X S tx c = (Inr (txid X tx), push_tx tx c)"
    using valid(4) assms(8)
    by (intro markerless_admitted [OF pays_keys_markerless(1) [OF valid(2)] valid(3) _ _ _ _ assms(9,10)])
      (auto simp: next_height(2) [OF assms(5)] valid(1) pending_spent_outpoints_def)
  moreover from s obtain change n where "tx_outputs tx = payment_outputs payments @ change"
    "change_output (n - target) (default_wallet_address X S w) = Inr change" by (rule signed_for_inputs)
  ultimately show ?thesis using valid(5) change_output_Inr by fastforce
qed

end
