(* ===== verification/WalletPost.thy ===== *)
theory WalletPost
  imports WalletSafety
begin

text \<open>
  What becomes of a library post: the wallet cuts the text into pages that end between characters, and
  the library puts the pages together again. The lemmas on UTF-8 show that a valid text stays valid
  when white space is trimmed at its ends; the theorem is the round trip, in which each page comes
  back trimmed.
\<close>

section \<open>Valid UTF-8 in pieces\<close>

fun utf8_char :: "nat list \<Rightarrow> bool" where
  "utf8_char [b] \<longleftrightarrow> b < 0x80"
| "utf8_char [b, b1] \<longleftrightarrow> 0xC2 \<le> b \<and> b \<le> 0xDF \<and> utf8_cont b1"
| "utf8_char [b, b1, b2] \<longleftrightarrow>
     0xE0 \<le> b \<and> b \<le> 0xEF \<and> utf8_cont b1 \<and> utf8_cont b2 \<and> (b = 0xE0 \<longrightarrow> 0xA0 \<le> b1) \<and> (b = 0xED \<longrightarrow> b1 \<le> 0x9F)"
| "utf8_char [b, b1, b2, b3] \<longleftrightarrow>
     0xF0 \<le> b \<and> b \<le> 0xF4 \<and> utf8_cont b1 \<and> utf8_cont b2 \<and> utf8_cont b3 \<and>
     (b = 0xF0 \<longrightarrow> 0x90 \<le> b1) \<and> (b = 0xF4 \<longrightarrow> b1 \<le> 0x8F)"
| "utf8_char _ \<longleftrightarrow> False"

lemma utf8_char_tl: "utf8_char c \<Longrightarrow> c \<noteq> [] \<and> list_all utf8_cont (tl c)"
  by (induction c rule: utf8_char.induct) simp_all

lemma utf8_decode_char: "utf8_char c \<Longrightarrow> utf8_decode (c @ r) = None \<longleftrightarrow> utf8_decode r = None"
  by (induction c rule: utf8_char.induct) simp_all

lemma utf8_decode_chars: "list_all utf8_char cs \<Longrightarrow> utf8_decode (concat cs @ r) = None \<longleftrightarrow> utf8_decode r = None"
  by (induction cs) (simp_all add: utf8_decode_char)

lemma utf8_first_char:
  assumes "utf8_decode (b # r) \<noteq> None"
  shows "\<exists>c s. utf8_char c \<and> b # r = c @ s \<and> utf8_decode s \<noteq> None"
proof -
  consider (one) "b < 0x80" | (two) "0xC2 \<le> b" "b \<le> 0xDF" | (three) "0xE0 \<le> b" "b \<le> 0xEF" | (four) "0xF0 \<le> b" "b \<le> 0xF4"
    using assms by (auto split: if_split_asm)
  then show ?thesis
  proof cases
    case one
    with assms show ?thesis by (intro exI [of _ "[b]"] exI [of _ r]) simp
  next
    case two
    with assms obtain b1 s where "r = b1 # s" "utf8_cont b1" "utf8_decode s \<noteq> None"
      by (auto split: list.splits if_split_asm)
    with two show ?thesis by (intro exI [of _ "[b, b1]"] exI [of _ s]) simp
  next
    case three
    with assms obtain b1 b2 s where "r = b1 # b2 # s" "utf8_char [b, b1, b2]" "utf8_decode s \<noteq> None"
      by (auto split: list.splits if_split_asm)
    then show ?thesis by (intro exI [of _ "[b, b1, b2]"] exI [of _ s]) simp
  next
    case four
    with assms obtain b1 b2 b3 s where "r = b1 # b2 # b3 # s" "utf8_char [b, b1, b2, b3]" "utf8_decode s \<noteq> None"
      by (auto split: list.splits if_split_asm)
    then show ?thesis by (intro exI [of _ "[b, b1, b2, b3]"] exI [of _ s]) simp
  qed
qed

lemma utf8_decode_iff: "utf8_decode s \<noteq> None \<longleftrightarrow> (\<exists>cs. list_all utf8_char cs \<and> s = concat cs)"
proof
  show "\<exists>cs. list_all utf8_char cs \<and> s = concat cs" if "utf8_decode s \<noteq> None"
    using that
  proof (induction s rule: length_induct)
    case (1 s)
    show ?case
    proof (cases s)
      case Nil
      then show ?thesis by (intro exI [of _ "[]"]) simp
    next
      case (Cons b r)
      with 1 utf8_first_char [of b r] obtain c t where c: "utf8_char c" "s = c @ t" "utf8_decode t \<noteq> None" by auto
      with utf8_char_tl [OF c(1)] have "length t < length s" by simp
      with 1 c obtain cs where "list_all utf8_char cs" "t = concat cs" by blast
      with c show ?thesis by (intro exI [of _ "c # cs"]) simp
    qed
  qed
  show "utf8_decode s \<noteq> None" if "\<exists>cs. list_all utf8_char cs \<and> s = concat cs"
    using that utf8_decode_chars [where r = "[]"] by auto
qed

text \<open>A byte that is no continuation begins a character.\<close>

lemma utf8_split_chars:
  assumes "list_all utf8_char cs" and "xs @ y # ys = concat cs" and "\<not> utf8_cont y"
  shows "\<exists>ds. list_all utf8_char ds \<and> xs = concat ds"
  using assms
proof (induction cs arbitrary: xs)
  case (Cons c cs)
  show ?case
  proof (cases "xs = []")
    case True
    then show ?thesis by (intro exI [of _ "[]"]) simp
  next
    case False
    from Cons.prems(2) have "xs @ y # ys = c @ concat cs" by simp
    then obtain us where "xs = c @ us \<and> us @ y # ys = concat cs \<or> c = xs @ us \<and> us @ concat cs = y # ys"
      unfolding append_eq_append_conv2 by metis
    then consider "xs = c @ us" "us @ y # ys = concat cs" | "us \<noteq> []" "c = xs @ us" "us @ concat cs = y # ys"
      by (cases "us = []") auto
    then show ?thesis
    proof cases
      case 1
      with Cons obtain ds where "list_all utf8_char ds" "us = concat ds" by auto
      with 1 Cons.prems(1) show ?thesis by (intro exI [of _ "c # ds"]) simp
    next
      case 2
      then have "y \<in> set (tl c)" using False by (cases us; cases xs) auto
      with Cons.prems utf8_char_tl [of c] show ?thesis by (auto simp: list_all_iff)
    qed
  qed
qed simp

lemma valid_utf8_iff: "from_utf8 s = Some s \<longleftrightarrow> utf8_decode (map of_char s) \<noteq> None"
  by (simp add: from_utf8_def utf8_chars_def)

lemma valid_utf8_drop:
  assumes "from_utf8 (a @ b) = Some (a @ b)" and "from_utf8 a = Some a"
  shows "from_utf8 b = Some b"
  using assms utf8_decode_chars [where r = "map of_char b"] unfolding valid_utf8_iff utf8_decode_iff [of "map of_char a"]
  by fastforce

lemma valid_utf8_take:
  assumes "from_utf8 (a @ c # b) = Some (a @ c # b)" and "\<not> utf8_cont (of_char c)"
  shows "from_utf8 a = Some a"
proof -
  from assms(1) obtain cs where "list_all utf8_char cs" "map of_char a @ of_char c # map of_char b = concat cs"
    unfolding valid_utf8_iff utf8_decode_iff by auto
  from utf8_split_chars [OF this assms(2)] show ?thesis unfolding valid_utf8_iff utf8_decode_iff .
qed

lemma ws_encodings_valid: "\<forall>e \<in> set ws_encodings. e \<noteq> [] \<and> from_utf8 e = Some e \<and> \<not> utf8_cont (of_char (hd e))"
  by (simp add: ws_encodings_def from_utf8_def utf8_chars_def utf8_cont_def)

lemma valid_trim_start:
  assumes "from_utf8 s = Some s"
  shows "from_utf8 (trim_encs ws_encodings s) = Some (trim_encs ws_encodings s)"
  using assms
proof (induction ws_encodings s rule: trim_encs.induct)
  case (1 s)
  show ?case
  proof (cases "find (\<lambda>e. e \<noteq> [] \<and> starts_with s e) ws_encodings")
    case None
    with 1 show ?thesis by (simp add: trim_encs_None)
  next
    case (Some e)
    then have e: "e \<in> set ws_encodings" "s = e @ drop (length e) s"
      by (auto simp: find_Some_iff starts_with_iff)
    with 1(2) ws_encodings_valid have "from_utf8 (drop (length e) s) = Some (drop (length e) s)"
      by (metis valid_utf8_drop)
    with 1(1) [OF Some] Some show ?thesis by (simp add: trim_encs.simps [of _ s])
  qed
qed

lemma valid_trim_end:
  assumes "from_utf8 (rev u) = Some (rev u)"
  shows "from_utf8 (rev (trim_encs (map rev ws_encodings) u)) = Some (rev (trim_encs (map rev ws_encodings) u))"
  using assms
proof (induction "map rev ws_encodings" u rule: trim_encs.induct)
  case (1 u)
  show ?case
  proof (cases "find (\<lambda>e. e \<noteq> [] \<and> starts_with u e) (map rev ws_encodings)")
    case None
    with 1 show ?thesis by (simp add: trim_encs_None)
  next
    case (Some e)
    then have "e \<in> set (map rev ws_encodings)" "u = e @ drop (length e) u"
      by (auto simp: find_Some_iff starts_with_iff)
    then obtain c d where e: "rev u = rev (drop (length e) u) @ c # d" "c # d \<in> set ws_encodings"
      using ws_encodings_valid by (metis (no_types, lifting) imageE list.exhaust list.set_map rev_append rev_rev_ident)
    with ws_encodings_valid have "\<not> utf8_cont (of_char c)" by fastforce
    with 1(2) have "from_utf8 (rev (drop (length e) u)) = Some (rev (drop (length e) u))"
      unfolding e(1) by (rule valid_utf8_take)
    with 1(1) [OF Some] Some show ?thesis by (simp add: trim_encs.simps [of _ u])
  qed
qed

lemma valid_utf8_trim: "from_utf8 s = Some s \<Longrightarrow> from_utf8 (trim s) = Some (trim s)"
  using valid_trim_start [of s] valid_trim_end [of "rev (trim_start s)"] by (simp add: trim_def trim_end_def trim_start_def)

section \<open>Pages\<close>

lemma page_end_valid: "from_utf8 (take (page_end b n) b) = Some (take (page_end b n) b) \<or> page_end b n = 0"
  by (induction n) (auto simp: from_utf8_def)

lemma split_pages_Inr:
  assumes "split_pages n b = Inr pages"
  shows "concat pages = b \<and> (\<forall>page \<in> set pages. page \<noteq> [] \<and> length page \<le> n \<and> from_utf8 page = Some page)"
  using assms
proof (induction n b arbitrary: pages rule: split_pages.induct)
  case (1 n b)
  let ?e = "page_end b (min n (length b))"
  show ?case
  proof (cases "b = []")
    case True
    with 1(2) show ?thesis by (simp add: split_pages.simps)
  next
    case False
    with 1(2) obtain ps where e: "?e \<noteq> 0" "from_utf8 (take ?e b) = Some (take ?e b)" and ps: "split_pages n (drop ?e b) = Inr ps"
      and pages: "pages = take ?e b # ps"
      by (auto simp: split_pages.simps [of n b] Let_def result_simps from_utf8_def split: if_split_asm)
    have "?e \<le> min n (length b)" by (rule page_end_le)
    with 1(1) [OF False refl e(1) _ ps] e False show ?thesis by (auto simp: pages)
  qed
qed

lemma library_pages_Inr:
  assumes "library_pages S body = Inr pages"
  shows "concat pages = body \<and> pages \<noteq> [] \<and>
    (\<forall>page \<in> set pages. length page \<le> unat (max (lib_max_page_bytes (library S)) 1) \<and> from_utf8 page = Some page)"
proof (cases "body = []")
  case True
  with assms have "pages = [[]]" by (simp add: library_pages_def)
  with True show ?thesis by (simp add: from_utf8_def utf8_chars_def)
next
  case False
  with assms have "split_pages (unat (max (lib_max_page_bytes (library S)) 1)) body = Inr pages" by (simp add: library_pages_def)
  note ok = split_pages_Inr [OF this]
  with False have "pages \<noteq> []" by fastforce
  with ok show ?thesis by blast
qed

section \<open>A post, from the wallet to the library\<close>

lemma library_post_read_back:
  assumes "extern_ok X" and "library_post_marker_script X S author title category i n body = Inr s"
    and "wf_address author" and "addr_prefix author = net_address_prefix (network S)"
    and "from_utf8 title = Some title" and "from_utf8 category = Some category" and "from_utf8 body = Some body"
    and "unat (lib_max_title_bytes (library S)) < 2 ^ 63" and "unat (lib_max_category_bytes (library S)) < 2 ^ 63"
    and "unat (lib_max_page_bytes (library S)) < 2 ^ 63"
  shows "parse_library_marker_script X s S =
    Some (LibPost (address_to_string X author) (trim title) (trim category) i n (trim body))"
proof -
  let ?fs = "[''LIB1'', ''post'', ''v1'', address_to_string X author, hex_encode X (trim title), hex_encode X (trim category),
      show_word i, show_word n, hex_encode X (trim body)]"
  from assms(2) have s: "s = pipes ?fs"
    and len: "length (trim title) \<le> unat (lib_max_title_bytes (library S))"
      "length (trim category) \<le> unat (lib_max_category_bytes (library S))"
      "length (trim body) \<le> unat (lib_max_page_bytes (library S))"
    by (auto simp: library_post_marker_script_def library_hex_field_def result_simps Let_def split: if_split_asm)
  have "list_all plain_field ?fs"
    using plain_address [OF assms(1,3)] plain_library_words plain_hex [OF assms(1)] by simp
  then have r: "from_utf8 s = Some s" "split_on (CHR ''|'') s = ?fs"
    using pipes_read_back [of ?fs] by (simp_all add: s)
  have "starts_with s LIBRARY_SCRIPT_PREFIX"
    by (simp add: s starts_with_def LIBRARY_SCRIPT_PREFIX_def pipes_def)
  moreover have "library_author X S (address_to_string X author) = Some (address_to_string X author)"
    using parse_with_prefix_to_string [OF assms(1,3)] assms(4) by (simp add: library_author_def)
  moreover have "library_field X (hex_encode X (trim title)) (lib_max_title_bytes (library S)) = Some (trim title)"
    "library_field X (hex_encode X (trim category)) (lib_max_category_bytes (library S)) = Some (trim category)"
    "library_field X (hex_encode X (trim body)) (lib_max_page_bytes (library S)) = Some (trim body)"
    using library_field_hex [OF assms(1)] len assms(5-10) valid_utf8_trim by blast+
  ultimately show ?thesis by (simp add: parse_library_marker_script_def r parse_library_post_def)
qed

text \<open>The markers of a post and what the library makes of them.\<close>

definition post_marker :: "string \<Rightarrow> string \<Rightarrow> string \<Rightarrow> nat \<Rightarrow> nat \<times> string \<Rightarrow> library_marker" where
  "post_marker author title category n = (\<lambda>(i, page).
     LibPost author (trim title) (trim category) (of_nat i) (of_nat n) (trim page))"

lemma collect_pages:
  assumes "author \<noteq> []"
  shows "fold_r library_collect_page (map (post_marker author title category n) ps) (author, trim title, trim category, of_nat n, acc) =
    Inr (author, trim title, trim category, of_nat n, acc @ map (\<lambda>(i, page). (of_nat i, trim page)) ps)"
  by (induction ps arbitrary: acc) (auto simp: post_marker_def library_collect_page_def assms)

lemma sorted_pages:
  assumes "length pages \<le> 2 ^ 32"
  shows "sort_key fst (map (\<lambda>(i, page). (of_nat i :: u32, trim page)) (enumerate 0 pages)) =
    map (\<lambda>(i, page). (of_nat i, trim page)) (enumerate 0 pages)"
proof (rule sort_key_id_if_sorted)
  have "of_nat i \<le> (of_nat j :: u32)" if "i \<le> j" "j < length pages" for i j
    using that assms by (simp add: word_le_nat_alt unat_of_nat take_bit_nat_eq_self)
  then show "sorted (map fst (map (\<lambda>(i, page). (of_nat i :: u32, trim page)) (enumerate 0 pages)))"
    by (auto simp: sorted_iff_nth_mono nth_enumerate_eq)
qed

lemma post_applied:
  assumes "author \<noteq> []" and "pages \<noteq> []" and "length pages \<le> 2 ^ 32"
  shows "library_apply_markers S tid h t (map (post_marker author title category (length pages)) (enumerate 0 pages)) st =
    Inr (st\<lparr>ls_posts := ls_posts st @
      [\<lparr>lp_id = tid, lp_author = author, lp_title = trim title, lp_category = trim category,
        lp_body = concat (map trim pages), lp_created_height = h, lp_created_time = t, lp_edited_height = None,
        lp_edited_time = None, lp_deleted = False, lp_upvotes = 0, lp_downvotes = 0, lp_comment_count = 0\<rparr>]\<rparr>)"
proof -
  obtain p ps where pages: "pages = p # ps" using assms(2) by (cases pages) simp_all
  let ?m = "post_marker author title category (length pages)" and ?f = "\<lambda>(i, page). (of_nat i :: u32, trim page)"
  have "fold_r library_collect_page (map ?m (enumerate 0 pages)) ([], [], [], 0, []) =
      fold_r library_collect_page (map ?m (enumerate 1 ps)) (author, trim title, trim category, of_nat (length pages), [(0, trim p)])"
    using assms(1) by (simp add: pages post_marker_def library_collect_page_def)
  also have "\<dots> = Inr (author, trim title, trim category, of_nat (length pages), map ?f (enumerate 0 pages))"
    by (subst collect_pages [OF assms(1)]) (simp add: pages)
  finally have f: "fold_r library_collect_page (map ?m (enumerate 0 pages)) ([], [], [], 0, []) =
    Inr (author, trim title, trim category, of_nat (length pages), map ?f (enumerate 0 pages))" .
  have "map (snd \<circ> ?f) (enumerate 0 pages) = map trim pages"
    by (rule nth_equalityI) (simp_all add: nth_enumerate_eq)
  moreover obtain ms where "map ?m (enumerate 0 pages) = LibPost author (trim title) (trim category) 0 (of_nat (length pages)) (trim p) # ms"
    by (simp add: pages post_marker_def)
  ultimately show ?thesis
    using f sorted_pages [OF assms(3)] by (simp add: library_apply_markers_def)
qed

lemma map_r_nth: "map_r f xs = Inr ys \<Longrightarrow> i < length xs \<Longrightarrow> f (xs ! i) = Inr (ys ! i)"
  by (induction xs arbitrary: ys i) (auto simp: result_simps nth_Cons' less_Suc_eq_0_disj)

lemma map_filter_all: "\<forall>x \<in> set xs. f x = Some (g x) \<Longrightarrow> List.map_filter f xs = map g xs"
  by (induction xs) (simp_all add: List.map_filter_simps)

lemma map_filter_none: "\<forall>x \<in> set xs. f x = None \<Longrightarrow> List.map_filter f xs = []"
  by (induction xs) (simp_all add: List.map_filter_simps)

lemma markers_in_append:
  assumes "tx_outputs tx = outs @ change" and "length outs = length ms"
    and "\<And>i. i < length outs \<Longrightarrow> parse (script_pubkey (outs ! i)) = Some (ms ! i)"
    and "\<forall>out \<in> set change. parse (script_pubkey out) = None"
  shows "map (fst \<circ> snd) (markers_in parse tx) = ms"
proof -
  let ?f = "\<lambda>(idx, out). map_option (\<lambda>m. (idx, m, out_value out)) (parse (script_pubkey out))"
  have "List.map_filter ?f (enumerate 0 outs) = map (\<lambda>(i, out). (i, ms ! i, out_value out)) (enumerate 0 outs)"
    by (rule map_filter_all) (auto simp: in_set_enumerate_eq assms(3))
  moreover have "List.map_filter ?f (enumerate (length outs) change) = []"
    by (rule map_filter_none) (use assms(4) in \<open>auto simp: in_set_enumerate_eq\<close>)
  moreover have "map (fst \<circ> snd \<circ> (\<lambda>(i, out). (i, ms ! i, out_value out))) (enumerate 0 outs) = ms"
    by (rule nth_equalityI) (simp_all add: assms(2) nth_enumerate_eq)
  ultimately show ?thesis
    by (simp add: markers_in_def assms(1) enumerate_append_eq List.map_filter_def)
qed

lemma library_post_markers:
  assumes "extern_ok X" and "wallet_env_ok X W" and "wallet_ok X W S w"
    and "create_library_post_transaction X W S w c title category body fee = Inr tx"
    and "from_utf8 title = Some title" and "from_utf8 category = Some category"
    and "unat (lib_max_title_bytes (library S)) < 2 ^ 63" and "unat (lib_max_category_bytes (library S)) < 2 ^ 63"
    and "unat (lib_max_page_bytes (library S)) < 2 ^ 63"
  shows "\<exists>author pages. default_wallet_address X S w = Inr author \<and> library_pages S body = Inr pages \<and>
    length pages \<le> unat (lib_max_pages_per_post (library S)) \<and>
    map (fst \<circ> snd) (library_markers_in_tx X tx S) =
      map (post_marker (address_to_string X author) title category (length pages)) (enumerate 0 pages)"
proof -
  let ?out = "\<lambda>n author (idx, page). rbind (amount_from_atoms (lib_marker_output_atoms (library S))) (\<lambda>v.
      rbind (library_post_marker_script X S author title category (of_nat idx) (of_nat n) page) (\<lambda>script.
      Inr \<lparr>out_value = v, script_pubkey = script\<rparr>))"
  from assms(4) obtain author pages target sel outs where author: "default_wallet_address X S w = Inr author"
    and pages: "library_pages S body = Inr pages" and few: "length pages \<le> unat (lib_max_pages_per_post (library S))"
    and sel: "select_signed_inputs_for_target X W S w c target = Inr sel"
    and outs: "map_r (?out (length pages) author) (enumerate 0 pages) = Inr outs"
    and s: "signed_spend X sel target outs (Inr author) = Inr tx"
    by (auto simp: create_library_post_transaction_def library_ready_def result_simps Let_def not_less split: if_split_asm)
  note ok = library_pages_Inr [OF pages]
  from author have wf: "wf_address author" "addr_prefix author = net_address_prefix (network S)"
    using address_from_str_wf [OF assms(1)] by (auto simp: default_wallet_address_def result_simps parse_with_prefix_Inr)
  from select_any_Inr [OF sel] obtain req e
    where "select_from X W S w c (pending_spent_outpoints c) req target e = Inr sel" by blast
  from signed_spend_for [OF assms(1-3) this s] obtain n change where txo: "tx_outputs tx = outs @ change"
    and change: "change_output (n - target) (Inr author) = Inr change" by (rule signed_for_inputs)
  have "pays_keys change" using change_pays(4) [OF change] wf(1) by (simp add: wf_address_def)
  then have none: "\<forall>out \<in> set change. parse_library_marker_script X (script_pubkey out) S = None"
    using p2pkh_no_marker(6) by (auto simp: pays_keys_def)
  let ?ms = "map (post_marker (address_to_string X author) title category (length pages)) (enumerate 0 pages)"
  have len: "length outs = length pages" using map_r_length [OF outs] by simp
  have read: "parse_library_marker_script X (script_pubkey (outs ! i)) S = Some (?ms ! i)" if i: "i < length outs" for i
  proof -
    obtain v script where o: "outs ! i = \<lparr>out_value = v, script_pubkey = script\<rparr>" by (cases "outs ! i")
    from map_r_nth [OF outs, of i] i len
    have script: "library_post_marker_script X S author title category (of_nat i) (of_nat (length pages)) (pages ! i) = Inr script"
      by (auto simp: nth_enumerate_eq result_simps o)
    have "from_utf8 (pages ! i) = Some (pages ! i)" using ok i len by simp
    from library_post_read_back [OF assms(1) script wf assms(5,6) this assms(7-9)] show ?thesis
      using i len by (simp add: o post_marker_def nth_enumerate_eq)
  qed
  have ms: "map (fst \<circ> snd) (library_markers_in_tx X tx S) = ?ms"
    unfolding library_markers_in_tx_def by (rule markers_in_append [OF txo _ read none]) (simp_all add: len)
  with author pages few show ?thesis by blast
qed

text \<open>
  C22: A library post is read back page by page. The pages of a post that a wallet builds are the text
  of its body in order, each a valid text within the page size; the library reads from the
  transaction one marker per page, signed with the wallet's default address, and puts them together to
  one post whose body is the concatenation of the pages, each of them without the white space at its
  ends.
\<close>

theorem library_post_reads_back:
  assumes "extern_ok X" and "wallet_env_ok X W" and "wallet_ok X W S w"
    and "create_library_post_transaction X W S w c title category body fee = Inr tx"
    and "from_utf8 title = Some title" and "from_utf8 category = Some category"
    and "unat (lib_max_title_bytes (library S)) < 2 ^ 63" and "unat (lib_max_category_bytes (library S)) < 2 ^ 63"
    and "unat (lib_max_page_bytes (library S)) < 2 ^ 63" and "unat (lib_max_pages_per_post (library S)) < 2 ^ 32"
  shows "\<exists>author pages. default_wallet_address X S w = Inr author \<and> library_pages S body = Inr pages \<and> concat pages = body \<and>
    (\<forall>page \<in> set pages. length page \<le> unat (max (lib_max_page_bytes (library S)) 1) \<and> from_utf8 page = Some page) \<and>
    library_apply_markers S tid h t (map (fst \<circ> snd) (library_markers_in_tx X tx S)) st =
      Inr (st\<lparr>ls_posts := ls_posts st @
        [\<lparr>lp_id = tid, lp_author = address_to_string X author, lp_title = trim title, lp_category = trim category,
          lp_body = concat (map trim pages), lp_created_height = h, lp_created_time = t, lp_edited_height = None,
          lp_edited_time = None, lp_deleted = False, lp_upvotes = 0, lp_downvotes = 0, lp_comment_count = 0\<rparr>]\<rparr>)"
proof -
  from library_post_markers [OF assms(1-9)] obtain author pages where a: "default_wallet_address X S w = Inr author"
    and pages: "library_pages S body = Inr pages" and few: "length pages \<le> unat (lib_max_pages_per_post (library S))"
    and ms: "map (fst \<circ> snd) (library_markers_in_tx X tx S) =
      map (post_marker (address_to_string X author) title category (length pages)) (enumerate 0 pages)" by blast
  note ok = library_pages_Inr [OF pages]
  have nonempty: "address_to_string X author \<noteq> []" by (simp add: address_to_string_def)
  have "length pages \<le> 2 ^ 32" using few assms(10) by linarith
  with ok a pages show ?thesis
    by (intro exI [of _ author] exI [of _ pages]) (simp add: ms post_applied [OF nonempty])
qed

end
