(* ===== verification/WalletExample.thy ===== *)
theory WalletExample
  imports WalletSafety WalletPost NodeExample
begin

text \<open>
  A wallet on the node of \<open>NodeExample\<close>: its one key owns the reward of the first mined block, and it
  pays two recipients with it. The properties of wallets are applied to it.
\<close>

section \<open>The wallet\<close>

definition ex_secret :: bytes where
  "ex_secret = replicate 32 (CHR 0x00)"

definition ex_wallet_env :: wallet_env where
  "ex_wallet_env = \<lparr>pk_of_secret = (\<lambda>secret. secret), utxo_iter = sorted_list_of_fmap, plain_keys_env = True\<rparr>"

definition ex_wallet_key :: wallet_key where
  "ex_wallet_key = \<lparr>wk_address = address_to_string ref_extern ex_owner, wk_public_key_hex = hex_encode ref_extern ex_secret,
     wk_secret_key_hex = hex_encode ref_extern ex_secret, wk_label = ''main'', wk_created_height = 0\<rparr>"

definition ex_wallet_file :: wallet_file where
  "ex_wallet_file = \<lparr>wl_version = 1, wl_network = ''regtest'', wl_keys = [ex_wallet_key], wl_default_index = Some 0\<rparr>"

lemma ex_env_ok: "wallet_env_ok ref_extern ex_wallet_env"
proof -
  have "(p, coin) \<in> set (sorted_list_of_fmap u) \<longleftrightarrow> fmlookup u p = Some coin" for u :: utxo_map and p coin
    using map_of_sorted_list_of_fmap [of u p] distinct_sorted_list_of_fmap [of u] by (metis map_of_eq_Some_iff)
  then show ?thesis
    by (simp add: wallet_env_ok_def ex_wallet_env_def distinct_sorted_list_of_fmap ref_extern_def)
qed

lemma ex_secret_owner: "address_from_public_key ref_extern ''qub'' ex_secret = ex_owner"
  by (simp add: ex_owner_def address_from_public_key_def public_key_hash_def ref_extern_def pad_digest_def ex_secret_def
      numeral_eq_Suc)

lemma ex_wallet_created:
  "create_key ref_extern ex_wallet_env ex_node_settings ''main'' 0 ex_secret (wallet_new ''regtest'') =
    Inr (ex_wallet_key, ex_wallet_file)"
  by (simp add: create_key_def ensure_plaintext_wallet_allowed_def ex_wallet_env_def ex_network_def ex_secret_owner
      wallet_new_def ex_wallet_key_def ex_wallet_file_def secret_key_to_hex_def Let_def)

lemma ex_wallet_ok: "wallet_ok ref_extern ex_wallet_env ex_node_settings ex_wallet_file"
  using create_key_ok [OF ref_extern_ok wallet_new_ok _ _ ex_wallet_created]
  by (simp add: ex_secret_def ref_extern_def)

lemma ex_wallet_keys:
  "secret_key_from_hex ref_extern (wk_secret_key_hex ex_wallet_key) = Inr ex_secret"
  "wallet_public_key ref_extern ex_wallet_key = Inr ex_secret"
  by (simp_all add: secret_key_from_hex_def wallet_public_key_def ex_wallet_key_def trim_hex ref_extern_ok hex_roundtrip)
    (simp_all add: ref_extern_def ex_secret_def)

lemma ex_default_address: "default_wallet_address ref_extern ex_node_settings ex_wallet_file = Inr ex_owner"
  using parse_ex_address [OF ex_owner(1,2)]
  by (simp add: default_wallet_address_def default_address_def default_key_def ex_wallet_file_def ex_wallet_key_def ex_network_def)

section \<open>The coin of the first block\<close>

definition ex_reward_coin :: "outpoint \<times> coin_record" where
  "ex_reward_coin = (OutPoint (txid ref_extern (hd (blk_transactions ex_mined))) 0,
     \<lparr>coin_out = \<lparr>out_value = 500000000, script_pubkey = ex_script\<rparr>, coin_height = 1, coin_is_coinbase = True\<rparr>)"

lemma ex_mempool_empty: "cs_mempool ex_next = []"
proof -
  from reachable_ok [OF ex_start_reachable] have "chain_ok ref_extern ex_node_settings ex_start" by (simp add: node_ok_def)
  from connect_block_Inr(4) [OF ex_connected this] show ?thesis by (auto simp: ex_start_def)
qed

lemma valid_chain_single: "valid_chain X S [g] u \<Longrightarrow> u = fmempty"
  by (erule valid_chain.cases) (auto dest: valid_chain_nonempty)

lemma ex_next_utxos: "cs_utxos ex_next = fmupd (fst ex_reward_coin) (snd ex_reward_coin) fmempty"
proof -
  from reachable_ok [OF ex_next_reachable] have "valid_chain ref_extern ex_node_settings [ex_genesis, ex_mined] (cs_utxos ex_next)"
    by (simp add: node_ok_def chain_ok_def ex_next_blocks)
  then obtain u ids where u: "valid_chain ref_extern ex_node_settings [ex_genesis] u"
    and ch: "check_and_apply_block ref_extern ex_node_settings [ex_genesis] u (block_hash ref_extern ex_genesis) 1 ex_mined =
      Inr (ids, cs_utxos ex_next)"
    by (rule valid_chain.cases) (auto simp: Cons_eq_append_conv append_eq_Cons_conv)
  note con = check_and_apply_Inr(9) [OF ch, unfolded valid_chain_single [OF u]]
  note cb = create_coinbase_Inr [OF ex_coinbase]
  have "blk_transactions ex_mined = [hd (blk_transactions ex_mined)]"
    using ex_mined_txs ex_mined_some by (cases "blk_transactions ex_mined") simp_all
  then obtain cb where txs: "blk_transactions ex_mined = [cb]" by blast
  with con have "connect_tx_utxos ref_extern cb 1 True fmempty = Inr (cs_utxos ex_next)"
    by (auto simp: connect_block_utxos_def result_simps)
  with cb(3) txs ex_owner(3) show ?thesis
    by (simp add: connect_tx_utxos_def is_pool_share_transaction_def create_output_def ex_reward_coin_def)
qed

section \<open>A payment\<close>

definition ex_payments :: "(address \<times> amount) list" where
  "ex_payments = [(ex_owner, 100), (ex_miner, 200)]"

lemma ex_selection:
  "select_signed_inputs_for_target ref_extern ex_wallet_env ex_node_settings ex_wallet_file ex_next 100300 =
    Inr ([(fst ex_reward_coin, snd ex_reward_coin, ex_wallet_key)], 500000000)"
proof -
  have coins: "utxo_iter ex_wallet_env (cs_utxos ex_next) = [ex_reward_coin]"
    by (simp add: ex_wallet_env_def ex_next_utxos sorted_list_of_fmap_def sorted_list_of_fset.rep_eq)
  have "p2pkh_payload ex_script = Some (public_key_hash ref_extern ex_secret)"
    using ex_payload by (simp add: public_key_hash_def ref_extern_def pad_digest_def ex_secret_def numeral_eq_Suc)
  then have key: "key_for_coin ref_extern ex_wallet_file (snd ex_reward_coin) = Inr (Some ex_wallet_key)"
    by (simp add: key_for_coin_def ex_reward_coin_def ex_wallet_file_def ex_wallet_keys)
  have "pending_spent_outpoints ex_next = {}" by (simp add: pending_spent_outpoints_def mempool_spent_def ex_mempool_empty)
  then show ?thesis using key
    by (simp add: select_signed_inputs_for_target_def select_signed_inputs_for_target_from_script_def select_from_def
        coins is_immature_coinbase_def) (simp add: ex_reward_coin_def checked_add_def is_immature_coinbase_def)
qed

lemma ex_signed:
  assumes "tx_inputs tx = [\<lparr>previous_output = p, signature_script = [], sequence = U32_MAX\<rparr>]"
  shows "\<exists>tx'. sign_selected_transaction ref_extern tx [(p, coin, ex_wallet_key)] = Inr tx'"
proof -
  have "length (double_sha256 ref_extern b) = 32" for b by (simp add: length_double_sha256 ref_extern_ok)
  then show ?thesis using assms
    by (simp add: sign_selected_transaction_def sign_input_def ex_wallet_keys sighash_all_def sign_hash_def
        encode_sig_script_def) (simp add: ref_extern_def ex_secret_def)
qed

lemma ex_payment_built:
  "\<exists>tx. create_multi_signed_transaction ref_extern ex_wallet_env ex_node_settings ex_wallet_file ex_next ex_payments 100000 = Inr tx"
  using ex_selection ex_owner ex_miner
  by (simp add: create_multi_signed_transaction_def ex_payments_def multi_send_total_def own_prefix_def ex_network_def
      checked_add_def signed_spend_def change_output_def ex_default_address tx_output_def amount_from_atoms_def
      MAX_MONEY_ATOMS_val ex_signed unsigned_tx_def)

lemma wallet_spends_authorised_witness:
  "\<exists>tx. create_multi_signed_transaction ref_extern ex_wallet_env ex_node_settings ex_wallet_file ex_next ex_payments 100000 = Inr tx \<and>
    (\<forall>i < length (tx_inputs tx). input_authorised ref_extern tx (cs_utxos ex_next) 2 ex_node_settings i)"
proof -
  obtain tx where tx: "create_multi_signed_transaction ref_extern ex_wallet_env ex_node_settings ex_wallet_file ex_next
      ex_payments 100000 = Inr tx" using ex_payment_built by blast
  have "length (cs_blocks ex_next) < 2 ^ 32" "chain_height ex_next + 1 = 2" by (simp_all add: ex_next_blocks chain_height_def)
  with wallet_spends_authorised [OF ref_extern_ok ex_env_ok ex_wallet_ok _ wallet_sends.multi [OF tx]] tx
  show ?thesis by auto
qed

lemma wallet_payment_accepted_witness:
  "\<exists>tx. create_multi_signed_transaction ref_extern ex_wallet_env ex_node_settings ex_wallet_file ex_next ex_payments 100000 = Inr tx \<and>
    accept_transaction_to_mempool ref_extern ex_node_settings tx ex_next = (Inr (txid ref_extern tx), push_tx tx ex_next) \<and>
    inputs_total (cs_utxos ex_next) (tx_inputs tx) = outputs_total tx + 100000"
proof -
  obtain tx where tx: "create_multi_signed_transaction ref_extern ex_wallet_env ex_node_settings ex_wallet_file ex_next
      ex_payments 100000 = Inr tx" using ex_payment_built by blast
  have "utxo_total (cs_utxos ex_next) = 500000000" by (simp add: ex_next_utxos ex_reward_coin_def utxo_total_def fm_total_def coin_value_def)
  moreover have "fmlookup (cs_utxos ex_next) outpoint_null = None"
    by (simp add: ex_next_utxos ex_reward_coin_def outpoint_null_def)
  moreover have "wallet_pays ref_extern ex_wallet_env ex_node_settings ex_wallet_file ex_next ex_payments 100000 tx"
    by (simp add: wallet_pays_def tx)
  moreover have "\<forall>(recipient, amount) \<in> set ex_payments. length (addr_payload recipient) = 20"
    using ex_owner(1) ex_miner(1) by (simp add: ex_payments_def wf_address_def)
  ultimately show ?thesis
    using wallet_payment_accepted [OF ref_extern_ok ex_env_ok ex_wallet_ok ex_next_reachable, of ex_payments 100000 tx] tx
    by (simp add: ex_next_blocks ex_mempool_empty ex_mempool_def ex_consensus_def MAX_MONEY_ATOMS_val
        effective_mempool_max_transactions_def HF115_EFFECTIVE_MEMPOOL_MAX_TRANSACTIONS_def min_def)
qed

section \<open>A post\<close>

text \<open>With pages of two bytes the text \<open>a b\<close> is cut after its blank, which the library does not give back.\<close>

definition ex_post_settings :: settings where
  "ex_post_settings = ex_lib_settings\<lparr>library := ex_library\<lparr>lib_activation_height := 0, lib_max_page_bytes := 2\<rparr>\<rparr>"

definition ex_post_state :: chain_state where
  "ex_post_state = \<lparr>cs_network = ''regtest'', cs_blocks = [ex_genesis], cs_utxos = ex_coin 1000000000, cs_mempool = []\<rparr>"

lemma ex_post_settings_simps:
  "network ex_post_settings = ex_network ''regtest''" "library_active ex_post_settings h"
  "library ex_post_settings = ex_library\<lparr>lib_activation_height := 0, lib_max_page_bytes := 2\<rparr>"
  by (simp_all add: ex_post_settings_def ex_lib_settings_def library_active_def ex_library_def)

lemma ex_post_wallet_ok: "wallet_ok ref_extern ex_wallet_env ex_post_settings ex_wallet_file"
  using ex_wallet_ok by (simp add: wallet_ok_def key_ok_def ex_post_settings_simps)

lemma ex_page_split: "split_pages 2 ''a b'' = Inr [''a '', ''b'']"
  by code_simp

lemma ex_two: "\<not> (2 :: usize) \<le> 1" "\<not> (2 :: u32) \<le> 1"
  by (simp_all add: word_le_nat_alt)

lemma ex_pages: "library_pages ex_post_settings ''a b'' = Inr [''a '', ''b'']"
  using ex_page_split by (simp add: library_pages_def ex_post_settings_simps max_def ex_two)

lemma ex_page_trims: "trim ''a '' = ''a''" "trim ''b'' = ''b''" "trim ''t'' = ''t''" "trim ''c'' = ''c''"
  by code_simp+

lemma ex_post_built:
  "\<exists>tx. create_library_post_transaction ref_extern ex_wallet_env ex_post_settings ex_wallet_file ex_post_state
    ''t'' ''c'' ''a b'' 1000 = Inr tx"
proof -
  have "p2pkh_payload ex_script = Some (public_key_hash ref_extern ex_secret)"
    using ex_payload by (simp add: public_key_hash_def ref_extern_def pad_digest_def ex_secret_def numeral_eq_Suc)
  then have key: "key_for_coin ref_extern ex_wallet_file \<lparr>coin_out = \<lparr>out_value = v, script_pubkey = ex_script\<rparr>,
      coin_height = 0, coin_is_coinbase = False\<rparr> = Inr (Some ex_wallet_key)" for v
    by (simp add: key_for_coin_def ex_wallet_file_def ex_wallet_keys)
  have "pending_spent_outpoints ex_post_state = {}" by (simp add: pending_spent_outpoints_def mempool_spent_def ex_post_state_def)
  moreover have "utxo_iter ex_wallet_env (cs_utxos ex_post_state) = [(ex_outpoint, \<lparr>coin_out = \<lparr>out_value = 1000000000,
      script_pubkey = ex_script\<rparr>, coin_height = 0, coin_is_coinbase = False\<rparr>)]"
    by (simp add: ex_wallet_env_def ex_post_state_def ex_coin_def sorted_list_of_fmap_def sorted_list_of_fset.rep_eq)
  ultimately have sel: "\<exists>p coin. select_signed_inputs_for_target ref_extern ex_wallet_env ex_post_settings ex_wallet_file ex_post_state 11502 =
    Inr ([(p, coin, ex_wallet_key)], 1000000000)"
    by (simp add: select_signed_inputs_for_target_def select_signed_inputs_for_target_from_script_def select_from_def
        is_immature_coinbase_def key checked_add_def)
  have "default_wallet_address ref_extern ex_post_settings ex_wallet_file = Inr ex_owner"
    using ex_default_address by (simp add: default_wallet_address_def ex_post_settings_simps)
  with sel show ?thesis using ex_owner
    by (auto simp: create_library_post_transaction_def library_ready_def ex_post_settings_simps ex_pages
      library_post_price_atoms_def checked_add_def checked_mul_def library_post_marker_script_def library_hex_field_def
      ex_page_trims signed_spend_def change_output_def tx_output_def amount_from_atoms_def MAX_MONEY_ATOMS_val ex_signed
      unsigned_tx_def ex_library_def Let_def ex_two)
qed

lemma library_post_reads_back_witness:
  "\<exists>tx st p. create_library_post_transaction ref_extern ex_wallet_env ex_post_settings ex_wallet_file ex_post_state
      ''t'' ''c'' ''a b'' 1000 = Inr tx \<and>
    library_apply_markers ex_post_settings ''id'' 1 0 (map (fst \<circ> snd) (library_markers_in_tx ref_extern tx ex_post_settings))
      \<lparr>ls_posts = [], ls_comments = []\<rparr> = Inr st \<and> ls_posts st = [p] \<and> lp_body p = ''ab''"
proof -
  have u: "from_utf8 ''t'' = Some ''t''" "from_utf8 ''c'' = Some ''c''" by code_simp+
  obtain tx where tx: "create_library_post_transaction ref_extern ex_wallet_env ex_post_settings ex_wallet_file
      ex_post_state ''t'' ''c'' ''a b'' 1000 = Inr tx" using ex_post_built by blast
  show ?thesis
    using library_post_reads_back [OF ref_extern_ok ex_env_ok ex_post_wallet_ok tx u, of "''id''" 1 0 "\<lparr>ls_posts = [], ls_comments = []\<rparr>"]
      tx ex_pages
    by (auto simp: ex_post_settings_simps ex_library_def ex_page_trims)
qed

end
