(* ===== verification/SettingsCheck.thy ===== *)
theory SettingsCheck
  imports NodeSafety
begin

text \<open>
  The check of a configuration (\<open>Settings::validate\<close> of \<open>src/lib.rs\<close>, \<open>validate_pools_settings\<close> of
  \<open>src/pools.rs\<close>), section by section in the order of the code, and what a loaded configuration
  guarantees: a node starts with it, the divisors of the consensus code are not zero, and on mainnet
  the overridden sections do not depend on the file.
\<close>

section \<open>Model\<close>

definition parse_magic :: "settings \<Rightarrow> u32 result" where
  "parse_magic S = parse_u32 (net_magic (network S))"

definition validate_core_settings :: "settings \<Rightarrow> unit result" where
  "validate_core_settings S =
     rbind (parse_magic S) (\<lambda>_.
     rbind (pow_bits S) (\<lambda>_.
     rbind (genesis_bits S) (\<lambda>_.
     if mine_duty_cycle_percent (mining S) = 0 \<or> mine_duty_cycle_percent (mining S) > 100
     then Inl (SettingsErr InvalidDutyCycle)
     else if cons_subsidy_halving_interval (consensus S) = 0 then Inl (SettingsErr ZeroHalvingInterval)
     else if cons_difficulty_adjustment_interval (consensus S) = 0 then Inl (SettingsErr ZeroDifficultyInterval)
     else if cons_difficulty_max_adjustment_factor (consensus S) < 2 then Inl (SettingsErr DifficultyFactorTooSmall)
     else if p2p_max_message_bytes (p2p S) < 1024 then Inl (SettingsErr P2pMessageBytesTooSmall)
     else if p2p_max_blocks_per_message (p2p S) = 0 then Inl (SettingsErr P2pBlocksPerMessageZero)
     else Inr ())))"

definition validate_qns_settings :: "extern \<Rightarrow> settings \<Rightarrow> unit result" where
  "validate_qns_settings X S =
     (if \<not> qns_enabled (qns S) then Inr ()
      else if qns_max_label_chars (qns S) = 0 \<or> qns_max_label_chars (qns S) > 64
      then Inl (SettingsErr QnsLabelCharsRange)
      else if qns_marker_output_atoms (qns S) = 0 then Inl (SettingsErr QnsMarkerAtomsZero)
      else if trim (qns_protocol_address (qns S)) = [] then Inl (SettingsErr QnsProtocolAddressUnset) else
      rbind (parse_with_prefix X (qns_protocol_address (qns S)) (net_address_prefix (network S))) (\<lambda>_.
      rbind (normalize_qns_name (qns_protocol_name (qns S)) (qns_max_label_chars (qns S))) (\<lambda>_. Inr ())))"

definition validate_jin_settings :: "extern \<Rightarrow> settings \<Rightarrow> unit result" where
  "validate_jin_settings X S =
     (if \<not> jin_enabled (jin S) then Inr ()
      else if jin_decimals (jin S) \<noteq> 18 then Inl (SettingsErr JinDecimalsNot18)
      else if jin_activation_height (jin S) = 0 then Inl (SettingsErr JinActivationZero)
      else if jin_marker_output_atoms (jin S) = 0 then Inl (SettingsErr JinMarkerAtomsZero) else
      rbind (parse_jin_units_raw (jin_total_supply_units (jin S))) (\<lambda>supply.
      if supply \<noteq> JIN_TOTAL_SUPPLY_UNITS then Inl (SettingsErr JinSupplyMismatch) else
      rbind (parse_jin_units_raw (jin_default_fee_units (jin S))) (\<lambda>_.
      rbind (parse_with_prefix X (jin_protocol_address (jin S)) (net_address_prefix (network S))) (\<lambda>_.
      if trim (jin_bridge_name (jin S)) = [] then Inl (SettingsErr JinBridgeNameUnset) else Inr ()))))"

definition validate_jin_swap_settings :: "settings \<Rightarrow> unit result" where
  "validate_jin_swap_settings S =
     (if \<not> swap_enabled (jin_swap S) then Inr ()
      else if swap_marker_output_atoms (jin_swap S) = 0 then Inl (SettingsErr JinSwapMarkerAtomsZero)
      else if swap_protocol_fee_bps (jin_swap S) \<noteq> 10 then Inl (SettingsErr JinSwapFeeBps) else
      rbind (parse_jin_units_raw (swap_sale_total_units (jin_swap S))) (\<lambda>_.
      rbind (parse_jin_units_raw (swap_sale_batch_units (jin_swap S))) (\<lambda>_.
      if swap_sale_start_price_atoms_per_jin (jin_swap S) = 0 then Inl (SettingsErr JinSwapStartPriceZero)
      else Inr ())))"

definition validate_library_settings :: "settings \<Rightarrow> unit result" where
  "validate_library_settings S = (let l = library S in
     if \<not> lib_enabled l then Inr ()
     else if lib_marker_output_atoms l = 0 then Inl (SettingsErr LibraryMarkerAtomsZero)
     else if lib_max_title_bytes l = 0 \<or> lib_max_title_bytes l > 512 then Inl (SettingsErr LibraryTitleRange)
     else if lib_max_category_bytes l = 0 \<or> lib_max_category_bytes l > 128 then Inl (SettingsErr LibraryCategoryRange)
     else if lib_max_page_bytes l = 0 \<or> lib_max_page_bytes l > 8192 then Inl (SettingsErr LibraryPageRange)
     else if lib_max_pages_per_post l = 0 \<or> unat (lib_max_pages_per_post l) > MAX_SEND_ENTRIES_PER_TX
     then Inl (SettingsErr LibraryPagesRange)
     else if lib_max_comment_bytes l = 0 \<or> lib_max_comment_bytes l > 4096 then Inl (SettingsErr LibraryCommentRange)
     else Inr ())"

definition validate_pools_settings :: "extern \<Rightarrow> settings \<Rightarrow> unit result" where
  "validate_pools_settings X S = (let p = pools S in
     if \<not> (ps_enabled p \<and> feat_pooled_mining_enabled (features S)) then Inr ()
     else if ps_activation_height p = 0 then Inl (PoolsSettingsErr PoolsActivationZero)
     else if trim (ps_protocol_name p) = [] then Inl (PoolsSettingsErr PoolsNameUnset)
     else if trim (ps_protocol_address p) = [] then Inl (PoolsSettingsErr PoolsAddressUnset) else
     rbind (parse_with_prefix X (ps_protocol_address p) (net_address_prefix (network S))) (\<lambda>_.
     rbind (normalize_qns_name (ps_protocol_name p) (qns_max_label_chars (qns S))) (\<lambda>_.
     if ps_max_name_chars p = 0 \<or> ps_max_name_chars p > 64 then Inl (PoolsSettingsErr PoolsNameCharsRange)
     else if ps_max_name_bytes p = 0 \<or> ps_max_name_bytes p > 256 then Inl (PoolsSettingsErr PoolsNameBytesRange)
     else if ps_marker_output_atoms p = 0 then Inl (PoolsSettingsErr PoolsMarkerAtomsZero)
     else if ps_base_create_atoms p = 0 then Inl (PoolsSettingsErr PoolsBaseCreateZero)
     else if ps_base_capacity_slots p = 0 then Inl (PoolsSettingsErr PoolsBaseCapacityZero)
     else if ps_capacity_step_slots p = 0 then Inl (PoolsSettingsErr PoolsStepSlotsZero)
     else if ps_capacity_step_atoms p = 0 then Inl (PoolsSettingsErr PoolsStepAtomsZero)
     else if ps_max_capacity_slots p < ps_base_capacity_slots p then Inl (PoolsSettingsErr PoolsMaxCapacityTooSmall)
     else if ps_max_active_pools p = 0 then Inl (PoolsSettingsErr PoolsMaxActiveZero)
     else if ps_max_commission_bps p > 10000 then Inl (PoolsSettingsErr PoolsMaxCommissionRange)
     else if ps_share_window_blocks p = 0 then Inl (PoolsSettingsErr PoolsShareWindowZero)
     else if ps_share_stale_blocks p = 0 then Inl (PoolsSettingsErr PoolsShareStaleZero)
     else if ps_max_share_txs_per_block p = 0 then Inl (PoolsSettingsErr PoolsMaxSharesZero)
     else if sat_add (ps_max_share_txs_per_block p) 1 > cons_max_block_transactions (consensus S)
     then Inl (PoolsSettingsErr PoolsNoRoomForCoinbase) else
     rbind (parse_share_bits S) (\<lambda>_. Inr ()))))"

definition validate_rpc_settings :: "settings \<Rightarrow> unit result" where
  "validate_rpc_settings S = (let r = rpc S in
     if rpc_max_connections r = 0 \<or> rpc_max_connections r > 4096 then Inl (SettingsErr RpcConnectionsRange)
     else if rpc_max_requests_per_minute r = 0 then Inl (SettingsErr RpcRequestsZero)
     else if rpc_max_header_bytes r < 1024 \<or> rpc_max_header_bytes r > 1024 * 1024 then Inl (SettingsErr RpcHeaderRange)
     else if rpc_max_body_bytes r < 1024 \<or> rpc_max_body_bytes r > 16 * 1024 * 1024 then Inl (SettingsErr RpcBodyRange)
     else if rpc_read_timeout_secs r = 0 \<or> rpc_write_timeout_secs r = 0 then Inl (SettingsErr RpcTimeoutZero)
     else if rpc_job_ttl_secs r < 10 \<or> rpc_job_ttl_secs r > 3600 then Inl (SettingsErr RpcJobTtlRange)
     else if rpc_max_template_batch r = 0 \<or> rpc_max_template_batch r > 128 then Inl (SettingsErr RpcTemplateBatchRange)
     else if rpc_max_cached_jobs r < rpc_max_template_batch r \<or> rpc_max_cached_jobs r > 8192
     then Inl (SettingsErr RpcCachedJobsRange)
     else Inr ())"

definition validate_settings :: "extern \<Rightarrow> settings \<Rightarrow> unit result" where
  "validate_settings X S =
     rbind (validate_core_settings S) (\<lambda>_.
     rbind (validate_qns_settings X S) (\<lambda>_.
     rbind (validate_jin_settings X S) (\<lambda>_.
     rbind (validate_jin_swap_settings S) (\<lambda>_.
     rbind (validate_library_settings S) (\<lambda>_.
     rbind (validate_pools_settings X S) (\<lambda>_.
     validate_rpc_settings S))))))"

text \<open>\<open>load_from_path\<close> after the file is parsed.\<close>

definition load_settings :: "extern \<Rightarrow> settings \<Rightarrow> settings result" where
  "load_settings X parsed = (let S = apply_network_consensus_overrides parsed in
     rbind (validate_settings X S) (\<lambda>_. Inr S))"

section \<open>What a loaded configuration guarantees\<close>

lemma validate_settings_Inr:
  assumes "validate_settings X S = Inr ()"
  shows "validate_core_settings S = Inr ()" and "validate_qns_settings X S = Inr ()" and "validate_jin_settings X S = Inr ()"
    and "validate_jin_swap_settings S = Inr ()" and "validate_library_settings S = Inr ()"
    and "validate_pools_settings X S = Inr ()" and "validate_rpc_settings S = Inr ()"
  using assms by (simp_all add: validate_settings_def result_simps)

lemma core_settings_Inr:
  assumes "validate_core_settings S = Inr ()"
  shows "(\<exists>b. pow_bits S = Inr b) \<and> (\<exists>b. genesis_bits S = Inr b) \<and>
    cons_subsidy_halving_interval (consensus S) \<noteq> 0 \<and> cons_difficulty_adjustment_interval (consensus S) \<noteq> 0 \<and>
    2 \<le> cons_difficulty_max_adjustment_factor (consensus S)"
  using assms by (auto simp: validate_core_settings_def result_simps not_less split: if_split_asm)

lemma pools_settings_Inr:
  assumes "validate_pools_settings X S = Inr ()" and "pools_enabled S"
  shows "ps_base_capacity_slots (pools S) \<noteq> 0 \<and> ps_capacity_step_slots (pools S) \<noteq> 0 \<and>
    ps_base_capacity_slots (pools S) \<le> ps_max_capacity_slots (pools S) \<and> ps_max_commission_bps (pools S) \<le> 10000 \<and>
    ps_share_window_blocks (pools S) \<noteq> 0 \<and>
    min (unat (ps_max_share_txs_per_block (pools S)) + 1) (2 ^ 64 - 1) \<le> unat (cons_max_block_transactions (consensus S)) \<and>
    (\<exists>bits. parse_share_bits S = Inr bits)"
  using assms
  by (auto simp: validate_pools_settings_def pools_enabled_def Let_def result_simps not_less word_le_nat_alt
      unat_sat_add split: if_split_asm)

text \<open>
  On mainnet the sections of the sale, the pools and the library are the same whatever the file says,
  and so are the activation heights.
\<close>

lemma mainnet_sections_fixed:
  assumes "net_name (network S) = ''mainnet''" and "net_name (network T) = ''mainnet''"
  shows "jin_swap (apply_network_consensus_overrides S) = jin_swap (apply_network_consensus_overrides T)"
    and "pools (apply_network_consensus_overrides S) = pools (apply_network_consensus_overrides T)"
    and "library (apply_network_consensus_overrides S) = library (apply_network_consensus_overrides T)"
    and "qns_activation_height (qns (apply_network_consensus_overrides S)) =
      qns_activation_height (qns (apply_network_consensus_overrides T))"
    and "jin_activation_height (jin (apply_network_consensus_overrides S)) =
      jin_activation_height (jin (apply_network_consensus_overrides T))"
  using assms
  by (simp_all add: apply_network_consensus_overrides_def mainnet_swap_def mainnet_pools_def mainnet_library_def)

text \<open>The consensus section is not overridden: the money supply of a mainnet node is what its file says.\<close>

lemma consensus_not_overridden: "consensus (apply_network_consensus_overrides S) = consensus S"
  by (simp add: apply_network_consensus_overrides_def)

text \<open>
  C40: A node starts with every configuration that loads. The genesis block exists, so there is an
  initial state, and it is a state of the node, and no divisor of the subsidy and of the retargeting is
  zero. When pools are enabled, the divisor of the pool prices is not zero either, a commission is at
  most the whole, and the shares a block may carry leave room for its coinbase.
\<close>

theorem loaded_settings_start_node:
  assumes "load_settings X parsed = Inr S"
  shows "(\<exists>c. new_with_genesis X S = Inr c \<and> node_reachable X S c \<and> cs_utxos c = fmempty \<and> length (cs_blocks c) = 1) \<and>
    cons_subsidy_halving_interval (consensus S) \<noteq> 0 \<and> cons_difficulty_adjustment_interval (consensus S) \<noteq> 0 \<and>
    2 \<le> cons_difficulty_max_adjustment_factor (consensus S) \<and>
    (pools_enabled S \<longrightarrow> ps_capacity_step_slots (pools S) \<noteq> 0 \<and> ps_max_commission_bps (pools S) \<le> 10000 \<and>
      min (unat (ps_max_share_txs_per_block (pools S)) + 1) (2 ^ 64 - 1) \<le> unat (cons_max_block_transactions (consensus S)))"
proof -
  from assms have v: "validate_settings X S = Inr ()" by (auto simp: load_settings_def Let_def result_simps)
  note core = core_settings_Inr [OF validate_settings_Inr(1) [OF v]]
  then obtain bits where "genesis_bits S = Inr bits" by blast
  then have "\<exists>c. new_with_genesis X S = Inr c \<and> cs_utxos c = fmempty \<and> length (cs_blocks c) = 1"
    by (simp add: new_with_genesis_def genesis_block_def Let_def)
  with core pools_settings_Inr [OF validate_settings_Inr(6) [OF v]] show ?thesis
    by (blast intro: node_reachable.start)
qed

text \<open>An example: names and JIN switched off, any pool settings, the rest as on the main network.\<close>

definition ex_plain_settings :: "pools_settings \<Rightarrow> settings" where
  "ex_plain_settings p = (example_settings ''local'')\<lparr>qns := ex_qns\<lparr>qns_enabled := False\<rparr>,
     jin := ex_jin\<lparr>jin_enabled := False\<rparr>, pools := p\<rparr>"

lemma ex_bits_parse: "\<exists>b. parse_u32 ''0x1d07ffff'' = Inr b" "\<exists>b. parse_u32 ''0x4d425542'' = Inr b"
proof -
  have t: "trim ''0x1d07ffff'' = ''0x1d07ffff''" "trim ''0x4d425542'' = ''0x4d425542''"
    by (rule trim_graphic, simp_all add: is_ascii_graphic_def)+
  show "\<exists>b. parse_u32 ''0x1d07ffff'' = Inr b" "\<exists>b. parse_u32 ''0x4d425542'' = Inr b"
    by (simp_all add: parse_u32_def t strip_prefix_def starts_with_def from_str_radix_def digit_val_def
        char_class_defs less_eq_char_def)
qed

lemma ex_plain_loads:
  assumes "validate_pools_settings X (ex_plain_settings p) = Inr ()"
  shows "load_settings X (ex_plain_settings p) = Inr (ex_plain_settings p)"
proof -
  have "\<exists>u. parse_jin_units_raw ''85000000000000000000000000'' = Inr u"
    "\<exists>u. parse_jin_units_raw ''1000000000000000000000000'' = Inr u"
    using ex_sale_units
    by (auto simp: jin_swap_sale_total_units_def jin_swap_sale_batch_units_def ex_jin_swap_def)
  then have "validate_jin_swap_settings (ex_plain_settings p) = Inr ()"
    by (auto simp: validate_jin_swap_settings_def ex_plain_settings_def ex_jin_swap_def)
  moreover have "validate_core_settings (ex_plain_settings p) = Inr ()"
    using ex_bits_parse
    by (auto simp: validate_core_settings_def ex_plain_settings_def parse_magic_def pow_bits_def genesis_bits_def
        ex_network_def ex_consensus_def ex_mining_def ex_p2p_def)
  moreover have "validate_qns_settings X (ex_plain_settings p) = Inr ()" "validate_jin_settings X (ex_plain_settings p) = Inr ()"
    by (simp_all add: validate_qns_settings_def validate_jin_settings_def ex_plain_settings_def Let_def)
  moreover have "validate_library_settings (ex_plain_settings p) = Inr ()" "validate_rpc_settings (ex_plain_settings p) = Inr ()"
    by (simp_all add: validate_library_settings_def validate_rpc_settings_def ex_plain_settings_def ex_library_def
        ex_rpc_def Let_def)
  moreover have "apply_network_consensus_overrides (ex_plain_settings p) = ex_plain_settings p"
    by (simp add: apply_network_consensus_overrides_def ex_plain_settings_def ex_network_def)
  ultimately show ?thesis using assms by (simp add: load_settings_def validate_settings_def)
qed

text \<open>With pools enabled, as on the main network.\<close>

definition ex_open_pools :: pools_settings where
  "ex_open_pools = ex_pools\<lparr>ps_protocol_address := address_to_string ref_extern (ex_addr (CHR ''p''))\<rparr>"

lemma ex_open_loads: "load_settings ref_extern (ex_plain_settings ex_open_pools) = Inr (ex_plain_settings ex_open_pools)"
proof (rule ex_plain_loads)
  have "trim ''0x1e00ffff'' = ''0x1e00ffff''" "trim ''pools.qub'' = ''pools.qub''"
    by (rule trim_graphic, simp_all add: is_ascii_graphic_def)+
  then have "\<exists>b. parse_share_bits (ex_plain_settings ex_open_pools) = Inr b" "trim ''pools.qub'' \<noteq> []"
    by (simp_all add: parse_share_bits_def ex_plain_settings_def ex_open_pools_def ex_pools_def strip_prefix_def
        starts_with_def from_str_radix_def digit_val_def char_class_defs less_eq_char_def)
  moreover have "parse_with_prefix ref_extern (address_to_string ref_extern (ex_addr (CHR ''p''))) ''qub'' = Inr (ex_addr (CHR ''p''))"
    using parse_with_prefix_to_string [OF ref_extern_ok ex_addr_wf(1), of "CHR ''p''"] by (simp add: ex_addr_wf)
  moreover have "trim (address_to_string ref_extern (ex_addr (CHR ''p''))) \<noteq> []"
    using trim_address [OF ref_extern_ok ex_addr_wf(1), of "CHR ''p''"] by (simp add: address_to_string_def ex_addr_wf)
  ultimately show "validate_pools_settings ref_extern (ex_plain_settings ex_open_pools) = Inr ()"
    using normalize_fixed [OF ex_name_ok(3)]
    by (auto simp: validate_pools_settings_def ex_plain_settings_def ex_open_pools_def ex_pools_def ex_features_def
        ex_network_def ex_qns_def ex_consensus_def sat_add_def Let_def)
qed

text \<open>
  With pools switched off the step of the capacity is not looked at; the prices of pools, which the
  wallet and the previews compute without asking whether pools are on, divide by it.
\<close>

lemma zero_step_loads:
  "\<exists>S. load_settings X S = Inr S \<and> ps_capacity_step_slots (pools S) = 0 \<and> \<not> pools_enabled S"
proof -
  let ?S = "ex_plain_settings (ex_pools\<lparr>ps_enabled := False, ps_capacity_step_slots := 0\<rparr>)"
  have "validate_pools_settings X ?S = Inr ()" by (simp add: validate_pools_settings_def ex_plain_settings_def Let_def)
  from ex_plain_loads [OF this] show ?thesis
    by (intro exI [of _ ?S]) (simp add: ex_plain_settings_def pools_enabled_def)
qed

theorem loaded_settings_start_node_witness:
  "(\<exists>c. new_with_genesis ref_extern (ex_plain_settings ex_open_pools) = Inr c \<and>
      node_reachable ref_extern (ex_plain_settings ex_open_pools) c) \<and>
    pools_enabled (ex_plain_settings ex_open_pools) \<and> ps_capacity_step_slots ex_open_pools \<noteq> 0"
proof -
  have "pools_enabled (ex_plain_settings ex_open_pools)"
    by (simp add: pools_enabled_def ex_plain_settings_def ex_open_pools_def ex_pools_def ex_features_def)
  moreover have "pools (ex_plain_settings ex_open_pools) = ex_open_pools" by (simp add: ex_plain_settings_def)
  ultimately show ?thesis using loaded_settings_start_node [OF ex_open_loads] by auto
qed

end
