(* ===== verification/Spec2Isabelle.thy ===== *)
theory Spec2Isabelle
  imports Difficulty Bridge LibraryThreads LiveExample WalletExample SettingsCheck
begin

text \<open>
  A model of the consensus core of QUB Core (\<open>src/src/lib.rs\<close>, \<open>src/src/pools.rs\<close>) and of its chain
  storage (\<open>src/src/fast_storage.rs\<close>): the pure functions and the state changes that decide which
  transactions and blocks a node accepts, what its state is afterwards, and what of it a crash leaves.

  \<^bold>\<open>The program.\<close> A node keeps a list of blocks and the unspent outputs (\<open>ChainState\<close>). Protocol
  data beside coins lives in marker outputs, texts in the script of an output: names (QNS), the JIN
  coin, its public sale, the QUB/JIN infusion, library posts, mining pools. None of it is stored:
  each registry or ledger is the replay of the marker outputs of the chain
  (\<open>*_from_blocks\<close>), and every transaction and block is checked against such a replay before it is
  accepted (\<open>validate_*_block\<close>). Most of what can go wrong is that the check and the replay
  disagree, so that an accepted block is not replayed as it was checked; the theories prove for each
  registry that a checked block can be replayed, and for names, sale, library and pools what the replay
  then records; lemmas name the places where governance records something else than was checked
  (\<open>gov_reject_recorded_differently\<close>, \<open>gov_check_ignores_infusion\<close>).

  \<^bold>\<open>Conventions.\<close> Bytes, scripts and UTF-8 strings are character lists; machine integers are words,
  \<open>usize\<close> being 64 bits wide; the plain arithmetic of a release build wraps and the checked and
  saturating operations are those of \<open>RustStr\<close>. \<open>HashMap\<close> is a finite map, and its iteration, whose
  order the sources do not rely on, runs in key order. \<open>anyhow::Result\<close> is the sum type \<open>result\<close> with one
  error constructor per message (theory \<open>Errors\<close>). A function over \<open>&mut\<close> state whose partial changes
  survive an error is a state-and-error function \<open>se\<close> (theory \<open>StateErr\<close>); where the caller drops the
  state on error it is a function to \<open>result\<close>. The settings are a record with the fields of the TOML
  file (theory \<open>Settings\<close>). Code outside the repository (SHA-256, RIPEMD-160, hexadecimal text,
  secp256k1, the clock) is the record \<open>extern\<close>, passed as the first argument; \<open>extern_ok\<close> states what is
  relied on: lengths of digests and that hexadecimal decoding inverts encoding. \<open>ref_extern\<close> is an
  instance for the examples.

  \<^bold>\<open>The theories\<close>, in the order of the code:
  \<^item> \<open>Prelude\<close>, \<open>RustStr\<close>, \<open>Errors\<close>, \<open>StateErr\<close>, \<open>Extern\<close>: lists, maps and words, the Rust string and
    integer operations, errors, state with errors, parameters. The locale \<open>checked_replay\<close> states what
    a check and a replay of one transaction must have in common and proves that then a checked block is
    replayed; \<open>prefix_code\<close> states that a serialisation can be cut off the front of a byte string.
  \<^item> \<open>Amounts\<close>: \<open>Amount\<close>, decimal texts of QUB and JIN amounts; round trips.
  \<^item> \<open>Primitives\<close>: \<open>Hash256\<close>, \<open>OutPoint\<close>, \<open>Transaction\<close>, \<open>BlockHeader\<close>, \<open>Block\<close>; serialisation is
    unambiguous and a Merkle root binds its transactions, or a collision is exhibited.
  \<^item> \<open>Addresses\<close>: addresses, P2PKH scripts, signature scripts; round trips.
  \<^item> \<open>Settings\<close>, \<open>SettingsCheck\<close>: \<open>Settings\<close>, its derived values and the example networks; what
    \<open>load_from_path\<close> overrides and checks, and that every loaded configuration gives a node.
  \<^item> \<open>Difficulty\<close>: compact targets, proof of work, retargeting, chain work; numeric meaning and bounds.
  \<^item> \<open>Coins\<close>, \<open>Connect\<close>: coinbase subsidy, stateless checks, spending and creating outputs, in place
    (\<open>connect_tx_utxos\<close> as written) and as a function of the whole map, with their equivalence.
  \<^item> \<open>Blast\<close>, \<open>TxValidation\<close>: vault outputs and their claims, contextual validation of a transaction;
    every input is authorised, except for the vault coin of a claim, and value is conserved.
  \<^item> \<open>Qns\<close>, \<open>Jin\<close>, \<open>Infusion\<close>, \<open>JinSale\<close>, \<open>Library\<close>: markers, prices, state, replay, checks.
    \<open>LibraryThreads\<close>: the comments of a checked chain are threads of what its blocks posted.
  \<^item> \<open>PoolMarkers\<close>, \<open>PoolRegistry\<close>: pool actions and shares, the registry of pools.
  \<^item> \<open>PoolWindow\<close>, \<open>PoolPayout\<close>, \<open>PoolBlocks\<close>, \<open>PoolChain\<close>: the share window and the validation context,
    the split of a reward, the pool checks of a block, and what a chain of checked blocks guarantees;
    \<open>PoolExample\<close> is a concrete chain with a pool and a share.
  \<^item> \<open>JinLedger\<close>, \<open>JinChain\<close>, \<open>JinSupply\<close>: the JIN ledger rebuilt from the blocks with infusion, sale and
    governance locks, the checks of a transaction against chain and mempool and of a block; no JIN is
    created, and the infusion vault is backed.
  \<^item> \<open>GovMarkers\<close>, \<open>GovState\<close>, \<open>Governance\<close>: applications, reports, votes and decisions of verified
    accounts: markers, state and locks, replay and checks. \<open>Bridge\<close>: the markers of the USDJ bridge.
  \<^item> \<open>BlockRules\<close>: \<open>validate_block\<close>, the shape, work, time, fees and coinbase of a block.
  \<^item> \<open>Mempool\<close>, \<open>ChainState\<close>: admission to the mempool and its rebuild; connecting a block, checking and
    loading a chain, adopting the chain of a peer.
  \<^item> \<open>Node\<close>, \<open>NodeSafety\<close>: the steps of a node as a relation, the states it reaches and their
    invariant: the chain is checked, the mempool is sound, the supply capped, work never lost.
  \<^item> \<open>Mining\<close>, \<open>Template\<close>, \<open>PoolTemplate\<close>: block templates and the search for a nonce; a mined block is
    accepted by the node that mined it when nothing was taken into it that the template and the block check
    judge differently (governance actions; in a pool block also JIN). \<open>NodeExample\<close> is a concrete node with a pending payment, a
    mined block and a pool block.
  \<^item> \<open>Wallet\<close>, \<open>WalletBuild\<close>: \<open>WalletFile\<close>: keys, selection of coins, signing, and the builders of
    every kind of transaction. \<open>WalletSafety\<close>: whatever a builder signs spends only mature coins of the
    wallet, with valid signatures, and the node admits its payments when they meet its limits. \<open>WalletPost\<close>: what becomes of the
    text of a library post. The order in which the \<open>HashMap\<close> of coins is iterated matters to a selection
    and is a parameter (\<open>wallet_env\<close>). \<open>WalletExample\<close> is a wallet on the node of \<open>NodeExample\<close>.
  \<^item> \<open>Disk\<close>, \<open>FastStorage\<close>, \<open>FastCommit\<close>: the Fast Chain Engine. A commit is a journal of blocks, a state
    file and the pointers \<open>CURRENT\<close> and \<open>PREVIOUS\<close>; reading checks lengths, hashes and links and falls
    back on the previous commit; writing appends to the journal or starts a new one, under a lock file.
    On the disk any write attempt may fail (\<open>dk_fails\<close>), which is also how a crash is expressed: all
    attempts from some point on fail. Replacing a file (write a temporary one, rename) is one attempt,
    as \<open>rename\<close> is atomic on Unix; appending is an attempt per byte, so an append can be torn anywhere.
    Attempts take effect in their order. \<open>serde_json\<close> and the text of \<open>BigUint\<close> are the parameter
    \<open>codec\<close>, with \<open>codec_ok\<close> for the round trips of single values and \<open>json_ok\<close> for the grammar of arrays
    and objects; the text of \<open>chain.json\<close>, which the program puts together itself, and the reading of its
    fields are definitions. The clock and the process table are the parameter \<open>store_env\<close>.
  \<^item> \<open>FastRead\<close>, \<open>FastSafety\<close>, \<open>FastAtomic\<close>, \<open>FastDurable\<close>: what a stored commit is and that it loads,
    rules for the outcome of a program whether it fails or not, that a commit leaves the old commit or
    the new one, and that a saved chain survives any later saves. \<open>FastProgress\<close>: on a disk that works,
    saving succeeds. The theorems exclude two different blocks with the same hash
    (\<open>no_hash_collision\<close>) and clocks at the end of 64 bits. \<open>FastExample\<close>: saving the chain of \<open>NodeExample\<close>.
  \<^item> \<open>LivePublish\<close>, \<open>LiveWorker\<close>: the chain an embedded node owns (\<open>live_node\<close>), \<open>save_chain\<close>, and the
    threads that bring a saved chain to its owner, who locks and unlocks it, as a step relation. \<open>LiveExample\<close> is a run of them.

  \<^bold>\<open>Bounds.\<close> Block heights are 32-bit words; theorems about a chain assume at most \<open>2 ^ 32\<close> blocks
  where a height could wrap. No definition uses fuel: every loop of the modelled code is structural
  or has a measure (the Merkle loop, the \<open>while\<close> loops of the difficulty code, decimal and
  hexadecimal digits), and the eight passes of a mempool rebuild are the code's own bound. The exception
  is the search for a nonce, which need not end: it is a partial function whose value \<open>None\<close> is an
  endless search, and \<open>mining_ends\<close> states when it returns. Rust panics on division by zero and on an index out of range, which HOL does not;
  the divisors here are settings that the settings validation forces to be positive, and indexes are
  guarded by the conditions in front of them. One divisor escapes the validation: with pools switched
  off a capacity step of zero loads (\<open>zero_step_loads\<close>), and the pool prices then panic.

  \<^bold>\<open>Not modelled\<close>: the process-wide caches of replayed state (transparent by design: a cache entry
  is keyed by the hash of the tip), the counters of the storage engine and its fallback when \<open>rename\<close> cannot
  replace a file, reading and writing the other files (settings, wallet, outbox), peer to peer, RPC, the
  command line, the GPU miner and the graphical programs. TOML parsing is not modelled; the settings
  are the parsed value.
\<close>

end
